(* ===== verification/GoPrelude.thy ===== *)
theory GoPrelude
  imports Main "HOL-Library.Word"
begin

text \<open>
  What the components share: Go strings as byte strings, the functions of Go's
  \<^verbatim>\<open>strings\<close> and \<^verbatim>\<open>strconv\<close> packages the sources call, and generic lemmas on
  lists.  A Go \<^verbatim>\<open>string\<close> is a sequence of bytes, here a list of Isabelle's 8-bit
  characters.  White space is Unicode's, recognised on its UTF-8 bytes, as
  \<^verbatim>\<open>unicode.IsSpace\<close> has it; case mapping acts on the ASCII letters and leaves every
  other byte alone.
\<close>

named_theorems go_eval \<open>definitions unfolded to evaluate a closed term\<close>
named_theorems trim_ids \<open>strings that trimming leaves alone\<close>

type_synonym gostring = string

section \<open>Bytes\<close>

definition byte :: "char \<Rightarrow> nat" where
  [go_eval]: "byte c = of_char c"

definition is_lower :: "char \<Rightarrow> bool" where
  [go_eval]: "is_lower c \<longleftrightarrow> 97 \<le> byte c \<and> byte c \<le> 122"

definition is_upper :: "char \<Rightarrow> bool" where
  [go_eval]: "is_upper c \<longleftrightarrow> 65 \<le> byte c \<and> byte c \<le> 90"

definition is_digit :: "char \<Rightarrow> bool" where
  [go_eval]: "is_digit c \<longleftrightarrow> 48 \<le> byte c \<and> byte c \<le> 57"

definition lower_byte :: "char \<Rightarrow> char" where
  [go_eval]: "lower_byte c = (if is_upper c then char_of (byte c + 32) else c)"

definition upper_byte :: "char \<Rightarrow> char" where
  [go_eval]: "upper_byte c = (if is_lower c then char_of (byte c - 32) else c)"

definition to_lower :: "gostring \<Rightarrow> gostring" where
  [go_eval]: "to_lower s = map lower_byte s"

definition to_upper :: "gostring \<Rightarrow> gostring" where
  [go_eval]: "to_upper s = map upper_byte s"

definition equal_fold :: "gostring \<Rightarrow> gostring \<Rightarrow> bool" where
  [go_eval]: "equal_fold s t \<longleftrightarrow> to_lower s = to_lower t"

lemma byte_less: "byte c < 256"
  by (simp add: byte_def)

lemma byte_char_of: "n < 256 \<Longrightarrow> byte (char_of n) = n"
  by (simp add: byte_def of_char_of)

lemma lower_byte_not_upper: "\<not> is_upper (lower_byte c)"
  by (auto simp: lower_byte_def is_upper_def byte_char_of)

lemma lower_byte_idem [simp]: "lower_byte (lower_byte c) = lower_byte c"
  using lower_byte_not_upper [of c] by (simp add: lower_byte_def [of "lower_byte c"])

lemma to_lower_idem [simp]: "to_lower (to_lower s) = to_lower s"
  by (simp add: to_lower_def)

lemma to_lower_append [simp]: "to_lower (s @ t) = to_lower s @ to_lower t"
  by (simp add: to_lower_def)

lemma to_lower_Nil_iff [simp]: "to_lower s = [] \<longleftrightarrow> s = []"
  by (simp add: to_lower_def)

lemma length_to_lower [simp]: "length (to_lower s) = length s"
  by (simp add: to_lower_def)

lemma equal_fold_refl [simp]: "equal_fold s s"
  by (simp add: equal_fold_def)

section \<open>White space: \<^verbatim>\<open>strings.TrimSpace\<close> and \<^verbatim>\<open>strings.Fields\<close>\<close>

text \<open>
  The number of bytes of the white-space rune a string starts with, or 0: the ASCII spaces,
  U+0085 and U+00A0 in two bytes, U+1680, U+2000 to U+200A, U+2028, U+2029, U+202F, U+205F and
  U+3000 in three.
\<close>

definition wide_space :: "nat \<Rightarrow> nat \<Rightarrow> nat \<Rightarrow> bool" where
  [go_eval]: "wide_space a b c \<longleftrightarrow>
     a = 225 \<and> b = 154 \<and> c = 128 \<or>
     a = 226 \<and> b = 128 \<and> (128 \<le> c \<and> c \<le> 138 \<or> c = 168 \<or> c = 169 \<or> c = 175) \<or>
     a = 226 \<and> b = 129 \<and> c = 159 \<or>
     a = 227 \<and> b = 128 \<and> c = 128"

definition ascii_space :: "char \<Rightarrow> bool" where
  [go_eval]: "ascii_space c \<longleftrightarrow> byte c = 32 \<or> 9 \<le> byte c \<and> byte c \<le> 13"

fun space_prefix :: "gostring \<Rightarrow> nat" where
  "space_prefix [] = 0"
| "space_prefix [a] = (if ascii_space a then 1 else 0)"
| "space_prefix [a, b] =
     (if ascii_space a then 1
      else if byte a = 194 \<and> (byte b = 133 \<or> byte b = 160) then 2 else 0)"
| "space_prefix (a # b # c # s) =
     (if ascii_space a then 1
      else if byte a = 194 \<and> (byte b = 133 \<or> byte b = 160) then 2
      else if wide_space (byte a) (byte b) (byte c) then 3 else 0)"

text \<open>The same at the end of a string, given reversed.\<close>

fun space_suffix :: "gostring \<Rightarrow> nat" where
  "space_suffix [] = 0"
| "space_suffix [a] = (if ascii_space a then 1 else 0)"
| "space_suffix [b, a] =
     (if ascii_space b then 1
      else if byte a = 194 \<and> (byte b = 133 \<or> byte b = 160) then 2 else 0)"
| "space_suffix (c # b # a # s) =
     (if ascii_space c then 1
      else if byte b = 194 \<and> (byte c = 133 \<or> byte c = 160) then 2
      else if wide_space (byte a) (byte b) (byte c) then 3 else 0)"

function trim_left :: "gostring \<Rightarrow> gostring" where
  "trim_left s =
     (if space_prefix s = 0 \<or> s = [] then s else trim_left (drop (space_prefix s) s))"
  by pat_completeness auto
termination
  by (relation "measure length") auto

function trim_right_rev :: "gostring \<Rightarrow> gostring" where
  "trim_right_rev s =
     (if space_suffix s = 0 \<or> s = [] then s else trim_right_rev (drop (space_suffix s) s))"
  by pat_completeness auto
termination
  by (relation "measure length") auto

declare trim_left.simps [simp del] trim_right_rev.simps [simp del]

definition trim_space :: "gostring \<Rightarrow> gostring" where
  [go_eval]: "trim_space s = rev (trim_right_rev (rev (trim_left s)))"

definition solid :: "char \<Rightarrow> bool" where
  "solid c \<longleftrightarrow> \<not> ascii_space c \<and> byte c < 128"

lemma space_prefix_solid [simp]: "solid c \<Longrightarrow> space_prefix (c # s) = 0"
  by (cases "c # s" rule: space_prefix.cases) (auto simp: solid_def wide_space_def)

lemma space_suffix_solid [simp]: "solid c \<Longrightarrow> space_suffix (c # s) = 0"
  by (cases "c # s" rule: space_suffix.cases) (auto simp: solid_def wide_space_def)

lemma trim_left_solid [simp]: "solid c \<Longrightarrow> trim_left (c # s) = c # s"
  by (simp add: trim_left.simps)

lemma trim_right_rev_solid [simp]: "solid c \<Longrightarrow> trim_right_rev (c # s) = c # s"
  by (simp add: trim_right_rev.simps)

lemma trim_left_Nil [simp]: "trim_left [] = []"
  by (simp add: trim_left.simps)

lemma trim_right_rev_Nil [simp]: "trim_right_rev [] = []"
  by (simp add: trim_right_rev.simps)

lemma trim_space_Nil [simp]: "trim_space [] = []"
  by (simp add: trim_space_def)

lemma trim_space_ends [trim_ids]:
  assumes "s \<noteq> []" and "solid (hd s)" and "solid (last s)"
  shows "trim_space s = s"
proof -
  have "trim_left s = s"
    using assms(1,2) by (cases s) simp_all
  moreover have "trim_right_rev (rev s) = rev s"
    using assms(1,3) by (cases s rule: rev_cases) simp_all
  ultimately show ?thesis
    by (simp add: trim_space_def)
qed

lemma trim_space_singleton [trim_ids]: "solid c \<Longrightarrow> trim_space [c] = [c]"
  by (rule trim_space_ends) simp_all

lemma trim_left_suffix: "\<exists>p. s = p @ trim_left s"
proof (induction s rule: trim_left.induct)
  case (1 s)
  show ?case
  proof (cases "space_prefix s = 0 \<or> s = []")
    case True
    then show ?thesis by (simp add: trim_left.simps [of s])
  next
    case False
    then obtain p where "drop (space_prefix s) s = p @ trim_left (drop (space_prefix s) s)"
      using 1 by blast
    then have "s = (take (space_prefix s) s @ p) @ trim_left (drop (space_prefix s) s)"
      by (metis append.assoc append_take_drop_id)
    moreover have "trim_left s = trim_left (drop (space_prefix s) s)"
      using False by (simp add: trim_left.simps [of s])
    ultimately show ?thesis
      by metis
  qed
qed

lemma trim_right_rev_suffix: "\<exists>p. s = p @ trim_right_rev s"
proof (induction s rule: trim_right_rev.induct)
  case (1 s)
  show ?case
  proof (cases "space_suffix s = 0 \<or> s = []")
    case True
    then show ?thesis by (simp add: trim_right_rev.simps [of s])
  next
    case False
    then obtain p where
      "drop (space_suffix s) s = p @ trim_right_rev (drop (space_suffix s) s)"
      using 1 by blast
    then have "s = (take (space_suffix s) s @ p) @ trim_right_rev (drop (space_suffix s) s)"
      by (metis append.assoc append_take_drop_id)
    moreover have "trim_right_rev s = trim_right_rev (drop (space_suffix s) s)"
      using False by (simp add: trim_right_rev.simps [of s])
    ultimately show ?thesis
      by metis
  qed
qed

lemma set_trim_space: "set (trim_space s) \<subseteq> set s"
proof -
  obtain p where "s = p @ trim_left s"
    using trim_left_suffix by blast
  then have "set (trim_left s) \<subseteq> set s"
    by (metis set_append sup_ge2)
  moreover obtain p' where "rev (trim_left s) = p' @ trim_right_rev (rev (trim_left s))"
    using trim_right_rev_suffix by blast
  then have "set (trim_right_rev (rev (trim_left s))) \<subseteq> set (trim_left s)"
    by (metis set_append set_rev sup_ge2)
  ultimately show ?thesis
    by (auto simp: trim_space_def)
qed

lemma space_prefix_append: "space_prefix u \<noteq> 0 \<Longrightarrow> space_prefix (u @ w) \<noteq> 0"
  by (cases u rule: space_prefix.cases; cases w rule: space_prefix.cases) (auto split: if_splits)

lemma space_prefix_trim_left: "trim_left s = [] \<or> space_prefix (trim_left s) = 0"
proof (induction s rule: trim_left.induct)
  case (1 s)
  then show ?case
    by (cases "space_prefix s = 0 \<or> s = []") (auto simp: trim_left.simps [of s])
qed

lemma space_suffix_trim_right_rev: "trim_right_rev s = [] \<or> space_suffix (trim_right_rev s) = 0"
proof (induction s rule: trim_right_rev.induct)
  case (1 s)
  then show ?case
    by (cases "space_suffix s = 0 \<or> s = []") (auto simp: trim_right_rev.simps [of s])
qed

lemma trim_space_idem [simp]: "trim_space (trim_space s) = trim_space s"
proof -
  define t where "t = trim_right_rev (rev (trim_left s))"
  obtain p where "rev (trim_left s) = p @ t"
    using trim_right_rev_suffix t_def by blast
  then have "trim_left s = rev t @ rev p"
    by (metis rev_append rev_rev_ident)
  then have "space_prefix (rev t) = 0"
    using space_prefix_trim_left [of s] space_prefix_append [of "rev t" "rev p"] by force
  then have "trim_left (rev t) = rev t"
    by (simp add: trim_left.simps)
  moreover have "trim_right_rev t = t"
    using space_suffix_trim_right_rev [of "rev (trim_left s)"]
    by (auto simp: t_def trim_right_rev.simps [of "trim_right_rev _"])
  ultimately show ?thesis
    by (simp add: trim_space_def t_def)
qed

function fields_from :: "gostring \<Rightarrow> gostring \<Rightarrow> gostring list" where
  "fields_from cur [] = (if cur = [] then [] else [cur])"
| "fields_from cur (c # cs) =
     (if space_prefix (c # cs) = 0 then fields_from (cur @ [c]) cs
      else (if cur = [] then [] else [cur]) @
           fields_from [] (drop (space_prefix (c # cs)) (c # cs)))"
  by pat_completeness auto
termination
  by (relation "measure (\<lambda>(cur, s). length s)") auto

definition fields :: "gostring \<Rightarrow> gostring list" where
  [go_eval]: "fields s = fields_from [] s"

section \<open>Searching, splitting and joining\<close>

fun has_prefix :: "gostring \<Rightarrow> gostring \<Rightarrow> bool" where
  "has_prefix s [] \<longleftrightarrow> True"
| "has_prefix [] (p # ps) \<longleftrightarrow> False"
| "has_prefix (c # cs) (p # ps) \<longleftrightarrow> c = p \<and> has_prefix cs ps"

lemma has_prefix_iff: "has_prefix s p \<longleftrightarrow> (\<exists>t. s = p @ t)"
  by (induction s p rule: has_prefix.induct) auto

lemma has_prefix_append [simp]: "has_prefix (p @ t) p"
  by (auto simp: has_prefix_iff)

text \<open>\<^verbatim>\<open>strings.Index\<close>: the first position of a substring.\<close>

fun str_index :: "gostring \<Rightarrow> gostring \<Rightarrow> nat option" where
  "str_index [] p = (if p = [] then Some 0 else None)"
| "str_index (c # cs) p =
     (if has_prefix (c # cs) p then Some 0 else map_option Suc (str_index cs p))"

definition str_contains :: "gostring \<Rightarrow> gostring \<Rightarrow> bool" where
  [go_eval]: "str_contains s p \<longleftrightarrow> str_index s p \<noteq> None"

lemma str_index_Some:
  "str_index s p = Some n \<Longrightarrow> n + length p \<le> length s \<and> take (length p) (drop n s) = p"
proof (induction s arbitrary: n)
  case (Cons c cs)
  show ?case
  proof (cases "has_prefix (c # cs) p")
    case True
    then obtain t where "c # cs = p @ t"
      by (auto simp: has_prefix_iff)
    moreover from True Cons.prems have "n = 0" by simp
    ultimately show ?thesis by simp
  next
    case False
    with Cons show ?thesis by auto
  qed
qed (auto split: if_splits)

lemma str_contains_iff: "str_contains s p \<longleftrightarrow> (\<exists>u v. s = u @ p @ v)"
proof (induction s)
  case Nil
  then show ?case by (simp add: str_contains_def)
next
  case (Cons c cs)
  have "(\<exists>u v. c # cs = u @ p @ v) \<longleftrightarrow> has_prefix (c # cs) p \<or> (\<exists>u v. cs = u @ p @ v)"
    by (auto simp: has_prefix_iff Cons_eq_append_conv)
  with Cons show ?case
    by (auto simp: str_contains_def)
qed

text \<open>\<^verbatim>\<open>strings.LastIndex\<close> of a single byte, and \<^verbatim>\<open>strings.Split\<close> at one.\<close>

fun last_index :: "gostring \<Rightarrow> char \<Rightarrow> nat option" where
  "last_index [] d = None"
| "last_index (c # cs) d =
     (case last_index cs d of
        Some n \<Rightarrow> Some (Suc n)
      | None \<Rightarrow> if c = d then Some 0 else None)"

lemma last_index_None: "last_index s d = None \<longleftrightarrow> d \<notin> set s"
  by (induction s) (auto split: option.splits)

lemma last_index_Some: "last_index s d = Some n \<Longrightarrow> n < length s \<and> s ! n = d"
  by (induction s arbitrary: n) (auto split: option.splits if_splits)

fun split_on :: "char \<Rightarrow> gostring \<Rightarrow> gostring list" where
  "split_on d [] = [[]]"
| "split_on d (c # cs) =
     (if c = d then [] # split_on d cs
      else (case split_on d cs of p # ps \<Rightarrow> (c # p) # ps | [] \<Rightarrow> [[c]]))"

lemma split_on_nonempty [simp]: "split_on d s \<noteq> []"
  by (induction s) (auto split: list.splits)

fun join :: "gostring \<Rightarrow> gostring list \<Rightarrow> gostring" where
  "join sep [] = []"
| "join sep [s] = s"
| "join sep (s # t # ts) = s @ sep @ join sep (t # ts)"

lemma join_Cons_Cons: "join sep ((c # p) # ps) = c # join sep (p # ps)"
  by (cases ps) simp_all

lemma join_Nil_Cons: "ps \<noteq> [] \<Longrightarrow> join sep ([] # ps) = sep @ join sep ps"
  by (cases ps) simp_all

lemma join_split_on: "join [d] (split_on d s) = s"
proof (induction s)
  case (Cons c cs)
  then show ?case
    by (cases "split_on d cs") (auto simp: join_Cons_Cons join_Nil_Cons)
qed simp

text \<open>\<^verbatim>\<open>strings.ReplaceAll\<close> of one byte, \<^verbatim>\<open>strings.Trim\<close> and \<^verbatim>\<open>strings.TrimRight\<close>.\<close>

definition replace_byte :: "char \<Rightarrow> gostring \<Rightarrow> gostring \<Rightarrow> gostring" where
  [go_eval]: "replace_byte d r s = concat (map (\<lambda>c. if c = d then r else [c]) s)"

definition trim_right_set :: "char set \<Rightarrow> gostring \<Rightarrow> gostring" where
  [go_eval]: "trim_right_set cset s = rev (dropWhile (\<lambda>c. c \<in> cset) (rev s))"

definition trim_set :: "char set \<Rightarrow> gostring \<Rightarrow> gostring" where
  [go_eval]: "trim_set cset s = trim_right_set cset (dropWhile (\<lambda>c. c \<in> cset) s)"

lemma replace_byte_append [simp]:
  "replace_byte d r (s @ t) = replace_byte d r s @ replace_byte d r t"
  by (simp add: replace_byte_def)

lemma set_replace_byte: "set (replace_byte d r s) \<subseteq> set r \<union> (set s - {d})"
  by (auto simp: replace_byte_def split: if_splits)

section \<open>Decimal numbers: \<^verbatim>\<open>strconv.Itoa\<close>\<close>

definition digit_char :: "nat \<Rightarrow> char" where
  [go_eval]: "digit_char d = char_of (48 + d)"

fun nat_str :: "nat \<Rightarrow> gostring" where
  "nat_str n = (if n < 10 then [digit_char n] else nat_str (n div 10) @ [digit_char (n mod 10)])"

declare nat_str.simps [simp del]

definition int_str :: "int \<Rightarrow> gostring" where
  [go_eval]: "int_str i = (if i < 0 then CHR ''-'' # nat_str (nat (- i)) else nat_str (nat i))"

fun nat_of_digits :: "nat \<Rightarrow> gostring \<Rightarrow> nat" where
  "nat_of_digits acc [] = acc"
| "nat_of_digits acc (c # cs) = nat_of_digits (10 * acc + (byte c - 48)) cs"

lemma byte_digit_char: "d < 10 \<Longrightarrow> byte (digit_char d) = 48 + d"
  by (simp add: digit_char_def byte_char_of)

lemma is_digit_digit_char: "d < 10 \<Longrightarrow> is_digit (digit_char d)"
  by (simp add: is_digit_def byte_digit_char)

lemma nat_of_digits_append:
  "nat_of_digits acc (s @ t) = nat_of_digits (nat_of_digits acc s) t"
  by (induction s arbitrary: acc) auto

lemma nat_str_digits: "\<forall>c \<in> set (nat_str n). is_digit c"
proof (induction n rule: nat_str.induct)
  case (1 n)
  then show ?case
    by (subst nat_str.simps) (auto simp: is_digit_digit_char)
qed

lemma nat_str_nonempty [simp]: "nat_str n \<noteq> []"
  by (subst nat_str.simps) simp

lemma nat_of_digits_nat_str: "nat_of_digits 0 (nat_str n) = n"
proof (induction n rule: nat_str.induct)
  case (1 n)
  then show ?case
    by (subst nat_str.simps) (auto simp: nat_of_digits_append byte_digit_char)
qed

lemma nat_str_inject: "nat_str m = nat_str n \<longleftrightarrow> m = n"
  by (metis nat_of_digits_nat_str)

lemma int_str_inject: "int_str i = int_str j \<longleftrightarrow> i = j"
proof -
  have neg: "nat_str n \<noteq> CHR ''-'' # t" for n t
    using nat_str_digits [of n] by (auto simp: is_digit_def byte_def)
  show ?thesis
    using neg by (auto simp: int_str_def nat_str_inject dest: sym)
qed

section \<open>Lists\<close>

text \<open>Go's ``first that matches'' search loops.\<close>

fun find_first :: "('a \<Rightarrow> bool) \<Rightarrow> 'a list \<Rightarrow> 'a option" where
  "find_first P [] = None"
| "find_first P (x # xs) = (if P x then Some x else find_first P xs)"

lemma find_first_Some: "find_first P xs = Some x \<Longrightarrow> x \<in> set xs \<and> P x"
  by (induction xs) (auto split: if_splits)

lemma find_first_None: "find_first P xs = None \<longleftrightarrow> (\<forall>x \<in> set xs. \<not> P x)"
  by (induction xs) auto

lemma last_Cons_take: "xs \<noteq> [] \<Longrightarrow> last (c # xs) = last xs"
  by simp

end
