(* ===== verification/GoValues.thy ===== *)
theory GoValues
  imports GoPrelude
begin

text \<open>
  The dynamic values a query carries: Go's \<^verbatim>\<open>any\<close> restricted to the types the sources
  switch on.  Machine integers keep their width; \<^verbatim>\<open>int\<close> and \<^verbatim>\<open>uint\<close> are 64 bits wide,
  as on the platforms the module's build targets.  Floats are their IEEE bit patterns.  A nil
  slice or map is \<^term>\<open>None\<close> and differs from an empty one.  \<^term>\<open>VScalars\<close> is a slice of one
  scalar element type (\<^verbatim>\<open>[]string\<close>, \<^verbatim>\<open>[]int\<close>, ...).  \<^term>\<open>VOther\<close> stands for every
  other dynamic type (pointers, structs, driver values).
\<close>

datatype scalar_type =
    SBool | SString | SInt | SInt8 | SInt16 | SInt32 | SInt64
  | SUint | SUint16 | SUint32 | SUint64 | SFloat32 | SFloat64 | STime

text \<open>The size of a value of such a type in bytes, on a 64-bit platform.\<close>

fun scalar_size :: "scalar_type \<Rightarrow> nat" where
  "scalar_size SBool = 1"
| "scalar_size SString = 16"
| "scalar_size SInt = 8"
| "scalar_size SInt8 = 1"
| "scalar_size SInt16 = 2"
| "scalar_size SInt32 = 4"
| "scalar_size SInt64 = 8"
| "scalar_size SUint = 8"
| "scalar_size SUint16 = 2"
| "scalar_size SUint32 = 4"
| "scalar_size SUint64 = 8"
| "scalar_size SFloat32 = 4"
| "scalar_size SFloat64 = 8"
| "scalar_size STime = 24"

lemma scalar_size_pos [simp]: "0 < scalar_size t"
  by (cases t) simp_all

datatype goval =
    VNil
  | VBool bool
  | VString gostring
  | VInt "64 word"
  | VInt8 "8 word"
  | VInt16 "16 word"
  | VInt32 "32 word"
  | VInt64 "64 word"
  | VUint "64 word"
  | VUint8 "8 word"
  | VUint16 "16 word"
  | VUint32 "32 word"
  | VUint64 "64 word"
  | VFloat32 "32 word"
  | VFloat64 "64 word"
  | VTime int
  | VNumber gostring
  | VBytes "gostring option"
  | VList "goval list option"
  | VScalars scalar_type "goval list option"
  | VMap "(gostring \<times> goval) list option"
  | VOther nat

text \<open>The integer a value of an integer type holds.\<close>

fun int_of_goval :: "goval \<Rightarrow> int option" where
  "int_of_goval (VInt w) = Some (sint w)"
| "int_of_goval (VInt8 w) = Some (sint w)"
| "int_of_goval (VInt16 w) = Some (sint w)"
| "int_of_goval (VInt32 w) = Some (sint w)"
| "int_of_goval (VInt64 w) = Some (sint w)"
| "int_of_goval (VUint w) = Some (uint w)"
| "int_of_goval (VUint8 w) = Some (uint w)"
| "int_of_goval (VUint16 w) = Some (uint w)"
| "int_of_goval (VUint32 w) = Some (uint w)"
| "int_of_goval (VUint64 w) = Some (uint w)"
| "int_of_goval _ = None"

end
