(* ===== verification/SqlReference.thy ===== *)
theory SqlReference
  imports GoPrelude
begin

text \<open>
  Parsing and quoting of relation, column and aliased-value references
  (\<^verbatim>\<open>orm/internal/querybuilder/internal/common/sqlutils/reference.go\<close>).  The Go code
  walks a string by index; here a position is the suffix that starts there, and a function
  that returns the next index returns the remaining suffix.  A failed parse
  (\<^verbatim>\<open>ok == false\<close>) is \<^term>\<open>None\<close>.
\<close>

section \<open>Model\<close>

record parsed_reference =
  ref_parts :: "gostring list"
  ref_alias :: gostring

abbreviation dquote :: char where "dquote \<equiv> CHR 0x22"
abbreviation backtick :: char where "backtick \<equiv> CHR 0x60"

definition isWhitespace :: "char \<Rightarrow> bool" where
  [go_eval]: "isWhitespace ch \<longleftrightarrow>
     byte ch = 32 \<or> byte ch = 9 \<or> byte ch = 10 \<or> byte ch = 13 \<or> byte ch = 12 \<or> byte ch = 11"

definition isBareIdentifierChar :: "char \<Rightarrow> bool" where
  [go_eval]: "isBareIdentifierChar ch \<longleftrightarrow>
     is_lower ch \<or> is_upper ch \<or> is_digit ch \<or> ch = CHR ''_'' \<or> ch = CHR ''$''"

definition asciiEqualFold :: "gostring \<Rightarrow> gostring \<Rightarrow> bool" where
  [go_eval]: "asciiEqualFold l r \<longleftrightarrow>
     length l = length r \<and> list_all2 (\<lambda>x y. lower_byte x = lower_byte y) l r"

text \<open>\<^verbatim>\<open>skipQuotedToken\<close> after the opening quote: the bytes up to and including the closing
  quote, and what follows it.\<close>

fun skipQuotedToken :: "char \<Rightarrow> gostring \<Rightarrow> (gostring \<times> gostring) option" where
  "skipQuotedToken q [] = None"
| "skipQuotedToken q (c # cs) =
     (if c \<noteq> q then map_option (\<lambda>(t, r). (c # t, r)) (skipQuotedToken q cs)
      else (case cs of
              d # ds \<Rightarrow>
                if d = q then map_option (\<lambda>(t, r). (c # d # t, r)) (skipQuotedToken q ds)
                else Some ([c], cs)
            | [] \<Rightarrow> Some ([c], [])))"

lemma skipQuotedToken_split: "skipQuotedToken q s = Some (t, r) \<Longrightarrow> s = t @ r"
  by (induction q s arbitrary: t r rule: skipQuotedToken.induct)
     (auto split: if_splits list.splits)

text \<open>One token of \<^verbatim>\<open>splitTopLevelWhitespace\<close>: quoted stretches are taken whole.\<close>

function token_span :: "gostring \<Rightarrow> (gostring \<times> gostring) option" where
  "token_span [] = Some ([], [])"
| "token_span (c # cs) =
     (if c = dquote \<or> c = backtick then
        (case skipQuotedToken c cs of
           None \<Rightarrow> None
         | Some (q, r) \<Rightarrow> map_option (\<lambda>(t, r'). (c # q @ t, r')) (token_span r))
      else if isWhitespace c then Some ([], c # cs)
      else map_option (\<lambda>(t, r). (c # t, r)) (token_span cs))"
  by pat_completeness auto
termination
  by (relation "measure length") (auto dest!: skipQuotedToken_split)

lemma token_span_split: "token_span s = Some (t, r) \<Longrightarrow> s = t @ r"
  by (induction s arbitrary: t r rule: token_span.induct)
     (auto split: if_splits option.splits dest!: skipQuotedToken_split)

lemma token_span_progress:
  assumes "token_span (c # cs) = Some (t, r)" and "\<not> isWhitespace c"
  shows "length r < length (c # cs)"
proof -
  from assms have "t \<noteq> []"
    by (auto split: if_splits option.splits)
  with token_span_split [OF assms(1)] show ?thesis
    by (cases t) auto
qed

function split_tokens :: "gostring list \<Rightarrow> gostring \<Rightarrow> gostring list option" where
  "split_tokens acc s =
     (case dropWhile isWhitespace s of
        [] \<Rightarrow> Some acc
      | c # cs \<Rightarrow>
          (case token_span (c # cs) of
             None \<Rightarrow> None
           | Some (t, r) \<Rightarrow>
               if 3 < length (acc @ [t]) then None else split_tokens (acc @ [t]) r))"
  by pat_completeness auto
termination
proof (relation "measure (\<lambda>(acc, s). length s)", goal_cases)
  case 1
  show ?case by simp
next
  case (2 acc s c cs p t r)
  from 2(1) have "\<not> isWhitespace c"
    by (metis hd_dropWhile list.distinct(1) list.sel(1))
  then have "length r < length (c # cs)"
    using 2(2,3) token_span_progress by auto
  also have "\<dots> \<le> length s"
    by (metis 2(1) length_dropWhile_le)
  finally show ?case by simp
qed

declare split_tokens.simps [simp del]

definition splitTopLevelWhitespace :: "gostring \<Rightarrow> gostring list option" where
  [go_eval]: "splitTopLevelWhitespace value = split_tokens [] value"

text \<open>\<^verbatim>\<open>parseQuotedReferencePart\<close> after the opening quote, with doubled quotes undone.\<close>

fun parseQuotedReferencePart :: "char \<Rightarrow> gostring \<Rightarrow> (gostring \<times> gostring) option" where
  "parseQuotedReferencePart q [] = None"
| "parseQuotedReferencePart q (c # cs) =
     (if c \<noteq> q then map_option (\<lambda>(p, r). (c # p, r)) (parseQuotedReferencePart q cs)
      else (case cs of
              d # ds \<Rightarrow>
                if d = q then map_option (\<lambda>(p, r). (q # p, r)) (parseQuotedReferencePart q ds)
                else Some ([], cs)
            | [] \<Rightarrow> Some ([], [])))"

fun bare_span :: "gostring \<Rightarrow> (gostring \<times> gostring) option" where
  "bare_span [] = Some ([], [])"
| "bare_span (c # cs) =
     (if c = CHR ''.'' then Some ([], c # cs)
      else if \<not> isBareIdentifierChar c \<and> c \<noteq> CHR ''*'' then None
      else map_option (\<lambda>(p, r). (c # p, r)) (bare_span cs))"

definition parseReferencePart :: "gostring \<Rightarrow> (gostring \<times> gostring) option" where
  [go_eval]: "parseReferencePart s =
     (case s of
        [] \<Rightarrow> None
      | c # cs \<Rightarrow>
          if c = dquote \<or> c = backtick then parseQuotedReferencePart c cs
          else (case bare_span s of
                  None \<Rightarrow> None
                | Some (part, r) \<Rightarrow>
                    if part = [] then None
                    else if CHR ''*'' \<in> set part \<and> part \<noteq> ''*'' then None
                    else Some (part, r)))"

lemma parseQuotedReferencePart_shorter:
  "parseQuotedReferencePart q s = Some (p, r) \<Longrightarrow> length r < length s"
  by (induction q s arbitrary: p r rule: parseQuotedReferencePart.induct)
     (auto split: if_splits list.splits, force)

lemma bare_span_split: "bare_span s = Some (p, r) \<Longrightarrow> s = p @ r"
  by (induction s arbitrary: p r) (auto split: if_splits)

lemma parseReferencePart_shorter:
  assumes "parseReferencePart s = Some (p, r)"
  shows "length r < length s"
proof (cases s)
  case Nil
  with assms show ?thesis by (simp add: parseReferencePart_def)
next
  case (Cons c cs)
  with assms show ?thesis
    by (auto simp: parseReferencePart_def dest!: parseQuotedReferencePart_shorter bare_span_split
        split: if_splits option.splits)
qed

function parse_parts :: "nat \<Rightarrow> bool \<Rightarrow> gostring list \<Rightarrow> gostring \<Rightarrow> gostring list option" where
  "parse_parts maxParts allowWildcard parts s =
     (case parseReferencePart s of
        None \<Rightarrow> None
      | Some (part, r) \<Rightarrow>
          if part = ''*'' \<and> (\<not> allowWildcard \<or> r \<noteq> []) then None
          else if maxParts < length (parts @ [part]) then None
          else (case r of
                  [] \<Rightarrow> Some (parts @ [part])
                | c # r' \<Rightarrow>
                    if c \<noteq> CHR ''.'' then None
                    else if r' = [] then None
                    else parse_parts maxParts allowWildcard (parts @ [part]) r'))"
  by pat_completeness auto
termination
  by (relation "measure (\<lambda>(m, a, p, s). length s)")
     (auto dest!: parseReferencePart_shorter)

declare parse_parts.simps [simp del]

definition parseQualifiedReference :: "gostring \<Rightarrow> nat \<Rightarrow> bool \<Rightarrow> gostring list option" where
  [go_eval]: "parseQualifiedReference value maxParts allowWildcard =
     (if value = [] then None else parse_parts maxParts allowWildcard [] value)"

definition parseAliasedReference :: "gostring \<Rightarrow> nat \<Rightarrow> bool \<Rightarrow> parsed_reference option" where
  [go_eval]: "parseAliasedReference value maxParts allowWildcard =
     (if value = [] then None
      else (case splitTopLevelWhitespace value of
              None \<Rightarrow> None
            | Some tokens \<Rightarrow>
                if length tokens \<noteq> 1 \<and> length tokens \<noteq> 3 then None
                else (case parseQualifiedReference (tokens ! 0) maxParts allowWildcard of
                        None \<Rightarrow> None
                      | Some parts \<Rightarrow>
                          if length tokens = 1 then Some \<lparr>ref_parts = parts, ref_alias = []\<rparr>
                          else if \<not> asciiEqualFold (tokens ! 1) ''as'' then None
                          else (case parseQualifiedReference (tokens ! 2) 1 False of
                                  None \<Rightarrow> None
                                | Some aliasParts \<Rightarrow>
                                    if length aliasParts \<noteq> 1 then None
                                    else Some \<lparr>ref_parts = parts,
                                               ref_alias = aliasParts ! 0\<rparr>))))"

definition ParseRelationReference :: "gostring \<Rightarrow> parsed_reference option" where
  [go_eval]: "ParseRelationReference value = parseAliasedReference (trim_space value) 2 False"

definition ParseReference :: "gostring \<Rightarrow> parsed_reference option" where
  [go_eval]: "ParseReference value =
     (case parseQualifiedReference (trim_space value) 3 True of
        None \<Rightarrow> None
      | Some parts \<Rightarrow> Some \<lparr>ref_parts = parts, ref_alias = []\<rparr>)"

definition ParseAliasedValue :: "gostring \<Rightarrow> parsed_reference option" where
  [go_eval]: "ParseAliasedValue value = parseAliasedReference (trim_space value) 3 True"

definition RelationSelectReference :: "gostring \<Rightarrow> gostring" where
  [go_eval]: "RelationSelectReference value =
     (let trimmed = trim_space value
      in case ParseRelationReference trimmed of
           None \<Rightarrow> trimmed
         | Some ref \<Rightarrow>
             if ref_alias ref \<noteq> [] then ref_alias ref else join ''.'' (ref_parts ref))"

definition quoted_body :: "char \<Rightarrow> gostring \<Rightarrow> gostring" where
  [go_eval]: "quoted_body q value = concat (map (\<lambda>c. if c = q then [c, q] else [c]) value)"

definition appendQuotedIdentifier :: "gostring \<Rightarrow> gostring \<Rightarrow> char \<Rightarrow> gostring" where
  [go_eval]: "appendQuotedIdentifier sb value q = sb @ [q] @ quoted_body q value @ [q]"

fun escaped_parts :: "bool \<Rightarrow> gostring \<Rightarrow> gostring list \<Rightarrow> char \<Rightarrow> gostring" where
  "escaped_parts first sb [] q = sb"
| "escaped_parts first sb (part # parts) q =
     (let sb = (if first then sb else sb @ ''.'')
      in escaped_parts False
           (if part = ''*'' then sb @ ''*'' else appendQuotedIdentifier sb part q) parts q)"

definition appendEscapedQualifiedReference ::
    "gostring \<Rightarrow> gostring list \<Rightarrow> char \<Rightarrow> gostring" where
  [go_eval]: "appendEscapedQualifiedReference sb parts q = escaped_parts True sb parts q"

definition append_aliased :: "gostring \<Rightarrow> gostring \<Rightarrow> parsed_reference option \<Rightarrow> char \<Rightarrow> gostring" where
  [go_eval]: "append_aliased sb trimmed parsed q =
     (case parsed of
        None \<Rightarrow> appendQuotedIdentifier sb trimmed q
      | Some ref \<Rightarrow>
          let sb = appendEscapedQualifiedReference sb (ref_parts ref) q
          in if ref_alias ref = [] then sb
             else appendQuotedIdentifier (sb @ '' as '') (ref_alias ref) q)"

definition AppendEscapedRelation :: "gostring \<Rightarrow> gostring \<Rightarrow> char \<Rightarrow> gostring" where
  [go_eval]: "AppendEscapedRelation sb value q =
     (let trimmed = trim_space value in append_aliased sb trimmed (ParseRelationReference trimmed) q)"

definition AppendEscapedReference :: "gostring \<Rightarrow> gostring \<Rightarrow> char \<Rightarrow> gostring" where
  [go_eval]: "AppendEscapedReference sb value q =
     (let trimmed = trim_space value
      in case ParseReference trimmed of
           None \<Rightarrow> appendQuotedIdentifier sb trimmed q
         | Some ref \<Rightarrow> appendEscapedQualifiedReference sb (ref_parts ref) q)"

definition AppendEscapedAliasedValue :: "gostring \<Rightarrow> gostring \<Rightarrow> char \<Rightarrow> gostring" where
  [go_eval]: "AppendEscapedAliasedValue sb value q =
     (let trimmed = trim_space value in append_aliased sb trimmed (ParseAliasedValue trimmed) q)"

section \<open>Quoting is one lexical token\<close>

definition sql_quote :: "char \<Rightarrow> bool" where
  "sql_quote q \<longleftrightarrow> q = dquote \<or> q = backtick"

definition starts_with :: "char \<Rightarrow> gostring \<Rightarrow> bool" where
  "starts_with q s \<longleftrightarrow> s \<noteq> [] \<and> hd s = q"

lemma quoted_body_Nil [simp]: "quoted_body q [] = []"
  by (simp add: quoted_body_def)

lemma quoted_body_Cons:
  "quoted_body q (c # cs) = (if c = q then [q, q] else [c]) @ quoted_body q cs"
  by (simp add: quoted_body_def)

lemma skip_quoted_body:
  assumes "\<not> starts_with q rest"
  shows "skipQuotedToken q (quoted_body q v @ q # rest) = Some (quoted_body q v @ [q], rest)"
  using assms
  by (induction v) (auto simp: quoted_body_Cons starts_with_def split: list.splits)

lemma parse_quoted_body:
  assumes "\<not> starts_with q rest"
  shows "parseQuotedReferencePart q (quoted_body q v @ q # rest) = Some (v, rest)"
  using assms
  by (induction v) (auto simp: quoted_body_Cons starts_with_def split: list.splits)

text \<open>How one part is written, and the whole reference as a join of its parts.\<close>

definition part_text :: "char \<Rightarrow> gostring \<Rightarrow> gostring" where
  "part_text q p = (if p = ''*'' then ''*'' else [q] @ quoted_body q p @ [q])"

definition ref_text :: "char \<Rightarrow> gostring list \<Rightarrow> gostring" where
  "ref_text q ps = join ''.'' (map (part_text q) ps)"

definition wild_ok :: "bool \<Rightarrow> gostring list \<Rightarrow> bool" where
  "wild_ok w ps \<longleftrightarrow> ''*'' \<notin> set (butlast ps) \<and> (w \<or> last ps \<noteq> ''*'')"

lemma part_text_nonempty [simp]: "part_text q p \<noteq> []"
  by (simp add: part_text_def)

lemma ref_text_single [simp]: "ref_text q [p] = part_text q p"
  by (simp add: ref_text_def)

lemma ref_text_Cons [simp]:
  "ps \<noteq> [] \<Longrightarrow> ref_text q (p # ps) = part_text q p @ CHR ''.'' # ref_text q ps"
  by (cases ps) (simp_all add: ref_text_def)

lemma ref_text_nonempty [simp]: "ps \<noteq> [] \<Longrightarrow> ref_text q ps \<noteq> []"
  by (cases ps; cases "tl ps = []") auto

lemma escaped_parts_ref_text:
  "escaped_parts first sb ps q =
     (if ps = [] then sb else sb @ (if first then [] else ''.'') @ ref_text q ps)"
proof (induction first sb ps q rule: escaped_parts.induct)
  case (2 first sb p ps q)
  then show ?case
    by (cases "ps = []") (auto simp: Let_def part_text_def appendQuotedIdentifier_def)
qed simp

lemma appendEscaped_ref_text:
  "ps \<noteq> [] \<Longrightarrow> appendEscapedQualifiedReference sb ps q = sb @ ref_text q ps"
  by (simp add: appendEscapedQualifiedReference_def escaped_parts_ref_text)

lemma appendQuoted_part_text:
  "p \<noteq> ''*'' \<Longrightarrow> appendQuotedIdentifier sb p q = sb @ ref_text q [p]"
  by (simp add: appendQuotedIdentifier_def part_text_def)

section \<open>Reading back what was written\<close>

lemma solid_quote: "sql_quote q \<Longrightarrow> solid q"
  by (auto simp: sql_quote_def solid_def ascii_space_def byte_def)

lemma solid_star: "solid (CHR ''*'')"
  by (simp add: solid_def ascii_space_def byte_def)

lemma quote_not_special:
  "sql_quote q \<Longrightarrow> q \<noteq> CHR ''.'' \<and> q \<noteq> CHR '' '' \<and> q \<noteq> CHR ''*'' \<and> \<not> isWhitespace q"
  by (auto simp: sql_quote_def isWhitespace_def byte_def)

lemma part_text_ends:
  assumes "sql_quote q"
  shows "solid (hd (part_text q p))" and "solid (last (part_text q p))"
  using solid_quote [OF assms] solid_star by (auto simp: part_text_def)

lemma ref_text_ends:
  assumes "sql_quote q" and "ps \<noteq> []"
  shows "solid (hd (ref_text q ps))" and "solid (last (ref_text q ps))"
proof -
  show "solid (hd (ref_text q ps))"
    using assms by (cases ps; cases "tl ps = []") (auto simp: part_text_ends)
  show "solid (last (ref_text q ps))"
    using assms(2)
  proof (induction ps)
    case (Cons p ps)
    then show ?case
      using part_text_ends [OF assms(1)] by (cases "ps = []") auto
  qed simp
qed

lemma trim_ref_text [simp]:
  "sql_quote q \<Longrightarrow> ps \<noteq> [] \<Longrightarrow> trim_space (ref_text q ps) = ref_text q ps"
  by (simp add: trim_space_ends ref_text_ends)

lemma parseReferencePart_part_text:
  assumes q: "sql_quote q" and rest: "rest = [] \<or> (\<exists>r. rest = CHR ''.'' # r)"
  shows "parseReferencePart (part_text q p @ rest) = Some (p, rest)"
proof (cases "p = ''*''")
  case True
  have "bare_span (CHR ''*'' # rest) = Some (''*'', rest)"
    using rest by auto
  with True show ?thesis
    by (simp add: parseReferencePart_def part_text_def)
next
  case False
  have "\<not> starts_with q rest"
    using rest quote_not_special [OF q] by (auto simp: starts_with_def)
  then have "parseQuotedReferencePart q (quoted_body q p @ q # rest) = Some (p, rest)"
    by (rule parse_quoted_body)
  with False q show ?thesis
    by (auto simp: parseReferencePart_def part_text_def sql_quote_def)
qed

lemma parse_parts_ref_text:
  assumes q: "sql_quote q"
  shows "ps \<noteq> [] \<Longrightarrow> wild_ok w ps \<Longrightarrow> length (acc @ ps) \<le> n \<Longrightarrow>
    parse_parts n w acc (ref_text q ps) = Some (acc @ ps)"
proof (induction ps arbitrary: acc)
  case (Cons p ps)
  show ?case
  proof (cases "ps = []")
    case True
    have "parseReferencePart (part_text q p) = Some (p, [])"
      using parseReferencePart_part_text [OF q, of "[]" p] by simp
    with True Cons.prems show ?thesis
      by (subst parse_parts.simps) (auto simp: wild_ok_def)
  next
    case False
    have "parseReferencePart (part_text q p @ CHR ''.'' # ref_text q ps) =
        Some (p, CHR ''.'' # ref_text q ps)"
      by (rule parseReferencePart_part_text [OF q]) simp
    moreover have "p \<noteq> ''*''" and "wild_ok w ps"
      using Cons.prems False by (auto simp: wild_ok_def)
    moreover have "parse_parts n w (acc @ [p]) (ref_text q ps) = Some ((acc @ [p]) @ ps)"
      using Cons.prems False \<open>wild_ok w ps\<close> by (intro Cons.IH) auto
    ultimately show ?thesis
      using Cons.prems False by (subst parse_parts.simps) auto
  qed
qed simp

lemma parse_parts_wf:
  "parse_parts n w acc s = Some ps \<Longrightarrow>
   \<exists>qs. ps = acc @ qs \<and> qs \<noteq> [] \<and> length ps \<le> n \<and> wild_ok w qs"
proof (induction n w acc s arbitrary: ps rule: parse_parts.induct)
  case (1 n w acc s)
  obtain p r where pr: "parseReferencePart s = Some (p, r)"
    and nw: "\<not> (p = ''*'' \<and> (\<not> w \<or> r \<noteq> []))" and len: "\<not> n < length (acc @ [p])"
    using "1.prems" by (subst (asm) parse_parts.simps) (auto split: option.splits if_splits)
  show ?case
  proof (cases r)
    case Nil
    then have "ps = acc @ [p]"
      using "1.prems" pr nw len by (subst (asm) parse_parts.simps) auto
    with Nil nw len show ?thesis
      by (auto simp: wild_ok_def)
  next
    case (Cons c r')
    then have c: "c = CHR ''.''" "r' \<noteq> []"
      and rec: "parse_parts n w (acc @ [p]) r' = Some ps"
      using "1.prems" pr nw len
      by (subst (asm) parse_parts.simps, auto split: if_splits)+
    obtain qs where "ps = (acc @ [p]) @ qs" "qs \<noteq> []" "length ps \<le> n" "wild_ok w qs"
      using "1.IH" [OF pr refl nw len Cons _ c(2) rec] c(1) by auto
    moreover have "p \<noteq> ''*''"
      using nw Cons by auto
    ultimately show ?thesis
      by (intro exI [of _ "p # qs"]) (auto simp: wild_ok_def)
  qed
qed

lemma parseQualified_wf:
  "parseQualifiedReference s n w = Some ps \<Longrightarrow> ps \<noteq> [] \<and> length ps \<le> n \<and> wild_ok w ps"
  using parse_parts_wf [of n w "[]" s ps]
  by (auto simp: parseQualifiedReference_def split: if_splits)

lemma parseQualified_ref_text:
  "sql_quote q \<Longrightarrow> ps \<noteq> [] \<Longrightarrow> wild_ok w ps \<Longrightarrow> length ps \<le> n \<Longrightarrow>
   parseQualifiedReference (ref_text q ps) n w = Some ps"
  by (simp add: parseQualifiedReference_def parse_parts_ref_text)

section \<open>Tokens of an aliased reference\<close>

lemma token_span_part_text:
  assumes q: "sql_quote q" and r: "\<not> starts_with q rest"
  shows "token_span (part_text q p @ rest) =
    map_option (\<lambda>(t, r). (part_text q p @ t, r)) (token_span rest)"
proof (cases "p = ''*''")
  case True
  then show ?thesis
    by (simp add: part_text_def isWhitespace_def byte_def)
next
  case False
  have "skipQuotedToken q (quoted_body q p @ q # rest) = Some (quoted_body q p @ [q], rest)"
    using r by (rule skip_quoted_body)
  with q False show ?thesis
    by (auto simp: part_text_def sql_quote_def)
qed

lemma token_span_ref_text:
  assumes q: "sql_quote q" and r: "\<not> starts_with q rest"
  shows "ps \<noteq> [] \<Longrightarrow> token_span (ref_text q ps @ rest) =
    map_option (\<lambda>(t, r). (ref_text q ps @ t, r)) (token_span rest)"
proof (induction ps)
  case (Cons p ps)
  show ?case
  proof (cases "ps = []")
    case True
    then show ?thesis using token_span_part_text [OF q r] by simp
  next
    case False
    have dot: "token_span (CHR ''.'' # s) = map_option (\<lambda>(t, r). (CHR ''.'' # t, r)) (token_span s)"
      for s
      by (simp add: isWhitespace_def byte_def)
    have "\<not> starts_with q (CHR ''.'' # ref_text q ps @ rest)"
      using quote_not_special [OF q] by (auto simp: starts_with_def)
    from token_span_part_text [OF q this, of p] Cons.IH [OF False] False show ?thesis
      by (simp add: dot option.map_comp o_def case_prod_unfold isWhitespace_def byte_def)
  qed
qed simp

lemma ref_text_not_ws:
  assumes "sql_quote q" and "ps \<noteq> []"
  shows "dropWhile isWhitespace (ref_text q ps @ rest) = ref_text q ps @ rest"
proof -
  have "\<not> isWhitespace (hd (ref_text q ps))"
    using ref_text_ends(1) [OF assms]
    by (auto simp: solid_def ascii_space_def isWhitespace_def)
  with assms(2) show ?thesis
    by (cases "ref_text q ps") (auto dest: ref_text_nonempty [of ps q])
qed

lemma split_tokens_ref_text:
  assumes "sql_quote q" and "ps \<noteq> []" and "length acc < 3"
    and "\<not> starts_with q rest" and "token_span rest = Some ([], rest)"
  shows "split_tokens acc (ref_text q ps @ rest) = split_tokens (acc @ [ref_text q ps]) rest"
proof -
  obtain c cs where c: "ref_text q ps @ rest = c # cs"
    using ref_text_nonempty [OF assms(2), of q] by (cases "ref_text q ps @ rest") auto
  have "token_span (c # cs) = Some (ref_text q ps, rest)"
    using token_span_ref_text [OF assms(1,4,2)] assms(5) c by simp
  with assms(3) ref_text_not_ws [OF assms(1,2), of rest] c show ?thesis
    by (subst split_tokens.simps) simp
qed

lemma split_ref_text:
  assumes "sql_quote q" and "ps \<noteq> []"
  shows "splitTopLevelWhitespace (ref_text q ps) = Some [ref_text q ps]"
  using split_tokens_ref_text [OF assms, of "[]" "[]"]
  by (simp add: splitTopLevelWhitespace_def starts_with_def split_tokens.simps)

lemma split_ref_as_alias:
  assumes q: "sql_quote q" and ps: "ps \<noteq> []"
  shows "splitTopLevelWhitespace (ref_text q ps @ '' as '' @ ref_text q [a]) =
    Some [ref_text q ps, ''as'', ref_text q [a]]"
proof -
  let ?al = "ref_text q [a]"
  have sp: "\<not> starts_with q ('' as '' @ ?al)" "\<not> starts_with q []"
    using quote_not_special [OF q] by (auto simp: starts_with_def)
  have ws: "isWhitespace CHR '' ''" "\<not> isWhitespace CHR ''a''" "\<not> isWhitespace CHR ''s''"
    by (simp_all add: isWhitespace_def byte_def)
  have "split_tokens [] (ref_text q ps @ '' as '' @ ?al) =
      split_tokens [ref_text q ps] ('' as '' @ ?al)"
    using split_tokens_ref_text [OF q ps _ sp(1), of "[]"] ws by simp
  also have "\<dots> = split_tokens [ref_text q ps, ''as''] (CHR '' '' # ?al)"
    using ws by (subst split_tokens.simps) simp
  also have "\<dots> = split_tokens [ref_text q ps, ''as''] ?al"
    using ws ref_text_not_ws [OF q, of "[a]" "[]"]
    by (subst (1 2) split_tokens.simps) simp
  also have "\<dots> = split_tokens [ref_text q ps, ''as'', ?al] []"
    using split_tokens_ref_text [OF q, of "[a]" "[ref_text q ps, ''as'']" "[]"] sp(2) by simp
  also have "\<dots> = Some [ref_text q ps, ''as'', ?al]"
    by (simp add: split_tokens.simps)
  finally show ?thesis
    by (simp add: splitTopLevelWhitespace_def)
qed

lemma parseAliased_wf:
  assumes "parseAliasedReference s n w = Some r"
  shows "ref_parts r \<noteq> []" and "length (ref_parts r) \<le> n" and "wild_ok w (ref_parts r)"
    and "ref_alias r \<noteq> ''*''"
proof -
  from assms obtain ts ps where ts: "splitTopLevelWhitespace s = Some ts"
    and ps: "parseQualifiedReference (ts ! 0) n w = Some ps" "ref_parts r = ps"
    and al: "ref_alias r = [] \<or>
      (\<exists>as. parseQualifiedReference (ts ! 2) 1 False = Some as \<and> ref_alias r = as ! 0)"
    by (auto simp: parseAliasedReference_def split: if_splits option.splits)
  from parseQualified_wf [OF ps(1)] ps(2) show "ref_parts r \<noteq> []"
    "length (ref_parts r) \<le> n" "wild_ok w (ref_parts r)" by auto
  from al show "ref_alias r \<noteq> ''*''"
  proof
    assume "\<exists>as. parseQualifiedReference (ts ! 2) 1 False = Some as \<and> ref_alias r = as ! 0"
    then obtain as where "parseQualifiedReference (ts ! 2) 1 False = Some as" "ref_alias r = as ! 0"
      by blast
    with parseQualified_wf [of "ts ! 2" 1 False as] show ?thesis
      by (cases as) (auto simp: wild_ok_def)
  qed simp
qed

lemma parseAliased_ref_text:
  assumes "sql_quote q" and "ps \<noteq> []" and "length ps \<le> n" and "wild_ok w ps"
  shows "parseAliasedReference (ref_text q ps) n w = Some \<lparr>ref_parts = ps, ref_alias = []\<rparr>"
  using assms
  by (simp add: parseAliasedReference_def split_ref_text parseQualified_ref_text)

lemma parseAliased_ref_as_alias:
  assumes "sql_quote q" and "ps \<noteq> []" and "length ps \<le> n" and "wild_ok w ps" and "a \<noteq> ''*''"
  shows "parseAliasedReference (ref_text q ps @ '' as '' @ ref_text q [a]) n w =
    Some \<lparr>ref_parts = ps, ref_alias = a\<rparr>"
proof -
  have "parseQualifiedReference (ref_text q [a]) 1 False = Some [a]"
    using assms(1,5) by (intro parseQualified_ref_text) (auto simp: wild_ok_def)
  with assms split_ref_as_alias [OF assms(1,2), of a] show ?thesis
    by (simp add: parseAliasedReference_def parseQualified_ref_text
        asciiEqualFold_def del: ref_text_single)
qed

text \<open>What an aliased reference is written as, in terms of its parse.\<close>

lemma append_aliased_reparse:
  assumes q: "sql_quote q" and t: "t \<noteq> ''*''" and n: "1 \<le> n"
  shows "parseAliasedReference (trim_space (append_aliased [] t (parseAliasedReference t n w) q)) n w =
    Some (case parseAliasedReference t n w of None \<Rightarrow> \<lparr>ref_parts = [t], ref_alias = []\<rparr> | Some r \<Rightarrow> r)"
proof (cases "parseAliasedReference t n w")
  case None
  have "append_aliased [] t None q = ref_text q [t]"
    using t by (simp add: append_aliased_def appendQuoted_part_text del: ref_text_single)
  with None q t n show ?thesis
    by (simp add: parseAliased_ref_text wild_ok_def del: ref_text_single)
next
  case (Some r)
  note wf = parseAliased_wf [OF Some]
  show ?thesis
  proof (cases "ref_alias r = []")
    case True
    have "append_aliased [] t (Some r) q = ref_text q (ref_parts r)"
      using True wf(1) by (simp add: append_aliased_def appendEscaped_ref_text)
    with Some True q wf show ?thesis
      by (simp add: parseAliased_ref_text)
  next
    case False
    let ?text = "ref_text q (ref_parts r) @ '' as '' @ ref_text q [ref_alias r]"
    have eq: "append_aliased [] t (Some r) q = ?text"
      using False wf by (simp add: append_aliased_def appendEscaped_ref_text appendQuoted_part_text
          Let_def del: ref_text_single)
    have "trim_space ?text = ?text"
      using ref_text_ends [OF q, of "ref_parts r"] ref_text_ends [OF q, of "[ref_alias r]"] wf(1)
      by (intro trim_space_ends) (auto simp del: ref_text_single)
    with Some eq wf parseAliased_ref_as_alias [OF q wf] show ?thesis
      by (simp del: ref_text_single)
  qed
qed

section \<open>Properties\<close>

text \<open>C1. Escaping a column reference and parsing the result gives back the reference the
  input stands for, whatever the input is: the parsed parts when it parses, and otherwise the
  whole trimmed input as a single quoted identifier.  No input can make the escaped text parse
  as something else.\<close>

theorem escaped_reference_reparses:
  assumes "sql_quote q"
  shows "ParseReference (AppendEscapedReference [] value q) =
    Some (case ParseReference value of
            None \<Rightarrow> \<lparr>ref_parts = [trim_space value], ref_alias = []\<rparr> | Some r \<Rightarrow> r)"
proof (cases "ParseReference value")
  case None
  have "parseQualifiedReference ''*'' 3 True \<noteq> None"
    by (simp add: parseQualifiedReference_def parse_parts.simps parseReferencePart_def)
  with None have "trim_space value \<noteq> ''*''"
    by (auto simp: ParseReference_def split: option.splits)
  then have "AppendEscapedReference [] value q = ref_text q [trim_space value]"
    using None by (simp add: AppendEscapedReference_def ParseReference_def appendQuoted_part_text
        Let_def del: ref_text_single split: option.splits)
  with None assms \<open>trim_space value \<noteq> ''*''\<close> show ?thesis
    by (simp add: ParseReference_def [of "ref_text _ _"] parseQualified_ref_text wild_ok_def
        del: ref_text_single)
next
  case (Some r)
  then obtain ps where ps: "parseQualifiedReference (trim_space value) 3 True = Some ps"
    and r: "r = \<lparr>ref_parts = ps, ref_alias = []\<rparr>"
    by (auto simp: ParseReference_def split: option.splits)
  note wf = parseQualified_wf [OF ps]
  have "AppendEscapedReference [] value q = ref_text q ps"
    using ps wf by (simp add: AppendEscapedReference_def ParseReference_def appendEscaped_ref_text)
  with Some r wf assms show ?thesis
    by (simp add: ParseReference_def [of "ref_text _ _"] parseQualified_ref_text)
qed

theorem escaped_reference_reparses_witness:
  "sql_quote dquote \<and>
   AppendEscapedReference [] ''a; DROP'' dquote = [dquote] @ ''a; DROP'' @ [dquote] \<and>
   ParseReference (AppendEscapedReference [] ''a; DROP'' dquote) =
     Some \<lparr>ref_parts = [''a; DROP''], ref_alias = []\<rparr>"
proof -
  have h: "sql_quote dquote" by (simp add: sql_quote_def)
  have v: "ParseReference ''a; DROP'' = None" by code_simp
  have t: "trim_space ''a; DROP'' = ''a; DROP''" by code_simp
  have e: "AppendEscapedReference [] ''a; DROP'' dquote = [dquote] @ ''a; DROP'' @ [dquote]"
    by code_simp
  show ?thesis
    using h e escaped_reference_reparses [OF h, of "''a; DROP''"] v t by simp
qed

text \<open>Escaping an aliased value (\<^verbatim>\<open>column as alias\<close>) and parsing the result gives back its
  parts and alias; an input that does not parse, other than a bare star, becomes one quoted
  identifier.\<close>

theorem escaped_aliased_value_reparses:
  assumes "sql_quote q" and "trim_space value \<noteq> ''*''"
  shows "ParseAliasedValue (AppendEscapedAliasedValue [] value q) =
    Some (case ParseAliasedValue value of
            None \<Rightarrow> \<lparr>ref_parts = [trim_space value], ref_alias = []\<rparr> | Some r \<Rightarrow> r)"
  using append_aliased_reparse [OF assms, of 3 True]
  by (simp add: ParseAliasedValue_def AppendEscapedAliasedValue_def Let_def)

theorem escaped_aliased_value_reparses_witness:
  "sql_quote backtick \<and> trim_space ''u.id as n'' \<noteq> ''*'' \<and>
   ParseAliasedValue (AppendEscapedAliasedValue [] ''u.id as n'' backtick) =
     Some \<lparr>ref_parts = [''u'', ''id''], ref_alias = ''n''\<rparr>"
proof -
  have h: "sql_quote backtick" by (simp add: sql_quote_def)
  have t: "trim_space ''u.id as n'' \<noteq> ''*''" by code_simp
  have v: "ParseAliasedValue ''u.id as n'' = Some \<lparr>ref_parts = [''u'', ''id''], ref_alias = ''n''\<rparr>"
    by code_simp
  show ?thesis
    using h t escaped_aliased_value_reparses [OF h t] v by simp
qed

text \<open>C3. Whatever the identifier contains, its quoted form is exactly one lexical token: the
  tokenizer that skips quoted tokens consumes it to its last byte and stops there, so no
  identifier can break out of its quotes.\<close>

theorem quoted_identifier_one_token:
  assumes "rest = [] \<or> hd rest \<noteq> q"
  shows "skipQuotedToken q (tl (appendQuotedIdentifier [] v q @ rest)) =
    Some (tl (appendQuotedIdentifier [] v q), rest)"
  using assms skip_quoted_body [of q rest v]
  by (auto simp: appendQuotedIdentifier_def starts_with_def)

theorem quoted_identifier_one_token_witness:
  "hd '' FROM t'' \<noteq> dquote \<and>
   skipQuotedToken dquote (tl (appendQuotedIdentifier [] [dquote, CHR '';''] dquote @ '' FROM t'')) =
     Some (tl (appendQuotedIdentifier [] [dquote, CHR '';''] dquote), '' FROM t'')"
  using quoted_identifier_one_token [of "'' FROM t''" dquote "[dquote, CHR '';'']"] by simp

end
