(* ===== verification/SqlPlaceholders.thy ===== *)
theory SqlPlaceholders
  imports GoValues
begin

text \<open>
  Placeholder expansion outside SQL literals and comments
  (\<^verbatim>\<open>orm/internal/querybuilder/internal/common/sqlutils/placeholders.go\<close> and
  \<^verbatim>\<open>stringutils/string.go\<close>).  \<^verbatim>\<open>transformSQL\<close> walks the text by index and calls back a
  closure; here a position is the suffix that starts there together with the byte before it,
  the closure's captured variables are an explicit state, and a handled position returns its
  replacement and how many bytes after the current one it consumes
  (\<^verbatim>\<open>next = i + 1 + k\<close>).
\<close>

section \<open>Skipping literals and comments\<close>

datatype sql_error =
    PlaceholderCount nat nat
  | MissingNamed gostring
  | IndexOutOfRange nat
  | NumberRange gostring
  | UnsupportedType goval

definition isPlaceholderNameStart :: "char \<Rightarrow> bool" where
  [go_eval]: "isPlaceholderNameStart ch \<longleftrightarrow> ch = CHR ''_'' \<or> is_lower ch \<or> is_upper ch"

definition isPlaceholderNameChar :: "char \<Rightarrow> bool" where
  [go_eval]: "isPlaceholderNameChar ch \<longleftrightarrow> isPlaceholderNameStart ch \<or> is_digit ch"

text \<open>After the opening quote: the bytes up to and including the closing one, and the rest.\<close>

fun skipQuotedLiteral :: "char \<Rightarrow> gostring \<Rightarrow> gostring \<times> gostring" where
  "skipQuotedLiteral quote [] = ([], [])"
| "skipQuotedLiteral quote (c # cs) =
     (if c = CHR 0x5C then
        (case cs of
           [] \<Rightarrow> ([c], [])
         | d # ds \<Rightarrow> (case skipQuotedLiteral quote ds of (t, r) \<Rightarrow> (c # d # t, r)))
      else if c = quote then
        (case cs of
           [] \<Rightarrow> ([c], [])
         | d # ds \<Rightarrow>
             if d = quote then (case skipQuotedLiteral quote ds of (t, r) \<Rightarrow> (c # d # t, r))
             else ([c], cs))
      else (case skipQuotedLiteral quote cs of (t, r) \<Rightarrow> (c # t, r)))"

fun skipLineComment :: "gostring \<Rightarrow> gostring \<times> gostring" where
  "skipLineComment [] = ([], [])"
| "skipLineComment (c # cs) =
     (if c = CHR 0x0A then ([c], cs)
      else (case skipLineComment cs of (t, r) \<Rightarrow> (c # t, r)))"

fun skipBlockComment :: "gostring \<Rightarrow> gostring \<times> gostring" where
  "skipBlockComment [] = ([], [])"
| "skipBlockComment [c] = ([c], [])"
| "skipBlockComment (c # d # ds) =
     (if c = CHR ''*'' \<and> d = CHR ''/'' then ([c, d], ds)
      else (case skipBlockComment (d # ds) of (t, r) \<Rightarrow> (c # t, r)))"

text \<open>\<^verbatim>\<open>parseDollarQuoteTag\<close> at a dollar sign, given what follows it.\<close>

definition parseDollarQuoteTag :: "gostring \<Rightarrow> (gostring \<times> gostring) option" where
  [go_eval]: "parseDollarQuoteTag cs =
     (case cs of
        [] \<Rightarrow> None
      | d # ds \<Rightarrow>
          if d = CHR ''$'' then Some (''$$'', ds)
          else if \<not> isPlaceholderNameStart d then None
          else (case dropWhile isPlaceholderNameChar ds of
                  [] \<Rightarrow> None
                | e # es \<Rightarrow>
                    if e \<noteq> CHR ''$'' then None
                    else Some (CHR ''$'' # d # takeWhile isPlaceholderNameChar ds @ ''$'', es)))"

definition skipDollarQuotedLiteral :: "gostring \<Rightarrow> (gostring \<times> gostring) option" where
  [go_eval]: "skipDollarQuotedLiteral cs =
     (case parseDollarQuoteTag cs of
        None \<Rightarrow> None
      | Some (tag, body) \<Rightarrow>
          (case str_index body tag of
             None \<Rightarrow> Some (tag @ body, [])
           | Some n \<Rightarrow> Some (tag @ take (n + length tag) body, drop (n + length tag) body)))"

text \<open>The literal or comment that starts at this byte, if one does (the switch of
  \<^verbatim>\<open>transformSQL\<close>).\<close>

definition literal_span :: "char \<Rightarrow> gostring \<Rightarrow> (gostring \<times> gostring) option" where
  [go_eval]: "literal_span c cs =
     (if c = CHR 0x27 \<or> c = CHR 0x22 \<or> c = CHR 0x60 then
        (case skipQuotedLiteral c cs of (t, r) \<Rightarrow> Some (c # t, r))
      else if c = CHR ''-'' then
        (case cs of
           d # ds \<Rightarrow>
             if d = CHR ''-'' then (case skipLineComment ds of (t, r) \<Rightarrow> Some (c # d # t, r))
             else None
         | [] \<Rightarrow> None)
      else if c = CHR ''/'' then
        (case cs of
           d # ds \<Rightarrow>
             if d = CHR ''*'' then (case skipBlockComment ds of (t, r) \<Rightarrow> Some (c # d # t, r))
             else None
         | [] \<Rightarrow> None)
      else if c = CHR ''$'' then skipDollarQuotedLiteral cs
      else None)"

lemma skipQuotedLiteral_split: "skipQuotedLiteral q s = (t, r) \<Longrightarrow> s = t @ r"
  by (induction q s arbitrary: t r rule: skipQuotedLiteral.induct)
     (auto split: if_splits list.splits prod.splits)

lemma skipLineComment_split: "skipLineComment s = (t, r) \<Longrightarrow> s = t @ r"
  by (induction s arbitrary: t r) (auto split: if_splits prod.splits)

lemma skipBlockComment_split: "skipBlockComment s = (t, r) \<Longrightarrow> s = t @ r"
  by (induction s arbitrary: t r rule: skipBlockComment.induct)
     (auto split: if_splits prod.splits)

lemma parseDollarQuoteTag_split:
  assumes "parseDollarQuoteTag cs = Some (tag, body)"
  shows "CHR ''$'' # cs = tag @ body"
proof (cases cs)
  case Nil
  with assms show ?thesis by (simp add: parseDollarQuoteTag_def)
next
  case (Cons d ds)
  have split: "ds = takeWhile isPlaceholderNameChar ds @ es"
    if "dropWhile isPlaceholderNameChar ds = es" for es
    using that by (metis takeWhile_dropWhile_id)
  with Cons assms show ?thesis
    by (auto simp: parseDollarQuoteTag_def intro: split split: if_splits list.splits)
qed

lemma skipDollarQuotedLiteral_split:
  "skipDollarQuotedLiteral cs = Some (t, r) \<Longrightarrow> CHR ''$'' # cs = t @ r"
  by (auto simp: skipDollarQuotedLiteral_def split: option.splits
      dest!: parseDollarQuoteTag_split)

lemma literal_span_split: "literal_span c cs = Some (t, r) \<Longrightarrow> c # cs = t @ r"
  by (auto simp: literal_span_def split: if_splits list.splits prod.splits
      dest!: skipQuotedLiteral_split skipLineComment_split skipBlockComment_split
        skipDollarQuotedLiteral_split)

lemma parseDollarQuoteTag_nonempty: "parseDollarQuoteTag cs = Some (tag, body) \<Longrightarrow> tag \<noteq> []"
  by (auto simp: parseDollarQuoteTag_def split: if_splits list.splits)

lemma literal_span_nonempty: "literal_span c cs = Some (t, r) \<Longrightarrow> t \<noteq> []"
  by (auto simp: literal_span_def skipDollarQuotedLiteral_def
      split: if_splits list.splits prod.splits option.splits
      dest: parseDollarQuoteTag_nonempty)

lemma literal_span_shorter:
  assumes "literal_span c cs = Some (t, r)"
  shows "length r \<le> length cs"
  using literal_span_split [OF assms] literal_span_nonempty [OF assms] by (cases t) auto

section \<open>The scanner and its callbacks\<close>

type_synonym 'st transform =
  "'st \<Rightarrow> char option \<Rightarrow> char \<Rightarrow> gostring \<Rightarrow> sql_error + ('st \<times> (gostring \<times> nat) option)"

function transformSQL ::
    "'st transform \<Rightarrow> 'st \<Rightarrow> char option \<Rightarrow> gostring \<Rightarrow> sql_error + ('st \<times> gostring)" where
  "transformSQL cb st prev [] = Inr (st, [])"
| "transformSQL cb st prev (c # cs) =
     (case cb st prev c cs of
        Inl e \<Rightarrow> Inl e
      | Inr (st', Some (replacement, k)) \<Rightarrow>
          (case transformSQL cb st' (Some (last (c # take k cs))) (drop k cs) of
             Inl e \<Rightarrow> Inl e
           | Inr (st'', out) \<Rightarrow> Inr (st'', replacement @ out))
      | Inr (st', None) \<Rightarrow>
          (case literal_span c cs of
             Some (t, r) \<Rightarrow>
               (case transformSQL cb st' (Some (last t)) r of
                  Inl e \<Rightarrow> Inl e
                | Inr (st'', out) \<Rightarrow> Inr (st'', t @ out))
           | None \<Rightarrow>
               (case transformSQL cb st' (Some c) cs of
                  Inl e \<Rightarrow> Inl e
                | Inr (st'', out) \<Rightarrow> Inr (st'', c # out))))"
  by pat_completeness auto
termination
  by (relation "measure (\<lambda>(cb, st, prev, s). length s)")
     (auto dest!: literal_span_shorter)

text \<open>A placeholder factory (\<^verbatim>\<open>nextPlaceholder\<close>) is a state and a step: MySQL's always returns
  a question mark, PostgreSQL's counts (\<^verbatim>\<open>mysql/utils.go\<close>, \<^verbatim>\<open>postgres/utils.go\<close>).\<close>

definition mysql_placeholder :: "nat \<Rightarrow> nat \<times> gostring" where
  [go_eval]: "mysql_placeholder n = (n, ''?'')"

definition postgres_placeholder :: "nat \<Rightarrow> nat \<times> gostring" where
  [go_eval]: "postgres_placeholder n = (Suc n, CHR ''$'' # nat_str (Suc n))"

definition positional_cb :: "('p \<Rightarrow> 'p \<times> gostring) \<Rightarrow> ('p \<times> nat) transform" where
  [go_eval]: "positional_cb nextp st prev c cs =
     (if c \<noteq> CHR ''?'' then Inr (st, None)
      else case nextp (fst st) of (p, text) \<Rightarrow> Inr ((p, Suc (snd st)), Some (text, 0)))"

definition ExpandPositionalPlaceholders ::
    "('p \<Rightarrow> 'p \<times> gostring) \<Rightarrow> 'p \<Rightarrow> gostring \<Rightarrow> nat \<Rightarrow> sql_error + ('p \<times> gostring)" where
  [go_eval]: "ExpandPositionalPlaceholders nextp p sql expectedCount =
     (if expectedCount = 0 then Inr (p, sql)
      else (case transformSQL (positional_cb nextp) (p, 0) None sql of
              Inl e \<Rightarrow> Inl e
            | Inr ((p', count), expanded) \<Rightarrow>
                if count \<noteq> expectedCount then Inl (PlaceholderCount count expectedCount)
                else Inr (p', expanded)))"

definition named_cb ::
    "('p \<Rightarrow> 'p \<times> gostring) \<Rightarrow> (gostring \<rightharpoonup> goval) \<Rightarrow> ('p \<times> goval list) transform" where
  [go_eval]: "named_cb nextp vals st prev c cs =
     (if c \<noteq> CHR '':'' \<or> cs = [] \<or> \<not> isPlaceholderNameStart (hd cs) then Inr (st, None)
      else if (case prev of None \<Rightarrow> False
                          | Some d \<Rightarrow> d = CHR '':'' \<or> isPlaceholderNameChar d) then Inr (st, None)
      else let name = hd cs # takeWhile isPlaceholderNameChar (tl cs)
           in case vals name of
                None \<Rightarrow> Inl (MissingNamed name)
              | Some v \<Rightarrow>
                  (case nextp (fst st) of
                     (p, text) \<Rightarrow> Inr ((p, snd st @ [v]), Some (text, length name))))"

definition ExpandNamedPlaceholders ::
    "('p \<Rightarrow> 'p \<times> gostring) \<Rightarrow> 'p \<Rightarrow> gostring \<Rightarrow> (gostring \<rightharpoonup> goval) \<Rightarrow> bool \<Rightarrow>
     sql_error + ('p \<times> gostring \<times> goval list)" where
  [go_eval]: "ExpandNamedPlaceholders nextp p sql vals none_given =
     (if none_given then Inr (p, sql, [])
      else (case transformSQL (named_cb nextp vals) (p, []) None sql of
              Inl e \<Rightarrow> Inl e
            | Inr ((p', ordered), expanded) \<Rightarrow> Inr (p', expanded, ordered)))"

text \<open>\<^verbatim>\<open>EscapeString\<close> and \<^verbatim>\<open>formatInlinePlaceholderValue\<close>.  The layout of times and floats is
  \<^verbatim>\<open>time.Format\<close> and \<^verbatim>\<open>fmt\<close>'s, given as the function \<^term>\<open>fmt\<close>.\<close>

definition EscapeString :: "gostring \<Rightarrow> gostring" where
  [go_eval]: "EscapeString str =
     replace_byte (CHR 0x5C) [CHR 0x5C, CHR 0x5C]
       (replace_byte (CHR 0x27) [CHR 0x27, CHR 0x27] str)"

definition quoted_sql_string :: "gostring \<Rightarrow> gostring" where
  [go_eval]: "quoted_sql_string s = CHR 0x27 # EscapeString s @ [CHR 0x27]"

fun formatInlinePlaceholderValue ::
    "(goval \<Rightarrow> gostring) \<Rightarrow> goval \<Rightarrow> sql_error + gostring" where
  "formatInlinePlaceholderValue fmt (VString s) = Inr (quoted_sql_string s)"
| "formatInlinePlaceholderValue fmt (VBytes b) =
     Inr (quoted_sql_string (case b of None \<Rightarrow> [] | Some s \<Rightarrow> s))"
| "formatInlinePlaceholderValue fmt (VTime t) =
     Inr (CHR 0x27 # fmt (VTime t) @ [CHR 0x27])"
| "formatInlinePlaceholderValue fmt (VBool b) = Inr (if b then ''TRUE'' else ''FALSE'')"
| "formatInlinePlaceholderValue fmt (VFloat32 w) = Inr (fmt (VFloat32 w))"
| "formatInlinePlaceholderValue fmt (VFloat64 w) = Inr (fmt (VFloat64 w))"
| "formatInlinePlaceholderValue fmt VNil = Inr ''NULL''"
| "formatInlinePlaceholderValue fmt v =
     (case int_of_goval v of Some i \<Rightarrow> Inr (int_str i) | None \<Rightarrow> Inl (UnsupportedType v))"

text \<open>\<^verbatim>\<open>strconv.Atoi\<close> of a string of digits.\<close>

definition atoi_digits :: "gostring \<Rightarrow> nat option" where
  [go_eval]: "atoi_digits s =
     (let n = nat_of_digits 0 s in if n < 2 ^ 63 then Some n else None)"

definition inline_cb :: "(goval \<Rightarrow> gostring) \<Rightarrow> goval list \<Rightarrow> (nat \<times> nat set) transform" where
  [go_eval]: "inline_cb fmt args st prev c cs =
     (if c = CHR ''?'' then
        (if length args \<le> fst st then Inl (PlaceholderCount (Suc (fst st)) (length args))
         else case formatInlinePlaceholderValue fmt (args ! fst st) of
                Inl e \<Rightarrow> Inl e
              | Inr text \<Rightarrow> Inr ((Suc (fst st), snd st), Some (text, 0)))
      else if c = CHR ''$'' then
        (let digits = takeWhile is_digit cs
         in if digits = [] then Inr (st, None)
            else case atoi_digits digits of
                   None \<Rightarrow> Inl (NumberRange digits)
                 | Some position \<Rightarrow>
                     if position = 0 \<or> length args < position then Inl (IndexOutOfRange position)
                     else case formatInlinePlaceholderValue fmt (args ! (position - 1)) of
                            Inl e \<Rightarrow> Inl e
                          | Inr text \<Rightarrow>
                              Inr ((fst st, insert (position - 1) (snd st)),
                                   Some (text, length digits)))
      else Inr (st, None))"

definition InlinePlaceholders ::
    "(goval \<Rightarrow> gostring) \<Rightarrow> gostring \<Rightarrow> goval list \<Rightarrow> sql_error + gostring" where
  [go_eval]: "InlinePlaceholders fmt sql args =
     (case transformSQL (inline_cb fmt args) (0, {}) None sql of
        Inl e \<Rightarrow> Inl e
      | Inr ((sequenceIndex, used), inlined) \<Rightarrow>
          if CHR ''?'' \<in> set sql then
            (if sequenceIndex \<noteq> length args
             then Inl (PlaceholderCount sequenceIndex (length args)) else Inr inlined)
          else if card used \<noteq> length args then Inl (PlaceholderCount (card used) (length args))
          else Inr inlined)"

section \<open>Reference: the text as tokens\<close>

text \<open>A statement as bytes of code and opaque stretches (literals and comments), and the
  expansion of its placeholders token by token.\<close>

datatype sql_token = Code char | Opaque gostring

function lex_sql :: "gostring \<Rightarrow> sql_token list" where
  "lex_sql [] = []"
| "lex_sql (c # cs) =
     (case literal_span c cs of
        Some (t, r) \<Rightarrow> Opaque t # lex_sql r
      | None \<Rightarrow> Code c # lex_sql cs)"
  by pat_completeness auto
termination
  by (relation "measure length") (auto dest!: literal_span_shorter)

fun token_text :: "sql_token \<Rightarrow> gostring" where
  "token_text (Code c) = [c]"
| "token_text (Opaque t) = t"

fun expand_tokens :: "('p \<Rightarrow> 'p \<times> gostring) \<Rightarrow> 'p \<Rightarrow> sql_token list \<Rightarrow> 'p \<times> gostring" where
  "expand_tokens nextp p [] = (p, [])"
| "expand_tokens nextp p (tok # toks) =
     (if tok = Code CHR ''?'' then
        (case nextp p of (p', text) \<Rightarrow>
           case expand_tokens nextp p' toks of (p'', out) \<Rightarrow> (p'', text @ out))
      else (case expand_tokens nextp p toks of (p'', out) \<Rightarrow> (p'', token_text tok @ out)))"

definition placeholder_count :: "gostring \<Rightarrow> nat" where
  [go_eval]: "placeholder_count s = length (filter (\<lambda>t. t = Code CHR ''?'') (lex_sql s))"

lemma lex_sql_text: "concat (map token_text (lex_sql s)) = s"
  by (induction s rule: lex_sql.induct)
     (auto split: option.splits dest!: literal_span_split)

section \<open>A scanner callback acts only at its trigger bytes\<close>

locale sql_rewriter =
  fixes cb :: "'st transform" and triggers :: "char set"
  assumes cb_idle: "c \<notin> triggers \<Longrightarrow> cb st prev c cs = Inr (st, None)"
begin

text \<open>A statement whose tokens start at no trigger byte passes through unchanged.\<close>

lemma transform_idle:
  "\<forall>t \<in> set (lex_sql s). hd (token_text t) \<notin> triggers \<Longrightarrow>
   transformSQL cb st prev s = Inr (st, s)"
proof (induction s arbitrary: prev rule: lex_sql.induct)
  case (2 c cs)
  show ?case
  proof (cases "literal_span c cs")
    case None
    with "2.prems" have "c \<notin> triggers" by simp
    with None "2.IH"(1) "2.prems" show ?thesis
      by (simp add: cb_idle)
  next
    case (Some p)
    obtain t r where tr: "literal_span c cs = Some (t, r)"
      using Some by (cases p) auto
    from literal_span_split [OF tr] literal_span_nonempty [OF tr] have "hd t = c"
      by (cases t) auto
    with tr "2.IH"(2) [OF tr refl] "2.prems" have "transformSQL cb st prev (c # cs) = Inr (st, t @ r)"
      by (simp add: cb_idle)
    with literal_span_split [OF tr] show ?thesis
      by simp
  qed
qed simp

end

interpretation positional: sql_rewriter "positional_cb nextp" "{CHR ''?''}"
  by unfold_locales (simp add: positional_cb_def)

interpretation named: sql_rewriter "named_cb nextp vals" "{CHR '':''}"
  by unfold_locales (simp add: named_cb_def)

interpretation inline: sql_rewriter "inline_cb fmt args" "{CHR ''?'', CHR ''$''}"
  by unfold_locales (simp add: inline_cb_def)

lemma question_not_literal [simp]: "literal_span CHR ''?'' cs = None"
  by (simp add: literal_span_def)

lemma colon_not_literal [simp]: "literal_span CHR '':'' cs = None"
  by (simp add: literal_span_def)

lemma transform_positional:
  "transformSQL (positional_cb nextp) (p, n) prev s =
   (case expand_tokens nextp p (lex_sql s) of
      (p', out) \<Rightarrow> Inr ((p', n + placeholder_count s), out))"
proof (induction s arbitrary: p n prev rule: lex_sql.induct)
  case 1
  then show ?case by (simp add: placeholder_count_def)
next
  case (2 c cs)
  show ?case
  proof (cases "c = CHR ''?''")
    case True
    then show ?thesis
      using "2.IH"(1) by (simp add: positional_cb_def placeholder_count_def split: prod.splits)
  next
    case False
    show ?thesis
    proof (cases "literal_span c cs")
      case None
      with False "2.IH"(1) show ?thesis
        by (simp add: positional_cb_def placeholder_count_def split: prod.splits)
    next
      case (Some tr)
      obtain t r where tr: "literal_span c cs = Some (t, r)"
        using Some by (cases tr) auto
      with False "2.IH"(2) [OF tr refl] show ?thesis
        by (simp add: positional_cb_def placeholder_count_def split: prod.splits)
    qed
  qed
qed

section \<open>Reference: named placeholders\<close>

text \<open>The same for named placeholders: a parameter is a colon and a name that does not follow
  a colon or a name byte.\<close>

datatype named_token = Param gostring | Plain gostring

definition param_at :: "char option \<Rightarrow> char \<Rightarrow> gostring \<Rightarrow> gostring option" where
  [go_eval]: "param_at prev c cs =
     (if c = CHR '':'' \<and> cs \<noteq> [] \<and> isPlaceholderNameStart (hd cs) \<and>
         (case prev of None \<Rightarrow> True
                     | Some d \<Rightarrow> d \<noteq> CHR '':'' \<and> \<not> isPlaceholderNameChar d)
      then Some (hd cs # takeWhile isPlaceholderNameChar (tl cs)) else None)"

function named_tokens :: "char option \<Rightarrow> gostring \<Rightarrow> named_token list" where
  "named_tokens prev [] = []"
| "named_tokens prev (c # cs) =
     (case param_at prev c cs of
        Some name \<Rightarrow> Param name # named_tokens (Some (last (c # name))) (drop (length name) cs)
      | None \<Rightarrow>
          (case literal_span c cs of
             Some (t, r) \<Rightarrow> Plain t # named_tokens (Some (last t)) r
           | None \<Rightarrow> Plain [c] # named_tokens (Some c) cs))"
  by pat_completeness auto
termination
  by (relation "measure (\<lambda>(prev, s). length s)") (auto dest!: literal_span_shorter)

fun named_source :: "named_token \<Rightarrow> gostring" where
  "named_source (Param n) = CHR '':'' # n"
| "named_source (Plain t) = t"

fun params :: "named_token list \<Rightarrow> gostring list" where
  "params [] = []"
| "params (Param n # ts) = n # params ts"
| "params (Plain t # ts) = params ts"

fun expand_named :: "('p \<Rightarrow> 'p \<times> gostring) \<Rightarrow> 'p \<Rightarrow> named_token list \<Rightarrow> 'p \<times> gostring" where
  "expand_named nextp p [] = (p, [])"
| "expand_named nextp p (Param n # toks) =
     (case nextp p of (p', text) \<Rightarrow>
        case expand_named nextp p' toks of (p'', out) \<Rightarrow> (p'', text @ out))"
| "expand_named nextp p (Plain t # toks) =
     (case expand_named nextp p toks of (p'', out) \<Rightarrow> (p'', t @ out))"

lemma param_at_text:
  assumes "param_at prev c cs = Some name"
  shows "c = CHR '':''" and "take (length name) cs = name"
proof -
  from assms show "c = CHR '':''"
    by (simp add: param_at_def split: if_splits)
  from assms obtain d ds where cs: "cs = d # ds"
    and name: "name = d # takeWhile isPlaceholderNameChar ds"
    by (cases cs) (auto simp: param_at_def split: if_splits)
  have "take (length (takeWhile isPlaceholderNameChar ds)) ds = takeWhile isPlaceholderNameChar ds"
    by (metis append_eq_conv_conj takeWhile_dropWhile_id)
  with cs name show "take (length name) cs = name"
    by simp
qed

lemma named_tokens_source: "concat (map named_source (named_tokens prev s)) = s"
proof (induction prev s rule: named_tokens.induct)
  case (2 prev c cs)
  show ?case
  proof (cases "param_at prev c cs")
    case (Some name)
    then have "c = CHR '':''" and "name @ drop (length name) cs = cs"
      using param_at_text [OF Some] by (simp, metis append_take_drop_id)
    with Some "2.IH"(3) [OF Some] show ?thesis
      by simp
  next
    case None
    with "2.IH"(1,2) [OF None] show ?thesis
      by (cases "literal_span c cs") (auto dest!: literal_span_split)
  qed
qed simp

lemma named_cb_param_at:
  "named_cb nextp vals st prev c cs =
   (case param_at prev c cs of
      None \<Rightarrow> Inr (st, None)
    | Some name \<Rightarrow>
        (case vals name of
           None \<Rightarrow> Inl (MissingNamed name)
         | Some v \<Rightarrow> (case nextp (fst st) of
             (p, text) \<Rightarrow> Inr ((p, snd st @ [v]), Some (text, length name)))))"
  by (auto simp: named_cb_def param_at_def Let_def split: option.splits)

lemma transform_named:
  "transformSQL (named_cb nextp vals) (p, vs) prev s =
   (case find_first (\<lambda>n. vals n = None) (params (named_tokens prev s)) of
      Some n \<Rightarrow> Inl (MissingNamed n)
    | None \<Rightarrow>
        (case expand_named nextp p (named_tokens prev s) of
           (p', out) \<Rightarrow>
             Inr ((p', vs @ map (\<lambda>n. the (vals n)) (params (named_tokens prev s))), out)))"
proof (induction prev s arbitrary: p vs rule: named_tokens.induct)
  case (2 prev c cs)
  show ?case
  proof (cases "param_at prev c cs")
    case (Some name)
    have "take (length name) cs = name"
      using param_at_text [OF Some] by simp
    with "2.IH"(3) [OF Some] Some show ?thesis
      by (auto simp: named_cb_param_at split: option.splits prod.splits)
  next
    case None
    show ?thesis
    proof (cases "literal_span c cs")
      case None': None
      with None "2.IH"(1) [OF None None'] show ?thesis
        by (simp add: named_cb_param_at split: option.splits prod.splits)
    next
      case (Some tr)
      obtain t r where tr: "literal_span c cs = Some (t, r)"
        using Some by (cases tr) auto
      with None "2.IH"(2) [OF None tr refl] show ?thesis
        by (simp add: named_cb_param_at split: option.splits prod.splits)
    qed
  qed
qed simp

section \<open>Inlined string values\<close>

lemma EscapeString_Nil [simp]: "EscapeString [] = []"
  by (simp add: EscapeString_def replace_byte_def)

lemma EscapeString_Cons:
  "EscapeString (c # cs) =
     (if c = CHR 0x27 \<or> c = CHR 0x5C then [c, c] else [c]) @ EscapeString cs"
  by (simp add: EscapeString_def replace_byte_def)

lemma skip_escaped:
  assumes "rest = [] \<or> hd rest \<noteq> CHR 0x27"
  shows "skipQuotedLiteral (CHR 0x27) (EscapeString v @ CHR 0x27 # rest) =
    (EscapeString v @ [CHR 0x27], rest)"
  using assms by (induction v) (auto simp: EscapeString_Cons split: list.splits)

section \<open>Properties\<close>



text \<open>A string value inlined for debugging output is one SQL literal: whatever it contains,
  the scanner that skips literals ends exactly at its closing quote.\<close>

theorem inlined_string_one_literal:
  assumes "formatInlinePlaceholderValue fmt (VString v) = Inr text"
    and "rest = [] \<or> hd rest \<noteq> CHR 0x27"
  shows "literal_span (hd text) (tl text @ rest) = Some (text, rest)"
  using assms skip_escaped [of rest v]
  by (auto simp: quoted_sql_string_def literal_span_def)

theorem inlined_string_one_literal_witness:
  "formatInlinePlaceholderValue (\<lambda>_. []) (VString [CHR 0x27, CHR '';'']) =
     Inr [CHR 0x27, CHR 0x27, CHR 0x27, CHR '';'', CHR 0x27] \<and>
   literal_span (CHR 0x27) (tl [CHR 0x27, CHR 0x27, CHR 0x27, CHR '';'', CHR 0x27] @ '' x'') =
     Some ([CHR 0x27, CHR 0x27, CHR 0x27, CHR '';'', CHR 0x27], '' x'')"
proof -
  have f: "formatInlinePlaceholderValue (\<lambda>_. []) (VString [CHR 0x27, CHR '';'']) =
      Inr [CHR 0x27, CHR 0x27, CHR 0x27, CHR '';'', CHR 0x27]"
    by (simp add: quoted_sql_string_def EscapeString_Cons)
  show ?thesis
    using f inlined_string_one_literal [OF f, of "'' x''"] by simp
qed

text \<open>The two count checks of \<^verbatim>\<open>InlinePlaceholders\<close> are chosen by a search of the raw text: a
  question mark inside a literal makes a statement whose numbered placeholders are all used
  fail.\<close>

lemma inline_question_in_literal_rejected:
  "InlinePlaceholders fmt (''SELECT '' @ [CHR 0x27, CHR ''?'', CHR 0x27] @ '', $1'') [VNil] =
     Inl (PlaceholderCount 0 1)"
  "InlinePlaceholders fmt ''SELECT 1, $1'' [VNil] = Inr ''SELECT 1, NULL''"
  by (simp_all add: InlinePlaceholders_def inline_cb_def literal_span_def skipDollarQuotedLiteral_def
      parseDollarQuoteTag_def atoi_digits_def isPlaceholderNameStart_def is_digit_def is_lower_def
      is_upper_def byte_def card_insert_if)

end
