(* ===== verification/SqlLogic.thy ===== *)
theory SqlLogic
  imports GoPrelude
begin

text \<open>
  SQL's three-valued logic, the meaning the rendered conditions are judged against: true, false
  and unknown (a comparison with NULL), with Kleene's connectives.  A WHERE clause keeps the rows on which
  its condition is true.
\<close>

datatype tv = TT | FF | UU

fun tv_not :: "tv \<Rightarrow> tv" where
  "tv_not TT = FF"
| "tv_not FF = TT"
| "tv_not UU = UU"

fun tv_and :: "tv \<Rightarrow> tv \<Rightarrow> tv" where
  "tv_and FF b = FF"
| "tv_and a FF = FF"
| "tv_and TT b = b"
| "tv_and a TT = a"
| "tv_and UU UU = UU"

fun tv_or :: "tv \<Rightarrow> tv \<Rightarrow> tv" where
  "tv_or TT b = TT"
| "tv_or a TT = TT"
| "tv_or FF b = b"
| "tv_or a FF = a"
| "tv_or UU UU = UU"

definition tv_of :: "bool \<Rightarrow> tv" where
  "tv_of b = (if b then TT else FF)"

lemma tv_and_simps [simp]: "tv_and a TT = a" "tv_and TT a = a" "tv_and a FF = FF" "tv_and a a = a"
  by (cases a; simp)+

lemma tv_or_simps [simp]: "tv_or a FF = a" "tv_or FF a = a" "tv_or a TT = TT" "tv_or a a = a"
  by (cases a; simp)+

lemma tv_and_assoc: "tv_and (tv_and a b) c = tv_and a (tv_and b c)"
  by (cases a; cases b; cases c; simp)

lemma tv_or_assoc: "tv_or (tv_or a b) c = tv_or a (tv_or b c)"
  by (cases a; cases b; cases c; simp)

lemma tv_and_commute: "tv_and a b = tv_and b a"
  by (cases a; cases b; simp)

lemma tv_or_commute: "tv_or a b = tv_or b a"
  by (cases a; cases b; simp)

lemma tv_and_TT [simp]: "tv_and a b = TT \<longleftrightarrow> a = TT \<and> b = TT"
  by (cases a; cases b; simp)

lemma tv_or_TT [simp]: "tv_or a b = TT \<longleftrightarrow> a = TT \<or> b = TT"
  by (cases a; cases b; simp)

lemma tv_or_FF [simp]: "tv_or a b = FF \<longleftrightarrow> a = FF \<and> b = FF"
  by (cases a; cases b; simp)

lemma tv_not_not [simp]: "tv_not (tv_not a) = a"
  by (cases a) simp_all

lemma tv_not_TT [simp]: "tv_not a = TT \<longleftrightarrow> a = FF"
  by (cases a) simp_all

definition tv_all :: "tv list \<Rightarrow> tv" where
  "tv_all vs = foldr tv_and vs TT"

definition tv_any :: "tv list \<Rightarrow> tv" where
  "tv_any vs = foldr tv_or vs FF"

lemma tv_all_simps [simp]:
  "tv_all [] = TT" "tv_all (v # vs) = tv_and v (tv_all vs)"
  by (simp_all add: tv_all_def)

lemma tv_any_simps [simp]:
  "tv_any [] = FF" "tv_any (v # vs) = tv_or v (tv_any vs)"
  by (simp_all add: tv_any_def)

lemma tv_all_append [simp]: "tv_all (us @ vs) = tv_and (tv_all us) (tv_all vs)"
  by (induction us) (simp_all add: tv_and_assoc)

lemma tv_any_append [simp]: "tv_any (us @ vs) = tv_or (tv_any us) (tv_any vs)"
  by (induction us) (simp_all add: tv_or_assoc)

lemma tv_all_TT [simp]: "tv_all vs = TT \<longleftrightarrow> (\<forall>v \<in> set vs. v = TT)"
  by (induction vs) auto

lemma tv_any_TT [simp]: "tv_any vs = TT \<longleftrightarrow> (\<exists>v \<in> set vs. v = TT)"
  by (induction vs) auto

end
