(* ===== verification/PredicateView.thy ===== *)
theory PredicateView
  imports GoValues
begin

text \<open>
  The inspection view of a condition (\<^verbatim>\<open>orm/predicate/predicate.go\<close>) and the bounded copier
  that detaches it from the caller's memory (\<^verbatim>\<open>orm/internal/valuecopy/value.go\<close> and
  \<^verbatim>\<open>node.go\<close>).  Values and nodes are trees: no slice, map or node is reached along two paths, so
  the copier's memo table is never hit and its \<^verbatim>\<open>recursive_condition_view\<close> branch, which needs a
  cycle, does not arise.  A map is the list of its entries in the order one iteration visits them.
\<close>

section \<open>Nodes\<close>

record pvalue =
  isolation :: gostring
  reason :: gostring
  pdata :: goval

record node_info =
  named_values :: "(gostring \<times> pvalue) list option"
  bound_columns :: "gostring list"
  kind :: gostring
  column :: gostring
  operator :: gostring
  value_column :: gostring
  raw_sql :: gostring
  func_name :: gostring
  node_sql :: gostring
  parameters :: "int list"
  node_values :: "pvalue list"
  opaque_reason :: gostring
  correspondence :: gostring

datatype pnode = Node (info: node_info) (kids: "pnode option list")

definition MaxDepth :: nat where
  [go_eval]: "MaxDepth = 64"

abbreviation detached :: gostring where "detached \<equiv> ''detached''"
abbreviation generated :: gostring where "generated \<equiv> ''generated''"
abbreviation unverified :: gostring where "unverified \<equiv> ''unverified''"

definition blank_info :: node_info where
  [go_eval]: "blank_info = \<lparr>named_values = None, bound_columns = [], kind = [], column = [],
     operator = [], value_column = [], raw_sql = [], func_name = [], node_sql = [],
     parameters = [], node_values = [], opaque_reason = [], correspondence = []\<rparr>"

text \<open>Every node of a view, in preorder.\<close>

fun nodes_of :: "pnode \<Rightarrow> node_info list" and nodes_of_list :: "pnode option list \<Rightarrow> node_info list" where
  "nodes_of (Node i cs) = i # nodes_of_list cs"
| "nodes_of_list [] = []"
| "nodes_of_list (None # cs) = nodes_of_list cs"
| "nodes_of_list (Some n # cs) = nodes_of n @ nodes_of_list cs"

section \<open>The copier\<close>

definition MaxSlots :: nat where
  [go_eval]: "MaxSlots = 65536"

definition MaxBytes :: nat where
  [go_eval]: "MaxBytes = 8388608"

definition UnverifiedReason :: gostring where
  [go_eval]: "UnverifiedReason = ''unsupported_recursive_deep_or_oversized_value''"

record copier =
  slots :: nat
  nbytes :: nat

definition new_copier :: copier where
  [go_eval]: "new_copier = \<lparr>slots = 0, nbytes = 0\<rparr>"

definition reserve :: "copier \<Rightarrow> nat \<Rightarrow> nat \<Rightarrow> copier option" where
  [go_eval]: "reserve c s b =
     (if s > MaxSlots - slots c \<or> b > MaxBytes - nbytes c then None
      else Some (c\<lparr>slots := slots c + s, nbytes := nbytes c + b\<rparr>))"

text \<open>The copy of a slice of \<^term>\<open>n\<close> scalars of \<^term>\<open>sz\<close> bytes each.\<close>

definition copyScalarSlice :: "copier \<Rightarrow> goval \<Rightarrow> nat \<Rightarrow> nat \<Rightarrow> (goval \<times> bool \<times> nat) \<times> copier" where
  [go_eval]: "copyScalarSlice c v n sz =
     (if n > MaxBytes div sz then ((v, False, 0), c)
      else case reserve c 1 (n * sz) of
        None \<Rightarrow> ((v, False, 0), c)
      | Some c' \<Rightarrow> ((v, True, 0), c'))"

fun copy_val :: "copier \<Rightarrow> goval \<Rightarrow> nat \<Rightarrow> (goval \<times> bool \<times> nat) \<times> copier"
and copy_vals :: "copier \<Rightarrow> goval list \<Rightarrow> nat \<Rightarrow> (goval list \<times> bool \<times> nat) \<times> copier"
and copy_entries :: "copier \<Rightarrow> (gostring \<times> goval) list \<Rightarrow> nat \<Rightarrow>
       ((gostring \<times> goval) list \<times> bool \<times> nat) \<times> copier" where
  "copy_val c v depth =
     (if depth > MaxDepth then ((v, False, 0), c)
      else case v of
        VBytes None \<Rightarrow> ((v, True, 0), c)
      | VBytes (Some s) \<Rightarrow> copyScalarSlice c v (length s) 1
      | VScalars t None \<Rightarrow> ((v, True, 0), c)
      | VScalars t (Some xs) \<Rightarrow> copyScalarSlice c v (length xs) (scalar_size t)
      | VList None \<Rightarrow> ((v, True, 0), c)
      | VList (Some xs) \<Rightarrow>
          (if length xs > MaxSlots then ((v, False, 0), c)
           else case reserve c (length xs + 1) (length xs * 16) of
             None \<Rightarrow> ((v, False, 0), c)
           | Some c1 \<Rightarrow> (case copy_vals c1 xs (depth + 1) of
               ((ys, ok, h), c2) \<Rightarrow> ((VList (Some ys), ok, h), c2)))
      | VMap None \<Rightarrow> ((v, True, 0), c)
      | VMap (Some es) \<Rightarrow>
          (if length es > MaxSlots then ((v, False, 0), c)
           else case reserve c (length es + 1) (length es * 64) of
             None \<Rightarrow> ((v, False, 0), c)
           | Some c1 \<Rightarrow> (case copy_entries c1 es (depth + 1) of
               ((ys, ok, h), c2) \<Rightarrow> ((VMap (Some ys), ok, h), c2)))
      | VNumber s \<Rightarrow> ((v, False, 0), c)
      | VOther k \<Rightarrow> ((v, False, 0), c)
      | _ \<Rightarrow> ((v, True, 0), c))"
| "copy_vals c [] depth = (([], True, 0), c)"
| "copy_vals c (x # xs) depth =
     (case copy_val c x depth of ((y, ok, h), c1) \<Rightarrow>
      (case copy_vals c1 xs depth of ((ys, oks, hs), c2) \<Rightarrow>
        ((y # ys, ok \<and> oks, max (h + 1) hs), c2)))"
| "copy_entries c [] depth = (([], True, 0), c)"
| "copy_entries c ((k, x) # es) depth =
     (case copy_val c x depth of ((y, ok, h), c1) \<Rightarrow>
      (case copy_entries c1 es depth of ((ys, oks, hs), c2) \<Rightarrow>
        (((k, y) # ys, ok \<and> oks, max (h + 1) hs), c2)))"

declare copy_val.simps [simp del]

definition Copy :: "copier \<Rightarrow> goval \<Rightarrow> (goval \<times> bool) \<times> copier" where
  [go_eval]: "Copy c v = (case copy_val c v 0 of ((y, ok, h), c') \<Rightarrow> ((y, ok), c'))"

fun copy_slice :: "copier \<Rightarrow> goval list \<Rightarrow> goval list \<times> copier" where
  "copy_slice c [] = ([], c)"
| "copy_slice c (v # vs) =
     (case Copy c v of ((y, _), c1) \<Rightarrow> (case copy_slice c1 vs of (ys, c2) \<Rightarrow> (y # ys, c2)))"

definition Slice :: "copier \<Rightarrow> goval list option \<Rightarrow> goval list option \<times> copier" where
  [go_eval]: "Slice c vs =
     (case vs of None \<Rightarrow> (None, c) | Some xs \<Rightarrow> (case copy_slice c xs of (ys, c') \<Rightarrow> (Some ys, c')))"

definition inspectionValue :: "copier \<Rightarrow> pvalue \<Rightarrow> pvalue \<times> copier" where
  [go_eval]: "inspectionValue c v =
     (if isolation v \<noteq> detached then (v, c)
      else case Copy c (pdata v) of
        ((d, ok), c') \<Rightarrow>
          if \<not> ok then (\<lparr>isolation = unverified, reason = UnverifiedReason, pdata = VNil\<rparr>, c')
          else (v\<lparr>pdata := d\<rparr>, c'))"

fun inspection_values :: "copier \<Rightarrow> pvalue list \<Rightarrow> pvalue list \<times> copier" where
  "inspection_values c [] = ([], c)"
| "inspection_values c (v # vs) =
     (case inspectionValue c v of (w, c1) \<Rightarrow>
      (case inspection_values c1 vs of (ws, c2) \<Rightarrow> (w # ws, c2)))"

definition inspection_named ::
  "copier \<Rightarrow> (gostring \<times> pvalue) list option \<Rightarrow> (gostring \<times> pvalue) list option \<times> copier" where
  [go_eval]: "inspection_named c m =
     (case m of None \<Rightarrow> (None, c)
      | Some es \<Rightarrow> (case inspection_values c (map snd es) of
          (ws, c') \<Rightarrow> (Some (zip (map fst es) ws), c')))"

text \<open>Whether a copied node keeps the correspondence of its source.\<close>

definition node_settled :: "node_info \<Rightarrow> pnode option list \<Rightarrow> bool" where
  [go_eval]: "node_settled i cs \<longleftrightarrow>
     (\<forall>v \<in> set (node_values i). isolation v = detached) \<and>
     (case named_values i of None \<Rightarrow> True | Some es \<Rightarrow> \<forall>e \<in> set es. isolation (snd e) = detached) \<and>
     (\<forall>ch \<in> set cs. case ch of None \<Rightarrow> True | Some n \<Rightarrow> correspondence (info n) = generated)"

fun copy_node :: "copier \<Rightarrow> pnode \<Rightarrow> pnode \<times> copier"
and copy_nodes :: "copier \<Rightarrow> pnode option list \<Rightarrow> pnode option list \<times> copier" where
  "copy_node c (Node i cs) =
     (case inspection_named c (named_values i) of (nv, c1) \<Rightarrow>
      (case copy_nodes c1 cs of (ds, c2) \<Rightarrow>
      (case inspection_values c2 (node_values i) of (vs, c3) \<Rightarrow>
        let j = i\<lparr>named_values := nv, node_values := vs\<rparr>
        in (Node (if node_settled j ds then j else j\<lparr>correspondence := unverified\<rparr>) ds, c3))))"
| "copy_nodes c [] = ([], c)"
| "copy_nodes c (None # cs) = (case copy_nodes c cs of (ds, c') \<Rightarrow> (None # ds, c'))"
| "copy_nodes c (Some n # cs) =
     (case copy_node c n of (m, c1) \<Rightarrow> (case copy_nodes c1 cs of (ds, c2) \<Rightarrow> (Some m # ds, c2)))"

fun Shift :: "int \<Rightarrow> pnode \<Rightarrow> pnode" and shift_list :: "int \<Rightarrow> pnode option list \<Rightarrow> pnode option list" where
  "Shift d (Node i cs) = Node (i\<lparr>parameters := map (\<lambda>p. p + d) (parameters i)\<rparr>) (shift_list d cs)"
| "shift_list d [] = []"
| "shift_list d (None # cs) = None # shift_list d cs"
| "shift_list d (Some n # cs) = Some (Shift d n) # shift_list d cs"


section \<open>What copying guarantees\<close>

text \<open>The values the copier can detach, how deep they nest and what they charge.\<close>

fun detachable :: "goval \<Rightarrow> bool" where
  "detachable (VNumber s) = False"
| "detachable (VOther k) = False"
| "detachable (VList (Some xs)) = (\<forall>x \<in> set xs. detachable x)"
| "detachable (VMap (Some es)) = (\<forall>e \<in> set es. detachable (snd e))"
| "detachable v = True"

fun vdepth :: "goval \<Rightarrow> nat" where
  "vdepth (VList (Some xs)) = fold (\<lambda>x. max (vdepth x + 1)) xs 0"
| "vdepth (VMap (Some es)) = fold (\<lambda>e. max (vdepth (snd e) + 1)) es 0"
| "vdepth v = 0"

fun slot_cost :: "goval \<Rightarrow> nat" where
  "slot_cost (VBytes (Some s)) = 1"
| "slot_cost (VScalars t (Some xs)) = 1"
| "slot_cost (VList (Some xs)) = length xs + 1 + sum_list (map slot_cost xs)"
| "slot_cost (VMap (Some es)) = length es + 1 + sum_list (map (\<lambda>e. slot_cost (snd e)) es)"
| "slot_cost v = 0"

fun byte_cost :: "goval \<Rightarrow> nat" where
  "byte_cost (VBytes (Some s)) = length s"
| "byte_cost (VScalars t (Some xs)) = length xs * scalar_size t"
| "byte_cost (VList (Some xs)) = length xs * 16 + sum_list (map byte_cost xs)"
| "byte_cost (VMap (Some es)) = length es * 64 + sum_list (map (\<lambda>e. byte_cost (snd e)) es)"
| "byte_cost v = 0"

definition list_depth :: "goval list \<Rightarrow> nat" where
  "list_depth xs = foldr (\<lambda>x. max (vdepth x + 1)) xs 0"

lemma fold_max_start: "fold (\<lambda>x. max (f x)) xs (n :: nat) = max n (foldr (\<lambda>x. max (f x)) xs 0)"
  by (induction xs arbitrary: n) (auto simp: max.assoc max.left_commute max.commute)

lemma vdepth_VList: "vdepth (VList (Some xs)) = list_depth xs"
  by (simp add: list_depth_def fold_max_start)

lemma vdepth_VMap: "vdepth (VMap (Some es)) = list_depth (map snd es)"
  by (simp add: list_depth_def fold_max_start foldr_map comp_def)

lemma list_depth_simps [simp]:
  "list_depth [] = 0"
  "list_depth (x # xs) = max (vdepth x + 1) (list_depth xs)"
  by (simp_all add: list_depth_def)

definition within :: "copier \<Rightarrow> bool" where
  "within c \<longleftrightarrow> slots c \<le> MaxSlots \<and> nbytes c \<le> MaxBytes"

text \<open>
  \<^term>\<open>charged P deep s b c ok h c'\<close>: from the budget \<^term>\<open>c\<close> to \<^term>\<open>c'\<close>, a copy that
  succeeds exactly when \<^term>\<open>P\<close> holds and \<^term>\<open>s\<close> slots and \<^term>\<open>b\<close> bytes are left, and that
  then reports the height \<^term>\<open>deep\<close> and charges just those.
\<close>

definition charged ::
  "bool \<Rightarrow> nat \<Rightarrow> nat \<Rightarrow> nat \<Rightarrow> copier \<Rightarrow> bool \<Rightarrow> nat \<Rightarrow> copier \<Rightarrow> bool" where
  "charged P deep s b c ok h c' \<longleftrightarrow>
     within c' \<and>
     (ok \<longleftrightarrow> P \<and> slots c + s \<le> MaxSlots \<and> nbytes c + b \<le> MaxBytes) \<and>
     (ok \<longrightarrow> h = deep \<and> slots c' = slots c + s \<and> nbytes c' = nbytes c + b)"

lemma reserve_None:
  "within c \<Longrightarrow> reserve c s b = None \<longleftrightarrow> slots c + s > MaxSlots \<or> nbytes c + b > MaxBytes"
  by (auto simp: reserve_def within_def)

lemma reserve_Some:
  "within c \<Longrightarrow> reserve c s b = Some c' \<Longrightarrow>
    within c' \<and> slots c' = slots c + s \<and> nbytes c' = nbytes c + b"
  by (auto simp: reserve_def within_def split: if_splits)


lemma charged_same: "within c \<Longrightarrow> P \<Longrightarrow> charged P 0 0 0 c True 0 c"
  by (simp add: charged_def within_def)

lemma charged_refused:
  "within c \<Longrightarrow> \<not> (P \<and> slots c + s \<le> MaxSlots \<and> nbytes c + b \<le> MaxBytes) \<Longrightarrow> charged P deep s b c False h c"
  by (simp add: charged_def)

lemma copyScalarSlice_charged:
  assumes "within c" "copyScalarSlice c v n sz = ((y, ok, h), c')"
  shows "y = v \<and> charged (0 < sz \<or> n = 0) 0 1 (n * sz) c ok h c'"
proof (cases "n > MaxBytes div sz")
  case True
  have "n * sz > MaxBytes" if "0 < sz"
    using True that by (simp add: div_less_iff_less_mult)
  moreover have "n \<noteq> 0"
    using True by simp
  ultimately show ?thesis
    using True assms by (auto simp: copyScalarSlice_def charged_def)
next
  case False
  show ?thesis
  proof (cases "0 < sz")
    case True
    show ?thesis
      using False assms reserve_Some [OF assms(1), of 1 "n * sz"] reserve_None [OF assms(1), of 1 "n * sz"] True
      by (auto simp: copyScalarSlice_def charged_def split: option.splits)
  next
    case False
    then show ?thesis
      using assms \<open>\<not> n > MaxBytes div sz\<close>
        reserve_Some [OF assms(1), of 1 0] reserve_None [OF assms(1), of 1 0]
      by (auto simp: copyScalarSlice_def charged_def split: option.splits)
  qed
qed

lemma charged_step:
  assumes "charged (D1 \<and> d + deep1 \<le> MaxDepth) deep1 s1 b1 c ok1 h1 c1"
    and "charged (D2 \<and> d + deep2 \<le> MaxDepth + 1) deep2 s2 b2 c1 ok2 h2 c2"
  shows "charged ((D1 \<and> D2) \<and> d + max (deep1 + 1) deep2 \<le> MaxDepth + 1) (max (deep1 + 1) deep2)
           (s1 + s2) (b1 + b2) c (ok1 \<and> ok2) (max (h1 + 1) h2) c2"
proof -
  have "d + max (deep1 + 1) deep2 \<le> MaxDepth + 1 \<longleftrightarrow> d + deep1 \<le> MaxDepth \<and> d + deep2 \<le> MaxDepth + 1"
    by auto
  note depth = this
  show ?thesis
  proof (cases ok1)
    case True
    then have "slots c1 = slots c + s1" "nbytes c1 = nbytes c + b1"
      using assms(1) by (simp_all add: charged_def)
    with True show ?thesis
      using assms unfolding charged_def depth by (simp add: add.assoc)
  next
    case False
    then have "\<not> (D1 \<and> d + deep1 \<le> MaxDepth \<and> slots c + s1 \<le> MaxSlots \<and> nbytes c + b1 \<le> MaxBytes)"
      using assms(1) by (simp add: charged_def)
    then have "\<not> (D1 \<and> d + deep1 \<le> MaxDepth \<and> slots c + (s1 + s2) \<le> MaxSlots \<and> nbytes c + (b1 + b2) \<le> MaxBytes)"
      by linarith
    with False show ?thesis
      using assms(2) unfolding charged_def depth by blast
  qed
qed

lemma charged_enclose:
  assumes "within c" "reserve c s1 b1 = Some c1" "charged P deep s2 b2 c1 ok h c2"
  shows "charged P deep (s1 + s2) (b1 + b2) c ok h c2"
  using assms reserve_Some [OF assms(1,2)] by (auto simp: charged_def)

lemma charged_cong:
  "charged P deep s b c ok h c' \<Longrightarrow> P = P' \<Longrightarrow> deep = deep' \<Longrightarrow> s = s' \<Longrightarrow> b = b' \<Longrightarrow>
    charged P' deep' s' b' c ok h c'"
  by simp

lemma triple_state_cases:
  obtains y ok h c' where "r = ((y, ok, h), c')"
  by (cases r) auto

lemma copy_charged:
  "within c \<Longrightarrow> copy_val c v d = ((y, ok, h), c') \<Longrightarrow>
     y = v \<and> charged (detachable v \<and> d + vdepth v \<le> MaxDepth) (vdepth v) (slot_cost v) (byte_cost v) c ok h c'"
  "within c \<Longrightarrow> d \<le> MaxDepth + 1 \<Longrightarrow> copy_vals c xs d = ((ys, ok, h), c') \<Longrightarrow>
     ys = xs \<and> charged (list_all detachable xs \<and> d + list_depth xs \<le> MaxDepth + 1) (list_depth xs)
       (sum_list (map slot_cost xs)) (sum_list (map byte_cost xs)) c ok h c'"
  "within c \<Longrightarrow> d \<le> MaxDepth + 1 \<Longrightarrow> copy_entries c es d = ((zs, ok, h), c') \<Longrightarrow>
     zs = es \<and> charged (list_all detachable (map snd es) \<and> d + list_depth (map snd es) \<le> MaxDepth + 1)
       (list_depth (map snd es)) (sum_list (map slot_cost (map snd es)))
       (sum_list (map byte_cost (map snd es))) c ok h c'"
proof (induction c v d and c xs d and c es d arbitrary: y ok h c' and ys ok h c' and zs ok h c'
    rule: copy_val_copy_vals_copy_entries.induct)
  case (1 c v depth)
  show ?case
  proof (cases "depth > MaxDepth")
    case True
    then show ?thesis
      using "1.prems" by (auto simp: copy_val.simps intro!: charged_refused)
  next
    case False
    show ?thesis
    proof (cases v)
      case (VBytes o1)
      then show ?thesis
        using "1.prems" False copyScalarSlice_charged [OF "1.prems"(1), of "VBytes o1" "length (the o1)" 1]
        by (cases o1) (auto simp: copy_val.simps intro!: charged_cong [OF charged_same])
    next
      case (VScalars st o1)
      then show ?thesis
        using "1.prems" False copyScalarSlice_charged [OF "1.prems"(1), of "VScalars st o1" "length (the o1)" "scalar_size st"]
        by (cases o1) (auto simp: copy_val.simps intro!: charged_cong [OF charged_same])
    next
      case (VList o1)
      show ?thesis
      proof (cases o1)
        case None
        then show ?thesis
          using VList "1.prems" False by (auto simp: copy_val.simps intro!: charged_cong [OF charged_same])
      next
        case (Some xs)
        show ?thesis
        proof (cases "length xs > MaxSlots \<or> reserve c (length xs + 1) (length xs * 16) = None")
          case True
          have "copy_val c v depth = ((v, False, 0), c)"
            using VList Some False True by (auto simp: copy_val.simps)
          moreover have "slots c + (length xs + 1) > MaxSlots \<or> nbytes c + length xs * 16 > MaxBytes"
            using True reserve_None [OF "1.prems"(1), of "length xs + 1" "length xs * 16"] by linarith
          ultimately show ?thesis
            using VList Some "1.prems" by (auto simp del: vdepth.simps intro!: charged_refused)
        next
          case fits: False
          then obtain c1 where c1: "reserve c (length xs + 1) (length xs * 16) = Some c1"
            by auto
          obtain ys ok2 h2 c2 where 2: "copy_vals c1 xs (depth + 1) = ((ys, ok2, h2), c2)"
            by (rule triple_state_cases)
          have "within c1" using reserve_Some [OF "1.prems"(1) c1] by simp
          have "ys = xs \<and> charged (list_all detachable xs \<and> depth + 1 + list_depth xs \<le> MaxDepth + 1)
              (list_depth xs) (sum_list (map slot_cost xs)) (sum_list (map byte_cost xs)) c1 ok2 h2 c2"
            using "1.IH"(1) [OF False VList Some _ c1 \<open>within c1\<close> _ 2] fits False by simp
          then show ?thesis
            using VList Some "1.prems" False fits c1 2 charged_enclose [OF "1.prems"(1) c1]
            by (auto simp: copy_val.simps vdepth_VList list_all_iff simp del: vdepth.simps elim!: charged_cong)
        qed
      qed
    next
      case (VMap o1)
      show ?thesis
      proof (cases o1)
        case None
        then show ?thesis
          using VMap "1.prems" False by (auto simp: copy_val.simps intro!: charged_cong [OF charged_same])
      next
        case (Some es)
        show ?thesis
        proof (cases "length es > MaxSlots \<or> reserve c (length es + 1) (length es * 64) = None")
          case True
          have "copy_val c v depth = ((v, False, 0), c)"
            using VMap Some False True by (auto simp: copy_val.simps)
          moreover have "slots c + (length es + 1) > MaxSlots \<or> nbytes c + length es * 64 > MaxBytes"
            using True reserve_None [OF "1.prems"(1), of "length es + 1" "length es * 64"] by linarith
          ultimately show ?thesis
            using VMap Some "1.prems" by (auto simp del: vdepth.simps intro!: charged_refused)
        next
          case fits: False
          then obtain c1 where c1: "reserve c (length es + 1) (length es * 64) = Some c1"
            by auto
          obtain ys ok2 h2 c2 where 2: "copy_entries c1 es (depth + 1) = ((ys, ok2, h2), c2)"
            by (rule triple_state_cases)
          have "within c1" using reserve_Some [OF "1.prems"(1) c1] by simp
          have "ys = es \<and> charged (list_all detachable (map snd es) \<and>
                depth + 1 + list_depth (map snd es) \<le> MaxDepth + 1)
              (list_depth (map snd es)) (sum_list (map slot_cost (map snd es)))
              (sum_list (map byte_cost (map snd es))) c1 ok2 h2 c2"
            using "1.IH"(2) [OF False VMap Some _ c1 \<open>within c1\<close> _ 2] fits False by simp
          then show ?thesis
            using VMap Some "1.prems" False fits c1 2 charged_enclose [OF "1.prems"(1) c1]
            by (auto simp: copy_val.simps vdepth_VMap list_all_iff comp_def simp del: vdepth.simps
                elim!: charged_cong)
        qed
      qed
    qed (use "1.prems" False in \<open>auto simp: copy_val.simps intro!: charged_refused charged_cong [OF charged_same]\<close>)
  qed
next
  case (2 c depth)
  then show ?case by (auto simp: charged_def within_def)
next
  case (3 c x xs depth)
  obtain y1 ok1 h1 c1 where 1: "copy_val c x depth = ((y1, ok1, h1), c1)"
    by (rule triple_state_cases)
  obtain y2 ok2 h2 c2 where 2: "copy_vals c1 xs depth = ((y2, ok2, h2), c2)"
    by (rule triple_state_cases)
  note A = "3.IH"(1) [OF "3.prems"(1) 1]
  have "within c1" using A by (simp add: charged_def)
  note B = "3.IH"(2) [OF 1 [symmetric] refl refl \<open>within c1\<close> "3.prems"(2) 2]
  show ?case
    using "3.prems"(3) A B charged_step [OF A [THEN conjunct2] B [THEN conjunct2]]
    by (clarsimp simp: 1 2)
next
  case (4 c depth)
  then show ?case by (auto simp: charged_def within_def)
next
  case (5 c k x es depth)
  obtain y1 ok1 h1 c1 where 1: "copy_val c x depth = ((y1, ok1, h1), c1)"
    by (rule triple_state_cases)
  obtain y2 ok2 h2 c2 where 2: "copy_entries c1 es depth = ((y2, ok2, h2), c2)"
    by (rule triple_state_cases)
  note A = "5.IH"(1) [OF "5.prems"(1) 1]
  have "within c1" using A by (simp add: charged_def)
  note B = "5.IH"(2) [OF 1 [symmetric] refl refl \<open>within c1\<close> "5.prems"(2) 2]
  show ?case
    using "5.prems"(3) A B charged_step [OF A [THEN conjunct2] B [THEN conjunct2]]
    by (clarsimp simp: 1 2)
qed


lemma Copy_spec:
  assumes "within c" "Copy c v = ((y, ok), c')"
  shows "y = v \<and> within c' \<and>
     (ok \<longleftrightarrow> detachable v \<and> vdepth v \<le> MaxDepth \<and>
        slots c + slot_cost v \<le> MaxSlots \<and> nbytes c + byte_cost v \<le> MaxBytes)"
proof -
  obtain y1 ok1 h1 c1 where 1: "copy_val c v 0 = ((y1, ok1, h1), c1)"
    by (rule triple_state_cases)
  show ?thesis
    using assms(2) copy_charged(1) [OF assms(1) 1] by (auto simp: Copy_def 1 charged_def)
qed

lemma within_new [simp]: "within new_copier"
  by (simp add: within_def new_copier_def)

text \<open>An inspection value is settled when it is detached and its data can be.\<close>

definition settled_value :: "pvalue \<Rightarrow> bool" where
  "settled_value v \<longleftrightarrow> isolation v = detached \<and> detachable (pdata v)"

lemma inspectionValue_spec:
  assumes "within c" "inspectionValue c v = (w, c')"
  shows "within c' \<and> (isolation w = detached \<longrightarrow> settled_value w \<and> w = v)"
proof (cases "isolation v = detached")
  case True
  obtain d ok c1 where 1: "Copy c (pdata v) = ((d, ok), c1)"
    by (metis surj_pair)
  show ?thesis
    using assms(2) True Copy_spec [OF assms(1) 1]
    by (auto simp: inspectionValue_def 1 settled_value_def split: if_splits)
qed (use assms in \<open>auto simp: inspectionValue_def\<close>)

lemma inspection_values_spec:
  "within c \<Longrightarrow> inspection_values c vs = (ws, c') \<Longrightarrow>
     within c' \<and> length ws = length vs \<and> (\<forall>w \<in> set ws. isolation w = detached \<longrightarrow> settled_value w)"
proof (induction c vs arbitrary: ws c' rule: inspection_values.induct)
  case (2 c v vs)
  obtain w1 c1 where 1: "inspectionValue c v = (w1, c1)" by fastforce
  obtain ws2 c2 where 2: "inspection_values c1 vs = (ws2, c2)" by fastforce
  note A = inspectionValue_spec [OF "2.prems"(1) 1]
  show ?case
    using "2.prems"(2) A "2.IH" [OF 1 [symmetric] A [THEN conjunct1] 2] by (auto simp: 1 2)
qed simp

lemma inspection_named_spec:
  assumes "within c" "inspection_named c m = (n, c')"
  shows "within c'"
proof (cases m)
  case (Some es)
  obtain ws c1 where 1: "inspection_values c (map snd es) = (ws, c1)" by fastforce
  show ?thesis
    using assms(2) inspection_values_spec [OF assms(1) 1] by (simp add: inspection_named_def Some 1)
qed (use assms in \<open>simp add: inspection_named_def\<close>)

text \<open>
  A view is settled when every node of it says \<^verbatim>\<open>generated\<close> and carries settled values only.
\<close>

definition settled_info :: "node_info \<Rightarrow> bool" where
  "settled_info i \<longleftrightarrow> correspondence i = generated \<and> (\<forall>v \<in> set (node_values i). settled_value v)"

lemma generated_not_unverified [simp]: "generated \<noteq> unverified"
  by simp

lemma copy_node_settled:
  "within c \<Longrightarrow> copy_node c n = (m, c') \<Longrightarrow>
     within c' \<and> (correspondence (info m) = generated \<longrightarrow> (\<forall>i \<in> set (nodes_of m). settled_info i))"
  "within c \<Longrightarrow> copy_nodes c cs = (ds, c') \<Longrightarrow>
     within c' \<and> ((\<forall>ch \<in> set ds. case ch of None \<Rightarrow> True | Some n \<Rightarrow> correspondence (info n) = generated) \<longrightarrow>
       (\<forall>i \<in> set (nodes_of_list ds). settled_info i))"
proof (induction c n and c cs arbitrary: m c' and ds c' rule: copy_node_copy_nodes.induct)
  case (1 c i cs)
  obtain nv c1 where 1: "inspection_named c (named_values i) = (nv, c1)" by fastforce
  obtain es c2 where 2: "copy_nodes c1 cs = (es, c2)" by fastforce
  obtain vs c3 where 3: "inspection_values c2 (node_values i) = (vs, c3)" by fastforce
  have w1: "within c1" using inspection_named_spec [OF "1.prems"(1) 1] .
  note IH = "1.IH" [OF 1 [symmetric] w1 2]
  note vals = inspection_values_spec [OF IH [THEN conjunct1] 3]
  show ?case
    using "1.prems"(2) IH vals
    by (auto simp: 1 2 3 Let_def node_settled_def settled_info_def split: if_splits)
next
  case (3 c cs)
  then show ?case by (auto split: prod.splits)
next
  case (4 c n cs)
  obtain m1 c1 where 1: "copy_node c n = (m1, c1)" by fastforce
  obtain es c2 where 2: "copy_nodes c1 cs = (es, c2)" by fastforce
  note A = "4.IH"(1) [OF "4.prems"(1) 1]
  note B = "4.IH"(2) [OF 1 [symmetric] A [THEN conjunct1] 2]
  show ?case
    using "4.prems"(2) A B by (auto simp: 1 2)
qed simp

text \<open>A copy keeps the parameter positions and the SQL of every node.\<close>

lemma copy_node_frame:
  "copy_node c n = (m, c') \<Longrightarrow>
     map (\<lambda>i. (kind i, parameters i, node_sql i)) (nodes_of m) = map (\<lambda>i. (kind i, parameters i, node_sql i)) (nodes_of n)"
  "copy_nodes c cs = (ds, c') \<Longrightarrow>
     map (\<lambda>i. (kind i, parameters i, node_sql i)) (nodes_of_list ds) = map (\<lambda>i. (kind i, parameters i, node_sql i)) (nodes_of_list cs)"
  by (induction c n and c cs arbitrary: m c' and ds c' rule: copy_node_copy_nodes.induct)
    (auto simp: Let_def split: prod.splits if_splits)

lemma Shift_Shift [simp]:
  "Shift d (Shift e n) = Shift (d + e) n"
  "shift_list d (shift_list e cs) = shift_list (d + e) cs"
  by (induction n and cs rule: nodes_of_nodes_of_list.induct) (auto simp: comp_def algebra_simps)

lemma parameters_Shift:
  "map parameters (nodes_of (Shift d n)) = map (\<lambda>i. map (\<lambda>p. p + d) (parameters i)) (nodes_of n)"
  "map parameters (nodes_of_list (shift_list d cs)) = map (\<lambda>i. map (\<lambda>p. p + d) (parameters i)) (nodes_of_list cs)"
  by (induction n and cs rule: nodes_of_nodes_of_list.induct) auto

section \<open>Properties\<close>



text \<open>
  When the copy of an inspection view says its text corresponds to generated SQL, every node below it
  says so too, every value it carries is detached data, and the kinds, parameter positions and
  SQL texts are those of the view that was copied.
\<close>

theorem copied_view_generated:
  assumes "copy_node new_copier n = (m, c')" "correspondence (info m) = generated"
  shows "(\<forall>i \<in> set (nodes_of m). correspondence i = generated \<and>
           (\<forall>v \<in> set (node_values i). isolation v = detached \<and> detachable (pdata v))) \<and>
         map (\<lambda>i. (kind i, parameters i, node_sql i)) (nodes_of m) =
         map (\<lambda>i. (kind i, parameters i, node_sql i)) (nodes_of n)"
  using copy_node_settled(1) [OF within_new assms(1)] assms(2) copy_node_frame(1) [OF assms(1)]
  by (auto simp: settled_info_def settled_value_def)


definition sample_view :: pnode where
  "sample_view =
     Node (blank_info\<lparr>kind := ''not'', correspondence := generated\<rparr>)
       [Some (Node (blank_info\<lparr>kind := ''comparison'', parameters := [0], correspondence := generated,
           node_values := [\<lparr>isolation = detached, reason = [], pdata = VInt 7\<rparr>]\<rparr>) [])]"

theorem copied_view_generated_witness:
  "copy_node new_copier sample_view = (sample_view, new_copier) \<and>
     map parameters (nodes_of sample_view) = [[], [0]] \<and>
     map correspondence (nodes_of sample_view) = [generated, generated] \<and>
     concat (map (\<lambda>i. map isolation (node_values i)) (nodes_of sample_view)) = [detached]"
proof -
  have copied: "copy_node new_copier sample_view = (sample_view, new_copier)"
    by (simp add: sample_view_def blank_info_def inspection_named_def inspectionValue_def Copy_def
        copy_val.simps node_settled_def new_copier_def MaxDepth_def)
  have top: "correspondence (info sample_view) = generated"
    by (simp add: sample_view_def)
  have "map parameters (nodes_of sample_view) = [[], [0]]"
    by (simp add: sample_view_def blank_info_def)
  moreover have "concat (map (\<lambda>i. map isolation (node_values i)) (nodes_of sample_view)) = [detached]"
    by (simp add: sample_view_def blank_info_def)
  moreover have "\<forall>i \<in> set (nodes_of sample_view). correspondence i = generated"
    using copied_view_generated [OF copied top] by blast
  then have "map correspondence (nodes_of sample_view) = [generated, generated]"
    by (simp add: sample_view_def)
  ultimately show ?thesis
    using copied by blast
qed

end
