(* ===== verification/QueryStructs.thy ===== *)
theory QueryStructs
  imports GoValues
begin

text \<open>
  The builder's data (\<^verbatim>\<open>common/structs/query.go\<close>): conditions, groups and queries.  A pointer
  that may be nil is an option, a pointer to a slice an option of a list.  The fields that
  lead to other conditions or queries are arguments of the datatype's constructors, the others are a record.
\<close>

record where_between =
  bt_IsColumn :: bool
  bt_IsNot :: bool
  bt_From :: goval
  bt_To :: goval

record full_text =
  ft_IsNot :: bool
  ft_Columns :: "gostring list"
  ft_Search :: gostring
  ft_Options :: "(gostring \<times> goval) list option"

record where_flat =
  w_LiteralColumn :: bool
  w_Column :: gostring
  w_Condition :: gostring
  w_Value :: "goval list option"
  w_ValueColumn :: gostring
  w_ValueMap :: "(gostring \<times> goval) list option"
  w_Operator :: int
  w_Between :: "where_between option"
  w_FullText :: "full_text option"
  w_JsonContains :: "goval list option option"
  w_JsonLength :: "(gostring \<times> goval) option"
  w_Raw :: gostring
  w_Function :: gostring

record select_column =
  sc_Name :: gostring
  sc_Raw :: gostring
  sc_Values :: "goval list"
  sc_Distinct :: bool
  sc_Count :: bool
  sc_Function :: gostring

record order_by =
  ob_Column :: gostring
  ob_IsAsc :: bool
  ob_Raw :: gostring

record having =
  hv_Column :: gostring
  hv_Condition :: gostring
  hv_Value :: goval
  hv_Operator :: int
  hv_Raw :: gostring

record query_flat =
  q_PredicateError :: "gostring option"
  q_Columns :: "select_column list option"
  q_Table :: gostring
  q_Limit :: "bool \<times> int"
  q_Offset :: int
  q_Order :: "order_by list option"
  q_Group :: "(gostring list \<times> having list option) option"
  q_Lock :: "gostring option"

record join_flat =
  j_Name :: gostring
  j_SearchColumn :: gostring
  j_SearchCondition :: gostring
  j_SearchTargetColumn :: gostring
  j_TargetNameMap :: "(gostring \<times> gostring) list"

record on_cond =
  on_Column :: gostring
  on_Condition :: gostring
  on_Value :: goval
  on_Operator :: int

datatype where_cond =
    Where (wf: where_flat) (Nested: "where_group list option") (SubQuery: "query option")
      (Exists: "(bool \<times> query) option")
and where_group =
    WhereGroup (Conditions: "where_cond list") (GOperator: int) (IsDummyGroup: bool) (IsNot: bool)
and query =
    Query (qf: query_flat) (Unions: "(query \<times> bool) list") (Joins: "joins option")
      (ConditionGroups: "where_group list") (QConditions: "where_cond list option")
and joins =
    JoinSet (PlainJoins: "join list option") (JoinClauses: "join_clause list option") (LateralJoins: "join list option")
and join = Join join_flat "query option"
and join_clause =
    JoinClause (jc_On: "on_cond list option") (jc_Groups: "where_group list option")
      (jc_Conditions: "where_cond list option") (jc_Flat: join_flat) (jc_Query: "query option")

end
