(* ===== verification/PredicateTree.thy ===== *)
theory PredicateTree
  imports QueryStructs PredicateView SqlLogic
begin

text \<open>
  The condition tree (\<^verbatim>\<open>common/structs/predicate.go\<close>): from the builder's flat lists of
  conditions and groups to the tree that SQL rendering and inspection both walk, and the depth bound on
  nested groups and subqueries.  The condition lists are finite trees, so the depth check stands for
  the rejection of cycles too: a cyclic query is one of unbounded depth.
\<close>

section \<open>Leaf kinds\<close>

definition ident_letter :: "char \<Rightarrow> bool" where
  [go_eval]: "ident_letter c \<longleftrightarrow> is_lower c \<or> is_upper c \<or> c = CHR ''_''"

fun plain_identifier_from :: "bool \<Rightarrow> gostring \<Rightarrow> bool" where
  "plain_identifier_from first [] = True"
| "plain_identifier_from first (c # cs) =
     ((ident_letter c \<or> \<not> first \<and> is_digit c) \<and> plain_identifier_from False cs)"

definition comparison_ops :: "gostring list" where
  [go_eval]: "comparison_ops = [''='', ''!='', ''<>'', ''<'', ''>'', ''<='', ''>='', ''LIKE'', ''NOT LIKE'']"

definition leafKind :: "where_cond \<Rightarrow> gostring" where
  [go_eval]: "leafKind c =
     (let f = wf c; op = to_upper (trim_space (w_Condition f)) in
      if w_LiteralColumn f \<and> \<not> plain_identifier_from True (w_Column f) then ''opaque''
      else if w_Raw f \<noteq> [] \<or> SubQuery c \<noteq> None \<or> Exists c \<noteq> None \<or> w_Function f \<noteq> [] \<or>
              w_FullText f \<noteq> None \<or> w_JsonContains f \<noteq> None \<or> w_JsonLength f \<noteq> None then ''opaque''
      else if w_Between f \<noteq> None then ''between''
      else if w_ValueColumn f \<noteq> [] then ''column''
      else if op = ''IN'' \<or> op = ''NOT IN'' then ''in''
      else if op = ''IS NULL'' \<or> op = ''IS NOT NULL'' then ''null''
      else if op \<in> set comparison_ops then ''comparison''
      else ''opaque'')"

section \<open>The tree\<close>

datatype ptree = Inner gostring "ptree list" | Leaf gostring where_cond

definition and_node :: "ptree list \<Rightarrow> ptree" where
  [go_eval]: "and_node ns = (case ns of [n] \<Rightarrow> n | _ \<Rightarrow> Inner ''and'' ns)"

text \<open>The runs of operands between two ORs; \<^term>\<open>run\<close> is the current one.\<close>

fun or_runs :: "'a list \<Rightarrow> ('a \<times> int) list \<Rightarrow> 'a list list" where
  "or_runs run [] = [run]"
| "or_runs run ((n, op) # ns) = (if op = 1 then run # or_runs [n] ns else or_runs (run @ [n]) ns)"

definition combine :: "(ptree \<times> int) list \<Rightarrow> ptree option" where
  [go_eval]: "combine nodes =
     (case nodes of
        [] \<Rightarrow> None
      | (n, _) # ns \<Rightarrow>
          (case map and_node (or_runs [n] ns) of
             [d] \<Rightarrow> Some d
           | ds \<Rightarrow> Some (Inner ''or'' ds)))"

definition explicit_group :: "bool \<Rightarrow> ptree \<Rightarrow> ptree" where
  [go_eval]: "explicit_group isnot t =
     (let n = Inner ''group'' [t] in if isnot then Inner ''not'' [n] else n)"

text \<open>
  \<^verbatim>\<open>predicateTree\<close>.  Its depth argument is 0 in every call, so its own check never fires; nodes
  are kept with the operator that joins them to their predecessor, as the code's two
  parallel slices keep them.
\<close>

fun pt_cond :: "where_cond \<Rightarrow> ptree option"
and pt_conds :: "where_cond list \<Rightarrow> (ptree \<times> int) list"
and pt_group :: "where_group \<Rightarrow> (ptree \<times> int) list"
and pt_groups :: "where_group list \<Rightarrow> (ptree \<times> int) list" where
  "pt_cond (Where f nested q e) =
     (case nested of
        None \<Rightarrow> Some (Leaf (leafKind (Where f nested q e)) (Where f nested q e))
      | Some gs \<Rightarrow> combine (pt_groups gs))"
| "pt_conds [] = []"
| "pt_conds (c # cs) =
     (case pt_cond c of None \<Rightarrow> pt_conds cs | Some n \<Rightarrow> (n, w_Operator (wf c)) # pt_conds cs)"
| "pt_group (WhereGroup cs op dummy isnot) =
     (let children = pt_conds cs in
      if children = [] then []
      else if dummy then children
      else [(explicit_group isnot (the (combine children)), op)])"
| "pt_groups [] = []"
| "pt_groups (g # gs) = pt_group g @ pt_groups gs"

definition predicateTree :: "where_group list \<Rightarrow> ptree option" where
  [go_eval]: "predicateTree gs = combine (pt_groups gs)"

section \<open>Validation\<close>

definition ErrDepth :: gostring where
  [go_eval]: "ErrDepth = ''predicate nesting exceeds 64 levels''"

text \<open>The first error of a sequence of checks.\<close>

fun check_all :: "gostring option list \<Rightarrow> gostring option" where
  "check_all [] = None"
| "check_all (None # rs) = check_all rs"
| "check_all (Some e # rs) = Some e"

lemma check_all_None: "check_all rs = None \<longleftrightarrow> (\<forall>r \<in> set rs. r = None)"
  by (induction rs rule: check_all.induct) auto

definition check_list :: "(nat \<Rightarrow> gostring option) list \<Rightarrow> nat \<Rightarrow> gostring option" where
  [go_eval]: "check_list vs d = check_all (map (\<lambda>v. v d) vs)"

definition check_some :: "(nat \<Rightarrow> gostring option) option \<Rightarrow> nat \<Rightarrow> gostring option" where
  [go_eval]: "check_some v d = (case v of None \<Rightarrow> None | Some f \<Rightarrow> f d)"

primrec validateQuery :: "query \<Rightarrow> nat \<Rightarrow> gostring option"
and validateGroup :: "where_group \<Rightarrow> nat \<Rightarrow> gostring option"
and validateCond :: "where_cond \<Rightarrow> bool \<Rightarrow> nat \<Rightarrow> gostring option"
and validateJoins :: "joins \<Rightarrow> nat \<Rightarrow> gostring option"
and validateJoin :: "join \<Rightarrow> nat \<Rightarrow> gostring option"
and validateClause :: "join_clause \<Rightarrow> nat \<Rightarrow> gostring option" where
  "validateQuery (Query f us js gs cs) = (\<lambda>depth.
     if depth > MaxDepth then Some ErrDepth
     else check_all [
       check_list (map fst (map (map_prod validateQuery id) us)) (depth + 1),
       q_PredicateError f,
       check_list (map validateGroup gs) depth,
       check_some (map_option (\<lambda>l d. check_list (map (\<lambda>v. v True) l) d) (map_option (map validateCond) cs)) depth,
       check_some (map_option validateJoins js) (depth + 1)])"
| "validateGroup (WhereGroup cs op dummy isnot) = (\<lambda>depth.
     let d = (if dummy then depth else depth + 1) in
     if d > MaxDepth then Some ErrDepth
     else check_list (map (\<lambda>v. v dummy) (map validateCond cs)) d)"
| "validateCond (Where f nested q e) = (\<lambda>dummy d.
     check_all [
       check_some (map_option check_list (map_option (map validateGroup) nested)) (if dummy then d + 1 else d),
       check_some (map_option validateQuery q) (d + 1),
       check_some (map_option snd (map_option (map_prod id validateQuery) e)) (d + 1)])"
| "validateJoins (JoinSet jl jc ll) = (\<lambda>depth.
     check_all [
       check_some (map_option check_list (map_option (map validateJoin) jl)) depth,
       check_some (map_option check_list (map_option (map validateJoin) ll)) depth,
       check_some (map_option check_list (map_option (map validateClause) jc)) depth])"
| "validateJoin (Join f q) = (\<lambda>depth. check_some (map_option validateQuery q) depth)"
| "validateClause (JoinClause os gs cs f q) = (\<lambda>depth. check_some (map_option validateQuery q) depth)"

definition ValidateQuery :: "query option \<Rightarrow> gostring option" where
  [go_eval]: "ValidateQuery q = check_some (map_option validateQuery q) 0"

definition PredicateTree :: "where_group list \<Rightarrow> gostring + ptree option" where
  [go_eval]: "PredicateTree gs =
     (case check_list (map validateGroup gs) 0 of Some e \<Rightarrow> Inl e | None \<Rightarrow> Inr (predicateTree gs))"


section \<open>What the tree and its SQL mean\<close>

text \<open>
  The meaning of a tree in SQL's three-valued logic, given the value \<^term>\<open>L c\<close> of every
  leaf.
\<close>

fun ev :: "(where_cond \<Rightarrow> tv) \<Rightarrow> ptree \<Rightarrow> tv" where
  "ev L (Leaf k c) = L c"
| "ev L (Inner k ns) =
     (if k = ''and'' then tv_all (map (ev L) ns)
      else if k = ''or'' then tv_any (map (ev L) ns)
      else if k = ''not'' then tv_not (tv_all (map (ev L) ns))
      else tv_all (map (ev L) ns))"

datatype tok = TAnd | TOr | TNot | TOpen | TClose | TAtom where_cond

text \<open>
  The tokens of the builder's own order of things: conditions and groups written one after
  the other, each but the first after the connective of its operator, explicit groups in
  parentheses and after NOT when negated, groups without conditions left out.
\<close>

definition connective :: "int \<Rightarrow> tok" where
  "connective op = (if op = 1 then TOr else TAnd)"

fun written :: "(tok list \<times> int) list \<Rightarrow> tok list" where
  "written [] = []"
| "written ((t, op) # ts) = t @ concat (map (\<lambda>(u, op). connective op # u) ts)"

fun written_cond :: "where_cond \<Rightarrow> tok list"
and written_conds :: "where_cond list \<Rightarrow> (tok list \<times> int) list"
and written_group :: "where_group \<Rightarrow> (tok list \<times> int) list"
and written_groups :: "where_group list \<Rightarrow> (tok list \<times> int) list" where
  "written_cond (Where f nested q e) =
     (case nested of None \<Rightarrow> [TAtom (Where f nested q e)] | Some gs \<Rightarrow> written (written_groups gs))"
| "written_conds [] = []"
| "written_conds (c # cs) =
     (if written_cond c = [] then written_conds cs else (written_cond c, w_Operator (wf c)) # written_conds cs)"
| "written_group (WhereGroup cs op dummy isnot) =
     (let ws = written_conds cs in
      if ws = [] then [] else if dummy then ws
      else [((if isnot then [TNot] else []) @ TOpen # written ws @ [TClose], op)])"
| "written_groups [] = []"
| "written_groups (g # gs) = written_group g @ written_groups gs"

text \<open>
  SQL's reading of such tokens: a recursive-descent parser in which NOT binds tighter than AND, and AND
  tighter than OR.  The first argument is fuel; every token uses at most three calls.
\<close>

fun read_prim :: "nat \<Rightarrow> (where_cond \<Rightarrow> tv) \<Rightarrow> tok list \<Rightarrow> (tv \<times> tok list) option"
and read_and :: "nat \<Rightarrow> (where_cond \<Rightarrow> tv) \<Rightarrow> tok list \<Rightarrow> (tv \<times> tok list) option"
and read_or :: "nat \<Rightarrow> (where_cond \<Rightarrow> tv) \<Rightarrow> tok list \<Rightarrow> (tv \<times> tok list) option" where
  "read_prim (Suc n) L (TAtom c # r) = Some (L c, r)"
| "read_prim (Suc n) L (TNot # r) =
     (case read_prim n L r of Some (v, r') \<Rightarrow> Some (tv_not v, r') | None \<Rightarrow> None)"
| "read_prim (Suc n) L (TOpen # r) =
     (case read_or n L r of Some (v, TClose # r') \<Rightarrow> Some (v, r') | _ \<Rightarrow> None)"
| "read_prim _ L _ = None"
| "read_and 0 L ts = None"
| "read_and (Suc n) L ts =
     (case read_prim n L ts of
        Some (v, TAnd # r) \<Rightarrow>
          (case read_and n L r of Some (w, r') \<Rightarrow> Some (tv_and v w, r') | None \<Rightarrow> None)
      | x \<Rightarrow> x)"
| "read_or 0 L ts = None"
| "read_or (Suc n) L ts =
     (case read_and n L ts of
        Some (v, TOr # r) \<Rightarrow>
          (case read_or n L r of Some (w, r') \<Rightarrow> Some (tv_or v w, r') | None \<Rightarrow> None)
      | x \<Rightarrow> x)"

definition sql_reading :: "(where_cond \<Rightarrow> tv) \<Rightarrow> tok list \<Rightarrow> tv option" where
  "sql_reading L ts =
     (case read_or (3 * length ts + 2) L ts of Some (v, []) \<Rightarrow> Some v | _ \<Rightarrow> None)"

text \<open>The tokens the tree is rendered to.\<close>

fun with_sep :: "tok \<Rightarrow> tok list list \<Rightarrow> tok list" where
  "with_sep s [] = []"
| "with_sep s [t] = t"
| "with_sep s (t # u # ts) = t @ s # with_sep s (u # ts)"

fun tree_tokens :: "ptree \<Rightarrow> tok list" where
  "tree_tokens (Leaf k c) = [TAtom c]"
| "tree_tokens (Inner k ns) =
     (if k = ''group'' then TOpen # concat (map tree_tokens ns) @ [TClose]
      else if k = ''not'' then TNot # concat (map tree_tokens ns)
      else with_sep (if k = ''or'' then TOr else TAnd) (map tree_tokens ns))"

text \<open>
  Trees in which only groups stand where SQL needs parentheses: primaries, conjunctions of
  primaries, disjunctions of those.
\<close>

inductive is_prim :: "ptree \<Rightarrow> bool" and is_conj :: "ptree \<Rightarrow> bool" and is_disj :: "ptree \<Rightarrow> bool" where
  prim_leaf: "is_prim (Leaf k c)"
| prim_group: "is_disj t \<Longrightarrow> is_prim (Inner ''group'' [t])"
| prim_not: "is_prim t \<Longrightarrow> is_prim (Inner ''not'' [t])"
| conj_prim: "is_prim t \<Longrightarrow> is_conj t"
| conj_and: "ns \<noteq> [] \<Longrightarrow> (\<And>n. n \<in> set ns \<Longrightarrow> is_prim n) \<Longrightarrow> is_conj (Inner ''and'' ns)"
| disj_conj: "is_conj t \<Longrightarrow> is_disj t"
| disj_or: "ns \<noteq> [] \<Longrightarrow> (\<And>n. n \<in> set ns \<Longrightarrow> is_conj n) \<Longrightarrow> is_disj (Inner ''or'' ns)"

definition not_and :: "tok list \<Rightarrow> bool" where
  "not_and r \<longleftrightarrow> (case r of TAnd # _ \<Rightarrow> False | _ \<Rightarrow> True)"

definition not_or :: "tok list \<Rightarrow> bool" where
  "not_or r \<longleftrightarrow> (case r of TOr # _ \<Rightarrow> False | _ \<Rightarrow> True)"

lemma not_and_simps [simp]: "not_and []" "\<not> not_and (TAnd # r)" "not_and (TOr # r)" "not_and (TClose # r)"
  by (simp_all add: not_and_def)

lemma not_or_simps [simp]: "not_or []" "\<not> not_or (TOr # r)" "not_or (TClose # r)"
  by (simp_all add: not_or_def)

lemma read_and_single:
  "read_prim n L ts = Some (v, r) \<Longrightarrow> not_and r \<Longrightarrow> read_and (Suc n) L ts = Some (v, r)"
  by (auto simp: not_and_def split: list.splits tok.splits)

lemma read_or_single:
  "read_and n L ts = Some (v, r) \<Longrightarrow> not_or r \<Longrightarrow> read_or (Suc n) L ts = Some (v, r)"
  by (auto simp: not_or_def split: list.splits tok.splits)

lemma with_sep_nonempty: "ts \<noteq> [] \<Longrightarrow> (\<And>t. t \<in> set ts \<Longrightarrow> t \<noteq> []) \<Longrightarrow> with_sep s ts \<noteq> []"
  by (induction s ts rule: with_sep.induct) auto

lemma read_and_list:
  assumes "ns \<noteq> []"
    and "\<And>t n r. t \<in> set ns \<Longrightarrow> 3 * length (tree_tokens t) \<le> n \<Longrightarrow>
           read_prim n L (tree_tokens t @ r) = Some (ev L t, r)"
    and "3 * length (with_sep TAnd (map tree_tokens ns)) + 1 \<le> n" "not_and r"
  shows "read_and n L (with_sep TAnd (map tree_tokens ns) @ r) = Some (tv_all (map (ev L) ns), r)"
  using assms
proof (induction ns arbitrary: n rule: list_nonempty_induct)
  case (single t)
  then obtain m where m: "n = Suc m" by (cases n) auto
  show ?case
    using single read_and_single [of m L "tree_tokens t @ r"] by (simp add: m)
next
  case (cons t ns)
  then obtain u us where ns: "ns = u # us" by (cases ns) auto
  obtain m where m: "n = Suc m" using cons.prems by (cases n) auto
  have first: "read_prim m L (tree_tokens t @ TAnd # with_sep TAnd (map tree_tokens ns) @ r) =
      Some (ev L t, TAnd # with_sep TAnd (map tree_tokens ns) @ r)"
    using cons.prems by (auto simp: m ns)
  have rest: "read_and m L (with_sep TAnd (map tree_tokens ns) @ r) = Some (tv_all (map (ev L) ns), r)"
    using cons.prems by (intro cons.IH) (auto simp: m ns)
  show ?case
    using first rest by (simp add: m ns)
qed

lemma read_or_list:
  assumes "ns \<noteq> []"
    and "\<And>t n r. t \<in> set ns \<Longrightarrow> 3 * length (tree_tokens t) + 1 \<le> n \<Longrightarrow> not_and r \<Longrightarrow>
           read_and n L (tree_tokens t @ r) = Some (ev L t, r)"
    and "3 * length (with_sep TOr (map tree_tokens ns)) + 2 \<le> n" "not_and r" "not_or r"
  shows "read_or n L (with_sep TOr (map tree_tokens ns) @ r) = Some (tv_any (map (ev L) ns), r)"
  using assms
proof (induction ns arbitrary: n rule: list_nonempty_induct)
  case (single t)
  then obtain m where m: "n = Suc m" by (cases n) auto
  show ?case
    using single read_or_single [of m L "tree_tokens t @ r"] by (simp add: m)
next
  case (cons t ns)
  then obtain u us where ns: "ns = u # us" by (cases ns) auto
  obtain m where m: "n = Suc m" using cons.prems by (cases n) auto
  have first: "read_and m L (tree_tokens t @ TOr # with_sep TOr (map tree_tokens ns) @ r) =
      Some (ev L t, TOr # with_sep TOr (map tree_tokens ns) @ r)"
    using cons.prems by (auto simp: m ns)
  have rest: "read_or m L (with_sep TOr (map tree_tokens ns) @ r) = Some (tv_any (map (ev L) ns), r)"
    using cons.prems by (intro cons.IH) (auto simp: m ns)
  show ?case
    using first rest by (simp add: m ns)
qed

lemma read_tree:
  "is_prim t \<Longrightarrow> 3 * length (tree_tokens t) \<le> n \<Longrightarrow> read_prim n L (tree_tokens t @ r) = Some (ev L t, r)"
  "is_conj t \<Longrightarrow> 3 * length (tree_tokens t) + 1 \<le> n \<Longrightarrow> not_and r \<Longrightarrow>
     read_and n L (tree_tokens t @ r) = Some (ev L t, r)"
  "is_disj t \<Longrightarrow> 3 * length (tree_tokens t) + 2 \<le> n \<Longrightarrow> not_and r \<Longrightarrow> not_or r \<Longrightarrow>
     read_or n L (tree_tokens t @ r) = Some (ev L t, r)"
proof (induction arbitrary: n r and n r and n r rule: is_prim_is_conj_is_disj.inducts)
  case (prim_leaf k c)
  then show ?case by (cases n) auto
next
  case (prim_group t)
  then obtain m where "n = Suc m" by (cases n) auto
  then show ?case using prim_group by auto
next
  case (prim_not t)
  then obtain m where "n = Suc m" by (cases n) auto
  then show ?case using prim_not by auto
next
  case (conj_prim t)
  then obtain m where "n = Suc m" by (cases n) auto
  then show ?case using conj_prim by (simp only: read_and_single)
next
  case (conj_and ns)
  then show ?case using read_and_list [of ns L n r] by auto
next
  case (disj_conj t)
  then obtain m where "n = Suc m" by (cases n) auto
  then show ?case using disj_conj by (simp only: read_or_single)
next
  case (disj_or ns)
  then show ?case using read_or_list [of ns L n r] by auto
qed

lemma sql_reading_tree: "is_disj t \<Longrightarrow> sql_reading L (tree_tokens t) = Some (ev L t)"
  using read_tree(3) [of t "3 * length (tree_tokens t) + 2" "[]" L] by (simp add: sql_reading_def)


section \<open>The builder's trees\<close>

text \<open>
  The groups the query builder makes hold a nested list only as the one condition of an
  explicit group.
\<close>

fun built_cond :: "where_cond \<Rightarrow> bool"
and built_conds :: "where_cond list \<Rightarrow> bool"
and built_group :: "where_group \<Rightarrow> bool"
and built_groups :: "where_group list \<Rightarrow> bool" where
  "built_cond (Where f nested q e) = (case nested of None \<Rightarrow> True | Some gs \<Rightarrow> built_groups gs)"
| "built_conds [] = True"
| "built_conds (c # cs) = (built_cond c \<and> built_conds cs)"
| "built_group (WhereGroup cs op dummy isnot) =
     (built_conds cs \<and> ((\<forall>c \<in> set cs. Nested c = None) \<or> \<not> dummy \<and> length cs = 1))"
| "built_groups [] = True"
| "built_groups (g # gs) = (built_group g \<and> built_groups gs)"

lemma tree_tokens_and_node: "run \<noteq> [] \<Longrightarrow> tree_tokens (and_node run) = with_sep TAnd (map tree_tokens run)"
  by (auto simp: and_node_def split: list.splits)

lemma is_conj_and_node: "run \<noteq> [] \<Longrightarrow> (\<And>n. n \<in> set run \<Longrightarrow> is_prim n) \<Longrightarrow> is_conj (and_node run)"
  using conj_and [of run] by (auto simp: and_node_def split: list.splits intro: conj_prim)

lemma or_runs_not_Nil [simp]: "or_runs run ns \<noteq> []"
  by (induction run ns rule: or_runs.induct) auto

lemma or_runs_nonempty: "run \<noteq> [] \<Longrightarrow> r \<in> set (or_runs run ns) \<Longrightarrow> r \<noteq> []"
  by (induction run ns rule: or_runs.induct) (auto split: if_splits)

lemma or_runs_elems: "r \<in> set (or_runs run ns) \<Longrightarrow> set r \<subseteq> set run \<union> fst ` set ns"
  by (induction run ns rule: or_runs.induct) (fastforce split: if_splits)+

lemma with_sep_snoc: "ts \<noteq> [] \<Longrightarrow> with_sep s (ts @ [t]) = with_sep s ts @ s # t"
  by (induction s ts rule: with_sep.induct) auto

lemma with_sep_Cons: "ts \<noteq> [] \<Longrightarrow> with_sep s (t # ts) = t @ s # with_sep s ts"
  by (cases ts) auto

lemma or_runs_text:
  "run \<noteq> [] \<Longrightarrow>
     with_sep TOr (map (\<lambda>r. with_sep TAnd (map f r)) (or_runs run ns)) =
     with_sep TAnd (map f run) @ concat (map (\<lambda>(n, op). connective op # f n) ns)"
  by (induction run ns rule: or_runs.induct) (auto simp: with_sep_Cons with_sep_snoc connective_def)

definition built_nodes :: "(ptree \<times> int) list \<Rightarrow> (tok list \<times> int) list" where
  "built_nodes nodes = map (\<lambda>(n, op). (tree_tokens n, op)) nodes"

lemma built_nodes_simps [simp]:
  "built_nodes [] = []" "built_nodes ((n, op) # ns) = (tree_tokens n, op) # built_nodes ns"
  "built_nodes (ms @ ns) = built_nodes ms @ built_nodes ns" "built_nodes ns = [] \<longleftrightarrow> ns = []"
  by (simp_all add: built_nodes_def)

lemma combine_None [simp]: "combine nodes = None \<longleftrightarrow> nodes = []"
  by (auto simp: combine_def split: list.splits)

lemma combine_cases:
  assumes "combine nodes = Some t"
  obtains n op ns where "nodes = (n, op) # ns"
    and "t = (case map and_node (or_runs [n] ns) of [d] \<Rightarrow> d | ds \<Rightarrow> Inner ''or'' ds)"
  using assms by (auto simp: combine_def split: list.splits)

lemma combine_text: "combine nodes = Some t \<Longrightarrow> tree_tokens t = written (built_nodes nodes)"
proof (erule combine_cases)
  fix n op ns
  assume nodes: "nodes = (n, op) # ns"
    and t: "t = (case map and_node (or_runs [n] ns) of [d] \<Rightarrow> d | ds \<Rightarrow> Inner ''or'' ds)"
  have runs: "map tree_tokens (map and_node (or_runs [n] ns)) =
      map (\<lambda>r. with_sep TAnd (map tree_tokens r)) (or_runs [n] ns)"
    using or_runs_nonempty [of "[n]" _ ns] by (auto intro: tree_tokens_and_node)
  have "tree_tokens t = with_sep TOr (map tree_tokens (map and_node (or_runs [n] ns)))"
    by (auto simp: t split: list.splits)
  also have "\<dots> = tree_tokens n @ concat (map (\<lambda>(n, op). connective op # tree_tokens n) ns)"
    by (simp only: runs) (simp add: or_runs_text)
  also have "\<dots> = written (built_nodes nodes)"
    by (simp add: nodes built_nodes_def comp_def split_def)
  finally show ?thesis .
qed

lemma combine_disj:
  assumes "combine nodes = Some t" "\<And>n op. (n, op) \<in> set nodes \<Longrightarrow> is_prim n"
  shows "is_disj t"
  using assms(1)
proof (rule combine_cases)
  fix n op ns
  assume nodes: "nodes = (n, op) # ns"
    and t: "t = (case map and_node (or_runs [n] ns) of [d] \<Rightarrow> d | ds \<Rightarrow> Inner ''or'' ds)"
  have "is_conj d" if "d \<in> set (map and_node (or_runs [n] ns))" for d
    using that assms(2) nodes or_runs_elems [of _ "[n]" ns] or_runs_nonempty [of "[n]" _ ns]
    by (fastforce intro!: is_conj_and_node)
  then show ?thesis
    using disj_or [of "map and_node (or_runs [n] ns)"]
    by (auto simp: t split: list.splits intro: disj_conj)
qed

lemma combine_Nil [simp]: "combine [] = None"
  by simp

lemma combine_single [simp]: "combine [(n, op)] = Some n"
  by (simp add: combine_def and_node_def)

lemma written_nonempty: "nodes \<noteq> [] \<Longrightarrow> \<forall>n \<in> set nodes. tree_tokens (fst n) \<noteq> [] \<Longrightarrow>
    written (built_nodes nodes) \<noteq> []"
  by (cases nodes) auto

lemma explicit_group_tokens:
  "tree_tokens (explicit_group isnot t) = (if isnot then [TNot] else []) @ TOpen # tree_tokens t @ [TClose]"
  by (simp add: explicit_group_def Let_def)

lemma tree_tokens_written:
  "map_option tree_tokens (pt_cond c) = (if written_cond c = [] then None else Some (written_cond c))"
  "built_nodes (pt_conds cs) = written_conds cs \<and> (\<forall>n \<in> set (pt_conds cs). tree_tokens (fst n) \<noteq> [])"
  "built_nodes (pt_group g) = written_group g \<and> (\<forall>n \<in> set (pt_group g). tree_tokens (fst n) \<noteq> [])"
  "built_nodes (pt_groups gs) = written_groups gs \<and> (\<forall>n \<in> set (pt_groups gs). tree_tokens (fst n) \<noteq> [])"
proof (induction c and cs and g and gs rule: pt_cond_pt_conds_pt_group_pt_groups.induct)
  case (1 f nested q e)
  show ?case
  proof (cases nested)
    case (Some gs)
    show ?thesis
      using "1.IH" [OF Some] written_nonempty [of "pt_groups gs"]
      by (cases "combine (pt_groups gs)"; cases "pt_groups gs = []") (auto simp: Some combine_text)
  qed simp
next
  case (4 cs op dummy isnot)
  show ?case
  proof (cases "dummy \<or> pt_conds cs = []")
    case True
    then show ?thesis using "4.IH" by (auto simp: Let_def)
  next
    case False
    then obtain t where "combine (pt_conds cs) = Some t" by fastforce
    with False show ?thesis
      using "4.IH" by (auto simp: Let_def explicit_group_tokens combine_text)
  qed
qed (auto split: option.splits if_splits)

lemma built_shape:
  "built_cond c \<Longrightarrow> pt_cond c = Some t \<Longrightarrow> is_disj t \<and> (Nested c = None \<longrightarrow> is_prim t)"
  "built_conds cs \<Longrightarrow> (n, op) \<in> set (pt_conds cs) \<Longrightarrow> is_disj n \<and> ((\<forall>c \<in> set cs. Nested c = None) \<longrightarrow> is_prim n)"
  "built_group g \<Longrightarrow> (n, op) \<in> set (pt_group g) \<Longrightarrow> is_prim n"
  "built_groups gs \<Longrightarrow> (n, op) \<in> set (pt_groups gs) \<Longrightarrow> is_prim n"
proof (induction c and cs and g and gs arbitrary: t and n op and n op and n op rule: pt_cond_pt_conds_pt_group_pt_groups.induct)
  case (1 f nested q e)
  show ?case
  proof (cases nested)
    case None
    then show ?thesis using "1.prems" by (auto intro: prim_leaf conj_prim disj_conj)
  next
    case (Some gs)
    then show ?thesis
      using "1.prems" "1.IH" [OF Some] by (auto intro: combine_disj)
  qed
next
  case (4 cs op dummy isnot)
  show ?case
  proof (cases "dummy")
    case True
    then show ?thesis using "4.prems" "4.IH" by (auto simp: Let_def split: if_splits)
  next
    case False
    then have n: "n = explicit_group isnot (the (combine (pt_conds cs)))" "pt_conds cs \<noteq> []"
      using "4.prems"(2) by (auto simp: Let_def split: if_splits)
    then obtain t where t: "combine (pt_conds cs) = Some t" by fastforce
    have "is_disj t"
    proof (cases "\<forall>c \<in> set cs. Nested c = None")
      case True
      then show ?thesis using "4.prems"(1) "4.IH" t by (auto intro: combine_disj)
    next
      case no: False
      then obtain c where cs: "cs = [c]"
        using "4.prems"(1) by (auto simp: length_Suc_conv)
      show ?thesis using "4.prems"(1) "4.IH" t n(2) by (auto simp: cs split: option.splits)
    qed
    then show ?thesis
      by (auto simp: n t explicit_group_def Let_def intro: prim_group prim_not)
  qed
qed (auto split: option.splits)


section \<open>Depth\<close>

text \<open>How many parenthesised groups enclose one another.\<close>

fun paren_depth :: "ptree \<Rightarrow> nat" where
  "paren_depth (Leaf k c) = 0"
| "paren_depth (Inner k ns) = (if k = ''group'' then 1 else 0) + foldr (\<lambda>n. max (paren_depth n)) ns 0"

lemma foldr_max_le: "foldr (\<lambda>n. max (f n)) ns 0 \<le> (k :: nat) \<longleftrightarrow> (\<forall>n \<in> set ns. f n \<le> k)"
  by (induction ns) auto

lemma paren_depth_and_node:
  "run \<noteq> [] \<Longrightarrow> paren_depth (and_node run) \<le> k \<longleftrightarrow> (\<forall>n \<in> set run. paren_depth n \<le> k)"
  by (auto simp: and_node_def foldr_max_le split: list.splits)

lemma paren_depth_combine:
  assumes "combine nodes = Some t" "\<And>n op. (n, op) \<in> set nodes \<Longrightarrow> paren_depth n \<le> k"
  shows "paren_depth t \<le> k"
  using assms(1)
proof (rule combine_cases)
  fix n op ns
  assume nodes: "nodes = (n, op) # ns"
    and t: "t = (case map and_node (or_runs [n] ns) of [d] \<Rightarrow> d | ds \<Rightarrow> Inner ''or'' ds)"
  have "paren_depth d \<le> k" if "d \<in> set (map and_node (or_runs [n] ns))" for d
    using that assms(2) nodes or_runs_elems [of _ "[n]" ns] or_runs_nonempty [of "[n]" _ ns]
    by (fastforce simp: paren_depth_and_node)
  then show ?thesis
    by (auto simp: t foldr_max_le split: list.splits)
qed

lemma validated_depth:
  "validateCond c dummy d = None \<Longrightarrow> pt_cond c = Some t \<Longrightarrow> d \<le> MaxDepth \<Longrightarrow> d + paren_depth t \<le> MaxDepth"
  "\<forall>c \<in> set cs. validateCond c dummy d = None \<Longrightarrow> (n, op) \<in> set (pt_conds cs) \<Longrightarrow> d \<le> MaxDepth \<Longrightarrow>
     d + paren_depth n \<le> MaxDepth"
  "validateGroup g d = None \<Longrightarrow> (n, op) \<in> set (pt_group g) \<Longrightarrow> d + paren_depth n \<le> MaxDepth"
  "\<forall>g \<in> set gs. validateGroup g d = None \<Longrightarrow> (n, op) \<in> set (pt_groups gs) \<Longrightarrow> d + paren_depth n \<le> MaxDepth"
proof (induction c and cs and g and gs arbitrary: dummy d t and dummy d n op and d n op and d n op
    rule: pt_cond_pt_conds_pt_group_pt_groups.induct)
  case (1 f nested q e)
  show ?case
  proof (cases nested)
    case None
    then show ?thesis using "1.prems" by auto
  next
    case (Some gs)
    define d' where "d' = (if dummy then d + 1 else d)"
    have ok: "\<forall>g \<in> set gs. validateGroup g d' = None"
      using "1.prems"(1) by (simp add: Some check_all_None check_some_def check_list_def d'_def split: if_splits)
    have "\<And>n op. (n, op) \<in> set (pt_groups gs) \<Longrightarrow> paren_depth n \<le> MaxDepth - d'"
      using "1.IH" [OF Some ok] by fastforce
    then have "paren_depth t \<le> MaxDepth - d'"
      using "1.prems"(2) by (auto simp: Some intro: paren_depth_combine)
    then show ?thesis using "1.prems"(3) by (auto simp: d'_def split: if_splits)
  qed
next
  case (4 cs op' dummy isnot)
  define d' where "d' = (if dummy then d else d + 1)"
  have d': "d' \<le> MaxDepth" and ok: "\<forall>c \<in> set cs. validateCond c dummy d' = None"
    using "4.prems"(1) by (auto simp: d'_def Let_def check_all_None check_list_def split: if_splits)
  have kids: "\<And>m op. (m, op) \<in> set (pt_conds cs) \<Longrightarrow> paren_depth m \<le> MaxDepth - d'"
    using "4.IH" [OF ok _ d'] by fastforce
  show ?case
  proof (cases dummy)
    case True
    then show ?thesis using "4.prems"(2) kids d' by (fastforce simp: Let_def d'_def split: if_splits)
  next
    case False
    then have n: "n = explicit_group isnot (the (combine (pt_conds cs)))" "pt_conds cs \<noteq> []"
      using "4.prems"(2) by (auto simp: Let_def split: if_splits)
    then obtain t where t: "combine (pt_conds cs) = Some t" by fastforce
    have "paren_depth t \<le> MaxDepth - d'"
      using t kids by (rule paren_depth_combine)
    then show ?thesis
      using d' False by (auto simp: n(1) t explicit_group_def Let_def d'_def)
  qed
qed (auto split: option.splits)

lemma condition_sql_means_tree:
  assumes "built_groups gs" "predicateTree gs = Some t"
  shows "tree_tokens t = written (written_groups gs) \<and>
         sql_reading L (written (written_groups gs)) = Some (ev L t)"
proof -
  have same: "tree_tokens t = written (written_groups gs)"
    using assms(2) tree_tokens_written(4) [of gs] by (auto simp: predicateTree_def dest: combine_text)
  have "is_disj t"
    using assms by (auto simp: predicateTree_def intro: combine_disj dest: built_shape(4))
  from sql_reading_tree [OF this, of L] show ?thesis by (simp add: same)
qed

section \<open>Properties\<close>

text \<open>
  A condition tree that validation lets through has at most 64 groups nested in one another.
\<close>

theorem validated_tree_depth:
  assumes "PredicateTree gs = Inr (Some t)"
  shows "paren_depth t \<le> 64"
proof -
  have "\<forall>g \<in> set gs. validateGroup g 0 = None" and t: "combine (pt_groups gs) = Some t"
    using assms by (auto simp: PredicateTree_def predicateTree_def check_list_def check_all_None split: option.splits)
  then have "\<And>n op. (n, op) \<in> set (pt_groups gs) \<Longrightarrow> paren_depth n \<le> 64"
    using validated_depth(4) [of gs 0] by (fastforce simp: MaxDepth_def)
  with t show ?thesis by (rule paren_depth_combine)
qed

definition sample_flat :: where_flat where
  "sample_flat = \<lparr>w_LiteralColumn = False, w_Column = ''id'', w_Condition = ''='', w_Value = Some [VInt 1],
     w_ValueColumn = [], w_ValueMap = None, w_Operator = 0, w_Between = None, w_FullText = None,
     w_JsonContains = None, w_JsonLength = None, w_Raw = [], w_Function = []\<rparr>"

definition sample_cond :: "int \<Rightarrow> where_cond" where
  "sample_cond op = Where (sample_flat\<lparr>w_Operator := op\<rparr>) None None None"

text \<open>\<^verbatim>\<open>id=1 OR id=1 AND NOT (id=1 OR id=1)\<close>\<close>

definition sample_groups :: "where_group list" where
  "sample_groups =
     [WhereGroup [sample_cond 0, sample_cond 1] 0 True False,
      WhereGroup [sample_cond 0, sample_cond 1] 0 False True]"

theorem validated_tree_depth_witness:
  "\<exists>t. PredicateTree sample_groups = Inr (Some t) \<and> paren_depth t \<le> 64"
proof -
  have valid: "check_list (map validateGroup sample_groups) 0 = None"
    by (simp add: sample_groups_def sample_cond_def check_list_def check_some_def MaxDepth_def)
  obtain t where t: "PredicateTree sample_groups = Inr (Some t)"
    using valid by (simp add: PredicateTree_def predicateTree_def sample_groups_def sample_cond_def
        combine_def and_node_def explicit_group_def)
  from validated_tree_depth [OF t] t show ?thesis by blast
qed

end
