(* ===== verification/WhereBuilder.thy ===== *)
theory WhereBuilder
  imports PredicateTree
begin

text \<open>
  The fluent condition builder (\<^verbatim>\<open>internal/query/wherebuilder.go\<close>).  The builder's state is a
  record, every method a function on it; the value the Go method returns, the parent for
  chaining, carries no state of its own.  A callback that receives the builder is a function on its state, and
  one that receives a fresh select builder a function on that builder's state.
\<close>

section \<open>State\<close>

record where_builder =
  b_depth :: nat
  b_Conditions :: "where_cond list"
  b_ConditionGroups :: "where_group list"
  b_PredicateError :: "gostring option"

text \<open>The state of a select builder, which a subquery argument carries.\<close>

record select_builder =
  sb_where :: where_builder
  sb_Table :: gostring
  sb_Columns :: "select_column list"
  sb_Limit :: "bool \<times> int"
  sb_Offset :: int
  sb_Group :: "gostring list \<times> having list option"
  sb_Lock :: gostring
  sb_Union :: "(query \<times> bool) list"
  sb_PlainJoins :: "join list"
  sb_LateralJoins :: "join list"
  sb_JoinClauses :: "join_clause list"
  sb_JoinTable :: gostring
  sb_Order :: "order_by list"

definition NewWhereBuilder :: where_builder where
  [go_eval]: "NewWhereBuilder =
     \<lparr>b_depth = 0, b_Conditions = [], b_ConditionGroups = [], b_PredicateError = None\<rparr>"

definition NewSelectBuilder :: select_builder where
  [go_eval]: "NewSelectBuilder =
     \<lparr>sb_where = NewWhereBuilder, sb_Table = [], sb_Columns = [], sb_Limit = (False, 0), sb_Offset = 0,
      sb_Group = ([], None), sb_Lock = [], sb_Union = [], sb_PlainJoins = [], sb_LateralJoins = [],
      sb_JoinClauses = [], sb_JoinTable = [], sb_Order = []\<rparr>"

abbreviation op_AND :: int where "op_AND \<equiv> 0"
abbreviation op_OR :: int where "op_OR \<equiv> 1"

text \<open>The zero value of the condition struct.\<close>

definition zero_where :: where_flat where
  [go_eval]: "zero_where = \<lparr>w_LiteralColumn = False, w_Column = [], w_Condition = [], w_Value = None,
     w_ValueColumn = [], w_ValueMap = None, w_Operator = 0, w_Between = None, w_FullText = None,
     w_JsonContains = None, w_JsonLength = None, w_Raw = [], w_Function = []\<rparr>"

definition append_cond :: "where_cond \<Rightarrow> where_builder \<Rightarrow> where_builder" where
  [go_eval]: "append_cond c b = b\<lparr>b_Conditions := b_Conditions b @ [c]\<rparr>"

definition append_flat :: "where_flat \<Rightarrow> where_builder \<Rightarrow> where_builder" where
  [go_eval]: "append_flat f b = append_cond (Where f None None None) b"

definition append_group :: "where_group \<Rightarrow> where_builder \<Rightarrow> where_builder" where
  [go_eval]: "append_group g b = b\<lparr>b_ConditionGroups := b_ConditionGroups b @ [g]\<rparr>"

section \<open>Plain conditions\<close>

definition addWhere :: "gostring \<Rightarrow> gostring \<Rightarrow> goval list option \<Rightarrow> int \<Rightarrow> where_builder \<Rightarrow> where_builder" where
  [go_eval]: "addWhere col cond vals op =
     append_flat (zero_where\<lparr>w_Column := col, w_Condition := cond, w_Value := vals, w_Operator := op\<rparr>)"

definition BWhere :: "gostring \<Rightarrow> gostring \<Rightarrow> goval list option \<Rightarrow> where_builder \<Rightarrow> where_builder" where
  [go_eval]: "BWhere col cond vals = addWhere col cond vals op_AND"

definition OrWhere :: "gostring \<Rightarrow> gostring \<Rightarrow> goval list option \<Rightarrow> where_builder \<Rightarrow> where_builder" where
  [go_eval]: "OrWhere col cond vals = addWhere col cond vals op_OR"

definition addRaw :: "gostring \<Rightarrow> (gostring \<times> goval) list option \<Rightarrow> int \<Rightarrow> where_builder \<Rightarrow> where_builder" where
  [go_eval]: "addRaw raw vals op =
     append_flat (zero_where\<lparr>w_ValueMap := (case vals of None \<Rightarrow> Some [] | Some m \<Rightarrow> Some m), w_Raw := raw,
       w_Operator := op\<rparr>)"

definition SafeWhereRaw :: "gostring \<Rightarrow> (gostring \<times> goval) list option \<Rightarrow> where_builder \<Rightarrow> where_builder" where
  [go_eval]: "SafeWhereRaw raw vals = addRaw raw vals op_AND"

definition SafeOrWhereRaw :: "gostring \<Rightarrow> (gostring \<times> goval) list option \<Rightarrow> where_builder \<Rightarrow> where_builder" where
  [go_eval]: "SafeOrWhereRaw raw vals = addRaw raw vals op_OR"

definition WhereRaw :: "gostring \<Rightarrow> (gostring \<times> goval) list option \<Rightarrow> where_builder \<Rightarrow> where_builder" where
  [go_eval]: "WhereRaw raw vals = SafeWhereRaw raw vals"

definition OrWhereRaw :: "gostring \<Rightarrow> (gostring \<times> goval) list option \<Rightarrow> where_builder \<Rightarrow> where_builder" where
  [go_eval]: "OrWhereRaw raw vals = SafeOrWhereRaw raw vals"

definition addWhereNull :: "gostring \<Rightarrow> int \<Rightarrow> gostring \<Rightarrow> where_builder \<Rightarrow> where_builder" where
  [go_eval]: "addWhereNull col op cond = append_flat (zero_where\<lparr>w_Column := col, w_Condition := cond, w_Operator := op\<rparr>)"

definition WhereNull :: "gostring \<Rightarrow> where_builder \<Rightarrow> where_builder" where
  [go_eval]: "WhereNull col = addWhereNull col op_AND ''IS NULL''"

definition WhereNotNull :: "gostring \<Rightarrow> where_builder \<Rightarrow> where_builder" where
  [go_eval]: "WhereNotNull col = addWhereNull col op_AND ''IS NOT NULL''"

definition OrWhereNull :: "gostring \<Rightarrow> where_builder \<Rightarrow> where_builder" where
  [go_eval]: "OrWhereNull col = addWhereNull col op_OR ''IS NULL''"

definition OrWhereNotNull :: "gostring \<Rightarrow> where_builder \<Rightarrow> where_builder" where
  [go_eval]: "OrWhereNotNull col = addWhereNull col op_OR ''IS NOT NULL''"

definition addWhereCondition :: "gostring list \<Rightarrow> gostring \<Rightarrow> gostring \<Rightarrow> gostring \<Rightarrow> int \<Rightarrow> where_builder \<Rightarrow> where_builder" where
  [go_eval]: "addWhereCondition allcols col cond vcol op = 
     (if col \<notin> set allcols then id
      else append_flat (zero_where\<lparr>w_Column := col, w_Condition := cond, w_ValueColumn := vcol, w_Operator := op\<rparr>))"

definition WhereColumn :: "gostring list \<Rightarrow> gostring \<Rightarrow> gostring \<Rightarrow> gostring \<Rightarrow> where_builder \<Rightarrow> where_builder" where
  [go_eval]: "WhereColumn allcols col cond vcol = addWhereCondition allcols col cond vcol op_AND"

definition OrWhereColumn :: "gostring list \<Rightarrow> gostring \<Rightarrow> gostring \<Rightarrow> gostring \<Rightarrow> where_builder \<Rightarrow> where_builder" where
  [go_eval]: "OrWhereColumn allcols col cond vcol = addWhereCondition allcols col cond vcol op_OR"

fun addWhereColumns :: "gostring list \<Rightarrow> gostring list list \<Rightarrow> int \<Rightarrow> where_builder \<Rightarrow> where_builder" where
  "addWhereColumns allcols [] op b = b"
| "addWhereColumns allcols (c # cs) op b =
     addWhereColumns allcols cs op
       (if length c = 2 then addWhereCondition allcols (c ! 0) ''='' (c ! 1) op b
        else if length c = 3 then addWhereCondition allcols (c ! 0) (c ! 1) (c ! 2) op b
        else b)"

definition WhereColumns :: "gostring list \<Rightarrow> gostring list list \<Rightarrow> where_builder \<Rightarrow> where_builder" where
  [go_eval]: "WhereColumns allcols cols = addWhereColumns allcols cols op_AND"

definition OrWhereColumns :: "gostring list \<Rightarrow> gostring list list \<Rightarrow> where_builder \<Rightarrow> where_builder" where
  [go_eval]: "OrWhereColumns allcols cols = addWhereColumns allcols cols op_OR"

definition addWhereBetween :: "gostring \<Rightarrow> goval \<Rightarrow> goval \<Rightarrow> gostring \<Rightarrow> int \<Rightarrow> bool \<Rightarrow> where_builder \<Rightarrow> where_builder" where
  [go_eval]: "addWhereBetween col lo hi cond op isnot = 
     append_flat (zero_where\<lparr>w_Column := col, w_Operator := op, w_Condition := cond,
       w_Between := Some \<lparr>bt_IsColumn = False, bt_IsNot = isnot, bt_From = lo, bt_To = hi\<rparr>\<rparr>)"

definition WhereBetween :: "gostring \<Rightarrow> goval \<Rightarrow> goval \<Rightarrow> where_builder \<Rightarrow> where_builder" where
  [go_eval]: "WhereBetween col lo hi = addWhereBetween col lo hi ''BETWEEN'' op_AND False"

definition WhereNotBetween :: "gostring \<Rightarrow> goval \<Rightarrow> goval \<Rightarrow> where_builder \<Rightarrow> where_builder" where
  [go_eval]: "WhereNotBetween col lo hi = addWhereBetween col lo hi ''NOT BETWEEN'' op_AND True"

definition OrWhereBetween :: "gostring \<Rightarrow> goval \<Rightarrow> goval \<Rightarrow> where_builder \<Rightarrow> where_builder" where
  [go_eval]: "OrWhereBetween col lo hi = addWhereBetween col lo hi ''BETWEEN'' op_OR False"

definition OrWhereNotBetween :: "gostring \<Rightarrow> goval \<Rightarrow> goval \<Rightarrow> where_builder \<Rightarrow> where_builder" where
  [go_eval]: "OrWhereNotBetween col lo hi = addWhereBetween col lo hi ''NOT BETWEEN'' op_OR True"

definition addWhereBetweenColumns :: "gostring list \<Rightarrow> gostring \<Rightarrow> gostring \<Rightarrow> gostring \<Rightarrow> gostring \<Rightarrow> int \<Rightarrow> bool \<Rightarrow> where_builder \<Rightarrow> where_builder" where
  [go_eval]: "addWhereBetweenColumns allcols col lo hi cond op isnot = 
     (if col \<notin> set allcols then id
      else append_flat (zero_where\<lparr>w_Column := col, w_Operator := op, w_Condition := cond,
        w_Between := Some \<lparr>bt_IsColumn = True, bt_IsNot = isnot, bt_From = VString lo, bt_To = VString hi\<rparr>\<rparr>))"

definition WhereBetweenColumns :: "gostring list \<Rightarrow> gostring \<Rightarrow> gostring \<Rightarrow> gostring \<Rightarrow> where_builder \<Rightarrow> where_builder" where
  [go_eval]: "WhereBetweenColumns allcols col lo hi = addWhereBetweenColumns allcols col lo hi ''BETWEEN'' op_AND False"

definition WhereNotBetweenColumns :: "gostring list \<Rightarrow> gostring \<Rightarrow> gostring \<Rightarrow> gostring \<Rightarrow> where_builder \<Rightarrow> where_builder" where
  [go_eval]: "WhereNotBetweenColumns allcols col lo hi = addWhereBetweenColumns allcols col lo hi ''NOT BETWEEN'' op_AND True"

definition OrWhereBetweenColumns :: "gostring list \<Rightarrow> gostring \<Rightarrow> gostring \<Rightarrow> gostring \<Rightarrow> where_builder \<Rightarrow> where_builder" where
  [go_eval]: "OrWhereBetweenColumns allcols col lo hi = addWhereBetweenColumns allcols col lo hi ''BETWEEN'' op_OR False"

definition OrWhereNotBetweenColumns :: "gostring list \<Rightarrow> gostring \<Rightarrow> gostring \<Rightarrow> gostring \<Rightarrow> where_builder \<Rightarrow> where_builder" where
  [go_eval]: "OrWhereNotBetweenColumns allcols col lo hi = addWhereBetweenColumns allcols col lo hi ''NOT BETWEEN'' op_OR True"

section \<open>Functions, full text and JSON\<close>

definition addWhereDate :: "gostring \<Rightarrow> gostring \<Rightarrow> gostring \<Rightarrow> int \<Rightarrow> where_builder \<Rightarrow> where_builder" where
  [go_eval]: "addWhereDate col cond v op = 
     append_flat (zero_where\<lparr>w_Column := col, w_Function := ''DATE'', w_Condition := cond,
       w_Value := Some [VString v], w_Operator := op\<rparr>)"

definition WhereDate :: "gostring \<Rightarrow> gostring \<Rightarrow> gostring \<Rightarrow> where_builder \<Rightarrow> where_builder" where
  [go_eval]: "WhereDate col cond v = addWhereDate col cond v op_AND"

definition OrWhereDate :: "gostring \<Rightarrow> gostring \<Rightarrow> gostring \<Rightarrow> where_builder \<Rightarrow> where_builder" where
  [go_eval]: "OrWhereDate col cond v = addWhereDate col cond v op_OR"

definition addWhereMonth :: "gostring \<Rightarrow> gostring \<Rightarrow> gostring \<Rightarrow> int \<Rightarrow> where_builder \<Rightarrow> where_builder" where
  [go_eval]: "addWhereMonth col cond v op = 
     append_flat (zero_where\<lparr>w_Column := col, w_Function := ''MONTH'', w_Condition := cond,
       w_Value := Some [VString v], w_Operator := op\<rparr>)"

definition WhereMonth :: "gostring \<Rightarrow> gostring \<Rightarrow> gostring \<Rightarrow> where_builder \<Rightarrow> where_builder" where
  [go_eval]: "WhereMonth col cond v = addWhereMonth col cond v op_AND"

definition OrWhereMonth :: "gostring \<Rightarrow> gostring \<Rightarrow> gostring \<Rightarrow> where_builder \<Rightarrow> where_builder" where
  [go_eval]: "OrWhereMonth col cond v = addWhereMonth col cond v op_OR"

definition addWhereDay :: "gostring \<Rightarrow> gostring \<Rightarrow> gostring \<Rightarrow> int \<Rightarrow> where_builder \<Rightarrow> where_builder" where
  [go_eval]: "addWhereDay col cond v op = 
     append_flat (zero_where\<lparr>w_Column := col, w_Function := ''DAY'', w_Condition := cond,
       w_Value := Some [VString v], w_Operator := op\<rparr>)"

definition WhereDay :: "gostring \<Rightarrow> gostring \<Rightarrow> gostring \<Rightarrow> where_builder \<Rightarrow> where_builder" where
  [go_eval]: "WhereDay col cond v = addWhereDay col cond v op_AND"

definition OrWhereDay :: "gostring \<Rightarrow> gostring \<Rightarrow> gostring \<Rightarrow> where_builder \<Rightarrow> where_builder" where
  [go_eval]: "OrWhereDay col cond v = addWhereDay col cond v op_OR"

definition addWhereYear :: "gostring \<Rightarrow> gostring \<Rightarrow> gostring \<Rightarrow> int \<Rightarrow> where_builder \<Rightarrow> where_builder" where
  [go_eval]: "addWhereYear col cond v op = 
     append_flat (zero_where\<lparr>w_Column := col, w_Function := ''YEAR'', w_Condition := cond,
       w_Value := Some [VString v], w_Operator := op\<rparr>)"

definition WhereYear :: "gostring \<Rightarrow> gostring \<Rightarrow> gostring \<Rightarrow> where_builder \<Rightarrow> where_builder" where
  [go_eval]: "WhereYear col cond v = addWhereYear col cond v op_AND"

definition OrWhereYear :: "gostring \<Rightarrow> gostring \<Rightarrow> gostring \<Rightarrow> where_builder \<Rightarrow> where_builder" where
  [go_eval]: "OrWhereYear col cond v = addWhereYear col cond v op_OR"

definition addWhereTime :: "gostring \<Rightarrow> gostring \<Rightarrow> gostring \<Rightarrow> int \<Rightarrow> where_builder \<Rightarrow> where_builder" where
  [go_eval]: "addWhereTime col cond v op = 
     append_flat (zero_where\<lparr>w_Column := col, w_Function := ''TIME'', w_Condition := cond,
       w_Value := Some [VString v], w_Operator := op\<rparr>)"

definition WhereTime :: "gostring \<Rightarrow> gostring \<Rightarrow> gostring \<Rightarrow> where_builder \<Rightarrow> where_builder" where
  [go_eval]: "WhereTime col cond v = addWhereTime col cond v op_AND"

definition OrWhereTime :: "gostring \<Rightarrow> gostring \<Rightarrow> gostring \<Rightarrow> where_builder \<Rightarrow> where_builder" where
  [go_eval]: "OrWhereTime col cond v = addWhereTime col cond v op_OR"

definition addWhereFullText :: "gostring list \<Rightarrow> gostring \<Rightarrow> (gostring \<times> goval) list option \<Rightarrow> int \<Rightarrow> bool \<Rightarrow> where_builder \<Rightarrow> where_builder" where
  [go_eval]: "addWhereFullText cols search opts op isnot = 
     append_flat (zero_where\<lparr>w_Operator := op,
       w_FullText := Some \<lparr>ft_IsNot = isnot, ft_Columns = cols, ft_Search = search, ft_Options = opts\<rparr>\<rparr>)"

definition WhereFullText :: "gostring list \<Rightarrow> gostring \<Rightarrow> (gostring \<times> goval) list option \<Rightarrow> where_builder \<Rightarrow> where_builder" where
  [go_eval]: "WhereFullText cols search opts = addWhereFullText cols search opts op_AND False"

definition OrWhereFullText :: "gostring list \<Rightarrow> gostring \<Rightarrow> (gostring \<times> goval) list option \<Rightarrow> where_builder \<Rightarrow> where_builder" where
  [go_eval]: "OrWhereFullText cols search opts = addWhereFullText cols search opts op_OR False"

text \<open>
  \<^verbatim>\<open>sliceutils.ToInterfaceSlice\<close>: the elements of a typed slice of one of eleven element
  types.  A nil slice of these types becomes an empty list; every other type is refused.
\<close>

definition interface_types :: "scalar_type list" where
  [go_eval]: "interface_types =
     [SInt64, SString, SFloat64, SBool, SInt, SInt32, SUint, SUint32, SUint64, SFloat32, STime]"

definition ToInterfaceSlice :: "goval \<Rightarrow> goval list option" where
  [go_eval]: "ToInterfaceSlice v =
     (case v of
        VScalars t xs \<Rightarrow>
          if t \<in> set interface_types then Some (case xs of None \<Rightarrow> [] | Some ys \<Rightarrow> ys) else None
      | _ \<Rightarrow> None)"

definition addWhereJsonContains :: "gostring \<Rightarrow> goval \<Rightarrow> int \<Rightarrow> where_builder \<Rightarrow> where_builder" where
  [go_eval]: "addWhereJsonContains col v op = 
     append_flat (zero_where\<lparr>w_Column := col, w_Operator := op,
       w_JsonContains := Some
         (case v of
            VList xs \<Rightarrow> xs
          | VScalars t xs \<Rightarrow>
              if t \<in> {SString, SInt, SInt32, SInt64, SUint, SUint32, SUint64, SFloat32, SFloat64, SBool}
              then ToInterfaceSlice v else Some [v]
          | _ \<Rightarrow> Some [v])\<rparr>)"

definition WhereJsonContains :: "gostring \<Rightarrow> goval \<Rightarrow> where_builder \<Rightarrow> where_builder" where
  [go_eval]: "WhereJsonContains col v = addWhereJsonContains col v op_AND"

definition OrWhereJsonContains :: "gostring \<Rightarrow> goval \<Rightarrow> where_builder \<Rightarrow> where_builder" where
  [go_eval]: "OrWhereJsonContains col v = addWhereJsonContains col v op_OR"

definition addWhereJsonLength :: "gostring \<Rightarrow> goval list \<Rightarrow> int \<Rightarrow> where_builder \<Rightarrow> where_builder" where
  [go_eval]: "addWhereJsonLength col args op = 
     (case args of
        [] \<Rightarrow> id
      | a # rest \<Rightarrow>
          append_flat (zero_where\<lparr>w_Column := col, w_Operator := op,
            w_JsonLength := Some
              (case (a, rest) of (VString s, [v]) \<Rightarrow> (s, v) | _ \<Rightarrow> (''='', a))\<rparr>))"

definition WhereJsonLength :: "gostring \<Rightarrow> goval list \<Rightarrow> where_builder \<Rightarrow> where_builder" where
  [go_eval]: "WhereJsonLength col args = addWhereJsonLength col args op_AND"

definition OrWhereJsonLength :: "gostring \<Rightarrow> goval list \<Rightarrow> where_builder \<Rightarrow> where_builder" where
  [go_eval]: "OrWhereJsonLength col args = addWhereJsonLength col args op_OR"

definition WhereLiteral :: "gostring \<Rightarrow> goval \<Rightarrow> where_builder \<Rightarrow> where_builder" where
  [go_eval]: "WhereLiteral col v = 
     append_flat (zero_where\<lparr>w_Column := col, w_Condition := ''='', w_Value := Some [v], w_Operator := op_AND,
       w_LiteralColumn := True\<rparr>)"

section \<open>Subqueries\<close>

text \<open>
  The select builder given as a subquery has its pending conditions moved to a group, and the
  query that is embedded takes its groups, table, columns, joins and order.
\<close>

definition seal_conditions :: "select_builder \<Rightarrow> select_builder" where
  [go_eval]: "seal_conditions q =
     q\<lparr>sb_where := append_group (WhereGroup (b_Conditions (sb_where q)) 0 True False)
         (sb_where q)\<lparr>b_Conditions := []\<rparr>\<rparr>"

definition builder_joins :: "select_builder \<Rightarrow> joins" where
  [go_eval]: "builder_joins q =
     JoinSet (Some (sb_PlainJoins q)) (Some (sb_JoinClauses q)) (Some (sb_LateralJoins q))"

definition subquery_flat :: "select_builder \<Rightarrow> gostring option \<Rightarrow> query_flat" where
  [go_eval]: "subquery_flat q e =
     \<lparr>q_PredicateError = e, q_Columns = Some (sb_Columns q), q_Table = sb_Table q, q_Limit = (False, 0),
      q_Offset = 0, q_Order = Some (sb_Order q), q_Group = None, q_Lock = None\<rparr>"

definition embedded_query :: "select_builder \<Rightarrow> query" where
  [go_eval]: "embedded_query q =
     (let q' = seal_conditions q in
      Query (subquery_flat q' (b_PredicateError (sb_where q'))) [] (Some (builder_joins q'))
        (b_ConditionGroups (sb_where q')) None)"

text \<open>The methods return the argument's new state beside the builder's.\<close>

definition whereOrOrWhereQuery ::
  "gostring \<Rightarrow> gostring \<Rightarrow> select_builder \<Rightarrow> int \<Rightarrow> where_builder \<Rightarrow> where_builder \<times> select_builder" where
  [go_eval]: "whereOrOrWhereQuery col cond q op b =
     (append_cond (Where (zero_where\<lparr>w_Column := col, w_Condition := cond, w_Operator := op\<rparr>) None
        (Some (embedded_query q)) None) b, seal_conditions q)"

definition WhereSubQuery :: "gostring \<Rightarrow> gostring \<Rightarrow> select_builder \<Rightarrow> where_builder \<Rightarrow> where_builder \<times> select_builder" where
  [go_eval]: "WhereSubQuery col cond q = whereOrOrWhereQuery col cond q op_AND"

definition OrWhereSubQuery :: "gostring \<Rightarrow> gostring \<Rightarrow> select_builder \<Rightarrow> where_builder \<Rightarrow> where_builder \<times> select_builder" where
  [go_eval]: "OrWhereSubQuery col cond q = whereOrOrWhereQuery col cond q op_OR"

definition addWhereInSubQuery :: "gostring \<Rightarrow> int \<Rightarrow> gostring \<Rightarrow> select_builder \<Rightarrow> where_builder \<Rightarrow> where_builder \<times> select_builder" where
  [go_eval]: "addWhereInSubQuery col op cond q b = 
     (append_cond (Where (zero_where\<lparr>w_Column := col, w_Condition := cond, w_Operator := op\<rparr>) None
        (Some (embedded_query q)) None) b, seal_conditions q)"

definition WhereInSubQuery :: "gostring \<Rightarrow> select_builder \<Rightarrow> where_builder \<Rightarrow> where_builder \<times> select_builder" where
  [go_eval]: "WhereInSubQuery col q = addWhereInSubQuery col op_AND ''IN'' q"

definition WhereNotInSubQuery :: "gostring \<Rightarrow> select_builder \<Rightarrow> where_builder \<Rightarrow> where_builder \<times> select_builder" where
  [go_eval]: "WhereNotInSubQuery col q = addWhereInSubQuery col op_AND ''NOT IN'' q"

definition OrWhereInSubQuery :: "gostring \<Rightarrow> select_builder \<Rightarrow> where_builder \<Rightarrow> where_builder \<times> select_builder" where
  [go_eval]: "OrWhereInSubQuery col q = addWhereInSubQuery col op_OR ''IN'' q"

definition OrWhereNotInSubQuery :: "gostring \<Rightarrow> select_builder \<Rightarrow> where_builder \<Rightarrow> where_builder \<times> select_builder" where
  [go_eval]: "OrWhereNotInSubQuery col q = addWhereInSubQuery col op_OR ''NOT IN'' q"

text \<open>
  The argument of \<^verbatim>\<open>WhereIn\<close> is a value or a select builder.  A value of a type that is
  not listed adds nothing.
\<close>

datatype in_argument = InValue goval | InBuilder select_builder

definition addWhereIn ::
  "gostring \<Rightarrow> int \<Rightarrow> gostring \<Rightarrow> in_argument \<Rightarrow> where_builder \<Rightarrow> where_builder \<times> select_builder option" where
  [go_eval]: "addWhereIn col op cond a b =
     (case a of
        InValue v \<Rightarrow>
          (case (case v of VList xs \<Rightarrow> Some xs | _ \<Rightarrow> map_option Some (ToInterfaceSlice v)) of
             None \<Rightarrow> (b, None)
           | Some vals \<Rightarrow>
               (append_flat (zero_where\<lparr>w_Value := vals, w_Operator := op, w_Column := col, w_Condition := cond\<rparr>) b,
                None))
      | InBuilder q \<Rightarrow> map_prod id Some (addWhereInSubQuery col op cond q b))"

definition WhereIn :: "gostring \<Rightarrow> in_argument \<Rightarrow> where_builder \<Rightarrow> where_builder \<times> select_builder option" where
  [go_eval]: "WhereIn col a = addWhereIn col op_AND ''IN'' a"

definition WhereNotIn :: "gostring \<Rightarrow> in_argument \<Rightarrow> where_builder \<Rightarrow> where_builder \<times> select_builder option" where
  [go_eval]: "WhereNotIn col a = addWhereIn col op_AND ''NOT IN'' a"

definition OrWhereIn :: "gostring \<Rightarrow> in_argument \<Rightarrow> where_builder \<Rightarrow> where_builder \<times> select_builder option" where
  [go_eval]: "OrWhereIn col a = addWhereIn col op_OR ''IN'' a"

definition OrWhereNotIn :: "gostring \<Rightarrow> in_argument \<Rightarrow> where_builder \<Rightarrow> where_builder \<times> select_builder option" where
  [go_eval]: "OrWhereNotIn col a = addWhereIn col op_OR ''NOT IN'' a"

definition exists_cond :: "select_builder \<Rightarrow> gostring \<Rightarrow> int \<Rightarrow> bool \<Rightarrow> where_cond" where
  [go_eval]: "exists_cond q cond op isnot = 
     Where (zero_where\<lparr>w_Condition := cond, w_Operator := op\<rparr>) None None (Some (isnot, embedded_query q))"

definition addWhereExists :: "(select_builder \<Rightarrow> select_builder) \<Rightarrow> gostring \<Rightarrow> int \<Rightarrow> bool \<Rightarrow> where_builder \<Rightarrow> where_builder" where
  [go_eval]: "addWhereExists fn cond op isnot = append_cond (exists_cond (fn NewSelectBuilder) cond op isnot)"

definition WhereExists :: "(select_builder \<Rightarrow> select_builder) \<Rightarrow> where_builder \<Rightarrow> where_builder" where
  [go_eval]: "WhereExists fn = addWhereExists fn ''EXISTS'' op_AND False"

definition WhereNotExists :: "(select_builder \<Rightarrow> select_builder) \<Rightarrow> where_builder \<Rightarrow> where_builder" where
  [go_eval]: "WhereNotExists fn = addWhereExists fn ''NOT EXISTS'' op_AND True"

definition OrWhereExists :: "(select_builder \<Rightarrow> select_builder) \<Rightarrow> where_builder \<Rightarrow> where_builder" where
  [go_eval]: "OrWhereExists fn = addWhereExists fn ''EXISTS'' op_OR False"

definition OrWhereNotExists :: "(select_builder \<Rightarrow> select_builder) \<Rightarrow> where_builder \<Rightarrow> where_builder" where
  [go_eval]: "OrWhereNotExists fn = addWhereExists fn ''NOT EXISTS'' op_OR True"

definition addWhereExistsQuery :: "select_builder \<Rightarrow> gostring \<Rightarrow> int \<Rightarrow> bool \<Rightarrow> where_builder \<Rightarrow> where_builder \<times> select_builder" where
  [go_eval]: "addWhereExistsQuery q cond op isnot b = 
     (append_cond (exists_cond q cond op isnot) b, seal_conditions q)"

definition WhereExistsQuery :: "select_builder \<Rightarrow> where_builder \<Rightarrow> where_builder \<times> select_builder" where
  [go_eval]: "WhereExistsQuery q = addWhereExistsQuery q ''EXISTS'' op_AND False"

definition WhereNotExistsQuery :: "select_builder \<Rightarrow> where_builder \<Rightarrow> where_builder \<times> select_builder" where
  [go_eval]: "WhereNotExistsQuery q = addWhereExistsQuery q ''NOT EXISTS'' op_AND True"

definition OrWhereExistsQuery :: "select_builder \<Rightarrow> where_builder \<Rightarrow> where_builder \<times> select_builder" where
  [go_eval]: "OrWhereExistsQuery q = addWhereExistsQuery q ''EXISTS'' op_OR False"

definition OrWhereNotExistsQuery :: "select_builder \<Rightarrow> where_builder \<Rightarrow> where_builder \<times> select_builder" where
  [go_eval]: "OrWhereNotExistsQuery q = addWhereExistsQuery q ''NOT EXISTS'' op_OR True"

section \<open>Groups\<close>

definition flush_conditions :: "int \<Rightarrow> where_builder \<Rightarrow> where_builder" where
  [go_eval]: "flush_conditions op b =
     (if b_Conditions b = [] then b
      else (append_group (WhereGroup (b_Conditions b) op True False) b)\<lparr>b_Conditions := []\<rparr>)"

definition addWhereConditions ::
  "gostring list \<Rightarrow> gostring \<Rightarrow> goval \<Rightarrow> int \<Rightarrow> where_builder \<Rightarrow> where_builder" where
  [go_eval]: "addWhereConditions cols cond v op b =
     append_group (WhereGroup (map (\<lambda>c. Where (zero_where\<lparr>w_Column := c, w_Condition := cond,
         w_Value := Some [v], w_Operator := op\<rparr>) None None None) cols) op_AND False False)
       (flush_conditions op b)"

definition WhereAll :: "gostring list \<Rightarrow> gostring \<Rightarrow> goval \<Rightarrow> where_builder \<Rightarrow> where_builder" where
  [go_eval]: "WhereAll cols cond v = addWhereConditions cols cond v op_AND"

definition WhereAny :: "gostring list \<Rightarrow> gostring \<Rightarrow> goval \<Rightarrow> where_builder \<Rightarrow> where_builder" where
  [go_eval]: "WhereAny cols cond v = addWhereConditions cols cond v op_OR"

text \<open>
  A group callback runs on the builder with a query of its own, one level deeper; afterwards the
  builder's query and depth are what they were.
\<close>

definition addWhereGroup ::
  "(where_builder \<Rightarrow> where_builder) \<Rightarrow> int \<Rightarrow> bool \<Rightarrow> where_builder \<Rightarrow> where_builder" where
  [go_eval]: "addWhereGroup fn op isnot b =
     (if b_depth b \<ge> MaxDepth then b\<lparr>b_PredicateError := Some ErrDepth\<rparr>
      else
        let child = fn \<lparr>b_depth = b_depth b + 1, b_Conditions = [], b_ConditionGroups = [], b_PredicateError = None\<rparr>;
            b1 = (case b_PredicateError child of None \<Rightarrow> b | Some e \<Rightarrow> b\<lparr>b_PredicateError := Some e\<rparr>);
            groups = b_ConditionGroups (flush_conditions 0 child);
            b2 = flush_conditions 0 b1
        in if groups = [] then b2
           else append_group (WhereGroup [Where zero_where (Some groups) None None] op False isnot) b2)"

definition BWhereGroup :: "(where_builder \<Rightarrow> where_builder) \<Rightarrow> where_builder \<Rightarrow> where_builder" where
  [go_eval]: "BWhereGroup fn = addWhereGroup fn op_AND False"

definition OrWhereGroup :: "(where_builder \<Rightarrow> where_builder) \<Rightarrow> where_builder \<Rightarrow> where_builder" where
  [go_eval]: "OrWhereGroup fn = addWhereGroup fn op_OR False"

definition WhereNot :: "(where_builder \<Rightarrow> where_builder) \<Rightarrow> where_builder \<Rightarrow> where_builder" where
  [go_eval]: "WhereNot fn = addWhereGroup fn op_AND True"

definition OrWhereNot :: "(where_builder \<Rightarrow> where_builder) \<Rightarrow> where_builder \<Rightarrow> where_builder" where
  [go_eval]: "OrWhereNot fn = addWhereGroup fn op_OR True"

section \<open>What clients of the builder can do\<close>

text \<open>
  The programs that drive a builder: any sequence of its methods, with group callbacks that are
  such programs themselves.
\<close>

inductive client :: "(where_builder \<Rightarrow> where_builder) \<Rightarrow> bool" where
  client_id: "client id"
| client_seq: "client f \<Longrightarrow> client g \<Longrightarrow> client (g \<circ> f)"
| client_where: "client (addWhere col cond vals op)"
| client_raw: "client (addRaw raw params op)"
| client_null: "client (addWhereNull col op cond)"
| client_column: "client (addWhereCondition allcols col cond vcol op)"
| client_columns: "client (addWhereColumns allcols colss op)"
| client_between: "client (addWhereBetween col lo hi cond op isnot)"
| client_between_columns: "client (addWhereBetweenColumns allcols col lo' hi' cond op isnot)"
| client_date: "client (addWhereDate col cond s op)"
| client_month: "client (addWhereMonth col cond s op)"
| client_day: "client (addWhereDay col cond s op)"
| client_year: "client (addWhereYear col cond s op)"
| client_time: "client (addWhereTime col cond s op)"
| client_full_text: "client (addWhereFullText cols search opts op isnot)"
| client_json_contains: "client (addWhereJsonContains col v op)"
| client_json_length: "client (addWhereJsonLength col args op)"
| client_literal: "client (WhereLiteral col v)"
| client_subquery: "client (\<lambda>b. fst (whereOrOrWhereQuery col cond q op b))"
| client_in_subquery: "client (\<lambda>b. fst (addWhereInSubQuery col op cond q b))"
| client_in: "client (\<lambda>b. fst (addWhereIn col op cond a b))"
| client_exists: "client (addWhereExists fn cond op isnot)"
| client_exists_query: "client (\<lambda>b. fst (addWhereExistsQuery q cond op isnot b))"
| client_conditions: "client (addWhereConditions cols cond v op)"
| client_group: "client f \<Longrightarrow> client (addWhereGroup f op isnot)"

text \<open>What the builder would be rendered to, in order.\<close>

definition stream :: "where_builder \<Rightarrow> (tok list \<times> int) list" where
  "stream b = written_groups (b_ConditionGroups b) @ written_conds (b_Conditions b)"

definition builder_inv :: "where_builder \<Rightarrow> bool" where
  "builder_inv b \<longleftrightarrow>
     (\<forall>c \<in> set (b_Conditions b). Nested c = None) \<and> built_groups (b_ConditionGroups b)"

definition fresh_child :: "where_builder \<Rightarrow> where_builder" where
  "fresh_child b =
     \<lparr>b_depth = b_depth b + 1, b_Conditions = [], b_ConditionGroups = [], b_PredicateError = None\<rparr>"

text \<open>A method keeps the invariant and the depth, appends, and keeps an error once there is one.\<close>

definition well_behaved :: "(where_builder \<Rightarrow> where_builder) \<Rightarrow> bool" where
  "well_behaved f \<longleftrightarrow> (\<forall>b. builder_inv b \<longrightarrow>
     builder_inv (f b) \<and> b_depth (f b) = b_depth b \<and> (\<exists>more. stream (f b) = stream b @ more) \<and>
     (b_PredicateError b \<noteq> None \<longrightarrow> b_PredicateError (f b) \<noteq> None))"

lemma written_groups_append [simp]: "written_groups (gs @ hs) = written_groups gs @ written_groups hs"
  by (induction gs) auto

lemma written_conds_append [simp]: "written_conds (cs @ ds) = written_conds cs @ written_conds ds"
  by (induction cs) auto

lemma built_groups_append [simp]: "built_groups (gs @ hs) \<longleftrightarrow> built_groups gs \<and> built_groups hs"
  by (induction gs) auto

lemma built_conds_plain: "\<forall>c \<in> set cs. Nested c = None \<Longrightarrow> built_conds cs"
proof (induction cs)
  case (Cons c cs)
  then show ?case by (cases c) auto
qed simp

lemma well_behavedI:
  assumes "\<And>b. builder_inv b \<Longrightarrow> builder_inv (f b)"
    and "\<And>b. builder_inv b \<Longrightarrow> b_depth (f b) = b_depth b"
    and "\<And>b. builder_inv b \<Longrightarrow> \<exists>more. stream (f b) = stream b @ more"
    and "\<And>b. b_PredicateError b \<noteq> None \<Longrightarrow> b_PredicateError (f b) \<noteq> None"
  shows "well_behaved f"
  using assms by (simp add: well_behaved_def)

lemma well_behavedD:
  assumes "well_behaved f" "builder_inv b"
  shows "builder_inv (f b)" "b_depth (f b) = b_depth b" "\<exists>more. stream (f b) = stream b @ more"
    "b_PredicateError b \<noteq> None \<Longrightarrow> b_PredicateError (f b) \<noteq> None"
  using assms by (simp_all add: well_behaved_def)

lemma well_behaved_id: "well_behaved id"
  by (simp add: well_behaved_def)

lemma well_behaved_same: "well_behaved (\<lambda>b. b)"
  by (simp add: well_behaved_def)

lemma well_behaved_comp:
  assumes f: "well_behaved f" and g: "well_behaved g"
  shows "well_behaved (g \<circ> f)"
  unfolding well_behaved_def
proof (intro allI impI)
  fix b
  assume b: "builder_inv b"
  note F = well_behavedD [OF f b]
  note G = well_behavedD [OF g F(1)]
  obtain m where m: "stream (f b) = stream b @ m" using F(3) by blast
  obtain n where n: "stream (g (f b)) = stream (f b) @ n" using G(3) by blast
  have "stream ((g \<circ> f) b) = stream b @ (m @ n)" by (simp add: m n)
  with F G show "builder_inv ((g \<circ> f) b) \<and> b_depth ((g \<circ> f) b) = b_depth b \<and>
      (\<exists>more. stream ((g \<circ> f) b) = stream b @ more) \<and>
      (b_PredicateError b \<noteq> None \<longrightarrow> b_PredicateError ((g \<circ> f) b) \<noteq> None)"
    by auto
qed

lemma well_behaved_append_cond: "Nested c = None \<Longrightarrow> well_behaved (append_cond c)"
  by (simp add: well_behaved_def append_cond_def builder_inv_def stream_def)

lemma well_behaved_append_flat: "well_behaved (append_flat f)"
proof -
  have "append_flat f = append_cond (Where f None None None)"
    by (simp add: append_flat_def fun_eq_iff)
  then show ?thesis by (simp add: well_behaved_append_cond)
qed

lemma stream_flush [simp]: "stream (flush_conditions op b) = stream b"
  by (simp add: flush_conditions_def stream_def append_group_def Let_def)

lemma builder_inv_flush: "builder_inv b \<Longrightarrow> builder_inv (flush_conditions op b)"
  by (simp add: flush_conditions_def builder_inv_def append_group_def built_conds_plain)

lemma flush_simps [simp]:
  "b_depth (flush_conditions op b) = b_depth b"
  "b_PredicateError (flush_conditions op b) = b_PredicateError b"
  "b_Conditions (flush_conditions op b) = []"
  by (simp_all add: flush_conditions_def append_group_def)

lemma append_group_simps [simp]:
  "b_depth (append_group g b) = b_depth b"
  "b_PredicateError (append_group g b) = b_PredicateError b"
  "b_Conditions (append_group g b) = b_Conditions b"
  "b_ConditionGroups (append_group g b) = b_ConditionGroups b @ [g]"
  by (simp_all add: append_group_def)

lemma stream_append_group:
  "b_Conditions b = [] \<Longrightarrow> stream (append_group g b) = stream b @ written_group g"
  by (simp add: stream_def)

lemma builder_inv_append_group:
  "builder_inv b \<Longrightarrow> built_group g \<Longrightarrow> builder_inv (append_group g b)"
  by (simp add: builder_inv_def)

lemma well_behaved_conditions: "well_behaved (addWhereConditions cols cond v op)"
proof (rule well_behavedI)
  fix b assume "builder_inv b"
  then show "builder_inv (addWhereConditions cols cond v op b)"
    by (auto simp: addWhereConditions_def built_conds_plain intro!: builder_inv_append_group builder_inv_flush)
  show "\<exists>more. stream (addWhereConditions cols cond v op b) = stream b @ more"
    by (auto simp: addWhereConditions_def stream_append_group)
qed (simp_all add: addWhereConditions_def)

text \<open>What a group callback adds: its own stream in parentheses.\<close>

definition inherit_error :: "gostring option \<Rightarrow> where_builder \<Rightarrow> where_builder" where
  "inherit_error e b = (case e of None \<Rightarrow> b | Some e \<Rightarrow> b\<lparr>b_PredicateError := Some e\<rparr>)"

lemma inherit_error_simps [simp]:
  "b_depth (inherit_error e b) = b_depth b" "stream (inherit_error e b) = stream b"
  "builder_inv (inherit_error e b) = builder_inv b"
  "b_Conditions (inherit_error e b) = b_Conditions b"
  "b_PredicateError b \<noteq> None \<Longrightarrow> b_PredicateError (inherit_error e b) \<noteq> None"
  by (simp_all add: inherit_error_def stream_def builder_inv_def split: option.splits)

lemma addWhereGroup_deep:
  "b_depth b \<ge> MaxDepth \<Longrightarrow> addWhereGroup fn op isnot b = b\<lparr>b_PredicateError := Some ErrDepth\<rparr>"
  by (simp add: addWhereGroup_def)

lemma addWhereGroup_shallow:
  assumes "b_depth b < MaxDepth"
  shows "addWhereGroup fn op isnot b =
    (let child = fn (fresh_child b); groups = b_ConditionGroups (flush_conditions 0 child);
         b2 = flush_conditions 0 (inherit_error (b_PredicateError child) b)
     in if groups = [] then b2
        else append_group (WhereGroup [Where zero_where (Some groups) None None] op False isnot) b2)"
  using assms by (simp add: addWhereGroup_def fresh_child_def inherit_error_def Let_def)

lemma fresh_child_simps [simp]:
  "builder_inv (fresh_child b)" "stream (fresh_child b) = []"
  "b_depth (fresh_child b) = b_depth b + 1" "b_PredicateError (fresh_child b) = None"
  by (simp_all add: fresh_child_def builder_inv_def stream_def)

lemma stream_flushed: "written_groups (b_ConditionGroups (flush_conditions op b)) = stream b"
  using stream_flush [of op b] by (simp add: stream_def)

lemma written_ne:
  "built_groups gs \<Longrightarrow> written_groups gs \<noteq> [] \<Longrightarrow> written (written_groups gs) \<noteq> []"
  using tree_tokens_written(4) [of gs] written_nonempty [of "pt_groups gs"]
  by (cases "pt_groups gs = []") auto

lemma written_explicit:
  assumes "built_groups gs"
  shows "written_group (WhereGroup [Where zero_where (Some gs) None None] op False isnot) =
     (if written_groups gs = [] then []
      else [((if isnot then [TNot] else []) @ TOpen # written (written_groups gs) @ [TClose], op)])"
  using written_ne [OF assms] by (auto simp: Let_def)

lemma addWhereGroup_stream:
  assumes "builder_inv (fn (fresh_child b))" "b_depth b < MaxDepth"
  shows "stream (addWhereGroup fn op isnot b) = stream b @
     (let inner = stream (fn (fresh_child b)) in
      if inner = [] then []
      else [((if isnot then [TNot] else []) @ TOpen # written inner @ [TClose], op)])"
proof -
  define groups where "groups = b_ConditionGroups (flush_conditions 0 (fn (fresh_child b)))"
  have "built_groups groups"
    using builder_inv_flush [OF assms(1)] by (simp add: groups_def builder_inv_def)
  then show ?thesis
    using stream_flushed [of 0 "fn (fresh_child b)"]
    by (auto simp: addWhereGroup_shallow [OF assms(2)] Let_def stream_append_group
        groups_def [symmetric] written_explicit simp del: written_group.simps)
qed

lemma well_behaved_group:
  assumes f: "well_behaved f"
  shows "well_behaved (addWhereGroup f op isnot)"
proof (rule well_behavedI)
  fix b assume b: "builder_inv b"
  have child: "builder_inv (f (fresh_child b))"
    using well_behavedD(1) [OF f] by simp
  show "\<exists>more. stream (addWhereGroup f op isnot b) = stream b @ more"
    using addWhereGroup_stream [of f b op isnot, OF child] addWhereGroup_deep [of b f op isnot]
    by (cases "b_depth b < MaxDepth") (auto simp: stream_def)
  have "built_groups (b_ConditionGroups (flush_conditions 0 (f (fresh_child b))))"
    using builder_inv_flush [OF child] by (simp add: builder_inv_def)
  with b show "builder_inv (addWhereGroup f op isnot b)"
    using addWhereGroup_deep [of b f op isnot]
    by (cases "b_depth b < MaxDepth")
      (auto simp: addWhereGroup_shallow Let_def builder_inv_def [of "b\<lparr>b_PredicateError := _\<rparr>"]
        builder_inv_def [of b] intro!: builder_inv_append_group builder_inv_flush)
next
  fix b :: where_builder
  show "b_depth (addWhereGroup f op isnot b) = b_depth b"
    using addWhereGroup_deep [of b f op isnot]
    by (cases "b_depth b < MaxDepth") (auto simp: addWhereGroup_shallow Let_def)
next
  fix b :: where_builder
  assume "b_PredicateError b \<noteq> None"
  then show "b_PredicateError (addWhereGroup f op isnot b) \<noteq> None"
    using addWhereGroup_deep [of b f op isnot]
    by (cases "b_depth b < MaxDepth")
      (auto simp: addWhereGroup_shallow Let_def inherit_error_def split: option.splits)
qed

lemma well_behaved_columns: "well_behaved (addWhereColumns allcols colss op)"
proof (induction colss)
  case Nil
  then show ?case using well_behaved_id by (simp add: fun_eq_iff id_def well_behaved_def)
next
  case (Cons c colss)
  have "well_behaved (addWhereCondition allcols col cond vcol op)" for col cond vcol
    by (simp add: addWhereCondition_def well_behaved_append_flat well_behaved_id)
  then have first: "well_behaved (\<lambda>b. if length c = 2 then addWhereCondition allcols (c ! 0) ''='' (c ! 1) op b
        else if length c = 3 then addWhereCondition allcols (c ! 0) (c ! 1) (c ! 2) op b else b)"
    using well_behaved_id by (cases "length c = 2"; cases "length c = 3") (simp_all add: id_def)
  show ?case using well_behaved_comp [OF first Cons.IH] by (simp add: comp_def)
qed

lemmas flat_methods = addWhere_def addRaw_def addWhereNull_def addWhereBetween_def addWhereDate_def
  addWhereMonth_def addWhereDay_def addWhereYear_def addWhereTime_def addWhereFullText_def
  addWhereJsonContains_def WhereLiteral_def

lemmas guarded_methods = addWhereCondition_def addWhereBetweenColumns_def addWhereJsonLength_def

lemmas subquery_methods = whereOrOrWhereQuery_def addWhereInSubQuery_def addWhereExists_def
  addWhereExistsQuery_def exists_cond_def

lemma well_behaved_in: "well_behaved (\<lambda>b. fst (addWhereIn col op cond a b))"
proof (cases a)
  case (InValue v)
  then show ?thesis
    using well_behaved_append_flat well_behaved_id
    by (cases "case v of VList xs \<Rightarrow> Some xs | _ \<Rightarrow> map_option Some (ToInterfaceSlice v)")
      (simp_all add: addWhereIn_def id_def)
next
  case (InBuilder q)
  have "well_behaved (\<lambda>b. append_cond c b)" if "Nested c = None" for c
    using well_behaved_append_cond [OF that] by simp
  then show ?thesis by (simp add: InBuilder addWhereIn_def addWhereInSubQuery_def)
qed

lemma client_well_behaved: "client f \<Longrightarrow> well_behaved f"
proof (induction rule: client.induct)
  case (client_seq f g)
  then show ?case by (intro well_behaved_comp)
qed (simp_all add: well_behaved_id well_behaved_same well_behaved_append_flat flat_methods guarded_methods
    well_behaved_columns well_behaved_append_cond subquery_methods well_behaved_in
    well_behaved_conditions well_behaved_group split: list.splits)

lemma builder_inv_New [simp]: "builder_inv NewWhereBuilder"
  by (simp add: builder_inv_def NewWhereBuilder_def)

section \<open>Properties\<close>

text \<open>
  C9: Whatever program of builder methods made a condition, the SQL its conditions and groups are rendered
  to, written one after the other, has in SQL's reading (AND before OR, three-valued) exactly
  the value of the condition tree that the inspection of the query shows.
\<close>

theorem built_condition_means_tree:
  assumes "client f"
    and "predicateTree (b_ConditionGroups (flush_conditions 0 (f NewWhereBuilder))) = Some t"
  shows "tree_tokens t = written (stream (f NewWhereBuilder)) \<and>
         sql_reading L (written (stream (f NewWhereBuilder))) = Some (ev L t)"
proof -
  have "built_groups (b_ConditionGroups (flush_conditions 0 (f NewWhereBuilder)))"
    using builder_inv_flush well_behavedD(1) [OF client_well_behaved [OF assms(1)]]
    by (auto simp: builder_inv_def [of "flush_conditions _ _"])
  from condition_sql_means_tree [OF this assms(2)] show ?thesis
    by (simp add: stream_flushed)
qed

text \<open>
  No program of builder methods removes, reorders or rewrites a condition that is already there: it appends,
  keeps the shape rendering relies on, restores the nesting depth, and never clears a recorded error.
\<close>

theorem builder_only_appends:
  assumes "client f" "builder_inv b"
  shows "builder_inv (f b) \<and> b_depth (f b) = b_depth b \<and> (\<exists>more. stream (f b) = stream b @ more) \<and>
         (b_PredicateError b \<noteq> None \<longrightarrow> b_PredicateError (f b) \<noteq> None)"
  using client_well_behaved [OF assms(1)] assms(2) by (simp add: well_behaved_def)

text \<open>
  A group callback adds what its own program builds, in parentheses and after NOT when negated, joined by the group's
  operator; nothing when it built nothing; and at depth 64 the depth error instead.
\<close>

theorem where_group_adds_parentheses:
  assumes "client f"
  shows "(b_depth b < 64 \<longrightarrow>
           stream (addWhereGroup f op isnot b) = stream b @
             (let inner = stream (f (fresh_child b)) in
              if inner = [] then []
              else [((if isnot then [TNot] else []) @ TOpen # written inner @ [TClose], op)])) \<and>
         (64 \<le> b_depth b \<longrightarrow> b_PredicateError (addWhereGroup f op isnot b) = Some ErrDepth)"
proof (intro conjI impI)
  assume "b_depth b < 64"
  then show "stream (addWhereGroup f op isnot b) = stream b @
      (let inner = stream (f (fresh_child b)) in
       if inner = [] then []
       else [((if isnot then [TNot] else []) @ TOpen # written inner @ [TClose], op)])"
    using addWhereGroup_stream [of f b op isnot] well_behavedD(1) [OF client_well_behaved [OF assms]]
    by (simp add: MaxDepth_def)
next
  assume "64 \<le> b_depth b"
  then show "b_PredicateError (addWhereGroup f op isnot b) = Some ErrDepth"
    using addWhereGroup_deep [of b f op isnot] by (simp add: MaxDepth_def)
qed

text \<open>\<^verbatim>\<open>Where("a", "=", 1).OrWhereNot(func(b) { b.WhereNull("b").OrWhere("c", "<", 2) })\<close>\<close>

definition sample_client :: "where_builder \<Rightarrow> where_builder" where
  "sample_client =
     addWhereGroup (addWhere ''c'' ''<'' (Some [VInt 2]) 1 \<circ> addWhereNull ''b'' 0 ''IS NULL'') 1 True \<circ>
     addWhere ''a'' ''='' (Some [VInt 1]) 0"

definition flat_cond :: "where_flat \<Rightarrow> where_cond" where
  "flat_cond f = Where f None None None"

abbreviation cond_a :: where_cond where
  "cond_a \<equiv> flat_cond (zero_where\<lparr>w_Column := ''a'', w_Condition := ''='', w_Value := Some [VInt 1]\<rparr>)"
abbreviation cond_b :: where_cond where
  "cond_b \<equiv> flat_cond (zero_where\<lparr>w_Column := ''b'', w_Condition := ''IS NULL''\<rparr>)"
abbreviation cond_c :: where_cond where
  "cond_c \<equiv> flat_cond (zero_where\<lparr>w_Column := ''c'', w_Condition := ''<'', w_Value := Some [VInt 2], w_Operator := 1\<rparr>)"

lemma client_sample: "client sample_client"
  unfolding sample_client_def
  by (intro client_seq client_group client_where client_null)

lemma sample_stream:
  "stream (sample_client NewWhereBuilder) =
     [([TAtom cond_a], 0), ([TNot, TOpen, TAtom cond_b, TOr, TAtom cond_c, TClose], 1)]"
  by (simp add: sample_client_def addWhereGroup_def addWhere_def addWhereNull_def append_flat_def
      append_cond_def append_group_def flush_conditions_def NewWhereBuilder_def stream_def zero_where_def flat_cond_def
      MaxDepth_def connective_def)

theorem built_condition_means_tree_witness:
  "\<exists>t. predicateTree (b_ConditionGroups (flush_conditions 0 (sample_client NewWhereBuilder))) = Some t \<and>
     tree_tokens t = [TAtom cond_a, TOr, TNot, TOpen, TAtom cond_b, TOr, TAtom cond_c, TClose] \<and>
     ev (\<lambda>c. if c = cond_c then TT else UU) t = UU"
proof -
  obtain t where t: "predicateTree (b_ConditionGroups (flush_conditions 0 (sample_client NewWhereBuilder))) = Some t"
    by (simp add: predicateTree_def sample_client_def addWhereGroup_def addWhere_def addWhereNull_def append_flat_def
      append_cond_def append_group_def flush_conditions_def NewWhereBuilder_def zero_where_def
      MaxDepth_def combine_def and_node_def)
  have reading: "sql_reading (\<lambda>c. if c = cond_c then TT else UU) (written (stream (sample_client NewWhereBuilder))) = Some UU"
    by (simp add: sample_stream connective_def sql_reading_def numeral_eq_Suc flat_cond_def zero_where_def)
  note reads = built_condition_means_tree [OF client_sample t, of "\<lambda>c. if c = cond_c then TT else UU"]
  have "tree_tokens t = [TAtom cond_a, TOr, TNot, TOpen, TAtom cond_b, TOr, TAtom cond_c, TClose]"
    using reads by (simp add: sample_stream connective_def)
  with reads reading t show ?thesis by simp
qed

theorem builder_only_appends_witness:
  "\<exists>more. stream (sample_client (sample_client NewWhereBuilder)) =
     [([TAtom cond_a], 0), ([TNot, TOpen, TAtom cond_b, TOr, TAtom cond_c, TClose], 1)] @ more"
proof -
  have "builder_inv (sample_client NewWhereBuilder)"
    using builder_only_appends [OF client_sample builder_inv_New] by simp
  from builder_only_appends [OF client_sample this] show ?thesis
    by (simp add: sample_stream)
qed

theorem where_group_adds_parentheses_witness:
  "stream (addWhereGroup sample_client 0 True NewWhereBuilder) =
     [([TNot, TOpen, TAtom cond_a, TOr, TNot, TOpen, TAtom cond_b, TOr, TAtom cond_c, TClose, TClose], 0)]"
proof -
  have "stream (sample_client (fresh_child NewWhereBuilder)) = stream (sample_client NewWhereBuilder)"
    by (simp add: sample_client_def addWhereGroup_def addWhere_def addWhereNull_def append_flat_def fresh_child_def
      append_cond_def append_group_def flush_conditions_def NewWhereBuilder_def stream_def zero_where_def MaxDepth_def)
  moreover have "b_depth NewWhereBuilder < 64" "stream NewWhereBuilder = []"
    by (simp_all add: NewWhereBuilder_def stream_def)
  ultimately show ?thesis
    using where_group_adds_parentheses [OF client_sample, of NewWhereBuilder 0 True]
    by (simp add: sample_stream connective_def)
qed

section \<open>Two divergences\<close>

text \<open>A query used as a subquery loses its LIMIT, OFFSET, GROUP BY, lock and unions.\<close>

lemma subquery_forgets_tail:
  "embedded_query (q\<lparr>sb_Limit := l, sb_Offset := off, sb_Group := g, sb_Lock := k, sb_Union := u\<rparr>) = embedded_query q"
  by (simp add: embedded_query_def seal_conditions_def builder_joins_def subquery_flat_def)

text \<open>An IN condition on a slice type that is not listed adds no condition at all.\<close>

lemma where_in_unlisted_type: "fst (WhereIn col (InValue (VScalars SInt16 xs)) b) = b"
  by (simp add: WhereIn_def addWhereIn_def ToInterfaceSlice_def interface_types_def)

end
