(* ===== verification/Renderer.thy ===== *)
theory Renderer
  imports SqlPlaceholders SqlReference PredicateTree
begin

text \<open>
  The monad SQL rendering runs in.  The Go code appends to a byte slice, asks a shared helper for
  placeholders and returns bound values or an error; here a renderer maps a state (the
  placeholder counter and the names of the columns already selected) to the text it appended, its
  result and the next state, or to an error with the text appended before it, which the callers
  that drop an error leave in the buffer.
\<close>

section \<open>Outcomes\<close>

datatype render_error =
    SqlFailure sql_error
  | PredicateFailure gostring
  | InputFailure gostring
  | NotImplemented
  | Panic
  | OutOfFuel

datatype ('s, 'a) outcome =
    Fail render_error gostring 's
  | Done gostring 'a 's

type_synonym ('s, 'a) renderer = "'s \<Rightarrow> ('s, 'a) outcome"

definition ret :: "'a \<Rightarrow> ('s, 'a) renderer" where
  [go_eval]: "ret a s = Done [] a s"

definition emit :: "gostring \<Rightarrow> ('s, unit) renderer" where
  [go_eval]: "emit t s = Done t () s"

definition fail :: "render_error \<Rightarrow> ('s, 'a) renderer" where
  [go_eval]: "fail e s = Fail e [] s"

definition andThen :: "('s, 'a) renderer \<Rightarrow> ('a \<Rightarrow> ('s, 'b) renderer) \<Rightarrow> ('s, 'b) renderer" where
  [go_eval]: "andThen m f s =
     (case m s of
        Fail e t s' \<Rightarrow> Fail e t s'
      | Done t a s' \<Rightarrow>
          (case f a s' of
             Fail e u s'' \<Rightarrow> Fail e (t @ u) s''
           | Done u b s'' \<Rightarrow> Done (t @ u) b s''))"

definition before :: "('s, unit) renderer \<Rightarrow> ('s, 'b) renderer \<Rightarrow> ('s, 'b) renderer" where
  [go_eval]: "before m n = andThen m (\<lambda>_. n)"

definition with_text :: "('s, 'a) renderer \<Rightarrow> ('s, 'a \<times> gostring) renderer" where
  [go_eval]: "with_text m s = (case m s of Fail e t s' \<Rightarrow> Fail e t s' | Done t a s' \<Rightarrow> Done t (a, t) s')"

text \<open>A call whose error the caller ignores; a panic is not an error.\<close>

definition ignoring_error :: "'a \<Rightarrow> ('s, 'a) renderer \<Rightarrow> ('s, 'a) renderer" where
  [go_eval]: "ignoring_error d m s =
     (case m s of
        Fail e t s' \<Rightarrow> if e = Panic \<or> e = OutOfFuel then Fail e t s' else Done t d s'
      | Done t a s' \<Rightarrow> Done t a s')"

fun each :: "('a \<Rightarrow> ('s, 'b list) renderer) \<Rightarrow> 'a list \<Rightarrow> ('s, 'b list) renderer" where
  "each f [] = ret []"
| "each f (x # xs) = andThen (f x) (\<lambda>vs. andThen (each f xs) (\<lambda>ws. ret (vs @ ws)))"

text \<open>The same with the index of each element.\<close>

definition each_indexed :: "(nat \<Rightarrow> 'a \<Rightarrow> ('s, 'b list) renderer) \<Rightarrow> 'a list \<Rightarrow> ('s, 'b list) renderer" where
  [go_eval]: "each_indexed f xs = each (\<lambda>(i, x). f i x) (zip [0..<length xs] xs)"

section \<open>The SQL helper\<close>

datatype dialect = DialectBase | DialectMySQL | DialectPostgreSQL

record 'p rstate =
  r_ph :: 'p
  r_cols :: "gostring list"

record 'p sql_utils =
  u_next :: "'p \<Rightarrow> 'p \<times> gostring"
  u_dialect :: dialect

definition quote_of :: "dialect \<Rightarrow> char" where
  [go_eval]: "quote_of d = (case d of DialectMySQL \<Rightarrow> backtick | _ \<Rightarrow> dquote)"

definition mysql_utils :: "nat sql_utils" where
  [go_eval]: "mysql_utils = \<lparr>u_next = mysql_placeholder, u_dialect = DialectMySQL\<rparr>"

definition postgres_utils :: "nat sql_utils" where
  [go_eval]: "postgres_utils = \<lparr>u_next = postgres_placeholder, u_dialect = DialectPostgreSQL\<rparr>"

definition base_utils :: "nat sql_utils" where
  [go_eval]: "base_utils = \<lparr>u_next = mysql_placeholder, u_dialect = DialectBase\<rparr>"

definition GetPlaceholder :: "'p sql_utils \<Rightarrow> ('p rstate, gostring) renderer" where
  [go_eval]: "GetPlaceholder u s = (case u_next u (r_ph s) of (p, t) \<Rightarrow> Done [] t (s\<lparr>r_ph := p\<rparr>))"

definition placeholder :: "'p sql_utils \<Rightarrow> ('p rstate, unit) renderer" where
  [go_eval]: "placeholder u = andThen (GetPlaceholder u) emit"

definition EscapeRelation :: "'p sql_utils \<Rightarrow> gostring \<Rightarrow> ('s, unit) renderer" where
  [go_eval]: "EscapeRelation u v = emit (AppendEscapedRelation [] v (quote_of (u_dialect u)))"

definition EscapeReference :: "'p sql_utils \<Rightarrow> gostring \<Rightarrow> ('s, unit) renderer" where
  [go_eval]: "EscapeReference u v = emit (AppendEscapedReference [] v (quote_of (u_dialect u)))"

definition EscapeAliasedValue :: "'p sql_utils \<Rightarrow> gostring \<Rightarrow> ('s, unit) renderer" where
  [go_eval]: "EscapeAliasedValue u v = emit (AppendEscapedAliasedValue [] v (quote_of (u_dialect u)))"

definition QuoteIdent :: "dialect \<Rightarrow> gostring \<Rightarrow> gostring" where
  [go_eval]: "QuoteIdent d ident =
     (let q = (if d = DialectPostgreSQL then dquote else backtick) in [q] @ replace_byte q [q, q] ident @ [q])"

definition writeColumn :: "'p sql_utils \<Rightarrow> gostring \<Rightarrow> bool \<Rightarrow> ('s, unit) renderer" where
  [go_eval]: "writeColumn u col literal =
     (if literal then emit (QuoteIdent (u_dialect u) col) else EscapeReference u col)"

section \<open>Laws of the monad\<close>

lemma andThen_ret [simp]: "andThen (ret a) f = f a"
  by (rule ext) (auto simp: andThen_def ret_def split: outcome.splits)

lemma andThen_fail [simp]: "andThen (fail e) f = fail e"
  by (rule ext) (simp add: andThen_def fail_def)

lemma andThen_assoc: "andThen (andThen m f) g = andThen m (\<lambda>x. andThen (f x) g)"
  by (rule ext) (auto simp: andThen_def split: outcome.splits)

lemma andThen_Done:
  "andThen m f s = Done t b s' \<longleftrightarrow>
     (\<exists>t1 a s1 t2. m s = Done t1 a s1 \<and> f a s1 = Done t2 b s' \<and> t = t1 @ t2)"
  by (auto simp: andThen_def split: outcome.splits)

lemma before_Done:
  "before m n s = Done t b s' \<longleftrightarrow>
     (\<exists>t1 s1 t2. m s = Done t1 () s1 \<and> n s1 = Done t2 b s' \<and> t = t1 @ t2)"
  by (auto simp: before_def andThen_Done)

lemma ret_Done [simp]: "ret a s = Done t b s' \<longleftrightarrow> t = [] \<and> b = a \<and> s' = s"
  by (auto simp: ret_def)

lemma emit_Done [simp]: "emit u s = Done t b s' \<longleftrightarrow> t = u \<and> s' = s"
  by (auto simp: emit_def)

lemma fail_Done [simp]: "fail e s = Done t b s' \<longleftrightarrow> False"
  by (simp add: fail_def)

lemma with_text_Done:
  "with_text m s = Done t x s' \<longleftrightarrow> (\<exists>a. m s = Done t a s' \<and> x = (a, t))"
  by (auto simp: with_text_def split: outcome.splits)

lemma ignoring_error_Done:
  "ignoring_error d m s = Done t a s' \<longleftrightarrow>
     m s = Done t a s' \<or> (\<exists>e. m s = Fail e t s' \<and> e \<noteq> Panic \<and> e \<noteq> OutOfFuel \<and> a = d)"
  by (auto simp: ignoring_error_def split: outcome.splits if_splits)

section \<open>Placeholders and values\<close>

text \<open>
  \<^term>\<open>issues u n m\<close>: whenever \<^term>\<open>m\<close> returns, it has asked the helper for exactly
  \<^term>\<open>n a\<close> placeholders, \<^term>\<open>a\<close> being its result; \<^term>\<open>balanced u m\<close> says that is one for
  every value it binds.
\<close>

definition issued :: "'p sql_utils \<Rightarrow> nat \<Rightarrow> 'p \<Rightarrow> 'p" where
  "issued u n = (\<lambda>p. fst (u_next u p)) ^^ n"

definition issues :: "'p sql_utils \<Rightarrow> ('a \<Rightarrow> nat) \<Rightarrow> ('p rstate, 'a) renderer \<Rightarrow> bool" where
  "issues u n m \<longleftrightarrow> (\<forall>s t a s'. m s = Done t a s' \<longrightarrow> r_ph s' = issued u (n a) (r_ph s))"

abbreviation balanced :: "'p sql_utils \<Rightarrow> ('p rstate, 'a list) renderer \<Rightarrow> bool" where
  "balanced u m \<equiv> issues u length m"

lemma issued_0 [simp]: "issued u 0 p = p"
  by (simp add: issued_def)

lemma issued_add: "issued u (m + n) p = issued u n (issued u m p)"
  by (simp add: issued_def funpow_add add.commute [of m n])

lemma issued_1: "issued u (Suc 0) p = fst (u_next u p)"
  by (simp add: issued_def)

lemma issues_ret: "n a = 0 \<Longrightarrow> issues u n (ret a)"
  by (simp add: issues_def)

lemma issues_emit: "issues u (\<lambda>_. 0) (emit t)"
  by (simp add: issues_def)

lemma issues_fail: "issues u n (fail e)"
  by (simp add: issues_def)

lemma issues_andThen:
  assumes "issues u k m" "\<And>a. issues u (\<lambda>b. n b - k a) (f a)" "\<And>a b s t s'. f a s = Done t b s' \<Longrightarrow> k a \<le> n b"
  shows "issues u n (andThen m f)"
  unfolding issues_def
proof (intro allI impI)
  fix s t b s'
  assume "andThen m f s = Done t b s'"
  then obtain t1 a s1 t2 where 1: "m s = Done t1 a s1" and 2: "f a s1 = Done t2 b s'"
    by (auto simp: andThen_Done)
  have "r_ph s1 = issued u (k a) (r_ph s)"
    using assms(1) 1 by (simp add: issues_def)
  moreover have "r_ph s' = issued u (n b - k a) (r_ph s1)"
    using assms(2) [of a] 2 unfolding issues_def by blast
  ultimately show "r_ph s' = issued u (n b) (r_ph s)"
    using assms(3) [OF 2] by (simp add: issued_add [symmetric])
qed

lemma issues_before: "issues u k m \<Longrightarrow> issues u n f \<Longrightarrow> issues u (\<lambda>b. k () + n b) (before m f)"
  by (auto simp: issues_def before_Done issued_add)

lemma issues_before_0: "issues u (\<lambda>_. 0) m \<Longrightarrow> issues u n f \<Longrightarrow> issues u n (before m f)"
  using issues_before [of u "\<lambda>_. 0" m n f] by simp

lemma issues_placeholder: "issues u (\<lambda>_. 1) (placeholder u)"
  by (auto simp: issues_def placeholder_def andThen_Done GetPlaceholder_def issued_1 split: prod.splits)

lemma issues_escape:
  "issues u (\<lambda>_. 0) (EscapeRelation u' v)" "issues u (\<lambda>_. 0) (EscapeReference u' v)"
  "issues u (\<lambda>_. 0) (EscapeAliasedValue u' v)" "issues u (\<lambda>_. 0) (writeColumn u' v l)"
  by (simp_all add: EscapeRelation_def EscapeReference_def EscapeAliasedValue_def writeColumn_def issues_emit)

lemma issues_cong: "issues u n m \<Longrightarrow> (\<And>a. n a = k a) \<Longrightarrow> issues u k m"
  by (simp add: issues_def)

lemma balanced_each: "(\<And>x. x \<in> set xs \<Longrightarrow> balanced u (f x)) \<Longrightarrow> balanced u (each f xs)"
proof (induction xs)
  case (Cons x xs)
  have "balanced u (f x)" "balanced u (each f xs)"
    using Cons by auto
  then show ?case
    by (auto simp: issues_def andThen_Done issued_add)
qed (simp add: issues_ret)

end
