(* ===== verification/RenderWhere.thy ===== *)
theory RenderWhere
  imports Renderer
begin

text \<open>
  Rendering of conditions: the leaves (\<^verbatim>\<open>db/base/where_base.go\<close> and the dialects'
  \<^verbatim>\<open>where.go\<close>) and the walk that emits SQL, bound values and the inspection view together
  (\<^verbatim>\<open>db/base/predicate.go\<close>).  \<^term>\<open>sub\<close> renders a subquery; \<^term>\<open>json\<close> is
  \<^verbatim>\<open>encoding/json\<close>'s text of a value (empty when it cannot be encoded).
\<close>

section \<open>JSON paths\<close>

fun split_arrow :: "gostring \<Rightarrow> gostring list" where
  "split_arrow [] = [[]]"
| "split_arrow [c] = [[c]]"
| "split_arrow (c # d # cs) =
     (if c = CHR ''-'' \<and> d = CHR ''>'' then [] # split_arrow cs
      else (case split_arrow (d # cs) of [] \<Rightarrow> [[c]] | p # ps \<Rightarrow> (c # p) # ps))"

definition ParseJsonFieldAndPath :: "gostring \<Rightarrow> gostring \<times> gostring list" where
  [go_eval]: "ParseJsonFieldAndPath col = (let parts = split_arrow col in (hd parts, tl parts))"

definition BuildJsonPathSQL :: "'p sql_utils \<Rightarrow> gostring \<Rightarrow> gostring list \<Rightarrow> ('s, unit) renderer" where
  [go_eval]: "BuildJsonPathSQL u field path =
     before (emit ''('') (before (EscapeReference u field)
       (emit (concat (map (\<lambda>p. ''->'' @ [CHR 0x27] @ p @ [CHR 0x27]) path) @ '')'')))"

definition json_path_arg :: "gostring list \<Rightarrow> gostring" where
  [go_eval]: "json_path_arg path =
     (if path \<noteq> [] then '', '' @ [CHR 0x27] @ ''$.'' @ join ''.'' path @ [CHR 0x27] @ '')'' else '')'')"

section \<open>Leaves\<close>

definition seq_emit :: "gostring list \<Rightarrow> ('s, unit) renderer" where
  [go_eval]: "seq_emit ts = emit (concat ts)"

fun sep_each :: "gostring \<Rightarrow> ('a \<Rightarrow> ('s, unit) renderer) \<Rightarrow> 'a list \<Rightarrow> ('s, unit) renderer" where
  "sep_each sep f [] = ret ()"
| "sep_each sep f [x] = f x"
| "sep_each sep f (x # y # xs) = before (f x) (before (emit sep) (sep_each sep f (y # xs)))"

text \<open>What follows the operator: another column, or placeholders for the values.\<close>

definition operand :: "'p sql_utils \<Rightarrow> where_flat \<Rightarrow> ('p rstate, unit) renderer" where
  [go_eval]: "operand u f =
     (if w_ValueColumn f \<noteq> [] then before (emit '' '') (EscapeReference u (w_ValueColumn f))
      else (case w_Value f of
         None \<Rightarrow> ret ()
       | Some vs \<Rightarrow>
           if w_Condition f = ''IN'' \<or> w_Condition f = ''NOT IN'' \<or> length vs > 1
           then before (emit '' ('') (before (sep_each '', '' (\<lambda>_. placeholder u) vs) (emit '')''))
           else before (emit '' '') (placeholder u)))"

definition bound_values :: "where_flat \<Rightarrow> goval list" where
  [go_eval]: "bound_values f = (case w_Value f of None \<Rightarrow> [] | Some vs \<Rightarrow> vs)"

definition ProcessRawCondition :: "'p sql_utils \<Rightarrow> where_flat \<Rightarrow> ('p rstate, goval list) renderer" where
  [go_eval]: "ProcessRawCondition u f =
     (if w_LiteralColumn f then
        before (writeColumn u (w_Column f) True) (before (emit ''='') (before (placeholder u) (ret (bound_values f))))
      else if w_Raw f \<noteq> [] then
        (case w_ValueMap f of
           Some m \<Rightarrow> (\<lambda>s. case ExpandNamedPlaceholders (u_next u) (r_ph s) (w_Raw f) (map_of m) (m = []) of
              Inl e \<Rightarrow> Fail (SqlFailure e) [] s
            | Inr (p, sql, vals) \<Rightarrow> Done sql vals (s\<lparr>r_ph := p\<rparr>))
         | None \<Rightarrow> before (emit (w_Raw f)) (ret (bound_values f)))
      else
        before (EscapeReference u (w_Column f)) (before (emit ('' '' @ w_Condition f))
          (before (operand u f) (ret (bound_values f)))))"

definition ProcessFunction :: "'p sql_utils \<Rightarrow> where_flat \<Rightarrow> ('p rstate, goval list) renderer" where
  [go_eval]: "ProcessFunction u f =
     before (emit (w_Function f @ ''('')) (before (EscapeReference u (w_Column f))
       (before (emit ('') '' @ w_Condition f)) (before (operand u f) (ret (bound_values f)))))"

definition ProcessBetweenCondition :: "'p sql_utils \<Rightarrow> where_flat \<Rightarrow> where_between \<Rightarrow> ('p rstate, goval list) renderer" where
  [go_eval]: "ProcessBetweenCondition u f bt =
     before (EscapeReference u (w_Column f)) (before (emit ('' '' @ w_Condition f @ '' ''))
      (if bt_IsColumn bt then
         (case (bt_From bt, bt_To bt) of
            (VString lo, VString hi) \<Rightarrow>
              before (EscapeReference u lo) (before (emit '' AND '') (before (EscapeReference u hi) (ret [])))
          | (VString lo, _) \<Rightarrow> before (EscapeReference u lo) (before (emit '' AND '') (fail Panic))
          | _ \<Rightarrow> fail Panic)
       else before (placeholder u) (before (emit '' AND '')
              (before (placeholder u) (ret [bt_From bt, bt_To bt])))))"

type_synonym 'p sub_builder = "query \<Rightarrow> ('p rstate, goval list) renderer"

definition ProcessSubQuery :: "'p sql_utils \<Rightarrow> 'p sub_builder \<Rightarrow> where_flat \<Rightarrow> query \<Rightarrow> ('p rstate, goval list) renderer" where
  [go_eval]: "ProcessSubQuery u sub f q =
     before (EscapeReference u (w_Column f)) (before (emit ('' '' @ w_Condition f @ '' (''))
       (andThen (sub q) (\<lambda>vs. before (emit '')'') (ret vs))))"

definition ProcessExistsQuery :: "'p sub_builder \<Rightarrow> where_flat \<Rightarrow> query \<Rightarrow> ('p rstate, goval list) renderer" where
  [go_eval]: "ProcessExistsQuery sub f q =
     before (emit (w_Condition f @ '' ('')) (andThen (sub q) (\<lambda>vs. before (emit '')'') (ret vs)))"

text \<open>The base dialect's dispatch, which UPDATE, DELETE and HAVING use on every dialect.\<close>

definition BaseRenderLeaf :: "'p sql_utils \<Rightarrow> 'p sub_builder \<Rightarrow> where_cond \<Rightarrow> ('p rstate, goval list) renderer" where
  [go_eval]: "BaseRenderLeaf u sub c =
     (let f = wf c in
      case SubQuery c of
        Some q \<Rightarrow> ProcessSubQuery u sub f q
      | None \<Rightarrow>
       (case Exists c of
          Some (isnot, q) \<Rightarrow> ProcessExistsQuery sub f q
        | None \<Rightarrow>
         (case w_Between f of
            Some bt \<Rightarrow> ProcessBetweenCondition u f bt
          | None \<Rightarrow>
             if w_FullText f \<noteq> None then fail NotImplemented
             else if w_Function f \<noteq> [] then ProcessFunction u f
             else ProcessRawCondition u f)))"

text \<open>Full-text options: absent, of the expected type, or a failing type assertion.\<close>

definition string_option :: "(gostring \<times> goval) list option \<Rightarrow> gostring \<Rightarrow> render_error + gostring option" where
  [go_eval]: "string_option opts k =
     (case opts of None \<Rightarrow> Inr None
      | Some m \<Rightarrow> (case map_of m k of None \<Rightarrow> Inr None | Some (VString t) \<Rightarrow> Inr (Some t) | Some _ \<Rightarrow> Inl Panic))"

definition bool_option :: "(gostring \<times> goval) list option \<Rightarrow> gostring \<Rightarrow> render_error + bool option" where
  [go_eval]: "bool_option opts k =
     (case opts of None \<Rightarrow> Inr None
      | Some m \<Rightarrow> (case map_of m k of None \<Rightarrow> Inr None | Some (VBool t) \<Rightarrow> Inr (Some t) | Some _ \<Rightarrow> Inl Panic))"

definition MySQLProcessFullText :: "'p sql_utils \<Rightarrow> where_flat \<Rightarrow> full_text \<Rightarrow> ('p rstate, goval list) renderer" where
  [go_eval]: "MySQLProcessFullText u f ft =
     (case string_option (ft_Options ft) ''mode'' of
        Inl e \<Rightarrow> fail e
      | Inr m \<Rightarrow>
       (case bool_option (ft_Options ft) ''expanded'' of
          Inl e \<Rightarrow> fail e
        | Inr x \<Rightarrow>
          let mode = (if m = Some ''boolean'' then ''IN BOOLEAN MODE'' else ''IN NATURAL LANGUAGE MODE'');
              expand = (if x = Some True then '' WITH QUERY EXPANSION'' else [])
          in before (emit ''MATCH ('') (before (sep_each '', '' (EscapeReference u) (ft_Columns ft))
               (before (emit '') AGAINST ('') (before (placeholder u)
                 (before (emit ('' '' @ mode @ expand @ '')''))
                   (ret (bound_values f @ [VString (ft_Search ft)]))))))))"

definition MySQLProcessJsonContains :: "'p sql_utils \<Rightarrow> (goval \<Rightarrow> gostring) \<Rightarrow> where_flat \<Rightarrow> goval list option \<Rightarrow> ('p rstate, goval list) renderer" where
  [go_eval]: "MySQLProcessJsonContains u json f vals =
     (case ParseJsonFieldAndPath (w_Column f) of (field, path) \<Rightarrow>
        before (emit ''JSON_CONTAINS('') (before (EscapeReference u field) (before (emit '', '')
          (before (placeholder u) (before (emit (json_path_arg path))
            (ret [VString (case vals of Some [v] \<Rightarrow> json v | _ \<Rightarrow> json (VList vals))]))))))"

definition MySQLProcessJsonLength :: "'p sql_utils \<Rightarrow> where_flat \<Rightarrow> gostring \<times> goval \<Rightarrow> ('p rstate, goval list) renderer" where
  [go_eval]: "MySQLProcessJsonLength u f jl =
     (case ParseJsonFieldAndPath (w_Column f) of (field, path) \<Rightarrow>
        before (emit ''JSON_LENGTH('') (before (EscapeReference u field)
          (before (emit (json_path_arg path @ '' '' @ fst jl @ '' ''))
            (before (placeholder u) (ret [snd jl])))))"

definition MySQLRenderLeaf :: "'p sql_utils \<Rightarrow> (goval \<Rightarrow> gostring) \<Rightarrow> 'p sub_builder \<Rightarrow> where_cond \<Rightarrow> ('p rstate, goval list) renderer" where
  [go_eval]: "MySQLRenderLeaf u json sub c =
     (let f = wf c in
      case w_FullText f of
        Some ft \<Rightarrow> MySQLProcessFullText u f ft
      | None \<Rightarrow>
       (case w_JsonContains f of
          Some vals \<Rightarrow> MySQLProcessJsonContains u json f vals
        | None \<Rightarrow>
         (case w_JsonLength f of
            Some jl \<Rightarrow> MySQLProcessJsonLength u f jl
          | None \<Rightarrow> BaseRenderLeaf u sub c)))"

definition PostgresProcessFullText :: "'p sql_utils \<Rightarrow> full_text \<Rightarrow> ('p rstate, goval list) renderer" where
  [go_eval]: "PostgresProcessFullText u ft =
     (case string_option (ft_Options ft) ''language'' of
        Inl e \<Rightarrow> fail e
      | Inr l \<Rightarrow>
       (case string_option (ft_Options ft) ''mode'' of
          Inl e \<Rightarrow> fail e
        | Inr m \<Rightarrow>
          let language = (case l of None \<Rightarrow> ''english'' | Some t \<Rightarrow> t);
              mode = (if m = Some ''phrase'' then ''phraseto_tsquery''
                      else if m = Some ''websearch'' then ''websearch_to_tsquery'' else ''plainto_tsquery'')
          in before (emit ''('') (before
               (sep_each '' || '' (\<lambda>col. before (emit ''to_tsvector('') (before (placeholder u)
                  (before (emit '', '') (before (EscapeReference u col) (emit '')''))))) (ft_Columns ft))
               (before (emit ('') @@ '' @ mode @ ''('')) (before (placeholder u) (before (emit '', '')
                 (before (placeholder u) (before (emit '')'')
                   (ret (replicate (length (ft_Columns ft)) (VString language) @
                         [VString language, VString (ft_Search ft)]))))))))))"

definition PostgresProcessJsonContains :: "'p sql_utils \<Rightarrow> (goval \<Rightarrow> gostring) \<Rightarrow> where_flat \<Rightarrow> goval list option \<Rightarrow> ('p rstate, goval list) renderer" where
  [go_eval]: "PostgresProcessJsonContains u json f vals =
     (case ParseJsonFieldAndPath (w_Column f) of (field, path) \<Rightarrow>
        before (BuildJsonPathSQL u field path) (before (emit ''::jsonb @> '') (before (placeholder u)
          (ret [VString (case vals of Some [v] \<Rightarrow> json v | _ \<Rightarrow> json (VList vals))]))))"

definition PostgresProcessJsonLength :: "'p sql_utils \<Rightarrow> where_flat \<Rightarrow> gostring \<times> goval \<Rightarrow> ('p rstate, goval list) renderer" where
  [go_eval]: "PostgresProcessJsonLength u f jl =
     (case ParseJsonFieldAndPath (w_Column f) of (field, path) \<Rightarrow>
        before (emit ''jsonb_array_length('') (before (BuildJsonPathSQL u field path)
          (before (emit (''::jsonb) '' @ fst jl @ '' '')) (before (placeholder u) (ret [snd jl])))))"

definition PostgresRenderLeaf :: "'p sql_utils \<Rightarrow> (goval \<Rightarrow> gostring) \<Rightarrow> 'p sub_builder \<Rightarrow> where_cond \<Rightarrow> ('p rstate, goval list) renderer" where
  [go_eval]: "PostgresRenderLeaf u json sub c =
     (let f = wf c in
      case w_FullText f of
        Some ft \<Rightarrow> PostgresProcessFullText u ft
      | None \<Rightarrow>
       (case w_JsonContains f of
          Some vals \<Rightarrow> PostgresProcessJsonContains u json f vals
        | None \<Rightarrow>
         (case w_JsonLength f of
            Some jl \<Rightarrow> PostgresProcessJsonLength u f jl
          | None \<Rightarrow> BaseRenderLeaf u sub c)))"

definition RenderLeaf :: "'p sql_utils \<Rightarrow> (goval \<Rightarrow> gostring) \<Rightarrow> 'p sub_builder \<Rightarrow> where_cond \<Rightarrow> ('p rstate, goval list) renderer" where
  [go_eval]: "RenderLeaf u json sub c =
     (case u_dialect u of
        DialectMySQL \<Rightarrow> MySQLRenderLeaf u json sub c
      | DialectPostgreSQL \<Rightarrow> PostgresRenderLeaf u json sub c
      | DialectBase \<Rightarrow> BaseRenderLeaf u sub c)"

section \<open>The walk\<close>

text \<open>The copier and the values bound so far.\<close>

type_synonym walk_state = "copier \<times> goval list"

text \<open>One argument of a leaf: its position, its inspection value, and the copy that is bound.\<close>

definition bind_arg :: "nat \<Rightarrow> node_info \<times> walk_state \<Rightarrow> goval \<Rightarrow> node_info \<times> walk_state" where
  [go_eval]: "bind_arg offset st arg =
     (case st of (out, c, vals) \<Rightarrow>
      (case Copy c arg of ((d, ok), c') \<Rightarrow>
        (out\<lparr>parameters := parameters out @ [int (offset + length vals)],
             correspondence := (if ok then correspondence out else unverified),
             node_values := node_values out @
               [if ok then \<lparr>isolation = detached, reason = [], pdata = d\<rparr>
                else \<lparr>isolation = unverified, reason = UnverifiedReason, pdata = VNil\<rparr>]\<rparr>,
         c', vals @ [d])))"

definition leaf_reason :: "gostring \<Rightarrow> where_cond \<Rightarrow> gostring" where
  [go_eval]: "leaf_reason k c =
     (let n = length (bound_values (wf c)) in
      if k = ''in'' \<and> n = 0 then ''empty_in_legacy_sql''
      else if SubQuery c \<noteq> None \<or> Exists c \<noteq> None then ''subquery''
      else if k = ''opaque'' then ''unparsed_expression''
      else if k = ''comparison'' \<and> n \<noteq> 1 then ''unsupported_comparison_arity''
      else [])"

definition bound_columns_of :: "where_flat \<Rightarrow> gostring list option" where
  [go_eval]: "bound_columns_of f =
     (case w_Between f of
        Some bt \<Rightarrow>
          if bt_IsColumn bt then
            (case (bt_From bt, bt_To bt) of (VString lo, VString hi) \<Rightarrow> Some [lo, hi] | _ \<Rightarrow> None)
          else Some []
      | None \<Rightarrow> Some [])"

definition leaf_info :: "gostring \<Rightarrow> where_cond \<Rightarrow> gostring list \<Rightarrow> node_info" where
  [go_eval]: "leaf_info k c bc =
     (let f = wf c; r = leaf_reason k c in
      blank_info\<lparr>bound_columns := bc, kind := k, column := w_Column f, operator := w_Condition f,
        value_column := w_ValueColumn f, raw_sql := w_Raw f, func_name := w_Function f,
        opaque_reason := r, correspondence := (if r = [] then generated else unverified)\<rparr>)"

fun walk :: "(where_cond \<Rightarrow> ('s, goval list) renderer) \<Rightarrow> nat \<Rightarrow> ptree \<Rightarrow> walk_state \<Rightarrow>
       ('s, pnode \<times> walk_state) renderer"
and walk_kids :: "(where_cond \<Rightarrow> ('s, goval list) renderer) \<Rightarrow> nat \<Rightarrow> gostring \<Rightarrow> bool \<Rightarrow> ptree list \<Rightarrow> walk_state \<Rightarrow>
       ('s, pnode list \<times> walk_state) renderer" where
  "walk render offset (Inner k cs) st =
     andThen (with_text
        (before (emit (if k = ''group'' then ''('' else if k = ''not'' then ''NOT '' else []))
          (andThen (walk_kids render offset k True cs st)
            (\<lambda>r. before (emit (if k = ''group'' then '')'' else [])) (ret r)))))
       (\<lambda>((ns, st'), sql).
          ret (Node (blank_info\<lparr>kind := k, node_sql := sql,
                 correspondence := (if \<forall>n \<in> set ns. correspondence (info n) = generated
                                    then generated else unverified)\<rparr>) (map Some ns), st'))"
| "walk render offset (Leaf k c) st =
     (case bound_columns_of (wf c) of
        None \<Rightarrow> fail Panic
      | Some bc \<Rightarrow>
          andThen (with_text (render c))
            (\<lambda>(args, sql).
               case fold (\<lambda>a st. bind_arg offset st a) args (leaf_info k c bc, st) of
                 (out, st') \<Rightarrow> ret (Node (out\<lparr>node_sql := sql\<rparr>) [], st')))"
| "walk_kids render offset k first [] st = ret ([], st)"
| "walk_kids render offset k first (c # cs) st =
     before (emit (if first then [] else '' '' @ to_upper k @ '' ''))
       (andThen (walk render offset c st)
         (\<lambda>(n, st1). andThen (walk_kids render offset k False cs st1)
           (\<lambda>(ns, st2). ret (n # ns, st2))))"

definition RenderPredicates ::
  "(where_cond \<Rightarrow> ('s, goval list) renderer) \<Rightarrow> where_group list \<Rightarrow> nat \<Rightarrow> ('s, goval list \<times> pnode option) renderer" where
  [go_eval]: "RenderPredicates render groups offset =
     (case PredicateTree groups of
        Inl e \<Rightarrow> fail (PredicateFailure e)
      | Inr None \<Rightarrow> ret ([], None)
      | Inr (Some tree) \<Rightarrow>
          before (emit '' WHERE '')
            (andThen (walk render offset tree (new_copier, []))
              (\<lambda>(view, _, values). ret (values, Some view))))"

section \<open>What the walk produces\<close>

fun tree_leaves :: "ptree \<Rightarrow> (gostring \<times> where_cond) list" where
  "tree_leaves (Leaf k c) = [(k, c)]"
| "tree_leaves (Inner k cs) = concat (map tree_leaves cs)"

fun leaves :: "pnode \<Rightarrow> node_info list" and leaves_of :: "pnode option list \<Rightarrow> node_info list" where
  "leaves (Node i cs) = (if cs = [] then [i] else leaves_of cs)"
| "leaves_of [] = []"
| "leaves_of (None # cs) = leaves_of cs"
| "leaves_of (Some n # cs) = leaves n @ leaves_of cs"

text \<open>The SQL of tokens, each leaf written as given, in order.\<close>

fun spell :: "tok list \<Rightarrow> gostring list \<Rightarrow> gostring" where
  "spell [] xs = []"
| "spell (TAtom c # ts) xs = (case xs of [] \<Rightarrow> spell ts [] | x # ys \<Rightarrow> x @ spell ts ys)"
| "spell (TAnd # ts) xs = '' AND '' @ spell ts xs"
| "spell (TOr # ts) xs = '' OR '' @ spell ts xs"
| "spell (TNot # ts) xs = ''NOT '' @ spell ts xs"
| "spell (TOpen # ts) xs = ''('' @ spell ts xs"
| "spell (TClose # ts) xs = '')'' @ spell ts xs"

fun atoms :: "tok list \<Rightarrow> where_cond list" where
  "atoms [] = []"
| "atoms (TAtom c # ts) = c # atoms ts"
| "atoms (_ # ts) = atoms ts"

lemma spell_append: "length (atoms ts) = length xs \<Longrightarrow> spell (ts @ us) (xs @ ys) = spell ts xs @ spell us ys"
  by (induction ts xs rule: spell.induct) (auto split: list.splits)

lemma atoms_append [simp]: "atoms (ts @ us) = atoms ts @ atoms us"
  by (induction ts rule: atoms.induct) auto

text \<open>The trees \<^verbatim>\<open>combine\<close> makes: no empty inner node, one child under a group or a negation.\<close>

fun regular :: "ptree \<Rightarrow> bool" where
  "regular (Leaf k c) = True"
| "regular (Inner k cs) =
     (cs \<noteq> [] \<and> (\<forall>c \<in> set cs. regular c) \<and>
      (k = ''and'' \<or> k = ''or'' \<or> (k = ''group'' \<or> k = ''not'') \<and> length cs = 1))"

lemma regular_and_node: "run \<noteq> [] \<Longrightarrow> regular (and_node run) \<longleftrightarrow> (\<forall>n \<in> set run. regular n)"
  by (auto simp: and_node_def split: list.splits)

lemma regular_combine:
  assumes "combine nodes = Some t" "\<And>n op. (n, op) \<in> set nodes \<Longrightarrow> regular n"
  shows "regular t"
  using assms(1)
proof (rule combine_cases)
  fix n op ns
  assume nodes: "nodes = (n, op) # ns"
    and t: "t = (case map and_node (or_runs [n] ns) of [d] \<Rightarrow> d | ds \<Rightarrow> Inner ''or'' ds)"
  have "regular d" if "d \<in> set (map and_node (or_runs [n] ns))" for d
    using that assms(2) nodes or_runs_elems [of _ "[n]" ns] or_runs_nonempty [of "[n]" _ ns]
    by (fastforce simp: regular_and_node)
  then show ?thesis by (auto simp: t split: list.splits)
qed

lemma regular_trees:
  "pt_cond c = Some t \<Longrightarrow> regular t"
  "(n, op) \<in> set (pt_conds cs) \<Longrightarrow> regular n"
  "(n, op) \<in> set (pt_group g) \<Longrightarrow> regular n"
  "(n, op) \<in> set (pt_groups gs) \<Longrightarrow> regular n"
proof (induction c and cs and g and gs arbitrary: t and n op and n op and n op
    rule: pt_cond_pt_conds_pt_group_pt_groups.induct)
  case (1 f nested q e)
  then show ?case by (auto split: option.splits intro: regular_combine)
next
  case (4 cs op' dummy isnot)
  then show ?case
    by (cases "combine (pt_conds cs)")
      (auto simp: Let_def explicit_group_def split: if_splits intro: regular_combine)
qed (auto split: option.splits)

lemma regular_predicateTree: "predicateTree gs = Some t \<Longrightarrow> regular t"
  by (auto simp: predicateTree_def intro: regular_combine dest: regular_trees(4))

text \<open>The inspection values of a leaf next to the values it binds.\<close>

definition shows_value :: "pvalue \<Rightarrow> goval \<Rightarrow> bool" where
  "shows_value v x \<longleftrightarrow> (isolation v = detached \<longrightarrow> pdata v = x)"

lemma Copy_same: "within c \<Longrightarrow> Copy c v = ((y, ok), c') \<Longrightarrow> y = v \<and> within c'"
  using Copy_spec by blast

lemma bind_args:
  assumes "within c" "fold (\<lambda>a st. bind_arg offset st a) args (out, c, vals) = (out', c', vals')"
  shows "vals' = vals @ args \<and> within c' \<and> kind out' = kind out \<and>
     parameters out' = parameters out @ map int [offset + length vals..<offset + length vals'] \<and>
     (\<exists>new. node_values out' = node_values out @ new \<and> list_all2 shows_value new args)"
  using assms
proof (induction args arbitrary: out c vals)
  case (Cons a args)
  obtain d ok c1 where 1: "Copy c a = ((d, ok), c1)" by (metis surj_pair)
  have d: "d = a" "within c1" using Copy_same [OF Cons.prems(1) 1] by auto
  obtain out1 where out1: "bind_arg offset (out, c, vals) a = (out1, c1, vals @ [a])"
      "parameters out1 = parameters out @ [int (offset + length vals)]" "kind out1 = kind out"
      "\<exists>v. node_values out1 = node_values out @ [v] \<and> shows_value v a"
    by (auto simp: bind_arg_def 1 d shows_value_def)
  have "fold (\<lambda>a st. bind_arg offset st a) args (out1, c1, vals @ [a]) = (out', c', vals')"
    using Cons.prems(2) out1(1) by simp
  note IH = Cons.IH [OF d(2) this]
  have "[offset + length vals..<offset + length vals'] =
      (offset + length vals) # [offset + length (vals @ [a])..<offset + length vals']"
    using IH by (simp add: upt_rec)
  with IH out1 show ?case by fastforce
qed simp

text \<open>A view that renders a tree from the position \<^term>\<open>i\<close> on: \<^term>\<open>new\<close> are the values it binds.\<close>

definition renders :: "nat \<Rightarrow> (gostring \<times> where_cond) list \<Rightarrow> tok list \<Rightarrow> gostring \<Rightarrow> node_info list \<Rightarrow> goval list \<Rightarrow> bool" where
  "renders i kcs toks t infos new \<longleftrightarrow>
     t = spell toks (map node_sql infos) \<and> atoms toks = map snd kcs \<and>
     map kind infos = map fst kcs \<and>
     concat (map parameters infos) = map int [i..<i + length new] \<and>
     list_all2 shows_value (concat (map node_values infos)) new"

lemma renders_append:
  assumes "renders i kcs toks t infos new" "renders (i + length new) kcs' toks' t' infos' new'"
  shows "renders i (kcs @ kcs') (toks @ toks') (t @ t') (infos @ infos') (new @ new')"
proof -
  have "length (atoms toks) = length (map node_sql infos)"
    using assms(1) by (metis renders_def length_map)
  then show ?thesis
    using assms spell_append [of toks "map node_sql infos" toks' "map node_sql infos'"]
      upt_add_eq_append [of i "i + length new" "length new'"]
    by (auto simp: renders_def list_all2_appendI add.assoc)
qed

lemma renders_token:
  "atoms [tk] = [] \<Longrightarrow> spell [tk] [] = w \<Longrightarrow> renders i kcs toks t infos new \<Longrightarrow>
     renders i kcs (tk # toks) (w @ t) infos new"
  by (cases tk) (auto simp: renders_def)

lemma renders_snoc_token:
  "atoms [tk] = [] \<Longrightarrow> spell [tk] [] = w \<Longrightarrow> renders i kcs toks t infos new \<Longrightarrow>
     renders i kcs (toks @ [tk]) (t @ w) infos new"
  using renders_append [of i kcs toks t infos new "[]" "[tk]" w "[]" "[]"]
  by (simp add: renders_def)


lemma with_sep_spread: "with_sep s (t # ts) = t @ concat (map (\<lambda>u. s # u) ts)"
  by (induction ts arbitrary: t) auto

definition kid_tokens :: "gostring \<Rightarrow> bool \<Rightarrow> ptree list \<Rightarrow> tok list" where
  "kid_tokens k first cs =
     (let sep = (if k = ''or'' then TOr else TAnd) in
      if first then with_sep sep (map tree_tokens cs) else concat (map (\<lambda>c. sep # tree_tokens c) cs))"

lemma kid_tokens_Cons:
  "kid_tokens k first (c # cs) =
     (if first then [] else [if k = ''or'' then TOr else TAnd]) @ tree_tokens c @ kid_tokens k False cs"
  by (simp add: kid_tokens_def Let_def with_sep_spread comp_def del: with_sep.simps)

lemma upper_and [simp]: "to_upper ''and'' = ''AND''"
  by code_simp

lemma upper_or [simp]: "to_upper ''or'' = ''OR''"
  by code_simp

lemma walk_renders:
  "within c \<Longrightarrow> regular tree \<Longrightarrow> walk render off tree (c, vals) s = Done t (n, c', vals') s' \<Longrightarrow>
     within c' \<and> node_sql (info n) = t \<and>
     (\<exists>new. vals' = vals @ new \<and>
        renders (off + length vals) (tree_leaves tree) (tree_tokens tree) t (leaves n) new)"
  "within c \<Longrightarrow> \<forall>x \<in> set cs. regular x \<Longrightarrow> k = ''and'' \<or> k = ''or'' \<or> first \<and> length cs \<le> 1 \<or> cs = [] \<Longrightarrow>
     walk_kids render off k first cs (c, vals) s = Done t (ns, c', vals') s' \<Longrightarrow>
     within c' \<and> length ns = length cs \<and>
     (\<exists>new. vals' = vals @ new \<and>
        renders (off + length vals) (concat (map tree_leaves cs)) (kid_tokens k first cs) t
          (leaves_of (map Some ns)) new)"
proof (induction render off tree "(c, vals)" and render off k first cs "(c, vals)"
    arbitrary: c vals s t n c' vals' s' and c vals s t ns c' vals' s' rule: walk_walk_kids.induct)
  case (1 render offset k cs)
  from "1.prems"(3) obtain ns t1 where kids: "walk_kids render offset k True cs (c, vals) s = Done t1 (ns, c', vals') s'"
    and t: "t = (if k = ''group'' then ''('' else if k = ''not'' then ''NOT '' else []) @ t1 @
        (if k = ''group'' then '')'' else [])"
    and n: "node_sql (info n) = t" "kids n = map Some ns"
    by (auto simp: andThen_Done with_text_Done before_Done split: prod.splits)
  have reg: "\<forall>x \<in> set cs. regular x" "cs \<noteq> []" and
    k: "k = ''and'' \<or> k = ''or'' \<or> (k = ''group'' \<or> k = ''not'') \<and> length cs = 1"
    using "1.prems"(2) by auto
  from "1.hyps" [OF "1.prems"(1) reg(1) _ kids] k obtain new where
    IH: "within c'" "length ns = length cs" "vals' = vals @ new"
      "renders (offset + length vals) (concat (map tree_leaves cs)) (kid_tokens k True cs) t1 (leaves_of (map Some ns)) new"
    by auto
  have lv: "leaves n = leaves_of (map Some ns)"
    using n(2) IH(2) reg(2) by (cases n) auto
  have "renders (offset + length vals) (tree_leaves (Inner k cs)) (tree_tokens (Inner k cs)) t (leaves_of (map Some ns)) new"
  proof (cases "k = ''group'' \<or> k = ''not''")
    case True
    then obtain x where "cs = [x]" using k reg(2) by (auto simp: length_Suc_conv)
    with True IH(4) show ?thesis
      using renders_token [of TOpen "''(''", OF _ _ renders_snoc_token [of TClose "'')''", OF _ _ IH(4)]]
        renders_token [of TNot "''NOT ''", OF _ _ IH(4)]
      by (auto simp: t kid_tokens_def Let_def)
  next
    case False
    with IH(4) show ?thesis by (simp add: t kid_tokens_def Let_def)
  qed
  with IH n lv show ?case by auto
next
  case (2 render offset k leaf)
  from "2.prems"(3) obtain bc where bc: "bound_columns_of (wf leaf) = Some bc"
    by (auto split: option.splits)
  from "2.prems"(3) bc obtain args t1 s1 t2 where r: "render leaf s = Done t1 args s1" and
    rest: "(case fold (\<lambda>a st. bind_arg offset st a) args (leaf_info k leaf bc, c, vals) of
        (out, st') \<Rightarrow> ret (Node (out\<lparr>node_sql := t1\<rparr>) [], st')) s1 = Done t2 (n, c', vals') s'" and
    t: "t = t1 @ t2"
    by (auto simp: andThen_Done with_text_Done)
  obtain out c2 v2 where f2: "fold (\<lambda>a st. bind_arg offset st a) args (leaf_info k leaf bc, c, vals) = (out, c2, v2)"
    by (metis surj_pair)
  with rest t have f: "fold (\<lambda>a st. bind_arg offset st a) args (leaf_info k leaf bc, c, vals) = (out, c', vals')"
    and n: "n = Node (out\<lparr>node_sql := t\<rparr>) []"
    by auto
  have li: "kind (leaf_info k leaf bc) = k" "parameters (leaf_info k leaf bc) = []" "node_values (leaf_info k leaf bc) = []"
    by (simp_all add: leaf_info_def blank_info_def Let_def)
  from bind_args [OF "2.prems"(1) f] show ?case
    by (auto simp: n renders_def li add.assoc)
next
  case (3 render offset k first)
  then show ?case
    by (auto simp: renders_def kid_tokens_def Let_def)
next
  case (4 render offset k first x cs)
  from "4.prems"(4) obtain t1 m c1 vals1 s1 t2 ns2 where
    hd: "walk render offset x (c, vals) s = Done t1 (m, c1, vals1) s1" and
    tl: "walk_kids render offset k False cs (c1, vals1) s1 = Done t2 (ns2, c', vals') s'" and
    t: "t = (if first then [] else '' '' @ to_upper k @ '' '') @ t1 @ t2" and
    ns: "ns = m # ns2"
    by (fastforce simp: andThen_Done before_Done)
  from "4.hyps"(1) [OF "4.prems"(1) _ hd] "4.prems"(2) obtain new1 where
    H: "within c1" "vals1 = vals @ new1"
      "renders (offset + length vals) (tree_leaves x) (tree_tokens x) t1 (leaves m) new1"
    by auto
  have "\<forall>x \<in> set cs. regular x" "k = ''and'' \<or> k = ''or'' \<or> False \<and> length cs \<le> 1 \<or> cs = []"
    using "4.prems"(2,3) by auto
  with "4.hyps"(2) [OF H(1) _ _ tl] obtain new2 where
    T: "within c'" "length ns2 = length cs" "vals' = vals1 @ new2"
      "renders (offset + length vals1) (concat (map tree_leaves cs)) (kid_tokens k False cs) t2 (leaves_of (map Some ns2)) new2"
    by auto
  have both: "renders (offset + length vals) (concat (map tree_leaves (x # cs))) (tree_tokens x @ kid_tokens k False cs)
      (t1 @ t2) (leaves_of (map Some ns)) (new1 @ new2)"
    using renders_append [OF H(3), of "concat (map tree_leaves cs)" "kid_tokens k False cs" t2] T(4)
    by (simp add: ns H(2) add.assoc)
  have "renders (offset + length vals) (concat (map tree_leaves (x # cs))) (kid_tokens k first (x # cs)) t
      (leaves_of (map Some ns)) (new1 @ new2)"
  proof (cases first)
    case True
    with both show ?thesis by (simp add: kid_tokens_Cons t)
  next
    case False
    then have "k = ''and'' \<or> k = ''or''" using "4.prems"(3) by auto
    with False both show ?thesis
      using renders_token [of TAnd "'' AND ''", OF _ _ both] renders_token [of TOr "'' OR ''", OF _ _ both]
      by (auto simp: kid_tokens_Cons t)
  qed
  with T H ns show ?case by auto
qed


section \<open>The leaf renderer's contract\<close>

text \<open>
  \<^term>\<open>paid ph step m\<close>: when \<^term>\<open>m\<close> returns, the placeholder state \<^term>\<open>ph\<close> reads has moved by one
  step for every value returned.
\<close>

definition paid :: "('s \<Rightarrow> 'p) \<Rightarrow> (nat \<Rightarrow> 'p \<Rightarrow> 'p) \<Rightarrow> ('s, goval list) renderer \<Rightarrow> bool" where
  "paid ph step m \<longleftrightarrow> (\<forall>s t vs s'. m s = Done t vs s' \<longrightarrow> ph s' = step (length vs) (ph s))"

lemma walk_paid:
  assumes step: "\<And>p. step 0 p = p" "\<And>m n p. step (m + n) p = step n (step m p)"
  shows "\<forall>kc \<in> set (tree_leaves tree). paid ph step (render (snd kc)) \<Longrightarrow> within c \<Longrightarrow>
      walk render off tree (c, vals) s = Done t (n, c', vals') s' \<Longrightarrow>
      within c' \<and> (\<exists>new. vals' = vals @ new \<and> ph s' = step (length new) (ph s))"
    and "\<forall>kc \<in> set (concat (map tree_leaves cs)). paid ph step (render (snd kc)) \<Longrightarrow> within c \<Longrightarrow>
      walk_kids render off k first cs (c, vals) s = Done t (ns, c', vals') s' \<Longrightarrow>
      within c' \<and> (\<exists>new. vals' = vals @ new \<and> ph s' = step (length new) (ph s))"
proof (induction render off tree "(c, vals)" and render off k first cs "(c, vals)"
    arbitrary: c vals s t n c' vals' s' and c vals s t ns c' vals' s' rule: walk_walk_kids.induct)
  case (1 render offset k cs)
  from "1.prems"(3) obtain ns t1 where kids: "walk_kids render offset k True cs (c, vals) s = Done t1 (ns, c', vals') s'"
    by (auto simp: andThen_Done with_text_Done before_Done split: prod.splits)
  with "1.hyps" [OF _ "1.prems"(2)] "1.prems"(1) show ?case by auto
next
  case (2 render offset k leaf)
  from "2.prems"(3) obtain bc where bc: "bound_columns_of (wf leaf) = Some bc"
    by (auto split: option.splits)
  from "2.prems"(3) bc obtain args t1 s1 t2 where r: "render leaf s = Done t1 args s1" and
    rest: "(case fold (\<lambda>a st. bind_arg offset st a) args (leaf_info k leaf bc, c, vals) of
        (out, st') \<Rightarrow> ret (Node (out\<lparr>node_sql := t1\<rparr>) [], st')) s1 = Done t2 (n, c', vals') s'"
    by (auto simp: andThen_Done with_text_Done)
  obtain out c2 v2 where f: "fold (\<lambda>a st. bind_arg offset st a) args (leaf_info k leaf bc, c, vals) = (out, c2, v2)"
    by (metis surj_pair)
  have "ph s1 = step (length args) (ph s)"
    using "2.prems"(1) r by (simp add: paid_def)
  with bind_args [OF "2.prems"(2) f] rest f show ?case by auto
next
  case (3 render offset k first)
  then show ?case by (auto simp: step)
next
  case (4 render offset k first x cs)
  from "4.prems"(3) obtain t1 m c1 vals1 s1 t2 ns2 where
    hd: "walk render offset x (c, vals) s = Done t1 (m, c1, vals1) s1" and
    tl: "walk_kids render offset k False cs (c1, vals1) s1 = Done t2 (ns2, c', vals') s'"
    by (fastforce simp: andThen_Done before_Done)
  from "4.hyps"(1) [OF _ "4.prems"(2) hd] "4.prems"(1) obtain new1 where
    H: "within c1" "vals1 = vals @ new1" "ph s1 = step (length new1) (ph s)"
    by auto
  from "4.hyps"(2) [OF _ H(1) tl] "4.prems"(1) obtain new2 where
    T: "within c'" "vals' = vals1 @ new2" "ph s' = step (length new2) (ph s1)"
    by auto
  from H T show ?case by (simp add: step(2))
qed

text \<open>
  \<^verbatim>\<open>LeafRenderer\<close> is the interface between the walk and the dialects.  What the dialects
  promise: on the conditions they accept, one placeholder is issued for every value returned.
\<close>

locale leaf_renderer =
  fixes render :: "where_cond \<Rightarrow> ('s, goval list) renderer"
    and ph :: "'s \<Rightarrow> 'p"
    and step :: "nat \<Rightarrow> 'p \<Rightarrow> 'p"
    and ok :: "where_cond \<Rightarrow> bool"
  assumes render_paid: "ok c \<Longrightarrow> paid ph step (render c)"
    and step_0: "step 0 p = p"
    and step_add: "step (m + n) p = step n (step m p)"
begin

lemma predicates_paid:
  assumes "\<And>tree kc. predicateTree groups = Some tree \<Longrightarrow> kc \<in> set (tree_leaves tree) \<Longrightarrow> ok (snd kc)"
    and "RenderPredicates render groups offset s = Done t (vs, view) s'"
  shows "ph s' = step (length vs) (ph s)"
proof (cases "predicateTree groups")
  case None
  with assms(2) show ?thesis
    by (auto simp: RenderPredicates_def PredicateTree_def step_0 split: option.splits)
next
  case (Some tree)
  with assms(2) obtain t1 n c' where
    "walk render offset tree (new_copier, []) s = Done t1 (n, c', vs) s'"
    by (auto simp: RenderPredicates_def PredicateTree_def andThen_Done before_Done split: option.splits prod.splits)
  then show ?thesis
    using walk_paid(1) [OF step_0 step_add _ within_new, of tree ph render] assms(1) [OF Some] render_paid
    by fastforce
qed

end

section \<open>Properties\<close>

text \<open>
  C13: The WHERE clause that is rendered is its condition tree spelled out, each leaf by the SQL the inspection view shows for it; the
  view's root shows the whole condition; its leaves have the tree's kinds; the parameter positions
  read off the leaves from left to right are those of the bound values, none missing, repeated or out of
  order, and every detached inspection value is the value bound at its position.
\<close>

theorem rendered_condition_matches_view:
  assumes "RenderPredicates render groups offset s = Done t (vals, Some view) s'"
  shows "\<exists>tree. predicateTree groups = Some tree \<and>
     t = '' WHERE '' @ spell (tree_tokens tree) (map node_sql (leaves view)) \<and>
     node_sql (info view) = drop 7 t \<and>
     map kind (leaves view) = map fst (tree_leaves tree) \<and>
     concat (map parameters (leaves view)) = map int [offset..<offset + length vals] \<and>
     list_all2 shows_value (concat (map node_values (leaves view))) vals"
proof -
  obtain tree t1 c' where tree: "predicateTree groups = Some tree" and
    w: "walk render offset tree (new_copier, []) s = Done t1 (view, c', vals) s'" and t: "t = '' WHERE '' @ t1"
    using assms
    by (auto simp: RenderPredicates_def PredicateTree_def andThen_Done before_Done split: option.splits prod.splits)
  from walk_renders(1) [OF within_new regular_predicateTree [OF tree] w] tree t show ?thesis
    by (auto simp: renders_def)
qed

definition no_subquery :: "query \<Rightarrow> ('s, goval list) renderer" where
  "no_subquery q = fail OutOfFuel"

theorem rendered_condition_matches_view_witness:
  "\<exists>view. RenderPredicates (BaseRenderLeaf postgres_utils no_subquery)
       [WhereGroup [sample_cond 0, sample_cond 1] 0 True False] 3 \<lparr>r_ph = 3, r_cols = []\<rparr> =
     Done '' WHERE \"id\" = $4 OR \"id\" = $5'' ([VInt 1, VInt 1], Some view) \<lparr>r_ph = 5, r_cols = []\<rparr> \<and>
     concat (map parameters (leaves view)) = [3, 4]"
proof -
  have esc: "AppendEscapedReference [] ''id'' dquote = ''\"id\"''"
    by code_simp
  have kind: "leafKind (sample_cond op) = ''comparison''" for op
    by (simp add: sample_cond_def sample_flat_def go_eval trim_left.simps trim_right_rev.simps)
  have nums: "nat_str 4 = ''4''" "nat_str 5 = ''5''"
    by code_simp+
  obtain view where v: "RenderPredicates (BaseRenderLeaf postgres_utils no_subquery)
       [WhereGroup [sample_cond 0, sample_cond 1] 0 True False] 3 \<lparr>r_ph = 3, r_cols = []\<rparr> =
     Done '' WHERE \"id\" = $4 OR \"id\" = $5'' ([VInt 1, VInt 1], Some view) \<lparr>r_ph = 5, r_cols = []\<rparr>"
    using kind esc nums
    by (simp add: RenderPredicates_def PredicateTree_def predicateTree_def sample_cond_def sample_flat_def
        check_list_def check_some_def MaxDepth_def combine_def and_node_def before_def andThen_def emit_def
        with_text_def ret_def BaseRenderLeaf_def ProcessRawCondition_def EscapeReference_def quote_of_def
        postgres_utils_def operand_def placeholder_def GetPlaceholder_def postgres_placeholder_def
        bound_values_def bound_columns_of_def leaf_info_def leaf_reason_def bind_arg_def Copy_def copy_val.simps)
  from rendered_condition_matches_view [OF v]
  have "concat (map parameters (leaves view)) = [3, 4]"
    by (auto simp: upt_rec)
  with v show ?thesis by blast
qed

end
