(* ===== verification/RenderQuery.thy ===== *)
theory RenderQuery
  imports RenderWhere
begin

text \<open>
  Rendering of whole statements (\<^verbatim>\<open>db/base/*_base.go\<close> and the dialects' \<^verbatim>\<open>Build\<close>):
  the SELECT list, joins, WHERE, GROUP BY and HAVING, ORDER BY, LIMIT, OFFSET, lock and UNION, and DELETE.
  \<^verbatim>\<open>Build\<close> calls itself on subqueries; it is defined with fuel, one unit for each level of
  subqueries, and \<^verbatim>\<open>ValidateQuery\<close> refuses more than 64.
\<close>

section \<open>The SELECT list\<close>

definition join_kinds :: "(gostring \<times> gostring) list" where
  [go_eval]: "join_kinds =
     [(''cross'', ''CROSS''), (''right'', ''RIGHT''), (''left'', ''LEFT''), (''inner'', ''INNER''),
      (''lateral'', ''LATERAL''), (''left_lateral'', ''LEFT LATERAL'')]"

text \<open>The join's type and target; a later kind of the list overrides an earlier one.\<close>

definition processJoin :: "(gostring \<times> gostring) list \<Rightarrow> gostring \<times> gostring" where
  [go_eval]: "processJoin m =
     (case fold (\<lambda>(k, ty) acc. case map_of m k of Some n \<Rightarrow> (ty, n) | None \<Rightarrow> acc) join_kinds ([], []) of
        (ty, n) \<Rightarrow> if n = [] then ([], []) else (ty, n))"

definition star_of :: "'p sql_utils \<Rightarrow> gostring \<Rightarrow> gostring" where
  [go_eval]: "star_of u name =
     AppendEscapedReference [] (RelationSelectReference name) (quote_of (u_dialect u)) @ ''.*''"

text \<open>Emit a name unless it was selected before; returns whether it was emitted.\<close>

definition select_once :: "bool \<Rightarrow> gostring \<Rightarrow> ('p rstate, bool) renderer" where
  [go_eval]: "select_once comma name s =
     (if name \<in> set (r_cols s) then Done [] False s
      else Done ((if comma then '', '' else []) @ name) True (s\<lparr>r_cols := r_cols s @ [name]\<rparr>))"

definition select_processJoin ::
  "'p sql_utils \<Rightarrow> (gostring \<times> gostring) list \<Rightarrow> gostring \<Rightarrow> gostring \<Rightarrow> nat \<Rightarrow> ('p rstate, unit) renderer" where
  [go_eval]: "select_processJoin u m joinName tableName idx =
     (let target = snd (processJoin m); name = (if joinName \<noteq> [] then joinName else tableName) in
      if target = [] then ret ()
      else andThen (select_once (idx > 0) (star_of u target))
        (\<lambda>outputed. andThen (select_once (idx > 0 \<or> outputed) (star_of u name)) (\<lambda>_. ret ())))"

fun select_joins :: "'p sql_utils \<Rightarrow> gostring \<Rightarrow> nat \<Rightarrow> join list \<Rightarrow> ('p rstate, unit) renderer" where
  "select_joins u tableName i [] = ret ()"
| "select_joins u tableName i (Join f q # js) =
     before (select_processJoin u (j_TargetNameMap f) (j_Name f) tableName i) (select_joins u tableName (i + 1) js)"

fun select_clauses :: "'p sql_utils \<Rightarrow> gostring \<Rightarrow> join_clause list \<Rightarrow> ('p rstate, unit) renderer" where
  "select_clauses u tableName [] = ret ()"
| "select_clauses u tableName (JoinClause os gs cs f q # js) =
     before (select_processJoin u (j_TargetNameMap f) (j_Name f) tableName 0) (select_clauses u tableName js)"

definition list_of :: "'a list option \<Rightarrow> 'a list" where
  [go_eval]: "list_of l = (case l of None \<Rightarrow> [] | Some xs \<Rightarrow> xs)"

definition name_or_star :: "'p sql_utils \<Rightarrow> select_column \<Rightarrow> ('s, unit) renderer" where
  [go_eval]: "name_or_star u c =
     (if sc_Name c \<noteq> [] then EscapeAliasedValue u (sc_Name c) else emit ''*'')"

definition expand_raw :: "'p sql_utils \<Rightarrow> gostring \<Rightarrow> nat \<Rightarrow> ('p rstate, unit) renderer" where
  [go_eval]: "expand_raw u raw n s =
     (case ExpandPositionalPlaceholders (u_next u) (r_ph s) raw n of
        Inl e \<Rightarrow> Fail (SqlFailure e) [] s
      | Inr (p, sql) \<Rightarrow> Done sql () (s\<lparr>r_ph := p\<rparr>))"

text \<open>One column; \<^term>\<open>i\<close> is its index, \<^term>\<open>n\<close> their number.\<close>

definition select_item :: "'p sql_utils \<Rightarrow> nat \<Rightarrow> nat \<Rightarrow> select_column \<Rightarrow> ('p rstate, goval list) renderer" where
  [go_eval]: "select_item u i n c =
     (let comma = emit (if i > 0 then '', '' else []);
          distinct = emit (if sc_Distinct c then ''DISTINCT '' else [])
      in if sc_Count c then
           before (emit ''COUNT('') (before distinct (before (name_or_star u c)
             (before (emit ('')'' @ (if i + 1 < n then '', '' else []))) (ret []))))
         else if sc_Function c \<noteq> [] then
           before comma (before (emit (sc_Function c @ ''('')) (before distinct (before (name_or_star u c)
             (before (emit '')'') (ret [])))))
         else if sc_Raw c \<noteq> [] then
           before comma (before (expand_raw u (sc_Raw c) (length (sc_Values c))) (ret (sc_Values c)))
         else if sc_Name c \<noteq> [] then
           before comma (before (EscapeAliasedValue u (sc_Name c)) (ret []))
         else ret [])"

text \<open>The columns; \<^term>\<open>seen\<close> says whether DISTINCT has been written.\<close>

fun select_columns :: "'p sql_utils \<Rightarrow> nat \<Rightarrow> nat \<Rightarrow> bool \<Rightarrow> select_column list \<Rightarrow> ('p rstate, goval list) renderer" where
  "select_columns u i n seen [] = ret []"
| "select_columns u i n seen (c # cs) =
     before (emit (if sc_Distinct c \<and> \<not> sc_Count c \<and> \<not> seen then ''DISTINCT '' else []))
       (andThen (select_item u i n c) (\<lambda>vs.
         andThen (select_columns u (i + 1) n (seen \<or> sc_Distinct c \<and> \<not> sc_Count c) cs) (\<lambda>ws. ret (vs @ ws))))"

definition Select :: "'p sql_utils \<Rightarrow> select_column list option \<Rightarrow> gostring \<Rightarrow> joins option \<Rightarrow> ('p rstate, goval list) renderer" where
  [go_eval]: "Select u columns tableName joins =
     (case columns of
        None \<Rightarrow> before (emit ''*'') (ret [])
      | Some cols \<Rightarrow>
          (case (cols, joins) of
             ([], Some (JoinSet jl jc ll)) \<Rightarrow>
               let sorted = list_of ll @ list_of jl; clauses = list_of jc in
               if sorted = [] \<and> clauses = [] then before (emit ''*'') (ret [])
               else before (select_joins u tableName 0 sorted)
                      (before (select_clauses u tableName clauses) (ret []))
           | ([], None) \<Rightarrow> before (emit ''*'') (ret [])
           | _ \<Rightarrow> select_columns u 0 (length cols) False cols))"

section \<open>Joins\<close>

definition getLogicalOperator :: "int \<Rightarrow> gostring" where
  [go_eval]: "getLogicalOperator op = (if op = 1 then '' OR '' else '' AND '')"

text \<open>The value of a join condition: nil, a string taken as a column, or something to bind.\<close>

datatype join_value = JNil | JColumn gostring | JBind

definition on_value :: "goval \<Rightarrow> join_value" where
  [go_eval]: "on_value v = (case v of VNil \<Rightarrow> JNil | VString t \<Rightarrow> JColumn t | _ \<Rightarrow> JBind)"

definition appendCondition ::
  "'p sql_utils \<Rightarrow> gostring \<Rightarrow> gostring \<Rightarrow> join_value \<Rightarrow> gostring \<Rightarrow> ('p rstate, unit) renderer" where
  [go_eval]: "appendCondition u col cond v op =
     before (emit op) (before (EscapeReference u col) (before (emit ('' '' @ cond))
       (case v of
          JNil \<Rightarrow> ret ()
        | JColumn t \<Rightarrow> before (emit '' '') (EscapeReference u t)
        | JBind \<Rightarrow> before (emit '' '') (placeholder u))))"

definition join_source :: "'p sql_utils \<Rightarrow> 'p sub_builder \<Rightarrow> query option \<Rightarrow> gostring \<Rightarrow> ('p rstate, goval list) renderer" where
  [go_eval]: "join_source u sub q target =
     (case q of
        Some sq \<Rightarrow> before (emit ''('') (andThen (ignoring_error [] (sub sq))
          (\<lambda>vs. before (emit '') as '') (before (EscapeReference u target) (ret vs))))
      | None \<Rightarrow> before (EscapeRelation u target) (ret []))"

fun on_conditions :: "'p sql_utils \<Rightarrow> nat \<Rightarrow> on_cond list \<Rightarrow> ('p rstate, unit) renderer" where
  "on_conditions u i [] = ret ()"
| "on_conditions u i (c # cs) =
     before (appendCondition u (on_Column c) (on_Condition c) (on_value (on_Value c))
               (if i > 0 then getLogicalOperator (on_Operator c) else []))
       (on_conditions u (i + 1) cs)"

fun join_conditions :: "'p sql_utils \<Rightarrow> nat \<Rightarrow> where_cond list \<Rightarrow> ('p rstate, goval list) renderer" where
  "join_conditions u i [] = ret []"
| "join_conditions u i (c # cs) =
     before (appendCondition u (w_Column (wf c)) (w_Condition (wf c)) JBind
               (if i > 0 then getLogicalOperator (w_Operator (wf c)) else []))
       (andThen (join_conditions u (i + 1) cs) (\<lambda>vs. ret (bound_values (wf c) @ vs)))"

definition appendJoinClause :: "'p sql_utils \<Rightarrow> 'p sub_builder \<Rightarrow> join_clause \<Rightarrow> ('p rstate, goval list) renderer" where
  [go_eval]: "appendJoinClause u sub jc =
     (case jc of JoinClause os gs cs f q \<Rightarrow>
      (case processJoin (j_TargetNameMap f) of (ty, target) \<Rightarrow>
        before (emit ('' '' @ ty @ '' JOIN ''))
          (andThen (join_source u sub q target) (\<lambda>vs.
            before (emit '' ON '')
              (case (os, cs) of
                 (Some ons, Some conds) \<Rightarrow>
                   before (on_conditions u 0 ons)
                     (andThen (join_conditions u (length ons) conds) (\<lambda>ws. ret (vs @ ws)))
               | (Some ons, None) \<Rightarrow> before (on_conditions u 0 ons) (fail Panic)
               | _ \<Rightarrow> fail Panic)))))"

definition has_kind :: "gostring \<Rightarrow> (gostring \<times> gostring) list \<Rightarrow> bool" where
  [go_eval]: "has_kind k m \<longleftrightarrow> map_of m k \<noteq> None"

definition appendSortedJoin :: "'p sql_utils \<Rightarrow> 'p sub_builder \<Rightarrow> join \<Rightarrow> ('p rstate, goval list) renderer" where
  [go_eval]: "appendSortedJoin u sub j =
     (case j of Join f q \<Rightarrow>
      (case processJoin (j_TargetNameMap f) of (ty, target) \<Rightarrow>
        let m = j_TargetNameMap f; lateral = has_kind ''lateral'' m \<or> has_kind ''left_lateral'' m in
        if ty = [] \<or> target = [] then ret []
        else before (emit (if lateral then '' ,'' @ ty else '' '' @ ty @ '' JOIN ''))
          (andThen (join_source u sub q target) (\<lambda>vs.
            if has_kind ''cross'' m \<or> lateral then ret vs
            else before (emit '' ON '') (before (EscapeReference u (j_SearchColumn f))
              (before (emit ('' '' @ j_SearchCondition f @ '' ''))
                (before (EscapeReference u (j_SearchTargetColumn f)) (ret vs))))))))"

definition RenderJoin :: "'p sql_utils \<Rightarrow> 'p sub_builder \<Rightarrow> joins option \<Rightarrow> ('p rstate, goval list) renderer" where
  [go_eval]: "RenderJoin u sub joins =
     (case joins of
        None \<Rightarrow> ret []
      | Some (JoinSet jl jc ll) \<Rightarrow>
          andThen (each (appendJoinClause u sub) (list_of jc)) (\<lambda>vs.
            case jl of
              None \<Rightarrow> ret vs
            | Some js \<Rightarrow> andThen (each (appendSortedJoin u sub) (list_of ll @ js)) (\<lambda>ws. ret (vs @ ws))))"

section \<open>GROUP BY, ORDER BY, LIMIT, OFFSET, lock, UNION\<close>

fun having_conditions :: "having list \<Rightarrow> where_cond list" where
  "having_conditions [] = []"
| "having_conditions (h # hs) =
     (if hv_Raw h \<noteq> [] then
        [Where \<lparr>w_LiteralColumn = False, w_Column = [], w_Condition = [], w_Value = None, w_ValueColumn = [],
           w_ValueMap = None, w_Operator = hv_Operator h, w_Between = None, w_FullText = None,
           w_JsonContains = None, w_JsonLength = None, w_Raw = hv_Raw h, w_Function = []\<rparr> None None None]
      else if hv_Column h = [] \<or> hv_Condition h = [] \<or> hv_Value h = VString [] then []
      else
        [Where \<lparr>w_LiteralColumn = False, w_Column = hv_Column h, w_Condition = hv_Condition h,
           w_Value = Some [hv_Value h], w_ValueColumn = [], w_ValueMap = None, w_Operator = hv_Operator h,
           w_Between = None, w_FullText = None, w_JsonContains = None, w_JsonLength = None, w_Raw = [],
           w_Function = []\<rparr> None None None])
     @ having_conditions hs"

definition HavingGroups :: "(gostring list \<times> having list option) option \<Rightarrow> where_group list" where
  [go_eval]: "HavingGroups g =
     (case g of
        Some (c # cs, Some hs) \<Rightarrow> [WhereGroup (having_conditions hs) 0 True False]
      | _ \<Rightarrow> [])"

text \<open>The clause is rendered as a WHERE and its first seven bytes replaced.\<close>

definition GroupBySnapshot ::
  "'p sql_utils \<Rightarrow> 'p sub_builder \<Rightarrow> (gostring list \<times> having list option) option \<Rightarrow> nat \<Rightarrow>
     ('p rstate, goval list \<times> pnode option) renderer" where
  [go_eval]: "GroupBySnapshot u sub g offset =
     (case g of
        Some (c # cs, hs) \<Rightarrow>
          before (emit '' GROUP BY '') (before (sep_each '', '' (EscapeReference u) (c # cs))
            (if hs = None then ret ([], None)
             else (\<lambda>s.
               case RenderPredicates (BaseRenderLeaf u sub) (HavingGroups g) offset s of
                 Fail e t s' \<Rightarrow> Fail e t s'
               | Done t (vals, None) s' \<Rightarrow> Done t (vals, None) s'
               | Done t (vals, Some view) s' \<Rightarrow> Done ('' HAVING '' @ drop 7 t) (vals, Some view) s')))
      | _ \<Rightarrow> ret ([], None))"

definition order_item :: "'p sql_utils \<Rightarrow> order_by \<Rightarrow> ('s, unit) renderer" where
  [go_eval]: "order_item u ob =
     (if ob_Raw ob \<noteq> [] then emit (ob_Raw ob)
      else if ob_Column ob = [] then ret ()
      else before (EscapeReference u (ob_Column ob)) (emit (if ob_IsAsc ob then '' ASC'' else '' DESC'')))"

definition OrderBy :: "'p sql_utils \<Rightarrow> order_by list option \<Rightarrow> ('s, unit) renderer" where
  [go_eval]: "OrderBy u ord =
     (case ord of
        None \<Rightarrow> ret ()
      | Some [] \<Rightarrow> ret ()
      | Some obs \<Rightarrow> before (emit '' ORDER BY '') (sep_each '', '' (order_item u) obs))"

definition Limit :: "bool \<times> int \<Rightarrow> ('s, unit) renderer" where
  [go_eval]: "Limit l = (if snd l = 0 \<and> \<not> fst l then ret () else emit ('' LIMIT '' @ int_str (snd l)))"

definition Offset :: "int \<Rightarrow> ('s, unit) renderer" where
  [go_eval]: "Offset n = (if n = 0 then ret () else emit ('' OFFSET '' @ int_str n))"

definition RenderLock :: "gostring option \<Rightarrow> ('s, unit) renderer" where
  [go_eval]: "RenderLock l = (case l of None \<Rightarrow> ret () | Some t \<Rightarrow> if t = [] then ret () else emit ('' '' @ t))"

definition Union :: "(query \<times> bool) list option \<Rightarrow> nat \<Rightarrow> ('s, unit) renderer" where
  [go_eval]: "Union us number =
     (case us of
        None \<Rightarrow> ret ()
      | Some l \<Rightarrow>
          if number \<ge> length l then fail Panic
          else if number + 1 < length l then emit (if snd (l ! number) then '' UNION ALL '' else '' UNION '')
          else ret ())"

definition From :: "'p sql_utils \<Rightarrow> gostring \<Rightarrow> ('s, unit) renderer" where
  [go_eval]: "From u t = before (emit ''FROM '') (EscapeRelation u t)"

section \<open>Build\<close>

text \<open>A subquery is built by a new builder: the same placeholders, no columns selected yet.\<close>

definition in_subquery :: "('p rstate, 'a) renderer \<Rightarrow> ('p rstate, 'a) renderer" where
  [go_eval]: "in_subquery m s =
     (case m (s\<lparr>r_cols := []\<rparr>) of
        Fail e t s' \<Rightarrow> Fail e t (s'\<lparr>r_cols := r_cols s\<rparr>)
      | Done t a s' \<Rightarrow> Done t a (s'\<lparr>r_cols := r_cols s\<rparr>))"

text \<open>
  Where MySQL's \<^verbatim>\<open>Build\<close> guards a clause: the joins are rendered only when there is a
  list of join clauses; nil pointers it dereferences panic.
\<close>

definition mysql_joins :: "'p sql_utils \<Rightarrow> 'p sub_builder \<Rightarrow> joins option \<Rightarrow> ('p rstate, goval list) renderer" where
  [go_eval]: "mysql_joins u sub joins =
     (case joins of
        None \<Rightarrow> fail Panic
      | Some (JoinSet jl None ll) \<Rightarrow> ret []
      | Some (JoinSet jl (Some jc) ll) \<Rightarrow>
          if jc \<noteq> [] then RenderJoin u sub joins
          else (case ll of
             None \<Rightarrow> fail Panic
           | Some lats \<Rightarrow>
               if lats \<noteq> [] then RenderJoin u sub joins
               else (case jl of None \<Rightarrow> fail Panic | Some js \<Rightarrow> if js \<noteq> [] then RenderJoin u sub joins else ret [])))"

definition build_joins :: "'p sql_utils \<Rightarrow> 'p sub_builder \<Rightarrow> joins option \<Rightarrow> ('p rstate, goval list) renderer" where
  [go_eval]: "build_joins u sub joins =
     (if u_dialect u = DialectMySQL then mysql_joins u sub joins else RenderJoin u sub joins)"

definition build_tail :: "'p sql_utils \<Rightarrow> query_flat \<Rightarrow> (query \<times> bool) list option \<Rightarrow> nat \<Rightarrow> ('p rstate, unit) renderer" where
  [go_eval]: "build_tail u f us number =
     before (if u_dialect u = DialectMySQL \<and> q_Order f = None then fail Panic else OrderBy u (q_Order f))
       (before (if u_dialect u = DialectMySQL \<and> \<not> (snd (q_Limit f) > 0 \<or> fst (q_Limit f)) then ret () else Limit (q_Limit f))
       (before (if u_dialect u = DialectMySQL \<and> \<not> q_Offset f > 0 then ret () else Offset (q_Offset f))
       (before (RenderLock (q_Lock f))
         (if u_dialect u = DialectMySQL \<and> us = Some [] then ret () else Union us number))))"

primrec Build ::
  "nat \<Rightarrow> 'p sql_utils \<Rightarrow> (goval \<Rightarrow> gostring) \<Rightarrow> query \<Rightarrow> nat \<Rightarrow> (query \<times> bool) list option \<Rightarrow>
     ('p rstate, goval list \<times> pnode option \<times> pnode option) renderer" where
  "Build 0 u json q number us = fail OutOfFuel"
| "Build (Suc fuel) u json q number us =
     (case validateQuery q 0 of
        Some e \<Rightarrow> fail (PredicateFailure e)
      | None \<Rightarrow>
         (case q of Query f qus js gs cs \<Rightarrow>
          let sub = (\<lambda>sq. in_subquery (andThen (Build fuel u json sq 0 None) (\<lambda>r. ret (fst r)))) in
          before (emit ''SELECT '') (andThen (Select u (q_Columns f) (q_Table f) js) (\<lambda>colValues.
            before (emit '' '') (before (From u (q_Table f)) (andThen (build_joins u sub js) (\<lambda>joinValues.
              andThen (RenderPredicates (RenderLeaf u json sub) gs (length (colValues @ joinValues))) (\<lambda>(whereValues, tree).
                andThen (GroupBySnapshot u sub (q_Group f) (length (colValues @ joinValues @ whereValues))) (\<lambda>(groupValues, htree).
                  before (build_tail u f us number)
                    (ret (colValues @ joinValues @ whereValues @ groupValues, tree, htree)))))))))))"

text \<open>More than the 64 levels of subqueries validation lets through.\<close>

definition build_fuel :: nat where
  [go_eval]: "build_fuel = 66"

definition sub_builder :: "'p sql_utils \<Rightarrow> (goval \<Rightarrow> gostring) \<Rightarrow> nat \<Rightarrow> 'p sub_builder" where
  [go_eval]: "sub_builder u json fuel =
     (\<lambda>sq. in_subquery (andThen (Build fuel u json sq 0 None) (\<lambda>r. ret (fst r))))"

text \<open>\<^verbatim>\<open>BuildDelete\<close>: the values of the joins are dropped.\<close>

definition BuildDelete :: "'p sql_utils \<Rightarrow> (goval \<Rightarrow> gostring) \<Rightarrow> gostring \<Rightarrow> query \<Rightarrow> ('p rstate, goval list \<times> pnode option) renderer" where
  [go_eval]: "BuildDelete u json table q =
     (case validateQuery q 0 of
        Some e \<Rightarrow> fail (PredicateFailure e)
      | None \<Rightarrow>
         (case q of Query f qus js gs cs \<Rightarrow>
          let sub = sub_builder u json build_fuel;
              joined = (case js of
                 Some (JoinSet (Some jl) jc ll) \<Rightarrow> jl \<noteq> [] \<or> list_of jc \<noteq> []
               | _ \<Rightarrow> False)
          in before (emit ''DELETE'')
            (before (if joined then before (emit '' '') (EscapeReference u (RelationSelectReference table)) else ret ())
            (before (emit '' FROM '') (before (EscapeRelation u table)
              (andThen (RenderJoin u sub js) (\<lambda>_.
                andThen (RenderPredicates (BaseRenderLeaf u sub) gs 0) (\<lambda>(vals, tree).
                  before (if q_Order f = None then fail Panic else OrderBy u (q_Order f))
                    (ret (vals, tree))))))))))"

section \<open>Placeholders and values of a statement\<close>

lemma issuesD: "issues u n m \<Longrightarrow> m s = Done t a s' \<Longrightarrow> r_ph s' = issued u (n a) (r_ph s)"
  by (simp add: issues_def)

lemma issuesI: "(\<And>s t a s'. m s = Done t a s' \<Longrightarrow> r_ph s' = issued u (n a) (r_ph s)) \<Longrightarrow> issues u n m"
  by (simp add: issues_def)

lemma paid_issues: "paid r_ph (issued u) m \<longleftrightarrow> balanced u m"
  by (simp add: paid_def issues_def)

text \<open>
  \<^term>\<open>owes u k m\<close>: after \<^term>\<open>k\<close> placeholders were issued, \<^term>\<open>m\<close> issues the rest of
  those its values need.
\<close>

definition owes :: "'p sql_utils \<Rightarrow> nat \<Rightarrow> ('p rstate, goval list) renderer \<Rightarrow> bool" where
  "owes u k m \<longleftrightarrow> (\<forall>s t vs s'. m s = Done t vs s' \<longrightarrow>
     (\<exists>j. length vs = k + j \<and> r_ph s' = issued u j (r_ph s)))"

lemma owes_0: "owes u 0 m \<longleftrightarrow> balanced u m"
  by (simp add: owes_def issues_def)

lemma owes_ret: "length vs = k \<Longrightarrow> owes u k (ret vs)"
  by (simp add: owes_def)

lemma owes_fail: "owes u k (fail e)"
  by (simp add: owes_def)

lemma owes_before:
  assumes "issues u (\<lambda>_. j) a" "owes u (k + j) m"
  shows "owes u k (before a m)"
  unfolding owes_def
proof (intro allI impI)
  fix s t vs s'
  assume "before a m s = Done t vs s'"
  then obtain t1 s1 t2 where 1: "a s = Done t1 () s1" and 2: "m s1 = Done t2 vs s'"
    by (auto simp: before_Done)
  from assms(2) 2 obtain i where "length vs = k + j + i" "r_ph s' = issued u i (r_ph s1)"
    unfolding owes_def by blast
  with issuesD [OF assms(1) 1] show "\<exists>i. length vs = k + i \<and> r_ph s' = issued u i (r_ph s)"
    by (intro exI [of _ "j + i"]) (simp add: issued_add)
qed

lemma owes_andThen:
  assumes "balanced u m" "\<And>vs. owes u (k + length vs) (f vs)"
  shows "owes u k (andThen m f)"
  unfolding owes_def
proof (intro allI impI)
  fix s t vs s'
  assume "andThen m f s = Done t vs s'"
  then obtain t1 ws s1 t2 where 1: "m s = Done t1 ws s1" and 2: "f ws s1 = Done t2 vs s'"
    by (auto simp: andThen_Done)
  from assms(2) [of ws] 2 obtain i where "length vs = k + length ws + i" "r_ph s' = issued u i (r_ph s1)"
    unfolding owes_def by blast
  with issuesD [OF assms(1) 1] show "\<exists>i. length vs = k + i \<and> r_ph s' = issued u i (r_ph s)"
    by (intro exI [of _ "length ws + i"]) (simp add: issued_add)
qed

lemmas owes_steps = owes_before [OF issues_emit] owes_before [OF issues_placeholder]
  owes_before [OF issues_escape(1)] owes_before [OF issues_escape(2)] owes_before [OF issues_escape(3)]
  owes_before [OF issues_escape(4)]

lemma issues_sep_each:
  "(\<And>x. x \<in> set xs \<Longrightarrow> issues u (\<lambda>_. k) (f x)) \<Longrightarrow> issues u (\<lambda>_. k * length xs) (sep_each sep f xs)"
proof (induction sep f xs rule: sep_each.induct)
  case (3 sep f x y xs)
  have "issues u (\<lambda>_. k) (f x)" "issues u (\<lambda>_. k * length (y # xs)) (sep_each sep f (y # xs))"
    using 3 by auto
  then show ?case by (auto simp: issues_def before_Done issued_add)
qed (auto simp: issues_ret)

lemma issues_operand:
  assumes "w_ValueColumn f \<noteq> [] \<Longrightarrow> bound_values f = []"
    and "w_Value f = Some [] \<Longrightarrow> w_Condition f = ''IN'' \<or> w_Condition f = ''NOT IN''"
  shows "issues u (\<lambda>_. length (bound_values f)) (operand u f)"
proof (cases "w_ValueColumn f = [] \<and> w_Value f \<noteq> None")
  case False
  then show ?thesis
    using assms(1) by (auto simp: operand_def bound_values_def issues_ret issues_before_0 issues_emit issues_escape split: option.splits)
next
  case True
  then obtain vs where vs: "w_Value f = Some vs" by auto
  have slots: "issues u (\<lambda>_. length vs) (sep_each '', '' (\<lambda>_. placeholder u) vs)"
    using issues_sep_each [of vs u 1 "\<lambda>_. placeholder u" "'', ''", OF issues_placeholder] by simp
  have many: "issues u (\<lambda>_. length vs) (before (emit '' ('') (before (sep_each '', '' (\<lambda>_. placeholder u) vs) (emit '')'')))"
    using slots by (auto simp: issues_def before_Done)
  have one: "issues u (\<lambda>_. 1) (before (emit '' '') (placeholder u))"
    by (rule issues_before_0 [OF issues_emit issues_placeholder])
  show ?thesis
  proof (cases "w_Condition f = ''IN'' \<or> w_Condition f = ''NOT IN'' \<or> length vs > 1")
    case True
    then show ?thesis using many vs \<open>w_ValueColumn f = [] \<and> _\<close> by (auto simp: operand_def bound_values_def)
  next
    case False
    then have "length vs = 1" using assms(2) vs by (cases vs) auto
    with False show ?thesis using one vs \<open>w_ValueColumn f = [] \<and> _\<close>
      by (auto simp: operand_def bound_values_def)
  qed
qed

text \<open>Named placeholders: each one that is expanded is issued and binds a value.\<close>

lemma named_cb_cases:
  "named_cb nextp vals (p, bound) prev c cs = Inr (st', r) \<Longrightarrow>
     r = None \<and> st' = (p, bound) \<or> (\<exists>v t k. r = Some (t, k) \<and> st' = (fst (nextp p), bound @ [v]))"
  by (auto simp: named_cb_def Let_def split: if_splits option.splits prod.splits)

lemma transformSQL_relates:
  assumes step: "\<And>st prev c cs st' r. cb st prev c cs = Inr (st', r) \<Longrightarrow> R st st'"
    and same: "\<And>st. R st st" and trans: "\<And>a b c. R a b \<Longrightarrow> R b c \<Longrightarrow> R a c"
    and run: "transformSQL cb st prev sql = Inr (st', out)"
  shows "R st st'"
proof -
  have "\<forall>st prev c cs st' r. cb st prev c cs = Inr (st', r) \<longrightarrow> R st st'"
    using step by blast
  with run show ?thesis
  proof (induction cb st prev sql arbitrary: st' out rule: transformSQL.induct)
  case (1 cb st prev)
  then show ?case using same by simp
next
  case (2 cb st prev c cs)
  obtain st1 r where cb: "cb st prev c cs = Inr (st1, r)"
    using "2.prems"(1) by (cases "cb st prev c cs") auto
  have one: "R st st1" using "2.prems"(2) cb by blast
  show ?case
  proof (cases r)
    case None
    show ?thesis
    proof (cases "literal_span c cs")
      case none: None
      then obtain out' where "transformSQL cb st1 (Some c) cs = Inr (st', out')"
        using "2.prems"(1) by (auto simp: cb None split: sum.splits prod.splits)
      from "2.IH"(1) [OF cb refl None none this "2.prems"(2)] one trans show ?thesis by blast
    next
      case (Some tr)
      then obtain t rest out' where tr: "tr = (t, rest)" "transformSQL cb st1 (Some (last t)) rest = Inr (st', out')"
        using "2.prems"(1) by (cases tr) (auto simp: cb None split: sum.splits prod.splits)
      from "2.IH"(2) [OF cb refl None Some tr(1) [symmetric] tr(2) "2.prems"(2)] one trans show ?thesis by blast
    qed
  next
    case (Some tk)
    then obtain t k out' where tk: "tk = (t, k)"
      "transformSQL cb st1 (Some (last (c # take k cs))) (drop k cs) = Inr (st', out')"
      using "2.prems"(1) by (cases tk) (auto simp: cb split: sum.splits prod.splits)
    from "2.IH"(3) [OF cb refl Some tk(1) [symmetric] tk(2) "2.prems"(2)] one trans show ?thesis by blast
  qed
qed
qed

lemma issued_Cons: "issued u n (fst (u_next u p)) = issued u (Suc n) p"
  using issued_add [of u 1 n p] by (simp add: issued_1)

lemma named_cb_issues:
  fixes p p' :: 'p
  assumes "transformSQL (named_cb (u_next u) vals) (p, bound) prev sql = Inr ((p', bound'), out)"
  shows "\<exists>new. bound' = bound @ new \<and> p' = issued u (length new) p"
proof -
  define R :: "'p \<times> goval list \<Rightarrow> 'p \<times> goval list \<Rightarrow> bool" where
    "R a b \<longleftrightarrow> (\<exists>new. snd b = snd a @ new \<and> fst b = issued u (length new) (fst a))" for a b
  have "R (p, bound) (p', bound')"
  proof (rule transformSQL_relates [where R = R, OF _ _ _ assms])
    fix st prev c cs st' r
    assume "named_cb (u_next u) vals st prev c cs = Inr (st', r)"
    then show "R st st'"
      using named_cb_cases [of "u_next u" vals "fst st" "snd st" prev c cs st' r]
      by (auto simp: R_def issued_1)
  next
    fix a b c assume "R a b" "R b c"
    then show "R a c" by (fastforce simp: R_def issued_add [symmetric])
  qed (simp add: R_def)
  then show ?thesis by (simp add: R_def)
qed

lemma positional_cb_issues:
  fixes p p' :: 'p
  assumes "transformSQL (positional_cb (u_next u)) (p, k) prev sql = Inr ((p', k'), out)"
  shows "k \<le> k' \<and> p' = issued u (k' - k) p"
proof -
  define R :: "'p \<times> nat \<Rightarrow> 'p \<times> nat \<Rightarrow> bool" where
    "R a b \<longleftrightarrow> (\<exists>n. snd b = snd a + n \<and> fst b = issued u n (fst a))" for a b
  have "R (p, k) (p', k')"
  proof (rule transformSQL_relates [where R = R, OF _ _ _ assms])
    fix st prev c cs st' r
    assume "positional_cb (u_next u) st prev c cs = Inr (st', r)"
    then show "R st st'"
      by (auto simp: R_def positional_cb_def issued_1 split: if_splits prod.splits intro!: exI [of _ 0] exI [of _ "Suc 0"])
  next
    fix a b c assume "R a b" "R b c"
    then show "R a c" by (fastforce simp: R_def issued_add [symmetric])
  qed (simp add: R_def)
  then show ?thesis by (auto simp: R_def)
qed

section \<open>Leaves bind what they ask for\<close>

text \<open>
  The conditions whose values match the placeholders they are written with: a comparison with a column carries no
  values; an empty value list only goes with IN; a raw condition binds by name.
\<close>

definition plain_ok :: "where_flat \<Rightarrow> bool" where
  "plain_ok f \<longleftrightarrow> (w_ValueColumn f \<noteq> [] \<longrightarrow> bound_values f = []) \<and>
     (w_Value f = Some [] \<longrightarrow> w_Condition f = ''IN'' \<or> w_Condition f = ''NOT IN'')"

definition bindable :: "where_flat \<Rightarrow> bool" where
  "bindable f \<longleftrightarrow>
     (w_FullText f \<noteq> None \<longrightarrow> bound_values f = []) \<and>
     (w_Between f = None \<and> w_FullText f = None \<longrightarrow>
       (if w_Function f \<noteq> [] then plain_ok f
        else if w_LiteralColumn f then length (bound_values f) = 1
        else if w_Raw f \<noteq> [] then w_ValueMap f = None \<longrightarrow> bound_values f = []
        else plain_ok f))"

lemma operand_ok: "plain_ok f \<Longrightarrow> issues u (\<lambda>_. length (bound_values f)) (operand u f)"
  by (rule issues_operand) (auto simp: plain_ok_def)

lemmas owes_operand = owes_before [OF operand_ok]

lemma balanced_function: "plain_ok f \<Longrightarrow> balanced u (ProcessFunction u f)"
  unfolding ProcessFunction_def owes_0 [symmetric]
  by (intro owes_steps owes_operand owes_ret) simp_all

lemma balanced_named:
  "balanced u (\<lambda>s. case ExpandNamedPlaceholders (u_next u) (r_ph s) raw (map_of m) (m = []) of
      Inl e \<Rightarrow> Fail (SqlFailure e) [] s
    | Inr (p, sql, vals) \<Rightarrow> Done sql vals (s\<lparr>r_ph := p\<rparr>))"
  by (auto simp: issues_def ExpandNamedPlaceholders_def split: if_splits sum.splits prod.splits
      dest!: named_cb_issues)

lemma balanced_raw:
  assumes "if w_LiteralColumn f then length (bound_values f) = 1
    else if w_Raw f \<noteq> [] then w_ValueMap f = None \<longrightarrow> bound_values f = [] else plain_ok f"
  shows "balanced u (ProcessRawCondition u f)"
proof -
  consider (literal) "w_LiteralColumn f" | (named) m where "\<not> w_LiteralColumn f" "w_Raw f \<noteq> []" "w_ValueMap f = Some m"
    | (raw) "\<not> w_LiteralColumn f" "w_Raw f \<noteq> []" "w_ValueMap f = None"
    | (plain) "\<not> w_LiteralColumn f" "w_Raw f = []"
    by (cases "w_ValueMap f") auto
  then show ?thesis
  proof cases
    case literal
    then show ?thesis
      using assms unfolding owes_0 [symmetric] by (auto simp: ProcessRawCondition_def intro!: owes_steps owes_ret)
  next
    case (named m)
    then show ?thesis using balanced_named [of u "w_Raw f" m] by (simp add: ProcessRawCondition_def)
  next
    case raw
    then show ?thesis
      using assms unfolding owes_0 [symmetric] by (auto simp: ProcessRawCondition_def intro!: owes_steps owes_ret)
  next
    case plain
    then have ok: "plain_ok f" using assms by simp
    show ?thesis
      using plain unfolding owes_0 [symmetric]
      by (auto simp: ProcessRawCondition_def intro!: owes_steps owes_operand [OF ok] owes_ret)
  qed
qed

lemma balanced_between: "balanced u (ProcessBetweenCondition u f bt)"
  unfolding owes_0 [symmetric] ProcessBetweenCondition_def
  by (auto split: goval.splits prod.splits intro!: owes_steps owes_ret owes_fail)

lemma balanced_sub: "balanced u (sub q) \<Longrightarrow> balanced u (ProcessSubQuery u sub f q)"
  unfolding owes_0 [symmetric] ProcessSubQuery_def
  by (intro owes_steps owes_andThen owes_ret) (simp_all add: owes_0)

lemma balanced_exists: "balanced u (sub q) \<Longrightarrow> balanced u (ProcessExistsQuery sub f q)"
  unfolding owes_0 [symmetric] ProcessExistsQuery_def
  by (intro owes_steps owes_andThen owes_ret) (simp_all add: owes_0)

definition subqueries_of :: "where_cond \<Rightarrow> query list" where
  "subqueries_of c = (case SubQuery c of None \<Rightarrow> [] | Some q \<Rightarrow> [q]) @ (case Exists c of None \<Rightarrow> [] | Some (b, q) \<Rightarrow> [q])"

lemma balanced_base_leaf:
  assumes "bindable (wf c)" "\<And>q. q \<in> set (subqueries_of c) \<Longrightarrow> balanced u (sub q)"
  shows "balanced u (BaseRenderLeaf u sub c)"
  using assms
  by (auto simp: BaseRenderLeaf_def Let_def bindable_def subqueries_of_def issues_fail
      intro!: balanced_sub balanced_exists balanced_between balanced_function balanced_raw
      split: option.splits prod.splits)

lemma issues_unit_before: "issues u (\<lambda>_. j) a \<Longrightarrow> issues u (\<lambda>_. k) b \<Longrightarrow> issues u (\<lambda>_. j + k) (before a b)"
  using issues_before [of u "\<lambda>_. j" a "\<lambda>_. k" b] by simp

lemma issues_sep_escape: "issues u (\<lambda>_. 0) (sep_each sep (EscapeReference u') xs)"
  using issues_sep_each [of xs u 0 "EscapeReference u'" sep, OF issues_escape(2)] by simp

lemma issues_json_path: "issues u (\<lambda>_. 0) (BuildJsonPathSQL u' field path)"
  unfolding BuildJsonPathSQL_def by (intro issues_before_0 issues_emit issues_escape)

lemma issues_tsvector:
  "issues u (\<lambda>_. length cols) (sep_each sep (\<lambda>col. before (emit ''to_tsvector('') (before (placeholder u)
     (before (emit '', '') (before (EscapeReference u col) (emit '')''))))) cols)"
proof -
  have "issues u (\<lambda>_. 0 + (1 + (0 + (0 + 0)))) (before (emit ''to_tsvector('') (before (placeholder u)
     (before (emit '', '') (before (EscapeReference u col) (emit '')'')))))" for col
    by (intro issues_unit_before issues_emit issues_placeholder issues_escape)
  then show ?thesis
    using issues_sep_each [of cols u 1] by simp
qed

lemma balanced_mysql_fulltext: "bound_values f = [] \<Longrightarrow> balanced u (MySQLProcessFullText u f ft)"
  unfolding owes_0 [symmetric] MySQLProcessFullText_def
  by (auto simp: Let_def split: sum.splits
      intro!: owes_fail owes_steps owes_before [OF issues_sep_escape] owes_ret)

lemma balanced_mysql_json:
  "balanced u (MySQLProcessJsonContains u json f vals)" "balanced u (MySQLProcessJsonLength u f jl)"
  unfolding owes_0 [symmetric] MySQLProcessJsonContains_def MySQLProcessJsonLength_def
  by (auto split: prod.splits intro!: owes_steps owes_ret)

lemma balanced_postgres_fulltext: "balanced u (PostgresProcessFullText u ft)"
  unfolding owes_0 [symmetric] PostgresProcessFullText_def
  by (auto simp: Let_def split: sum.splits
      intro!: owes_fail owes_steps owes_before [OF issues_tsvector] owes_ret)

lemma balanced_postgres_json:
  "balanced u (PostgresProcessJsonContains u json f vals)" "balanced u (PostgresProcessJsonLength u f jl)"
  unfolding owes_0 [symmetric] PostgresProcessJsonContains_def PostgresProcessJsonLength_def
  by (auto split: prod.splits intro!: owes_steps owes_before [OF issues_json_path] owes_ret)

lemma balanced_leaf:
  assumes "bindable (wf c)" "\<And>q. q \<in> set (subqueries_of c) \<Longrightarrow> balanced u (sub q)"
  shows "balanced u (RenderLeaf u json sub c)"
  using balanced_base_leaf [OF assms] assms(1)
  by (auto simp: RenderLeaf_def MySQLRenderLeaf_def PostgresRenderLeaf_def Let_def bindable_def
      balanced_mysql_fulltext balanced_mysql_json balanced_postgres_fulltext balanced_postgres_json
      split: option.splits dialect.splits)

section \<open>The other clauses\<close>

lemma issues_select_once: "issues u (\<lambda>_. 0) (select_once comma name)"
  by (auto simp: issues_def select_once_def split: if_splits)

lemma issues_unit_andThen:
  "issues u (\<lambda>_. 0) m \<Longrightarrow> (\<And>a. issues u (\<lambda>_. 0) (f a)) \<Longrightarrow> issues u (\<lambda>_. 0) (andThen m f)"
  by (rule issues_andThen [of u "\<lambda>_. 0"]) auto

lemma issues_select_processJoin: "issues u (\<lambda>_. 0) (select_processJoin u m jn tn i)"
  by (auto simp: select_processJoin_def Let_def intro!: issues_ret issues_unit_andThen issues_select_once)

lemma issues_select_joins: "issues u (\<lambda>_. 0) (select_joins u tn i js)"
proof (induction js arbitrary: i)
  case (Cons j js)
  then show ?case
    by (cases j) (auto intro!: issues_before_0 issues_select_processJoin)
qed (simp add: issues_ret)

lemma issues_select_clauses: "issues u (\<lambda>_. 0) (select_clauses u tn js)"
proof (induction js)
  case (Cons j js)
  then show ?case
    by (cases j) (auto intro!: issues_before_0 issues_select_processJoin)
qed (simp add: issues_ret)

lemma issues_name_or_star: "issues u (\<lambda>_. 0) (name_or_star u c)"
  by (simp add: name_or_star_def issues_emit issues_escape)

lemma issues_expand_raw: "issues u (\<lambda>_. n) (expand_raw u raw n)"
  by (auto simp: issues_def expand_raw_def ExpandPositionalPlaceholders_def split: if_splits sum.splits prod.splits
      dest!: positional_cb_issues)

lemma owes_select_item: "owes u 0 (select_item u i n c)"
  unfolding select_item_def Let_def
  by (auto intro!: owes_steps owes_before [OF issues_name_or_star] owes_before [OF issues_expand_raw] owes_ret)

lemma owes_append:
  "balanced u m \<Longrightarrow> (\<And>vs. balanced u (f vs)) \<Longrightarrow> owes u 0 (andThen m (\<lambda>vs. andThen (f vs) (\<lambda>ws. ret (vs @ ws))))"
  by (intro owes_andThen owes_ret) auto

lemma balanced_select_columns: "balanced u (select_columns u i n seen cs)"
proof (induction u i n seen cs rule: select_columns.induct)
  case (2 u i n seen c cs)
  have "balanced u (select_item u i n c)" using owes_select_item by (simp add: owes_0)
  from owes_append [OF this 2] show ?case
    unfolding select_columns.simps owes_0 [symmetric]
    by (rule owes_before [OF issues_emit, where k = 0, simplified])
qed (simp add: issues_ret)

lemma balanced_Select:
  fixes u :: "'p sql_utils"
  shows "balanced u (Select u columns tn js)"
proof -
  have joins: "balanced u (before (select_joins u tn i l) (before (select_clauses u tn jc)
      (ret [] :: ('p rstate, goval list) renderer)))" for i l jc
    unfolding owes_0 [symmetric]
    by (intro owes_before [OF issues_select_joins] owes_before [OF issues_select_clauses] owes_ret) simp
  have star: "balanced u (before (emit ''*'') (ret [] :: ('p rstate, goval list) renderer))"
    unfolding owes_0 [symmetric] by (intro owes_steps owes_ret) simp
  show ?thesis
    using joins star balanced_select_columns
    by (auto simp: Select_def Let_def simp del: select_columns.simps split: option.splits list.splits joins.splits)
qed

text \<open>
  The joins whose values match their placeholders: no subquery (its error would be ignored, its placeholders not), ON
  conditions between columns, and one value for each further condition.
\<close>

fun clean_clause :: "join_clause \<Rightarrow> bool" where
  "clean_clause (JoinClause os gs cs f q) =
     (q = None \<and> (\<forall>c \<in> set (list_of os). on_value (on_Value c) \<noteq> JBind) \<and>
      (\<forall>c \<in> set (list_of cs). length (bound_values (wf c)) = 1))"

fun clean_join :: "join \<Rightarrow> bool" where
  "clean_join (Join f q) = (q = None)"

fun clean_joins :: "joins option \<Rightarrow> bool" where
  "clean_joins None = True"
| "clean_joins (Some (JoinSet jl jc ll)) =
     ((\<forall>c \<in> set (list_of jc). clean_clause c) \<and> (\<forall>j \<in> set (list_of ll @ list_of jl). clean_join j))"

lemma issues_appendCondition:
  "issues u (\<lambda>_. if v = JBind then 1 else 0) (appendCondition u col cond v op)"
proof (cases v)
  case JBind
  have "issues u (\<lambda>_. 0 + (0 + (0 + (0 + 1)))) (appendCondition u col cond v op)"
    unfolding appendCondition_def JBind join_value.case
    by (intro issues_unit_before issues_emit issues_escape issues_placeholder)
  then show ?thesis using JBind by simp
qed (auto simp: appendCondition_def intro!: issues_before_0 issues_emit issues_escape issues_ret)

lemma issues_on: "\<forall>c \<in> set cs. on_value (on_Value c) \<noteq> JBind \<Longrightarrow> issues u (\<lambda>_. 0) (on_conditions u i cs)"
proof (induction cs arbitrary: i)
  case (Cons c cs)
  then show ?case
    using issues_appendCondition [of u "on_value (on_Value c)"] by (auto intro!: issues_before_0)
qed (simp add: issues_ret)

lemma balanced_join_conditions:
  "\<forall>c \<in> set cs. length (bound_values (wf c)) = 1 \<Longrightarrow> balanced u (join_conditions u i cs)"
proof (induction cs arbitrary: i)
  case (Cons c cs)
  then have "owes u (0 + 1) (andThen (join_conditions u (i + 1) cs) (\<lambda>vs. ret (bound_values (wf c) @ vs)))"
    by (intro owes_andThen owes_ret) auto
  then show ?case
    unfolding owes_0 [symmetric] join_conditions.simps
    by (rule owes_before [rotated]) (use issues_appendCondition [of u JBind] in simp)
qed (simp add: issues_ret)

lemma balanced_join_source: "balanced u (join_source u sub None target)"
  unfolding owes_0 [symmetric] join_source_def by (auto intro!: owes_steps owes_ret)

lemma balanced_clause: "clean_clause c \<Longrightarrow> balanced u (appendJoinClause u sub c)"
proof (induction c rule: clean_clause.induct)
  case (1 os gs cs f q)
  then show ?case
    unfolding owes_0 [symmetric] appendJoinClause_def
    by (auto simp: list_of_def split: prod.splits option.splits
        intro!: owes_steps owes_andThen [OF balanced_join_source] owes_before [OF issues_on]
          owes_andThen [OF balanced_join_conditions] owes_ret owes_fail)
qed

lemma balanced_sorted_join: "clean_join j \<Longrightarrow> balanced u (appendSortedJoin u sub j)"
  unfolding owes_0 [symmetric] appendSortedJoin_def
  by (cases j) (auto simp: Let_def split: prod.splits
      intro!: owes_ret owes_steps owes_andThen [OF balanced_join_source])

lemma balanced_RenderJoin:
  assumes "clean_joins js"
  shows "balanced u (RenderJoin u sub js)"
proof (cases js)
  case (Some j)
  obtain jl jc ll where j: "j = JoinSet jl jc ll" by (cases j)
  have clauses: "balanced u (each (appendJoinClause u sub) (list_of jc))"
    using assms by (auto simp: Some j intro!: balanced_each balanced_clause)
  show ?thesis
  proof (cases jl)
    case None
    then show ?thesis
      using owes_andThen [OF clauses, of 0 "\<lambda>vs. ret vs"]
      by (simp add: Some j RenderJoin_def owes_0 [symmetric] owes_ret)
  next
    case jl: (Some l)
    have "balanced u (each (appendSortedJoin u sub) (list_of ll @ l))"
      using assms by (intro balanced_each balanced_sorted_join) (auto simp: Some j jl list_of_def)
    from owes_append [OF clauses this] show ?thesis
      by (simp add: Some j jl RenderJoin_def owes_0)
  qed
qed (simp add: RenderJoin_def issues_ret)

lemma balanced_build_joins: "clean_joins js \<Longrightarrow> balanced u (build_joins u sub js)"
  using balanced_RenderJoin [of js u sub]
  by (auto simp: build_joins_def mysql_joins_def issues_ret issues_fail split: option.splits joins.splits)

lemma issues_order_item: "issues u (\<lambda>_. 0) (order_item u' ob)"
  by (auto simp: order_item_def intro!: issues_emit issues_ret issues_before_0 issues_escape)

lemma issues_OrderBy: "issues u (\<lambda>_. 0) (OrderBy u' ord)"
  using issues_sep_each [of _ u 0 "order_item u'", OF issues_order_item]
  by (auto simp: OrderBy_def intro!: issues_ret issues_emit issues_before_0 split: option.splits list.splits)

lemma issues_tail: "issues u (\<lambda>_. 0) (build_tail u' f us number)"
  unfolding build_tail_def
  by (auto simp: Limit_def Offset_def RenderLock_def Union_def split: option.splits
      intro!: issues_before_0 issues_OrderBy issues_fail issues_ret issues_emit)

lemma issues_From: "issues u (\<lambda>_. 0) (From u' t)"
  unfolding From_def by (intro issues_before_0 issues_emit issues_escape)

section \<open>Whole statements\<close>

definition tree_conds :: "where_group list \<Rightarrow> where_cond list" where
  "tree_conds gs = (case predicateTree gs of None \<Rightarrow> [] | Some t \<Rightarrow> map snd (tree_leaves t))"

text \<open>
  The queries whose parts bind what they ask for, down to \<^term>\<open>n\<close> levels of subqueries.
\<close>

primrec clean :: "nat \<Rightarrow> query \<Rightarrow> bool" where
  "clean 0 q = True"
| "clean (Suc n) q \<longleftrightarrow>
     clean_joins (Joins q) \<and>
     (\<forall>c \<in> set (tree_conds (ConditionGroups q)).
        bindable (wf c) \<and> (\<forall>sq \<in> set (subqueries_of c). clean n sq))"

lemma leaves_combine: "combine nodes = Some t \<Longrightarrow> set (tree_leaves t) = (\<Union>(n, op) \<in> set nodes. set (tree_leaves n))"
proof (erule combine_cases)
  fix n op ns
  assume nodes: "nodes = (n, op) # ns"
    and t: "t = (case map and_node (or_runs [n] ns) of [d] \<Rightarrow> d | ds \<Rightarrow> Inner ''or'' ds)"
  have and_leaves: "run \<noteq> [] \<Longrightarrow> set (tree_leaves (and_node run)) = (\<Union>m \<in> set run. set (tree_leaves m))" for run
    by (auto simp: and_node_def split: list.splits)
  have runs: "run \<noteq> [] \<Longrightarrow> (\<Union>r \<in> set (or_runs run ns). set r) = set run \<union> fst ` set ns" for run
    by (induction run ns rule: or_runs.induct) auto
  have "set (tree_leaves t) = (\<Union>d \<in> set (map and_node (or_runs [n] ns)). set (tree_leaves d))"
    by (auto simp: t split: list.splits)
  also have "\<dots> = (\<Union>r \<in> set (or_runs [n] ns). \<Union>m \<in> set r. set (tree_leaves m))"
    using and_leaves or_runs_nonempty [of "[n]" _ ns] by auto
  also have "\<dots> = (\<Union>m \<in> (\<Union>r \<in> set (or_runs [n] ns). set r). set (tree_leaves m))"
    by auto
  also have "\<dots> = (\<Union>(m, op) \<in> set nodes. set (tree_leaves m))"
    using runs [of "[n]"] by (auto simp: nodes)
  finally show ?thesis .
qed

lemma pt_conds_plain: "\<forall>c \<in> set cs. Nested c = None \<Longrightarrow> pt_conds cs = map (\<lambda>c. (Leaf (leafKind c) c, w_Operator (wf c))) cs"
proof (induction cs)
  case (Cons c cs)
  then show ?case by (cases c) auto
qed simp

lemma tree_conds_flat:
  assumes "\<forall>c \<in> set cs. Nested c = None"
  shows "set (tree_conds [WhereGroup cs op True False]) \<subseteq> set cs"
  using assms leaves_combine [of "map (\<lambda>c. (Leaf (leafKind c) c, w_Operator (wf c))) cs"]
  by (auto simp: tree_conds_def predicateTree_def pt_conds_plain Let_def split: option.splits if_splits)

lemma having_conditions_clean:
  "c \<in> set (having_conditions hs) \<Longrightarrow> Nested c = None \<and> subqueries_of c = [] \<and> bindable (wf c)"
  by (induction hs) (auto simp: subqueries_of_def bindable_def bound_values_def plain_ok_def split: if_splits)

lemma having_clean:
  "c \<in> set (tree_conds (HavingGroups g)) \<Longrightarrow> subqueries_of c = [] \<and> bindable (wf c)"
  using tree_conds_flat [of "having_conditions _" 0] having_conditions_clean
  by (auto simp: HavingGroups_def tree_conds_def [of "[]"] predicateTree_def split: option.splits list.splits)
    blast+

text \<open>The dialects' leaf renderers keep the walk's contract wherever they are balanced.\<close>

lemma leaf_contract: "leaf_renderer render r_ph (issued u) (\<lambda>c. balanced u (render c))"
  by unfold_locales (simp_all add: paid_issues issued_add)

interpretation dialect_leaf: leaf_renderer "RenderLeaf u json sub" r_ph "issued u"
  "\<lambda>c. bindable (wf c) \<and> (\<forall>q \<in> set (subqueries_of c). balanced u (sub q))" for u json sub
  by unfold_locales (simp_all add: paid_issues issued_add balanced_leaf)

interpretation base_leaf: leaf_renderer "BaseRenderLeaf u sub" r_ph "issued u"
  "\<lambda>c. bindable (wf c) \<and> (\<forall>q \<in> set (subqueries_of c). balanced u (sub q))" for u sub
  by unfold_locales (simp_all add: paid_issues issued_add balanced_base_leaf)

lemma in_tree_conds: "predicateTree gs = Some tree \<Longrightarrow> kc \<in> set (tree_leaves tree) \<Longrightarrow> snd kc \<in> set (tree_conds gs)"
  by (auto simp: tree_conds_def)

lemma predicates_balanced:
  assumes "\<forall>c \<in> set (tree_conds gs). bindable (wf c) \<and> (\<forall>q \<in> set (subqueries_of c). balanced u (sub q))"
  shows "issues u (\<lambda>r. length (fst r)) (RenderPredicates (RenderLeaf u json sub) gs offset)"
    and "issues u (\<lambda>r. length (fst r)) (RenderPredicates (BaseRenderLeaf u sub) gs offset)"
proof -
  have ok: "predicateTree gs = Some tree \<Longrightarrow> kc \<in> set (tree_leaves tree) \<Longrightarrow>
      bindable (wf (snd kc)) \<and> (\<forall>q \<in> set (subqueries_of (snd kc)). balanced u (sub q))" for tree kc
    using assms in_tree_conds by blast
  show "issues u (\<lambda>r. length (fst r)) (RenderPredicates (RenderLeaf u json sub) gs offset)"
  proof (rule issuesI)
    fix s t r s'
    assume "RenderPredicates (RenderLeaf u json sub) gs offset s = Done t r s'"
    then show "r_ph s' = issued u (length (fst r)) (r_ph s)"
      using dialect_leaf.predicates_paid [OF ok] by (cases r) fastforce
  qed
  show "issues u (\<lambda>r. length (fst r)) (RenderPredicates (BaseRenderLeaf u sub) gs offset)"
  proof (rule issuesI)
    fix s t r s'
    assume "RenderPredicates (BaseRenderLeaf u sub) gs offset s = Done t r s'"
    then show "r_ph s' = issued u (length (fst r)) (r_ph s)"
      using base_leaf.predicates_paid [OF ok] by (cases r) fastforce
  qed
qed

lemma GroupBy_balanced: "issues u (\<lambda>r. length (fst r)) (GroupBySnapshot u sub g offset)"
proof (cases "\<exists>c cs hs. g = Some (c # cs, hs)")
  case True
  then obtain c cs hs where g: "g = Some (c # cs, hs)" by auto
  have hav: "issues u (\<lambda>r. length (fst r)) (RenderPredicates (BaseRenderLeaf u sub) (HavingGroups g) offset)"
    using having_clean by (intro predicates_balanced(2)) fastforce
  have "issues u (\<lambda>r. length (fst r)) (\<lambda>s.
      case RenderPredicates (BaseRenderLeaf u sub) (HavingGroups g) offset s of
        Fail e t s' \<Rightarrow> Fail e t s'
      | Done t (vals, None) s' \<Rightarrow> Done t (vals, None) s'
      | Done t (vals, Some view) s' \<Rightarrow> Done ('' HAVING '' @ drop 7 t) (vals, Some view) s')"
    using hav by (auto simp: issues_def split: outcome.splits option.splits prod.splits)
  then show ?thesis
    by (auto simp: GroupBySnapshot_def g simp del: sep_each.simps
        intro!: issues_before_0 issues_emit issues_sep_escape issues_ret)
next
  case False
  then have "GroupBySnapshot u sub g offset = ret ([], None)"
    by (auto simp: GroupBySnapshot_def split: option.splits list.splits)
  then show ?thesis by (simp add: issues_ret)
qed

lemma in_subquery_balanced: "balanced u m \<Longrightarrow> balanced u (in_subquery m)"
  by (fastforce simp: issues_def in_subquery_def split: outcome.splits)

lemma Build_balanced:
  "clean n q \<Longrightarrow> issues u (\<lambda>r. length (fst r)) (Build n u json q number us)"
proof (induction n arbitrary: q number us)
  case 0
  then show ?case by (simp add: issues_fail)
next
  case (Suc n)
  obtain f qus js gs cs where q: "q = Query f qus js gs cs" by (cases q)
  let ?sub = "\<lambda>sq. in_subquery (andThen (Build n u json sq 0 None) (\<lambda>r. ret (fst r)))"
  have sub: "balanced u (?sub sq)" if "clean n sq" for sq
  proof -
    have "balanced u (andThen (Build n u json sq 0 None) (\<lambda>r. ret (fst r)))"
      using issuesD [OF Suc.IH [OF that]] by (auto intro!: issuesI simp: andThen_Done)
    then show ?thesis by (rule in_subquery_balanced)
  qed
  have js: "clean_joins js" and
    conds: "\<forall>c \<in> set (tree_conds gs). bindable (wf c) \<and> (\<forall>sq \<in> set (subqueries_of c). balanced u (?sub sq))"
    using Suc.prems sub by (auto simp: q)
  show ?case
  proof (cases "validateQuery q 0")
    case None
    show ?thesis
      unfolding Build.simps None option.case
      by (rule issuesI)
        (auto simp: q Let_def andThen_Done before_Done issued_add add.assoc
          dest!: issuesD [OF balanced_Select] issuesD [OF issues_From] issuesD [OF issues_tail]
            issuesD [OF balanced_build_joins [OF js]] issuesD [OF predicates_balanced(1) [OF conds]]
            issuesD [OF GroupBy_balanced] split: prod.splits)
  qed (simp add: issues_fail)
qed

section \<open>The fuel is enough\<close>

definition solvent :: "('s, 'a) renderer \<Rightarrow> bool" where
  "solvent m \<longleftrightarrow> (\<forall>s t s'. m s \<noteq> Fail OutOfFuel t s')"

named_theorems solvent_intros

lemma solvent_plain [solvent_intros]:
  "solvent (ret a)" "solvent (emit t)" "e \<noteq> OutOfFuel \<Longrightarrow> solvent (fail e)"
  by (simp_all add: solvent_def ret_def emit_def fail_def)

lemma solvent_andThen [solvent_intros]: "solvent m \<Longrightarrow> (\<And>a. solvent (f a)) \<Longrightarrow> solvent (andThen m f)"
  by (auto simp: solvent_def andThen_def split: outcome.splits)

lemma solvent_before [solvent_intros]: "solvent a \<Longrightarrow> solvent b \<Longrightarrow> solvent (before a b)"
  unfolding before_def by (rule solvent_andThen)

lemma solvent_with_text [solvent_intros]: "solvent m \<Longrightarrow> solvent (with_text m)"
  by (auto simp: solvent_def with_text_def split: outcome.splits)

lemma solvent_ignoring [solvent_intros]: "solvent m \<Longrightarrow> solvent (ignoring_error d m)"
  by (auto simp: solvent_def ignoring_error_def split: outcome.splits)

lemma solvent_in_subquery [solvent_intros]: "solvent m \<Longrightarrow> solvent (in_subquery m)"
  by (auto simp: solvent_def in_subquery_def split: outcome.splits)

lemma solvent_each: "(\<And>x. x \<in> set xs \<Longrightarrow> solvent (f x)) \<Longrightarrow> solvent (each f xs)"
  by (induction xs) (auto intro!: solvent_intros)

lemma solvent_sep_each [solvent_intros]: "(\<And>x. solvent (f x)) \<Longrightarrow> solvent (sep_each sep f xs)"
  by (induction sep f xs rule: sep_each.induct) (auto intro!: solvent_intros)

lemma solvent_placeholder [solvent_intros]: "solvent (placeholder u)"
  unfolding placeholder_def
  by (rule solvent_andThen) (auto simp: solvent_def GetPlaceholder_def emit_def split: prod.splits)

lemma solvent_escape [solvent_intros]:
  "solvent (EscapeRelation u v)" "solvent (EscapeReference u v)" "solvent (EscapeAliasedValue u v)"
  "solvent (writeColumn u v l)"
  by (simp_all add: EscapeRelation_def EscapeReference_def EscapeAliasedValue_def writeColumn_def solvent_intros)

lemma solvent_operand [solvent_intros]: "solvent (operand u f)"
  by (auto simp: operand_def intro!: solvent_intros split: option.splits)

lemma solvent_raw [solvent_intros]: "solvent (ProcessRawCondition u f)"
proof (cases "\<not> w_LiteralColumn f \<and> w_Raw f \<noteq> [] \<and> w_ValueMap f \<noteq> None")
  case True
  then show ?thesis
    by (auto simp: ProcessRawCondition_def solvent_def split: sum.splits prod.splits)
next
  case False
  then show ?thesis
    by (auto simp: ProcessRawCondition_def intro!: solvent_intros split: option.splits)
qed

lemma solvent_between [solvent_intros]: "solvent (ProcessBetweenCondition u f bt)"
proof (cases "bt_IsColumn bt")
  case True
  show ?thesis
  proof (cases "bt_From bt")
    case (VString lo)
    show ?thesis
      by (cases "bt_To bt") (simp_all add: ProcessBetweenCondition_def True VString solvent_intros)
  qed (simp_all add: ProcessBetweenCondition_def True solvent_intros)
qed (simp add: ProcessBetweenCondition_def solvent_intros)

lemma solvent_base_leaf:
  assumes "\<And>q. q \<in> set (subqueries_of c) \<Longrightarrow> solvent (sub q)"
  shows "solvent (BaseRenderLeaf u sub c)"
proof (cases "SubQuery c")
  case (Some q)
  then have "solvent (sub q)" using assms by (simp add: subqueries_of_def)
  then show ?thesis by (simp add: BaseRenderLeaf_def Some ProcessSubQuery_def Let_def solvent_intros)
next
  case None
  show ?thesis
  proof (cases "Exists c")
    case (Some e)
    obtain b q where e: "e = (b, q)" by (cases e)
    then have "solvent (sub q)" using assms by (simp add: subqueries_of_def None Some)
    then show ?thesis by (simp add: BaseRenderLeaf_def None Some e ProcessExistsQuery_def Let_def solvent_intros)
  next
    case none: None
    show ?thesis
      by (cases "w_Between (wf c)")
        (simp_all add: BaseRenderLeaf_def None none ProcessFunction_def Let_def solvent_intros)
  qed
qed

lemma option_errors [simp]:
  "string_option opts k \<noteq> Inl OutOfFuel" "bool_option opts k \<noteq> Inl OutOfFuel"
proof -
  have "string_option (Some m) k \<noteq> Inl OutOfFuel \<and> bool_option (Some m) k \<noteq> Inl OutOfFuel" for m
  proof (cases "map_of m k")
    case (Some v)
    then show ?thesis by (cases v) (simp_all add: string_option_def bool_option_def)
  qed (simp add: string_option_def bool_option_def)
  then show "string_option opts k \<noteq> Inl OutOfFuel" "bool_option opts k \<noteq> Inl OutOfFuel"
    by (cases opts; simp add: string_option_def bool_option_def)+
qed

lemma solvent_json_path [solvent_intros]: "solvent (BuildJsonPathSQL u field path)"
  unfolding BuildJsonPathSQL_def by (intro solvent_intros)

lemma solvent_mysql_fulltext [solvent_intros]: "solvent (MySQLProcessFullText u f ft)"
  unfolding MySQLProcessFullText_def Let_def
  by (auto split: sum.split intro!: solvent_intros)

lemma solvent_mysql_json [solvent_intros]:
  "solvent (MySQLProcessJsonContains u json f vals)" "solvent (MySQLProcessJsonLength u f jl)"
  unfolding MySQLProcessJsonContains_def MySQLProcessJsonLength_def
  by (cases "ParseJsonFieldAndPath (w_Column f)"; simp only: prod.case; intro solvent_intros)+

lemma solvent_postgres_fulltext [solvent_intros]: "solvent (PostgresProcessFullText u ft)"
  unfolding PostgresProcessFullText_def Let_def
  by (auto split: sum.split intro!: solvent_intros)

lemma solvent_postgres_json [solvent_intros]:
  "solvent (PostgresProcessJsonContains u json f vals)" "solvent (PostgresProcessJsonLength u f jl)"
  unfolding PostgresProcessJsonContains_def PostgresProcessJsonLength_def
  by (cases "ParseJsonFieldAndPath (w_Column f)"; simp only: prod.case; intro solvent_intros)+

lemma solvent_leaf:
  assumes "\<And>q. q \<in> set (subqueries_of c) \<Longrightarrow> solvent (sub q)"
  shows "solvent (RenderLeaf u json sub c)"
  using solvent_base_leaf [of c sub u, OF assms]
  by (cases "u_dialect u"; cases "w_FullText (wf c)"; cases "w_JsonContains (wf c)"; cases "w_JsonLength (wf c)")
    (simp_all add: RenderLeaf_def MySQLRenderLeaf_def PostgresRenderLeaf_def solvent_intros)

lemma solvent_walk:
  "\<forall>kc \<in> set (tree_leaves tree). solvent (render (snd kc)) \<Longrightarrow> solvent (walk render off tree st)"
  "\<forall>kc \<in> set (concat (map tree_leaves cs)). solvent (render (snd kc)) \<Longrightarrow>
     solvent (walk_kids render off k first cs st)"
proof (induction render off tree st and render off k first cs st rule: walk_walk_kids.induct)
  case (1 render offset k cs st)
  then have "solvent (walk_kids render offset k True cs st)" by simp
  then show ?case
    unfolding walk.simps
    by (intro solvent_andThen solvent_with_text solvent_before solvent_intros(1,2)) (auto intro!: solvent_intros split: prod.splits)
next
  case (2 render offset k c st)
  then show ?case
    by (auto intro!: solvent_intros split: option.splits prod.splits)
next
  case (3 render offset k first st)
  then show ?case by (simp add: solvent_intros)
next
  case (4 render offset k first c cs st)
  have "solvent (walk render offset c st)" using 4 by simp
  moreover have "solvent (walk_kids render offset k False cs st1)" for st1
    using 4 by (metis (no_types, lifting) UnCI concat.simps(2) list.simps(9) set_append)
  ultimately show ?case
    unfolding walk_kids.simps
    by (intro solvent_andThen solvent_before solvent_intros(2)) (auto intro!: solvent_intros split: prod.splits)
qed

lemma solvent_predicates:
  assumes "\<And>c. c \<in> set (tree_conds gs) \<Longrightarrow> solvent (render c)"
  shows "solvent (RenderPredicates render gs offset)"
proof (cases "predicateTree gs")
  case None
  then show ?thesis
    by (auto simp: RenderPredicates_def PredicateTree_def intro!: solvent_intros split: option.splits)
next
  case (Some tree)
  then show ?thesis
    using assms in_tree_conds [OF Some]
    by (auto simp: RenderPredicates_def PredicateTree_def intro!: solvent_intros solvent_walk(1) split: option.splits)
qed

lemma solvent_name_or_star [solvent_intros]: "solvent (name_or_star u c)"
  by (simp add: name_or_star_def solvent_intros)

lemma solvent_expand_raw [solvent_intros]: "solvent (expand_raw u raw k)"
  by (auto simp: solvent_def expand_raw_def split: sum.splits prod.splits)

lemma solvent_select_item [solvent_intros]: "solvent (select_item u i n c)"
  by (simp add: select_item_def Let_def solvent_intros)

lemma solvent_select_once [solvent_intros]: "solvent (select_once comma name)"
  by (simp add: solvent_def select_once_def)

lemma solvent_select_columns [solvent_intros]: "solvent (select_columns u i n seen cs)"
  by (induction u i n seen cs rule: select_columns.induct) (simp_all add: solvent_intros)

lemma solvent_select_processJoin [solvent_intros]: "solvent (select_processJoin u m jn tn i)"
  by (simp add: select_processJoin_def Let_def solvent_intros)

lemma solvent_select_joins [solvent_intros]: "solvent (select_joins u tn i l)"
  by (induction u tn i l rule: select_joins.induct) (simp_all add: solvent_intros)

lemma solvent_select_clauses [solvent_intros]: "solvent (select_clauses u tn l)"
  by (induction u tn l rule: select_clauses.induct) (simp_all add: solvent_intros)

lemma solvent_Select [solvent_intros]: "solvent (Select u columns tn js)"
  by (cases columns; cases js; cases "the columns"; cases "the js")
    (simp_all add: Select_def Let_def solvent_intros del: select_columns.simps)

lemma solvent_order_item [solvent_intros]: "solvent (order_item u ob)"
  by (simp add: order_item_def solvent_intros)

lemma solvent_OrderBy [solvent_intros]: "solvent (OrderBy u ord)"
  by (auto simp: OrderBy_def simp del: sep_each.simps intro!: solvent_intros split: option.splits list.splits)

definition join_queries :: "joins option \<Rightarrow> query list" where
  "join_queries js =
     (case js of None \<Rightarrow> []
      | Some (JoinSet jl jc ll) \<Rightarrow>
          concat (map (\<lambda>j. case j of Join f q \<Rightarrow> (case q of None \<Rightarrow> [] | Some sq \<Rightarrow> [sq])) (list_of ll @ list_of jl)) @
          concat (map (\<lambda>c. case jc_Query c of None \<Rightarrow> [] | Some sq \<Rightarrow> [sq]) (list_of jc)))"

lemma solvent_source: "(\<And>sq. q = Some sq \<Longrightarrow> solvent (sub sq)) \<Longrightarrow> solvent (join_source u sub q target)"
  by (cases q) (simp_all add: join_source_def solvent_intros)

lemma solvent_appendCondition [solvent_intros]: "solvent (appendCondition u col cond v op)"
  by (cases v) (simp_all add: appendCondition_def solvent_intros)

lemma solvent_clause:
  assumes "\<And>sq. jc_Query c = Some sq \<Longrightarrow> solvent (sub sq)"
  shows "solvent (appendJoinClause u sub c)"
proof (cases c)
  case (JoinClause os gs cs f q)
  have on: "solvent (on_conditions u i l)" for i l
    by (induction u i l rule: on_conditions.induct) (simp_all add: solvent_intros)
  have conds: "solvent (join_conditions u i l)" for i l
    by (induction u i l rule: join_conditions.induct) (simp_all add: solvent_intros)
  obtain ty target where pj: "processJoin (j_TargetNameMap f) = (ty, target)" by fastforce
  have "solvent (join_source u sub q target)" using assms by (intro solvent_source) (simp add: JoinClause)
  then show ?thesis
    by (cases os; cases cs) (simp_all add: appendJoinClause_def JoinClause pj solvent_intros on conds)
qed

lemma solvent_sorted_join:
  assumes "\<And>f sq. j = Join f (Some sq) \<Longrightarrow> solvent (sub sq)"
  shows "solvent (appendSortedJoin u sub j)"
proof (cases j)
  case (Join f q)
  obtain ty target where pj: "processJoin (j_TargetNameMap f) = (ty, target)" by fastforce
  have "solvent (join_source u sub q target)" using assms by (intro solvent_source) (simp add: Join)
  then show ?thesis by (simp add: appendSortedJoin_def Join pj Let_def solvent_intros)
qed

lemma solvent_RenderJoin:
  assumes "\<And>sq. sq \<in> set (join_queries js) \<Longrightarrow> solvent (sub sq)"
  shows "solvent (RenderJoin u sub js)"
proof (cases js)
  case (Some j)
  obtain jl jc ll where j: "j = JoinSet jl jc ll" by (cases j)
  have "solvent (appendJoinClause u sub c)" if "c \<in> set (list_of jc)" for c
    using that assms by (intro solvent_clause) (force simp: join_queries_def Some j)
  then have clauses: "solvent (each (appendJoinClause u sub) (list_of jc))" by (rule solvent_each)
  have "solvent (appendSortedJoin u sub x)" if "x \<in> set (list_of ll @ list_of jl)" for x
    using that assms by (intro solvent_sorted_join) (force simp: join_queries_def Some j)
  then have "solvent (each (appendSortedJoin u sub) (list_of ll @ list_of jl))" by (rule solvent_each)
  with clauses show ?thesis
    by (cases jl) (simp_all add: RenderJoin_def Some j list_of_def solvent_intros)
qed (simp add: RenderJoin_def solvent_intros)

lemma solvent_build_joins:
  assumes "\<And>sq. sq \<in> set (join_queries js) \<Longrightarrow> solvent (sub sq)"
  shows "solvent (build_joins u sub js)"
  using solvent_RenderJoin [of js sub u, OF assms]
  by (auto simp: build_joins_def mysql_joins_def solvent_intros split: option.splits joins.splits)

lemma solvent_group: "solvent (GroupBySnapshot u sub g offset)"
proof (cases "\<exists>c cs hs. g = Some (c # cs, hs)")
  case True
  then obtain c cs hs where g: "g = Some (c # cs, hs)" by auto
  have "solvent (RenderPredicates (BaseRenderLeaf u sub) (HavingGroups g) offset)"
    using having_clean by (intro solvent_predicates solvent_base_leaf) fastforce
  then have "solvent (\<lambda>s.
      case RenderPredicates (BaseRenderLeaf u sub) (HavingGroups g) offset s of
        Fail e t s' \<Rightarrow> Fail e t s'
      | Done t (vals, None) s' \<Rightarrow> Done t (vals, None) s'
      | Done t (vals, Some view) s' \<Rightarrow> Done ('' HAVING '' @ drop 7 t) (vals, Some view) s')"
    by (auto simp: solvent_def split: outcome.splits option.splits prod.splits)
  then show ?thesis
    by (simp add: GroupBySnapshot_def g solvent_intros del: sep_each.simps)
next
  case False
  then have "GroupBySnapshot u sub g offset = ret ([], None)"
    by (auto simp: GroupBySnapshot_def split: option.splits list.splits)
  then show ?thesis by (simp add: solvent_intros)
qed

lemma solvent_tail: "solvent (build_tail u f us number)"
  by (auto simp: build_tail_def Limit_def Offset_def RenderLock_def Union_def intro!: solvent_intros
      split: option.splits)

lemma validated_subqueries:
  "validateCond c dummy d = None \<Longrightarrow> pt_cond c = Some t \<Longrightarrow> kc \<in> set (tree_leaves t) \<Longrightarrow>
     sq \<in> set (subqueries_of (snd kc)) \<Longrightarrow> \<exists>d' > d. validateQuery sq d' = None"
  "\<forall>c \<in> set cs. validateCond c dummy d = None \<Longrightarrow> (n, op) \<in> set (pt_conds cs) \<Longrightarrow> kc \<in> set (tree_leaves n) \<Longrightarrow>
     sq \<in> set (subqueries_of (snd kc)) \<Longrightarrow> \<exists>d' > d. validateQuery sq d' = None"
  "validateGroup g d = None \<Longrightarrow> (n, op) \<in> set (pt_group g) \<Longrightarrow> kc \<in> set (tree_leaves n) \<Longrightarrow>
     sq \<in> set (subqueries_of (snd kc)) \<Longrightarrow> \<exists>d' > d. validateQuery sq d' = None"
  "\<forall>g \<in> set gs. validateGroup g d = None \<Longrightarrow> (n, op) \<in> set (pt_groups gs) \<Longrightarrow> kc \<in> set (tree_leaves n) \<Longrightarrow>
     sq \<in> set (subqueries_of (snd kc)) \<Longrightarrow> \<exists>d' > d. validateQuery sq d' = None"
proof (induction c and cs and g and gs arbitrary: dummy d t and dummy d n op and d n op and d n op
    rule: pt_cond_pt_conds_pt_group_pt_groups.induct)
  case (1 f nested q e)
  show ?case
  proof (cases nested)
    case None
    then show ?thesis
      using "1.prems" by (auto simp: subqueries_of_def check_all_None check_some_def map_prod_def split: option.splits prod.splits)
  next
    case (Some gs)
    define d' where "d' = (if dummy then d + 1 else d)"
    have ok: "\<forall>g \<in> set gs. validateGroup g d' = None"
      using "1.prems"(1) by (simp add: Some check_all_None check_some_def check_list_def d'_def split: if_splits)
    obtain n op where "(n, op) \<in> set (pt_groups gs)" "kc \<in> set (tree_leaves n)"
      using "1.prems"(2,3) leaves_combine [of "pt_groups gs" t] by (auto simp: Some)
    from "1.IH" [OF Some ok this "1.prems"(4)] show ?thesis
      by (auto simp: d'_def split: if_splits dest: Suc_lessD)
  qed
next
  case (4 cs op' dummy isnot)
  define d' where "d' = (if dummy then d else d + 1)"
  have ok: "\<forall>c \<in> set cs. validateCond c dummy d' = None"
    using "4.prems"(1) by (auto simp: d'_def Let_def check_all_None check_list_def split: if_splits)
  obtain m op2 where m: "(m, op2) \<in> set (pt_conds cs)" "kc \<in> set (tree_leaves m)"
  proof (cases dummy)
    case True
    then show ?thesis using "4.prems"(2,3) that by (auto simp: Let_def split: if_splits)
  next
    case False
    then have n: "n = explicit_group isnot (the (combine (pt_conds cs)))" "pt_conds cs \<noteq> []"
      using "4.prems"(2) by (auto simp: Let_def split: if_splits)
    then obtain t where t: "combine (pt_conds cs) = Some t" by fastforce
    then have "kc \<in> set (tree_leaves t)"
      using "4.prems"(3) by (auto simp: n(1) explicit_group_def Let_def split: if_splits)
    then show ?thesis using leaves_combine [OF t] that by auto
  qed
  from "4.IH" [OF ok m "4.prems"(4)] show ?case
    by (auto simp: d'_def split: if_splits dest: Suc_lessD)
qed (auto split: option.splits)

lemma validated_tree_conds:
  assumes "\<forall>g \<in> set gs. validateGroup g d = None" "c \<in> set (tree_conds gs)" "sq \<in> set (subqueries_of c)"
  shows "\<exists>d' > d. validateQuery sq d' = None"
proof -
  obtain t where t1: "combine (pt_groups gs) = Some t"
    using assms(2) by (cases "combine (pt_groups gs)") (auto simp: tree_conds_def predicateTree_def)
  then obtain kc where t: "combine (pt_groups gs) = Some t" "kc \<in> set (tree_leaves t)" "c = snd kc"
    using assms(2) by (auto simp: tree_conds_def predicateTree_def)
  then obtain n op where "(n, op) \<in> set (pt_groups gs)" "kc \<in> set (tree_leaves n)"
    using leaves_combine [OF t(1)] by auto
  then show ?thesis
    using validated_subqueries(4) [OF assms(1)] assms(3) t(3) by blast
qed

lemma validated_joins:
  assumes "validateJoins j d = None" "sq \<in> set (join_queries (Some j))"
  shows "validateQuery sq d = None"
proof -
  have clause: "validateClause c d = check_some (map_option validateQuery (jc_Query c)) d" for c
    by (cases c) simp
  have plain: "validateJoin x d = (case x of Join f q \<Rightarrow> check_some (map_option validateQuery q) d)" for x
    by (cases x) simp
  show ?thesis
    using assms
    by (cases j) (auto simp: join_queries_def check_all_None check_some_def check_list_def list_of_def clause plain
        split: option.splits join.splits)
qed

lemma validated_query:
  assumes "validateQuery (Query f us js gs cs) d = None"
  shows "d \<le> MaxDepth" "\<forall>g \<in> set gs. validateGroup g d = None"
    "sq \<in> set (join_queries js) \<Longrightarrow> validateQuery sq (d + 1) = None"
proof -
  show "d \<le> MaxDepth" "\<forall>g \<in> set gs. validateGroup g d = None"
    using assms by (auto simp: check_all_None check_list_def split: if_splits)
  show "validateQuery sq (d + 1) = None" if "sq \<in> set (join_queries js)"
  proof (cases js)
    case None
    then show ?thesis using that by (simp add: join_queries_def)
  next
    case (Some j)
    then have "validateJoins j (d + 1) = None"
      using assms by (auto simp: check_all_None check_some_def split: if_splits)
    then show ?thesis using that validated_joins by (simp add: Some)
  qed
qed

lemma Build_solvent:
  "validateQuery q d = None \<Longrightarrow> MaxDepth < d + n \<Longrightarrow> solvent (Build n u json q number us)"
proof (induction n arbitrary: q d number us)
  case 0
  obtain f qus js gs cs where q: "q = Query f qus js gs cs" by (cases q)
  show ?case using validated_query(1) [of f qus js gs cs d] 0 by (simp add: q)
next
  case (Suc n)
  obtain f qus js gs cs where q: "q = Query f qus js gs cs" by (cases q)
  let ?sub = "\<lambda>sq. in_subquery (andThen (Build n u json sq 0 None) (\<lambda>r. ret (fst r)))"
  have sub: "solvent (?sub sq)" if "validateQuery sq d' = None" "d < d'" for sq d'
    using Suc.IH [OF that(1)] that(2) Suc.prems(2) by (intro solvent_intros) auto
  note V = validated_query [OF Suc.prems(1) [unfolded q]]
  have leaf: "solvent (RenderPredicates (RenderLeaf u json ?sub) gs k)" for k
    using validated_tree_conds [OF V(2)] sub by (intro solvent_predicates solvent_leaf) blast
  have joins: "solvent (build_joins u ?sub js)"
    using V(3) sub [of _ "d + 1"] by (intro solvent_build_joins) auto
  show ?case
  proof (cases "validateQuery q 0")
    case None
    then show ?thesis
      unfolding q Build.simps None [unfolded q] option.case query.case Let_def
      by (intro solvent_intros joins leaf solvent_tail)
        (auto simp: From_def intro!: solvent_intros leaf joins solvent_group solvent_tail split: prod.splits)
  qed (simp add: solvent_intros)
qed

section \<open>Properties\<close>



definition sample_query :: query where
  "sample_query =
     Query \<lparr>q_PredicateError = None, q_Columns = Some [], q_Table = ''t'', q_Limit = (False, 3), q_Offset = 0,
        q_Order = Some [], q_Group = None, q_Lock = None\<rparr> [] None
       [WhereGroup [sample_cond 0, sample_cond 1] 0 True False] None"

lemma sample_clean: "clean 1 sample_query"
  by (auto simp: sample_query_def tree_conds_def predicateTree_def sample_cond_def combine_def and_node_def
      subqueries_of_def bindable_def plain_ok_def sample_flat_def bound_values_def)

lemma sample_build:
  "\<exists>w h. Build 1 postgres_utils json sample_query 0 None \<lparr>r_ph = 0, r_cols = []\<rparr> =
     Done ''SELECT * FROM \"t\" WHERE \"id\" = $1 OR \"id\" = $2 LIMIT 3'' ([VInt 1, VInt 1], w, h) \<lparr>r_ph = 2, r_cols = []\<rparr>"
proof -
  have esc: "AppendEscapedReference [] ''id'' dquote = ''\"id\"''" "AppendEscapedRelation [] ''t'' dquote = ''\"t\"''"
    by code_simp+
  have kind: "leafKind (sample_cond op) = ''comparison''" for op
    by (simp add: sample_cond_def sample_flat_def go_eval trim_left.simps trim_right_rev.simps)
  have nums: "nat_str (Suc 0) = ''1''" "nat_str (Suc (Suc 0)) = ''2''" "int_str 3 = ''3''"
    by code_simp+
  show ?thesis
    using kind esc nums
    by (simp add: sample_query_def sample_cond_def sample_flat_def Select_def From_def EscapeRelation_def
        build_joins_def RenderJoin_def build_tail_def Limit_def Offset_def RenderLock_def Union_def OrderBy_def
        GroupBySnapshot_def RenderLeaf_def PostgresRenderLeaf_def check_some_def check_list_def MaxDepth_def
        RenderPredicates_def PredicateTree_def predicateTree_def combine_def and_node_def before_def andThen_def emit_def
        with_text_def ret_def BaseRenderLeaf_def ProcessRawCondition_def EscapeReference_def quote_of_def
        postgres_utils_def operand_def placeholder_def GetPlaceholder_def postgres_placeholder_def list_of_def
        bound_values_def bound_columns_of_def leaf_info_def leaf_reason_def bind_arg_def Copy_def copy_val.simps)
qed



section \<open>Divergences\<close>

text \<open>A subquery in a join that fails to build leaves its partial text in the statement and no error.\<close>

lemma failing_join_subquery:
  assumes "sub sq s = Fail (SqlFailure e) t s'"
  shows "join_source u sub (Some sq) target s =
     Done (''('' @ t @ '') as '' @ AppendEscapedReference [] target (quote_of (u_dialect u))) [] s'"
  using assms
  by (simp add: join_source_def before_def andThen_def emit_def ignoring_error_def EscapeReference_def ret_def)

text \<open>
  The leaf renderer of UPDATE and DELETE does not know JSON conditions: it writes the column
  alone, without operator or value.
\<close>

lemma delete_json_condition:
  "BaseRenderLeaf u sub (Where (sample_flat\<lparr>w_Condition := [], w_Value := None, w_JsonContains := Some vals\<rparr>) None None None) s =
     Done (AppendEscapedReference [] ''id'' (quote_of (u_dialect u)) @ '' '') [] s"
  by (simp add: BaseRenderLeaf_def ProcessRawCondition_def sample_flat_def before_def andThen_def emit_def
      EscapeReference_def operand_def bound_values_def ret_def)

text \<open>A COUNT followed by a column is written with two commas, and a column followed by a COUNT with none.\<close>

definition plain_column :: select_column where
  "plain_column = \<lparr>sc_Name = ''n'', sc_Raw = [], sc_Values = [], sc_Distinct = False, sc_Count = False, sc_Function = []\<rparr>"

lemma count_commas:
  "\<exists>s'. Select mysql_utils (Some [plain_column\<lparr>sc_Name := [], sc_Count := True\<rparr>, plain_column]) tn None s =
     Done ''COUNT(*), , `n`'' [] s'"
  "\<exists>s'. Select mysql_utils (Some [plain_column, plain_column\<lparr>sc_Name := [], sc_Count := True\<rparr>]) tn None s =
     Done ''`n`COUNT(*)'' [] s'"
proof -
  have esc: "AppendEscapedAliasedValue [] ''n'' backtick = ''`n`''"
    by code_simp
  show "\<exists>s'. Select mysql_utils (Some [plain_column\<lparr>sc_Name := [], sc_Count := True\<rparr>, plain_column]) tn None s =
     Done ''COUNT(*), , `n`'' [] s'"
    "\<exists>s'. Select mysql_utils (Some [plain_column, plain_column\<lparr>sc_Name := [], sc_Count := True\<rparr>]) tn None s =
     Done ''`n`COUNT(*)'' [] s'"
    using esc by (simp_all add: Select_def plain_column_def select_item_def name_or_star_def before_def andThen_def emit_def
        ret_def EscapeAliasedValue_def mysql_utils_def quote_of_def)
qed

text \<open>A builder that has selected a joined table's columns once selects nothing the second time.\<close>

lemma second_select_empty:
  assumes "processJoin (j_TargetNameMap f) = (ty, target)" "target \<noteq> []" "j_Name f \<noteq> []"
    and "{star_of u target, star_of u (j_Name f)} \<subseteq> set (r_cols s)"
  shows "Select u (Some []) tn (Some (JoinSet (Some [Join f None]) (Some []) (Some []))) s = Done [] [] s"
  using assms
  by (simp add: Select_def list_of_def select_processJoin_def select_once_def before_def andThen_def ret_def)

text \<open>DELETE drops the values of its joins' conditions: the placeholder stays.\<close>

definition delete_joins :: joins where
  "delete_joins = JoinSet (Some []) (Some [JoinClause (Some []) None (Some [sample_cond 0])
     \<lparr>j_Name = ''o'', j_SearchColumn = [], j_SearchCondition = [], j_SearchTargetColumn = [],
      j_TargetNameMap = [(''inner'', ''o'')]\<rparr> None]) (Some [])"

lemma delete_drops_join_values:
  "BuildDelete mysql_utils json ''t'' (Query (qf sample_query) [] (Some delete_joins) [] None) s =
     Done ''DELETE `t` FROM `t` INNER JOIN `o` ON `id` = ?'' ([], None) s"
proof -
  have esc: "AppendEscapedReference [] ''id'' backtick = ''`id`''" "AppendEscapedRelation [] ''t'' backtick = ''`t`''"
    "AppendEscapedReference [] (RelationSelectReference ''t'') backtick = ''`t`''" "AppendEscapedRelation [] ''o'' backtick = ''`o`''"
    by code_simp+
  show ?thesis
    using esc
    by (simp add: BuildDelete_def delete_joins_def sample_query_def check_some_def check_list_def MaxDepth_def list_of_def
        before_def andThen_def emit_def EscapeReference_def EscapeRelation_def ret_def RenderJoin_def appendJoinClause_def
        processJoin_def join_kinds_def join_source_def sample_cond_def sample_flat_def appendCondition_def
        placeholder_def GetPlaceholder_def mysql_placeholder_def mysql_utils_def quote_of_def RenderPredicates_def
        PredicateTree_def predicateTree_def OrderBy_def)
qed

end
