(* ===== verification/ValueGuard.thy ===== *)
theory ValueGuard
  imports GoPrelude
begin

text \<open>
  The output guard (\<^verbatim>\<open>orm/internal/valueguard/guard.go\<close>): the cost of writing a value out,
  measured before it is written.  The source walks the value by reflection; here \<^term>\<open>outv\<close> is what
  the walk distinguishes.  Values are trees, so a slice, map or pointer is met once and the memo
  table, which returns the cost a second walk would compute, and the cycle error are not needed.
\<close>

section \<open>Values as the walk sees them\<close>

datatype outv =
    Plain
  | Txt gostring
  | Ref outv
  | Struct "outv list"
  | Items "outv list"
  | Entries "(gostring \<times> outv) list"

datatype guard_error = ErrOutputDepth | ErrOutputBudget

record cost =
  c_nodes :: nat
  c_bytes :: nat
  c_height :: nat

definition GuardDepth :: nat where
  [go_eval]: "GuardDepth = 256"

definition GuardNodes :: nat where
  [go_eval]: "GuardNodes = 65536"

definition GuardBytes :: nat where
  [go_eval]: "GuardBytes = 8388608"

definition one_node :: cost where
  [go_eval]: "one_node = \<lparr>c_nodes = 1, c_bytes = 32, c_height = 0\<rparr>"

definition add_cost :: "cost \<Rightarrow> cost \<Rightarrow> guard_error + cost" where
  [go_eval]: "add_cost out child =
     (if c_nodes child > GuardNodes - c_nodes out \<or> c_bytes child > GuardBytes - c_bytes out
      then Inl ErrOutputBudget
      else Inr \<lparr>c_nodes = c_nodes out + c_nodes child, c_bytes = c_bytes out + c_bytes child,
                c_height = max (c_height out) (c_height child + 1)\<rparr>)"

definition text_cost :: "gostring \<Rightarrow> guard_error + cost" where
  [go_eval]: "text_cost s =
     (if length s > (GuardBytes - 32) div 6 then Inl ErrOutputBudget
      else Inr (one_node\<lparr>c_bytes := 32 + 6 * length s\<rparr>))"

fun visit_with :: "(guard_error + cost) \<Rightarrow> cost \<Rightarrow> guard_error + cost" where
  "visit_with (Inl e) out = Inl e"
| "visit_with (Inr a) out = add_cost out a"

fun guard_walk :: "outv \<Rightarrow> nat \<Rightarrow> guard_error + cost"
and guard_items :: "cost \<Rightarrow> outv list \<Rightarrow> nat \<Rightarrow> guard_error + cost"
and guard_entries :: "cost \<Rightarrow> (gostring \<times> outv) list \<Rightarrow> nat \<Rightarrow> guard_error + cost" where
  "guard_walk v depth =
     (if depth > GuardDepth then Inl ErrOutputDepth
      else case v of
        Plain \<Rightarrow> Inr one_node
      | Txt s \<Rightarrow> text_cost s
      | Ref x \<Rightarrow> visit_with (guard_walk x (depth + 1)) one_node
      | Struct fs \<Rightarrow> guard_items one_node fs (depth + 1)
      | Items xs \<Rightarrow>
          (if length xs > GuardNodes - 1 then Inl ErrOutputBudget
           else guard_items one_node xs (depth + 1))
      | Entries es \<Rightarrow>
          (if length es > (GuardNodes - 1) div 2 then Inl ErrOutputBudget
           else guard_entries one_node es (depth + 1)))"
| "guard_items out [] depth = Inr out"
| "guard_items out (x # xs) depth =
     (case visit_with (guard_walk x depth) out of
        Inl e \<Rightarrow> Inl e
      | Inr out' \<Rightarrow> guard_items out' xs depth)"
| "guard_entries out [] depth = Inr out"
| "guard_entries out ((k, x) # es) depth =
     (case visit_with (if depth > GuardDepth then Inl ErrOutputDepth else text_cost k) out of
        Inl e \<Rightarrow> Inl e
      | Inr out1 \<Rightarrow>
          (case visit_with (guard_walk x depth) out1 of
             Inl e \<Rightarrow> Inl e
           | Inr out2 \<Rightarrow> guard_entries out2 es depth))"

declare guard_walk.simps [simp del]

definition GuardCheck :: "outv \<Rightarrow> guard_error option" where
  [go_eval]: "GuardCheck v = (case guard_walk v 0 of Inl e \<Rightarrow> Some e | Inr _ \<Rightarrow> None)"

section \<open>The cost of a value\<close>

fun out_nodes :: "outv \<Rightarrow> nat" where
  "out_nodes (Ref x) = 1 + out_nodes x"
| "out_nodes (Struct fs) = 1 + sum_list (map out_nodes fs)"
| "out_nodes (Items xs) = 1 + sum_list (map out_nodes xs)"
| "out_nodes (Entries es) = 1 + sum_list (map (\<lambda>e. 1 + out_nodes (snd e)) es)"
| "out_nodes _ = 1"

fun out_bytes :: "outv \<Rightarrow> nat" where
  "out_bytes Plain = 32"
| "out_bytes (Txt s) = 32 + 6 * length s"
| "out_bytes (Ref x) = 32 + out_bytes x"
| "out_bytes (Struct fs) = 32 + sum_list (map out_bytes fs)"
| "out_bytes (Items xs) = 32 + sum_list (map out_bytes xs)"
| "out_bytes (Entries es) = 32 + sum_list (map (\<lambda>e. 32 + 6 * length (fst e) + out_bytes (snd e)) es)"

fun out_height :: "outv \<Rightarrow> nat" where
  "out_height (Ref x) = 1 + out_height x"
| "out_height (Struct fs) = foldr (\<lambda>f h. max (1 + out_height f) h) fs 0"
| "out_height (Items xs) = foldr (\<lambda>f h. max (1 + out_height f) h) xs 0"
| "out_height (Entries es) = foldr (\<lambda>e h. max (1 + out_height (snd e)) (max 1 h)) es 0"
| "out_height _ = 0"

definition list_height :: "outv list \<Rightarrow> nat" where
  "list_height xs = foldr (\<lambda>f h. max (1 + out_height f) h) xs 0"

definition entry_height :: "(gostring \<times> outv) list \<Rightarrow> nat" where
  "entry_height es = foldr (\<lambda>e h. max (1 + out_height (snd e)) (max 1 h)) es 0"

definition cost_of :: "outv \<Rightarrow> cost" where
  "cost_of v = \<lparr>c_nodes = out_nodes v, c_bytes = out_bytes v, c_height = out_height v\<rparr>"

definition affordable :: "cost \<Rightarrow> bool" where
  "affordable c \<longleftrightarrow> c_nodes c \<le> GuardNodes \<and> c_bytes c \<le> GuardBytes"

definition fits :: "outv \<Rightarrow> nat \<Rightarrow> bool" where
  "fits v depth \<longleftrightarrow> depth + out_height v \<le> GuardDepth \<and> affordable (cost_of v)"

text \<open>A walk succeeds, with the cost of the value, exactly when the value fits.\<close>

definition measured_as :: "(guard_error + cost) \<Rightarrow> bool \<Rightarrow> cost \<Rightarrow> bool" where
  "measured_as r ok c \<longleftrightarrow> (if ok then r = Inr c else \<exists>e. r = Inl e)"

lemma measures_cases:
  assumes "measured_as r ok c"
  obtains "ok" "r = Inr c" | e where "\<not> ok" "r = Inl e"
  using assms by (auto simp: measured_as_def split: if_splits)

definition plus_items :: "cost \<Rightarrow> outv list \<Rightarrow> cost" where
  "plus_items out xs = \<lparr>c_nodes = c_nodes out + sum_list (map out_nodes xs),
     c_bytes = c_bytes out + sum_list (map out_bytes xs), c_height = max (c_height out) (list_height xs)\<rparr>"

definition plus_entries :: "cost \<Rightarrow> (gostring \<times> outv) list \<Rightarrow> cost" where
  "plus_entries out es = \<lparr>c_nodes = c_nodes out + sum_list (map (\<lambda>e. 1 + out_nodes (snd e)) es),
     c_bytes = c_bytes out + sum_list (map (\<lambda>e. 32 + 6 * length (fst e) + out_bytes (snd e)) es),
     c_height = max (c_height out) (entry_height es)\<rparr>"

definition room :: "nat \<Rightarrow> nat \<Rightarrow> bool" where
  "room depth h \<longleftrightarrow> h = 0 \<or> depth + h \<le> GuardDepth + 1"

lemma out_nodes_pos: "1 \<le> out_nodes v"
  by (cases v) simp_all

lemma sum_out_nodes: "length xs \<le> sum_list (map out_nodes xs)"
proof (induction xs)
  case (Cons x xs)
  then show ?case using out_nodes_pos [of x] by simp
qed simp

lemma sum_entry_nodes: "2 * length es \<le> sum_list (map (\<lambda>e. 1 + out_nodes (snd e)) es)"
proof (induction es)
  case (Cons e es)
  then show ?case using out_nodes_pos [of "snd e"] by simp
qed simp

lemma add_cost_measures:
  assumes "affordable out"
  shows "measured_as (add_cost out a)
     (affordable \<lparr>c_nodes = c_nodes out + c_nodes a, c_bytes = c_bytes out + c_bytes a,
        c_height = max (c_height out) (c_height a + 1)\<rparr>)
     \<lparr>c_nodes = c_nodes out + c_nodes a, c_bytes = c_bytes out + c_bytes a,
        c_height = max (c_height out) (c_height a + 1)\<rparr>"
  using assms by (auto simp: measured_as_def add_cost_def affordable_def)

lemma text_cost_measures: "measured_as (text_cost s) (affordable (cost_of (Txt s))) (cost_of (Txt s))"
  by (auto simp: measured_as_def text_cost_def affordable_def cost_of_def one_node_def GuardBytes_def GuardNodes_def)


lemma list_height_simps [simp]:
  "list_height [] = 0" "list_height (x # xs) = max (1 + out_height x) (list_height xs)"
  by (simp_all add: list_height_def)

lemma entry_height_simps [simp]:
  "entry_height [] = 0" "entry_height (e # es) = max (1 + out_height (snd e)) (max 1 (entry_height es))"
  by (simp_all add: entry_height_def)

lemma measured_items:
  "cost_of (Struct fs) = plus_items one_node fs" "cost_of (Items fs) = plus_items one_node fs"
  "cost_of (Entries es) = plus_entries one_node es"
  by (simp_all add: cost_of_def plus_items_def plus_entries_def one_node_def list_height_def entry_height_def)

lemma affordable_plus:
  "affordable (plus_items out xs) \<Longrightarrow> affordable out" "affordable (plus_entries out es) \<Longrightarrow> affordable out"
  by (auto simp: affordable_def plus_items_def plus_entries_def)

text \<open>Adding the cost of one more visited value to a running total.\<close>

lemma visit_measures:
  assumes "measured_as r ok (cost_of v)" "affordable out" "ok \<longleftrightarrow> small \<and> affordable (cost_of v)"
    and "tot = \<lparr>c_nodes = c_nodes out + out_nodes v, c_bytes = c_bytes out + out_bytes v,
           c_height = max (c_height out) (out_height v + 1)\<rparr>"
  shows "measured_as (visit_with r out) (small \<and> affordable tot) tot"
  using assms add_cost_measures [OF assms(2), of "cost_of v"]
  by (cases r) (auto simp: measured_as_def affordable_def cost_of_def split: if_splits)

lemma measures_then:
  assumes "measured_as r ok c" "ok \<Longrightarrow> r = Inr c \<Longrightarrow> measured_as (f c) ok' c'" "ok'' \<longleftrightarrow> ok \<and> ok'"
  shows "measured_as (case r of Inl e \<Rightarrow> Inl e | Inr a \<Rightarrow> f a) ok'' c'"
  using assms by (cases r) (auto simp: measured_as_def split: if_splits)

lemma out_heights:
  "out_height (Struct fs) = list_height fs" "out_height (Items fs) = list_height fs"
  "out_height (Entries es) = entry_height es"
  by (simp_all add: list_height_def entry_height_def)

lemma fits_items:
  assumes "\<not> GuardDepth < depth"
  shows "fits (Struct fs) depth \<longleftrightarrow> room (depth + 1) (list_height fs) \<and> affordable (plus_items one_node fs)"
    "fits (Items fs) depth \<longleftrightarrow> room (depth + 1) (list_height fs) \<and> affordable (plus_items one_node fs)"
    "fits (Entries es) depth \<longleftrightarrow> room (depth + 1) (entry_height es) \<and> affordable (plus_entries one_node es)"
  using assms
  by (auto simp: fits_def measured_items room_def out_heights simp del: out_height.simps)

lemma fits_short:
  "fits (Items xs) depth \<Longrightarrow> length xs \<le> GuardNodes - 1"
  "fits (Entries es) depth \<Longrightarrow> length es \<le> (GuardNodes - 1) div 2"
  using sum_out_nodes [of xs] sum_entry_nodes [of es]
  by (auto simp: fits_def affordable_def cost_of_def GuardNodes_def)

lemma guard_measures:
  "measured_as (guard_walk v depth) (fits v depth) (cost_of v)"
  "affordable out \<Longrightarrow>
     measured_as (guard_items out xs depth) (room depth (list_height xs) \<and> affordable (plus_items out xs)) (plus_items out xs)"
  "affordable out \<Longrightarrow>
     measured_as (guard_entries out es depth) (room depth (entry_height es) \<and> affordable (plus_entries out es)) (plus_entries out es)"
proof (induction v depth and out xs depth and out es depth rule: guard_walk_guard_items_guard_entries.induct)
  case (1 v depth)
  show ?case
  proof (cases "depth > GuardDepth")
    case True
    then show ?thesis
      by (simp add: guard_walk.simps measured_as_def fits_def)
  next
    case shallow: False
    have one: "affordable one_node"
      by (simp add: affordable_def one_node_def GuardNodes_def GuardBytes_def)
    show ?thesis
    proof (cases v)
      case Plain
      then show ?thesis
        using shallow one by (simp add: guard_walk.simps measured_as_def fits_def cost_of_def one_node_def)
    next
      case (Txt s)
      then show ?thesis
        using shallow text_cost_measures [of s] by (simp add: guard_walk.simps fits_def)
    next
      case (Ref x)
      have "measured_as (visit_with (guard_walk x (depth + 1)) one_node)
          (depth + 1 + out_height x \<le> GuardDepth \<and> affordable (cost_of v)) (cost_of v)"
        using 1(1) [OF shallow Ref] one Ref
        by (intro visit_measures) (auto simp: fits_def cost_of_def one_node_def)
      then show ?thesis
        using shallow Ref by (simp add: guard_walk.simps fits_def)
    next
      case (Struct fs)
      with 1(2) [OF shallow Struct one] shallow show ?thesis
        by (simp add: guard_walk.simps fits_items measured_items)
    next
      case (Items xs)
      show ?thesis
      proof (cases "length xs > GuardNodes - 1")
        case True
        with fits_short(1) [of xs depth] Items shallow show ?thesis
          by (auto simp: guard_walk.simps measured_as_def)
      next
        case False
        with 1(3) [OF shallow Items False one] shallow Items show ?thesis
          by (simp add: guard_walk.simps fits_items measured_items)
      qed
    next
      case (Entries es)
      show ?thesis
      proof (cases "length es > (GuardNodes - 1) div 2")
        case True
        with fits_short(2) [of es depth] Entries shallow show ?thesis
          by (auto simp: guard_walk.simps measured_as_def)
      next
        case False
        with 1(4) [OF shallow Entries False one] shallow Entries show ?thesis
          by (simp add: guard_walk.simps fits_items measured_items)
      qed
    qed
  qed
next
  case (2 out depth)
  then show ?case by (simp add: measured_as_def room_def plus_items_def affordable_def)
next
  case (3 out x xs depth)
  let ?out = "plus_items out [x]"
  have step: "measured_as (visit_with (guard_walk x depth) out) (depth + out_height x \<le> GuardDepth \<and> affordable ?out) ?out"
    using 3(1,3) by (intro visit_measures) (auto simp: fits_def plus_items_def)
  have whole: "plus_items ?out xs = plus_items out (x # xs)"
    by (simp add: plus_items_def)
  have more: "room depth (list_height (x # xs)) \<and> affordable (plus_items out (x # xs)) \<longleftrightarrow>
      (depth + out_height x \<le> GuardDepth \<and> affordable ?out) \<and>
      room depth (list_height xs) \<and> affordable (plus_items ?out xs)"
    unfolding whole using affordable_plus(1) [of ?out xs] by (auto simp: whole room_def)
  show ?case
    unfolding guard_items.simps whole [symmetric]
  proof (rule measures_then [OF step _ more [folded whole]])
    assume "depth + out_height x \<le> GuardDepth \<and> affordable ?out"
      "visit_with (guard_walk x depth) out = Inr ?out"
    then show "measured_as (guard_items ?out xs depth) (room depth (list_height xs) \<and> affordable (plus_items ?out xs)) (plus_items ?out xs)"
      using 3(2) by blast
  qed
next
  case (4 out depth)
  then show ?case by (simp add: measured_as_def room_def plus_entries_def affordable_def)
next
  case (5 out k x es depth)
  let ?key = "\<lparr>c_nodes = c_nodes out + 1, c_bytes = c_bytes out + (32 + 6 * length k),
      c_height = max (c_height out) 1\<rparr>"
  let ?out = "plus_entries out [(k, x)]"
  have key: "measured_as (visit_with (if depth > GuardDepth then Inl ErrOutputDepth else text_cost k) out)
      (depth \<le> GuardDepth \<and> affordable ?key) ?key"
    using 5(3) text_cost_measures [of k]
    by (intro visit_measures [where v = "Txt k" and ok = "depth \<le> GuardDepth \<and> affordable (cost_of (Txt k))"])
       (auto simp: measured_as_def)
  have item: "measured_as (visit_with (guard_walk x depth) ?key) (depth + out_height x \<le> GuardDepth \<and> affordable ?out) ?out"
    if "affordable ?key" and "visit_with (if depth > GuardDepth then Inl ErrOutputDepth else text_cost k) out = Inr ?key"
    using 5(1) [OF that(2)] that(1) by (intro visit_measures [where v = x]) (auto simp: fits_def plus_entries_def)
  have whole: "plus_entries ?out es = plus_entries out ((k, x) # es)"
    by (simp add: plus_entries_def)
  have inner: "affordable ?key" if "affordable ?out"
    using that by (simp add: plus_entries_def affordable_def)
  have more: "room depth (entry_height ((k, x) # es)) \<and> affordable (plus_entries out ((k, x) # es)) \<longleftrightarrow>
      (depth \<le> GuardDepth \<and> affordable ?key) \<and> (depth + out_height x \<le> GuardDepth \<and> affordable ?out) \<and>
      room depth (entry_height es) \<and> affordable (plus_entries ?out es)"
    using affordable_plus(2) [of ?out es] inner by (auto simp: whole room_def)
  show ?case
    unfolding guard_entries.simps whole [symmetric]
  proof (rule measures_then [OF key _ more [folded whole]])
    assume paid: "depth \<le> GuardDepth \<and> affordable ?key"
      and seen: "visit_with (if depth > GuardDepth then Inl ErrOutputDepth else text_cost k) out = Inr ?key"
    show "measured_as (case visit_with (guard_walk x depth) ?key of Inl e \<Rightarrow> Inl e | Inr out2 \<Rightarrow> guard_entries out2 es depth)
        ((depth + out_height x \<le> GuardDepth \<and> affordable ?out) \<and>
          room depth (entry_height es) \<and> affordable (plus_entries ?out es)) (plus_entries ?out es)"
    proof (rule measures_then [OF item _ refl])
      show "affordable ?key" using paid by blast
      show "visit_with (if depth > GuardDepth then Inl ErrOutputDepth else text_cost k) out = Inr ?key" by (rule seen)
      assume "depth + out_height x \<le> GuardDepth \<and> affordable ?out"
        "visit_with (guard_walk x depth) ?key = Inr ?out"
      then show "measured_as (guard_entries ?out es depth) (room depth (entry_height es) \<and> affordable (plus_entries ?out es)) (plus_entries ?out es)"
        using 5(2) seen by blast
    qed
  qed
qed

lemma GuardCheck_None_iff:
  "GuardCheck v = None \<longleftrightarrow> out_height v \<le> 256 \<and> out_nodes v \<le> 65536 \<and> out_bytes v \<le> 8388608"
  using guard_measures(1) [of v 0]
  by (auto simp: GuardCheck_def measured_as_def fits_def affordable_def cost_of_def GuardDepth_def GuardNodes_def
      GuardBytes_def split: sum.splits if_splits)

section \<open>Properties\<close>

text \<open>
  C16: The output guard accepts a value exactly when it nests at most 256 levels deep, its walk has at most 65536 nodes
  and its worst-case text at most 8 MiB.
\<close>

theorem guard_accepts_iff:
  "GuardCheck v = None \<longleftrightarrow> out_height v \<le> 256 \<and> out_nodes v \<le> 65536 \<and> out_bytes v \<le> 8388608"
  by (rule GuardCheck_None_iff)

end
