(* ===== verification/TableNames.thy ===== *)
theory TableNames
  imports GoPrelude
begin

text \<open>
  Identifier handling of the policy checks: the normalisation under which table and column
  names are compared (the end of \<^verbatim>\<open>orm/query/policy.go\<close>) and the strict identifiers the write scope
  and tenant analyses accept (\<^verbatim>\<open>scopeIdent\<close> and its relatives in \<^verbatim>\<open>orm/query/write_scope.go\<close>).
\<close>

section \<open>Normalised names\<close>

definition quote_marks :: "char set" where
  [go_eval]: "quote_marks = {CHR ''`'', CHR 0x22}"

text \<open>What follows the last dot, all of the name when there is none.\<close>

definition after_last_dot :: "gostring \<Rightarrow> gostring" where
  [go_eval]: "after_last_dot s = (case last_index s CHR ''.'' of Some i \<Rightarrow> drop (i + 1) s | None \<Rightarrow> s)"

definition normalizeColumnName :: "gostring \<Rightarrow> gostring" where
  [go_eval]: "normalizeColumnName col =
     (let trimmed = trim_set quote_marks (trim_space col)
      in to_lower (trim_set quote_marks (after_last_dot trimmed)))"

definition normalizeIdentifierToken :: "gostring \<Rightarrow> gostring" where
  [go_eval]: "normalizeIdentifierToken s =
     to_lower (replace_byte CHR 0x22 [] (replace_byte CHR ''`'' [] (trim_set quote_marks (trim_space s))))"

definition simple_identifier_byte :: "char \<Rightarrow> bool" where
  [go_eval]: "simple_identifier_byte c \<longleftrightarrow>
     is_lower c \<or> is_upper c \<or> is_digit c \<or> c = CHR ''_'' \<or> c = CHR ''$'' \<or> c = CHR ''.''"

definition isSimpleIdentifierToken :: "gostring \<Rightarrow> bool" where
  [go_eval]: "isSimpleIdentifierToken s \<longleftrightarrow>
     (let t = trim_set quote_marks s in t \<noteq> [] \<and> (\<forall>c \<in> set t. simple_identifier_byte c))"

definition splitTableAlias :: "gostring \<Rightarrow> gostring \<times> gostring" where
  [go_eval]: "splitTableAlias table =
     (let trimmed = trim_space table; fs = fields trimmed
      in if length fs \<ge> 3 \<and> equal_fold (fs ! 1) ''as'' then (fs ! 0, fs ! 2)
         else if length fs = 2 \<and> isSimpleIdentifierToken (fs ! 0) \<and> isSimpleIdentifierToken (fs ! 1)
         then (fs ! 0, fs ! 1)
         else (trimmed, []))"

definition normalizeTableName :: "gostring \<Rightarrow> gostring" where
  [go_eval]: "normalizeTableName table =
     (let trimmed = trim_space table
      in if trimmed = [] then [] else normalizeIdentifierToken (fst (splitTableAlias trimmed)))"

definition splitColumnReference :: "gostring \<Rightarrow> gostring \<times> gostring" where
  [go_eval]: "splitColumnReference reference =
     (let r = trim_space reference
      in if r = [] then ([], [])
         else case last_index r CHR ''.'' of
           None \<Rightarrow> ([], normalizeColumnName r)
         | Some i \<Rightarrow> (normalizeIdentifierToken (take i r), normalizeColumnName r))"

definition addTableQualifier :: "gostring \<Rightarrow> gostring list" where
  [go_eval]: "addTableQualifier v =
     (let q = normalizeIdentifierToken v
      in if q = [] then []
         else q # (case last_index q CHR ''.'' of
                     Some i \<Rightarrow> (if i + 1 < length q then [drop (i + 1) q] else [])
                   | None \<Rightarrow> []))"

text \<open>The qualifiers are a set: its elements as a list, none for the nil set.\<close>

definition predicateColumnMatches :: "gostring \<Rightarrow> gostring \<Rightarrow> gostring list \<Rightarrow> bool \<Rightarrow> bool" where
  [go_eval]: "predicateColumnMatches reference target qualifiers allowUnqualified =
     (case splitColumnReference reference of (qualifier, name) \<Rightarrow>
        if name = [] \<or> name \<noteq> target then False
        else if qualifiers = [] then True
        else if qualifier = [] then allowUnqualified
        else qualifier \<in> set qualifiers)"

section \<open>Strict identifiers\<close>

definition ident_start :: "char \<Rightarrow> bool" where
  [go_eval]: "ident_start c \<longleftrightarrow> is_lower c \<or> is_upper c \<or> c = CHR ''_''"

definition scopeIdent :: "gostring \<Rightarrow> bool" where
  [go_eval]: "scopeIdent s \<longleftrightarrow> length s \<le> 256 \<and>
     (case s of [] \<Rightarrow> False
      | c # cs \<Rightarrow> ident_start c \<and> (\<forall>d \<in> set cs. ident_start d \<or> is_digit d))"

definition scopePath :: "gostring \<Rightarrow> bool" where
  [go_eval]: "scopePath s \<longleftrightarrow>
     (let parts = split_on CHR ''.'' s in length parts \<le> 2 \<and> (\<forall>p \<in> set parts. scopeIdent p))"

definition scopeColumn :: "gostring \<Rightarrow> bool" where
  [go_eval]: "scopeColumn s \<longleftrightarrow>
     (let parts = split_on CHR ''.'' s in length parts \<le> 3 \<and> (\<forall>p \<in> set parts. scopeIdent p))"

text \<open>A column reference split at its last dot into qualifier and name.\<close>

definition split_qualifier :: "gostring \<Rightarrow> gostring \<times> gostring" where
  [go_eval]: "split_qualifier s =
     (case last_index s CHR ''.'' of Some i \<Rightarrow> (take i s, drop (i + 1) s) | None \<Rightarrow> ([], s))"

definition target_name :: "gostring \<Rightarrow> gostring \<Rightarrow> gostring" where
  [go_eval]: "target_name table al = (if al \<noteq> [] then al else table)"

definition scopeTargetColumn :: "gostring \<Rightarrow> gostring \<Rightarrow> gostring \<Rightarrow> bool" where
  [go_eval]: "scopeTargetColumn s table al \<longleftrightarrow> scopeColumn s \<and>
     (case last_index s CHR ''.'' of Some i \<Rightarrow> take i s = target_name table al | None \<Rightarrow> True)"

section \<open>Facts\<close>

lemma normalizeColumnName_lower [simp]: "to_lower (normalizeColumnName s) = normalizeColumnName s"
  by (simp add: normalizeColumnName_def Let_def)

lemma normalizeIdentifierToken_lower [simp]:
  "to_lower (normalizeIdentifierToken s) = normalizeIdentifierToken s"
  by (simp add: normalizeIdentifierToken_def)

lemma scopeIdent_no_dot: "scopeIdent s \<Longrightarrow> CHR ''.'' \<notin> set s"
  by (auto simp: scopeIdent_def ident_start_def is_lower_def is_upper_def is_digit_def byte_def split: list.splits)

lemma scopeIdent_nonempty: "scopeIdent s \<Longrightarrow> s \<noteq> []"
  by (auto simp: scopeIdent_def)

lemma last_index_append:
  "d \<notin> set t \<Longrightarrow> last_index (s @ d # t) d = Some (length s)"
proof (induction s)
  case Nil
  then show ?case using last_index_None [of t d] by simp
qed simp

lemma split_on_append: "d \<notin> set s \<Longrightarrow> split_on d (s @ d # t) = s # split_on d t"
  by (induction s) auto

lemma split_on_plain: "d \<notin> set s \<Longrightarrow> split_on d s = [s]"
  by (induction s) auto

text \<open>A qualified reference made of strict identifiers resolves to its parts.\<close>

lemma split_qualifier_dotted: "CHR ''.'' \<notin> set c \<Longrightarrow> split_qualifier (q @ CHR ''.'' # c) = (q, c)"
  by (simp add: split_qualifier_def last_index_append)

lemma split_qualifier_bare: "CHR ''.'' \<notin> set c \<Longrightarrow> split_qualifier c = ([], c)"
  using last_index_None [of c "CHR ''.''"] by (simp add: split_qualifier_def)

lemma scopeTargetColumn_iff:
  "scopeTargetColumn s table al \<longleftrightarrow>
     scopeColumn s \<and> (CHR ''.'' \<notin> set s \<or> fst (split_qualifier s) = target_name table al)"
  using last_index_None [of s "CHR ''.''"]
  by (auto simp: scopeTargetColumn_def split_qualifier_def split: option.splits)

end
