(* ===== verification/PlanData.thy ===== *)
theory PlanData
  imports PredicateView TableNames ValueGuard
begin

text \<open>
  The query plan (\<^verbatim>\<open>orm/query/plan.go\<close>) and the data it carries: warnings, approvals, the policies and
  key assertions of the application, and the private evidence the plan is checked against.  A slice
  that the code compares with \<^verbatim>\<open>reflect.DeepEqual\<close> is an option, because a nil slice differs from an
  empty one there.  Times are instants, as integers.  The execution a plan is bound to
  (\<^verbatim>\<open>plannedExecution\<close>) and the validation of typed operations are not part of this record.
\<close>

section \<open>Strings that name things\<close>

abbreviation OperationSelect :: gostring where "OperationSelect \<equiv> ''select''"
abbreviation OperationInsert :: gostring where "OperationInsert \<equiv> ''insert''"
abbreviation OperationUpdate :: gostring where "OperationUpdate \<equiv> ''update''"
abbreviation OperationDelete :: gostring where "OperationDelete \<equiv> ''delete''"
abbreviation OperationRaw :: gostring where "OperationRaw \<equiv> ''raw''"

abbreviation RiskLow :: gostring where "RiskLow \<equiv> ''low''"
abbreviation RiskMedium :: gostring where "RiskMedium \<equiv> ''medium''"
abbreviation RiskHigh :: gostring where "RiskHigh \<equiv> ''high''"
abbreviation RiskDestructive :: gostring where "RiskDestructive \<equiv> ''destructive''"
abbreviation RiskBlocked :: gostring where "RiskBlocked \<equiv> ''blocked''"

abbreviation AnalysisPrecise :: gostring where "AnalysisPrecise \<equiv> ''precise''"
abbreviation AnalysisPartial :: gostring where "AnalysisPartial \<equiv> ''partial''"
abbreviation AnalysisUnsupported :: gostring where "AnalysisUnsupported \<equiv> ''unsupported''"

section \<open>The parts of a plan\<close>

record table_ref =
  tr_Name :: gostring
  tr_Alias :: gostring

record column_ref =
  cr_Table :: gostring
  cr_Name :: gostring
  cr_Expression :: gostring
  cr_Raw :: bool
  cr_Distinct :: bool
  cr_Count :: bool
  cr_Function :: gostring

record join_ref =
  jr_OnTree :: "pnode option"
  jr_Type :: gostring
  jr_Table :: gostring
  jr_Alias :: gostring
  jr_LeftColumn :: gostring
  jr_Operator :: gostring
  jr_RightColumn :: gostring
  jr_Subquery :: bool

record predicate_ref =
  pr_Group :: int
  pr_Connector :: gostring
  pr_Column :: gostring
  pr_Operator :: gostring
  pr_ValueCount :: nat
  pr_ValueColumn :: gostring
  pr_Raw :: gostring
  pr_Function :: gostring
  pr_Subquery :: bool
  pr_Negated :: bool

record required_predicate =
  rp_Table :: gostring
  rp_Column :: gostring

record source_location =
  sl_File :: gostring
  sl_Line :: int
  sl_Column :: int

record approval =
  ap_Reason :: gostring
  ap_Scope :: gostring
  ap_CreatedBy :: gostring
  ap_CreatedAt :: int
  ap_ExpiresAt :: "int option"

section \<open>Key assertions and write evidence\<close>

record write_key_column =
  kc_Name :: gostring
  kc_DBType :: gostring
  kc_Bits :: int
  kc_Unsigned :: bool
  kc_Nullable :: bool

record write_key =
  wk_Name :: gostring
  wk_Kind :: gostring
  wk_Columns :: "write_key_column list"
  wk_AllRows :: bool
  wk_Valid :: bool
  wk_NotDeferrable :: bool
  wk_Partial :: bool
  wk_Expression :: bool

record write_key_context =
  kx_invalid :: gostring
  kx_Database :: gostring
  kx_Dialect :: gostring
  kx_Table :: gostring
  kx_Alias :: gostring
  kx_Constraints :: "write_key list"

record write_scope_result =
  ws_Status :: gostring
  ws_Reason :: gostring
  ws_Precision :: gostring
  ws_Provenance :: gostring
  ws_Assumptions :: "gostring list"
  ws_Key :: gostring
  ws_Database :: gostring
  ws_Dialect :: gostring
  ws_Table :: gostring
  ws_Alias :: gostring
  ws_KeyColumns :: "gostring list"

text \<open>The part of a plan that corresponds to what its builder rendered.\<close>

record write_view =
  wv_Operation :: gostring
  wv_SQL :: gostring
  wv_Params :: "goval list option"
  wv_Tables :: "table_ref list option"
  wv_Columns :: "column_ref list option"
  wv_Joins :: "join_ref list option"
  wv_Where :: "pnode option"
  wv_Having :: "pnode option"
  wv_Unverified :: "gostring list option"

record write_evidence =
  we_view :: write_view
  we_keys :: "write_key_context option"
  we_dialect :: gostring
  we_failure :: gostring

record tenant_evidence =
  te_view :: "write_view option"
  te_failure :: gostring

record tenant_policy_result =
  tp_Status :: gostring
  tp_Reason :: gostring
  tp_Precision :: gostring
  tp_Provenance :: gostring
  tp_SchemaFreshness :: gostring
  tp_PolicyFreshness :: gostring
  tp_ExecutorIdentity :: gostring

datatype evidence_value = EvScope write_scope_result | EvText gostring

record warning =
  wn_Code :: gostring
  wn_Level :: gostring
  wn_Message :: gostring
  wn_Location :: "source_location option"
  wn_Hint :: gostring
  wn_Evidence :: "(gostring \<times> evidence_value) list"
  wn_Suppressible :: bool
  wn_RequiresReason :: bool

text \<open>The metadata entries the checks read; any other value is \<^term>\<open>MetaOther\<close>.\<close>

record table_risk_metadata =
  rm_Table :: gostring
  rm_PrimaryKeyColumns :: "gostring list"
  rm_UniqueIndexes :: "gostring list list"
  rm_TenantColumn :: gostring
  rm_SoftDeleteColumn :: gostring
  rm_RequiredFilterColumns :: "gostring list"

datatype meta_value =
    MetaString gostring
  | MetaStrings "gostring list"
  | MetaRequired "required_predicate list"
  | MetaList "goval list"
  | MetaTableRisk "table_risk_metadata list"
  | MetaOther nat

record query_plan =
  Version :: int
  tenantEvidence :: "tenant_evidence option"
  TenantPolicy :: "tenant_policy_result option"
  writeEvidence :: "write_evidence option"
  WriteScope :: "write_scope_result option"
  conditionSource :: "pnode option"
  generatedConditions :: bool
  WhereTree :: "pnode option"
  HavingTree :: "pnode option"
  Unverified :: "gostring list option"
  Operation :: gostring
  SQL :: gostring
  Params :: "goval list option"
  Tables :: "table_ref list option"
  Columns :: "column_ref list option"
  PlanJoins :: "join_ref list option"
  Predicates :: "predicate_ref list option"
  PlanLimit :: "int option"
  PlanOffset :: "int option"
  RiskLevel :: gostring
  Warnings :: "warning list"
  SuppressedWarnings :: "warning list"
  RequiredApproval :: bool
  Blocked :: bool
  PlanApproval :: "approval option"
  Precision :: gostring
  Metadata :: "(gostring \<rightharpoonup> meta_value) option"

text \<open>A nil slice ranges like an empty one; \<^verbatim>\<open>append\<close> of one element never gives nil.\<close>

definition items :: "'a list option \<Rightarrow> 'a list" where
  [go_eval]: "items xs = (case xs of None \<Rightarrow> [] | Some ys \<Rightarrow> ys)"

definition push :: "'a list option \<Rightarrow> 'a \<Rightarrow> 'a list option" where
  [go_eval]: "push xs x = Some (items xs @ [x])"

text \<open>\<^verbatim>\<open>append([]T(nil), xs...)\<close>: a copy that is nil when there is nothing to copy.\<close>

definition fresh_slice :: "'a list option \<Rightarrow> 'a list option" where
  [go_eval]: "fresh_slice xs = (if items xs = [] then None else Some (items xs))"

lemma items_simps [simp]: "items None = []" "items (Some ys) = ys" "items (push xs x) = items xs @ [x]"
  by (simp_all add: items_def push_def)

lemma items_fresh [simp]: "items (fresh_slice xs) = items xs"
  by (simp add: fresh_slice_def)

definition no_nil_gap :: "'a list option \<Rightarrow> bool" where
  [go_eval]: "no_nil_gap xs \<longleftrightarrow> xs \<noteq> Some []"

lemma fresh_slice_id: "no_nil_gap xs \<Longrightarrow> fresh_slice xs = xs"
  by (cases xs) (auto simp: fresh_slice_def no_nil_gap_def)

lemma no_nil_gap_push [simp]: "no_nil_gap (push xs x)"
  by (simp add: no_nil_gap_def push_def)

text \<open>The copier returns the values it is given; only its report differs.\<close>

lemma copy_slice_same: "within c \<Longrightarrow> copy_slice c vs = (ws, c') \<Longrightarrow> ws = vs"
proof (induction vs arbitrary: c ws c')
  case (Cons v vs)
  obtain y ok c1 where v: "Copy c v = ((y, ok), c1)" by (metis surj_pair)
  with Copy_spec [OF Cons.prems(1) v] Cons.prems Cons.IH [of c1] show ?case
    by (auto split: prod.splits)
qed simp

lemma Slice_same [simp]: "fst (Slice new_copier xs) = xs"
  using copy_slice_same [OF within_new] by (auto simp: Slice_def split: option.splits prod.splits)

definition newQueryPlan :: "gostring \<Rightarrow> gostring \<Rightarrow> goval list option \<Rightarrow> query_plan" where
  [go_eval]: "newQueryPlan oper sqlStr args =
     \<lparr>Version = 1, tenantEvidence = None, TenantPolicy = None, writeEvidence = None, WriteScope = None,
      conditionSource = None, generatedConditions = False, WhereTree = None, HavingTree = None, Unverified = None,
      Operation = oper, SQL = sqlStr, Params = fst (Slice new_copier args), Tables = None, Columns = None,
      PlanJoins = None, Predicates = None, PlanLimit = None, PlanOffset = None, RiskLevel = RiskLow,
      Warnings = [], SuppressedWarnings = [], RequiredApproval = False, Blocked = False, PlanApproval = None,
      Precision = AnalysisPrecise, Metadata = None\<rparr>"

section \<open>Tables, columns and predicates of a plan\<close>

definition appendTableRef :: "query_plan \<Rightarrow> gostring \<Rightarrow> gostring \<Rightarrow> query_plan" where
  [go_eval]: "appendTableRef plan name al =
     (if name = [] then plan
      else if \<exists>t \<in> set (items (Tables plan)). tr_Name t = name \<and> tr_Alias t = al then plan
      else plan\<lparr>Tables := push (Tables plan) \<lparr>tr_Name = name, tr_Alias = al\<rparr>\<rparr>)"

definition columnRefsFromNames :: "gostring list \<Rightarrow> column_ref list" where
  [go_eval]: "columnRefsFromNames names =
     map (\<lambda>n. \<lparr>cr_Table = [], cr_Name = n, cr_Expression = [], cr_Raw = False, cr_Distinct = False,
        cr_Count = False, cr_Function = []\<rparr>) names"

definition predicate_of :: "node_info \<Rightarrow> predicate_ref" where
  [go_eval]: "predicate_of i =
     \<lparr>pr_Group = 0, pr_Connector = [], pr_Column = column i, pr_Operator = operator i,
      pr_ValueCount = length (parameters i), pr_ValueColumn = value_column i, pr_Raw = raw_sql i,
      pr_Function = func_name i, pr_Subquery = (opaque_reason i = ''subquery''), pr_Negated = False\<rparr>"

fun tree_predicates :: "pnode option \<Rightarrow> predicate_ref list"
and tree_predicates_list :: "pnode option list \<Rightarrow> predicate_ref list" where
  "tree_predicates None = []"
| "tree_predicates (Some (Node i cs)) = (if cs \<noteq> [] then tree_predicates_list cs else [predicate_of i])"
| "tree_predicates_list [] = []"
| "tree_predicates_list (c # cs) = tree_predicates c @ tree_predicates_list cs"

definition inspectionPredicates :: "query_plan \<Rightarrow> predicate_ref list" where
  [go_eval]: "inspectionPredicates plan =
     (if generatedConditions plan then tree_predicates (conditionSource plan) else items (Predicates plan))"

section \<open>Qualifiers, tables and predicates under the policies' name comparison\<close>

definition tableQualifierSet :: "query_plan \<Rightarrow> gostring \<Rightarrow> gostring list" where
  [go_eval]: "tableQualifierSet plan table =
     (if trim_space table = [] then []
      else concat (map (\<lambda>r.
             if normalizeTableName (tr_Name r) \<noteq> normalizeTableName table then []
             else addTableQualifier (tr_Name r) @ addTableQualifier (tr_Alias r) @
               addTableQualifier (fst (splitTableAlias (tr_Name r))) @
               addTableQualifier (snd (splitTableAlias (tr_Name r))))
           (items (Tables plan))))"

definition hasPolicyPredicateColumn :: "query_plan \<Rightarrow> gostring \<Rightarrow> gostring \<Rightarrow> bool \<Rightarrow> bool" where
  [go_eval]: "hasPolicyPredicateColumn plan table col allowUnqualified =
     (let target = normalizeColumnName col; qualifiers = tableQualifierSet plan table
      in \<exists>p \<in> set (inspectionPredicates plan).
           predicateColumnMatches (pr_Column p) target qualifiers allowUnqualified \<or>
           predicateColumnMatches (pr_ValueColumn p) target qualifiers allowUnqualified)"

definition planTouchesTable :: "query_plan \<Rightarrow> gostring \<Rightarrow> bool" where
  [go_eval]: "planTouchesTable plan table =
     (\<exists>r \<in> set (items (Tables plan)). normalizeTableName (tr_Name r) = normalizeTableName table)"

definition countPlanTables :: "query_plan \<Rightarrow> nat" where
  [go_eval]: "countPlanTables plan =
     length (remdups (filter (\<lambda>n. n \<noteq> []) (map (\<lambda>r. normalizeTableName (tr_Name r)) (items (Tables plan)))))"

definition PlanHasPredicateColumn :: "query_plan \<Rightarrow> gostring \<Rightarrow> gostring \<Rightarrow> bool" where
  [go_eval]: "PlanHasPredicateColumn plan table col =
     (let t = trim_space table
      in hasPolicyPredicateColumn plan t col (t = [] \<or> countPlanTables plan \<le> 1))"

fun missing_from :: "query_plan \<Rightarrow> gostring list \<Rightarrow>
    required_predicate list \<Rightarrow> required_predicate list" where
  "missing_from plan keys [] = []"
| "missing_from plan keys (req # reqs) =
     (let r = \<lparr>rp_Table = trim_space (rp_Table req), rp_Column = trim_space (rp_Column req)\<rparr>;
          key = normalizeTableName (rp_Table r) @ ''.'' @ normalizeColumnName (rp_Column r)
      in if rp_Column r = [] then missing_from plan keys reqs
         else if key \<in> set keys then missing_from plan keys reqs
         else (if PlanHasPredicateColumn plan (rp_Table r) (rp_Column r) then [] else [r]) @
              missing_from plan (key # keys) reqs)"

definition MissingRequiredPredicates :: "query_plan \<Rightarrow> required_predicate list \<Rightarrow> required_predicate list" where
  [go_eval]: "MissingRequiredPredicates plan required = missing_from plan [] required"

definition AttachTableRiskMetadata :: "query_plan \<Rightarrow> table_risk_metadata list \<Rightarrow> query_plan" where
  [go_eval]: "AttachTableRiskMetadata plan metadata =
     (if metadata = [] then plan
      else plan\<lparr>Metadata :=
        Some ((case Metadata plan of None \<Rightarrow> Map.empty | Some m \<Rightarrow> m)(''table_risk_metadata'' \<mapsto> MetaTableRisk metadata))\<rparr>)"

end
