(* ===== verification/TreeMeaning.thy ===== *)
theory TreeMeaning
  imports PredicateView SqlLogic
begin

text \<open>
  What an inspected condition tree means on a row: the connectives of SQL's logic over the values of the
  leaves.  \<^term>\<open>L\<close> gives each leaf its value on the row; the analyses of writes and tenants are judged against every
  such reading that evaluates the comparisons they rely on the way SQL does.
\<close>

fun tree_value :: "(node_info \<Rightarrow> tv) \<Rightarrow> pnode option \<Rightarrow> tv"
and tree_values :: "(node_info \<Rightarrow> tv) \<Rightarrow> pnode option list \<Rightarrow> tv list" where
  "tree_value L None = UU"
| "tree_value L (Some (Node i cs)) =
     (if kind i = ''and'' \<or> kind i = ''group'' then tv_all (tree_values L cs)
      else if kind i = ''or'' then tv_any (tree_values L cs)
      else if kind i = ''not'' then tv_not (tv_all (tree_values L cs))
      else L i)"
| "tree_values L [] = []"
| "tree_values L (c # cs) = tree_value L c # tree_values L cs"

lemma tree_values_map [simp]: "tree_values L cs = map (tree_value L) cs"
  by (induction cs) simp_all

lemma tree_value_and: "kind i = ''and'' \<Longrightarrow> tree_value L (Some (Node i cs)) = TT \<longleftrightarrow> (\<forall>c \<in> set cs. tree_value L c = TT)"
  by simp

lemma tree_value_or: "kind i = ''or'' \<Longrightarrow> tree_value L (Some (Node i cs)) = TT \<longleftrightarrow> (\<exists>c \<in> set cs. tree_value L c = TT)"
  by (simp add: image_iff eq_commute [of TT])

lemma tree_value_group: "kind i = ''group'' \<Longrightarrow> tree_value L (Some (Node i cs)) = TT \<longleftrightarrow> (\<forall>c \<in> set cs. tree_value L c = TT)"
  by simp

text \<open>
  A check that decides, from the tree alone, that a condition pins some fact down on every branch: it may take one
  conjunct, needs every disjunct, looks through a group of one and tests a leaf.  Whatever check works that way is
  sound when its leaf test is.
\<close>

locale branch_check =
  fixes claims :: "pnode option \<Rightarrow> bool"
    and leaf_claims :: "node_info \<Rightarrow> bool"
  assumes claims_None: "\<not> claims None"
    and claims_group: "kind i = ''group'' \<Longrightarrow> claims (Some (Node i cs)) \<Longrightarrow> \<exists>c. cs = [c] \<and> claims c"
    and claims_and: "kind i = ''and'' \<Longrightarrow> claims (Some (Node i cs)) \<Longrightarrow> \<exists>c \<in> set cs. claims c"
    and claims_or: "kind i = ''or'' \<Longrightarrow> claims (Some (Node i cs)) \<Longrightarrow> \<forall>c \<in> set cs. claims c"
    and claims_leaf: "kind i \<notin> {''group'', ''and'', ''or''} \<Longrightarrow> claims (Some (Node i cs)) \<Longrightarrow>
      kind i = ''comparison'' \<and> leaf_claims i"
begin

lemma claim_holds:
  assumes leaf: "\<And>i. leaf_claims i \<Longrightarrow> L i = TT \<Longrightarrow> holds"
  shows "claims t \<Longrightarrow> tree_value L t = TT \<Longrightarrow> holds"
proof (induction t rule: measure_induct_rule [where f = "size_option size"])
  case (less t)
  then obtain i cs where t: "t = Some (Node i cs)"
    using claims_None by (cases t) (auto elim: pnode.exhaust)
  have smaller: "size_option size c < size_option size t" if "c \<in> set cs" for c
    using that size_list_estimation' [of c cs "size_option size c" "size_option size"] by (auto simp: t)
  consider "kind i = ''group''" | "kind i = ''and''" | "kind i = ''or''" | "kind i \<notin> {''group'', ''and'', ''or''}"
    by blast
  then show holds
  proof cases
    case 1
    with claims_group [of i cs] less.prems t obtain c where "cs = [c]" "claims c" by auto
    with 1 less.IH [of c] smaller [of c] less.prems t show ?thesis by simp
  next
    case 2
    with claims_and [of i cs] less.prems t obtain c where "c \<in> set cs" "claims c" by auto
    with 2 less.IH [of c] smaller [of c] less.prems t show ?thesis by simp
  next
    case 3
    from less.prems(2) 3 t obtain c where "c \<in> set cs" "tree_value L c = TT"
      by (auto simp: image_iff eq_commute [of TT])
    with claims_or [of i cs] 3 less.IH [of c] smaller [of c] less.prems(1) t show ?thesis by simp
  next
    case 4
    with claims_leaf [of i cs] less.prems(1) t have "kind i = ''comparison''" "leaf_claims i" by auto
    with less.prems(2) t leaf [of i] show ?thesis by simp
  qed
qed

end

end
