(* ===== verification/WriteScope.thy ===== *)
theory WriteScope
  imports PlanData TreeMeaning "HOL-Library.AList"
begin

text \<open>
  The write scope analysis (\<^verbatim>\<open>orm/query/write_scope.go\<close>): from the condition tree an UPDATE or DELETE was
  rendered with and the unique keys the application asserts, whether the statement can touch more than one
  row.  A map of bindings is an association list with distinct keys.
\<close>

section \<open>\<^verbatim>\<open>reflect.DeepEqual\<close>\<close>

text \<open>
  Floats are equal as numbers: a NaN to nothing, the two zeros to each other.  Everything else is equal
  when its parts are.  A node's slices are lists: the views compared here have been through the copier, which
  leaves only one of the two empty slices.
\<close>

definition float32_equal :: "32 word \<Rightarrow> 32 word \<Rightarrow> bool" where
  [go_eval]: "float32_equal a b \<longleftrightarrow>
     (let m = 0x7FFFFFFF; x = and a m; y = and b m
      in x \<le> 0x7F800000 \<and> y \<le> 0x7F800000 \<and> (a = b \<or> x = 0 \<and> y = 0))"

definition float64_equal :: "64 word \<Rightarrow> 64 word \<Rightarrow> bool" where
  [go_eval]: "float64_equal a b \<longleftrightarrow>
     (let m = 0x7FFFFFFFFFFFFFFF; x = and a m; y = and b m
      in x \<le> 0x7FF0000000000000 \<and> y \<le> 0x7FF0000000000000 \<and> (a = b \<or> x = 0 \<and> y = 0))"

fun deep_equal :: "goval \<Rightarrow> goval \<Rightarrow> bool"
and deep_equal_list :: "goval list \<Rightarrow> goval list \<Rightarrow> bool"
and deep_equal_entries :: "(gostring \<times> goval) list \<Rightarrow> (gostring \<times> goval) list \<Rightarrow> bool" where
  "deep_equal (VFloat32 a) w = (case w of VFloat32 b \<Rightarrow> float32_equal a b | _ \<Rightarrow> False)"
| "deep_equal (VFloat64 a) w = (case w of VFloat64 b \<Rightarrow> float64_equal a b | _ \<Rightarrow> False)"
| "deep_equal (VList (Some xs)) w = (case w of VList (Some ys) \<Rightarrow> deep_equal_list xs ys | _ \<Rightarrow> False)"
| "deep_equal (VScalars t (Some xs)) w =
     (case w of VScalars u (Some ys) \<Rightarrow> t = u \<and> deep_equal_list xs ys | _ \<Rightarrow> False)"
| "deep_equal (VMap (Some xs)) w =
     (case w of VMap (Some ys) \<Rightarrow> length xs = length ys \<and> deep_equal_entries xs ys | _ \<Rightarrow> False)"
| "deep_equal v w = (v = w)"
| "deep_equal_list [] ys = (ys = [])"
| "deep_equal_list (x # xs) ys = (case ys of [] \<Rightarrow> False | z # zs \<Rightarrow> deep_equal x z \<and> deep_equal_list xs zs)"
| "deep_equal_entries [] ys = True"
| "deep_equal_entries ((k, x) # xs) ys =
     ((case map_of ys k of None \<Rightarrow> False | Some z \<Rightarrow> deep_equal x z) \<and> deep_equal_entries xs ys)"

definition slice_equal :: "('a \<Rightarrow> 'a \<Rightarrow> bool) \<Rightarrow> 'a list option \<Rightarrow> 'a list option \<Rightarrow> bool" where
  [go_eval]: "slice_equal eqv xs ys =
     (case (xs, ys) of (None, None) \<Rightarrow> True | (Some us, Some vs) \<Rightarrow> list_all2 eqv us vs | _ \<Rightarrow> False)"

definition pointer_equal :: "('a \<Rightarrow> 'a \<Rightarrow> bool) \<Rightarrow> 'a option \<Rightarrow> 'a option \<Rightarrow> bool" where
  [go_eval]: "pointer_equal eqv x y =
     (case (x, y) of (None, None) \<Rightarrow> True | (Some u, Some v) \<Rightarrow> eqv u v | _ \<Rightarrow> False)"

definition pvalue_equal :: "pvalue \<Rightarrow> pvalue \<Rightarrow> bool" where
  [go_eval]: "pvalue_equal v w \<longleftrightarrow>
     isolation v = isolation w \<and> reason v = reason w \<and> deep_equal (pdata v) (pdata w)"

definition named_equal :: "(gostring \<times> pvalue) list option \<Rightarrow> (gostring \<times> pvalue) list option \<Rightarrow> bool" where
  [go_eval]: "named_equal xs ys =
     (case (xs, ys) of (None, None) \<Rightarrow> True
      | (Some us, Some vs) \<Rightarrow> length us = length vs \<and>
          (\<forall>u \<in> set us. case map_of vs (fst u) of None \<Rightarrow> False | Some v \<Rightarrow> pvalue_equal (snd u) v)
      | _ \<Rightarrow> False)"

definition info_equal :: "node_info \<Rightarrow> node_info \<Rightarrow> bool" where
  [go_eval]: "info_equal i j \<longleftrightarrow>
     named_equal (named_values i) (named_values j) \<and> bound_columns i = bound_columns j \<and> kind i = kind j \<and>
     column i = column j \<and> operator i = operator j \<and> value_column i = value_column j \<and>
     raw_sql i = raw_sql j \<and> func_name i = func_name j \<and> node_sql i = node_sql j \<and>
     parameters i = parameters j \<and> list_all2 pvalue_equal (node_values i) (node_values j) \<and>
     opaque_reason i = opaque_reason j \<and> correspondence i = correspondence j"

fun node_equal :: "pnode \<Rightarrow> pnode \<Rightarrow> bool"
and kids_equal :: "pnode option list \<Rightarrow> pnode option list \<Rightarrow> bool" where
  "node_equal (Node i cs) m = (info_equal i (info m) \<and> kids_equal cs (kids m))"
| "kids_equal [] ds = (ds = [])"
| "kids_equal (None # cs) ds = (case ds of None # es \<Rightarrow> kids_equal cs es | _ \<Rightarrow> False)"
| "kids_equal (Some n # cs) ds = (case ds of Some m # es \<Rightarrow> node_equal n m \<and> kids_equal cs es | _ \<Rightarrow> False)"

definition join_ref_equal :: "join_ref \<Rightarrow> join_ref \<Rightarrow> bool" where
  [go_eval]: "join_ref_equal a b \<longleftrightarrow>
     pointer_equal node_equal (jr_OnTree a) (jr_OnTree b) \<and> jr_Type a = jr_Type b \<and> jr_Table a = jr_Table b \<and>
     jr_Alias a = jr_Alias b \<and> jr_LeftColumn a = jr_LeftColumn b \<and> jr_Operator a = jr_Operator b \<and>
     jr_RightColumn a = jr_RightColumn b \<and> jr_Subquery a = jr_Subquery b"

definition view_equal :: "write_view \<Rightarrow> write_view \<Rightarrow> bool" where
  [go_eval]: "view_equal v w \<longleftrightarrow>
     wv_Operation v = wv_Operation w \<and> wv_SQL v = wv_SQL w \<and>
     slice_equal deep_equal (wv_Params v) (wv_Params w) \<and> wv_Tables v = wv_Tables w \<and>
     wv_Columns v = wv_Columns w \<and> slice_equal join_ref_equal (wv_Joins v) (wv_Joins w) \<and>
     pointer_equal node_equal (wv_Where v) (wv_Where w) \<and> pointer_equal node_equal (wv_Having v) (wv_Having w) \<and>
     wv_Unverified v = wv_Unverified w"

section \<open>What the guard sees of the evidence\<close>

fun goval_output :: "goval \<Rightarrow> outv" where
  "goval_output (VString s) = Txt s"
| "goval_output (VBytes (Some s)) = Items (map (\<lambda>c. Plain) s)"
| "goval_output (VList (Some xs)) = Items (map goval_output xs)"
| "goval_output (VScalars t (Some xs)) = Items (map goval_output xs)"
| "goval_output (VMap (Some es)) = Entries (map (map_prod id goval_output) es)"
| "goval_output _ = Plain"

definition slice_output :: "('a \<Rightarrow> outv) \<Rightarrow> 'a list option \<Rightarrow> outv" where
  [go_eval]: "slice_output f xs = (case xs of None \<Rightarrow> Plain | Some ys \<Rightarrow> Items (map f ys))"

definition pvalue_output :: "pvalue \<Rightarrow> outv" where
  [go_eval]: "pvalue_output v = Struct [Txt (isolation v), Txt (reason v), goval_output (pdata v)]"

fun pnode_output :: "pnode \<Rightarrow> outv" where
  "pnode_output (Node i cs) =
     Struct
       [case named_values i of None \<Rightarrow> Plain | Some es \<Rightarrow> Entries (map (map_prod id pvalue_output) es),
        Items (map Txt (bound_columns i)), Txt (kind i),
        Items (map (\<lambda>c. case c of None \<Rightarrow> Plain | Some n \<Rightarrow> Ref (pnode_output n)) cs),
        Txt (column i), Txt (operator i), Txt (value_column i), Txt (raw_sql i), Txt (func_name i), Txt (node_sql i),
        Items (map (\<lambda>p. Plain) (parameters i)), Items (map pvalue_output (node_values i)),
        Txt (opaque_reason i), Txt (correspondence i)]"

definition tree_output :: "pnode option \<Rightarrow> outv" where
  [go_eval]: "tree_output t = (case t of None \<Rightarrow> Plain | Some n \<Rightarrow> Ref (pnode_output n))"

definition table_output :: "table_ref \<Rightarrow> outv" where
  [go_eval]: "table_output t = Struct [Txt (tr_Name t), Txt (tr_Alias t)]"

definition column_output :: "column_ref \<Rightarrow> outv" where
  [go_eval]: "column_output c =
     Struct [Txt (cr_Table c), Txt (cr_Name c), Txt (cr_Expression c), Plain, Plain, Plain, Txt (cr_Function c)]"

definition join_output :: "join_ref \<Rightarrow> outv" where
  [go_eval]: "join_output j =
     Struct [tree_output (jr_OnTree j), Txt (jr_Type j), Txt (jr_Table j), Txt (jr_Alias j), Txt (jr_LeftColumn j),
       Txt (jr_Operator j), Txt (jr_RightColumn j), Plain]"

definition view_output :: "write_view \<Rightarrow> outv" where
  [go_eval]: "view_output e =
     Ref (Struct
       [Txt (wv_Operation e), Txt (wv_SQL e), slice_output goval_output (wv_Params e),
        slice_output table_output (wv_Tables e), slice_output column_output (wv_Columns e),
        slice_output join_output (wv_Joins e), tree_output (wv_Where e), tree_output (wv_Having e),
        slice_output Txt (wv_Unverified e)])"

section \<open>Comparable views and sealing\<close>

fun scopeScalar :: "goval \<Rightarrow> bool" where
  "scopeScalar (VTime t) = False"
| "scopeScalar (VNumber s) = False"
| "scopeScalar (VBytes b) = False"
| "scopeScalar (VList xs) = False"
| "scopeScalar (VScalars t xs) = False"
| "scopeScalar (VMap es) = False"
| "scopeScalar (VOther k) = False"
| "scopeScalar _ = True"

definition detached_scalar :: "pvalue \<Rightarrow> bool" where
  [go_eval]: "detached_scalar v \<longleftrightarrow> isolation v = detached \<and> scopeScalar (pdata v)"

definition value_at :: "goval list \<Rightarrow> int \<Rightarrow> pvalue \<Rightarrow> bool" where
  [go_eval]: "value_at params index v \<longleftrightarrow>
     0 \<le> index \<and> index < int (length params) \<and> deep_equal (pdata v) (params ! nat index) \<and> detached_scalar v"

definition comparable_info :: "goval list \<Rightarrow> node_info \<Rightarrow> bool" where
  [go_eval]: "comparable_info params i \<longleftrightarrow>
     list_all2 (value_at params) (parameters i) (node_values i) \<and>
     (case named_values i of None \<Rightarrow> True | Some es \<Rightarrow> \<forall>e \<in> set es. detached_scalar (snd e))"

fun comparable_tree :: "goval list \<Rightarrow> pnode option \<Rightarrow> bool"
and comparable_kids :: "goval list \<Rightarrow> pnode option list \<Rightarrow> bool" where
  "comparable_tree params None = True"
| "comparable_tree params (Some (Node i cs)) = (comparable_info params i \<and> comparable_kids params cs)"
| "comparable_kids params [] = True"
| "comparable_kids params (c # cs) = (comparable_tree params c \<and> comparable_kids params cs)"

definition comparableWriteView :: "write_view \<Rightarrow> gostring" where
  [go_eval]: "comparableWriteView e =
     (if GuardCheck (view_output e) \<noteq> None then ''correspondence_budget_or_cycle''
      else if \<exists>v \<in> set (items (wv_Params e)). \<not> scopeScalar v then ''parameter_not_comparable''
      else if \<not> (comparable_tree (items (wv_Params e)) (wv_Where e) \<and> comparable_tree (items (wv_Params e)) (wv_Having e))
      then ''condition_value_not_comparable''
      else [])"

definition writeView :: "query_plan \<Rightarrow> write_view" where
  [go_eval]: "writeView p =
     \<lparr>wv_Operation = Operation p, wv_SQL = SQL p, wv_Params = Params p, wv_Tables = Tables p, wv_Columns = Columns p,
      wv_Joins = PlanJoins p, wv_Where = WhereTree p, wv_Having = HavingTree p, wv_Unverified = Unverified p\<rparr>"

definition budget_exceeded :: write_key_context where
  [go_eval]: "budget_exceeded = \<lparr>kx_invalid = ''key_context_budget_exceeded'', kx_Database = [], kx_Dialect = [],
     kx_Table = [], kx_Alias = [], kx_Constraints = []\<rparr>"

fun keys_within :: "nat \<Rightarrow> write_key list \<Rightarrow> bool" where
  "keys_within n [] = True"
| "keys_within n (k # ks) =
     (let m = n + length (wk_Columns k)
      in m \<le> 256 \<and> length (wk_Name k) \<le> 256 \<and>
         (\<forall>c \<in> set (wk_Columns k). length (kc_Name c) + length (kc_DBType c) \<le> 512) \<and> keys_within m ks)"

definition copyWriteKeys :: "write_key_context \<Rightarrow> write_key_context" where
  [go_eval]: "copyWriteKeys c =
     (if length (kx_Constraints c) > 64 \<or>
         length (kx_Database c) + length (kx_Dialect c) + length (kx_Table c) + length (kx_Alias c) > 4096
      then budget_exceeded
      else if keys_within 0 (kx_Constraints c) then c else budget_exceeded)"

definition detach_tree :: "pnode option \<Rightarrow> pnode option" where
  [go_eval]: "detach_tree t = map_option (\<lambda>n. fst (copy_node new_copier n)) t"

definition detach_view :: "write_view \<Rightarrow> write_view" where
  [go_eval]: "detach_view e =
     e\<lparr>wv_Params := fst (Slice new_copier (wv_Params e)), wv_Where := detach_tree (wv_Where e),
       wv_Having := detach_tree (wv_Having e), wv_Tables := fresh_slice (wv_Tables e),
       wv_Columns := fresh_slice (wv_Columns e),
       wv_Joins := map_option (map (\<lambda>j. j\<lparr>jr_OnTree := detach_tree (jr_OnTree j)\<rparr>)) (fresh_slice (wv_Joins e)),
       wv_Unverified := fresh_slice (wv_Unverified e)\<rparr>"

datatype driver_dialect = MySQLDialect | PostgresDialect | OtherDialect nat

definition dialect_name :: "driver_dialect \<Rightarrow> gostring" where
  [go_eval]: "dialect_name d =
     (case d of MySQLDialect \<Rightarrow> ''mysql'' | PostgresDialect \<Rightarrow> ''postgres'' | OtherDialect _ \<Rightarrow> [])"

definition sealWriteEvidence :: "driver_dialect \<Rightarrow> write_key_context option \<Rightarrow> query_plan \<Rightarrow> query_plan" where
  [go_eval]: "sealWriteEvidence d keys p =
     (if Operation p \<noteq> OperationUpdate \<and> Operation p \<noteq> OperationDelete then p
      else let e = \<lparr>we_view = writeView p, we_keys = map_option copyWriteKeys keys, we_dialect = dialect_name d, we_failure = []\<rparr>;
               failure = comparableWriteView (writeView p)
           in p\<lparr>writeEvidence := Some (if failure \<noteq> [] then e\<lparr>we_failure := failure\<rparr>
                                      else e\<lparr>we_view := detach_view (writeView p)\<rparr>)\<rparr>)"

section \<open>Keys and integer values\<close>

definition key_bits :: "gostring \<Rightarrow> gostring \<Rightarrow> int" where
  [go_eval]: "key_bits dialect t =
     (if dialect = ''mysql'' then
        (if t = ''SMALLINT'' then 16 else if t = ''INT'' then 32 else if t = ''BIGINT'' then 64 else 0)
      else if dialect = ''postgres'' then
        (if t = ''smallint'' then 16 else if t = ''integer'' then 32 else if t = ''bigint'' then 64 else 0)
      else 0)"

fun valid_key_columns :: "gostring \<Rightarrow> gostring \<Rightarrow> gostring list \<Rightarrow> write_key_column list \<Rightarrow> bool" where
  "valid_key_columns knd dialect seen [] = True"
| "valid_key_columns knd dialect seen (c # cs) =
     (\<not> (\<not> scopeIdent (kc_Name c) \<or> kc_Name c \<in> set seen \<or> kc_Unsigned c \<or> knd = ''primary'' \<and> kc_Nullable c) \<and>
      \<not> (key_bits dialect (kc_DBType c) = 0 \<or> key_bits dialect (kc_DBType c) \<noteq> kc_Bits c) \<and>
      valid_key_columns knd dialect (kc_Name c # seen) cs)"

definition validWriteKey :: "write_key \<Rightarrow> gostring \<Rightarrow> bool" where
  [go_eval]: "validWriteKey k dialect \<longleftrightarrow>
     \<not> (wk_Kind k \<noteq> ''primary'' \<and> wk_Kind k \<noteq> ''unique'' \<or> \<not> wk_AllRows k \<or> \<not> wk_Valid k \<or>
        \<not> wk_NotDeferrable k \<or> wk_Partial k \<or> wk_Expression k \<or> wk_Columns k = []) \<and>
     valid_key_columns (wk_Kind k) dialect [] (wk_Columns k)"

definition scopeInteger :: "goval \<Rightarrow> int \<Rightarrow> int option" where
  [go_eval]: "scopeInteger v bits =
     (case int_of_goval v of
        None \<Rightarrow> None
      | Some x \<Rightarrow>
          if x > 2 ^ 63 - 1 then None
          else if bits < 64 \<and> (x < - (2 ^ nat (bits - 1)) \<or> x > 2 ^ nat (bits - 1) - 1) then None
          else Some x)"

section \<open>Bindings of a condition\<close>

type_synonym bindings = "(gostring \<times> int) list"

fun bind_all :: "bindings \<Rightarrow> bindings \<Rightarrow> bindings option" where
  "bind_all out [] = Some out"
| "bind_all out ((col, v) # bs) =
     (case map_of out col of
        Some old \<Rightarrow> if old \<noteq> v then None else bind_all out bs
      | None \<Rightarrow> bind_all (AList.update col v out) bs)"

definition kind_in :: "gostring list \<Rightarrow> node_info \<Rightarrow> bool" where
  [go_eval]: "kind_in ks i \<longleftrightarrow> kind i \<in> set ks"

definition find_key_column :: "write_key \<Rightarrow> gostring \<Rightarrow> write_key_column option" where
  [go_eval]: "find_key_column k col = find_first (\<lambda>c. kc_Name c = col) (wk_Columns k)"

definition bad_key_value :: "int \<Rightarrow> pvalue \<Rightarrow> bool" where
  [go_eval]: "bad_key_value bits v \<longleftrightarrow> pdata v \<noteq> VNil \<and> scopeInteger (pdata v) bits = None"

text \<open>A comparison, IN or BETWEEN leaf.\<close>

definition leaf_bindings :: "node_info \<Rightarrow> write_key \<Rightarrow> gostring \<Rightarrow> gostring \<Rightarrow> gostring + bindings" where
  [go_eval]: "leaf_bindings i k table al =
     (if \<exists>b \<in> set (bound_columns i). \<not> scopeTargetColumn b table al then Inl ''column_target_unresolved''
      else if \<not> scopeColumn (column i) then Inl ''column_expression_unsupported''
      else case split_qualifier (column i) of (qualifier, col) \<Rightarrow>
        if qualifier \<noteq> [] \<and> qualifier \<noteq> target_name table al then Inl ''column_target_unresolved''
        else case find_key_column k col of
          None \<Rightarrow> Inr []
        | Some kc \<Rightarrow>
            if \<exists>v \<in> set (node_values i). bad_key_value (kc_Bits kc) v then Inl ''key_value_type_or_range_unsupported''
            else case node_values i of
              [v] \<Rightarrow>
                if pdata v = VNil then Inr []
                else if kind i = ''comparison'' \<and> operator i = ''='' \<or>
                        kind i = ''in'' \<and> equal_fold (operator i) ''IN''
                then (case scopeInteger (pdata v) (kc_Bits kc) of Some x \<Rightarrow> Inr [(col, x)] | None \<Rightarrow> Inr [])
                else Inr []
            | _ \<Rightarrow> Inr [])"

definition narrow :: "bindings \<Rightarrow> bindings \<Rightarrow> bindings" where
  [go_eval]: "narrow out b = filter (\<lambda>(col, v). map_of b col = Some v) out"

definition join_bindings :: "nat \<Rightarrow> gostring \<Rightarrow> bool \<Rightarrow> bindings \<Rightarrow> bindings \<Rightarrow> gostring + bindings" where
  [go_eval]: "join_bindings width knd first out b =
     (if knd = ''not'' then Inr out
      else if knd = ''or'' then
        Inr (if first then (if length b = width then b else out) else narrow out b)
      else case bind_all out b of None \<Rightarrow> Inl ''conflicting_key_bindings'' | Some out' \<Rightarrow> Inr out')"

fun scopeBindings :: "write_key \<Rightarrow> gostring \<Rightarrow> gostring \<Rightarrow> pnode option \<Rightarrow> gostring + bindings"
and scope_kids :: "write_key \<Rightarrow> gostring \<Rightarrow> gostring \<Rightarrow> gostring \<Rightarrow> bool \<Rightarrow> bindings \<Rightarrow> pnode option list \<Rightarrow>
    gostring + bindings" where
  "scopeBindings k table al None = Inl ''condition_unverified''"
| "scopeBindings k table al (Some (Node i cs)) =
     (if correspondence i \<noteq> generated \<or> opaque_reason i \<noteq> [] then Inl ''condition_unverified''
      else if kind_in [''and'', ''or'', ''group'', ''not''] i then
        (case scope_kids k table al (kind i) True [] cs of
           Inl r \<Rightarrow> Inl r
         | Inr out \<Rightarrow> Inr (if kind i = ''or'' \<and> length out \<noteq> length (wk_Columns k) then [] else out))
      else if kind_in [''null'', ''column''] i then
        (if \<not> scopeTargetColumn (column i) table al \<or>
            value_column i \<noteq> [] \<and> \<not> scopeTargetColumn (value_column i) table al
         then Inl ''column_expression_unsupported'' else Inr [])
      else if kind_in [''comparison'', ''in'', ''between''] i then leaf_bindings i k table al
      else Inl ''condition_kind_unsupported'')"
| "scope_kids k table al knd first out [] = Inr out"
| "scope_kids k table al knd first out (c # cs) =
     (case scopeBindings k table al c of
        Inl r \<Rightarrow> Inl r
      | Inr b \<Rightarrow>
          (case join_bindings (length (wk_Columns k)) knd first out b of
             Inl r \<Rightarrow> Inl r
           | Inr out' \<Rightarrow> scope_kids k table al knd False out' cs))"

section \<open>The analysis\<close>

fun best_key :: "gostring \<Rightarrow> gostring \<Rightarrow> pnode option \<Rightarrow> (gostring \<times> gostring list) option \<Rightarrow> write_key list \<Rightarrow>
    gostring + (gostring \<times> gostring list) option" where
  "best_key table al wt best [] = Inr best"
| "best_key table al wt best (k # ks) =
     (case scopeBindings k table al wt of
        Inl r \<Rightarrow> Inl r
      | Inr b \<Rightarrow> best_key table al wt
          (if length b = length (wk_Columns k)
           then Some (if wk_Name k = [] then wk_Kind k else wk_Name k, map kc_Name (wk_Columns k))
           else best) ks)"

definition scope_unknown :: "gostring \<Rightarrow> gostring \<Rightarrow> gostring list \<Rightarrow> write_scope_result" where
  [go_eval]: "scope_unknown provenance why assumptions =
     \<lparr>ws_Status = ''unknown'', ws_Reason = why, ws_Precision = AnalysisPartial, ws_Provenance = provenance,
      ws_Assumptions = assumptions, ws_Key = [], ws_Database = [], ws_Dialect = [], ws_Table = [], ws_Alias = [],
      ws_KeyColumns = []\<rparr>"

definition scope_assumptions :: "gostring list" where
  [go_eval]: "scope_assumptions =
     [''caller asserts current database identity and valid uniqueness over all target rows'',
      ''schema freshness is not verified'', ''executor preserves database/sql integer parameter semantics'']"

definition scope_target :: "table_ref \<Rightarrow> gostring \<times> gostring" where
  [go_eval]: "scope_target t =
     (case splitTableAlias (tr_Name t) of (table, al) \<Rightarrow> (table, if tr_Alias t \<noteq> [] then tr_Alias t else al))"

definition analyze_keys :: "write_view \<Rightarrow> write_key_context \<Rightarrow> table_ref \<Rightarrow> write_scope_result" where
  [go_eval]: "analyze_keys e c tref =
     (let r = scope_unknown ''builder_and_application_assertion'' [] scope_assumptions in
      case scope_target tref of (table, al) \<Rightarrow>
      if \<not> scopePath table \<or> al \<noteq> [] \<and> \<not> scopeIdent al \<or> kx_Table c \<noteq> table \<or> kx_Alias c \<noteq> al \<or> kx_Constraints c = []
      then r\<lparr>ws_Reason := ''table_alias_or_key_context_invalid''\<rparr>
      else let r = r\<lparr>ws_Database := kx_Database c, ws_Dialect := kx_Dialect c, ws_Table := kx_Table c, ws_Alias := kx_Alias c\<rparr> in
        if \<exists>k \<in> set (kx_Constraints c). \<not> validWriteKey k (kx_Dialect c)
        then r\<lparr>ws_Reason := ''constraint_or_integer_type_unsupported''\<rparr>
        else if wv_Where e = None
        then r\<lparr>ws_Status := ''broad'', ws_Reason := ''no_where'', ws_Precision := AnalysisPrecise\<rparr>
        else case best_key table al (wv_Where e) None (kx_Constraints c) of
          Inl why \<Rightarrow> r\<lparr>ws_Reason := why\<rparr>
        | Inr (Some (key, cols)) \<Rightarrow>
            r\<lparr>ws_Precision := AnalysisPrecise, ws_Status := ''at_most_one'',
              ws_Reason := ''complete_integer_key_binding'', ws_Key := key, ws_KeyColumns := cols\<rparr>
        | Inr None \<Rightarrow>
            r\<lparr>ws_Precision := AnalysisPrecise, ws_Status := ''broad'', ws_Reason := ''no_complete_common_key_binding''\<rparr>)"

definition AnalyzeWriteScope :: "query_plan \<Rightarrow> write_scope_result" where
  [go_eval]: "AnalyzeWriteScope p =
     (case writeEvidence p of
        None \<Rightarrow> scope_unknown ''none'' ''builder_evidence_missing'' []
      | Some ev \<Rightarrow>
          let unknown = (\<lambda>why. scope_unknown ''builder_and_application_assertion'' why scope_assumptions);
              e = we_view ev; view = writeView p; why = comparableWriteView view
          in if we_failure ev \<noteq> [] then unknown (we_failure ev)
             else if why \<noteq> [] then unknown why
             else if \<not> view_equal view e then unknown ''sql_values_tree_or_target_changed''
             else if wv_Operation e \<noteq> OperationUpdate \<and> wv_Operation e \<noteq> OperationDelete then unknown ''not_a_write''
             else if items (wv_Unverified e) \<noteq> [] \<or> items (wv_Joins e) \<noteq> [] \<or> wv_Having e \<noteq> None
             then unknown ''statement_not_fully_inspected''
             else case we_keys ev of
               None \<Rightarrow> unknown ''key_context_missing''
             | Some c \<Rightarrow>
                 if kx_invalid c \<noteq> [] then unknown (kx_invalid c)
                 else if trim_space (kx_Database c) = [] \<or> kx_Dialect c \<noteq> we_dialect ev \<or> we_dialect ev = []
                 then unknown ''database_dialect_or_target_context_invalid''
                 else case items (wv_Tables e) of
                   [t] \<Rightarrow> analyze_keys e c t
                 | _ \<Rightarrow> unknown ''database_dialect_or_target_context_invalid'')"

section \<open>Bindings hold of the rows a condition keeps\<close>

text \<open>
  A reading of the leaves on a row evaluates an equality, or an IN with one element, like SQL: it is true only
  of a row whose column holds that integer.  A NULL column is \<^term>\<open>None\<close>.
\<close>

definition equality_leaf :: "node_info \<Rightarrow> bool" where
  "equality_leaf i \<longleftrightarrow> kind i = ''comparison'' \<and> operator i = ''='' \<or> kind i = ''in'' \<and> equal_fold (operator i) ''IN''"

definition reads_row :: "(node_info \<Rightarrow> tv) \<Rightarrow> (gostring \<Rightarrow> int option) \<Rightarrow> bool" where
  "reads_row L row \<longleftrightarrow>
     (\<forall>i v x. equality_leaf i \<and> node_values i = [v] \<and> int_of_goval (pdata v) = Some x \<and> L i = TT \<longrightarrow>
        row (snd (split_qualifier (column i))) = Some x)"

definition holds_on :: "bindings \<Rightarrow> (gostring \<Rightarrow> int option) \<Rightarrow> bool" where
  "holds_on b row \<longleftrightarrow> (\<forall>(col, x) \<in> set b. row col = Some x)"

definition key_bindings :: "write_key \<Rightarrow> bindings \<Rightarrow> bool" where
  "key_bindings k b \<longleftrightarrow> distinct (map fst b) \<and> fst ` set b \<subseteq> kc_Name ` set (wk_Columns k)"

lemma holds_on_Nil [simp]: "holds_on [] row"
  by (simp add: holds_on_def)

lemma key_bindings_Nil [simp]: "key_bindings k []"
  by (simp add: key_bindings_def)

lemma set_update: "set (AList.update c x al) \<subseteq> insert (c, x) (set al)"
  by (induction al) auto

lemma holds_on_update: "holds_on out row \<Longrightarrow> row c = Some x \<Longrightarrow> holds_on (AList.update c x out) row"
  using set_update [of c x out] by (auto simp: holds_on_def)

lemma holds_on_Cons [simp]: "holds_on ((c, x) # b) row \<longleftrightarrow> row c = Some x \<and> holds_on b row"
  by (auto simp: holds_on_def)

lemma holds_on_bind_all: "bind_all out b = Some r \<Longrightarrow> holds_on out row \<Longrightarrow> holds_on b row \<Longrightarrow> holds_on r row"
  by (induction out b rule: bind_all.induct) (auto simp: holds_on_update split: option.splits if_splits)

lemma key_bindings_bind_all:
  "bind_all out b = Some r \<Longrightarrow> key_bindings k out \<Longrightarrow> fst ` set b \<subseteq> kc_Name ` set (wk_Columns k) \<Longrightarrow> key_bindings k r"
  by (induction out b rule: bind_all.induct)
     (auto simp: key_bindings_def distinct_update dom_update split: option.splits if_splits)

lemma holds_on_narrow: "holds_on out row \<or> holds_on b row \<Longrightarrow> holds_on (narrow out b) row"
  by (auto simp: holds_on_def narrow_def dest: map_of_SomeD)

lemma key_bindings_narrow: "key_bindings k out \<Longrightarrow> key_bindings k (narrow out b)"
  by (auto simp: key_bindings_def narrow_def distinct_map inj_on_def)

lemma leaf_bindings_key: "leaf_bindings i k table al = Inr b \<Longrightarrow> key_bindings k b"
  by (auto simp: leaf_bindings_def key_bindings_def find_key_column_def dest!: find_first_Some
      split: if_splits option.splits prod.splits list.splits)

lemma scopeInteger_int: "scopeInteger v bits = Some x \<Longrightarrow> int_of_goval v = Some x"
  by (auto simp: scopeInteger_def split: option.splits if_splits)

lemma leaf_bindings_cases:
  assumes "leaf_bindings i k table al = Inr b"
  obtains "b = []"
  | v x where "node_values i = [v]" "equality_leaf i" "int_of_goval (pdata v) = Some x"
      "b = [(snd (split_qualifier (column i)), x)]"
  using assms
  by (auto simp: leaf_bindings_def equality_leaf_def dest!: scopeInteger_int
      split: if_splits option.splits prod.splits list.splits)

lemma leaf_bindings_hold:
  assumes "leaf_bindings i k table al = Inr b" "reads_row L row" "L i = TT"
  shows "holds_on b row"
  using assms(1)
proof (cases rule: leaf_bindings_cases)
  case (2 v x)
  with assms(2,3) show ?thesis unfolding reads_row_def by auto
qed simp

lemma join_bindings_key:
  "join_bindings w knd first out b = Inr r \<Longrightarrow> key_bindings k out \<Longrightarrow> key_bindings k b \<Longrightarrow> key_bindings k r"
  by (auto simp: join_bindings_def key_bindings_narrow dest: key_bindings_bind_all [where k = k] key_bindings_def [THEN iffD1]
      split: if_splits option.splits)

lemma scope_bindings_key:
  "scopeBindings k table al t = Inr b \<Longrightarrow> key_bindings k b"
  "scope_kids k table al knd first out cs = Inr b \<Longrightarrow> key_bindings k out \<Longrightarrow> key_bindings k b"
proof (induction k table al t and k table al knd first out cs arbitrary: b and b rule: scopeBindings_scope_kids.induct)
  case (2 k table al i cs)
  then show ?case
    by (auto simp: leaf_bindings_key split: if_splits sum.splits)
next
  case (4 k table al knd first out c cs)
  then show ?case
    by (auto dest: join_bindings_key split: sum.splits)
qed simp_all

text \<open>What a condition node has established after some of its children.\<close>

definition kids_hold ::
  "(node_info \<Rightarrow> tv) \<Rightarrow> (gostring \<Rightarrow> int option) \<Rightarrow> gostring \<Rightarrow> bool \<Rightarrow> bindings \<Rightarrow> pnode option list \<Rightarrow> bool" where
  "kids_hold L row knd first out cs \<longleftrightarrow>
     (first \<longrightarrow> out = []) \<and>
     (if knd = ''or'' then \<not> first \<and> holds_on out row \<or> (\<exists>c \<in> set cs. tree_value L c = TT)
      else holds_on out row \<and> (knd \<noteq> ''not'' \<longrightarrow> (\<forall>c \<in> set cs. tree_value L c = TT)))"

lemma kids_hold_step:
  assumes "join_bindings w knd first out b = Inr r" "kids_hold L row knd first out (c # cs)"
    and "tree_value L c = TT \<Longrightarrow> holds_on b row"
  shows "kids_hold L row knd False r cs"
  using assms
  by (auto simp: kids_hold_def join_bindings_def holds_on_narrow dest: holds_on_bind_all
      split: if_splits option.splits)

lemma scope_bindings_hold:
  assumes "reads_row L row"
  shows "scopeBindings k table al t = Inr b \<Longrightarrow> tree_value L t = TT \<Longrightarrow> holds_on b row"
    "scope_kids k table al knd first out cs = Inr b \<Longrightarrow> kids_hold L row knd first out cs \<Longrightarrow> cs \<noteq> [] \<or> \<not> first \<Longrightarrow>
       holds_on b row"
proof (induction k table al t and k table al knd first out cs arbitrary: b and b rule: scopeBindings_scope_kids.induct)
  case (2 k table al i cs)
  have clean: "\<not> (correspondence i \<noteq> generated \<or> opaque_reason i \<noteq> [])"
    using 2(2) by (auto split: if_splits)
  show ?case
  proof (cases "kind_in [''and'', ''or'', ''group'', ''not''] i")
    case True
    with 2(2) clean obtain out where out: "scope_kids k table al (kind i) True [] cs = Inr out"
      and b: "b = [] \<or> b = out"
      by (auto split: sum.splits if_splits)
    show ?thesis
    proof (cases cs)
      case Nil
      with out b show ?thesis by auto
    next
      case (Cons c ds)
      have "kids_hold L row (kind i) True [] cs"
        using True 2(3) by (auto simp: kids_hold_def kind_in_def image_iff eq_commute [of TT])
      with 2(1) [OF clean True out] Cons b show ?thesis by auto
    qed
  next
    case False
    show ?thesis
    proof (cases "b = []")
      case more: False
      with False clean 2(2) have "leaf_bindings i k table al = Inr b"
        by (auto split: if_splits)
      moreover from 2(3) False have "L i = TT" by (simp add: kind_in_def)
      ultimately show ?thesis using assms leaf_bindings_hold by blast
    qed simp
  qed
next
  case (3 k table al knd first out)
  then show ?case by (auto simp: kids_hold_def split: if_splits)
next
  case (4 k table al knd first out c cs)
  then obtain b1 r where b1: "scopeBindings k table al c = Inr b1"
    and r: "join_bindings (length (wk_Columns k)) knd first out b1 = Inr r"
    and rest: "scope_kids k table al knd False r cs = Inr b"
    by (auto split: sum.splits)
  have "kids_hold L row knd False r cs"
    using 4(1) [OF b1] by (rule kids_hold_step [OF r 4(4)])
  with 4(2) [OF b1 r rest] show ?case by simp
qed simp

section \<open>At most one row\<close>

lemma best_key_binds:
  assumes "best_key table al wt best ks = Inr (Some r)" "best = None"
  obtains k b where "k \<in> set ks" "scopeBindings k table al wt = Inr b" "length b = length (wk_Columns k)"
proof -
  have "(\<exists>k \<in> set ks. \<exists>b. scopeBindings k table al wt = Inr b \<and> length b = length (wk_Columns k))"
    if "best_key table al wt best ks = Inr (Some r)" "best = None" for best
    using that
  proof (induction ks arbitrary: best)
    case (Cons k ks)
    then show ?case by (auto split: sum.splits if_splits)
  qed simp
  with assms that show thesis by blast
qed

lemma valid_key_columns_distinct:
  "valid_key_columns knd dialect seen cs \<Longrightarrow> distinct (map kc_Name cs) \<and> set seen \<inter> kc_Name ` set cs = {}"
  by (induction knd dialect seen cs rule: valid_key_columns.induct) auto

text \<open>A full set of bindings of a key binds each of its columns.\<close>

lemma complete_bindings:
  assumes "key_bindings k b" "length b = length (wk_Columns k)" "validWriteKey k dialect"
  shows "fst ` set b = kc_Name ` set (wk_Columns k)"
proof -
  have "distinct (map kc_Name (wk_Columns k))"
    using assms(3) valid_key_columns_distinct by (auto simp: validWriteKey_def)
  with assms(1,2) have "card (fst ` set b) = card (kc_Name ` set (wk_Columns k))"
    by (metis distinct_card key_bindings_def length_map list.set_map)
  with assms(1) show ?thesis
    by (intro card_subset_eq) (auto simp: key_bindings_def)
qed

text \<open>The application's assertion that a key is unique: no two rows share non-NULL values in all its columns.\<close>

definition unique_key :: "write_key \<Rightarrow> 'r set \<Rightarrow> ('r \<Rightarrow> gostring \<Rightarrow> int option) \<Rightarrow> bool" where
  "unique_key k rows col_of \<longleftrightarrow>
     (\<forall>r \<in> rows. \<forall>s \<in> rows.
        (\<forall>c \<in> set (wk_Columns k). col_of r (kc_Name c) \<noteq> None \<and> col_of r (kc_Name c) = col_of s (kc_Name c)) \<longrightarrow> r = s)"

lemma bound_rows_equal:
  assumes "scopeBindings k table al wt = Inr b" "length b = length (wk_Columns k)" "validWriteKey k dialect"
    and "unique_key k rows col_of" "\<And>r. r \<in> rows \<Longrightarrow> reads_row (L r) (col_of r)"
    and "r \<in> rows" "s \<in> rows" "tree_value (L r) wt = TT" "tree_value (L s) wt = TT"
  shows "r = s"
proof -
  have "holds_on b (col_of r)" "holds_on b (col_of s)"
    using scope_bindings_hold(1) assms by blast+
  moreover have "fst ` set b = kc_Name ` set (wk_Columns k)"
    using complete_bindings scope_bindings_key(1) assms(1-3) by blast
  ultimately have "\<forall>c \<in> set (wk_Columns k). \<exists>x. col_of r (kc_Name c) = Some x \<and> col_of s (kc_Name c) = Some x"
    by (fastforce simp: holds_on_def image_iff set_eq_iff)
  with assms(4,6,7) show ?thesis
    unfolding unique_key_def by (metis option.distinct(1))
qed

lemma analyze_keys_at_most_one:
  assumes "ws_Status (analyze_keys e c t) = ''at_most_one''"
  obtains k b where "k \<in> set (kx_Constraints c)" "\<forall>k \<in> set (kx_Constraints c). validWriteKey k (kx_Dialect c)"
    "scopeBindings k (fst (scope_target t)) (snd (scope_target t)) (wv_Where e) = Inr b" "length b = length (wk_Columns k)"
  using assms
  by (auto simp: analyze_keys_def scope_unknown_def Let_def elim!: best_key_binds
      split: if_splits prod.splits sum.splits option.splits)

lemma scope_unknown_status [simp]: "ws_Status (scope_unknown provenance why as) = ''unknown''"
  by (simp add: scope_unknown_def)

lemma analyzed_plan:
  assumes "ws_Status (AnalyzeWriteScope p) \<noteq> ''unknown''"
  obtains e c t where "writeEvidence p = Some e" "we_keys e = Some c" "items (wv_Tables (we_view e)) = [t]"
    "view_equal (writeView p) (we_view e)" "we_failure e = []" "items (wv_Joins (we_view e)) = []"
    "kx_invalid c = []" "kx_Dialect c = we_dialect e" "comparableWriteView (writeView p) = []"
    "AnalyzeWriteScope p = analyze_keys (we_view e) c t"
  using assms
  by (auto simp: AnalyzeWriteScope_def Let_def split: option.splits if_splits list.splits)

section \<open>Properties\<close>

text \<open>
  C17: When the analysis says a write touches at most one row, it does: of any rows on which the asserted keys are
  unique, the condition the statement was rendered with is true of at most one.
\<close>

theorem at_most_one_row:
  assumes "ws_Status (AnalyzeWriteScope p) = ''at_most_one''"
    and "writeEvidence p = Some e" "we_keys e = Some c"
    and "\<forall>k \<in> set (kx_Constraints c). unique_key k rows col_of"
    and "\<forall>r \<in> rows. reads_row (L r) (col_of r)"
  shows "{r \<in> rows. tree_value (L r) (wv_Where (we_view e)) = TT} = {} \<or>
     (\<exists>r. {r \<in> rows. tree_value (L r) (wv_Where (we_view e)) = TT} = {r})" (is "?kept = {} \<or> _")
proof -
  obtain t where "AnalyzeWriteScope p = analyze_keys (we_view e) c t"
  proof -
    have "ws_Status (AnalyzeWriteScope p) \<noteq> ''unknown''" using assms(1) by simp
    then show thesis by (rule analyzed_plan) (use assms(2,3) that in auto)
  qed
  with assms(1) obtain k b where k: "k \<in> set (kx_Constraints c)" "validWriteKey k (kx_Dialect c)"
    "scopeBindings k (fst (scope_target t)) (snd (scope_target t)) (wv_Where (we_view e)) = Inr b"
    "length b = length (wk_Columns k)"
    by (auto elim!: analyze_keys_at_most_one)
  have "r = s" if "r \<in> rows" "s \<in> rows" "tree_value (L r) (wv_Where (we_view e)) = TT"
    "tree_value (L s) (wv_Where (we_view e)) = TT" for r s
  proof (rule bound_rows_equal [OF k(3,4,2), where rows = rows and col_of = col_of and L = L])
    show "unique_key k rows col_of" using assms(4) k(1) by blast
    show "reads_row (L q) (col_of q)" if "q \<in> rows" for q using assms(5) that by blast
  qed (use that in auto)
  then have "r \<in> ?kept \<Longrightarrow> ?kept = {r}" for r by blast
  then show ?thesis by blast
qed

definition sample_where :: pnode where
  "sample_where = Node (blank_info\<lparr>kind := ''comparison'', column := ''id'', operator := ''='', node_sql := ''id = $1'',
     parameters := [0], node_values := [\<lparr>isolation = detached, reason = [], pdata = VInt 7\<rparr>],
     correspondence := generated\<rparr>) []"

definition sample_key :: write_key where
  "sample_key = \<lparr>wk_Name = ''pk'', wk_Kind = ''primary'',
     wk_Columns = [\<lparr>kc_Name = ''id'', kc_DBType = ''bigint'', kc_Bits = 64, kc_Unsigned = False, kc_Nullable = False\<rparr>],
     wk_AllRows = True, wk_Valid = True, wk_NotDeferrable = True, wk_Partial = False, wk_Expression = False\<rparr>"

definition sample_context :: write_key_context where
  "sample_context = \<lparr>kx_invalid = [], kx_Database = ''app'', kx_Dialect = ''postgres'', kx_Table = ''t'', kx_Alias = [],
     kx_Constraints = [sample_key]\<rparr>"

definition sample_delete :: query_plan where
  "sample_delete = (newQueryPlan OperationDelete ''DELETE FROM t WHERE id = $1'' (Some [VInt 7]))
     \<lparr>Tables := Some [\<lparr>tr_Name = ''t'', tr_Alias = []\<rparr>], WhereTree := Some sample_where,
      conditionSource := Some sample_where, generatedConditions := True\<rparr>"

definition sample_sealed :: query_plan where
  "sample_sealed = sealWriteEvidence PostgresDialect (Some sample_context) sample_delete"

lemma sample_comparable: "comparableWriteView (writeView sample_delete) = []"
  by (simp add: comparableWriteView_def GuardCheck_None_iff view_output_def writeView_def sample_delete_def newQueryPlan_def
      sample_where_def blank_info_def slice_output_def tree_output_def table_output_def pvalue_output_def Slice_def Copy_def
      copy_val.simps MaxDepth_def comparable_info_def value_at_def detached_scalar_def)

lemma sample_sealed_evidence:
  "sample_sealed = sample_delete\<lparr>writeEvidence := Some \<lparr>we_view = writeView sample_delete,
     we_keys = Some sample_context, we_dialect = ''postgres'', we_failure = []\<rparr>\<rparr>"
proof -
  have "detach_view (writeView sample_delete) = writeView sample_delete"
    by (simp add: detach_view_def writeView_def sample_delete_def newQueryPlan_def Slice_def Copy_def copy_val.simps
        MaxDepth_def fresh_slice_def detach_tree_def sample_where_def blank_info_def inspection_named_def
        inspectionValue_def new_copier_def node_settled_def)
  moreover have "copyWriteKeys sample_context = sample_context"
    by (simp add: copyWriteKeys_def sample_context_def sample_key_def)
  moreover have "Operation sample_delete = OperationDelete"
    by (simp add: sample_delete_def newQueryPlan_def)
  ultimately show ?thesis
    by (simp add: sample_sealed_def sealWriteEvidence_def sample_comparable dialect_name_def Let_def)
qed

lemma sample_view_equal: "view_equal (writeView sample_delete) (writeView sample_delete)"
  by (simp add: view_equal_def writeView_def sample_delete_def newQueryPlan_def Slice_def Copy_def copy_val.simps
      MaxDepth_def slice_equal_def pointer_equal_def sample_where_def blank_info_def info_equal_def named_equal_def
      pvalue_equal_def)

lemma sample_keys: "ws_Status (analyze_keys (writeView sample_delete) sample_context \<lparr>tr_Name = ''t'', tr_Alias = []\<rparr>) = ''at_most_one''"
proof -
  have "scope_target \<lparr>tr_Name = ''t'', tr_Alias = []\<rparr> = (''t'', [])" "scopePath ''t''"
    "validWriteKey sample_key ''postgres''" "scopeColumn ''id''" "split_qualifier ''id'' = ([], ''id'')"
    by code_simp+
  moreover have "find_key_column sample_key ''id'' =
      Some \<lparr>kc_Name = ''id'', kc_DBType = ''bigint'', kc_Bits = 64, kc_Unsigned = False, kc_Nullable = False\<rparr>"
    by (simp add: find_key_column_def sample_key_def)
  moreover have "scopeInteger (VInt 7) 64 = Some 7"
    by (simp add: scopeInteger_def)
  ultimately show ?thesis
    by (simp add: analyze_keys_def sample_context_def writeView_def sample_delete_def newQueryPlan_def sample_where_def
        blank_info_def kind_in_def leaf_bindings_def bad_key_value_def) (simp add: sample_key_def)
qed

lemma sample_status: "ws_Status (AnalyzeWriteScope sample_sealed) = ''at_most_one''"
proof -
  have "writeView sample_sealed = writeView sample_delete"
    by (simp add: sample_sealed_evidence writeView_def)
  moreover have "trim_space ''app'' \<noteq> []" by code_simp
  ultimately show ?thesis
    using sample_keys sample_comparable sample_view_equal
    by (simp add: AnalyzeWriteScope_def sample_sealed_evidence Let_def) (simp add: writeView_def sample_delete_def newQueryPlan_def sample_context_def)
qed

lemma the_only_one: "K = {} \<or> (\<exists>r. K = {r}) \<Longrightarrow> x \<in> K \<Longrightarrow> K = {x}"
  by auto

definition sample_reading :: "nat \<Rightarrow> node_info \<Rightarrow> tv" where
  "sample_reading r i =
     (case map (int_of_goval \<circ> pdata) (node_values i) of
        [Some x] \<Rightarrow> tv_of (int r = x)
      | _ \<Rightarrow> UU)"

theorem at_most_one_row_witness:
  "{r \<in> {7, 8}. tree_value (sample_reading r) (Some sample_where) = TT} = {7}" (is "?kept = _")
proof -
  let ?e = "\<lparr>we_view = writeView sample_delete, we_keys = Some sample_context, we_dialect = ''postgres'', we_failure = []\<rparr>"
  have "\<forall>k \<in> set (kx_Constraints sample_context). unique_key k {7, 8} (\<lambda>r col. Some (int r))"
    by (simp add: sample_context_def unique_key_def sample_key_def)
  moreover have "\<forall>r \<in> {7, 8}. reads_row (sample_reading r) (\<lambda>col. Some (int r))"
    by (auto simp: reads_row_def sample_reading_def tv_of_def split: if_splits)
  moreover have "writeEvidence sample_sealed = Some ?e" "wv_Where (we_view ?e) = Some sample_where"
    by (simp_all add: sample_sealed_evidence writeView_def sample_delete_def newQueryPlan_def)
  ultimately have "?kept = {} \<or> (\<exists>r. ?kept = {r})"
    using at_most_one_row [OF sample_status, of ?e sample_context "{7, 8}" "\<lambda>r col. Some (int r)" sample_reading] by simp
  then show ?thesis
  proof (rule the_only_one)
    show "7 \<in> ?kept"
      by (simp add: sample_where_def blank_info_def sample_reading_def tv_of_def)
  qed
qed

text \<open>
  C18: A write scope other than unknown is given only to the statement that was sealed: operation, SQL, parameters, tables,
  columns and condition of the plan are still those of the builder, it has no joins, and every value its condition
  shows is the parameter at the position it shows.
\<close>

theorem scope_of_sealed_statement:
  assumes "writeEvidence p\<^sub>0 = None" "writeEvidence p = writeEvidence (sealWriteEvidence d keys p\<^sub>0)"
    and "ws_Status (AnalyzeWriteScope p) \<noteq> ''unknown''"
  shows "Operation p = Operation p\<^sub>0 \<and> SQL p = SQL p\<^sub>0 \<and> slice_equal deep_equal (Params p) (Params p\<^sub>0) \<and>
     Tables p = fresh_slice (Tables p\<^sub>0) \<and> Columns p = fresh_slice (Columns p\<^sub>0) \<and> items (PlanJoins p) = [] \<and>
     pointer_equal node_equal (WhereTree p) (detach_tree (WhereTree p\<^sub>0)) \<and>
     comparable_tree (items (Params p)) (WhereTree p)"
proof -
  obtain e where e: "writeEvidence p = Some e" "view_equal (writeView p) (we_view e)" "we_failure e = []"
    "items (wv_Joins (we_view e)) = []" "comparableWriteView (writeView p) = []"
    using assms(3) by (rule analyzed_plan)
  from e(1,3) assms(1,2) have "we_view e = detach_view (writeView p\<^sub>0)"
    by (auto simp: sealWriteEvidence_def Let_def split: if_splits)
  with e(2,4,5) show ?thesis
    by (auto simp: view_equal_def writeView_def detach_view_def comparableWriteView_def slice_equal_def items_def
        split: if_splits option.splits)
qed

theorem scope_of_sealed_statement_witness:
  "SQL sample_sealed = SQL sample_delete \<and> slice_equal deep_equal (Params sample_sealed) (Params sample_delete)"
proof -
  have "writeEvidence sample_delete = None" "ws_Status (AnalyzeWriteScope sample_sealed) \<noteq> ''unknown''"
    by (simp_all add: sample_status sample_delete_def newQueryPlan_def)
  from scope_of_sealed_statement [OF this(1) _ this(2), of PostgresDialect "Some sample_context"]
  show ?thesis by (simp add: sample_sealed_def)
qed

end
