(* ===== verification/RiskLevels.thy ===== *)
theory RiskLevels
  imports PlanData
begin

text \<open>
  Risk levels and warnings (\<^verbatim>\<open>orm/query/risk.go\<close>), and the suppression of warnings
  (\<^verbatim>\<open>orm/query/suppression.go\<close>).  A level is the string the code stores: a string that is none of the five
  counts as low.
\<close>

section \<open>Levels\<close>

definition riskRank :: "gostring \<Rightarrow> nat" where
  [go_eval]: "riskRank level =
     (if level = RiskMedium then 1 else if level = RiskHigh then 2 else if level = RiskDestructive then 3
      else if level = RiskBlocked then 4 else 0)"

definition compareRisk :: "gostring \<Rightarrow> gostring \<Rightarrow> int" where
  [go_eval]: "compareRisk a b = int (riskRank a) - int (riskRank b)"

definition requiresApprovalLevel :: "gostring \<Rightarrow> bool" where
  [go_eval]: "requiresApprovalLevel level \<longleftrightarrow> compareRisk level RiskHigh \<ge> 0 \<and> level \<noteq> RiskBlocked"

definition newWarning :: "gostring \<Rightarrow> gostring \<Rightarrow> gostring \<Rightarrow> gostring \<Rightarrow> bool \<Rightarrow> bool \<Rightarrow> warning" where
  [go_eval]: "newWarning code level message hint suppressible requiresReason =
     \<lparr>wn_Code = code, wn_Level = level, wn_Message = message, wn_Location = None, wn_Hint = hint, wn_Evidence = [],
      wn_Suppressible = suppressible, wn_RequiresReason = requiresReason\<rparr>"

fun aggregate_from :: "gostring \<Rightarrow> bool \<Rightarrow> warning list \<Rightarrow> gostring \<times> bool" where
  "aggregate_from level blocked [] = (level, blocked)"
| "aggregate_from level blocked (w # ws) =
     aggregate_from (if compareRisk (wn_Level w) level > 0 then wn_Level w else level)
       (blocked \<or> wn_Level w = RiskBlocked) ws"

definition aggregateWarnings :: "warning list \<Rightarrow> gostring \<times> bool" where
  [go_eval]: "aggregateWarnings ws = aggregate_from RiskLow False ws"

definition warningCodes :: "warning list \<Rightarrow> gostring" where
  [go_eval]: "warningCodes ws = (if ws = [] then ''no warnings'' else join '', '' (map wn_Code ws))"

lemma riskRank_levels [simp]:
  "riskRank RiskLow = 0" "riskRank RiskMedium = 1" "riskRank RiskHigh = 2" "riskRank RiskDestructive = 3"
  "riskRank RiskBlocked = 4"
  by (simp_all add: riskRank_def)

lemma riskRank_4 [simp]: "riskRank l = 4 \<longleftrightarrow> l = RiskBlocked"
  by (simp add: riskRank_def)

lemma riskRank_le: "riskRank l \<le> 4"
  by (simp add: riskRank_def)

lemma riskRank_pos: "0 < riskRank l \<Longrightarrow> l \<in> {RiskMedium, RiskHigh, RiskDestructive, RiskBlocked}"
  by (auto simp: riskRank_def split: if_splits)

lemma compareRisk_pos: "compareRisk a b > 0 \<longleftrightarrow> riskRank b < riskRank a"
  by (simp add: compareRisk_def)

lemma requiresApprovalLevel_rank: "requiresApprovalLevel l \<longleftrightarrow> riskRank l = 2 \<or> riskRank l = 3"
  using riskRank_4 [of l] by (auto simp: requiresApprovalLevel_def compareRisk_def riskRank_def)

definition top_rank :: "warning list \<Rightarrow> nat" where
  "top_rank ws = foldr (\<lambda>w m. max (riskRank (wn_Level w)) m) ws 0"

lemma top_rank_simps [simp]:
  "top_rank [] = 0" "top_rank (w # ws) = max (riskRank (wn_Level w)) (top_rank ws)"
  by (simp_all add: top_rank_def)

lemma top_rank_append [simp]: "top_rank (us @ ws) = max (top_rank us) (top_rank ws)"
  by (induction us) simp_all

lemma top_rank_ge: "w \<in> set ws \<Longrightarrow> riskRank (wn_Level w) \<le> top_rank ws"
  by (induction ws) auto

lemma top_rank_reached: "0 < top_rank ws \<Longrightarrow> \<exists>w \<in> set ws. riskRank (wn_Level w) = top_rank ws"
  by (induction ws) (auto simp: max_def)

lemma aggregate_from_rank:
  "aggregate_from level blocked ws = (l, b) \<Longrightarrow>
     riskRank l = max (riskRank level) (top_rank ws) \<and>
     (b \<longleftrightarrow> blocked \<or> (\<exists>w \<in> set ws. wn_Level w = RiskBlocked)) \<and>
     (l = level \<or> (\<exists>w \<in> set ws. wn_Level w = l))"
proof (induction ws arbitrary: level blocked)
  case (Cons w ws)
  show ?case
  proof (cases "compareRisk (wn_Level w) level > 0")
    case True
    with Cons.prems Cons.IH [of "wn_Level w"] show ?thesis by (auto simp: compareRisk_pos)
  next
    case False
    with Cons.prems Cons.IH [of level] show ?thesis by (auto simp: compareRisk_pos)
  qed
qed simp

lemma aggregateWarnings_rank: "riskRank (fst (aggregateWarnings ws)) = top_rank ws"
  using aggregate_from_rank [of RiskLow False ws] by (cases "aggregateWarnings ws") (auto simp: aggregateWarnings_def)

lemma aggregateWarnings_blocked: "snd (aggregateWarnings ws) \<longleftrightarrow> (\<exists>w \<in> set ws. wn_Level w = RiskBlocked)"
  using aggregate_from_rank [of RiskLow False ws] by (cases "aggregateWarnings ws") (auto simp: aggregateWarnings_def)

section \<open>Suppressions\<close>

record suppression =
  sp_Code :: gostring
  sp_Reason :: gostring
  sp_Scope :: gostring
  sp_Location :: "source_location option"
  sp_ExpiresAt :: "int option"
  sp_Owner :: gostring

type_synonym suppression_option = "suppression \<Rightarrow> suppression"

definition SuppressionExpiresAt :: "int \<Rightarrow> suppression_option" where
  [go_eval]: "SuppressionExpiresAt t s = s\<lparr>sp_ExpiresAt := Some t\<rparr>"

definition SuppressionOwner :: "gostring \<Rightarrow> suppression_option" where
  [go_eval]: "SuppressionOwner owner s = s\<lparr>sp_Owner := trim_space owner\<rparr>"

definition NewSuppression :: "gostring \<Rightarrow> gostring \<Rightarrow> suppression_option option list \<Rightarrow> gostring + suppression" where
  [go_eval]: "NewSuppression code why opts =
     (let s = \<lparr>sp_Code = trim_space code, sp_Reason = trim_space why, sp_Scope = ''query'', sp_Location = None,
               sp_ExpiresAt = None, sp_Owner = []\<rparr>
      in if sp_Code s = [] then Inl ''goquent: suppression code is required''
         else if sp_Reason s = [] then Inl ''goquent: suppression reason is required''
         else Inr (fold (\<lambda>opt s. case opt of None \<Rightarrow> s | Some f \<Rightarrow> f s) opts s))"

definition findSuppression :: "gostring \<Rightarrow> suppression list \<Rightarrow> suppression option" where
  [go_eval]: "findSuppression code ss = find_first (\<lambda>s. sp_Code s = code) ss"

definition expired :: "int option \<Rightarrow> int \<Rightarrow> bool" where
  [go_eval]: "expired t now = (case t of None \<Rightarrow> False | Some x \<Rightarrow> \<not> now < x)"

text \<open>What becomes of one warning: kept, kept with a warning about its suppression, or suppressed.\<close>

datatype verdict = Keep | KeepWith warning | Suppressed

definition suppression_verdict :: "suppression list \<Rightarrow> int \<Rightarrow> warning \<Rightarrow> verdict" where
  [go_eval]: "suppression_verdict ss now w =
     (case findSuppression (wn_Code w) ss of
        None \<Rightarrow> Keep
      | Some s \<Rightarrow>
          if sp_Reason s = [] then
            KeepWith (newWarning ''SUPPRESSION_NOT_ALLOWED'' RiskMedium ''suppression reason is required''
              ''add a reason to the suppression'' False False)
          else if expired (sp_ExpiresAt s) now then
            KeepWith (newWarning ''SUPPRESSION_EXPIRED'' RiskMedium ''suppression has expired''
              ''remove the suppression or renew it with a current reason'' False False)
          else if \<not> wn_Suppressible w then
            KeepWith (newWarning ''SUPPRESSION_NOT_ALLOWED'' RiskMedium ''warning is not suppressible''
              ''remove the suppression and fix or explicitly approve the operation when allowed'' False False)
          else Suppressed)"

fun sort_warnings :: "suppression list \<Rightarrow> int \<Rightarrow> warning list \<Rightarrow> warning list \<times> warning list \<times> warning list" where
  "sort_warnings ss now [] = ([], [], [])"
| "sort_warnings ss now (w # ws) =
     (case sort_warnings ss now ws of (kept, gone, nts) \<Rightarrow>
        (case suppression_verdict ss now w of
           Keep \<Rightarrow> (w # kept, gone, nts)
         | KeepWith n \<Rightarrow> (w # kept, gone, n # nts)
         | Suppressed \<Rightarrow> (kept, w # gone, nts)))"

definition applySuppressions :: "warning list \<Rightarrow> suppression list \<Rightarrow> int \<Rightarrow>
    warning list \<times> warning list \<times> warning list" where
  [go_eval]: "applySuppressions ws ss now =
     (if ws = [] \<or> ss = [] then (ws, [], []) else sort_warnings ss now ws)"

text \<open>Splitting the text of an inline suppression at spaces outside double quotes.\<close>

fun suppression_token :: "bool \<Rightarrow> bool \<Rightarrow> gostring \<Rightarrow> gostring \<times> gostring \<times> bool" where
  "suppression_token inq esc [] = ([], [], inq)"
| "suppression_token inq esc (c # cs) =
     (if \<not> esc \<and> \<not> (c = CHR 0x5C \<and> inq) \<and> c \<noteq> CHR 0x22 \<and> \<not> inq \<and>
         c \<in> {CHR '' '', CHR 0x09, CHR 0x0A, CHR 0x0D}
      then ([], c # cs, inq)
      else case (if esc then suppression_token inq False cs
                 else if c = CHR 0x5C \<and> inq then suppression_token inq True cs
                 else if c = CHR 0x22 then suppression_token (\<not> inq) False cs
                 else suppression_token inq False cs) of
        (t, r, open') \<Rightarrow> (c # t, r, open'))"

lemma suppression_token_split: "suppression_token inq esc s = (t, r, q) \<Longrightarrow> s = t @ r"
proof (induction s arbitrary: inq esc t r q)
  case (Cons c cs)
  from Cons.prems show ?case
    by (auto split: if_splits prod.splits dest!: Cons.IH)
qed simp

lemma trim_space_shorter: "length (trim_space s) \<le> length s"
proof -
  obtain u where "s = u @ trim_left s"
    using trim_left_suffix by blast
  then have "length (trim_left s) \<le> length s"
    by (metis length_append le_add2)
  moreover obtain v where "rev (trim_left s) = v @ trim_right_rev (rev (trim_left s))"
    using trim_right_rev_suffix by blast
  then have "length (trim_right_rev (rev (trim_left s))) \<le> length (trim_left s)"
    by (metis length_append le_add2 length_rev)
  ultimately show ?thesis by (simp add: trim_space_def)
qed

lemma rest_of_tokens_shorter:
  assumes "(t, r, q) = suppression_token False False (trim_space s)" "r \<noteq> []"
  shows "length (tl r) < length s"
proof -
  have "trim_space s = t @ r" using suppression_token_split assms(1) by metis
  with assms(2) trim_space_shorter [of s] show ?thesis by (cases r) auto
qed

function splitSuppressionTokens :: "gostring \<Rightarrow> gostring + gostring list" where
  "splitSuppressionTokens s =
     (let u = trim_space s
      in if u = [] then Inr []
         else case suppression_token False False u of
           (t, r, open') \<Rightarrow>
             if open' then Inl ''goquent: unterminated suppression quote''
             else if r = [] then Inr [t]
             else (case splitSuppressionTokens (tl r) of Inl e \<Rightarrow> Inl e | Inr ts \<Rightarrow> Inr (t # ts)))"
  by pat_completeness auto
termination
  by (relation "measure length") (auto simp del: suppression_token.simps dest!: rest_of_tokens_shorter)

declare splitSuppressionTokens.simps [simp del]

text \<open>Every warning is kept or suppressed, in order.\<close>

lemma sort_warnings_spec:
  "sort_warnings ss now ws =
     (filter (\<lambda>w. suppression_verdict ss now w \<noteq> Suppressed) ws,
      filter (\<lambda>w. suppression_verdict ss now w = Suppressed) ws,
      concat (map (\<lambda>w. case suppression_verdict ss now w of KeepWith n \<Rightarrow> [n] | _ \<Rightarrow> []) ws))"
  by (induction ws) (auto split: verdict.splits)

lemma verdict_suppressed:
  "suppression_verdict ss now w = Suppressed \<longleftrightarrow>
     wn_Suppressible w \<and> (\<exists>s. findSuppression (wn_Code w) ss = Some s \<and> sp_Reason s \<noteq> [] \<and> \<not> expired (sp_ExpiresAt s) now)"
  by (auto simp: suppression_verdict_def split: option.splits)

lemma verdict_note: "suppression_verdict ss now w = KeepWith n \<Longrightarrow> wn_Level n = RiskMedium"
  by (auto simp: suppression_verdict_def newWarning_def split: option.splits if_splits)

lemma applySuppressions_spec:
  "applySuppressions ws ss now =
     (filter (\<lambda>w. suppression_verdict ss now w \<noteq> Suppressed) ws,
      filter (\<lambda>w. suppression_verdict ss now w = Suppressed) ws,
      concat (map (\<lambda>w. case suppression_verdict ss now w of KeepWith n \<Rightarrow> [n] | _ \<Rightarrow> []) ws))"
proof (cases "ss = []")
  case True
  then have "suppression_verdict ss now w = Keep" for w
    by (simp add: suppression_verdict_def findSuppression_def)
  with True show ?thesis by (simp add: applySuppressions_def)
qed (simp add: applySuppressions_def sort_warnings_spec)

section \<open>Properties\<close>

text \<open>
  C19: A warning leaves the plan's warnings only by a suppression of its code, the first in the list, that gives a reason and
  has not expired, and only if it is suppressible; all others stay, in order, and each suppression that was refused adds a
  medium warning of its own.
\<close>

theorem suppression_needs_reason:
  assumes "applySuppressions ws ss now = (kept, gone, nts)"
  shows "set kept \<union> set gone = set ws \<and> kept = filter (\<lambda>w. w \<notin> set gone) ws \<and>
     (\<forall>w \<in> set ws. w \<in> set gone \<longleftrightarrow> wn_Suppressible w \<and>
        (\<exists>s. findSuppression (wn_Code w) ss = Some s \<and> sp_Reason s \<noteq> [] \<and> \<not> expired (sp_ExpiresAt s) now)) \<and>
     (\<forall>n \<in> set nts. wn_Level n = RiskMedium)"
proof -
  have gone: "w \<in> set gone \<longleftrightarrow> w \<in> set ws \<and> suppression_verdict ss now w = Suppressed" for w
    using assms by (auto simp: applySuppressions_spec)
  moreover have "kept = filter (\<lambda>w. w \<notin> set gone) ws"
    using assms gone by (auto simp: applySuppressions_spec intro: filter_cong)
  moreover have "\<forall>n \<in> set nts. wn_Level n = RiskMedium"
    using assms by (auto simp: applySuppressions_spec split: verdict.splits dest: verdict_note [OF sym])
  ultimately show ?thesis
    by (auto simp: verdict_suppressed)
qed

definition sample_warning :: "gostring \<Rightarrow> bool \<Rightarrow> warning" where
  "sample_warning code s = newWarning code RiskHigh ''m'' ''h'' s False"

definition sample_suppression :: "gostring \<Rightarrow> suppression" where
  "sample_suppression code = \<lparr>sp_Code = code, sp_Reason = ''batch export'', sp_Scope = ''query'', sp_Location = None,
     sp_ExpiresAt = Some 10, sp_Owner = []\<rparr>"

theorem suppression_needs_reason_witness:
  "\<exists>nts. applySuppressions [sample_warning ''A'' True, sample_warning ''B'' False] [sample_suppression ''A'', sample_suppression ''B''] 9 =
     ([sample_warning ''B'' False], [sample_warning ''A'' True], nts) \<and> map wn_Level nts = [RiskMedium]"
proof -
  obtain nts where a: "applySuppressions [sample_warning ''A'' True, sample_warning ''B'' False]
      [sample_suppression ''A'', sample_suppression ''B''] 9 =
     ([sample_warning ''B'' False], [sample_warning ''A'' True], nts)" "length nts = 1"
    by (simp add: applySuppressions_def suppression_verdict_def findSuppression_def sample_warning_def
        sample_suppression_def newWarning_def expired_def)
  from suppression_needs_reason [OF a(1)] a show ?thesis
    by (cases nts) auto
qed

end
