(* ===== verification/TablePolicies.thy ===== *)
theory TablePolicies
  imports RiskLevels "HOL-Library.AList" "HOL-Library.List_Lexorder" "HOL-Library.Char_ord"
begin

text \<open>
  Table policies (\<^verbatim>\<open>orm/query/policy.go\<close>) and the sets they are snapshotted into
  (\<^verbatim>\<open>orm/query/settings.go\<close>).  A map is an association list with distinct keys; the code sorts what it reads
  from one by table name, bytewise.
\<close>

section \<open>Policies\<close>

record table_policy =
  pol_Version :: int
  pol_ImmutableColumns :: "gostring list"
  pol_ForbiddenColumns :: "gostring list"
  pol_Table :: gostring
  pol_TenantColumn :: gostring
  pol_TenantMode :: gostring
  pol_SoftDeleteColumn :: gostring
  pol_SoftDeleteMode :: gostring
  pol_PIIColumns :: "gostring list"
  pol_PIIMode :: gostring
  pol_RequiredFilterColumns :: "gostring list"
  pol_RequiredFilterMode :: gostring

abbreviation PolicyModeWarn :: gostring where "PolicyModeWarn \<equiv> ''warn''"
abbreviation PolicyModeEnforce :: gostring where "PolicyModeEnforce \<equiv> ''enforce''"
abbreviation PolicyModeBlock :: gostring where "PolicyModeBlock \<equiv> ''block''"

definition defaultPolicyMode :: "gostring \<Rightarrow> gostring \<Rightarrow> gostring" where
  [go_eval]: "defaultPolicyMode mode fallback =
     (if mode = PolicyModeWarn \<or> mode = PolicyModeEnforce \<or> mode = PolicyModeBlock then mode else fallback)"

fun normalize_columns_from :: "gostring list \<Rightarrow> gostring list \<Rightarrow> gostring list" where
  "normalize_columns_from seen [] = []"
| "normalize_columns_from seen (col # cols) =
     (let c = trim_space col; key = normalizeColumnName c
      in if c = [] then normalize_columns_from seen cols
         else if key \<in> set seen then normalize_columns_from seen cols
         else c # normalize_columns_from (key # seen) cols)"

definition normalizeColumns :: "gostring list \<Rightarrow> gostring list" where
  [go_eval]: "normalizeColumns cols = normalize_columns_from [] cols"

definition normalizeTablePolicy :: "table_policy \<Rightarrow> table_policy" where
  [go_eval]: "normalizeTablePolicy p =
     p\<lparr>pol_TenantColumn := trim_space (pol_TenantColumn p), pol_SoftDeleteColumn := trim_space (pol_SoftDeleteColumn p),
       pol_TenantMode := defaultPolicyMode (pol_TenantMode p) PolicyModeEnforce,
       pol_SoftDeleteMode := defaultPolicyMode (pol_SoftDeleteMode p) PolicyModeEnforce,
       pol_PIIMode := defaultPolicyMode (pol_PIIMode p) PolicyModeWarn,
       pol_RequiredFilterMode := defaultPolicyMode (pol_RequiredFilterMode p) PolicyModeEnforce,
       pol_PIIColumns := normalizeColumns (pol_PIIColumns p),
       pol_RequiredFilterColumns := normalizeColumns (pol_RequiredFilterColumns p)\<rparr>"

section \<open>The registry and policy sets\<close>

type_synonym policy_map = "(gostring \<times> table_policy) list"

definition version_ok :: "int \<Rightarrow> bool" where
  [go_eval]: "version_ok v \<longleftrightarrow> \<not> (v \<noteq> 0 \<and> v \<noteq> 1)"

abbreviation ErrVersion :: gostring where
  "ErrVersion \<equiv> ''goquent: invalid, ambiguous or unsupported envelope version''"

definition RegisterTablePolicy :: "table_policy \<Rightarrow> policy_map \<Rightarrow> gostring + policy_map" where
  [go_eval]: "RegisterTablePolicy p registry =
     (if \<not> version_ok (pol_Version p) then Inl ErrVersion
      else if trim_space (pol_Table p) = [] then Inl ''goquent: policy table is required''
      else let name = normalizeTableName (trim_space (pol_Table p));
               q = normalizeTablePolicy (p\<lparr>pol_Table := name\<rparr>)
           in Inr (AList.update name q registry))"

definition PolicyForTable :: "gostring \<Rightarrow> policy_map \<Rightarrow> table_policy option" where
  [go_eval]: "PolicyForTable table registry = map_of registry (normalizeTableName table)"

definition RegisteredTablePolicies :: "policy_map \<Rightarrow> table_policy list" where
  [go_eval]: "RegisteredTablePolicies registry = sort_key pol_Table (map snd registry)"

definition ResetPolicyRegistry :: policy_map where
  [go_eval]: "ResetPolicyRegistry = []"

fun add_policies :: "policy_map \<Rightarrow> table_policy list \<Rightarrow> gostring + policy_map" where
  "add_policies s [] = Inr s"
| "add_policies s (p # ps) =
     (if \<not> version_ok (pol_Version p) then Inl ErrVersion
      else if trim_space (pol_Table p) = [] then Inl ''goquent: policy table is required''
      else let name = normalizeTableName (pol_Table p)
           in add_policies (AList.update name (normalizeTablePolicy (p\<lparr>pol_Table := name\<rparr>)) s) ps)"

definition NewPolicySet :: "table_policy list \<Rightarrow> gostring + policy_map" where
  [go_eval]: "NewPolicySet ps = add_policies [] ps"

definition SnapshotPolicyRegistry :: "policy_map \<Rightarrow> policy_map" where
  [go_eval]: "SnapshotPolicyRegistry registry =
     (case NewPolicySet (RegisteredTablePolicies registry) of Inl e \<Rightarrow> [] | Inr s \<Rightarrow> s)"

section \<open>Checking a plan against the policies\<close>

text \<open>The predicate columns each policy owns, with their tables, and the columns more than one table owns.\<close>

definition owned_columns :: "table_policy list \<Rightarrow> (gostring \<times> gostring) list" where
  [go_eval]: "owned_columns ps =
     concat (map (\<lambda>p. map (\<lambda>col. (normalizeColumnName col, normalizeTableName (pol_Table p)))
        (filter (\<lambda>col. normalizeColumnName col \<noteq> [])
          ([pol_TenantColumn p, pol_SoftDeleteColumn p] @ pol_RequiredFilterColumns p))) ps)"

definition ambiguous_column :: "(gostring \<times> gostring) list \<Rightarrow> gostring \<Rightarrow> bool" where
  [go_eval]: "ambiguous_column owners col \<longleftrightarrow>
     length (remdups (map snd (filter (\<lambda>(c, t). c = col) owners))) > 1"

definition policyWarning :: "gostring \<Rightarrow> gostring \<Rightarrow> gostring \<Rightarrow> gostring \<Rightarrow> bool \<Rightarrow> warning" where
  [go_eval]: "policyWarning code level message hint suppressible =
     newWarning code level message hint (suppressible \<and> level \<noteq> RiskBlocked) False"

definition policyModeLevel :: "gostring \<Rightarrow> gostring \<Rightarrow> gostring" where
  [go_eval]: "policyModeLevel mode fallback =
     (if mode = PolicyModeWarn then fallback
      else if mode = PolicyModeEnforce then (if compareRisk fallback RiskHigh < 0 then RiskHigh else fallback)
      else if mode = PolicyModeBlock then RiskBlocked
      else fallback)"

definition policyAppliesToOperation :: "gostring \<Rightarrow> bool" where
  [go_eval]: "policyAppliesToOperation oper \<longleftrightarrow> oper = OperationSelect \<or> oper = OperationUpdate \<or> oper = OperationDelete"

definition meta_at :: "query_plan \<Rightarrow> gostring \<Rightarrow> meta_value option" where
  [go_eval]: "meta_at plan key = (case Metadata plan of None \<Rightarrow> None | Some m \<Rightarrow> m key)"

definition shouldRequireSoftDeleteFilter :: "query_plan \<Rightarrow> gostring \<Rightarrow> bool" where
  [go_eval]: "shouldRequireSoftDeleteFilter plan table =
     (if meta_at plan ''soft_delete'' = Some (MetaString ''with_deleted'')
      then (case meta_at plan ''policy_table'' of
              Some (MetaString t) \<Rightarrow> normalizeTableName t \<noteq> normalizeTableName table
            | _ \<Rightarrow> False)
      else True)"

definition star_column :: "column_ref \<Rightarrow> bool" where
  [go_eval]: "star_column c \<longleftrightarrow> trim_space (cr_Name c) = ''*'' \<or> trim_space (cr_Expression c) = ''*''"

definition selectedPIIColumnsForPolicy :: "query_plan \<Rightarrow> column_ref list \<Rightarrow> gostring \<Rightarrow> gostring list \<Rightarrow> gostring list" where
  [go_eval]: "selectedPIIColumnsForPolicy plan cols table pii =
     (let qualifiers = tableQualifierSet plan table;
          selected = map cr_Name (filter (\<lambda>c. \<not> star_column c \<and> cr_Name c \<noteq> []) cols)
      in filter (\<lambda>p. (\<exists>c \<in> set cols. star_column c) \<or>
           (\<exists>c \<in> set selected. predicateColumnMatches c (normalizeColumnName p) qualifiers True)) pii)"

definition lacks_filter :: "query_plan \<Rightarrow> table_policy \<Rightarrow> (gostring \<times> gostring) list \<Rightarrow> gostring \<Rightarrow> bool" where
  [go_eval]: "lacks_filter plan p owners col \<longleftrightarrow>
     policyAppliesToOperation (Operation plan) \<and>
     \<not> hasPolicyPredicateColumn plan (pol_Table p) col (\<not> ambiguous_column owners (normalizeColumnName col))"

definition pii_warning :: "query_plan \<Rightarrow> table_policy \<Rightarrow> gostring \<Rightarrow> warning" where
  [go_eval]: "pii_warning plan p col =
     (policyWarning ''PII_COLUMN_SELECTED'' (policyModeLevel (pol_PIIMode p) RiskMedium)
        (''PII column selected: '' @ pol_Table p @ ''.'' @ col) ''avoid selecting PII or include a narrow access reason'' True)
      \<lparr>wn_RequiresReason := True,
       wn_Evidence := (case meta_at plan ''access_reason'' of
           Some (MetaString r) \<Rightarrow> (if r \<noteq> [] then [(''access_reason'', EvText r)] else [])
         | _ \<Rightarrow> [])\<rparr>"

definition returning_columns :: "query_plan \<Rightarrow> gostring list" where
  [go_eval]: "returning_columns plan =
     (case meta_at plan ''returning_columns'' of Some (MetaStrings cols) \<Rightarrow> cols | _ \<Rightarrow> [])"

definition checkPolicyWithContext :: "query_plan \<Rightarrow> table_policy \<Rightarrow> (gostring \<times> gostring) list \<Rightarrow> warning list" where
  [go_eval]: "checkPolicyWithContext plan p owners =
     (if pol_Table p = [] then []
      else if \<not> planTouchesTable plan (pol_Table p) then []
      else
        (if pol_TenantColumn p \<noteq> [] \<and> lacks_filter plan p owners (pol_TenantColumn p)
         then [policyWarning ''TENANT_FILTER_MISSING'' (policyModeLevel (pol_TenantMode p) RiskHigh)
                (pol_Table p @ '' is tenant-scoped but '' @ pol_TenantColumn p @ '' filter is missing'')
                ''add a tenant filter before executing this query'' False]
         else []) @
        concat (map (\<lambda>col.
          if lacks_filter plan p owners col
          then [policyWarning ''REQUIRED_FILTER_MISSING'' (policyModeLevel (pol_RequiredFilterMode p) RiskHigh)
                 (pol_Table p @ '' requires a filter on '' @ col)
                 ''add the required filter before executing this query'' False]
          else []) (pol_RequiredFilterColumns p)) @
        (if pol_SoftDeleteColumn p \<noteq> [] \<and> shouldRequireSoftDeleteFilter plan (pol_Table p) \<and>
            lacks_filter plan p owners (pol_SoftDeleteColumn p)
         then [policyWarning ''SOFT_DELETE_FILTER_MISSING'' (policyModeLevel (pol_SoftDeleteMode p) RiskMedium)
                (pol_Table p @ '' has soft delete policy but '' @ pol_SoftDeleteColumn p @ '' filter is missing'')
                ''use the default soft delete filter or explicitly call WithDeleted'' True]
         else []) @
        (let returning = returning_columns plan;
             cols = (if returning \<noteq> [] then columnRefsFromNames returning else items (Columns plan))
         in if Operation plan = OperationSelect \<or> returning \<noteq> []
            then map (pii_warning plan p) (selectedPIIColumnsForPolicy plan cols (pol_Table p) (pol_PIIColumns p))
            else []))"

definition checkPolicies :: "query_plan \<Rightarrow> table_policy option \<Rightarrow> policy_map \<Rightarrow> warning list" where
  [go_eval]: "checkPolicies plan extra pset =
     (let base = fold (\<lambda>p m. AList.update (normalizeTableName (pol_Table p)) p m) (RegisteredTablePolicies pset) [];
          byTable = (case extra of
             Some p \<Rightarrow> if trim_space (pol_Table p) \<noteq> [] then AList.update (normalizeTableName (pol_Table p)) p base else base
           | None \<Rightarrow> base);
          policies = filter (\<lambda>p. planTouchesTable plan (pol_Table p)) (map snd (sort_key fst byTable));
          owners = owned_columns policies
      in concat (map (\<lambda>p. checkPolicyWithContext plan p owners) policies))"

section \<open>Stores of policies\<close>

definition normal_policy :: "table_policy \<Rightarrow> table_policy" where
  "normal_policy p = normalizeTablePolicy (p\<lparr>pol_Table := normalizeTableName (pol_Table p)\<rparr>)"

definition acceptable :: "table_policy \<Rightarrow> bool" where
  "acceptable p \<longleftrightarrow> version_ok (pol_Version p) \<and> trim_space (pol_Table p) \<noteq> []"

text \<open>
  What the two stores of policies promise: a policy that is accepted is found, normalised, under every spelling of
  its table's name, and no other table is affected.
\<close>

locale policy_store =
  fixes put :: "table_policy \<Rightarrow> 's \<Rightarrow> gostring + 's"
    and get :: "gostring \<Rightarrow> 's \<Rightarrow> table_policy option"
  assumes put_accepts: "isl (put p s) \<longleftrightarrow> \<not> acceptable p"
    and get_put: "put p s = Inr s' \<Longrightarrow>
      get t s' = (if normalizeTableName t = normalizeTableName (pol_Table p) then Some (normal_policy p) else get t s)"
begin

fun put_all :: "table_policy list \<Rightarrow> 's \<Rightarrow> gostring + 's" where
  "put_all [] s = Inr s"
| "put_all (p # ps) s = (case put p s of Inl e \<Rightarrow> Inl e | Inr s' \<Rightarrow> put_all ps s')"

lemma put_all_accepts: "isl (put_all ps s) \<longleftrightarrow> (\<exists>p \<in> set ps. \<not> acceptable p)"
proof (induction ps arbitrary: s)
  case (Cons p ps)
  with put_accepts [of p s] show ?case by (auto split: sum.splits)
qed simp

text \<open>The last policy of a table wins.\<close>

lemma get_put_all:
  "put_all ps s = Inr s' \<Longrightarrow>
     get t s' = (case find_first (\<lambda>p. normalizeTableName (pol_Table p) = normalizeTableName t) (rev ps) of
        Some p \<Rightarrow> Some (normal_policy p) | None \<Rightarrow> get t s)"
proof (induction ps arbitrary: s)
  case (Cons p ps)
  then obtain s1 where s1: "put p s = Inr s1" "put_all ps s1 = Inr s'"
    by (auto split: sum.splits)
  have snoc: "find_first P (xs @ [x]) = (case find_first P xs of Some y \<Rightarrow> Some y | None \<Rightarrow> if P x then Some x else None)"
    for P :: "table_policy \<Rightarrow> bool" and xs x by (induction xs) auto
  show ?case
    using Cons.IH [OF s1(2)] get_put [OF s1(1), of t] by (auto simp: snoc split: option.splits)
qed simp

end

lemma normalizeTableName_trim [simp]: "normalizeTableName (trim_space s) = normalizeTableName s"
  by (simp add: normalizeTableName_def)

lemma pol_Table_normalize [simp]: "pol_Table (normalizeTablePolicy p) = pol_Table p"
  by (simp add: normalizeTablePolicy_def)

interpretation registry: policy_store RegisterTablePolicy PolicyForTable
proof
  show "isl (RegisterTablePolicy p s) \<longleftrightarrow> \<not> acceptable p" for p s
    by (simp add: RegisterTablePolicy_def acceptable_def Let_def)
  show "RegisterTablePolicy p s = Inr s' \<Longrightarrow> PolicyForTable t s' =
      (if normalizeTableName t = normalizeTableName (pol_Table p) then Some (normal_policy p) else PolicyForTable t s)" for p s s' t
    by (auto simp: RegisterTablePolicy_def PolicyForTable_def normal_policy_def Let_def update_conv split: if_splits)
qed

definition add_policy :: "table_policy \<Rightarrow> policy_map \<Rightarrow> gostring + policy_map" where
  "add_policy p s = add_policies s [p]"

interpretation pset: policy_store add_policy PolicyForTable
proof
  show "isl (add_policy p s) \<longleftrightarrow> \<not> acceptable p" for p s
    by (simp add: add_policy_def acceptable_def Let_def)
  show "add_policy p s = Inr s' \<Longrightarrow> PolicyForTable t s' =
      (if normalizeTableName t = normalizeTableName (pol_Table p) then Some (normal_policy p) else PolicyForTable t s)" for p s s' t
    by (auto simp: add_policy_def PolicyForTable_def normal_policy_def Let_def update_conv split: if_splits)
qed

lemma add_policies_put_all: "add_policies s ps = pset.put_all ps s"
  by (induction ps arbitrary: s) (auto simp: add_policy_def Let_def)

section \<open>Which warnings a policy gives\<close>

lemma policyModeLevel_high: "2 \<le> riskRank (policyModeLevel mode RiskHigh)"
  by (simp add: policyModeLevel_def compareRisk_def)

lemma set_update_other: "map_of m k = Some v \<Longrightarrow> k \<noteq> c \<Longrightarrow> map_of (AList.update c x m) k = Some v"
  by (simp add: update_conv)

lemma fold_update_keeps:
  assumes "\<forall>q \<in> set ps. f q = k \<longrightarrow> q = p" "p \<in> set ps \<or> map_of m k = Some p" "f p = k"
  shows "map_of (fold (\<lambda>q m. AList.update (f q) q m) ps m) k = Some p"
  using assms
proof (induction ps arbitrary: m)
  case (Cons q ps)
  have "p \<in> set ps \<or> map_of (AList.update (f q) q m) k = Some p"
    using Cons.prems by (auto simp: update_conv)
  with Cons.IH Cons.prems show ?case by simp
qed simp

text \<open>The policy a table is checked under: the query's own one, or the only one the set has for it.\<close>

definition governs :: "table_policy \<Rightarrow> table_policy option \<Rightarrow> policy_map \<Rightarrow> bool" where
  "governs p extra pset \<longleftrightarrow>
     (case extra of
        Some q \<Rightarrow> q = p \<and> trim_space (pol_Table p) \<noteq> []
      | None \<Rightarrow> p \<in> snd ` set pset \<and>
          (\<forall>q \<in> snd ` set pset. normalizeTableName (pol_Table q) = normalizeTableName (pol_Table p) \<longrightarrow> q = p))"

lemma governing_policy_checked:
  assumes "governs p extra pset" "planTouchesTable plan (pol_Table p)"
  obtains owners where "set (checkPolicyWithContext plan p owners) \<subseteq> set (checkPolicies plan extra pset)"
proof -
  let ?name = "\<lambda>q. normalizeTableName (pol_Table q)"
  define base where "base = fold (\<lambda>q m. AList.update (?name q) q m) (RegisteredTablePolicies pset) []"
  define byTable where "byTable = (case extra of
      Some q \<Rightarrow> if trim_space (pol_Table q) \<noteq> [] then AList.update (?name q) q base else base | None \<Rightarrow> base)"
  have "map_of byTable (?name p) = Some p"
  proof (cases extra)
    case None
    then have "map_of base (?name p) = Some p"
      unfolding base_def using assms(1)
      by (intro fold_update_keeps) (auto simp: governs_def RegisteredTablePolicies_def)
    with None show ?thesis by (simp add: byTable_def)
  next
    case (Some q)
    with assms(1) show ?thesis by (simp add: byTable_def governs_def update_conv)
  qed
  then have "(?name p, p) \<in> set byTable" by (rule map_of_SomeD)
  then have "p \<in> set (filter (\<lambda>p. planTouchesTable plan (pol_Table p)) (map snd (sort_key fst byTable)))"
    using assms(2) by force
  then show thesis
    using that unfolding checkPolicies_def byTable_def [symmetric] base_def [symmetric] Let_def by fastforce
qed

definition mentions_column :: "query_plan \<Rightarrow> gostring \<Rightarrow> bool" where
  "mentions_column plan col \<longleftrightarrow>
     (\<exists>q \<in> set (inspectionPredicates plan).
        snd (splitColumnReference (pr_Column q)) = normalizeColumnName col \<or>
        snd (splitColumnReference (pr_ValueColumn q)) = normalizeColumnName col)"

lemma unmentioned_lacks_filter:
  "\<not> mentions_column plan col \<Longrightarrow> policyAppliesToOperation (Operation plan) \<Longrightarrow> lacks_filter plan p owners col"
  by (auto simp: lacks_filter_def hasPolicyPredicateColumn_def mentions_column_def predicateColumnMatches_def Let_def
      split: prod.splits)

lemma tenant_filter_missing:
  assumes "governs p extra pset" "planTouchesTable plan (pol_Table p)" "pol_Table p \<noteq> []"
    and "policyAppliesToOperation (Operation plan)" "pol_TenantColumn p \<noteq> []" "\<not> mentions_column plan (pol_TenantColumn p)"
  shows "\<exists>w \<in> set (checkPolicies plan extra pset).
     wn_Code w = ''TENANT_FILTER_MISSING'' \<and> 2 \<le> riskRank (wn_Level w) \<and> \<not> wn_Suppressible w"
proof -
  obtain owners where sub: "set (checkPolicyWithContext plan p owners) \<subseteq> set (checkPolicies plan extra pset)"
    using governing_policy_checked [OF assms(1,2)] .
  have "lacks_filter plan p owners (pol_TenantColumn p)"
    by (rule unmentioned_lacks_filter [OF assms(6,4)])
  then have "\<exists>w \<in> set (checkPolicyWithContext plan p owners).
      wn_Code w = ''TENANT_FILTER_MISSING'' \<and> 2 \<le> riskRank (wn_Level w) \<and> \<not> wn_Suppressible w"
    using assms(2,3,5) policyModeLevel_high by (simp add: checkPolicyWithContext_def policyWarning_def newWarning_def)
  with sub show ?thesis by blast
qed

section \<open>Properties\<close>

text \<open>
  A policy set is made exactly when every policy names a table and has a known version; a table then has, under every
  spelling of its name, the normalised form of the last policy given for it, and none when none was.
\<close>

theorem policy_set_lookup:
  "(isl (NewPolicySet ps) \<longleftrightarrow> (\<exists>p \<in> set ps. \<not> acceptable p)) \<and>
   (NewPolicySet ps = Inr s \<longrightarrow>
      PolicyForTable t s =
        map_option normal_policy (find_first (\<lambda>p. normalizeTableName (pol_Table p) = normalizeTableName t) (rev ps)))"
  unfolding NewPolicySet_def add_policies_put_all
  using pset.put_all_accepts [of ps "[]"] pset.get_put_all [of ps "[]" s t]
  by (auto simp: PolicyForTable_def split: option.splits)

definition sample_policy :: table_policy where
  "sample_policy = \<lparr>pol_Version = 1, pol_ImmutableColumns = [], pol_ForbiddenColumns = [], pol_Table = ''users'',
     pol_TenantColumn = ''tenant_id'', pol_TenantMode = ''enforce'', pol_SoftDeleteColumn = [], pol_SoftDeleteMode = [],
     pol_PIIColumns = [], pol_PIIMode = [], pol_RequiredFilterColumns = [], pol_RequiredFilterMode = []\<rparr>"

theorem policy_set_lookup_witness:
  "\<exists>s. NewPolicySet [sample_policy] = Inr s \<and> PolicyForTable ''users'' s = Some (normal_policy sample_policy)"
proof -
  have "acceptable sample_policy" by code_simp
  with policy_set_lookup [of "[sample_policy]"] obtain s where s: "NewPolicySet [sample_policy] = Inr s"
    by (cases "NewPolicySet [sample_policy]") auto
  with policy_set_lookup [of "[sample_policy]" s "''users''"] show ?thesis by (simp add: sample_policy_def)
qed

end
