(* ===== verification/QuerySettings.thy ===== *)
theory QuerySettings
  imports TablePolicies WriteScope
begin

text \<open>
  The settings a query runs under (\<^verbatim>\<open>orm/query/settings.go\<close> and \<^verbatim>\<open>orm/query/tenant_settings.go\<close>): risk rules, the
  execution context with the current tenant, and the schema the application asserts.
\<close>

section \<open>Risk rules\<close>

record risk_rule =
  rr_Enabled :: "bool option"
  rr_Severity :: "gostring option"
  rr_Suppressible :: "bool option"
  rr_RequiresReason :: "bool option"

record risk_config =
  rc_Environment :: gostring
  rc_Rules :: "(gostring \<times> risk_rule) list"

definition no_risk_config :: risk_config where
  [go_eval]: "no_risk_config = \<lparr>rc_Environment = [], rc_Rules = []\<rparr>"

section \<open>The execution context\<close>

record context_input =
  ci_Source :: gostring
  ci_CurrentTenant :: goval
  ci_TenantPresent :: bool

record execution_context =
  ec_input :: context_input
  ec_application :: bool

abbreviation ErrUnsupportedExecutionContext :: gostring where
  "ErrUnsupportedExecutionContext \<equiv>
     ''goquent: execution context contains an unsupported, recursive, deep or oversized value''"

definition NewExecutionContext :: "context_input \<Rightarrow> gostring + execution_context" where
  [go_eval]: "NewExecutionContext i =
     (case Copy new_copier (ci_CurrentTenant i) of ((v, ok), _) \<Rightarrow>
        if \<not> ok then Inl ErrUnsupportedExecutionContext
        else if \<not> ci_TenantPresent i \<and> ci_CurrentTenant i \<noteq> VNil
        then Inl ''goquent: tenant value supplied without TenantPresent''
        else Inr \<lparr>ec_input = i\<lparr>ci_CurrentTenant := v\<rparr>, ec_application = False\<rparr>)"

definition NewApplicationTenantContext :: "context_input \<Rightarrow> gostring + execution_context" where
  [go_eval]: "NewApplicationTenantContext i =
     (case NewExecutionContext i of Inl e \<Rightarrow> Inl e | Inr c \<Rightarrow> Inr (c\<lparr>ec_application := True\<rparr>))"

section \<open>The application's schema\<close>

record application_table =
  at_PlainTable :: bool
  at_Table :: gostring
  at_Columns :: "write_key_column list"
  at_Constraints :: "write_key list"
  at_CompleteUniqueConstraints :: bool

record schema_input =
  si_Database :: gostring
  si_Dialect :: gostring
  si_Tables :: "application_table list"

fun schema_columns_ok :: "gostring list \<Rightarrow> write_key_column list \<Rightarrow> bool" where
  "schema_columns_ok names [] = True"
| "schema_columns_ok names (c # cs) =
     (\<not> (\<not> scopeIdent (kc_Name c) \<or> kc_Name c \<in> set names \<or> length (kc_DBType c) > 64) \<and>
      schema_columns_ok (kc_Name c # names) cs)"

definition constraints_context :: "write_key list \<Rightarrow> write_key_context" where
  [go_eval]: "constraints_context ks = \<lparr>kx_invalid = [], kx_Database = [], kx_Dialect = [], kx_Table = [], kx_Alias = [],
     kx_Constraints = ks\<rparr>"

fun schema_tables_ok :: "gostring list \<Rightarrow> nat \<Rightarrow> application_table list \<Rightarrow> bool" where
  "schema_tables_ok seen n [] = True"
| "schema_tables_ok seen n (t # ts) =
     (let m = n + length (at_Columns t)
      in \<not> (\<not> scopePath (at_Table t) \<or> at_Table t \<in> set seen \<or> at_Columns t = [] \<or> length (at_Columns t) > 256) \<and>
         m \<le> 4096 \<and> schema_columns_ok [] (at_Columns t) \<and>
         kx_invalid (copyWriteKeys (constraints_context (at_Constraints t))) = [] \<and>
         schema_tables_ok (at_Table t # seen) m ts)"

definition NewApplicationSchema :: "schema_input \<Rightarrow> gostring + schema_input" where
  [go_eval]: "NewApplicationSchema i =
     (if trim_space (si_Database i) = [] \<or> length (si_Database i) > 256 \<or>
         si_Dialect i \<noteq> ''mysql'' \<and> si_Dialect i \<noteq> ''postgres'' \<or> si_Tables i = [] \<or> length (si_Tables i) > 64 \<or>
         \<not> schema_tables_ok [] 0 (si_Tables i)
      then Inl ''goquent: invalid or oversized application schema''
      else Inr i)"

section \<open>Settings\<close>

record settings =
  st_strict :: bool
  st_autoTenant :: bool
  st_database :: gostring
  st_schema :: "schema_input option"
  st_policies :: policy_map
  st_risk :: risk_config
  st_execution :: execution_context
  st_err :: "gostring option"

abbreviation ErrUnsupportedRiskEngine :: gostring where
  "ErrUnsupportedRiskEngine \<equiv>
     ''goquent: custom global risk engine cannot be snapshotted; supply an explicit RiskConfig''"

definition blank_context :: execution_context where
  [go_eval]: "blank_context =
     \<lparr>ec_input = \<lparr>ci_Source = [], ci_CurrentTenant = VNil, ci_TenantPresent = False\<rparr>, ec_application = False\<rparr>"

definition NewSettings :: "policy_map \<Rightarrow> risk_config \<Rightarrow> execution_context \<Rightarrow> settings" where
  [go_eval]: "NewSettings policies risk execution =
     \<lparr>st_strict = False, st_autoTenant = False, st_database = [], st_schema = None, st_policies = policies,
      st_risk = risk, st_execution = execution, st_err = None\<rparr>"

text \<open>The process-wide risk engine: the built-in one with its configuration, or an application's own.\<close>

datatype risk_engine = DefaultEngine risk_config | CustomEngine nat

definition SnapshotDefaultSettings :: "policy_map \<Rightarrow> risk_engine \<Rightarrow> settings" where
  [go_eval]: "SnapshotDefaultSettings registry engine =
     (let s = NewSettings (SnapshotPolicyRegistry registry) no_risk_config blank_context
      in case engine of
           DefaultEngine c \<Rightarrow> s\<lparr>st_risk := c\<rparr>
         | CustomEngine _ \<Rightarrow> s\<lparr>st_err := Some ErrUnsupportedRiskEngine\<rparr>)"

definition WithPolicySet :: "policy_map \<Rightarrow> settings \<Rightarrow> settings" where
  [go_eval]: "WithPolicySet p s = s\<lparr>st_policies := p\<rparr>"

definition WithRiskConfig :: "risk_config \<Rightarrow> settings \<Rightarrow> settings" where
  [go_eval]: "WithRiskConfig c s = s\<lparr>st_risk := c, st_err := None\<rparr>"

definition WithExecutionContext :: "execution_context \<Rightarrow> settings \<Rightarrow> settings" where
  [go_eval]: "WithExecutionContext c s = s\<lparr>st_execution := c\<rparr>"

definition WithTenantPolicy :: "gostring \<Rightarrow> schema_input option \<Rightarrow> bool \<Rightarrow> settings \<Rightarrow> settings" where
  [go_eval]: "WithTenantPolicy database schema automatic s =
     s\<lparr>st_strict := True, st_autoTenant := automatic, st_database := database, st_schema := schema\<rparr>"

end
