(* ===== verification/RiskEngine.thy ===== *)
theory RiskEngine
  imports QuerySettings
begin

text \<open>
  The risk engine (\<^verbatim>\<open>orm/query/risk.go\<close>): the warnings a plan gets, its level, and the gate that lets a plan
  be executed.  The current time is an argument.  \<^term>\<open>checkTenantEvidence\<close> is the part of the
  gate that \<^verbatim>\<open>orm/query/tenant_policy.go\<close> adds.
\<close>

section \<open>What the rules look for\<close>

definition selectStarUsed :: "query_plan \<Rightarrow> bool" where
  [go_eval]: "selectStarUsed plan \<longleftrightarrow>
     items (Columns plan) = [] \<or> (\<exists>c \<in> set (items (Columns plan)). \<not> cr_Count c \<and> star_column c)"

definition selectIsAggregateOnly :: "query_plan \<Rightarrow> bool" where
  [go_eval]: "selectIsAggregateOnly plan \<longleftrightarrow>
     items (Columns plan) \<noteq> [] \<and> (\<forall>c \<in> set (items (Columns plan)). cr_Count c \<or> cr_Function c \<noteq> [])"

definition hasNoPredicate :: "query_plan \<Rightarrow> bool" where
  [go_eval]: "hasNoPredicate plan \<longleftrightarrow>
     inspectionPredicates plan = [] \<and> \<not> str_contains (to_upper (SQL plan)) '' WHERE ''"

definition normalizedContainsWeakPredicate :: "gostring \<Rightarrow> bool" where
  [go_eval]: "normalizedContainsWeakPredicate s =
     (let n = filter (\<lambda>c. c \<notin> {CHR ''`'', CHR 0x22, CHR '' '', CHR 0x09, CHR 0x0A}) (to_lower s)
      in str_contains n ''where1=1'' \<or> n = ''1=1'' \<or> str_contains n ''(1=1)'')"

definition hasWeakPredicate :: "query_plan \<Rightarrow> bool" where
  [go_eval]: "hasWeakPredicate plan \<longleftrightarrow>
     normalizedContainsWeakPredicate (SQL plan) \<or>
     (\<exists>p \<in> set (inspectionPredicates plan).
        normalizedContainsWeakPredicate (pr_Raw p) \<or> pr_Column p = ''1'' \<and> pr_Operator p = ''='')"

definition isSQLWordByte :: "char \<Rightarrow> bool" where
  [go_eval]: "isSQLWordByte c \<longleftrightarrow> is_upper c \<or> is_digit c \<or> c = CHR ''_''"

text \<open>The loop over start positions; \<^term>\<open>prev\<close> is the byte before the current one.\<close>

fun sql_word_from :: "char option \<Rightarrow> gostring \<Rightarrow> gostring \<Rightarrow> bool" where
  "sql_word_from prev [] token = False"
| "sql_word_from prev (c # cs) token =
     (has_prefix (c # cs) token \<and> (prev = None \<or> \<not> isSQLWordByte (the prev)) \<and>
        (let rest = drop (length token) (c # cs) in rest = [] \<or> \<not> isSQLWordByte (hd rest)) \<or>
      sql_word_from (Some c) cs token)"

definition containsSQLWord :: "gostring \<Rightarrow> gostring \<Rightarrow> bool" where
  [go_eval]: "containsSQLWord upperSQL token = sql_word_from None upperSQL token"

definition containsDangerousSQLToken :: "gostring \<Rightarrow> bool" where
  [go_eval]: "containsDangerousSQLToken sql =
     (\<exists>token \<in> {''DROP'', ''TRUNCATE'', ''ALTER''}. containsSQLWord (to_upper sql) token)"

section \<open>The engine\<close>

definition applyRiskRule :: "risk_config \<Rightarrow> warning \<Rightarrow> warning list" where
  [go_eval]: "applyRiskRule config w =
     (case map_of (rc_Rules config) (wn_Code w) of
        None \<Rightarrow> [w]
      | Some r \<Rightarrow>
          if rr_Enabled r = Some False then []
          else [w\<lparr>wn_Level := (case rr_Severity r of Some l \<Rightarrow> l | None \<Rightarrow> wn_Level w),
                  wn_Suppressible := (case rr_Suppressible r of Some b \<Rightarrow> b | None \<Rightarrow> wn_Suppressible w),
                  wn_RequiresReason := (case rr_RequiresReason r of Some b \<Rightarrow> b | None \<Rightarrow> wn_RequiresReason w)\<rparr>])"

definition applyRiskConfig :: "warning list \<Rightarrow> risk_config \<Rightarrow> warning list" where
  [go_eval]: "applyRiskConfig ws config = concat (map (applyRiskRule config) ws)"

definition scoped_plan :: "query_plan \<Rightarrow> query_plan" where
  [go_eval]: "scoped_plan plan =
     (if Operation plan = OperationUpdate \<or> Operation plan = OperationDelete
      then let scope = AnalyzeWriteScope plan; p = plan\<lparr>WriteScope := Some scope\<rparr>
           in if ws_Status scope = ''unknown'' \<and> Precision p \<noteq> AnalysisUnsupported then p\<lparr>Precision := AnalysisPartial\<rparr> else p
      else plan)"

definition at_most_one_scope :: "query_plan \<Rightarrow> bool" where
  [go_eval]: "at_most_one_scope plan \<longleftrightarrow>
     (case WriteScope plan of Some r \<Rightarrow> ws_Status r = ''at_most_one'' | None \<Rightarrow> False)"

definition with_scope_evidence :: "query_plan \<Rightarrow> warning \<Rightarrow> warning" where
  [go_eval]: "with_scope_evidence plan w =
     (case WriteScope plan of
        Some r \<Rightarrow> w\<lparr>wn_Evidence := wn_Evidence w @ [(''write_scope'', EvScope r)]\<rparr> | None \<Rightarrow> w)"

definition select_warnings :: "query_plan \<Rightarrow> warning list" where
  [go_eval]: "select_warnings plan =
     (if selectStarUsed plan
      then [newWarning ''SELECT_STAR_USED'' RiskMedium ''SELECT * makes selected data harder to review''
              ''select explicit columns'' True False] else []) @
     (if PlanLimit plan = None \<and> \<not> selectIsAggregateOnly plan
      then [newWarning ''LIMIT_MISSING'' RiskMedium ''SELECT query has no LIMIT'' ''add Limit(n) for list queries'' True False]
      else [])"

definition update_warnings :: "query_plan \<Rightarrow> warning list" where
  [go_eval]: "update_warnings plan =
     (if hasNoPredicate plan
      then [newWarning ''UPDATE_WITHOUT_WHERE'' RiskBlocked ''UPDATE query has no WHERE predicate''
              ''add a specific predicate before executing the update'' False False]
      else if \<not> at_most_one_scope plan
      then [with_scope_evidence plan
             (newWarning ''BULK_UPDATE_DETECTED'' RiskMedium ''UPDATE scope is not proven to affect at most one row''
                ''confirm the intended row set or add a narrower predicate'' True False)]
      else [])"

definition delete_warnings :: "query_plan \<Rightarrow> warning list" where
  [go_eval]: "delete_warnings plan =
     (if hasNoPredicate plan
      then [newWarning ''DELETE_WITHOUT_WHERE'' RiskBlocked ''DELETE query has no WHERE predicate''
              ''add a specific predicate before executing the delete'' False False]
      else if \<not> at_most_one_scope plan
      then [with_scope_evidence plan
             (newWarning ''BULK_DELETE_DETECTED'' RiskMedium ''DELETE scope is not proven to affect at most one row''
                ''confirm the intended row set or add a narrower predicate'' True False)]
      else [])"

definition operation_warnings :: "query_plan \<Rightarrow> warning list" where
  [go_eval]: "operation_warnings plan =
     (if Operation plan = OperationSelect then select_warnings plan
      else if Operation plan = OperationUpdate then update_warnings plan
      else if Operation plan = OperationDelete then delete_warnings plan
      else if Operation plan = OperationRaw
      then [newWarning ''RAW_SQL_USED'' RiskHigh ''raw SQL was used; Goquent cannot fully inspect this query''
              ''prefer Goquent query builders when possible, or review the raw SQL explicitly'' True True]
      else [])"

definition rule_warnings :: "query_plan \<Rightarrow> warning list" where
  [go_eval]: "rule_warnings plan =
     operation_warnings plan @
     (if containsDangerousSQLToken (SQL plan)
      then [newWarning ''DESTRUCTIVE_SQL_DETECTED'' RiskDestructive ''SQL contains a destructive DDL token''
              ''review destructive SQL manually and require explicit approval before execution'' False False] else []) @
     (if hasWeakPredicate plan
      then [newWarning ''WEAK_PREDICATE'' RiskHigh ''query contains a weak predicate such as 1=1''
              ''replace weak predicates with a meaningful filter'' True False] else [])"

record risk_result =
  rk_Level :: gostring
  rk_Warnings :: "warning list"
  rk_RequiredApproval :: bool
  rk_Blocked :: bool

text \<open>The check also stores the write scope in the plan, so it returns the plan.\<close>

definition CheckQuery :: "risk_config \<Rightarrow> query_plan \<Rightarrow> query_plan \<times> risk_result" where
  [go_eval]: "CheckQuery config plan =
     (let p = scoped_plan plan;
          ws = applyRiskConfig (rule_warnings p) config
      in case aggregateWarnings ws of (level, blocked) \<Rightarrow>
        (p, \<lparr>rk_Level = level, rk_Warnings = ws, rk_RequiredApproval = requiresApprovalLevel level, rk_Blocked = blocked\<rparr>))"

section \<open>Required predicates\<close>

fun json_required :: "goval list \<Rightarrow> required_predicate list" where
  "json_required [] = []"
| "json_required (v # vs) =
     (case v of
        VMap es \<Rightarrow>
          (let at = (\<lambda>k. case map_of (items es) k of Some (VString s) \<Rightarrow> s | _ \<Rightarrow> [])
           in \<lparr>rp_Table = at ''table'', rp_Column = at ''column''\<rparr> # json_required vs)
      | _ \<Rightarrow> json_required vs)"

definition requiredPredicatesFromPlan :: "query_plan \<Rightarrow> required_predicate list" where
  [go_eval]: "requiredPredicatesFromPlan plan =
     (case meta_at plan ''required_predicates'' of
        Some (MetaRequired rs) \<Rightarrow> rs
      | Some (MetaList vs) \<Rightarrow> json_required vs
      | _ \<Rightarrow> [])"

definition required_warning :: "required_predicate \<Rightarrow> warning" where
  [go_eval]: "required_warning r =
     (let label = (if trim_space (rp_Table r) \<noteq> [] then rp_Table r @ ''.'' @ rp_Column r else rp_Column r)
      in \<lparr>wn_Code = ''REQUIRED_PREDICATE_MISSING'', wn_Level = RiskBlocked,
          wn_Message = ''required predicate '' @ label @ '' is missing'', wn_Location = None,
          wn_Hint = ''add the required repository scope before executing this query'',
          wn_Evidence = [(''table'', EvText (rp_Table r)), (''column'', EvText (rp_Column r))],
          wn_Suppressible = False, wn_RequiresReason = False\<rparr>)"

definition checkRequiredPredicates :: "query_plan \<Rightarrow> warning list" where
  [go_eval]: "checkRequiredPredicates plan =
     map required_warning (MissingRequiredPredicates plan (requiredPredicatesFromPlan plan))"

section \<open>Finalizing a plan\<close>

definition blocked_warning :: "gostring \<Rightarrow> gostring \<Rightarrow> warning" where
  [go_eval]: "blocked_warning code message = newWarning code RiskBlocked message [] False False"

definition finalizePlanWithSettings ::
  "query_plan \<Rightarrow> approval option \<Rightarrow> suppression list \<Rightarrow> table_policy option \<Rightarrow> settings \<Rightarrow> int \<Rightarrow> query_plan" where
  [go_eval]: "finalizePlanWithSettings plan appr ss policy s now =
     (if st_strict s \<and> Operation plan = OperationRaw then
        plan\<lparr>tenantEvidence := Some \<lparr>te_view = None, te_failure = ''raw_unsupported''\<rparr>, Blocked := True,
             RiskLevel := RiskBlocked, Warnings := [blocked_warning ''TENANT_POLICY_REJECTED'' ''raw_unsupported'']\<rparr>
      else case st_err s of
        Some e \<Rightarrow> plan\<lparr>Warnings := [blocked_warning ''UNSUPPORTED_RISK_ENGINE'' e], RiskLevel := RiskBlocked, Blocked := True\<rparr>
      | None \<Rightarrow>
          (case CheckQuery (st_risk s) plan of (p, result) \<Rightarrow>
             let all = rk_Warnings result @ checkRequiredPredicates p @
                   (if st_strict s then [] else checkPolicies p policy (st_policies s))
             in case applySuppressions all ss now of (kept, gone, nts) \<Rightarrow>
                let ws = kept @ nts
                in case aggregateWarnings ws of (lv, blocked) \<Rightarrow>
                   let level = (if ws = [] \<and> gone \<noteq> [] then RiskLow else lv)
                   in p\<lparr>Warnings := ws, SuppressedWarnings := gone, RiskLevel := level,
                        Blocked := (blocked \<or> level = RiskBlocked), RequiredApproval := requiresApprovalLevel level,
                        PlanApproval := (case appr of Some a \<Rightarrow> Some a | None \<Rightarrow> PlanApproval p)\<rparr>))"

definition NewRawPlanWithSettings :: "settings \<Rightarrow> gostring \<Rightarrow> goval list option \<Rightarrow> int \<Rightarrow> query_plan" where
  [go_eval]: "NewRawPlanWithSettings s sqlStr args now =
     finalizePlanWithSettings (newQueryPlan OperationRaw sqlStr args) None [] None s now"

section \<open>The gate\<close>

datatype exec_error = BlockedOperation gostring | ApprovalRequired gostring

definition tenantError :: "gostring \<Rightarrow> exec_error" where
  [go_eval]: "tenantError why = BlockedOperation (''tenant_policy/'' @ why)"

definition checkTenantEvidence :: "query_plan \<Rightarrow> exec_error option" where
  [go_eval]: "checkTenantEvidence p =
     (case tenantEvidence p of
        None \<Rightarrow> None
      | Some e \<Rightarrow>
          if te_failure e \<noteq> [] then Some (tenantError (te_failure e))
          else if comparableWriteView (writeView p) \<noteq> [] \<or>
                  \<not> (case te_view e of Some v \<Rightarrow> view_equal (writeView p) v | None \<Rightarrow> False)
          then Some (tenantError ''sql_values_tree_or_target_changed'')
          else None)"

definition ensurePlanExecutable :: "query_plan \<Rightarrow> int \<Rightarrow> exec_error option" where
  [go_eval]: "ensurePlanExecutable plan now =
     (case checkTenantEvidence plan of
        Some e \<Rightarrow> Some e
      | None \<Rightarrow>
          if Blocked plan then Some (BlockedOperation (warningCodes (Warnings plan)))
          else if \<not> RequiredApproval plan then None
          else case PlanApproval plan of
            None \<Rightarrow> Some (ApprovalRequired (warningCodes (Warnings plan)))
          | Some a \<Rightarrow>
              if trim_space (ap_Reason a) = [] then Some (ApprovalRequired (warningCodes (Warnings plan)))
              else if expired (ap_ExpiresAt a) now then Some (ApprovalRequired ''approval expired'')
              else None)"

section \<open>Words of a statement\<close>

definition starts_outside :: "gostring \<Rightarrow> bool" where
  "starts_outside v \<longleftrightarrow> v = [] \<or> \<not> isSQLWordByte (hd v)"

definition ends_outside :: "char option \<Rightarrow> gostring \<Rightarrow> bool" where
  "ends_outside prev u \<longleftrightarrow>
     (if u = [] then prev = None \<or> \<not> isSQLWordByte (the prev) else \<not> isSQLWordByte (last u))"

lemma ex_list_cases: "(\<exists>u. P u) \<longleftrightarrow> P [] \<or> (\<exists>d us. P (d # us))"
  by (metis list.exhaust)

lemma sql_word_from_iff:
  "token \<noteq> [] \<Longrightarrow> sql_word_from prev s token \<longleftrightarrow>
     (\<exists>u v. s = u @ token @ v \<and> ends_outside prev u \<and> starts_outside v)"
proof (induction s arbitrary: prev)
  case (Cons c cs)
  have "(\<exists>u v. c # cs = u @ token @ v \<and> ends_outside prev u \<and> starts_outside v) \<longleftrightarrow>
      (\<exists>v. c # cs = token @ v \<and> ends_outside prev [] \<and> starts_outside v) \<or>
      (\<exists>u v. cs = u @ token @ v \<and> ends_outside prev (c # u) \<and> starts_outside v)"
    by (subst ex_list_cases) auto
  moreover have "ends_outside prev (c # u) = ends_outside (Some c) u" for u
    by (simp add: ends_outside_def)
  moreover have "(\<exists>v. c # cs = token @ v \<and> ends_outside prev [] \<and> starts_outside v) \<longleftrightarrow>
      has_prefix (c # cs) token \<and> (prev = None \<or> \<not> isSQLWordByte (the prev)) \<and> starts_outside (drop (length token) (c # cs))"
    by (auto simp: has_prefix_iff ends_outside_def)
  ultimately show ?case
    using Cons by (simp add: starts_outside_def Let_def)
qed simp

section \<open>From warnings to the gate\<close>

lemma scoped_plan_frame [simp]:
  "Operation (scoped_plan p) = Operation p" "SQL (scoped_plan p) = SQL p" "Tables (scoped_plan p) = Tables p"
  "inspectionPredicates (scoped_plan p) = inspectionPredicates p" "Metadata (scoped_plan p) = Metadata p"
  "tenantEvidence (scoped_plan p) = tenantEvidence p" "Columns (scoped_plan p) = Columns p"
  by (simp_all add: scoped_plan_def inspectionPredicates_def Let_def)

lemma hasNoPredicate_scoped [simp]: "hasNoPredicate (scoped_plan p) = hasNoPredicate p"
  by (simp add: hasNoPredicate_def)

text \<open>The ordinary path of finalizing: nothing unsupported in the settings.\<close>

definition ordinary :: "query_plan \<Rightarrow> settings \<Rightarrow> bool" where
  "ordinary plan s \<longleftrightarrow> \<not> (st_strict s \<and> Operation plan = OperationRaw) \<and> st_err s = None"

definition all_warnings :: "query_plan \<Rightarrow> table_policy option \<Rightarrow> settings \<Rightarrow> warning list" where
  "all_warnings plan policy s =
     (let p = scoped_plan plan in
      applyRiskConfig (rule_warnings p) (st_risk s) @ checkRequiredPredicates p @
      (if st_strict s then [] else checkPolicies p policy (st_policies s)))"

lemma finalized_eq:
  assumes "ordinary plan s" "applySuppressions (all_warnings plan policy s) ss now = (kept, gone, nts)"
    and "aggregateWarnings (kept @ nts) = (lv, blocked)"
  shows "finalizePlanWithSettings plan appr ss policy s now =
     (let level = (if kept @ nts = [] \<and> gone \<noteq> [] then RiskLow else lv) in
      (scoped_plan plan)\<lparr>Warnings := kept @ nts, SuppressedWarnings := gone, RiskLevel := level,
        Blocked := (blocked \<or> level = RiskBlocked), RequiredApproval := requiresApprovalLevel level,
        PlanApproval := (case appr of Some a \<Rightarrow> Some a | None \<Rightarrow> PlanApproval (scoped_plan plan))\<rparr>)"
proof -
  obtain r where "CheckQuery (st_risk s) plan = (scoped_plan plan, r)"
    "rk_Warnings r = applyRiskConfig (rule_warnings (scoped_plan plan)) (st_risk s)"
    by (cases "aggregateWarnings (applyRiskConfig (rule_warnings (scoped_plan plan)) (st_risk s))")
       (simp add: CheckQuery_def Let_def)
  with assms show ?thesis
    unfolding finalizePlanWithSettings_def ordinary_def all_warnings_def Let_def
    by (simp only: if_False option.case prod.case)
qed

lemma finalized_ordinary:
  assumes "ordinary plan s" "applySuppressions (all_warnings plan policy s) ss now = (kept, gone, nts)"
  shows "Warnings (finalizePlanWithSettings plan appr ss policy s now) = kept @ nts"
    "RiskLevel (finalizePlanWithSettings plan appr ss policy s now) = fst (aggregateWarnings (kept @ nts))"
    "Blocked (finalizePlanWithSettings plan appr ss policy s now) \<longleftrightarrow> (\<exists>w \<in> set (kept @ nts). wn_Level w = RiskBlocked)"
    "RequiredApproval (finalizePlanWithSettings plan appr ss policy s now) \<longleftrightarrow>
       requiresApprovalLevel (fst (aggregateWarnings (kept @ nts)))"
proof -
  obtain lv blocked where agg: "aggregateWarnings (kept @ nts) = (lv, blocked)" by fastforce
  have none: "lv = RiskLow" if "kept @ nts = []" using agg that by (simp add: aggregateWarnings_def)
  have blocked: "blocked \<longleftrightarrow> (\<exists>w \<in> set (kept @ nts). wn_Level w = RiskBlocked)"
    using aggregateWarnings_blocked [of "kept @ nts"] agg by simp
  have level: "blocked" if "lv = RiskBlocked"
  proof -
    have "top_rank (kept @ nts) = 4" using aggregateWarnings_rank [of "kept @ nts"] agg that by simp
    with top_rank_reached [of "kept @ nts"] blocked show ?thesis by auto
  qed
  have lv: "(if kept @ nts = [] \<and> gone \<noteq> [] then RiskLow else lv) = lv" using none by simp
  note q = finalized_eq [OF assms agg, of appr, unfolded lv Let_def]
  show "Warnings (finalizePlanWithSettings plan appr ss policy s now) = kept @ nts"
    "RiskLevel (finalizePlanWithSettings plan appr ss policy s now) = fst (aggregateWarnings (kept @ nts))"
    "RequiredApproval (finalizePlanWithSettings plan appr ss policy s now) \<longleftrightarrow>
       requiresApprovalLevel (fst (aggregateWarnings (kept @ nts)))"
    unfolding q agg by simp_all
  show "Blocked (finalizePlanWithSettings plan appr ss policy s now) \<longleftrightarrow> (\<exists>w \<in> set (kept @ nts). wn_Level w = RiskBlocked)"
    unfolding q using blocked level by auto
qed

lemma kept_unless_suppressible:
  assumes "applySuppressions ws ss now = (kept, gone, nts)" "w \<in> set ws" "\<not> wn_Suppressible w"
  shows "w \<in> set kept"
  using assms by (auto simp: applySuppressions_spec verdict_suppressed)

definition approved :: "query_plan \<Rightarrow> int \<Rightarrow> bool" where
  "approved plan now \<longleftrightarrow>
     (\<exists>a. PlanApproval plan = Some a \<and> trim_space (ap_Reason a) \<noteq> [] \<and> \<not> expired (ap_ExpiresAt a) now)"

lemma ensurePlanExecutable_None:
  "ensurePlanExecutable plan now = None \<longleftrightarrow>
     checkTenantEvidence plan = None \<and> \<not> Blocked plan \<and> (RequiredApproval plan \<longrightarrow> approved plan now)"
  by (auto simp: ensurePlanExecutable_def approved_def split: option.splits if_splits)

lemma top_rank_at_least: "0 < n \<Longrightarrow> (\<exists>w \<in> set ws. n \<le> riskRank (wn_Level w)) \<longleftrightarrow> n \<le> top_rank ws"
  by (induction ws) (auto simp: le_max_iff_disj)

lemma top_rank_le: "top_rank ws \<le> 4"
  by (induction ws) (auto simp: riskRank_le)

lemma gate_on_warnings:
  assumes "ordinary plan s" "q = finalizePlanWithSettings plan appr ss policy s now"
  shows "ensurePlanExecutable q t = None \<longleftrightarrow>
     checkTenantEvidence q = None \<and> (\<forall>w \<in> set (Warnings q). wn_Level w \<noteq> RiskBlocked) \<and>
     ((\<exists>w \<in> set (Warnings q). 2 \<le> riskRank (wn_Level w)) \<longrightarrow> approved q t)"
proof -
  obtain kept gone nts where a: "applySuppressions (all_warnings plan policy s) ss now = (kept, gone, nts)"
    by (metis surj_pair)
  note f = finalized_ordinary [OF assms(1) a, of appr, folded assms(2)]
  have blocked: "Blocked q \<longleftrightarrow> 4 \<le> top_rank (Warnings q)"
  proof -
    have "Blocked q \<longleftrightarrow> (\<exists>w \<in> set (Warnings q). 4 \<le> riskRank (wn_Level w))"
      unfolding f(1,3) by (metis le_antisym order_refl riskRank_4 riskRank_le)
    then show ?thesis by (simp add: top_rank_at_least)
  qed
  have required: "RequiredApproval q \<longleftrightarrow> 2 \<le> top_rank (Warnings q) \<and> \<not> 4 \<le> top_rank (Warnings q)"
    unfolding f(1,4) requiresApprovalLevel_rank aggregateWarnings_rank by arith
  have "(\<forall>w \<in> set (Warnings q). wn_Level w \<noteq> RiskBlocked) \<longleftrightarrow> \<not> Blocked q"
    using f(1,3) by simp
  with blocked required show ?thesis
    unfolding ensurePlanExecutable_None top_rank_at_least [OF zero_less_numeral] by blast
qed

lemma unruled_warning_stays:
  "w \<in> set ws \<Longrightarrow> map_of (rc_Rules config) (wn_Code w) = None \<Longrightarrow> w \<in> set (applyRiskConfig ws config)"
  by (force simp: applyRiskConfig_def applyRiskRule_def)

lemma warning_reaches_gate:
  assumes "ordinary plan s" "w \<in> set (all_warnings plan policy s)" "\<not> wn_Suppressible w"
  shows "w \<in> set (Warnings (finalizePlanWithSettings plan appr ss policy s now))"
proof -
  obtain kept gone nts where a: "applySuppressions (all_warnings plan policy s) ss now = (kept, gone, nts)"
    by (metis surj_pair)
  with kept_unless_suppressible [OF a assms(2,3)] finalized_ordinary(1) [OF assms(1) a] show ?thesis by simp
qed

lemma unordinary_blocked:
  "\<not> ordinary plan s \<Longrightarrow> Blocked (finalizePlanWithSettings plan appr ss policy s now)"
  by (auto simp: ordinary_def finalizePlanWithSettings_def)

lemma blocked_not_executable: "Blocked q \<Longrightarrow> ensurePlanExecutable q t \<noteq> None"
  by (simp add: ensurePlanExecutable_None)

section \<open>Properties\<close>




text \<open>
  The scan for destructive tokens finds a token exactly where it occurs as a whole word, with no letter, digit or
  underscore on either side.
\<close>

theorem contains_word_iff:
  assumes "token \<noteq> []"
  shows "containsSQLWord s token \<longleftrightarrow>
     (\<exists>u v. s = u @ token @ v \<and> (u = [] \<or> \<not> isSQLWordByte (last u)) \<and> (v = [] \<or> \<not> isSQLWordByte (hd v)))"
proof -
  have "ends_outside None u \<longleftrightarrow> u = [] \<or> \<not> isSQLWordByte (last u)" for u
    by (simp add: ends_outside_def)
  with sql_word_from_iff [OF assms, of None s] show ?thesis
    by (simp add: containsSQLWord_def starts_outside_def)
qed

theorem contains_word_iff_witness:
  "containsSQLWord ''DROP TABLE T'' ''DROP'' \<and> \<not> containsSQLWord ''X_DROP'' ''DROP''"
proof -
  have "containsSQLWord ''DROP TABLE T'' ''DROP''"
    by (rule contains_word_iff [THEN iffD2], simp, rule exI [of _ "[]"], rule exI [of _ "'' TABLE T''"])
       (simp add: isSQLWordByte_def is_upper_def is_digit_def byte_def)
  moreover have "\<not> containsSQLWord ''X_DROP'' ''DROP''"
    by code_simp
  ultimately show ?thesis by simp
qed

definition plain_settings :: settings where
  "plain_settings = NewSettings [] no_risk_config blank_context"

definition bare_update :: query_plan where
  "bare_update = newQueryPlan OperationUpdate ''UPDATE users SET a = 1'' None"

lemma bare_update_unconditional: "hasNoPredicate bare_update"
proof -
  have "\<not> str_contains (to_upper ''UPDATE users SET a = 1'') '' WHERE ''" by code_simp
  then show ?thesis by (simp add: hasNoPredicate_def bare_update_def newQueryPlan_def inspectionPredicates_def)
qed


definition raw_plan :: query_plan where
  "raw_plan = newQueryPlan OperationRaw ''SELECT 1'' None"

definition sample_approval :: approval where
  "sample_approval = \<lparr>ap_Reason = ''ticket 42'', ap_Scope = [], ap_CreatedBy = [], ap_CreatedAt = 0, ap_ExpiresAt = Some 10\<rparr>"

lemma raw_warnings:
  "Warnings (finalizePlanWithSettings raw_plan a [] None plain_settings 0) =
     [newWarning ''RAW_SQL_USED'' RiskHigh ''raw SQL was used; Goquent cannot fully inspect this query''
       ''prefer Goquent query builders when possible, or review the raw SQL explicitly'' True True]"
proof -
  have "\<not> containsDangerousSQLToken ''SELECT 1''" "\<not> normalizedContainsWeakPredicate ''SELECT 1''"
    by code_simp+
  then have "all_warnings raw_plan None plain_settings =
      [newWarning ''RAW_SQL_USED'' RiskHigh ''raw SQL was used; Goquent cannot fully inspect this query''
       ''prefer Goquent query builders when possible, or review the raw SQL explicitly'' True True]"
    by (simp add: all_warnings_def raw_plan_def scoped_plan_def newQueryPlan_def plain_settings_def NewSettings_def
        no_risk_config_def applyRiskConfig_def applyRiskRule_def rule_warnings_def operation_warnings_def
        hasWeakPredicate_def inspectionPredicates_def checkRequiredPredicates_def requiredPredicatesFromPlan_def meta_at_def
        MissingRequiredPredicates_def checkPolicies_def RegisteredTablePolicies_def)
  moreover have "ordinary raw_plan plain_settings"
    by (simp add: ordinary_def plain_settings_def NewSettings_def)
  ultimately show ?thesis
    using finalized_ordinary(1) [of raw_plan plain_settings None "[]" 0] by (simp add: applySuppressions_def)
qed


definition sample_select :: query_plan where
  "sample_select = (newQueryPlan OperationSelect ''SELECT id FROM users LIMIT 1'' None)
     \<lparr>Tables := Some [\<lparr>tr_Name = ''users'', tr_Alias = []\<rparr>], Columns := Some (columnRefsFromNames [''id'']), PlanLimit := Some 1\<rparr>"

definition tenant_missing :: warning where
  "tenant_missing = newWarning ''TENANT_FILTER_MISSING'' RiskHigh ''users is tenant-scoped but tenant_id filter is missing''
     ''add a tenant filter before executing this query'' False False"

lemma sample_select_warnings: "all_warnings sample_select (Some sample_policy) plain_settings = [tenant_missing]"
proof -
  have "\<not> containsDangerousSQLToken ''SELECT id FROM users LIMIT 1''" "\<not> normalizedContainsWeakPredicate ''SELECT id FROM users LIMIT 1''"
    "normalizeTableName ''users'' = ''users''" "trim_space ''users'' \<noteq> []" "trim_space ''id'' = ''id''" "trim_space [] = []"
    by code_simp+
  then show ?thesis
    by (simp add: all_warnings_def sample_select_def scoped_plan_def newQueryPlan_def plain_settings_def NewSettings_def
        no_risk_config_def applyRiskConfig_def applyRiskRule_def rule_warnings_def operation_warnings_def select_warnings_def
        selectStarUsed_def star_column_def columnRefsFromNames_def
        hasWeakPredicate_def inspectionPredicates_def checkRequiredPredicates_def requiredPredicatesFromPlan_def meta_at_def
        MissingRequiredPredicates_def checkPolicies_def RegisteredTablePolicies_def sample_policy_def planTouchesTable_def
        checkPolicyWithContext_def lacks_filter_def policyAppliesToOperation_def hasPolicyPredicateColumn_def
        returning_columns_def selectedPIIColumnsForPolicy_def policyWarning_def policyModeLevel_def compareRisk_def
        tenant_missing_def newWarning_def)
qed


end
