(* ===== verification/TenantPolicy.thy ===== *)
theory TenantPolicy
  imports RiskEngine
begin

text \<open>
  The strict tenant policy (\<^verbatim>\<open>orm/query/tenant_policy.go\<close>): which tables a statement reads, whether its conditions bind
  every tenant-scoped one of them to the current tenant on all branches, and the evidence a plan keeps of the statement
  that was checked.
\<close>

section \<open>Targets\<close>

record tenant_target =
  tt_table :: gostring
  tt_alias :: gostring
  tt_schema :: application_table
  tt_policy :: table_policy

definition blank_policy :: table_policy where
  [go_eval]: "blank_policy =
     \<lparr>pol_Version = 0, pol_ImmutableColumns = [], pol_ForbiddenColumns = [], pol_Table = [], pol_TenantColumn = [],
      pol_TenantMode = [], pol_SoftDeleteColumn = [], pol_SoftDeleteMode = [], pol_PIIColumns = [], pol_PIIMode = [],
      pol_RequiredFilterColumns = [], pol_RequiredFilterMode = []\<rparr>"

definition tenantColumn :: "tenant_target \<Rightarrow> gostring \<Rightarrow> write_key_column option" where
  [go_eval]: "tenantColumn t name = find_first (\<lambda>c. kc_Name c = name) (at_Columns (tt_schema t))"

definition tenant_key :: "write_key_column \<Rightarrow> write_key" where
  [go_eval]: "tenant_key c =
     \<lparr>wk_Name = [], wk_Kind = ''unique'', wk_Columns = [c], wk_AllRows = True, wk_Valid = True, wk_NotDeferrable = True,
      wk_Partial = False, wk_Expression = False\<rparr>"

text \<open>The tenant column must be an integer column that is never NULL, and the context must give the tenant's value.\<close>

definition tenant_context_error :: "settings \<Rightarrow> gostring \<Rightarrow> tenant_target \<Rightarrow> exec_error option" where
  [go_eval]: "tenant_context_error s dialect t =
     (if pol_TenantColumn (tt_policy t) = [] then None
      else case tenantColumn t (pol_TenantColumn (tt_policy t)) of
        None \<Rightarrow> Some (tenantError ''tenant_schema_unsupported'')
      | Some c \<Rightarrow>
          if kc_Nullable c \<or> \<not> validWriteKey (tenant_key c) dialect then Some (tenantError ''tenant_schema_unsupported'')
          else let e = st_execution s in
            if \<not> ec_application e \<or> \<not> ci_TenantPresent (ec_input e) \<or> ci_CurrentTenant (ec_input e) = VNil
            then Some (tenantError ''application_tenant_missing'')
            else if scopeInteger (ci_CurrentTenant (ec_input e)) (kc_Bits c) = None
            then Some (tenantError ''tenant_value_unsupported'')
            else None)"

definition reference_names :: "table_ref \<Rightarrow> gostring \<times> gostring" where
  [go_eval]: "reference_names r =
     (case splitTableAlias (tr_Name r) of (table, al) \<Rightarrow> (table, if tr_Alias r \<noteq> [] then tr_Alias r else al))"

definition resolve_target :: "settings \<Rightarrow> schema_input \<Rightarrow> gostring \<Rightarrow> gostring \<Rightarrow> gostring \<Rightarrow> exec_error + tenant_target" where
  [go_eval]: "resolve_target s si dialect table al =
     (case find_first (\<lambda>a. at_Table a = table) (si_Tables si) of
        None \<Rightarrow> Inl (tenantError ''table_schema_missing'')
      | Some schema \<Rightarrow>
          if \<not> at_PlainTable schema then Inl (tenantError ''table_rewrite_semantics_unconfirmed'')
          else
            let p = (case PolicyForTable table (st_policies s) of Some p \<Rightarrow> p | None \<Rightarrow> blank_policy);
                t = \<lparr>tt_table = table, tt_alias = al, tt_schema = schema, tt_policy = p\<rparr>
            in if pol_Table p \<noteq> [] \<and> pol_Table p \<noteq> table then Inl (tenantError ''policy_identifier_normalization_unsupported'')
               else if \<exists>col \<in> set (pol_PIIColumns p @ pol_ForbiddenColumns p @ pol_ImmutableColumns p). tenantColumn t col = None
               then Inl (tenantError ''policy_column_unresolved'')
               else case tenant_context_error s dialect t of Some e \<Rightarrow> Inl e | None \<Rightarrow> Inr t)"

fun targets_from :: "settings \<Rightarrow> schema_input \<Rightarrow> gostring \<Rightarrow> gostring list \<Rightarrow> table_ref list \<Rightarrow> exec_error + tenant_target list" where
  "targets_from s si dialect seen [] = Inr []"
| "targets_from s si dialect seen (r # rs) =
     (case reference_names r of (table, al) \<Rightarrow>
        if \<not> scopePath table \<or> al \<noteq> [] \<and> \<not> scopeIdent al then Inl (tenantError ''table_or_alias_unsupported'')
        else let qualifier = target_name table al in
          if qualifier \<in> set seen then Inl (tenantError ''ambiguous_alias'')
          else case resolve_target s si dialect table al of
            Inl e \<Rightarrow> Inl e
          | Inr t \<Rightarrow> (case targets_from s si dialect (qualifier # seen) rs of Inl e \<Rightarrow> Inl e | Inr ts \<Rightarrow> Inr (t # ts)))"

definition tenantTargets :: "settings \<Rightarrow> driver_dialect \<Rightarrow> table_ref list \<Rightarrow> join_ref list \<Rightarrow> exec_error + tenant_target list" where
  [go_eval]: "tenantTargets s d tables js =
     (case st_schema s of
        None \<Rightarrow> Inl (tenantError ''application_schema_missing_or_database_mismatch'')
      | Some si \<Rightarrow>
          if st_database s = [] \<or> st_database s \<noteq> si_Database si
          then Inl (tenantError ''application_schema_missing_or_database_mismatch'')
          else if dialect_name d = [] \<or> dialect_name d \<noteq> si_Dialect si then Inl (tenantError ''dialect_mismatch'')
          else if tables = [] then Inl (tenantError ''target_missing'')
          else if js \<noteq> [] \<and> length tables \<noteq> length js + 1 then Inl (tenantError ''duplicate_join_target'')
          else targets_from s si (dialect_name d) [] tables)"

text \<open>A reference resolves when exactly one target, of its qualifier if it has one, has the column.\<close>

definition target_qualifier :: "tenant_target \<Rightarrow> gostring" where
  [go_eval]: "target_qualifier t = target_name (tt_table t) (tt_alias t)"

definition tenantResolve :: "gostring \<Rightarrow> tenant_target list \<Rightarrow> (nat \<times> gostring) option" where
  [go_eval]: "tenantResolve reference ts =
     (if \<not> scopeColumn reference then None
      else case split_qualifier reference of (qualifier, col) \<Rightarrow>
        (case filter (\<lambda>i. (qualifier = [] \<or> target_qualifier (ts ! i) = qualifier) \<and> tenantColumn (ts ! i) col \<noteq> None)
               [0..<length ts] of
           [i] \<Rightarrow> Some (i, col)
         | _ \<Rightarrow> None))"

section \<open>Conditions\<close>

definition known_operators :: "gostring list" where
  [go_eval]: "known_operators =
     [''='', ''!='', ''<>'', ''>'', ''>='', ''<'', ''<='', ''LIKE'', ''NOT LIKE'', ''IN'', ''NOT IN'', ''BETWEEN'', ''NOT BETWEEN'',
      ''IS NULL'', ''IS NOT NULL'']"

definition leaf_known :: "tenant_target list \<Rightarrow> node_info \<Rightarrow> bool" where
  [go_eval]: "leaf_known ts i \<longleftrightarrow>
     tenantResolve (column i) ts \<noteq> None \<and> (kind i = ''column'' \<longrightarrow> tenantResolve (value_column i) ts \<noteq> None) \<and>
     (\<forall>c \<in> set (bound_columns i). tenantResolve c ts \<noteq> None) \<and> (\<forall>v \<in> set (node_values i). detached_scalar v) \<and>
     to_upper (operator i) \<in> set known_operators"

fun tenantTreeKnown :: "tenant_target list \<Rightarrow> pnode option \<Rightarrow> bool"
and trees_known :: "tenant_target list \<Rightarrow> pnode option list \<Rightarrow> bool" where
  "tenantTreeKnown ts None = True"
| "tenantTreeKnown ts (Some (Node i cs)) =
     (if correspondence i \<noteq> generated \<or> opaque_reason i \<noteq> [] then False
      else if kind_in [''and'', ''or'', ''group'', ''not''] i then cs \<noteq> [] \<and> trees_known ts cs
      else kind_in [''comparison'', ''in'', ''between'', ''null'', ''column''] i \<and> leaf_known ts i)"
| "trees_known ts [] = True"
| "trees_known ts (c # cs) = (tenantTreeKnown ts c \<and> trees_known ts cs)"

text \<open>A tree that binds a column: one conjunct, every disjunct, a group of one; the leaf is tested by the caller.\<close>

definition bound_leaf :: "tenant_target list \<Rightarrow> nat \<Rightarrow> int \<Rightarrow> node_info \<Rightarrow> bool" where
  [go_eval]: "bound_leaf ts target want i \<longleftrightarrow>
     (case tenantResolve (column i) ts of
        None \<Rightarrow> False
      | Some (j, col) \<Rightarrow>
          if j \<noteq> target \<or> col \<noteq> pol_TenantColumn (tt_policy (ts ! target)) \<or> operator i \<noteq> ''='' then False
          else case node_values i of
            [v] \<Rightarrow> (case tenantColumn (ts ! target) col of
                Some c \<Rightarrow> scopeInteger (pdata v) (kc_Bits c) = Some want
              | None \<Rightarrow> False)
          | _ \<Rightarrow> False)"

fun tenantBound :: "tenant_target list \<Rightarrow> nat \<Rightarrow> int \<Rightarrow> pnode option \<Rightarrow> bool"
and some_bound :: "tenant_target list \<Rightarrow> nat \<Rightarrow> int \<Rightarrow> pnode option list \<Rightarrow> bool"
and all_bound :: "tenant_target list \<Rightarrow> nat \<Rightarrow> int \<Rightarrow> pnode option list \<Rightarrow> bool" where
  "tenantBound ts target want None = False"
| "tenantBound ts target want (Some (Node i cs)) =
     (if kind i = ''group'' then length cs = 1 \<and> all_bound ts target want cs
      else if kind i = ''and'' then some_bound ts target want cs
      else if kind i = ''or'' then cs \<noteq> [] \<and> all_bound ts target want cs
      else kind i = ''comparison'' \<and> bound_leaf ts target want i)"
| "some_bound ts target want [] = False"
| "some_bound ts target want (c # cs) = (tenantBound ts target want c \<or> some_bound ts target want cs)"
| "all_bound ts target want [] = True"
| "all_bound ts target want (c # cs) = (tenantBound ts target want c \<and> all_bound ts target want cs)"

definition filter_leaf :: "tenant_target list \<Rightarrow> nat \<Rightarrow> gostring \<Rightarrow> node_info \<Rightarrow> bool" where
  [go_eval]: "filter_leaf ts target col i \<longleftrightarrow>
     tenantResolve (column i) ts = Some (target, col) \<and> operator i = ''='' \<and>
     (case node_values i of [v] \<Rightarrow> pdata v \<noteq> VNil | _ \<Rightarrow> False)"

fun requiredTenantFilter :: "tenant_target list \<Rightarrow> nat \<Rightarrow> gostring \<Rightarrow> pnode option \<Rightarrow> bool"
and some_filter :: "tenant_target list \<Rightarrow> nat \<Rightarrow> gostring \<Rightarrow> pnode option list \<Rightarrow> bool"
and all_filter :: "tenant_target list \<Rightarrow> nat \<Rightarrow> gostring \<Rightarrow> pnode option list \<Rightarrow> bool" where
  "requiredTenantFilter ts target col None = False"
| "requiredTenantFilter ts target col (Some (Node i cs)) =
     (if kind i = ''group'' then length cs = 1 \<and> all_filter ts target col cs
      else if kind i = ''and'' then some_filter ts target col cs
      else if kind i = ''or'' then cs \<noteq> [] \<and> all_filter ts target col cs
      else kind i = ''comparison'' \<and> filter_leaf ts target col i)"
| "some_filter ts target col [] = False"
| "some_filter ts target col (c # cs) = (requiredTenantFilter ts target col c \<or> some_filter ts target col cs)"
| "all_filter ts target col [] = True"
| "all_filter ts target col (c # cs) = (requiredTenantFilter ts target col c \<and> all_filter ts target col cs)"

section \<open>The strict check\<close>

text \<open>The first error of a range loop, and of checks made in order.\<close>

fun first_error :: "('a \<Rightarrow> 'e option) \<Rightarrow> 'a list \<Rightarrow> 'e option" where
  "first_error f [] = None"
| "first_error f (x # xs) = (case f x of Some e \<Rightarrow> Some e | None \<Rightarrow> first_error f xs)"

definition and_then :: "'e option \<Rightarrow> 'e option \<Rightarrow> 'e option" where
  [go_eval]: "and_then a b = (case a of Some e \<Rightarrow> Some e | None \<Rightarrow> b)"

definition refuse_if :: "bool \<Rightarrow> gostring \<Rightarrow> exec_error option" where
  [go_eval]: "refuse_if b why = (if b then Some (tenantError why) else None)"

definition tenantProjection :: "column_ref list \<Rightarrow> tenant_target list \<Rightarrow> exec_error option" where
  [go_eval]: "tenantProjection cols ts = first_error (\<lambda>c.
     if cr_Raw c \<or> cr_Expression c \<noteq> [] \<or> cr_Function c \<noteq> [] then Some (tenantError ''projection_unknown'')
     else if cr_Count c \<and> cr_Name c = ''*'' then None
     else case tenantResolve (cr_Name c) ts of
       None \<Rightarrow> Some (tenantError ''projection_unknown'')
     | Some (i, col) \<Rightarrow>
         refuse_if (col \<in> set (pol_PIIColumns (tt_policy (ts ! i)) @ pol_ForbiddenColumns (tt_policy (ts ! i)))) ''protected_projection'')
     cols"

definition join_refused :: "tenant_target list \<Rightarrow> join_ref \<Rightarrow> exec_error option" where
  [go_eval]: "join_refused ts j =
     (if jr_Subquery j \<or> jr_Type j \<noteq> ''INNER'' \<and> jr_Type j \<noteq> ''LEFT'' then Some (tenantError ''join_type_or_subquery_unsupported'')
      else if jr_OnTree j \<noteq> None then refuse_if (\<not> tenantTreeKnown ts (jr_OnTree j)) ''join_condition_unknown''
      else if tenantResolve (jr_LeftColumn j) ts = None \<or> tenantResolve (jr_RightColumn j) ts = None
      then Some (tenantError ''join_column_unknown'')
      else refuse_if (jr_Operator j \<noteq> ''='') ''join_operator_unsupported'')"

definition structure_refused :: "query_plan \<Rightarrow> tenant_target list \<Rightarrow> exec_error option" where
  [go_eval]: "structure_refused p ts =
     and_then (refuse_if (Operation p = OperationRaw) ''raw_unsupported'')
     (and_then (refuse_if (\<exists>u \<in> set (items (Unverified p)). u \<noteq> ''join_conditions_not_inspected'') ''statement_unsupported'')
     (and_then (refuse_if (HavingTree p \<noteq> None \<or> \<not> tenantTreeKnown ts (WhereTree p)) ''condition_unknown'')
     (and_then (refuse_if (Operation p \<noteq> OperationSelect \<and> items (PlanJoins p) \<noteq> []) ''write_join_unsupported'')
     (and_then (first_error (join_refused ts) (items (PlanJoins p)))
     (refuse_if (\<exists>t \<in> set (drop 1 ts). pol_SoftDeleteColumn (tt_policy t) \<noteq> []) ''joined_soft_delete_unsupported'')))))"

definition join_names :: "join_ref \<Rightarrow> gostring \<times> gostring" where
  [go_eval]: "join_names j =
     (case splitTableAlias (jr_Table j) of (table, al) \<Rightarrow> (table, if jr_Alias j \<noteq> [] then jr_Alias j else al))"

definition current_tenant :: "settings \<Rightarrow> tenant_target \<Rightarrow> int option" where
  [go_eval]: "current_tenant s t =
     (case tenantColumn t (pol_TenantColumn (tt_policy t)) of
        None \<Rightarrow> None
      | Some c \<Rightarrow> scopeInteger (ci_CurrentTenant (ec_input (st_execution s))) (kc_Bits c))"

definition target_bound :: "settings \<Rightarrow> query_plan \<Rightarrow> tenant_target list \<Rightarrow> nat \<Rightarrow> bool" where
  [go_eval]: "target_bound s p ts i =
     (let want = (case current_tenant s (ts ! i) of Some w \<Rightarrow> w | None \<Rightarrow> 0)
      in tenantBound ts i want (WhereTree p) \<or>
         0 < i \<and> (\<exists>j \<in> set (items (PlanJoins p)).
           join_names j = (tt_table (ts ! i), tt_alias (ts ! i)) \<and> tenantBound ts i want (jr_OnTree j)))"

definition target_refused :: "settings \<Rightarrow> query_plan \<Rightarrow> tenant_target list \<Rightarrow> nat \<Rightarrow> exec_error option" where
  [go_eval]: "target_refused s p ts i =
     (if \<exists>col \<in> set (pol_RequiredFilterColumns (tt_policy (ts ! i))). \<not> requiredTenantFilter ts i col (WhereTree p)
      then Some (tenantError ''required_filter_unproven'')
      else if pol_TenantColumn (tt_policy (ts ! i)) = [] then None
      else refuse_if (\<not> target_bound s p ts i)
        (''all_branch_binding_missing:'' @ tt_table (ts ! i) @ '':'' @ tt_alias (ts ! i)))"

text \<open>The risk checks store the write scope in the plan, so the plan is returned when they are reached.\<close>

definition strictPolicyCheck :: "settings \<Rightarrow> driver_dialect \<Rightarrow> bool \<Rightarrow> query_plan \<Rightarrow> exec_error option \<times> query_plan" where
  [go_eval]: "strictPolicyCheck s d bindingPlanning p =
     (case tenantTargets s d (items (Tables p)) (items (PlanJoins p)) of
        Inl e \<Rightarrow> (Some e, p)
      | Inr ts \<Rightarrow>
          (case and_then (structure_refused p ts)
              (and_then (if Operation p = OperationInsert then None else first_error (target_refused s p ts) [0..<length ts])
              (if Operation p = OperationSelect then tenantProjection (items (Columns p)) ts else None)) of
             Some e \<Rightarrow> (Some e, p)
           | None \<Rightarrow>
               (case CheckQuery no_risk_config p of (p1, risk) \<Rightarrow>
                case CheckQuery (st_risk s) p1 of (p2, configured) \<Rightarrow>
                  (if rk_Blocked risk \<or> rk_Blocked configured then Some (tenantError ''structural_risk_blocked'')
                   else refuse_if (\<not> bindingPlanning \<and>
                     (requiresApprovalLevel (rk_Level risk) \<or> requiresApprovalLevel (rk_Level configured)))
                     ''external_high_risk_permit_missing'', p2))))"

section \<open>Evidence\<close>

definition error_text :: "exec_error \<Rightarrow> gostring" where
  [go_eval]: "error_text e =
     (case e of BlockedOperation m \<Rightarrow> ''goquent: blocked operation: '' @ m | ApprovalRequired m \<Rightarrow> ''goquent: approval required: '' @ m)"

definition conditional_pass :: tenant_policy_result where
  [go_eval]: "conditional_pass =
     \<lparr>tp_Status = ''conditional_pass'', tp_Reason = [], tp_Precision = AnalysisPrecise,
      tp_Provenance = ''builder_application_tenant_and_application_asserted_schema'', tp_SchemaFreshness = ''unknown'',
      tp_PolicyFreshness = ''unknown'', tp_ExecutorIdentity = ''unverified''\<rparr>"

definition policy_rejected :: "gostring \<Rightarrow> tenant_policy_result" where
  [go_eval]: "policy_rejected why =
     conditional_pass\<lparr>tp_Status := ''unknown_or_rejected'', tp_Reason := why, tp_Precision := AnalysisPartial\<rparr>"

definition rejection_warning :: "gostring \<Rightarrow> warning" where
  [go_eval]: "rejection_warning why = newWarning ''TENANT_POLICY_REJECTED'' RiskBlocked why [] False False"

definition finalizeTenantPolicy :: "settings \<Rightarrow> driver_dialect \<Rightarrow> bool \<Rightarrow> query_plan \<Rightarrow> query_plan" where
  [go_eval]: "finalizeTenantPolicy s d bindingPlanning plan =
     (if \<not> st_strict s \<and> \<not> bindingPlanning then plan
      else case strictPolicyCheck s d bindingPlanning plan of
        (Some e, p) \<Rightarrow>
          p\<lparr>tenantEvidence := Some \<lparr>te_view = None, te_failure = error_text e\<rparr>, TenantPolicy := Some (policy_rejected (error_text e)),
            RiskLevel := RiskBlocked, Warnings := Warnings p @ [rejection_warning (error_text e)], Blocked := True\<rparr>
      | (None, p) \<Rightarrow>
          let failure = comparableWriteView (writeView p)
          in if failure \<noteq> []
             then p\<lparr>tenantEvidence := Some \<lparr>te_view = None, te_failure = failure\<rparr>,
                    TenantPolicy := Some (policy_rejected failure), Blocked := True\<rparr>
             else p\<lparr>tenantEvidence := Some \<lparr>te_view = Some (detach_view (writeView p)), te_failure = []\<rparr>,
                    TenantPolicy := Some conditional_pass\<rparr>)"

section \<open>What a bound tree says of the rows it keeps\<close>

text \<open>
  A row of a statement gives each target a row of its table, or none where an outer join found no match.  A reading of the
  leaves on it evaluates an equality with an integer like SQL: it is true only when the column it resolves to holds that
  integer.  The row is kept when WHERE is true of it, and each matched target satisfies the ON conditions of its join.
\<close>

type_synonym joined_row = "nat \<Rightarrow> (gostring \<Rightarrow> int option) option"

definition reads_targets :: "tenant_target list \<Rightarrow> (node_info \<Rightarrow> tv) \<Rightarrow> joined_row \<Rightarrow> bool" where
  "reads_targets ts L row \<longleftrightarrow>
     (\<forall>i v x t col. kind i = ''comparison'' \<and> operator i = ''='' \<and> node_values i = [v] \<and> int_of_goval (pdata v) = Some x \<and>
        tenantResolve (column i) ts = Some (t, col) \<and> L i = TT \<longrightarrow> (\<exists>r. row t = Some r \<and> r col = Some x))"

definition keeps_row :: "query_plan \<Rightarrow> tenant_target list \<Rightarrow> (node_info \<Rightarrow> tv) \<Rightarrow> joined_row \<Rightarrow> bool" where
  "keeps_row p ts L row \<longleftrightarrow>
     (WhereTree p \<noteq> None \<longrightarrow> tree_value L (WhereTree p) = TT) \<and>
     (\<forall>j \<in> set (items (PlanJoins p)). \<forall>i < length ts.
        0 < i \<and> join_names j = (tt_table (ts ! i), tt_alias (ts ! i)) \<and> row i \<noteq> None \<and> jr_OnTree j \<noteq> None \<longrightarrow>
        tree_value L (jr_OnTree j) = TT)"

lemma bound_lists:
  "some_bound ts k w cs \<longleftrightarrow> (\<exists>c \<in> set cs. tenantBound ts k w c)" "all_bound ts k w cs \<longleftrightarrow> (\<forall>c \<in> set cs. tenantBound ts k w c)"
  by (induction cs) simp_all

lemma filter_lists:
  "some_filter ts k w cs \<longleftrightarrow> (\<exists>c \<in> set cs. requiredTenantFilter ts k w c)"
  "all_filter ts k w cs \<longleftrightarrow> (\<forall>c \<in> set cs. requiredTenantFilter ts k w c)"
  by (induction cs) simp_all

interpretation tenant_check: branch_check "tenantBound ts k w" "\<lambda>i. kind i = ''comparison'' \<and> bound_leaf ts k w i" for ts k w
  by unfold_locales (auto simp: bound_lists length_Suc_conv)

interpretation filter_check: branch_check "requiredTenantFilter ts k col" "\<lambda>i. kind i = ''comparison'' \<and> filter_leaf ts k col i" for ts k col
  by unfold_locales (auto simp: filter_lists length_Suc_conv)

lemma bound_leafE:
  assumes "bound_leaf ts k w i"
  obtains v where "tenantResolve (column i) ts = Some (k, pol_TenantColumn (tt_policy (ts ! k)))" "operator i = ''=''"
    "node_values i = [v]" "int_of_goval (pdata v) = Some w"
proof -
  from assms obtain v vs where v: "node_values i = v # vs"
    by (cases "node_values i") (auto simp: bound_leaf_def split: option.splits if_splits)
  with assms that [of v] show thesis
    by (cases vs) (auto simp: bound_leaf_def dest!: scopeInteger_int split: option.splits if_splits)
qed

lemma tenantBound_row:
  assumes "reads_targets ts L row" "tenantBound ts k w t" "tree_value L t = TT"
  shows "\<exists>r. row k = Some r \<and> r (pol_TenantColumn (tt_policy (ts ! k))) = Some w"
proof (rule tenant_check.claim_holds [OF _ assms(2,3)])
  fix i assume "kind i = ''comparison'' \<and> bound_leaf ts k w i" "L i = TT"
  with assms(1) show "\<exists>r. row k = Some r \<and> r (pol_TenantColumn (tt_policy (ts ! k))) = Some w"
    unfolding reads_targets_def by (elim conjE bound_leafE) blast
qed

lemma tenantBound_nonempty: "tenantBound ts k w t \<Longrightarrow> t \<noteq> None"
  by (cases t) simp_all

lemma target_bound_row:
  assumes "reads_targets ts L row" "keeps_row p ts L row" "i < length ts" "target_bound s p ts i" "row i = Some r"
    and "current_tenant s (ts ! i) = Some w"
  shows "r (pol_TenantColumn (tt_policy (ts ! i))) = Some w"
proof -
  from assms(4) consider "tenantBound ts i w (WhereTree p)"
    | j where "0 < i" "j \<in> set (items (PlanJoins p))" "join_names j = (tt_table (ts ! i), tt_alias (ts ! i))" "tenantBound ts i w (jr_OnTree j)"
    unfolding target_bound_def assms(6) by (auto simp: Let_def)
  then obtain t where "tenantBound ts i w t" "tree_value L t = TT"
  proof cases
    case 1
    with assms(2) that show thesis unfolding keeps_row_def using tenantBound_nonempty by blast
  next
    case 2
    with assms(2,3,5) that show thesis unfolding keeps_row_def using tenantBound_nonempty by blast
  qed
  from tenantBound_row [OF assms(1) this] assms(5) show ?thesis by auto
qed

section \<open>What passing the check gives\<close>

lemma first_error_None: "first_error f xs = None \<longleftrightarrow> (\<forall>x \<in> set xs. f x = None)"
  by (induction xs) (auto split: option.splits)

lemma and_then_None [simp]: "and_then a b = None \<longleftrightarrow> a = None \<and> b = None"
  by (auto simp: and_then_def split: option.splits)

lemma refuse_if_None [simp]: "refuse_if b why = None \<longleftrightarrow> \<not> b"
  by (simp add: refuse_if_def)

lemma find_first_named: "find_first (\<lambda>a. f a = x) as = Some y \<Longrightarrow> f y = x"
  using find_first_Some by fastforce

lemma resolve_target_ok:
  assumes "resolve_target s si dialect table al = Inr t"
  shows "tt_table t = table" "tt_alias t = al" "tenant_context_error s dialect t = None"
  using assms by (auto simp: resolve_target_def Let_def split: option.splits if_splits)

lemma tenant_context_current:
  "tenant_context_error s dialect t = None \<Longrightarrow> pol_TenantColumn (tt_policy t) \<noteq> [] \<Longrightarrow>
   ec_application (st_execution s) \<and> (\<exists>w. current_tenant s t = Some w)"
  by (auto simp: tenant_context_error_def current_tenant_def Let_def split: option.splits if_splits)

lemma targets_from_ok:
  "targets_from s si dialect seen rs = Inr ts \<Longrightarrow>
   (\<forall>t \<in> set ts. tenant_context_error s dialect t = None) \<and> map (\<lambda>t. (tt_table t, tt_alias t)) ts = map reference_names rs \<and>
   distinct (map target_qualifier ts) \<and> set (map target_qualifier ts) \<inter> set seen = {}"
proof (induction rs arbitrary: seen ts)
  case (Cons r rs)
  obtain table al where r: "reference_names r = (table, al)" by fastforce
  from Cons.prems r obtain t us where t: "resolve_target s si dialect table al = Inr t"
    "targets_from s si dialect (target_name table al # seen) rs = Inr us" "ts = t # us" "target_name table al \<notin> set seen"
    by (auto simp: Let_def split: if_splits sum.splits)
  with Cons.IH [OF t(2)] resolve_target_ok [OF t(1)] r show ?case
    by (auto simp: target_qualifier_def)
qed simp

lemma tenantTargets_ok:
  assumes "tenantTargets s d tables js = Inr ts"
  shows "\<forall>t \<in> set ts. tenant_context_error s (dialect_name d) t = None"
    "map (\<lambda>t. (tt_table t, tt_alias t)) ts = map reference_names tables" "distinct (map target_qualifier ts)" "ts \<noteq> []"
proof -
  from assms obtain si where si: "targets_from s si (dialect_name d) [] tables = Inr ts" "tables \<noteq> []"
    by (auto simp: tenantTargets_def split: option.splits if_splits)
  note ok = targets_from_ok [OF si(1)]
  from ok show "\<forall>t \<in> set ts. tenant_context_error s (dialect_name d) t = None" by blast
  from ok show names: "map (\<lambda>t. (tt_table t, tt_alias t)) ts = map reference_names tables" by blast
  from ok show "distinct (map target_qualifier ts)" by blast
  from names si(2) show "ts \<noteq> []" by auto
qed

lemma strictPolicyCheck_passes:
  assumes "strictPolicyCheck s d b p = (None, q)"
  obtains ts where "tenantTargets s d (items (Tables p)) (items (PlanJoins p)) = Inr ts" "structure_refused p ts = None"
    "Operation p \<noteq> OperationInsert \<Longrightarrow> \<forall>i < length ts. target_refused s p ts i = None"
    "Operation p = OperationSelect \<Longrightarrow> tenantProjection (items (Columns p)) ts = None"
proof -
  from assms obtain ts where "tenantTargets s d (items (Tables p)) (items (PlanJoins p)) = Inr ts"
    by (auto simp: strictPolicyCheck_def split: sum.splits)
  with assms that [of ts] show thesis
    by (auto simp: strictPolicyCheck_def first_error_None split: option.splits if_splits)
qed

lemma strict_rows:
  assumes "strictPolicyCheck s d b p = (None, q)" "Operation p \<noteq> OperationInsert"
    and "tenantTargets s d (items (Tables p)) (items (PlanJoins p)) = Inr ts"
    and "reads_targets ts L row" "keeps_row p ts L row" "i < length ts" "row i = Some r" "pol_TenantColumn (tt_policy (ts ! i)) \<noteq> []"
  shows "\<exists>w. current_tenant s (ts ! i) = Some w \<and> r (pol_TenantColumn (tt_policy (ts ! i))) = Some w"
proof -
  from assms(1,2,3,6,8) have "target_bound s p ts i"
    by (elim strictPolicyCheck_passes) (auto simp: target_refused_def split: if_splits)
  moreover obtain w where "current_tenant s (ts ! i) = Some w"
    using tenantTargets_ok(1) [OF assms(3)] tenant_context_current assms(6,8) nth_mem by metis
  ultimately show ?thesis
    using target_bound_row [OF assms(4-6) _ assms(7)] by blast
qed

lemma finalize_passes:
  assumes "st_strict s \<or> b" "ensurePlanExecutable (finalizeTenantPolicy s d b plan) later = None"
  obtains q where "strictPolicyCheck s d b plan = (None, q)" "comparableWriteView (writeView q) = []"
    "finalizeTenantPolicy s d b plan =
       q\<lparr>tenantEvidence := Some \<lparr>te_view = Some (detach_view (writeView q)), te_failure = []\<rparr>, TenantPolicy := Some conditional_pass\<rparr>"
proof (cases "strictPolicyCheck s d b plan")
  case (Pair e q)
  have "e = None"
    using assms Pair by (cases e) (auto simp: finalizeTenantPolicy_def ensurePlanExecutable_None)
  moreover have "comparableWriteView (writeView q) = []"
    using assms Pair \<open>e = None\<close>
    by (cases "comparableWriteView (writeView q) = []") (auto simp: finalizeTenantPolicy_def ensurePlanExecutable_None Let_def)
  ultimately show thesis
    using that [of q] assms(1) Pair by (auto simp: finalizeTenantPolicy_def)
qed

section \<open>Properties\<close>

text \<open>
  C25: Under the strict tenant policy, a SELECT, UPDATE or DELETE that the gate lets run reads only the current tenant's rows:
  in every row its WHERE and ON conditions keep, each target whose policy names a tenant column has the tenant of the
  application's context in it, where a row of that table was matched at all.
\<close>

theorem strict_statement_stays_in_tenant:
  assumes "st_strict s" "ensurePlanExecutable (finalizeTenantPolicy s d b plan) later = None" "Operation plan \<noteq> OperationInsert"
  shows "\<exists>ts. tenantTargets s d (items (Tables plan)) (items (PlanJoins plan)) = Inr ts \<and>
    (\<forall>L row i r. reads_targets ts L row \<and> keeps_row plan ts L row \<and> i < length ts \<and> row i = Some r \<and>
        pol_TenantColumn (tt_policy (ts ! i)) \<noteq> [] \<longrightarrow>
      (\<exists>w. current_tenant s (ts ! i) = Some w \<and> r (pol_TenantColumn (tt_policy (ts ! i))) = Some w))"
proof -
  obtain q where q: "strictPolicyCheck s d b plan = (None, q)"
    using finalize_passes [of s b d plan later] assms(1,2) by blast
  from q obtain ts where ts: "tenantTargets s d (items (Tables plan)) (items (PlanJoins plan)) = Inr ts"
    by (elim strictPolicyCheck_passes)
  from strict_rows [OF q assms(3) ts] ts show ?thesis by blast
qed

definition tenant_table :: application_table where
  "tenant_table =
     \<lparr>at_PlainTable = True, at_Table = ''t'',
      at_Columns = [\<lparr>kc_Name = ''id'', kc_DBType = ''bigint'', kc_Bits = 64, kc_Unsigned = False, kc_Nullable = False\<rparr>],
      at_Constraints = [sample_key], at_CompleteUniqueConstraints = True\<rparr>"

definition tenant_settings :: settings where
  "tenant_settings =
     WithTenantPolicy ''app'' (Some \<lparr>si_Database = ''app'', si_Dialect = ''postgres'', si_Tables = [tenant_table]\<rparr>) False
       (NewSettings [(''t'', blank_policy\<lparr>pol_Table := ''t'', pol_TenantColumn := ''id''\<rparr>)] no_risk_config
         \<lparr>ec_input = \<lparr>ci_Source = [], ci_CurrentTenant = VInt 7, ci_TenantPresent = True\<rparr>, ec_application = True\<rparr>)"

definition sample_target :: tenant_target where
  "sample_target = \<lparr>tt_table = ''t'', tt_alias = [], tt_schema = tenant_table,
     tt_policy = blank_policy\<lparr>pol_Table := ''t'', pol_TenantColumn := ''id''\<rparr>\<rparr>"

lemma sample_targets: "tenantTargets tenant_settings PostgresDialect [\<lparr>tr_Name = ''t'', tr_Alias = []\<rparr>] [] = Inr [sample_target]"
proof -
  have "reference_names \<lparr>tr_Name = ''t'', tr_Alias = []\<rparr> = (''t'', [])" "scopePath ''t''" "normalizeTableName ''t'' = ''t''"
    "scopeIdent ''id''"
    by code_simp+
  then show ?thesis
    by (simp add: tenantTargets_def tenant_settings_def WithTenantPolicy_def NewSettings_def dialect_name_def tenant_table_def
        resolve_target_def PolicyForTable_def tenantColumn_def tenant_context_error_def tenant_key_def validWriteKey_def key_bits_def
        scopeInteger_def sample_target_def blank_policy_def Let_def)
qed

lemma sample_resolves: "tenantResolve ''id'' [sample_target] = Some (0, ''id'')"
proof -
  have "scopeColumn ''id''" "split_qualifier ''id'' = ([], ''id'')" by code_simp+
  then show ?thesis
    by (simp add: tenantResolve_def sample_target_def tenantColumn_def tenant_table_def)
qed

text \<open>Plans that differ from the sample only in what finalizing adds.\<close>

definition like_sample :: "query_plan \<Rightarrow> bool" where
  "like_sample p \<longleftrightarrow> writeView p = writeView sample_delete \<and> generatedConditions p \<and> conditionSource p = Some sample_where \<and>
     ws_Status (AnalyzeWriteScope p) = ''unknown''"

lemma AnalyzeWriteScope_cong:
  "writeView p = writeView p' \<Longrightarrow> writeEvidence p = writeEvidence p' \<Longrightarrow> AnalyzeWriteScope p = AnalyzeWriteScope p'"
  by (simp only: AnalyzeWriteScope_def)

lemma scoped_plan_more [simp]:
  "writeView (scoped_plan p) = writeView p" "writeEvidence (scoped_plan p) = writeEvidence p"
  "generatedConditions (scoped_plan p) = generatedConditions p" "conditionSource (scoped_plan p) = conditionSource p"
  "Blocked (scoped_plan p) = Blocked p" "RequiredApproval (scoped_plan p) = RequiredApproval p"
  by (simp_all add: scoped_plan_def Let_def writeView_def)

lemma like_sample_scoped: "like_sample p \<Longrightarrow> like_sample (scoped_plan p)"
  using AnalyzeWriteScope_cong [of "scoped_plan p" p] by (simp add: like_sample_def)

lemma sample_fields:
  "items (Tables sample_delete) = [\<lparr>tr_Name = ''t'', tr_Alias = []\<rparr>]" "items (PlanJoins sample_delete) = []"
  "items (Unverified sample_delete) = []" "Operation sample_delete = OperationDelete" "HavingTree sample_delete = None"
  "WhereTree sample_delete = Some sample_where" "Blocked sample_delete = False" "RequiredApproval sample_delete = False"
  "SQL sample_delete = ''DELETE FROM t WHERE id = $1''" "writeEvidence sample_delete = None"
  "conditionSource sample_delete = Some sample_where" "generatedConditions sample_delete" "Metadata sample_delete = None"
  by (simp_all add: sample_delete_def newQueryPlan_def)

lemma like_sample_fields:
  assumes "like_sample p"
  shows "items (Tables p) = [\<lparr>tr_Name = ''t'', tr_Alias = []\<rparr>]" "items (PlanJoins p) = []"
    "items (Unverified p) = []" "Operation p = OperationDelete" "HavingTree p = None" "WhereTree p = Some sample_where"
    "SQL p = ''DELETE FROM t WHERE id = $1''"
  using assms sample_fields by (simp_all add: like_sample_def writeView_def)

lemma sample_like: "like_sample sample_delete"
  by (simp add: like_sample_def sample_fields AnalyzeWriteScope_def scope_unknown_def)

lemma like_sample_warnings:
  assumes "like_sample p"
  shows "\<exists>w. rule_warnings (scoped_plan p) = [w] \<and> wn_Level w = RiskMedium"
proof -
  have sql: "\<not> containsDangerousSQLToken ''DELETE FROM t WHERE id = $1''" "\<not> normalizedContainsWeakPredicate ''DELETE FROM t WHERE id = $1''"
    "\<not> normalizedContainsWeakPredicate []"
    by code_simp+
  note f = like_sample_fields [OF like_sample_scoped [OF assms]]
  have preds: "inspectionPredicates p = [predicate_of (info sample_where)]"
    using assms by (simp add: like_sample_def inspectionPredicates_def sample_where_def)
  have "\<not> hasWeakPredicate (scoped_plan p)"
    using sql(2,3) f(7) by (simp add: hasWeakPredicate_def preds predicate_of_def sample_where_def blank_info_def)
  moreover have "\<not> hasNoPredicate (scoped_plan p)"
    unfolding hasNoPredicate_def by (simp add: preds)
  moreover obtain r where "WriteScope (scoped_plan p) = Some r" "ws_Status r = ''unknown''"
  proof
    show "WriteScope (scoped_plan p) = Some (AnalyzeWriteScope p)"
      using like_sample_fields(4) [OF assms] by (simp add: scoped_plan_def Let_def)
    show "ws_Status (AnalyzeWriteScope p) = ''unknown''"
      using assms by (simp add: like_sample_def)
  qed
  ultimately show ?thesis
    using sql(1) f(4,7) by (simp add: rule_warnings_def operation_warnings_def delete_warnings_def at_most_one_scope_def
        with_scope_evidence_def newWarning_def)
qed

lemma like_sample_risk:
  assumes "like_sample p"
  shows "rk_Blocked (snd (CheckQuery no_risk_config p)) = False" "rk_Level (snd (CheckQuery no_risk_config p)) = RiskMedium"
    "fst (CheckQuery no_risk_config p) = scoped_plan p"
proof -
  obtain w where "rule_warnings (scoped_plan p) = [w]" "wn_Level w = RiskMedium"
    using like_sample_warnings [OF assms] by blast
  then show "rk_Blocked (snd (CheckQuery no_risk_config p)) = False" "rk_Level (snd (CheckQuery no_risk_config p)) = RiskMedium"
    "fst (CheckQuery no_risk_config p) = scoped_plan p"
    by (simp_all add: CheckQuery_def Let_def applyRiskConfig_def applyRiskRule_def no_risk_config_def aggregateWarnings_def
        compareRisk_def riskRank_def)
qed

lemma medium_no_approval: "\<not> requiresApprovalLevel RiskMedium"
  by (simp add: requiresApprovalLevel_def compareRisk_def)

lemma like_sample_strict:
  assumes "like_sample p"
  shows "strictPolicyCheck tenant_settings PostgresDialect False p = (None, scoped_plan (scoped_plan p))"
proof -
  have "st_risk tenant_settings = no_risk_config" "current_tenant tenant_settings sample_target = Some 7"
    by (simp_all add: tenant_settings_def WithTenantPolicy_def NewSettings_def current_tenant_def tenantColumn_def sample_target_def
        tenant_table_def blank_policy_def scopeInteger_def)
  moreover have "tenantTreeKnown [sample_target] (Some sample_where)"
    by (simp add: sample_where_def blank_info_def kind_in_def leaf_known_def sample_resolves detached_scalar_def known_operators_def
        to_upper_def upper_byte_def is_lower_def byte_def)
  moreover have "tenantBound [sample_target] 0 7 (Some sample_where)"
    by (simp add: sample_where_def blank_info_def bound_leaf_def sample_resolves)
      (simp add: sample_target_def blank_policy_def tenantColumn_def tenant_table_def scopeInteger_def)
  moreover have "pol_RequiredFilterColumns (tt_policy sample_target) = []"
    by (simp add: sample_target_def blank_policy_def)
  moreover obtain r where "CheckQuery no_risk_config p = (scoped_plan p, r)" "rk_Blocked r = False" "rk_Level r = RiskMedium"
    using like_sample_risk [OF assms] by (metis prod.collapse)
  moreover obtain r' where "CheckQuery no_risk_config (scoped_plan p) = (scoped_plan (scoped_plan p), r')" "rk_Blocked r' = False" "rk_Level r' = RiskMedium"
    using like_sample_risk [OF like_sample_scoped [OF assms]] by (metis prod.collapse)
  ultimately show ?thesis
    by (simp add: strictPolicyCheck_def like_sample_fields [OF assms] sample_targets structure_refused_def and_then_def refuse_if_def
        target_refused_def target_bound_def Let_def medium_no_approval)
qed

lemma sample_detached: "detach_view (writeView sample_delete) = writeView sample_delete"
  by (simp add: detach_view_def writeView_def sample_delete_def newQueryPlan_def Slice_def Copy_def copy_val.simps
      MaxDepth_def fresh_slice_def detach_tree_def sample_where_def blank_info_def inspection_named_def
      inspectionValue_def new_copier_def node_settled_def)

lemma like_sample_finalized:
  assumes "like_sample p"
  shows "finalizeTenantPolicy tenant_settings PostgresDialect False p =
     (scoped_plan (scoped_plan p))\<lparr>tenantEvidence := Some \<lparr>te_view = Some (writeView sample_delete), te_failure = []\<rparr>,
       TenantPolicy := Some conditional_pass\<rparr>"
proof -
  have "writeView (scoped_plan (scoped_plan p)) = writeView sample_delete"
    using assms by (simp add: like_sample_def)
  then show ?thesis
    by (simp add: finalizeTenantPolicy_def like_sample_strict [OF assms] sample_comparable sample_detached Let_def)
      (simp add: tenant_settings_def WithTenantPolicy_def)
qed

lemma like_sample_executable:
  assumes "like_sample p" "\<not> Blocked p" "\<not> RequiredApproval p"
  shows "ensurePlanExecutable (finalizeTenantPolicy tenant_settings PostgresDialect False p) t = None"
proof -
  have view: "writeView (x\<lparr>tenantEvidence := e, TenantPolicy := r\<rparr>) = writeView x" for x e r
    by (simp add: writeView_def)
  have "writeView p = writeView sample_delete" using assms(1) by (simp add: like_sample_def)
  with assms(2,3) show ?thesis
    unfolding ensurePlanExecutable_None like_sample_finalized [OF assms(1)] checkTenantEvidence_def view
    by (simp add: sample_comparable sample_view_equal)
qed

theorem strict_statement_stays_in_tenant_witness:
  "ensurePlanExecutable (finalizeTenantPolicy tenant_settings PostgresDialect False sample_delete) 0 = None \<and>
   (\<exists>ts. tenantTargets tenant_settings PostgresDialect [\<lparr>tr_Name = ''t'', tr_Alias = []\<rparr>] [] = Inr ts)"
proof -
  have run: "ensurePlanExecutable (finalizeTenantPolicy tenant_settings PostgresDialect False sample_delete) 0 = None"
    by (rule like_sample_executable [OF sample_like]) (simp_all add: sample_fields)
  have "st_strict tenant_settings" "Operation sample_delete \<noteq> OperationInsert"
    by (simp_all add: tenant_settings_def WithTenantPolicy_def sample_fields)
  from strict_statement_stays_in_tenant [OF this(1) run this(2)] run show ?thesis
    by (auto simp: sample_fields)
qed

end
