(* ===== verification/TenantWrites.thy ===== *)
theory TenantWrites
  imports TenantPolicy
begin

text \<open>
  Rows written under the strict tenant policy (\<^verbatim>\<open>orm/query/tenant_write.go\<close>): every column is a known plain column the policy
  lets be written, inserted rows belong to the current tenant, and the keys an upsert may collide on keep the collision
  within the tenant.  A row is a Go map: an association list with distinct keys, in the order the loop visits them.
\<close>

type_synonym go_row = "(gostring \<times> goval) list"

abbreviation row_at :: "go_row \<Rightarrow> gostring \<Rightarrow> goval" where
  "row_at row col \<equiv> (case map_of row col of Some v \<Rightarrow> v | None \<Rightarrow> VNil)"

definition rows_output :: "go_row list \<Rightarrow> outv" where
  [go_eval]: "rows_output rows = Items (map (\<lambda>row. Entries (map (map_prod id goval_output) row)) rows)"

section \<open>Columns\<close>

definition tenantWriteColumn :: "tenant_target \<Rightarrow> gostring \<Rightarrow> bool \<Rightarrow> exec_error option" where
  [go_eval]: "tenantWriteColumn t col update =
     (let p = tt_policy t
      in if col \<in> set (pol_ForbiddenColumns p @ pol_PIIColumns p) then Some (tenantError ''protected_write_column'')
         else if update \<and> col = pol_TenantColumn p then Some (tenantError ''tenant_assignment_forbidden'')
         else refuse_if (update \<and> col \<in> set (pol_ImmutableColumns p)) ''immutable_assignment'')"

definition assignment_refused :: "tenant_target \<Rightarrow> bool \<Rightarrow> gostring \<times> goval \<Rightarrow> exec_error option" where
  [go_eval]: "assignment_refused t update e =
     (case e of (col, v) \<Rightarrow>
        and_then (refuse_if (\<not> scopeIdent col) ''assignment_expression_unsupported'')
        (and_then (refuse_if (tenantColumn t col = None) ''assignment_column_unknown'')
        (and_then (refuse_if (\<not> scopeScalar v) ''assignment_value_unsupported'')
        (tenantWriteColumn t col update))))"

section \<open>Rows\<close>

definition with_tenant :: "settings \<Rightarrow> tenant_target \<Rightarrow> go_row \<Rightarrow> go_row" where
  [go_eval]: "with_tenant s t row =
     (let col = pol_TenantColumn (tt_policy t)
      in if map_of row col = None \<and> st_autoTenant s then row @ [(col, ci_CurrentTenant (ec_input (st_execution s)))] else row)"

definition tenant_column_bits :: "tenant_target \<Rightarrow> int" where
  [go_eval]: "tenant_column_bits t = (case tenantColumn t (pol_TenantColumn (tt_policy t)) of Some c \<Rightarrow> kc_Bits c | None \<Rightarrow> 0)"

definition row_in_tenant :: "settings \<Rightarrow> tenant_target \<Rightarrow> go_row \<Rightarrow> bool" where
  [go_eval]: "row_in_tenant s t row =
     (case scopeInteger (row_at row (pol_TenantColumn (tt_policy t))) (tenant_column_bits t) of
        None \<Rightarrow> False
      | Some got \<Rightarrow> current_tenant s t = Some got)"

text \<open>One row; \<^term>\<open>first\<close> is the first row written, once there is one.\<close>

definition write_row :: "settings \<Rightarrow> tenant_target \<Rightarrow> bool \<Rightarrow> go_row option \<Rightarrow> go_row \<Rightarrow> exec_error + go_row" where
  [go_eval]: "write_row s t update first row =
     (case first_error (assignment_refused t update) row of
        Some e \<Rightarrow> Inl e
      | None \<Rightarrow>
          let scoped = \<not> update \<and> pol_TenantColumn (tt_policy t) \<noteq> [];
              out = (if scoped then with_tenant s t row else row)
          in if scoped \<and> \<not> row_in_tenant s t out then Inl (tenantError ''insert_tenant_missing_or_mismatched'')
             else case first of
               Some f \<Rightarrow> if set (map fst f) \<noteq> set (map fst out) then Inl (tenantError ''batch_columns_mismatch'') else Inr out
             | None \<Rightarrow> Inr out)"

fun write_rows :: "settings \<Rightarrow> tenant_target \<Rightarrow> bool \<Rightarrow> go_row option \<Rightarrow> go_row list \<Rightarrow> exec_error + go_row list" where
  "write_rows s t update first [] = Inr []"
| "write_rows s t update first (row # rows) =
     (case write_row s t update first row of
        Inl e \<Rightarrow> Inl e
      | Inr out \<Rightarrow>
          (case write_rows s t update (Some (case first of Some f \<Rightarrow> f | None \<Rightarrow> out)) rows of
             Inl e \<Rightarrow> Inl e
           | Inr outs \<Rightarrow> Inr (out # outs)))"

section \<open>Conflict keys\<close>

text \<open>The names matched one by one, each name once.\<close>

fun take_names :: "gostring list \<Rightarrow> gostring list \<Rightarrow> gostring list option" where
  "take_names seen [] = Some seen"
| "take_names seen (v # vs) = (if v \<in> set seen then take_names (removeAll v seen) vs else None)"

definition sameTenantNames :: "gostring list \<Rightarrow> gostring list \<Rightarrow> bool" where
  [go_eval]: "sameTenantNames a b = (length a = length b \<and> take_names (remdups a) b = Some [])"

definition key_column_refused :: "tenant_target \<Rightarrow> write_key_column \<Rightarrow> exec_error option" where
  [go_eval]: "key_column_refused t c =
     refuse_if (tenantColumn t (kc_Name c) \<noteq> Some c \<or> kc_Nullable c) ''conflict_column_schema_mismatch''"

definition key_values_present :: "go_row list \<Rightarrow> write_key \<Rightarrow> bool" where
  [go_eval]: "key_values_present out k \<longleftrightarrow>
     (\<forall>row \<in> set out. \<forall>c \<in> set (wk_Columns k). scopeInteger (row_at row (kc_Name c)) (kc_Bits c) \<noteq> None)"

text \<open>Postgres resolves a conflict on the named key alone, MySQL on any unique key.\<close>

fun conflict_keys :: "gostring \<Rightarrow> tenant_target \<Rightarrow> gostring list \<Rightarrow> go_row list \<Rightarrow> bool \<Rightarrow> write_key list \<Rightarrow> exec_error option" where
  "conflict_keys dialect t unique out found [] = refuse_if (\<not> found) ''conflict_target_unknown''"
| "conflict_keys dialect t unique out found (k # ks) =
     (if \<not> validWriteKey k dialect then Some (tenantError ''conflict_constraint_unsupported'')
      else case first_error (key_column_refused t) (wk_Columns k) of
        Some e \<Rightarrow> Some e
      | None \<Rightarrow>
          let names = map kc_Name (wk_Columns k); matches = sameTenantNames names unique; found' = (found \<or> matches)
          in if dialect = ''postgres'' \<and> \<not> matches then conflict_keys dialect t unique out found' ks
             else if pol_TenantColumn (tt_policy t) \<noteq> [] \<and> pol_TenantColumn (tt_policy t) \<notin> set names
             then Some (tenantError ''cross_tenant_conflict'')
             else if \<not> key_values_present out k then Some (tenantError ''conflict_value_missing_or_unsupported'')
             else conflict_keys dialect t unique out found' ks)"

definition update_column_refused :: "tenant_target \<Rightarrow> go_row list \<Rightarrow> gostring \<Rightarrow> exec_error option" where
  [go_eval]: "update_column_refused t out col =
     and_then (tenantWriteColumn t col True)
     (and_then (refuse_if (\<not> scopeIdent col) ''conflict_update_unknown'')
     (refuse_if (map_of (hd out) col = None) ''conflict_update_missing_value''))"

definition conflict_refused ::
  "gostring \<Rightarrow> tenant_target \<Rightarrow> go_row list \<Rightarrow> gostring list option \<Rightarrow> gostring list option \<Rightarrow> exec_error option" where
  [go_eval]: "conflict_refused dialect t out unique updateCols =
     (if unique = None \<and> updateCols = None then None
      else if items unique = [] \<or> \<not> at_CompleteUniqueConstraints (tt_schema t) \<or> at_Constraints (tt_schema t) = []
      then Some (tenantError ''conflict_constraints_incomplete'')
      else and_then (first_error (update_column_refused t out) (items updateCols))
        (conflict_keys dialect t (items unique) out False (at_Constraints (tt_schema t))))"

definition tenantRows :: "settings \<Rightarrow> driver_dialect \<Rightarrow> gostring \<Rightarrow> go_row list \<Rightarrow> bool \<Rightarrow> gostring list option \<Rightarrow>
    gostring list option \<Rightarrow> exec_error + go_row list" where
  [go_eval]: "tenantRows s d table rows update unique updateCols =
     (if \<not> st_strict s then Inr rows
      else if GuardCheck (rows_output rows) \<noteq> None then Inl (tenantError ''write_value_budget'')
      else case tenantTargets s d [\<lparr>tr_Name = table, tr_Alias = []\<rparr>] [] of
        Inl e \<Rightarrow> Inl e
      | Inr ts \<Rightarrow>
          let t = hd ts
          in if tt_alias t \<noteq> [] \<or> rows = [] then Inl (tenantError ''write_target_or_rows_unsupported'')
             else case write_rows s t update None rows of
               Inl e \<Rightarrow> Inl e
             | Inr out \<Rightarrow>
                 (case conflict_refused (case st_schema s of Some si \<Rightarrow> si_Dialect si | None \<Rightarrow> []) t out unique updateCols of
                    Some e \<Rightarrow> Inl e
                  | None \<Rightarrow> Inr out))"

section \<open>What the checks establish\<close>

lemma write_row_ok:
  assumes "write_row s t update first row = Inr out"
  shows "\<forall>e \<in> set row. assignment_refused t update e = None"
    "update \<Longrightarrow> out = row"
    "\<not> update \<Longrightarrow> pol_TenantColumn (tt_policy t) \<noteq> [] \<Longrightarrow> row_in_tenant s t out"
  using assms by (auto simp: write_row_def Let_def first_error_None [symmetric] split: option.splits if_splits)

lemma write_rows_ok:
  "write_rows s t update first rows = Inr out \<Longrightarrow>
   (\<forall>row \<in> set rows. \<forall>e \<in> set row. assignment_refused t update e = None) \<and> (update \<longrightarrow> out = rows) \<and>
   (\<not> update \<and> pol_TenantColumn (tt_policy t) \<noteq> [] \<longrightarrow> (\<forall>row \<in> set out. row_in_tenant s t row)) \<and> length out = length rows"
proof (induction rows arbitrary: first out)
  case (Cons row rows)
  from Cons.prems obtain o1 os where o: "write_row s t update first row = Inr o1"
    "write_rows s t update (Some (case first of Some f \<Rightarrow> f | None \<Rightarrow> o1)) rows = Inr os" "out = o1 # os"
    by (auto split: sum.splits)
  with Cons.IH [OF o(2)] write_row_ok [OF o(1)] show ?case by auto
qed simp

lemma row_in_tenant_value:
  "row_in_tenant s t row \<Longrightarrow>
   \<exists>w. current_tenant s t = Some w \<and> int_of_goval (row_at row (pol_TenantColumn (tt_policy t))) = Some w"
  by (auto simp: row_in_tenant_def dest: scopeInteger_int split: option.splits)

lemma assignment_allowed:
  "assignment_refused t update (col, v) = None \<longleftrightarrow>
   scopeIdent col \<and> tenantColumn t col \<noteq> None \<and> scopeScalar v \<and>
   col \<notin> set (pol_ForbiddenColumns (tt_policy t)) \<and> col \<notin> set (pol_PIIColumns (tt_policy t)) \<and>
   (update \<longrightarrow> col \<noteq> pol_TenantColumn (tt_policy t) \<and> col \<notin> set (pol_ImmutableColumns (tt_policy t)))"
  by (auto simp: assignment_refused_def tenantWriteColumn_def Let_def)

lemma conflict_keys_ok:
  "conflict_keys dialect t unique out found ks = None \<Longrightarrow> k \<in> set ks \<Longrightarrow>
   dialect \<noteq> ''postgres'' \<or> sameTenantNames (map kc_Name (wk_Columns k)) unique \<Longrightarrow> pol_TenantColumn (tt_policy t) \<noteq> [] \<Longrightarrow>
   pol_TenantColumn (tt_policy t) \<in> kc_Name ` set (wk_Columns k)"
  by (induction ks arbitrary: found) (auto simp: Let_def split: option.splits if_splits)

lemma tenantRows_ok:
  assumes "st_strict s" "tenantRows s d table rows update unique updateCols = Inr out"
  obtains t ts where "tenantTargets s d [\<lparr>tr_Name = table, tr_Alias = []\<rparr>] [] = Inr (t # ts)"
    "write_rows s t update None rows = Inr out"
    "conflict_refused (case st_schema s of Some si \<Rightarrow> si_Dialect si | None \<Rightarrow> []) t out unique updateCols = None"
proof -
  from assms obtain ts where ts: "tenantTargets s d [\<lparr>tr_Name = table, tr_Alias = []\<rparr>] [] = Inr ts"
    by (auto simp: tenantRows_def split: if_splits sum.splits)
  moreover obtain t us where "ts = t # us"
    using tenantTargets_ok(4) [OF ts] by (cases ts) auto
  ultimately show thesis
    using assms that [of t us] by (auto simp: tenantRows_def Let_def split: if_splits sum.splits option.splits)
qed

section \<open>Properties\<close>


lemma sample_target_fields:
  "tt_alias sample_target = []" "pol_TenantColumn (tt_policy sample_target) = ''id''" "pol_ForbiddenColumns (tt_policy sample_target) = []"
  "pol_PIIColumns (tt_policy sample_target) = []" "at_CompleteUniqueConstraints (tt_schema sample_target)"
  "at_Constraints (tt_schema sample_target) = [sample_key]"
  "tenantColumn sample_target ''id'' =
     Some \<lparr>kc_Name = ''id'', kc_DBType = ''bigint'', kc_Bits = 64, kc_Unsigned = False, kc_Nullable = False\<rparr>"
  "current_tenant tenant_settings sample_target = Some 7"
  by (simp_all add: tenant_settings_def WithTenantPolicy_def NewSettings_def current_tenant_def tenantColumn_def sample_target_def
      tenant_table_def blank_policy_def scopeInteger_def)

lemma tenant_settings_fields:
  "st_strict tenant_settings" "\<not> st_autoTenant tenant_settings"
  "st_schema tenant_settings = Some \<lparr>si_Database = ''app'', si_Dialect = ''postgres'', si_Tables = [tenant_table]\<rparr>"
  by (simp_all add: tenant_settings_def WithTenantPolicy_def NewSettings_def)

lemma sample_key_valid:
  "validWriteKey sample_key ''postgres''"
  "wk_Columns sample_key = [\<lparr>kc_Name = ''id'', kc_DBType = ''bigint'', kc_Bits = 64, kc_Unsigned = False, kc_Nullable = False\<rparr>]"
proof -
  have "scopeIdent ''id''" by code_simp
  then show "validWriteKey sample_key ''postgres''"
    by (simp add: sample_key_def validWriteKey_def key_bits_def)
qed (simp add: sample_key_def)

lemma sample_upsert:
  "tenantRows tenant_settings PostgresDialect ''t'' [[(''id'', VInt 7)]] False (Some [''id'']) None = Inr [[(''id'', VInt 7)]]"
proof -
  have "GuardCheck (rows_output [[(''id'', VInt 7)]]) = None"
    by (simp add: rows_output_def GuardCheck_None_iff)
  moreover have "scopeIdent ''id''" by code_simp
  ultimately show ?thesis
    by (simp add: tenantRows_def sample_targets write_row_def assignment_refused_def tenantWriteColumn_def and_then_def refuse_if_def
        with_tenant_def row_in_tenant_def tenant_column_bits_def conflict_refused_def sample_target_fields tenant_settings_fields
        sample_key_valid key_column_refused_def scopeInteger_def sameTenantNames_def key_values_present_def Let_def)
qed


text \<open>
  An UPDATE under the strict policy is given exactly the assignments asked for, and each is a scalar for a known column
  that is neither the tenant column nor immutable nor protected by the table's policy.
\<close>

theorem updated_columns_allowed:
  assumes "st_strict s" "tenantRows s d table rows True unique updateCols = Inr out"
  shows "out = rows \<and> (\<exists>t ts. tenantTargets s d [\<lparr>tr_Name = table, tr_Alias = []\<rparr>] [] = Inr (t # ts) \<and>
    (\<forall>row \<in> set rows. \<forall>(col, v) \<in> set row. tenantColumn t col \<noteq> None \<and> scopeScalar v \<and>
       col \<noteq> pol_TenantColumn (tt_policy t) \<and>
       col \<notin> set (pol_ImmutableColumns (tt_policy t) @ pol_ForbiddenColumns (tt_policy t) @ pol_PIIColumns (tt_policy t))))"
proof -
  obtain t ts where t: "tenantTargets s d [\<lparr>tr_Name = table, tr_Alias = []\<rparr>] [] = Inr (t # ts)"
    "write_rows s t True None rows = Inr out"
    using tenantRows_ok [OF assms] by blast
  from write_rows_ok [OF t(2)] t(1) show ?thesis
    using assignment_allowed [of t True] by fastforce
qed

definition named_target :: tenant_target where
  "named_target = sample_target\<lparr>tt_schema := tenant_table\<lparr>at_Columns := at_Columns tenant_table @
     [\<lparr>kc_Name = ''name'', kc_DBType = ''text'', kc_Bits = 0, kc_Unsigned = False, kc_Nullable = False\<rparr>]\<rparr>\<rparr>"

definition named_settings :: settings where
  "named_settings = tenant_settings\<lparr>st_schema := Some \<lparr>si_Database = ''app'', si_Dialect = ''postgres'', si_Tables = [tt_schema named_target]\<rparr>\<rparr>"

lemma named_targets: "tenantTargets named_settings PostgresDialect [\<lparr>tr_Name = ''t'', tr_Alias = []\<rparr>] [] = Inr [named_target]"
proof -
  have "reference_names \<lparr>tr_Name = ''t'', tr_Alias = []\<rparr> = (''t'', [])" "scopePath ''t''" "normalizeTableName ''t'' = ''t''"
    "scopeIdent ''id''"
    by code_simp+
  then show ?thesis
    by (simp add: tenantTargets_def named_settings_def tenant_settings_def WithTenantPolicy_def NewSettings_def dialect_name_def
        named_target_def tenant_table_def resolve_target_def PolicyForTable_def tenantColumn_def tenant_context_error_def tenant_key_def
        validWriteKey_def key_bits_def scopeInteger_def sample_target_def blank_policy_def Let_def)
qed

lemma named_target_fields:
  "tt_alias named_target = []" "pol_TenantColumn (tt_policy named_target) = ''id''" "pol_ForbiddenColumns (tt_policy named_target) = []"
  "pol_PIIColumns (tt_policy named_target) = []" "pol_ImmutableColumns (tt_policy named_target) = []"
  "tenantColumn named_target ''name'' \<noteq> None"
  by (simp_all add: tenantColumn_def named_target_def sample_target_def tenant_table_def blank_policy_def)

theorem updated_columns_allowed_witness:
  "tenantRows named_settings PostgresDialect ''t'' [[(''name'', VString ''x'')]] True None None = Inr [[(''name'', VString ''x'')]] \<and>
   tenantColumn named_target ''name'' \<noteq> None"
proof -
  have strict: "st_strict named_settings"
    by (simp add: named_settings_def tenant_settings_def WithTenantPolicy_def)
  have "GuardCheck (rows_output [[(''name'', VString ''x'')]]) = None"
    by (simp add: rows_output_def GuardCheck_None_iff)
  moreover have "scopeIdent ''name''" by code_simp
  ultimately have run: "tenantRows named_settings PostgresDialect ''t'' [[(''name'', VString ''x'')]] True None None =
      Inr [[(''name'', VString ''x'')]]"
    using strict
    by (simp add: tenantRows_def named_targets write_row_def assignment_refused_def tenantWriteColumn_def and_then_def refuse_if_def
        conflict_refused_def named_target_fields)
  from updated_columns_allowed [OF strict run] named_targets run show ?thesis by auto
qed

end
