(* ===== verification/PlanIdentity.thy ===== *)
theory PlanIdentity
  imports PredicateView "HOL-Library.List_Lexorder" "HOL-Library.Char_ord"
begin

text \<open>
  The private identity of a plan (\<^verbatim>\<open>orm/internal/planidentity/canonical.go\<close> and \<^verbatim>\<open>identity.go\<close>): a canonical encoding of values
  as nested records, tag, decimal length, colon and payload, and the snapshot of a statement that two
  plans are compared by.  The keyed digests are functions of the caller.
\<close>

section \<open>Texts of the leaves\<close>

text \<open>\<^verbatim>\<open>utf8.ValidString\<close>: the lengths and ranges of well-formed sequences.\<close>

definition continuation :: "char \<Rightarrow> bool" where
  [go_eval]: "continuation c \<longleftrightarrow> 128 \<le> byte c \<and> byte c \<le> 191"

text \<open>The number of bytes that follow a first byte and the range of the first of them.\<close>

definition utf8_lead :: "nat \<Rightarrow> (nat \<times> nat \<times> nat) option" where
  [go_eval]: "utf8_lead b =
     (if b < 128 then Some (0, 0, 0)
      else if b < 194 then None
      else if b \<le> 223 then Some (1, 128, 191)
      else if b = 224 then Some (2, 160, 191)
      else if b = 237 then Some (2, 128, 159)
      else if b \<le> 239 then Some (2, 128, 191)
      else if b = 240 then Some (3, 144, 191)
      else if b \<le> 243 then Some (3, 128, 191)
      else if b = 244 then Some (3, 128, 143)
      else None)"

function valid_utf8 :: "gostring \<Rightarrow> bool" where
  "valid_utf8 [] = True"
| "valid_utf8 (c # cs) =
     (case utf8_lead (byte c) of
        None \<Rightarrow> False
      | Some (n, lo, hi) \<Rightarrow>
          n \<le> length cs \<and> (n = 0 \<or> lo \<le> byte (hd cs) \<and> byte (hd cs) \<le> hi \<and> (\<forall>d \<in> set (take n cs). continuation d)) \<and>
          valid_utf8 (drop n cs))"
  by pat_completeness auto
termination
  by (relation "measure length") auto

declare valid_utf8.simps [simp del]

text \<open>\<^verbatim>\<open>strconv.FormatUint\<close> in base 16.\<close>

definition hex_digits :: gostring where
  [go_eval]: "hex_digits = ''0123456789abcdef''"

fun hex_str :: "nat \<Rightarrow> gostring" where
  "hex_str n = (if n < 16 then [hex_digits ! n] else hex_str (n div 16) @ [hex_digits ! (n mod 16)])"

declare hex_str.simps [simp del]

text \<open>Base 64 with the standard alphabet and padding.\<close>

definition base64_alphabet :: gostring where
  [go_eval]: "base64_alphabet = ''ABCDEFGHIJKLMNOPQRSTUVWXYZabcdefghijklmnopqrstuvwxyz0123456789+/''"

definition base64_digit :: "nat \<Rightarrow> char" where
  [go_eval]: "base64_digit n = base64_alphabet ! n"

fun base64 :: "gostring \<Rightarrow> gostring" where
  "base64 [] = []"
| "base64 [a] = [base64_digit (byte a div 4), base64_digit (byte a mod 4 * 16), CHR ''='', CHR ''='']"
| "base64 [a, b] =
     [base64_digit (byte a div 4), base64_digit (byte a mod 4 * 16 + byte b div 16), base64_digit (byte b mod 16 * 4), CHR ''='']"
| "base64 (a # b # c # cs) =
     base64_digit (byte a div 4) # base64_digit (byte a mod 4 * 16 + byte b div 16) #
     base64_digit (byte b mod 16 * 4 + byte c div 64) # base64_digit (byte c mod 64) # base64 cs"

text \<open>A valid JSON text that starts with a sign or a digit and has no fraction and no exponent, once no space surrounds it.\<close>

definition json_digits :: "gostring \<Rightarrow> bool" where
  [go_eval]: "json_digits s \<longleftrightarrow> s \<noteq> [] \<and> (\<forall>c \<in> set s. is_digit c) \<and> (hd s = CHR ''0'' \<longrightarrow> length s = 1)"

definition json_integer :: "gostring \<Rightarrow> bool" where
  [go_eval]: "json_integer s \<longleftrightarrow>
     trim_space s = s \<and> (case s of [] \<Rightarrow> False | c # cs \<Rightarrow> json_digits (if c = CHR ''-'' then cs else s))"

section \<open>The encoding\<close>

definition identity_depth :: nat where "identity_depth = 64"
definition identity_slots :: nat where "identity_slots = 65536"
definition identity_bytes :: nat where "identity_bytes = 8 * 2 ^ 20"

definition finite_float :: "nat \<Rightarrow> nat \<Rightarrow> bool" where
  [go_eval]: "finite_float exponent_mask bits \<longleftrightarrow> and bits exponent_mask \<noteq> exponent_mask"

text \<open>Tag and payload of a value that holds no others.\<close>

fun leaf_record :: "goval \<Rightarrow> (gostring \<times> gostring) option" where
  "leaf_record VNil = Some (''null'', [])"
| "leaf_record (VBool b) = Some (''bool'', if b then ''true'' else ''false'')"
| "leaf_record (VString s) = (if valid_utf8 s then Some (''str'', s) else None)"
| "leaf_record (VInt w) = Some (''int64'', int_str (sint w))"
| "leaf_record (VInt8 w) = Some (''i8'', int_str (sint w))"
| "leaf_record (VInt16 w) = Some (''i16'', int_str (sint w))"
| "leaf_record (VInt32 w) = Some (''i32'', int_str (sint w))"
| "leaf_record (VInt64 w) = Some (''i64'', int_str (sint w))"
| "leaf_record (VUint w) = Some (''uint64'', nat_str (unat w))"
| "leaf_record (VUint8 w) = Some (''u8'', nat_str (unat w))"
| "leaf_record (VUint16 w) = Some (''u16'', nat_str (unat w))"
| "leaf_record (VUint32 w) = Some (''u32'', nat_str (unat w))"
| "leaf_record (VUint64 w) = Some (''u64'', nat_str (unat w))"
| "leaf_record (VFloat32 w) = (if finite_float 0x7F800000 (unat w) then Some (''f32'', hex_str (unat w)) else None)"
| "leaf_record (VFloat64 w) = (if finite_float 0x7FF0000000000000 (unat w) then Some (''f64'', hex_str (unat w)) else None)"
| "leaf_record (VNumber s) = (if json_integer s then Some (''jsonint'', s) else None)"
| "leaf_record (VBytes None) = Some (''nilbytes'', [])"
| "leaf_record (VBytes (Some s)) = (if length s > identity_bytes div 2 then None else Some (''bytes'', base64 s))"
| "leaf_record (VList None) = Some (''nillist'', [])"
| "leaf_record (VMap None) = Some (''nilmap'', [])"
| "leaf_record _ = None"

definition pack :: "gostring \<Rightarrow> gostring \<Rightarrow> gostring option" where
  [go_eval]: "pack tag payload =
     (if length payload > identity_bytes then None
      else let out = tag @ nat_str (length payload) @ '':'' @ payload
        in if length out > identity_bytes then None else Some out)"

text \<open>One more value is visited at a depth; the count of values is returned.\<close>

definition visit :: "nat \<Rightarrow> nat \<Rightarrow> nat option" where
  [go_eval]: "visit depth seen = (if depth > identity_depth \<or> seen + 1 > identity_slots then None else Some (seen + 1))"

definition encode_leaf :: "goval \<Rightarrow> nat \<Rightarrow> nat \<Rightarrow> (gostring \<times> nat) option" where
  [go_eval]: "encode_leaf v depth seen =
     (case visit depth seen of
        None \<Rightarrow> None
      | Some m \<Rightarrow>
          (case leaf_record v of
             None \<Rightarrow> None
           | Some (tag, payload) \<Rightarrow> map_option (\<lambda>out. (out, m)) (pack tag payload)))"

definition append_record :: "gostring \<Rightarrow> gostring \<Rightarrow> gostring option" where
  [go_eval]: "append_record b p = (if length b + length p > identity_bytes then None else Some (b @ p))"

text \<open>
  The entries of a map are visited in the order of their keys: a map is sorted before it is encoded
  (\<^term>\<open>sorted_maps\<close>), at every level.
\<close>

fun encode :: "goval \<Rightarrow> nat \<Rightarrow> nat \<Rightarrow> (gostring \<times> nat) option"
and encode_items :: "goval list \<Rightarrow> nat \<Rightarrow> nat \<Rightarrow> gostring \<Rightarrow> (gostring \<times> nat) option"
and encode_entries :: "(gostring \<times> goval) list \<Rightarrow> nat \<Rightarrow> nat \<Rightarrow> gostring \<Rightarrow> (gostring \<times> nat) option" where
  "encode (VList (Some xs)) depth seen =
     (case visit depth seen of
        None \<Rightarrow> None
      | Some m \<Rightarrow>
          if length xs > identity_slots then None
          else case encode_items xs (depth + 1) m [] of
            None \<Rightarrow> None
          | Some (payload, m') \<Rightarrow> map_option (\<lambda>out. (out, m')) (pack ''list'' payload))"
| "encode (VMap (Some es)) depth seen =
     (case visit depth seen of
        None \<Rightarrow> None
      | Some m \<Rightarrow>
          if length es > identity_slots div 2 then None
          else case encode_entries es (depth + 1) m [] of
            None \<Rightarrow> None
          | Some (payload, m') \<Rightarrow> map_option (\<lambda>out. (out, m')) (pack ''map'' payload))"
| "encode v depth seen = encode_leaf v depth seen"
| "encode_items [] depth seen b = Some (b, seen)"
| "encode_items (x # xs) depth seen b =
     (case encode x depth seen of
        None \<Rightarrow> None
      | Some (p, m) \<Rightarrow>
          (case append_record b p of None \<Rightarrow> None | Some b' \<Rightarrow> encode_items xs depth m b'))"
| "encode_entries [] depth seen b = Some (b, seen)"
| "encode_entries ((k, x) # es) depth seen b =
     (case encode_leaf (VString k) depth seen of
        None \<Rightarrow> None
      | Some (p, m) \<Rightarrow>
          (case append_record b p of
             None \<Rightarrow> None
           | Some b' \<Rightarrow>
               (case encode x depth m of
                  None \<Rightarrow> None
                | Some (p', m') \<Rightarrow>
                    (case append_record b' p' of None \<Rightarrow> None | Some b'' \<Rightarrow> encode_entries es depth m' b''))))"

fun sorted_maps :: "goval \<Rightarrow> goval" where
  "sorted_maps (VList (Some xs)) = VList (Some (map sorted_maps xs))"
| "sorted_maps (VMap (Some es)) = VMap (Some (sort_key fst (map (\<lambda>(k, x). (k, sorted_maps x)) es)))"
| "sorted_maps v = v"

definition Canonical :: "goval \<Rightarrow> gostring option" where
  [go_eval]: "Canonical v = map_option fst (encode (sorted_maps v) 0 0)"

section \<open>The texts determine the values\<close>

lemma hex_digits_inject: "m < 16 \<Longrightarrow> n < 16 \<Longrightarrow> hex_digits ! m = hex_digits ! n \<longleftrightarrow> m = n"
  by (rule nth_eq_iff_index_eq) (simp_all add: hex_digits_def)

lemma hex_str_nonempty [simp]: "hex_str n \<noteq> []" "[] \<noteq> hex_str n"
  by (subst hex_str.simps, simp)+

lemma hex_str_inject: "hex_str m = hex_str n \<longleftrightarrow> m = n"
proof -
  have "hex_str m = hex_str n \<Longrightarrow> m = n"
  proof (induction m arbitrary: n rule: less_induct)
    case (less m)
    have m: "hex_str m = (if m < 16 then [hex_digits ! m] else hex_str (m div 16) @ [hex_digits ! (m mod 16)])"
      and n: "hex_str n = (if n < 16 then [hex_digits ! n] else hex_str (n div 16) @ [hex_digits ! (n mod 16)])"
      by (simp_all only: hex_str.simps [symmetric])
    show ?case
    proof (cases "m < 16")
      case True
      with less.prems m n show ?thesis
        by (auto simp: hex_digits_inject split: if_splits)
    next
      case False
      with less.prems m n have "\<not> n < 16" "hex_str (m div 16) = hex_str (n div 16)" "m mod 16 = n mod 16"
        by (auto simp: hex_digits_inject split: if_splits)
      moreover have "m div 16 < m" using False by simp
      ultimately have "m div 16 = n div 16" using less.IH by blast
      with \<open>m mod 16 = n mod 16\<close> show ?thesis
        by (metis div_mult_mod_eq)
    qed
  qed
  then show ?thesis by auto
qed

definition sextet :: "char \<Rightarrow> nat" where
  "sextet c = length (takeWhile (\<lambda>d. d \<noteq> c) base64_alphabet)"

lemma sextet_digit: "n < 64 \<Longrightarrow> sextet (base64_digit n) = n"
proof -
  have "\<forall>n \<in> set [0..<64]. sextet (base64_digit n) = n" by code_simp
  then show "n < 64 \<Longrightarrow> sextet (base64_digit n) = n" by simp
qed

lemma base64_digit_pad: "n < 64 \<Longrightarrow> base64_digit n \<noteq> CHR ''=''"
proof -
  have "\<forall>n \<in> set [0..<64]. base64_digit n \<noteq> CHR ''=''" by code_simp
  then show "n < 64 \<Longrightarrow> base64_digit n \<noteq> CHR ''=''" by simp
qed

fun unbase64 :: "gostring \<Rightarrow> gostring" where
  "unbase64 (p # q # r # t # rest) =
     (let a = char_of (sextet p * 4 + sextet q div 16); b = char_of (sextet q mod 16 * 16 + sextet r div 4);
          c = char_of (sextet r mod 4 * 64 + sextet t)
      in if r = CHR ''='' then [a] else if t = CHR ''='' then [a, b] else a # b # c # unbase64 rest)"
| "unbase64 _ = []"

lemma char_of_byte [simp]: "char_of (byte c) = c"
  by (simp add: byte_def)

lemma byte_parts [simp]:
  "byte c div 4 < 64" "byte c div 16 < 16" "byte c div 64 < 4"
  "byte c div 16 mod 16 = byte c div 16" "byte c div 16 div 16 = 0" "byte c div 64 mod 4 = byte c div 64" "byte c div 64 div 4 = 0"
  using byte_less [of c] by (simp_all add: div_less_iff_less_mult div_mult2_eq [symmetric])

lemma sextets:
  "byte a mod 4 * 16 < 64" "byte b mod 16 * 4 < 64" "byte a mod 4 * 16 + byte b div 16 < 64" "byte b mod 16 * 4 + byte c div 64 < 64"
proof -
  have "byte a mod 4 < 4" "byte b mod 16 < 16" "byte b div 16 < 16" "byte c div 64 < 4" by simp_all
  then show "byte a mod 4 * 16 < 64" "byte b mod 16 * 4 < 64" "byte a mod 4 * 16 + byte b div 16 < 64"
    "byte b mod 16 * 4 + byte c div 64 < 64"
    by linarith+
qed

lemma unbase64_base64: "unbase64 (base64 s) = s"
  by (induction s rule: base64.induct) (simp_all add: Let_def sextet_digit base64_digit_pad sextets)

lemma base64_inject: "base64 s = base64 t \<longleftrightarrow> s = t"
  by (metis unbase64_base64)

section \<open>Records are read back unambiguously\<close>

definition record_tags :: "gostring list" where
  "record_tags =
     [''null'', ''bool'', ''str'', ''int64'', ''i8'', ''i16'', ''i32'', ''i64'', ''uint64'', ''u8'', ''u16'', ''u32'', ''u64'', ''f32'', ''f64'',
      ''jsonint'', ''nilbytes'', ''bytes'', ''nillist'', ''nilmap'', ''list'', ''map'']"

text \<open>A decimal length after a tag is never part of another tag.\<close>

lemma tags_prefix_free: "t \<in> set record_tags \<Longrightarrow> t @ us \<in> set record_tags \<Longrightarrow> us = []"
proof -
  have "\<forall>t \<in> set record_tags. \<forall>u \<in> set record_tags. has_prefix u t \<longrightarrow> t = u"
    by code_simp
  then show "t \<in> set record_tags \<Longrightarrow> t @ us \<in> set record_tags \<Longrightarrow> us = []"
    by (auto simp: has_prefix_iff)
qed

lemma no_colon:
  "t \<in> set record_tags \<Longrightarrow> CHR '':'' \<notin> set t" "CHR '':'' \<notin> set (nat_str n)"
proof -
  have "\<forall>t \<in> set record_tags. CHR '':'' \<notin> set t" by code_simp
  then show "t \<in> set record_tags \<Longrightarrow> CHR '':'' \<notin> set t" by blast
  show "CHR '':'' \<notin> set (nat_str n)"
    using nat_str_digits [of n] by (auto simp: is_digit_def byte_def)
qed

lemma append_same_split: "x \<notin> set a \<Longrightarrow> x \<notin> set b \<Longrightarrow> a @ x # c = b @ x # d \<Longrightarrow> a = b \<and> c = d"
  by (induction a arbitrary: b) (auto simp: Cons_eq_append_conv append_eq_Cons_conv)

lemma tag_same:
  assumes "t \<in> set record_tags" "u \<in> set record_tags" "t @ nat_str m = u @ nat_str n"
  shows "t = u \<and> m = n"
proof -
  from assms(3) obtain us where "t = u @ us \<or> t @ us = u"
    by (metis append_eq_append_conv2)
  with tags_prefix_free assms(1,2) have "t = u" by fastforce
  with assms(3) show ?thesis by (simp add: nat_str_inject)
qed

lemma pack_Some: "pack t p = Some b \<Longrightarrow> b = t @ nat_str (length p) @ '':'' @ p"
  by (auto simp: pack_def Let_def split: if_splits)

lemma pack_readback:
  assumes "pack t p = Some b" "pack u q = Some c" "t \<in> set record_tags" "u \<in> set record_tags" "b @ r = c @ r'"
  shows "t = u \<and> p = q \<and> r = r' \<and> b = c"
proof -
  have "(t @ nat_str (length p)) @ CHR '':'' # (p @ r) = (u @ nat_str (length q)) @ CHR '':'' # (q @ r')"
    using assms(5) pack_Some [OF assms(1)] pack_Some [OF assms(2)] by simp
  from append_same_split [OF _ _ this] no_colon assms(3,4)
  have "t @ nat_str (length p) = u @ nat_str (length q)" "p @ r = q @ r'" by auto
  moreover from this(1) have "t = u \<and> length p = length q"
    by (rule tag_same [OF assms(3,4)])
  ultimately have "t = u" "p = q" "r = r'" by simp_all
  with assms(1,2) show ?thesis by simp
qed

lemma record_tag [simp]:
  "''null'' \<in> set record_tags" "''bool'' \<in> set record_tags" "''str'' \<in> set record_tags" "''int64'' \<in> set record_tags"
  "''i8'' \<in> set record_tags" "''i16'' \<in> set record_tags" "''i32'' \<in> set record_tags" "''i64'' \<in> set record_tags"
  "''uint64'' \<in> set record_tags" "''u8'' \<in> set record_tags" "''u16'' \<in> set record_tags" "''u32'' \<in> set record_tags"
  "''u64'' \<in> set record_tags" "''f32'' \<in> set record_tags" "''f64'' \<in> set record_tags" "''jsonint'' \<in> set record_tags"
  "''nilbytes'' \<in> set record_tags" "''bytes'' \<in> set record_tags" "''nillist'' \<in> set record_tags" "''nilmap'' \<in> set record_tags"
  "''list'' \<in> set record_tags" "''map'' \<in> set record_tags"
  by code_simp+

lemma leaf_tag: "leaf_record v = Some (t, p) \<Longrightarrow> t \<in> set record_tags \<and> t \<noteq> ''list'' \<and> t \<noteq> ''map''"
  by (cases v rule: leaf_record.cases) (auto split: if_splits)

lemma leaf_inject: "leaf_record v = Some (t, p) \<Longrightarrow> leaf_record w = Some (t, p) \<Longrightarrow> v = w"
  by (cases v rule: leaf_record.cases; cases w rule: leaf_record.cases)
     (auto simp: int_str_inject nat_str_inject hex_str_inject base64_inject signed_word_eqI intro: word_unat_eq_iff [THEN iffD2] split: if_splits)

lemma encode_leaf_readback:
  assumes "encode_leaf v d n = Some (b, m)" "encode_leaf w d' n' = Some (c, m')" "b @ r = c @ r'"
  shows "v = w \<and> b = c \<and> r = r'"
proof -
  obtain t p where v: "leaf_record v = Some (t, p)" "pack t p = Some b"
    using assms(1) by (auto simp: encode_leaf_def split: option.splits)
  obtain u q where w: "leaf_record w = Some (u, q)" "pack u q = Some c"
    using assms(2) by (auto simp: encode_leaf_def split: option.splits)
  from pack_readback [OF v(2) w(2) _ _ assms(3)] leaf_tag [OF v(1)] leaf_tag [OF w(1)] v w leaf_inject
  show ?thesis by blast
qed

text \<open>What the encoder writes after what a container already holds.\<close>

lemma append_record_Some: "append_record b p = Some b' \<Longrightarrow> b' = b @ p"
  by (simp add: append_record_def split: if_splits)

lemma encode_list: "encode (VList (Some xs)) d n = Some (b, m) \<Longrightarrow>
    \<exists>k payload m'. encode_items xs (d + 1) k [] = Some (payload, m') \<and> pack ''list'' payload = Some b"
  by (auto split: option.splits if_splits)

lemma encode_map: "encode (VMap (Some es)) d n = Some (b, m) \<Longrightarrow>
    \<exists>k payload m'. encode_entries es (d + 1) k [] = Some (payload, m') \<and> pack ''map'' payload = Some b"
  by (auto split: option.splits if_splits)

lemma encode_other:
  "(\<And>xs. v \<noteq> VList (Some xs)) \<Longrightarrow> (\<And>es. v \<noteq> VMap (Some es)) \<Longrightarrow> encode v d n = encode_leaf v d n"
  by (cases v rule: leaf_record.cases) auto

lemma pack_nonempty: "pack t p = Some b \<Longrightarrow> b \<noteq> []"
  using pack_Some by fastforce

lemma encode_leafless:
  "(\<And>xs. v \<noteq> VList (Some xs)) \<Longrightarrow> (\<And>es. v \<noteq> VMap (Some es)) \<Longrightarrow> encode v d n = Some (b, m) \<Longrightarrow>
   \<exists>t p. pack t p = Some b \<and> t \<in> set record_tags \<and> t \<noteq> ''list'' \<and> t \<noteq> ''map'' \<and> leaf_record v = Some (t, p)"
  using encode_other [of v d n] leaf_tag by (fastforce simp: encode_leaf_def split: option.splits)

lemma encode_nonempty: "encode v d n = Some (b, m) \<Longrightarrow> b \<noteq> []"
  using encode_list encode_map encode_leafless [of v d n b m] pack_nonempty by (metis)

lemma items_Cons:
  assumes "encode_items (x # xs) d n b = Some (c, m)"
  obtains p k where "encode x d n = Some (p, k)" "encode_items xs d k (b @ p) = Some (c, m)"
  using assms by (auto dest!: append_record_Some split: option.splits)

lemma items_extend: "encode_items xs d n b = Some (c, m) \<Longrightarrow> \<exists>c'. c = b @ c' \<and> (xs \<noteq> [] \<longrightarrow> c' \<noteq> [])"
proof (induction xs arbitrary: n b)
  case (Cons x xs)
  then obtain p k where p: "encode x d n = Some (p, k)" "encode_items xs d k (b @ p) = Some (c, m)"
    by (elim items_Cons)
  from Cons.IH [OF p(2)] obtain c' where "c = b @ p @ c'" by auto
  with encode_nonempty [OF p(1)] show ?case by blast
qed simp

lemma entries_Cons:
  assumes "encode_entries ((key, x) # es) d n b = Some (c, m)"
  obtains p k q j where "encode_leaf (VString key) d n = Some (p, k)" "encode x d k = Some (q, j)"
    "encode_entries es d j (b @ p @ q) = Some (c, m)"
  using assms by (auto dest!: append_record_Some split: option.splits)

lemma encode_leaf_nonempty: "encode_leaf v d n = Some (b, m) \<Longrightarrow> b \<noteq> []"
  by (auto simp: encode_leaf_def dest: pack_nonempty split: option.splits)

lemma entries_extend: "encode_entries es d n b = Some (c, m) \<Longrightarrow> \<exists>c'. c = b @ c' \<and> (es \<noteq> [] \<longrightarrow> c' \<noteq> [])"
proof (induction es arbitrary: n b)
  case (Cons e es)
  obtain key x where e: "e = (key, x)" by fastforce
  with Cons.prems obtain p k q j where p: "encode_leaf (VString key) d n = Some (p, k)" "encode x d k = Some (q, j)"
    "encode_entries es d j (b @ p @ q) = Some (c, m)"
    by (blast elim: entries_Cons)
  from Cons.IH [OF p(3)] obtain c' where "c = b @ p @ q @ c'" by auto
  with encode_leaf_nonempty [OF p(1)] show ?case by blast
qed simp

text \<open>A value is read back from what follows it.\<close>

definition readable :: "goval \<Rightarrow> bool" where
  "readable v \<longleftrightarrow> (\<forall>d n b m w d' n' c m' r r'.
     encode v d n = Some (b, m) \<and> encode w d' n' = Some (c, m') \<and> b @ r = c @ r' \<longrightarrow> v = w \<and> r = r')"

lemma readableD: "readable v \<Longrightarrow> encode v d n = Some (b, m) \<Longrightarrow> encode w d' n' = Some (c, m') \<Longrightarrow> b @ r = c @ r' \<Longrightarrow> v = w \<and> r = r'"
  unfolding readable_def by blast

lemma items_readback:
  "\<forall>x \<in> set xs. readable x \<Longrightarrow> encode_items xs d n b = Some (b @ p, m) \<Longrightarrow> encode_items ys d' n' c = Some (c @ p, m') \<Longrightarrow> xs = ys"
proof (induction xs arbitrary: ys n n' b c p)
  case Nil
  with items_extend [OF Nil(3)] show ?case by auto
next
  case (Cons x xs)
  from Cons.prems(2) obtain q k where x: "encode x d n = Some (q, k)" "encode_items xs d k (b @ q) = Some (b @ p, m)"
    by (elim items_Cons)
  from items_extend [OF x(2)] obtain p1 where p1: "p = q @ p1" by auto
  with encode_nonempty [OF x(1)] Cons.prems(3) obtain y zs where ys: "ys = y # zs" by (cases ys) auto
  with Cons.prems(3) obtain q' k' where y: "encode y d' n' = Some (q', k')" "encode_items zs d' k' (c @ q') = Some (c @ p, m')"
    by (blast elim: items_Cons)
  from items_extend [OF y(2)] obtain p2 where p2: "p = q' @ p2" by auto
  have "q @ p1 = q' @ p2" using p1 p2 by simp
  from readableD [OF _ x(1) y(1) this] Cons.prems(1) have "x = y" "p1 = p2" by simp_all
  moreover from this p1 p2 have "q = q'" by simp
  ultimately have "xs = zs"
    using Cons.IH [of k "b @ q" p1 zs k' "c @ q'"] Cons.prems(1) x(2) y(2) p1 by simp
  with \<open>x = y\<close> ys show ?case by simp
qed

lemma entries_readback:
  "\<forall>e \<in> set es. readable (snd e) \<Longrightarrow> encode_entries es d n b = Some (b @ p, m) \<Longrightarrow> encode_entries fs d' n' c = Some (c @ p, m') \<Longrightarrow> es = fs"
proof (induction es arbitrary: fs n n' b c p)
  case Nil
  with entries_extend [OF Nil(3)] show ?case by auto
next
  case (Cons e es)
  obtain key x where e: "e = (key, x)" by fastforce
  with Cons.prems(2) obtain q1 k1 q2 k2 where x: "encode_leaf (VString key) d n = Some (q1, k1)" "encode x d k1 = Some (q2, k2)"
    "encode_entries es d k2 (b @ q1 @ q2) = Some (b @ p, m)"
    by (blast elim: entries_Cons)
  from entries_extend [OF x(3)] obtain p1 where p1: "p = q1 @ q2 @ p1" by auto
  with encode_leaf_nonempty [OF x(1)] Cons.prems(3) obtain f gs where "fs = f # gs" by (cases fs) auto
  then obtain key' y where fs: "fs = (key', y) # gs" by (cases f) auto
  with Cons.prems(3) obtain r1 j1 r2 j2 where y: "encode_leaf (VString key') d' n' = Some (r1, j1)" "encode y d' j1 = Some (r2, j2)"
    "encode_entries gs d' j2 (c @ r1 @ r2) = Some (c @ p, m')"
    by (blast elim: entries_Cons)
  from entries_extend [OF y(3)] obtain p2 where p2: "p = r1 @ r2 @ p2" by auto
  have "q1 @ (q2 @ p1) = r1 @ (r2 @ p2)" using p1 p2 by simp
  from encode_leaf_readback [OF x(1) y(1) this] have k: "key = key'" "q1 = r1" "q2 @ p1 = r2 @ p2" by simp_all
  from readableD [OF _ x(2) y(2) k(3)] Cons.prems(1) e have "x = y" "p1 = p2" by simp_all
  moreover from this k have "q2 = r2" by simp
  ultimately have "es = gs"
    using Cons.IH [of k2 "b @ q1 @ q2" p1 gs j2 "c @ r1 @ r2"] Cons.prems(1) x(3) y(3) p1 k by simp
  with \<open>x = y\<close> k fs e show ?case by simp
qed

lemma encode_container:
  assumes "encode v d n = Some (b, m)"
  shows "\<exists>t p. pack t p = Some b \<and> t \<in> set record_tags \<and>
     (case v of VList (Some xs) \<Rightarrow> t = ''list'' \<and> (\<exists>k k'. encode_items xs (d + 1) k [] = Some (p, k'))
      | VMap (Some es) \<Rightarrow> t = ''map'' \<and> (\<exists>k k'. encode_entries es (d + 1) k [] = Some (p, k'))
      | _ \<Rightarrow> t \<noteq> ''list'' \<and> t \<noteq> ''map'' \<and> leaf_record v = Some (t, p))"
proof -
  consider xs where "v = VList (Some xs)" | es where "v = VMap (Some es)"
    | "\<And>xs. v \<noteq> VList (Some xs)" "\<And>es. v \<noteq> VMap (Some es)"
    by blast
  then show ?thesis
  proof cases
    case 1
    with encode_list assms show ?thesis by fastforce
  next
    case 2
    with encode_map assms show ?thesis by fastforce
  next
    case 3
    from encode_leafless [OF 3 assms] 3 show ?thesis
      by (cases v) (auto split: option.splits)
  qed
qed

lemma readableI:
  assumes "\<And>xs x. v = VList (Some xs) \<Longrightarrow> x \<in> set xs \<Longrightarrow> readable x"
    and "\<And>es e. v = VMap (Some es) \<Longrightarrow> e \<in> set es \<Longrightarrow> readable (snd e)"
  shows "readable v"
  unfolding readable_def
proof (intro allI impI)
  fix d n b m w d' n' c m' r r'
  assume same: "encode v d n = Some (b, m) \<and> encode w d' n' = Some (c, m') \<and> b @ r = c @ r'"
  from encode_container [of v d n b m] same obtain t p where v: "pack t p = Some b" "t \<in> set record_tags"
    "case v of VList (Some xs) \<Rightarrow> t = ''list'' \<and> (\<exists>k k'. encode_items xs (d + 1) k [] = Some (p, k'))
      | VMap (Some es) \<Rightarrow> t = ''map'' \<and> (\<exists>k k'. encode_entries es (d + 1) k [] = Some (p, k'))
      | _ \<Rightarrow> t \<noteq> ''list'' \<and> t \<noteq> ''map'' \<and> leaf_record v = Some (t, p)"
    by blast
  from encode_container [of w d' n' c m'] same obtain u q where w: "pack u q = Some c" "u \<in> set record_tags"
    "case w of VList (Some xs) \<Rightarrow> u = ''list'' \<and> (\<exists>k k'. encode_items xs (d' + 1) k [] = Some (q, k'))
      | VMap (Some es) \<Rightarrow> u = ''map'' \<and> (\<exists>k k'. encode_entries es (d' + 1) k [] = Some (q, k'))
      | _ \<Rightarrow> u \<noteq> ''list'' \<and> u \<noteq> ''map'' \<and> leaf_record w = Some (u, q)"
    by blast
  from pack_readback [OF v(1) w(1) v(2) w(2)] same have same: "u = t" "q = p" "r = r'" by auto
  have "v = w"
  proof (cases "t = ''list''")
    case True
    obtain xs where xs: "v = VList (Some xs)" "\<exists>k k'. encode_items xs (d + 1) k [] = Some (p, k')"
      using v(3) True by (cases v) (auto split: option.splits)
    obtain ys where ys: "w = VList (Some ys)" "\<exists>k k'. encode_items ys (d' + 1) k [] = Some (p, k')"
      using w(3) True same by (cases w) (auto split: option.splits)
    from xs ys assms(1) [OF xs(1)] items_readback [of xs "d + 1" _ "[]" p _ ys "d' + 1" _ "[]"] show ?thesis by auto
  next
    case list: False
    show ?thesis
    proof (cases "t = ''map''")
      case True
      obtain es where es: "v = VMap (Some es)" "\<exists>k k'. encode_entries es (d + 1) k [] = Some (p, k')"
        using v(3) True by (cases v) (auto split: option.splits)
      obtain fs where fs: "w = VMap (Some fs)" "\<exists>k k'. encode_entries fs (d' + 1) k [] = Some (p, k')"
        using w(3) True same by (cases w) (auto split: option.splits)
      from es fs assms(2) [OF es(1)] entries_readback [of es "d + 1" _ "[]" p _ fs "d' + 1" _ "[]"] show ?thesis by auto
    next
      case False
      with list v(3) w(3) same have "leaf_record v = Some (t, p)" "leaf_record w = Some (t, p)"
        by (auto split: goval.splits option.splits)
      then show ?thesis by (rule leaf_inject)
    qed
  qed
  with same show "v = w \<and> r = r'" by simp
qed

lemma readable: "readable v"
proof (induction v rule: measure_induct_rule [where f = size])
  case (less v)
  show ?case
  proof (rule readableI)
    fix xs x assume "v = VList (Some xs)" "x \<in> set xs"
    moreover from this(2) have "size x \<le> size_list size xs"
      by (rule size_list_estimation') simp
    ultimately show "readable x" by (intro less.IH) simp
  next
    fix es e assume "v = VMap (Some es)" "e \<in> set es"
    moreover from this(2) have "size (snd e) \<le> size_list (\<lambda>p. size_prod (\<lambda>x. 0) size p) es"
      by (rule size_list_estimation') (cases e, simp)
    ultimately show "readable (snd e)" by (intro less.IH) simp
  qed
qed

lemma encode_inject: "encode v d n = Some (b, m) \<Longrightarrow> encode w d' n' = Some (b, m') \<Longrightarrow> v = w"
  using readableD [OF readable, of v d n b m w d' n' b m' "[]" "[]"] by simp

lemma Canonical_inject: "Canonical v = Some b \<Longrightarrow> Canonical w = Some b \<Longrightarrow> sorted_maps v = sorted_maps w"
  by (auto simp: Canonical_def intro: encode_inject)

section \<open>Snapshots\<close>

record identity_material =
  im_Dialect :: gostring
  im_Target :: gostring
  im_Operation :: gostring
  im_SQL :: gostring
  im_Shape :: goval
  im_Args :: "goval list option"
  im_Tenant :: goval
  im_TenantPresent :: bool
  im_Policy :: goval
  im_Schema :: goval
  im_Config :: goval

record identity_snapshot =
  is_shape :: gostring
  is_execution :: gostring
  is_policy :: gostring
  is_schema :: gostring
  is_config :: gostring

definition shape_value :: "identity_material \<Rightarrow> goval" where
  [go_eval]: "shape_value m =
     VList (Some [VString ''goquent/shape'', VInt64 1, VString (im_Dialect m), VString (im_Operation m), im_Shape m])"

definition execution_value :: "identity_material \<Rightarrow> gostring \<Rightarrow> goval" where
  [go_eval]: "execution_value m shape =
     VList (Some [VString (im_Dialect m), VString (im_Target m), VString (im_Operation m), VString (im_SQL m),
       VBytes (Some shape), VList (im_Args m), VBool (im_TenantPresent m), im_Tenant m])"

definition domain_value :: "gostring \<Rightarrow> goval \<Rightarrow> goval" where
  [go_eval]: "domain_value domain v = VList (Some [VString domain, VInt64 1, v])"

definition identity_unavailable :: "identity_material \<Rightarrow> bool" where
  [go_eval]: "identity_unavailable m \<longleftrightarrow>
     im_Target m = [] \<or> im_Dialect m \<noteq> ''mysql'' \<and> im_Dialect m \<noteq> ''postgres'' \<or> im_Operation m = [] \<or> im_SQL m = [] \<or>
     im_Shape m = VNil \<or> im_Policy m = VNil \<or> im_Schema m = VNil \<or> im_Config m = VNil \<or> \<not> im_TenantPresent m"

definition SealIdentity :: "identity_material \<Rightarrow> identity_snapshot option" where
  [go_eval]: "SealIdentity m =
     (if identity_unavailable m then None
      else case Canonical (shape_value m) of
        None \<Rightarrow> None
      | Some shape \<Rightarrow>
          (case Canonical (execution_value m shape) of
             None \<Rightarrow> None
           | Some execution \<Rightarrow>
               (case (Canonical (domain_value ''goquent/policy'' (im_Policy m)), Canonical (domain_value ''goquent/schema'' (im_Schema m)),
                      Canonical (domain_value ''goquent/config'' (im_Config m))) of
                  (Some policy, Some schema, Some config) \<Rightarrow>
                    Some \<lparr>is_shape = shape, is_execution = execution, is_policy = policy, is_schema = schema, is_config = config\<rparr>
                | _ \<Rightarrow> None)))"

definition snapshot_equal :: "identity_snapshot option \<Rightarrow> identity_snapshot option \<Rightarrow> bool" where
  [go_eval]: "snapshot_equal s other =
     (case (s, other) of (Some a, Some b) \<Rightarrow> a = b | _ \<Rightarrow> False)"

definition same_statement :: "identity_material \<Rightarrow> identity_material \<Rightarrow> bool" where
  "same_statement m m' \<longleftrightarrow>
    im_Dialect m = im_Dialect m' \<and> im_Target m = im_Target m' \<and> im_Operation m = im_Operation m' \<and> im_SQL m = im_SQL m' \<and>
    map_option (map sorted_maps) (im_Args m) = map_option (map sorted_maps) (im_Args m') \<and>
    sorted_maps (im_Tenant m) = sorted_maps (im_Tenant m') \<and> sorted_maps (im_Shape m) = sorted_maps (im_Shape m') \<and>
    sorted_maps (im_Policy m) = sorted_maps (im_Policy m') \<and> sorted_maps (im_Schema m) = sorted_maps (im_Schema m') \<and>
    sorted_maps (im_Config m) = sorted_maps (im_Config m')"

lemma snapshot_equal_material:
  assumes "snapshot_equal (SealIdentity m) (SealIdentity m')"
  shows "same_statement m m'"
proof -
  from assms obtain s where s: "SealIdentity m = Some s" "SealIdentity m' = Some s"
    by (auto simp: snapshot_equal_def split: option.splits)
  have parts: "Canonical (shape_value x) = Some (is_shape s) \<and> Canonical (execution_value x (is_shape s)) = Some (is_execution s) \<and>
      Canonical (domain_value ''goquent/policy'' (im_Policy x)) = Some (is_policy s) \<and>
      Canonical (domain_value ''goquent/schema'' (im_Schema x)) = Some (is_schema s) \<and>
      Canonical (domain_value ''goquent/config'' (im_Config x)) = Some (is_config s)"
    if "SealIdentity x = Some s" for x
    using that by (auto simp: SealIdentity_def split: if_splits option.splits)
  note a = parts [OF s(1)] and b = parts [OF s(2)]
  have "sorted_maps (shape_value m) = sorted_maps (shape_value m')"
    "sorted_maps (execution_value m (is_shape s)) = sorted_maps (execution_value m' (is_shape s))"
    "sorted_maps (domain_value ''goquent/policy'' (im_Policy m)) = sorted_maps (domain_value ''goquent/policy'' (im_Policy m'))"
    "sorted_maps (domain_value ''goquent/schema'' (im_Schema m)) = sorted_maps (domain_value ''goquent/schema'' (im_Schema m'))"
    "sorted_maps (domain_value ''goquent/config'' (im_Config m)) = sorted_maps (domain_value ''goquent/config'' (im_Config m'))"
    using a b Canonical_inject by blast+
  then show ?thesis
    by (cases "im_Args m"; cases "im_Args m'") (simp_all add: shape_value_def execution_value_def domain_value_def same_statement_def)
qed

section \<open>Properties\<close>

text \<open>
  C28: The canonical encoding is injective: values with the same encoding are the same value with the entries of its maps in
  the same order of keys, whatever bytes their strings contain; integers of different widths, bytes and strings, nil and
  empty containers all stay apart.
\<close>

theorem canonical_encoding_injective:
  assumes "Canonical v = Some b" "Canonical w = Some b"
  shows "sorted_maps v = sorted_maps w"
  using Canonical_inject [OF assms] .

text \<open>
  C29: Two statements have equal private identities only if dialect, target, operation, SQL text, arguments, tenant, policy,
  schema and configuration are all equal: an authorization or a binding is never carried over to another statement.
\<close>

theorem equal_identity_same_statement:
  assumes "snapshot_equal (SealIdentity m) (SealIdentity m')"
  shows "im_Dialect m = im_Dialect m' \<and> im_Target m = im_Target m' \<and> im_Operation m = im_Operation m' \<and> im_SQL m = im_SQL m' \<and>
    map_option (map sorted_maps) (im_Args m) = map_option (map sorted_maps) (im_Args m') \<and>
    sorted_maps (im_Tenant m) = sorted_maps (im_Tenant m') \<and> sorted_maps (im_Shape m) = sorted_maps (im_Shape m') \<and>
    sorted_maps (im_Policy m) = sorted_maps (im_Policy m') \<and> sorted_maps (im_Schema m) = sorted_maps (im_Schema m') \<and>
    sorted_maps (im_Config m) = sorted_maps (im_Config m')"
  using snapshot_equal_material [OF assms] unfolding same_statement_def .

lemma small_numbers: "nat_str 0 = ''0''" "nat_str 1 = ''1''" "nat_str (Suc 0) = ''1''" "int_str 1 = ''1''"
  by code_simp+

lemma two_digits [simplified]: "nat_str (length ''abcdefghijklmnopqrstuvwxyz'') = ''26''"
  by code_simp

lemma sample_texts: "valid_utf8 ''a''" "valid_utf8 ''b''"
  by code_simp+

theorem canonical_encoding_injective_witness:
  "sorted_maps (VMap (Some [(''b'', VInt 1), (''a'', VNil)])) = sorted_maps (VMap (Some [(''a'', VNil), (''b'', VInt 1)]))"
proof (rule canonical_encoding_injective)
  show "Canonical (VMap (Some [(''b'', VInt 1), (''a'', VNil)])) = Some ''map26:str1:anull0:str1:bint641:1''"
    "Canonical (VMap (Some [(''a'', VNil), (''b'', VInt 1)])) = Some ''map26:str1:anull0:str1:bint641:1''"
    by (simp_all add: Canonical_def visit_def identity_depth_def identity_slots_def identity_bytes_def encode_leaf_def pack_def
        append_record_def small_numbers sample_texts
        two_digits)
qed

definition sample_material :: identity_material where
  "sample_material =
     \<lparr>im_Dialect = ''mysql'', im_Target = ''a'', im_Operation = ''b'', im_SQL = ''b'', im_Shape = VInt 1, im_Args = None,
      im_Tenant = VInt 1, im_TenantPresent = True, im_Policy = VInt 1, im_Schema = VInt 1, im_Config = VInt 1\<rparr>"

lemma sample_material_sealed: "SealIdentity sample_material \<noteq> None"
proof -
  have "valid_utf8 ''goquent/shape''" "valid_utf8 ''goquent/policy''" "valid_utf8 ''goquent/schema''" "valid_utf8 ''goquent/config''"
    "valid_utf8 ''mysql''"
    by code_simp+
  then show ?thesis
    by (simp add: SealIdentity_def sample_material_def identity_unavailable_def shape_value_def execution_value_def domain_value_def
        Canonical_def visit_def identity_depth_def identity_slots_def identity_bytes_def encode_leaf_def pack_def
        append_record_def small_numbers sample_texts nat_str.simps)
qed

lemma canonical_null: "Canonical VNil = Some ''null0:''"
  by (simp add: Canonical_def visit_def identity_depth_def identity_slots_def identity_bytes_def encode_leaf_def pack_def small_numbers)

theorem equal_identity_same_statement_witness:
  "SealIdentity sample_material \<noteq> None \<and> im_SQL sample_material = im_SQL (sample_material\<lparr>im_Target := ''a''\<rparr>)"
proof -
  have "sample_material\<lparr>im_Target := ''a''\<rparr> = sample_material"
    by (simp add: sample_material_def)
  with sample_material_sealed have "snapshot_equal (SealIdentity sample_material) (SealIdentity (sample_material\<lparr>im_Target := ''a''\<rparr>))"
    by (auto simp: snapshot_equal_def split: option.splits)
  from equal_identity_same_statement [OF this] sample_material_sealed show ?thesis by blast
qed

end
