(* ===== verification/Authorization.thy ===== *)
theory Authorization
  imports PlanIdentity
begin

text \<open>
  Requests to an external authority and the decisions on them (\<^verbatim>\<open>orm/query/authorization.go\<close> and
  \<^verbatim>\<open>authorization_execution.go\<close>).  What the code compares by pointer is a number; a context carries its identity, whether it is
  cancelled at an instant and its deadline.  The zero time is \<^term>\<open>None\<close>.  The provider is the application's.
\<close>

section \<open>Material\<close>

record go_context =
  cx_id :: nat
  cx_comparable :: bool
  cx_nil :: bool
  cx_done :: "int \<Rightarrow> bool"
  cx_deadline :: "int option"

record binding_input =
  bi_Scope :: gostring
  bi_Generation :: gostring
  bi_Target :: gostring
  bi_Dialect :: gostring
  bi_Key :: gostring

text \<open>An executor is its identity and whether its value can be compared.\<close>

record authorization_material =
  am_config :: "nat option"
  am_owner :: "nat option"
  am_executor :: "(nat \<times> bool) option"
  am_ctx :: "go_context option"
  am_queryContext :: "go_context option"
  am_binding :: "binding_input option"
  am_snapshot :: "identity_snapshot option"
  am_settings :: gostring
  am_operation :: gostring
  am_inspection :: gostring
  am_family :: gostring
  am_tenant :: goval
  am_tenantPresent :: bool
  am_ceiling :: "int option"

record authorization_request =
  ar_id :: nat
  ar_material :: authorization_material

record authorization_decision =
  ad_request :: "nat option"
  ad_status :: nat
  ad_expires :: "int option"

datatype authorization_error =
    AuthorizationMissing
  | AuthorizationDenied
  | AuthorizationProvider
  | AuthorizationInvalid
  | AuthorizationMismatch
  | AuthorizationExpired
  | AuthorizationCanceled

definition AllowUntil :: "authorization_request \<Rightarrow> int option \<Rightarrow> authorization_decision" where
  [go_eval]: "AllowUntil r e = \<lparr>ad_request = Some (ar_id r), ad_status = 1, ad_expires = e\<rparr>"

definition Deny :: "authorization_request \<Rightarrow> authorization_decision" where
  [go_eval]: "Deny r = \<lparr>ad_request = Some (ar_id r), ad_status = 2, ad_expires = None\<rparr>"

section \<open>Validity\<close>

definition bindingSame :: "(nat \<times> bool) option \<Rightarrow> (nat \<times> bool) option \<Rightarrow> bool" where
  [go_eval]: "bindingSame a b =
     (case (a, b) of
        (None, None) \<Rightarrow> True
      | (Some (x, cx), Some (y, cy)) \<Rightarrow> cx \<and> cy \<and> x = y
      | _ \<Rightarrow> False)"

definition context_value :: "go_context option \<Rightarrow> (nat \<times> bool) option" where
  [go_eval]: "context_value c = map_option (\<lambda>c. (cx_id c, cx_comparable c)) c"

definition bindingContextEqual :: "binding_input option \<Rightarrow> binding_input option \<Rightarrow> bool" where
  [go_eval]: "bindingContextEqual a b =
     (case (a, b) of
        (Some x, Some y) \<Rightarrow> bi_Scope x = bi_Scope y \<and> bi_Generation x = bi_Generation y \<and> bi_Target x = bi_Target y \<and>
          bi_Dialect x = bi_Dialect y \<and> bi_Key x = bi_Key y
      | _ \<Rightarrow> False)"

definition bindingDeadline :: "int option \<Rightarrow> int option \<Rightarrow> int option" where
  [go_eval]: "bindingDeadline explicit appr =
     (case appr of
        None \<Rightarrow> explicit
      | Some a \<Rightarrow> (case explicit of None \<Rightarrow> None | Some x \<Rightarrow> if a < x then Some a else explicit))"

definition authorizationContext :: "go_context option \<Rightarrow> int \<Rightarrow> authorization_error option" where
  [go_eval]: "authorizationContext ctx now =
     (case ctx of
        None \<Rightarrow> None
      | Some c \<Rightarrow>
          if \<not> cx_comparable c \<or> cx_nil c then Some AuthorizationInvalid
          else if cx_done c now then Some AuthorizationCanceled
          else None)"

definition families :: "gostring list" where
  [go_eval]: "families = [''select'', ''count'', ''insert'', ''batch'', ''update'', ''delete'']"

definition authorizationValid :: "authorization_material \<Rightarrow> int \<Rightarrow> authorization_error option" where
  [go_eval]: "authorizationValid m now =
     (if am_config m = None then Some AuthorizationMissing
      else if am_owner m = None \<or> am_executor m = None \<or> am_binding m = None \<or> am_snapshot m = None \<or> am_settings m = [] \<or>
        am_operation m = [] \<or> am_inspection m = [] \<or> \<not> am_tenantPresent m then Some AuthorizationInvalid
      else if am_family m \<notin> set families then Some AuthorizationInvalid
      else case authorizationContext (am_ctx m) now of
        Some e \<Rightarrow> Some e
      | None \<Rightarrow>
          (case authorizationContext (am_queryContext m) now of
             Some e \<Rightarrow> Some e
           | None \<Rightarrow>
               (case am_ceiling m of
                  None \<Rightarrow> Some AuthorizationInvalid
                | Some t \<Rightarrow> if t \<le> now then Some AuthorizationExpired else None)))"

text \<open>The earlier of a ceiling and a context's deadline.\<close>

definition cap :: "go_context option \<Rightarrow> int \<Rightarrow> int" where
  [go_eval]: "cap ctx t = (case ctx of None \<Rightarrow> t | Some c \<Rightarrow> (case cx_deadline c of None \<Rightarrow> t | Some d \<Rightarrow> if d < t then d else t))"

definition newAuthorizationRequest :: "nat \<Rightarrow> authorization_material \<Rightarrow> int \<Rightarrow> authorization_error + authorization_request" where
  [go_eval]: "newAuthorizationRequest fresh m now =
     (case authorizationValid m now of
        Some e \<Rightarrow> Inl e
      | None \<Rightarrow>
          (case Copy new_copier (am_tenant m) of ((v, ok), _) \<Rightarrow>
             if \<not> ok then Inl AuthorizationInvalid
             else case am_ceiling m of
               None \<Rightarrow> Inl AuthorizationInvalid
             | Some t \<Rightarrow>
                 let t' = cap (am_queryContext m) (cap (am_ctx m) t)
                 in if t' \<le> now then Inl AuthorizationExpired
                    else Inr \<lparr>ar_id = fresh, ar_material = m\<lparr>am_tenant := v, am_ceiling := Some t'\<rparr>\<rparr>))"

definition authorizationMatches :: "authorization_material \<Rightarrow> authorization_material \<Rightarrow> bool" where
  [go_eval]: "authorizationMatches a b \<longleftrightarrow>
     am_config a = am_config b \<and> am_owner a = am_owner b \<and> bindingSame (am_executor a) (am_executor b) \<and>
     bindingSame (context_value (am_ctx a)) (context_value (am_ctx b)) \<and>
     bindingSame (context_value (am_queryContext a)) (context_value (am_queryContext b)) \<and>
     bindingContextEqual (am_binding a) (am_binding b) \<and> am_family a = am_family b \<and> am_tenantPresent a = am_tenantPresent b \<and>
     snapshot_equal (am_snapshot a) (am_snapshot b) \<and> am_settings a = am_settings b \<and> am_operation a = am_operation b \<and>
     am_inspection a = am_inspection b \<and>
     (case (Canonical (am_tenant a), Canonical (am_tenant b)) of (Some x, Some y) \<Rightarrow> x = y | _ \<Rightarrow> False)"

text \<open>A decision may not outlive a context's deadline.\<close>

definition outlives :: "int \<Rightarrow> go_context option \<Rightarrow> bool" where
  [go_eval]: "outlives e ctx =
     (case ctx of None \<Rightarrow> False | Some c \<Rightarrow> (case cx_deadline c of None \<Rightarrow> False | Some d \<Rightarrow> d < e))"

definition beyond :: "int \<Rightarrow> int option \<Rightarrow> bool" where
  [go_eval]: "beyond e t = (case t of None \<Rightarrow> True | Some c \<Rightarrow> c < e)"

definition validateAuthorization ::
  "authorization_request option \<Rightarrow> authorization_material \<Rightarrow> authorization_decision \<Rightarrow> bool \<Rightarrow> int \<Rightarrow> authorization_error option" where
  [go_eval]: "validateAuthorization req current d providerErr now =
     (case req of
        None \<Rightarrow> Some AuthorizationMissing
      | Some r \<Rightarrow>
          (case authorizationValid current now of
             Some e \<Rightarrow> Some e
           | None \<Rightarrow>
               (case authorizationValid (ar_material r) now of
                  Some e \<Rightarrow> Some e
                | None \<Rightarrow>
                    if providerErr then Some AuthorizationProvider
                    else if ad_request d = None \<or> ad_status d \<noteq> 1 \<and> ad_status d \<noteq> 2 then Some AuthorizationInvalid
                    else if ad_request d \<noteq> Some (ar_id r) \<or> \<not> authorizationMatches (ar_material r) current
                    then Some AuthorizationMismatch
                    else if ad_status d = 2 then Some AuthorizationDenied
                    else case ad_expires d of
                      None \<Rightarrow> Some AuthorizationInvalid
                    | Some e \<Rightarrow>
                        if beyond e (am_ceiling (ar_material r)) \<or> beyond e (am_ceiling current) then Some AuthorizationInvalid
                        else if outlives e (am_ctx current) \<or> outlives e (am_queryContext current) then Some AuthorizationInvalid
                        else if e \<le> now then Some AuthorizationExpired
                        else None)))"

section \<open>The check made before dispatch\<close>

text \<open>
  The binding is rebuilt from the current inputs each time the check runs: \<^term>\<open>rebuild\<close> gives its material at an instant,
  or nothing when it cannot be rebuilt.  The readings of the clock within one check are one instant.
\<close>

definition authorization_check ::
  "authorization_request \<Rightarrow> authorization_decision \<Rightarrow> authorization_material \<Rightarrow> int option \<Rightarrow> int option \<Rightarrow>
   (int \<Rightarrow> authorization_material option) \<Rightarrow> int \<Rightarrow> authorization_error option" where
  [go_eval]: "authorization_check r d m bound approved_until rebuild now =
     (case authorizationContext (am_ctx m) now of
        Some e \<Rightarrow> Some e
      | None \<Rightarrow>
          (case authorizationContext (am_queryContext m) now of
             Some e \<Rightarrow> Some e
           | None \<Rightarrow>
               if (case bound of None \<Rightarrow> True | Some t \<Rightarrow> t \<le> now) \<or> (case approved_until of None \<Rightarrow> False | Some t \<Rightarrow> t \<le> now)
               then Some AuthorizationExpired
               else case rebuild now of
                 None \<Rightarrow> Some AuthorizationMismatch
               | Some current \<Rightarrow> validateAuthorization (Some r) current d False now))"

definition authorizeBinding ::
  "nat \<Rightarrow> (authorization_request \<Rightarrow> authorization_decision option) \<Rightarrow> bool \<Rightarrow> authorization_material \<Rightarrow> int option \<Rightarrow> int option \<Rightarrow>
   (int \<Rightarrow> authorization_material option) \<Rightarrow> int \<Rightarrow> int \<Rightarrow> authorization_error + (int \<Rightarrow> authorization_error option)" where
  [go_eval]: "authorizeBinding fresh provider atomic m bound approved_until rebuild asked answered =
     (if atomic then Inl AuthorizationInvalid
      else case newAuthorizationRequest fresh m asked of
        Inl e \<Rightarrow> Inl e
      | Inr r \<Rightarrow>
          (case provider r of
             None \<Rightarrow> Inl AuthorizationProvider
           | Some d \<Rightarrow>
               let check = authorization_check r d m bound approved_until rebuild
               in case check answered of Some e \<Rightarrow> Inl e | None \<Rightarrow> Inr check))"

section \<open>What a passed check means\<close>

lemma validated:
  assumes "validateAuthorization (Some r) current d perr now = None"
  shows "authorizationValid current now = None" "ad_request d = Some (ar_id r)" "ad_status d = 1"
    "authorizationMatches (ar_material r) current"
    "\<exists>e. ad_expires d = Some e \<and> now < e \<and> \<not> beyond e (am_ceiling (ar_material r)) \<and> \<not> beyond e (am_ceiling current) \<and>
       \<not> outlives e (am_ctx current) \<and> \<not> outlives e (am_queryContext current)"
  using assms by (auto simp: validateAuthorization_def split: option.splits if_splits)

lemma new_request:
  assumes "newAuthorizationRequest fresh m now = Inr r"
  shows "ar_id r = fresh" "am_snapshot (ar_material r) = am_snapshot m" "am_owner (ar_material r) = am_owner m"
  using assms by (auto simp: newAuthorizationRequest_def Let_def split: option.splits prod.splits if_splits)

lemma snapshot_equal_sealed:
  "snapshot_equal a b \<Longrightarrow> a = SealIdentity x \<Longrightarrow> b = SealIdentity y \<Longrightarrow> same_statement x y"
  using snapshot_equal_material by blast

lemma context_running: "authorizationContext ctx now = None \<Longrightarrow> ctx = Some c \<Longrightarrow> \<not> cx_done c now"
  by (auto simp: authorizationContext_def split: if_splits)

section \<open>Properties\<close>

text \<open>
  C30: A high-risk statement passes its authorization check only while the authority's own answer to this very request allows
  it, unexpired, within every deadline, with neither context cancelled, and only if the statement rebuilt at that moment is
  the one the request was made for: the same SQL text, arguments, tenant and configuration.
\<close>

theorem authorization_bound_to_statement:
  assumes "authorizeBinding fresh provider atomic m bound approved_until rebuild asked answered = Inr check" "check now = None"
    and "am_snapshot m = SealIdentity x"
  shows "\<exists>r current e. newAuthorizationRequest fresh m asked = Inr r \<and>
    provider r = Some \<lparr>ad_request = Some fresh, ad_status = 1, ad_expires = Some e\<rparr> \<and> now < e \<and>
    rebuild now = Some current \<and> \<not> beyond e (am_ceiling current) \<and> am_owner current = am_owner m \<and>
    (\<forall>c. am_ctx m = Some c \<or> am_queryContext m = Some c \<longrightarrow> \<not> cx_done c now) \<and>
    (\<forall>y. am_snapshot current = SealIdentity y \<longrightarrow> same_statement x y)"
proof -
  obtain r d where r: "newAuthorizationRequest fresh m asked = Inr r" "provider r = Some d"
    "check = authorization_check r d m bound approved_until rebuild"
    using assms(1) by (auto simp: authorizeBinding_def Let_def split: if_splits sum.splits option.splits)
  obtain current where c: "rebuild now = Some current" "validateAuthorization (Some r) current d False now = None"
    "authorizationContext (am_ctx m) now = None" "authorizationContext (am_queryContext m) now = None"
    using assms(2) unfolding r(3) authorization_check_def by (auto split: option.splits if_splits)
  note v = validated [OF c(2)]
  from v(5) obtain e where e: "ad_expires d = Some e" "now < e" "\<not> beyond e (am_ceiling current)" by blast
  have "d = \<lparr>ad_request = Some fresh, ad_status = 1, ad_expires = Some e\<rparr>"
    using v(2,3) e(1) new_request(1) [OF r(1)] by simp
  moreover have "same_statement x y" if "am_snapshot current = SealIdentity y" for y
    using v(4) new_request(2) [OF r(1)] assms(3) that snapshot_equal_sealed by (simp add: authorizationMatches_def)
  moreover have "am_owner current = am_owner m"
    using v(4) new_request(3) [OF r(1)] by (simp add: authorizationMatches_def)
  ultimately show ?thesis
    using r(1,2) c(1) e context_running [OF c(3)] context_running [OF c(4)] by blast
qed

definition sample_authorization :: authorization_material where
  "sample_authorization =
     \<lparr>am_config = Some 1, am_owner = Some 1, am_executor = Some (1, True), am_ctx = None, am_queryContext = None,
      am_binding = Some \<lparr>bi_Scope = [], bi_Generation = [], bi_Target = [], bi_Dialect = [], bi_Key = []\<rparr>,
      am_snapshot = SealIdentity sample_material, am_settings = ''s'', am_operation = ''o'', am_inspection = ''i'',
      am_family = ''delete'', am_tenant = VNil, am_tenantPresent = True, am_ceiling = Some 100\<rparr>"

theorem authorization_bound_to_statement_witness:
  "\<exists>check. authorizeBinding 5 (\<lambda>r. Some (AllowUntil r (Some 50))) False sample_authorization (Some 90) None
      (\<lambda>t. Some sample_authorization) 10 11 = Inr check \<and> check 12 = None \<and> check 60 = Some AuthorizationExpired"
proof -
  obtain z where z: "SealIdentity sample_material = Some z"
    using sample_material_sealed by blast
  define req where "req = \<lparr>ar_id = 5, ar_material = sample_authorization\<rparr>"
  have request: "newAuthorizationRequest 5 sample_authorization 10 = Inr req"
    by (simp add: newAuthorizationRequest_def authorizationValid_def sample_authorization_def families_def authorizationContext_def z
        Copy_def copy_val.simps PredicateView.MaxDepth_def cap_def req_def)
  define check where "check = authorization_check req (AllowUntil req (Some 50)) sample_authorization (Some 90) None (\<lambda>t. Some sample_authorization)"
  have at: "check t = (if t < 50 then None else if t < 90 then Some AuthorizationExpired else check t)" for t
    by (simp add: check_def authorization_check_def validateAuthorization_def authorizationValid_def req_def AllowUntil_def
        sample_authorization_def families_def authorizationContext_def z authorizationMatches_def bindingSame_def context_value_def
        bindingContextEqual_def snapshot_equal_def canonical_null beyond_def outlives_def)
  have run: "authorizeBinding 5 (\<lambda>r. Some (AllowUntil r (Some 50))) False sample_authorization (Some 90) None
      (\<lambda>t. Some sample_authorization) 10 11 = Inr check"
    using at [of 11] by (simp add: authorizeBinding_def request check_def [symmetric] Let_def)
  moreover have "check 12 = None" "check 60 = Some AuthorizationExpired"
    using at [of 12] at [of 60] by simp_all
  moreover have "am_snapshot sample_authorization = SealIdentity sample_material"
    by (simp add: sample_authorization_def)
  ultimately show ?thesis
    using authorization_bound_to_statement [OF run] by blast
qed

end
