(* ===== verification/ExecutionPlan.thy ===== *)
theory ExecutionPlan
  imports TenantWrites Authorization
begin

text \<open>
  The private execution a plan is bound to (\<^verbatim>\<open>orm/query/execution.go\<close>): the statement and arguments that will be sent, sealed
  when the plan is finalized, the gate that was decided then, and the one-time use of it.  Attempts to execute a plan
  run concurrently: each checks the plan and then claims it with one compare-and-swap.
\<close>

section \<open>Finalizing a plan\<close>

text \<open>The part of a query that planning reads (\<^verbatim>\<open>Query\<close> in \<^verbatim>\<open>orm/query/query.go\<close>).\<close>

record query_state =
  qs_id :: nat
  qs_bindingPlanning :: bool
  qs_settings :: settings
  qs_authorized :: bool
  qs_writeKeys :: "write_key_context option"
  qs_dialect :: driver_dialect
  qs_err :: "gostring option"
  qs_approval :: "approval option"
  qs_suppressions :: "suppression list"
  qs_requiredPredicates :: "required_predicate list"
  qs_policy :: "table_policy option"
  qs_accessReason :: gostring
  qs_withDeleted :: bool
  qs_onlyDeleted :: bool
  qs_ctx :: "go_context option"
  qs_validation :: "(gostring list \<times> gostring list) option"

definition RequireApproval :: "gostring \<Rightarrow> int \<Rightarrow> query_state \<Rightarrow> query_state" where
  [go_eval]: "RequireApproval why now q =
     (let r = trim_space why
      in if r = [] then q\<lparr>qs_err := Some ''goquent: approval reason required''\<rparr>
         else q\<lparr>qs_approval := Some \<lparr>ap_Reason = r, ap_Scope = [], ap_CreatedBy = [], ap_CreatedAt = now, ap_ExpiresAt = None\<rparr>\<rparr>)"

fun RequirePredicates :: "required_predicate list \<Rightarrow> query_state \<Rightarrow> query_state" where
  "RequirePredicates [] q = q"
| "RequirePredicates (r # rs) q =
     (if qs_err q \<noteq> None then q
      else let r' = \<lparr>rp_Table = trim_space (rp_Table r), rp_Column = trim_space (rp_Column r)\<rparr>
        in if rp_Column r' = [] then q\<lparr>qs_err := Some ''goquent: required predicate column is required''\<rparr>
           else RequirePredicates rs (q\<lparr>qs_requiredPredicates := qs_requiredPredicates q @ [r']\<rparr>))"

definition AccessReason :: "gostring \<Rightarrow> query_state \<Rightarrow> query_state" where
  [go_eval]: "AccessReason why q =
     (let r = trim_space why
      in if r = [] then q\<lparr>qs_err := Some ''goquent: access reason required''\<rparr> else q\<lparr>qs_accessReason := r\<rparr>)"

definition WithDeleted :: "query_state \<Rightarrow> query_state" where
  [go_eval]: "WithDeleted q = q\<lparr>qs_withDeleted := True, qs_onlyDeleted := False\<rparr>"

definition OnlyDeleted :: "query_state \<Rightarrow> query_state" where
  [go_eval]: "OnlyDeleted q = q\<lparr>qs_onlyDeleted := True, qs_withDeleted := False\<rparr>"

definition put_meta :: "gostring \<Rightarrow> meta_value \<Rightarrow> (gostring \<rightharpoonup> meta_value) \<Rightarrow> (gostring \<rightharpoonup> meta_value)" where
  [go_eval]: "put_meta k v m = m(k \<mapsto> v)"

definition applyPolicyMetadata :: "query_state \<Rightarrow> query_plan \<Rightarrow> query_plan" where
  [go_eval]: "applyPolicyMetadata q plan =
     (let m = (case Metadata plan of None \<Rightarrow> Map.empty | Some m \<Rightarrow> m);
          m = (if qs_accessReason q \<noteq> [] then put_meta ''access_reason'' (MetaString (qs_accessReason q)) m else m);
          m = (if qs_requiredPredicates q \<noteq> []
               then put_meta ''required_predicates'' (MetaRequired (qs_requiredPredicates q)) m else m);
          m = (case qs_policy q of
                 None \<Rightarrow> m
               | Some p \<Rightarrow>
                   let m = put_meta ''policy_table'' (MetaString (pol_Table p)) m
                   in if qs_withDeleted q then put_meta ''soft_delete'' (MetaString ''with_deleted'') m
                      else if qs_onlyDeleted q then put_meta ''soft_delete'' (MetaString ''only_deleted'') m
                      else if pol_SoftDeleteColumn p \<noteq> [] then put_meta ''soft_delete'' (MetaString ''default'') m
                      else m)
      in plan\<lparr>Metadata := Some m\<rparr>)"

text \<open>Warnings of a typed operation's validation (\<^verbatim>\<open>operation_internal.go\<close>): codes, and what could not be verified.\<close>

fun validation_warnings :: "gostring list \<Rightarrow> warning list \<Rightarrow> warning list" where
  "validation_warnings [] ws = ws"
| "validation_warnings (code # codes) ws =
     validation_warnings codes
       (if \<exists>w \<in> set ws. wn_Code w = code then ws
        else ws @ [newWarning code
               (if code = ''MANIFEST_STALE'' \<or> code = ''OPERATION_SPEC_REQUIRED_FILTER_MISSING'' then RiskHigh else RiskMedium)
               ''operation validation warning'' [] False False])"

definition finalizeOperation :: "query_state \<Rightarrow> query_plan \<Rightarrow> query_plan" where
  [go_eval]: "finalizeOperation q p =
     (case qs_validation q of
        None \<Rightarrow> p
      | Some (codes, unknown) \<Rightarrow>
          let p = p\<lparr>Warnings := validation_warnings codes (Warnings p)\<rparr>;
              p = (if unknown = [] then p
                   else p\<lparr>Unverified := Some (items (Unverified p) @ unknown), Precision := AnalysisPartial,
                     Warnings := Warnings p @ [newWarning ''OPERATION_TYPE_UNVERIFIED'' RiskBlocked
                       ''operation type verification is incomplete'' [] False False]\<rparr>)
          in case aggregateWarnings (Warnings p) of (level, blocked) \<Rightarrow>
            let risk = (if riskRank level > riskRank (RiskLevel p) then level else RiskLevel p)
            in p\<lparr>RiskLevel := risk, Blocked := (Blocked p \<or> blocked), RequiredApproval := requiresApprovalLevel risk\<rparr>)"

section \<open>Sealing\<close>

datatype run_error =
    Refused exec_error
  | Unauthorized authorization_error
  | ContextDone
  | BindingExpired

record planned_execution =
  px_authorizationRequired :: bool
  px_authorizationCheck :: "(int \<Rightarrow> authorization_error option) option"
  px_bindingExpires :: "int option"
  px_owner :: nat
  px_ctx :: "go_context option"
  px_sql :: gostring
  px_args :: "goval list option"
  px_inspection :: query_plan
  px_gate :: "run_error option"
  px_expires :: "int option"
  px_used :: bool

text \<open>The inspection copy: detached trees and values, fresh slices, a map that is never nil.\<close>

definition inspection_copy :: "query_plan \<Rightarrow> query_plan" where
  [go_eval]: "inspection_copy p =
     p\<lparr>Params := fst (Slice new_copier (Params p)), Tables := fresh_slice (Tables p), Columns := fresh_slice (Columns p),
       PlanJoins := map_option (map (\<lambda>j. j\<lparr>jr_OnTree := detach_tree (jr_OnTree j)\<rparr>)) (fresh_slice (PlanJoins p)),
       WhereTree := detach_tree (WhereTree p), HavingTree := detach_tree (HavingTree p), Predicates := fresh_slice (Predicates p),
       Unverified := fresh_slice (Unverified p),
       Metadata := Some (case Metadata p of None \<Rightarrow> Map.empty | Some m \<Rightarrow> m)\<rparr>"

definition sealed_gate :: "query_state \<Rightarrow> query_plan \<Rightarrow> int \<Rightarrow> bool \<times> run_error option \<times> query_plan" where
  [go_eval]: "sealed_gate q p now =
     (let gate = map_option Refused (ensurePlanExecutable p now)
      in if \<not> st_strict (qs_settings q) \<and> \<not> qs_authorized q then (False, gate, p)
         else case CheckQuery no_risk_config p of (p1, base) \<Rightarrow>
           case CheckQuery (st_risk (qs_settings q)) p1 of (p2, configured) \<Rightarrow>
             let required = requiresApprovalLevel (rk_Level base) \<or> requiresApprovalLevel (rk_Level configured)
             in (required,
                 if rk_Blocked base \<or> rk_Blocked configured then Some (Refused (BlockedOperation []))
                 else if gate = None \<and> required \<and> \<not> qs_bindingPlanning q then Some (Unauthorized AuthorizationMissing)
                 else gate, p2))"

definition sealExecution :: "query_state \<Rightarrow> query_plan \<Rightarrow> int \<Rightarrow> query_plan \<times> planned_execution" where
  [go_eval]: "sealExecution q p now =
     (case sealed_gate q p now of (required, gate, p') \<Rightarrow>
        (p', \<lparr>px_authorizationRequired = required, px_authorizationCheck = None, px_bindingExpires = None, px_owner = qs_id q,
              px_ctx = qs_ctx q, px_sql = SQL p, px_args = fst (Slice new_copier (Params p)), px_inspection = inspection_copy p',
              px_gate = gate,
              px_expires = (if RequiredApproval p' then (case PlanApproval p' of Some a \<Rightarrow> ap_ExpiresAt a | None \<Rightarrow> None) else None),
              px_used = False\<rparr>))"

definition finalizePlan :: "query_state \<Rightarrow> query_plan \<Rightarrow> int \<Rightarrow> query_plan \<times> planned_execution" where
  [go_eval]: "finalizePlan q plan now =
     (let p = applyPolicyMetadata q plan;
          p = sealWriteEvidence (qs_dialect q) (qs_writeKeys q) p;
          p = finalizePlanWithSettings p (qs_approval q) (qs_suppressions q) (qs_policy q) (qs_settings q) now;
          p = finalizeTenantPolicy (qs_settings q) (qs_dialect q) (qs_bindingPlanning q) p;
          p = finalizeOperation q p
      in case sealExecution q p now of (p, e) \<Rightarrow>
        if qs_bindingPlanning q \<and> px_authorizationRequired e
        then (p\<lparr>Blocked := True, RiskLevel := RiskBlocked,
                Warnings := Warnings p @ [newWarning ''EXTERNAL_AUTHORIZATION_REQUIRED'' RiskBlocked
                  ''external authorization pending'' [] False False]\<rparr>, e)
        else (p, e))"

section \<open>Use\<close>

abbreviation blocked_text :: "gostring \<Rightarrow> run_error" where
  "blocked_text m \<equiv> Refused (BlockedOperation m)"

text \<open>The clock is read for the authorization, for the binding and for the approval, in this order.\<close>

definition checkExecution :: "nat \<Rightarrow> planned_execution option \<Rightarrow> int \<Rightarrow> int \<Rightarrow> int \<Rightarrow> run_error option" where
  [go_eval]: "checkExecution q plan t1 t2 t3 =
     (case plan of
        None \<Rightarrow> Some (blocked_text ''missing private execution plan'')
      | Some e \<Rightarrow>
          if px_owner e \<noteq> q then Some (blocked_text ''missing private execution plan'')
          else if px_gate e \<noteq> None then px_gate e
          else case (if px_authorizationRequired e
                     then (case px_authorizationCheck e of
                             None \<Rightarrow> Some AuthorizationMissing
                           | Some check \<Rightarrow> check t1)
                     else None) of
            Some err \<Rightarrow> Some (Unauthorized err)
          | None \<Rightarrow>
              if (case px_ctx e of None \<Rightarrow> False | Some c \<Rightarrow> cx_done c t1) then Some ContextDone
              else if (case px_bindingExpires e of None \<Rightarrow> False | Some t \<Rightarrow> t \<le> t2) then Some BindingExpired
              else if (case px_expires e of None \<Rightarrow> False | Some t \<Rightarrow> t \<le> t3)
              then Some (Refused (ApprovalRequired ''approval expired''))
              else if px_used e then Some (blocked_text ''execution plan already consumed'')
              else None)"

text \<open>The compare-and-swap that claims the plan.\<close>

definition claim :: "planned_execution \<Rightarrow> run_error option \<times> planned_execution" where
  [go_eval]: "claim e =
     (if px_used e then (Some (blocked_text ''execution plan already consumed''), e) else (None, e\<lparr>px_used := True\<rparr>))"

definition bindExecution :: "nat \<Rightarrow> planned_execution option \<Rightarrow> int \<Rightarrow> int \<Rightarrow> int \<Rightarrow> (run_error + planned_execution) \<times> planned_execution option" where
  [go_eval]: "bindExecution q plan t1 t2 t3 =
     (case checkExecution q plan t1 t2 t3 of
        Some err \<Rightarrow> (Inl err, plan)
      | None \<Rightarrow>
          (case plan of
             None \<Rightarrow> (Inl (blocked_text ''missing private execution plan''), None)
           | Some e \<Rightarrow> (case claim e of (Some err, e') \<Rightarrow> (Inl err, Some e') | (None, e') \<Rightarrow> (Inr e', Some e'))))"

section \<open>Concurrent attempts\<close>

text \<open>
  Several goroutines try to execute the same plan while the application may edit the public plan.  An attempt checks the
  plan, claims it, and sends the sealed statement; the steps of different attempts interleave in any order.
\<close>

datatype attempt = Ready | Checked | Claimed | Sent | Rejected run_error

record run_state =
  rs_plan :: planned_execution
  rs_public :: query_plan
  rs_attempts :: "attempt list"
  rs_sent :: "(gostring \<times> goval list option) list"

definition set_attempt :: "nat \<Rightarrow> attempt \<Rightarrow> run_state \<Rightarrow> run_state" where
  [go_eval]: "set_attempt a x s = s\<lparr>rs_attempts := (rs_attempts s)[a := x]\<rparr>"

inductive run_step :: "nat \<Rightarrow> run_state \<Rightarrow> run_state \<Rightarrow> bool" for q where
  check_passes: "a < length (rs_attempts s) \<Longrightarrow> rs_attempts s ! a = Ready \<Longrightarrow> checkExecution q (Some (rs_plan s)) t1 t2 t3 = None \<Longrightarrow>
     run_step q s (set_attempt a Checked s)"
| check_fails: "a < length (rs_attempts s) \<Longrightarrow> rs_attempts s ! a = Ready \<Longrightarrow> checkExecution q (Some (rs_plan s)) t1 t2 t3 = Some err \<Longrightarrow>
     run_step q s (set_attempt a (Rejected err) s)"
| claim_won: "a < length (rs_attempts s) \<Longrightarrow> rs_attempts s ! a = Checked \<Longrightarrow> claim (rs_plan s) = (None, e) \<Longrightarrow>
     run_step q s (set_attempt a Claimed (s\<lparr>rs_plan := e\<rparr>))"
| claim_lost: "a < length (rs_attempts s) \<Longrightarrow> rs_attempts s ! a = Checked \<Longrightarrow> claim (rs_plan s) = (Some err, e) \<Longrightarrow>
     run_step q s (set_attempt a (Rejected err) (s\<lparr>rs_plan := e\<rparr>))"
| sends: "a < length (rs_attempts s) \<Longrightarrow> rs_attempts s ! a = Claimed \<Longrightarrow>
     run_step q s (set_attempt a Sent (s\<lparr>rs_sent := rs_sent s @ [(px_sql (rs_plan s), px_args (rs_plan s))]\<rparr>))"
| edits: "run_step q s (s\<lparr>rs_public := p\<rparr>)"

inductive_cases run_stepE: "run_step q s s'"

definition start :: "planned_execution \<Rightarrow> query_plan \<Rightarrow> nat \<Rightarrow> run_state" where
  [go_eval]: "start e p n = \<lparr>rs_plan = e, rs_public = p, rs_attempts = replicate n Ready, rs_sent = []\<rparr>"

definition winners :: "attempt list \<Rightarrow> nat" where
  "winners as = length (filter (\<lambda>x. x = Claimed \<or> x = Sent) as)"

definition senders :: "attempt list \<Rightarrow> nat" where
  "senders as = length (filter (\<lambda>x. x = Sent) as)"

definition good_run :: "planned_execution \<Rightarrow> run_state \<Rightarrow> bool" where
  "good_run e s \<longleftrightarrow>
     rs_plan s = e\<lparr>px_used := px_used (rs_plan s)\<rparr> \<and>
     winners (rs_attempts s) = (if px_used (rs_plan s) then 1 else 0) \<and>
     rs_sent s = replicate (senders (rs_attempts s)) (px_sql e, px_args e)"

lemma senders_winners: "senders as \<le> winners as"
  by (induction as) (auto simp: senders_def winners_def)

lemma filter_update:
  "a < length as \<Longrightarrow> length (filter P (as[a := x])) + (if P (as ! a) then 1 else 0) = length (filter P as) + (if P x then 1 else 0)"
proof (induction as arbitrary: a)
  case (Cons y as)
  then show ?case using Cons.IH [of "a - 1"] by (cases a) auto
qed simp

lemmas update_winners = filter_update [where P = "\<lambda>x. x = Claimed \<or> x = Sent", folded winners_def]
lemmas update_senders = filter_update [where P = "\<lambda>x. x = Sent", folded senders_def]

lemma start_good: "\<not> px_used e \<Longrightarrow> good_run e (start e p n)"
  by (simp add: good_run_def start_def winners_def senders_def)

lemma replicate_snoc: "replicate n x @ [x] = replicate (Suc n) x"
  by (simp add: replicate_append_same)

lemma step_good: "run_step q s s' \<Longrightarrow> good_run e s \<Longrightarrow> good_run e s'"
proof (induction rule: run_step.induct)
  case (check_passes a s t1 t2 t3)
  then show ?case
    using update_winners [of a "rs_attempts s" Checked] update_senders [of a "rs_attempts s" Checked]
    by (simp add: good_run_def set_attempt_def)
next
  case (check_fails a s t1 t2 t3 err)
  then show ?case
    using update_winners [of a "rs_attempts s" "Rejected err"] update_senders [of a "rs_attempts s" "Rejected err"]
    by (simp add: good_run_def set_attempt_def)
next
  case (claim_won a s e')
  then show ?case
    using update_winners [of a "rs_attempts s" Claimed] update_senders [of a "rs_attempts s" Claimed]
    by (auto simp: good_run_def set_attempt_def claim_def split: if_splits)
next
  case (claim_lost a s err e')
  then show ?case
    using update_winners [of a "rs_attempts s" "Rejected err"] update_senders [of a "rs_attempts s" "Rejected err"]
    by (auto simp: good_run_def set_attempt_def claim_def split: if_splits)
next
  case (sends a s)
  have "px_sql (rs_plan s) = px_sql e" "px_args (rs_plan s) = px_args e"
    using sends.prems unfolding good_run_def by (metis planned_execution.select_convs planned_execution.update_convs planned_execution.surjective)+
  with sends show ?case
    using update_winners [of a "rs_attempts s" Sent] update_senders [of a "rs_attempts s" Sent]
    by (simp add: good_run_def set_attempt_def replicate_snoc)
next
  case (edits s p)
  then show ?case by (simp add: good_run_def)
qed

lemma run_good: "(run_step q)\<^sup>*\<^sup>* s s' \<Longrightarrow> good_run e s \<Longrightarrow> good_run e s'"
  by (induction rule: rtranclp_induct) (auto intro: step_good)

section \<open>What finalizing keeps\<close>

lemma writeView_fields:
  "writeView p = writeView p' \<Longrightarrow> Operation p = Operation p' \<and> SQL p = SQL p' \<and> Params p = Params p' \<and> Tables p = Tables p' \<and>
     PlanJoins p = PlanJoins p' \<and> WhereTree p = WhereTree p'"
  by (simp add: writeView_def)

lemma finalizing_keeps [simp]:
  "writeView (applyPolicyMetadata q p) = writeView p"
  "writeView (sealWriteEvidence d keys p) = writeView p"
  by (simp_all add: applyPolicyMetadata_def sealWriteEvidence_def Let_def writeView_def)

lemma CheckQuery_plan: "fst (CheckQuery c p) = scoped_plan p"
  by (simp add: CheckQuery_def Let_def split: prod.splits)

lemma writeView_finalized [simp]: "writeView (finalizePlanWithSettings p a ss policy s now) = writeView p"
proof (cases "ordinary p s")
  case True
  obtain kept gone nts where "applySuppressions (all_warnings p policy s) ss now = (kept, gone, nts)" by (metis surj_pair)
  note eq = finalized_eq [OF True this surjective_pairing, of a]
  show ?thesis
    unfolding eq Let_def
    using scoped_plan_more(1) [of p] by (simp add: writeView_def)
next
  case False
  then show ?thesis by (auto simp: ordinary_def finalizePlanWithSettings_def writeView_def split: option.splits)
qed

lemma finalizeOperation_tenant [simp]: "tenantEvidence (finalizeOperation q p) = tenantEvidence p"
  by (simp add: finalizeOperation_def Let_def split: option.splits prod.splits)

lemma finalizeTenantPolicy_checked:
  assumes "st_strict s" "tenantEvidence p' = tenantEvidence (finalizeTenantPolicy s d b p)" "checkTenantEvidence p' = None"
  shows "\<exists>q. strictPolicyCheck s d b p = (None, q)"
proof (cases "strictPolicyCheck s d b p")
  case (Pair err q)
  have "error_text e \<noteq> []" for e by (cases e) (simp_all add: error_text_def)
  with assms Pair show ?thesis
    by (cases err) (auto simp: finalizeTenantPolicy_def checkTenantEvidence_def)
qed

lemma strictPolicyCheck_view: "strictPolicyCheck s d b p = (e, q) \<Longrightarrow> writeView q = writeView p"
  unfolding strictPolicyCheck_def
  by (auto simp: CheckQuery_plan [symmetric] split: sum.splits option.splits prod.splits if_splits)
    (metis CheckQuery_plan scoped_plan_more(1) fst_conv)+

lemma writeView_tenant [simp]: "writeView (finalizeTenantPolicy s d b p) = writeView p"
proof (cases "strictPolicyCheck s d b p")
  case (Pair e q)
  have "writeView (q\<lparr>tenantEvidence := x, TenantPolicy := y\<rparr>) = writeView q"
    "writeView (q\<lparr>tenantEvidence := x, TenantPolicy := y, Blocked := z\<rparr>) = writeView q"
    "writeView (q\<lparr>tenantEvidence := x, TenantPolicy := y, RiskLevel := l, Warnings := ws, Blocked := z\<rparr>) = writeView q" for x y z l ws
    by (simp_all add: writeView_def)
  with strictPolicyCheck_view [OF Pair] Pair show ?thesis
    by (cases e) (simp_all add: finalizeTenantPolicy_def Let_def)
qed

lemma statement_operation [simp]: "SQL (finalizeOperation q p) = SQL p" "Params (finalizeOperation q p) = Params p"
  by (simp_all add: finalizeOperation_def Let_def split: option.splits prod.splits)

lemma finalizePlan_sealed:
  assumes "finalizePlan q plan now = (p, e)"
  obtains p3 where "writeView p3 = writeView plan"
    "e = snd (sealExecution q (finalizeOperation q (finalizeTenantPolicy (qs_settings q) (qs_dialect q) (qs_bindingPlanning q) p3)) now)"
  using assms that [of "finalizePlanWithSettings (sealWriteEvidence (qs_dialect q) (qs_writeKeys q) (applyPolicyMetadata q plan))
      (qs_approval q) (qs_suppressions q) (qs_policy q) (qs_settings q) now"]
  by (auto simp: finalizePlan_def Let_def split: prod.splits if_splits)

text \<open>What is sealed is what was planned.\<close>

lemma gate_keeps_statement: "sealed_gate q p now = (required, gate, p') \<Longrightarrow> SQL p' = SQL p \<and> Params p' = Params p"
proof -
  have same: "SQL (scoped_plan x) = SQL x" "Params (scoped_plan x) = Params x" for x
    by (simp_all add: scoped_plan_def Let_def)
  show "sealed_gate q p now = (required, gate, p') \<Longrightarrow> SQL p' = SQL p \<and> Params p' = Params p"
    by (auto simp: sealed_gate_def Let_def split_beta CheckQuery_plan same split: if_splits)
qed

lemma finalizePlan_inspected:
  assumes "finalizePlan q plan now = (p, e)"
  shows "px_sql e = SQL plan" "px_args e = Params plan" "SQL (px_inspection e) = SQL plan" "Params (px_inspection e) = Params plan"
proof -
  obtain p3 where p3: "writeView p3 = writeView plan"
    "e = snd (sealExecution q (finalizeOperation q (finalizeTenantPolicy (qs_settings q) (qs_dialect q) (qs_bindingPlanning q) p3)) now)"
    using assms by (rule finalizePlan_sealed)
  have "SQL (finalizeTenantPolicy (qs_settings q) (qs_dialect q) (qs_bindingPlanning q) p3) = SQL plan"
    "Params (finalizeTenantPolicy (qs_settings q) (qs_dialect q) (qs_bindingPlanning q) p3) = Params plan"
    using writeView_fields [of "finalizeTenantPolicy _ _ _ p3" plan] p3(1) by simp_all
  then show "px_sql e = SQL plan" "px_args e = Params plan" "SQL (px_inspection e) = SQL plan" "Params (px_inspection e) = Params plan"
    unfolding p3(2) using gate_keeps_statement by (simp_all add: sealExecution_def inspection_copy_def split: prod.splits)
qed

lemma open_gate:
  assumes "px_gate (snd (sealExecution q p now)) = None"
  shows "ensurePlanExecutable p now = None"
  using assms by (auto simp: sealExecution_def sealed_gate_def Let_def split: prod.splits if_splits)

lemma checkExecution_passes:
  assumes "checkExecution q (Some e) t1 t2 t3 = None"
  shows "px_owner e = q" "px_gate e = None" "\<not> px_used e"
    "px_authorizationRequired e \<Longrightarrow> \<exists>check. px_authorizationCheck e = Some check \<and> check t1 = None"
    "px_expires e = Some t \<Longrightarrow> t3 < t"
  using assms by (auto simp: checkExecution_def split: if_splits option.splits)

section \<open>Properties\<close>


text \<open>
  C32: However attempts to execute one plan interleave, and whatever is done to the public plan meanwhile, at most one of them
  sends anything, and what it sends is the statement and the arguments that were sealed.
\<close>

theorem plan_sent_at_most_once:
  assumes "\<not> px_used e" "(run_step q)\<^sup>*\<^sup>* (start e p n) s"
  shows "rs_sent s = [] \<or> rs_sent s = [(px_sql e, px_args e)]"
proof -
  have "good_run e s" by (rule run_good [OF assms(2) start_good [OF assms(1)]])
  then have "rs_sent s = replicate (senders (rs_attempts s)) (px_sql e, px_args e)" "senders (rs_attempts s) \<le> 1"
    using senders_winners [of "rs_attempts s"] by (auto simp: good_run_def split: if_splits)
  then show ?thesis by (cases "senders (rs_attempts s)") auto
qed

text \<open>
  A plan in force passes its check as long as nobody has used it: its gate is open, its owner asks, and nothing it depends on
  expires or is withdrawn.
\<close>

definition in_force :: "nat \<Rightarrow> planned_execution \<Rightarrow> bool" where
  "in_force q e \<longleftrightarrow> (\<forall>t1 t2 t3. checkExecution q (Some (e\<lparr>px_used := False\<rparr>)) t1 t2 t3 = None)"

definition finished :: "attempt \<Rightarrow> bool" where
  "finished x \<longleftrightarrow> x = Sent \<or> (\<exists>err. x = Rejected err)"

lemma set_attempt_length [simp]: "length (rs_attempts (set_attempt a x s)) = length (rs_attempts s)"
  by (simp add: set_attempt_def)

text \<open>The plan stays unused only while every attempt can still go on.\<close>

definition hopeful :: "nat \<Rightarrow> planned_execution \<Rightarrow> run_state \<Rightarrow> bool" where
  "hopeful n e s \<longleftrightarrow> length (rs_attempts s) = n \<and>
     (\<not> px_used (rs_plan s) \<longrightarrow> (\<forall>x \<in> set (rs_attempts s). x = Ready \<or> x = Checked))"

lemma good_plan: "good_run e s \<Longrightarrow> rs_plan s = e\<lparr>px_used := px_used (rs_plan s)\<rparr>"
  by (simp add: good_run_def)

lemma in_force_unused:
  assumes "in_force q e" "good_run e s" "\<not> px_used (rs_plan s)"
  shows "checkExecution q (Some (rs_plan s)) t1 t2 t3 = None"
proof -
  have "rs_plan s = e\<lparr>px_used := False\<rparr>" using good_plan [OF assms(2)] assms(3) by simp
  then show ?thesis using assms(1) by (simp add: in_force_def)
qed

lemma step_hopeful:
  assumes "run_step q s s'" "in_force q e" "good_run e s" "hopeful n e s"
  shows "hopeful n e s'"
  using assms
proof (induction rule: run_step.induct)
  case (check_fails a s t1 t2 t3 err)
  then have "px_used (rs_plan s)" using in_force_unused [of q e s t1 t2 t3] by auto
  with check_fails show ?case by (simp add: hopeful_def set_attempt_def)
next
  case (claim_lost a s err e')
  then show ?case by (auto simp: hopeful_def set_attempt_def claim_def split: if_splits)
next
  case (sends a s)
  then have "Claimed \<in> set (rs_attempts s)" by (metis nth_mem)
  with sends have "px_used (rs_plan s)" by (auto simp: hopeful_def)
  with sends show ?case by (simp add: hopeful_def set_attempt_def)
qed (auto simp: hopeful_def set_attempt_def claim_def dest!: set_update_subset_insert [THEN subsetD] split: if_splits)

lemma run_hopeful:
  assumes "(run_step q)\<^sup>*\<^sup>* (start e p n) s" "in_force q e" "\<not> px_used e"
  shows "good_run e s \<and> hopeful n e s"
  using assms(1)
proof (induction rule: rtranclp_induct)
  case base
  show ?case using start_good [OF assms(3)] by (simp add: hopeful_def start_def)
next
  case (step s s')
  then show ?case using step_good step_hopeful assms(2) by blast
qed

text \<open>Every attempt that is not finished can take a step of its own, and only finitely many.\<close>

fun remaining :: "attempt \<Rightarrow> nat" where
  "remaining Ready = 3"
| "remaining Checked = 2"
| "remaining Claimed = 1"
| "remaining Sent = 0"
| "remaining (Rejected err) = 0"

lemma remaining_zero: "remaining x = 0 \<longleftrightarrow> finished x"
  by (cases x) (simp_all add: finished_def)

lemma step_possible:
  assumes "a < length (rs_attempts s)" "\<not> finished (rs_attempts s ! a)"
  shows "\<exists>s' x. run_step q s s' \<and> rs_attempts s' = (rs_attempts s)[a := x] \<and> remaining x < remaining (rs_attempts s ! a)"
proof (cases "rs_attempts s ! a")
  case Ready
  show ?thesis
  proof (cases "checkExecution q (Some (rs_plan s)) 0 0 0")
    case None
    from check_passes [OF assms(1) Ready None] Ready show ?thesis
      by (intro exI [of _ "set_attempt a Checked s"] exI [of _ Checked]) (simp add: set_attempt_def)
  next
    case (Some err)
    from check_fails [OF assms(1) Ready Some] Ready show ?thesis
      by (intro exI [of _ "set_attempt a (Rejected err) s"] exI [of _ "Rejected err"]) (simp add: set_attempt_def)
  qed
next
  case Checked
  obtain r e' where c: "claim (rs_plan s) = (r, e')" by fastforce
  show ?thesis
  proof (cases r)
    case None
    with claim_won [OF assms(1) Checked] c Checked show ?thesis
      by (intro exI [of _ "set_attempt a Claimed (s\<lparr>rs_plan := e'\<rparr>)"] exI [of _ Claimed]) (simp add: set_attempt_def)
  next
    case (Some err)
    with claim_lost [OF assms(1) Checked] c Checked show ?thesis
      by (intro exI [of _ "set_attempt a (Rejected err) (s\<lparr>rs_plan := e'\<rparr>)"] exI [of _ "Rejected err"]) (simp add: set_attempt_def)
  qed
next
  case Claimed
  from sends [OF assms(1) Claimed] Claimed show ?thesis
    by (intro exI [of _ "set_attempt a Sent (s\<lparr>rs_sent := rs_sent s @ [(px_sql (rs_plan s), px_args (rs_plan s))]\<rparr>)"] exI [of _ Sent])
      (simp add: set_attempt_def)
qed (use assms(2) in \<open>simp_all add: finished_def\<close>)

lemma sum_update: "a < length xs \<Longrightarrow> f x < f (xs ! a) \<Longrightarrow> sum_list (map f (xs[a := x])) < sum_list (map (f :: 'a \<Rightarrow> nat) xs)"
proof (induction xs arbitrary: a)
  case (Cons y ys)
  then show ?case by (cases a) auto
qed simp

lemma run_finishes: "\<exists>s'. (run_step q)\<^sup>*\<^sup>* s s' \<and> (\<forall>x \<in> set (rs_attempts s'). finished x)"
proof (induction s rule: measure_induct_rule [where f = "\<lambda>s. sum_list (map remaining (rs_attempts s))"])
  case (less s)
  show ?case
  proof (cases "\<forall>x \<in> set (rs_attempts s). finished x")
    case True
    then show ?thesis by blast
  next
    case False
    then obtain a where "a < length (rs_attempts s)" "\<not> finished (rs_attempts s ! a)"
      by (auto simp: in_set_conv_nth)
    from step_possible [OF this, of q] obtain s1 x where s1: "run_step q s s1" "rs_attempts s1 = (rs_attempts s)[a := x]"
      "remaining x < remaining (rs_attempts s ! a)" by blast
    with sum_update [of a "rs_attempts s" remaining x] \<open>a < _\<close> less [of s1] obtain s' where
      "(run_step q)\<^sup>*\<^sup>* s1 s'" "\<forall>x \<in> set (rs_attempts s'). finished x" by auto
    with s1(1) show ?thesis by (meson converse_rtranclp_into_rtranclp)
  qed
qed


section \<open>Concrete runs\<close>

definition sample_query :: query_state where
  "sample_query =
     \<lparr>qs_id = 1, qs_bindingPlanning = False, qs_settings = tenant_settings, qs_authorized = False, qs_writeKeys = None,
      qs_dialect = PostgresDialect, qs_err = None, qs_approval = None, qs_suppressions = [], qs_requiredPredicates = [],
      qs_policy = None, qs_accessReason = [], qs_withDeleted = False, qs_onlyDeleted = False, qs_ctx = None, qs_validation = None\<rparr>"

definition sample_sealed_plan :: query_plan where
  "sample_sealed_plan = sealWriteEvidence PostgresDialect None (applyPolicyMetadata sample_query sample_delete)"

lemma sample_sealed_like: "like_sample sample_sealed_plan" "Metadata sample_sealed_plan = Some Map.empty"
proof -
  have view: "writeView sample_sealed_plan = writeView sample_delete"
    by (simp add: sample_sealed_plan_def)
  have meta: "applyPolicyMetadata sample_query sample_delete = sample_delete\<lparr>Metadata := Some Map.empty\<rparr>"
    by (simp add: applyPolicyMetadata_def sample_query_def sample_fields Let_def)
  have "writeEvidence sample_sealed_plan = Some \<lparr>we_view = writeView sample_delete, we_keys = None, we_dialect = ''postgres'', we_failure = []\<rparr>"
    unfolding sample_sealed_plan_def meta
    by (simp add: sealWriteEvidence_def sample_fields Let_def dialect_name_def)
      (simp add: writeView_def sample_comparable [unfolded writeView_def] sample_detached [unfolded writeView_def])
  then have "ws_Status (AnalyzeWriteScope sample_sealed_plan) = ''unknown''"
    by (simp add: AnalyzeWriteScope_def Let_def scope_unknown_def)
  moreover have "generatedConditions sample_sealed_plan" "conditionSource sample_sealed_plan = Some sample_where"
    "Metadata sample_sealed_plan = Some Map.empty"
    unfolding sample_sealed_plan_def meta by (simp_all add: sealWriteEvidence_def Let_def sample_fields)
  ultimately show "like_sample sample_sealed_plan" "Metadata sample_sealed_plan = Some Map.empty"
    using view by (simp_all add: like_sample_def)
qed

definition sample_warned_plan :: query_plan where
  "sample_warned_plan = finalizePlanWithSettings sample_sealed_plan None [] None tenant_settings 0"

lemma sample_warned: "like_sample sample_warned_plan" "\<not> Blocked sample_warned_plan" "\<not> RequiredApproval sample_warned_plan"
proof -
  let ?p = sample_sealed_plan
  have s: "st_strict tenant_settings" "st_err tenant_settings = None" "st_risk tenant_settings = no_risk_config"
    by (simp_all add: tenant_settings_def WithTenantPolicy_def NewSettings_def)
  then have ord: "ordinary ?p tenant_settings"
    using like_sample_fields(4) [OF sample_sealed_like(1)] by (simp add: ordinary_def)
  obtain w where w: "rule_warnings (scoped_plan ?p) = [w]" "wn_Level w = RiskMedium"
    using like_sample_warnings [OF sample_sealed_like(1)] by blast
  have "meta_at (scoped_plan ?p) k = None" for k
    by (simp add: meta_at_def sample_sealed_like(2))
  then have "all_warnings ?p None tenant_settings = [w]"
    using s w by (simp add: all_warnings_def Let_def applyRiskConfig_def applyRiskRule_def no_risk_config_def checkRequiredPredicates_def
        requiredPredicatesFromPlan_def MissingRequiredPredicates_def)
  then have a: "applySuppressions (all_warnings ?p None tenant_settings) [] 0 = ([w], [], [])"
    by (simp add: applySuppressions_def findSuppression_def suppression_verdict_def)
  note f = finalized_ordinary [OF ord a, of None]
  have level: "fst (aggregateWarnings [w]) = RiskMedium"
    using w(2) by (simp add: aggregateWarnings_def compareRisk_def riskRank_def)
  show "\<not> Blocked sample_warned_plan" "\<not> RequiredApproval sample_warned_plan"
    unfolding sample_warned_plan_def using f(3,4) w(2) level medium_no_approval by simp_all
  note eq = finalized_eq [OF ord a surjective_pairing, of None, unfolded Let_def]
  have "writeView sample_warned_plan = writeView ?p" "writeEvidence sample_warned_plan = writeEvidence ?p"
    "generatedConditions sample_warned_plan = generatedConditions ?p" "conditionSource sample_warned_plan = conditionSource ?p"
    unfolding sample_warned_plan_def by (rule writeView_finalized) (simp_all add: eq)
  with sample_sealed_like(1) AnalyzeWriteScope_cong [of sample_warned_plan ?p] show "like_sample sample_warned_plan"
    by (simp add: like_sample_def)
qed

definition sample_final_plan :: query_plan where
  "sample_final_plan = finalizeTenantPolicy tenant_settings PostgresDialect False sample_warned_plan"

lemma sample_final:
  "like_sample sample_final_plan" "ensurePlanExecutable sample_final_plan t = None" "\<not> RequiredApproval sample_final_plan"
proof -
  show "ensurePlanExecutable sample_final_plan t = None"
    unfolding sample_final_plan_def by (rule like_sample_executable) (rule sample_warned)+
  have eq: "sample_final_plan = (scoped_plan (scoped_plan sample_warned_plan))\<lparr>tenantEvidence := Some \<lparr>te_view = Some (writeView sample_delete),
      te_failure = []\<rparr>, TenantPolicy := Some conditional_pass\<rparr>"
    unfolding sample_final_plan_def by (rule like_sample_finalized) (rule sample_warned)
  have "writeEvidence sample_final_plan = writeEvidence sample_warned_plan" "writeView sample_final_plan = writeView sample_warned_plan"
    "generatedConditions sample_final_plan = generatedConditions sample_warned_plan"
    "conditionSource sample_final_plan = conditionSource sample_warned_plan"
    by (simp_all add: eq) (simp add: eq [symmetric] sample_final_plan_def)
  with sample_warned(1) AnalyzeWriteScope_cong [of sample_final_plan sample_warned_plan] show "like_sample sample_final_plan"
    by (simp add: like_sample_def)
  show "\<not> RequiredApproval sample_final_plan"
    using sample_warned(3) by (simp add: eq)
qed

definition sample_execution :: planned_execution where
  "sample_execution = snd (finalizePlan sample_query sample_delete 0)"

lemma sample_gate: "sealed_gate sample_query sample_final_plan 0 = (False, None, scoped_plan (scoped_plan sample_final_plan))"
proof -
  note r = like_sample_risk [OF sample_final(1)] like_sample_risk [OF like_sample_scoped [OF sample_final(1)]]
  obtain a where a: "CheckQuery no_risk_config sample_final_plan = (scoped_plan sample_final_plan, a)" "\<not> rk_Blocked a" "rk_Level a = RiskMedium"
    using r(1-3) by (metis prod.collapse)
  obtain b where b: "CheckQuery no_risk_config (scoped_plan sample_final_plan) = (scoped_plan (scoped_plan sample_final_plan), b)"
    "\<not> rk_Blocked b" "rk_Level b = RiskMedium"
    using r(4-6) by (metis prod.collapse)
  have "st_strict tenant_settings" "st_risk tenant_settings = no_risk_config"
    by (simp_all add: tenant_settings_def WithTenantPolicy_def NewSettings_def)
  then show ?thesis
    using a b sample_final(2) by (simp add: sealed_gate_def sample_query_def medium_no_approval Let_def)
qed

lemma sample_finalized: "finalizePlan sample_query sample_delete 0 = (scoped_plan (scoped_plan sample_final_plan), sample_execution)"
  "px_gate sample_execution = None" "\<not> px_authorizationRequired sample_execution" "px_expires sample_execution = None"
  "px_owner sample_execution = 1" "px_ctx sample_execution = None" "px_bindingExpires sample_execution = None" "\<not> px_used sample_execution"
proof -
  have "finalizeOperation sample_query sample_final_plan = sample_final_plan"
    by (simp add: finalizeOperation_def sample_query_def)
  then have "finalizePlan sample_query sample_delete 0 = sealExecution sample_query sample_final_plan 0"
    unfolding finalizePlan_def Let_def sample_final_plan_def sample_warned_plan_def sample_sealed_plan_def
    by (simp add: sample_query_def split: prod.splits)
  then have f: "finalizePlan sample_query sample_delete 0 = sealExecution sample_query sample_final_plan 0" .
  show "finalizePlan sample_query sample_delete 0 = (scoped_plan (scoped_plan sample_final_plan), sample_execution)"
    "px_gate sample_execution = None" "\<not> px_authorizationRequired sample_execution" "px_expires sample_execution = None"
    "px_owner sample_execution = 1" "px_ctx sample_execution = None" "px_bindingExpires sample_execution = None" "\<not> px_used sample_execution"
    using sample_final(3) unfolding sample_execution_def f sealExecution_def sample_gate by (simp_all add: sample_query_def)
qed

lemma sample_passes: "checkExecution 1 (Some (sample_execution\<lparr>px_used := False\<rparr>)) t1 t2 t3 = None"
  by (simp add: checkExecution_def sample_finalized)


lemma sample_in_force: "in_force 1 sample_execution"
  unfolding in_force_def using sample_passes by blast

lemma sample_two_runs:
  "\<exists>s. (run_step 1)\<^sup>*\<^sup>* (start sample_execution sample_delete 2) s \<and> (\<forall>x \<in> set (rs_attempts s). finished x)"
  by (rule run_finishes)

theorem plan_sent_at_most_once_witness:
  "\<exists>s. (run_step 1)\<^sup>*\<^sup>* (start sample_execution sample_delete 2) s \<and> list_all finished (rs_attempts s) \<and>
     (rs_sent s = [] \<or> rs_sent s = [(px_sql sample_execution, px_args sample_execution)])"
proof -
  obtain s where s: "(run_step 1)\<^sup>*\<^sup>* (start sample_execution sample_delete 2) s" "\<forall>x \<in> set (rs_attempts s). finished x"
    using sample_two_runs by blast
  from plan_sent_at_most_once [OF sample_finalized(8) s(1)] s show ?thesis by (auto simp: list_all_iff)
qed


end
