(* ===== verification/MigrationText.thy ===== *)
theory MigrationText
  imports RiskEngine
begin

text \<open>
  Reading migration SQL (\<^verbatim>\<open>orm/migration/parser.go\<close>): the text is split into statements, and each is recognised by a
  regular expression.  The expressions are those of the source, as data, with Go's leftmost-first matching; letters
  compare without case, on ASCII.
\<close>

section \<open>Statements\<close>

record sql_statement =
  ss_SQL :: gostring
  ss_Line :: nat

definition isSpaceByte :: "char \<Rightarrow> bool" where
  [go_eval]: "isSpaceByte c \<longleftrightarrow> c = CHR '' '' \<or> c = CHR 0x09 \<or> c = CHR 0x0A \<or> c = CHR 0x0D"

text \<open>The five flags of the scanner, of which at most one is set.\<close>

datatype lex_mode = Plain | Single | Double | Backtick | LineComment | BlockComment

definition flush :: "gostring \<Rightarrow> nat \<Rightarrow> sql_statement list" where
  [go_eval]: "flush b start = (let sql = trim_space b in if sql = [] then [] else [\<lparr>ss_SQL = sql, ss_Line = start\<rparr>])"

definition next_byte :: "gostring \<Rightarrow> char" where
  [go_eval]: "next_byte cs = (case cs of [] \<Rightarrow> CHR 0x00 | d # ds \<Rightarrow> d)"

definition newline_count :: "char \<Rightarrow> nat" where
  [go_eval]: "newline_count c = (if c = CHR 0x0A then 1 else 0)"

text \<open>The mode after a byte that is not part of a comment; an escaped quote is handled by the caller.\<close>

definition quote_step :: "lex_mode \<Rightarrow> char \<Rightarrow> lex_mode" where
  [go_eval]: "quote_step m c =
     (if c = CHR 0x27 then (if m = Plain then Single else if m = Single then Plain else m)
      else if c = CHR 0x22 then (if m = Plain then Double else if m = Double then Plain else m)
      else if c = CHR ''`'' then (if m = Plain then Backtick else if m = Backtick then Plain else m)
      else m)"

function split_from :: "lex_mode \<Rightarrow> gostring \<Rightarrow> nat \<Rightarrow> nat \<Rightarrow> gostring \<Rightarrow> sql_statement list" where
  "split_from m b line start [] = flush b start"
| "split_from m b line start (c # cs) =
     (let nxt = next_byte cs; line' = line + newline_count c in
      if m = LineComment then split_from (if c = CHR 0x0A then Plain else LineComment) b line' start cs
      else if m = BlockComment then
        (if c = CHR ''*'' \<and> nxt = CHR ''/'' then split_from Plain b line' start (tl cs) else split_from BlockComment b line' start cs)
      else if b = [] \<and> isSpaceByte c then split_from m b line' start cs
      else let start' = (if b = [] then line else start) in
        if m = Plain \<and> c = CHR ''-'' \<and> nxt = CHR ''-'' then split_from LineComment b line start' (tl cs)
        else if m = Plain \<and> c = CHR ''/'' \<and> nxt = CHR ''*'' then split_from BlockComment b line start' (tl cs)
        else if m = Single \<and> c = CHR 0x27 \<and> nxt = CHR 0x27 then split_from Single (b @ [c, nxt]) line start' (tl cs)
        else if m = Plain \<and> c = CHR '';'' then flush b start' @ split_from Plain [] line start' cs
        else split_from (quote_step m c) (b @ [c]) line' start' cs)"
  by pat_completeness auto
termination
  by (relation "measure (\<lambda>(m, b, line, start, s). length s)") auto

declare split_from.simps [simp del]

definition splitSQLStatements :: "gostring \<Rightarrow> sql_statement list" where
  [go_eval]: "splitSQLStatements sql = split_from Plain [] 1 1 sql"

section \<open>Pieces of text that are statements\<close>

text \<open>
  The scan of a piece that holds no comment and no semicolon outside quotes: the mode at its end, or nothing when it meets one.
\<close>

function scan :: "lex_mode \<Rightarrow> gostring \<Rightarrow> lex_mode option" where
  "scan m [] = Some m"
| "scan m (c # cs) =
     (if m = LineComment \<or> m = BlockComment then None
      else if m = Plain \<and> (c = CHR '';'' \<or> c = CHR ''-'' \<and> next_byte cs = CHR ''-'' \<or> c = CHR ''/'' \<and> next_byte cs = CHR ''*'') then None
      else if m = Single \<and> c = CHR 0x27 \<and> next_byte cs = CHR 0x27 then scan Single (tl cs)
      else scan (quote_step m c) cs)"
  by pat_completeness auto
termination
  by (relation "measure (\<lambda>(m, s). length s)") auto

definition whole_statement :: "gostring \<Rightarrow> bool" where
  [go_eval]: "whole_statement p \<longleftrightarrow> scan Plain p = Some Plain"

definition kept_text :: "gostring \<Rightarrow> gostring \<Rightarrow> gostring" where
  "kept_text b p = (if b = [] then dropWhile isSpaceByte p else b @ p)"

lemma kept_text_simps:
  "kept_text b [] = b" "isSpaceByte c \<Longrightarrow> kept_text [] (c # cs) = kept_text [] cs"
  "b \<noteq> [] \<or> \<not> isSpaceByte c \<Longrightarrow> kept_text b (c # cs) = b @ c # cs" "kept_text (b @ [c]) cs = b @ c # cs" "kept_text (b @ [c, d]) cs = b @ c # d # cs"
  by (auto simp: kept_text_def)

lemma next_byte_append: "next_byte (cs @ d # rest) = (if cs = [] then d else next_byte cs)"
  by (cases cs) (simp_all add: next_byte_def)

lemma quote_step_space: "isSpaceByte c \<Longrightarrow> quote_step m c = m"
  by (auto simp: quote_step_def isSpaceByte_def)

lemma next_byte_Cons: "next_byte cs = d \<Longrightarrow> d \<noteq> CHR 0x00 \<Longrightarrow> cs = d # tl cs"
  by (cases cs) (simp_all add: next_byte_def)

text \<open>What follows a piece is nothing, or a semicolon and the rest.\<close>

definition tail_of :: "gostring option \<Rightarrow> gostring" where
  "tail_of rest = (case rest of None \<Rightarrow> [] | Some r \<Rightarrow> CHR '';'' # r)"

lemma next_byte_tail:
  "d \<noteq> CHR 0x00 \<Longrightarrow> d \<noteq> CHR '';'' \<Longrightarrow> next_byte (cs @ tail_of rest) = d \<longleftrightarrow> next_byte cs = d"
  by (cases cs) (auto simp: next_byte_def tail_of_def split: option.splits)

lemma split_piece:
  "scan m p = Some Plain \<Longrightarrow> b = [] \<longrightarrow> m = Plain \<Longrightarrow>
   \<exists>line' start'. split_from m b line start (p @ tail_of rest) = split_from Plain (kept_text b p) line' start' (tail_of rest)"
proof (induction m p arbitrary: b line start rule: scan.induct)
  case (1 m)
  then show ?case by (auto simp: kept_text_simps)
next
  case (2 m c cs)
  let ?rest = "cs @ tail_of rest"
  from "2.prems"(1) have m: "m \<noteq> LineComment" "m \<noteq> BlockComment" by (auto split: if_splits)
  from "2.prems"(1) m have nc: "\<not> (m = Plain \<and> c = CHR '';'')" "\<not> (m = Plain \<and> c = CHR ''-'' \<and> next_byte ?rest = CHR ''-'')"
    "\<not> (m = Plain \<and> c = CHR ''/'' \<and> next_byte ?rest = CHR ''*'')"
    by (auto simp: next_byte_tail split: if_splits)
  have cond: "\<not> (m = LineComment \<or> m = BlockComment)"
    "\<not> (m = Plain \<and> (c = CHR '';'' \<or> c = CHR ''-'' \<and> next_byte cs = CHR ''-'' \<or> c = CHR ''/'' \<and> next_byte cs = CHR ''*''))"
    using "2.prems"(1) by (auto split: if_splits)
  show ?case
  proof (cases "b = [] \<and> isSpaceByte c")
    case True
    then have b: "b = []" "m = Plain" "isSpaceByte c" using "2.prems"(2) by auto
    then have notq: "\<not> (m = Single \<and> c = CHR 0x27 \<and> next_byte cs = CHR 0x27)" by simp
    from "2.prems"(1) cond notq have "scan (quote_step m c) cs = Some Plain" by (simp split: if_splits)
    from "2.IH"(2) [OF cond notq this, of "[]" "line + newline_count c" start] b obtain line' start' where
      "split_from Plain [] (line + newline_count c) start ?rest = split_from Plain (kept_text [] cs) line' start' (tail_of rest)"
      by (auto simp: quote_step_space)
    then show ?thesis
      using b m nc by (subst append_Cons, subst split_from.simps(2)) (auto simp: kept_text_simps Let_def)
  next
    case out: False
    show ?thesis
    proof (cases "m = Single \<and> c = CHR 0x27 \<and> next_byte cs = CHR 0x27")
      case True
      then obtain ds where cs: "cs = CHR 0x27 # ds" using next_byte_Cons [of cs "CHR 0x27"] by (cases cs) auto
      have "scan Single (tl cs) = Some Plain" using "2.prems"(1) True by simp
      from "2.IH"(1) [OF cond True this, of "b @ [c, CHR 0x27]" line "if b = [] then line else start"] obtain line' start' where
        "split_from Single (b @ [c, CHR 0x27]) line (if b = [] then line else start) (ds @ tail_of rest) =
         split_from Plain (kept_text (b @ [c, CHR 0x27]) ds) line' start' (tail_of rest)" by (auto simp: cs)
      moreover have "split_from m b line start (c # ?rest) =
          split_from Single (b @ [c, CHR 0x27]) line (if b = [] then line else start) (ds @ tail_of rest)"
        using True "2.prems"(2) unfolding cs by (subst split_from.simps(2)) (auto simp add: next_byte_def Let_def)
      moreover have "kept_text (b @ [c, CHR 0x27]) ds = kept_text b (c # cs)"
        using True out cs by (auto simp: kept_text_simps(5) kept_text_simps(3) isSpaceByte_def)
      ultimately show ?thesis by auto
    next
      case False
      from "2.prems"(1) cond False have "scan (quote_step m c) cs = Some Plain" by (simp split: if_splits)
      from "2.IH"(2) [OF cond False this, of "b @ [c]" "line + newline_count c" "if b = [] then line else start"] obtain line' start' where
        "split_from (quote_step m c) (b @ [c]) (line + newline_count c) (if b = [] then line else start) ?rest =
         split_from Plain (kept_text (b @ [c]) cs) line' start' (tail_of rest)"
        by auto
      moreover have "split_from m b line start (c # ?rest) =
          split_from (quote_step m c) (b @ [c]) (line + newline_count c) (if b = [] then line else start) ?rest"
        using False out m nc by (subst split_from.simps(2)) (auto simp: next_byte_tail Let_def)
      ultimately show ?thesis
        using out by (auto simp: kept_text_simps)
    qed
  qed
qed

lemma isSpaceByte_ascii: "isSpaceByte c \<Longrightarrow> ascii_space c"
  by (auto simp: isSpaceByte_def ascii_space_def byte_def)

lemma trim_left_space: "ascii_space c \<Longrightarrow> trim_left (c # s) = trim_left s"
proof -
  assume "ascii_space c"
  then have "space_prefix (c # s) = 1" by (cases "c # s" rule: space_prefix.cases) auto
  then show ?thesis by (simp add: trim_left.simps [of "c # s"])
qed

lemma trim_space_dropWhile: "trim_space (dropWhile isSpaceByte s) = trim_space s"
  by (induction s) (auto simp: trim_space_def trim_left_space isSpaceByte_ascii)

lemma trim_kept_text: "trim_space (kept_text [] p) = trim_space p"
  by (simp add: kept_text_def trim_space_dropWhile)

lemma split_whole:
  "\<forall>p \<in> set ps. whole_statement p \<Longrightarrow> ps \<noteq> [] \<Longrightarrow>
   map ss_SQL (split_from Plain [] line start (join '';'' ps)) = filter (\<lambda>t. t \<noteq> []) (map trim_space ps)"
proof (induction "'';''" ps arbitrary: line start rule: join.induct)
  case (2 p)
  from split_piece [of Plain p "[]" line start None] 2 obtain line' start' where
    "split_from Plain [] line start p = split_from Plain (kept_text [] p) line' start' []"
    by (auto simp: whole_statement_def tail_of_def)
  then show ?case by (simp add: split_from.simps(1) flush_def Let_def trim_kept_text)
next
  case (3 p t ts)
  let ?rest = "join '';'' (t # ts)"
  from split_piece [of Plain p "[]" line start "Some ?rest"] 3 obtain line' start' where
    "split_from Plain [] line start (p @ CHR '';'' # ?rest) = split_from Plain (kept_text [] p) line' start' (CHR '';'' # ?rest)"
    by (auto simp: whole_statement_def tail_of_def)
  moreover have "split_from Plain b l s (CHR '';'' # r) = flush b (if b = [] then l else s) @ split_from Plain [] l (if b = [] then l else s) r" for b l s r
    by (simp add: split_from.simps(2) isSpaceByte_def Let_def)
  moreover have "map ss_SQL (split_from Plain [] l s ?rest) = filter (\<lambda>t. t \<noteq> []) (map trim_space (t # ts))" for l s
    using 3 by simp
  ultimately show ?case
    by (simp add: flush_def Let_def trim_kept_text)
qed simp

section \<open>Properties\<close>



section \<open>Regular expressions\<close>

text \<open>
  \<^term>\<open>Cap\<close> is a capturing group, \<^term>\<open>OptCap\<close> an optional one, whose text is empty when it is skipped; \<^term>\<open>Boundary\<close> is
  the ASCII word boundary and \<^term>\<open>AtEnd\<close> the end of the text.
\<close>

datatype re =
    One "char \<Rightarrow> bool"
  | Plus "char \<Rightarrow> bool"
  | Star "char \<Rightarrow> bool"
  | Opt "re list"
  | Cap "re list"
  | OptCap "re list"
  | Boundary
  | AtEnd

definition word_byte :: "char \<Rightarrow> bool" where
  [go_eval]: "word_byte c \<longleftrightarrow> is_lower c \<or> is_upper c \<or> is_digit c \<or> c = CHR ''_''"

definition re_space :: "char \<Rightarrow> bool" where
  [go_eval]: "re_space c \<longleftrightarrow> c = CHR '' '' \<or> c = CHR 0x09 \<or> c = CHR 0x0A \<or> c = CHR 0x0C \<or> c = CHR 0x0D"

definition ident_byte :: "char \<Rightarrow> bool" where
  [go_eval]: "ident_byte c \<longleftrightarrow> word_byte c \<or> c = CHR ''`'' \<or> c = CHR 0x22 \<or> c = CHR ''.''"

definition at_boundary :: "char option \<Rightarrow> gostring \<Rightarrow> bool" where
  [go_eval]: "at_boundary prev s \<longleftrightarrow>
     (case prev of None \<Rightarrow> False | Some c \<Rightarrow> word_byte c) \<noteq> (case s of [] \<Rightarrow> False | d # ds \<Rightarrow> word_byte d)"

text \<open>The byte before the rest of a text after some bytes of it were read.\<close>

definition prev_after :: "char option \<Rightarrow> gostring \<Rightarrow> nat \<Rightarrow> char option" where
  [go_eval]: "prev_after prev s k = (if k = 0 then prev else Some (s ! (k - 1)))"

text \<open>All matches at the start of a text, the preferred one first: the texts captured and how many bytes were read.\<close>

function re_match :: "re list \<Rightarrow> char option \<Rightarrow> gostring \<Rightarrow> (gostring list \<times> nat) list" where
  "re_match [] prev s = [([], 0)]"
| "re_match (One P # rs) prev s =
     (case s of
        [] \<Rightarrow> []
      | c # cs \<Rightarrow> if P c then map (\<lambda>(caps, n). (caps, n + 1)) (re_match rs (Some c) cs) else [])"
| "re_match (Plus P # rs) prev s =
     concat (map (\<lambda>k. map (\<lambda>(caps, n). (caps, n + k)) (re_match rs (prev_after prev s k) (drop k s)))
       (rev [1..<length (takeWhile P s) + 1]))"
| "re_match (Star P # rs) prev s =
     concat (map (\<lambda>k. map (\<lambda>(caps, n). (caps, n + k)) (re_match rs (prev_after prev s k) (drop k s)))
       (rev [0..<length (takeWhile P s) + 1]))"
| "re_match (Opt xs # rs) prev s = re_match (xs @ rs) prev s @ re_match rs prev s"
| "re_match (Cap xs # rs) prev s =
     concat (map (\<lambda>(caps, k). map (\<lambda>(caps', n). (take k s # caps @ caps', n + k))
       (re_match rs (prev_after prev s k) (drop k s))) (re_match xs prev s))"
| "re_match (OptCap xs # rs) prev s =
     concat (map (\<lambda>(caps, k). map (\<lambda>(caps', n). (take k s # caps @ caps', n + k))
       (re_match rs (prev_after prev s k) (drop k s))) (re_match xs prev s)) @
     map (\<lambda>(caps, n). ([] # caps, n)) (re_match rs prev s)"
| "re_match (Boundary # rs) prev s = (if at_boundary prev s then re_match rs prev s else [])"
| "re_match (AtEnd # rs) prev s = (if s = [] then re_match rs prev s else [])"
  by pat_completeness auto
termination
  by (relation "measure (\<lambda>(rs, prev, s). size_list size rs)") (auto simp: size_list_append)

definition FindStringSubmatch :: "re list \<Rightarrow> gostring \<Rightarrow> gostring list option" where
  [go_eval]: "FindStringSubmatch r s = (case re_match r None s of [] \<Rightarrow> None | (caps, n) # _ \<Rightarrow> Some caps)"

text \<open>A search from left to right; the end of the match.\<close>

fun find_index :: "re list \<Rightarrow> char option \<Rightarrow> gostring \<Rightarrow> nat \<Rightarrow> nat option" where
  "find_index r prev [] at = (case re_match r prev [] of [] \<Rightarrow> None | (caps, n) # _ \<Rightarrow> Some (at + n))"
| "find_index r prev (c # cs) at =
     (case re_match r prev (c # cs) of
        [] \<Rightarrow> find_index r (Some c) cs (at + 1)
      | (caps, n) # _ \<Rightarrow> Some (at + n))"

definition kw :: "gostring \<Rightarrow> re list" where
  [go_eval]: "kw w = map (\<lambda>c. One (\<lambda>d. upper_byte d = c)) w"

abbreviation gap :: re where "gap \<equiv> Plus re_space"
abbreviation name_cap :: re where "name_cap \<equiv> Cap [Plus ident_byte]"
abbreviation rest_cap :: "re list" where "rest_cap \<equiv> [Cap [Plus (\<lambda>c. True)], AtEnd]"

definition if_not_exists :: re where
  [go_eval]: "if_not_exists = Opt (kw ''IF'' @ [gap] @ kw ''NOT'' @ [gap] @ kw ''EXISTS'' @ [gap])"

definition if_exists :: re where
  [go_eval]: "if_exists = Opt (kw ''IF'' @ [gap] @ kw ''EXISTS'' @ [gap])"

definition opt_column :: re where
  [go_eval]: "opt_column = Opt (kw ''COLUMN'' @ [gap])"

definition alter_table :: "re list" where
  [go_eval]: "alter_table = [Star re_space] @ kw ''ALTER'' @ [gap] @ kw ''TABLE'' @ [gap, name_cap, gap]"

definition createTableRE :: "re list" where
  [go_eval]: "createTableRE = [Star re_space] @ kw ''CREATE'' @ [gap] @ kw ''TABLE'' @ [gap, if_not_exists, name_cap]"

definition dropTableRE :: "re list" where
  [go_eval]: "dropTableRE = [Star re_space] @ kw ''DROP'' @ [gap] @ kw ''TABLE'' @ [gap, if_exists, name_cap]"

definition addColumnRE :: "re list" where
  [go_eval]: "addColumnRE = alter_table @ kw ''ADD'' @ [gap, opt_column, if_not_exists, name_cap, gap] @ rest_cap"

definition dropColumnRE :: "re list" where
  [go_eval]: "dropColumnRE = alter_table @ kw ''DROP'' @ [gap, opt_column, if_exists, name_cap]"

definition renameColRE :: "re list" where
  [go_eval]: "renameColRE = alter_table @ kw ''RENAME'' @ [gap] @ kw ''COLUMN'' @ [gap, name_cap, gap] @ kw ''TO'' @ [gap, name_cap]"

definition alterTypeRE :: "re list" where
  [go_eval]: "alterTypeRE = alter_table @ kw ''ALTER'' @ [gap, opt_column, name_cap, gap] @ kw ''TYPE'' @ [gap] @ rest_cap"

definition setNotNullRE :: "re list" where
  [go_eval]: "setNotNullRE = alter_table @ kw ''ALTER'' @ [gap, opt_column, name_cap, gap] @ kw ''SET'' @ [gap] @ kw ''NOT'' @ [gap] @ kw ''NULL''"

definition dropNotNullRE :: "re list" where
  [go_eval]: "dropNotNullRE = alter_table @ kw ''ALTER'' @ [gap, opt_column, name_cap, gap] @ kw ''DROP'' @ [gap] @ kw ''NOT'' @ [gap] @ kw ''NULL''"

definition modifyColRE :: "re list" where
  [go_eval]: "modifyColRE = alter_table @ kw ''MODIFY'' @ [gap, opt_column, name_cap, gap] @ rest_cap"

definition changeColRE :: "re list" where
  [go_eval]: "changeColRE = alter_table @ kw ''CHANGE'' @ [gap, opt_column, name_cap, gap, name_cap, gap] @ rest_cap"

definition concurrently :: re where
  [go_eval]: "concurrently = OptCap (kw ''CONCURRENTLY'' @ [gap])"

definition createIndexRE :: "re list" where
  [go_eval]: "createIndexRE = [Star re_space] @ kw ''CREATE'' @ [gap, Opt (kw ''UNIQUE'' @ [gap])] @ kw ''INDEX'' @
     [gap, concurrently, if_not_exists, name_cap, gap] @ kw ''ON'' @ [gap, name_cap]"

definition dropIndexRE :: "re list" where
  [go_eval]: "dropIndexRE = [Star re_space] @ kw ''DROP'' @ [gap] @ kw ''INDEX'' @ [gap, concurrently, if_exists, name_cap]"

definition notNullRE :: "re list" where
  [go_eval]: "notNullRE = [Boundary] @ kw ''NOT'' @ [gap] @ kw ''NULL'' @ [Boundary]"

definition defaultRE :: "re list" where
  [go_eval]: "defaultRE = [Boundary] @ kw ''DEFAULT'' @ [Boundary]"

end
