(* ===== verification/MigrationPlan.thy ===== *)
theory MigrationPlan
  imports MigrationText
begin

text \<open>
  Classifying migration statements and planning a migration (\<^verbatim>\<open>orm/migration/parser.go\<close>, \<^verbatim>\<open>plan.go\<close> and
  \<^verbatim>\<open>review_mode.go\<close>).  Steps found by comparing schemas come in as data; what they carry of the schemas' definitions is not
  part of the model beyond an unknown default.
\<close>

section \<open>Steps\<close>

datatype step_type =
    NoStep
  | AddForeignKey | DropForeignKey | AlterForeignKey | AddCheck | DropCheck | AlterCheck | SchemaIdentityDifference
  | AddTable | DropTable | AddColumn | DropColumn | RenameColumn | AlterColumnType | AlterNullability | AlterIndex
  | AlterColumnDefault | AddIndex | DropIndex | UnsupportedStep

record migration_step =
  ms_ComparisonUnknown :: bool
  ms_DefaultUnknown :: bool
  ms_Type :: step_type
  ms_Table :: gostring
  ms_Column :: gostring
  ms_FromName :: gostring
  ms_ToName :: gostring
  ms_Index :: gostring
  ms_ColumnType :: gostring
  ms_OldType :: gostring
  ms_NewType :: gostring
  ms_Nullable :: "bool option"
  ms_HasDefault :: bool
  ms_DefaultExpression :: gostring
  ms_Concurrent :: bool
  ms_SQL :: gostring
  ms_Line :: nat
  ms_RiskLevel :: gostring
  ms_Warnings :: "warning list"
  ms_Preflight :: "gostring list"
  ms_Precision :: gostring

definition blank_step :: migration_step where
  [go_eval]: "blank_step =
     \<lparr>ms_ComparisonUnknown = False, ms_DefaultUnknown = False, ms_Type = NoStep, ms_Table = [], ms_Column = [], ms_FromName = [],
      ms_ToName = [], ms_Index = [], ms_ColumnType = [], ms_OldType = [], ms_NewType = [], ms_Nullable = None,
      ms_HasDefault = False, ms_DefaultExpression = [], ms_Concurrent = False, ms_SQL = [], ms_Line = 0, ms_RiskLevel = [],
      ms_Warnings = [], ms_Preflight = [], ms_Precision = []\<rparr>"

section \<open>Reading a statement\<close>

definition cleanIdentifier :: "gostring \<Rightarrow> gostring" where
  [go_eval]: "cleanIdentifier s = trim_set quote_marks (trim_right_set {CHR '','', CHR '';''} (trim_space s))"

definition type_stops :: "gostring list" where
  [go_eval]: "type_stops = [''NOT'', ''NULL'', ''DEFAULT'', ''PRIMARY'', ''UNIQUE'', ''CHECK'', ''REFERENCES'', ''CONSTRAINT'', ''COLLATE'', ''COMMENT'']"

definition default_stops :: "gostring list" where
  [go_eval]: "default_stops = [''NOT'', ''NULL'', ''PRIMARY'', ''UNIQUE'', ''CHECK'', ''REFERENCES'', ''CONSTRAINT'', ''COLLATE'', ''COMMENT'']"

fun parts_before :: "gostring list \<Rightarrow> gostring list \<Rightarrow> gostring list" where
  "parts_before stops [] = []"
| "parts_before stops (f # fs) =
     (if to_upper (trim_set {CHR '',''} f) \<in> set stops then [] else trim_right_set {CHR '',''} f # parts_before stops fs)"

definition extractColumnType :: "gostring \<Rightarrow> gostring" where
  [go_eval]: "extractColumnType definition_text = trim_space (join '' '' (parts_before type_stops (GoPrelude.fields (trim_space definition_text))))"

definition extractDefaultExpression :: "gostring \<Rightarrow> gostring" where
  [go_eval]: "extractDefaultExpression definition_text =
     (case find_index defaultRE None definition_text 0 of
        None \<Rightarrow> []
      | Some e \<Rightarrow> trim_space (join '' '' (parts_before default_stops (GoPrelude.fields (trim_space (drop e definition_text))))))"

definition looksLikeDDL :: "gostring \<Rightarrow> bool" where
  [go_eval]: "looksLikeDDL sql \<longleftrightarrow>
     (\<exists>token \<in> set [''CREATE'', ''ALTER'', ''DROP'', ''RENAME'', ''GRANT'', ''REVOKE'']. containsSQLWord (to_upper sql) token)"

text \<open>The expressions in the order they are tried, with what a match gives the step.\<close>

definition statement_rules :: "(re list \<times> (gostring list \<Rightarrow> migration_step \<Rightarrow> migration_step)) list" where
  [go_eval]: "statement_rules =
     [(createTableRE, \<lambda>m s. s\<lparr>ms_Type := AddTable, ms_Table := cleanIdentifier (m ! 0)\<rparr>),
      (dropTableRE, \<lambda>m s. s\<lparr>ms_Type := DropTable, ms_Table := cleanIdentifier (m ! 0)\<rparr>),
      (addColumnRE, \<lambda>m s. s\<lparr>ms_Type := AddColumn, ms_Table := cleanIdentifier (m ! 0), ms_Column := cleanIdentifier (m ! 1),
         ms_ColumnType := extractColumnType (m ! 2), ms_Nullable := Some (find_index notNullRE None (m ! 2) 0 = None),
         ms_HasDefault := find_index defaultRE None (m ! 2) 0 \<noteq> None,
         ms_DefaultExpression := (if find_index defaultRE None (m ! 2) 0 \<noteq> None then extractDefaultExpression (m ! 2) else [])\<rparr>),
      (dropColumnRE, \<lambda>m s. s\<lparr>ms_Type := DropColumn, ms_Table := cleanIdentifier (m ! 0), ms_Column := cleanIdentifier (m ! 1)\<rparr>),
      (renameColRE, \<lambda>m s. s\<lparr>ms_Type := RenameColumn, ms_Table := cleanIdentifier (m ! 0), ms_FromName := cleanIdentifier (m ! 1),
         ms_ToName := cleanIdentifier (m ! 2), ms_Column := cleanIdentifier (m ! 1)\<rparr>),
      (alterTypeRE, \<lambda>m s. s\<lparr>ms_Type := AlterColumnType, ms_Table := cleanIdentifier (m ! 0), ms_Column := cleanIdentifier (m ! 1),
         ms_NewType := extractColumnType (m ! 2), ms_Precision := AnalysisPartial\<rparr>),
      (setNotNullRE, \<lambda>m s. s\<lparr>ms_Type := AlterNullability, ms_Table := cleanIdentifier (m ! 0), ms_Column := cleanIdentifier (m ! 1),
         ms_Nullable := Some False\<rparr>),
      (dropNotNullRE, \<lambda>m s. s\<lparr>ms_Type := AlterNullability, ms_Table := cleanIdentifier (m ! 0), ms_Column := cleanIdentifier (m ! 1),
         ms_Nullable := Some True\<rparr>),
      (modifyColRE, \<lambda>m s. s\<lparr>ms_Type := AlterColumnType, ms_Table := cleanIdentifier (m ! 0), ms_Column := cleanIdentifier (m ! 1),
         ms_NewType := extractColumnType (m ! 2), ms_Precision := AnalysisPartial\<rparr>),
      (changeColRE, \<lambda>m s. s\<lparr>ms_Type := RenameColumn, ms_Table := cleanIdentifier (m ! 0), ms_FromName := cleanIdentifier (m ! 1),
         ms_ToName := cleanIdentifier (m ! 2), ms_Column := cleanIdentifier (m ! 1), ms_NewType := extractColumnType (m ! 3),
         ms_Precision := AnalysisPartial\<rparr>),
      (createIndexRE, \<lambda>m s. s\<lparr>ms_Type := AddIndex, ms_Concurrent := (trim_space (m ! 0) \<noteq> []), ms_Index := cleanIdentifier (m ! 1),
         ms_Table := cleanIdentifier (m ! 2)\<rparr>),
      (dropIndexRE, \<lambda>m s. s\<lparr>ms_Type := DropIndex, ms_Concurrent := (trim_space (m ! 0) \<noteq> []), ms_Index := cleanIdentifier (m ! 1)\<rparr>)]"

fun apply_rules :: "(re list \<times> (gostring list \<Rightarrow> migration_step \<Rightarrow> migration_step)) list \<Rightarrow> gostring \<Rightarrow> migration_step \<Rightarrow> migration_step" where
  "apply_rules [] sql s = s\<lparr>ms_Type := UnsupportedStep, ms_Precision := AnalysisUnsupported\<rparr>"
| "apply_rules ((r, f) # rs) sql s = (case FindStringSubmatch r sql of Some m \<Rightarrow> f m s | None \<Rightarrow> apply_rules rs sql s)"

definition parseMigrationStatement :: "sql_statement \<Rightarrow> migration_step" where
  [go_eval]: "parseMigrationStatement st =
     (let sql = trim_space (ss_SQL st)
      in if sql = [] then blank_step
         else apply_rules statement_rules sql
           (blank_step\<lparr>ms_SQL := sql, ms_Line := ss_Line st, ms_RiskLevel := RiskLow, ms_Precision := AnalysisPrecise\<rparr>))"

section \<open>Types\<close>

definition normalizeType :: "gostring \<Rightarrow> gostring" where
  [go_eval]: "normalizeType s = to_lower (join '' '' (GoPrelude.fields (trim_space s)))"

text \<open>\<^verbatim>\<open>strconv.Atoi\<close>, with zero for a text that is no number and the nearest 64-bit value for one out of range.\<close>

definition atoi :: "gostring \<Rightarrow> int" where
  [go_eval]: "atoi s =
     (case s of
        [] \<Rightarrow> 0
      | c # cs \<Rightarrow>
          let neg = (c = CHR ''-''); ds = (if neg \<or> c = CHR ''+'' then cs else s)
          in if ds = [] \<or> (\<exists>d \<in> set ds. \<not> is_digit d) then 0
             else let n = int (nat_of_digits 0 ds)
               in if neg then max (- (2 ^ 63)) (- n) else min (2 ^ 63 - 1) n)"

definition before_byte :: "char \<Rightarrow> gostring \<Rightarrow> gostring" where
  [go_eval]: "before_byte c s = takeWhile (\<lambda>d. d \<noteq> c) s"

definition parseTypeSize :: "gostring \<Rightarrow> gostring \<times> int" where
  [go_eval]: "parseTypeSize text_of_type =
     (let s = normalizeType text_of_type;
          s = (if has_prefix s ''character varying'' then ''varchar'' @ drop 17 s else s)
      in if CHR ''('' \<notin> set s then (trim_space s, 0)
         else let base = trim_space (before_byte CHR ''('' s); inner = drop (length (before_byte CHR ''('' s) + 1) s
           in if CHR '')'' \<notin> set inner then (base, 0)
              else (base, atoi (before_byte CHR '','' (trim_space (before_byte CHR '')'' inner)))))"

definition type_rank :: "gostring \<Rightarrow> nat option" where
  [go_eval]: "type_rank t =
     (if t = ''smallint'' then Some 1 else if t = ''integer'' \<or> t = ''int'' then Some 2 else if t = ''bigint'' then Some 3
      else if t = ''decimal'' \<or> t = ''numeric'' then Some 4 else if t = ''text'' then Some 5 else None)"

definition typeChangeNarrows :: "gostring \<Rightarrow> gostring \<Rightarrow> bool" where
  [go_eval]: "typeChangeNarrows oldType newType =
     (case (parseTypeSize oldType, parseTypeSize newType) of ((oldBase, oldSize), (newBase, newSize)) \<Rightarrow>
        if oldBase = newBase \<and> oldSize > 0 \<and> newSize > 0 then newSize < oldSize
        else case (type_rank oldBase, type_rank newBase) of (Some a, Some b) \<Rightarrow> b < a | _ \<Rightarrow> False)"

definition typeChangeExpands :: "gostring \<Rightarrow> gostring \<Rightarrow> bool" where
  [go_eval]: "typeChangeExpands oldType newType =
     (case (parseTypeSize oldType, parseTypeSize newType) of ((oldBase, oldSize), (newBase, newSize)) \<Rightarrow>
        if oldBase = newBase \<and> oldSize > 0 \<and> newSize > 0 then newSize \<ge> oldSize
        else case (type_rank oldBase, type_rank newBase) of (Some a, Some b) \<Rightarrow> b > a | _ \<Rightarrow> False)"

definition classifyTypeChange :: "gostring \<Rightarrow> gostring \<Rightarrow> gostring \<times> gostring \<times> gostring \<times> gostring" where
  [go_eval]: "classifyTypeChange oldType newType =
     (let old = normalizeType oldType; new = normalizeType newType
      in if old = [] then (RiskHigh, ''MIGRATION_ALTER_COLUMN_TYPE'', ''migration alters a column type without known previous type'',
            ''verify whether the change narrows data and test conversion on production-like data'')
         else if typeChangeNarrows old new then (RiskDestructive, ''MIGRATION_TYPE_NARROWING'', ''migration appears to narrow a column type'',
            ''avoid narrowing in-place; back up data and use a staged conversion'')
         else if typeChangeExpands old new then (RiskMedium, ''MIGRATION_ALTER_COLUMN_TYPE'', ''migration appears to expand a column type'',
            ''confirm the database can apply this type change without long locks'')
         else (RiskHigh, ''MIGRATION_ALTER_COLUMN_TYPE'', ''migration alters a column type with unknown conversion risk'',
            ''verify data compatibility and locking behavior before applying''))"

section \<open>Risk of a step\<close>

definition dropTablePreflight :: "gostring \<Rightarrow> gostring list" where
  [go_eval]: "dropTablePreflight table =
     [''confirm no application code references '' @ table,
      ''confirm the table has been unused for the agreed retention window'',
      ''backup the table before migration'',
      ''deploy code that stops writing this table before dropping it'']"

definition dropColumnPreflight :: "gostring \<Rightarrow> gostring \<Rightarrow> gostring list" where
  [go_eval]: "dropColumnPreflight table col =
     [''confirm no application code references '' @ table @ ''.'' @ col,
      ''confirm the column has been unused for the agreed retention window'',
      ''backup the table before migration'',
      ''deploy code that stops reading and writing this column before dropping it'']"

definition addNotNullColumnPreflight :: "gostring \<Rightarrow> gostring \<Rightarrow> gostring list" where
  [go_eval]: "addNotNullColumnPreflight table col =
     [''confirm existing rows in '' @ table @ '' can be backfilled for '' @ col,
      ''add the column nullable first when the table already has rows'',
      ''backfill existing rows before enforcing NOT NULL'',
      ''verify lock behavior on the target database'']"

definition renameColumnPreflight :: "gostring \<Rightarrow> gostring \<Rightarrow> gostring \<Rightarrow> gostring list" where
  [go_eval]: "renameColumnPreflight table fromName toName =
     [''confirm no deployed application code still references '' @ table @ ''.'' @ fromName,
      ''prefer add new column, dual write, backfill, switch reads, then drop old column'',
      ''verify rollback behavior while both column names may be in use'',
      ''coordinate deploy order with migration application'']"

definition alterTypePreflight :: "gostring \<Rightarrow> gostring \<Rightarrow> gostring list" where
  [go_eval]: "alterTypePreflight table col =
     [''check every existing value in '' @ table @ ''.'' @ col @ '' can be converted'',
      ''test conversion on production-like data'',
      ''backup affected data before migration'',
      ''verify lock duration and rollback behavior on the target database'']"

definition setNotNullPreflight :: "gostring \<Rightarrow> gostring \<Rightarrow> gostring list" where
  [go_eval]: "setNotNullPreflight table col =
     [''check for existing NULL values in '' @ table @ ''.'' @ col,
      ''backfill existing rows before enforcing NOT NULL'',
      ''verify writes already provide '' @ table @ ''.'' @ col,
      ''verify lock behavior on the target database'']"

definition structuralOnly :: "step_type \<Rightarrow> bool" where
  [go_eval]: "structuralOnly t \<longleftrightarrow>
     t \<in> {AlterIndex, AlterColumnDefault, AddForeignKey, DropForeignKey, AlterForeignKey, AddCheck, DropCheck, AlterCheck,
       SchemaIdentityDifference}"

definition step_warning :: "gostring \<Rightarrow> gostring \<Rightarrow> gostring \<Rightarrow> gostring \<Rightarrow> bool \<Rightarrow> nat \<Rightarrow> warning" where
  [go_eval]: "step_warning code level message hint suppressible line =
     (newWarning code level message hint suppressible False)
       \<lparr>wn_Location := Some \<lparr>sl_File = [], sl_Line = int line, sl_Column = 0\<rparr>\<rparr>"

text \<open>A step's level with one warning of that level, and its preflight checks.\<close>

definition rate :: "gostring \<Rightarrow> gostring \<Rightarrow> gostring \<Rightarrow> gostring \<Rightarrow> bool \<Rightarrow> gostring list \<Rightarrow> migration_step \<Rightarrow> migration_step" where
  [go_eval]: "rate level code message hint suppressible preflight s =
     s\<lparr>ms_RiskLevel := level, ms_Warnings := ms_Warnings s @ [step_warning code level message hint suppressible (ms_Line s)],
       ms_Preflight := (if preflight = [] then ms_Preflight s else preflight)\<rparr>"

definition step_nullable :: "migration_step \<Rightarrow> bool" where
  [go_eval]: "step_nullable s = (case ms_Nullable s of None \<Rightarrow> True | Some b \<Rightarrow> b)"

definition classify_added_column :: "migration_step \<Rightarrow> migration_step" where
  [go_eval]: "classify_added_column s =
     (if step_nullable s then s\<lparr>ms_RiskLevel := RiskLow\<rparr>
      else if ms_HasDefault s then rate RiskMedium ''MIGRATION_ADD_NOT_NULL_COLUMN'' ''migration adds a NOT NULL column with a default''
        ''review lock/backfill behavior for the target database before applying'' True [] s
      else rate RiskHigh ''MIGRATION_ADD_NOT_NULL_COLUMN'' ''migration adds a NOT NULL column without a default''
        ''add the column nullable, backfill it, then enforce NOT NULL in a later migration'' True
        (addNotNullColumnPreflight (ms_Table s) (ms_Column s)) s)"

definition classify_type_change :: "migration_step \<Rightarrow> migration_step" where
  [go_eval]: "classify_type_change s =
     (case classifyTypeChange (ms_OldType s) (ms_NewType s) of (level, code, message, hint) \<Rightarrow>
        rate level code message hint (level \<noteq> RiskDestructive)
          (if compareRisk level RiskHigh \<ge> 0 then alterTypePreflight (ms_Table s) (ms_Column s) else []) s)"

definition classifyStep :: "migration_step \<Rightarrow> migration_step" where
  [go_eval]: "classifyStep s =
     (if ms_ComparisonUnknown s \<or> ms_Type s = AddColumn \<and> ms_DefaultUnknown s
      then (rate RiskBlocked ''SCHEMA_COMPARISON_UNKNOWN'' ''schema definition comparison is incomplete''
        ''supply an unambiguous supported declaration; unknown does not mean absent'' False [] s)\<lparr>ms_Precision := AnalysisUnsupported\<rparr>
      else if structuralOnly (ms_Type s) \<and> ms_Type s \<noteq> AlterIndex \<and> ms_Type s \<noteq> AlterColumnDefault
      then (rate RiskHigh ''MIGRATION_UNSUPPORTED'' ''structural definition change has no execution recipe'' ''review manually'' False [] s)
        \<lparr>ms_Precision := AnalysisPartial\<rparr>
      else case ms_Type s of
        AddTable \<Rightarrow> s\<lparr>ms_RiskLevel := RiskLow\<rparr>
      | DropTable \<Rightarrow> rate RiskDestructive ''MIGRATION_DROP_TABLE'' ''migration drops a table''
          ''confirm table ownership, usage, backups, and rollback plan before applying'' False (dropTablePreflight (ms_Table s)) s
      | AddColumn \<Rightarrow> classify_added_column s
      | DropColumn \<Rightarrow> rate RiskDestructive ''MIGRATION_DROP_COLUMN'' ''migration drops a column''
          ''deploy code that no longer reads or writes the column before dropping it'' False
          (dropColumnPreflight (ms_Table s) (ms_Column s)) s
      | RenameColumn \<Rightarrow> rate RiskHigh ''MIGRATION_RENAME_COLUMN'' ''migration renames a column''
          ''use a backward-compatible expand/backfill/contract sequence when possible'' True
          (renameColumnPreflight (ms_Table s) (ms_FromName s) (ms_ToName s)) s
      | AlterColumnType \<Rightarrow> classify_type_change s
      | AlterNullability \<Rightarrow>
          if step_nullable s then s\<lparr>ms_RiskLevel := RiskLow\<rparr>
          else rate RiskHigh ''MIGRATION_SET_NOT_NULL'' ''migration enforces NOT NULL on an existing column''
            ''backfill existing NULL values before enforcing NOT NULL'' True (setNotNullPreflight (ms_Table s) (ms_Column s)) s
      | AlterIndex \<Rightarrow> (rate RiskHigh ''MIGRATION_ALTER_INDEX'' ''structural definition changed; execution effects are unverified''
            ''review replacement order, dependencies, data constraints and database behavior separately'' False [] s)
          \<lparr>ms_Precision := AnalysisPartial\<rparr>
      | AlterColumnDefault \<Rightarrow> (rate RiskHigh ''MIGRATION_ALTER_COLUMN_DEFAULT''
            ''structural definition changed; execution effects are unverified''
            ''review replacement order, dependencies, data constraints and database behavior separately'' False [] s)
          \<lparr>ms_Precision := AnalysisPartial\<rparr>
      | AddIndex \<Rightarrow>
          if ms_Concurrent s then s\<lparr>ms_RiskLevel := RiskLow\<rparr>
          else rate RiskMedium ''MIGRATION_ADD_INDEX_NON_CONCURRENT'' ''migration adds an index without CONCURRENTLY''
            ''use concurrent or online index creation when supported by the database'' True [] s
      | DropIndex \<Rightarrow> rate RiskMedium ''MIGRATION_DROP_INDEX'' ''migration drops an index''
          ''confirm no critical query plan depends on this index before applying'' True [] s
      | UnsupportedStep \<Rightarrow> rate RiskBlocked ''MIGRATION_UNSUPPORTED'' ''migration statement could not be classified''
          ''review this SQL manually and add a structured migration plan before applying'' False [] s
      | _ \<Rightarrow> s)"

section \<open>Plans\<close>

record migration_plan =
  mp_ComparisonIncomplete :: bool
  mp_SQL :: gostring
  mp_Statements :: "sql_statement list"
  mp_Steps :: "migration_step list"
  mp_RiskLevel :: gostring
  mp_Warnings :: "warning list"
  mp_RequiredApproval :: bool
  mp_Blocked :: bool
  mp_Approval :: "approval option"
  mp_Precision :: gostring
  mp_ReviewMode :: gostring

definition blank_migration :: "gostring \<Rightarrow> migration_plan" where
  [go_eval]: "blank_migration sql =
     \<lparr>mp_ComparisonIncomplete = False, mp_SQL = sql, mp_Statements = [], mp_Steps = [], mp_RiskLevel = RiskLow, mp_Warnings = [],
      mp_RequiredApproval = False, mp_Blocked = False, mp_Approval = None, mp_Precision = AnalysisPrecise, mp_ReviewMode = []\<rparr>"

fun worst_precision :: "gostring \<Rightarrow> migration_step list \<Rightarrow> gostring" where
  "worst_precision p [] = p"
| "worst_precision p (s # ss) =
     worst_precision
       (if ms_Precision s = AnalysisUnsupported then AnalysisUnsupported
        else if ms_Precision s = AnalysisPartial \<and> p = AnalysisPrecise then AnalysisPartial else p) ss"

definition finalizeMigration :: "migration_plan \<Rightarrow> migration_plan" where
  [go_eval]: "finalizeMigration p =
     (let ws = mp_Warnings p @ concat (map ms_Warnings (mp_Steps p))
      in case aggregateWarnings ws of (level, blocked) \<Rightarrow>
        p\<lparr>mp_Warnings := ws, mp_Precision := worst_precision AnalysisPrecise (mp_Steps p), mp_RiskLevel := level,
          mp_Blocked := (blocked \<or> (\<exists>s \<in> set (mp_Steps p). structuralOnly (ms_Type s))),
          mp_RequiredApproval := requiresApprovalLevel level,
          mp_ComparisonIncomplete := (mp_ComparisonIncomplete p \<or> (\<exists>s \<in> set (mp_Steps p). ms_ComparisonUnknown s))\<rparr>)"

definition PlanSQL :: "gostring \<Rightarrow> migration_plan" where
  [go_eval]: "PlanSQL sql =
     (let sts = splitSQLStatements sql;
          steps = map classifyStep (filter (\<lambda>s. ms_Type s \<noteq> NoStep) (map parseMigrationStatement sts))
      in finalizeMigration ((blank_migration sql)\<lparr>mp_Statements := sts, mp_Steps := steps\<rparr>))"

definition PlanSteps :: "migration_step list \<Rightarrow> migration_plan" where
  [go_eval]: "PlanSteps steps =
     finalizeMigration ((blank_migration [])\<lparr>mp_Steps :=
       map (\<lambda>s. classifyStep (if ms_Precision s = [] then s\<lparr>ms_Precision := AnalysisPrecise\<rparr> else s)) steps\<rparr>)"

definition EnsureExecutable :: "migration_plan \<Rightarrow> int \<Rightarrow> exec_error option" where
  [go_eval]: "EnsureExecutable p now =
     (if (\<exists>s \<in> set (mp_Steps p). structuralOnly (ms_Type s) \<or> ms_ComparisonUnknown s) \<or> mp_ComparisonIncomplete p
      then Some (BlockedOperation [])
      else if mp_Blocked p then Some (BlockedOperation (warningCodes (mp_Warnings p)))
      else if \<not> mp_RequiredApproval p then None
      else case mp_Approval p of
        None \<Rightarrow> Some (ApprovalRequired (warningCodes (mp_Warnings p)))
      | Some a \<Rightarrow>
          if trim_space (ap_Reason a) = [] then Some (ApprovalRequired (warningCodes (mp_Warnings p)))
          else if expired (ap_ExpiresAt a) now then Some (ApprovalRequired ''approval expired'')
          else None)"

section \<open>The backfill review mode\<close>

definition backfill_warning :: "gostring \<Rightarrow> gostring \<Rightarrow> nat \<Rightarrow> warning" where
  [go_eval]: "backfill_warning message hint line = step_warning ''MIGRATION_BACKFILL_REVIEW'' RiskMedium message hint True line"

definition backfillReviewForStep :: "migration_step \<Rightarrow> warning list \<times> gostring list" where
  [go_eval]: "backfillReviewForStep s =
     (if ms_Type s = AddColumn then
        (if step_nullable s
         then ([], [''document whether the new column needs a backfill before application code depends on it''])
         else ([backfill_warning ''backfill review mode requires evidence for a NOT NULL column rollout''
                  ''prefer add nullable, backfill in batches, then enforce NOT NULL after evidence is collected'' (ms_Line s)],
               [''record the backfill query, batch size, retry behavior, and expected runtime'',
                ''attach before/after row counts or NULL-count evidence before enforcing NOT NULL'',
                ''confirm the application can tolerate the column during the expand/backfill/contract window'']))
      else if ms_Type s = AlterNullability then
        (if step_nullable s then ([], [])
         else ([backfill_warning ''backfill review mode requires evidence before enforcing NOT NULL''
                  ''attach a zero-NULL proof or a completed backfill record before applying'' (ms_Line s)],
               [''run and record a zero-NULL verification query for the target column'',
                ''confirm any backfill job completed successfully before enforcing NOT NULL'']))
      else if ms_Type s = AlterColumnType \<or> ms_Type s = RenameColumn \<or> ms_Type s = DropColumn then
        ([backfill_warning ''backfill review mode requires rollout evidence for shape-changing migrations''
            ''use expand/backfill/contract and attach compatibility evidence before applying'' (ms_Line s)],
         [''confirm read/write compatibility across old and new application versions'',
          ''record backfill or dual-write verification evidence before the contract step''])
      else ([], []))"

fun append_unique :: "gostring list \<Rightarrow> gostring list \<Rightarrow> gostring list" where
  "append_unique dst [] = dst"
| "append_unique dst (v # vs) =
     (let t = trim_space v in append_unique (if t = [] \<or> t \<in> set dst then dst else dst @ [t]) vs)"

definition review_step :: "migration_step \<Rightarrow> migration_step" where
  [go_eval]: "review_step s =
     (case backfillReviewForStep s of (ws, pf) \<Rightarrow>
        if ws = [] \<and> pf = [] then s
        else s\<lparr>ms_Warnings := ms_Warnings s @ ws, ms_Preflight := append_unique (ms_Preflight s) pf\<rparr>)"

definition applyBackfillReviewMode :: "migration_plan \<Rightarrow> migration_plan" where
  [go_eval]: "applyBackfillReviewMode p =
     (let ws = mp_Warnings p @ concat (map (fst \<circ> backfillReviewForStep) (mp_Steps p))
      in case aggregateWarnings ws of (level, blocked) \<Rightarrow>
        p\<lparr>mp_ReviewMode := ''backfill'', mp_Steps := map review_step (mp_Steps p), mp_Warnings := ws, mp_RiskLevel := level,
          mp_Blocked := blocked, mp_RequiredApproval := requiresApprovalLevel level\<rparr>)"

definition ApplyReviewMode :: "gostring \<Rightarrow> migration_plan \<Rightarrow> gostring + migration_plan" where
  [go_eval]: "ApplyReviewMode mode p =
     (let m = to_lower (trim_space mode)
      in if m = [] then Inr p
         else if m = ''backfill'' then Inr (applyBackfillReviewMode p)
         else Inl (''goquent: unsupported migration review mode '' @ m))"

section \<open>The migrator\<close>

record migrator =
  mg_sql :: gostring
  mg_approval :: "approval option"
  mg_reviewMode :: gostring

definition approve_migration :: "gostring \<Rightarrow> int \<Rightarrow> migrator \<Rightarrow> migrator" where
  [go_eval]: "approve_migration why now m =
     (let r = trim_space why
      in if r = [] then m
         else m\<lparr>mg_approval := Some \<lparr>ap_Reason = r, ap_Scope = [], ap_CreatedBy = [], ap_CreatedAt = now, ap_ExpiresAt = None\<rparr>\<rparr>)"

definition PlanMigration :: "migrator \<Rightarrow> gostring + migration_plan" where
  [go_eval]: "PlanMigration m =
     (case ApplyReviewMode (mg_reviewMode m) (PlanSQL (mg_sql m)) of
        Inl e \<Rightarrow> Inl e
      | Inr p \<Rightarrow> Inr (case mg_approval m of None \<Rightarrow> p | Some a \<Rightarrow> p\<lparr>mp_Approval := Some a\<rparr>))"

text \<open>The database runs each statement or fails: \<^term>\<open>exec\<close> tells, given what was run before.  What was run is returned.\<close>

fun run_statements :: "(gostring list \<Rightarrow> gostring \<Rightarrow> bool) \<Rightarrow> gostring list \<Rightarrow> gostring list \<Rightarrow> gostring list \<times> bool" where
  "run_statements exec past [] = (past, True)"
| "run_statements exec past (q # qs) =
     (if trim_space q = [] then run_statements exec past qs
      else if exec past q then run_statements exec (past @ [q]) qs
      else (past @ [q], False))"

datatype apply_result = PlanFailed gostring | GateRefused exec_error | Ran "gostring list" bool

definition Apply :: "(gostring list \<Rightarrow> gostring \<Rightarrow> bool) \<Rightarrow> migrator \<Rightarrow> int \<Rightarrow> apply_result" where
  [go_eval]: "Apply exec m now =
     (case PlanMigration m of
        Inl e \<Rightarrow> PlanFailed e
      | Inr p \<Rightarrow>
          (case EnsureExecutable p now of
             Some e \<Rightarrow> GateRefused e
           | None \<Rightarrow> (case run_statements exec [] (map ss_SQL (mp_Statements p)) of (past, ok) \<Rightarrow> Ran past ok)))"

section \<open>What a migration that ran was allowed to do\<close>

text \<open>The steps that lose data or fail on the rows a table has.\<close>

definition hazardous :: "migration_step \<Rightarrow> bool" where
  [go_eval]: "hazardous s \<longleftrightarrow>
     ms_Type s \<in> {DropTable, DropColumn, RenameColumn, AlterColumnType} \<or>
     ms_Type s = AlterNullability \<and> \<not> step_nullable s \<or> ms_Type s = AddColumn \<and> \<not> step_nullable s \<and> \<not> ms_HasDefault s"

lemma rate_fields:
  "ms_Warnings (rate level code message hint sps pf s) = ms_Warnings s @ [step_warning code level message hint sps (ms_Line s)]"
  "ms_Type (rate level code message hint sps pf s) = ms_Type s"
  "ms_ComparisonUnknown (rate level code message hint sps pf s) = ms_ComparisonUnknown s"
  by (simp_all add: rate_def)

lemma step_warning_level [simp]: "wn_Level (step_warning code level message hint sps line) = level"
  by (simp add: step_warning_def newWarning_def)

lemma normalizeType_Nil: "normalizeType [] = []"
  by code_simp

lemma classify_type_change_warning:
  "ms_OldType s = [] \<Longrightarrow> \<exists>w \<in> set (ms_Warnings (classify_type_change s)). 2 \<le> riskRank (wn_Level w)"
  by (simp add: classify_type_change_def classifyTypeChange_def normalizeType_Nil rate_fields Let_def)

lemma hazardous_warning:
  assumes "hazardous s" "ms_OldType s = []"
  shows "\<exists>w \<in> set (ms_Warnings (classifyStep s)). 2 \<le> riskRank (wn_Level w)"
proof (cases "ms_ComparisonUnknown s \<or> ms_Type s = AddColumn \<and> ms_DefaultUnknown s")
  case True
  then show ?thesis by (simp add: classifyStep_def rate_fields)
next
  case False
  with assms classify_type_change_warning [of s] show ?thesis
    by (cases "ms_Type s") (auto simp: hazardous_def classifyStep_def structuralOnly_def rate_fields classify_added_column_def)
qed

lemma unsupported_warning:
  "ms_Type s = UnsupportedStep \<Longrightarrow> \<exists>w \<in> set (ms_Warnings (classifyStep s)). wn_Level w = RiskBlocked"
  by (simp add: classifyStep_def structuralOnly_def rate_fields)

lemma apply_rules_OldType:
  "list_all (\<lambda>(r, f). \<forall>m s. ms_OldType (f m s) = ms_OldType s) rules \<Longrightarrow> ms_OldType (apply_rules rules sql s) = ms_OldType s"
  by (induction rules sql s rule: apply_rules.induct) (auto split: option.splits)

lemma parsed_OldType: "ms_OldType (parseMigrationStatement st) = []"
proof -
  have "list_all (\<lambda>(r, f). \<forall>m s. ms_OldType (f m s) = ms_OldType s) statement_rules"
    by (simp add: statement_rules_def)
  then show ?thesis
    by (simp add: parseMigrationStatement_def Let_def apply_rules_OldType blank_step_def)
qed

text \<open>A plan of a text carries every warning of its steps, also under the review mode.\<close>

lemma PlanSQL_parts:
  "mp_Statements (PlanSQL sql) = splitSQLStatements sql"
  "st \<in> set (splitSQLStatements sql) \<Longrightarrow> ms_Type (parseMigrationStatement st) \<noteq> NoStep \<Longrightarrow>
     w \<in> set (ms_Warnings (classifyStep (parseMigrationStatement st))) \<Longrightarrow> w \<in> set (mp_Warnings (PlanSQL sql))"
  by (auto simp: PlanSQL_def finalizeMigration_def Let_def split_beta)

definition gate_consistent :: "migration_plan \<Rightarrow> bool" where
  "gate_consistent p \<longleftrightarrow>
     ((\<exists>w \<in> set (mp_Warnings p). wn_Level w = RiskBlocked) \<longrightarrow> mp_Blocked p) \<and>
     ((\<exists>w \<in> set (mp_Warnings p). 2 \<le> riskRank (wn_Level w)) \<longrightarrow> mp_Blocked p \<or> mp_RequiredApproval p)"

lemma aggregate_gate:
  assumes "aggregateWarnings ws = (level, blocked)"
  shows "((\<exists>w \<in> set ws. wn_Level w = RiskBlocked) \<longrightarrow> blocked) \<and>
     ((\<exists>w \<in> set ws. 2 \<le> riskRank (wn_Level w)) \<longrightarrow> blocked \<or> requiresApprovalLevel level)"
proof -
  from assms have l: "riskRank level = top_rank ws" and b: "blocked \<longleftrightarrow> (\<exists>w \<in> set ws. wn_Level w = RiskBlocked)"
    using aggregateWarnings_rank [of ws] aggregateWarnings_blocked [of ws] by auto
  have "blocked \<or> requiresApprovalLevel level" if w: "w \<in> set ws" "2 \<le> riskRank (wn_Level w)" for w
  proof (cases "top_rank ws = 4")
    case True
    then obtain v where "v \<in> set ws" "riskRank (wn_Level v) = 4" using top_rank_reached [of ws] by auto
    then show ?thesis using b by auto
  next
    case False
    then show ?thesis
      using top_rank_ge [OF w(1)] w(2) riskRank_le [of level] unfolding requiresApprovalLevel_rank l by linarith
  qed
  with b show ?thesis by blast
qed

lemma PlanSQL_gate: "gate_consistent (PlanSQL sql)"
proof -
  have "gate_consistent (finalizeMigration p)" for p
  proof -
    let ?ws = "mp_Warnings p @ concat (map ms_Warnings (mp_Steps p))"
    obtain level blocked where a: "aggregateWarnings ?ws = (level, blocked)" by (cases "aggregateWarnings ?ws")
    then show ?thesis
      using aggregate_gate [OF a] by (simp only: finalizeMigration_def gate_consistent_def Let_def a prod.case) (simp, blast)
  qed
  then show ?thesis by (simp add: PlanSQL_def Let_def)
qed

lemma review_mode_keeps:
  assumes "ApplyReviewMode mode p = Inr q" "gate_consistent p"
  shows "gate_consistent q \<and> set (mp_Warnings p) \<subseteq> set (mp_Warnings q) \<and> mp_Statements q = mp_Statements p \<and> mp_Approval q = mp_Approval p"
proof (cases "to_lower (trim_space mode) = []")
  case True
  with assms show ?thesis by (simp add: ApplyReviewMode_def Let_def)
next
  case False
  with assms have q: "q = applyBackfillReviewMode p"
    by (simp add: ApplyReviewMode_def Let_def split: if_splits)
  let ?ws = "mp_Warnings p @ concat (map (fst \<circ> backfillReviewForStep) (mp_Steps p))"
  obtain level blocked where a: "aggregateWarnings ?ws = (level, blocked)" by (cases "aggregateWarnings ?ws")
  have "gate_consistent (applyBackfillReviewMode p)"
    using aggregate_gate [OF a] by (simp only: applyBackfillReviewMode_def gate_consistent_def Let_def a prod.case) simp
  then show ?thesis
    by (simp add: q applyBackfillReviewMode_def Let_def split_beta)
qed

lemma PlanMigration_keeps:
  assumes "PlanMigration m = Inr p"
  shows "gate_consistent p \<and> set (mp_Warnings (PlanSQL (mg_sql m))) \<subseteq> set (mp_Warnings p) \<and>
    mp_Statements p = splitSQLStatements (mg_sql m) \<and> mp_Approval p = mg_approval m"
proof -
  from assms obtain q where q: "ApplyReviewMode (mg_reviewMode m) (PlanSQL (mg_sql m)) = Inr q"
    and p: "p = (case mg_approval m of None \<Rightarrow> q | Some a \<Rightarrow> q\<lparr>mp_Approval := Some a\<rparr>)"
    by (auto simp: PlanMigration_def split: sum.splits)
  have "mp_Approval (PlanSQL (mg_sql m)) = None"
    by (simp add: PlanSQL_def finalizeMigration_def blank_migration_def Let_def split_beta)
  with review_mode_keeps [OF q PlanSQL_gate] show ?thesis
    by (auto simp: p gate_consistent_def PlanSQL_parts split: option.splits)
qed

lemma run_statements_prefix:
  "list_all (\<lambda>q. trim_space q \<noteq> []) qs \<Longrightarrow> run_statements exec past qs = (past', ok) \<Longrightarrow>
   \<exists>rest. past @ qs = past' @ rest \<and> (ok \<longrightarrow> rest = [])"
proof (induction exec past qs rule: run_statements.induct)
  case (2 exec past q qs)
  then show ?case by (auto split: if_splits)
qed auto

definition nonblank :: "sql_statement list \<Rightarrow> bool" where
  "nonblank sts \<longleftrightarrow> list_all (\<lambda>q. trim_space q \<noteq> []) (map ss_SQL sts)"

lemma nonblank_parts: "nonblank (us @ vs) \<longleftrightarrow> nonblank us \<and> nonblank vs" "nonblank (flush b l)"
  by (simp_all add: nonblank_def flush_def Let_def)

lemma split_from_nonblank: "length s \<le> n \<Longrightarrow> nonblank (split_from m b line start s)"
proof (induction n arbitrary: m b line start s)
  case 0
  then show ?case by (simp add: split_from.simps(1) nonblank_parts)
next
  case (Suc n)
  show ?case
  proof (cases s)
    case Nil
    then show ?thesis by (simp add: split_from.simps(1) nonblank_parts)
  next
    case (Cons c cs)
    have "nonblank (split_from m b line start cs)" "nonblank (split_from m b line start (tl cs))" for m b line start
      using Suc.prems Cons by (auto intro!: Suc.IH)
    then show ?thesis
      unfolding Cons split_from.simps(2) Let_def by (simp add: nonblank_parts)
  qed
qed

lemma statements_nonblank: "list_all (\<lambda>q. trim_space q \<noteq> []) (map ss_SQL (splitSQLStatements sql))"
  using split_from_nonblank [OF order_refl] by (simp add: splitSQLStatements_def nonblank_def del: list_all_length)

lemma executable_plan:
  assumes "EnsureExecutable p now = None"
  shows "\<not> mp_Blocked p \<and> (mp_RequiredApproval p \<longrightarrow>
    (\<exists>a. mp_Approval p = Some a \<and> trim_space (ap_Reason a) \<noteq> [] \<and> \<not> expired (ap_ExpiresAt a) now))"
  using assms by (auto simp: EnsureExecutable_def split: if_splits option.splits)

section \<open>Properties\<close>


section \<open>Concrete migrations\<close>

definition drop_users :: migrator where
  "drop_users = \<lparr>mg_sql = ''DROP TABLE users'', mg_approval = Some \<lparr>ap_Reason = ''unused'', ap_Scope = [], ap_CreatedBy = [],
     ap_CreatedAt = 0, ap_ExpiresAt = Some 9\<rparr>, mg_reviewMode = ''backfill''\<rparr>"

lemma drop_users_runs: "Apply (\<lambda>past q. True) drop_users 5 = Ran [''DROP TABLE users''] True"
  unfolding drop_users_def by code_simp

text \<open>The same migration is refused without its approval, and after the approval has expired.\<close>

lemma drop_users_refused:
  "Apply (\<lambda>past q. True) (drop_users\<lparr>mg_approval := None\<rparr>) 5 =
     GateRefused (ApprovalRequired ''MIGRATION_DROP_TABLE'')"
  unfolding drop_users_def by code_simp

text \<open>A second action in one statement is not seen: the drop runs as a low-risk addition, without approval.\<close>

lemma second_action_unseen:
  "Apply (\<lambda>past q. True)
     \<lparr>mg_sql = ''ALTER TABLE t ADD COLUMN a int, DROP COLUMN b'', mg_approval = None, mg_reviewMode = []\<rparr> 5 =
   Ran [''ALTER TABLE t ADD COLUMN a int, DROP COLUMN b''] True"
  by code_simp

text \<open>A comment between two words leaves nothing in its place.\<close>

lemma comment_joins_words: "map ss_SQL (splitSQLStatements ''DROP/* old */TABLE t'') = [''DROPTABLE t'']"
  by code_simp


end
