(* ===== verification/SelectBuilder.thy ===== *)
theory SelectBuilder
  imports WhereBuilder
begin

text \<open>
  The select builder around the conditions (\<^verbatim>\<open>internal/query/selectbuilder.go\<close>, \<^verbatim>\<open>joinbuilder.go\<close>, \<^verbatim>\<open>Joinclausebuilder.go\<close>,
  \<^verbatim>\<open>orderbybuilder.go\<close> and \<^verbatim>\<open>state.go\<close>): its columns, joins, grouping, order and limits, the query it builds and the copying of a
  query's state into another builder.  A method is a function on the builder's state; one that dereferences a nil pointer gives
  nothing.  A query given to a union or a join is taken as it is at that moment.
\<close>

section \<open>Columns\<close>

definition zero_column :: select_column where
  [go_eval]: "zero_column = \<lparr>sc_Name = [], sc_Raw = [], sc_Values = [], sc_Distinct = False, sc_Count = False, sc_Function = []\<rparr>"

definition append_column :: "select_column \<Rightarrow> select_builder \<Rightarrow> select_builder" where
  [go_eval]: "append_column c b = b\<lparr>sb_Columns := sb_Columns b @ [c]\<rparr>"

definition BTable :: "gostring \<Rightarrow> select_builder \<Rightarrow> select_builder" where
  [go_eval]: "BTable table b = b\<lparr>sb_Table := table\<rparr>"

definition BSelect :: "gostring list \<Rightarrow> select_builder \<Rightarrow> select_builder" where
  [go_eval]: "BSelect cols b = fold (\<lambda>c. append_column (zero_column\<lparr>sc_Name := c\<rparr>)) cols b"

definition BSelectRaw :: "gostring \<Rightarrow> goval list \<Rightarrow> select_builder \<Rightarrow> select_builder" where
  [go_eval]: "BSelectRaw raw vals = append_column (zero_column\<lparr>sc_Raw := raw, sc_Values := vals\<rparr>)"

text \<open>Columns selected already are marked; a name is added unless some column counts by then.\<close>

definition BCount :: "gostring list \<Rightarrow> select_builder \<Rightarrow> select_builder" where
  [go_eval]: "BCount names b =
     (let cols = (if names = [] then [''*''] else names);
          marked = b\<lparr>sb_Columns := map (\<lambda>c. if sc_Name c \<in> set cols then c\<lparr>sc_Count := True\<rparr> else c) (sb_Columns b)\<rparr>
      in fold (\<lambda>name s. if list_ex sc_Count (sb_Columns s) then s
           else append_column (zero_column\<lparr>sc_Name := name, sc_Count := True\<rparr>) s) cols marked)"

definition aggregate :: "gostring \<Rightarrow> gostring \<Rightarrow> select_builder \<Rightarrow> select_builder" where
  [go_eval]: "aggregate col fn = append_column (zero_column\<lparr>sc_Name := col, sc_Function := fn\<rparr>)"

definition BMax :: "gostring \<Rightarrow> select_builder \<Rightarrow> select_builder" where
  [go_eval]: "BMax col = aggregate col ''MAX''"

definition BMin :: "gostring \<Rightarrow> select_builder \<Rightarrow> select_builder" where
  [go_eval]: "BMin col = aggregate col ''MIN''"

definition BSum :: "gostring \<Rightarrow> select_builder \<Rightarrow> select_builder" where
  [go_eval]: "BSum col = aggregate col ''SUM''"

definition BAvg :: "gostring \<Rightarrow> select_builder \<Rightarrow> select_builder" where
  [go_eval]: "BAvg col = aggregate col ''AVG''"

definition BDistinct :: "gostring list \<Rightarrow> select_builder \<Rightarrow> select_builder" where
  [go_eval]: "BDistinct names b =
     fold (\<lambda>name s. if list_ex sc_Count (sb_Columns s) then s
         else append_column (zero_column\<lparr>sc_Name := name, sc_Distinct := True\<rparr>) s) names
       (b\<lparr>sb_Columns := map (\<lambda>c. if sc_Name c \<in> set names then c\<lparr>sc_Distinct := True\<rparr> else c) (sb_Columns b)\<rparr>)"

section \<open>Grouping, order and limits\<close>

definition BGroupBy :: "gostring list \<Rightarrow> select_builder \<Rightarrow> select_builder" where
  [go_eval]: "BGroupBy cols b = b\<lparr>sb_Group := (cols, Some [])\<rparr>"

text \<open>Before \<^verbatim>\<open>GroupBy\<close> there is no list of conditions to append to.\<close>

definition append_having :: "having \<Rightarrow> select_builder \<Rightarrow> select_builder option" where
  [go_eval]: "append_having h b =
     (case snd (sb_Group b) of None \<Rightarrow> None | Some hs \<Rightarrow> Some (b\<lparr>sb_Group := (fst (sb_Group b), Some (hs @ [h]))\<rparr>))"

definition BHaving :: "gostring \<Rightarrow> gostring \<Rightarrow> goval \<Rightarrow> select_builder \<Rightarrow> select_builder option" where
  [go_eval]: "BHaving col cond v = append_having \<lparr>hv_Column = col, hv_Condition = cond, hv_Value = v, hv_Operator = op_AND, hv_Raw = []\<rparr>"

definition BHavingRaw :: "gostring \<Rightarrow> select_builder \<Rightarrow> select_builder option" where
  [go_eval]: "BHavingRaw raw = append_having \<lparr>hv_Column = [], hv_Condition = [], hv_Value = VNil, hv_Operator = op_AND, hv_Raw = raw\<rparr>"

definition BOrHaving :: "gostring \<Rightarrow> gostring \<Rightarrow> goval \<Rightarrow> select_builder \<Rightarrow> select_builder option" where
  [go_eval]: "BOrHaving col cond v = append_having \<lparr>hv_Column = col, hv_Condition = cond, hv_Value = v, hv_Operator = op_OR, hv_Raw = []\<rparr>"

definition BOrHavingRaw :: "gostring \<Rightarrow> select_builder \<Rightarrow> select_builder option" where
  [go_eval]: "BOrHavingRaw raw = append_having \<lparr>hv_Column = [], hv_Condition = [], hv_Value = VNil, hv_Operator = op_OR, hv_Raw = raw\<rparr>"

definition BLimit :: "int \<Rightarrow> select_builder \<Rightarrow> select_builder" where
  [go_eval]: "BLimit n b = b\<lparr>sb_Limit := (False, n)\<rparr>"

definition BLimitExact :: "int \<Rightarrow> select_builder \<Rightarrow> select_builder" where
  [go_eval]: "BLimitExact n b = b\<lparr>sb_Limit := (True, n)\<rparr>"

definition BOffset :: "int \<Rightarrow> select_builder \<Rightarrow> select_builder" where
  [go_eval]: "BOffset n b = b\<lparr>sb_Offset := n\<rparr>"

definition BSharedLock :: "select_builder \<Rightarrow> select_builder" where
  [go_eval]: "BSharedLock b = b\<lparr>sb_Lock := ''LOCK IN SHARE MODE''\<rparr>"

definition BLockForUpdate :: "select_builder \<Rightarrow> select_builder" where
  [go_eval]: "BLockForUpdate b = b\<lparr>sb_Lock := ''FOR UPDATE''\<rparr>"

definition append_order :: "order_by \<Rightarrow> select_builder \<Rightarrow> select_builder" where
  [go_eval]: "append_order ob b = b\<lparr>sb_Order := sb_Order b @ [ob]\<rparr>"

definition BOrderBy :: "gostring \<Rightarrow> gostring \<Rightarrow> select_builder \<Rightarrow> select_builder" where
  [go_eval]: "BOrderBy col dir b =
     (if to_upper dir = ''ASC'' then append_order \<lparr>ob_Column = col, ob_IsAsc = True, ob_Raw = []\<rparr> b
      else if to_upper dir = ''DESC'' then append_order \<lparr>ob_Column = col, ob_IsAsc = False, ob_Raw = []\<rparr> b
      else b)"

definition BReOrder :: "select_builder \<Rightarrow> select_builder" where
  [go_eval]: "BReOrder b = b\<lparr>sb_Order := []\<rparr>"

definition BOrderByRaw :: "gostring \<Rightarrow> select_builder \<Rightarrow> select_builder" where
  [go_eval]: "BOrderByRaw raw = append_order \<lparr>ob_Column = [], ob_IsAsc = False, ob_Raw = raw\<rparr>"

section \<open>Joins\<close>

definition flat_of_join :: "join \<Rightarrow> join_flat" where
  [go_eval]: "flat_of_join j = (case j of Join f q \<Rightarrow> f)"

text \<open>A join continues from the last plain join, or from the builder's own table.\<close>

definition previous_table :: "select_builder \<Rightarrow> gostring" where
  [go_eval]: "previous_table b = (if sb_PlainJoins b = [] then sb_JoinTable b else j_Name (flat_of_join (last (sb_PlainJoins b))))"

definition append_join :: "join \<Rightarrow> select_builder \<Rightarrow> select_builder" where
  [go_eval]: "append_join j b = b\<lparr>sb_PlainJoins := sb_PlainJoins b @ [j]\<rparr>"

definition joinCommon :: "gostring \<Rightarrow> gostring \<Rightarrow> gostring \<Rightarrow> gostring \<Rightarrow> gostring \<Rightarrow> select_builder \<Rightarrow> select_builder" where
  [go_eval]: "joinCommon joinType table my cond target b =
     append_join (Join \<lparr>j_Name = previous_table b, j_SearchColumn = my, j_SearchCondition = cond, j_SearchTargetColumn = target,
       j_TargetNameMap = [(joinType, table)]\<rparr> None) b"

definition BJoin :: "gostring \<Rightarrow> gostring \<Rightarrow> gostring \<Rightarrow> gostring \<Rightarrow> select_builder \<Rightarrow> select_builder" where
  [go_eval]: "BJoin = joinCommon ''inner''"

definition BLeftJoin :: "gostring \<Rightarrow> gostring \<Rightarrow> gostring \<Rightarrow> gostring \<Rightarrow> select_builder \<Rightarrow> select_builder" where
  [go_eval]: "BLeftJoin = joinCommon ''left''"

definition BRightJoin :: "gostring \<Rightarrow> gostring \<Rightarrow> gostring \<Rightarrow> gostring \<Rightarrow> select_builder \<Rightarrow> select_builder" where
  [go_eval]: "BRightJoin = joinCommon ''right''"

definition BCrossJoin :: "gostring \<Rightarrow> select_builder \<Rightarrow> select_builder" where
  [go_eval]: "BCrossJoin table b =
     append_join (Join \<lparr>j_Name = previous_table b, j_SearchColumn = [], j_SearchCondition = [], j_SearchTargetColumn = [],
       j_TargetNameMap = [(''cross'', table)]\<rparr> None) b"

text \<open>A join clause has its conditions given by a callback on a clause builder.\<close>

record clause_builder =
  cb_On :: "on_cond list"
  cb_Conditions :: "where_cond list"

definition clause_on :: "int \<Rightarrow> gostring \<Rightarrow> gostring \<Rightarrow> gostring \<Rightarrow> clause_builder \<Rightarrow> clause_builder" where
  [go_eval]: "clause_on op my cond target c =
     c\<lparr>cb_On := cb_On c @ [\<lparr>on_Column = my, on_Condition = cond, on_Value = VString target, on_Operator = op\<rparr>]\<rparr>"

definition ClauseOn :: "gostring \<Rightarrow> gostring \<Rightarrow> gostring \<Rightarrow> clause_builder \<Rightarrow> clause_builder" where
  [go_eval]: "ClauseOn = clause_on op_AND"

definition ClauseOrOn :: "gostring \<Rightarrow> gostring \<Rightarrow> gostring \<Rightarrow> clause_builder \<Rightarrow> clause_builder" where
  [go_eval]: "ClauseOrOn = clause_on op_OR"

definition clause_where :: "int \<Rightarrow> gostring \<Rightarrow> gostring \<Rightarrow> goval \<Rightarrow> clause_builder \<Rightarrow> clause_builder" where
  [go_eval]: "clause_where op col cond v c =
     c\<lparr>cb_Conditions := cb_Conditions c @
       [Where (zero_where\<lparr>w_Column := col, w_Condition := cond, w_Value := Some [v], w_Operator := op\<rparr>) None None None]\<rparr>"

definition ClauseWhere :: "gostring \<Rightarrow> gostring \<Rightarrow> goval \<Rightarrow> clause_builder \<Rightarrow> clause_builder" where
  [go_eval]: "ClauseWhere = clause_where op_AND"

definition ClauseOrWhere :: "gostring \<Rightarrow> gostring \<Rightarrow> goval \<Rightarrow> clause_builder \<Rightarrow> clause_builder" where
  [go_eval]: "ClauseOrWhere = clause_where op_OR"

definition join_with_clause :: "gostring \<Rightarrow> gostring \<Rightarrow> (clause_builder \<Rightarrow> clause_builder) \<Rightarrow> select_builder \<Rightarrow> select_builder" where
  [go_eval]: "join_with_clause joinType table fn b =
     (let c = fn \<lparr>cb_On = [], cb_Conditions = []\<rparr>
      in b\<lparr>sb_JoinClauses := sb_JoinClauses b @
           [JoinClause (Some (cb_On c)) None (Some (cb_Conditions c))
             \<lparr>j_Name = table, j_SearchColumn = [], j_SearchCondition = [], j_SearchTargetColumn = [], j_TargetNameMap = [(joinType, table)]\<rparr>
             None]\<rparr>)"

definition BJoinQuery :: "gostring \<Rightarrow> (clause_builder \<Rightarrow> clause_builder) \<Rightarrow> select_builder \<Rightarrow> select_builder" where
  [go_eval]: "BJoinQuery = join_with_clause ''inner''"

definition BLeftJoinQuery :: "gostring \<Rightarrow> (clause_builder \<Rightarrow> clause_builder) \<Rightarrow> select_builder \<Rightarrow> select_builder" where
  [go_eval]: "BLeftJoinQuery = join_with_clause ''left''"

definition BRightJoinQuery :: "gostring \<Rightarrow> (clause_builder \<Rightarrow> clause_builder) \<Rightarrow> select_builder \<Rightarrow> select_builder" where
  [go_eval]: "BRightJoinQuery = join_with_clause ''right''"

text \<open>
  A query in a join has its pending conditions sealed in place; its own predicate error is not taken over.
\<close>

definition joined_query :: "select_builder \<Rightarrow> query" where
  [go_eval]: "joined_query q =
     (let q' = seal_conditions q
      in Query (subquery_flat q' None) [] (Some (builder_joins q')) (b_ConditionGroups (sb_where q')) None)"

definition joinSubCommon ::
  "gostring \<Rightarrow> select_builder \<Rightarrow> gostring \<Rightarrow> gostring \<Rightarrow> gostring \<Rightarrow> gostring \<Rightarrow> select_builder \<Rightarrow> select_builder \<times> select_builder" where
  [go_eval]: "joinSubCommon joinType q al my cond target b =
     (append_join (Join \<lparr>j_Name = sb_JoinTable b, j_SearchColumn = my, j_SearchCondition = cond, j_SearchTargetColumn = target,
        j_TargetNameMap = [(joinType, al)]\<rparr> (Some (joined_query q))) b, seal_conditions q)"

definition BJoinSub :: "select_builder \<Rightarrow> gostring \<Rightarrow> gostring \<Rightarrow> gostring \<Rightarrow> gostring \<Rightarrow> select_builder \<Rightarrow> select_builder \<times> select_builder" where
  [go_eval]: "BJoinSub = joinSubCommon ''inner''"

definition BLeftJoinSub :: "select_builder \<Rightarrow> gostring \<Rightarrow> gostring \<Rightarrow> gostring \<Rightarrow> gostring \<Rightarrow> select_builder \<Rightarrow> select_builder \<times> select_builder" where
  [go_eval]: "BLeftJoinSub = joinSubCommon ''left''"

definition BRightJoinSub :: "select_builder \<Rightarrow> gostring \<Rightarrow> gostring \<Rightarrow> gostring \<Rightarrow> gostring \<Rightarrow> select_builder \<Rightarrow> select_builder \<times> select_builder" where
  [go_eval]: "BRightJoinSub = joinSubCommon ''right''"

definition joinLateralCommon :: "gostring \<Rightarrow> select_builder \<Rightarrow> gostring \<Rightarrow> select_builder \<Rightarrow> select_builder \<times> select_builder" where
  [go_eval]: "joinLateralCommon joinType q al b =
     (b\<lparr>sb_LateralJoins := sb_LateralJoins b @
        [Join \<lparr>j_Name = sb_JoinTable b, j_SearchColumn = [], j_SearchCondition = [], j_SearchTargetColumn = [],
          j_TargetNameMap = [(joinType, al)]\<rparr> (Some (joined_query q))]\<rparr>, seal_conditions q)"

definition BJoinLateral :: "select_builder \<Rightarrow> gostring \<Rightarrow> select_builder \<Rightarrow> select_builder \<times> select_builder" where
  [go_eval]: "BJoinLateral = joinLateralCommon ''lateral''"

definition BLeftJoinLateral :: "select_builder \<Rightarrow> gostring \<Rightarrow> select_builder \<Rightarrow> select_builder \<times> select_builder" where
  [go_eval]: "BLeftJoinLateral = joinLateralCommon ''left_lateral''"

section \<open>The query\<close>

definition buildQuery :: "select_builder \<Rightarrow> select_builder" where
  [go_eval]: "buildQuery b = b\<lparr>sb_where := flush_conditions op_AND (sb_where b)\<rparr>"

definition built_query :: "select_builder \<Rightarrow> query" where
  [go_eval]: "built_query b =
     Query \<lparr>q_PredicateError = b_PredicateError (sb_where b), q_Columns = Some (sb_Columns b), q_Table = sb_Table b,
       q_Limit = sb_Limit b, q_Offset = sb_Offset b, q_Order = Some (sb_Order b), q_Group = Some (sb_Group b), q_Lock = Some (sb_Lock b)\<rparr>
       (sb_Union b) (Some (builder_joins b)) (b_ConditionGroups (sb_where b)) None"

definition GetQuery :: "select_builder \<Rightarrow> query \<times> select_builder" where
  [go_eval]: "GetQuery b = (built_query (buildQuery b), buildQuery b)"

definition BUnion :: "bool \<Rightarrow> select_builder \<Rightarrow> select_builder \<Rightarrow> select_builder \<times> select_builder" where
  [go_eval]: "BUnion isAll sub b = (case GetQuery sub of (q, sub') \<Rightarrow> (b\<lparr>sb_Union := sb_Union b @ [(q, isAll)]\<rparr>, sub'))"

section \<open>Copying the state of a query\<close>

definition ApplyJoins :: "joins option \<Rightarrow> select_builder \<Rightarrow> select_builder" where
  [go_eval]: "ApplyJoins js b =
     (case js of
        None \<Rightarrow> b\<lparr>sb_PlainJoins := [], sb_JoinClauses := [], sb_LateralJoins := []\<rparr>
      | Some (JoinSet jl jc ll) \<Rightarrow> b\<lparr>sb_PlainJoins := (case jl of None \<Rightarrow> [] | Some l \<Rightarrow> l),
          sb_JoinClauses := (case jc of None \<Rightarrow> [] | Some l \<Rightarrow> l), sb_LateralJoins := (case ll of None \<Rightarrow> [] | Some l \<Rightarrow> l)\<rparr>)"

definition ApplyConditions :: "query \<Rightarrow> where_builder \<Rightarrow> where_builder" where
  [go_eval]: "ApplyConditions q w =
     w\<lparr>b_Conditions := (case QConditions q of None \<Rightarrow> [] | Some cs \<Rightarrow> cs), b_ConditionGroups := ConditionGroups q,
       b_PredicateError := q_PredicateError (qf q)\<rparr>"

definition ApplyQueryState :: "query \<Rightarrow> select_builder \<Rightarrow> select_builder" where
  [go_eval]: "ApplyQueryState q b =
     (ApplyJoins (Joins q) b)
       \<lparr>sb_where := ApplyConditions q (sb_where b), sb_Union := Unions q, sb_Table := q_Table (qf q),
        sb_Columns := (case q_Columns (qf q) of None \<Rightarrow> [] | Some cs \<Rightarrow> cs), sb_Limit := q_Limit (qf q), sb_Offset := q_Offset (qf q),
        sb_Group := (case q_Group (qf q) of None \<Rightarrow> ([], None) | Some g \<Rightarrow> g), sb_Lock := (case q_Lock (qf q) of None \<Rightarrow> [] | Some l \<Rightarrow> l),
        sb_JoinTable := q_Table (qf q), sb_Order := (case q_Order (qf q) of None \<Rightarrow> [] | Some ord \<Rightarrow> ord)\<rparr>"

text \<open>The copy of one builder's state into another; the source has its pending conditions sealed.\<close>

definition CopyStateToSelect :: "select_builder \<Rightarrow> select_builder \<Rightarrow> select_builder \<times> select_builder" where
  [go_eval]: "CopyStateToSelect src dst = (case GetQuery src of (q, src') \<Rightarrow> (ApplyQueryState q dst, src'))"

text \<open>The whole condition list becomes one parenthesised group.\<close>

definition GroupWhere :: "select_builder \<Rightarrow> select_builder" where
  [go_eval]: "GroupWhere b =
     (case GetQuery b of (Query f us js gs cs, b') \<Rightarrow>
        ApplyQueryState (Query f us js
          (if gs = [] then gs else [WhereGroup [Where zero_where (Some gs) None None] 0 False False]) cs) b')"

section \<open>Lemmas\<close>

lemma GetQuery_again: "fst (GetQuery (snd (GetQuery b))) = fst (GetQuery b)"
  by (simp add: GetQuery_def buildQuery_def flush_conditions_def append_group_def)

text \<open>A copied query is the query it was copied from.\<close>

lemma copied_query: "fst (GetQuery (fst (CopyStateToSelect src dst))) = fst (GetQuery src)"
  by (simp add: CopyStateToSelect_def GetQuery_def built_query_def ApplyQueryState_def ApplyJoins_def ApplyConditions_def
      builder_joins_def buildQuery_def flush_conditions_def append_group_def)

end
