(* ===== verification/QueryFacade.thy ===== *)
theory QueryFacade
  imports ExecutionPlan SelectBuilder Renderer
begin

text \<open>
  The public query builder (\<^verbatim>\<open>orm/query/query.go\<close>, \<^verbatim>\<open>join_clause.go\<close>): a query is the state of \<^verbatim>\<open>ExecutionPlan\<close> with a select
  builder.  A method checks its operator, direction, column or raw text and passes on to the builder; a failed check is kept
  as the query's error.  Error texts leave out the value the code quotes in them.  A method that can panic, or run a callback that
  does, gives an option; one that takes another query gives that query's new state too.
\<close>

section \<open>Checks of the text a caller supplies\<close>

definition allowed_operators :: "gostring list" where
  [go_eval]: "allowed_operators = [''='', ''!='', ''<>'', ''>'', ''>='', ''<'', ''<='', ''LIKE'', ''NOT LIKE'']"

definition validateConditionOperator :: "gostring \<Rightarrow> gostring + gostring" where
  [go_eval]: "validateConditionOperator op =
     (let t = trim_space op
      in if to_upper t \<in> set allowed_operators then Inr t else Inl ''goquent: unsupported SQL operator'')"

definition validateOrderDirection :: "gostring \<Rightarrow> gostring + gostring" where
  [go_eval]: "validateOrderDirection dir =
     (let t = trim_space dir
      in if t = [] then Inr ''asc''
         else if to_upper t = ''ASC'' \<or> to_upper t = ''DESC'' then Inr t
         else Inl ''goquent: unsupported ORDER BY direction'')"

definition raw_tokens :: "gostring list" where
  [go_eval]: "raw_tokens = [''ALTER'', ''CREATE'', ''DELETE'', ''DROP'', ''GRANT'', ''INSERT'', ''REVOKE'', ''TRUNCATE'', ''UPDATE'']"

definition validateRawSQLFragment :: "gostring \<Rightarrow> gostring option" where
  [go_eval]: "validateRawSQLFragment raw =
     (let t = trim_space raw
      in if t = [] then Some ''goquent: raw SQL fragment is required''
         else if CHR '';'' \<in> set t \<or> CHR 0x00 \<in> set t \<or> str_contains t ''--'' \<or> str_contains t ''/*'' \<or> str_contains t ''*/''
         then Some ''goquent: raw SQL fragment contains a statement separator or comment''
         else if \<exists>token \<in> set raw_tokens. containsSQLWord (to_upper t) token
         then Some ''goquent: raw SQL fragment contains disallowed SQL token''
         else None)"

definition selectFieldHasInvalidWildcard :: "gostring \<Rightarrow> bool" where
  [go_eval]: "selectFieldHasInvalidWildcard field =
     (if CHR ''*'' \<notin> set field then False
      else if field = ''*'' then False
      else \<not> (has_prefix (rev field) ''*.'' \<and> length (filter (\<lambda>c. c = CHR ''*'') field) = 1))"

definition expression_bytes :: "char set" where
  [go_eval]: "expression_bytes =
     {CHR '' '', CHR 0x09, CHR 0x0D, CHR 0x0A, CHR 0x0B, CHR 0x0C, CHR ''('', CHR '')'', CHR ''['', CHR '']'', CHR '','', CHR '';'',
      CHR 0x27, CHR 0x22, CHR ''`'', CHR 0x00}"

definition selectFieldLooksLikeSQLExpression :: "gostring \<Rightarrow> bool" where
  [go_eval]: "selectFieldLooksLikeSQLExpression field \<longleftrightarrow>
     (\<exists>c \<in> set field. c \<in> expression_bytes) \<or>
     (\<exists>t \<in> set [''::'', ''--'', ''/*'', ''*/'']. str_contains field t) \<or>
     selectFieldHasInvalidWildcard field \<or>
     (\<exists>t \<in> set [''->'', ''->>'', ''+'', ''-'', ''/'', ''%'', ''='', ''<'', ''>'', ''||'', ''&'']. str_contains field t) \<or>
     (\<exists>token \<in> set [''AS'', ''CASE'']. containsSQLWord (to_upper field) token)"

definition validateSelectColumn :: "gostring \<Rightarrow> gostring option" where
  [go_eval]: "validateSelectColumn col =
     (let t = trim_space col
      in if t = [] then Some ''goquent: Select column name is required''
         else if t \<noteq> col \<or> selectFieldLooksLikeSQLExpression t
         then Some ''goquent: Select received a SQL expression-like field; use SelectRaw(...) for SQL expressions''
         else None)"

definition escapeLikePattern :: "gostring \<Rightarrow> gostring" where
  [go_eval]: "escapeLikePattern term = concat (map (\<lambda>c. if c \<in> {CHR ''!'', CHR ''%'', CHR ''_''} then [CHR ''!'', c] else [c]) term)"

text \<open>The identifier quoting of a dialect; that of a dialect outside the repository is a parameter.\<close>

definition driver_quote :: "(nat \<Rightarrow> gostring \<Rightarrow> gostring) \<Rightarrow> driver_dialect \<Rightarrow> gostring \<Rightarrow> gostring" where
  [go_eval]: "driver_quote other d ident =
     (case d of MySQLDialect \<Rightarrow> QuoteIdent DialectMySQL ident | PostgresDialect \<Rightarrow> QuoteIdent DialectPostgreSQL ident
      | OtherDialect n \<Rightarrow> other n ident)"

definition quoteIdentifierPath :: "(nat \<Rightarrow> gostring \<Rightarrow> gostring) \<Rightarrow> driver_dialect \<Rightarrow> gostring \<Rightarrow> gostring" where
  [go_eval]: "quoteIdentifierPath other d ident = join ''.'' (map (driver_quote other d) (split_on CHR ''.'' ident))"

fun validateColumnComparisons :: "gostring list list \<Rightarrow> gostring option" where
  "validateColumnComparisons [] = None"
| "validateColumnComparisons (c # cs) =
     (if length c \<noteq> 3 then validateColumnComparisons cs
      else case validateConditionOperator (c ! 1) of Inl e \<Rightarrow> Some e | Inr op \<Rightarrow> validateColumnComparisons cs)"

text \<open>The columns the comparisons name; the code collects them in a map, of which only membership is used.\<close>

fun gatherColumns :: "gostring list list \<Rightarrow> gostring + gostring list" where
  "gatherColumns [] = Inr []"
| "gatherColumns (c # cs) =
     (if length c \<noteq> 2 \<and> length c \<noteq> 3 then Inl ''invalid column slice''
      else case gatherColumns cs of Inl e \<Rightarrow> Inl e | Inr names \<Rightarrow> Inr ([c ! 0, last c] @ names))"

section \<open>The query\<close>

record facade =
  fq_state :: query_state
  fq_builder :: select_builder
  fq_paramSeq :: nat

abbreviation fq_err :: "facade \<Rightarrow> gostring option" where "fq_err q \<equiv> qs_err (fq_state q)"
abbreviation fq_where :: "facade \<Rightarrow> where_builder" where "fq_where q \<equiv> sb_where (fq_builder q)"

definition NewWithSettings :: "nat \<Rightarrow> bool \<Rightarrow> gostring \<Rightarrow> driver_dialect \<Rightarrow> settings \<Rightarrow> facade" where
  [go_eval]: "NewWithSettings ident authorized table d s =
     \<lparr>fq_state = \<lparr>qs_id = ident, qs_bindingPlanning = False, qs_settings = s, qs_authorized = authorized, qs_writeKeys = None,
        qs_dialect = d, qs_err = st_err s, qs_approval = None, qs_suppressions = [], qs_requiredPredicates = [],
        qs_policy = PolicyForTable table (st_policies s), qs_accessReason = [], qs_withDeleted = False, qs_onlyDeleted = False,
        qs_ctx = None, qs_validation = None\<rparr>,
      fq_builder = BTable table NewSelectBuilder, fq_paramSeq = 0\<rparr>"

definition fail_with :: "gostring \<Rightarrow> facade \<Rightarrow> facade" where
  [go_eval]: "fail_with e q = q\<lparr>fq_state := (fq_state q)\<lparr>qs_err := Some e\<rparr>\<rparr>"

definition on_builder :: "(select_builder \<Rightarrow> select_builder) \<Rightarrow> facade \<Rightarrow> facade" where
  [go_eval]: "on_builder f q = q\<lparr>fq_builder := f (fq_builder q)\<rparr>"

definition on_where :: "(where_builder \<Rightarrow> where_builder) \<Rightarrow> facade \<Rightarrow> facade" where
  [go_eval]: "on_where f = on_builder (\<lambda>b. b\<lparr>sb_where := f (sb_where b)\<rparr>)"

definition guarded :: "(facade \<Rightarrow> facade) \<Rightarrow> facade \<Rightarrow> facade" where
  [go_eval]: "guarded f q = (if fq_err q \<noteq> None then q else f q)"

definition refusing :: "gostring option \<Rightarrow> (facade \<Rightarrow> facade) \<Rightarrow> facade \<Rightarrow> facade" where
  [go_eval]: "refusing e f = (case e of Some m \<Rightarrow> fail_with m | None \<Rightarrow> f)"

definition with_operator :: "gostring \<Rightarrow> (gostring \<Rightarrow> facade \<Rightarrow> facade) \<Rightarrow> facade \<Rightarrow> facade" where
  [go_eval]: "with_operator cond f = (case validateConditionOperator cond of Inl e \<Rightarrow> fail_with e | Inr op \<Rightarrow> f op)"

text \<open>With the argument query's new state.\<close>

definition with_argument :: "(facade \<Rightarrow> facade) \<Rightarrow> (select_builder \<Rightarrow> select_builder) \<Rightarrow> facade \<Rightarrow> facade \<Rightarrow> facade \<times> facade" where
  [go_eval]: "with_argument f g sub q = (f q, on_builder g sub)"

section \<open>Columns, order and limits\<close>

definition FSelect :: "gostring list \<Rightarrow> facade \<Rightarrow> facade" where
  [go_eval]: "FSelect cols = guarded (refusing (check_all (map validateSelectColumn cols)) (on_builder (BSelect cols)))"

definition FSelectRaw :: "gostring \<Rightarrow> goval list \<Rightarrow> facade \<Rightarrow> facade" where
  [go_eval]: "FSelectRaw raw vals = guarded (refusing (validateRawSQLFragment raw) (on_builder (BSelectRaw raw vals)))"

definition FDistinct :: "gostring list \<Rightarrow> facade \<Rightarrow> facade" where
  [go_eval]: "FDistinct cols = on_builder (BDistinct cols)"

definition FMax :: "gostring \<Rightarrow> facade \<Rightarrow> facade" where
  [go_eval]: "FMax col = on_builder (BMax col)"

definition FMin :: "gostring \<Rightarrow> facade \<Rightarrow> facade" where
  [go_eval]: "FMin col = on_builder (BMin col)"

definition FSum :: "gostring \<Rightarrow> facade \<Rightarrow> facade" where
  [go_eval]: "FSum col = on_builder (BSum col)"

definition FAvg :: "gostring \<Rightarrow> facade \<Rightarrow> facade" where
  [go_eval]: "FAvg col = on_builder (BAvg col)"

definition FLimit :: "int \<Rightarrow> facade \<Rightarrow> facade" where
  [go_eval]: "FLimit n = on_builder (BLimit n)"

definition FOffset :: "int \<Rightarrow> facade \<Rightarrow> facade" where
  [go_eval]: "FOffset n = on_builder (BOffset n)"

definition FTake :: "int \<Rightarrow> facade \<Rightarrow> facade" where
  [go_eval]: "FTake n = FLimit n"

definition FSkip :: "int \<Rightarrow> facade \<Rightarrow> facade" where
  [go_eval]: "FSkip n = FOffset n"

definition FSharedLock :: "facade \<Rightarrow> facade" where
  [go_eval]: "FSharedLock = on_builder BSharedLock"

definition FLockForUpdate :: "facade \<Rightarrow> facade" where
  [go_eval]: "FLockForUpdate = on_builder BLockForUpdate"

definition FOrderBy :: "gostring \<Rightarrow> gostring \<Rightarrow> facade \<Rightarrow> facade" where
  [go_eval]: "FOrderBy col dir = 
     guarded (case validateOrderDirection dir of Inl e \<Rightarrow> fail_with e | Inr v \<Rightarrow> on_builder (BOrderBy col v))"

definition FOrderByRaw :: "gostring \<Rightarrow> facade \<Rightarrow> facade" where
  [go_eval]: "FOrderByRaw raw = guarded (refusing (validateRawSQLFragment raw) (on_builder (BOrderByRaw raw)))"

definition FReOrder :: "facade \<Rightarrow> facade" where
  [go_eval]: "FReOrder = on_builder BReOrder"

definition FGroupBy :: "gostring list \<Rightarrow> facade \<Rightarrow> facade" where
  [go_eval]: "FGroupBy cols = on_builder (BGroupBy cols)"

text \<open>A condition on groups before \<^verbatim>\<open>GroupBy\<close> dereferences a nil pointer.\<close>

definition having_method :: "(select_builder \<Rightarrow> select_builder option) \<Rightarrow> facade \<Rightarrow> facade option" where
  [go_eval]: "having_method f q = 
     (case f (fq_builder q) of None \<Rightarrow> None | Some b \<Rightarrow> Some (q\<lparr>fq_builder := b\<rparr>))"

definition guarded_option :: "(facade \<Rightarrow> facade option) \<Rightarrow> facade \<Rightarrow> facade option" where
  [go_eval]: "guarded_option f q = (if fq_err q \<noteq> None then Some q else f q)"

definition FHaving :: "gostring \<Rightarrow> gostring \<Rightarrow> goval \<Rightarrow> facade \<Rightarrow> facade option" where
  [go_eval]: "FHaving col cond v = 
     guarded_option (case validateConditionOperator cond of Inl e \<Rightarrow> Some \<circ> fail_with e | Inr c \<Rightarrow> having_method (BHaving col c v))"

definition FHavingRaw :: "gostring \<Rightarrow> facade \<Rightarrow> facade option" where
  [go_eval]: "FHavingRaw raw = 
     guarded_option (case validateRawSQLFragment raw of Some e \<Rightarrow> Some \<circ> fail_with e | None \<Rightarrow> having_method (BHavingRaw raw))"

definition FOrHaving :: "gostring \<Rightarrow> gostring \<Rightarrow> goval \<Rightarrow> facade \<Rightarrow> facade option" where
  [go_eval]: "FOrHaving col cond v = 
     guarded_option (case validateConditionOperator cond of Inl e \<Rightarrow> Some \<circ> fail_with e | Inr c \<Rightarrow> having_method (BOrHaving col c v))"

definition FOrHavingRaw :: "gostring \<Rightarrow> facade \<Rightarrow> facade option" where
  [go_eval]: "FOrHavingRaw raw = 
     guarded_option (case validateRawSQLFragment raw of Some e \<Rightarrow> Some \<circ> fail_with e | None \<Rightarrow> having_method (BOrHavingRaw raw))"

section \<open>Joins\<close>

definition FJoin :: "gostring \<Rightarrow> gostring \<Rightarrow> gostring \<Rightarrow> gostring \<Rightarrow> facade \<Rightarrow> facade" where
  [go_eval]: "FJoin table my cond target = 
     guarded (with_operator cond (\<lambda>c. on_builder (BJoin table my c target)))"

definition FLeftJoin :: "gostring \<Rightarrow> gostring \<Rightarrow> gostring \<Rightarrow> gostring \<Rightarrow> facade \<Rightarrow> facade" where
  [go_eval]: "FLeftJoin table my cond target = 
     guarded (with_operator cond (\<lambda>c. on_builder (BLeftJoin table my c target)))"

definition FRightJoin :: "gostring \<Rightarrow> gostring \<Rightarrow> gostring \<Rightarrow> gostring \<Rightarrow> facade \<Rightarrow> facade" where
  [go_eval]: "FRightJoin table my cond target = 
     guarded (with_operator cond (\<lambda>c. on_builder (BRightJoin table my c target)))"

definition FCrossJoin :: "gostring \<Rightarrow> facade \<Rightarrow> facade" where
  [go_eval]: "FCrossJoin table = on_builder (BCrossJoin table)"

text \<open>The callback's join clause checks nothing.\<close>

definition FJoinQuery :: "gostring \<Rightarrow> (clause_builder \<Rightarrow> clause_builder) \<Rightarrow> facade \<Rightarrow> facade" where
  [go_eval]: "FJoinQuery table fn = on_builder (BJoinQuery table fn)"

definition FLeftJoinQuery :: "gostring \<Rightarrow> (clause_builder \<Rightarrow> clause_builder) \<Rightarrow> facade \<Rightarrow> facade" where
  [go_eval]: "FLeftJoinQuery table fn = on_builder (BLeftJoinQuery table fn)"

definition FRightJoinQuery :: "gostring \<Rightarrow> (clause_builder \<Rightarrow> clause_builder) \<Rightarrow> facade \<Rightarrow> facade" where
  [go_eval]: "FRightJoinQuery table fn = on_builder (BRightJoinQuery table fn)"

definition FJoinSubQuery :: "facade \<Rightarrow> gostring \<Rightarrow> gostring \<Rightarrow> gostring \<Rightarrow> gostring \<Rightarrow> facade \<Rightarrow> facade \<times> facade" where
  [go_eval]: "FJoinSubQuery sub al my cond target q = 
     (if fq_err q \<noteq> None then (q, sub)
      else case validateConditionOperator cond of Inl e \<Rightarrow> (fail_with e q, sub)
      | Inr c \<Rightarrow> with_argument (on_builder (\<lambda>b. fst (BJoinSub (fq_builder sub) al my c target b))) seal_conditions sub q)"

definition FLeftJoinSubQuery :: "facade \<Rightarrow> gostring \<Rightarrow> gostring \<Rightarrow> gostring \<Rightarrow> gostring \<Rightarrow> facade \<Rightarrow> facade \<times> facade" where
  [go_eval]: "FLeftJoinSubQuery sub al my cond target q = 
     (if fq_err q \<noteq> None then (q, sub)
      else case validateConditionOperator cond of Inl e \<Rightarrow> (fail_with e q, sub)
      | Inr c \<Rightarrow> with_argument (on_builder (\<lambda>b. fst (BLeftJoinSub (fq_builder sub) al my c target b))) seal_conditions sub q)"

definition FRightJoinSubQuery :: "facade \<Rightarrow> gostring \<Rightarrow> gostring \<Rightarrow> gostring \<Rightarrow> gostring \<Rightarrow> facade \<Rightarrow> facade \<times> facade" where
  [go_eval]: "FRightJoinSubQuery sub al my cond target q = 
     (if fq_err q \<noteq> None then (q, sub)
      else case validateConditionOperator cond of Inl e \<Rightarrow> (fail_with e q, sub)
      | Inr c \<Rightarrow> with_argument (on_builder (\<lambda>b. fst (BRightJoinSub (fq_builder sub) al my c target b))) seal_conditions sub q)"

definition FJoinLateral :: "facade \<Rightarrow> gostring \<Rightarrow> facade \<Rightarrow> facade \<times> facade" where
  [go_eval]: "FJoinLateral sub al = 
     with_argument (on_builder (\<lambda>b. fst (BJoinLateral (fq_builder sub) al b))) seal_conditions sub"

definition FLeftJoinLateral :: "facade \<Rightarrow> gostring \<Rightarrow> facade \<Rightarrow> facade \<times> facade" where
  [go_eval]: "FLeftJoinLateral sub al = 
     with_argument (on_builder (\<lambda>b. fst (BLeftJoinLateral (fq_builder sub) al b))) seal_conditions sub"

definition FUnion :: "facade \<Rightarrow> facade \<Rightarrow> facade \<times> facade" where
  [go_eval]: "FUnion sub = with_argument (on_builder (\<lambda>b. fst (BUnion False (fq_builder sub) b))) buildQuery sub"

definition FUnionAll :: "facade \<Rightarrow> facade \<Rightarrow> facade \<times> facade" where
  [go_eval]: "FUnionAll sub = with_argument (on_builder (\<lambda>b. fst (BUnion True (fq_builder sub) b))) buildQuery sub"

section \<open>Conditions\<close>

text \<open>A value that is a list of any values is spread over the variadic parameter of the builder.\<close>

definition spread :: "goval \<Rightarrow> goval list option" where
  [go_eval]: "spread v = (case v of VList xs \<Rightarrow> xs | _ \<Rightarrow> Some [v])"

definition where_method :: "int \<Rightarrow> gostring \<Rightarrow> gostring \<Rightarrow> goval list \<Rightarrow> facade \<Rightarrow> facade" where
  [go_eval]: "where_method op usage col args = 
     guarded (case args of
        [v] \<Rightarrow> on_where (addWhere col ''='' (spread v) op)
      | [opv, v] \<Rightarrow> (case opv of
            VString cond \<Rightarrow> with_operator cond (\<lambda>c. on_where (addWhere col c (spread v) op))
          | _ \<Rightarrow> fail_with ''invalid operator type'')
      | _ \<Rightarrow> fail_with usage)"

definition FWhere :: "gostring \<Rightarrow> goval list \<Rightarrow> facade \<Rightarrow> facade" where
  [go_eval]: "FWhere = where_method op_AND ''invalid Where usage''"

definition FOrWhere :: "gostring \<Rightarrow> goval list \<Rightarrow> facade \<Rightarrow> facade" where
  [go_eval]: "FOrWhere = where_method op_OR ''invalid OrWhere usage''"

definition raw_method :: "int \<Rightarrow> gostring \<Rightarrow> (gostring \<times> goval) list option \<Rightarrow> facade \<Rightarrow> facade" where
  [go_eval]: "raw_method op raw vals = guarded (refusing (validateRawSQLFragment raw) (on_where (addRaw raw vals op)))"

definition FWhereRaw :: "gostring \<Rightarrow> (gostring \<times> goval) list option \<Rightarrow> facade \<Rightarrow> facade" where
  [go_eval]: "FWhereRaw = raw_method op_AND"

definition FOrWhereRaw :: "gostring \<Rightarrow> (gostring \<times> goval) list option \<Rightarrow> facade \<Rightarrow> facade" where
  [go_eval]: "FOrWhereRaw = raw_method op_OR"

definition FSafeWhereRaw :: "gostring \<Rightarrow> (gostring \<times> goval) list option \<Rightarrow> facade \<Rightarrow> facade" where
  [go_eval]: "FSafeWhereRaw = raw_method op_AND"

definition FSafeOrWhereRaw :: "gostring \<Rightarrow> (gostring \<times> goval) list option \<Rightarrow> facade \<Rightarrow> facade" where
  [go_eval]: "FSafeOrWhereRaw = raw_method op_OR"

definition FWhereRawNoArgs :: "gostring \<Rightarrow> facade \<Rightarrow> facade" where
  [go_eval]: "FWhereRawNoArgs raw = FWhereRaw raw (Some [])"

definition FOrWhereRawNoArgs :: "gostring \<Rightarrow> facade \<Rightarrow> facade" where
  [go_eval]: "FOrWhereRawNoArgs raw = FOrWhereRaw raw (Some [])"

definition FWhereAny :: "gostring list \<Rightarrow> gostring \<Rightarrow> goval \<Rightarrow> facade \<Rightarrow> facade" where
  [go_eval]: "FWhereAny cols cond v = guarded (with_operator cond (\<lambda>c. on_where (WhereAny cols c v)))"

definition FWhereAll :: "gostring list \<Rightarrow> gostring \<Rightarrow> goval \<Rightarrow> facade \<Rightarrow> facade" where
  [go_eval]: "FWhereAll cols cond v = guarded (with_operator cond (\<lambda>c. on_where (WhereAll cols c v)))"

text \<open>These two do not look at an earlier error; the column is its own partner's companion, so the builder always adds it.\<close>

definition column_method :: "int \<Rightarrow> gostring \<Rightarrow> gostring \<Rightarrow> gostring list \<Rightarrow> facade \<Rightarrow> facade" where
  [go_eval]: "column_method op usage col args = 
     (case args of
        [other] \<Rightarrow> with_operator ''='' (\<lambda>c. on_where (addWhereCondition [col, other] col c other op))
      | [cond, other] \<Rightarrow> with_operator cond (\<lambda>c. on_where (addWhereCondition [col, other] col c other op))
      | _ \<Rightarrow> fail_with usage)"

definition FWhereColumn :: "gostring \<Rightarrow> gostring list \<Rightarrow> facade \<Rightarrow> facade" where
  [go_eval]: "FWhereColumn = column_method op_AND ''invalid WhereColumn usage''"

definition FOrWhereColumn :: "gostring \<Rightarrow> gostring list \<Rightarrow> facade \<Rightarrow> facade" where
  [go_eval]: "FOrWhereColumn = column_method op_OR ''invalid OrWhereColumn usage''"

definition columns_method :: "int \<Rightarrow> gostring list list \<Rightarrow> facade \<Rightarrow> facade" where
  [go_eval]: "columns_method op cols = 
     guarded (case gatherColumns cols of
        Inl e \<Rightarrow> fail_with e
      | Inr names \<Rightarrow> refusing (validateColumnComparisons cols) (on_where (addWhereColumns names cols op)))"

definition FWhereColumns :: "gostring list list \<Rightarrow> facade \<Rightarrow> facade" where
  [go_eval]: "FWhereColumns = columns_method op_AND"

definition FOrWhereColumns :: "gostring list list \<Rightarrow> facade \<Rightarrow> facade" where
  [go_eval]: "FOrWhereColumns = columns_method op_OR"

definition FWhereNull :: "gostring \<Rightarrow> facade \<Rightarrow> facade" where
  [go_eval]: "FWhereNull col = on_where (WhereNull col)"

definition FWhereNotNull :: "gostring \<Rightarrow> facade \<Rightarrow> facade" where
  [go_eval]: "FWhereNotNull col = on_where (WhereNotNull col)"

definition FOrWhereNull :: "gostring \<Rightarrow> facade \<Rightarrow> facade" where
  [go_eval]: "FOrWhereNull col = on_where (OrWhereNull col)"

definition FOrWhereNotNull :: "gostring \<Rightarrow> facade \<Rightarrow> facade" where
  [go_eval]: "FOrWhereNotNull col = on_where (OrWhereNotNull col)"

definition FWhereBetween :: "gostring \<Rightarrow> goval \<Rightarrow> goval \<Rightarrow> facade \<Rightarrow> facade" where
  [go_eval]: "FWhereBetween col lo hi = on_where (WhereBetween col lo hi)"

definition FWhereNotBetween :: "gostring \<Rightarrow> goval \<Rightarrow> goval \<Rightarrow> facade \<Rightarrow> facade" where
  [go_eval]: "FWhereNotBetween col lo hi = on_where (WhereNotBetween col lo hi)"

definition FOrWhereBetween :: "gostring \<Rightarrow> goval \<Rightarrow> goval \<Rightarrow> facade \<Rightarrow> facade" where
  [go_eval]: "FOrWhereBetween col lo hi = on_where (OrWhereBetween col lo hi)"

definition FOrWhereNotBetween :: "gostring \<Rightarrow> goval \<Rightarrow> goval \<Rightarrow> facade \<Rightarrow> facade" where
  [go_eval]: "FOrWhereNotBetween col lo hi = on_where (OrWhereNotBetween col lo hi)"

definition FWhereBetweenColumns :: "gostring \<Rightarrow> gostring \<Rightarrow> gostring \<Rightarrow> facade \<Rightarrow> facade" where
  [go_eval]: "FWhereBetweenColumns col lo hi = on_where (WhereBetweenColumns [col, lo, hi] col lo hi)"

definition FOrWhereBetweenColumns :: "gostring \<Rightarrow> gostring \<Rightarrow> gostring \<Rightarrow> facade \<Rightarrow> facade" where
  [go_eval]: "FOrWhereBetweenColumns col lo hi = on_where (OrWhereBetweenColumns [col, lo, hi] col lo hi)"

definition FWhereNotBetweenColumns :: "gostring \<Rightarrow> gostring \<Rightarrow> gostring \<Rightarrow> facade \<Rightarrow> facade" where
  [go_eval]: "FWhereNotBetweenColumns col lo hi = on_where (WhereNotBetweenColumns [col, lo, hi] col lo hi)"

definition FOrWhereNotBetweenColumns :: "gostring \<Rightarrow> gostring \<Rightarrow> gostring \<Rightarrow> facade \<Rightarrow> facade" where
  [go_eval]: "FOrWhereNotBetweenColumns col lo hi = on_where (OrWhereNotBetweenColumns [col, lo, hi] col lo hi)"

definition FWhereFullText :: "gostring list \<Rightarrow> gostring \<Rightarrow> (gostring \<times> goval) list option \<Rightarrow> facade \<Rightarrow> facade" where
  [go_eval]: "FWhereFullText cols search opts = on_where (WhereFullText cols search opts)"

definition FOrWhereFullText :: "gostring list \<Rightarrow> gostring \<Rightarrow> (gostring \<times> goval) list option \<Rightarrow> facade \<Rightarrow> facade" where
  [go_eval]: "FOrWhereFullText cols search opts = on_where (OrWhereFullText cols search opts)"

definition FWhereDate :: "gostring \<Rightarrow> gostring \<Rightarrow> gostring \<Rightarrow> facade \<Rightarrow> facade" where
  [go_eval]: "FWhereDate col cond v = guarded (with_operator cond (\<lambda>c. on_where (WhereDate col c v)))"

definition FOrWhereDate :: "gostring \<Rightarrow> gostring \<Rightarrow> gostring \<Rightarrow> facade \<Rightarrow> facade" where
  [go_eval]: "FOrWhereDate col cond v = guarded (with_operator cond (\<lambda>c. on_where (OrWhereDate col c v)))"

definition FWhereTime :: "gostring \<Rightarrow> gostring \<Rightarrow> gostring \<Rightarrow> facade \<Rightarrow> facade" where
  [go_eval]: "FWhereTime col cond v = guarded (with_operator cond (\<lambda>c. on_where (WhereTime col c v)))"

definition FOrWhereTime :: "gostring \<Rightarrow> gostring \<Rightarrow> gostring \<Rightarrow> facade \<Rightarrow> facade" where
  [go_eval]: "FOrWhereTime col cond v = guarded (with_operator cond (\<lambda>c. on_where (OrWhereTime col c v)))"

definition FWhereDay :: "gostring \<Rightarrow> gostring \<Rightarrow> gostring \<Rightarrow> facade \<Rightarrow> facade" where
  [go_eval]: "FWhereDay col cond v = guarded (with_operator cond (\<lambda>c. on_where (WhereDay col c v)))"

definition FOrWhereDay :: "gostring \<Rightarrow> gostring \<Rightarrow> gostring \<Rightarrow> facade \<Rightarrow> facade" where
  [go_eval]: "FOrWhereDay col cond v = guarded (with_operator cond (\<lambda>c. on_where (OrWhereDay col c v)))"

definition FWhereMonth :: "gostring \<Rightarrow> gostring \<Rightarrow> gostring \<Rightarrow> facade \<Rightarrow> facade" where
  [go_eval]: "FWhereMonth col cond v = guarded (with_operator cond (\<lambda>c. on_where (WhereMonth col c v)))"

definition FOrWhereMonth :: "gostring \<Rightarrow> gostring \<Rightarrow> gostring \<Rightarrow> facade \<Rightarrow> facade" where
  [go_eval]: "FOrWhereMonth col cond v = guarded (with_operator cond (\<lambda>c. on_where (OrWhereMonth col c v)))"

definition FWhereYear :: "gostring \<Rightarrow> gostring \<Rightarrow> gostring \<Rightarrow> facade \<Rightarrow> facade" where
  [go_eval]: "FWhereYear col cond v = guarded (with_operator cond (\<lambda>c. on_where (WhereYear col c v)))"

definition FOrWhereYear :: "gostring \<Rightarrow> gostring \<Rightarrow> gostring \<Rightarrow> facade \<Rightarrow> facade" where
  [go_eval]: "FOrWhereYear col cond v = guarded (with_operator cond (\<lambda>c. on_where (OrWhereYear col c v)))"

section \<open>Lists and subqueries\<close>

text \<open>Under strict settings a list must be one that can be detached from the caller.\<close>

definition is_slice :: "goval \<Rightarrow> bool" where
  [go_eval]: "is_slice v = (case v of VList xs \<Rightarrow> True | VScalars t xs \<Rightarrow> True | VBytes bs \<Rightarrow> True | _ \<Rightarrow> False)"

definition strictInValue :: "goval \<Rightarrow> facade \<Rightarrow> bool" where
  [go_eval]: "strictInValue v q = (\<not> st_strict (qs_settings (fq_state q)) \<or> snd (fst (Copy new_copier v)) \<and> is_slice v)"

definition in_method :: "int \<Rightarrow> gostring \<Rightarrow> gostring \<Rightarrow> goval \<Rightarrow> facade \<Rightarrow> facade" where
  [go_eval]: "in_method op cond col v q = 
     (if strictInValue v q then on_where (\<lambda>w. fst (addWhereIn col op cond (InValue v) w)) q
      else fail_with (error_text (tenantError ''in_value_unsupported'')) q)"

definition FWhereIn :: "gostring \<Rightarrow> goval \<Rightarrow> facade \<Rightarrow> facade" where
  [go_eval]: "FWhereIn = in_method op_AND ''IN''"

definition FWhereNotIn :: "gostring \<Rightarrow> goval \<Rightarrow> facade \<Rightarrow> facade" where
  [go_eval]: "FWhereNotIn = in_method op_AND ''NOT IN''"

definition FOrWhereIn :: "gostring \<Rightarrow> goval \<Rightarrow> facade \<Rightarrow> facade" where
  [go_eval]: "FOrWhereIn = in_method op_OR ''IN''"

definition FOrWhereNotIn :: "gostring \<Rightarrow> goval \<Rightarrow> facade \<Rightarrow> facade" where
  [go_eval]: "FOrWhereNotIn = in_method op_OR ''NOT IN''"

definition FWhereInSubQuery :: "gostring \<Rightarrow> facade \<Rightarrow> facade \<Rightarrow> facade \<times> facade" where
  [go_eval]: "FWhereInSubQuery col sub = 
     with_argument (on_where (\<lambda>w. fst (addWhereInSubQuery col op_AND ''IN'' (fq_builder sub) w))) seal_conditions sub"

definition FWhereNotInSubQuery :: "gostring \<Rightarrow> facade \<Rightarrow> facade \<Rightarrow> facade \<times> facade" where
  [go_eval]: "FWhereNotInSubQuery col sub = 
     with_argument (on_where (\<lambda>w. fst (addWhereInSubQuery col op_AND ''NOT IN'' (fq_builder sub) w))) seal_conditions sub"

definition FOrWhereInSubQuery :: "gostring \<Rightarrow> facade \<Rightarrow> facade \<Rightarrow> facade \<times> facade" where
  [go_eval]: "FOrWhereInSubQuery col sub = 
     with_argument (on_where (\<lambda>w. fst (addWhereInSubQuery col op_OR ''IN'' (fq_builder sub) w))) seal_conditions sub"

definition FOrWhereNotInSubQuery :: "gostring \<Rightarrow> facade \<Rightarrow> facade \<Rightarrow> facade \<times> facade" where
  [go_eval]: "FOrWhereNotInSubQuery col sub = 
     with_argument (on_where (\<lambda>w. fst (addWhereInSubQuery col op_OR ''NOT IN'' (fq_builder sub) w))) seal_conditions sub"

definition FWhereExists :: "facade \<Rightarrow> facade \<Rightarrow> facade \<times> facade" where
  [go_eval]: "FWhereExists sub = 
     with_argument (on_where (\<lambda>w. fst (WhereExistsQuery (fq_builder sub) w))) seal_conditions sub"

definition FOrWhereExists :: "facade \<Rightarrow> facade \<Rightarrow> facade \<times> facade" where
  [go_eval]: "FOrWhereExists sub = 
     with_argument (on_where (\<lambda>w. fst (OrWhereExistsQuery (fq_builder sub) w))) seal_conditions sub"

definition FWhereNotExists :: "facade \<Rightarrow> facade \<Rightarrow> facade \<times> facade" where
  [go_eval]: "FWhereNotExists sub = 
     with_argument (on_where (\<lambda>w. fst (WhereNotExistsQuery (fq_builder sub) w))) seal_conditions sub"

definition FOrWhereNotExists :: "facade \<Rightarrow> facade \<Rightarrow> facade \<times> facade" where
  [go_eval]: "FOrWhereNotExists sub = 
     with_argument (on_where (\<lambda>w. fst (OrWhereNotExistsQuery (fq_builder sub) w))) seal_conditions sub"

section \<open>JSON and text search\<close>

text \<open>These write a raw condition with named parameters; names are numbered by the query.\<close>

definition nextParamName :: "gostring \<Rightarrow> facade \<Rightarrow> gostring \<times> facade" where
  [go_eval]: "nextParamName prefix q =
     (let n = fq_paramSeq q + 1 in (''__goquent_'' @ prefix @ ''_'' @ nat_str n, q\<lparr>fq_paramSeq := n\<rparr>))"

definition json_refused :: "driver_dialect \<Rightarrow> gostring \<Rightarrow> gostring \<Rightarrow> gostring option" where
  [go_eval]: "json_refused d col key =
     (if d \<noteq> PostgresDialect then Some ''goquent: JSONB predicates are only supported on PostgreSQL''
      else if trim_space col = [] then Some ''goquent: JSONB column is required''
      else if key = [] then Some ''goquent: JSONB key is required''
      else None)"

definition json_column :: "gostring \<Rightarrow> gostring" where
  [go_eval]: "json_column col = join ''.'' (map (QuoteIdent DialectPostgreSQL) (split_on CHR ''.'' (trim_space col)))"

definition FWhereJSONText :: "gostring \<Rightarrow> gostring \<Rightarrow> goval \<Rightarrow> facade \<Rightarrow> facade" where
  [go_eval]: "FWhereJSONText col key v q =
     guarded (refusing (json_refused (qs_dialect (fq_state q)) col key)
       (\<lambda>q. case nextParamName ''json_key'' q of (keyName, q1) \<Rightarrow>
         (case nextParamName ''json_value'' q1 of (valueName, q2) \<Rightarrow>
            FWhereRaw (json_column col @ '' ->> :'' @ keyName @ '' = :'' @ valueName)
              (Some [(keyName, VString key), (valueName, v)]) q2))) q"

definition whereJSONHasKey :: "gostring \<Rightarrow> gostring \<Rightarrow> bool \<Rightarrow> facade \<Rightarrow> facade" where
  [go_eval]: "whereJSONHasKey col key negated q =
     guarded (refusing (json_refused (qs_dialect (fq_state q)) col key)
       (\<lambda>q. case nextParamName ''json_key'' q of (keyName, q1) \<Rightarrow>
         (let raw = json_column col @ '' ? :'' @ keyName
          in FWhereRaw (if negated then ''NOT ('' @ raw @ '')'' else raw) (Some [(keyName, VString key)]) q1))) q"

definition FWhereJSONHasKey :: "gostring \<Rightarrow> gostring \<Rightarrow> facade \<Rightarrow> facade" where
  [go_eval]: "FWhereJSONHasKey col key = whereJSONHasKey col key False"

definition FWhereJSONNotHasKey :: "gostring \<Rightarrow> gostring \<Rightarrow> facade \<Rightarrow> facade" where
  [go_eval]: "FWhereJSONNotHasKey col key = whereJSONHasKey col key True"

text \<open>The parts of the search condition with their parameter names, until a column is refused.\<close>

fun search_parts ::
  "(nat \<Rightarrow> gostring \<Rightarrow> gostring) \<Rightarrow> gostring \<Rightarrow> gostring list \<Rightarrow> facade \<Rightarrow> (gostring + (gostring \<times> gostring) list) \<times> facade" where
  "search_parts other opr [] q = (Inr [], q)"
| "search_parts other opr (c # cs) q =
     (case validateSelectColumn (trim_space c) of
        Some e \<Rightarrow> (Inl (''goquent: invalid text search column: '' @ e), q)
      | None \<Rightarrow>
          (case nextParamName ''text_search'' q of (name, q1) \<Rightarrow>
             (case search_parts other opr cs q1 of
                (Inl e, q2) \<Rightarrow> (Inl e, q2)
              | (Inr parts, q2) \<Rightarrow>
                  (Inr ((quoteIdentifierPath other (qs_dialect (fq_state q)) (trim_space c) @ '' '' @ opr @ '' :'' @ name @ '' ESCAPE '' @ [CHR 0x27, CHR ''!'', CHR 0x27], name) # parts), q2))))"

definition add_search :: "(nat \<Rightarrow> gostring \<Rightarrow> gostring) \<Rightarrow> int \<Rightarrow> gostring \<Rightarrow> gostring list \<Rightarrow> gostring \<Rightarrow> facade \<Rightarrow> facade" where
  [go_eval]: "add_search other op opr cols term q =
     (case search_parts other opr cols q of
        (Inl e, q') \<Rightarrow> fail_with e q'
      | (Inr parts, q') \<Rightarrow>
          raw_method op (''('' @ join '' OR '' (map fst parts) @ '')'')
            (Some (map (\<lambda>(text_of, name). (name, VString (''%'' @ escapeLikePattern term @ ''%''))) parts)) q')"

definition whereTextSearch :: "(nat \<Rightarrow> gostring \<Rightarrow> gostring) \<Rightarrow> int \<Rightarrow> gostring list \<Rightarrow> gostring \<Rightarrow> facade \<Rightarrow> facade" where
  [go_eval]: "whereTextSearch other op cols term =
     guarded (\<lambda>q.
       if trim_space term = [] then fail_with ''goquent: text search term is required'' q
       else if cols = [] then fail_with ''goquent: text search columns are required'' q
       else add_search other op (if qs_dialect (fq_state q) = PostgresDialect then ''ILIKE'' else ''LIKE'') cols term q)"

definition FWhereTextSearch :: "(nat \<Rightarrow> gostring \<Rightarrow> gostring) \<Rightarrow> gostring list \<Rightarrow> gostring \<Rightarrow> facade \<Rightarrow> facade" where
  [go_eval]: "FWhereTextSearch other cols term = whereTextSearch other op_AND cols term"

definition FOrWhereTextSearch :: "(nat \<Rightarrow> gostring \<Rightarrow> gostring) \<Rightarrow> gostring list \<Rightarrow> gostring \<Rightarrow> facade \<Rightarrow> facade" where
  [go_eval]: "FOrWhereTextSearch other cols term = whereTextSearch other op_OR cols term"

section \<open>Groups\<close>

text \<open>
  The callback gets a query that shares the builder, whose condition list is the group's meanwhile; of the rest it has the
  settings, the error, the parameter counter and a copy of the required predicates.
\<close>

definition group_query :: "facade \<Rightarrow> facade" where
  [go_eval]: "group_query q =
     q\<lparr>fq_state := (fq_state q)\<lparr>qs_bindingPlanning := False, qs_writeKeys := None, qs_approval := None, qs_suppressions := [],
         qs_policy := None, qs_accessReason := [], qs_withDeleted := False, qs_onlyDeleted := False, qs_validation := None\<rparr>,
       fq_builder := (fq_builder q)\<lparr>sb_where := fresh_child (fq_where q)\<rparr>\<rparr>"

definition group_method :: "int \<Rightarrow> bool \<Rightarrow> (facade \<Rightarrow> facade option) \<Rightarrow> facade \<Rightarrow> facade option" where
  [go_eval]: "group_method op isnot fn =
     guarded_option (\<lambda>q.
       if b_depth (fq_where q) \<ge> MaxDepth then Some (on_where (addWhereGroup id op isnot) q)
       else case fn (group_query q) of
           None \<Rightarrow> None
         | Some g \<Rightarrow>
             Some \<lparr>fq_state = (fq_state q)\<lparr>qs_err := fq_err g\<rparr>,
               fq_builder = (fq_builder g)\<lparr>sb_where := addWhereGroup (\<lambda>w. fq_where g) op isnot (fq_where q)\<rparr>,
               fq_paramSeq = fq_paramSeq g\<rparr>)"

definition FWhereGroup :: "(facade \<Rightarrow> facade option) \<Rightarrow> facade \<Rightarrow> facade option" where
  [go_eval]: "FWhereGroup = group_method op_AND False"

definition FOrWhereGroup :: "(facade \<Rightarrow> facade option) \<Rightarrow> facade \<Rightarrow> facade option" where
  [go_eval]: "FOrWhereGroup = group_method op_OR False"

definition FWhereNot :: "(facade \<Rightarrow> facade option) \<Rightarrow> facade \<Rightarrow> facade option" where
  [go_eval]: "FWhereNot = group_method op_AND True"

definition FOrWhereNot :: "(facade \<Rightarrow> facade option) \<Rightarrow> facade \<Rightarrow> facade option" where
  [go_eval]: "FOrWhereNot = group_method op_OR True"

section \<open>Building\<close>

text \<open>The query a statement is built from, and the copy that counts rows.\<close>

definition FBuild :: "facade \<Rightarrow> (gostring + query) \<times> facade" where
  [go_eval]: "FBuild q =
     (case fq_err q of
        Some e \<Rightarrow> (Inl e, q)
      | None \<Rightarrow> (case GetQuery (fq_builder q) of (sq, b) \<Rightarrow>
          (case ValidateQuery (Some sq) of Some e \<Rightarrow> Inl e | None \<Rightarrow> Inr sq, q\<lparr>fq_builder := b\<rparr>)))"

definition FCount :: "gostring list \<Rightarrow> facade \<Rightarrow> (gostring + select_builder) \<times> facade" where
  [go_eval]: "FCount cols q =
     (case fq_err q of
        Some e \<Rightarrow> (Inl e, q)
      | None \<Rightarrow> (case CopyStateToSelect (fq_builder q) (BTable (sb_Table (fq_builder q)) NewSelectBuilder) of (b, src) \<Rightarrow>
          (Inr (BCount cols b), q\<lparr>fq_builder := src\<rparr>)))"

section \<open>Programs that drive the builder\<close>

definition call :: "(facade \<Rightarrow> facade) \<Rightarrow> facade \<Rightarrow> facade option" where
  "call f q = Some (f q)"

definition on_state :: "(query_state \<Rightarrow> query_state) \<Rightarrow> facade \<Rightarrow> facade" where
  "on_state f q = q\<lparr>fq_state := f (fq_state q)\<rparr>"

text \<open>
  The queries an application can make, and the calls it makes them with: any sequence of methods, on any arguments, with
  argument queries made the same way and group callbacks that are such sequences.
\<close>

inductive made :: "facade \<Rightarrow> bool" and caller :: "(facade \<Rightarrow> facade option) \<Rightarrow> bool" where
  made_new: "made (NewWithSettings ident authorized table d conf)"
| made_call: "caller f \<Longrightarrow> made q \<Longrightarrow> f q = Some q' \<Longrightarrow> made q'"
| made_sealed: "made q \<Longrightarrow> made (on_builder seal_conditions q)"
| made_built: "made q \<Longrightarrow> made (on_builder buildQuery q)"
| caller_id: "caller Some"
| caller_seq: "caller f \<Longrightarrow> caller g \<Longrightarrow> caller (\<lambda>q. case f q of None \<Rightarrow> None | Some q' \<Rightarrow> g q')"
| caller_select: "caller (call (FSelect cols))"
| caller_select_raw: "caller (call (FSelectRaw raw vals))"
| caller_distinct: "caller (call (FDistinct cols))"
| caller_max: "caller (call (FMax col))"
| caller_min: "caller (call (FMin col))"
| caller_sum: "caller (call (FSum col))"
| caller_avg: "caller (call (FAvg col))"
| caller_limit: "caller (call (FLimit n))"
| caller_offset: "caller (call (FOffset n))"
| caller_shared_lock: "caller (call FSharedLock)"
| caller_lock: "caller (call FLockForUpdate)"
| caller_order: "caller (call (FOrderBy col dir))"
| caller_order_raw: "caller (call (FOrderByRaw raw))"
| caller_reorder: "caller (call FReOrder)"
| caller_group_by: "caller (call (FGroupBy cols))"
| caller_having: "caller (FHaving col cond v)"
| caller_having_raw: "caller (FHavingRaw raw)"
| caller_or_having: "caller (FOrHaving col cond v)"
| caller_or_having_raw: "caller (FOrHavingRaw raw)"
| caller_join: "caller (call (FJoin table my cond target))"
| caller_left_join: "caller (call (FLeftJoin table my cond target))"
| caller_right_join: "caller (call (FRightJoin table my cond target))"
| caller_cross_join: "caller (call (FCrossJoin table))"
| caller_join_query: "caller (call (FJoinQuery table fn))"
| caller_left_join_query: "caller (call (FLeftJoinQuery table fn))"
| caller_right_join_query: "caller (call (FRightJoinQuery table fn))"
| caller_join_sub: "made s \<Longrightarrow> caller (call (\<lambda>q. fst (FJoinSubQuery s al my cond target q)))"
| caller_left_join_sub: "made s \<Longrightarrow> caller (call (\<lambda>q. fst (FLeftJoinSubQuery s al my cond target q)))"
| caller_right_join_sub: "made s \<Longrightarrow> caller (call (\<lambda>q. fst (FRightJoinSubQuery s al my cond target q)))"
| caller_lateral: "made s \<Longrightarrow> caller (call (\<lambda>q. fst (FJoinLateral s al q)))"
| caller_left_lateral: "made s \<Longrightarrow> caller (call (\<lambda>q. fst (FLeftJoinLateral s al q)))"
| caller_union: "made s \<Longrightarrow> caller (call (\<lambda>q. fst (FUnion s q)))"
| caller_union_all: "made s \<Longrightarrow> caller (call (\<lambda>q. fst (FUnionAll s q)))"
| caller_where: "caller (call (where_method op usage col args))"
| caller_raw: "caller (call (raw_method op raw binds))"
| caller_any: "caller (call (FWhereAny cols cond v))"
| caller_all: "caller (call (FWhereAll cols cond v))"
| caller_column: "caller (call (column_method op usage col names))"
| caller_columns: "caller (call (columns_method op colss))"
| caller_null: "caller (call (on_where (addWhereNull col op ''IS NULL'')))"
| caller_not_null: "caller (call (on_where (addWhereNull col op ''IS NOT NULL'')))"
| caller_between: "caller (call (FWhereBetween col lo hi))"
| caller_not_between: "caller (call (FWhereNotBetween col lo hi))"
| caller_or_between: "caller (call (FOrWhereBetween col lo hi))"
| caller_or_not_between: "caller (call (FOrWhereNotBetween col lo hi))"
| caller_between_columns: "caller (call (FWhereBetweenColumns col lc hc))"
| caller_or_between_columns: "caller (call (FOrWhereBetweenColumns col lc hc))"
| caller_not_between_columns: "caller (call (FWhereNotBetweenColumns col lc hc))"
| caller_or_not_between_columns: "caller (call (FOrWhereNotBetweenColumns col lc hc))"
| caller_full_text: "caller (call (FWhereFullText cols search opts))"
| caller_or_full_text: "caller (call (FOrWhereFullText cols search opts))"
| caller_date: "caller (call (FWhereDate col cond t))"
| caller_or_date: "caller (call (FOrWhereDate col cond t))"
| caller_time: "caller (call (FWhereTime col cond t))"
| caller_or_time: "caller (call (FOrWhereTime col cond t))"
| caller_day: "caller (call (FWhereDay col cond t))"
| caller_or_day: "caller (call (FOrWhereDay col cond t))"
| caller_month: "caller (call (FWhereMonth col cond t))"
| caller_or_month: "caller (call (FOrWhereMonth col cond t))"
| caller_year: "caller (call (FWhereYear col cond t))"
| caller_or_year: "caller (call (FOrWhereYear col cond t))"
| caller_in: "caller (call (FWhereIn col v))"
| caller_not_in: "caller (call (FWhereNotIn col v))"
| caller_or_in: "caller (call (FOrWhereIn col v))"
| caller_or_not_in: "caller (call (FOrWhereNotIn col v))"
| caller_in_sub: "made s \<Longrightarrow> caller (call (\<lambda>q. fst (FWhereInSubQuery col s q)))"
| caller_not_in_sub: "made s \<Longrightarrow> caller (call (\<lambda>q. fst (FWhereNotInSubQuery col s q)))"
| caller_or_in_sub: "made s \<Longrightarrow> caller (call (\<lambda>q. fst (FOrWhereInSubQuery col s q)))"
| caller_or_not_in_sub: "made s \<Longrightarrow> caller (call (\<lambda>q. fst (FOrWhereNotInSubQuery col s q)))"
| caller_exists: "made s \<Longrightarrow> caller (call (\<lambda>q. fst (FWhereExists s q)))"
| caller_or_exists: "made s \<Longrightarrow> caller (call (\<lambda>q. fst (FOrWhereExists s q)))"
| caller_not_exists: "made s \<Longrightarrow> caller (call (\<lambda>q. fst (FWhereNotExists s q)))"
| caller_or_not_exists: "made s \<Longrightarrow> caller (call (\<lambda>q. fst (FOrWhereNotExists s q)))"
| caller_json_text: "caller (call (FWhereJSONText col key v))"
| caller_json_key: "caller (call (whereJSONHasKey col key isnot))"
| caller_text_search: "caller (call (whereTextSearch other op cols term))"
| caller_group: "caller f \<Longrightarrow> caller (group_method op isnot f)"
| caller_approval: "caller (call (on_state (RequireApproval why now)))"
| caller_predicates: "caller (call (on_state (RequirePredicates reqs)))"
| caller_access: "caller (call (on_state (AccessReason why)))"
| caller_with_deleted: "caller (call (on_state WithDeleted))"
| caller_only_deleted: "caller (call (on_state OnlyDeleted))"

section \<open>Text that was checked\<close>

text \<open>
  The operator of a condition is one of the list (up to space around it and case), one the builder writes itself, or absent; raw text has passed its check.
  Join clauses are excepted, since nothing checks them.
\<close>

definition operator_allowed :: "gostring \<Rightarrow> bool" where
  [go_eval]: "operator_allowed c \<longleftrightarrow> to_upper (trim_space c) \<in> set allowed_operators"

definition builder_operators :: "gostring list" where
  [go_eval]: "builder_operators =
     [[], ''IS NULL'', ''IS NOT NULL'', ''BETWEEN'', ''NOT BETWEEN'', ''IN'', ''NOT IN'', ''EXISTS'', ''NOT EXISTS'']"

definition raw_checked :: "gostring \<Rightarrow> bool" where
  [go_eval]: "raw_checked raw \<longleftrightarrow> raw = [] \<or> validateRawSQLFragment raw = None"

definition safe_flat :: "where_flat \<Rightarrow> bool" where
  [go_eval]: "safe_flat f \<longleftrightarrow> (w_Condition f \<in> set builder_operators \<or> operator_allowed (w_Condition f)) \<and> raw_checked (w_Raw f)"

definition safe_column :: "select_column \<Rightarrow> bool" where
  [go_eval]: "safe_column c \<longleftrightarrow> raw_checked (sc_Raw c)"

definition safe_order :: "order_by \<Rightarrow> bool" where
  [go_eval]: "safe_order ob \<longleftrightarrow> raw_checked (ob_Raw ob)"

definition safe_having :: "having \<Rightarrow> bool" where
  [go_eval]: "safe_having h \<longleftrightarrow> (hv_Condition h = [] \<or> operator_allowed (hv_Condition h)) \<and> raw_checked (hv_Raw h)"

definition safe_group_by :: "gostring list \<times> having list option \<Rightarrow> bool" where
  [go_eval]: "safe_group_by g \<longleftrightarrow> (case snd g of None \<Rightarrow> True | Some hs \<Rightarrow> list_all safe_having hs)"

definition safe_query_flat :: "query_flat \<Rightarrow> bool" where
  [go_eval]: "safe_query_flat f \<longleftrightarrow>
     pred_option (list_all safe_column) (q_Columns f) \<and> pred_option (list_all safe_order) (q_Order f) \<and>
     pred_option safe_group_by (q_Group f)"

definition safe_join_flat :: "join_flat \<Rightarrow> bool" where
  [go_eval]: "safe_join_flat f \<longleftrightarrow> j_SearchCondition f = [] \<or> operator_allowed (j_SearchCondition f)"

primrec safe_query :: "query \<Rightarrow> bool"
and safe_group :: "where_group \<Rightarrow> bool"
and safe_cond :: "where_cond \<Rightarrow> bool"
and safe_joins :: "joins \<Rightarrow> bool"
and safe_join :: "join \<Rightarrow> bool"
and safe_clause :: "join_clause \<Rightarrow> bool" where
  "safe_query (Query f us js gs cs) \<longleftrightarrow>
     safe_query_flat f \<and> list_all id (map fst (map (map_prod safe_query id) us)) \<and> pred_option id (map_option safe_joins js) \<and>
     list_all id (map safe_group gs) \<and> pred_option (list_all id) (map_option (map safe_cond) cs)"
| "safe_group (WhereGroup cs op dummy isnot) \<longleftrightarrow> list_all id (map safe_cond cs)"
| "safe_cond (Where f nested q e) \<longleftrightarrow>
     safe_flat f \<and> pred_option (list_all id) (map_option (map safe_group) nested) \<and> pred_option id (map_option safe_query q) \<and>
     pred_option id (map_option snd (map_option (map_prod id safe_query) e))"
| "safe_joins (JoinSet jl jc ll) \<longleftrightarrow>
     pred_option (list_all id) (map_option (map safe_join) jl) \<and> pred_option (list_all id) (map_option (map safe_clause) jc) \<and>
     pred_option (list_all id) (map_option (map safe_join) ll)"
| "safe_join (Join f q) \<longleftrightarrow> safe_join_flat f \<and> pred_option id (map_option safe_query q)"
| "safe_clause (JoinClause ons gs cs f q) \<longleftrightarrow> pred_option id (map_option safe_query q)"

definition safe_where :: "where_builder \<Rightarrow> bool" where
  "safe_where w \<longleftrightarrow> list_all safe_cond (b_Conditions w) \<and> list_all safe_group (b_ConditionGroups w)"

definition safe_builder :: "select_builder \<Rightarrow> bool" where
  "safe_builder b \<longleftrightarrow>
     safe_where (sb_where b) \<and> list_all safe_column (sb_Columns b) \<and> list_all safe_order (sb_Order b) \<and> safe_group_by (sb_Group b) \<and>
     list_all (safe_query \<circ> fst) (sb_Union b) \<and> list_all safe_join (sb_PlainJoins b) \<and> list_all safe_clause (sb_JoinClauses b) \<and>
     list_all safe_join (sb_LateralJoins b)"

section \<open>Every method keeps the checks\<close>

named_theorems kept \<open>methods that keep checked text and errors\<close>

definition keeps :: "(facade \<Rightarrow> facade option) \<Rightarrow> bool" where
  "keeps f \<longleftrightarrow> (\<forall>q q'. safe_builder (fq_builder q) \<longrightarrow> f q = Some q' \<longrightarrow>
     safe_builder (fq_builder q') \<and> (fq_err q \<noteq> None \<longrightarrow> fq_err q' \<noteq> None))"

lemma list_all_id_map [simp]: "list_all id (map f xs) = list_all f xs"
  by (simp add: list.pred_map o_def)

lemma pred_option_map [simp]: "pred_option P (map_option f x) = pred_option (P \<circ> f) x"
  by (simp add: option.pred_map)

lemma keeps_call: "keeps (call f) \<longleftrightarrow> (\<forall>q. safe_builder (fq_builder q) \<longrightarrow>
    safe_builder (fq_builder (f q)) \<and> (fq_err q \<noteq> None \<longrightarrow> fq_err (f q) \<noteq> None))"
  by (auto simp: keeps_def call_def)

lemma fail_with_fields [simp]: "fq_builder (fail_with e q) = fq_builder q" "fq_err (fail_with e q) = Some e"
  by (simp_all add: fail_with_def)

lemma on_builder_fields [simp]:
  "fq_builder (on_builder f q) = f (fq_builder q)" "fq_state (on_builder f q) = fq_state q" "fq_paramSeq (on_builder f q) = fq_paramSeq q"
  by (simp_all add: on_builder_def)

lemma kept_fail [kept]: "keeps (call (fail_with e))"
  by (simp add: keeps_call)

lemma kept_guarded [kept]: "keeps (call f) \<Longrightarrow> keeps (call (guarded f))"
  by (simp add: keeps_call guarded_def)

lemma kept_refusing [kept]: "(e = None \<Longrightarrow> keeps (call f)) \<Longrightarrow> keeps (call (refusing e f))"
  by (simp add: keeps_call refusing_def split: option.splits)

lemma accepted_operator: "validateConditionOperator cond = Inr c \<Longrightarrow> operator_allowed c \<and> operator_allowed cond"
  by (auto simp: operator_allowed_def validateConditionOperator_def Let_def split: if_splits)

lemma kept_operator [kept]: "(\<And>c. operator_allowed c \<Longrightarrow> keeps (call (f c))) \<Longrightarrow> keeps (call (with_operator cond f))"
  using accepted_operator [of cond] by (auto simp: with_operator_def kept_fail split: sum.splits)

lemma kept_builder [kept]: "(\<And>b. safe_builder b \<Longrightarrow> safe_builder (f b)) \<Longrightarrow> keeps (call (on_builder f))"
  by (simp add: keeps_call)

lemma safe_where_update: "safe_builder b \<Longrightarrow> safe_where w \<Longrightarrow> safe_builder (b\<lparr>sb_where := w\<rparr>)"
  by (simp add: safe_builder_def)

lemma safe_builder_where: "safe_builder b \<Longrightarrow> safe_where (sb_where b)"
  by (simp add: safe_builder_def)

lemma kept_where [kept]: "(\<And>w. safe_where w \<Longrightarrow> safe_where (f w)) \<Longrightarrow> keeps (call (on_where f))"
  unfolding on_where_def by (rule kept_builder) (simp add: safe_where_update safe_builder_where)

subsection \<open>Conditions\<close>

lemma safe_append_flat: "safe_where w \<Longrightarrow> safe_flat f \<Longrightarrow> safe_where (append_flat f w)"
  by (simp add: safe_where_def append_flat_def append_cond_def)

lemma safe_zero: "safe_flat zero_where" "raw_checked []" "[] \<in> set builder_operators"
  by (simp_all add: safe_flat_def zero_where_def raw_checked_def builder_operators_def)

definition safe_condition :: "gostring \<Rightarrow> bool" where
  "safe_condition c \<longleftrightarrow> c \<in> set builder_operators \<or> operator_allowed c"

lemma safe_condition_intros:
  "operator_allowed c \<Longrightarrow> safe_condition c" "safe_condition ''IS NULL''" "safe_condition ''IS NOT NULL''" "safe_condition ''BETWEEN''"
  "safe_condition ''NOT BETWEEN''" "safe_condition ''IN''" "safe_condition ''NOT IN''" "safe_condition ''EXISTS''"
  "safe_condition ''NOT EXISTS''" "safe_condition []"
  by (simp_all add: safe_condition_def builder_operators_def)

lemma equals_allowed: "operator_allowed ''=''"
  by code_simp

lemma safe_flat_condition: "safe_condition (w_Condition f) \<Longrightarrow> raw_checked (w_Raw f) \<Longrightarrow> safe_flat f"
  by (simp add: safe_flat_def safe_condition_def)

lemmas safe_flat_intros = safe_append_flat safe_flat_condition safe_condition_intros safe_zero equals_allowed

lemma safe_addWhere: "safe_where w \<Longrightarrow> operator_allowed c \<Longrightarrow> safe_where (addWhere col c vals op w)"
  by (simp add: addWhere_def safe_flat_intros zero_where_def)

lemma safe_addRaw: "safe_where w \<Longrightarrow> validateRawSQLFragment raw = None \<Longrightarrow> safe_where (addRaw raw vals op w)"
  by (simp add: addRaw_def safe_flat_intros zero_where_def raw_checked_def)

lemma safe_addWhereNull: "safe_where w \<Longrightarrow> safe_condition c \<Longrightarrow> safe_where (addWhereNull col op c w)"
  by (simp add: addWhereNull_def safe_flat_intros zero_where_def)

lemma safe_addWhereCondition: "safe_where w \<Longrightarrow> operator_allowed c \<Longrightarrow> safe_where (addWhereCondition names col c vcol op w)"
  by (simp add: addWhereCondition_def safe_flat_intros zero_where_def)

lemma safe_addWhereColumns:
  "safe_where w \<Longrightarrow> validateColumnComparisons cols = None \<Longrightarrow> safe_where (addWhereColumns names cols op w)"
proof (induction cols arbitrary: w)
  case (Cons c cs)
  then show ?case
    by (auto simp: safe_addWhereCondition equals_allowed accepted_operator split: if_splits sum.splits intro!: Cons.IH)
qed simp

lemma safe_addWhereBetween: "safe_where w \<Longrightarrow> safe_condition c \<Longrightarrow> safe_where (addWhereBetween col lo hi c op isnot w)"
  by (simp add: addWhereBetween_def safe_flat_intros zero_where_def)

lemma safe_addWhereBetweenColumns:
  "safe_where w \<Longrightarrow> safe_condition c \<Longrightarrow> safe_where (addWhereBetweenColumns names col lo hi c op isnot w)"
  by (simp add: addWhereBetweenColumns_def safe_flat_intros zero_where_def)

lemma safe_dates:
  assumes "safe_where w" "operator_allowed c"
  shows "safe_where (addWhereDate col c v op w)" "safe_where (addWhereMonth col c v op w)" "safe_where (addWhereDay col c v op w)"
    "safe_where (addWhereYear col c v op w)" "safe_where (addWhereTime col c v op w)"
  using assms by (simp_all add: addWhereDate_def addWhereMonth_def addWhereDay_def addWhereYear_def addWhereTime_def
      safe_flat_intros zero_where_def)

lemma safe_addWhereFullText: "safe_where w \<Longrightarrow> safe_where (addWhereFullText cols search opts op isnot w)"
  by (simp add: addWhereFullText_def safe_flat_intros zero_where_def)

lemma safe_seal: "safe_builder b \<Longrightarrow> safe_builder (seal_conditions b)"
  by (simp add: safe_builder_def safe_where_def seal_conditions_def append_group_def)

lemma safe_flush: "safe_where w \<Longrightarrow> safe_where (flush_conditions op w)"
  by (simp add: safe_where_def flush_conditions_def append_group_def)

lemma safe_buildQuery: "safe_builder b \<Longrightarrow> safe_builder (buildQuery b)"
  by (simp add: buildQuery_def safe_where_update safe_builder_where safe_flush)

lemma safe_builder_joins: "safe_builder b \<Longrightarrow> safe_joins (builder_joins b)"
  by (simp add: safe_builder_def builder_joins_def)

lemma safe_subquery_flat: "safe_builder b \<Longrightarrow> safe_query_flat (subquery_flat b e)"
  by (simp add: safe_builder_def subquery_flat_def safe_query_flat_def)

lemma safe_embedded: "safe_builder b \<Longrightarrow> safe_query (embedded_query b)"
  using safe_seal [of b] by (simp add: embedded_query_def Let_def safe_subquery_flat safe_builder_joins) (simp add: safe_builder_def safe_where_def)

lemma safe_joined: "safe_builder b \<Longrightarrow> safe_query (joined_query b)"
  using safe_seal [of b] by (simp add: joined_query_def Let_def safe_subquery_flat safe_builder_joins) (simp add: safe_builder_def safe_where_def)

lemma safe_built: "safe_builder b \<Longrightarrow> safe_query (built_query b)"
  by (simp add: built_query_def safe_builder_joins safe_query_flat_def) (simp add: safe_builder_def safe_where_def list.pred_map o_def)

lemma safe_append_sub:
  "safe_where w \<Longrightarrow> safe_condition c \<Longrightarrow> safe_builder b \<Longrightarrow>
   safe_where (append_cond (Where (zero_where\<lparr>w_Column := col, w_Condition := c, w_Operator := op\<rparr>) None (Some (embedded_query b)) None) w)"
  by (simp add: safe_where_def append_cond_def safe_embedded safe_flat_def safe_condition_def zero_where_def raw_checked_def)

lemma safe_addWhereInSubQuery:
  "safe_where w \<Longrightarrow> safe_condition c \<Longrightarrow> safe_builder b \<Longrightarrow> safe_where (fst (addWhereInSubQuery col op c b w))"
  by (simp add: addWhereInSubQuery_def safe_append_sub)

lemma safe_addWhereIn: "safe_where w \<Longrightarrow> safe_condition c \<Longrightarrow> safe_where (fst (addWhereIn col op c (InValue v) w))"
  by (auto simp: addWhereIn_def safe_flat_intros zero_where_def split: option.splits)

lemma safe_addWhereExistsQuery:
  "safe_where w \<Longrightarrow> safe_condition c \<Longrightarrow> safe_builder b \<Longrightarrow> safe_where (fst (addWhereExistsQuery b c op isnot w))"
  by (simp add: addWhereExistsQuery_def exists_cond_def safe_where_def append_cond_def safe_embedded safe_flat_def safe_condition_def
      zero_where_def raw_checked_def)

lemma safe_addWhereConditions: "safe_where w \<Longrightarrow> operator_allowed c \<Longrightarrow> safe_where (addWhereConditions cols c v op w)"
  using safe_flush [of w op]
  by (simp add: addWhereConditions_def safe_where_def append_group_def list.pred_map o_def safe_flat_def zero_where_def raw_checked_def)
    (simp add: list_all_iff)

lemma safe_addWhereGroup:
  assumes "safe_where w" "safe_where (fn (fresh_child w))"
  shows "safe_where (addWhereGroup fn op isnot w)"
proof (cases "MaxDepth \<le> b_depth w")
  case True
  with assms(1) show ?thesis by (simp add: addWhereGroup_def safe_where_def)
next
  case False
  let ?child = "fn (fresh_child w)"
  let ?b1 = "case b_PredicateError ?child of None \<Rightarrow> w | Some e \<Rightarrow> w\<lparr>b_PredicateError := Some e\<rparr>"
  let ?groups = "b_ConditionGroups (flush_conditions 0 ?child)"
  have "list_all safe_group ?groups" using safe_flush [OF assms(2)] by (simp add: safe_where_def)
  then have g: "safe_group (WhereGroup [Where zero_where (Some ?groups) None None] op False isnot)"
    by (simp add: safe_zero(1))
  have "safe_where ?b1" using assms(1) by (simp add: safe_where_def split: option.split)
  then have "safe_where (flush_conditions 0 ?b1)" by (rule safe_flush)
  moreover have "addWhereGroup fn op isnot w =
      (if ?groups = [] then flush_conditions 0 ?b1
       else append_group (WhereGroup [Where zero_where (Some ?groups) None None] op False isnot) (flush_conditions 0 ?b1))"
    using False by (simp add: addWhereGroup_def fresh_child_def Let_def)
  ultimately show ?thesis using g by (simp add: safe_where_def append_group_def)
qed

lemma safe_fresh_child: "safe_where (fresh_child w)"
  by (simp add: safe_where_def fresh_child_def)

subsection \<open>Columns, order and joins\<close>

lemma safe_append_column: "safe_builder b \<Longrightarrow> safe_column c \<Longrightarrow> safe_builder (append_column c b)"
  by (simp add: safe_builder_def append_column_def)

lemma safe_zero_column: "safe_column (zero_column\<lparr>sc_Name := n\<rparr>)" "safe_column (zero_column\<lparr>sc_Name := n, sc_Function := fn\<rparr>)"
  "safe_column (zero_column\<lparr>sc_Name := n, sc_Distinct := dst\<rparr>)"
  by (simp_all add: safe_column_def zero_column_def raw_checked_def)

lemma safe_BSelect: "safe_builder b \<Longrightarrow> safe_builder (BSelect cols b)"
  unfolding BSelect_def by (induction cols arbitrary: b) (simp_all add: safe_append_column safe_zero_column)

lemma safe_BSelectRaw: "safe_builder b \<Longrightarrow> validateRawSQLFragment raw = None \<Longrightarrow> safe_builder (BSelectRaw raw vals b)"
  by (simp add: BSelectRaw_def safe_append_column safe_column_def zero_column_def raw_checked_def)

lemma safe_aggregates:
  assumes "safe_builder b"
  shows "safe_builder (BMax col b)" "safe_builder (BMin col b)" "safe_builder (BSum col b)" "safe_builder (BAvg col b)"
  using assms by (simp_all add: BMax_def BMin_def BSum_def BAvg_def aggregate_def safe_append_column safe_zero_column)

lemma safe_BDistinct: "safe_builder b \<Longrightarrow> safe_builder (BDistinct names b)"
proof -
  have marked: "safe_builder b \<Longrightarrow>
      safe_builder (b\<lparr>sb_Columns := map (\<lambda>c. if sc_Name c \<in> set names then c\<lparr>sc_Distinct := True\<rparr> else c) (sb_Columns b)\<rparr>)" for b
    by (auto simp: safe_builder_def list_all_iff safe_column_def)
  have "safe_builder b \<Longrightarrow> safe_builder (fold (\<lambda>name s. if list_ex sc_Count (sb_Columns s) then s
      else append_column (zero_column\<lparr>sc_Name := name, sc_Distinct := True\<rparr>) s) ns b)" for ns b
    by (induction ns arbitrary: b) (simp_all add: safe_append_column safe_zero_column)
  with marked show "safe_builder b \<Longrightarrow> ?thesis" by (simp add: BDistinct_def)
qed

lemma safe_tail:
  assumes "safe_builder b"
  shows "safe_builder (BLimit n b)" "safe_builder (BOffset n b)" "safe_builder (BSharedLock b)" "safe_builder (BLockForUpdate b)"
    "safe_builder (BReOrder b)" "safe_builder (BGroupBy cols b)"
  using assms by (simp_all add: safe_builder_def safe_group_by_def BLimit_def BOffset_def BSharedLock_def BLockForUpdate_def BReOrder_def BGroupBy_def)

lemma safe_BOrderBy: "safe_builder b \<Longrightarrow> safe_builder (BOrderBy col dir b)"
  by (simp add: safe_builder_def BOrderBy_def append_order_def safe_order_def raw_checked_def)

lemma safe_BOrderByRaw: "safe_builder b \<Longrightarrow> validateRawSQLFragment raw = None \<Longrightarrow> safe_builder (BOrderByRaw raw b)"
  by (simp add: safe_builder_def BOrderByRaw_def append_order_def safe_order_def raw_checked_def)

lemma safe_append_having: "safe_builder b \<Longrightarrow> safe_having h \<Longrightarrow> append_having h b = Some b' \<Longrightarrow> safe_builder b'"
  by (auto simp: safe_builder_def append_having_def safe_group_by_def split: option.splits)

lemma safe_append_join: "safe_builder b \<Longrightarrow> safe_join j \<Longrightarrow> safe_builder (append_join j b)"
  by (simp add: safe_builder_def append_join_def)

lemma safe_joinCommon: "safe_builder b \<Longrightarrow> operator_allowed c \<Longrightarrow> safe_builder (joinCommon jt table my c target b)"
  by (simp add: joinCommon_def safe_append_join safe_join_flat_def)

lemma safe_BCrossJoin: "safe_builder b \<Longrightarrow> safe_builder (BCrossJoin table b)"
  by (simp add: BCrossJoin_def safe_append_join safe_join_flat_def)

lemma safe_join_with_clause: "safe_builder b \<Longrightarrow> safe_builder (join_with_clause jt table fn b)"
  by (simp add: safe_builder_def join_with_clause_def Let_def)

lemma safe_joinSubCommon:
  "safe_builder b \<Longrightarrow> safe_builder s \<Longrightarrow> operator_allowed c \<Longrightarrow> safe_builder (fst (joinSubCommon jt s al my c target b))"
  by (simp add: joinSubCommon_def safe_append_join safe_join_flat_def safe_joined)

lemma safe_joinLateralCommon: "safe_builder b \<Longrightarrow> safe_builder s \<Longrightarrow> safe_builder (fst (joinLateralCommon jt s al b))"
  using safe_joined [of s] by (simp add: joinLateralCommon_def safe_join_flat_def) (simp add: safe_builder_def safe_join_flat_def)

lemma safe_BUnion: "safe_builder b \<Longrightarrow> safe_builder s \<Longrightarrow> safe_builder (fst (BUnion un s b))"
  using safe_built [OF safe_buildQuery [of s]] by (simp add: BUnion_def GetQuery_def) (simp add: safe_builder_def)

lemmas safe_builders = safe_BSelect safe_BSelectRaw safe_aggregates safe_BDistinct safe_tail safe_BOrderBy safe_BOrderByRaw
  safe_joinCommon safe_BCrossJoin safe_join_with_clause safe_joinSubCommon safe_joinLateralCommon safe_BUnion
lemmas safe_wheres = safe_addWhere safe_addRaw safe_addWhereNull safe_addWhereCondition safe_addWhereColumns safe_addWhereBetween
  safe_addWhereBetweenColumns safe_dates safe_addWhereFullText safe_addWhereInSubQuery safe_addWhereIn safe_addWhereExistsQuery
  safe_addWhereConditions safe_condition_intros

subsection \<open>The methods\<close>

lemma kept_columns [kept]:
  "keeps (call (FSelect cols))" "keeps (call (FSelectRaw raw vals))" "keeps (call (FDistinct cols))" "keeps (call (FMax col))"
  "keeps (call (FMin col))" "keeps (call (FSum col))" "keeps (call (FAvg col))" "keeps (call (FLimit n))" "keeps (call (FOffset n))"
  "keeps (call FSharedLock)" "keeps (call FLockForUpdate)" "keeps (call (FOrderByRaw raw))" "keeps (call FReOrder)"
  "keeps (call (FGroupBy cols))"
  unfolding FSelect_def FSelectRaw_def FDistinct_def FMax_def FMin_def FSum_def FAvg_def FLimit_def FOffset_def FSharedLock_def
    FLockForUpdate_def FOrderByRaw_def FReOrder_def FGroupBy_def
  by (intro kept safe_builders; assumption)+

lemma kept_order [kept]: "keeps (call (FOrderBy col dir))"
proof -
  have "keeps (call (case validateOrderDirection dir of Inl e \<Rightarrow> fail_with e | Inr v \<Rightarrow> on_builder (BOrderBy col v)))"
    by (simp add: kept_fail kept_builder safe_BOrderBy split: sum.split)
  then show ?thesis unfolding FOrderBy_def by (rule kept_guarded)
qed

lemma kept_having_method:
  "safe_having h \<Longrightarrow> keeps (having_method (append_having h))"
  by (auto simp: keeps_def having_method_def safe_append_having split: option.splits)

lemma kept_guarded_option: "keeps f \<Longrightarrow> keeps (guarded_option f)"
  by (auto simp: keeps_def guarded_option_def)

lemma kept_failing: "keeps (Some \<circ> fail_with e)"
  by (simp add: keeps_def)

lemma kept_havings [kept]:
  "keeps (FHaving col cond v)" "keeps (FOrHaving col cond v)" "keeps (FHavingRaw raw)" "keeps (FOrHavingRaw raw)"
  unfolding FHaving_def FOrHaving_def FHavingRaw_def FOrHavingRaw_def BHaving_def BOrHaving_def BHavingRaw_def BOrHavingRaw_def
  by (rule kept_guarded_option,
      auto simp: kept_failing safe_having_def raw_checked_def accepted_operator split: sum.splits option.splits intro!: kept_having_method)+

lemma kept_joins [kept]:
  "keeps (call (FJoin table my cond target))" "keeps (call (FLeftJoin table my cond target))" "keeps (call (FRightJoin table my cond target))"
  "keeps (call (FCrossJoin table))" "keeps (call (FJoinQuery table fn))" "keeps (call (FLeftJoinQuery table fn))"
  "keeps (call (FRightJoinQuery table fn))"
  unfolding FJoin_def FLeftJoin_def FRightJoin_def FCrossJoin_def FJoinQuery_def FLeftJoinQuery_def FRightJoinQuery_def
    BJoin_def BLeftJoin_def BRightJoin_def BJoinQuery_def BLeftJoinQuery_def BRightJoinQuery_def
  by (intro kept safe_builders; assumption)+

lemma keeps_call_fst:
  assumes "\<And>b. safe_builder b \<Longrightarrow> safe_builder (f b)"
  shows "keeps (call (\<lambda>q. fst (with_argument (on_builder f) g s q)))"
  using assms by (simp add: with_argument_def keeps_call)

lemma kept_join_sub:
  assumes "\<And>b c. safe_builder b \<Longrightarrow> operator_allowed c \<Longrightarrow> safe_builder (f c b)"
  shows "keeps (call (\<lambda>q. fst (if fq_err q \<noteq> None then (q, s)
    else case validateConditionOperator cond of Inl e \<Rightarrow> (fail_with e q, s) | Inr c \<Rightarrow> with_argument (on_builder (f c)) g s q)))"
  using assms accepted_operator [of cond] by (auto simp: with_argument_def keeps_call split: sum.splits)

lemma kept_arguments [kept]:
  assumes "safe_builder (fq_builder s)"
  shows "keeps (call (\<lambda>q. fst (FJoinSubQuery s al my cond target q)))" "keeps (call (\<lambda>q. fst (FLeftJoinSubQuery s al my cond target q)))"
    "keeps (call (\<lambda>q. fst (FRightJoinSubQuery s al my cond target q)))" "keeps (call (\<lambda>q. fst (FJoinLateral s al q)))"
    "keeps (call (\<lambda>q. fst (FLeftJoinLateral s al q)))" "keeps (call (\<lambda>q. fst (FUnion s q)))" "keeps (call (\<lambda>q. fst (FUnionAll s q)))"
  unfolding FJoinSubQuery_def FLeftJoinSubQuery_def FRightJoinSubQuery_def FJoinLateral_def FLeftJoinLateral_def FUnion_def FUnionAll_def
    BJoinSub_def BLeftJoinSub_def BRightJoinSub_def BJoinLateral_def BLeftJoinLateral_def
  by ((rule kept_join_sub keeps_call_fst, intro safe_builders; (assumption | rule assms))+)

lemma kept_where_method [kept]: "keeps (call (where_method op usage col args))"
proof -
  have one: "keeps (call (on_where (addWhere col ''='' vals op)))" for vals
    by (intro kept safe_wheres equals_allowed)
  have two: "keeps (call (with_operator cond (\<lambda>c. on_where (addWhere col c vals op))))" for cond vals
    by (intro kept safe_wheres; assumption)
  show ?thesis
    unfolding where_method_def
    by (rule kept_guarded) (auto simp: one two kept_fail split: list.split goval.split)
qed

lemma kept_raw_method [kept]: "keeps (call (raw_method op raw vals))"
  unfolding raw_method_def by (intro kept safe_wheres; assumption)

lemma kept_column_method [kept]: "keeps (call (column_method op usage col names))"
proof -
  have "keeps (call (with_operator cond (\<lambda>c. on_where (addWhereCondition cols col c other op))))" for cond other cols
    by (intro kept safe_wheres; assumption)
  then show ?thesis
    unfolding column_method_def by (auto simp: kept_fail split: list.split)
qed

lemma kept_columns_method [kept]: "keeps (call (columns_method op cols))"
proof -
  have "keeps (call (refusing (validateColumnComparisons cols) (on_where (addWhereColumns names cols op))))" for names
    by (intro kept safe_wheres; assumption)
  then show ?thesis
    unfolding columns_method_def by (intro kept_guarded) (simp add: kept_fail split: sum.split)
qed

lemma kept_plain [kept]:
  "keeps (call (FWhereAny cols cond v))" "keeps (call (FWhereAll cols cond v))"
  "keeps (call (on_where (addWhereNull col op ''IS NULL'')))" "keeps (call (on_where (addWhereNull col op ''IS NOT NULL'')))"
  "keeps (call (FWhereBetween col lo hi))" "keeps (call (FWhereNotBetween col lo hi))" "keeps (call (FOrWhereBetween col lo hi))"
  "keeps (call (FOrWhereNotBetween col lo hi))" "keeps (call (FWhereBetweenColumns col lc hc))"
  "keeps (call (FOrWhereBetweenColumns col lc hc))" "keeps (call (FWhereNotBetweenColumns col lc hc))"
  "keeps (call (FOrWhereNotBetweenColumns col lc hc))" "keeps (call (FWhereFullText cols search opts))"
  "keeps (call (FOrWhereFullText cols search opts))"
  unfolding FWhereAny_def FWhereAll_def WhereAny_def WhereAll_def FWhereBetween_def FWhereNotBetween_def FOrWhereBetween_def
    FOrWhereNotBetween_def WhereBetween_def WhereNotBetween_def OrWhereBetween_def OrWhereNotBetween_def FWhereBetweenColumns_def
    FOrWhereBetweenColumns_def FWhereNotBetweenColumns_def FOrWhereNotBetweenColumns_def WhereBetweenColumns_def
    OrWhereBetweenColumns_def WhereNotBetweenColumns_def OrWhereNotBetweenColumns_def FWhereFullText_def FOrWhereFullText_def
    WhereFullText_def OrWhereFullText_def
  by (intro kept safe_wheres; assumption)+

lemma kept_dates [kept]:
  "keeps (call (FWhereDate col cond t))" "keeps (call (FOrWhereDate col cond t))" "keeps (call (FWhereTime col cond t))"
  "keeps (call (FOrWhereTime col cond t))" "keeps (call (FWhereDay col cond t))" "keeps (call (FOrWhereDay col cond t))"
  "keeps (call (FWhereMonth col cond t))" "keeps (call (FOrWhereMonth col cond t))" "keeps (call (FWhereYear col cond t))"
  "keeps (call (FOrWhereYear col cond t))"
  unfolding FWhereDate_def FOrWhereDate_def FWhereTime_def FOrWhereTime_def FWhereDay_def FOrWhereDay_def FWhereMonth_def
    FOrWhereMonth_def FWhereYear_def FOrWhereYear_def WhereDate_def OrWhereDate_def WhereTime_def OrWhereTime_def WhereDay_def
    OrWhereDay_def WhereMonth_def OrWhereMonth_def WhereYear_def OrWhereYear_def
  by (intro kept safe_wheres; assumption)+

lemma kept_in_method: "safe_condition c \<Longrightarrow> keeps (call (in_method op c col v))"
  by (simp add: keeps_call in_method_def on_where_def safe_where_update safe_builder_where safe_addWhereIn)

lemma kept_ins [kept]:
  "keeps (call (FWhereIn col v))" "keeps (call (FWhereNotIn col v))" "keeps (call (FOrWhereIn col v))" "keeps (call (FOrWhereNotIn col v))"
  unfolding FWhereIn_def FWhereNotIn_def FOrWhereIn_def FOrWhereNotIn_def by (intro kept_in_method safe_condition_intros)+

lemma keeps_where_argument:
  assumes "\<And>w. safe_where w \<Longrightarrow> safe_where (f w)"
  shows "keeps (call (\<lambda>q. fst (with_argument (on_where f) g s q)))"
  unfolding on_where_def using assms by (intro keeps_call_fst) (simp add: safe_where_update safe_builder_where)

lemma kept_subqueries [kept]:
  assumes "safe_builder (fq_builder s)"
  shows "keeps (call (\<lambda>q. fst (FWhereInSubQuery col s q)))" "keeps (call (\<lambda>q. fst (FWhereNotInSubQuery col s q)))"
    "keeps (call (\<lambda>q. fst (FOrWhereInSubQuery col s q)))" "keeps (call (\<lambda>q. fst (FOrWhereNotInSubQuery col s q)))"
    "keeps (call (\<lambda>q. fst (FWhereExists s q)))" "keeps (call (\<lambda>q. fst (FOrWhereExists s q)))"
    "keeps (call (\<lambda>q. fst (FWhereNotExists s q)))" "keeps (call (\<lambda>q. fst (FOrWhereNotExists s q)))"
  unfolding FWhereInSubQuery_def FWhereNotInSubQuery_def FOrWhereInSubQuery_def FOrWhereNotInSubQuery_def FWhereExists_def
    FOrWhereExists_def FWhereNotExists_def FOrWhereNotExists_def WhereExistsQuery_def OrWhereExistsQuery_def
    WhereNotExistsQuery_def OrWhereNotExistsQuery_def
  by (rule keeps_where_argument, intro safe_wheres; (assumption | rule assms))+

subsection \<open>Named parameters and groups\<close>

lemma keeps_param: "keeps (call (f name)) \<Longrightarrow> keeps (call (\<lambda>q. f name (q\<lparr>fq_paramSeq := g q\<rparr>)))"
  by (simp add: keeps_call)

lemma kept_json_text [kept]: "keeps (call (FWhereJSONText col key v))"
  using kept_raw_method
  by (auto simp: keeps_call FWhereJSONText_def guarded_def refusing_def nextParamName_def FWhereRaw_def Let_def split: option.splits)

lemma kept_json_key [kept]: "keeps (call (whereJSONHasKey col key isnot))"
  using kept_raw_method
  by (auto simp: keeps_call whereJSONHasKey_def guarded_def refusing_def nextParamName_def FWhereRaw_def Let_def split: option.splits)

lemma search_parts_state:
  "search_parts other opr cols q = (r, q') \<Longrightarrow> fq_builder q' = fq_builder q \<and> fq_state q' = fq_state q"
proof (induction cols arbitrary: q r q')
  case (Cons c cs)
  then show ?case
    by (fastforce simp: nextParamName_def Let_def split: option.splits prod.splits sum.splits)
qed simp

lemma kept_add_search: "keeps (call (add_search other op opr cols term))"
proof -
  have "safe_builder (fq_builder (add_search other op opr cols term q)) \<and> (fq_err q \<noteq> None \<longrightarrow> fq_err (add_search other op opr cols term q) \<noteq> None)"
    if q: "safe_builder (fq_builder q)" for q
  proof -
    obtain r q' where s: "search_parts other opr cols q = (r, q')" by fastforce
    show ?thesis
      using kept_raw_method [of op] q search_parts_state [OF s] by (cases r) (simp_all add: add_search_def s keeps_call)
  qed
  then show ?thesis by (simp add: keeps_call)
qed

lemma kept_text_search [kept]: "keeps (call (whereTextSearch other op cols term))"
  unfolding whereTextSearch_def using kept_add_search by (intro kept_guarded) (simp add: keeps_call)

lemma kept_group [kept]: "keeps f \<Longrightarrow> keeps (group_method op isnot f)"
proof -
  assume f: "keeps f"
  have "safe_builder (fq_builder q')"
    if q: "safe_builder (fq_builder q)" "fq_err q = None" "group_method op isnot f q = Some q'" for q q'
  proof (cases "MaxDepth \<le> b_depth (fq_where q)")
    case True
    then have "addWhereGroup id op isnot (fq_where q) = (fq_where q)\<lparr>b_PredicateError := Some ErrDepth\<rparr>"
      by (simp add: addWhereGroup_def)
    then show ?thesis
      using True q safe_builder_where [OF q(1)]
      by (auto simp: group_method_def guarded_option_def on_where_def intro!: safe_where_update) (simp add: safe_where_def)
  next
    case False
    with q obtain g where g: "f (group_query q) = Some g"
      and q': "fq_builder q' = (fq_builder g)\<lparr>sb_where := addWhereGroup (\<lambda>w. fq_where g) op isnot (fq_where q)\<rparr>"
      by (auto simp: group_method_def guarded_option_def split: option.splits)
    have "safe_builder (fq_builder (group_query q))"
      using q(1) by (simp add: group_query_def safe_where_update safe_fresh_child)
    with f g have "safe_builder (fq_builder g)" unfolding keeps_def by blast
    then show ?thesis
      unfolding q' by (intro safe_where_update safe_addWhereGroup safe_builder_where q(1))
  qed
  moreover have "group_method op isnot f q = Some q" if "fq_err q \<noteq> None" for q
    using that by (simp add: group_method_def guarded_option_def)
  ultimately have "safe_builder (fq_builder q') \<and> (fq_err q \<noteq> None \<longrightarrow> fq_err q' \<noteq> None)"
    if "safe_builder (fq_builder q)" "group_method op isnot f q = Some q'" for q q'
    using that by (cases "fq_err q = None") simp_all
  then show ?thesis unfolding keeps_def by blast
qed

lemma RequirePredicates_err: "qs_err s \<noteq> None \<Longrightarrow> qs_err (RequirePredicates rs s) \<noteq> None"
  by (cases rs) simp_all

lemma kept_state [kept]:
  "keeps (call (on_state (RequireApproval why now)))" "keeps (call (on_state (RequirePredicates reqs)))"
  "keeps (call (on_state (AccessReason why)))" "keeps (call (on_state WithDeleted))" "keeps (call (on_state OnlyDeleted))"
  using RequirePredicates_err
  by (simp_all add: keeps_call on_state_def RequireApproval_def AccessReason_def WithDeleted_def OnlyDeleted_def Let_def)

lemma kept_id: "keeps Some"
  by (simp add: keeps_def)

lemma kept_seq: "keeps f \<Longrightarrow> keeps g \<Longrightarrow> keeps (\<lambda>q. case f q of None \<Rightarrow> None | Some q' \<Rightarrow> g q')"
proof (unfold keeps_def, intro allI impI)
  fix q q'
  assume f: "\<forall>q q'. safe_builder (fq_builder q) \<longrightarrow> f q = Some q' \<longrightarrow> safe_builder (fq_builder q') \<and> (fq_err q \<noteq> None \<longrightarrow> fq_err q' \<noteq> None)"
    and g: "\<forall>q q'. safe_builder (fq_builder q) \<longrightarrow> g q = Some q' \<longrightarrow> safe_builder (fq_builder q') \<and> (fq_err q \<noteq> None \<longrightarrow> fq_err q' \<noteq> None)"
    and q: "safe_builder (fq_builder q)" "(case f q of None \<Rightarrow> None | Some r \<Rightarrow> g r) = Some q'"
  from q(2) obtain r where r: "f q = Some r" "g r = Some q'" by (cases "f q") simp_all
  from f q(1) r(1) have "safe_builder (fq_builder r) \<and> (fq_err q \<noteq> None \<longrightarrow> fq_err r \<noteq> None)" by blast
  moreover from this g r(2) have "safe_builder (fq_builder q') \<and> (fq_err r \<noteq> None \<longrightarrow> fq_err q' \<noteq> None)" by blast
  ultimately show "safe_builder (fq_builder q') \<and> (fq_err q \<noteq> None \<longrightarrow> fq_err q' \<noteq> None)" by blast
qed

lemma safe_new: "safe_builder (fq_builder (NewWithSettings ident authorized table d conf))"
  by (simp add: NewWithSettings_def BTable_def NewSelectBuilder_def NewWhereBuilder_def safe_builder_def safe_where_def safe_group_by_def)

lemma made_safe:
  "made q \<Longrightarrow> safe_builder (fq_builder q)"
  "caller f \<Longrightarrow> keeps f"
proof (induction rule: made_caller.inducts)
  case (made_call f q q')
  then show ?case unfolding keeps_def by blast
qed (simp_all add: kept kept_id kept_seq safe_new safe_seal safe_buildQuery)

section \<open>Behaviour at the edges\<close>

text \<open>A join clause given by a callback takes any operator text, which the renderer writes as it is.\<close>

lemma join_clause_unchecked:
  "map_option (map on_Condition) (jc_On (last (sb_JoinClauses (fq_builder
     (FJoinQuery ''t'' (ClauseOn ''a.id'' ''= 1 OR 1 ='' ''t.id'') q))))) = Some [''= 1 OR 1 ='']"
  "fq_err (FJoinQuery ''t'' (ClauseOn ''a.id'' ''= 1 OR 1 ='' ''t.id'') q) = fq_err q"
  by (simp_all add: FJoinQuery_def BJoinQuery_def join_with_clause_def ClauseOn_def clause_on_def Let_def)

text \<open>A condition on groups before any \<^verbatim>\<open>GroupBy\<close> panics.\<close>

lemma having_needs_group:
  "snd (sb_Group (fq_builder q)) = None \<Longrightarrow> fq_err q = None \<Longrightarrow> validateConditionOperator cond = Inr c \<Longrightarrow> FHaving col cond v q = None"
  by (simp add: FHaving_def guarded_option_def having_method_def BHaving_def append_having_def)

text \<open>Counting two columns counts the first only, when none was selected before.\<close>

lemma count_first_only: "map sc_Name (sb_Columns (BCount [''a'', ''b''] NewSelectBuilder)) = [''a'']"
  by code_simp

text \<open>A column comparison keeps the space around its operator, which the check ignores.\<close>

lemma comparison_untrimmed:
  "map (w_Condition \<circ> wf) (b_Conditions (addWhereColumns [''a'', ''b''] [[''a'', '' < '', ''b'']] op_AND NewWhereBuilder)) = ['' < '']"
  "validateColumnComparisons [[''a'', '' < '', ''b'']] = None"
  by code_simp+

section \<open>Properties\<close>


text \<open>C37: An error recorded on a query is never lost: whatever is called next, the query neither builds nor counts.\<close>

theorem recorded_error_stops_build:
  "caller f \<Longrightarrow> made q \<Longrightarrow> fq_err q \<noteq> None \<Longrightarrow> f q = Some q' \<Longrightarrow>
     \<exists>e. fq_err q' = Some e \<and> fst (FBuild q') = Inl e \<and> fst (FCount cols q') = Inl e"
proof -
  assume f: "caller f" and q: "made q" "fq_err q \<noteq> None" "f q = Some q'"
  from made_safe(2) [OF f] made_safe(1) [OF q(1)] q(2,3) have "fq_err q' \<noteq> None"
    unfolding keeps_def by blast
  then show ?thesis by (auto simp: FBuild_def FCount_def)
qed

definition users_query :: facade where
  [go_eval]: "users_query = NewWithSettings 0 False ''users'' PostgresDialect (NewSettings [] no_risk_config blank_context)"

lemma users_query_fields: "fq_err users_query = None" "b_depth (fq_where users_query) = 0"
  by (simp_all add: users_query_def NewWithSettings_def NewSettings_def BTable_def NewSelectBuilder_def NewWhereBuilder_def)


theorem recorded_error_stops_build_witness:
  "\<exists>e. fst (FBuild (FSelect [''name''] (FWhere ''id'' [VString ''; DROP'', VInt 7] users_query))) = Inl e"
proof -
  let ?q = "FWhere ''id'' [VString ''; DROP'', VInt 7] users_query"
  have "validateConditionOperator ''; DROP'' = Inl ''goquent: unsupported SQL operator''" by code_simp
  then have "fq_err ?q \<noteq> None"
    by (simp add: FWhere_def where_method_def guarded_def users_query_fields with_operator_def)
  moreover have "made ?q"
    unfolding FWhere_def users_query_def
    by (rule made_call [of "call (where_method op_AND ''invalid Where usage'' ''id'' [VString ''; DROP'', VInt 7])"])
      (intro made_caller.intros, rule made_new, simp add: call_def)
  moreover have "caller (call (FSelect [''name'']))" by (rule caller_select)
  ultimately show ?thesis
    using recorded_error_stops_build [of "call (FSelect [''name''])" ?q] by (auto simp: call_def)
qed

end
