(* ===== verification/BuilderSnapshot.thy ===== *)
theory BuilderSnapshot
  imports SelectBuilder WriteScope RenderQuery "HOL-Library.List_Lexorder" "HOL-Library.Char_ord"
begin

text \<open>
  What a plan is told about a builder (\<^verbatim>\<open>api/state.go\<close>, \<^verbatim>\<open>common/structs/inspect.go\<close>) and how it enters the plan
  (\<^verbatim>\<open>orm/query/plan.go\<close>).  A join or a predicate of a snapshot has the fields of the plan's own record, which is used for both.  The
  condition trees of a rendered query are arguments; those of an unrendered one are made here.
\<close>

section \<open>Inspecting conditions that are not rendered\<close>

definition inspected_value :: "copier \<Rightarrow> goval \<Rightarrow> pvalue \<times> copier" where
  [go_eval]: "inspected_value c v =
     (case Copy c v of ((data, ok), c') \<Rightarrow>
        (if ok then \<lparr>isolation = detached, reason = [], pdata = data\<rparr>
         else \<lparr>isolation = unverified, reason = UnverifiedReason, pdata = VNil\<rparr>, c'))"

fun inspected_values :: "copier \<Rightarrow> goval list \<Rightarrow> pvalue list \<times> copier" where
  "inspected_values c [] = ([], c)"
| "inspected_values c (v # vs) =
     (case inspected_value c v of (p, c1) \<Rightarrow> (case inspected_values c1 vs of (ps, c2) \<Rightarrow> (p # ps, c2)))"

definition text_of_value :: "goval \<Rightarrow> gostring" where
  [go_eval]: "text_of_value v = (case v of VString s \<Rightarrow> s | _ \<Rightarrow> [])"

text \<open>
  The values of a leaf, in the order the code visits its fields: the plain values and the named ones, the bounds in their place when
  there are any, then the JSON and full-text values.
\<close>

definition leaf_values :: "copier \<Rightarrow> where_flat \<Rightarrow> (pvalue list \<times> (gostring \<times> pvalue) list option) \<times> copier" where
  [go_eval]: "leaf_values c f =
     (case inspected_values c (case w_Value f of None \<Rightarrow> [] | Some vs \<Rightarrow> vs) of (plain, c1) \<Rightarrow>
      case inspected_values c1 (case w_ValueMap f of None \<Rightarrow> [] | Some m \<Rightarrow> map snd m) of (named, c2) \<Rightarrow>
      case inspected_values c2 (case w_Between f of None \<Rightarrow> [] | Some b \<Rightarrow> if bt_IsColumn b then [] else [bt_From b, bt_To b]) of (bounds, c3) \<Rightarrow>
      case inspected_values c3
          ((case w_JsonContains f of None \<Rightarrow> [] | Some None \<Rightarrow> [] | Some (Some vs) \<Rightarrow> vs) @
           (case w_JsonLength f of None \<Rightarrow> [] | Some (opr, v) \<Rightarrow> [v]) @
           (case w_FullText f of None \<Rightarrow> [] | Some t \<Rightarrow> [VString (ft_Search t)])) of (rest, c4) \<Rightarrow>
        (((if bounds = [] then plain else bounds) @ rest, map_option (\<lambda>m. zip (map fst m) named) (w_ValueMap f)), c4))"

definition inspected_info :: "gostring \<Rightarrow> where_cond \<Rightarrow> copier \<Rightarrow> node_info \<times> copier" where
  [go_eval]: "inspected_info k leaf c =
     (case leaf of Where f nested q e \<Rightarrow>
        case leaf_values c f of ((vals, named), c') \<Rightarrow>
          (\<lparr>named_values = named,
            bound_columns = (case w_Between f of None \<Rightarrow> []
              | Some b \<Rightarrow> if bt_IsColumn b then [text_of_value (bt_From b), text_of_value (bt_To b)] else []),
            kind = k, column = w_Column f, operator = w_Condition f, value_column = w_ValueColumn f, raw_sql = w_Raw f,
            func_name = w_Function f, node_sql = [], parameters = [], node_values = vals,
            opaque_reason = (if q \<noteq> None \<or> e \<noteq> None then ''subquery'' else if k = ''opaque'' then ''unparsed_expression'' else []),
            correspondence = unverified\<rparr>, c'))"

text \<open>Children are visited before the node's own values; an inner node has the zero leaf.\<close>

fun inspect_tree :: "copier \<Rightarrow> ptree \<Rightarrow> pnode \<times> copier"
and inspect_trees :: "copier \<Rightarrow> ptree list \<Rightarrow> pnode option list \<times> copier" where
  "inspect_tree c (Leaf k leaf) = (case inspected_info k leaf c of (i, c') \<Rightarrow> (Node i [], c'))"
| "inspect_tree c (Inner k ns) =
     (case inspect_trees c ns of (cs, c1) \<Rightarrow>
        case inspected_info k (Where zero_where None None None) c1 of (i, c2) \<Rightarrow> (Node i cs, c2))"
| "inspect_trees c [] = ([], c)"
| "inspect_trees c (n # ns) =
     (case inspect_tree c n of (m, c1) \<Rightarrow> (case inspect_trees c1 ns of (ms, c2) \<Rightarrow> (Some m # ms, c2)))"

definition InspectPredicates :: "where_group list \<Rightarrow> gostring + pnode option" where
  [go_eval]: "InspectPredicates gs =
     (case PredicateTree gs of
        Inl e \<Rightarrow> Inl e
      | Inr None \<Rightarrow> Inr None
      | Inr (Some t) \<Rightarrow> Inr (Some (fst (inspect_tree new_copier t))))"

section \<open>The snapshot\<close>

record query_snapshot =
  sn_AssignmentColumns :: "gostring list"
  sn_WhereTree :: "pnode option"
  sn_HavingTree :: "pnode option"
  sn_Unverified :: "gostring list option"
  sn_Table :: gostring
  sn_Columns :: "column_ref list"
  sn_Limit :: int
  sn_LimitExact :: bool
  sn_Offset :: int
  sn_Joins :: "join_ref list"
  sn_Predicates :: "predicate_ref list"

definition logicalOperator :: "int \<Rightarrow> gostring" where
  [go_eval]: "logicalOperator op = (if op = 1 then ''OR'' else ''AND'')"

definition valueCount :: "where_flat \<Rightarrow> nat" where
  [go_eval]: "valueCount f =
     (if items (w_Value f) \<noteq> [] then length (items (w_Value f))
      else if items (w_ValueMap f) \<noteq> [] then length (items (w_ValueMap f))
      else if w_Between f \<noteq> None then 2
      else if w_FullText f \<noteq> None then 1
      else case w_JsonContains f of
          Some vs \<Rightarrow> length (items vs)
        | None \<Rightarrow> if w_JsonLength f \<noteq> None then 1 else 0)"

text \<open>Every condition without nesting, with the group it stands in; a nested list counts from its own beginning and then takes the outer index.\<close>

definition predicate_snapshot :: "nat \<Rightarrow> bool \<Rightarrow> where_cond \<Rightarrow> predicate_ref" where
  [go_eval]: "predicate_snapshot i isnot c =
     (case c of Where f nested q e \<Rightarrow>
        \<lparr>pr_Group = int i, pr_Connector = logicalOperator (w_Operator f), pr_Column = w_Column f, pr_Operator = w_Condition f,
         pr_ValueCount = valueCount f, pr_ValueColumn = w_ValueColumn f, pr_Raw = w_Raw f, pr_Function = w_Function f,
         pr_Subquery = (q \<noteq> None \<or> e \<noteq> None), pr_Negated = isnot\<rparr>)"

fun snapshot_groups :: "nat \<Rightarrow> where_group list \<Rightarrow> predicate_ref list"
and snapshot_conds :: "nat \<Rightarrow> bool \<Rightarrow> where_cond list \<Rightarrow> predicate_ref list" where
  "snapshot_groups i [] = []"
| "snapshot_groups i (WhereGroup cs op dummy isnot # gs) = snapshot_conds i isnot cs @ snapshot_groups (i + 1) gs"
| "snapshot_conds i isnot [] = []"
| "snapshot_conds i isnot (Where f nested q e # cs) =
     (case nested of
        Some gs \<Rightarrow> map (\<lambda>p. p\<lparr>pr_Group := int i, pr_Negated := (pr_Negated p \<or> isnot)\<rparr>) (snapshot_groups 0 gs)
      | None \<Rightarrow> [predicate_snapshot i isnot (Where f nested q e)]) @ snapshot_conds i isnot cs"

text \<open>The first target of a join by name of its kind.\<close>

definition joinTarget :: "(gostring \<times> gostring) list \<Rightarrow> gostring \<times> gostring" where
  [go_eval]: "joinTarget m =
     (case sort_key fst m of
        [] \<Rightarrow> ([], [])
      | (k, target) # _ \<Rightarrow> (to_upper (replace_byte CHR ''_'' '' '' k), target))"

definition joinSnapshotFromJoin :: "bool \<Rightarrow> join \<Rightarrow> join_ref" where
  [go_eval]: "joinSnapshotFromJoin lateral j =
     (case j of Join f q \<Rightarrow> case joinTarget (j_TargetNameMap f) of (joinType, target) \<Rightarrow>
        let sub = (lateral \<or> q \<noteq> None)
        in \<lparr>jr_OnTree = None, jr_Type = joinType, jr_Table = (if sub then [] else target), jr_Alias = (if sub then target else []),
            jr_LeftColumn = j_SearchColumn f, jr_Operator = j_SearchCondition f, jr_RightColumn = j_SearchTargetColumn f,
            jr_Subquery = sub\<rparr>)"

definition on_node :: "on_cond \<Rightarrow> pnode option" where
  [go_eval]: "on_node c =
     Some (Node (blank_info\<lparr>kind := ''column'', column := on_Column c, operator := on_Condition c,
       value_column := text_of_value (on_Value c), correspondence := generated\<rparr>) [])"

definition on_supported :: "on_cond \<Rightarrow> bool" where
  [go_eval]: "on_supported c \<longleftrightarrow> (case on_Value c of VString s \<Rightarrow> True | _ \<Rightarrow> False) \<and> on_Operator c = 0"

definition clause_node :: "where_flat \<Rightarrow> pnode option list" where
  [go_eval]: "clause_node f =
     (if w_Operator f \<noteq> 0 then []
      else case items (w_Value f) of
          [v] \<Rightarrow> (case fst (Copy new_copier v) of (data, ok) \<Rightarrow>
            [Some (Node (blank_info\<lparr>kind := ''comparison'', column := w_Column f, operator := w_Condition f,
               node_values := [\<lparr>isolation = (if ok then detached else ''unsupported''), reason = [], pdata = data\<rparr>],
               correspondence := generated\<rparr>) [])])
        | _ \<Rightarrow> [])"

definition clause_supported :: "where_flat \<Rightarrow> bool" where
  [go_eval]: "clause_supported f \<longleftrightarrow>
     w_Operator f = 0 \<and> (case items (w_Value f) of [v] \<Rightarrow> snd (fst (Copy new_copier v)) | _ \<Rightarrow> False)"

definition joinSnapshotFromClause :: "join_clause \<Rightarrow> join_ref" where
  [go_eval]: "joinSnapshotFromClause j =
     (case j of JoinClause ons gs cs f q \<Rightarrow> case joinTarget (j_TargetNameMap f) of (joinType, target) \<Rightarrow>
        let conds = map wf (items cs);
            nodes = map on_node (items ons) @ concat (map clause_node conds);
            ok = (list_all on_supported (items ons) \<and> list_all clause_supported conds)
        in \<lparr>jr_OnTree = Some (Node (blank_info\<lparr>kind := ''and'', correspondence := generated,
              opaque_reason := (if ok then [] else ''join_disjunction_or_value_unsupported'')\<rparr>) nodes),
            jr_Type = joinType, jr_Table = (if q \<noteq> None then [] else target), jr_Alias = (if q \<noteq> None then target else []),
            jr_LeftColumn = [], jr_Operator = [], jr_RightColumn = [], jr_Subquery = (q \<noteq> None)\<rparr>)"

definition join_snapshots :: "joins option \<Rightarrow> join_ref list" where
  [go_eval]: "join_snapshots js =
     filter (\<lambda>r. \<not> (jr_Table r = [] \<and> jr_Alias r = []))
       (case js of
          None \<Rightarrow> []
        | Some (JoinSet jl jc ll) \<Rightarrow>
            map joinSnapshotFromClause (items jc) @ map (joinSnapshotFromJoin True) (items ll) @ map (joinSnapshotFromJoin False) (items jl))"

definition column_snapshot :: "select_column \<Rightarrow> column_ref" where
  [go_eval]: "column_snapshot c =
     \<lparr>cr_Table = [], cr_Name = sc_Name c, cr_Expression = sc_Raw c, cr_Raw = (sc_Raw c \<noteq> []), cr_Distinct = sc_Distinct c,
      cr_Count = sc_Count c, cr_Function = sc_Function c\<rparr>"

definition unverified_parts :: "query \<Rightarrow> gostring list" where
  [go_eval]: "unverified_parts q =
     map (\<lambda>ob. ''order_expression_not_inspected'') (filter (\<lambda>ob. ob_Raw ob \<noteq> []) (items (q_Order (qf q)))) @
     (if join_snapshots (Joins q) \<noteq> [] then [''join_conditions_not_inspected''] else []) @
     (if Unions q \<noteq> [] then [''union_branches_not_inspected''] else []) @
     (if list_ex (\<lambda>c. sc_Raw c \<noteq> []) (items (q_Columns (qf q))) then [''selected_expression_not_inspected''] else [])"

definition snapshotFromQuery :: "query \<Rightarrow> pnode option \<Rightarrow> pnode option \<Rightarrow> query_snapshot" where
  [go_eval]: "snapshotFromQuery q whereTree havingTree =
     \<lparr>sn_AssignmentColumns = [], sn_WhereTree = detach_tree whereTree, sn_HavingTree = detach_tree havingTree,
      sn_Unverified = (if unverified_parts q = [] then None else Some (unverified_parts q)),
      sn_Table = q_Table (qf q), sn_Columns = map column_snapshot (items (q_Columns (qf q))),
      sn_Limit = snd (q_Limit (qf q)), sn_LimitExact = fst (q_Limit (qf q)), sn_Offset = q_Offset (qf q),
      sn_Joins = join_snapshots (Joins q), sn_Predicates = snapshot_groups 0 (ConditionGroups q)\<rparr>"

definition valid_tree :: "gostring + pnode option \<Rightarrow> pnode option" where
  [go_eval]: "valid_tree r = (case r of Inl e \<Rightarrow> None | Inr t \<Rightarrow> t)"

text \<open>The snapshot of a builder whose statement was not rendered.\<close>

definition Snapshot :: "select_builder \<Rightarrow> (gostring + query_snapshot) \<times> select_builder" where
  [go_eval]: "Snapshot b =
     (case GetQuery b of (q, b') \<Rightarrow>
        (case ValidateQuery (Some q) of
           Some e \<Rightarrow> Inl e
         | None \<Rightarrow>
             (let sn = snapshotFromQuery q (valid_tree (InspectPredicates (ConditionGroups q)))
                    (valid_tree (InspectPredicates (HavingGroups (q_Group (qf q)))))
              in Inr (sn\<lparr>sn_Unverified := Some (items (sn_Unverified sn) @ [''snapshot_not_rendered''])\<rparr>)), b'))"

section \<open>The plan's part\<close>

definition appendJoin :: "query_plan \<Rightarrow> join_ref \<Rightarrow> query_plan" where
  [go_eval]: "appendJoin plan j =
     (if jr_Table j = [] \<and> jr_Alias j = [] then plan
      else appendTableRef (plan\<lparr>PlanJoins := push (PlanJoins plan) (j\<lparr>jr_OnTree := detach_tree (jr_OnTree j)\<rparr>)\<rparr>)
        (jr_Table j) (jr_Alias j))"

definition appendJoinMetadata :: "query_plan \<Rightarrow> join_ref list \<Rightarrow> query_plan" where
  [go_eval]: "appendJoinMetadata = foldl appendJoin"

definition appendPredicateMetadata :: "query_plan \<Rightarrow> predicate_ref list \<Rightarrow> query_plan" where
  [go_eval]: "appendPredicateMetadata plan ps = plan\<lparr>Predicates := (if ps = [] then Predicates plan else Some (items (Predicates plan) @ ps))\<rparr>"

definition appendConditionTrees :: "query_plan \<Rightarrow> query_snapshot \<Rightarrow> query_plan" where
  [go_eval]: "appendConditionTrees plan sn =
     plan\<lparr>conditionSource := detach_tree (sn_WhereTree sn), generatedConditions := True, WhereTree := sn_WhereTree sn,
       HavingTree := sn_HavingTree sn, Unverified := sn_Unverified sn\<rparr>"

definition appendSelectSnapshotMetadata :: "query_plan \<Rightarrow> query_snapshot \<Rightarrow> query_plan" where
  [go_eval]: "appendSelectSnapshotMetadata plan sn =
     (let p = appendTableRef (appendConditionTrees plan sn) (sn_Table sn) [];
          cols = (if sn_Columns sn = [] then columnRefsFromNames [''*''] else sn_Columns sn);
          p = p\<lparr>Columns := Some (items (Columns p) @ cols)\<rparr>;
          p = (if sn_Limit sn > 0 \<or> sn_LimitExact sn then p\<lparr>PlanLimit := Some (sn_Limit sn)\<rparr> else p);
          p = (if sn_Offset sn > 0 then p\<lparr>PlanOffset := Some (sn_Offset sn)\<rparr> else p)
      in appendPredicateMetadata (appendJoinMetadata p (sn_Joins sn)) (sn_Predicates sn))"

definition appendWriteSnapshotMetadata :: "query_plan \<Rightarrow> query_snapshot \<Rightarrow> query_plan" where
  [go_eval]: "appendWriteSnapshotMetadata plan sn =
     appendPredicateMetadata (appendJoinMetadata (appendConditionTrees plan sn) (sn_Joins sn)) (sn_Predicates sn)"

end
