(* ===== verification/PolicyBuilder.thy ===== *)
theory PolicyBuilder
  imports QueryFacade BuilderSnapshot
begin

text \<open>
  The mandatory predicates of a query's policy (\<^verbatim>\<open>policyBuilder\<close> of \<^verbatim>\<open>orm/query/tenant_policy.go\<close>): they are added to a copy of
  the builder whenever the query is planned.
\<close>

section \<open>The copy with its predicates\<close>

definition soft_delete_predicate :: "query_state \<Rightarrow> gostring \<Rightarrow> where_builder \<Rightarrow> where_builder" where
  [go_eval]: "soft_delete_predicate q col = (if qs_onlyDeleted q then WhereNotNull col else WhereNull col)"

definition tenant_predicate :: "query_state \<Rightarrow> gostring \<Rightarrow> tenant_target \<Rightarrow> where_builder \<Rightarrow> where_builder" where
  [go_eval]: "tenant_predicate q prefix t =
     (if st_autoTenant (qs_settings q) \<and> pol_TenantColumn (tt_policy t) \<noteq> []
      then addWhere (prefix @ ''.'' @ pol_TenantColumn (tt_policy t)) ''='' (spread (ci_CurrentTenant (ec_input (st_execution (qs_settings q))))) op_AND
      else id)"

definition deletion_predicate :: "query_state \<Rightarrow> gostring \<Rightarrow> tenant_target \<Rightarrow> where_builder \<Rightarrow> where_builder" where
  [go_eval]: "deletion_predicate q prefix t =
     (if pol_SoftDeleteColumn (tt_policy t) \<noteq> [] \<and> \<not> qs_withDeleted q
      then soft_delete_predicate q (prefix @ ''.'' @ pol_SoftDeleteColumn (tt_policy t)) else id)"

definition on_conditions_of :: "(where_builder \<Rightarrow> where_builder) \<Rightarrow> select_builder \<Rightarrow> select_builder" where
  [go_eval]: "on_conditions_of f b = b\<lparr>sb_where := f (sb_where b)\<rparr>"

text \<open>The plan the targets are resolved from: only its tables and joins matter.\<close>

definition target_plan :: "query_snapshot \<Rightarrow> query_plan" where
  [go_eval]: "target_plan sn = appendJoinMetadata (appendTableRef (newQueryPlan [] [] None) (sn_Table sn) []) (sn_Joins sn)"

datatype policy_error = PredicateRefused gostring | TargetRefused exec_error

text \<open>With the state the builder is left in; without a policy to apply the query plans with the builder itself.\<close>

definition policyBuilder :: "query_state \<Rightarrow> select_builder \<Rightarrow> (policy_error + select_builder) \<times> select_builder" where
  [go_eval]: "policyBuilder q src =
     (if \<not> st_strict (qs_settings q) then
        (case qs_policy q of
           None \<Rightarrow> (Inr src, src)
         | Some p \<Rightarrow>
             if pol_SoftDeleteColumn p = [] \<or> qs_withDeleted q then (Inr src, src)
             else case CopyStateToSelect src NewSelectBuilder of (b, src') \<Rightarrow>
               (Inr (on_conditions_of (soft_delete_predicate q (pol_SoftDeleteColumn p)) b), src'))
      else case CopyStateToSelect src NewSelectBuilder of (b, src') \<Rightarrow>
        (case Snapshot b of
           (Inl e, b1) \<Rightarrow> (Inl (PredicateRefused e), src')
         | (Inr sn, b1) \<Rightarrow>
             (case tenantTargets (qs_settings q) (qs_dialect q) (items (Tables (target_plan sn))) (items (PlanJoins (target_plan sn))) of
                Inl e \<Rightarrow> (Inl (TargetRefused e), src')
              | Inr ts \<Rightarrow>
                  let t = hd ts; prefix = (if tt_alias t \<noteq> [] then tt_alias t else tt_table t)
                  in (Inr (on_conditions_of (deletion_predicate q prefix t)
                        (on_conditions_of (tenant_predicate q prefix t) (GroupWhere b1))), src'))))"

section \<open>What a row must satisfy\<close>

text \<open>A row passes a query's condition when there is none, or when SQL reads its text as true on the row.\<close>

definition condition_text :: "query \<Rightarrow> tok list" where
  "condition_text q = written (written_groups (ConditionGroups q))"

definition passes :: "(where_cond \<Rightarrow> tv) \<Rightarrow> query \<Rightarrow> bool" where
  "passes L q \<longleftrightarrow> condition_text q = [] \<or> sql_reading L (condition_text q) = Some TT"

text \<open>The conditions a policy makes mandatory.\<close>

definition mandatory :: "query_state \<Rightarrow> tenant_target \<Rightarrow> where_flat list" where
  "mandatory q t =
     (let prefix = (if tt_alias t \<noteq> [] then tt_alias t else tt_table t); p = tt_policy t
      in (if st_autoTenant (qs_settings q) \<and> pol_TenantColumn p \<noteq> []
          then [zero_where\<lparr>w_Column := prefix @ ''.'' @ pol_TenantColumn p, w_Condition := ''='',
            w_Value := spread (ci_CurrentTenant (ec_input (st_execution (qs_settings q))))\<rparr>] else []) @
         (if pol_SoftDeleteColumn p \<noteq> [] \<and> \<not> qs_withDeleted q
          then [zero_where\<lparr>w_Column := prefix @ ''.'' @ pol_SoftDeleteColumn p,
            w_Condition := (if qs_onlyDeleted q then ''IS NOT NULL'' else ''IS NULL'')\<rparr>] else []))"

lemma mandatory_and: "\<forall>f \<in> set (mandatory q t). w_Operator f = 0"
  by (auto simp: mandatory_def zero_where_def Let_def)

lemma or_runs_and: "\<forall>n \<in> set ns. snd n \<noteq> 1 \<Longrightarrow> or_runs run ns = [run @ map fst ns]"
  by (induction run ns rule: or_runs.induct) auto

lemma ev_and_node: "run \<noteq> [] \<Longrightarrow> ev L (and_node run) = tv_all (map (ev L) run)"
  by (auto simp: and_node_def split: list.splits)

lemma ev_combine_and:
  assumes "combine nodes = Some t" "\<forall>n \<in> set nodes. snd n \<noteq> 1"
  shows "ev L t = tv_all (map (ev L \<circ> fst) nodes)"
proof -
  obtain n op ns where nodes: "nodes = (n, op) # ns" using assms(1) by (cases nodes) auto
  with assms have "t = and_node (n # map fst ns)"
    by (auto simp: combine_def or_runs_and)
  then show ?thesis by (simp add: ev_and_node nodes comp_def)
qed

lemma no_text: "condition_text q = [] \<longleftrightarrow> predicateTree (ConditionGroups q) = None" if "built_groups (ConditionGroups q)"
proof -
  have "written_groups (ConditionGroups q) = [] \<longleftrightarrow> pt_groups (ConditionGroups q) = []"
    using tree_tokens_written(4) [of "ConditionGroups q"] built_nodes_simps(4) by metis
  then show ?thesis
    using written_ne [OF that] by (auto simp: condition_text_def predicateTree_def)
qed

lemma passes_tree:
  assumes "built_groups (ConditionGroups q)"
  shows "passes L q \<longleftrightarrow> (case predicateTree (ConditionGroups q) of None \<Rightarrow> True | Some t \<Rightarrow> ev L t = TT)"
  using no_text [OF assms] condition_sql_means_tree [OF assms]
  by (auto simp: passes_def condition_text_def split: option.splits)

lemma pt_plain: "pt_conds (map flat_cond fs) = map (\<lambda>f. (Leaf (leafKind (flat_cond f)) (flat_cond f), w_Operator f)) fs"
  by (induction fs) (simp_all add: flat_cond_def)

definition closed_groups :: "where_group list \<Rightarrow> where_group list" where
  "closed_groups gs = (if gs = [] then [] else [WhereGroup [Where zero_where (Some gs) None None] 0 False False])"

lemma passes_closed:
  assumes gs: "built_groups (ConditionGroups q)" and fs: "\<forall>f \<in> set fs. w_Operator f = 0"
    and r: "ConditionGroups r = closed_groups (ConditionGroups q) @ (if fs = [] then [] else [WhereGroup (map flat_cond fs) 0 True False])"
  shows "passes L r \<longleftrightarrow> passes L q \<and> (\<forall>f \<in> set fs. L (flat_cond f) = TT)"
proof -
  let ?old = "case predicateTree (ConditionGroups q) of None \<Rightarrow> [] | Some t \<Rightarrow> [(explicit_group False t, 0 :: int)]"
  have nodes: "pt_groups (ConditionGroups r) = ?old @ pt_conds (map flat_cond fs)"
    using r by (auto simp: closed_groups_def predicateTree_def zero_where_def Let_def split: option.splits)
  have built: "built_groups (ConditionGroups r)"
    using gs built_conds_plain [of "map flat_cond fs"] by (auto simp: r closed_groups_def flat_cond_def)
  have "\<forall>n \<in> set (pt_groups (ConditionGroups r)). snd n \<noteq> 1"
    using fs by (auto simp: nodes pt_plain split: option.splits)
  then have ev: "ev L t = tv_all (map (ev L \<circ> fst) (pt_groups (ConditionGroups r)))"
    if "predicateTree (ConditionGroups r) = Some t" for t
    using that unfolding predicateTree_def by (intro ev_combine_and)
  have empty: "predicateTree (ConditionGroups r) = None \<longleftrightarrow> pt_groups (ConditionGroups r) = []"
    by (simp add: predicateTree_def)
  have "passes L r \<longleftrightarrow> tv_all (map (ev L \<circ> fst) (pt_groups (ConditionGroups r))) = TT"
    using ev empty by (auto simp: passes_tree [OF built] split: option.splits)
  also have "\<dots> \<longleftrightarrow> passes L q \<and> (\<forall>f \<in> set fs. L (flat_cond f) = TT)"
    by (auto simp: nodes passes_tree [OF gs] pt_plain explicit_group_def split: option.splits)
  finally show ?thesis .
qed

lemma grouped_where:
  "b_Conditions (sb_where (GroupWhere b)) = []"
  "b_ConditionGroups (sb_where (GroupWhere b)) = closed_groups (ConditionGroups (fst (GetQuery b)))"
  by (simp_all add: GroupWhere_def GetQuery_def built_query_def ApplyQueryState_def ApplyConditions_def closed_groups_def Let_def)

lemma policy_conditions:
  "b_Conditions (sb_where (on_conditions_of (deletion_predicate q (if tt_alias t \<noteq> [] then tt_alias t else tt_table t) t)
     (on_conditions_of (tenant_predicate q (if tt_alias t \<noteq> [] then tt_alias t else tt_table t) t) b))) =
   b_Conditions (sb_where b) @ map flat_cond (mandatory q t)"
  "b_ConditionGroups (sb_where (on_conditions_of (deletion_predicate q u t) (on_conditions_of (tenant_predicate q u t) b))) =
   b_ConditionGroups (sb_where b)"
  by (auto simp: on_conditions_of_def deletion_predicate_def tenant_predicate_def soft_delete_predicate_def mandatory_def
      WhereNull_def WhereNotNull_def addWhereNull_def addWhere_def append_flat_def append_cond_def flat_cond_def zero_where_def Let_def)

lemma flushed_groups:
  "ConditionGroups (fst (GetQuery b)) = b_ConditionGroups (sb_where b) @
     (if b_Conditions (sb_where b) = [] then [] else [WhereGroup (b_Conditions (sb_where b)) 0 True False])"
  by (simp add: GetQuery_def built_query_def buildQuery_def flush_conditions_def append_group_def)

lemma built_source: "builder_inv (sb_where b) \<Longrightarrow> built_groups (ConditionGroups (fst (GetQuery b)))"
  using builder_inv_flush [of "sb_where b" op_AND] by (simp add: GetQuery_def built_query_def buildQuery_def builder_inv_def)

lemma snapshot_of_copy:
  "fst (Snapshot (fst (CopyStateToSelect src dst))) = fst (Snapshot src)"
  "snd (Snapshot b) = snd (GetQuery b)"
  by (simp_all add: Snapshot_def split_beta copied_query cong: option.case_cong)

text \<open>The strict path: the copy is snapshotted, its condition closed, and the first target's conditions added.\<close>

lemma policyBuilder_strict:
  assumes "policyBuilder q src = (Inr b, src')" "st_strict (qs_settings q)"
  obtains sn t ts where "fst (Snapshot src) = Inr sn"
    and "tenantTargets (qs_settings q) (qs_dialect q) (items (Tables (target_plan sn))) (items (PlanJoins (target_plan sn))) = Inr (t # ts)"
    and "ConditionGroups (fst (GetQuery b)) = closed_groups (ConditionGroups (fst (GetQuery src))) @
      (if mandatory q t = [] then [] else [WhereGroup (map flat_cond (mandatory q t)) 0 True False])"
    and "src' = snd (GetQuery src)"
proof -
  let ?copy = "CopyStateToSelect src NewSelectBuilder"
  obtain r b1 where snap: "Snapshot (fst ?copy) = (r, b1)" by fastforce
  from assms snap obtain sn where r: "r = Inr sn"
    by (cases r) (simp_all add: policyBuilder_def split_beta)
  obtain ts where ts: "tenantTargets (qs_settings q) (qs_dialect q) (items (Tables (target_plan sn))) (items (PlanJoins (target_plan sn))) = Inr ts"
    using assms snap r
    by (cases "tenantTargets (qs_settings q) (qs_dialect q) (items (Tables (target_plan sn))) (items (PlanJoins (target_plan sn)))")
      (simp_all add: policyBuilder_def split_beta)
  then obtain t us where t: "ts = t # us" using tenantTargets_ok(4) [OF ts] by (cases ts) auto
  let ?u = "if tt_alias t \<noteq> [] then tt_alias t else tt_table t"
  from assms snap r ts t have b: "b = on_conditions_of (deletion_predicate q ?u t) (on_conditions_of (tenant_predicate q ?u t) (GroupWhere b1))"
    and src': "src' = snd ?copy"
    by (simp_all add: policyBuilder_def split_beta Let_def)
  have "b1 = snd (GetQuery (fst ?copy))" using snapshot_of_copy(2) [of "fst ?copy"] snap by simp
  then have "fst (GetQuery b1) = fst (GetQuery src)" by (simp add: GetQuery_again copied_query)
  then have "ConditionGroups (fst (GetQuery b)) = closed_groups (ConditionGroups (fst (GetQuery src))) @
      (if mandatory q t = [] then [] else [WhereGroup (map flat_cond (mandatory q t)) 0 True False])"
    by (simp add: b flushed_groups [of "on_conditions_of _ _"] policy_conditions grouped_where)
  moreover have "fst (Snapshot src) = Inr sn" using snapshot_of_copy(1) [of src NewSelectBuilder] snap r by simp
  moreover have "src' = snd (GetQuery src)" by (simp add: src' CopyStateToSelect_def split_beta)
  ultimately show thesis using that [of sn t us] ts t by simp
qed

text \<open>
  C38: In strict mode the query that is planned keeps a row exactly when the application's own condition keeps it and each of the
  policy's conditions for the first target is true on it, however the application's condition uses OR; and the application's builder
  still makes the query it made.
\<close>

theorem policy_cannot_be_escaped:
  assumes "policyBuilder q src = (Inr b, src')" "st_strict (qs_settings q)" "builder_inv (sb_where src)"
  shows "\<exists>sn t ts. fst (Snapshot src) = Inr sn \<and>
    tenantTargets (qs_settings q) (qs_dialect q) (items (Tables (target_plan sn))) (items (PlanJoins (target_plan sn))) = Inr (t # ts) \<and>
    (\<forall>L. passes L (fst (GetQuery b)) \<longleftrightarrow>
      passes L (fst (GetQuery src)) \<and> list_all (\<lambda>f. L (flat_cond f) = TT) (mandatory q t)) \<and>
    fst (GetQuery src') = fst (GetQuery src)"
proof -
  obtain sn t ts where p: "fst (Snapshot src) = Inr sn"
    "tenantTargets (qs_settings q) (qs_dialect q) (items (Tables (target_plan sn))) (items (PlanJoins (target_plan sn))) = Inr (t # ts)"
    "ConditionGroups (fst (GetQuery b)) = closed_groups (ConditionGroups (fst (GetQuery src))) @
      (if mandatory q t = [] then [] else [WhereGroup (map flat_cond (mandatory q t)) 0 True False])"
    "src' = snd (GetQuery src)"
    using policyBuilder_strict [OF assms(1,2)] .
  have "passes L (fst (GetQuery b)) \<longleftrightarrow> passes L (fst (GetQuery src)) \<and> list_all (\<lambda>f. L (flat_cond f) = TT) (mandatory q t)" for L
    using passes_closed [OF built_source [OF assms(3)] mandatory_and p(3), of L] by (simp add: list_all_iff)
  with p show ?thesis by (auto simp: GetQuery_again)
qed

subsection \<open>A query with an OR\<close>

text \<open>\<^verbatim>\<open>Table("t").Where("a", "=", 1).OrWhere("b", "=", 2)\<close>\<close>

definition or_source :: select_builder where
  [go_eval]: "or_source = on_conditions_of (OrWhere ''b'' ''='' (Some [VInt 2])) (on_conditions_of (BWhere ''a'' ''='' (Some [VInt 1]))
     (BTable ''t'' NewSelectBuilder))"

definition tenant_query :: query_state where
  "tenant_query = ExecutionPlan.sample_query\<lparr>qs_settings := tenant_settings\<lparr>st_autoTenant := True\<rparr>\<rparr>"

text \<open>Adding the tenant condition automatically does not change how targets are resolved.\<close>

lemma tenantTargets_auto: "tenantTargets (s\<lparr>st_autoTenant := a\<rparr>) d tables js = tenantTargets s d tables js"
proof -
  have same: "st_execution (s\<lparr>st_autoTenant := a\<rparr>) = st_execution s" "st_policies (s\<lparr>st_autoTenant := a\<rparr>) = st_policies s" for s a
    by simp_all
  have ctx: "tenant_context_error (s\<lparr>st_autoTenant := a\<rparr>) d t = tenant_context_error s d t" for s a d t
    unfolding tenant_context_error_def same ..
  have "resolve_target (s\<lparr>st_autoTenant := a\<rparr>) si d table al = resolve_target s si d table al" for s a si d table al
    unfolding resolve_target_def ctx same ..
  moreover from this have "targets_from (s\<lparr>st_autoTenant := a\<rparr>) si d seen rs = targets_from s si d seen rs" for s a si d seen rs
    by (induction rs arbitrary: seen) (simp_all add: Let_def split: prod.splits sum.splits)
  ultimately show ?thesis
    by (auto simp: tenantTargets_def split: option.splits)
qed

lemma or_source_targets:
  "tenantTargets (tenant_settings\<lparr>st_autoTenant := True\<rparr>) PostgresDialect [\<lparr>tr_Name = ''t'', tr_Alias = []\<rparr>] [] = Inr [sample_target]"
  by (simp add: tenantTargets_auto sample_targets)

lemma or_source_snapshot:
  "case fst (Snapshot or_source) of Inl e \<Rightarrow> False
   | Inr sn \<Rightarrow> items (Tables (target_plan sn)) = [\<lparr>tr_Name = ''t'', tr_Alias = []\<rparr>] \<and> items (PlanJoins (target_plan sn)) = []"
  by code_simp

theorem policy_cannot_be_escaped_witness:
  "case policyBuilder tenant_query or_source of
     (Inr b, src') \<Rightarrow> mandatory tenant_query sample_target \<noteq> [] \<and>
       \<not> passes (\<lambda>c. if c = flat_cond (hd (mandatory tenant_query sample_target)) then FF else TT) (fst (GetQuery b))
   | _ \<Rightarrow> False"
proof -
  obtain sn where sn: "fst (Snapshot or_source) = Inr sn" "items (Tables (target_plan sn)) = [\<lparr>tr_Name = ''t'', tr_Alias = []\<rparr>]"
    "items (PlanJoins (target_plan sn)) = []"
    using or_source_snapshot by (cases "fst (Snapshot or_source)") auto
  have copied: "fst (Snapshot (fst (CopyStateToSelect or_source NewSelectBuilder))) = Inr sn"
    by (simp add: snapshot_of_copy sn(1))
  have q: "st_strict (qs_settings tenant_query)" "qs_settings tenant_query = tenant_settings\<lparr>st_autoTenant := True\<rparr>"
    "qs_dialect tenant_query = PostgresDialect"
    by (simp_all add: tenant_query_def ExecutionPlan.sample_query_def tenant_settings_def WithTenantPolicy_def)
  have "\<exists>b. fst (policyBuilder tenant_query or_source) = Inr b"
    unfolding policyBuilder_def using copied or_source_targets q(1) by (simp add: q(2,3) sn(2,3) split_beta Let_def)
  then obtain b src' where run: "policyBuilder tenant_query or_source = (Inr b, src')"
    by (metis prod.collapse)
  have inv: "builder_inv (sb_where or_source)"
    by (simp add: or_source_def on_conditions_of_def BTable_def NewSelectBuilder_def builder_inv_def NewWhereBuilder_def OrWhere_def
        BWhere_def addWhere_def append_flat_def append_cond_def)
  have m: "mandatory tenant_query sample_target \<noteq> []"
    by (simp add: mandatory_def q sample_target_def Let_def)
  let ?L = "\<lambda>c. if c = flat_cond (hd (mandatory tenant_query sample_target)) then FF else TT"
  from policy_cannot_be_escaped [OF run q(1) inv] sn or_source_targets
  have "passes ?L (fst (GetQuery b)) \<longrightarrow> list_all (\<lambda>f. ?L (flat_cond f) = TT) (mandatory tenant_query sample_target)"
    by (auto simp: q)
  with m have "\<not> passes ?L (fst (GetQuery b))"
    by (cases "mandatory tenant_query sample_target") auto
  with m run show ?thesis by simp
qed

text \<open>
  Without strict mode the soft-delete condition is appended as it is, so an OR in the application's condition escapes it: a row with
  \<^verbatim>\<open>a = 1\<close> is kept although it is deleted.
\<close>

lemma soft_delete_escaped:
  assumes "\<not> st_strict (qs_settings q)" "qs_policy q = Some p" "pol_SoftDeleteColumn p = ''deleted_at''" "\<not> qs_withDeleted q"
    "\<not> qs_onlyDeleted q"
  obtains b src' where "policyBuilder q or_source = (Inr b, src')"
    and "passes (\<lambda>c. if w_Column (wf c) = ''a'' then TT else FF) (fst (GetQuery b))"
proof -
  let ?b = "on_conditions_of (WhereNull ''deleted_at'') (fst (CopyStateToSelect or_source NewSelectBuilder))"
  have "policyBuilder q or_source = (Inr ?b, snd (CopyStateToSelect or_source NewSelectBuilder))"
    using assms by (simp add: policyBuilder_def soft_delete_predicate_def split_beta)
  moreover have "condition_text (fst (GetQuery ?b)) \<noteq> [] \<longrightarrow>
      sql_reading (\<lambda>c. if w_Column (wf c) = ''a'' then TT else FF) (condition_text (fst (GetQuery ?b))) = Some TT"
    by code_simp
  ultimately show thesis using that by (auto simp: passes_def)
qed

end
