(* ===== verification/SqlTypes.thy ===== *)
theory SqlTypes
  imports PlanIdentity Complex_Main
begin

text \<open>
  Declared column types (\<^verbatim>\<open>orm/internal/sqltype/declaration.go\<close>) and the check of a value against one
  (\<^verbatim>\<open>orm/operation/types.go\<close>).  A kind is the text the code switches on; the empty kind is a type that is not known, whose
  values are not restricted.
\<close>

section \<open>Numbers as texts\<close>

definition cut :: "char \<Rightarrow> gostring \<Rightarrow> gostring \<times> gostring \<times> bool" where
  [go_eval]: "cut d s = (takeWhile (\<lambda>c. c \<noteq> d) s, drop 1 (dropWhile (\<lambda>c. c \<noteq> d) s), d \<in> set s)"

text \<open>\<^verbatim>\<open>strconv.ParseUint\<close> and \<^verbatim>\<open>ParseInt\<close> in base 10.\<close>

definition all_digits :: "gostring \<Rightarrow> bool" where
  [go_eval]: "all_digits s \<longleftrightarrow> s \<noteq> [] \<and> list_all is_digit s"

definition ParseUint :: "nat \<Rightarrow> gostring \<Rightarrow> nat option" where
  [go_eval]: "ParseUint bits s =
     (if all_digits s \<and> nat_of_digits 0 s < 2 ^ bits then Some (nat_of_digits 0 s) else None)"

definition unsigned_text :: "gostring \<Rightarrow> bool \<times> gostring" where
  [go_eval]: "unsigned_text s =
     (case s of c # cs \<Rightarrow> if c = CHR ''-'' then (True, cs) else if c = CHR ''+'' then (False, cs) else (False, s) | [] \<Rightarrow> (False, []))"

definition ParseInt :: "nat \<Rightarrow> gostring \<Rightarrow> int option" where
  [go_eval]: "ParseInt bits s =
     (case unsigned_text s of (neg, ds) \<Rightarrow>
        if \<not> all_digits ds then None
        else let n = int (nat_of_digits 0 ds)
          in if neg then (if n \<le> 2 ^ (bits - 1) then Some (- n) else None) else if n < 2 ^ (bits - 1) then Some n else None)"

section \<open>Declarations\<close>

record declared_type =
  ty_kind :: gostring
  ty_bits :: nat
  ty_precision :: nat
  ty_scale :: nat
  ty_length :: nat
  ty_fraction :: nat
  ty_unsigned :: bool
  ty_zone :: bool
  ty_array :: bool
  ty_missing :: gostring

definition unknown_type :: "gostring \<Rightarrow> declared_type" where
  [go_eval]: "unknown_type why =
     \<lparr>ty_kind = [], ty_bits = 0, ty_precision = 0, ty_scale = 0, ty_length = 0, ty_fraction = 0, ty_unsigned = False, ty_zone = False,
      ty_array = False, ty_missing = why\<rparr>"

definition known_type :: "gostring \<Rightarrow> declared_type" where
  [go_eval]: "known_type k = (unknown_type [])\<lparr>ty_kind := k\<rparr>"

definition ErrInvalidDeclaration :: gostring where
  [go_eval]: "ErrInvalidDeclaration = ''goquent operation: invalid or ambiguous manifest declaration''"

definition sized_bases :: "gostring list" where
  [go_eval]: "sized_bases = [''decimal'', ''numeric'', ''char'', ''varchar'', ''time'', ''timestamp'', ''datetime'']"

definition sized_suffixes :: "gostring list" where
  [go_eval]: "sized_suffixes = [[], '' unsigned'', '' with time zone'', '' without time zone'']"

text \<open>The four groups of the expression \<^verbatim>\<open>sizedType\<close>.\<close>

definition sized_arguments :: "gostring \<Rightarrow> (gostring \<times> gostring \<times> gostring) option" where
  [go_eval]: "sized_arguments s =
     (let a = takeWhile is_digit s; r = dropWhile is_digit s;
          more = (case r of c # t \<Rightarrow> c = CHR '','' | [] \<Rightarrow> False);
          b = (if more then takeWhile is_digit (tl r) else []);
          r' = (if more then dropWhile is_digit (tl r) else r)
      in if a = [] \<or> more \<and> b = [] then None
         else case r' of
             c # suffix \<Rightarrow> if c = CHR '')'' \<and> suffix \<in> set sized_suffixes then Some (a, b, suffix) else None
           | [] \<Rightarrow> None)"

definition sizedType :: "gostring \<Rightarrow> (gostring \<times> gostring \<times> gostring \<times> gostring) option" where
  [go_eval]: "sizedType s =
     (case find_first (\<lambda>base. has_prefix s (base @ ''('')) sized_bases of
        None \<Rightarrow> None
      | Some base \<Rightarrow> map_option (Pair base) (sized_arguments (drop (length base + 1) s)))"

text \<open>The base, the sizes and the suffix of a declaration; a size that is not given is \<^term>\<open>None\<close>.\<close>

definition Atoi :: "gostring \<Rightarrow> nat option" where
  [go_eval]: "Atoi s = map_option nat (ParseInt 64 s)"

definition drop_suffix :: "gostring \<Rightarrow> gostring \<Rightarrow> gostring option" where
  [go_eval]: "drop_suffix z s = (if has_prefix (rev s) (rev z) then Some (take (length s - length z) s) else None)"

definition zoned :: "gostring \<Rightarrow> gostring \<times> gostring \<Rightarrow> gostring \<times> gostring" where
  [go_eval]: "zoned z p = (case p of (base, suffix) \<Rightarrow> case drop_suffix z base of Some base' \<Rightarrow> (base', z) | None \<Rightarrow> (base, suffix))"

definition declared_parts :: "gostring \<Rightarrow> gostring + gostring \<times> nat option \<times> nat option \<times> gostring" where
  [go_eval]: "declared_parts s =
     (case sizedType s of
        Some (base, a, b, suffix) \<Rightarrow>
          (case Atoi a of
             None \<Rightarrow> Inl ErrInvalidDeclaration
           | Some m \<Rightarrow>
               if b = [] then Inr (base, Some m, None, suffix)
               else (case Atoi b of None \<Rightarrow> Inl ErrInvalidDeclaration | Some n \<Rightarrow> Inr (base, Some m, Some n, suffix)))
      | None \<Rightarrow>
          (case zoned '' without time zone'' (zoned '' with time zone'' (s, [])) of (base, suffix) \<Rightarrow> Inr (base, None, None, suffix)))"

definition integer_types :: "gostring \<Rightarrow> (gostring \<times> nat) list" where
  [go_eval]: "integer_types dialect =
     [(''smallint'', 16), (''int'', 32), (''integer'', 32), (''bigint'', 64)] @
     (if dialect = ''mysql'' then [(''tinyint'', 8), (''mediumint'', 24)] else [(''int2'', 16), (''int4'', 32), (''int8'', 64)])"

definition type_unknown :: declared_type where
  [go_eval]: "type_unknown = unknown_type ''type_or_constraints_unknown''"

definition decimal_type :: "gostring \<Rightarrow> nat option \<Rightarrow> nat option \<Rightarrow> gostring \<Rightarrow> gostring + declared_type" where
  [go_eval]: "decimal_type dialect a b suffix =
     (case (a, b) of
        (Some p, Some s) \<Rightarrow>
          if suffix \<noteq> [] then Inr type_unknown
          else case (if dialect = ''mysql'' then (65, 30) else (1000, 1000)) of (maxP, maxS) \<Rightarrow>
            if p = 0 \<or> p > maxP \<or> s > p \<or> s > maxS then Inl ErrInvalidDeclaration
            else Inr ((known_type ''decimal'')\<lparr>ty_precision := p, ty_scale := s\<rparr>)
      | _ \<Rightarrow> Inr type_unknown)"

definition char_type :: "nat option \<Rightarrow> nat option \<Rightarrow> gostring \<Rightarrow> gostring + declared_type" where
  [go_eval]: "char_type a b suffix =
     (if a = Some 0 then Inl ErrInvalidDeclaration
      else case a of
          None \<Rightarrow> Inr type_unknown
        | Some n \<Rightarrow> if b \<noteq> None \<or> suffix \<noteq> [] then Inr type_unknown else Inr ((known_type ''string'')\<lparr>ty_length := n\<rparr>))"

definition temporal_type :: "gostring \<Rightarrow> gostring \<Rightarrow> nat option \<Rightarrow> nat option \<Rightarrow> gostring \<Rightarrow> gostring + declared_type" where
  [go_eval]: "temporal_type dialect base a b suffix =
     (if b \<noteq> None \<or> suffix = '' unsigned'' \<or> (case a of Some n \<Rightarrow> n > 6 | None \<Rightarrow> False) then Inl ErrInvalidDeclaration
      else if base = ''datetime'' \<and> dialect \<noteq> ''mysql'' then Inr type_unknown
      else if dialect = ''mysql'' \<and> suffix \<noteq> [] then Inr type_unknown
      else if base = ''time'' \<and> suffix = '' with time zone'' then Inr type_unknown
      else Inr ((known_type base)\<lparr>ty_zone := (suffix = '' with time zone''),
        ty_fraction := (case a of Some n \<Rightarrow> n | None \<Rightarrow> if dialect = ''postgres'' then 6 else 0),
        ty_missing := (if dialect = ''mysql'' \<and> base = ''timestamp'' then ''timestamp_session_semantics_unknown'' else [])\<rparr>))"

text \<open>A declaration that is not an array, in lower case, with the dialect known.\<close>

definition parse_scalar_type :: "gostring \<Rightarrow> gostring \<Rightarrow> gostring + declared_type" where
  [go_eval]: "parse_scalar_type dialect s0 =
     (let unsigned = (dialect = ''mysql'' \<and> drop_suffix '' unsigned'' s0 \<noteq> None);
          s = (if unsigned then the (drop_suffix '' unsigned'' s0) else s0)
      in case map_of (integer_types dialect) s of
           Some bits \<Rightarrow> Inr ((known_type ''integer'')\<lparr>ty_bits := bits, ty_unsigned := unsigned\<rparr>)
         | None \<Rightarrow>
             if unsigned then Inr (type_unknown\<lparr>ty_unsigned := True\<rparr>)
             else if s = ''bool'' \<or> s = ''boolean'' then Inr (known_type ''bool'')
             else if s = ''text'' then Inr (known_type ''string'')
             else if s = ''uuid'' then Inr (if dialect = ''postgres'' then known_type ''uuid'' else type_unknown)
             else if s = ''date'' then Inr (known_type ''date'')
             else case declared_parts s of
                 Inl e \<Rightarrow> Inl e
               | Inr (base, a, b, suffix) \<Rightarrow>
                   if base = ''decimal'' \<or> base = ''numeric'' then decimal_type dialect a b suffix
                   else if base = ''char'' \<or> base = ''varchar'' then char_type a b suffix
                   else if base = ''time'' \<or> base = ''timestamp'' \<or> base = ''datetime'' then temporal_type dialect base a b suffix
                   else Inr type_unknown)"

definition parse_type :: "gostring \<Rightarrow> gostring \<Rightarrow> gostring \<Rightarrow> gostring + declared_type" where
  [go_eval]: "parse_type ty source dialect =
     (if source \<notin> {[], ''sql'', ''go''} then Inl ErrInvalidDeclaration
      else if source = ''go'' then Inr (unknown_type ''go_type_not_db_type'')
      else if source \<noteq> ''sql'' then Inr (unknown_type ''type_source_missing'')
      else if dialect \<noteq> ''mysql'' \<and> dialect \<noteq> ''postgres'' then Inr (unknown_type ''dialect_unknown'')
      else let s = to_lower ty
        in if dialect = ''postgres'' \<and> drop_suffix ''[]'' s \<noteq> None then
             (let elem = the (drop_suffix ''[]'' s)
              in if drop_suffix ''[]'' elem \<noteq> None then Inr ((unknown_type ''array_dimension_unsupported'')\<lparr>ty_array := True\<rparr>)
                 else case parse_scalar_type dialect elem of Inl e \<Rightarrow> Inl e | Inr t \<Rightarrow> Inr (t\<lparr>ty_array := True\<rparr>))
           else parse_scalar_type dialect s)"

section \<open>Number texts\<close>

text \<open>\<^verbatim>\<open>json.Valid\<close> on a text that starts with a sign or a digit: a JSON number, with white space after it.\<close>

definition json_fraction :: "gostring \<Rightarrow> gostring option" where
  [go_eval]: "json_fraction s =
     (case s of
        c # t \<Rightarrow> if c \<noteq> CHR ''.'' then Some s else if takeWhile is_digit t = [] then None else Some (dropWhile is_digit t)
      | [] \<Rightarrow> Some [])"

definition json_exponent :: "gostring \<Rightarrow> gostring option" where
  [go_eval]: "json_exponent s =
     (case s of
        c # t \<Rightarrow>
          if lower_byte c \<noteq> CHR ''e'' then Some s
          else let u = (case t of d # v \<Rightarrow> if d = CHR ''+'' \<or> d = CHR ''-'' then v else t | [] \<Rightarrow> [])
            in if takeWhile is_digit u = [] then None else Some (dropWhile is_digit u)
      | [] \<Rightarrow> Some [])"

definition unsigned_number :: "gostring \<Rightarrow> gostring" where
  [go_eval]: "unsigned_number s = (case s of c # t \<Rightarrow> if c = CHR ''-'' then t else s | [] \<Rightarrow> [])"

definition json_space :: "char \<Rightarrow> bool" where
  [go_eval]: "json_space c \<longleftrightarrow> c \<in> {CHR '' '', CHR 0x09, CHR 0x0A, CHR 0x0D}"

definition json_number :: "gostring \<Rightarrow> bool" where
  [go_eval]: "json_number s \<longleftrightarrow>
     json_digits (takeWhile is_digit (unsigned_number s)) \<and>
     (case json_fraction (dropWhile is_digit (unsigned_number s)) of
        None \<Rightarrow> False
      | Some r \<Rightarrow> (case json_exponent r of None \<Rightarrow> False | Some r' \<Rightarrow> list_all json_space r'))"

definition intLexeme :: "gostring \<Rightarrow> bool" where
  [go_eval]: "intLexeme s \<longleftrightarrow> json_digits (unsigned_number s)"

text \<open>The text of an integer value.\<close>

definition exactInteger :: "goval \<Rightarrow> gostring option" where
  [go_eval]: "exactInteger v = (case v of VNumber s \<Rightarrow> if intLexeme s then Some s else None | _ \<Rightarrow> map_option int_str (int_of_goval v))"

definition number_text :: "goval \<Rightarrow> gostring option" where
  [go_eval]: "number_text v = (case v of VNumber s \<Rightarrow> if json_number s then Some s else None | _ \<Rightarrow> exactInteger v)"

text \<open>
  Whether a decimal text has at most \<^term>\<open>p - s\<close> digits before the point and \<^term>\<open>s\<close> after it, by counting: no power of ten is
  formed, and an exponent out of the bounds of the text is refused first.
\<close>

definition count_digits :: "int \<Rightarrow> int \<Rightarrow> int \<Rightarrow> gostring \<Rightarrow> gostring \<Rightarrow> bool" where
  [go_eval]: "count_digits p s shift0 digits trimmed \<longleftrightarrow>
     (let shift = shift0 + int (length digits) - int (length trimmed)
      in shift \<ge> - s \<and> int (length trimmed) + shift \<le> p - s)"

definition decimalFits :: "goval \<Rightarrow> nat \<Rightarrow> nat \<Rightarrow> bool" where
  [go_eval]: "decimalFits v p s =
     (case number_text v of
        None \<Rightarrow> False
      | Some lex0 \<Rightarrow>
          let lex = unsigned_number lex0
          in case cut CHR ''e'' (to_lower lex) of (mant, expo, has) \<Rightarrow>
             case cut CHR ''.'' mant of (whole, places, _) \<Rightarrow>
               let digits = dropWhile (\<lambda>c. c = CHR ''0'') (whole @ places)
               in if digits = [] then True
                  else case (if has then ParseInt 64 expo else Some 0) of
                      None \<Rightarrow> False
                    | Some e \<Rightarrow>
                        if e > int (length lex) + int p + 1 \<or> e < - int (length lex) - int s - 1 then False
                        else count_digits (int p) (int s) (e - int (length places)) digits
                          (rev (dropWhile (\<lambda>c. c = CHR ''0'') (rev digits))))"

section \<open>Dates and times\<close>

definition two_digits :: "gostring \<Rightarrow> nat" where
  [go_eval]: "two_digits s = nat_of_digits 0 (take 2 s)"

text \<open>The fixed-width expressions: a pattern character \<^verbatim>\<open>d\<close> stands for a digit, any other for itself.\<close>

fun matches_pattern :: "gostring \<Rightarrow> gostring \<Rightarrow> bool" where
  "matches_pattern [] s \<longleftrightarrow> s = []"
| "matches_pattern (p # ps) [] \<longleftrightarrow> False"
| "matches_pattern (p # ps) (c # cs) \<longleftrightarrow> (if p = CHR ''d'' then is_digit c else c = p) \<and> matches_pattern ps cs"

definition dateLexeme :: "gostring \<Rightarrow> bool" where
  [go_eval]: "dateLexeme = matches_pattern ''dddd-dd-dd''"

definition clockLexeme :: "gostring \<Rightarrow> bool" where
  [go_eval]: "clockLexeme s \<longleftrightarrow>
     matches_pattern ''dd:dd:dd'' (take 8 s) \<and>
     (case drop 8 s of [] \<Rightarrow> True | c # t \<Rightarrow> c = CHR ''.'' \<and> all_digits t)"

definition zoneLexeme :: "gostring \<Rightarrow> bool" where
  [go_eval]: "zoneLexeme s \<longleftrightarrow> s = ''Z'' \<or>
     (matches_pattern ''dd:dd'' (drop 1 s) \<and> (hd s = CHR ''+'' \<or> hd s = CHR ''-'') \<and> s \<noteq> [] \<and> two_digits (drop 1 s) \<le> 23 \<and> two_digits (drop 4 s) \<le> 59)"

definition leap_year :: "nat \<Rightarrow> bool" where
  [go_eval]: "leap_year y \<longleftrightarrow> 4 dvd y \<and> (\<not> 100 dvd y \<or> 400 dvd y)"

definition days_in :: "nat \<Rightarrow> nat \<Rightarrow> nat" where
  [go_eval]: "days_in m y = (if m = 2 then (if leap_year y then 29 else 28) else if m \<in> {4, 6, 9, 11} then 30 else 31)"

text \<open>\<^verbatim>\<open>time.Parse\<close> on a text of the expected shape: the fields must be in range.\<close>

definition year_of :: "gostring \<Rightarrow> nat" where
  [go_eval]: "year_of s = nat_of_digits 0 (take 4 s)"

definition valid_date :: "gostring \<Rightarrow> bool" where
  [go_eval]: "valid_date s \<longleftrightarrow>
     (let y = year_of s; m = two_digits (drop 5 s); d = two_digits (drop 8 s) in 1 \<le> m \<and> m \<le> 12 \<and> 1 \<le> d \<and> d \<le> days_in m y)"

definition valid_clock :: "gostring \<Rightarrow> bool" where
  [go_eval]: "valid_clock s \<longleftrightarrow> two_digits s < 24 \<and> two_digits (drop 3 s) < 60 \<and> two_digits (drop 6 s) < 60"

definition zone_mark :: "char \<Rightarrow> bool" where
  [go_eval]: "zone_mark c \<longleftrightarrow> c = CHR ''Z'' \<or> c = CHR ''+'' \<or> c = CHR ''-''"

definition year_admitted :: "gostring \<Rightarrow> gostring \<Rightarrow> bool" where
  [go_eval]: "year_admitted dialect s \<longleftrightarrow> year_of s \<ge> 1 \<and> (dialect \<noteq> ''mysql'' \<or> year_of s \<ge> 1000)"

definition validTemporal :: "gostring \<Rightarrow> declared_type \<Rightarrow> gostring \<Rightarrow> bool" where
  [go_eval]: "validTemporal s t dialect =
     (if ty_kind t = ''date'' then dateLexeme s \<and> valid_date s \<and> year_admitted dialect s
      else let dated = (ty_kind t \<noteq> ''time'')
        in if dated \<and> (length s < 19 \<or> s ! 10 \<noteq> CHR ''T'' \<or> \<not> dateLexeme (take 10 s)) then False
           else let clock0 = (if dated then drop 11 s else s);
                    rest = dropWhile (\<lambda>c. \<not> zone_mark c) clock0;
                    clock = (if ty_zone t then takeWhile (\<lambda>c. \<not> zone_mark c) clock0 else clock0)
             in if ty_zone t \<and> (rest = [] \<or> \<not> zoneLexeme rest) then False
                else if \<not> clockLexeme clock then False
                else if length clock > 8 \<and> length clock - 9 > ty_fraction t then False
                else if ty_zone t \<and> \<not> dated then False
                else valid_clock clock \<and> (dated \<longrightarrow> valid_date s \<and> year_admitted dialect s))"

section \<open>A value against a type\<close>

definition rune_count :: "gostring \<Rightarrow> nat" where
  [go_eval]: "rune_count s = length (filter (\<lambda>c. \<not> continuation c) s)"

definition uuidLexeme :: "gostring \<Rightarrow> bool" where
  [go_eval]: "uuidLexeme s \<longleftrightarrow>
     length s = 36 \<and>
     list_all (\<lambda>i. if i \<in> {8, 13, 18, 23} then s ! i = CHR ''-'' else s ! i \<in> set (hex_digits @ ''ABCDEF'')) [0..<36]"

definition scalar_value :: "goval \<Rightarrow> bool" where
  [go_eval]: "scalar_value v =
     (case v of VBool b \<Rightarrow> True | VString s \<Rightarrow> True | VNumber s \<Rightarrow> True | VFloat32 w \<Rightarrow> True | VFloat64 w \<Rightarrow> True
      | _ \<Rightarrow> int_of_goval v \<noteq> None)"

definition temporal_kinds :: "gostring list" where
  [go_eval]: "temporal_kinds = [''date'', ''time'', ''timestamp'', ''datetime'']"

definition of_kind :: "declared_type \<Rightarrow> gostring \<Rightarrow> goval \<Rightarrow> bool" where
  [go_eval]: "of_kind t dialect v =
     (if ty_kind t = ''integer'' then
        (case exactInteger v of
           None \<Rightarrow> False
         | Some s \<Rightarrow> if ty_unsigned t then s = ''-0'' \<or> ParseUint (ty_bits t) s \<noteq> None else ParseInt (ty_bits t) s \<noteq> None)
      else if ty_kind t = ''decimal'' then decimalFits v (ty_precision t) (ty_scale t)
      else if ty_kind t = ''bool'' then (case v of VBool b \<Rightarrow> True | _ \<Rightarrow> False)
      else if ty_kind t \<in> set ([''string'', ''uuid''] @ temporal_kinds) then
        (case v of
           VString s \<Rightarrow>
             valid_utf8 s \<and> (ty_kind t = ''string'' \<and> ty_length t > 0 \<longrightarrow> rune_count s \<le> ty_length t) \<and>
             (ty_kind t = ''uuid'' \<longrightarrow> uuidLexeme s) \<and> (ty_kind t \<in> set temporal_kinds \<longrightarrow> validTemporal s t dialect)
         | _ \<Rightarrow> False)
      else True)"

definition of_enum :: "gostring list \<Rightarrow> goval \<Rightarrow> bool" where
  [go_eval]: "of_enum enums v = (enums = [] \<or> (case v of VString s \<Rightarrow> s \<in> set enums | _ \<Rightarrow> False))"

definition operator_applies :: "gostring \<Rightarrow> gostring \<Rightarrow> bool" where
  [go_eval]: "operator_applies k op \<longleftrightarrow>
     (op = ''like'' \<longrightarrow> k = [] \<or> k = ''string'') \<and> (k = ''bool'' \<longrightarrow> op \<in> {''='', ''!='', ''<>'', ''in''})"

text \<open>\<^verbatim>\<open>validateScalar\<close> returns no error.\<close>

definition validateScalar :: "gostring list \<Rightarrow> declared_type \<Rightarrow> gostring \<Rightarrow> gostring \<Rightarrow> goval \<Rightarrow> bool" where
  [go_eval]: "validateScalar enums t dialect op v \<longleftrightarrow>
     scalar_value v \<and> operator_applies (ty_kind t) op \<and> of_kind t dialect v \<and> of_enum enums v"

section \<open>What a number text means\<close>

definition signed :: "bool \<Rightarrow> 'a :: ring_1 \<Rightarrow> 'a" where
  "signed neg x = (if neg then - x else x)"

definition exponent_value :: "gostring \<Rightarrow> int" where
  "exponent_value s = (case unsigned_text s of (neg, ds) \<Rightarrow> signed neg (int (nat_of_digits 0 ds)))"

text \<open>The digits before and after the point and the exponent.\<close>

definition number_parts :: "gostring \<Rightarrow> gostring \<times> gostring \<times> gostring option" where
  "number_parts s =
     (case cut CHR ''e'' (to_lower (unsigned_number s)) of (mant, expo, has) \<Rightarrow>
        case cut CHR ''.'' mant of (whole, places, _) \<Rightarrow> (whole, places, if has then Some expo else None))"

definition decimal_value :: "gostring \<Rightarrow> rat" where
  "decimal_value s =
     (case number_parts s of (whole, places, expo) \<Rightarrow>
        signed (has_prefix s ''-'') (of_nat (nat_of_digits 0 (whole @ places))) *
        10 powi ((case expo of None \<Rightarrow> 0 | Some x \<Rightarrow> exponent_value x) - int (length places)))"

text \<open>A number with \<^term>\<open>s\<close> decimal places and \<^term>\<open>p\<close> digits in all.\<close>

definition fits :: "nat \<Rightarrow> nat \<Rightarrow> rat \<Rightarrow> bool" where
  "fits p s x \<longleftrightarrow> (\<exists>k :: int. x * 10 ^ s = of_int k \<and> \<bar>k\<bar> < 10 ^ p)"

definition number_shape :: "gostring \<Rightarrow> bool" where
  "number_shape s \<longleftrightarrow>
     (case number_parts s of (whole, places, expo) \<Rightarrow>
        list_all is_digit (whole @ places) \<and> (case expo of None \<Rightarrow> True | Some x \<Rightarrow> all_digits (snd (unsigned_text x))) \<and>
        length (whole @ places) \<le> length (unsigned_number s))"

subsection \<open>The shape of a JSON number\<close>

lemma digit_plain: "is_digit c \<Longrightarrow> lower_byte c = c \<and> c \<noteq> CHR ''e'' \<and> c \<noteq> CHR ''.'' \<and> c \<noteq> CHR ''-'' \<and> c \<noteq> CHR ''+''"
  by (auto simp: is_digit_def lower_byte_def is_upper_def byte_def)

lemma digits_lower: "list_all is_digit s \<Longrightarrow> to_lower s = s"
  by (induction s) (auto simp: to_lower_def digit_plain)

lemma takeWhile_all_digits: "list_all is_digit (takeWhile is_digit s)"
  by (induction s) auto

lemma cut_at: "d \<notin> set s \<Longrightarrow> cut d (s @ d # t) = (s, t, True)"
  by (induction s) (auto simp: cut_def)

lemma cut_none: "d \<notin> set s \<Longrightarrow> cut d s = (s, [], False)"
  by (induction s) (auto simp: cut_def)

lemma fraction_shape:
  assumes "json_fraction s = Some r"
  obtains "r = s" "s = [] \<or> hd s \<noteq> CHR ''.''" | f where "s = CHR ''.'' # f @ r" "list_all is_digit f" "f \<noteq> []"
proof (cases s)
  case (Cons c t)
  show ?thesis
  proof (cases "c = CHR ''.''")
    case True
    with assms Cons have "s = CHR ''.'' # takeWhile is_digit t @ r" "takeWhile is_digit t \<noteq> []"
      by (auto simp: json_fraction_def split: if_splits)
    with that(2) takeWhile_all_digits show ?thesis by blast
  next
    case False
    with assms Cons have "r = s" "hd s \<noteq> CHR ''.''" by (auto simp: json_fraction_def)
    with that(1) show ?thesis by blast
  qed
qed (use assms that in \<open>simp add: json_fraction_def\<close>)

lemma not_digits [simp]: "\<not> is_digit CHR ''+''" "\<not> is_digit CHR ''-''" "\<not> is_digit CHR ''.''" "\<not> is_digit CHR ''e''"
  by (simp_all add: is_digit_def byte_def)

lemma unsigned_text_digits: "all_digits s \<Longrightarrow> unsigned_text s = (False, s)"
  by (cases s) (auto simp: unsigned_text_def all_digits_def)

lemma exponent_shape:
  assumes "json_exponent s = Some r" "r = []"
  obtains "s = []" | c x where "s = c # x" "lower_byte c = CHR ''e''" "all_digits (snd (unsigned_text x))" "to_lower x = x"
proof (cases s)
  case (Cons c t)
  show ?thesis
  proof (cases "lower_byte c = CHR ''e''")
    case True
    define u where "u = (case t of d # v \<Rightarrow> if d = CHR ''+'' \<or> d = CHR ''-'' then v else t | [] \<Rightarrow> [])"
    from assms Cons True have u: "takeWhile is_digit u \<noteq> []" "dropWhile is_digit u = []"
      by (auto simp: json_exponent_def u_def [symmetric] Let_def split: if_splits)
    then have all: "all_digits u"
      by (auto simp: all_digits_def list_all_iff)
    obtain d v where t: "t = d # v" using u by (cases t) (auto simp: u_def)
    have "snd (unsigned_text t) = u" "to_lower t = t"
      using all unsigned_text_digits [OF all] digits_lower [of u]
      by (auto simp: t u_def unsigned_text_def all_digits_def to_lower_def lower_byte_def is_upper_def byte_def split: if_splits)
    with all that(2) [of c t] Cons True show ?thesis by simp
  next
    case False
    with assms Cons show ?thesis by (simp add: json_exponent_def)
  qed
qed (use that in simp)

lemma json_number_shape:
  assumes "json_number s" "list_all (\<lambda>c. \<not> json_space c) s"
  shows "number_shape s"
proof -
  define b where "b = unsigned_number s"
  define w where "w = takeWhile is_digit b"
  from assms(1) obtain r1 r2 where r: "json_fraction (dropWhile is_digit b) = Some r1" "json_exponent r1 = Some r2" "list_all json_space r2"
    by (auto simp: json_number_def b_def split: option.splits)
  have w: "list_all is_digit w" by (simp add: w_def takeWhile_all_digits)
  have b: "b = w @ dropWhile is_digit b" by (simp add: w_def)
  have no_space: "list_all (\<lambda>c. \<not> json_space c) b"
    using assms(2) by (auto simp: b_def unsigned_number_def split: list.splits)
  obtain f where f: "dropWhile is_digit b = f @ r1" "list_all is_digit f \<or> (\<exists>g. f = CHR ''.'' # g \<and> list_all is_digit g)" "f = [] \<or> hd f = CHR ''.''"
    using r(1) by (rule fraction_shape) (auto intro: that)
  then have "\<exists>g. (f = [] \<and> g = [] \<or> f = CHR ''.'' # g) \<and> list_all is_digit g"
    by (cases f) (auto simp: digit_plain)
  then obtain g where g: "f = [] \<and> g = [] \<or> f = CHR ''.'' # g" "list_all is_digit g" by blast
  have "set r2 \<subseteq> set r1"
    using r(2) by (auto simp: json_exponent_def Let_def split: list.splits if_splits dest!: set_dropWhileD)
  with no_space r(3) b f(1) have r2: "r2 = []"
    by (cases r2) (auto simp: list_all_iff)
  have plain: "CHR ''e'' \<notin> set (w @ f)" "CHR ''.'' \<notin> set w" "CHR ''.'' \<notin> set g" "to_lower (w @ f) = w @ f"
    using w g digits_lower [OF w] digits_lower [OF g(2)]
    by (fastforce simp: list_all_iff to_lower_def lower_byte_def is_upper_def byte_def)+
  from r(2) r2 have "\<exists>expo. number_parts s = (w, g, expo) \<and> (case expo of None \<Rightarrow> True | Some x \<Rightarrow> all_digits (snd (unsigned_text x)))"
  proof (rule exponent_shape)
    assume "r1 = []"
    then have "to_lower (unsigned_number s) = w @ f" using b f(1) plain(4) by (simp add: b_def [symmetric])
    then show ?thesis
      using g(1) plain cut_none [OF plain(1)] cut_none [OF plain(2)] cut_at [OF plain(2)] by (auto simp: number_parts_def)
  next
    fix c x assume x: "r1 = c # x" "lower_byte c = CHR ''e''" "all_digits (snd (unsigned_text x))" "to_lower x = x"
    then have "to_lower (unsigned_number s) = (w @ f) @ CHR ''e'' # x"
      using b f(1) plain(4) by (simp add: b_def [symmetric]) (simp add: to_lower_def)
    then show ?thesis
      using x g(1) plain cut_at [OF plain(1)] cut_none [OF plain(2)] cut_at [OF plain(2)] by (auto simp: number_parts_def)
  qed
  moreover have "length (w @ g) \<le> length b" using arg_cong [OF b, of length] f(1) g(1) by auto
  ultimately show ?thesis using w g(2) by (auto simp: number_shape_def b_def)
qed

subsection \<open>Counting digits\<close>

lemma nat_of_digits_scale: "nat_of_digits a s = a * 10 ^ length s + nat_of_digits 0 s"
proof (induction s arbitrary: a)
  case (Cons c s)
  show ?case using Cons.IH [of "10 * a + (byte c - 48)"] Cons.IH [of "byte c - 48"] by (simp add: algebra_simps)
qed simp

lemma digit_value: "is_digit c \<Longrightarrow> byte c - 48 < 10" "is_digit c \<Longrightarrow> byte c - 48 = 0 \<longleftrightarrow> c = CHR ''0''"
proof -
  assume c: "is_digit c"
  then show "byte c - 48 < 10" by (auto simp: is_digit_def byte_def)
  from c have "48 \<le> byte c" by (simp add: is_digit_def byte_def)
  then have "byte c - 48 = 0 \<longleftrightarrow> byte c = byte CHR ''0''" by (simp add: byte_def)
  then show "byte c - 48 = 0 \<longleftrightarrow> c = CHR ''0''" unfolding byte_def by (simp only: of_char_eq_iff)
qed

lemma nat_of_digits_bound: "list_all is_digit s \<Longrightarrow> nat_of_digits 0 s < 10 ^ length s"
proof (induction s)
  case (Cons c s)
  then have "nat_of_digits 0 (c # s) < (byte c - 48 + 1) * 10 ^ length s"
    using nat_of_digits_scale [of "byte c - 48" s] by (simp add: algebra_simps)
  also have "\<dots> \<le> 10 * 10 ^ length s" using Cons.prems digit_value(1) [of c] by (intro mult_right_mono) auto
  finally show ?case by simp
qed simp

lemma nat_of_digits_first:
  assumes "is_digit c" "c \<noteq> CHR ''0''"
  shows "10 ^ length s \<le> nat_of_digits 0 (c # s)"
proof -
  have "1 \<le> byte c - 48" using assms digit_value(2) [of c] by simp
  then have "1 * 10 ^ length s \<le> (byte c - 48) * 10 ^ length s" by (intro mult_right_mono) simp_all
  then have "10 ^ length s \<le> (byte c - 48) * 10 ^ length s + nat_of_digits 0 s" by linarith
  then show ?thesis using nat_of_digits_scale [of "byte c - 48" s] by (simp only: nat_of_digits.simps mult_0_right add_0)
qed

lemma nat_of_digits_strip: "nat_of_digits 0 (dropWhile (\<lambda>c. c = CHR ''0'') s) = nat_of_digits 0 s"
  by (induction s) (simp_all add: byte_def)

lemma nat_of_digits_zeros: "nat_of_digits a (replicate z CHR ''0'') = a * 10 ^ z"
  by (induction z arbitrary: a) (simp_all add: byte_def)

lemma nat_of_digits_last:
  assumes "is_digit c" "c \<noteq> CHR ''0''"
  shows "\<not> 10 dvd nat_of_digits 0 (s @ [c])"
proof
  assume "10 dvd nat_of_digits 0 (s @ [c])"
  then have "10 dvd 10 * nat_of_digits 0 s + (byte c - 48)" by (simp add: nat_of_digits_append)
  then have "10 dvd byte c - 48" by presburger
  with digit_value [OF assms(1)] assms(2) show False by auto
qed

text \<open>The trailing zeros a text is trimmed of.\<close>

definition trim_zeros :: "gostring \<Rightarrow> gostring" where
  "trim_zeros s = rev (dropWhile (\<lambda>c. c = CHR ''0'') (rev s))"

lemma trim_zeros_rest: "s = trim_zeros s @ replicate (length s - length (trim_zeros s)) CHR ''0''"
proof -
  have "takeWhile (\<lambda>c. c = CHR ''0'') xs = replicate (length xs - length (dropWhile (\<lambda>c. c = CHR ''0'') xs)) CHR ''0''" for xs :: gostring
    by (induction xs) (auto simp: Suc_diff_le length_dropWhile_le)
  from arg_cong [OF takeWhile_dropWhile_id [of "\<lambda>c. c = CHR ''0''" "rev s"], of rev] this [of "rev s"] show ?thesis
    by (simp add: trim_zeros_def)
qed

lemma trim_zeros_value: "nat_of_digits 0 s = nat_of_digits 0 (trim_zeros s) * 10 ^ (length s - length (trim_zeros s))"
  using arg_cong [OF trim_zeros_rest [of s], of "nat_of_digits 0"] by (simp add: nat_of_digits_append nat_of_digits_zeros)

lemma trim_zeros_length: "length (trim_zeros s) \<le> length s"
  by (simp add: trim_zeros_def length_dropWhile_le [of _ "rev s", simplified])

text \<open>A number whose digits neither start nor end with a zero fits exactly when the counts of its digits do.\<close>

lemma fits_signed: "fits p s (signed neg x) \<longleftrightarrow> fits p s x"
proof -
  have "fits p s (- x)" if "fits p s x" for x
    using that unfolding fits_def by (metis abs_minus_cancel mult_minus_left of_int_minus)
  from this [of x] this [of "- x"] show ?thesis by (auto simp: signed_def)
qed

lemma fits_counted:
  assumes T: "10 ^ (L - 1) \<le> T" "T < 10 ^ L" "\<not> 10 dvd T" "L > 0"
  shows "fits p s (of_nat T * 10 powi shift) \<longleftrightarrow> shift \<ge> - int s \<and> int L + shift \<le> int p - int s"
proof -
  have scaled: "of_nat T * 10 powi shift * 10 ^ s = (of_nat T * 10 powi (shift + int s) :: rat)"
    by (simp add: power_int_add power_int_of_nat)
  show ?thesis
  proof (cases "shift + int s \<ge> 0")
    case True
    then obtain e where e: "shift + int s = int e" by (metis nonneg_int_cases)
    have whole: "of_nat T * 10 powi shift * 10 ^ s = (of_int (int (T * 10 ^ e)) :: rat)"
      unfolding scaled e by (simp add: power_int_of_nat)
    have "fits p s (of_nat T * 10 powi shift) \<longleftrightarrow> T * 10 ^ e < 10 ^ p"
      unfolding fits_def whole of_int_eq_iff by (simp flip: of_nat_less_iff [where 'a = int])
    also have "\<dots> \<longleftrightarrow> L + e \<le> p"
    proof
      assume "T * 10 ^ e < 10 ^ p"
      moreover have "10 ^ (L - 1) * 10 ^ e \<le> T * 10 ^ e" using T(1) by (intro mult_right_mono) simp_all
      ultimately have "(10 :: nat) ^ (L - 1 + e) < 10 ^ p" unfolding power_add by (rule le_less_trans [rotated])
      then have "L - 1 + e < p" by (rule power_less_imp_less_exp [rotated]) simp
      with T(4) show "L + e \<le> p" by simp
    next
      assume "L + e \<le> p"
      have "T * 10 ^ e < 10 ^ L * 10 ^ e" using T(2) by (intro mult_strict_right_mono) simp_all
      also have "\<dots> = 10 ^ (L + e)" by (simp add: power_add)
      also have "\<dots> \<le> 10 ^ p" using \<open>L + e \<le> p\<close> by (intro power_increasing) simp_all
      finally show "T * 10 ^ e < 10 ^ p" .
    qed
    finally show ?thesis using e by auto
  next
    case False
    then have "shift + int s = - int (Suc (nat (- (shift + int s) - 1)))" by simp
    then obtain m where m: "shift + int s = - int (Suc m)" by blast
    have "\<not> fits p s (of_nat T * 10 powi shift)"
    proof
      assume "fits p s (of_nat T * 10 powi shift)"
      then obtain k :: int where "of_nat T * 10 powi (shift + int s) = (of_int k :: rat)"
        unfolding fits_def scaled by blast
      then have "of_nat T = (of_int k * 10 ^ Suc m :: rat)"
        unfolding m by (simp add: power_int_minus power_int_of_nat field_simps del: power_Suc of_nat_Suc)
      then have "of_int (int T) = (of_int (k * 10 ^ Suc m) :: rat)" by simp
      then have "int T = k * 10 ^ Suc m" by (simp only: of_int_eq_iff)
      then have "(10 :: int) dvd int T" by simp
      with T(3) show False by presburger
    qed
    with False show ?thesis by simp
  qed
qed

subsection \<open>The check means what it says\<close>

lemma ParseInt_value:
  assumes "all_digits (snd (unsigned_text x))"
  shows "ParseInt bits x = (if - (2 ^ (bits - 1)) \<le> exponent_value x \<and> exponent_value x < 2 ^ (bits - 1) then Some (exponent_value x) else None)"
proof -
  obtain neg ds where x: "unsigned_text x = (neg, ds)" by fastforce
  have "- int n < 2 ^ k" "- (2 ^ k) \<le> int n" for n k
    by (rule le_less_trans [of _ 0], simp_all) (rule order_trans [of _ 0], simp_all)
  with x assms show ?thesis
    by (cases neg) (auto simp: ParseInt_def exponent_value_def signed_def Let_def)
qed

lemma decimalFits_iff:
  assumes v: "number_text v = Some num" and shape: "number_shape num"
    and small: "length num < 2 ^ 32" "p < 2 ^ 32" "s < 2 ^ 32"
  shows "decimalFits v p s \<longleftrightarrow> fits p s (decimal_value num)"
proof -
  define body where "body = unsigned_number num"
  obtain whole places expo where parts: "number_parts num = (whole, places, expo)" by (metis prod_cases3)
  obtain mant x has z where cuts: "cut CHR ''e'' (to_lower body) = (mant, x, has)" "cut CHR ''.'' mant = (whole, places, z)"
    "expo = (if has then Some x else None)"
    using parts by (auto simp: number_parts_def body_def split: prod.splits)
  define ds where "ds = dropWhile (\<lambda>c. c = CHR ''0'') (whole @ places)"
  define e where "e = (case expo of None \<Rightarrow> 0 | Some x \<Rightarrow> exponent_value x)"
  have ok: "list_all is_digit (whole @ places)" "has \<Longrightarrow> all_digits (snd (unsigned_text x))" "length (whole @ places) \<le> length body"
    using shape parts cuts(3) by (auto simp: number_shape_def body_def)
  have D: "nat_of_digits 0 (whole @ places) = nat_of_digits 0 ds" by (simp only: ds_def nat_of_digits_strip)
  have val: "decimal_value num = signed (has_prefix num ''-'') (of_nat (nat_of_digits 0 ds)) * 10 powi (e - int (length places))"
    by (simp only: decimal_value_def parts prod.case D e_def)
  have len: "length body \<le> length num" by (auto simp: body_def unsigned_number_def split: list.splits)
  show ?thesis
  proof (cases "ds = []")
    case True
    then have "decimalFits v p s" using v cuts by (simp add: decimalFits_def body_def ds_def Let_def)
    moreover have "fits p s 0" by (auto simp: fits_def intro: exI [of _ 0])
    ultimately show ?thesis using True by (simp add: val signed_def)
  next
    case False
    define t where "t = trim_zeros ds"
    define shift where "shift = e - int (length places) + int (length ds) - int (length t)"
    have digits: "list_all is_digit ds" "hd ds \<noteq> CHR ''0''"
      using ok(1) False hd_dropWhile [of "\<lambda>c. c = CHR ''0''" "whole @ places"]
      by (auto simp: ds_def list_all_iff dest: set_dropWhileD simp del: set_append)
    have shorter: "length ds \<le> length (whole @ places)" unfolding ds_def by (rule length_dropWhile_le)
    have rest: "ds = t @ replicate (length ds - length t) CHR ''0''" "length t \<le> length ds"
      unfolding t_def by (rule trim_zeros_rest, rule trim_zeros_length)
    have t_ne: "t \<noteq> []"
    proof
      assume "t = []"
      with rest(1) have "ds = replicate (length ds) CHR ''0''" by simp
      with False digits(2) show False by (metis hd_replicate length_greater_0_conv not_gr_zero)
    qed
    have t_digits: "list_all is_digit t" using digits(1) rest(1) by (metis list_all_append)
    obtain c t' where t_first: "t = c # t'" using t_ne by (cases t) auto
    have "hd ds = hd t" using rest(1) t_ne by (metis hd_append2)
    with digits(2) t_first have first: "c \<noteq> CHR ''0''" "is_digit c" using t_digits by auto
    obtain t'' d where t_last: "t = t'' @ [d]" using t_ne by (metis append_butlast_last_id)
    have "d \<noteq> CHR ''0''"
    proof -
      have "d = last t" by (simp add: t_last)
      also have "\<dots> = hd (dropWhile (\<lambda>c. c = CHR ''0'') (rev ds))" using t_ne unfolding t_def trim_zeros_def by (subst last_rev) simp_all
      also have "\<dots> \<noteq> CHR ''0''" using t_ne hd_dropWhile [of "\<lambda>c. c = CHR ''0''" "rev ds"] by (simp add: t_def trim_zeros_def)
      finally show ?thesis .
    qed
    then have T: "10 ^ (length t - 1) \<le> nat_of_digits 0 t" "nat_of_digits 0 t < 10 ^ length t" "\<not> 10 dvd nat_of_digits 0 t" "length t > 0"
    proof -
      have "is_digit d" using t_digits by (simp add: t_last)
      from nat_of_digits_last [OF this \<open>d \<noteq> CHR ''0''\<close>, of t''] show "\<not> 10 dvd nat_of_digits 0 t" by (simp only: t_last not_False_eq_True)
      from nat_of_digits_first [OF first(2,1), of t'] show "10 ^ (length t - 1) \<le> nat_of_digits 0 t" by (simp add: t_first del: nat_of_digits.simps)
    qed (use nat_of_digits_bound [OF t_digits] t_first in simp_all)
    have "of_nat (nat_of_digits 0 ds) * 10 powi (e - int (length places)) = (of_nat (nat_of_digits 0 t) * 10 powi shift :: rat)"
    proof -
      define u where "u = length ds - length t"
      have "shift = (e - int (length places)) + int u" using rest(2) by (simp add: shift_def u_def)
      moreover have "nat_of_digits 0 ds = nat_of_digits 0 t * 10 ^ u" using trim_zeros_value [of ds] by (simp only: t_def u_def)
      ultimately show ?thesis by (simp add: power_int_add power_int_of_nat)
    qed
    then have "fits p s (decimal_value num) \<longleftrightarrow> fits p s (of_nat (nat_of_digits 0 t) * 10 powi shift)"
      using fits_signed [of p s True "of_nat (nat_of_digits 0 t) * 10 powi shift"] by (simp add: val signed_def)
    also have "\<dots> \<longleftrightarrow> shift \<ge> - int s \<and> int (length t) + shift \<le> int p - int s"
      by (rule fits_counted [OF T])
    finally have spec: "fits p s (decimal_value num) \<longleftrightarrow> shift \<ge> - int s \<and> int (length t) + shift \<le> int p - int s" .
    have code: "decimalFits v p s \<longleftrightarrow>
        (case if has then ParseInt 64 x else Some 0 of
           None \<Rightarrow> False
         | Some e \<Rightarrow> \<not> (e > int (length body) + int p + 1 \<or> e < - int (length body) - int s - 1) \<and>
             e - int (length places) + int (length ds) - int (length t) \<ge> - int s \<and>
             int (length t) + (e - int (length places) + int (length ds) - int (length t)) \<le> int p - int s)"
      using v False
      unfolding decimalFits_def t_def trim_zeros_def count_digits_def Let_def
      by (simp only: option.case body_def [symmetric] cuts(1,2) prod.case ds_def [symmetric] if_False cong: option.case_cong)
        (cases "if has then ParseInt 64 x else Some 0"; simp only: option.case if_bool_eq_disj; blast)
    have e: "e = (if has then exponent_value x else 0)" by (simp add: e_def cuts(3))
    have sizes: "length ds \<le> length body" "length t \<le> length ds" "length places \<le> length body"
      using shorter ok(3) rest(2) by simp_all
    show ?thesis
    proof (cases "has \<and> \<not> (- (2 ^ 63) \<le> e \<and> e < 2 ^ 63)")
      case True
      then have "\<not> decimalFits v p s" using code ParseInt_value [OF ok(2), of 64] e by auto
      moreover have "\<not> (shift \<ge> - int s \<and> int (length t) + shift \<le> int p - int s)"
      proof -
        have "int (length num) < 4294967296" "int p < 4294967296" "int s < 4294967296" using small by simp_all
        moreover from True have "e < -9223372036854775808 \<or> e \<ge> 9223372036854775808" by auto
        ultimately show ?thesis using sizes len unfolding shift_def by linarith
      qed
      ultimately show ?thesis using spec by simp
    next
      case in_range: False
      then have "(if has then ParseInt 64 x else Some 0) = Some e"
        using ParseInt_value [OF ok(2), of 64] e by auto
      then have "decimalFits v p s \<longleftrightarrow> \<not> (e > int (length body) + int p + 1 \<or> e < - int (length body) - int s - 1) \<and>
          shift \<ge> - int s \<and> int (length t) + shift \<le> int p - int s"
        using code by (simp add: shift_def)
      also have "\<dots> \<longleftrightarrow> shift \<ge> - int s \<and> int (length t) + shift \<le> int p - int s"
        using sizes unfolding shift_def by linarith
      finally show ?thesis using spec by simp
    qed
  qed
qed

section \<open>The values of a type\<close>

definition integer_value :: "goval \<Rightarrow> int option" where
  "integer_value v =
     (case v of
        VNumber s \<Rightarrow> if intLexeme s then Some (signed (has_prefix s ''-'') (int (nat_of_digits 0 (unsigned_number s)))) else None
      | _ \<Rightarrow> int_of_goval v)"

definition rational_value :: "goval \<Rightarrow> rat option" where
  "rational_value v =
     (case v of VNumber s \<Rightarrow> if json_number s then Some (decimal_value s) else None | _ \<Rightarrow> map_option of_int (int_of_goval v))"

definition two_text :: "nat \<Rightarrow> gostring" where
  "two_text n = [digit_char (n div 10), digit_char (n mod 10)]"

definition date_text :: "nat \<Rightarrow> nat \<Rightarrow> nat \<Rightarrow> gostring" where
  "date_text y m d = two_text (y div 100) @ two_text (y mod 100) @ ''-'' @ two_text m @ ''-'' @ two_text d"

definition calendar_date :: "gostring \<Rightarrow> nat \<Rightarrow> nat \<Rightarrow> nat \<Rightarrow> bool" where
  "calendar_date dialect y m d \<longleftrightarrow>
     (if dialect = ''mysql'' then 1000 else 1) \<le> y \<and> y \<le> 9999 \<and> 1 \<le> m \<and> m \<le> 12 \<and> 1 \<le> d \<and> d \<le> days_in m y"

definition inhabits :: "declared_type \<Rightarrow> gostring \<Rightarrow> goval \<Rightarrow> bool" where
  "inhabits t dialect v \<longleftrightarrow>
     (if ty_kind t = ''integer'' then
        \<exists>n. integer_value v = Some n \<and>
          (if ty_unsigned t then 0 \<le> n \<and> n < 2 ^ ty_bits t else - (2 ^ (ty_bits t - 1)) \<le> n \<and> n < 2 ^ (ty_bits t - 1))
      else if ty_kind t = ''decimal'' then \<exists>x. rational_value v = Some x \<and> fits (ty_precision t) (ty_scale t) x
      else if ty_kind t = ''bool'' then \<exists>b. v = VBool b
      else if ty_kind t = ''date'' then \<exists>y m d. v = VString (date_text y m d) \<and> calendar_date dialect y m d
      else if ty_kind t = ''string'' then \<exists>s. v = VString s \<and> valid_utf8 s \<and> (ty_length t > 0 \<longrightarrow> rune_count s \<le> ty_length t)
      else if ty_kind t = ''uuid'' then \<exists>s. v = VString s \<and> valid_utf8 s \<and> uuidLexeme s
      else if ty_kind t \<in> set temporal_kinds then \<exists>s. v = VString s \<and> valid_utf8 s \<and> validTemporal s t dialect
      else True)"

text \<open>Number texts without white space and of a size a program can hold.\<close>

definition plain_number :: "goval \<Rightarrow> bool" where
  "plain_number v = (case v of VNumber s \<Rightarrow> list_all (\<lambda>c. \<not> json_space c) s \<and> length s < 2 ^ 32 | _ \<Rightarrow> True)"

subsection \<open>Integers\<close>

lemma all_digits_nat_str: "all_digits (nat_str n)"
  using nat_str_digits [of n] by (simp add: all_digits_def list_all_iff)

lemma unsigned_int_str: "unsigned_number (int_str n) = nat_str (nat \<bar>n\<bar>)" "has_prefix (int_str n) ''-'' \<longleftrightarrow> n < 0"
proof -
  have "\<exists>c t. nat_str m = c # t \<and> is_digit c" for m
    using nat_str_digits [of m] nat_str_nonempty [of m] by (cases "nat_str m") auto
  then obtain c t where m: "nat_str (nat n) = c # t" "is_digit c" by blast
  show "unsigned_number (int_str n) = nat_str (nat \<bar>n\<bar>)" "has_prefix (int_str n) ''-'' \<longleftrightarrow> n < 0"
    using m by (auto simp: int_str_def unsigned_number_def)
qed

lemma exactInteger_cases:
  assumes "exactInteger v = Some s"
  obtains "v = VNumber s" "json_digits (unsigned_number s)" | n where "int_of_goval v = Some n" "s = int_str n"
  using assms by (cases v) (auto simp: exactInteger_def intLexeme_def split: if_splits)

lemma integer_text:
  assumes "exactInteger v = Some s"
  shows "unsigned_text s = (has_prefix s ''-'', unsigned_number s)" "all_digits (unsigned_number s)"
    "integer_value v = Some (exponent_value s)"
proof -
  have "(unsigned_text s = (has_prefix s ''-'', unsigned_number s) \<and> all_digits (unsigned_number s)) \<and>
      integer_value v = Some (signed (has_prefix s ''-'') (int (nat_of_digits 0 (unsigned_number s))))"
  proof (cases "\<exists>t. v = VNumber t")
    case True
    then obtain t where v: "v = VNumber t" by blast
    with assms have t: "t = s" "json_digits (unsigned_number s)" by (auto simp: exactInteger_def intLexeme_def split: if_splits)
    then show ?thesis
      using v by (cases s) (auto simp: integer_value_def intLexeme_def json_digits_def all_digits_def list_all_iff unsigned_text_def unsigned_number_def)
  next
    case False
    with assms obtain n where n: "int_of_goval v = Some n" "s = int_str n"
      by (cases v) (auto simp: exactInteger_def)
    have "unsigned_text s = (has_prefix s ''-'', unsigned_number s)"
      using unsigned_text_digits [OF all_digits_nat_str] unsigned_int_str [of n]
      by (auto simp: n(2) int_str_def unsigned_text_def)
    moreover have "integer_value v = Some n" using n(1) by (cases v) (simp_all add: integer_value_def)
    moreover have "signed (n < 0) (int (nat \<bar>n\<bar>)) = n" by (simp add: signed_def)
    ultimately show ?thesis
      using unsigned_int_str [of n] all_digits_nat_str [of "nat \<bar>n\<bar>"] nat_of_digits_nat_str by (simp add: n(2))
  qed
  then show "unsigned_text s = (has_prefix s ''-'', unsigned_number s)" "all_digits (unsigned_number s)"
    "integer_value v = Some (exponent_value s)"
    by (simp_all add: exponent_value_def)
qed

lemma no_integer: "exactInteger v = None \<Longrightarrow> integer_value v = None"
  by (cases v) (auto simp: exactInteger_def integer_value_def split: if_splits)

lemma unsigned_range:
  assumes "exactInteger v = Some s"
  shows "s = ''-0'' \<or> ParseUint bits s \<noteq> None \<longleftrightarrow> 0 \<le> exponent_value s \<and> exponent_value s < 2 ^ bits"
proof (cases "has_prefix s ''-''")
  case False
  then have "unsigned_number s = s" by (auto simp: unsigned_number_def split: list.splits)
  with False integer_text [OF assms] have "all_digits s" "exponent_value s = int (nat_of_digits 0 s)" "s \<noteq> ''-0''"
    by (auto simp: exponent_value_def signed_def)
  then show ?thesis by (simp add: ParseUint_def)
next
  case True
  then obtain t where s: "s = CHR ''-'' # t" by (cases s) auto
  then have t: "all_digits t" "exponent_value s = - int (nat_of_digits 0 t)"
    using integer_text(1,2) [OF assms] by (simp_all add: unsigned_number_def exponent_value_def signed_def)
  have "s = ''-0'' \<longleftrightarrow> nat_of_digits 0 t = 0"
  proof
    assume zero: "nat_of_digits 0 t = 0"
    show "s = ''-0''"
      using assms
    proof (rule exactInteger_cases)
      assume "json_digits (unsigned_number s)"
      then have "t \<noteq> []" "hd t = CHR ''0'' \<longrightarrow> length t = 1" by (simp_all add: s unsigned_number_def json_digits_def)
      then obtain c u where u: "t = c # u" "c = CHR ''0'' \<longrightarrow> u = []" by (cases t) auto
      have "c = CHR ''0''"
        using nat_of_digits_first [of c u] t(1) zero by (cases "c = CHR ''0''") (auto simp: u all_digits_def)
      with u show ?thesis by (simp add: s)
    next
      fix n assume n: "s = int_str n"
      have "t = unsigned_number s" by (simp add: s unsigned_number_def)
      with n True have "n < 0" "t = nat_str (nat \<bar>n\<bar>)" using unsigned_int_str [of n] by (simp_all only:)
      then show ?thesis using zero nat_of_digits_nat_str [of "nat \<bar>n\<bar>"] by simp
    qed
  qed (simp add: s byte_def)
  moreover have "ParseUint bits s = None" by (simp add: ParseUint_def s all_digits_def)
  moreover have "(0 :: int) < 2 ^ bits" by simp
  ultimately show ?thesis using t(2) by (auto simp del: zero_less_power)
qed

lemma integer_inhabits:
  assumes "ty_kind t = ''integer''"
  shows "of_kind t dialect v \<longleftrightarrow> inhabits t dialect v"
proof (cases "exactInteger v")
  case None
  then show ?thesis using assms by (simp add: of_kind_def inhabits_def no_integer)
next
  case (Some s)
  have "ParseInt (ty_bits t) s \<noteq> None \<longleftrightarrow> - (2 ^ (ty_bits t - 1)) \<le> exponent_value s \<and> exponent_value s < 2 ^ (ty_bits t - 1)"
    using ParseInt_value [of s "ty_bits t"] integer_text(1,2) [OF Some] by simp
  then show ?thesis
    using assms Some integer_text(3) [OF Some] unsigned_range [OF Some, of "ty_bits t"] by (simp add: of_kind_def inhabits_def)
qed

subsection \<open>Decimals\<close>

lemma number_parts_digits:
  assumes "all_digits (unsigned_number s)"
  shows "number_parts s = (unsigned_number s, [], None)"
proof -
  have plain: "to_lower (unsigned_number s) = unsigned_number s" "CHR ''e'' \<notin> set (unsigned_number s)" "CHR ''.'' \<notin> set (unsigned_number s)"
    using assms digits_lower by (auto simp: all_digits_def list_all_iff)
  show ?thesis by (simp add: number_parts_def plain cut_none)
qed

lemma word_small:
  fixes w :: "'a :: len word"
  assumes "LENGTH('a) \<le> 64"
  shows "\<bar>sint w\<bar> < 2 ^ 64" "\<bar>uint w\<bar> < 2 ^ 64"
proof -
  have "- (2 ^ (LENGTH('a) - 1)) \<le> sint w" "sint w < 2 ^ (LENGTH('a) - 1)" by (rule sint_ge, rule sint_lt)
  moreover have "(2 :: int) ^ (LENGTH('a) - 1) < 2 ^ 64" using assms by (intro power_strict_increasing) auto
  ultimately show "\<bar>sint w\<bar> < 2 ^ 64" by linarith
  have "uint w < 2 ^ LENGTH('a)" by (rule uint_lt2p)
  also have "(2 :: int) ^ LENGTH('a) \<le> 2 ^ 64" using assms by (intro power_increasing) simp_all
  finally show "\<bar>uint w\<bar> < 2 ^ 64" by simp
qed

lemma number_text_int:
  assumes "int_of_goval v = Some n"
  shows "number_text v = Some (int_str n)" "rational_value v = Some (of_int n)" "number_shape (int_str n)" "decimal_value (int_str n) = of_int n"
    "\<bar>n\<bar> < 2 ^ 64"
proof -
  have v: "\<nexists>s. v = VNumber s" using assms by auto
  then show "number_text v = Some (int_str n)" "rational_value v = Some (of_int n)"
    using assms by (cases v; simp add: number_text_def exactInteger_def rational_value_def)+
  have digits: "all_digits (unsigned_number (int_str n))" using unsigned_int_str(1) all_digits_nat_str by simp
  show "number_shape (int_str n)"
    using digits by (simp add: number_shape_def number_parts_digits all_digits_def)
  show "decimal_value (int_str n) = of_int n"
    using unsigned_int_str [of n] nat_of_digits_nat_str
    by (simp add: decimal_value_def number_parts_digits [OF digits] signed_def)
  show "\<bar>n\<bar> < 2 ^ 64" using assms
    by (cases v) (auto intro!: word_small [simplified])
qed

lemma nat_str_length: "n < 10 ^ k \<Longrightarrow> k > 0 \<Longrightarrow> length (nat_str n) \<le> k"
proof (induction n arbitrary: k rule: nat_str.induct)
  case (1 n)
  show ?case
  proof (cases "n < 10")
    case False
    with 1(2) have k: "k \<noteq> 1" "k > 0" using 1(3) by (auto intro: Nat.gr0I)
    then obtain j where j: "k = Suc j" "j > 0" by (cases k) auto
    with 1(2) have "n div 10 < 10 ^ j" by (simp add: less_mult_imp_div_less mult.commute)
    with 1(1) [OF False this j(2)] False j show ?thesis by (subst nat_str.simps) simp
  qed (use 1(3) in \<open>subst nat_str.simps, simp\<close>)
qed

lemma int_str_length: "\<bar>n\<bar> < 2 ^ 64 \<Longrightarrow> length (int_str n) < 2 ^ 32"
proof -
  assume "\<bar>n\<bar> < 2 ^ 64"
  then have "nat \<bar>n\<bar> < 10 ^ 20" by simp
  then have "length (nat_str (nat \<bar>n\<bar>)) \<le> 20" by (rule nat_str_length) simp
  then show ?thesis by (auto simp: int_str_def)
qed

lemma decimal_inhabits:
  assumes "ty_kind t = ''decimal''" "plain_number v" "ty_precision t < 2 ^ 32" "ty_scale t < 2 ^ 32"
  shows "of_kind t dialect v \<longleftrightarrow> inhabits t dialect v"
proof -
  consider s where "v = VNumber s" | n where "int_of_goval v = Some n" | "number_text v = None" "rational_value v = None"
    by (cases v) (auto simp: number_text_def exactInteger_def rational_value_def)
  then show ?thesis
  proof cases
    case (1 s)
    with assms(2) have s: "list_all (\<lambda>c. \<not> json_space c) s" "length s < 2 ^ 32" by (simp_all add: plain_number_def)
    show ?thesis
    proof (cases "json_number s")
      case True
      with 1 have "number_text v = Some s" by (simp add: number_text_def)
      from decimalFits_iff [OF this json_number_shape [OF True s(1)] s(2) assms(3,4)] show ?thesis
        using assms(1) True 1 by (simp add: of_kind_def inhabits_def rational_value_def)
    qed (use assms(1) 1 in \<open>simp add: of_kind_def inhabits_def rational_value_def decimalFits_def number_text_def\<close>)
  next
    case (2 n)
    note n = number_text_int [OF 2]
    from decimalFits_iff [OF n(1,3) int_str_length [OF n(5)] assms(3,4)] show ?thesis
      using assms(1) n(2,4) by (simp add: of_kind_def inhabits_def)
  next
    case 3
    then show ?thesis using assms(1) by (simp add: of_kind_def inhabits_def decimalFits_def)
  qed
qed

subsection \<open>Dates\<close>

lemma digit_char_value: "is_digit c \<Longrightarrow> digit_char (byte c - 48) = c"
proof -
  assume "is_digit c"
  then have "byte c = 48 + (byte c - 48)" by (simp add: is_digit_def byte_def)
  then show ?thesis unfolding digit_char_def byte_def by (metis char_of_char)
qed

lemma two_text_value: "n < 100 \<Longrightarrow> nat_of_digits 0 (two_text n) = n" "n < 100 \<Longrightarrow> list_all is_digit (two_text n)"
  by (auto simp: two_text_def byte_digit_char is_digit_digit_char)

lemma two_text_of: "is_digit a \<Longrightarrow> is_digit b \<Longrightarrow> [a, b] = two_text (nat_of_digits 0 [a, b])"
  using digit_value(1) [of a] digit_value(1) [of b] digit_char_value [of a] digit_char_value [of b] by (simp add: two_text_def)

lemma matches_Cons: "matches_pattern (p # ps) s \<longleftrightarrow> (\<exists>c cs. s = c # cs \<and> (if p = CHR ''d'' then is_digit c else c = p) \<and> matches_pattern ps cs)"
  by (cases s) auto

lemma dateLexeme_text:
  assumes "dateLexeme s"
  obtains y m d where "s = date_text y m d" "y \<le> 9999" "m < 100" "d < 100"
proof -
  from assms obtain a b c e f g h i where s: "s = [a, b, c, e, CHR ''-'', f, g, CHR ''-'', h, i]"
    and digits: "is_digit a" "is_digit b" "is_digit c" "is_digit e" "is_digit f" "is_digit g" "is_digit h" "is_digit i"
    by (auto simp: dateLexeme_def matches_Cons)
  define y where "y = nat_of_digits 0 [a, b] * 100 + nat_of_digits 0 [c, e]"
  have small: "nat_of_digits 0 [x, z] < 100" if "is_digit x" "is_digit z" for x z
    using nat_of_digits_bound [of "[x, z]"] that by simp
  have "y div 100 = nat_of_digits 0 [a, b]" "y mod 100 = nat_of_digits 0 [c, e]" "y \<le> 9999"
    using small [OF digits(1,2)] small [OF digits(3,4)] by (simp_all add: y_def del: nat_of_digits.simps)
  with that [of y "nat_of_digits 0 [f, g]" "nat_of_digits 0 [h, i]"] small digits two_text_of show thesis
    by (simp add: s date_text_def del: nat_of_digits.simps flip: two_text_of)
qed

lemma date_text_fields:
  assumes "y \<le> 9999" "m < 100" "d < 100"
  shows "dateLexeme (date_text y m d)" "year_of (date_text y m d) = y" "two_digits (drop 5 (date_text y m d)) = m"
    "two_digits (drop 8 (date_text y m d)) = d" "valid_utf8 (date_text y m d)"
proof -
  let ?ch = "\<lambda>n. digit_char n"
  have y: "y div 100 < 100" "y mod 100 < 100" using assms(1) by auto
  have written: "date_text y m d = [?ch (y div 100 div 10), ?ch (y div 100 mod 10), ?ch (y mod 100 div 10), ?ch (y mod 100 mod 10), CHR ''-'',
      ?ch (m div 10), ?ch (m mod 10), CHR ''-'', ?ch (d div 10), ?ch (d mod 10)]"
    by (simp add: date_text_def two_text_def)
  have small: "n div 10 < 10" "n mod 10 < 10" if "n < 100" for n :: nat using that by auto
  note s = small [OF y(1)] small [OF y(2)] small [OF assms(2)] small [OF assms(3)]
  show "dateLexeme (date_text y m d)"
    unfolding written dateLexeme_def by (simp add: matches_Cons is_digit_digit_char s del: mod_div_trivial)
  show "year_of (date_text y m d) = y"
    unfolding written year_of_def by (simp add: byte_digit_char s del: mod_div_trivial)
  show "two_digits (drop 5 (date_text y m d)) = m" "two_digits (drop 8 (date_text y m d)) = d"
    unfolding written two_digits_def by (simp_all add: byte_digit_char s)
  have digit_small: "n mod 10 < 80" for n :: nat by (rule less_trans [of _ 10]) simp_all
  have ascii: "list_all (\<lambda>c. byte c < 128) s \<Longrightarrow> valid_utf8 s" for s
    by (induction s) (simp_all add: valid_utf8.simps utf8_lead_def)
  show "valid_utf8 (date_text y m d)"
    unfolding written using s digit_small by (intro ascii) (simp add: byte_digit_char byte_def [of "CHR ''-''"] del: mod_div_trivial)
qed

lemma date_inhabits:
  assumes "ty_kind t = ''date''"
  shows "of_kind t dialect v \<longleftrightarrow> inhabits t dialect v"
proof -
  have "valid_utf8 s \<and> validTemporal s t dialect \<longleftrightarrow> (\<exists>y m d. s = date_text y m d \<and> calendar_date dialect y m d)" for s
  proof
    assume s: "valid_utf8 s \<and> validTemporal s t dialect"
    then have s': "dateLexeme s" "valid_date s" "year_admitted dialect s" using assms by (simp_all add: validTemporal_def)
    from s'(1) obtain y m d where d: "s = date_text y m d" "y \<le> 9999" "m < 100" "d < 100" by (rule dateLexeme_text)
    have "calendar_date dialect y m d"
      using s'(2,3) date_text_fields [OF d(2-4)] d
      by (auto simp: valid_date_def year_admitted_def calendar_date_def Let_def)
    with d(1) show "\<exists>y m d. s = date_text y m d \<and> calendar_date dialect y m d" by blast
  next
    assume "\<exists>y m d. s = date_text y m d \<and> calendar_date dialect y m d"
    then obtain y m d where d: "s = date_text y m d" "calendar_date dialect y m d" by blast
    moreover have "d < 100" using d(2) by (auto simp: calendar_date_def days_in_def split: if_splits)
    ultimately show "valid_utf8 s \<and> validTemporal s t dialect"
      using assms date_text_fields [of y m d]
      by (auto simp: validTemporal_def valid_date_def year_admitted_def calendar_date_def Let_def split: if_splits)
  qed
  then show ?thesis using assms by (cases v) (auto simp: of_kind_def inhabits_def temporal_kinds_def)
qed

subsection \<open>The types a declaration can give\<close>

definition known_kinds :: "gostring list" where
  "known_kinds = [[], ''integer'', ''decimal'', ''bool'', ''string'', ''uuid'', ''date'', ''time'', ''timestamp'', ''datetime'']"

definition sound_type :: "declared_type \<Rightarrow> bool" where
  "sound_type t \<longleftrightarrow> ty_kind t \<in> set known_kinds \<and> ty_precision t \<le> 1000 \<and> ty_scale t \<le> 1000"

lemma sound_types [simp]:
  "sound_type (unknown_type why)" "sound_type type_unknown" "k \<in> set known_kinds \<Longrightarrow> sound_type (known_type k)"
  "sound_type (t\<lparr>ty_bits := n\<rparr>) = sound_type t" "sound_type (t\<lparr>ty_unsigned := b\<rparr>) = sound_type t" "sound_type (t\<lparr>ty_length := n\<rparr>) = sound_type t"
  "sound_type (t\<lparr>ty_zone := b\<rparr>) = sound_type t" "sound_type (t\<lparr>ty_fraction := n\<rparr>) = sound_type t" "sound_type (t\<lparr>ty_array := b\<rparr>) = sound_type t"
  "sound_type (t\<lparr>ty_missing := why\<rparr>) = sound_type t"
  by (simp_all add: sound_type_def unknown_type_def known_type_def type_unknown_def known_kinds_def)

definition sound_result :: "gostring + declared_type \<Rightarrow> bool" where
  "sound_result r \<longleftrightarrow> (\<forall>t. r = Inr t \<longrightarrow> sound_type t)"

lemma sound_results:
  "sound_type t \<Longrightarrow> sound_result (Inr t)" "sound_result (Inl e)"
  "(b \<Longrightarrow> sound_result x) \<Longrightarrow> (\<not> b \<Longrightarrow> sound_result y) \<Longrightarrow> sound_result (if b then x else y)"
  "sound_result n \<Longrightarrow> (\<And>a. sound_result (f a)) \<Longrightarrow> sound_result (case_option n f u)"
  "(\<And>e. sound_result (g e)) \<Longrightarrow> (\<And>a. sound_result (h a)) \<Longrightarrow> sound_result (case_sum g h r)"
  "(\<And>a b. sound_result (k a b)) \<Longrightarrow> sound_result (case_prod k w)"
  by (auto simp: sound_result_def split: option.splits sum.splits prod.splits)

lemma decimal_type_sound: "sound_result (decimal_type dialect a b suffix)"
  by (auto simp: decimal_type_def sound_result_def sound_type_def known_type_def unknown_type_def type_unknown_def known_kinds_def
      split: option.splits if_splits)

lemma char_type_sound: "sound_result (char_type a b suffix)"
  unfolding char_type_def by (intro sound_results) (simp_all add: known_kinds_def)

lemma temporal_type_sound: "base = ''time'' \<or> base = ''timestamp'' \<or> base = ''datetime'' \<Longrightarrow> sound_result (temporal_type dialect base a b suffix)"
  unfolding temporal_type_def by (intro sound_results) (auto simp: known_kinds_def)

lemma scalar_type_sound: "sound_result (parse_scalar_type dialect s)"
  unfolding parse_scalar_type_def Let_def
  by (intro sound_results decimal_type_sound char_type_sound temporal_type_sound; (assumption | simp add: known_kinds_def))

lemma parse_type_sound: "parse_type ty source dialect = Inr t \<Longrightarrow> sound_type t"
proof -
  have "sound_type (t\<lparr>ty_array := True\<rparr>)" if "parse_scalar_type d s = Inr t" for d s t
    using scalar_type_sound [of d s] that by (simp add: sound_result_def)
  then have array: "sound_result (case parse_scalar_type d s of Inl e \<Rightarrow> Inl e | Inr t \<Rightarrow> Inr (t\<lparr>ty_array := True\<rparr>))" for d s
    by (auto simp: sound_result_def split: sum.splits)
  have "sound_result (parse_type ty source dialect)"
    unfolding parse_type_def Let_def by (intro sound_results(1-3) array scalar_type_sound) simp_all
  then show "parse_type ty source dialect = Inr t \<Longrightarrow> sound_type t" by (simp add: sound_result_def)
qed

lemma kind_inhabits:
  assumes "parse_type ty source dialect = Inr t" "plain_number v"
  shows "of_kind t dialect v \<longleftrightarrow> inhabits t dialect v"
proof (cases "ty_kind t \<in> {''integer'', ''decimal'', ''date''}")
  case True
  have "ty_precision t < 2 ^ 32" "ty_scale t < 2 ^ 32"
    using parse_type_sound [OF assms(1)] by (simp_all add: sound_type_def)
  with True show ?thesis
    using integer_inhabits [of t dialect v] date_inhabits [of t dialect v] decimal_inhabits [of t v dialect] assms(2) by auto
next
  case False
  with parse_type_sound [OF assms(1)] show ?thesis
    by (cases v) (auto simp: sound_type_def known_kinds_def of_kind_def inhabits_def temporal_kinds_def)
qed

section \<open>Properties\<close>

text \<open>
  C39: A value passes the check against a declared type exactly when it is a scalar, the operator applies to the type, the value is
  one of the type's, and it is one of the declared enumeration: an integer is within the width of its type, a decimal has the
  type's digits before and after the point whatever the notation, and a date is one of the calendar.
\<close>

theorem accepted_values_inhabit_type:
  assumes "parse_type ty source dialect = Inr t" "plain_number v"
  shows "validateScalar enums t dialect op v \<longleftrightarrow>
    scalar_value v \<and> operator_applies (ty_kind t) op \<and> inhabits t dialect v \<and> (enums = [] \<or> (\<exists>s. v = VString s \<and> s \<in> set enums))"
  using kind_inhabits [OF assms] by (cases v) (auto simp: validateScalar_def of_enum_def)

text \<open>\<^verbatim>\<open>decimal(5,2)\<close> takes \<^verbatim>\<open>-9.9e2\<close> and not \<^verbatim>\<open>1e3\<close>.\<close>

theorem accepted_values_inhabit_type_witness:
  "\<exists>t. parse_type ''decimal(5,2)'' ''sql'' ''mysql'' = Inr t \<and> inhabits t ''mysql'' (VNumber ''-9.9e2'') \<and>
     \<not> inhabits t ''mysql'' (VNumber ''1e3'')"
proof -
  let ?t = "(known_type ''decimal'')\<lparr>ty_precision := 5, ty_scale := 2\<rparr>"
  have t: "parse_type ''decimal(5,2)'' ''sql'' ''mysql'' = Inr ?t" by code_simp
  have plain: "plain_number (VNumber ''-9.9e2'')" "plain_number (VNumber ''1e3'')" by (simp_all add: plain_number_def json_space_def)
  have "validateScalar [] ?t ''mysql'' ''='' (VNumber ''-9.9e2'')" "\<not> validateScalar [] ?t ''mysql'' ''='' (VNumber ''1e3'')"
    by code_simp+
  moreover have "scalar_value (VNumber s)" "operator_applies ''decimal'' ''=''" for s
    by (simp_all add: scalar_value_def operator_applies_def)
  ultimately show ?thesis
    using accepted_values_inhabit_type [OF t plain(1), of "[]" "''=''"] accepted_values_inhabit_type [OF t plain(2), of "[]" "''=''"] t
    by (auto simp: known_type_def unknown_type_def)
qed

end
