(* ===== verification/InputBudget.thy ===== *)
theory InputBudget
  imports SqlTypes
begin

text \<open>
  The size of an input document (\<^verbatim>\<open>internal/inputjson/budget.go\<close>): bytes of a JSON-like representation, value nodes and
  depth, each bounded, of values of a closed set of types.  The text of a floating-point number is a function of the caller.
\<close>

definition MaxInputBytes :: nat where [go_eval]: "MaxInputBytes = 1048576"
definition MaxInputDepth :: nat where [go_eval]: "MaxInputDepth = 32"
definition MaxInputNodes :: nat where [go_eval]: "MaxInputNodes = 16384"

text \<open>\<^verbatim>\<open>json.Marshal\<close> of a valid text: quotes, two-byte escapes, and six bytes for other control bytes, HTML's and the line separators.\<close>

fun escaped_length :: "gostring \<Rightarrow> nat" where
  "escaped_length [] = 0"
| "escaped_length (c # cs) =
     (if c = CHR 0x22 \<or> c = CHR 0x5C then 2
      else if c \<in> {CHR 0x08, CHR 0x09, CHR 0x0A, CHR 0x0C, CHR 0x0D} then 2
      else if byte c < 32 \<or> c \<in> {CHR ''<'', CHR ''>'', CHR ''&''} then 6
      else if byte c = 226 \<and> (case cs of d # e # _ \<Rightarrow> byte d = 128 \<and> (byte e = 168 \<or> byte e = 169) | _ \<Rightarrow> False) then 4
      else 1) + escaped_length cs"

definition json_text_length :: "gostring \<Rightarrow> nat" where
  [go_eval]: "json_text_length s = escaped_length s + 2"

record size_state =
  sz_bytes :: nat
  sz_nodes :: nat

text \<open>More than the budget leaves; the code equations compute with integers.\<close>

definition over_bytes :: "nat \<Rightarrow> size_state \<Rightarrow> bool" where
  [go_eval]: "over_bytes n s \<longleftrightarrow> n > MaxInputBytes - sz_bytes s"

definition over_nodes :: "nat \<Rightarrow> size_state \<Rightarrow> bool" where
  [go_eval]: "over_nodes n s \<longleftrightarrow> n > MaxInputNodes - sz_nodes s"

definition full_nodes :: "size_state \<Rightarrow> bool" where
  [go_eval]: "full_nodes s \<longleftrightarrow> sz_nodes s > MaxInputNodes"

lemma full_nodes_code [code]: "full_nodes s \<longleftrightarrow> int (sz_nodes s) > 16384"
  by (auto simp: full_nodes_def MaxInputNodes_def)

lemma over_bytes_code [code]: "over_bytes n s \<longleftrightarrow> int n > max 0 (1048576 - int (sz_bytes s))"
  by (auto simp: over_bytes_def MaxInputBytes_def)

lemma over_nodes_code [code]: "over_nodes n s \<longleftrightarrow> int n > max 0 (16384 - int (sz_nodes s))"
  by (auto simp: over_nodes_def MaxInputNodes_def)

lemmas over_defs = over_bytes_def over_nodes_def full_nodes_def

definition add_bytes :: "nat \<Rightarrow> size_state \<Rightarrow> size_state option" where
  [go_eval]: "add_bytes n s = (if over_bytes n s then None else Some (s\<lparr>sz_bytes := sz_bytes s + n\<rparr>))"

definition add_text :: "gostring \<Rightarrow> size_state \<Rightarrow> size_state option" where
  [go_eval]: "add_text t s =
     (if \<not> valid_utf8 t \<or> over_bytes (length t) s then None else add_bytes (json_text_length t) s)"

definition sized_scalars :: "scalar_type list" where
  [go_eval]: "sized_scalars =
     [SBool, SString, SInt, SInt8, SInt16, SInt32, SInt64, SUint, SUint16, SUint32, SUint64, SFloat32, SFloat64]"

text \<open>Entering a value: one node more, at most 32 levels deep.\<close>

definition enter :: "nat \<Rightarrow> size_state \<Rightarrow> size_state option" where
  [go_eval]: "enter depth s =
     (let s' = s\<lparr>sz_nodes := sz_nodes s + 1\<rparr> in if full_nodes s' \<or> depth > MaxInputDepth then None else Some s')"

definition and_then :: "size_state option \<Rightarrow> (size_state \<Rightarrow> size_state option) \<Rightarrow> size_state option" where
  [go_eval]: "and_then r f = (case r of None \<Rightarrow> None | Some s \<Rightarrow> f s)"

definition number_fits :: "gostring \<Rightarrow> size_state \<Rightarrow> size_state option" where
  [go_eval]: "number_fits t s =
     (if t = [] \<or> over_bytes (length t) s \<or> \<not> json_number t then None else add_bytes (length t) s)"

fun walk_bytes :: "gostring \<Rightarrow> bool \<Rightarrow> nat \<Rightarrow> size_state \<Rightarrow> size_state option" where
  "walk_bytes [] comma depth s = Some s"
| "walk_bytes (c # cs) comma depth s =
     and_then (if comma then add_bytes 1 s else Some s) (\<lambda>s.
       and_then (and_then (enter depth s) (add_bytes (length (nat_str (byte c))))) (walk_bytes cs True depth))"

text \<open>The values that hold no others.\<close>

definition leaf_size :: "(goval \<Rightarrow> gostring option) \<Rightarrow> goval \<Rightarrow> nat \<Rightarrow> size_state \<Rightarrow> size_state option" where
  [go_eval]: "leaf_size float_text v depth s =
     (case v of
         VNil \<Rightarrow> add_bytes 4 s
       | VBool b \<Rightarrow> add_bytes (if b then 4 else 5) s
       | VString t \<Rightarrow> add_text t s
       | VNumber t \<Rightarrow> number_fits t s
       | VFloat32 w \<Rightarrow> (case float_text v of None \<Rightarrow> None | Some t \<Rightarrow> add_bytes (length t) s)
       | VFloat64 w \<Rightarrow> (case float_text v of None \<Rightarrow> None | Some t \<Rightarrow> add_bytes (length t) s)
       | VBytes None \<Rightarrow> add_bytes 4 s
       | VBytes (Some bs) \<Rightarrow>
           if over_nodes (length bs) s then None else and_then (add_bytes 2 s) (walk_bytes bs False (depth + 1))
       | VMap m \<Rightarrow> add_bytes 4 s
       | VList xs \<Rightarrow> add_bytes 4 s
       | VScalars t xs \<Rightarrow> if t \<in> set sized_scalars then add_bytes 4 s else None
       | _ \<Rightarrow> (case int_of_goval v of None \<Rightarrow> None | Some n \<Rightarrow> add_bytes (length (int_str n)) s))"

definition open_list :: "nat \<Rightarrow> nat \<Rightarrow> size_state \<Rightarrow> size_state option" where
  [go_eval]: "open_list n depth s =
     and_then (enter depth s) (\<lambda>s. if over_nodes n s then None else add_bytes 2 s)"

fun walk_size :: "(goval \<Rightarrow> gostring option) \<Rightarrow> goval \<Rightarrow> nat \<Rightarrow> size_state \<Rightarrow> size_state option"
and walk_items :: "(goval \<Rightarrow> gostring option) \<Rightarrow> goval list \<Rightarrow> bool \<Rightarrow> nat \<Rightarrow> size_state \<Rightarrow> size_state option"
and walk_fields :: "(goval \<Rightarrow> gostring option) \<Rightarrow> (gostring \<times> goval) list \<Rightarrow> gostring list \<Rightarrow> nat \<Rightarrow> size_state \<Rightarrow> size_state option" where
  "walk_size float_text (VMap (Some m)) depth s =
     (case open_list (length m) depth s of None \<Rightarrow> None | Some s1 \<Rightarrow> walk_fields float_text m [] (depth + 1) s1)"
| "walk_size float_text (VList (Some xs)) depth s =
     (case open_list (length xs) depth s of None \<Rightarrow> None | Some s1 \<Rightarrow> walk_items float_text xs False (depth + 1) s1)"
| "walk_size float_text (VScalars t (Some xs)) depth s =
     (if t \<notin> set sized_scalars then None
      else case open_list (length xs) depth s of None \<Rightarrow> None | Some s1 \<Rightarrow> walk_items float_text xs False (depth + 1) s1)"
| "walk_size float_text v depth s = (case enter depth s of None \<Rightarrow> None | Some s1 \<Rightarrow> leaf_size float_text v depth s1)"
| "walk_items float_text [] comma depth s = Some s"
| "walk_items float_text (v # vs) comma depth s =
     (case (if comma then add_bytes 1 s else Some s) of
        None \<Rightarrow> None
      | Some s1 \<Rightarrow>
          (case walk_size float_text v depth s1 of None \<Rightarrow> None | Some s2 \<Rightarrow> walk_items float_text vs True depth s2))"
| "walk_fields float_text [] seen depth s = Some s"
| "walk_fields float_text ((k, v) # kvs) seen depth s =
     (if to_lower k \<in> set seen then None
      else case and_then (if seen \<noteq> [] then add_bytes 1 s else Some s) (\<lambda>s. and_then (add_text k s) (add_bytes 1)) of
          None \<Rightarrow> None
        | Some s1 \<Rightarrow>
            (case walk_size float_text v depth s1 of
               None \<Rightarrow> None
             | Some s2 \<Rightarrow> walk_fields float_text kvs (to_lower k # seen) depth s2))"

definition input_size :: "(goval \<Rightarrow> gostring option) \<Rightarrow> goval \<Rightarrow> nat option" where
  [go_eval]: "input_size float_text v = map_option sz_bytes (walk_size float_text v 0 \<lparr>sz_bytes = 0, sz_nodes = 0\<rparr>)"

section \<open>The bounds hold\<close>

definition in_budget :: "size_state \<Rightarrow> bool" where
  "in_budget s \<longleftrightarrow> sz_bytes s \<le> MaxInputBytes \<and> sz_nodes s \<le> MaxInputNodes"

definition bounded_step :: "(size_state \<Rightarrow> size_state option) \<Rightarrow> bool" where
  "bounded_step f \<longleftrightarrow> (\<forall>s s'. in_budget s \<longrightarrow> f s = Some s' \<longrightarrow> in_budget s' \<and> sz_bytes s \<le> sz_bytes s' \<and> sz_nodes s \<le> sz_nodes s')"

named_theorems bounded

lemma bounded_stepD: "bounded_step f \<Longrightarrow> in_budget s \<Longrightarrow> f s = Some s' \<Longrightarrow> in_budget s' \<and> sz_bytes s \<le> sz_bytes s' \<and> sz_nodes s \<le> sz_nodes s'"
  by (simp add: bounded_step_def)

lemma bounded_add [bounded]: "bounded_step (add_bytes n)"
  by (auto simp: bounded_step_def add_bytes_def over_defs in_budget_def split: if_splits)

lemma bounded_same [bounded]: "bounded_step Some" "bounded_step (\<lambda>s. None)"
  by (simp_all add: bounded_step_def)

lemma bounded_text [bounded]: "bounded_step (add_text t)"
  using bounded_add by (auto simp: bounded_step_def add_text_def split: if_splits)

lemma bounded_number [bounded]: "bounded_step (number_fits t)"
  using bounded_add by (auto simp: bounded_step_def number_fits_def split: if_splits)

lemma bounded_enter [bounded]: "bounded_step (enter depth)"
  by (auto simp: bounded_step_def enter_def over_defs in_budget_def Let_def split: if_splits)

lemma bounded_then [bounded]: "bounded_step f \<Longrightarrow> bounded_step g \<Longrightarrow> bounded_step (\<lambda>s. case f s of None \<Rightarrow> None | Some s1 \<Rightarrow> g s1)"
proof (unfold bounded_step_def, intro allI impI)
  fix s s'
  assume f: "\<forall>s s'. in_budget s \<longrightarrow> f s = Some s' \<longrightarrow> in_budget s' \<and> sz_bytes s \<le> sz_bytes s' \<and> sz_nodes s \<le> sz_nodes s'"
    and g: "\<forall>s s'. in_budget s \<longrightarrow> g s = Some s' \<longrightarrow> in_budget s' \<and> sz_bytes s \<le> sz_bytes s' \<and> sz_nodes s \<le> sz_nodes s'"
    and s: "in_budget s" "(case f s of None \<Rightarrow> None | Some s1 \<Rightarrow> g s1) = Some s'"
  from s(2) obtain s1 where s1: "f s = Some s1" "g s1 = Some s'" by (auto split: option.splits)
  from f s(1) s1(1) have m: "in_budget s1 \<and> sz_bytes s \<le> sz_bytes s1 \<and> sz_nodes s \<le> sz_nodes s1" by blast
  with g s1(2) have "in_budget s' \<and> sz_bytes s1 \<le> sz_bytes s' \<and> sz_nodes s1 \<le> sz_nodes s'" by blast
  with m show "in_budget s' \<and> sz_bytes s \<le> sz_bytes s' \<and> sz_nodes s \<le> sz_nodes s'" by linarith
qed

lemma bounded_and_then [bounded]: "bounded_step f \<Longrightarrow> bounded_step g \<Longrightarrow> bounded_step (\<lambda>s. and_then (f s) g)"
  unfolding and_then_def by (rule bounded_then)

lemma bounded_if [bounded]: "bounded_step f \<Longrightarrow> bounded_step g \<Longrightarrow> bounded_step (\<lambda>s. if b s then f s else g s)"
proof -
  assume f: "bounded_step f" and g: "bounded_step g"
  have "in_budget s' \<and> sz_bytes s \<le> sz_bytes s' \<and> sz_nodes s \<le> sz_nodes s'"
    if "in_budget s" "(if b s then f s else g s) = Some s'" for s s'
    using that bounded_stepD [OF f, of s s'] bounded_stepD [OF g, of s s'] by (cases "b s") simp_all
  then show ?thesis unfolding bounded_step_def by blast
qed

lemma bounded_const_if [bounded]: "bounded_step f \<Longrightarrow> bounded_step g \<Longrightarrow> bounded_step (if b then f else g)"
  by simp

lemma bounded_open [bounded]: "bounded_step (open_list n depth)"
  unfolding open_list_def by (intro bounded)

lemma bounded_bytes [bounded]: "bounded_step (walk_bytes bs comma depth)"
proof (induction bs arbitrary: comma)
  case Nil
  have "walk_bytes [] comma depth = Some" by (rule ext) simp
  then show ?case by (simp add: bounded)
next
  case (Cons c bs)
  have "walk_bytes (c # bs) comma depth = (\<lambda>s. and_then (if comma then add_bytes 1 s else Some s) (\<lambda>s.
      and_then (and_then (enter depth s) (add_bytes (length (nat_str (byte c))))) (walk_bytes bs True depth)))"
    by (rule ext) simp
  moreover have "bounded_step (\<lambda>s. and_then (if comma then add_bytes 1 s else Some s) (\<lambda>s.
      and_then (and_then (enter depth s) (add_bytes (length (nat_str (byte c))))) (walk_bytes bs True depth)))"
    by (intro bounded Cons.IH)
  ultimately show ?case by simp
qed

lemma bounded_leaf [bounded]: "bounded_step (leaf_size float_text v depth)"
proof (cases v)
  case (VBytes bs)
  have "bounded_step (\<lambda>s. if over_nodes (length b) s then None else and_then (add_bytes 2 s) (walk_bytes b False (depth + 1)))" for b
    by (intro bounded)
  then show ?thesis by (cases bs) (simp_all add: VBytes leaf_size_def [abs_def] bounded)
next
  case (VFloat32 w)
  then show ?thesis by (cases "float_text v") (simp_all add: leaf_size_def [abs_def] bounded)
next
  case (VFloat64 w)
  then show ?thesis by (cases "float_text v") (simp_all add: leaf_size_def [abs_def] bounded)
qed (simp_all add: leaf_size_def [abs_def] bounded)

lemma leaf_walk_bounded:
  assumes "in_budget s" "(case enter depth s of None \<Rightarrow> None | Some s1 \<Rightarrow> leaf_size float_text v depth s1) = Some s'"
  shows "in_budget s' \<and> sz_bytes s \<le> sz_bytes s' \<and> sz_nodes s \<le> sz_nodes s'"
  using bounded_stepD [OF bounded_then [OF bounded_enter bounded_leaf] assms] .

lemma walk_bounded:
  "in_budget s \<Longrightarrow> walk_size float_text v depth s = Some s' \<Longrightarrow> in_budget s' \<and> sz_bytes s \<le> sz_bytes s' \<and> sz_nodes s \<le> sz_nodes s'"
  "in_budget s \<Longrightarrow> walk_items float_text vs comma depth s = Some s' \<Longrightarrow> in_budget s' \<and> sz_bytes s \<le> sz_bytes s' \<and> sz_nodes s \<le> sz_nodes s'"
  "in_budget s \<Longrightarrow> walk_fields float_text kvs seen depth s = Some s' \<Longrightarrow> in_budget s' \<and> sz_bytes s \<le> sz_bytes s' \<and> sz_nodes s \<le> sz_nodes s'"
proof (induction float_text v depth s and float_text vs comma depth s and float_text kvs seen depth s arbitrary: s' and s' and s'
    rule: walk_size_walk_items_walk_fields.induct)
  case (1 float_text m depth s)
  then obtain s1 where "open_list (length m) depth s = Some s1" "walk_fields float_text m [] (depth + 1) s1 = Some s'"
    by (auto split: option.splits)
  with 1 bounded_stepD [OF bounded_open] show ?case by (meson order_trans)
next
  case (2 float_text xs depth s)
  then obtain s1 where "open_list (length xs) depth s = Some s1" "walk_items float_text xs False (depth + 1) s1 = Some s'"
    by (auto split: option.splits)
  with 2 bounded_stepD [OF bounded_open] show ?case by (meson order_trans)
next
  case (3 float_text t xs depth s)
  then obtain s1 where "t \<in> set sized_scalars" "open_list (length xs) depth s = Some s1" "walk_items float_text xs False (depth + 1) s1 = Some s'"
    by (auto split: option.splits if_splits)
  with 3 bounded_stepD [OF bounded_open] show ?case by (meson order_trans)
next
  fix float_text v vs comma depth s s'
  assume IH: "\<And>x2 s'. (if comma then add_bytes 1 s else Some s) = Some x2 \<Longrightarrow> in_budget x2 \<Longrightarrow> walk_size float_text v depth x2 = Some s' \<Longrightarrow>
      in_budget s' \<and> sz_bytes x2 \<le> sz_bytes s' \<and> sz_nodes x2 \<le> sz_nodes s'"
    and IHs: "\<And>x2 x2a s'. (if comma then add_bytes 1 s else Some s) = Some x2 \<Longrightarrow> walk_size float_text v depth x2 = Some x2a \<Longrightarrow>
      in_budget x2a \<Longrightarrow> walk_items float_text vs True depth x2a = Some s' \<Longrightarrow>
      in_budget s' \<and> sz_bytes x2a \<le> sz_bytes s' \<and> sz_nodes x2a \<le> sz_nodes s'"
    and s: "in_budget s" "walk_items float_text (v # vs) comma depth s = Some s'"
  from s(2) obtain s1 s2 where w: "(if comma then add_bytes 1 s else Some s) = Some s1" "walk_size float_text v depth s1 = Some s2"
    "walk_items float_text vs True depth s2 = Some s'"
    by (auto split: option.splits simp del: if_split)
  have "bounded_step (\<lambda>s. if comma then add_bytes 1 s else Some s)" by (intro bounded)
  from bounded_stepD [OF this s(1) w(1)] IH [OF w(1) _ w(2)] IHs [OF w(1,2) _ w(3)]
  show "in_budget s' \<and> sz_bytes s \<le> sz_bytes s' \<and> sz_nodes s \<le> sz_nodes s'" by linarith
next
  fix float_text and k :: gostring and v kvs and seen :: "gostring list" and depth s s'
  let ?f = "\<lambda>s. and_then (if seen \<noteq> [] then add_bytes 1 s else Some s) (\<lambda>s. and_then (add_text k s) (add_bytes 1))"
  assume IH: "\<And>x2 s'. to_lower k \<notin> set seen \<Longrightarrow> ?f s = Some x2 \<Longrightarrow> in_budget x2 \<Longrightarrow> walk_size float_text v depth x2 = Some s' \<Longrightarrow>
      in_budget s' \<and> sz_bytes x2 \<le> sz_bytes s' \<and> sz_nodes x2 \<le> sz_nodes s'"
    and IHs: "\<And>x2 x2a s'. to_lower k \<notin> set seen \<Longrightarrow> ?f s = Some x2 \<Longrightarrow> walk_size float_text v depth x2 = Some x2a \<Longrightarrow>
      in_budget x2a \<Longrightarrow> walk_fields float_text kvs (to_lower k # seen) depth x2a = Some s' \<Longrightarrow>
      in_budget s' \<and> sz_bytes x2a \<le> sz_bytes s' \<and> sz_nodes x2a \<le> sz_nodes s'"
    and s: "in_budget s" "walk_fields float_text ((k, v) # kvs) seen depth s = Some s'"
  from s(2) obtain s1 s2 where w: "to_lower k \<notin> set seen" "?f s = Some s1" "walk_size float_text v depth s1 = Some s2"
    "walk_fields float_text kvs (to_lower k # seen) depth s2 = Some s'"
    by (simp only: walk_fields.simps) (auto split: option.splits if_splits)
  have "bounded_step ?f" by (intro bounded)
  from bounded_stepD [OF this s(1) w(2)] IH [OF w(1,2) _ w(3)] IHs [OF w(1-3) _ w(4)]
  show "in_budget s' \<and> sz_bytes s \<le> sz_bytes s' \<and> sz_nodes s \<le> sz_nodes s'" by linarith
qed (simp_all add: leaf_walk_bounded del: option.case)

text \<open>An input that is admitted has at most 1 MiB and 16384 nodes.\<close>

lemma input_size_bounded: "input_size float_text v = Some n \<Longrightarrow> n \<le> MaxInputBytes"
  using walk_bounded(1) [of "\<lparr>sz_bytes = 0, sz_nodes = 0\<rparr>" float_text v 0] by (auto simp: input_size_def in_budget_def)

end
