(* ===== verification/SelectPlan.thy ===== *)
theory SelectPlan
  imports PolicyBuilder
begin

text \<open>
  From a query to its plan: building the statement of a select builder (\<^verbatim>\<open>internal/query/selectbuilder.go\<close>), the snapshot of
  that build (\<^verbatim>\<open>api/state.go\<close>), and the plan of a query (\<^verbatim>\<open>orm/query/plan.go\<close>).  The renderer's state is the
  placeholder counter and the columns already selected, which a builder keeps from one build to the next.
\<close>

section \<open>Building the statement\<close>

text \<open>The unions' queries and then the builder's own, each told its number; the trees are the last one's, counted from the statement's first value.\<close>

fun build_queries ::
  "'p sql_utils \<Rightarrow> (goval \<Rightarrow> gostring) \<Rightarrow> (query \<times> bool) list \<Rightarrow> nat \<Rightarrow> nat \<Rightarrow> (query \<times> bool) list \<Rightarrow>
     ('p rstate, goval list \<times> pnode option \<times> pnode option) renderer" where
  "build_queries u json queries i before_values [] = ret ([], None, None)"
| "build_queries u json queries i before_values (q # qs) =
     andThen (Build build_fuel u json (fst q) i (Some queries)) (\<lambda>(vals, w, h).
       if qs = [] then
         ret (vals, map_option (Shift (int before_values)) w, map_option (Shift (int before_values)) h)
       else andThen (build_queries u json queries (i + 1) (before_values + length vals) qs) (\<lambda>(vals', w', h'). ret (vals @ vals', w', h')))"

record 'p select_renderer =
  sr_builder :: select_builder
  sr_state :: "'p rstate"

definition BuildSelect ::
  "'p sql_utils \<Rightarrow> 'p \<Rightarrow> (goval \<Rightarrow> gostring) \<Rightarrow> 'p select_renderer \<Rightarrow>
     (render_error + gostring \<times> goval list option \<times> query \<times> pnode option \<times> pnode option) \<times> 'p select_renderer" where
  [go_eval]: "BuildSelect u zero json r =
     (case GetQuery (sr_builder r) of (q, b) \<Rightarrow>
        let queries = Unions q @ [(q, False)]; r = r\<lparr>sr_builder := b, sr_state := (sr_state r)\<lparr>r_ph := zero\<rparr>\<rparr>
        in case check_all (ValidateQuery (Some q) # map (\<lambda>w. ValidateQuery (Some (fst w))) (Unions q)) of
             Some e \<Rightarrow> (Inl (PredicateFailure e), r)
           | None \<Rightarrow>
               (case build_queries u json queries 0 0 queries (sr_state r) of
                  Fail e t s \<Rightarrow> (Inl e, r\<lparr>sr_state := s\<rparr>)
                | Done t (vals, w, h) s \<Rightarrow> (Inr (t, fst (Slice new_copier (Some vals)), q, w, h), r\<lparr>sr_state := s\<rparr>)))"

definition BuildSnapshot ::
  "'p sql_utils \<Rightarrow> 'p \<Rightarrow> (goval \<Rightarrow> gostring) \<Rightarrow> 'p select_renderer \<Rightarrow>
     (render_error + gostring \<times> goval list option \<times> query_snapshot) \<times> 'p select_renderer" where
  [go_eval]: "BuildSnapshot u zero json r =
     (case BuildSelect u zero json r of
        (Inl e, r') \<Rightarrow> (Inl e, r')
      | (Inr (t, vals, q, w, h), r') \<Rightarrow> (Inr (t, vals, snapshotFromQuery q w h), r'))"

section \<open>Planning\<close>

datatype plan_error = QueryRecorded gostring | PolicyRefused policy_error | NotRendered render_error

text \<open>Whether the plan is made from a copy of the builder, which has selected nothing yet.\<close>

definition plans_a_copy :: "query_state \<Rightarrow> bool" where
  [go_eval]: "plans_a_copy q \<longleftrightarrow>
     st_strict (qs_settings q) \<or>
     (case qs_policy q of None \<Rightarrow> False | Some p \<Rightarrow> pol_SoftDeleteColumn p \<noteq> [] \<and> \<not> qs_withDeleted q)"

definition planSelectBuilder ::
  "'p sql_utils \<Rightarrow> 'p \<Rightarrow> (goval \<Rightarrow> gostring) \<Rightarrow> query_state \<Rightarrow> 'p select_renderer \<Rightarrow> int \<Rightarrow>
     (plan_error + query_plan \<times> planned_execution) \<times> 'p select_renderer" where
  [go_eval]: "planSelectBuilder u zero json q r now =
     (case qs_err q of
        Some e \<Rightarrow> (Inl (QueryRecorded e), r)
      | None \<Rightarrow>
          (case policyBuilder q (sr_builder r) of
             (Inl e, src) \<Rightarrow> (Inl (PolicyRefused e), r\<lparr>sr_builder := src\<rparr>)
           | (Inr b, src) \<Rightarrow>
               (case BuildSnapshot u zero json
                   \<lparr>sr_builder = b, sr_state = (if plans_a_copy q then \<lparr>r_ph = zero, r_cols = []\<rparr> else sr_state r)\<rparr> of (built, r') \<Rightarrow>
                  (case built of
                     Inl e \<Rightarrow> Inl (NotRendered e)
                   | Inr (t, args, sn) \<Rightarrow> Inr (finalizePlan q (appendSelectSnapshotMetadata (newQueryPlan OperationSelect t args) sn) now),
                   if plans_a_copy q then r\<lparr>sr_builder := src\<rparr> else r'))))"

definition FPlan ::
  "'p sql_utils \<Rightarrow> 'p \<Rightarrow> (goval \<Rightarrow> gostring) \<Rightarrow> facade \<Rightarrow> 'p rstate \<Rightarrow> int \<Rightarrow> (plan_error + query_plan \<times> planned_execution) \<times> facade \<times> 'p rstate" where
  [go_eval]: "FPlan u zero json q s now =
     (case planSelectBuilder u zero json (fq_state q) \<lparr>sr_builder = fq_builder q, sr_state = s\<rparr> now of (p, r) \<Rightarrow>
        (p, q\<lparr>fq_builder := sr_builder r\<rparr>, sr_state r))"

section \<open>Lemmas\<close>

lemma policyBuilder_same: "\<not> plans_a_copy q \<Longrightarrow> policyBuilder q src = (Inr src, src)"
  by (auto simp: plans_a_copy_def policyBuilder_def split: option.splits)

lemma recorded_error_refuses_plan: "fq_err q = Some e \<Longrightarrow> fst (FPlan u zero json q s now) = Inl (QueryRecorded e)"
  by (simp add: FPlan_def planSelectBuilder_def)

text \<open>The plan holds the text that was rendered, and the execution that is sealed sends that text.\<close>

lemma plan_is_the_rendered_text:
  assumes "fst (planSelectBuilder u zero json q r now) = Inr (p, e)"
  obtains b src t args sn r' where "policyBuilder q (sr_builder r) = (Inr b, src)"
    and "BuildSnapshot u zero json \<lparr>sr_builder = b, sr_state = (if plans_a_copy q then \<lparr>r_ph = zero, r_cols = []\<rparr> else sr_state r)\<rparr> =
      (Inr (t, args, sn), r')"
    and "(p, e) = finalizePlan q (appendSelectSnapshotMetadata (newQueryPlan OperationSelect t args) sn) now"
proof -
  obtain w src where w: "policyBuilder q (sr_builder r) = (w, src)" by fastforce
  with assms obtain b where b: "w = Inr b" by (cases w) (auto simp: planSelectBuilder_def split: option.splits)
  obtain x r' where x: "BuildSnapshot u zero json
      \<lparr>sr_builder = b, sr_state = (if plans_a_copy q then \<lparr>r_ph = zero, r_cols = []\<rparr> else sr_state r)\<rparr> = (x, r')" by fastforce
  with assms w b obtain y where "x = Inr y" by (cases x) (auto simp: planSelectBuilder_def split: option.splits)
  moreover obtain t args sn where "y = (t, args, sn)" by (metis prod_cases3)
  ultimately show thesis using that [of b src t args sn r'] w b x assms
    by (auto simp: planSelectBuilder_def split: option.splits)
qed

end
