(* ===== verification/OperationSpec.thy ===== *)
theory OperationSpec
  imports SelectPlan SqlTypes InputBudget
begin

text \<open>
  Operation documents (\<^verbatim>\<open>orm/operation/spec.go\<close>, \<^verbatim>\<open>typed_validate.go\<close>, \<^verbatim>\<open>input.go\<close>): a structured request to read
  from a declared table, checked against the manifest and the settings and then compiled to a query through the fluent builder.
  The record of diagnostics, which is for display, is not part of the model; an error is the reason the code returns.
\<close>

section \<open>The manifest\<close>

record manifest_column =
  mc_Name :: gostring
  mc_Type :: gostring
  mc_TypeSource :: gostring
  mc_Nullable :: bool
  mc_NullableKnown :: bool
  mc_EnumValues :: "gostring list"
  mc_PII :: bool
  mc_Forbidden :: bool
  mc_TenantScope :: bool
  mc_SoftDelete :: bool
  mc_RequiredFilter :: bool

record manifest_policy =
  mp_Type :: gostring
  mp_Column :: gostring
  mp_Mode :: gostring

record manifest_table =
  mt_Name :: gostring
  mt_Model :: gostring
  mt_Columns :: "manifest_column list"
  mt_Policies :: "manifest_policy list"

text \<open>Of the verification only whether it found the manifest fresh.\<close>

record manifest =
  mf_Version :: gostring
  mf_Dialect :: gostring
  mf_Tables :: "manifest_table list"
  mf_Fresh :: "bool option"

section \<open>The document\<close>

record filter_spec =
  fs_Field :: gostring
  fs_Op :: gostring
  fs_Value :: goval
  fs_ValueRef :: gostring
  fs_ValuePresent :: bool
  fs_refPresent :: bool

record order_spec =
  os_Field :: gostring
  os_Direction :: gostring

record operation_spec =
  sp_sourceBytes :: nat
  sp_Version :: int
  sp_Operation :: gostring
  sp_Model :: gostring
  sp_Select :: "gostring list option"
  sp_Filters :: "filter_spec list option"
  sp_OrderBy :: "order_spec list option"
  sp_Limit :: "int option"
  sp_AccessReason :: gostring

record operation_options =
  oo_Settings :: settings
  oo_Manifest :: "manifest option"
  oo_Dialect :: "driver_dialect option"
  oo_Values :: "(gostring \<times> goval) list option"
  oo_RequireFreshManifest :: bool
  oo_AccessReason :: gostring

datatype operation_error =
    InputLimit | VersionUnsupported | ManifestRequired | InvalidManifest | SettingsInvalid gostring | UnsupportedOperation
  | ModelRequired | UnknownModel | SelectRequired | StaleManifest | UnknownField | ForbiddenField | AccessReasonRequired
  | InvalidFilter | InvalidOrder | RequiredFilterMissing | ReservedBinding | ValueRefMissing | TypeUnverified | ArrayBinding
  | TypeMismatch | PlannerRefused plan_error | PlanBlocked

section \<open>Names, operators and directions\<close>

definition normalizeName :: "gostring \<Rightarrow> gostring" where
  [go_eval]: "normalizeName s0 =
     (let s = trim_set {backtick, dquote} (trim_space s0)
      in to_lower (case last_index s CHR ''.'' of None \<Rightarrow> s | Some i \<Rightarrow> drop (i + 1) s))"

definition filter_op_names :: "(gostring \<times> gostring) list" where
  [go_eval]: "filter_op_names =
     [([], ''=''), (''eq'', ''=''), (''ne'', ''!=''), (''gt'', ''>''), (''gte'', ''>=''), (''lt'', ''<''), (''lte'', ''<='')]"

definition normalizeFilterOp :: "gostring \<Rightarrow> gostring" where
  [go_eval]: "normalizeFilterOp op =
     (let t = to_lower (trim_space op) in case map_of filter_op_names t of None \<Rightarrow> t | Some u \<Rightarrow> u)"

definition supportedFilterOp :: "gostring \<Rightarrow> bool" where
  [go_eval]: "supportedFilterOp op \<longleftrightarrow>
     normalizeFilterOp op \<in> set [''='', ''!='', ''<>'', ''>'', ''>='', ''<'', ''<='', ''like'', ''in'', ''is_null'', ''is_not_null'']"

definition normalizeDirection :: "gostring \<Rightarrow> gostring" where
  [go_eval]: "normalizeDirection d = (let t = to_lower (trim_space d) in if t = [] then ''asc'' else t)"

definition null_op :: "gostring \<Rightarrow> bool" where
  [go_eval]: "null_op op \<longleftrightarrow> op = ''is_null'' \<or> op = ''is_not_null''"

definition accessReason :: "operation_spec \<Rightarrow> operation_options \<Rightarrow> gostring" where
  [go_eval]: "accessReason sp opts =
     (if trim_space (sp_AccessReason sp) \<noteq> [] then trim_space (sp_AccessReason sp) else trim_space (oo_AccessReason opts))"

definition hasValue :: "filter_spec \<Rightarrow> bool" where
  [go_eval]: "hasValue f \<longleftrightarrow> fs_ValuePresent f \<or> fs_Value f \<noteq> VNil"

definition hasRef :: "filter_spec \<Rightarrow> bool" where
  [go_eval]: "hasRef f \<longleftrightarrow> fs_refPresent f \<or> fs_ValueRef f \<noteq> []"

section \<open>Tables and columns\<close>

definition findTable :: "manifest \<Rightarrow> gostring \<Rightarrow> manifest_table option" where
  [go_eval]: "findTable m model =
     find_first (\<lambda>t. normalizeName (mt_Model t) = normalizeName model \<or> normalizeName (mt_Name t) = normalizeName model) (mf_Tables m)"

text \<open>The last column of a name.\<close>

definition columnMap :: "manifest_table \<Rightarrow> gostring \<Rightarrow> manifest_column option" where
  [go_eval]: "columnMap t name = find_first (\<lambda>c. normalizeName (mc_Name c) = name) (rev (mt_Columns t))"

definition invalid_field_bytes :: "char list" where
  [go_eval]: "invalid_field_bytes = ''()* ''"

definition validateField :: "manifest_table \<Rightarrow> gostring \<Rightarrow> operation_error + manifest_column" where
  [go_eval]: "validateField t field0 =
     (let field = trim_space field0
      in if field = [] \<or> list_ex (\<lambda>c. c \<in> set invalid_field_bytes) field then Inl UnknownField
         else case columnMap t (normalizeName field) of
             None \<Rightarrow> Inl UnknownField
           | Some c \<Rightarrow> if mc_Forbidden c then Inl ForbiddenField else Inr c)"

fun names_unique :: "gostring list \<Rightarrow> gostring list \<Rightarrow> bool" where
  "names_unique seen [] = True"
| "names_unique seen (n # ns) =
     (\<not> (normalizeName n = [] \<or> normalizeName n \<in> set seen) \<and> names_unique (normalizeName n # seen) ns)"

definition manifest_version :: gostring where
  [go_eval]: "manifest_version = ''1''"

definition checkManifestDeclarations :: "manifest \<Rightarrow> bool" where
  [go_eval]: "checkManifestDeclarations m \<longleftrightarrow>
     mf_Version m = manifest_version \<and> names_unique [] (map mt_Name (mf_Tables m)) \<and>
     list_all (\<lambda>t. names_unique [] (map mc_Name (mt_Columns t)) \<and>
       list_all (\<lambda>c. mc_TypeSource c \<in> {[], ''sql'', ''go''}) (mt_Columns t)) (mf_Tables m)"

text \<open>The columns a filter is required on, by name; a policy entry replaces a column's own declaration.\<close>

definition put_required :: "gostring \<times> gostring \<Rightarrow> (gostring \<times> gostring \<times> gostring) list \<Rightarrow> (gostring \<times> gostring \<times> gostring) list" where
  [go_eval]: "put_required e l = (normalizeName (fst e), e) # filter (\<lambda>x. fst x \<noteq> normalizeName (fst e)) l"

definition requiredFilterColumns :: "manifest_table \<Rightarrow> (gostring \<times> gostring) list" where
  [go_eval]: "requiredFilterColumns t =
     (let declared = map (\<lambda>c. (mc_Name c, PolicyModeEnforce)) (filter (\<lambda>c. mc_RequiredFilter c \<or> mc_TenantScope c) (mt_Columns t));
          policies = map (\<lambda>p. (mp_Column p, if mp_Mode p = [] then PolicyModeEnforce else mp_Mode p))
            (filter (\<lambda>p. mp_Type p = ''tenant_scope'' \<or> mp_Type p = ''required_filter'') (mt_Policies t))
      in sort_key fst (map snd (foldl (\<lambda>l e. put_required e l) [] (declared @ policies))))"

definition tableSoftDeleteColumn :: "manifest_table \<Rightarrow> gostring" where
  [go_eval]: "tableSoftDeleteColumn t =
     (case find_first (\<lambda>p. mp_Type p = ''soft_delete'' \<and> trim_space (mp_Column p) \<noteq> []) (mt_Policies t) of
        Some p \<Rightarrow> mp_Column p
      | None \<Rightarrow> (case find_first mc_SoftDelete (mt_Columns t) of Some c \<Rightarrow> mc_Name c | None \<Rightarrow> []))"

definition specHasFilter :: "operation_spec \<Rightarrow> gostring \<Rightarrow> bool" where
  [go_eval]: "specHasFilter sp field = list_ex (\<lambda>f. normalizeName (fs_Field f) = normalizeName field) (items (sp_Filters sp))"

section \<open>The input's size\<close>

definition field :: "gostring \<Rightarrow> gostring \<Rightarrow> (gostring \<times> goval) list" where
  [go_eval]: "field k t = [(k, VString t)]"

definition filter_document :: "filter_spec \<Rightarrow> goval" where
  [go_eval]: "filter_document f =
     VMap (Some (field ''field'' (fs_Field f) @ field ''op'' (fs_Op f) @
       (if hasValue f then [(''value'', fs_Value f)] else []) @ (if hasRef f then field ''value_ref'' (fs_ValueRef f) else [])))"

definition spec_document :: "operation_spec \<Rightarrow> goval" where
  [go_eval]: "spec_document sp =
     VMap (Some ([(''version'', VInt (word_of_int (sp_Version sp)))] @ field ''operation'' (sp_Operation sp) @ field ''model'' (sp_Model sp) @
       (case sp_Select sp of None \<Rightarrow> [] | Some l \<Rightarrow> [(''select'', VScalars SString (Some (map VString l)))]) @
       (case sp_Filters sp of None \<Rightarrow> [] | Some l \<Rightarrow> [(''filters'', VList (Some (map filter_document l)))]) @
       (case sp_OrderBy sp of None \<Rightarrow> []
         | Some l \<Rightarrow> [(''order_by'', VList (Some (map (\<lambda>r. VMap (Some (field ''field'' (os_Field r) @ field ''direction'' (os_Direction r)))) l)))]) @
       (case sp_Limit sp of None \<Rightarrow> [] | Some n \<Rightarrow> [(''limit'', VInt64 (word_of_int n))]) @
       (if sp_AccessReason sp \<noteq> [] then field ''access_reason'' (sp_AccessReason sp) else [])))"

definition too_many :: "nat \<Rightarrow> bool" where
  [go_eval]: "too_many n \<longleftrightarrow> n > MaxInputNodes"

lemma too_many_code [code]: "too_many n \<longleftrightarrow> int n > 16384"
  by (auto simp: too_many_def MaxInputNodes_def)

definition inputBudget :: "(goval \<Rightarrow> gostring option) \<Rightarrow> operation_spec \<Rightarrow> (gostring \<times> goval) list option \<Rightarrow> bool" where
  [go_eval]: "inputBudget float_text sp values \<longleftrightarrow>
     \<not> too_many (length (items (sp_Filters sp)) + length (items (sp_Select sp)) + length (items (sp_OrderBy sp)) + length (items values)) \<and>
     (case input_size float_text (VMap (Some [(''spec'', spec_document sp), (''values'', VMap values)])) of
        None \<Rightarrow> False
      | Some n \<Rightarrow>
          let own = (case input_size float_text (spec_document sp) of None \<Rightarrow> 0 | Some k \<Rightarrow> k)
          in \<not> (sp_sourceBytes sp > own \<and> over_bytes (sp_sourceBytes sp - own) \<lparr>sz_bytes = n, sz_nodes = 0\<rparr>))"

section \<open>Checking columns and values\<close>

text \<open>What the checks need to know, and what they leave unverified.\<close>

record column_checks =
  ck_strict :: bool
  ck_dialect :: gostring
  ck_table :: manifest_table

record unverified_types =
  uv_names :: "gostring list"
  uv_checked :: "gostring list"

definition knownDialect :: "manifest \<Rightarrow> driver_dialect option \<Rightarrow> gostring" where
  [go_eval]: "knownDialect m d =
     (let declared = mf_Dialect m
      in case d of
           None \<Rightarrow> if declared = ''mysql'' \<or> declared = ''postgres'' then declared else []
         | Some dd \<Rightarrow>
             let actual = (case dd of MySQLDialect \<Rightarrow> ''mysql'' | PostgresDialect \<Rightarrow> ''postgres'' | OtherDialect n \<Rightarrow> [])
             in if declared \<noteq> [] \<and> declared \<noteq> actual then [] else actual)"

definition slice_elements :: "goval \<Rightarrow> goval list option" where
  [go_eval]: "slice_elements v =
     (case v of
        VList xs \<Rightarrow> Some (items xs)
      | VScalars t xs \<Rightarrow> Some (items xs)
      | VBytes bs \<Rightarrow> Some (map (\<lambda>c. VUint8 (of_nat (byte c))) (items bs))
      | _ \<Rightarrow> None)"

definition inspectNumber :: "goval \<Rightarrow> bool" where
  [go_eval]: "inspectNumber v = (case v of VNumber s \<Rightarrow> \<not> intLexeme s | _ \<Rightarrow> False)"

definition driverUnsupported :: "gostring \<Rightarrow> goval \<Rightarrow> bool" where
  [go_eval]: "driverUnsupported dialect v \<longleftrightarrow>
     dialect = ''postgres'' \<and> (case v of VUint w \<Rightarrow> unat w > 2 ^ 63 - 1 | VUint64 w \<Rightarrow> unat w > 2 ^ 63 - 1 | _ \<Rightarrow> False)"

definition unverified_once :: "bool \<Rightarrow> gostring \<Rightarrow> unverified_types \<Rightarrow> operation_error + unverified_types" where
  [go_eval]: "unverified_once strict missing u =
     (if strict then Inl TypeUnverified
      else if missing \<in> set (uv_checked u) then Inr u
      else Inr (u\<lparr>uv_names := uv_names u @ [missing], uv_checked := missing # uv_checked u\<rparr>))"

definition unverified_always :: "bool \<Rightarrow> gostring \<Rightarrow> unverified_types \<Rightarrow> operation_error + unverified_types" where
  [go_eval]: "unverified_always strict missing u =
     (if strict then Inl TypeUnverified else Inr (u\<lparr>uv_names := uv_names u @ [missing]\<rparr>))"

text \<open>The values an operator compares with: the elements of an IN list, of which there are 1 to 1000, or the value itself.\<close>

definition compared_values :: "gostring \<Rightarrow> goval \<Rightarrow> goval list option" where
  [go_eval]: "compared_values op v =
     (if op = ''in'' then
        (case slice_elements v of
           None \<Rightarrow> None
         | Some xs \<Rightarrow> if length xs < 1 \<or> length xs > 1000 then None else Some xs)
      else Some [v])"

definition check_values :: "column_checks \<Rightarrow> manifest_column \<Rightarrow> declared_type \<Rightarrow> gostring \<Rightarrow> goval \<Rightarrow> unverified_types \<Rightarrow> operation_error + unverified_types" where
  [go_eval]: "check_values k c t op v u =
     (if ty_array t then Inl ArrayBinding
      else case compared_values op v of
          None \<Rightarrow> Inl InvalidFilter
        | Some xs \<Rightarrow>
            if \<not> list_all (validateScalar (mc_EnumValues c) t (ck_dialect k) op) xs then Inl TypeMismatch
            else case (if list_ex (driverUnsupported (ck_dialect k)) (v # xs)
                then unverified_always (ck_strict k) ''driver_unsigned_domain_unsupported'' u else Inr u) of
                Inl e \<Rightarrow> Inl e
              | Inr u' \<Rightarrow>
                  if list_ex inspectNumber (v # xs) then unverified_always (ck_strict k) ''binding_numeric_domain_unsupported'' u' else Inr u')"

definition checkColumn :: "column_checks \<Rightarrow> gostring \<Rightarrow> gostring \<Rightarrow> goval \<Rightarrow> unverified_types \<Rightarrow> operation_error + unverified_types" where
  [go_eval]: "checkColumn k name op v u =
     (case validateField (ck_table k) name of
        Inl e \<Rightarrow> Inl e
      | Inr c \<Rightarrow>
          if name \<noteq> mc_Name c \<and> name \<noteq> mt_Name (ck_table k) @ ''.'' @ mc_Name c then Inl UnknownField
          else case parse_type (mc_Type c) (mc_TypeSource c) (ck_dialect k) of
              Inl e \<Rightarrow> Inl InvalidManifest
            | Inr t \<Rightarrow>
                let missing = (if null_op op \<and> (\<not> mc_NullableKnown c \<or> mc_TypeSource c \<noteq> ''sql'') then ''nullability_unknown'' else ty_missing t)
                in case (if missing \<noteq> [] then unverified_once (ck_strict k) missing u else Inr u) of
                    Inl e \<Rightarrow> Inl e
                  | Inr u' \<Rightarrow> if op = [] \<or> null_op op then Inr u' else check_values k c t op v u')"

section \<open>Checking the document against types and settings\<close>

text \<open>The one tenant column of a table, or the refusal of two.\<close>

fun add_tenants :: "gostring list \<Rightarrow> gostring \<Rightarrow> gostring option" where
  "add_tenants [] tenant = Some tenant"
| "add_tenants (c # cs) tenant = (if c = [] \<or> tenant \<noteq> [] \<and> tenant \<noteq> c then None else add_tenants cs c)"

definition tenant_columns :: "manifest_table \<Rightarrow> gostring list" where
  [go_eval]: "tenant_columns t =
     map mc_Name (filter mc_TenantScope (mt_Columns t)) @ map mp_Column (filter (\<lambda>p. mp_Type p = ''tenant_scope'') (mt_Policies t))"

definition ApplicationTenantContext :: "settings \<Rightarrow> execution_context option" where
  [go_eval]: "ApplicationTenantContext s =
     (let c = st_execution s
      in if \<not> ec_application c \<or> \<not> ci_TenantPresent (ec_input c) \<or> ci_CurrentTenant (ec_input c) = VNil then None else Some c)"

fun check_columns :: "column_checks \<Rightarrow> gostring list \<Rightarrow> unverified_types \<Rightarrow> operation_error + unverified_types" where
  "check_columns k [] u = Inr u"
| "check_columns k (n # ns) u = (case checkColumn k n [] VNil u of Inl e \<Rightarrow> Inl e | Inr u' \<Rightarrow> check_columns k ns u')"

definition current_tenant_text :: gostring where
  [go_eval]: "current_tenant_text = ''current_tenant''"

definition on_tenant :: "gostring \<Rightarrow> gostring \<Rightarrow> bool" where
  [go_eval]: "on_tenant tenant name \<longleftrightarrow> tenant \<noteq> [] \<and> normalizeName name = normalizeName tenant"

text \<open>The value a filter compares with: its own, the application's tenant, or one supplied by name.\<close>

definition filter_value :: "gostring \<Rightarrow> goval \<Rightarrow> (gostring \<times> goval) list option \<Rightarrow> filter_spec \<Rightarrow> operation_error + goval" where
  [go_eval]: "filter_value tenant current values f =
     (let op = normalizeFilterOp (fs_Op f); vp = hasValue f; rp = hasRef f;
          reserved = equal_fold (trim_space (fs_ValueRef f)) current_tenant_text
      in if (if null_op op then vp \<or> rp else vp = rp \<or> rp \<and> trim_space (fs_ValueRef f) = []) then Inl InvalidFilter
         else if on_tenant tenant (fs_Field f) \<and> (\<not> rp \<or> fs_ValueRef f \<noteq> current_tenant_text \<or> op \<noteq> ''='') then Inl ReservedBinding
         else if reserved then
           (if fs_ValueRef f \<noteq> current_tenant_text \<or> \<not> on_tenant tenant (fs_Field f) \<or> op \<noteq> ''='' then Inl ReservedBinding else Inr current)
         else if rp then (case map_of (items values) (fs_ValueRef f) of None \<Rightarrow> Inl ValueRefMissing | Some v \<Rightarrow> Inr v)
         else Inr (fs_Value f))"

definition bound_filter :: "filter_spec \<Rightarrow> goval \<Rightarrow> filter_spec" where
  [go_eval]: "bound_filter f v =
     f\<lparr>fs_Value := v, fs_ValueRef := [], fs_refPresent := False, fs_ValuePresent := \<not> null_op (normalizeFilterOp (fs_Op f))\<rparr>"

fun check_filters ::
  "column_checks \<Rightarrow> gostring \<Rightarrow> goval \<Rightarrow> bool \<Rightarrow> (gostring \<times> goval) list option \<Rightarrow> filter_spec list \<Rightarrow> unverified_types \<Rightarrow>
     operation_error + filter_spec list \<times> unverified_types" where
  "check_filters k tenant current automatic values [] u = Inr ([], u)"
| "check_filters k tenant current automatic values (f # fs) u =
     (case filter_value tenant current values f of
        Inl e \<Rightarrow> Inl e
      | Inr v \<Rightarrow>
          (case checkColumn k (fs_Field f) (normalizeFilterOp (fs_Op f)) v u of
             Inl e \<Rightarrow> Inl e
           | Inr u' \<Rightarrow>
               (case check_filters k tenant current automatic values fs u' of
                  Inl e \<Rightarrow> Inl e
                | Inr (kept, u'') \<Rightarrow> Inr ((if on_tenant tenant (fs_Field f) \<and> automatic then [] else [bound_filter f v]) @ kept, u''))))"

record typed_result =
  tr_tenant :: gostring
  tr_filters :: "filter_spec list"
  tr_unknown :: "gostring list"

definition tenant_of :: "operation_options \<Rightarrow> manifest_table \<Rightarrow> operation_error + gostring \<times> goval" where
  [go_eval]: "tenant_of opts t =
     (case add_tenants (tenant_columns t) [] of
        None \<Rightarrow> Inl InvalidManifest
      | Some tenant \<Rightarrow>
          let s = oo_Settings opts; policy = (case PolicyForTable (mt_Name t) (st_policies s) of Some p \<Rightarrow> p | None \<Rightarrow> blank_policy)
          in if tenant = [] \<and> pol_TenantColumn policy = [] then Inr ([], VNil)
             else if tenant \<noteq> pol_TenantColumn policy \<or> \<not> st_strict s then Inl ReservedBinding
             else (case ApplicationTenantContext s of
                 None \<Rightarrow> Inl ReservedBinding
               | Some c \<Rightarrow> Inr (tenant, fst (fst (Copy new_copier (ci_CurrentTenant (ec_input c)))))))"

definition soft_column :: "operation_options \<Rightarrow> manifest_table \<Rightarrow> operation_error + gostring" where
  [go_eval]: "soft_column opts t =
     (let soft = tableSoftDeleteColumn t;
          policy = (case PolicyForTable (mt_Name t) (st_policies (oo_Settings opts)) of Some p \<Rightarrow> p | None \<Rightarrow> blank_policy)
      in if pol_SoftDeleteColumn policy = [] then Inr soft
         else if soft \<noteq> [] \<and> soft \<noteq> pol_SoftDeleteColumn policy then Inl InvalidManifest
         else Inr (pol_SoftDeleteColumn policy))"

text \<open>What follows the filters: the automatic tenant and the implicit soft-delete condition.\<close>

definition check_implicit :: "column_checks \<Rightarrow> operation_options \<Rightarrow> operation_spec \<Rightarrow> gostring \<Rightarrow> goval \<Rightarrow> unverified_types \<Rightarrow> operation_error + unverified_types" where
  [go_eval]: "check_implicit k opts sp tenant current u =
     (case (if tenant \<noteq> [] \<and> \<not> specHasFilter sp tenant then
              (if \<not> st_autoTenant (oo_Settings opts) then Inl RequiredFilterMissing else checkColumn k tenant ''='' current u)
            else Inr u) of
        Inl e \<Rightarrow> Inl e
      | Inr u' \<Rightarrow>
          (case soft_column opts (ck_table k) of
             Inl e \<Rightarrow> Inl e
           | Inr soft \<Rightarrow> if soft \<noteq> [] \<and> \<not> specHasFilter sp soft then checkColumn k soft ''is_null'' VNil u' else Inr u'))"

definition typedValidate :: "operation_options \<Rightarrow> manifest \<Rightarrow> operation_spec \<Rightarrow> manifest_table \<Rightarrow> operation_error + typed_result" where
  [go_eval]: "typedValidate opts m sp t =
     (if (case sp_Limit sp of None \<Rightarrow> False | Some n \<Rightarrow> n < 0 \<or> n > 10000) then Inl InputLimit
      else if list_ex (\<lambda>kv. equal_fold (trim_space (fst kv)) current_tenant_text) (items (oo_Values opts)) then Inl ReservedBinding
      else case tenant_of opts t of
          Inl e \<Rightarrow> Inl e
        | Inr (tenant, current) \<Rightarrow>
            let k = \<lparr>ck_strict = st_strict (oo_Settings opts), ck_dialect = knownDialect m (oo_Dialect opts), ck_table = t\<rparr>
            in case check_columns k (items (sp_Select sp) @ map os_Field (items (sp_OrderBy sp))) \<lparr>uv_names = [], uv_checked = []\<rparr> of
                Inl e \<Rightarrow> Inl e
              | Inr u \<Rightarrow>
                  (case check_filters k tenant current (st_autoTenant (oo_Settings opts)) (oo_Values opts) (items (sp_Filters sp)) u of
                     Inl e \<Rightarrow> Inl e
                   | Inr (fs, u') \<Rightarrow>
                       (case check_implicit k opts sp tenant current u' of
                          Inl e \<Rightarrow> Inl e
                        | Inr u'' \<Rightarrow> Inr \<lparr>tr_tenant = tenant, tr_filters = fs, tr_unknown = uv_names u''\<rparr>)))"

section \<open>Checking the document\<close>

definition WarningManifestStale :: gostring where [go_eval]: "WarningManifestStale = ''MANIFEST_STALE''"
definition WarningOperationPIISelected :: gostring where [go_eval]: "WarningOperationPIISelected = ''OPERATION_SPEC_PII_SELECTED''"
definition WarningOperationRequiredFilter :: gostring where
  [go_eval]: "WarningOperationRequiredFilter = ''OPERATION_SPEC_REQUIRED_FILTER_MISSING''"
definition WarningOperationMissingLimit :: gostring where [go_eval]: "WarningOperationMissingLimit = ''LIMIT_MISSING''"

fun check_select :: "manifest_table \<Rightarrow> gostring \<Rightarrow> gostring list \<Rightarrow> operation_error + gostring list" where
  "check_select t why [] = Inr []"
| "check_select t why (f # fs) =
     (case validateField t f of
        Inl e \<Rightarrow> Inl e
      | Inr c \<Rightarrow>
          if mc_Forbidden c then Inl ForbiddenField
          else if mc_PII c \<and> why = [] then Inl AccessReasonRequired
          else map_sum id (\<lambda>ws. (if mc_PII c then [WarningOperationPIISelected] else []) @ ws) (check_select t why fs))"

fun check_filter_fields :: "manifest_table \<Rightarrow> filter_spec list \<Rightarrow> operation_error option" where
  "check_filter_fields t [] = None"
| "check_filter_fields t (f # fs) =
     (if trim_space (fs_Field f) = [] then Some InvalidFilter
      else case validateField t (fs_Field f) of
          Inl e \<Rightarrow> Some e
        | Inr c \<Rightarrow> if \<not> supportedFilterOp (fs_Op f) then Some InvalidFilter else check_filter_fields t fs)"

fun check_order :: "manifest_table \<Rightarrow> order_spec list \<Rightarrow> operation_error option" where
  "check_order t [] = None"
| "check_order t (r # rs) =
     (case validateField t (os_Field r) of
        Inl e \<Rightarrow> Some e
      | Inr c \<Rightarrow>
          if normalizeDirection (os_Direction r) \<noteq> ''asc'' \<and> normalizeDirection (os_Direction r) \<noteq> ''desc'' then Some InvalidOrder
          else check_order t rs)"

fun check_required :: "operation_spec \<Rightarrow> gostring \<Rightarrow> (gostring \<times> gostring) list \<Rightarrow> operation_error + gostring list" where
  "check_required sp tenant [] = Inr []"
| "check_required sp tenant ((c, mode) # rs) =
     (if normalizeName c = normalizeName tenant \<or> specHasFilter sp c then check_required sp tenant rs
      else if mode = PolicyModeWarn then map_sum id (Cons WarningOperationRequiredFilter) (check_required sp tenant rs)
      else Inl RequiredFilterMissing)"

record validation_result =
  vr_table :: manifest_table
  vr_tenant :: gostring
  vr_filters :: "filter_spec list"
  vr_unknown :: "gostring list"
  vr_warnings :: "gostring list"

definition check_manifest :: "operation_options \<Rightarrow> operation_error + manifest" where
  [go_eval]: "check_manifest opts =
     (case oo_Manifest opts of
        None \<Rightarrow> Inl ManifestRequired
      | Some m \<Rightarrow>
          if \<not> checkManifestDeclarations m then Inl InvalidManifest
          else case st_err (oo_Settings opts) of Some e \<Rightarrow> Inl (SettingsInvalid e) | None \<Rightarrow> Inr m)"

definition check_fields :: "operation_options \<Rightarrow> manifest_table \<Rightarrow> operation_spec \<Rightarrow> operation_error + gostring list" where
  [go_eval]: "check_fields opts t sp =
     (case check_select t (accessReason sp opts) (items (sp_Select sp)) of
        Inl e \<Rightarrow> Inl e
      | Inr ws \<Rightarrow>
          (case check_filter_fields t (items (sp_Filters sp)) of
             Some e \<Rightarrow> Inl e
           | None \<Rightarrow> (case check_order t (items (sp_OrderBy sp)) of Some e \<Rightarrow> Inl e | None \<Rightarrow> Inr ws)))"

definition validateOperation ::
  "(goval \<Rightarrow> gostring option) \<Rightarrow> operation_options \<Rightarrow> bool \<Rightarrow> operation_spec \<Rightarrow> operation_error + validation_result" where
  [go_eval]: "validateOperation float_text opts update sp =
     (if \<not> inputBudget float_text sp (oo_Values opts) then Inl InputLimit
      else if \<not> version_ok (sp_Version sp) then Inl VersionUnsupported
      else case check_manifest opts of
          Inl e \<Rightarrow> Inl e
        | Inr m \<Rightarrow>
            let op = to_lower (trim_space (sp_Operation sp))
            in if op \<noteq> [] \<and> op \<noteq> ''select'' then Inl UnsupportedOperation
               else if trim_space (sp_Model sp) = [] then Inl ModelRequired
               else if \<not> update \<and> items (sp_Select sp) = [] then Inl SelectRequired
               else case findTable m (sp_Model sp) of
                   None \<Rightarrow> Inl UnknownModel
                 | Some t \<Rightarrow>
                     if oo_RequireFreshManifest opts \<and> mf_Fresh m \<noteq> Some True then Inl StaleManifest
                     else (case check_fields opts t sp of
                         Inl e \<Rightarrow> Inl e
                       | Inr ws \<Rightarrow>
                           (case typedValidate opts m sp t of
                              Inl e \<Rightarrow> Inl e
                            | Inr r \<Rightarrow>
                                (case check_required sp (tr_tenant r) (requiredFilterColumns t) of
                                   Inl e \<Rightarrow> Inl e
                                 | Inr rs \<Rightarrow>
                                     Inr \<lparr>vr_table = t, vr_tenant = tr_tenant r, vr_filters = tr_filters r, vr_unknown = tr_unknown r,
                                       vr_warnings = (if mf_Fresh m = Some False then [WarningManifestStale] else []) @ ws @ rs @
                                         (if \<not> update \<and> sp_Limit sp = None then [WarningOperationMissingLimit] else [])\<rparr>))))"

section \<open>Compiling to a query\<close>

definition FLimitExact :: "int \<Rightarrow> facade \<Rightarrow> facade" where
  [go_eval]: "FLimitExact n = guarded (if n < 0 then fail_with ''goquent: limit must be non-negative'' else on_builder (BLimitExact n))"

definition applyFilter :: "filter_spec \<Rightarrow> facade \<Rightarrow> facade" where
  [go_eval]: "applyFilter f =
     (let op = normalizeFilterOp (fs_Op f)
      in if op = ''is_null'' then FWhereNull (fs_Field f)
         else if op = ''is_not_null'' then FWhereNotNull (fs_Field f)
         else if op = ''in'' then FWhereIn (fs_Field f) (fs_Value f)
         else FWhere (fs_Field f) [VString op, fs_Value f])"

definition dialectFromManifest :: "manifest option \<Rightarrow> driver_dialect" where
  [go_eval]: "dialectFromManifest m =
     (case m of
        None \<Rightarrow> MySQLDialect
      | Some m \<Rightarrow> if str_contains (to_lower (mf_Dialect m)) ''postgres'' then PostgresDialect else MySQLDialect)"

definition configured :: "gostring list \<Rightarrow> gostring list \<Rightarrow> query_state \<Rightarrow> query_state" where
  [go_eval]: "configured codes unknown q = q\<lparr>qs_validation := Some (codes, unknown)\<rparr>"

definition compile_query :: "nat \<Rightarrow> bool \<Rightarrow> operation_options \<Rightarrow> operation_spec \<Rightarrow> validation_result \<Rightarrow> facade" where
  [go_eval]: "compile_query ident authorized opts sp r =
     (let d = (case oo_Dialect opts of Some d \<Rightarrow> d | None \<Rightarrow> dialectFromManifest (oo_Manifest opts));
          q = on_state (configured (vr_warnings r) (vr_unknown r)) (NewWithSettings ident authorized (mt_Name (vr_table r)) d (oo_Settings opts));
          q = (if accessReason sp opts \<noteq> [] then on_state (AccessReason (accessReason sp opts)) q else q);
          q = FSelect (items (sp_Select sp)) q;
          soft = tableSoftDeleteColumn (vr_table r);
          q = (if soft \<noteq> [] \<and> \<not> specHasFilter sp soft then FWhereNull soft q else q);
          q = fold applyFilter (vr_filters r) q;
          q = fold (\<lambda>o'. FOrderBy (os_Field o') (normalizeDirection (os_Direction o'))) (items (sp_OrderBy sp)) q
      in case sp_Limit sp of None \<Rightarrow> q | Some n \<Rightarrow> FLimitExact n q)"

definition Compile ::
  "'p sql_utils \<Rightarrow> 'p \<Rightarrow> (goval \<Rightarrow> gostring) \<Rightarrow> (goval \<Rightarrow> gostring option) \<Rightarrow> nat \<Rightarrow> bool \<Rightarrow> operation_options \<Rightarrow> operation_spec \<Rightarrow> int \<Rightarrow>
     operation_error + query_plan \<times> planned_execution" where
  [go_eval]: "Compile u zero json float_text ident authorized opts sp now =
     (case validateOperation float_text opts False sp of
        Inl e \<Rightarrow> Inl e
      | Inr r \<Rightarrow>
          (case fst (FPlan u zero json (compile_query ident authorized opts sp r) \<lparr>r_ph = zero, r_cols = []\<rparr> now) of
             Inl e \<Rightarrow> Inl (PlannerRefused e)
           | Inr (p, e) \<Rightarrow> if st_strict (oo_Settings opts) \<and> Blocked p then Inl PlanBlocked else Inr (p, e)))"

section \<open>What an accepted document guarantees\<close>

text \<open>A column an accepted document may name, with its type.\<close>

definition declared_column :: "column_checks \<Rightarrow> gostring \<Rightarrow> manifest_column \<Rightarrow> declared_type \<Rightarrow> bool" where
  "declared_column k name c t \<longleftrightarrow>
     validateField (ck_table k) name = Inr c \<and> \<not> mc_Forbidden c \<and> parse_type (mc_Type c) (mc_TypeSource c) (ck_dialect k) = Inr t"

text \<open>A value of the column's type and, when the column enumerates its values, one of them; number texts are judged without white space.\<close>

definition of_column :: "column_checks \<Rightarrow> manifest_column \<Rightarrow> declared_type \<Rightarrow> goval \<Rightarrow> bool" where
  "of_column k c t v \<longleftrightarrow> (plain_number v \<longrightarrow> inhabits t (ck_dialect k) v) \<and> (mc_EnumValues c = [] \<or> (\<exists>s \<in> set (mc_EnumValues c). v = VString s))"

definition admitted_condition :: "column_checks \<Rightarrow> where_flat \<Rightarrow> bool" where
  "admitted_condition k w \<longleftrightarrow>
     (\<exists>c t. declared_column k (w_Column w) c t \<and>
       (w_Condition w = ''IS NULL'' \<or> w_Condition w = ''IS NOT NULL'' \<or>
        ty_missing t = [] \<and> \<not> ty_array t \<and> w_Value w \<noteq> None \<and> list_all (of_column k c t) (items (w_Value w))))"

subsection \<open>Columns\<close>

lemma validateField_allowed: "validateField t f = Inr c \<Longrightarrow> \<not> mc_Forbidden c"
  by (auto simp: validateField_def Let_def split: if_splits option.splits)

lemma unverified_strict [simp]: "unverified_once True m u = Inl TypeUnverified" "unverified_always True m u = Inl TypeUnverified"
  by (simp_all add: unverified_once_def unverified_always_def)

lemma check_values_strict:
  assumes "check_values k c t op v u = Inr u'"
  obtains xs where "\<not> ty_array t" "compared_values op v = Some xs" "list_all (validateScalar (mc_EnumValues c) t (ck_dialect k) op) xs"
  using assms by (auto simp: check_values_def split: if_splits option.splits)

lemma checkColumn_strict:
  assumes "checkColumn k name op v u = Inr u'" "ck_strict k"
  obtains c t where "declared_column k name c t"
    and "op \<noteq> [] \<Longrightarrow> \<not> null_op op \<Longrightarrow> ty_missing t = [] \<and> \<not> ty_array t \<and>
      (\<exists>xs. compared_values op v = Some xs \<and> list_all (validateScalar (mc_EnumValues c) t (ck_dialect k) op) xs)"
proof -
  from assms(1) obtain c where c: "validateField (ck_table k) name = Inr c" by (auto simp: checkColumn_def split: sum.splits)
  with assms(1) obtain t where t: "parse_type (mc_Type c) (mc_TypeSource c) (ck_dialect k) = Inr t"
    by (auto simp: checkColumn_def split: sum.splits if_splits)
  have "declared_column k name c t" using c t validateField_allowed by (auto simp: declared_column_def)
  moreover have "ty_missing t = [] \<and> \<not> ty_array t \<and>
      (\<exists>xs. compared_values op v = Some xs \<and> list_all (validateScalar (mc_EnumValues c) t (ck_dialect k) op) xs)"
    if op: "op \<noteq> []" "\<not> null_op op"
  proof -
    from assms c t op have missing: "ty_missing t = []"
      by (auto simp: checkColumn_def Let_def split: if_splits sum.splits)
    with assms c t op have "check_values k c t op v u = Inr u'"
      by (auto simp: checkColumn_def Let_def split: if_splits)
    with missing show ?thesis by (auto elim: check_values_strict)
  qed
  ultimately show thesis by (rule that)
qed

lemma scalar_of_column:
  assumes "declared_column k name c t" "validateScalar (mc_EnumValues c) t (ck_dialect k) op v"
  shows "of_column k c t v"
proof -
  have t: "parse_type (mc_Type c) (mc_TypeSource c) (ck_dialect k) = Inr t" using assms(1) by (simp add: declared_column_def)
  have "inhabits t (ck_dialect k) v" if "plain_number v"
  proof -
    have "of_kind t (ck_dialect k) v" using assms(2) by (simp add: validateScalar_def)
    then show ?thesis using kind_inhabits [OF t that] by simp
  qed
  moreover have "of_enum (mc_EnumValues c) v" using assms(2) by (simp add: validateScalar_def)
  ultimately show ?thesis by (cases v) (auto simp: of_column_def of_enum_def)
qed

subsection \<open>Filters\<close>

lemma normalizeFilterOp_nonempty [simp]: "normalizeFilterOp op \<noteq> []"
  by (auto simp: normalizeFilterOp_def filter_op_names_def Let_def)

text \<open>The values an IN compares with, when its argument is of a type the builder knows.\<close>

definition in_values :: "goval \<Rightarrow> goval list option option" where
  "in_values v = (case v of VList xs \<Rightarrow> Some xs | _ \<Rightarrow> map_option Some (ToInterfaceSlice v))"

lemma addWhereIn_value:
  "fst (addWhereIn col op cond (InValue v) b) =
     (case in_values v of
        None \<Rightarrow> b
      | Some vals \<Rightarrow> append_flat (zero_where\<lparr>w_Value := vals, w_Operator := op, w_Column := col, w_Condition := cond\<rparr>) b)"
  by (simp add: addWhereIn_def in_values_def [symmetric] split: option.split)

text \<open>What a checked filter is compiled to; an IN on a list of an element type the builder does not know adds nothing.\<close>

definition filter_condition :: "filter_spec \<Rightarrow> where_flat list" where
  "filter_condition f =
     (let op = normalizeFilterOp (fs_Op f)
      in if op = ''is_null'' then [zero_where\<lparr>w_Column := fs_Field f, w_Condition := ''IS NULL''\<rparr>]
         else if op = ''is_not_null'' then [zero_where\<lparr>w_Column := fs_Field f, w_Condition := ''IS NOT NULL''\<rparr>]
         else if op = ''in'' then
           (case in_values (fs_Value f) of None \<Rightarrow> [] | Some vals \<Rightarrow> [zero_where\<lparr>w_Value := vals, w_Column := fs_Field f, w_Condition := ''IN''\<rparr>])
         else [zero_where\<lparr>w_Column := fs_Field f, w_Condition := op, w_Value := spread (fs_Value f)\<rparr>])"

lemma append_columns_where: "sb_where (fold (\<lambda>c. append_column (h c)) cols b) = sb_where b"
  by (induction cols arbitrary: b) (simp_all add: append_column_def)

lemma conditions_unchanged [simp]:
  "b_Conditions (fq_where (on_state f q)) = b_Conditions (fq_where q)" "b_Conditions (fq_where (fail_with e q)) = b_Conditions (fq_where q)"
  "b_Conditions (fq_where (FSelect cols q)) = b_Conditions (fq_where q)" "b_Conditions (fq_where (FOrderBy col d q)) = b_Conditions (fq_where q)"
  "b_Conditions (fq_where (FLimitExact n q)) = b_Conditions (fq_where q)"
  by (auto simp: on_state_def fail_with_def FSelect_def FOrderBy_def FLimitExact_def guarded_def refusing_def on_builder_def BSelect_def
      append_columns_where BOrderBy_def append_order_def BLimitExact_def split: option.splits sum.splits)

text \<open>An error stays.\<close>

definition sticky :: "(facade \<Rightarrow> facade) \<Rightarrow> bool" where
  "sticky f \<longleftrightarrow> (\<forall>q. fq_err q \<noteq> None \<longrightarrow> fq_err (f q) \<noteq> None)"

lemma sticky_guarded: "sticky (guarded f)"
  by (simp add: sticky_def guarded_def)

lemma sticky_methods: "sticky (FSelect cols)" "sticky (FOrderBy col d)" "sticky (FLimitExact n)" "sticky (FWhere col args)"
  "sticky (FWhereNull col)" "sticky (FWhereNotNull col)" "sticky (FWhereIn col v)"
  unfolding FSelect_def FOrderBy_def FLimitExact_def FWhere_def where_method_def
  by (rule sticky_guarded)+ (simp_all add: sticky_def FWhereNull_def FWhereNotNull_def FWhereIn_def in_method_def on_where_def on_builder_def fail_with_def)

lemma sticky_fold: "(\<And>x. sticky (f x)) \<Longrightarrow> fq_err q \<noteq> None \<Longrightarrow> fq_err (fold f xs q) \<noteq> None"
  by (induction xs arbitrary: q) (auto simp: sticky_def)

lemma sticky_folds: "(\<And>x. sticky (f x)) \<Longrightarrow> sticky (fold f xs)"
  unfolding sticky_def using sticky_fold [unfolded sticky_def] by metis

lemma sticky_filter: "sticky (applyFilter f)"
  using sticky_methods by (simp add: applyFilter_def Let_def)

lemma applyFilter_condition:
  assumes "supportedFilterOp (fs_Op f)" "fq_err (applyFilter f q) = None"
  shows "map wf (b_Conditions (fq_where (applyFilter f q))) = map wf (b_Conditions (fq_where q)) @ filter_condition f"
proof -
  have q: "fq_err q = None" using sticky_filter [of f] assms(2) by (auto simp: sticky_def)
  let ?op = "normalizeFilterOp (fs_Op f)"
  have op: "?op \<in> set [''='', ''!='', ''<>'', ''>'', ''>='', ''<'', ''<='', ''like'', ''in'', ''is_null'', ''is_not_null'']"
    using assms(1) unfolding supportedFilterOp_def .
  have known: "validateConditionOperator ?op = Inr ?op" if "?op \<notin> {''in'', ''is_null'', ''is_not_null''}"
  proof -
    have "list_all (\<lambda>x. validateConditionOperator x = Inr x) [''='', ''!='', ''<>'', ''>'', ''>='', ''<'', ''<='', ''like'']" by code_simp
    then show ?thesis using op that unfolding list_all_iff by auto
  qed
  show ?thesis
  proof (cases "?op \<in> {''in'', ''is_null'', ''is_not_null''}")
    case False
    then have "applyFilter f q = on_where (addWhere (fs_Field f) ?op (spread (fs_Value f)) op_AND) q"
      using q known by (simp add: applyFilter_def FWhere_def where_method_def guarded_def with_operator_def Let_def)
    then show ?thesis
      using False by (simp add: filter_condition_def Let_def on_where_def on_builder_def addWhere_def append_flat_def append_cond_def zero_where_def)
  next
    case True
    show ?thesis
    proof (cases "?op = ''in''")
      case inside: True
      have "strictInValue (fs_Value f) q"
      proof (rule ccontr)
        assume "\<not> strictInValue (fs_Value f) q"
        then have "fq_err (applyFilter f q) \<noteq> None" using inside by (simp add: applyFilter_def FWhereIn_def in_method_def fail_with_def)
        with assms(2) show False by simp
      qed
      then have run: "applyFilter f q = on_where (\<lambda>w. fst (addWhereIn (fs_Field f) op_AND ''IN'' (InValue (fs_Value f)) w)) q"
        using inside by (simp add: applyFilter_def FWhereIn_def in_method_def)
      show ?thesis
        by (cases "in_values (fs_Value f)")
          (simp_all add: run inside filter_condition_def on_where_def on_builder_def addWhereIn_value append_flat_def append_cond_def zero_where_def)
    next
      case False
      with True show ?thesis
        by (auto simp: applyFilter_def filter_condition_def FWhereNull_def FWhereNotNull_def WhereNull_def WhereNotNull_def addWhereNull_def
            on_where_def on_builder_def append_flat_def append_cond_def zero_where_def)
    qed
  qed
qed

lemma fold_filter_conditions:
  assumes "\<forall>f \<in> set fs. supportedFilterOp (fs_Op f)" "fq_err (fold applyFilter fs q) = None"
  shows "map wf (b_Conditions (fq_where (fold applyFilter fs q))) = map wf (b_Conditions (fq_where q)) @ concat (map filter_condition fs)"
  using assms
proof (induction fs arbitrary: q)
  case (Cons f fs)
  have "fq_err (applyFilter f q) = None"
  proof (rule ccontr)
    assume "fq_err (applyFilter f q) \<noteq> None"
    then have "fq_err (fold applyFilter fs (applyFilter f q)) \<noteq> None" by (rule sticky_fold [OF sticky_filter])
    with Cons.prems(2) show False by simp
  qed
  then show ?case using Cons applyFilter_condition [of f q] by simp
qed simp

lemma check_filters_kept:
  assumes "check_filters k tenant current automatic values fs u = Inr (kept, u')" "g \<in> set kept"
  obtains f v w w' where "f \<in> set fs" "g = bound_filter f v" "filter_value tenant current values f = Inr v"
    "checkColumn k (fs_Field f) (normalizeFilterOp (fs_Op f)) v w = Inr w'" "\<not> (on_tenant tenant (fs_Field f) \<and> automatic)"
  using assms
proof (induction fs arbitrary: u kept u')
  case (Cons f fs)
  from Cons.prems(2) obtain v w' rest u'' where step: "filter_value tenant current values f = Inr v"
      "checkColumn k (fs_Field f) (normalizeFilterOp (fs_Op f)) v u = Inr w'"
      "check_filters k tenant current automatic values fs w' = Inr (rest, u'')"
      "kept = (if on_tenant tenant (fs_Field f) \<and> automatic then [] else [bound_filter f v]) @ rest"
    by (auto split: sum.splits prod.splits)
  show ?case
  proof (cases "g \<in> set rest")
    case True
    then show ?thesis using Cons.IH [OF _ step(3)] Cons.prems(1) by (metis list.set_intros(2))
  next
    case False
    with Cons.prems(3) step(4) have "g = bound_filter f v" "\<not> (on_tenant tenant (fs_Field f) \<and> automatic)" by (auto split: if_splits)
    then show ?thesis using Cons.prems(1) [of f v u w'] step by simp
  qed
qed simp

lemma check_filters_all:
  assumes "check_filters k tenant current automatic values fs u = Inr (kept, u')" "f \<in> set fs" "\<not> (on_tenant tenant (fs_Field f) \<and> automatic)"
  shows "\<exists>v. bound_filter f v \<in> set kept"
  using assms
proof (induction fs arbitrary: u kept u')
  case (Cons f' fs)
  from Cons.prems(1) obtain v w' rest u'' where step: "filter_value tenant current values f' = Inr v"
      "check_filters k tenant current automatic values fs w' = Inr (rest, u'')"
      "kept = (if on_tenant tenant (fs_Field f') \<and> automatic then [] else [bound_filter f' v]) @ rest"
    by (auto split: sum.splits prod.splits)
  show ?case
  proof (cases "f \<in> set fs")
    case True
    with Cons.IH [OF step(2)] Cons.prems(3) step(3) show ?thesis by auto
  next
    case False
    with Cons.prems step(3) show ?thesis by auto
  qed
qed simp

lemma bound_filter_simps [simp]:
  "fs_Field (bound_filter f v) = fs_Field f" "fs_Op (bound_filter f v) = fs_Op f" "fs_Value (bound_filter f v) = v"
  by (simp_all add: bound_filter_def)

lemma scalar_spread: "validateScalar es t d op v \<Longrightarrow> spread v = Some [v]"
  by (cases v) (auto simp: spread_def validateScalar_def scalar_value_def)

lemma elements_of_slice:
  assumes "compared_values ''in'' v = Some xs" "in_values v = Some vals" "vals \<noteq> None"
  shows "items vals = xs"
  using assms by (cases v) (auto simp: compared_values_def slice_elements_def in_values_def ToInterfaceSlice_def items_def split: if_splits option.splits)

text \<open>What a filter is compiled to compares its column with values of the column's type.\<close>

lemma bound_filter_admitted:
  assumes "checkColumn k (fs_Field f) (normalizeFilterOp (fs_Op f)) v u = Inr u'" "ck_strict k"
  shows "list_all (admitted_condition k) (filter_condition (bound_filter f v))"
proof -
  let ?op = "normalizeFilterOp (fs_Op f)"
  from checkColumn_strict [OF assms] obtain c t where col: "declared_column k (fs_Field f) c t"
    and vals: "?op \<noteq> [] \<Longrightarrow> \<not> null_op ?op \<Longrightarrow> ty_missing t = [] \<and> \<not> ty_array t \<and>
      (\<exists>xs. compared_values ?op v = Some xs \<and> list_all (validateScalar (mc_EnumValues c) t (ck_dialect k) ?op) xs)" by metis
  show ?thesis
  proof (cases "null_op ?op")
    case True
    have "admitted_condition k w" if "w_Column w = fs_Field f" "w_Condition w = ''IS NULL'' \<or> w_Condition w = ''IS NOT NULL''" for w
      unfolding admitted_condition_def using col that by metis
    with True show ?thesis by (auto simp: filter_condition_def null_op_def zero_where_def)
  next
    case False
    from vals [OF normalizeFilterOp_nonempty False] obtain xs where t: "ty_missing t = []" "\<not> ty_array t"
      and xs: "compared_values ?op v = Some xs" "list_all (validateScalar (mc_EnumValues c) t (ck_dialect k) ?op) xs" by auto
    have typed: "list_all (of_column k c t) xs" using xs(2) scalar_of_column [OF col] by (auto simp: list_all_iff)
    have one: "admitted_condition k w" if "w_Column w = fs_Field f" "w_Value w \<noteq> None" "items (w_Value w) = xs" for w
      unfolding admitted_condition_def using col t typed that by auto
    show ?thesis
    proof (cases "?op = ''in''")
      case True
      show ?thesis
      proof (cases "in_values v")
        case None
        then show ?thesis using True by (simp add: filter_condition_def)
      next
        case (Some vals)
        have "vals \<noteq> None" using Some xs(1) True
          by (cases v) (auto simp: compared_values_def slice_elements_def in_values_def ToInterfaceSlice_def items_def split: if_splits option.splits)
        moreover from this have "items vals = xs" using elements_of_slice [of v xs vals] Some xs(1) True by simp
        ultimately show ?thesis using Some True by (simp add: filter_condition_def one)
      qed
    next
      case inside: False
      with xs have "xs = [v]" "validateScalar (mc_EnumValues c) t (ck_dialect k) ?op v" by (auto simp: compared_values_def)
      with scalar_spread have "spread v = Some [v]" "xs = [v]" by auto
      with inside False show ?thesis by (simp add: filter_condition_def null_op_def one items_def)
    qed
  qed
qed

text \<open>A filter on the tenant column compares it with the application's tenant.\<close>

lemma tenant_filter_value:
  assumes "filter_value tenant current values f = Inr v" "on_tenant tenant (fs_Field f)"
  shows "normalizeFilterOp (fs_Op f) = ''='' \<and> v = current"
proof -
  have "equal_fold (trim_space current_tenant_text) current_tenant_text" by code_simp
  with assms show ?thesis by (auto simp: filter_value_def Let_def split: if_splits)
qed

subsection \<open>The document\<close>

lemma check_filter_fields_supported: "check_filter_fields t fs = None \<Longrightarrow> f \<in> set fs \<Longrightarrow> supportedFilterOp (fs_Op f)"
  by (induction fs) (auto split: if_splits sum.splits)

lemma check_columns_each:
  assumes "check_columns k ns u = Inr u'" "n \<in> set ns"
  shows "\<exists>c t. declared_column k n c t"
  using assms
proof (induction ns arbitrary: u)
  case (Cons n' ns)
  then obtain w where w: "checkColumn k n' [] VNil u = Inr w" "check_columns k ns w = Inr u'" by (auto split: sum.splits)
  show ?case
  proof (cases "n \<in> set ns")
    case True
    with Cons.IH [OF w(2)] show ?thesis by simp
  next
    case False
    with Cons.prems have "n = n'" by simp
    with w(1) show ?thesis
      by (auto simp: checkColumn_def declared_column_def dest: validateField_allowed split: sum.splits if_splits)
  qed
qed simp

lemma map_sum_Inr: "map_sum id h r = Inr y \<Longrightarrow> \<exists>x. r = Inr x"
  by (cases r) simp_all

lemma check_select_each:
  assumes "check_select t why ns = Inr ws" "n \<in> set ns"
  shows "\<exists>c. validateField t n = Inr c \<and> (mc_PII c \<longrightarrow> why \<noteq> [])"
  using assms
proof (induction ns arbitrary: ws)
  case (Cons n' ns)
  from Cons.prems(1) obtain c where c: "validateField t n' = Inr c" "mc_PII c \<longrightarrow> why \<noteq> []"
    by (auto split: sum.splits if_splits)
  with Cons.prems(1) obtain ws' where "check_select t why ns = Inr ws'" by (auto split: if_splits dest: map_sum_Inr)
  with Cons.IH Cons.prems(2) c show ?case by auto
qed simp

lemma check_required_each:
  assumes "check_required sp tenant rs = Inr ws" "(c, mode) \<in> set rs"
  shows "normalizeName c = normalizeName tenant \<or> specHasFilter sp c \<or> mode = PolicyModeWarn"
  using assms
proof (induction rs arbitrary: ws)
  case (Cons x rs)
  obtain c' mode' where x: "x = (c', mode')" by force
  show ?case
  proof (cases "(c, mode) \<in> set rs")
    case True
    from Cons.prems(1) x obtain ws' where "check_required sp tenant rs = Inr ws'" by (auto split: if_splits dest: map_sum_Inr)
    with Cons.IH True show ?thesis by simp
  next
    case False
    with Cons.prems x show ?thesis by (auto split: if_splits)
  qed
qed simp

section \<open>The compiled query\<close>

definition checks_of :: "operation_options \<Rightarrow> manifest \<Rightarrow> manifest_table \<Rightarrow> column_checks" where
  [go_eval]: "checks_of opts m t = \<lparr>ck_strict = st_strict (oo_Settings opts), ck_dialect = knownDialect m (oo_Dialect opts), ck_table = t\<rparr>"

text \<open>The steps an accepted document went through.\<close>

lemma validateOperation_steps:
  assumes "validateOperation float_text opts False sp = Inr r" "oo_Manifest opts = Some m"
  obtains current ws rs u u' u'' where
    "findTable m (sp_Model sp) = Some (vr_table r)"
    "check_select (vr_table r) (accessReason sp opts) (items (sp_Select sp)) = Inr ws"
    "check_filter_fields (vr_table r) (items (sp_Filters sp)) = None"
    "check_required sp (vr_tenant r) (requiredFilterColumns (vr_table r)) = Inr rs"
    "tenant_of opts (vr_table r) = Inr (vr_tenant r, current)"
    "check_columns (checks_of opts m (vr_table r)) (items (sp_Select sp) @ map os_Field (items (sp_OrderBy sp))) \<lparr>uv_names = [], uv_checked = []\<rparr> = Inr u"
    "check_filters (checks_of opts m (vr_table r)) (vr_tenant r) current (st_autoTenant (oo_Settings opts)) (oo_Values opts)
       (items (sp_Filters sp)) u = Inr (vr_filters r, u')"
    "check_implicit (checks_of opts m (vr_table r)) opts sp (vr_tenant r) current u' = Inr u''"
proof -
  from assms have m: "check_manifest opts = Inr m" by (auto simp: validateOperation_def check_manifest_def split: if_splits option.splits)
  from assms obtain t ws tr rs where t: "findTable m (sp_Model sp) = Some t" and ws: "check_fields opts t sp = Inr ws"
    and tr: "typedValidate opts m sp t = Inr tr" and rs: "check_required sp (tr_tenant tr) (requiredFilterColumns t) = Inr rs"
    and r: "vr_table r = t" "vr_tenant r = tr_tenant tr" "vr_filters r = tr_filters tr"
    unfolding validateOperation_def m Let_def by (auto split: if_splits option.splits sum.splits)
  from tr obtain current u u' u'' where steps: "tenant_of opts t = Inr (tr_tenant tr, current)"
    "check_columns (checks_of opts m t) (items (sp_Select sp) @ map os_Field (items (sp_OrderBy sp))) \<lparr>uv_names = [], uv_checked = []\<rparr> = Inr u"
    "check_filters (checks_of opts m t) (tr_tenant tr) current (st_autoTenant (oo_Settings opts)) (oo_Values opts)
       (items (sp_Filters sp)) u = Inr (tr_filters tr, u')"
    "check_implicit (checks_of opts m t) opts sp (tr_tenant tr) current u' = Inr u''"
    unfolding typedValidate_def checks_of_def [symmetric] Let_def by (auto split: if_splits sum.splits prod.splits)
  from ws obtain ws' where "check_select t (accessReason sp opts) (items (sp_Select sp)) = Inr ws'" "check_filter_fields t (items (sp_Filters sp)) = None"
    by (auto simp: check_fields_def split: sum.splits option.splits)
  with t rs steps r show thesis using that by simp
qed

text \<open>The conditions of the compiled query: the implicit soft-delete condition, then those of the filters.\<close>

definition implicit_condition :: "operation_spec \<Rightarrow> manifest_table \<Rightarrow> where_flat list" where
  "implicit_condition sp t =
     (let soft = tableSoftDeleteColumn t
      in if soft \<noteq> [] \<and> \<not> specHasFilter sp soft then [zero_where\<lparr>w_Column := soft, w_Condition := ''IS NULL''\<rparr>] else [])"

lemma fresh_conditions [simp]: "b_Conditions (fq_where (NewWithSettings ident authorized t d s)) = []"
  by (simp add: NewWithSettings_def BTable_def NewSelectBuilder_def NewWhereBuilder_def)

lemma null_condition [simp]:
  "map wf (b_Conditions (fq_where (FWhereNull col q))) = map wf (b_Conditions (fq_where q)) @ [zero_where\<lparr>w_Column := col, w_Condition := ''IS NULL''\<rparr>]"
  by (simp add: FWhereNull_def WhereNull_def addWhereNull_def on_where_def on_builder_def append_flat_def append_cond_def zero_where_def)

lemma fold_orders_conditions [simp]:
  "b_Conditions (fq_where (fold (\<lambda>o'. FOrderBy (os_Field o') (normalizeDirection (os_Direction o'))) os q)) = b_Conditions (fq_where q)"
  by (induction os arbitrary: q) simp_all

lemma compiled_conditions:
  assumes "\<forall>f \<in> set (vr_filters r). supportedFilterOp (fs_Op f)" "fq_err (compile_query ident authorized opts sp r) = None"
  shows "map wf (b_Conditions (fq_where (compile_query ident authorized opts sp r))) =
    implicit_condition sp (vr_table r) @ concat (map filter_condition (vr_filters r))"
proof -
  obtain q where q: "b_Conditions (fq_where q) = []"
    and run: "compile_query ident authorized opts sp r =
      (case sp_Limit sp of None \<Rightarrow> id | Some n \<Rightarrow> FLimitExact n) (fold (\<lambda>o'. FOrderBy (os_Field o') (normalizeDirection (os_Direction o')))
        (items (sp_OrderBy sp)) (fold applyFilter (vr_filters r)
          (if tableSoftDeleteColumn (vr_table r) \<noteq> [] \<and> \<not> specHasFilter sp (tableSoftDeleteColumn (vr_table r))
           then FWhereNull (tableSoftDeleteColumn (vr_table r)) q else q)))"
    by (rule that [of "FSelect (items (sp_Select sp))
        (if accessReason sp opts \<noteq> [] then on_state (AccessReason (accessReason sp opts))
            (on_state (configured (vr_warnings r) (vr_unknown r)) (NewWithSettings ident authorized (mt_Name (vr_table r))
              (case oo_Dialect opts of Some d \<Rightarrow> d | None \<Rightarrow> dialectFromManifest (oo_Manifest opts)) (oo_Settings opts)))
         else on_state (configured (vr_warnings r) (vr_unknown r)) (NewWithSettings ident authorized (mt_Name (vr_table r))
              (case oo_Dialect opts of Some d \<Rightarrow> d | None \<Rightarrow> dialectFromManifest (oo_Manifest opts)) (oo_Settings opts)))"])
      (simp_all add: compile_query_def Let_def split: option.split)
  let ?s = "if tableSoftDeleteColumn (vr_table r) \<noteq> [] \<and> \<not> specHasFilter sp (tableSoftDeleteColumn (vr_table r))
           then FWhereNull (tableSoftDeleteColumn (vr_table r)) q else q"
  have orders: "sticky (fold (\<lambda>o'. FOrderBy (os_Field o') (normalizeDirection (os_Direction o'))) os)" for os
    by (rule sticky_folds) (rule sticky_methods)
  have "fq_err (fold applyFilter (vr_filters r) ?s) = None"
  proof (rule ccontr)
    assume "fq_err (fold applyFilter (vr_filters r) ?s) \<noteq> None"
    with orders have "fq_err (fold (\<lambda>o'. FOrderBy (os_Field o') (normalizeDirection (os_Direction o'))) (items (sp_OrderBy sp))
        (fold applyFilter (vr_filters r) ?s)) \<noteq> None" unfolding sticky_def by blast
    then have "fq_err (compile_query ident authorized opts sp r) \<noteq> None"
      unfolding run using sticky_methods(3) unfolding sticky_def by (cases "sp_Limit sp") auto
    with assms(2) show False by simp
  qed
  note filters = fold_filter_conditions [OF assms(1) this]
  have "map wf (b_Conditions (fq_where ?s)) = implicit_condition sp (vr_table r)" using q by (simp add: implicit_condition_def Let_def)
  with filters show ?thesis unfolding run by (cases "sp_Limit sp") simp_all
qed

lemma implicit_admitted:
  assumes "check_implicit k opts sp tenant current u = Inr u'" "ck_strict k"
  shows "list_all (admitted_condition k) (implicit_condition sp (ck_table k))"
proof (cases "tableSoftDeleteColumn (ck_table k) \<noteq> [] \<and> \<not> specHasFilter sp (tableSoftDeleteColumn (ck_table k))")
  case True
  let ?soft = "tableSoftDeleteColumn (ck_table k)"
  from assms(1) obtain w soft where soft: "soft_column opts (ck_table k) = Inr soft"
    and check: "(if soft \<noteq> [] \<and> \<not> specHasFilter sp soft then checkColumn k soft ''is_null'' VNil w else Inr w) = Inr u'"
    by (auto simp: check_implicit_def split: sum.splits)
  from soft True have "soft = ?soft" by (auto simp: soft_column_def Let_def split: if_splits option.splits)
  with check True have "checkColumn k ?soft ''is_null'' VNil w = Inr u'" by simp
  with checkColumn_strict [OF this assms(2)] obtain c t where "declared_column k ?soft c t" by metis
  with True show ?thesis by (auto simp: implicit_condition_def Let_def admitted_condition_def zero_where_def)
next
  case False
  then have "implicit_condition sp (ck_table k) = []" unfolding implicit_condition_def Let_def by (simp only: if_False)
  then show ?thesis by simp
qed

lemma tenant_filter_admitted:
  assumes "filter_value tenant current values f = Inr v" "checkColumn k (fs_Field f) (normalizeFilterOp (fs_Op f)) v u = Inr u'" "ck_strict k"
    "on_tenant tenant (fs_Field f)"
  shows "filter_condition (bound_filter f v) = [zero_where\<lparr>w_Column := fs_Field f, w_Condition := ''='', w_Value := Some [current]\<rparr>]"
proof -
  have op: "normalizeFilterOp (fs_Op f) = ''=''" and v: "v = current" using tenant_filter_value [OF assms(1,4)] by simp_all
  have "\<not> null_op ''=''" by code_simp
  have check: "checkColumn k (fs_Field f) ''='' v u = Inr u'" using assms(2) unfolding op .
  obtain c :: manifest_column and t xs where "compared_values ''='' v = Some xs" "list_all (validateScalar (mc_EnumValues c) t (ck_dialect k) ''='') xs"
  proof (rule checkColumn_strict [OF check assms(3)])
    fix c :: manifest_column and t
    assume "''='' \<noteq> [] \<Longrightarrow> \<not> null_op ''='' \<Longrightarrow> ty_missing t = [] \<and> \<not> ty_array t \<and>
      (\<exists>xs. compared_values ''='' v = Some xs \<and> list_all (validateScalar (mc_EnumValues c) t (ck_dialect k) ''='') xs)"
    with \<open>\<not> null_op ''=''\<close> have "\<exists>xs. compared_values ''='' v = Some xs \<and> list_all (validateScalar (mc_EnumValues c) t (ck_dialect k) ''='') xs"
      by simp
    then show thesis using that by blast
  qed
  then have "validateScalar (mc_EnumValues c) t (ck_dialect k) ''='' v" by (auto simp: compared_values_def)
  from scalar_spread [OF this] v have "spread v = Some [current]" by simp
  with op show ?thesis by (simp add: filter_condition_def)
qed

lemma filter_condition_column: "w \<in> set (filter_condition f) \<Longrightarrow> w_Column w = fs_Field f"
  by (auto simp: filter_condition_def Let_def zero_where_def split: if_splits option.splits)

text \<open>
  The tenant of a table that has one: every filter on it compares it with the application's tenant, and there is such a filter
  unless the settings add the tenant by themselves.
\<close>

definition tenant_bound :: "bool \<Rightarrow> gostring \<Rightarrow> goval \<Rightarrow> where_flat list \<Rightarrow> bool" where
  "tenant_bound automatic tenant current ws \<longleftrightarrow>
     (\<forall>w \<in> set ws. on_tenant tenant (w_Column w) \<longrightarrow> w_Condition w = ''='' \<and> w_Value w = Some [current]) \<and>
     (tenant = [] \<or> automatic \<or> (\<exists>w \<in> set ws. on_tenant tenant (w_Column w)))"

lemma filters_tenant_bound:
  assumes "check_filters k tenant current automatic values fs u = Inr (kept, u')" "ck_strict k"
    and implicit: "check_implicit k opts sp tenant current u' = Inr u''" "items (sp_Filters sp) = fs" "st_autoTenant (oo_Settings opts) = automatic"
  shows "tenant_bound automatic tenant current (concat (map filter_condition kept))"
  unfolding tenant_bound_def
proof (intro conjI ballI impI)
  fix w
  assume "w \<in> set (concat (map filter_condition kept))" and tenant: "on_tenant tenant (w_Column w)"
  then obtain g where g: "g \<in> set kept" "w \<in> set (filter_condition g)" by auto
  from check_filters_kept [OF assms(1) g(1)] obtain f v x x' where f: "g = bound_filter f v" "filter_value tenant current values f = Inr v"
    "checkColumn k (fs_Field f) (normalizeFilterOp (fs_Op f)) v x = Inr x'" by metis
  moreover have "on_tenant tenant (fs_Field f)" using tenant filter_condition_column [OF g(2)] f(1) by simp
  ultimately have "w = zero_where\<lparr>w_Column := fs_Field f, w_Condition := ''='', w_Value := Some [current]\<rparr>"
    using tenant_filter_admitted [OF f(2,3) assms(2)] g(2) by simp
  then show "w_Condition w = ''=''" "w_Value w = Some [current]" by simp_all
next
  have "\<exists>w \<in> set (concat (map filter_condition kept)). on_tenant tenant (w_Column w)" if "tenant \<noteq> []" "\<not> automatic"
  proof -
    have "specHasFilter sp tenant" using implicit(1,3) that by (auto simp: check_implicit_def split: if_splits)
    then obtain f where f: "f \<in> set fs" "normalizeName (fs_Field f) = normalizeName tenant"
      unfolding specHasFilter_def list_ex_iff implicit(2) by blast
    with that(1) have f: "f \<in> set fs" "on_tenant tenant (fs_Field f)" by (simp_all add: on_tenant_def)
    with check_filters_all [OF assms(1) f(1)] that(2) obtain v where kept: "bound_filter f v \<in> set kept" by auto
    from check_filters_kept [OF assms(1) kept] obtain f' v' x x' where f': "bound_filter f v = bound_filter f' v'"
      "filter_value tenant current values f' = Inr v'" "checkColumn k (fs_Field f') (normalizeFilterOp (fs_Op f')) v' x = Inr x'" by metis
    have "fs_Field f' = fs_Field f" using f'(1) bound_filter_simps(1) by metis
    with tenant_filter_admitted [OF f'(2,3) assms(2)] f(2) f'(1)
    have "filter_condition (bound_filter f v) = [zero_where\<lparr>w_Column := fs_Field f, w_Condition := ''='', w_Value := Some [current]\<rparr>]" by simp
    with kept f(2) show ?thesis by (intro bexI [of _ "zero_where\<lparr>w_Column := fs_Field f, w_Condition := ''='', w_Value := Some [current]\<rparr>"]) force+
  qed
  then show "tenant = [] \<or> automatic \<or> (\<exists>w \<in> set (concat (map filter_condition kept)). on_tenant tenant (w_Column w))" by blast
qed

text \<open>Every column the manifest requires a filter on has one, but for the tenant and for those whose absence only warns.\<close>

definition required_filters_kept :: "validation_result \<Rightarrow> bool" where
  "required_filters_kept r \<longleftrightarrow>
     (\<forall>(c, mode) \<in> set (requiredFilterColumns (vr_table r)).
        normalizeName c = normalizeName (vr_tenant r) \<or> mode = PolicyModeWarn \<or>
        (\<exists>f \<in> set (vr_filters r). normalizeName (fs_Field f) = normalizeName c))"

lemma required_kept:
  assumes "check_filters k (vr_tenant r) current automatic values (items (sp_Filters sp)) u = Inr (vr_filters r, u')"
    "check_required sp (vr_tenant r) (requiredFilterColumns (vr_table r)) = Inr rs"
  shows "required_filters_kept r"
  unfolding required_filters_kept_def
proof (intro ballI, clarify)
  fix c mode
  assume col: "(c, mode) \<in> set (requiredFilterColumns (vr_table r))" "normalizeName c \<noteq> normalizeName (vr_tenant r)"
    "\<not> (\<exists>f \<in> set (vr_filters r). normalizeName (fs_Field f) = normalizeName c)"
  show "mode = PolicyModeWarn"
  proof (rule ccontr)
    assume "mode \<noteq> PolicyModeWarn"
    with check_required_each [OF assms(2) col(1)] col(2) obtain f where f: "f \<in> set (items (sp_Filters sp))"
      "normalizeName (fs_Field f) = normalizeName c" by (auto simp: specHasFilter_def list_ex_iff)
    with col(2) have "\<not> on_tenant (vr_tenant r) (fs_Field f)" by (simp add: on_tenant_def)
    with check_filters_all [OF assms(1) f(1)] obtain v where "bound_filter f v \<in> set (vr_filters r)" by auto
    with f(2) col(3) show False by force
  qed
qed

text \<open>What a document that passed the checks compiles to.\<close>

definition admitted_query :: "operation_options \<Rightarrow> manifest \<Rightarrow> operation_spec \<Rightarrow> validation_result \<Rightarrow> where_flat list \<Rightarrow> bool" where
  "admitted_query opts m sp r ws \<longleftrightarrow>
     findTable m (sp_Model sp) = Some (vr_table r) \<and>
     list_all (\<lambda>n. \<exists>c t. declared_column (checks_of opts m (vr_table r)) n c t \<and> (mc_PII c \<longrightarrow> accessReason sp opts \<noteq> [])) (items (sp_Select sp)) \<and>
     ws = implicit_condition sp (vr_table r) @ concat (map filter_condition (vr_filters r)) \<and>
     list_all (admitted_condition (checks_of opts m (vr_table r))) ws \<and>
     (\<exists>current. tenant_of opts (vr_table r) = Inr (vr_tenant r, current) \<and>
       tenant_bound (st_autoTenant (oo_Settings opts)) (vr_tenant r) current (concat (map filter_condition (vr_filters r)))) \<and>
     required_filters_kept r"

section \<open>Properties\<close>


text \<open>Code equations of the copier that compare integers, for the evaluation of the sample below.\<close>

lemma reserve_code [code]:
  "reserve c s b =
     (if int s > max 0 (65536 - int (slots c)) \<or> int b > max 0 (8388608 - int (nbytes c)) then None
      else Some (c\<lparr>slots := slots c + s, nbytes := nbytes c + b\<rparr>))"
  by (auto simp: reserve_def MaxSlots_def PredicateView.MaxBytes_def)

lemma copyScalarSlice_code [code]:
  "copyScalarSlice c v n sz =
     (if int n > 8388608 div int sz then ((v, False, 0), c)
      else case reserve c 1 (n * sz) of None \<Rightarrow> ((v, False, 0), c) | Some c' \<Rightarrow> ((v, True, 0), c'))"
proof -
  have "8388608 div int sz = int (8388608 div sz)" using zdiv_int [of 8388608 sz] by simp
  then have "int n > 8388608 div int sz \<longleftrightarrow> n > PredicateView.MaxBytes div sz" by (simp only: PredicateView.MaxBytes_def of_nat_less_iff)
  then show ?thesis by (simp add: copyScalarSlice_def)
qed

definition sample_column :: "gostring \<Rightarrow> gostring \<Rightarrow> manifest_column" where
  [go_eval]: "sample_column name ty =
     \<lparr>mc_Name = name, mc_Type = ty, mc_TypeSource = ''sql'', mc_Nullable = True, mc_NullableKnown = True, mc_EnumValues = [], mc_PII = False,
      mc_Forbidden = False, mc_TenantScope = False, mc_SoftDelete = False, mc_RequiredFilter = False\<rparr>"

definition sample_manifest :: manifest where
  [go_eval]: "sample_manifest =
     \<lparr>mf_Version = ''1'', mf_Dialect = ''postgres'',
      mf_Tables = [\<lparr>mt_Name = ''u'', mt_Model = ''u'',
        mt_Columns = [(sample_column ''t'' ''text'')\<lparr>mc_TenantScope := True\<rparr>,
          (sample_column ''e'' ''text'')\<lparr>mc_PII := True\<rparr>, (sample_column ''a'' ''smallint'')\<lparr>mc_RequiredFilter := True\<rparr>,
          (sample_column ''d'' ''timestamp'')\<lparr>mc_SoftDelete := True\<rparr>],
        mt_Policies = []\<rparr>],
      mf_Fresh = None\<rparr>"

definition sample_operation_settings :: settings where
  [go_eval]: "sample_operation_settings =
     WithTenantPolicy ''p'' None False
       (NewSettings [(''u'', blank_policy\<lparr>pol_Table := ''u'', pol_TenantColumn := ''t''\<rparr>)] no_risk_config
         \<lparr>ec_input = \<lparr>ci_Source = ''j'', ci_CurrentTenant = VString ''x'', ci_TenantPresent = True\<rparr>, ec_application = True\<rparr>)"

definition sample_options :: operation_options where
  [go_eval]: "sample_options =
     \<lparr>oo_Settings = sample_operation_settings, oo_Manifest = Some sample_manifest, oo_Dialect = None,
      oo_Values = Some [(''s'', VScalars SInt16 (Some [VInt16 18, VInt16 19]))],
      oo_RequireFreshManifest = False, oo_AccessReason = ''r''\<rparr>"

definition literal_filter :: "gostring \<Rightarrow> gostring \<Rightarrow> goval \<Rightarrow> filter_spec" where
  [go_eval]: "literal_filter f op v =
     \<lparr>fs_Field = f, fs_Op = op, fs_Value = v, fs_ValueRef = [], fs_ValuePresent = True, fs_refPresent = False\<rparr>"

definition reference_filter :: "gostring \<Rightarrow> gostring \<Rightarrow> gostring \<Rightarrow> filter_spec" where
  [go_eval]: "reference_filter f op v =
     \<lparr>fs_Field = f, fs_Op = op, fs_Value = VNil, fs_ValueRef = v, fs_ValuePresent = False, fs_refPresent = True\<rparr>"

definition sample_operation :: "filter_spec \<Rightarrow> operation_spec" where
  [go_eval]: "sample_operation f =
     \<lparr>sp_sourceBytes = 0, sp_Version = 1, sp_Operation = [], sp_Model = ''u'', sp_Select = Some [''e''],
      sp_Filters = Some [reference_filter ''t'' ''='' ''current_tenant'', f],
      sp_OrderBy = Some [\<lparr>os_Field = ''a'', os_Direction = []\<rparr>], sp_Limit = Some 10, sp_AccessReason = []\<rparr>"

definition sample_validated :: "filter_spec \<Rightarrow> operation_error + validation_result" where
  [go_eval]: "sample_validated f = validateOperation (\<lambda>v. None) sample_options False (sample_operation f)"


text \<open>
  A list of a width the builder does not know, supplied by name, passes the checks of an IN on a required column; the compiled query
  then has no condition on that column at all.
\<close>

lemma small_list_drops_required_filter:
  "(case sample_validated (reference_filter ''a'' ''in'' ''s'') of
      Inl e \<Rightarrow> False
    | Inr r \<Rightarrow>
        list_ex (\<lambda>c. fst c = ''a'') (requiredFilterColumns (vr_table r)) \<and>
        (let q = compile_query 0 True sample_options (sample_operation (reference_filter ''a'' ''in'' ''s'')) r
         in fq_err q = None \<and> map (\<lambda>c. w_Column (wf c)) (b_Conditions (fq_where q)) = [''d'', ''t'']))"
  by code_simp

end
