(* ===== verification/Observation.thy ===== *)
theory Observation
  imports GoPrelude
begin

text \<open>
  Observation of statements (\<^verbatim>\<open>orm/internal/observe/state.go\<close>, \<^verbatim>\<open>types.go\<close>, \<^verbatim>\<open>rows.go\<close>): a scope that counts the statements an
  application dispatches, refuses those over its budget, and records an event for each.  Every operation holds the scope's lock from
  its first to its last access, so concurrent use is a sequence of operations.  A ticket is a number that is given once; times are
  nanoseconds read by the caller.
\<close>

section \<open>Metrics and events\<close>

definition MaxNumber :: int where [go_eval]: "MaxNumber = 9007199254740991"
definition MaxEvents :: nat where [go_eval]: "MaxEvents = 256"
definition MaxTracking :: nat where [go_eval]: "MaxTracking = 1024"
definition MaxShapes :: nat where [go_eval]: "MaxShapes = 128"
definition Coverage :: gostring where [go_eval]: "Coverage = ''goquent_executor_boundaries''"

record metric =
  me_Known :: bool
  me_Value :: int

definition no_metric :: metric where
  [go_eval]: "no_metric = \<lparr>me_Known = False, me_Value = 0\<rparr>"

definition known_metric :: "int \<Rightarrow> metric" where
  [go_eval]: "known_metric n = \<lparr>me_Known = True, me_Value = n\<rparr>"

definition bounded_number :: "int \<Rightarrow> int" where
  [go_eval]: "bounded_number n = (if n < 0 then 0 else if n > MaxNumber then MaxNumber else n)"

definition metric_safe :: "metric \<Rightarrow> metric" where
  [go_eval]: "metric_safe m = m\<lparr>me_Value := bounded_number (if me_Known m then me_Value m else 0)\<rparr>"

definition fixed :: "gostring list \<Rightarrow> gostring \<Rightarrow> gostring" where
  [go_eval]: "fixed vs s = (if s \<in> set vs then s else ''unknown'')"

record event =
  ev_Saturated :: bool
  ev_Kind :: gostring
  ev_Version :: int
  ev_Coverage :: gostring
  ev_Class :: gostring
  ev_Method :: gostring
  ev_Outcome :: gostring
  ev_Code :: gostring
  ev_DispatchNS :: metric
  ev_LifecycleNS :: metric
  ev_Consumed :: metric
  ev_Scans :: metric
  ev_Returned :: metric
  ev_Affected :: metric

definition new_event :: "gostring \<Rightarrow> gostring \<Rightarrow> gostring \<Rightarrow> gostring \<Rightarrow> event" where
  [go_eval]: "new_event cls meth outcome code =
     \<lparr>ev_Saturated = False, ev_Kind = [], ev_Version = 0, ev_Coverage = [], ev_Class = cls, ev_Method = meth, ev_Outcome = outcome,
      ev_Code = code, ev_DispatchNS = no_metric, ev_LifecycleNS = no_metric, ev_Consumed = no_metric, ev_Scans = no_metric,
      ev_Returned = no_metric, ev_Affected = no_metric\<rparr>"

definition event_classes :: "gostring list" where [go_eval]: "event_classes = [''query'', ''internal'', ''transaction'']"
definition event_methods :: "gostring list" where
  [go_eval]: "event_methods = [''exec'', ''query'', ''row'', ''begin'', ''commit'', ''rollback'', ''terminal'']"
definition event_outcomes :: "gostring list" where
  [go_eval]: "event_outcomes = [''success'', ''error'', ''rejected'', ''partial'', ''incomplete'', ''handoff'', ''tracking_limited'']"
definition event_codes :: "gostring list" where
  [go_eval]: "event_codes =
     [''none'', ''cancelled'', ''deadline'', ''no_rows'', ''dispatch'', ''scan'', ''rows'', ''close'', ''result'', ''policy'',
      ''QUERY_BUDGET_EXCEEDED'', ''N_PLUS_ONE_SUSPECTED'', ''tracking_limited'']"

definition event_metrics :: "event \<Rightarrow> metric list" where
  [go_eval]: "event_metrics e = [ev_DispatchNS e, ev_LifecycleNS e, ev_Consumed e, ev_Scans e, ev_Returned e, ev_Affected e]"

definition event_safe :: "event \<Rightarrow> event" where
  [go_eval]: "event_safe e =
     \<lparr>ev_Saturated = ev_Saturated e \<or> list_ex (\<lambda>m. me_Known m \<and> (me_Value m < 0 \<or> me_Value m > MaxNumber)) (event_metrics e),
      ev_Kind = ''goquent.observation_event'', ev_Version = 1, ev_Coverage = Coverage, ev_Class = fixed event_classes (ev_Class e),
      ev_Method = fixed event_methods (ev_Method e), ev_Outcome = fixed event_outcomes (ev_Outcome e), ev_Code = fixed event_codes (ev_Code e),
      ev_DispatchNS = metric_safe (ev_DispatchNS e), ev_LifecycleNS = metric_safe (ev_LifecycleNS e), ev_Consumed = metric_safe (ev_Consumed e),
      ev_Scans = metric_safe (ev_Scans e), ev_Returned = metric_safe (ev_Returned e), ev_Affected = metric_safe (ev_Affected e)\<rparr>"

section \<open>The summary\<close>

text \<open>The counters, which \<^verbatim>\<open>add\<close> takes by reference.\<close>

datatype counter =
    NAttempted | NDispatched | NRejected | NPreflightRejected | NCompleted | NIncomplete | NInFlight | NHandoffs | NTrackingLimited
  | NSuccessful | NFailed | NPartial | NDispatchNS | NLifecycleNS | NWallNS | NConsumed | NScans | NReturned | NReturnedKnown
  | NTxBoundaries | NTxErrors | NSuspectedGroups | NMaxRepeat | NShapeUnknown | NDropped

record summary =
  su_Finished :: bool
  su_Saturated :: bool
  su_Truncated :: bool
  su_count :: "counter \<Rightarrow> int"

definition new_summary :: summary where
  [go_eval]: "new_summary = \<lparr>su_Finished = False, su_Saturated = False, su_Truncated = False, su_count = (\<lambda>c. 0)\<rparr>"

definition set_count :: "counter \<Rightarrow> int \<Rightarrow> summary \<Rightarrow> summary" where
  [go_eval]: "set_count c n v = v\<lparr>su_count := (su_count v)(c := n)\<rparr>"

definition bump :: "counter \<Rightarrow> int \<Rightarrow> summary \<Rightarrow> summary" where
  [go_eval]: "bump c n v =
     (if n < 0 \<or> n > MaxNumber - su_count v c then (set_count c MaxNumber v)\<lparr>su_Saturated := True\<rparr>
      else set_count c (su_count v c + n) v)"

definition all_counters :: "counter list" where
  [go_eval]: "all_counters =
     [NAttempted, NDispatched, NRejected, NPreflightRejected, NCompleted, NIncomplete, NInFlight, NHandoffs, NTrackingLimited, NSuccessful,
      NFailed, NPartial, NDispatchNS, NLifecycleNS, NWallNS, NConsumed, NScans, NReturned, NReturnedKnown, NTxBoundaries, NTxErrors,
      NSuspectedGroups, NMaxRepeat, NShapeUnknown, NDropped]"

definition summary_safe :: "summary \<Rightarrow> summary" where
  [go_eval]: "summary_safe v =
     v\<lparr>su_Saturated := su_Saturated v \<or> list_ex (\<lambda>c. su_count v c < 0 \<or> su_count v c > MaxNumber) all_counters,
       su_count := (\<lambda>c. bounded_number (su_count v c))\<rparr>"

section \<open>The scope\<close>

record ticket =
  ti_start :: int
  ti_event :: event
  ti_group :: "nat option"
  ti_eligible :: bool

text \<open>
  Groups of equal statements are counted in shared cells: a shape and a ticket hold the cell's index.  The table of shapes and the
  set of pending tickets are maps of the code.
\<close>

record obs_state =
  ob_start :: int
  ob_finished :: bool
  ob_budget :: bool
  ob_limit :: int
  ob_used :: int
  ob_repeat :: bool
  ob_sum :: summary
  ob_pending :: "(nat \<times> ticket) list"
  ob_shapes :: "((nat \<times> gostring) \<times> nat) list"
  ob_groups :: "int list"
  ob_events :: "event list"
  ob_draining :: bool
  ob_next :: nat

definition Start :: "int \<Rightarrow> int option \<Rightarrow> bool \<Rightarrow> obs_state option" where
  [go_eval]: "Start now limit repeat =
     (case limit of
        Some n \<Rightarrow> if n < 0 \<or> n > MaxNumber then None else Some
          \<lparr>ob_start = now, ob_finished = False, ob_budget = True, ob_limit = n, ob_used = 0, ob_repeat = repeat, ob_sum = new_summary,
           ob_pending = [], ob_shapes = [], ob_groups = [], ob_events = [], ob_draining = False, ob_next = 0\<rparr>
      | None \<Rightarrow> Some
          \<lparr>ob_start = now, ob_finished = False, ob_budget = False, ob_limit = 0, ob_used = 0, ob_repeat = repeat, ob_sum = new_summary,
           ob_pending = [], ob_shapes = [], ob_groups = [], ob_events = [], ob_draining = False, ob_next = 0\<rparr>)"

definition on_sum :: "(summary \<Rightarrow> summary) \<Rightarrow> obs_state \<Rightarrow> obs_state" where
  [go_eval]: "on_sum f s = s\<lparr>ob_sum := f (ob_sum s)\<rparr>"

definition truncated :: "obs_state \<Rightarrow> obs_state" where
  [go_eval]: "truncated = on_sum (\<lambda>v. v\<lparr>su_Truncated := True\<rparr>)"

definition saturated :: "obs_state \<Rightarrow> obs_state" where
  [go_eval]: "saturated = on_sum (\<lambda>v. v\<lparr>su_Saturated := True\<rparr>)"

definition count_up :: "counter \<Rightarrow> int \<Rightarrow> obs_state \<Rightarrow> obs_state" where
  [go_eval]: "count_up c n = on_sum (bump c n)"

definition enqueue :: "event \<Rightarrow> obs_state \<Rightarrow> obs_state" where
  [go_eval]: "enqueue e s =
     (if length (ob_events s) = MaxEvents then truncated (count_up NDropped 1 s) else s\<lparr>ob_events := ob_events s @ [event_safe e]\<rparr>)"

subsection \<open>Dispatching a statement\<close>

datatype begun = Tracked nat | Untracked | OverBudget

text \<open>The group of a statement's shape, made when the table has room for it.\<close>

definition shape_group :: "nat option \<Rightarrow> gostring \<Rightarrow> bool \<Rightarrow> obs_state \<Rightarrow> nat option \<times> obs_state" where
  [go_eval]: "shape_group owner k eligible s =
     (case owner of
        None \<Rightarrow> (None, s)
      | Some n \<Rightarrow>
          if \<not> (ob_repeat s \<and> eligible \<and> k \<noteq> [] \<and> length k \<le> 2048) then (None, s)
          else case map_of (ob_shapes s) (n, k) of
              Some g \<Rightarrow> (Some g, s)
            | None \<Rightarrow>
                if length (ob_shapes s) < MaxShapes then
                  (Some (length (ob_groups s)),
                   s\<lparr>ob_shapes := ((n, k), length (ob_groups s)) # ob_shapes s, ob_groups := ob_groups s @ [0]\<rparr>)
                else (None, truncated s))"

definition over_budget :: "obs_state \<Rightarrow> bool" where
  [go_eval]: "over_budget s \<longleftrightarrow> ob_budget s \<and> ob_used s \<ge> ob_limit s"

text \<open>A statement that is not tracked because too many are under way.\<close>

definition tracking_limited :: "gostring \<Rightarrow> gostring \<Rightarrow> bool \<Rightarrow> obs_state \<Rightarrow> obs_state" where
  [go_eval]: "tracking_limited cls meth eligible s =
     (let s = truncated (count_up NIncomplete 1 (count_up NTrackingLimited 1 s));
          s = (if eligible \<and> ob_repeat s then count_up NShapeUnknown 1 s else s)
      in enqueue (new_event cls meth ''tracking_limited'' ''tracking_limited'') s)"

definition track :: "int \<Rightarrow> gostring \<Rightarrow> gostring \<Rightarrow> nat option \<Rightarrow> gostring \<Rightarrow> bool \<Rightarrow> obs_state \<Rightarrow> begun \<times> obs_state" where
  [go_eval]: "track now cls meth owner k eligible s =
     (let s = (if ob_repeat s \<and> length k > 2048 then truncated s else s); (g, s) = shape_group owner k eligible s;
          t = \<lparr>ti_start = now, ti_event = new_event cls meth [] [], ti_group = g, ti_eligible = eligible\<rparr>
      in (Tracked (ob_next s), count_up NInFlight 1 (s\<lparr>ob_pending := (ob_next s, t) # ob_pending s, ob_next := ob_next s + 1\<rparr>)))"

definition BeginTicket ::
  "int \<Rightarrow> gostring \<Rightarrow> gostring \<Rightarrow> nat option \<Rightarrow> gostring \<Rightarrow> bool \<Rightarrow> obs_state \<Rightarrow> begun \<times> obs_state" where
  [go_eval]: "BeginTicket now cls meth owner k eligible s =
     (let s = (if ob_finished s then s else count_up NAttempted 1 s)
      in if over_budget s then
           (OverBudget, if ob_finished s then s else enqueue (new_event cls meth ''rejected'' ''QUERY_BUDGET_EXCEEDED'') (count_up NRejected 1 s))
         else let s = (if ob_used s < MaxNumber then s\<lparr>ob_used := ob_used s + 1\<rparr> else s)
           in if ob_finished s then (Untracked, s)
              else let s = count_up NDispatched 1 s
                in if length (ob_pending s) \<ge> MaxTracking then (Untracked, tracking_limited cls meth eligible s)
                   else track now cls meth owner k eligible s)"

text \<open>The errors \<^verbatim>\<open>Classify\<close> tells apart by identity.\<close>

datatype db_error = Canceled | DeadlineExceeded | NoRows | BudgetExceeded | OtherDbError nat

definition Classify :: "db_error option \<Rightarrow> gostring \<Rightarrow> gostring" where
  [go_eval]: "Classify e fallback =
     (case e of
        None \<Rightarrow> ''none''
      | Some Canceled \<Rightarrow> ''cancelled''
      | Some DeadlineExceeded \<Rightarrow> ''deadline''
      | Some NoRows \<Rightarrow> ''no_rows''
      | Some BudgetExceeded \<Rightarrow> ''QUERY_BUDGET_EXCEEDED''
      | Some (OtherDbError n) \<Rightarrow> fallback)"

definition Reject :: "db_error option list \<Rightarrow> obs_state \<Rightarrow> obs_state" where
  [go_eval]: "Reject causes s =
     (if ob_finished s then s
      else enqueue (new_event ''query'' ''terminal'' ''rejected'' (case causes of [] \<Rightarrow> ''unknown'' | c # _ \<Rightarrow> Classify c ''unknown''))
        (count_up NPreflightRejected 1 s))"

subsection \<open>A ticket under way\<close>

definition on_ticket :: "nat \<Rightarrow> (ticket \<Rightarrow> ticket) \<Rightarrow> obs_state \<Rightarrow> obs_state" where
  [go_eval]: "on_ticket t f s = s\<lparr>ob_pending := map (\<lambda>(i, x). (i, if i = t then f x else x)) (ob_pending s)\<rparr>"

definition on_event :: "nat \<Rightarrow> (event \<Rightarrow> event) \<Rightarrow> obs_state \<Rightarrow> obs_state" where
  [go_eval]: "on_event t f = on_ticket t (\<lambda>x. x\<lparr>ti_event := f (ti_event x)\<rparr>)"

definition Dispatch :: "int \<Rightarrow> nat \<Rightarrow> obs_state \<Rightarrow> obs_state" where
  [go_eval]: "Dispatch now t = on_ticket t (\<lambda>x. x\<lparr>ti_event := (ti_event x)\<lparr>ev_DispatchNS := known_metric (now - ti_start x)\<rparr>\<rparr>)"

definition Update :: "nat \<Rightarrow> int \<Rightarrow> int \<Rightarrow> obs_state \<Rightarrow> obs_state" where
  [go_eval]: "Update t consumed scans = on_event t (\<lambda>e. e\<lparr>ev_Consumed := known_metric consumed, ev_Scans := known_metric scans\<rparr>)"

definition Affected :: "nat \<Rightarrow> int \<Rightarrow> bool \<Rightarrow> obs_state \<Rightarrow> obs_state" where
  [go_eval]: "Affected t n known = on_event t (\<lambda>e. e\<lparr>ev_Affected := \<lparr>me_Known = known, me_Value = n\<rparr>\<rparr>)"

definition Saturate :: "nat \<Rightarrow> obs_state \<Rightarrow> obs_state" where
  [go_eval]: "Saturate t s =
     (case map_of (ob_pending s) t of None \<Rightarrow> s | Some x \<Rightarrow> saturated (on_event t (\<lambda>e. e\<lparr>ev_Saturated := True\<rparr>) s))"

subsection \<open>Ending a ticket\<close>

definition outcome_counters :: "gostring \<Rightarrow> counter list" where
  [go_eval]: "outcome_counters outcome =
     (if outcome = ''incomplete'' then [NIncomplete]
      else if outcome = ''handoff'' then [NIncomplete, NHandoffs]
      else if outcome = ''success'' then [NCompleted, NSuccessful]
      else if outcome = ''partial'' then [NCompleted, NPartial]
      else [NCompleted, NFailed])"

text \<open>Repetition: the fifth success of a group is suspected to be one query per row.\<close>

definition note_repeat :: "ticket \<Rightarrow> event \<Rightarrow> obs_state \<Rightarrow> event \<times> obs_state" where
  [go_eval]: "note_repeat x e s =
     (if \<not> (ob_repeat s \<and> ti_eligible x) then (e, s)
      else case (if (ev_Outcome e = ''success'' \<or> ev_Outcome e = ''partial'') \<and> ev_Code e = ''none'' then ti_group x else None) of
          None \<Rightarrow> (e, count_up NShapeUnknown 1 s)
        | Some g \<Rightarrow>
            let s = (if ob_groups s ! g < MaxNumber then s\<lparr>ob_groups := (ob_groups s)[g := ob_groups s ! g + 1]\<rparr> else saturated s);
                n = ob_groups s ! g;
                s = (if n > su_count (ob_sum s) NMaxRepeat then on_sum (set_count NMaxRepeat n) s else s)
            in if n = 5 then (e\<lparr>ev_Code := ''N_PLUS_ONE_SUSPECTED''\<rparr>, count_up NSuspectedGroups 1 s) else (e, s))"

definition settle :: "nat \<Rightarrow> ticket \<Rightarrow> event \<Rightarrow> obs_state \<Rightarrow> obs_state" where
  [go_eval]: "settle t x e0 s =
     (let s = on_sum (\<lambda>v. set_count NInFlight (su_count v NInFlight - 1) v) (s\<lparr>ob_pending := filter (\<lambda>p. fst p \<noteq> t) (ob_pending s)\<rparr>);
          e = event_safe e0;
          s = (if ev_Saturated e then saturated s else s);
          s = fold (\<lambda>c. count_up c 1) (outcome_counters (ev_Outcome e)) s;
          s = count_up NDispatchNS (me_Value (ev_DispatchNS e)) s;
          s = count_up NLifecycleNS (me_Value (ev_LifecycleNS e)) s;
          s = count_up NConsumed (me_Value (ev_Consumed e)) s;
          s = count_up NScans (me_Value (ev_Scans e)) s;
          s = (if me_Known (ev_Returned e) then count_up NReturned (me_Value (ev_Returned e)) (count_up NReturnedKnown 1 s) else s);
          (e, s) = note_repeat x e s
      in enqueue e s)"

definition EndTicket :: "int \<Rightarrow> nat \<Rightarrow> gostring \<Rightarrow> gostring \<Rightarrow> metric \<Rightarrow> metric \<Rightarrow> metric \<Rightarrow> obs_state \<Rightarrow> obs_state" where
  [go_eval]: "EndTicket now t outcome code consumed scans returned s =
     (case map_of (ob_pending s) t of
        None \<Rightarrow> s
      | Some x \<Rightarrow>
          let e = (ti_event x)\<lparr>ev_Outcome := outcome, ev_Code := code, ev_Consumed := consumed, ev_Scans := scans, ev_Returned := returned\<rparr>;
              e = (if outcome \<noteq> ''handoff'' then e\<lparr>ev_LifecycleNS := known_metric (now - ti_start x)\<rparr> else e)
          in settle t x e s)"

subsection \<open>Reading and finishing\<close>

definition wall_time :: "int \<Rightarrow> obs_state \<Rightarrow> obs_state" where
  [go_eval]: "wall_time now s =
     (let elapsed = now - ob_start s; s = on_sum (set_count NWallNS (bounded_number elapsed)) s
      in if elapsed < 0 \<or> elapsed > MaxNumber then saturated s else s)"

definition ObservationSnapshot :: "int \<Rightarrow> obs_state \<Rightarrow> summary" where
  [go_eval]: "ObservationSnapshot now s =
     summary_safe ((ob_sum (if ob_finished s then s else wall_time now s))\<lparr>su_Finished := ob_finished s\<rparr>)"

text \<open>The pending tickets are ended in the order in which the code's map is iterated, which is given.\<close>

definition abandon :: "nat \<Rightarrow> obs_state \<Rightarrow> obs_state" where
  [go_eval]: "abandon t s =
     (case map_of (ob_pending s) t of
        None \<Rightarrow> s
      | Some x \<Rightarrow> settle t x ((ti_event x)\<lparr>ev_Outcome := ''incomplete'', ev_Code := ''unknown''\<rparr>) s)"

definition Finish :: "int \<Rightarrow> nat list \<Rightarrow> obs_state \<Rightarrow> obs_state" where
  [go_eval]: "Finish now order s =
     (if ob_finished s then s else (wall_time now (fold abandon order s))\<lparr>ob_finished := True, ob_shapes := []\<rparr>)"

definition finished_summary :: "obs_state \<Rightarrow> summary" where
  [go_eval]: "finished_summary s = summary_safe ((ob_sum s)\<lparr>su_Finished := True\<rparr>)"

text \<open>Delivery: one call at a time takes the recorded events; the hook's calls come between the two steps.\<close>

definition DrainTake :: "obs_state \<Rightarrow> (event list \<times> obs_state) option" where
  [go_eval]: "DrainTake s = (if ob_draining s then None else Some (ob_events s, s\<lparr>ob_draining := True, ob_events := []\<rparr>))"

definition DrainDone :: "obs_state \<Rightarrow> obs_state" where
  [go_eval]: "DrainDone s = s\<lparr>ob_draining := False\<rparr>"

definition deliver :: "(event \<Rightarrow> bool) \<Rightarrow> event list \<Rightarrow> nat \<times> nat" where
  [go_eval]: "deliver hook_panics batch = (length batch, length (filter (\<lambda>e. hook_panics (event_safe e)) batch))"

definition Tx :: "gostring \<Rightarrow> db_error option \<Rightarrow> int \<Rightarrow> obs_state \<Rightarrow> obs_state" where
  [go_eval]: "Tx meth e d s =
     (if ob_finished s then s
      else let s = count_up NTxBoundaries 1 s; s = (if e \<noteq> None then count_up NTxErrors 1 s else s)
        in enqueue ((new_event ''transaction'' meth (if e \<noteq> None then ''error'' else ''success'') (Classify e ''unknown''))
             \<lparr>ev_LifecycleNS := known_metric d\<rparr>) s)"

section \<open>What an observation can do\<close>

text \<open>
  One operation of a scope, with the number of statements it let the application dispatch.  The order in which \<^verbatim>\<open>Finish\<close> meets
  the pending tickets is any order of them.
\<close>

inductive observe_step :: "obs_state \<Rightarrow> nat \<Rightarrow> obs_state \<Rightarrow> bool" where
  admitted: "BeginTicket now cls meth owner k eligible s = (r, s') \<Longrightarrow> r \<noteq> OverBudget \<Longrightarrow> observe_step s 1 s'"
| refused: "BeginTicket now cls meth owner k eligible s = (OverBudget, s') \<Longrightarrow> observe_step s 0 s'"
| rejected: "observe_step s 0 (Reject causes s)"
| dispatched: "observe_step s 0 (Dispatch now t s)"
| updated: "observe_step s 0 (Update t consumed scans s)"
| affected: "observe_step s 0 (Affected t n known s)"
| overflowed: "observe_step s 0 (Saturate t s)"
| ended: "observe_step s 0 (EndTicket now t outcome code consumed' scans' returned s)"
| finished: "set order = fst ` set (ob_pending s) \<Longrightarrow> observe_step s 0 (Finish now order s)"
| transaction: "observe_step s 0 (Tx meth e d s)"
| taken: "DrainTake s = Some (batch, s') \<Longrightarrow> observe_step s 0 s'"
| delivered: "observe_step s 0 (DrainDone s)"

inductive_cases observe_stepE: "observe_step s k s'"

text \<open>The scopes an application reaches, with the number of statements it was let dispatch in all.\<close>

inductive observed :: "int option \<Rightarrow> bool \<Rightarrow> nat \<Rightarrow> obs_state \<Rightarrow> bool" for limit :: "int option" and repeat :: bool where
  started: "Start now limit repeat = Some s \<Longrightarrow> observed limit repeat 0 s"
| stepped: "observed limit repeat n s \<Longrightarrow> observe_step s k s' \<Longrightarrow> observed limit repeat (n + k) s'"

section \<open>Counting\<close>

abbreviation cnt :: "obs_state \<Rightarrow> counter \<Rightarrow> int" where "cnt s \<equiv> su_count (ob_sum s)"
abbreviation sat :: "obs_state \<Rightarrow> bool" where "sat s \<equiv> su_Saturated (ob_sum s)"

lemma on_sum_frame [simp]:
  "ob_sum (on_sum f s) = f (ob_sum s)" "ob_start (on_sum f s) = ob_start s" "ob_finished (on_sum f s) = ob_finished s"
  "ob_budget (on_sum f s) = ob_budget s" "ob_limit (on_sum f s) = ob_limit s" "ob_used (on_sum f s) = ob_used s"
  "ob_repeat (on_sum f s) = ob_repeat s" "ob_pending (on_sum f s) = ob_pending s" "ob_shapes (on_sum f s) = ob_shapes s"
  "ob_groups (on_sum f s) = ob_groups s" "ob_events (on_sum f s) = ob_events s" "ob_draining (on_sum f s) = ob_draining s"
  "ob_next (on_sum f s) = ob_next s"
  by (simp_all add: on_sum_def)

lemma bump_count: "su_count (bump c n v) d =
    (if d \<noteq> c then su_count v d else if n < 0 \<or> n > MaxNumber - su_count v c then MaxNumber else su_count v c + n)"
  by (simp add: bump_def set_count_def)

lemma bump_other [simp]: "d \<noteq> c \<Longrightarrow> su_count (bump c n v) d = su_count v d"
  by (simp add: bump_count)

lemma bump_saturated: "su_Saturated (bump c n v) \<longleftrightarrow> su_Saturated v \<or> n < 0 \<or> n > MaxNumber - su_count v c"
  by (simp add: bump_def set_count_def)

lemma set_count_simps [simp]: "su_count (set_count c n v) d = (if d = c then n else su_count v d)" "su_Saturated (set_count c n v) = su_Saturated v"
  by (simp_all add: set_count_def)

lemmas count_defs = count_up_def truncated_def saturated_def

text \<open>Every counter stays within the largest exact number.\<close>

definition in_range :: "summary \<Rightarrow> bool" where
  "in_range v \<longleftrightarrow> (\<forall>c. 0 \<le> su_count v c \<and> su_count v c \<le> MaxNumber)"

named_theorems ranged

lemma range_bump [ranged]: "in_range v \<Longrightarrow> in_range (bump c n v)"
  by (auto simp: in_range_def bump_count MaxNumber_def)

lemma range_set [ranged]: "in_range v \<Longrightarrow> 0 \<le> n \<Longrightarrow> n \<le> MaxNumber \<Longrightarrow> in_range (set_count c n v)"
  by (simp add: in_range_def)

lemma range_flags [ranged]: "in_range v \<Longrightarrow> in_range (v\<lparr>su_Truncated := b\<rparr>)" "in_range v \<Longrightarrow> in_range (v\<lparr>su_Saturated := b\<rparr>)"
  by (simp_all add: in_range_def)

lemma range_enqueue [ranged]: "in_range (ob_sum s) \<Longrightarrow> in_range (ob_sum (enqueue e s))"
  by (simp add: enqueue_def count_defs ranged)

section \<open>The invariant\<close>

definition group_ok :: "obs_state \<Rightarrow> nat option \<Rightarrow> bool" where
  "group_ok s g \<longleftrightarrow> (\<forall>i. g = Some i \<longrightarrow> i < length (ob_groups s))"

definition well_kept :: "obs_state \<Rightarrow> bool" where
  "well_kept s \<longleftrightarrow>
     distinct (map fst (ob_pending s)) \<and> (\<forall>p \<in> set (ob_pending s). fst p < ob_next s \<and> group_ok s (ti_group (snd p))) \<and>
     length (ob_pending s) \<le> MaxTracking \<and> length (ob_events s) \<le> MaxEvents \<and> length (ob_shapes s) \<le> MaxShapes \<and>
     (\<forall>p \<in> set (ob_shapes s). snd p < length (ob_groups s)) \<and> (\<forall>g \<in> set (ob_groups s). 0 \<le> g \<and> g \<le> MaxNumber) \<and>
     (ob_finished s \<longrightarrow> ob_pending s = [])"

text \<open>
  The tickets in flight are those pending; and while no counter has overflowed, every attempt was refused or dispatched, every
  dispatched statement is completed, given up or in flight, and every completed one succeeded, failed or was read in part.
\<close>

definition balanced :: "obs_state \<Rightarrow> bool" where
  "balanced s \<longleftrightarrow>
     cnt s NInFlight = int (length (ob_pending s)) \<and>
     (sat s \<or>
       cnt s NAttempted = cnt s NRejected + cnt s NDispatched \<and>
       cnt s NDispatched = cnt s NCompleted + cnt s NIncomplete + cnt s NInFlight \<and>
       cnt s NCompleted = cnt s NSuccessful + cnt s NFailed + cnt s NPartial \<and>
       cnt s NHandoffs + cnt s NTrackingLimited \<le> cnt s NIncomplete \<and> cnt s NTxErrors \<le> cnt s NTxBoundaries)"

definition invariant :: "obs_state \<Rightarrow> bool" where
  "invariant s \<longleftrightarrow> well_kept s \<and> in_range (ob_sum s) \<and> balanced s"

text \<open>The counters the ledger speaks of.\<close>

definition ledger :: "counter set" where
  "ledger = {NAttempted, NRejected, NDispatched, NCompleted, NIncomplete, NInFlight, NSuccessful, NFailed, NPartial, NHandoffs, NTrackingLimited,
     NTxErrors, NTxBoundaries}"

lemma ledger_members [simp]:
  "NAttempted \<in> ledger" "NRejected \<in> ledger" "NDispatched \<in> ledger" "NCompleted \<in> ledger" "NIncomplete \<in> ledger" "NInFlight \<in> ledger"
  "NSuccessful \<in> ledger" "NFailed \<in> ledger" "NPartial \<in> ledger" "NHandoffs \<in> ledger" "NTrackingLimited \<in> ledger" "NTxErrors \<in> ledger"
  "NTxBoundaries \<in> ledger"
  by (simp_all add: ledger_def)

text \<open>A step that keeps the tickets and the counters of the ledger.\<close>

definition neutral :: "obs_state \<Rightarrow> obs_state \<Rightarrow> bool" where
  "neutral s s' \<longleftrightarrow>
     (\<forall>c \<in> ledger. cnt s' c = cnt s c) \<and> (sat s \<longrightarrow> sat s') \<and> map fst (ob_pending s') = map fst (ob_pending s)"

lemma neutral_refl [simp]: "neutral s s"
  by (simp add: neutral_def)

lemma neutral_trans [trans]: "neutral s s' \<Longrightarrow> neutral s' s'' \<Longrightarrow> neutral s s''"
  by (simp add: neutral_def)

lemma neutral_balanced: "neutral s s' \<Longrightarrow> balanced s \<Longrightarrow> balanced s'"
proof -
  assume n: "neutral s s'" and b: "balanced s"
  have c: "cnt s' c = cnt s c" if "c \<in> ledger" for c using n that by (simp add: neutral_def)
  have len: "length (ob_pending s') = length (ob_pending s)" using n map_eq_imp_length_eq by (auto simp: neutral_def)
  have "\<not> sat s' \<Longrightarrow> \<not> sat s" using n by (auto simp: neutral_def)
  with b show ?thesis by (auto simp: balanced_def c len)
qed

lemma neutral_count: "c \<notin> ledger \<Longrightarrow> neutral s (count_up c n s)"
  by (auto simp: neutral_def count_defs bump_count bump_saturated)

lemma neutral_then: "neutral s s' \<Longrightarrow> c \<notin> ledger \<Longrightarrow> neutral s (count_up c n s')"
  by (rule neutral_trans [OF _ neutral_count])

lemma neutral_flags: "neutral s (truncated s)" "neutral s (saturated s)"
  by (auto simp: neutral_def count_defs)

lemma dropped_outside [simp]:
  "NDropped \<notin> ledger" "NShapeUnknown \<notin> ledger" "NMaxRepeat \<notin> ledger" "NSuspectedGroups \<notin> ledger" "NDispatchNS \<notin> ledger"
  "NLifecycleNS \<notin> ledger" "NConsumed \<notin> ledger" "NScans \<notin> ledger" "NReturned \<notin> ledger" "NReturnedKnown \<notin> ledger" "NPreflightRejected \<notin> ledger"
  "NWallNS \<notin> ledger"
  by (simp_all add: ledger_def)

lemma neutral_enqueue: "neutral s (enqueue e s)"
proof -
  have "neutral s (s\<lparr>ob_events := es\<rparr>)" for es by (simp add: neutral_def)
  moreover have "neutral s (truncated (count_up NDropped 1 s))" using neutral_trans [OF neutral_count neutral_flags(1)] by simp
  ultimately show ?thesis by (simp add: enqueue_def)
qed

lemma enqueue_frame [simp]:
  "ob_finished (enqueue e s) = ob_finished s" "ob_budget (enqueue e s) = ob_budget s" "ob_limit (enqueue e s) = ob_limit s"
  "ob_used (enqueue e s) = ob_used s" "ob_repeat (enqueue e s) = ob_repeat s" "ob_pending (enqueue e s) = ob_pending s"
  "ob_shapes (enqueue e s) = ob_shapes s" "ob_groups (enqueue e s) = ob_groups s" "ob_next (enqueue e s) = ob_next s"
  by (simp_all add: enqueue_def count_defs)

lemma enqueue_bounded: "length (ob_events s) \<le> MaxEvents \<Longrightarrow> length (ob_events (enqueue e s)) \<le> MaxEvents"
  by (simp add: enqueue_def count_defs)

text \<open>A well-kept scope stays so when its tickets and tables do not change.\<close>

lemma well_kept_frame:
  assumes "well_kept s" "ob_pending s' = ob_pending s" "ob_next s' = ob_next s" "ob_shapes s' = ob_shapes s" "ob_groups s' = ob_groups s"
    "ob_finished s' = ob_finished s" "length (ob_events s') \<le> MaxEvents"
  shows "well_kept s'"
  using assms by (simp add: well_kept_def group_ok_def)

lemma well_kept_events: "well_kept s \<Longrightarrow> length (ob_events s) \<le> MaxEvents"
  by (simp add: well_kept_def)

lemma well_kept_sum [simp]: "well_kept (on_sum f s) = well_kept s"
  by (simp add: well_kept_def group_ok_def)

lemma well_kept_counts [simp]: "well_kept (count_up c n s) = well_kept s" "well_kept (truncated s) = well_kept s" "well_kept (saturated s) = well_kept s"
  by (simp_all add: count_defs)

lemma well_kept_enqueue: "well_kept s \<Longrightarrow> well_kept (enqueue e s)"
  by (rule well_kept_frame [of s]) (simp_all add: enqueue_bounded well_kept_events)

subsection \<open>Ending a ticket\<close>

lemma count_frame [simp]:
  "ob_finished (count_up c n s) = ob_finished s" "ob_pending (count_up c n s) = ob_pending s" "ob_shapes (count_up c n s) = ob_shapes s"
  "ob_groups (count_up c n s) = ob_groups s" "ob_next (count_up c n s) = ob_next s" "ob_repeat (count_up c n s) = ob_repeat s"
  "ob_events (count_up c n s) = ob_events s"
  "ob_finished (truncated s) = ob_finished s" "ob_pending (truncated s) = ob_pending s" "ob_shapes (truncated s) = ob_shapes s"
  "ob_groups (truncated s) = ob_groups s" "ob_next (truncated s) = ob_next s" "ob_repeat (truncated s) = ob_repeat s"
  "ob_finished (saturated s) = ob_finished s" "ob_pending (saturated s) = ob_pending s" "ob_shapes (saturated s) = ob_shapes s"
  "ob_groups (saturated s) = ob_groups s" "ob_next (saturated s) = ob_next s" "ob_repeat (saturated s) = ob_repeat s"
  by (simp_all add: count_defs)

lemma fold_frame [simp]:
  "ob_pending (fold (\<lambda>c. count_up c n) cs s) = ob_pending s" "well_kept (fold (\<lambda>c. count_up c n) cs s) = well_kept s"
  "ob_groups (fold (\<lambda>c. count_up c n) cs s) = ob_groups s" "ob_finished (fold (\<lambda>c. count_up c n) cs s) = ob_finished s"
  by (induction cs arbitrary: s) simp_all

lemma fold_counts: "c \<notin> set cs \<Longrightarrow> cnt (fold (\<lambda>c. count_up c n) cs s) c = cnt s c"
  by (induction cs arbitrary: s) (simp_all add: count_up_def)

lemma fold_counts_exact:
  assumes "\<not> sat (fold (\<lambda>c. count_up c 1) cs s)" "distinct cs"
  shows "\<not> sat s \<and> cnt (fold (\<lambda>c. count_up c 1) cs s) d = (if d \<in> set cs then cnt s d + 1 else cnt s d)"
  using assms
proof (induction cs arbitrary: s)
  case (Cons c cs)
  then have "\<not> sat (count_up c 1 s)" "cnt (fold (\<lambda>c. count_up c 1) cs (count_up c 1 s)) d =
      (if d \<in> set cs then cnt (count_up c 1 s) d + 1 else cnt (count_up c 1 s) d)" by simp_all
  moreover from this(1) have "\<not> sat s" "cnt (count_up c 1 s) c = cnt s c + 1" by (simp_all add: count_up_def bump_saturated bump_count)
  moreover have "cnt (count_up c 1 s) d = cnt s d" if "d \<noteq> c" using that by (simp add: count_up_def)
  ultimately show ?case using Cons.prems(2) by auto
qed simp

lemma outcome_balanced:
  assumes "balanced s" "\<And>c. c \<in> ledger \<Longrightarrow> c \<noteq> NInFlight \<Longrightarrow> cnt s1 c = cnt s c" "cnt s1 NInFlight = cnt s NInFlight - 1"
    "length (ob_pending s) = Suc (length (ob_pending s1))" "sat s \<longrightarrow> sat s1"
  shows "balanced (fold (\<lambda>c. count_up c 1) (outcome_counters outcome) s1)" (is "balanced ?r")
proof -
  let ?cs = "outcome_counters outcome"
  have cs: "?cs \<in> {[NIncomplete], [NIncomplete, NHandoffs], [NCompleted, NSuccessful], [NCompleted, NPartial], [NCompleted, NFailed]}"
    by (simp add: outcome_counters_def)
  then have other: "NInFlight \<notin> set ?cs" "distinct ?cs" by auto
  have pending: "ob_pending ?r = ob_pending s1" by (rule fold_frame(1))
  have flight: "cnt ?r NInFlight = int (length (ob_pending ?r))"
    using fold_counts [OF other(1)] assms(1,3,4) pending by (simp add: balanced_def)
  show ?thesis
  proof (cases "sat ?r")
    case True
    with flight show ?thesis by (simp add: balanced_def)
  next
    case False
    note exact = fold_counts_exact [OF False other(2)]
    have counts: "cnt ?r c = (if c \<in> set ?cs then cnt s c + 1 else cnt s c)" if "c \<in> ledger" "c \<noteq> NInFlight" for c
      using exact [of c] assms(2) [OF that] by simp
    have "\<not> sat s" using exact assms(5) by blast
    moreover have inflight: "cnt ?r NInFlight = cnt s NInFlight - 1" using fold_counts [OF other(1)] assms(3) by simp
    moreover obtain r where r: "r = ?r" by simp
    ultimately show ?thesis
      using flight cs assms(1) unfolding balanced_def r [symmetric]
      by (elim insertE emptyE) (simp_all add: counts [folded r] inflight [folded r])
  qed
qed

lemma range_count [ranged]: "in_range (ob_sum s) \<Longrightarrow> in_range (ob_sum (count_up c n s))"
  "in_range (ob_sum s) \<Longrightarrow> in_range (ob_sum (truncated s))" "in_range (ob_sum s) \<Longrightarrow> in_range (ob_sum (saturated s))"
  by (simp_all add: count_defs ranged)

lemma range_fold [ranged]: "in_range (ob_sum s) \<Longrightarrow> in_range (ob_sum (fold (\<lambda>c. count_up c 1) cs s))"
  by (induction cs arbitrary: s) (simp_all add: ranged)

text \<open>One more in a group.\<close>

lemma group_update:
  assumes "well_kept s" "g < length (ob_groups s)" "ob_groups s ! g < MaxNumber"
  shows "well_kept (s\<lparr>ob_groups := (ob_groups s)[g := ob_groups s ! g + 1]\<rparr>)"
proof -
  have "0 \<le> ob_groups s ! g" using assms(1,2) by (simp add: well_kept_def)
  with assms(3) have "\<forall>x \<in> set ((ob_groups s)[g := ob_groups s ! g + 1]). 0 \<le> x \<and> x \<le> MaxNumber"
    using assms(1) set_update_subset_insert [of "ob_groups s" g] by (fastforce simp: well_kept_def)
  with assms(1) show ?thesis by (simp add: well_kept_def group_ok_def)
qed

lemma note_repeat_keeps:
  assumes "note_repeat x e s = (e', s')" "well_kept s" "in_range (ob_sum s)" "group_ok s (ti_group x)"
  shows "well_kept s' \<and> in_range (ob_sum s') \<and> neutral s s' \<and> ob_finished s' = ob_finished s \<and> ob_pending s' = ob_pending s"
proof (cases "ob_repeat s \<and> ti_eligible x")
  case False
  with assms show ?thesis by (auto simp: note_repeat_def)
next
  case True
  show ?thesis
  proof (cases "if (ev_Outcome e = ''success'' \<or> ev_Outcome e = ''partial'') \<and> ev_Code e = ''none'' then ti_group x else None")
    case None
    then have "s' = count_up NShapeUnknown 1 s" using True assms(1) by (simp add: note_repeat_def)
    with assms show ?thesis by (simp add: ranged neutral_count)
  next
    case (Some g)
    then have g: "g < length (ob_groups s)" using assms(4) by (auto simp: group_ok_def split: if_splits)
    define a where "a = (if ob_groups s ! g < MaxNumber then s\<lparr>ob_groups := (ob_groups s)[g := ob_groups s ! g + 1]\<rparr> else saturated s)"
    define b where "b = (if ob_groups a ! g > cnt a NMaxRepeat then on_sum (set_count NMaxRepeat (ob_groups a ! g)) a else a)"
    have a: "well_kept a" "in_range (ob_sum a)" "neutral s a" "ob_finished a = ob_finished s" "ob_pending a = ob_pending s" "g < length (ob_groups a)"
      using group_update [OF assms(2) g] assms(2,3) g neutral_flags(2) by (auto simp: a_def ranged neutral_def)
    have "0 \<le> ob_groups a ! g" "ob_groups a ! g \<le> MaxNumber" using a(1,6) by (auto simp: well_kept_def)
    with a have b: "well_kept b" "in_range (ob_sum b)" "neutral a b" "ob_finished b = ob_finished s" "ob_pending b = ob_pending s"
      by (auto simp: b_def ranged neutral_def ledger_def)
    have "note_repeat x e s = (if ob_groups a ! g = 5 then (e\<lparr>ev_Code := ''N_PLUS_ONE_SUSPECTED''\<rparr>, count_up NSuspectedGroups 1 b) else (e, b))"
      unfolding note_repeat_def Some Let_def option.case a_def [symmetric] b_def [symmetric] using True by simp
    with assms(1) have "s' = (if ob_groups a ! g = 5 then count_up NSuspectedGroups 1 b else b)" by (simp split: if_splits)
    with b neutral_trans [OF a(3) b(3)] neutral_then [OF neutral_trans [OF a(3) b(3)], of NSuspectedGroups 1]
    show ?thesis by (auto simp: ranged)
  qed
qed

lemma filter_tickets:
  assumes "distinct (map fst ps)" "map_of ps t = Some x"
  shows "length ps = Suc (length (filter (\<lambda>p. fst p \<noteq> t) ps))"
  using assms
proof (induction ps)
  case (Cons p ps)
  show ?case
  proof (cases "fst p = t")
    case True
    with Cons.prems(1) have "t \<notin> fst ` set ps" by simp
    then have "\<forall>q \<in> set ps. fst q \<noteq> t" by blast
    with True show ?thesis by simp
  next
    case False
    with Cons show ?thesis by (auto split: if_splits)
  qed
qed simp

lemma settle_invariant:
  assumes "invariant s" "map_of (ob_pending s) t = Some x"
  shows "invariant (settle t x e0 s)" and "ob_pending (settle t x e0 s) = filter (\<lambda>p. fst p \<noteq> t) (ob_pending s)"
proof -
  define e where "e = event_safe e0"
  define s0 where "s0 = on_sum (\<lambda>v. set_count NInFlight (su_count v NInFlight - 1) v) (s\<lparr>ob_pending := filter (\<lambda>p. fst p \<noteq> t) (ob_pending s)\<rparr>)"
  define s1 where "s1 = (if ev_Saturated e then saturated s0 else s0)"
  define s2 where "s2 = fold (\<lambda>c. count_up c 1) (outcome_counters (ev_Outcome e)) s1"
  define s3 where "s3 = count_up NScans (me_Value (ev_Scans e)) (count_up NConsumed (me_Value (ev_Consumed e))
      (count_up NLifecycleNS (me_Value (ev_LifecycleNS e)) (count_up NDispatchNS (me_Value (ev_DispatchNS e)) s2)))"
  define s4 where "s4 = (if me_Known (ev_Returned e) then count_up NReturned (me_Value (ev_Returned e)) (count_up NReturnedKnown 1 s3) else s3)"
  obtain e' s5 where s5: "note_repeat x e s4 = (e', s5)" by force
  have run: "settle t x e0 s = enqueue e' s5"
    unfolding settle_def Let_def e_def [symmetric] s0_def [symmetric] s1_def [symmetric] s2_def [symmetric] s3_def [symmetric]
      s4_def [symmetric] s5 by simp
  have inv: "well_kept s" "in_range (ob_sum s)" "balanced s" using assms(1) by (simp_all add: invariant_def)
  have len: "length (ob_pending s) = Suc (length (ob_pending s1))"
    using filter_tickets [OF _ assms(2)] inv(1) by (simp add: s1_def s0_def well_kept_def)
  have "cnt s NInFlight \<ge> 1" using inv(3) len by (simp add: balanced_def)
  with inv(2) have r0: "in_range (ob_sum s0)" by (auto simp: s0_def in_range_def) (smt (verit))+
  have w0: "well_kept s0" using inv(1) by (auto simp: s0_def well_kept_def group_ok_def distinct_map_filter intro: le_trans [OF length_filter_le])
  have k1: "well_kept s1" "in_range (ob_sum s1)" using w0 r0 by (simp_all add: s1_def ranged)
  have b2: "balanced s2" unfolding s2_def
    by (rule outcome_balanced [OF inv(3) _ _ len]) (auto simp: s1_def s0_def count_defs)
  have k2: "well_kept s2" "in_range (ob_sum s2)" using k1 by (simp_all add: s2_def ranged)
  have n3: "neutral s2 s3" unfolding s3_def by (simp add: neutral_then)
  have k3: "well_kept s3" "in_range (ob_sum s3)" using k2 by (simp_all add: s3_def ranged)
  have n4: "neutral s3 s4" unfolding s4_def by (simp add: neutral_then)
  have k4: "well_kept s4" "in_range (ob_sum s4)" "ob_pending s4 = ob_pending s1" "ob_groups s4 = ob_groups s"
    using k3 by (simp_all add: s4_def ranged s3_def s2_def s1_def s0_def)
  have "group_ok s (ti_group x)" using inv(1) map_of_SomeD [OF assms(2)] by (auto simp: well_kept_def)
  then have "group_ok s4 (ti_group x)" using k4(4) by (simp add: group_ok_def)
  from note_repeat_keeps [OF s5 k4(1,2) this]
  have k5: "well_kept s5" "in_range (ob_sum s5)" "neutral s4 s5" "ob_pending s5 = ob_pending s1" using k4(3) by simp_all
  have "neutral s2 (enqueue e' s5)" using n3 n4 k5(3) neutral_enqueue neutral_trans by metis
  from neutral_balanced [OF this b2] k5 show "invariant (settle t x e0 s)"
    unfolding run invariant_def by (simp add: well_kept_enqueue ranged)
  show "ob_pending (settle t x e0 s) = filter (\<lambda>p. fst p \<noteq> t) (ob_pending s)"
    unfolding run using k5(4) by (simp add: s1_def s0_def)
qed

subsection \<open>The other operations\<close>

lemma neutral_keeps: "invariant s \<Longrightarrow> neutral s s' \<Longrightarrow> well_kept s' \<Longrightarrow> in_range (ob_sum s') \<Longrightarrow> invariant s'"
  by (simp add: invariant_def neutral_balanced)

lemma on_ticket_invariant:
  assumes "invariant s" "\<And>x. ti_group (f x) = ti_group x"
  shows "invariant (on_ticket t f s)"
proof (rule neutral_keeps [OF assms(1)])
  have fst: "map fst (ob_pending (on_ticket t f s)) = map fst (ob_pending s)" by (simp add: on_ticket_def comp_def case_prod_beta)
  then show "neutral s (on_ticket t f s)" by (simp add: neutral_def on_ticket_def)
  have "\<forall>p \<in> set (ob_pending (on_ticket t f s)). fst p < ob_next s \<and> group_ok s (ti_group (snd p))"
    using assms by (auto simp: invariant_def well_kept_def on_ticket_def)
  moreover have "length (ob_pending (on_ticket t f s)) = length (ob_pending s)" by (simp add: on_ticket_def)
  moreover have "ob_pending (on_ticket t f s) = [] \<longleftrightarrow> ob_pending s = []" by (simp add: on_ticket_def)
  moreover have "well_kept s" using assms(1) by (simp add: invariant_def)
  ultimately show "well_kept (on_ticket t f s)"
    unfolding well_kept_def fst by (simp add: on_ticket_def group_ok_def)
  show "in_range (ob_sum (on_ticket t f s))" using assms(1) by (simp add: invariant_def on_ticket_def)
qed

lemma saturated_invariant: "invariant s \<Longrightarrow> invariant (saturated s)"
  by (rule neutral_keeps [OF _ neutral_flags(2)]) (simp_all add: invariant_def ranged)

lemma ticket_invariants:
  assumes "invariant s"
  shows "invariant (Dispatch now t s)" "invariant (Update t a b s)" "invariant (Affected t n known s)" "invariant (Saturate t s)"
  using assms
  by (simp_all add: Dispatch_def Update_def Affected_def Saturate_def on_event_def on_ticket_invariant saturated_invariant split: option.split)

lemma end_invariant: "invariant s \<Longrightarrow> invariant (EndTicket now t outcome code a b c s)"
  by (auto simp: EndTicket_def Let_def settle_invariant split: option.split)

lemma abandon_invariant: "invariant s \<Longrightarrow> invariant (abandon t s)"
  by (auto simp: abandon_def settle_invariant split: option.split)

lemma abandon_pending: "invariant s \<Longrightarrow> fst ` set (ob_pending (abandon t s)) = fst ` set (ob_pending s) - {t}"
  by (auto simp: abandon_def settle_invariant map_of_eq_None_iff rev_image_eqI split: option.split)

lemma fold_abandon:
  "invariant s \<Longrightarrow> invariant (fold abandon order s) \<and> fst ` set (ob_pending (fold abandon order s)) = fst ` set (ob_pending s) - set order"
proof (induction order arbitrary: s)
  case (Cons t order)
  from Cons.IH [OF abandon_invariant [OF Cons.prems]] abandon_pending [OF Cons.prems, of t] show ?case by auto
qed simp

lemma wall_invariant: "invariant s \<Longrightarrow> invariant (wall_time now s)" "ob_pending (wall_time now s) = ob_pending s"
  by (auto simp: wall_time_def Let_def ranged neutral_def count_defs ledger_def bounded_number_def MaxNumber_def invariant_def in_range_def balanced_def)

lemma finish_invariant:
  assumes "invariant s" "set order = fst ` set (ob_pending s)"
  shows "invariant (Finish now order s)"
proof (cases "ob_finished s")
  case True
  with assms show ?thesis by (simp add: Finish_def)
next
  case False
  let ?w = "wall_time now (fold abandon order s)"
  have "invariant ?w" "ob_pending ?w = []" using fold_abandon [OF assms(1), of order] assms(2) wall_invariant by auto
  then have "invariant (?w\<lparr>ob_finished := True, ob_shapes := []\<rparr>)" by (auto simp: invariant_def well_kept_def balanced_def group_ok_def)
  with False show ?thesis by (simp add: Finish_def)
qed

lemma enqueue_invariant: "invariant s \<Longrightarrow> invariant (enqueue e s)"
  by (rule neutral_keeps [OF _ neutral_enqueue]) (simp_all add: invariant_def ranged well_kept_enqueue)

lemma count_invariant: "invariant s \<Longrightarrow> c \<notin> ledger \<Longrightarrow> invariant (count_up c n s)"
  by (rule neutral_keeps [OF _ neutral_count]) (simp_all add: invariant_def ranged)

lemma reject_invariant: "invariant s \<Longrightarrow> invariant (Reject causes s)"
  by (simp add: Reject_def enqueue_invariant count_invariant)

lemma tx_invariant: "invariant s \<Longrightarrow> invariant (Tx meth e d s)"
proof -
  assume s: "invariant s"
  let ?b = "count_up NTxBoundaries 1 s"
  have "balanced (if e \<noteq> None then count_up NTxErrors 1 ?b else ?b)"
    using s by (auto simp: invariant_def balanced_def count_defs bump_count bump_saturated)
  with s have "invariant (if e \<noteq> None then count_up NTxErrors 1 ?b else ?b)" by (simp add: invariant_def ranged)
  with s show ?thesis by (simp add: Tx_def Let_def enqueue_invariant)
qed

lemma drain_invariants:
  assumes s: "invariant s"
  shows "DrainTake s = Some (batch, s') \<Longrightarrow> invariant s'" "invariant (DrainDone s)"
proof -
  have kept: "invariant (s\<lparr>ob_draining := d, ob_events := es\<rparr>)" if "length es \<le> MaxEvents" for d es
    using s well_kept_frame [of s "s\<lparr>ob_draining := d, ob_events := es\<rparr>"] that by (auto simp: invariant_def balanced_def)
  show "DrainTake s = Some (batch, s') \<Longrightarrow> invariant s'" using kept [of "[]" True] by (auto simp: DrainTake_def split: if_splits)
  have "DrainDone s = s\<lparr>ob_draining := False, ob_events := ob_events s\<rparr>" by (simp add: DrainDone_def)
  with kept [of "ob_events s" False] s show "invariant (DrainDone s)" by (simp add: invariant_def well_kept_events)
qed

lemma start_invariant: "Start now limit repeat = Some s \<Longrightarrow> invariant s"
  by (auto simp: Start_def invariant_def well_kept_def balanced_def in_range_def new_summary_def MaxNumber_def group_ok_def
      split: option.splits if_splits)

subsection \<open>Dispatching\<close>

lemma shape_group_keeps:
  assumes "shape_group owner k eligible s = (g, s')" "well_kept s" "in_range (ob_sum s)"
  shows "well_kept s' \<and> in_range (ob_sum s') \<and> neutral s s' \<and> group_ok s' g \<and> ob_pending s' = ob_pending s \<and> ob_finished s' = ob_finished s"
proof (cases "owner = None \<or> \<not> (ob_repeat s \<and> eligible \<and> k \<noteq> [] \<and> length k \<le> 2048)")
  case True
  with assms show ?thesis by (auto simp: shape_group_def group_ok_def split: option.splits if_splits)
next
  case False
  then obtain n where n: "owner = Some n" by auto
  show ?thesis
  proof (cases "map_of (ob_shapes s) (n, k)")
    case (Some i)
    with map_of_SomeD [OF Some] assms False n show ?thesis by (auto simp: shape_group_def group_ok_def well_kept_def)
  next
    case None
    show ?thesis
    proof (cases "length (ob_shapes s) < MaxShapes")
      case True
      let ?t = "s\<lparr>ob_shapes := ((n, k), length (ob_groups s)) # ob_shapes s, ob_groups := ob_groups s @ [0]\<rparr>"
      have "s' = ?t" "g = Some (length (ob_groups s))" using True None False n assms(1) by (auto simp: shape_group_def)
      moreover have "well_kept ?t" using assms(2) True by (auto simp: well_kept_def group_ok_def MaxNumber_def)
      moreover have "neutral s ?t" by (simp add: neutral_def)
      ultimately show ?thesis using assms(3) by (simp add: group_ok_def)
    next
      case over: False
      with None False n assms(1) have "s' = truncated s" "g = None" by (auto simp: shape_group_def)
      with assms show ?thesis by (simp add: ranged neutral_flags group_ok_def)
    qed
  qed
qed

text \<open>The ledger of a dispatched statement that has no ticket yet.\<close>

definition one_short :: "obs_state \<Rightarrow> bool" where
  "one_short s \<longleftrightarrow>
     cnt s NInFlight = int (length (ob_pending s)) \<and>
     (sat s \<or>
       cnt s NAttempted = cnt s NRejected + cnt s NDispatched \<and>
       cnt s NDispatched = cnt s NCompleted + cnt s NIncomplete + cnt s NInFlight + 1 \<and>
       cnt s NCompleted = cnt s NSuccessful + cnt s NFailed + cnt s NPartial \<and>
       cnt s NHandoffs + cnt s NTrackingLimited \<le> cnt s NIncomplete \<and> cnt s NTxErrors \<le> cnt s NTxBoundaries)"

lemma truncated_invariant: "invariant s \<Longrightarrow> invariant (truncated s)"
  by (rule neutral_keeps [OF _ neutral_flags(1)]) (simp_all add: invariant_def ranged)

lemma track_invariant:
  assumes "well_kept s" "in_range (ob_sum s)" "\<not> ob_finished s" "length (ob_pending s) < MaxTracking"
    and ready: "one_short s"
  shows "invariant (snd (track now cls meth owner k eligible s))"
proof -
  define s1 where "s1 = (if ob_repeat s \<and> length k > 2048 then truncated s else s)"
  obtain g s2 where g: "shape_group owner k eligible s1 = (g, s2)" by force
  define t where "t = \<lparr>ti_start = now, ti_event = new_event cls meth [] [], ti_group = g, ti_eligible = eligible\<rparr>"
  define s3 where "s3 = s2\<lparr>ob_pending := (ob_next s2, t) # ob_pending s2, ob_next := ob_next s2 + 1\<rparr>"
  have run: "snd (track now cls meth owner k eligible s) = count_up NInFlight 1 s3"
    unfolding track_def Let_def s1_def [symmetric] g by (simp add: s3_def t_def)
  have s1: "well_kept s1" "in_range (ob_sum s1)" "neutral s s1" using assms(1,2) neutral_flags by (auto simp: s1_def ranged)
  from shape_group_keeps [OF g s1(1,2)] have s2: "well_kept s2" "in_range (ob_sum s2)" "neutral s s2" "group_ok s2 g"
    "ob_pending s2 = ob_pending s" "ob_finished s2 = ob_finished s" using neutral_trans [OF s1(3)] by (auto simp: s1_def)
  have "ob_next s2 \<notin> fst ` set (ob_pending s2)" using s2(1) by (auto simp: well_kept_def)
  then have "well_kept s3" using s2 assms(3,4) by (auto simp: s3_def t_def well_kept_def group_ok_def)
  moreover have "balanced (count_up NInFlight 1 s3)"
  proof -
    have small: "int (length (ob_pending s)) < 1024" using assms(4) by (simp add: MaxTracking_def)
    have c: "cnt s3 c = cnt s c" if "c \<in> ledger" for c using s2(3) that by (simp add: s3_def neutral_def)
    have flight: "cnt s NInFlight = int (length (ob_pending s))" using ready by (simp add: one_short_def)
    have "\<not> sat s3 \<Longrightarrow> \<not> sat s" using s2(3) by (auto simp: s3_def neutral_def)
    then show ?thesis using ready small s2(5)
      by (auto simp: balanced_def one_short_def count_defs bump_count bump_saturated c flight MaxNumber_def s3_def [THEN arg_cong [of _ _ ob_pending]])
  qed
  moreover have "in_range (ob_sum s3)" using s2(2) by (simp add: s3_def)
  ultimately show ?thesis unfolding run by (simp add: invariant_def ranged)
qed

lemma begin_invariant:
  assumes "invariant s" "BeginTicket now cls meth owner k eligible s = (r, s')"
  shows "invariant s'"
proof -
  have s: "well_kept s" "in_range (ob_sum s)" "balanced s" using assms(1) by (simp_all add: invariant_def)
  have spent: "invariant (x\<lparr>ob_used := u\<rparr>)" if "invariant x" for x u
    using that by (auto simp: invariant_def well_kept_def group_ok_def balanced_def)
  show ?thesis
  proof (cases "ob_finished s")
    case True
    with assms spent [OF assms(1)] show ?thesis by (auto simp: BeginTicket_def Let_def split: if_splits)
  next
    case False
    let ?a = "count_up NAttempted 1 s"
    let ?u = "if ob_used s < MaxNumber then ?a\<lparr>ob_used := ob_used s + 1\<rparr> else ?a"
    let ?d = "count_up NDispatched 1 ?u"
    have a: "ob_used ?a = ob_used s" "over_budget ?a = over_budget s" by (simp_all add: count_defs over_budget_def)
    have "balanced (count_up NRejected 1 ?a)" using s(3) by (auto simp: balanced_def count_defs bump_count bump_saturated)
    then have "invariant (count_up NRejected 1 ?a)" using s by (simp add: invariant_def ranged)
    note refuse = enqueue_invariant [OF this]
    have u: "well_kept ?u" "in_range (ob_sum ?u)" "ob_pending ?u = ob_pending s" "\<not> ob_finished ?u"
      using s False by (auto simp: well_kept_def group_ok_def ranged)
    have usum: "ob_sum ?u = ob_sum ?a" by simp
    have d: "well_kept ?d" "in_range (ob_sum ?d)" "ob_pending ?d = ob_pending s" "\<not> ob_finished ?d" using u by (simp_all add: ranged)
    have "balanced (count_up NIncomplete 1 (count_up NTrackingLimited 1 ?d))"
      using s(3) u(3) usum by (auto simp: balanced_def count_defs bump_count bump_saturated)
    then have "invariant (count_up NIncomplete 1 (count_up NTrackingLimited 1 ?d))" using d(1,2) by (simp add: invariant_def ranged)
    from truncated_invariant [OF this] have limited: "invariant (tracking_limited cls meth eligible ?d)"
      unfolding tracking_limited_def Let_def by (intro enqueue_invariant) (simp add: count_invariant split: if_split)
    have ready: "one_short ?d"
      using s(3) u(3) usum by (auto simp: balanced_def one_short_def count_defs bump_count bump_saturated)
    have "s' = (if over_budget s then enqueue (new_event cls meth ''rejected'' ''QUERY_BUDGET_EXCEEDED'') (count_up NRejected 1 ?a)
        else if length (ob_pending s) \<ge> MaxTracking then tracking_limited cls meth eligible ?d else snd (track now cls meth owner k eligible ?d))"
      using assms(2) False a u(3) unfolding BeginTicket_def Let_def by (auto split: if_splits)
    then show ?thesis using refuse limited track_invariant [OF d(1,2,4) _ ready] d(3) by (auto split: if_splits)
  qed
qed

lemma step_invariant: "observe_step s k s' \<Longrightarrow> invariant s \<Longrightarrow> invariant s'"
  by (induction rule: observe_step.induct)
    (blast intro: begin_invariant reject_invariant ticket_invariants end_invariant finish_invariant tx_invariant drain_invariants)+

subsection \<open>The budget\<close>

definition spending :: "obs_state \<Rightarrow> bool \<times> int \<times> int" where
  "spending s = (ob_budget s, ob_limit s, ob_used s)"

lemma spending_sum [simp]: "spending (on_sum f s) = spending s" "spending (count_up c n s) = spending s" "spending (truncated s) = spending s"
  "spending (saturated s) = spending s" "spending (enqueue e s) = spending s" "spending (fold (\<lambda>c. count_up c n) cs s) = spending s"
  by (simp_all add: spending_def count_defs) (induction cs arbitrary: s; simp add: count_defs)+

lemma spending_update [simp]:
  "spending (s\<lparr>ob_pending := ps\<rparr>) = spending s" "spending (s\<lparr>ob_finished := b, ob_shapes := l\<rparr>) = spending s"
  "spending (s\<lparr>ob_draining := b\<rparr>) = spending s" "spending (s\<lparr>ob_used := u\<rparr>) = (ob_budget s, ob_limit s, u)"
  "spending (s\<lparr>ob_pending := ps, ob_next := m\<rparr>) = spending s"
  by (simp_all add: spending_def)

lemma spending_wall [simp]: "spending (wall_time now s) = spending s"
  by (simp add: wall_time_def Let_def)

lemma spending_note [simp]: "spending (snd (note_repeat x e s)) = spending s"
  by (auto simp: note_repeat_def Let_def spending_def count_defs split: option.split)

lemma spending_settle [simp]: "spending (settle t x e s) = spending s"
proof -
  have "spending (case note_repeat x e' s' of (e'', s'') \<Rightarrow> enqueue e'' s'') = spending s'" for e' s'
    using spending_note [of x e' s'] by (simp add: case_prod_beta)
  then show ?thesis by (simp add: settle_def Let_def)
qed

lemma spending_abandon [simp]: "spending (fold abandon order s) = spending s"
  by (induction order arbitrary: s) (simp_all add: abandon_def split: option.split)

lemma spending_operations [simp]:
  "spending (Reject causes s) = spending s" "spending (on_ticket t f s) = spending s" "spending (Saturate t s) = spending s"
  "spending (EndTicket now t outcome code a b c s) = spending s" "spending (Finish now order s) = spending s" "spending (Tx meth e d s) = spending s"
  "spending (DrainDone s) = spending s"
  by (simp_all add: Reject_def on_ticket_def Saturate_def on_event_def EndTicket_def Finish_def Tx_def DrainDone_def Let_def split: option.split)

lemma spending_group [simp]: "spending (snd (shape_group owner k eligible s)) = spending s"
  by (auto simp: shape_group_def spending_def count_defs split: option.split)

lemma spending_track [simp]: "spending (snd (track now cls meth owner k eligible s)) = spending s"
  using spending_group [of owner k eligible] by (simp add: track_def Let_def case_prod_beta)

lemma begin_spending:
  assumes "BeginTicket now cls meth owner k eligible s = (r, s')"
  shows "ob_budget s' = ob_budget s" "ob_limit s' = ob_limit s"
    "ob_used s' = (if r = OverBudget \<or> ob_used s \<ge> MaxNumber then ob_used s else ob_used s + 1)"
    "r \<noteq> OverBudget \<Longrightarrow> ob_budget s \<Longrightarrow> ob_used s < ob_limit s"
proof -
  have over: "over_budget (count_up c n x) = over_budget x" for c n x by (simp add: over_budget_def count_defs)
  have r: "r = OverBudget \<longleftrightarrow> over_budget s"
    using assms by (auto simp: BeginTicket_def Let_def over track_def case_prod_beta split: if_splits)
  have spend: "spending s' = (ob_budget s, ob_limit s, if over_budget s \<or> ob_used s \<ge> MaxNumber then ob_used s else ob_used s + 1)"
  proof -
    have u: "spending (count_up c n x) = spending x" "spending (tracking_limited cls meth eligible x) = spending x" for c n x
      by (simp_all add: tracking_limited_def Let_def)
    have t: "spending y = spending x" if "track now cls meth owner k eligible x = (q, y)" for x y q
      using spending_track [of now cls meth owner k eligible x] that by simp
    have f: "ob_budget (count_up c n x) = ob_budget x" "ob_limit (count_up c n x) = ob_limit x" "ob_used (count_up c n x) = ob_used x" for c n x
      by (simp_all add: count_defs)
    have s: "spending s = (ob_budget s, ob_limit s, ob_used s)" by (simp add: spending_def)
    show ?thesis
    proof (cases "over_budget s")
      case True
      with assms show ?thesis by (auto simp: BeginTicket_def Let_def over split: if_splits) (simp_all add: spending_def)
    next
      case False
      have o: "over_budget (if ob_finished s then s else count_up NAttempted 1 s) = over_budget s" by (simp add: over)
      from assms False show ?thesis
        by (auto simp: BeginTicket_def Let_def o over u f s dest!: t split: if_splits) (simp add: spending_def)
    qed
  qed
  then show "ob_budget s' = ob_budget s" "ob_limit s' = ob_limit s"
    "ob_used s' = (if r = OverBudget \<or> ob_used s \<ge> MaxNumber then ob_used s else ob_used s + 1)" using r by (auto simp: spending_def)
  show "r \<noteq> OverBudget \<Longrightarrow> ob_budget s \<Longrightarrow> ob_used s < ob_limit s" using r by (auto simp: over_budget_def)
qed

text \<open>Under a budget the statements let through are those counted as used, and never more than the limit.\<close>

lemma step_spending:
  assumes "observe_step s k s'"
  shows "ob_budget s' = ob_budget s \<and> ob_limit s' = ob_limit s \<and>
    ob_used s' = (if ob_used s \<ge> MaxNumber then ob_used s else ob_used s + int k) \<and> (k = 0 \<or> k = 1 \<and> (ob_budget s \<longrightarrow> ob_used s < ob_limit s))"
proof -
  have same: "?thesis" if "spending s' = spending s" "k = 0" using that by (simp add: spending_def)
  from assms show ?thesis
  proof (cases rule: observe_step.cases)
    case (admitted now cls meth owner key eligible r)
    with begin_spending [OF admitted(2)] show ?thesis by auto
  next
    case (refused now cls meth owner key eligible)
    with begin_spending [OF refused(2)] show ?thesis by auto
  next
    case (taken batch)
    have "spending (s\<lparr>ob_draining := True, ob_events := []\<rparr>) = spending s" by (simp add: spending_def)
    with taken same show ?thesis by (auto simp: DrainTake_def split: if_splits)
  qed (rule same; simp add: Dispatch_def Update_def Affected_def on_event_def)+
qed

definition within_budget :: "int option \<Rightarrow> nat \<Rightarrow> obs_state \<Rightarrow> bool" where
  "within_budget limit n s \<longleftrightarrow>
     (case limit of
        None \<Rightarrow> \<not> ob_budget s
      | Some l \<Rightarrow> ob_budget s \<and> ob_limit s = l \<and> ob_used s = int n \<and> int n \<le> l \<and> l \<le> MaxNumber)"

lemma observed_budget: "observed limit repeat n s \<Longrightarrow> within_budget limit n s"
proof (induction rule: observed.induct)
  case (started now s)
  then show ?case by (auto simp: within_budget_def Start_def split: option.splits if_splits)
next
  case (stepped n s k s')
  show ?case
  proof (cases limit)
    case None
    with stepped.IH step_spending [OF stepped.hyps(2)] show ?thesis by (simp add: within_budget_def)
  next
    case (Some l)
    with stepped.IH have b: "ob_budget s" "ob_limit s = l" "ob_used s = int n" "int n \<le> l" "l \<le> MaxNumber" by (simp_all add: within_budget_def)
    from step_spending [OF stepped.hyps(2)] b show ?thesis by (auto simp: within_budget_def Some)
  qed
qed

subsection \<open>The end of an observation\<close>

lemma no_tickets: "ob_pending s = [] \<Longrightarrow> on_ticket t f s = s"
  by (simp add: on_ticket_def)

lemma finished_step:
  assumes "observe_step s k s'" "ob_finished s" "ob_pending s = []"
  shows "ob_sum s' = ob_sum s \<and> ob_finished s'"
  using assms
proof (cases rule: observe_step.cases)
  case (admitted now cls meth owner key eligible r)
  with assms show ?thesis by (auto simp: BeginTicket_def Let_def split: if_splits)
next
  case (refused now cls meth owner key eligible)
  with assms show ?thesis by (auto simp: BeginTicket_def Let_def split: if_splits)
qed (auto simp: Reject_def Dispatch_def Update_def Affected_def Saturate_def on_event_def no_tickets EndTicket_def Finish_def Tx_def DrainTake_def
    DrainDone_def split: if_splits)

definition summary_final :: "obs_state \<Rightarrow> bool" where
  "summary_final s \<longleftrightarrow> (ob_finished s \<longrightarrow> (\<forall>k s'. observe_step s k s' \<longrightarrow> ob_sum s' = ob_sum s \<and> ob_finished s'))"

lemma observed_invariant: "observed limit repeat n s \<Longrightarrow> invariant s"
  by (induction rule: observed.induct) (blast intro: start_invariant step_invariant)+

text \<open>What is reported are the counters themselves: bounding them changes nothing.\<close>

lemma snapshot_exact:
  assumes "invariant s" "c \<noteq> NWallNS"
  shows "su_count (ObservationSnapshot now s) c = cnt s c" "su_count (finished_summary s) c = cnt s c"
proof -
  have r: "0 \<le> cnt s c" "cnt s c \<le> MaxNumber" using assms(1) by (simp_all add: invariant_def in_range_def)
  have w: "cnt (wall_time now s) c = cnt s c" using assms(2) by (simp add: wall_time_def Let_def count_defs)
  show "su_count (ObservationSnapshot now s) c = cnt s c" "su_count (finished_summary s) c = cnt s c"
    using r w by (auto simp: ObservationSnapshot_def finished_summary_def summary_safe_def bounded_number_def)
qed

section \<open>Properties\<close>

text \<open>
  C24: However the operations of an observation are interleaved, no more statements are let through than its budget allows, also
  after it has finished; its tables stay within their bounds and its counters within the exact integers; the statements in flight are
  those whose ticket is open, and while no counter overflowed every attempt was refused or dispatched and every dispatched statement is
  completed, given up or in flight; and a finished observation's summary never changes again.
\<close>

theorem observation_accounts:
  assumes "observed limit repeat n s"
  shows "within_budget limit n s \<and> invariant s \<and> summary_final s"
proof -
  have "invariant s" by (rule observed_invariant [OF assms])
  moreover from this have "ob_pending s = []" if "ob_finished s" using that by (simp add: invariant_def well_kept_def)
  ultimately show ?thesis using observed_budget [OF assms] finished_step by (auto simp: summary_final_def)
qed

definition sample_started :: obs_state where
  [go_eval]: "sample_started = the (Start 0 (Some 1) True)"

definition sample_tracked :: obs_state where
  [go_eval]: "sample_tracked = snd (BeginTicket 1 ''query'' ''query'' (Some 7) ''SELECT 1'' True sample_started)"

definition sample_finished :: obs_state where
  [go_eval]: "sample_finished =
     Finish 9 [] (snd (BeginTicket 8 ''query'' ''exec'' None [] False
       (EndTicket 5 0 ''success'' ''none'' (known_metric 3) (known_metric 3) (known_metric 3) sample_tracked)))"

theorem observation_accounts_witness:
  "within_budget (Some 1) 1 sample_finished \<and> invariant sample_finished \<and> summary_final sample_finished \<and> cnt sample_finished NRejected = 1"
proof -
  have "Start 0 (Some 1) True = Some sample_started" by (simp add: sample_started_def Start_def MaxNumber_def)
  then have s0: "observed (Some 1) True 0 sample_started" by (rule started)
  have "fst (BeginTicket 1 ''query'' ''query'' (Some 7) ''SELECT 1'' True sample_started) \<noteq> OverBudget" by code_simp
  with s0 have s1: "observed (Some 1) True (0 + 1) sample_tracked"
    unfolding sample_tracked_def by (intro stepped [OF s0] admitted) (auto intro: prod.collapse [symmetric])
  let ?e = "EndTicket 5 0 ''success'' ''none'' (known_metric 3) (known_metric 3) (known_metric 3) sample_tracked"
  have s2: "observed (Some 1) True (0 + 1 + 0) ?e" by (rule stepped [OF s1 ended])
  let ?b = "BeginTicket 8 ''query'' ''exec'' None [] False ?e"
  have "fst ?b = OverBudget" by code_simp
  then have "?b = (OverBudget, snd ?b)" by (metis prod.collapse)
  from stepped [OF s2 refused [OF this]] have s3: "observed (Some 1) True (0 + 1 + 0 + 0) (snd ?b)" .
  have "map fst (ob_pending (snd ?b)) = []" by code_simp
  then have "set [] = fst ` set (ob_pending (snd ?b))" by simp
  from stepped [OF s3 finished [OF this]] have "observed (Some 1) True (0 + 1 + 0 + 0 + 0) sample_finished" unfolding sample_finished_def .
  moreover have "cnt sample_finished NRejected = 1" by code_simp
  ultimately show ?thesis using observation_accounts [of "Some 1" True 1 sample_finished] by simp
qed

end
