(* ===== verification/ObservedRows.thy ===== *)
theory ObservedRows
  imports Observation
begin

text \<open>
  Readers under observation (\<^verbatim>\<open>orm/internal/observe/rows.go\<close>): the wrapper of \<^verbatim>\<open>sql.Rows\<close> that counts what is consumed, remembers
  the first error and ends the statement's ticket once, when it is closed; the wrapper of \<^verbatim>\<open>sql.Row\<close>; and the statements the
  library sends itself.  What the wrapped reader answers is an argument of each operation.
\<close>

record rows_state =
  rw_ticket :: nat
  rw_consumed :: int
  rw_scans :: int
  rw_code :: gostring
  rw_ended :: bool
  rw_atEnd :: bool
  rw_allSets :: bool
  rw_skipped :: bool

definition WrapRows :: "nat \<Rightarrow> rows_state" where
  [go_eval]: "WrapRows t =
     \<lparr>rw_ticket = t, rw_consumed = 0, rw_scans = 0, rw_code = ''none'', rw_ended = False, rw_atEnd = False, rw_allSets = False,
      rw_skipped = False\<rparr>"

definition rows_note :: "db_error option \<Rightarrow> gostring \<Rightarrow> rows_state \<Rightarrow> rows_state" where
  [go_eval]: "rows_note e fallback r = (if e \<noteq> None \<and> rw_code r = ''none'' then r\<lparr>rw_code := Classify e fallback\<rparr> else r)"

text \<open>One more, or the mark that the count overflowed.\<close>

definition report :: "rows_state \<times> obs_state \<Rightarrow> rows_state \<times> obs_state" where
  [go_eval]: "report x = (case x of (r, s) \<Rightarrow> (r, Update (rw_ticket r) (rw_consumed r) (rw_scans r) s))"

definition RowsNext :: "bool \<Rightarrow> db_error option \<Rightarrow> rows_state \<Rightarrow> obs_state \<Rightarrow> rows_state \<times> obs_state" where
  [go_eval]: "RowsNext ok e r s =
     (if rw_ended r then (r, s)
      else report
        (if \<not> ok then (rows_note e ''rows'' (r\<lparr>rw_atEnd := True\<rparr>), s)
         else if rw_consumed r < MaxNumber then (r\<lparr>rw_consumed := rw_consumed r + 1, rw_atEnd := False\<rparr>, s)
         else (r\<lparr>rw_atEnd := False\<rparr>, Saturate (rw_ticket r) s)))"

definition RowsScan :: "db_error option \<Rightarrow> rows_state \<Rightarrow> obs_state \<Rightarrow> rows_state \<times> obs_state" where
  [go_eval]: "RowsScan e r s =
     (if rw_ended r then (r, s)
      else report
        (if e \<noteq> None then (rows_note e ''scan'' r, s)
         else if rw_scans r < MaxNumber then (r\<lparr>rw_scans := rw_scans r + 1\<rparr>, s)
         else (r, Saturate (rw_ticket r) s)))"

definition RowsErr :: "db_error option \<Rightarrow> rows_state \<Rightarrow> rows_state" where
  [go_eval]: "RowsErr e r = (if rw_ended r then r else rows_note e ''rows'' r)"

definition RowsResult :: "db_error option \<Rightarrow> rows_state \<Rightarrow> rows_state" where
  [go_eval]: "RowsResult e r = (if rw_ended r then r else rows_note e ''result'' r)"

definition read_completely :: "rows_state \<Rightarrow> bool" where
  [go_eval]: "read_completely r \<longleftrightarrow> rw_allSets r \<and> rw_code r = ''none''"

definition RowsClose :: "int \<Rightarrow> db_error option \<Rightarrow> db_error option \<Rightarrow> rows_state \<Rightarrow> obs_state \<Rightarrow> rows_state \<times> obs_state" where
  [go_eval]: "RowsClose now closed e r s =
     (if rw_ended r then (r, s)
      else let r = rows_note e ''rows'' (rows_note closed ''close'' (r\<lparr>rw_ended := True\<rparr>))
        in (r, EndTicket now (rw_ticket r)
              (if rw_code r \<noteq> ''none'' then ''error'' else if read_completely r then ''success'' else ''partial'') (rw_code r)
              (known_metric (rw_consumed r)) (known_metric (rw_scans r))
              (if read_completely r then known_metric (rw_consumed r) else no_metric) s))"

definition RowsNextResultSet ::
  "int \<Rightarrow> bool \<Rightarrow> db_error option \<Rightarrow> db_error option \<Rightarrow> rows_state \<Rightarrow> obs_state \<Rightarrow> rows_state \<times> obs_state" where
  [go_eval]: "RowsNextResultSet now ok e closed r s =
     (if rw_ended r then (r, s)
      else let r = (if \<not> rw_atEnd r then r\<lparr>rw_skipped := True\<rparr> else r)
        in if ok then (r\<lparr>rw_atEnd := False\<rparr>, s)
           else RowsClose now closed e (rows_note e ''rows'' (r\<lparr>rw_allSets := \<not> rw_skipped r\<rparr>)) s)"

section \<open>Single rows and the library's own statements\<close>

definition RowScan :: "int \<Rightarrow> nat \<Rightarrow> bool \<Rightarrow> db_error option \<Rightarrow> db_error option \<Rightarrow> obs_state \<Rightarrow> obs_state" where
  [go_eval]: "RowScan now t present failed scanned s =
     (if \<not> present \<and> failed = None then EndTicket now t ''error'' ''dispatch'' no_metric no_metric no_metric s
      else if failed \<noteq> None then s
      else let m = (if scanned = None then known_metric 1 else if scanned = Some NoRows then known_metric 0 else no_metric)
        in EndTicket now t (if scanned = None then ''success'' else ''error'') (Classify scanned ''scan'') m m no_metric s)"

text \<open>The times of the three points at which the clock is read.\<close>

definition InternalExec :: "int \<times> int \<times> int \<Rightarrow> db_error option \<Rightarrow> obs_state \<Rightarrow> db_error option \<times> obs_state" where
  [go_eval]: "InternalExec clock e s =
     (case BeginTicket (fst clock) ''internal'' ''exec'' None [] False s of
        (OverBudget, s) \<Rightarrow> (Some BudgetExceeded, s)
      | (Untracked, s) \<Rightarrow> (e, s)
      | (Tracked t, s) \<Rightarrow>
          (e, EndTicket (snd (snd clock)) t (if e \<noteq> None then ''error'' else ''success'') (Classify e ''dispatch'') no_metric no_metric no_metric
                (Dispatch (fst (snd clock)) t s)))"

text \<open>The reader to use: none after an error, the bare one when the statement is not tracked.\<close>

datatype internal_reader = NoReader db_error | BareReader | ObservedReader rows_state

definition InternalQuery :: "int \<times> int \<times> int \<Rightarrow> db_error option \<Rightarrow> obs_state \<Rightarrow> internal_reader \<times> obs_state" where
  [go_eval]: "InternalQuery clock e s =
     (case BeginTicket (fst clock) ''internal'' ''query'' None [] False s of
        (OverBudget, s) \<Rightarrow> (NoReader BudgetExceeded, s)
      | (Untracked, s) \<Rightarrow> (case e of Some x \<Rightarrow> NoReader x | None \<Rightarrow> BareReader, s)
      | (Tracked t, s) \<Rightarrow>
          let s = Dispatch (fst (snd clock)) t s
          in (case e of
                Some x \<Rightarrow> (NoReader x, EndTicket (snd (snd clock)) t ''error'' (Classify e ''dispatch'') no_metric no_metric no_metric s)
              | None \<Rightarrow> (ObservedReader (WrapRows t), s)))"

section \<open>Readers are users of the observation\<close>

named_theorems observing

lemma observed_steps [observing]:
  assumes "observed limit repeat n s"
  shows "observed limit repeat n (Update t a b s)" "observed limit repeat n (Saturate t s)" "observed limit repeat n (Dispatch now t s)"
    "observed limit repeat n (EndTicket now t outcome code a' b' c' s)"
  using stepped [OF assms updated] stepped [OF assms overflowed] stepped [OF assms dispatched] stepped [OF assms ended] by simp_all

lemma reader_observed:
  assumes "observed limit repeat n s"
  shows "observed limit repeat n (snd (RowsNext ok e r s))" "observed limit repeat n (snd (RowsScan e r s))"
    "observed limit repeat n (snd (RowsClose now closed e r s))" "observed limit repeat n (snd (RowsNextResultSet now ok e closed r s))"
    "observed limit repeat n (RowScan now t present failed scanned s)"
  using assms by (simp_all add: RowsNext_def RowsScan_def RowsClose_def RowsNextResultSet_def RowScan_def report_def Let_def observing)

lemma internal_observed:
  assumes "observed limit repeat n s"
  shows "\<exists>k. observed limit repeat (n + k) (snd (InternalExec clock e s))" "\<exists>k. observed limit repeat (n + k) (snd (InternalQuery clock e s))"
proof -
  have started: "\<exists>k. observed limit repeat (n + k) s'" if "BeginTicket now ''internal'' meth None [] False s = (b, s')" for now meth b s'
    using stepped [OF assms admitted [OF that]] stepped [OF assms refused] that by (cases "b = OverBudget") blast+
  obtain b s' where b: "BeginTicket (fst clock) ''internal'' ''exec'' None [] False s = (b, s')" by force
  with started [OF b] show "\<exists>k. observed limit repeat (n + k) (snd (InternalExec clock e s))"
    by (cases b) (auto simp: InternalExec_def intro: observing)
  obtain c s'' where c: "BeginTicket (fst clock) ''internal'' ''query'' None [] False s = (c, s'')" by force
  with started [OF c] show "\<exists>k. observed limit repeat (n + k) (snd (InternalQuery clock e s))"
    by (cases c) (auto simp: InternalQuery_def Let_def intro: observing split: option.split)
qed

text \<open>A reader that was closed leaves the observation alone.\<close>

lemma ended_reader:
  "rw_ended r \<Longrightarrow> RowsNext ok e r s = (r, s)" "rw_ended r \<Longrightarrow> RowsScan e r s = (r, s)" "rw_ended r \<Longrightarrow> RowsClose now closed e r s = (r, s)"
  "rw_ended r \<Longrightarrow> RowsNextResultSet now ok e closed r s = (r, s)" "rw_ended r \<Longrightarrow> RowsErr e r = r" "rw_ended r \<Longrightarrow> RowsResult e r = r"
  by (simp_all add: RowsNext_def RowsScan_def RowsClose_def RowsNextResultSet_def RowsErr_def RowsResult_def)

lemma close_ends: "rw_ended (fst (RowsClose now closed e r s))" "\<not> ok \<Longrightarrow> rw_ended (fst (RowsNextResultSet now ok e closed r s))"
  by (simp_all add: RowsClose_def RowsNextResultSet_def rows_note_def Let_def)

text \<open>Only a reader that met the end of every result set it left, and no error, counts as read completely.\<close>

lemma skipped_stays:
  "rw_skipped r \<Longrightarrow> rw_skipped (fst (RowsNext ok e r s))" "rw_skipped r \<Longrightarrow> rw_skipped (fst (RowsScan e r s))"
  "rw_skipped r \<Longrightarrow> rw_skipped (fst (RowsClose now closed e r s))" "rw_skipped r \<Longrightarrow> rw_skipped (fst (RowsNextResultSet now ok e closed r s))"
  by (simp_all add: RowsNext_def RowsScan_def RowsClose_def RowsNextResultSet_def report_def rows_note_def Let_def)

lemma completely_read:
  assumes "\<not> rw_ended r" "\<not> rw_allSets r" "read_completely (fst (RowsNextResultSet now ok e closed r s))"
  shows "\<not> ok \<and> rw_atEnd r \<and> \<not> rw_skipped r \<and> e = None \<and> closed = None \<and> rw_code r = ''none''"
proof -
  have code: "rw_code (rows_note x f q) = ''none'' \<Longrightarrow> rw_code q = ''none'' \<and> (x = None \<or> Classify x f = ''none'')" for x f q
    by (auto simp: rows_note_def split: if_splits)
  have never: "x = None" if "Classify x f = ''none''" "f \<noteq> ''none''" for x f
    using that by (auto simp: Classify_def split: option.splits db_error.splits)
  show ?thesis
    using assms never by (auto simp: RowsNextResultSet_def RowsClose_def read_completely_def rows_note_def Let_def split: if_splits)
qed

end
