(* ===== verification/WriteAssignments.thy ===== *)
theory WriteAssignments
  imports SelectPlan
begin

text \<open>
  The structural inputs of a write (\<^verbatim>\<open>orm/internal/writeinput\<close>): assignments by expression, their rendering with numbered
  placeholders, and the conflict clause of an upsert.  A dialect is what the driver's interface offers; error texts leave out
  the value the code quotes in them.
\<close>

section \<open>Dialects, assignments and options\<close>

record sql_dialect =
  sd_kind :: driver_dialect
  sd_Placeholder :: "nat \<Rightarrow> gostring"
  sd_QuoteIdent :: "gostring \<Rightarrow> gostring"

definition mysql_dialect :: sql_dialect where
  [go_eval]: "mysql_dialect =
     \<lparr>sd_kind = MySQLDialect, sd_Placeholder = (\<lambda>_. ''?''), sd_QuoteIdent = QuoteIdent DialectMySQL\<rparr>"

definition postgres_dialect :: sql_dialect where
  [go_eval]: "postgres_dialect =
     \<lparr>sd_kind = PostgresDialect, sd_Placeholder = (\<lambda>n. CHR ''$'' # nat_str n), sd_QuoteIdent = QuoteIdent DialectPostgreSQL\<rparr>"

datatype AssignmentKind = AssignRaw | AssignExpr | AssignColumn | AssignIncrement | AssignOther int

record assignment =
  as_Column :: gostring
  as_Expression :: gostring
  as_Args :: "goval list"
  as_SourceColumn :: gostring
  as_Kind :: AssignmentKind

record conflict =
  cf_Columns :: "gostring list"
  cf_Updates :: "gostring list"
  cf_Where :: gostring
  cf_Constraint :: gostring
  cf_RawTarget :: gostring
  cf_ExplicitColumns :: bool
  cf_DoNothing :: bool

record write_options =
  wo_Columns :: "gostring list option"
  wo_TableParts :: "gostring list"
  wo_Assignments :: "assignment list"
  wo_Conflict :: "conflict option"
  wo_Literal :: bool

section \<open>Assignments\<close>

definition quoted_part :: "sql_dialect \<Rightarrow> gostring \<Rightarrow> gostring + gostring" where
  [go_eval]: "quoted_part d part =
     (let p = trim_space part
      in if p = [] then Inl ''goquent: identifier path contains an empty part'' else Inr (sd_QuoteIdent d p))"

fun quoted_parts :: "sql_dialect \<Rightarrow> gostring list \<Rightarrow> gostring + gostring list" where
  "quoted_parts d [] = Inr []"
| "quoted_parts d (p # ps) =
     (case quoted_part d p of
        Inl e \<Rightarrow> Inl e
      | Inr q \<Rightarrow> (case quoted_parts d ps of Inl e \<Rightarrow> Inl e | Inr qs \<Rightarrow> Inr (q # qs)))"

definition quoteIdentifierPathParts :: "sql_dialect \<Rightarrow> gostring list \<Rightarrow> gostring + gostring" where
  [go_eval]: "quoteIdentifierPathParts d parts =
     (if parts = [] then Inl ''goquent: identifier path is required''
      else case quoted_parts d parts of Inl e \<Rightarrow> Inl e | Inr qs \<Rightarrow> Inr (join ''.'' qs))"

definition quotedIdentifierPath :: "sql_dialect \<Rightarrow> gostring \<Rightarrow> gostring + gostring" where
  [go_eval]: "quotedIdentifierPath d ident = quoteIdentifierPathParts d (split_on CHR ''.'' ident)"

definition fragment_tokens :: "gostring list" where
  [go_eval]: "fragment_tokens = [''ALTER'', ''CREATE'', ''DELETE'', ''DROP'', ''GRANT'', ''INSERT'', ''REVOKE'', ''TRUNCATE'', ''UPDATE'']"

definition ValidateFragment :: "gostring \<Rightarrow> gostring option" where
  [go_eval]: "ValidateFragment raw =
     (let t = trim_space raw
      in if t = [] then Some ''goquent: raw SQL fragment is required''
         else if CHR '';'' \<in> set t \<or> CHR 0x00 \<in> set t \<or> str_contains t ''--'' \<or> str_contains t ''/*'' \<or> str_contains t ''*/''
         then Some ''goquent: raw SQL fragment contains a statement separator or comment''
         else if list_ex (containsSQLWord (to_upper t)) fragment_tokens
         then Some ''goquent: raw SQL fragment contains disallowed SQL token''
         else None)"

definition Targets :: "assignment list \<Rightarrow> gostring set" where
  [go_eval]: "Targets as = set (filter (\<lambda>c. c \<noteq> []) (map (trim_space \<circ> as_Column) as))"

fun validate_targets :: "gostring list \<Rightarrow> assignment list \<Rightarrow> gostring option" where
  "validate_targets seen [] = None"
| "validate_targets seen (a # as) =
     (let c = trim_space (as_Column a)
      in if c = [] then Some ''goquent: assignment column is required''
         else if c \<in> set seen then Some ''goquent: duplicate assignment for column''
         else validate_targets (c # seen) as)"

definition ValidateAssignments :: "assignment list \<Rightarrow> gostring option" where
  [go_eval]: "ValidateAssignments as = validate_targets [] as"

text \<open>The loop of \<^verbatim>\<open>RenderPlaceholders\<close>: the next question mark gets number \<^term>\<open>n\<close>.\<close>

fun number_marks :: "sql_dialect \<Rightarrow> nat \<Rightarrow> gostring \<Rightarrow> gostring" where
  "number_marks d n [] = []"
| "number_marks d n (c # cs) =
     (if c \<noteq> CHR ''?'' then c # number_marks d n cs else sd_Placeholder d n @ number_marks d (n + 1) cs)"

definition RenderPlaceholders :: "sql_dialect \<Rightarrow> gostring \<Rightarrow> nat \<Rightarrow> nat \<Rightarrow> gostring + gostring" where
  [go_eval]: "RenderPlaceholders d expr argCount firstNumber =
     (if count_list expr CHR ''?'' \<noteq> argCount then Inl ''goquent: SetExpr placeholder count does not match args''
      else if argCount = 0 then Inr expr
      else Inr (number_marks d firstNumber expr))"

definition RenderAssignment :: "sql_dialect \<Rightarrow> assignment \<Rightarrow> nat \<Rightarrow> gostring + gostring \<times> goval list" where
  [go_eval]: "RenderAssignment d a firstNumber =
     (case as_Kind a of
        AssignRaw \<Rightarrow>
          let expr = trim_space (as_Expression a)
          in if as_Args a \<noteq> [] then Inl ''goquent: SetRaw does not accept args''
             else (case ValidateFragment expr of
                Some e \<Rightarrow> Inl e
              | None \<Rightarrow> if CHR ''?'' \<in> set expr then Inl ''goquent: SetRaw expression contains placeholders; use SetExpr''
                        else Inr (expr, []))
      | AssignExpr \<Rightarrow>
          let expr = trim_space (as_Expression a)
          in (case ValidateFragment expr of
                Some e \<Rightarrow> Inl e
              | None \<Rightarrow>
                  (case RenderPlaceholders d expr (length (as_Args a)) firstNumber of
                     Inl e \<Rightarrow> Inl e
                   | Inr rendered \<Rightarrow> Inr (rendered, as_Args a)))
      | AssignColumn \<Rightarrow>
          if as_Args a \<noteq> [] then Inl ''goquent: SetColumn does not accept args''
          else (case quotedIdentifierPath d (as_SourceColumn a) of Inl e \<Rightarrow> Inl e | Inr expr \<Rightarrow> Inr (expr, []))
      | AssignIncrement \<Rightarrow>
          if length (as_Args a) \<noteq> 1 then Inl ''goquent: Increment requires one delta arg''
          else (case quotedIdentifierPath d (as_Column a) of
             Inl e \<Rightarrow> Inl e
           | Inr target \<Rightarrow> Inr (target @ '' + '' @ sd_Placeholder d firstNumber, as_Args a))
      | AssignOther n \<Rightarrow> Inl ''goquent: unknown assignment kind'')"

fun assignment_parts :: "sql_dialect \<Rightarrow> nat \<Rightarrow> assignment list \<Rightarrow> gostring + gostring list \<times> goval list" where
  "assignment_parts d pos [] = Inr ([], [])"
| "assignment_parts d pos (a # as) =
     (case quotedIdentifierPath d (as_Column a) of
        Inl e \<Rightarrow> Inl e
      | Inr target \<Rightarrow>
          (case RenderAssignment d a pos of
             Inl e \<Rightarrow> Inl e
           | Inr (expr, args) \<Rightarrow>
               (case assignment_parts d (pos + length args) as of
                  Inl e \<Rightarrow> Inl e
                | Inr (parts, later) \<Rightarrow> Inr ((target @ ''='' @ expr) # parts, args @ later))))"

text \<open>A column to set is given with its value.\<close>

fun column_parts :: "sql_dialect \<Rightarrow> nat \<Rightarrow> gostring list \<Rightarrow> gostring list" where
  "column_parts d pos [] = []"
| "column_parts d pos (c # cs) = (sd_QuoteIdent d c @ ''='' @ sd_Placeholder d pos) # column_parts d (pos + 1) cs"

definition SetParts ::
  "sql_dialect \<Rightarrow> (gostring \<times> goval) list \<Rightarrow> assignment list \<Rightarrow> nat \<Rightarrow> gostring + gostring list \<times> goval list" where
  [go_eval]: "SetParts d setCols as firstNumber =
     (case ValidateAssignments as of
        Some e \<Rightarrow> Inl e
      | None \<Rightarrow>
          (case assignment_parts d (firstNumber + length setCols) as of
             Inl e \<Rightarrow> Inl e
           | Inr (parts, args) \<Rightarrow> Inr (column_parts d firstNumber (map fst setCols) @ parts, map snd setCols @ args)))"

section \<open>Conflict clauses\<close>

definition conflictTarget ::
  "sql_dialect \<Rightarrow> gostring list \<Rightarrow> conflict \<Rightarrow> (gostring \<Rightarrow> gostring) \<Rightarrow> gostring + gostring" where
  [go_eval]: "conflictTarget d cols c quoteColumn =
     (let rawTarget = trim_space (cf_RawTarget c); constraint = trim_space (cf_Constraint c); predicate = trim_space (cf_Where c)
      in if rawTarget \<noteq> [] then
           if cf_ExplicitColumns c then Inl ''ConflictTargetRaw cannot be combined with ConflictColumns''
           else if constraint \<noteq> [] then Inl ''ConflictTargetRaw cannot be combined with ConflictConstraint''
           else if predicate \<noteq> [] then Inl ''ConflictTargetRaw cannot be combined with ConflictWhere''
           else (case ValidateFragment rawTarget of Some e \<Rightarrow> Inl e | None \<Rightarrow> Inr rawTarget)
         else if constraint \<noteq> [] then
           if cf_ExplicitColumns c then Inl ''ConflictConstraint cannot be combined with ConflictColumns''
           else if predicate \<noteq> [] then Inl ''ConflictConstraint cannot be combined with ConflictWhere''
           else Inr (''ON CONSTRAINT '' @ sd_QuoteIdent d constraint)
         else if cols = [] then Inl ''Postgres upsert requires ConflictColumns or WherePK primary key columns''
         else let target = ''('' @ join '', '' (map quoteColumn cols) @ '')''
              in if predicate = [] then Inr target
                 else (case ValidateFragment predicate of Some e \<Rightarrow> Inl e | None \<Rightarrow> Inr (target @ '' WHERE '' @ predicate)))"

text \<open>\<^verbatim>\<open>strings.Replace\<close> of the first occurrence.\<close>

definition replace_first :: "gostring \<Rightarrow> gostring \<Rightarrow> gostring \<Rightarrow> gostring" where
  [go_eval]: "replace_first old new s =
     (case str_index s old of None \<Rightarrow> s | Some i \<Rightarrow> take i s @ new @ drop (i + length old) s)"

text \<open>\<^term>\<open>reference\<close> is nil for a caller that always quotes.\<close>

definition AppendConflict ::
  "sql_dialect \<Rightarrow> gostring \<Rightarrow> conflict \<Rightarrow> assignment list \<Rightarrow> nat \<Rightarrow> bool \<Rightarrow> (gostring \<Rightarrow> gostring) option \<Rightarrow>
     gostring + gostring \<times> goval list" where
  [go_eval]: "AppendConflict d sql c as firstNumber literal reference =
     (case SetParts d [] as firstNumber of
        Inl e \<Rightarrow> Inl e
      | Inr (parts, args) \<Rightarrow>
          let quoteColumn = (case reference of Some r \<Rightarrow> if literal then sd_QuoteIdent d else r | None \<Rightarrow> sd_QuoteIdent d);
              sep = (if literal then ''='' else '' = '')
          in case sd_kind d of
               MySQLDialect \<Rightarrow>
                 if trim_space (cf_Where c) \<noteq> [] \<or> trim_space (cf_Constraint c) \<noteq> [] \<or> trim_space (cf_RawTarget c) \<noteq> []
                 then Inl ''ConflictWhere, ConflictConstraint, and ConflictTargetRaw are not supported on dialect''
                 else let updates = map (\<lambda>col. quoteColumn col @ sep @ ''VALUES('' @ quoteColumn col @ '')'') (cf_Updates c) @ parts
                      in Inr (if updates = [] then replace_first ''INSERT'' ''INSERT IGNORE'' sql
                              else sql @ '' ON DUPLICATE KEY UPDATE '' @ join '', '' updates, args)
             | PostgresDialect \<Rightarrow>
                 (case conflictTarget d (cf_Columns c) c quoteColumn of
                    Inl e \<Rightarrow> Inl e
                  | Inr target \<Rightarrow>
                      let updates = map (\<lambda>col. quoteColumn col @ sep @ ''EXCLUDED.'' @ quoteColumn col) (cf_Updates c) @ parts
                      in Inr (if updates = [] then sql @ '' ON CONFLICT '' @ target @ '' DO NOTHING''
                              else sql @ '' ON CONFLICT '' @ target @ '' DO UPDATE SET '' @ join '', '' updates, args))
             | OtherDialect n \<Rightarrow> Inl ''upsert not supported on dialect'')"

section \<open>Placeholders in a text\<close>

text \<open>A text as pieces, those that are placeholders to be numbered from \<^term>\<open>n\<close> on.\<close>

fun fill :: "sql_dialect \<Rightarrow> nat \<Rightarrow> gostring option list \<Rightarrow> gostring" where
  "fill d n [] = []"
| "fill d n (Some t # ts) = t @ fill d n ts"
| "fill d n (None # ts) = sd_Placeholder d n @ fill d (Suc n) ts"

definition marks :: "gostring option list \<Rightarrow> nat" where
  "marks ts = count_list ts None"

lemma marks_simps [simp]:
  "marks [] = 0" "marks (Some t # ts) = marks ts" "marks (None # ts) = Suc (marks ts)" "marks (ts @ us) = marks ts + marks us"
  by (simp_all add: marks_def)

lemma fill_append [simp]: "fill d n (ts @ us) = fill d n ts @ fill d (n + marks ts) us"
proof (induction ts arbitrary: n)
  case (Cons t ts)
  then show ?case by (cases t) simp_all
qed simp

lemma number_marks_fill: "\<exists>ts. number_marks d n e = fill d n ts \<and> marks ts = count_list e CHR ''?''"
proof (induction e arbitrary: n)
  case Nil
  show ?case by (rule exI [of _ "[]"]) simp
next
  case (Cons c cs)
  show ?case
  proof (cases "c = CHR ''?''")
    case True
    obtain ts where "number_marks d (n + 1) cs = fill d (n + 1) ts" "marks ts = count_list cs CHR ''?''"
      using Cons by blast
    with True show ?thesis by (intro exI [of _ "None # ts"]) simp
  next
    case False
    obtain ts where "number_marks d n cs = fill d n ts" "marks ts = count_list cs CHR ''?''"
      using Cons by blast
    with False show ?thesis by (intro exI [of _ "Some [c] # ts"]) simp
  qed
qed

text \<open>A rendered assignment binds one value for each placeholder it writes.\<close>

lemma RenderAssignment_fill:
  assumes "RenderAssignment d a n = Inr (expr, args)"
  shows "\<exists>ts. expr = fill d n ts \<and> marks ts = length args"
proof -
  have literal: "\<exists>ts. e = fill d n ts \<and> marks ts = 0" for e
    by (rule exI [of _ "[Some e]"]) simp
  show ?thesis
  proof (cases "as_Kind a")
    case AssignExpr
    let ?e = "trim_space (as_Expression a)"
    from AssignExpr consider "as_Args a = []" "args = []" | "expr = number_marks d n ?e" "count_list ?e CHR ''?'' = length args"
      using assms by (auto simp: RenderAssignment_def RenderPlaceholders_def Let_def split: option.splits sum.splits if_splits)
    then show ?thesis
      using literal [of expr] number_marks_fill [of d n ?e] by cases simp_all
  next
    case AssignIncrement
    then obtain target where "expr = target @ '' + '' @ sd_Placeholder d n" "length args = 1"
      using assms by (auto simp: RenderAssignment_def split: if_splits sum.splits)
    then show ?thesis
      by (intro exI [of _ "[Some (target @ '' + ''), None]"]) simp
  qed (use assms literal in \<open>auto simp: RenderAssignment_def Let_def split: option.splits sum.splits if_splits\<close>)
qed

lemma join_Cons: "join sep (p # ps) = p @ (if ps = [] then [] else sep @ join sep ps)"
  by (cases ps) simp_all

lemma assignment_parts_fill:
  "assignment_parts d n as = Inr (parts, args) \<Longrightarrow>
     \<exists>ts. join sep parts = fill d n ts \<and> marks ts = length args \<and> length parts = length as"
proof (induction as arbitrary: n parts args)
  case Nil
  then show ?case by (intro exI [of _ "[]"]) simp
next
  case (Cons a as)
  from Cons.prems obtain target expr here parts' later where
    1: "RenderAssignment d a n = Inr (expr, here)" and 2: "assignment_parts d (n + length here) as = Inr (parts', later)"
    and parts: "parts = (target @ ''='' @ expr) # parts'" and args: "args = here @ later"
    by (auto split: sum.splits)
  obtain ts where ts: "expr = fill d n ts" "marks ts = length here"
    using RenderAssignment_fill [OF 1] by blast
  obtain us where us: "join sep parts' = fill d (n + length here) us" "marks us = length later" "length parts' = length as"
    using Cons.IH [OF 2] by blast
  let ?ts = "Some (target @ ''='') # ts @ (if parts' = [] then [] else Some sep # us)"
  have "parts' = [] \<Longrightarrow> later = []"
    using 2 us(3) by auto
  then have "join sep parts = fill d n ?ts" "marks ?ts = length args"
    using ts us by (auto simp: parts args join_Cons)
  moreover have "length parts = length (a # as)"
    using us by (simp add: parts)
  ultimately show ?case by blast
qed

lemma SetParts_fill:
  assumes "SetParts d [] as n = Inr (parts, args)"
  shows "\<exists>ts. join sep parts = fill d n ts \<and> marks ts = length args" "length parts = length as"
  using assignment_parts_fill assms by (fastforce simp: SetParts_def split: option.splits sum.splits)+

lemma RenderAssignment_args: "RenderAssignment d a n = Inr (expr, args) \<Longrightarrow> args = as_Args a"
  by (auto simp: RenderAssignment_def Let_def split: AssignmentKind.splits option.splits sum.splits if_splits)

lemma SetParts_args: "SetParts d [] as n = Inr (parts, args) \<Longrightarrow> args = concat (map as_Args as)"
proof -
  have "assignment_parts d m as = Inr (parts, args) \<Longrightarrow> args = concat (map as_Args as)" for m
    by (induction as arbitrary: m parts args) (fastforce dest: RenderAssignment_args split: sum.splits)+
  then show "SetParts d [] as n = Inr (parts, args) \<Longrightarrow> args = concat (map as_Args as)"
    by (auto simp: SetParts_def split: option.splits sum.splits)
qed

text \<open>Accepted assignments set each column once.\<close>

lemma validate_targets_distinct:
  "validate_targets seen as = None \<longleftrightarrow>
     distinct (map (trim_space \<circ> as_Column) as) \<and> [] \<notin> set (map (trim_space \<circ> as_Column) as) \<and>
     set seen \<inter> set (map (trim_space \<circ> as_Column) as) = {}"
  by (induction as arbitrary: seen) (auto simp: Let_def)

lemma ValidateAssignments_iff:
  "ValidateAssignments as = None \<longleftrightarrow>
     distinct (map (trim_space \<circ> as_Column) as) \<and> [] \<notin> set (map (trim_space \<circ> as_Column) as)"
  by (simp add: ValidateAssignments_def validate_targets_distinct)

end
