(* ===== verification/WriteStatements.thy ===== *)
theory WriteStatements
  imports WriteAssignments
begin

text \<open>
  INSERT and UPDATE: their data (\<^verbatim>\<open>common/structs/query.go\<close>), their rendering (\<^verbatim>\<open>db/base/insert_base.go\<close>, \<^verbatim>\<open>update_base.go\<close>,
  \<^verbatim>\<open>write_options.go\<close>) and their builders (\<^verbatim>\<open>internal/query/insertbuilder.go\<close>, \<^verbatim>\<open>updatebuilder.go\<close>,
  \<^verbatim>\<open>deletebuilder.go\<close>).  A row is a Go map: its entries in some order, each key once.
\<close>

section \<open>Data\<close>

type_synonym row = "(gostring \<times> goval) list"

record upsert =
  UniqueColumns :: "gostring list"
  UpdateColumns :: "gostring list"

record insert_query =
  iq_Options :: write_options
  iq_Table :: gostring
  iq_Values :: row
  iq_ValuesBatch :: "row list"
  iq_Columns :: "gostring list"
  iq_Query :: "query option"
  iq_Ignore :: bool
  iq_Upsert :: "upsert option"

record update_query =
  uq_Options :: write_options
  uq_Table :: gostring
  uq_Values :: row
  uq_Query :: query

section \<open>Literal identifiers\<close>

definition writeDialect :: "'p sql_utils \<Rightarrow> sql_dialect" where
  [go_eval]: "writeDialect u = (if u_dialect u = DialectPostgreSQL then postgres_dialect else mysql_dialect)"

definition writeTable :: "'p sql_utils \<Rightarrow> gostring \<Rightarrow> write_options \<Rightarrow> ('s, unit) renderer" where
  [go_eval]: "writeTable u table opts =
     (if \<not> wo_Literal opts then EscapeRelation u table
      else let parts = (if wo_TableParts opts = [] then split_on CHR ''.'' table else wo_TableParts opts)
           in emit (join ''.'' (map (sd_QuoteIdent (writeDialect u)) parts)))"

section \<open>INSERT\<close>

text \<open>What indexing a map by a missing key gives.\<close>

definition cell :: "row \<Rightarrow> gostring \<Rightarrow> goval" where
  [go_eval]: "cell r c = (case map_of r c of None \<Rightarrow> VNil | Some v \<Rightarrow> v)"

definition insert_columns :: "write_options \<Rightarrow> row list \<Rightarrow> gostring list" where
  [go_eval]: "insert_columns opts rows =
     (if list_of (wo_Columns opts) \<noteq> [] then list_of (wo_Columns opts)
      else sort (remdups (concat (map (map fst) rows))))"

definition column_list :: "'p sql_utils \<Rightarrow> bool \<Rightarrow> gostring list \<Rightarrow> ('s, unit) renderer" where
  [go_eval]: "column_list u literal cols = sep_each '', '' (\<lambda>c. writeColumn u c literal) cols"

definition row_marks :: "'p sql_utils \<Rightarrow> gostring list \<Rightarrow> ('p rstate, unit) renderer" where
  [go_eval]: "row_marks u cols =
     before (emit ''('') (before (sep_each '', '' (\<lambda>c. placeholder u) cols) (emit '')''))"

definition Insert :: "'p sql_utils \<Rightarrow> insert_query \<Rightarrow> ('p rstate, goval list) renderer" where
  [go_eval]: "Insert u q =
     (let opts = iq_Options q; cols = insert_columns opts [iq_Values q]
      in before (emit ''INSERT INTO '') (before (writeTable u (iq_Table q) opts) (before (emit '' '')
           (before (emit ''('') (before (column_list u (wo_Literal opts) cols) (before (emit '') '')
             (before (emit ''VALUES '') (before (row_marks u cols)
               (ret (map (cell (iq_Values q)) cols))))))))))"

definition InsertBatch :: "'p sql_utils \<Rightarrow> insert_query \<Rightarrow> ('p rstate, goval list) renderer" where
  [go_eval]: "InsertBatch u q =
     (let opts = iq_Options q; rows = iq_ValuesBatch q; cols = insert_columns opts rows
      in before (emit ''INSERT INTO '') (before (writeTable u (iq_Table q) opts) (before (emit '' '')
           (before (emit ''('') (before (column_list u (wo_Literal opts) cols) (before (emit '') VALUES '')
             (before (sep_each '', '' (\<lambda>r. row_marks u cols) rows)
               (ret (concat (map (\<lambda>r. map (cell r) cols) rows))))))))))"

definition rewriting :: "(gostring \<Rightarrow> gostring) \<Rightarrow> ('s, 'a) renderer \<Rightarrow> ('s, 'a) renderer" where
  [go_eval]: "rewriting f m s = (case m s of Fail e t s' \<Rightarrow> Fail e t s' | Done t a s' \<Rightarrow> Done (f t) a s')"

definition ignoring_rows :: "'p sql_utils \<Rightarrow> gostring \<Rightarrow> gostring" where
  [go_eval]: "ignoring_rows u sql =
     (case u_dialect u of
        DialectMySQL \<Rightarrow> replace_first ''INSERT INTO'' ''INSERT IGNORE INTO'' sql
      | DialectPostgreSQL \<Rightarrow> sql @ '' ON CONFLICT DO NOTHING''
      | DialectBase \<Rightarrow> sql)"

definition InsertIgnore :: "'p sql_utils \<Rightarrow> insert_query \<Rightarrow> ('p rstate, goval list) renderer" where
  [go_eval]: "InsertIgnore u q = rewriting (ignoring_rows u) (Insert u q)"

definition InsertUsing :: "'p sql_utils \<Rightarrow> (goval \<Rightarrow> gostring) \<Rightarrow> insert_query \<Rightarrow> query \<Rightarrow> ('p rstate, goval list) renderer" where
  [go_eval]: "InsertUsing u json q source =
     before (emit ''INSERT INTO '') (before (writeTable u (iq_Table q) (iq_Options q))
       (before (emit '' ('') (before (column_list u (wo_Literal (iq_Options q)) (iq_Columns q)) (before (emit '') '')
         (andThen (Build build_fuel u json source 0 None) (\<lambda>r. ret (fst r)))))))"

definition escaped_reference :: "'p sql_utils \<Rightarrow> gostring \<Rightarrow> gostring" where
  [go_eval]: "escaped_reference u col = AppendEscapedReference [] col (quote_of (u_dialect u))"

definition upsert_conflict :: "insert_query \<Rightarrow> conflict option" where
  [go_eval]: "upsert_conflict q =
     (case wo_Conflict (iq_Options q) of
        Some c \<Rightarrow> Some c
      | None \<Rightarrow> map_option (\<lambda>us. \<lparr>cf_Columns = UniqueColumns us, cf_Updates = UpdateColumns us, cf_Where = [], cf_Constraint = [],
                  cf_RawTarget = [], cf_ExplicitColumns = False, cf_DoNothing = False\<rparr>) (iq_Upsert q))"

definition upsert_rows :: "insert_query \<Rightarrow> insert_query" where
  [go_eval]: "upsert_rows q =
     (if iq_ValuesBatch q = [] \<and> iq_Values q \<noteq> [] then q\<lparr>iq_ValuesBatch := [iq_Values q]\<rparr> else q)"

definition Upsert :: "'p sql_utils \<Rightarrow> insert_query \<Rightarrow> ('p rstate, goval list) renderer" where
  [go_eval]: "Upsert u q s =
     (let opts = iq_Options q
      in case InsertBatch u (upsert_rows q) s of
           Fail e t s' \<Rightarrow> Fail e t s'
         | Done t vals s' \<Rightarrow>
             (case upsert_conflict q of
                None \<Rightarrow> Fail Panic t s'
              | Some c \<Rightarrow>
                  (case AppendConflict (writeDialect u) t c (wo_Assignments opts) (length vals + 1) (wo_Literal opts)
                          (Some (escaped_reference u)) of
                     Inl e \<Rightarrow> Fail (InputFailure e) t s'
                   | Inr (sql, extra) \<Rightarrow> Done sql (vals @ extra) s')))"

definition BuildInsert :: "'p sql_utils \<Rightarrow> (goval \<Rightarrow> gostring) \<Rightarrow> insert_query \<Rightarrow> ('p rstate, goval list) renderer" where
  [go_eval]: "BuildInsert u json q =
     (if iq_Upsert q \<noteq> None \<or> wo_Conflict (iq_Options q) \<noteq> None then Upsert u q
      else if iq_Ignore q then
        if iq_ValuesBatch q \<noteq> [] then rewriting (ignoring_rows u) (InsertBatch u q) else InsertIgnore u q
      else case iq_Query q of
        Some source \<Rightarrow> InsertUsing u json q source
      | None \<Rightarrow> if iq_Values q \<noteq> [] \<and> iq_ValuesBatch q = [] then Insert u q else InsertBatch u q)"

section \<open>UPDATE\<close>

definition formatJSONUpdateExpression :: "'p sql_utils \<Rightarrow> gostring \<Rightarrow> gostring list \<Rightarrow> gostring \<Rightarrow> ('s, unit) renderer" where
  [go_eval]: "formatJSONUpdateExpression u field path mark =
     (case u_dialect u of
        DialectMySQL \<Rightarrow>
          before (EscapeReference u field) (before (emit '' = JSON_SET('') (before (EscapeReference u field)
            (emit ('', '' @ [CHR 0x27] @ ''$.'' @ join ''.'' path @ [CHR 0x27] @ '', '' @ mark @ '')''))))
      | DialectPostgreSQL \<Rightarrow>
          before (EscapeReference u field) (before (emit '' = jsonb_set('') (before (EscapeReference u field)
            (emit ('', '' @ [CHR 0x27] @ ''{'' @ join '','' path @ ''}'' @ [CHR 0x27] @ '', '' @ mark @ '')''))))
      | DialectBase \<Rightarrow> before (EscapeReference u field) (emit ('' = '' @ mark)))"

definition set_item :: "'p sql_utils \<Rightarrow> bool \<Rightarrow> gostring \<Rightarrow> ('p rstate, unit) renderer" where
  [go_eval]: "set_item u literal col =
     (if \<not> literal \<and> str_contains col ''->'' then
        (case ParseJsonFieldAndPath col of (field, path) \<Rightarrow>
           andThen (GetPlaceholder u) (formatJSONUpdateExpression u field path))
      else before (writeColumn u col literal) (before (emit (if literal then ''='' else '' = '')) (placeholder u)))"

definition update_columns :: "write_options \<Rightarrow> row \<Rightarrow> gostring list" where
  [go_eval]: "update_columns opts vals =
     (case wo_Columns opts of Some cols \<Rightarrow> cols | None \<Rightarrow> sort (map fst vals))"

text \<open>The assignments are numbered from the values bound so far; the helper is then asked for as many placeholders.\<close>

definition assignment_clause :: "'p sql_utils \<Rightarrow> assignment list \<Rightarrow> bool \<Rightarrow> nat \<Rightarrow> ('p rstate, goval list) renderer" where
  [go_eval]: "assignment_clause u as follows bound =
     (if as = [] then ret []
      else case SetParts (writeDialect u) [] as (bound + 1) of
        Inl e \<Rightarrow> fail (InputFailure e)
      | Inr (parts, args) \<Rightarrow>
          before (emit (if follows then '', '' else [])) (before (emit (join '', '' parts))
            (andThen (each (\<lambda>a. andThen (GetPlaceholder u) (\<lambda>t. ret [])) args) (\<lambda>vs::unit list. ret args))))"

definition set_clause :: "'p sql_utils \<Rightarrow> update_query \<Rightarrow> nat \<Rightarrow> ('p rstate, goval list) renderer" where
  [go_eval]: "set_clause u q bound =
     (let opts = uq_Options q; cols = update_columns opts (uq_Values q); vals = map (cell (uq_Values q)) cols
      in before (sep_each '', '' (set_item u (wo_Literal opts)) cols)
           (andThen (assignment_clause u (wo_Assignments opts) (cols \<noteq> []) (bound + length vals)) (\<lambda>args. ret (vals @ args))))"

definition BuildUpdate ::
  "'p sql_utils \<Rightarrow> (goval \<Rightarrow> gostring) \<Rightarrow> update_query \<Rightarrow> ('p rstate, goval list \<times> pnode option) renderer" where
  [go_eval]: "BuildUpdate u json q =
     (case validateQuery (uq_Query q) 0 of
        Some e \<Rightarrow> fail (PredicateFailure e)
      | None \<Rightarrow>
         (case uq_Query q of Query f qus js gs cs \<Rightarrow>
          let sub = sub_builder u json build_fuel
          in before (emit ''UPDATE '') (before (writeTable u (uq_Table q) (uq_Options q))
            (andThen (RenderJoin u sub js) (\<lambda>joinValues.
              before (emit '' SET '') (andThen (set_clause u q (length joinValues)) (\<lambda>setValues.
                andThen (RenderPredicates (BaseRenderLeaf u sub) gs (length (joinValues @ setValues))) (\<lambda>(whereValues, tree).
                  before (if q_Order f = None then fail Panic else OrderBy u (q_Order f))
                    (ret (joinValues @ setValues @ whereValues, tree))))))))))"

section \<open>Placeholders of the SET clause\<close>

text \<open>
  \<^term>\<open>spells u n k m\<close>: run after \<^term>\<open>n\<close> placeholders were issued, \<^term>\<open>m\<close> writes \<^term>\<open>k\<close> more, numbered
  consecutively.
\<close>

definition spells :: "nat sql_utils \<Rightarrow> nat \<Rightarrow> nat \<Rightarrow> (nat rstate, 'a) renderer \<Rightarrow> bool" where
  "spells u n k m \<longleftrightarrow> (\<forall>s t a s'. m s = Done t a s' \<longrightarrow> r_ph s = issued u n 0 \<longrightarrow>
     (\<exists>ts. t = fill (writeDialect u) (n + 1) ts \<and> marks ts = k \<and> r_ph s' = issued u (n + k) 0))"

definition numbers :: "nat sql_utils \<Rightarrow> bool" where
  "numbers u \<longleftrightarrow> (\<forall>n. snd (u_next u (issued u n 0)) = sd_Placeholder (writeDialect u) (n + 1))"

lemma issued_postgres: "issued postgres_utils n p = p + n"
  by (induction n) (simp_all add: issued_def postgres_utils_def postgres_placeholder_def)

lemma numbers_dialects: "u = mysql_utils \<or> u = postgres_utils \<Longrightarrow> numbers u"
  using issued_postgres
  by (auto simp: numbers_def writeDialect_def mysql_utils_def mysql_dialect_def postgres_utils_def postgres_dialect_def
      mysql_placeholder_def postgres_placeholder_def)

lemma spellsI:
  "(\<And>s t a s'. m s = Done t a s' \<Longrightarrow> r_ph s = issued u n 0 \<Longrightarrow>
     \<exists>ts. t = fill (writeDialect u) (n + 1) ts \<and> marks ts = k \<and> r_ph s' = issued u (n + k) 0) \<Longrightarrow> spells u n k m"
  by (simp add: spells_def)

lemma spellsD:
  "spells u n k m \<Longrightarrow> m s = Done t a s' \<Longrightarrow> r_ph s = issued u n 0 \<Longrightarrow>
     \<exists>ts. t = fill (writeDialect u) (n + 1) ts \<and> marks ts = k \<and> r_ph s' = issued u (n + k) 0"
  by (simp add: spells_def)

lemma spells_ret: "spells u n 0 (ret a)"
  by (rule spellsI, rule exI [of _ "[]"]) simp

lemma spells_emit: "spells u n 0 (emit t)"
  by (rule spellsI, rule exI [of _ "[Some t]"]) simp

lemma spells_andThen:
  assumes "spells u n j m" "\<And>a. spells u (n + j) k (f a)"
  shows "spells u n (j + k) (andThen m f)"
proof (rule spellsI)
  fix s t b s'
  assume s: "r_ph s = issued u n 0" and "andThen m f s = Done t b s'"
  then obtain t1 a s1 t2 where 1: "m s = Done t1 a s1" and 2: "f a s1 = Done t2 b s'" and t: "t = t1 @ t2"
    by (auto simp: andThen_Done)
  obtain ts where ts: "t1 = fill (writeDialect u) (n + 1) ts" "marks ts = j" "r_ph s1 = issued u (n + j) 0"
    using spellsD [OF assms(1) 1 s] by blast
  obtain us where us: "t2 = fill (writeDialect u) (n + j + 1) us" "marks us = k" "r_ph s' = issued u (n + j + k) 0"
    using spellsD [OF assms(2) 2 ts(3)] by blast
  show "\<exists>ts. t = fill (writeDialect u) (n + 1) ts \<and> marks ts = j + k \<and> r_ph s' = issued u (n + (j + k)) 0"
    by (rule exI [of _ "ts @ us"]) (simp add: t ts us add.assoc)
qed

lemma spells_before: "spells u n j m \<Longrightarrow> spells u (n + j) k m' \<Longrightarrow> spells u n (j + k) (before m m')"
  by (simp add: before_def spells_andThen)

lemma spells_before_0: "spells u n 0 m \<Longrightarrow> spells u n k m' \<Longrightarrow> spells u n k (before m m')"
  using spells_before [of u n 0 m k m'] by simp

lemma spells_sep_each:
  "(\<And>x m. spells u m 1 (f x)) \<Longrightarrow> spells u n (length xs) (sep_each sep f xs)"
proof (induction sep f xs arbitrary: n rule: sep_each.induct)
  case (2 sep f x)
  then show ?case using 2 [of n x] by simp
next
  case (3 sep f x y xs)
  have "spells u (n + 1) (length (y # xs)) (before (emit sep) (sep_each sep f (y # xs)))"
    using 3 by (blast intro: spells_before_0 spells_emit)
  from spells_before [OF 3(2) this] show ?case by simp
qed (simp add: spells_ret)

lemma spells_column: "spells u n 0 (writeColumn u c literal)"
  by (simp add: writeColumn_def EscapeReference_def spells_emit)

lemma issued_Suc: "issued u (Suc n) p = fst (u_next u (issued u n p))"
  using issued_add [of u n 1 p] by (simp add: issued_1)

lemma GetPlaceholder_Done:
  "GetPlaceholder u s = Done t a s' \<longleftrightarrow>
     t = [] \<and> a = snd (u_next u (r_ph s)) \<and> s' = s\<lparr>r_ph := fst (u_next u (r_ph s))\<rparr>"
  by (auto simp: GetPlaceholder_def split: prod.splits)

lemma spells_placeholder: "numbers u \<Longrightarrow> spells u n 1 (placeholder u)"
  by (rule spellsI, rule exI [of _ "[None]"])
    (auto simp: placeholder_def andThen_Done GetPlaceholder_Done numbers_def issued_Suc)

text \<open>A JSON expression writes its placeholder once.\<close>

lemma formatJSONUpdateExpression_shape:
  obtains pre post where "\<And>mark s. formatJSONUpdateExpression u field path mark s = Done (pre @ mark @ post) () s"
proof -
  let ?e = "AppendEscapedReference [] field (quote_of (u_dialect u))"
  note defs = formatJSONUpdateExpression_def before_def andThen_def emit_def EscapeReference_def
  show thesis
  proof (cases "u_dialect u")
    case DialectBase
    then show thesis using that [of "?e @ '' = ''" "[]"] by (simp add: defs)
  next
    case DialectMySQL
    then show thesis
      using that [of "?e @ '' = JSON_SET('' @ ?e @ '', '' @ [CHR 0x27] @ ''$.'' @ join ''.'' path @ [CHR 0x27] @ '', ''" "'')''"]
      by (simp add: defs)
  next
    case DialectPostgreSQL
    then show thesis
      using that [of "?e @ '' = jsonb_set('' @ ?e @ '', '' @ [CHR 0x27] @ ''{'' @ join '','' path @ ''}'' @ [CHR 0x27] @ '', ''" "'')''"]
      by (simp add: defs)
  qed
qed

lemma spells_set_item:
  assumes "numbers u"
  shows "spells u n 1 (set_item u literal col)"
proof (cases "\<not> literal \<and> str_contains col ''->''")
  case True
  obtain field path where fp: "ParseJsonFieldAndPath col = (field, path)" by fastforce
  show ?thesis
  proof (rule spellsI)
    fix s t and a :: unit and s'
    assume s: "r_ph s = issued u n 0" and item: "set_item u literal col s = Done t a s'"
    obtain pre post where shape: "\<And>mark (s :: nat rstate).
        formatJSONUpdateExpression u field path mark s = Done (pre @ mark @ post) () s"
      using formatJSONUpdateExpression_shape by blast
    have "t = pre @ snd (u_next u (r_ph s)) @ post" "r_ph s' = fst (u_next u (r_ph s))"
      using item True fp by (auto simp: set_item_def andThen_Done GetPlaceholder_Done shape)
    then show "\<exists>ts. t = fill (writeDialect u) (n + 1) ts \<and> marks ts = 1 \<and> r_ph s' = issued u (n + 1) 0"
      using assms s by (intro exI [of _ "[Some pre, None, Some post]"]) (simp add: numbers_def issued_Suc)
  qed
next
  case False
  have "spells u n 1 (before (writeColumn u col literal) (before (emit (if literal then ''='' else '' = '')) (placeholder u)))"
    by (intro spells_before_0 spells_column spells_emit spells_placeholder assms)
  moreover have "set_item u literal col =
      before (writeColumn u col literal) (before (emit (if literal then ''='' else '' = '')) (placeholder u))"
    using False by (auto simp: set_item_def)
  ultimately show ?thesis by simp
qed

lemma advance_Done:
  "each (\<lambda>a. andThen (GetPlaceholder u) (\<lambda>t. ret [])) args s = Done t (vs :: unit list) s' \<Longrightarrow>
     t = [] \<and> r_ph s' = issued u (length args) (r_ph s)"
proof (induction args arbitrary: s t vs)
  case (Cons a args)
  obtain s1 t2 ws where s1: "s1 = s\<lparr>r_ph := fst (u_next u (r_ph s))\<rparr>"
    and rest: "each (\<lambda>a. andThen (GetPlaceholder u) (\<lambda>t. ret [])) args s1 = Done t2 (ws :: unit list) s'" and t: "t = t2"
    using Cons.prems by (auto simp: andThen_Done GetPlaceholder_Done)
  from Cons.IH [OF rest] show ?case
    using issued_add [of u 1 "length args"] by (simp add: s1 t issued_1)
qed simp

lemma assignment_clause_Done:
  assumes "numbers u" "r_ph s = issued u n 0" "assignment_clause u as follows n s = Done t args s'"
  shows "\<exists>ts. t = fill (writeDialect u) (n + 1) ts \<and> marks ts = length args \<and> r_ph s' = issued u (n + length args) 0"
    and "args = concat (map as_Args as)"
proof -
  show "\<exists>ts. t = fill (writeDialect u) (n + 1) ts \<and> marks ts = length args \<and> r_ph s' = issued u (n + length args) 0"
  proof (cases "as = []")
    case True
    then show ?thesis using assms by (intro exI [of _ "[]"]) (simp add: assignment_clause_def)
  next
    case False
    then obtain parts where p: "SetParts (writeDialect u) [] as (n + 1) = Inr (parts, args)"
      and t: "t = (if follows then '', '' else []) @ join '', '' parts" "r_ph s' = issued u (length args) (r_ph s)"
      using assms(3) by (fastforce simp: assignment_clause_def before_Done andThen_Done dest: advance_Done split: sum.splits)
    obtain ts where "join '', '' parts = fill (writeDialect u) (n + 1) ts" "marks ts = length args"
      using SetParts_fill(1) [OF p] by blast
    then show ?thesis
      using assms(2) t by (intro exI [of _ "Some (if follows then '', '' else []) # ts"]) (simp add: issued_add)
  qed
  show "args = concat (map as_Args as)"
    using assms(3) by (auto simp: assignment_clause_def before_Done andThen_Done dest: SetParts_args split: sum.splits if_splits)
qed

definition set_values :: "update_query \<Rightarrow> goval list" where
  "set_values q = map (cell (uq_Values q)) (update_columns (uq_Options q) (uq_Values q)) @
     concat (map as_Args (wo_Assignments (uq_Options q)))"

lemma set_clause_Done:
  assumes "numbers u" "r_ph s = issued u n 0" "set_clause u q n s = Done t vals s'"
  shows "vals = set_values q \<and>
    (\<exists>ts. t = fill (writeDialect u) (n + 1) ts \<and> marks ts = length vals \<and> r_ph s' = issued u (n + length vals) 0)"
proof -
  let ?cols = "update_columns (uq_Options q) (uq_Values q)"
  let ?vals = "map (cell (uq_Values q)) ?cols"
  obtain t1 s1 t2 args where 1: "sep_each '', '' (set_item u (wo_Literal (uq_Options q))) ?cols s = Done t1 () s1"
    and 2: "assignment_clause u (wo_Assignments (uq_Options q)) (?cols \<noteq> []) (n + length ?vals) s1 = Done t2 args s'"
    and t: "t = t1 @ t2" and vals: "vals = ?vals @ args"
    using assms(3) by (auto simp: set_clause_def Let_def before_Done andThen_Done)
  obtain ts where ts: "t1 = fill (writeDialect u) (n + 1) ts" "marks ts = length ?vals" "r_ph s1 = issued u (n + length ?vals) 0"
    using spellsD [OF spells_sep_each [OF spells_set_item [OF assms(1)]] 1 assms(2)] by auto
  obtain us where us: "t2 = fill (writeDialect u) (n + length ?vals + 1) us" "marks us = length args"
      "r_ph s' = issued u (n + length ?vals + length args) 0"
    using assignment_clause_Done(1) [OF assms(1) ts(3) 2] by blast
  have "vals = set_values q"
    using assignment_clause_Done(2) [OF assms(1) ts(3) 2] by (simp add: vals set_values_def)
  moreover have "t = fill (writeDialect u) (n + 1) (ts @ us)" "marks (ts @ us) = length vals"
      "r_ph s' = issued u (n + length vals) 0"
    using ts us by (simp_all add: t vals add.assoc)
  ultimately show ?thesis by blast
qed

section \<open>What an UPDATE binds\<close>

lemma sub_builder_balanced: "clean build_fuel sq \<Longrightarrow> balanced u (sub_builder u json build_fuel sq)"
proof -
  assume ok: "clean build_fuel sq"
  have "balanced u (andThen (Build build_fuel u json sq 0 None) (\<lambda>r. ret (fst r)))"
    using issuesD [OF Build_balanced [OF ok]] by (auto intro!: issuesI simp: andThen_Done)
  then show ?thesis by (simp add: sub_builder_def in_subquery_balanced)
qed

lemma issues_table: "issues u (\<lambda>_. 0) (writeTable u' t opts)"
  by (auto simp: writeTable_def issues_escape issues_emit Let_def)


definition plain_update :: update_query where
  [go_eval]: "plain_update =
     \<lparr>uq_Options = \<lparr>wo_Columns = None, wo_TableParts = [], wo_Assignments =
        [\<lparr>as_Column = ''n'', as_Expression = [], as_Args = [VInt 2], as_SourceColumn = [], as_Kind = AssignIncrement\<rparr>],
        wo_Conflict = None, wo_Literal = False\<rparr>,
      uq_Table = ''t'', uq_Values = [(''a'', VInt 1)], uq_Query = Query (qf sample_query) [] None [] None\<rparr>"

lemma plain_update_built:
  "BuildUpdate postgres_utils (\<lambda>v. []) plain_update \<lparr>r_ph = 0, r_cols = []\<rparr> =
     Done (''UPDATE \"t\" SET \"a\" = $1, \"n\"=\"n\" + $2'') ([VInt 1, VInt 2], None) \<lparr>r_ph = 2, r_cols = []\<rparr>"
  by code_simp

section \<open>What an INSERT binds\<close>

definition column_text :: "'p sql_utils \<Rightarrow> bool \<Rightarrow> gostring \<Rightarrow> gostring" where
  "column_text u literal c = (if literal then QuoteIdent (u_dialect u) c else escaped_reference u c)"

definition table_text :: "'p sql_utils \<Rightarrow> insert_query \<Rightarrow> gostring" where
  "table_text u q =
     (if \<not> wo_Literal (iq_Options q) then AppendEscapedRelation [] (iq_Table q) (quote_of (u_dialect u))
      else join ''.'' (map (sd_QuoteIdent (writeDialect u))
        (if wo_TableParts (iq_Options q) = [] then split_on CHR ''.'' (iq_Table q) else wo_TableParts (iq_Options q))))"

lemma writeTable_text: "writeTable u (iq_Table q) (iq_Options q) = emit (table_text u q)"
  by (simp add: writeTable_def table_text_def EscapeRelation_def)

lemma before_emit: "before (emit t) (emit t') = emit (t @ t')"
  by (rule ext) (simp add: before_def andThen_def emit_def)

lemma sep_each_emit: "sep_each sep (\<lambda>x. emit (g x)) xs = emit (join sep (map g xs))"
proof (induction xs rule: induct_list012)
  case 1
  show ?case by (rule ext) (simp add: ret_def emit_def)
qed (simp_all add: before_emit)

lemma writeColumn_text: "writeColumn u c literal = emit (column_text u literal c)"
  by (simp add: writeColumn_def column_text_def escaped_reference_def EscapeReference_def)

lemma column_list_text: "column_list u literal cols = emit (join '', '' (map (column_text u literal) cols))"
  by (simp add: column_list_def writeColumn_text sep_each_emit)

text \<open>\<^term>\<open>steady u k m\<close>: \<^term>\<open>m\<close> always returns, after exactly \<^term>\<open>k\<close> placeholders.\<close>

definition steady :: "'p sql_utils \<Rightarrow> nat \<Rightarrow> ('p rstate, unit) renderer \<Rightarrow> bool" where
  "steady u k m \<longleftrightarrow> (\<forall>s. \<exists>t. m s = Done t () (s\<lparr>r_ph := issued u k (r_ph s)\<rparr>))"

lemma steady_emit: "steady u 0 (emit t)"
  by (simp add: steady_def emit_def)

lemma steady_ret: "steady u 0 (ret ())"
  by (simp add: steady_def ret_def)

lemma steady_placeholder: "steady u 1 (placeholder u)"
  by (simp add: steady_def placeholder_def andThen_def GetPlaceholder_def emit_def issued_1 split: prod.splits)

lemma steady_before:
  assumes "steady u j m" "steady u k m'"
  shows "steady u (j + k) (before m m')"
  unfolding steady_def
proof
  fix s
  obtain t where "m s = Done t () (s\<lparr>r_ph := issued u j (r_ph s)\<rparr>)"
    using assms(1) by (auto simp: steady_def)
  moreover obtain t' where "m' (s\<lparr>r_ph := issued u j (r_ph s)\<rparr>) = Done t' () (s\<lparr>r_ph := issued u (j + k) (r_ph s)\<rparr>)"
    using assms(2) [unfolded steady_def, rule_format, of "s\<lparr>r_ph := issued u j (r_ph s)\<rparr>"] by (auto simp: issued_add)
  ultimately show "\<exists>t. before m m' s = Done t () (s\<lparr>r_ph := issued u (j + k) (r_ph s)\<rparr>)"
    by (simp add: before_def andThen_def)
qed

lemma steady_sep_each: "(\<And>x. steady u k (f x)) \<Longrightarrow> steady u (length xs * k) (sep_each sep f xs)"
proof (induction sep f xs rule: sep_each.induct)
  case (3 sep f x y xs)
  have "steady u (k + (0 + length (y # xs) * k)) (before (f x) (before (emit sep) (sep_each sep f (y # xs))))"
    by (intro steady_before steady_emit 3)
  then show ?case by simp
qed (simp_all add: steady_ret)

lemma steady_row: "steady u (length cols) (row_marks u cols)"
proof -
  have "steady u (0 + (length cols * 1 + 0)) (row_marks u cols)"
    unfolding row_marks_def by (intro steady_before steady_emit steady_sep_each steady_placeholder)
  then show ?thesis by simp
qed

lemma InsertBatch_Done:
  fixes q :: insert_query
  defines "cols \<equiv> insert_columns (iq_Options q) (iq_ValuesBatch q)"
  shows "\<exists>t. InsertBatch u q s = Done (''INSERT INTO '' @ table_text u q @ '' ('' @
       join '', '' (map (column_text u (wo_Literal (iq_Options q))) cols) @ '') VALUES '' @ t)
     (concat (map (\<lambda>r. map (cell r) cols) (iq_ValuesBatch q)))
     (s\<lparr>r_ph := issued u (length (iq_ValuesBatch q) * length cols) (r_ph s)\<rparr>)"
proof -
  obtain t where "sep_each '', '' (\<lambda>r. row_marks u cols) (iq_ValuesBatch q) s =
      Done t () (s\<lparr>r_ph := issued u (length (iq_ValuesBatch q) * length cols) (r_ph s)\<rparr>)"
    using steady_sep_each [of u "length cols" "\<lambda>r. row_marks u cols" "iq_ValuesBatch q" "'', ''", OF steady_row] unfolding steady_def by blast
  then show ?thesis
    by (simp add: InsertBatch_def Let_def writeTable_text column_list_text before_def andThen_def emit_def ret_def
        cols_def [symmetric])
qed

lemma nth_concat_rows:
  assumes "\<And>x. length (f x) = n" "i < length xs" "j < n"
  shows "concat (map f xs) ! (i * n + j) = f (xs ! i) ! j"
  using assms(2)
proof (induction xs arbitrary: i)
  case (Cons x xs)
  then show ?case
    using assms(1,3) by (cases i) (auto simp: nth_append add.assoc)
qed simp

lemma insert_columns_keys:
  "list_of (wo_Columns opts) = [] \<Longrightarrow>
     sorted (insert_columns opts rows) \<and> distinct (insert_columns opts rows) \<and>
     set (insert_columns opts rows) = (\<Union>r \<in> set rows. fst ` set r)"
  by (auto simp: insert_columns_def)

text \<open>
  C12: A batch INSERT is always built; it lists its columns (those of the options, or else every key of every row, once and
  sorted), issues one placeholder per row and column, and the value of row i and column j, nil when the row lacks the key, is
  bound at their place.
\<close>

theorem batch_insert_binds_rows:
  assumes "iq_Upsert q = None" "wo_Conflict (iq_Options q) = None" "\<not> iq_Ignore q" "iq_Query q = None"
    "iq_ValuesBatch q = rows" "rows \<noteq> []" "insert_columns (iq_Options q) rows = cols"
  shows "\<exists>t vals s'. BuildInsert u json q s =
      Done (''INSERT INTO '' @ table_text u q @ '' ('' @
        join '', '' (map (column_text u (wo_Literal (iq_Options q))) cols) @ '') VALUES '' @ t) vals s' \<and>
      length vals = length rows * length cols \<and> r_ph s' = issued u (length vals) (r_ph s) \<and>
      (\<forall>i < length rows. \<forall>j < length cols. vals ! (i * length cols + j) = cell (rows ! i) (cols ! j)) \<and>
      (list_of (wo_Columns (iq_Options q)) = [] \<longrightarrow>
         sorted cols \<and> distinct cols \<and> set cols = (\<Union>r \<in> set rows. fst ` set r))"
proof -
  obtain t where "BuildInsert u json q s =
      Done (''INSERT INTO '' @ table_text u q @ '' ('' @
        join '', '' (map (column_text u (wo_Literal (iq_Options q))) cols) @ '') VALUES '' @ t)
        (concat (map (\<lambda>r. map (cell r) cols) rows)) (s\<lparr>r_ph := issued u (length rows * length cols) (r_ph s)\<rparr>)"
    using InsertBatch_Done [of u q s] assms by (auto simp: BuildInsert_def)
  moreover have "length (concat (map (\<lambda>r. map (cell r) cols) rows)) = length rows * length cols"
    by (induction rows) simp_all
  moreover have "concat (map (\<lambda>r. map (cell r) cols) rows) ! (i * length cols + j) = cell (rows ! i) (cols ! j)"
    if "i < length rows" "j < length cols" for i j
    using that nth_concat_rows [of "\<lambda>r. map (cell r) cols" "length cols"] by simp
  ultimately show ?thesis
    using insert_columns_keys [of "iq_Options q" rows] assms(7) by auto
qed

definition two_rows :: insert_query where
  [go_eval]: "two_rows =
     \<lparr>iq_Options = \<lparr>wo_Columns = None, wo_TableParts = [], wo_Assignments = [], wo_Conflict = None, wo_Literal = False\<rparr>,
      iq_Table = ''t'', iq_Values = [], iq_ValuesBatch = [[(''b'', VInt 1)], [(''a'', VInt 2)]], iq_Columns = [],
      iq_Query = None, iq_Ignore = False, iq_Upsert = None\<rparr>"

lemma two_rows_columns: "insert_columns (iq_Options two_rows) [[(''b'', VInt 1)], [(''a'', VInt 2)]] = [''a'', ''b'']"
  by code_simp

theorem batch_insert_binds_rows_witness:
  "\<exists>t vals s'. BuildInsert postgres_utils (\<lambda>v. []) two_rows \<lparr>r_ph = 0, r_cols = []\<rparr> = Done t vals s' \<and>
     length vals = 4 \<and> r_ph s' = 4 \<and> vals ! 1 = VInt 1 \<and> vals ! 2 = VInt 2"
proof -
  let ?rows = "[[(''b'', VInt 1)], [(''a'', VInt 2)]]"
  obtain t vals s' where b: "BuildInsert postgres_utils (\<lambda>v. []) two_rows \<lparr>r_ph = 0, r_cols = []\<rparr> = Done t vals s'"
      "length vals = 2 * 2" "r_ph s' = issued postgres_utils (length vals) 0"
      and at: "\<forall>i < 2. \<forall>j < 2. vals ! (i * 2 + j) = cell (?rows ! i) ([''a'', ''b''] ! j)"
    using batch_insert_binds_rows [OF _ _ _ _ _ _ two_rows_columns, of postgres_utils "\<lambda>v. []" "\<lparr>r_ph = 0, r_cols = []\<rparr>"]
    by (auto simp: two_rows_def numeral_2_eq_2)
  have "vals ! 1 = VInt 1" "vals ! 2 = VInt 2"
    using at [rule_format, of 0 1] at [rule_format, of 1 0] by (simp_all add: cell_def)
  with b show ?thesis by (simp add: issued_postgres)
qed

end
