(* ===== verification/WriteBuilders.thy ===== *)
theory WriteBuilders
  imports WriteStatements
begin

text \<open>
  The builders of INSERT, UPDATE and DELETE (\<^verbatim>\<open>internal/query/insertbuilder.go\<close>, \<^verbatim>\<open>updatebuilder.go\<close>,
  \<^verbatim>\<open>deletebuilder.go\<close>, \<^verbatim>\<open>state.go\<close>) and the snapshots of their builds (\<^verbatim>\<open>querybuilder/api\<close>).  A build renders a
  detached copy of the statement, which has the same value (the bounded copier returns its argument), from a placeholder
  counter set to zero; the columns already selected stay with the renderer's state.
\<close>

section \<open>INSERT\<close>

definition no_options :: write_options where
  [go_eval]: "no_options = \<lparr>wo_Columns = None, wo_TableParts = [], wo_Assignments = [], wo_Conflict = None, wo_Literal = False\<rparr>"

record insert_builder =
  ib_query :: insert_query
  ib_built :: "insert_query option"

definition NewInsertBuilder :: insert_builder where
  [go_eval]: "NewInsertBuilder =
     \<lparr>ib_query = \<lparr>iq_Options = no_options, iq_Table = [], iq_Values = [], iq_ValuesBatch = [], iq_Columns = [], iq_Query = None,
        iq_Ignore = False, iq_Upsert = None\<rparr>, ib_built = None\<rparr>"

definition on_insert :: "(insert_query \<Rightarrow> insert_query) \<Rightarrow> insert_builder \<Rightarrow> insert_builder" where
  [go_eval]: "on_insert f b = b\<lparr>ib_query := f (ib_query b)\<rparr>"

definition IBTable :: "gostring \<Rightarrow> insert_builder \<Rightarrow> insert_builder" where
  [go_eval]: "IBTable table = on_insert (\<lambda>q. q\<lparr>iq_Table := table\<rparr>)"

definition IBInsert :: "row \<Rightarrow> insert_builder \<Rightarrow> insert_builder" where
  [go_eval]: "IBInsert data = on_insert (\<lambda>q. q\<lparr>iq_Values := data\<rparr>)"

definition IBInsertBatch :: "row list \<Rightarrow> insert_builder \<Rightarrow> insert_builder" where
  [go_eval]: "IBInsertBatch data = on_insert (\<lambda>q. q\<lparr>iq_ValuesBatch := data\<rparr>)"

definition IBInsertOrIgnore :: "row list \<Rightarrow> insert_builder \<Rightarrow> insert_builder" where
  [go_eval]: "IBInsertOrIgnore data = on_insert (\<lambda>q. q\<lparr>iq_ValuesBatch := data, iq_Ignore := True\<rparr>)"

definition IBUpsert :: "row list \<Rightarrow> gostring list \<Rightarrow> gostring list \<Rightarrow> insert_builder \<Rightarrow> insert_builder" where
  [go_eval]: "IBUpsert data unique cols =
     on_insert (\<lambda>q. q\<lparr>iq_ValuesBatch := data, iq_Upsert := Some \<lparr>UniqueColumns = unique, UpdateColumns = cols\<rparr>\<rparr>)"

text \<open>Both maps are visited in the order they are given in; a later value replaces an earlier one of the same key.\<close>

definition merge_rows :: "row \<Rightarrow> row \<Rightarrow> row" where
  [go_eval]: "merge_rows condition vals = fold (\<lambda>(k, v). AList.update k v) vals condition"

definition IBUpdateOrInsert :: "row \<Rightarrow> row \<Rightarrow> insert_builder \<Rightarrow> insert_builder" where
  [go_eval]: "IBUpdateOrInsert condition vals =
     on_insert (\<lambda>q. q\<lparr>iq_ValuesBatch := [merge_rows condition vals],
       iq_Upsert := Some \<lparr>UniqueColumns = map fst condition, UpdateColumns = map fst vals\<rparr>\<rparr>)"

definition IBInsertUsing :: "gostring list \<Rightarrow> select_builder \<Rightarrow> insert_builder \<Rightarrow> insert_builder \<times> select_builder" where
  [go_eval]: "IBInsertUsing cols source b =
     (case GetQuery (buildQuery (source\<lparr>sb_where := flush_conditions op_AND (sb_where source)\<rparr>)) of
        (q, source') \<Rightarrow> (on_insert (\<lambda>iq. iq\<lparr>iq_Columns := cols, iq_Query := Some q\<rparr>) b, source'))"

definition IBWriteOptions :: "write_options \<Rightarrow> insert_builder \<Rightarrow> insert_builder" where
  [go_eval]: "IBWriteOptions opts = on_insert (\<lambda>q. q\<lparr>iq_Options := opts\<rparr>)"

definition IBBuild ::
  "'p sql_utils \<Rightarrow> 'p \<Rightarrow> (goval \<Rightarrow> gostring) \<Rightarrow> insert_builder \<Rightarrow> 'p rstate \<Rightarrow>
     (render_error + gostring \<times> goval list) \<times> insert_builder \<times> 'p rstate" where
  [go_eval]: "IBBuild u zero json b s =
     (let b' = b\<lparr>ib_built := Some (ib_query b)\<rparr>
      in case BuildInsert u json (ib_query b) (s\<lparr>r_ph := zero\<rparr>) of
           Fail e t s' \<Rightarrow> (Inl e, b', s')
         | Done t vals s' \<Rightarrow> (Inr (t, vals), b', s'))"

record insert_snapshot =
  is_Mode :: gostring
  is_Unverified :: "gostring list"
  is_Table :: gostring
  is_Columns :: "gostring list"
  is_BatchSize :: nat
  is_UniqueColumns :: "gostring list"
  is_UpdateColumns :: "gostring list"

definition insert_snapshot_of :: "insert_query \<Rightarrow> insert_snapshot" where
  [go_eval]: "insert_snapshot_of src =
     (let names = sort (remdups (map fst (iq_Values src) @ concat (map (map fst) (iq_ValuesBatch src)) @ iq_Columns src));
          out = \<lparr>is_Mode = (if iq_Ignore src then ''ignore'' else []), is_Unverified = [], is_Table = iq_Table src,
            is_Columns = (if iq_Query src \<noteq> None then iq_Columns src else names), is_BatchSize = length (iq_ValuesBatch src),
            is_UniqueColumns = [], is_UpdateColumns = []\<rparr>;
          out = (case iq_Upsert src of
              None \<Rightarrow> out
            | Some us \<Rightarrow> out\<lparr>is_Mode := ''upsert'', is_UniqueColumns := UniqueColumns us, is_UpdateColumns := UpdateColumns us\<rparr>);
          out = (case wo_Conflict (iq_Options src) of
              None \<Rightarrow> out
            | Some c \<Rightarrow> out\<lparr>is_Mode := ''upsert'',
                is_Unverified := (if cf_Where c \<noteq> [] \<or> cf_Constraint c \<noteq> [] \<or> cf_RawTarget c \<noteq> [] then [''conflict_expression''] else []),
                is_UniqueColumns := cf_Columns c, is_UpdateColumns := cf_Updates c\<rparr>);
          out = out\<lparr>is_UpdateColumns := is_UpdateColumns out @ map as_Column (wo_Assignments (iq_Options src))\<rparr>
      in if wo_Assignments (iq_Options src) = [] then out
         else out\<lparr>is_Unverified := is_Unverified out @ [''assignment_expression'']\<rparr>)"

definition InsertBuildSnapshot ::
  "'p sql_utils \<Rightarrow> 'p \<Rightarrow> (goval \<Rightarrow> gostring) \<Rightarrow> insert_builder \<Rightarrow> 'p rstate \<Rightarrow>
     (render_error + gostring \<times> goval list \<times> insert_snapshot) \<times> insert_builder \<times> 'p rstate" where
  [go_eval]: "InsertBuildSnapshot u zero json b s =
     (case IBBuild u zero json b s of
        (Inl e, r) \<Rightarrow> (Inl e, r)
      | (Inr (t, vals), r) \<Rightarrow> (Inr (t, vals, insert_snapshot_of (ib_query b)), r))"

section \<open>UPDATE\<close>

text \<open>The conditions, joins and order of an UPDATE or DELETE are the embedded builders, held as a select builder's.\<close>

record update_builder =
  ub_Table :: gostring
  ub_Values :: row
  ub_Options :: write_options
  ub_parts :: select_builder

definition NewUpdateBuilder :: update_builder where
  [go_eval]: "NewUpdateBuilder = \<lparr>ub_Table = [], ub_Values = [], ub_Options = no_options, ub_parts = NewSelectBuilder\<rparr>"

definition UBTable :: "gostring \<Rightarrow> update_builder \<Rightarrow> update_builder" where
  [go_eval]: "UBTable table b = b\<lparr>ub_Table := table, ub_parts := (ub_parts b)\<lparr>sb_JoinTable := table\<rparr>\<rparr>"

definition UBUpdate :: "row \<Rightarrow> update_builder \<Rightarrow> update_builder" where
  [go_eval]: "UBUpdate data b = b\<lparr>ub_Values := data\<rparr>"

definition UBWriteOptions :: "write_options \<Rightarrow> update_builder \<Rightarrow> update_builder" where
  [go_eval]: "UBWriteOptions opts b = b\<lparr>ub_Options := opts\<rparr>"

text \<open>The conditions, joins and order of another query; the joins continue from this statement's table.\<close>

definition apply_parts :: "gostring \<Rightarrow> query \<Rightarrow> select_builder \<Rightarrow> select_builder" where
  [go_eval]: "apply_parts table q b =
     (ApplyJoins (Joins q) b)
       \<lparr>sb_where := ApplyConditions q (sb_where b), sb_JoinTable := table,
        sb_Order := (case q_Order (qf q) of None \<Rightarrow> [] | Some ord \<Rightarrow> ord)\<rparr>"

definition UBApplyQueryState :: "query \<Rightarrow> update_builder \<Rightarrow> update_builder" where
  [go_eval]: "UBApplyQueryState q b = b\<lparr>ub_parts := apply_parts (ub_Table b) q (ub_parts b)\<rparr>"

definition UBOrderBy :: "gostring \<Rightarrow> gostring \<Rightarrow> update_builder \<Rightarrow> update_builder" where
  [go_eval]: "UBOrderBy col dir b = b\<lparr>ub_parts := BOrderBy col dir (ub_parts b)\<rparr>"

definition UBOrderByRaw :: "gostring \<Rightarrow> update_builder \<Rightarrow> update_builder" where
  [go_eval]: "UBOrderByRaw raw b = b\<lparr>ub_parts := BOrderByRaw raw (ub_parts b)\<rparr>"

definition UBReOrder :: "update_builder \<Rightarrow> update_builder" where
  [go_eval]: "UBReOrder b = b\<lparr>ub_parts := BReOrder (ub_parts b)\<rparr>"

text \<open>The query of the statement once its pending conditions are sealed.\<close>

definition parts_query :: "select_builder \<Rightarrow> query" where
  [go_eval]: "parts_query b =
     Query \<lparr>q_PredicateError = b_PredicateError (sb_where b), q_Columns = None, q_Table = [], q_Limit = (False, 0), q_Offset = 0,
        q_Order = Some (sb_Order b), q_Group = None, q_Lock = None\<rparr>
       [] (Some (builder_joins b)) (b_ConditionGroups (sb_where b)) (Some (b_Conditions (sb_where b)))"

definition seal_parts :: "select_builder \<Rightarrow> select_builder" where
  [go_eval]: "seal_parts b = b\<lparr>sb_where := flush_conditions op_AND (sb_where b)\<rparr>"

definition update_of :: "update_builder \<Rightarrow> update_query" where
  [go_eval]: "update_of b =
     \<lparr>uq_Options = ub_Options b, uq_Table = ub_Table b, uq_Values = ub_Values b, uq_Query = parts_query (ub_parts b)\<rparr>"

definition UBBuild ::
  "'p sql_utils \<Rightarrow> 'p \<Rightarrow> (goval \<Rightarrow> gostring) \<Rightarrow> update_builder \<Rightarrow> 'p rstate \<Rightarrow>
     (render_error + gostring \<times> goval list \<times> update_query \<times> pnode option) \<times> update_builder \<times> 'p rstate" where
  [go_eval]: "UBBuild u zero json b s =
     (let b' = b\<lparr>ub_parts := seal_parts (ub_parts b)\<rparr>
      in case BuildUpdate u json (update_of b') (s\<lparr>r_ph := zero\<rparr>) of
           Fail e t s' \<Rightarrow> (Inl e, b', s')
         | Done t (vals, tree) s' \<Rightarrow> (Inr (t, vals, update_of b', tree), b', s'))"

definition UpdateBuildSnapshot ::
  "'p sql_utils \<Rightarrow> 'p \<Rightarrow> (goval \<Rightarrow> gostring) \<Rightarrow> update_builder \<Rightarrow> 'p rstate \<Rightarrow>
     (render_error + gostring \<times> goval list \<times> query_snapshot) \<times> update_builder \<times> 'p rstate" where
  [go_eval]: "UpdateBuildSnapshot u zero json b s =
     (case UBBuild u zero json b s of
        (Inl e, r) \<Rightarrow> (Inl e, r)
      | (Inr (t, vals, built, tree), r) \<Rightarrow>
          let sn = snapshotFromQuery (uq_Query built) tree None; as = wo_Assignments (uq_Options built);
              unverified = items (sn_Unverified sn) @ map (\<lambda>a. ''assignment_expression'') as
          in (Inr (t, vals, sn\<lparr>sn_AssignmentColumns := sort (map fst (uq_Values built) @ map as_Column as),
                sn_Unverified := (if as = [] then sn_Unverified sn else Some unverified), sn_Table := uq_Table built\<rparr>), r))"

section \<open>DELETE\<close>

record delete_builder =
  db_Table :: gostring
  db_parts :: select_builder

definition NewDeleteBuilder :: delete_builder where
  [go_eval]: "NewDeleteBuilder = \<lparr>db_Table = [], db_parts = NewSelectBuilder\<rparr>"

definition DBTable :: "gostring \<Rightarrow> delete_builder \<Rightarrow> delete_builder" where
  [go_eval]: "DBTable table b = b\<lparr>db_Table := table, db_parts := (db_parts b)\<lparr>sb_JoinTable := table\<rparr>\<rparr>"

definition DBApplyQueryState :: "query \<Rightarrow> delete_builder \<Rightarrow> delete_builder" where
  [go_eval]: "DBApplyQueryState q b = b\<lparr>db_parts := apply_parts (db_Table b) q (db_parts b)\<rparr>"

definition DBBuild ::
  "'p sql_utils \<Rightarrow> 'p \<Rightarrow> (goval \<Rightarrow> gostring) \<Rightarrow> delete_builder \<Rightarrow> 'p rstate \<Rightarrow>
     (render_error + gostring \<times> goval list \<times> query \<times> pnode option) \<times> delete_builder \<times> 'p rstate" where
  [go_eval]: "DBBuild u zero json b s =
     (let b' = b\<lparr>db_parts := seal_parts (db_parts b)\<rparr>; q = parts_query (db_parts b')
      in case BuildDelete u json (db_Table b) q (s\<lparr>r_ph := zero\<rparr>) of
           Fail e t s' \<Rightarrow> (Inl e, b', s')
         | Done t (vals, tree) s' \<Rightarrow> (Inr (t, vals, q, tree), b', s'))"

definition DeleteBuildSnapshot ::
  "'p sql_utils \<Rightarrow> 'p \<Rightarrow> (goval \<Rightarrow> gostring) \<Rightarrow> delete_builder \<Rightarrow> 'p rstate \<Rightarrow>
     (render_error + gostring \<times> goval list \<times> query_snapshot) \<times> delete_builder \<times> 'p rstate" where
  [go_eval]: "DeleteBuildSnapshot u zero json b s =
     (case DBBuild u zero json b s of
        (Inl e, r) \<Rightarrow> (Inl e, r)
      | (Inr (t, vals, q, tree), r) \<Rightarrow>
          (Inr (t, vals, (snapshotFromQuery q tree None)\<lparr>sn_Table := db_Table b\<rparr>), r))"

definition CopyStateToUpdate :: "select_builder \<Rightarrow> update_builder \<Rightarrow> update_builder \<times> select_builder" where
  [go_eval]: "CopyStateToUpdate src dst = (case GetQuery src of (q, src') \<Rightarrow> (UBApplyQueryState q dst, src'))"

definition CopyStateToDelete :: "select_builder \<Rightarrow> delete_builder \<Rightarrow> delete_builder \<times> select_builder" where
  [go_eval]: "CopyStateToDelete src dst = (case GetQuery src of (q, src') \<Rightarrow> (DBApplyQueryState q dst, src'))"

section \<open>Lemmas\<close>

text \<open>The statement an UPDATE or DELETE builds has the conditions of the query whose state was copied into it.\<close>

lemma copied_conditions:
  "ConditionGroups (parts_query (seal_parts (apply_parts table (fst (GetQuery src)) b))) = ConditionGroups (fst (GetQuery src))"
  "q_PredicateError (qf (parts_query (seal_parts (apply_parts table (fst (GetQuery src)) b)))) =
     q_PredicateError (qf (fst (GetQuery src)))"
  by (simp_all add: parts_query_def seal_parts_def apply_parts_def ApplyJoins_def ApplyConditions_def GetQuery_def
      built_query_def buildQuery_def builder_joins_def flush_conditions_def append_group_def)

section \<open>Divergences\<close>

text \<open>The same map in another order gives another statement.\<close>

lemma update_or_insert_order:
  "map_of [(''a'', VInt 1), (''b'', VInt 2)] = map_of [(''b'', VInt 2), (''a'', VInt 1)] \<and>
   fst (IBBuild postgres_utils 0 (\<lambda>v. []) (IBUpdateOrInsert [(''a'', VInt 1), (''b'', VInt 2)] [(''c'', VInt 3)]
     (IBTable ''t'' NewInsertBuilder)) \<lparr>r_ph = 0, r_cols = []\<rparr>) \<noteq>
   fst (IBBuild postgres_utils 0 (\<lambda>v. []) (IBUpdateOrInsert [(''b'', VInt 2), (''a'', VInt 1)] [(''c'', VInt 3)]
     (IBTable ''t'' NewInsertBuilder)) \<lparr>r_ph = 0, r_cols = []\<rparr>)"
proof -
  have "fst (IBBuild postgres_utils 0 (\<lambda>v. []) (IBUpdateOrInsert [(''a'', VInt 1), (''b'', VInt 2)] [(''c'', VInt 3)]
     (IBTable ''t'' NewInsertBuilder)) \<lparr>r_ph = 0, r_cols = []\<rparr>) \<noteq>
   fst (IBBuild postgres_utils 0 (\<lambda>v. []) (IBUpdateOrInsert [(''b'', VInt 2), (''a'', VInt 1)] [(''c'', VInt 3)]
     (IBTable ''t'' NewInsertBuilder)) \<lparr>r_ph = 0, r_cols = []\<rparr>)"
    by code_simp
  then show ?thesis by (simp add: fun_eq_iff)
qed

text \<open>A quote in a JSON path ends the literal it is written in.\<close>

lemma json_path_breaks_literal:
  "(case formatJSONUpdateExpression mysql_utils ''d'' [[CHR ''x'', CHR 0x27, CHR ''y'']] ''?'' \<lparr>r_ph = 0, r_cols = []\<rparr> of
      Done t u s \<Rightarrow> t = ''`d` = JSON_SET(`d`, '' @ [CHR 0x27] @ ''$.x'' @ [CHR 0x27] @ ''y'' @ [CHR 0x27] @ '', ?)'' | _ \<Rightarrow> False)"
  by code_simp

text \<open>A batch of no rows is built.\<close>

lemma empty_batch_insert:
  "fst (IBBuild postgres_utils 0 (\<lambda>v. []) (IBInsertBatch [] (IBTable ''t'' NewInsertBuilder)) \<lparr>r_ph = 0, r_cols = []\<rparr>) =
     Inr (''INSERT INTO \"t\" () VALUES '', [])"
  by code_simp

end
