(* ===== verification/WriteChecks.thy ===== *)
theory WriteChecks
  imports ExecutionPlan Observation
begin

text \<open>
  What a write expects of its result (\<^verbatim>\<open>orm/internal/writecheck\<close>): the number of rows it must affect, the error for none,
  the version an optimistic update compares with, and whether it must be atomic.  A count is an \<^verbatim>\<open>int64\<close>; the only
  arithmetic on one is the successor of a version below the largest.
\<close>

section \<open>Options\<close>

record write_results =
  wr_Expected :: "int option"
  wr_Zero :: "gostring option"
  wr_Atomic :: bool
  wr_Version :: "(gostring \<times> int) option"
  wr_Invalid :: bool

definition no_results :: write_results where
  [go_eval]: "no_results = \<lparr>wr_Expected = None, wr_Zero = None, wr_Atomic = False, wr_Version = None, wr_Invalid = False\<rparr>"

definition AtomicWrite :: "write_results \<Rightarrow> write_results" where
  [go_eval]: "AtomicWrite r = r\<lparr>wr_Atomic := True\<rparr>"

definition ExpectAffected :: "int \<Rightarrow> write_results \<Rightarrow> write_results" where
  [go_eval]: "ExpectAffected n r = r\<lparr>wr_Invalid := (wr_Invalid r \<or> wr_Expected r \<noteq> None), wr_Expected := Some n\<rparr>"

definition NoRowsAs :: "gostring option \<Rightarrow> write_results \<Rightarrow> write_results" where
  [go_eval]: "NoRowsAs err r = r\<lparr>wr_Invalid := (wr_Invalid r \<or> wr_Zero r \<noteq> None), wr_Zero := err\<rparr>"

definition OptimisticVersion :: "gostring \<Rightarrow> int \<Rightarrow> write_results \<Rightarrow> write_results" where
  [go_eval]: "OptimisticVersion col n r = r\<lparr>wr_Invalid := (wr_Invalid r \<or> wr_Version r \<noteq> None), wr_Version := Some (col, n)\<rparr>"

definition Active :: "write_results \<Rightarrow> bool" where
  [go_eval]: "Active r \<longleftrightarrow> wr_Expected r \<noteq> None \<or> wr_Zero r \<noteq> None \<or> wr_Atomic r \<or> wr_Version r \<noteq> None \<or> wr_Invalid r"

text \<open>Whether \<^verbatim>\<open>Validate\<close> returns no error.\<close>

definition results_valid :: "write_results \<Rightarrow> bool" where
  [go_eval]: "results_valid r \<longleftrightarrow>
     \<not> (wr_Invalid r \<or> (case wr_Expected r of None \<Rightarrow> False | Some n \<Rightarrow> n < 0)) \<and>
     (case wr_Version r of
        None \<Rightarrow> True
      | Some (col, n) \<Rightarrow> \<not> (n < 0 \<or> col = [] \<or> (case wr_Expected r of None \<Rightarrow> False | Some m \<Rightarrow> m \<noteq> 1) \<or> wr_Zero r \<noteq> None))"

section \<open>Errors\<close>

datatype error_cause = CauseRowsAffected | CauseConflict | CauseGiven gostring

record rows_affected_error =
  ra_Expected :: int
  ra_Actual :: int
  ra_Cause :: error_cause

datatype write_error =
    OptionsError
  | OwnershipError
  | ExecutionError run_error
  | RowsError rows_affected_error
  | DatabaseError db_error
  | OutcomeUnknown "write_error list"

text \<open>\<^verbatim>\<open>errors.Is\<close> for the errors a count can give.\<close>

definition is_error :: "write_error \<Rightarrow> error_cause \<Rightarrow> bool" where
  [go_eval]: "is_error e target \<longleftrightarrow> (case e of RowsError x \<Rightarrow> target = CauseRowsAffected \<or> ra_Cause x = target | _ \<Rightarrow> False)"

definition CheckResults :: "write_results \<Rightarrow> int \<Rightarrow> write_error option" where
  [go_eval]: "CheckResults r n =
     (if n < 0 then Some OptionsError
      else let (expected, zero) = (if wr_Version r \<noteq> None then (Some 1, Some CauseConflict)
                                   else (wr_Expected r, map_option CauseGiven (wr_Zero r)))
           in case expected of
             Some m \<Rightarrow>
               if n = m then None
               else Some (RowsError \<lparr>ra_Expected = m, ra_Actual = n,
                 ra_Cause = (if n = 0 then (case zero of Some z \<Rightarrow> z | None \<Rightarrow> CauseRowsAffected) else CauseRowsAffected)\<rparr>)
           | None \<Rightarrow>
               (case zero of
                  Some z \<Rightarrow> if n = 0 then Some (RowsError \<lparr>ra_Expected = 1, ra_Actual = n, ra_Cause = z\<rparr>) else None
                | None \<Rightarrow> None))"

text \<open>The count is only asked for when something is expected of it; \<^term>\<open>counted\<close> is what the driver answers.\<close>

definition ResultCount :: "write_results \<Rightarrow> (db_error + int) option \<Rightarrow> int \<times> bool \<times> write_error option" where
  [go_eval]: "ResultCount r counted =
     (if \<not> Active r then (0, False, None)
      else case counted of
        None \<Rightarrow> (0, False, Some OptionsError)
      | Some (Inl e) \<Rightarrow> (0, False, Some (DatabaseError e))
      | Some (Inr n) \<Rightarrow> (n, n \<ge> 0, CheckResults r n))"

section \<open>What a check means\<close>

definition meets :: "write_results \<Rightarrow> int \<Rightarrow> bool" where
  "meets r n \<longleftrightarrow> n \<ge> 0 \<and>
     (case wr_Version r of
        Some v \<Rightarrow> n = 1
      | None \<Rightarrow> (case wr_Expected r of Some m \<Rightarrow> n = m | None \<Rightarrow> wr_Zero r \<noteq> None \<longrightarrow> n \<noteq> 0))"

lemma CheckResults_None: "CheckResults r n = None \<longleftrightarrow> meets r n"
  by (auto simp: CheckResults_def meets_def split: option.splits)

lemma CheckResults_is:
  assumes "CheckResults r n = Some e" "n \<ge> 0"
  shows "is_error e CauseRowsAffected" "wr_Version r \<noteq> None \<and> n = 0 \<longrightarrow> is_error e CauseConflict"
  using assms by (auto simp: CheckResults_def is_error_def split: option.splits if_splits)

end
