(* ===== verification/WritePlan.thy ===== *)
theory WritePlan
  imports WriteBuilders WriteChecks TenantWrites
begin

text \<open>
  Planning an INSERT, UPDATE or DELETE (\<^verbatim>\<open>orm/query/write_plan.go\<close>, \<^verbatim>\<open>generic.go\<close>) and the version
  check an optimistic UPDATE adds to its statement (\<^verbatim>\<open>optimistic.go\<close>).  A query is the facade of
  \<^verbatim>\<open>QueryFacade\<close> with what it expects of the write's result; data is a row, a Go map.  Planning may seal the builder's
  pending conditions, so it gives the facade's new state too.
\<close>

section \<open>Shared steps\<close>

datatype write_plan_error =
    WriteRecorded gostring
  | WriteBlocked exec_error
  | SourceRefused policy_error
  | WriteNotRendered render_error
  | OptionsRefused
  | ConflictColumnMissing gostring

text \<open>With the builder the reading of its limit leaves.\<close>

definition checkExactWrite :: "facade \<Rightarrow> write_plan_error option \<times> facade" where
  [go_eval]: "checkExactWrite q =
     (case fq_err q of
        Some e \<Rightarrow> (Some (WriteRecorded e), q)
      | None \<Rightarrow>
          (case GetQuery (fq_builder q) of (src, b) \<Rightarrow>
             (if fst (q_Limit (qf src)) then Some (WriteBlocked (BlockedOperation [])) else None, q\<lparr>fq_builder := b\<rparr>)))"

text \<open>The table of a snapshot, which has none when the snapshot fails.\<close>

definition tableName :: "select_builder \<Rightarrow> gostring \<times> select_builder" where
  [go_eval]: "tableName b = (case Snapshot b of (Inl e, b') \<Rightarrow> ([], b') | (Inr sn, b') \<Rightarrow> (sn_Table sn, b'))"

definition options_refused :: "write_options \<Rightarrow> bool \<Rightarrow> exec_error option" where
  [go_eval]: "options_refused opts inserting =
     (if \<not> list_all scopeIdent (wo_TableParts opts) then Some (tenantError ''table_or_alias_unsupported'')
      else if wo_Assignments opts \<noteq> [] then Some (tenantError ''assignment_expression_unsupported'')
      else if inserting \<and> (case wo_Conflict opts of None \<Rightarrow> False
             | Some c \<Rightarrow> cf_Where c \<noteq> [] \<or> cf_Constraint c \<noteq> [] \<or> cf_RawTarget c \<noteq> [])
      then Some (tenantError ''conflict_target_unsupported'')
      else None)"

section \<open>INSERT\<close>

text \<open>A cloned empty slice is nil.\<close>

definition cloned_slice :: "'a list \<Rightarrow> 'a list option" where
  [go_eval]: "cloned_slice xs = (if xs = [] then None else Some xs)"

definition conflict_lists :: "write_options \<Rightarrow> gostring list option \<times> gostring list option" where
  [go_eval]: "conflict_lists opts =
     (case wo_Conflict opts of None \<Rightarrow> (None, None) | Some c \<Rightarrow> (cloned_slice (cf_Columns c), cloned_slice (cf_Updates c)))"

definition conflict_incomplete :: "write_options \<Rightarrow> bool" where
  [go_eval]: "conflict_incomplete opts \<longleftrightarrow>
     (case wo_Conflict opts of None \<Rightarrow> False | Some c \<Rightarrow> cf_Columns c = [] \<or> \<not> cf_DoNothing c \<and> cf_Updates c = [])"

definition missing_conflict_column :: "write_options \<Rightarrow> go_row list \<Rightarrow> gostring option" where
  [go_eval]: "missing_conflict_column opts rows =
     (case wo_Conflict opts of
        None \<Rightarrow> None
      | Some c \<Rightarrow> if cf_ExplicitColumns c \<and> rows \<noteq> [] then find_first (\<lambda>col. map_of (hd rows) col = None) (cf_Columns c) else None)"

text \<open>The columns a tenant fill adds go to the end of an explicit list.\<close>

definition extend_columns :: "write_options \<Rightarrow> go_row list \<Rightarrow> write_options" where
  [go_eval]: "extend_columns opts rows =
     (let cols = list_of (wo_Columns opts)
      in if cols \<noteq> [] \<and> rows \<noteq> []
         then opts\<lparr>wo_Columns := Some (cols @ filter (\<lambda>c. c \<notin> set cols) (sort (map fst (hd rows))))\<rparr> else opts)"

definition insert_builder_for :: "gostring \<Rightarrow> write_options \<Rightarrow> go_row list \<Rightarrow> gostring \<Rightarrow> bool \<Rightarrow> insert_builder" where
  [go_eval]: "insert_builder_for table opts rows mode batch =
     (let ib = IBWriteOptions opts (IBTable table NewInsertBuilder)
      in if mode = ''ignore'' then IBInsertOrIgnore rows ib
         else if length rows = 1 \<and> \<not> batch \<and> wo_Conflict opts = None then IBInsert (hd rows) ib
         else IBInsertBatch rows ib)"

definition insert_metadata :: "insert_snapshot \<Rightarrow> bool \<Rightarrow> gostring \<rightharpoonup> meta_value" where
  [go_eval]: "insert_metadata sn batch =
     (let m = (if batch then [''batch_size'' \<mapsto> MetaOther (is_BatchSize sn)] else Map.empty);
          m = (if is_Mode sn \<noteq> [] then m(''insert_mode'' \<mapsto> MetaString (is_Mode sn)) else m)
      in if is_Mode sn = ''upsert''
         then m(''unique_columns'' \<mapsto> MetaStrings (is_UniqueColumns sn), ''update_columns'' \<mapsto> MetaStrings (is_UpdateColumns sn))
         else m)"

definition insert_plan :: "gostring \<Rightarrow> goval list \<Rightarrow> insert_snapshot \<Rightarrow> (gostring \<rightharpoonup> meta_value) \<Rightarrow> query_plan" where
  [go_eval]: "insert_plan t args sn m =
     (newQueryPlan OperationInsert t (Some args))
       \<lparr>Tables := Some [\<lparr>tr_Name = is_Table sn, tr_Alias = []\<rparr>], Columns := Some (columnRefsFromNames (is_Columns sn)), Metadata := Some m\<rparr>"

text \<open>The rows sealed with the plan are given beside it.\<close>

definition planInsertRows ::
  "'p sql_utils \<Rightarrow> 'p \<Rightarrow> (goval \<Rightarrow> gostring) \<Rightarrow> facade \<Rightarrow> go_row list \<Rightarrow> write_options \<Rightarrow> gostring \<Rightarrow> bool \<Rightarrow> int \<Rightarrow>
     (write_plan_error + (query_plan \<times> planned_execution) \<times> go_row list) \<times> facade" where
  [go_eval]: "planInsertRows u zero json q0 rows opts mode batch now =
     (case checkExactWrite q0 of
        (Some e, q) \<Rightarrow> (Inl e, q)
      | (None, q) \<Rightarrow>
          let s = qs_settings (fq_state q); (unique, updates) = conflict_lists opts
          in case (if st_strict s then options_refused opts True else None) of
               Some e \<Rightarrow> (Inl (WriteBlocked e), q)
             | None \<Rightarrow>
                 if st_strict s \<and> conflict_incomplete opts
                 then (Inl (WriteBlocked (tenantError ''conflict_target_or_updates_missing'')), q)
                 else case tableName (fq_builder q) of (table, b) \<Rightarrow>
                   let q = q\<lparr>fq_builder := b\<rparr>
                   in case tenantRows s (qs_dialect (fq_state q)) table rows False unique updates of
                        Inl e \<Rightarrow> (Inl (WriteBlocked e), q)
                      | Inr out \<Rightarrow>
                          (case missing_conflict_column opts out of
                             Some col \<Rightarrow> (Inl (ConflictColumnMissing col), q)
                           | None \<Rightarrow>
                               let ib = insert_builder_for table (extend_columns opts out) out mode batch
                               in case InsertBuildSnapshot u zero json ib \<lparr>r_ph = zero, r_cols = []\<rparr> of
                                    (Inl e, r) \<Rightarrow> (Inl (WriteNotRendered e), q)
                                  | (Inr (t, args, sn), r) \<Rightarrow>
                                      let p = insert_plan t args sn (insert_metadata sn batch);
                                          p = (if is_Unverified sn = [] then p else p\<lparr>Unverified := Some (is_Unverified sn)\<rparr>)
                                      in (Inr (finalizePlan (fq_state q) p now, out), q)))"

definition PlanInsert ::
  "'p sql_utils \<Rightarrow> 'p \<Rightarrow> (goval \<Rightarrow> gostring) \<Rightarrow> facade \<Rightarrow> go_row \<Rightarrow> int \<Rightarrow>
     (write_plan_error + (query_plan \<times> planned_execution) \<times> go_row list) \<times> facade" where
  [go_eval]: "PlanInsert u zero json q row now = planInsertRows u zero json q [row] no_options ''insert'' False now"

definition PlanInsertBatch ::
  "'p sql_utils \<Rightarrow> 'p \<Rightarrow> (goval \<Rightarrow> gostring) \<Rightarrow> facade \<Rightarrow> go_row list \<Rightarrow> int \<Rightarrow>
     (write_plan_error + (query_plan \<times> planned_execution) \<times> go_row list) \<times> facade" where
  [go_eval]: "PlanInsertBatch u zero json q rows now = planInsertRows u zero json q rows no_options ''insert'' True now"

definition planInsertOrIgnore ::
  "'p sql_utils \<Rightarrow> 'p \<Rightarrow> (goval \<Rightarrow> gostring) \<Rightarrow> facade \<Rightarrow> go_row list \<Rightarrow> int \<Rightarrow>
     (write_plan_error + (query_plan \<times> planned_execution) \<times> go_row list) \<times> facade" where
  [go_eval]: "planInsertOrIgnore u zero json q rows now = planInsertRows u zero json q rows no_options ''ignore'' True now"

definition conflict_on :: "gostring list \<Rightarrow> gostring list \<Rightarrow> write_options" where
  [go_eval]: "conflict_on unique cols =
     no_options\<lparr>wo_Conflict := Some \<lparr>cf_Columns = unique, cf_Updates = cols, cf_Where = [], cf_Constraint = [], cf_RawTarget = [],
       cf_ExplicitColumns = False, cf_DoNothing = False\<rparr>\<rparr>"

definition planUpsert ::
  "'p sql_utils \<Rightarrow> 'p \<Rightarrow> (goval \<Rightarrow> gostring) \<Rightarrow> facade \<Rightarrow> go_row list \<Rightarrow> gostring list \<Rightarrow> gostring list \<Rightarrow> int \<Rightarrow>
     (write_plan_error + (query_plan \<times> planned_execution) \<times> go_row list) \<times> facade" where
  [go_eval]: "planUpsert u zero json q rows unique cols now =
     planInsertRows u zero json q rows (conflict_on unique cols) ''upsert'' False now"

definition planUpdateOrInsert ::
  "'p sql_utils \<Rightarrow> 'p \<Rightarrow> (goval \<Rightarrow> gostring) \<Rightarrow> facade \<Rightarrow> go_row \<Rightarrow> go_row \<Rightarrow> int \<Rightarrow>
     (write_plan_error + (query_plan \<times> planned_execution) \<times> go_row list) \<times> facade" where
  [go_eval]: "planUpdateOrInsert u zero json q0 condition vals now =
     (case checkExactWrite q0 of
        (Some e, q) \<Rightarrow> (Inl e, q)
      | (None, q) \<Rightarrow>
          if st_strict (qs_settings (fq_state q))
          then planUpsert u zero json q [merge_rows condition vals] (sort (map fst condition)) (sort (map fst vals)) now
          else case tableName (fq_builder q) of (table, b) \<Rightarrow>
            let q = q\<lparr>fq_builder := b\<rparr>; ib = IBUpdateOrInsert condition vals (IBTable table NewInsertBuilder)
            in case InsertBuildSnapshot u zero json ib \<lparr>r_ph = zero, r_cols = []\<rparr> of
                 (Inl e, r) \<Rightarrow> (Inl (WriteNotRendered e), q)
               | (Inr (t, args, sn), r) \<Rightarrow>
                   (Inr (finalizePlan (fq_state q) (insert_plan t args sn
                      [''insert_mode'' \<mapsto> MetaString ''update_or_insert'', ''condition_columns'' \<mapsto> MetaStrings (is_UniqueColumns sn),
                       ''update_columns'' \<mapsto> MetaStrings (is_UpdateColumns sn)]) now, []), q))"

text \<open>The source query is given back with its conditions sealed.\<close>

definition planInsertUsing ::
  "'p sql_utils \<Rightarrow> 'p \<Rightarrow> (goval \<Rightarrow> gostring) \<Rightarrow> facade \<Rightarrow> gostring list \<Rightarrow> facade \<Rightarrow> int \<Rightarrow>
     (write_plan_error + query_plan \<times> planned_execution) \<times> facade \<times> facade" where
  [go_eval]: "planInsertUsing u zero json q0 cols source now =
     (case checkExactWrite q0 of
        (Some e, q) \<Rightarrow> (Inl e, q, source)
      | (None, q) \<Rightarrow>
          if st_strict (qs_settings (fq_state q)) then (Inl (WriteBlocked (tenantError ''insert_using_unsupported'')), q, source)
          else case tableName (fq_builder q) of (table, b) \<Rightarrow>
            (case IBInsertUsing cols (fq_builder source) (IBTable table NewInsertBuilder) of (ib, src) \<Rightarrow>
               let q = q\<lparr>fq_builder := b\<rparr>; source = source\<lparr>fq_builder := src\<rparr>
               in case InsertBuildSnapshot u zero json ib \<lparr>r_ph = zero, r_cols = []\<rparr> of
                    (Inl e, r) \<Rightarrow> (Inl (WriteNotRendered e), q, source)
                  | (Inr (t, args, sn), r) \<Rightarrow>
                      (Inr (finalizePlan (fq_state q) (insert_plan t args sn [''insert_mode'' \<mapsto> MetaString ''insert_using'']) now), q, source)))"

section \<open>The version check of an optimistic UPDATE\<close>

text \<open>
  The columns a conjunction compares with one detached value, each once; nothing for any other condition or for one on the
  version column \<^term>\<open>version\<close>.
\<close>

fun equal_columns :: "tenant_target list \<Rightarrow> gostring \<Rightarrow> pnode option \<Rightarrow> go_row \<Rightarrow> go_row option"
and equal_columns_of :: "tenant_target list \<Rightarrow> gostring \<Rightarrow> pnode option list \<Rightarrow> go_row \<Rightarrow> go_row option" where
  "equal_columns ts version None found = None"
| "equal_columns ts version (Some (Node i cs)) found =
     (if correspondence i \<noteq> generated \<or> opaque_reason i \<noteq> [] then None
      else if kind i = ''and'' \<or> kind i = ''group'' then (if cs = [] then None else equal_columns_of ts version cs found)
      else if kind i \<noteq> ''comparison'' \<or> operator i \<noteq> ''='' then None
      else case node_values i of
        [v] \<Rightarrow>
          if isolation v \<noteq> detached then None
          else (case tenantResolve (column i) ts of
             None \<Rightarrow> None
           | Some (n, col) \<Rightarrow> if col = version \<or> map_of found col \<noteq> None then None else Some (found @ [(col, pdata v)]))
      | _ \<Rightarrow> None)"
| "equal_columns_of ts version [] found = Some found"
| "equal_columns_of ts version (c # cs) found =
     (case equal_columns ts version c found of None \<Rightarrow> None | Some found' \<Rightarrow> equal_columns_of ts version cs found')"

text \<open>The primary key's columns, when there is one primary key and the conditions bind each of its columns.\<close>

definition bound_key_column :: "tenant_target \<Rightarrow> gostring \<Rightarrow> go_row \<Rightarrow> write_key_column \<Rightarrow> bool" where
  [go_eval]: "bound_key_column t version found c \<longleftrightarrow>
     tenantColumn t (kc_Name c) = Some c \<and> kc_Name c \<noteq> version \<and> scopeInteger (row_at found (kc_Name c)) (kc_Bits c) \<noteq> None"

definition bound_primary_key :: "gostring \<Rightarrow> tenant_target \<Rightarrow> gostring \<Rightarrow> go_row \<Rightarrow> gostring list option" where
  [go_eval]: "bound_primary_key dialect t version found =
     (case filter (\<lambda>k. wk_Kind k = ''primary'') (at_Constraints (tt_schema t)) of
        [k] \<Rightarrow> if validWriteKey k dialect \<and> list_all (bound_key_column t version found) (wk_Columns k)
               then Some (map kc_Name (wk_Columns k)) else None
      | _ \<Rightarrow> None)"

definition int64_value :: "int \<Rightarrow> goval" where
  [go_eval]: "int64_value n = VInt64 (word_of_int n)"

definition schema_dialect :: "settings \<Rightarrow> gostring" where
  [go_eval]: "schema_dialect s = (case st_schema s of Some si \<Rightarrow> si_Dialect si | None \<Rightarrow> [])"

text \<open>The column can hold the next version and is neither nullable nor the tenant's.\<close>

definition version_column_ok :: "settings \<Rightarrow> tenant_target \<Rightarrow> gostring \<Rightarrow> int \<Rightarrow> bool" where
  [go_eval]: "version_column_ok s t col expected \<longleftrightarrow>
     (case tenantColumn t col of
        None \<Rightarrow> False
      | Some c \<Rightarrow>
          validWriteKey \<lparr>wk_Name = [], wk_Kind = ''primary'', wk_Columns = [c], wk_AllRows = True, wk_Valid = True, wk_NotDeferrable = True,
            wk_Partial = False, wk_Expression = False\<rparr> (schema_dialect s) \<and>
          \<not> kc_Nullable c \<and> kc_Name c \<noteq> pol_TenantColumn (tt_policy t) \<and> expected \<noteq> 2 ^ 63 - 1 \<and>
          scopeInteger (int64_value (expected + 1)) (kc_Bits c) \<noteq> None)"

text \<open>The tenant column is bound to the current tenant.\<close>

definition tenant_condition_bound :: "settings \<Rightarrow> tenant_target \<Rightarrow> go_row \<Rightarrow> bool" where
  [go_eval]: "tenant_condition_bound s t found \<longleftrightarrow>
     (case tenantColumn t (pol_TenantColumn (tt_policy t)) of
        None \<Rightarrow> False
      | Some c \<Rightarrow>
          scopeInteger (row_at found (kc_Name c)) (kc_Bits c) =
            Some (case current_tenant s t of Some w \<Rightarrow> w | None \<Rightarrow> 0))"

definition with_version :: "gostring \<Rightarrow> int \<Rightarrow> select_builder \<Rightarrow> select_builder" where
  [go_eval]: "with_version col expected source =
     on_conditions_of (WhereLiteral col (int64_value expected)) (fst (CopyStateToSelect source NewSelectBuilder))"

definition update_builder_for :: "gostring \<Rightarrow> go_row \<Rightarrow> write_options \<Rightarrow> select_builder \<Rightarrow> update_builder" where
  [go_eval]: "update_builder_for table row opts source =
     fst (CopyStateToUpdate source (UBWriteOptions opts (UBUpdate row (UBTable table NewUpdateBuilder))))"

definition optimisticInput ::
  "'p sql_utils \<Rightarrow> 'p \<Rightarrow> (goval \<Rightarrow> gostring) \<Rightarrow> query_state \<Rightarrow> write_results \<Rightarrow> gostring \<Rightarrow> select_builder \<Rightarrow> go_row \<Rightarrow> write_options \<Rightarrow>
     write_plan_error + select_builder \<times> go_row \<times> write_options" where
  [go_eval]: "optimisticInput u zero json q results table source row opts =
     (case wr_Version results of
        None \<Rightarrow> Inr (source, row, opts)
      | Some (col, expected) \<Rightarrow>
          let s = qs_settings q
          in if \<not> results_valid results \<or> \<not> st_strict s \<or> wo_Assignments opts \<noteq> [] \<or> \<not> scopeIdent col then Inl OptionsRefused
             else case tenantTargets s (qs_dialect q) [\<lparr>tr_Name = table, tr_Alias = []\<rparr>] [] of
               Inl e \<Rightarrow> Inl (WriteBlocked e)
             | Inr ts \<Rightarrow>
                 let t = hd ts
                 in if tt_alias t \<noteq> [] \<or> pol_TenantColumn (tt_policy t) = [] \<or> \<not> version_column_ok s t col expected then Inl OptionsRefused
                    else case fst (UpdateBuildSnapshot u zero json (update_builder_for table row opts source) \<lparr>r_ph = zero, r_cols = []\<rparr>) of
                      Inl e \<Rightarrow> Inl (WriteNotRendered e)
                    | Inr (txt, args, sn) \<Rightarrow>
                        if sn_Joins sn \<noteq> [] \<or> sn_HavingTree sn \<noteq> None \<or> items (sn_Unverified sn) \<noteq> [] then Inl OptionsRefused
                        else case equal_columns ts col (sn_WhereTree sn) [] of
                          None \<Rightarrow> Inl OptionsRefused
                        | Some found \<Rightarrow>
                            if \<not> tenant_condition_bound s t found then Inl OptionsRefused
                            else case bound_primary_key (schema_dialect s) t col found of
                              None \<Rightarrow> Inl OptionsRefused
                            | Some key \<Rightarrow>
                                if list_ex (\<lambda>e. fst e = pol_TenantColumn (tt_policy t) \<or> fst e = col \<or> fst e \<in> set key) row then Inl OptionsRefused
                                else Inr (with_version col expected source, row @ [(col, int64_value (expected + 1))],
                                  if list_of (wo_Columns opts) \<noteq> [] then opts\<lparr>wo_Columns := Some (list_of (wo_Columns opts) @ [col])\<rparr> else opts))"

section \<open>UPDATE and DELETE\<close>

definition update_plan :: "gostring \<Rightarrow> goval list \<Rightarrow> query_snapshot \<Rightarrow> write_options \<Rightarrow> query_plan" where
  [go_eval]: "update_plan t args sn opts =
     (let p = appendTableRef (newQueryPlan OperationUpdate t (Some args)) (sn_Table sn) [];
          p = appendWriteSnapshotMetadata (p\<lparr>Columns := Some (columnRefsFromNames (sn_AssignmentColumns sn))\<rparr>) sn;
          odd = filter (\<lambda>c. str_contains c ''->'') (sn_AssignmentColumns sn)
      in if wo_Literal opts \<and> odd \<noteq> []
         then p\<lparr>Unverified := Some (items (Unverified p) @ map (\<lambda>c. ''literal_assignment_identifier'') odd)\<rparr> else p)"

definition planUpdateValues ::
  "'p sql_utils \<Rightarrow> 'p \<Rightarrow> (goval \<Rightarrow> gostring) \<Rightarrow> facade \<Rightarrow> write_results \<Rightarrow> go_row \<Rightarrow> write_options \<Rightarrow> int \<Rightarrow>
     (write_plan_error + query_plan \<times> planned_execution) \<times> facade" where
  [go_eval]: "planUpdateValues u zero json q0 results row opts now =
     (case checkExactWrite q0 of
        (Some e, q) \<Rightarrow> (Inl e, q)
      | (None, q) \<Rightarrow>
          let s = qs_settings (fq_state q)
          in case (if st_strict s then options_refused opts False else None) of
               Some e \<Rightarrow> (Inl (WriteBlocked e), q)
             | None \<Rightarrow>
                 (case tableName (fq_builder q) of (table, b) \<Rightarrow>
                    case tenantRows s (qs_dialect (fq_state q)) table [row] True None None of
                      Inl e \<Rightarrow> (Inl (WriteBlocked e), q\<lparr>fq_builder := b\<rparr>)
                    | Inr rows \<Rightarrow>
                        (case policyBuilder (fq_state q) b of
                           (Inl e, b) \<Rightarrow> (Inl (SourceRefused e), q\<lparr>fq_builder := b\<rparr>)
                         | (Inr source, b) \<Rightarrow>
                             let q = q\<lparr>fq_builder := b\<rparr>
                             in case optimisticInput u zero json (fq_state q) results table source (hd rows) opts of
                                  Inl e \<Rightarrow> (Inl e, q)
                                | Inr (source, row, opts) \<Rightarrow>
                                    (case fst (UpdateBuildSnapshot u zero json (update_builder_for table row opts source) \<lparr>r_ph = zero, r_cols = []\<rparr>) of
                                       Inl e \<Rightarrow> (Inl (WriteNotRendered e), q)
                                     | Inr (t, args, sn) \<Rightarrow> (Inr (finalizePlan (fq_state q) (update_plan t args sn opts) now), q)))))"

definition PlanUpdate ::
  "'p sql_utils \<Rightarrow> 'p \<Rightarrow> (goval \<Rightarrow> gostring) \<Rightarrow> facade \<Rightarrow> write_results \<Rightarrow> go_row \<Rightarrow> int \<Rightarrow>
     (write_plan_error + query_plan \<times> planned_execution) \<times> facade" where
  [go_eval]: "PlanUpdate u zero json q results row now = planUpdateValues u zero json q results row no_options now"

definition PlanDelete ::
  "'p sql_utils \<Rightarrow> 'p \<Rightarrow> (goval \<Rightarrow> gostring) \<Rightarrow> facade \<Rightarrow> int \<Rightarrow> (write_plan_error + query_plan \<times> planned_execution) \<times> facade" where
  [go_eval]: "PlanDelete u zero json q0 now =
     (case checkExactWrite q0 of
        (Some e, q) \<Rightarrow> (Inl e, q)
      | (None, q) \<Rightarrow>
          (case tableName (fq_builder q) of (table, b) \<Rightarrow>
             case policyBuilder (fq_state q) b of
               (Inl e, b) \<Rightarrow> (Inl (SourceRefused e), q\<lparr>fq_builder := b\<rparr>)
             | (Inr source, b) \<Rightarrow>
                 let q = q\<lparr>fq_builder := b\<rparr>
                 in case fst (DeleteBuildSnapshot u zero json (fst (CopyStateToDelete source (DBTable table NewDeleteBuilder))) \<lparr>r_ph = zero, r_cols = []\<rparr>) of
                      Inl e \<Rightarrow> (Inl (WriteNotRendered e), q)
                    | Inr (t, args, sn) \<Rightarrow>
                        (Inr (finalizePlan (fq_state q) (appendWriteSnapshotMetadata
                           (appendTableRef (newQueryPlan OperationDelete t (Some args)) (sn_Table sn) []) sn) now), q)))"

section \<open>What a planned UPDATE changes\<close>

definition version_flat :: "gostring \<Rightarrow> int \<Rightarrow> where_flat" where
  "version_flat col expected = zero_where\<lparr>w_LiteralColumn := True, w_Column := col, w_Condition := ''='',
     w_Value := Some [int64_value expected]\<rparr>"

definition version_flats :: "write_results \<Rightarrow> where_flat list" where
  "version_flats results = (case wr_Version results of None \<Rightarrow> [] | Some (col, expected) \<Rightarrow> [version_flat col expected])"

definition plain_groups :: "where_flat list \<Rightarrow> where_group list" where
  "plain_groups fs = (if fs = [] then [] else [WhereGroup (map flat_cond fs) 0 True False])"

lemma passes_groups: "ConditionGroups q = ConditionGroups r \<Longrightarrow> passes L q \<longleftrightarrow> passes L r"
  by (simp add: passes_def condition_text_def)

lemma with_version_groups:
  "ConditionGroups (fst (GetQuery (with_version col expected src))) =
     ConditionGroups (fst (GetQuery src)) @ plain_groups [version_flat col expected]"
proof -
  have "b_Conditions (sb_where (with_version col expected src)) = [flat_cond (version_flat col expected)]"
    "b_ConditionGroups (sb_where (with_version col expected src)) = ConditionGroups (fst (GetQuery src))"
    by (simp_all add: with_version_def on_conditions_of_def WhereLiteral_def append_flat_def append_cond_def CopyStateToSelect_def
        GetQuery_def built_query_def ApplyQueryState_def ApplyConditions_def version_flat_def flat_cond_def zero_where_def)
  then show ?thesis by (simp add: flushed_groups plain_groups_def)
qed

text \<open>Conditions added in two steps, each joined by AND, are added at once.\<close>

lemma plain_nodes: "pt_groups (gs @ plain_groups fs @ plain_groups ms) = pt_groups (gs @ plain_groups (fs @ ms))"
proof -
  have append: "pt_groups (xs @ ys) = pt_groups xs @ pt_groups ys" for xs ys
    by (induction xs) simp_all
  have plain: "pt_groups (plain_groups xs) = pt_conds (map flat_cond xs)" for xs
    by (simp add: plain_groups_def Let_def)
  show ?thesis by (simp add: append plain pt_plain del: map_append) simp
qed

lemma built_plain: "built_groups (plain_groups fs)"
  using built_conds_plain [of "map flat_cond fs"] by (auto simp: plain_groups_def flat_cond_def)

lemma passes_added:
  assumes built: "built_groups (ConditionGroups q)" and fs: "\<forall>f \<in> set (fs @ ms). w_Operator f = 0"
    and r: "ConditionGroups r = closed_groups (ConditionGroups q) @ plain_groups fs @ plain_groups ms"
  shows "passes L r \<longleftrightarrow> passes L q \<and> (\<forall>f \<in> set (fs @ ms). L (flat_cond f) = TT)"
proof -
  define r' where "r' = Query (qf r) [] None (closed_groups (ConditionGroups q) @ plain_groups (fs @ ms)) None"
  have closed: "built_groups (closed_groups (ConditionGroups q))"
    using built by (auto simp: closed_groups_def)
  have "built_groups (ConditionGroups r)" "built_groups (ConditionGroups r')"
    using closed built_plain by (simp_all add: r r'_def)
  moreover have "predicateTree (ConditionGroups r) = predicateTree (ConditionGroups r')"
    by (simp add: predicateTree_def r r'_def plain_nodes)
  ultimately have "passes L r \<longleftrightarrow> passes L r'" by (simp add: passes_tree)
  moreover have "passes L r' \<longleftrightarrow> passes L q \<and> (\<forall>f \<in> set (fs @ ms). L (flat_cond f) = TT)"
    by (rule passes_closed [OF built fs]) (simp add: r'_def plain_groups_def)
  ultimately show ?thesis by simp
qed

lemma update_conditions:
  "ConditionGroups (parts_query (seal_parts (ub_parts (update_builder_for table row opts src)))) = ConditionGroups (fst (GetQuery src))"
  by (simp add: update_builder_for_def CopyStateToUpdate_def split_beta UBApplyQueryState_def copied_conditions)

text \<open>The update that is rendered.\<close>

definition rendered_update :: "gostring \<Rightarrow> go_row \<Rightarrow> write_options \<Rightarrow> select_builder \<Rightarrow> update_query" where
  "rendered_update table row opts src =
     \<lparr>uq_Options = opts, uq_Table = table, uq_Values = row,
      uq_Query = parts_query (seal_parts (ub_parts (update_builder_for table row opts src)))\<rparr>"

lemma UpdateBuildSnapshot_built:
  assumes "fst (UpdateBuildSnapshot u zero json (update_builder_for table row opts src) s) = Inr (t, args, sn)"
  obtains tree s' where "BuildUpdate u json (rendered_update table row opts src) (s\<lparr>r_ph := zero\<rparr>) = Done t (args, tree) s'"
proof -
  let ?b = "update_builder_for table row opts src"
  have "update_of (?b\<lparr>ub_parts := seal_parts (ub_parts ?b)\<rparr>) = rendered_update table row opts src"
    by (simp add: update_of_def rendered_update_def update_builder_for_def CopyStateToUpdate_def split_beta UBApplyQueryState_def
        UBWriteOptions_def UBUpdate_def UBTable_def)
  then show thesis
    using assms that
    by (auto simp: UpdateBuildSnapshot_def UBBuild_def Let_def split: outcome.splits prod.splits sum.splits)
qed

lemma optimistic_source:
  assumes "optimisticInput u zero json q results table source row opts = Inr (source', row', opts')"
  shows "ConditionGroups (fst (GetQuery source')) = ConditionGroups (fst (GetQuery source)) @ plain_groups (version_flats results)"
    and "row' = row @ (case wr_Version results of None \<Rightarrow> [] | Some (col, expected) \<Rightarrow> [(col, int64_value (expected + 1))])"
proof -
  have "wr_Version results = None \<and> source' = source \<and> row' = row \<or>
      (\<exists>col expected. wr_Version results = Some (col, expected) \<and> source' = with_version col expected source \<and>
         row' = row @ [(col, int64_value (expected + 1))])"
    using assms by (auto simp: optimisticInput_def Let_def split: option.splits sum.splits prod.splits if_splits)
  then show "ConditionGroups (fst (GetQuery source')) = ConditionGroups (fst (GetQuery source)) @ plain_groups (version_flats results)"
    "row' = row @ (case wr_Version results of None \<Rightarrow> [] | Some (col, expected) \<Rightarrow> [(col, int64_value (expected + 1))])"
    by (auto simp: version_flats_def with_version_groups plain_groups_def)
qed

lemma appendTableRef_fields [simp]:
  "SQL (appendTableRef p n al) = SQL p" "Params (appendTableRef p n al) = Params p"
  "\<exists>more. items (Tables (appendTableRef p n al)) = items (Tables p) @ more"
  by (auto simp: appendTableRef_def)

lemma appendJoinMetadata_fields [simp]:
  "SQL (appendJoinMetadata p js) = SQL p" "Params (appendJoinMetadata p js) = Params p"
  "\<exists>more. items (Tables (appendJoinMetadata p js)) = items (Tables p) @ more"
proof -
  have step: "SQL (appendJoin p j) = SQL p \<and> Params (appendJoin p j) = Params p \<and>
      (\<exists>more. items (Tables (appendJoin p j)) = items (Tables p) @ more)" for p j
    using appendTableRef_fields(3) [of "p\<lparr>PlanJoins := push (PlanJoins p) (j\<lparr>jr_OnTree := detach_tree (jr_OnTree j)\<rparr>)\<rparr>"]
    by (simp add: appendJoin_def)
  have "SQL (appendJoinMetadata p js) = SQL p \<and> Params (appendJoinMetadata p js) = Params p \<and>
      (\<exists>more. items (Tables (appendJoinMetadata p js)) = items (Tables p) @ more)"
  proof (induction js arbitrary: p)
    case (Cons j js)
    from Cons.IH [of "appendJoin p j"] step [of p j] show ?case by (auto simp: appendJoinMetadata_def)
  qed (simp add: appendJoinMetadata_def)
  then show "SQL (appendJoinMetadata p js) = SQL p" "Params (appendJoinMetadata p js) = Params p"
    "\<exists>more. items (Tables (appendJoinMetadata p js)) = items (Tables p) @ more"
    by blast+
qed

lemma update_plan_statement [simp]: "SQL (update_plan t args sn opts) = t" "Params (update_plan t args sn opts) = Some args"
  by (simp_all add: update_plan_def appendWriteSnapshotMetadata_def appendPredicateMetadata_def appendConditionTrees_def
      newQueryPlan_def Let_def)

text \<open>The written table is the first target of the query's policy too.\<close>

lemma first_target:
  assumes "tenantTargets s d [r] [] = Inr (t # ts)" "tenantTargets s d (r # rs) js = Inr (t' # ts')"
  shows "t' = t"
  using assms by (auto simp: tenantTargets_def Let_def split: option.splits if_splits prod.splits sum.splits)

lemma target_plan_tables:
  assumes "sn_Table sn \<noteq> []"
  shows "\<exists>rest. items (Tables (target_plan sn)) = \<lparr>tr_Name = sn_Table sn, tr_Alias = []\<rparr> # rest"
proof -
  have "items (Tables (appendTableRef (newQueryPlan [] [] None) (sn_Table sn) [])) = [\<lparr>tr_Name = sn_Table sn, tr_Alias = []\<rparr>]"
    using assms by (simp add: appendTableRef_def newQueryPlan_def push_def)
  then show ?thesis
    using appendJoinMetadata_fields(3) [of "appendTableRef (newQueryPlan [] [] None) (sn_Table sn) []" "sn_Joins sn"]
    by (auto simp: target_plan_def)
qed

lemma no_empty_target: "tenantTargets s d [\<lparr>tr_Name = [], tr_Alias = []\<rparr>] [] \<noteq> Inr (t # ts)"
proof -
  have "\<not> scopePath (fst (reference_names \<lparr>tr_Name = [], tr_Alias = []\<rparr>))" by code_simp
  then show ?thesis
    by (auto simp: tenantTargets_def split: option.splits prod.splits if_splits)
qed

lemma Snapshot_again: "fst (Snapshot (snd (GetQuery b))) = fst (Snapshot b)"
  by (simp add: Snapshot_def split_beta GetQuery_again cong: option.case_cong)

text \<open>The parts of a planned UPDATE.\<close>

lemma planUpdateValues_parts:
  assumes "fst (planUpdateValues u zero json q results row opts now) = Inr (p, e)" "st_strict (qs_settings (fq_state q))"
  obtains table b rows source src source' row' opts' sql args sn where
    "table = fst (tableName (snd (GetQuery (fq_builder q))))" "b = snd (GetQuery (snd (GetQuery (fq_builder q))))"
    "options_refused opts False = None"
    "tenantRows (qs_settings (fq_state q)) (qs_dialect (fq_state q)) table [row] True None None = Inr rows"
    "policyBuilder (fq_state q) b = (Inr source, src)"
    "optimisticInput u zero json (fq_state q) results table source (hd rows) opts = Inr (source', row', opts')"
    "fst (UpdateBuildSnapshot u zero json (update_builder_for table row' opts' source') \<lparr>r_ph = zero, r_cols = []\<rparr>) = Inr (sql, args, sn)"
    "finalizePlan (fq_state q) (update_plan sql args sn opts') now = (p, e)"
proof -
  obtain src0 b0 where g: "GetQuery (fq_builder q) = (src0, b0)" by fastforce
  obtain table b where tb: "tableName b0 = (table, b)" by fastforce
  have b: "b = snd (GetQuery b0)"
    using tb by (auto simp: tableName_def snapshot_of_copy(2) [of b0, symmetric] split: prod.splits sum.splits)
  obtain r src where r: "policyBuilder (fq_state q) b = (r, src)" by fastforce
  show thesis
    using assms g tb b r that [of table b _ _ src]
    by (auto simp: planUpdateValues_def checkExactWrite_def Let_def split: option.splits sum.splits prod.splits if_splits)
qed

definition writable :: "tenant_target \<Rightarrow> gostring \<times> goval \<Rightarrow> bool" where
  "writable t e \<longleftrightarrow> (case e of (col, v) \<Rightarrow>
     tenantColumn t col \<noteq> None \<and> scopeScalar v \<and> col \<noteq> pol_TenantColumn (tt_policy t) \<and>
     col \<notin> set (pol_ImmutableColumns (tt_policy t) @ pol_ForbiddenColumns (tt_policy t) @ pol_PIIColumns (tt_policy t)))"

definition next_version :: "write_results \<Rightarrow> go_row" where
  "next_version results = (case wr_Version results of None \<Rightarrow> [] | Some (col, expected) \<Rightarrow> [(col, int64_value (expected + 1))])"

lemma version_and: "\<forall>f \<in> set (mandatory q t @ version_flats results). w_Operator f = 0"
  using mandatory_and by (auto simp: version_flats_def version_flat_def zero_where_def split: option.splits)

text \<open>
  C27: A strict UPDATE that is planned sends exactly the statement rendered for its table, with the assignments asked for, each a
  scalar for a known column that is neither the tenant's nor immutable nor protected, and the next version when one is expected;
  and it changes a row only when the application's own condition keeps it, each condition of the table's policy is true on it, and
  its version is the expected one, however the application's condition uses OR.
\<close>

theorem planned_update_stays_in_tenant:
  assumes "fst (planUpdateValues u zero json q results row opts now) = Inr (p, e)" "st_strict (qs_settings (fq_state q))"
    and "builder_inv (fq_where q)"
  shows "\<exists>t ts uq args tree s'.
    tenantTargets (qs_settings (fq_state q)) (qs_dialect (fq_state q)) [\<lparr>tr_Name = uq_Table uq, tr_Alias = []\<rparr>] [] = Inr (t # ts) \<and>
    BuildUpdate u json uq \<lparr>r_ph = zero, r_cols = []\<rparr> = Done (px_sql e) (args, tree) s' \<and> px_args e = Some args \<and>
    uq_Table uq = fst (tableName (snd (GetQuery (fq_builder q)))) \<and> uq_Values uq = row @ next_version results \<and> list_all (writable t) row \<and>
    (\<forall>L. passes L (uq_Query uq) \<longleftrightarrow> passes L (fst (GetQuery (fq_builder q))) \<and>
       list_all (\<lambda>f. L (flat_cond f) = TT) (mandatory (fq_state q) t @ version_flats results))"
proof -
  let ?s = "qs_settings (fq_state q)" and ?d = "qs_dialect (fq_state q)"
  obtain table b rows source src source' row' opts' sql args sn where
    table: "table = fst (tableName (snd (GetQuery (fq_builder q))))" and b: "b = snd (GetQuery (snd (GetQuery (fq_builder q))))" and
    rows: "tenantRows ?s ?d table [row] True None None = Inr rows" and
    policy: "policyBuilder (fq_state q) b = (Inr source, src)" and
    version: "optimisticInput u zero json (fq_state q) results table source (hd rows) opts = Inr (source', row', opts')" and
    built: "fst (UpdateBuildSnapshot u zero json (update_builder_for table row' opts' source') \<lparr>r_ph = zero, r_cols = []\<rparr>) = Inr (sql, args, sn)" and
    final: "finalizePlan (fq_state q) (update_plan sql args sn opts') now = (p, e)"
    using planUpdateValues_parts [OF assms(1,2)] by metis
  obtain t ts where t: "tenantTargets ?s ?d [\<lparr>tr_Name = table, tr_Alias = []\<rparr>] [] = Inr (t # ts)" "write_rows ?s t True None [row] = Inr rows"
    using tenantRows_ok [OF assms(2) rows] by blast
  have same: "rows = [row]" and allowed: "list_all (writable t) row"
    using write_rows_ok [OF t(2)] assignment_allowed [of t True] by (auto simp: writable_def list_all_iff)
  have again: "fst (GetQuery b) = fst (GetQuery (fq_builder q))" "fst (Snapshot b) = fst (Snapshot (snd (GetQuery (fq_builder q))))"
    by (simp_all add: b GetQuery_again Snapshot_again)
  obtain psn t' ts' where psn: "fst (Snapshot b) = Inr psn"
    "tenantTargets ?s ?d (items (Tables (target_plan psn))) (items (PlanJoins (target_plan psn))) = Inr (t' # ts')"
    "ConditionGroups (fst (GetQuery source)) = closed_groups (ConditionGroups (fst (GetQuery b))) @
       (if mandatory (fq_state q) t' = [] then [] else [WhereGroup (map flat_cond (mandatory (fq_state q) t')) 0 True False])"
    using policyBuilder_strict [OF policy assms(2)] .
  have name: "sn_Table psn = table"
    using psn(1) again(2) by (auto simp: table tableName_def split: prod.splits sum.splits)
  then obtain rest where "items (Tables (target_plan psn)) = \<lparr>tr_Name = table, tr_Alias = []\<rparr> # rest"
    using target_plan_tables [of psn] no_empty_target [of ?s ?d t ts] t(1) by (cases "table = []") auto
  then have "t' = t" using first_target [OF t(1)] psn(2) by simp
  then have groups: "ConditionGroups (fst (GetQuery source')) = closed_groups (ConditionGroups (fst (GetQuery (fq_builder q)))) @
      plain_groups (mandatory (fq_state q) t) @ plain_groups (version_flats results)"
    using psn(3) again(1) optimistic_source(1) [OF version] by (simp add: plain_groups_def)
  let ?uq = "rendered_update table row' opts' source'"
  obtain tree s' where run: "BuildUpdate u json ?uq \<lparr>r_ph = zero, r_cols = []\<rparr> = Done sql (args, tree) s'"
    using UpdateBuildSnapshot_built [OF built] by auto
  have "uq_Values ?uq = row @ next_version results"
    using optimistic_source(2) [OF version] by (simp add: rendered_update_def same next_version_def)
  moreover have "passes L (uq_Query ?uq) \<longleftrightarrow> passes L (fst (GetQuery (fq_builder q))) \<and>
      list_all (\<lambda>f. L (flat_cond f) = TT) (mandatory (fq_state q) t @ version_flats results)" for L
    using passes_added [OF built_source [OF assms(3)] version_and, of "uq_Query ?uq"] groups
    by (simp add: rendered_update_def update_conditions list_all_iff)
  moreover have "px_sql e = sql" "px_args e = Some args"
    using finalizePlan_inspected [OF final] by simp_all
  moreover have "uq_Table ?uq = table" by (simp add: rendered_update_def)
  ultimately show ?thesis
    using t(1) run allowed table by (intro exI [of _ t] exI [of _ ts] exI [of _ ?uq] exI [of _ args] exI [of _ tree] exI [of _ s']) simp
qed

section \<open>A planned UPDATE\<close>

text \<open>
  \<^verbatim>\<open>Table("t").Where("a", "=", 1).OrWhere("b", "=", 2)\<close> given a name under the strict policy with the tenant's condition added.
\<close>

definition renaming :: facade where
  "renaming = \<lparr>fq_state = ExecutionPlan.sample_query\<lparr>qs_settings := named_settings\<lparr>st_autoTenant := True\<rparr>\<rparr>, fq_builder = or_source,
     fq_paramSeq = 0\<rparr>"

lemma renaming_fields:
  "fq_err renaming = None" "qs_settings (fq_state renaming) = named_settings\<lparr>st_autoTenant := True\<rparr>"
  "qs_dialect (fq_state renaming) = PostgresDialect" "fq_builder renaming = or_source" "st_strict named_settings"
  "st_autoTenant (named_settings\<lparr>st_autoTenant := True\<rparr>)"
  "ci_CurrentTenant (ec_input (st_execution named_settings)) = VInt 7"
  by (simp_all add: renaming_def ExecutionPlan.sample_query_def named_settings_def tenant_settings_def WithTenantPolicy_def NewSettings_def)

definition pending_source :: select_builder where
  [go_eval]: "pending_source = snd (GetQuery (snd (GetQuery or_source)))"

definition guarded_source :: select_builder where
  [go_eval]: "guarded_source =
     on_conditions_of (addWhere ''t.id'' ''='' (Some [VInt 7]) op_AND)
       (GroupWhere (snd (Snapshot (fst (CopyStateToSelect pending_source NewSelectBuilder)))))"

lemma pending_source_facts:
  "fst (q_Limit (qf (fst (GetQuery or_source)))) = False"
  "fst (tableName (snd (GetQuery or_source))) = ''t''"
  "case fst (Snapshot (fst (CopyStateToSelect pending_source NewSelectBuilder))) of Inl e \<Rightarrow> False
   | Inr sn \<Rightarrow> items (Tables (target_plan sn)) = [\<lparr>tr_Name = ''t'', tr_Alias = []\<rparr>] \<and> items (PlanJoins (target_plan sn)) = []"
  by code_simp+

lemma renaming_source: "\<exists>src. policyBuilder (fq_state renaming) pending_source = (Inr guarded_source, src)"
proof -
  obtain sn where sn: "fst (Snapshot (fst (CopyStateToSelect pending_source NewSelectBuilder))) = Inr sn"
    "items (Tables (target_plan sn)) = [\<lparr>tr_Name = ''t'', tr_Alias = []\<rparr>]" "items (PlanJoins (target_plan sn)) = []"
    using pending_source_facts(3) by (cases "fst (Snapshot (fst (CopyStateToSelect pending_source NewSelectBuilder)))") auto
  have fields: "tt_table named_target = ''t''" "pol_SoftDeleteColumn (tt_policy named_target) = []"
    by (simp_all add: named_target_def sample_target_def blank_policy_def)
  have seven: "spread (VInt 7) = Some [VInt 7]" by code_simp
  show ?thesis
    unfolding policyBuilder_def
    by (simp add: renaming_fields split_beta Let_def sn tenantTargets_auto named_targets named_target_fields fields
        tenant_predicate_def deletion_predicate_def seven guarded_source_def on_conditions_of_def)
qed

lemma renaming_built:
  "case fst (UpdateBuildSnapshot postgres_utils 0 (\<lambda>v. []) (update_builder_for ''t'' [(''name'', VString ''x'')] no_options guarded_source)
     \<lparr>r_ph = 0, r_cols = []\<rparr>) of Inr (t, vs, sn) \<Rightarrow> vs = [VString ''x'', VInt 1, VInt 2, VInt 7] | _ \<Rightarrow> False"
  by code_simp

lemma renaming_rows:
  "tenantRows (named_settings\<lparr>st_autoTenant := True\<rparr>) PostgresDialect ''t'' [[(''name'', VString ''x'')]] True None None =
     Inr [[(''name'', VString ''x'')]]"
proof -
  have "GuardCheck (rows_output [[(''name'', VString ''x'')]]) = None"
    by (simp add: rows_output_def GuardCheck_None_iff)
  moreover have "scopeIdent ''name''" by code_simp
  ultimately show ?thesis
    using renaming_fields(5)
    by (simp add: tenantRows_def tenantTargets_auto named_targets write_row_def assignment_refused_def tenantWriteColumn_def and_then_def
        refuse_if_def conflict_refused_def named_target_fields)
qed

lemma renaming_planned:
  "\<exists>p e. fst (planUpdateValues postgres_utils 0 (\<lambda>v. []) renaming no_results [(''name'', VString ''x'')] no_options 0) = Inr (p, e) \<and>
     px_args e = Some [VString ''x'', VInt 1, VInt 2, VInt 7]"
proof -
  obtain t sn where built: "fst (UpdateBuildSnapshot postgres_utils 0 (\<lambda>v. []) (update_builder_for ''t'' [(''name'', VString ''x'')] no_options
      guarded_source) \<lparr>r_ph = 0, r_cols = []\<rparr>) = Inr (t, [VString ''x'', VInt 1, VInt 2, VInt 7], sn)"
    using renaming_built by (auto split: sum.splits prod.splits)
  obtain src where src: "policyBuilder (fq_state renaming) pending_source = (Inr guarded_source, src)"
    using renaming_source by blast
  have name: "tableName (snd (GetQuery or_source)) = (''t'', pending_source)"
    using pending_source_facts(2) by (simp add: tableName_def Snapshot_def pending_source_def split_beta split: sum.splits option.splits)
  obtain p e where final: "finalizePlan (fq_state renaming) (update_plan t [VString ''x'', VInt 1, VInt 2, VInt 7] sn no_options) 0 = (p, e)"
    by fastforce
  have opts: "options_refused no_options False = None" "wr_Version no_results = None"
    by (simp_all add: options_refused_def no_options_def no_results_def)
  have "fst (planUpdateValues postgres_utils 0 (\<lambda>v. []) renaming no_results [(''name'', VString ''x'')] no_options 0) = Inr (p, e)"
    by (simp add: planUpdateValues_def checkExactWrite_def renaming_fields pending_source_facts split_beta name renaming_rows src
        optimisticInput_def opts built final Let_def)
  moreover have "px_args e = Some [VString ''x'', VInt 1, VInt 2, VInt 7]"
    using finalizePlan_inspected [OF final] by simp
  ultimately show ?thesis by blast
qed

theorem planned_update_stays_in_tenant_witness:
  "\<exists>p e uq tree s'.
     fst (planUpdateValues postgres_utils 0 (\<lambda>v. []) renaming no_results [(''name'', VString ''x'')] no_options 0) = Inr (p, e) \<and>
     BuildUpdate postgres_utils (\<lambda>v. []) uq \<lparr>r_ph = 0, r_cols = []\<rparr> =
       Done (px_sql e) ([VString ''x'', VInt 1, VInt 2, VInt 7], tree) s' \<and>
     mandatory (fq_state renaming) named_target \<noteq> [] \<and>
     \<not> passes (\<lambda>c. if c = flat_cond (hd (mandatory (fq_state renaming) named_target)) then FF else TT) (uq_Query uq)"
proof -
  obtain p e where run: "fst (planUpdateValues postgres_utils 0 (\<lambda>v. []) renaming no_results [(''name'', VString ''x'')] no_options 0) = Inr (p, e)"
    and args: "px_args e = Some [VString ''x'', VInt 1, VInt 2, VInt 7]"
    using renaming_planned by blast
  have inv: "builder_inv (fq_where renaming)"
    by (simp add: renaming_fields or_source_def on_conditions_of_def BTable_def NewSelectBuilder_def builder_inv_def NewWhereBuilder_def
        OrWhere_def BWhere_def addWhere_def append_flat_def append_cond_def)
  have m: "mandatory (fq_state renaming) named_target \<noteq> []"
    by (simp add: mandatory_def renaming_fields named_target_fields Let_def)
  have strict: "st_strict (qs_settings (fq_state renaming))" by (simp add: renaming_fields)
  let ?L = "\<lambda>c. if c = flat_cond (hd (mandatory (fq_state renaming) named_target)) then FF else TT"
  from planned_update_stays_in_tenant [OF run strict inv] obtain t ts uq bound tree s' where
    t: "tenantTargets (qs_settings (fq_state renaming)) (qs_dialect (fq_state renaming)) [\<lparr>tr_Name = uq_Table uq, tr_Alias = []\<rparr>] [] = Inr (t # ts)"
    and build: "BuildUpdate postgres_utils (\<lambda>v. []) uq \<lparr>r_ph = 0, r_cols = []\<rparr> = Done (px_sql e) (bound, tree) s'" "px_args e = Some bound"
    and name: "uq_Table uq = fst (tableName (snd (GetQuery (fq_builder renaming))))"
    and cond: "\<forall>L. passes L (uq_Query uq) \<longleftrightarrow> passes L (fst (GetQuery (fq_builder renaming))) \<and>
       list_all (\<lambda>f. L (flat_cond f) = TT) (mandatory (fq_state renaming) t @ version_flats no_results)"
    by (elim exE conjE) (rule that)
  have "t = named_target"
    using t by (simp add: name renaming_fields pending_source_facts tenantTargets_auto named_targets)
  then have "passes ?L (uq_Query uq) \<Longrightarrow> list_all (\<lambda>f. ?L (flat_cond f) = TT) (mandatory (fq_state renaming) named_target)"
    using spec [OF cond, of ?L] by simp
  with m have "\<not> passes ?L (uq_Query uq)"
    by (cases "mandatory (fq_state renaming) named_target") auto
  with run build args m show ?thesis by fastforce
qed

section \<open>Divergences\<close>

text \<open>When the builder recorded a predicate error the table has no name, and an INSERT is planned all the same.\<close>

lemma failed_condition_empties_table:
  assumes "fq_err q = None" "\<not> fst (q_Limit (qf (fst (GetQuery (fq_builder q)))))" "\<not> st_strict (qs_settings (fq_state q))"
    and "ValidateQuery (Some (fst (GetQuery (fq_builder q)))) = Some err"
  shows "\<exists>p e rows. fst (PlanInsert postgres_utils 0 (\<lambda>v. []) q [(''a'', VInt 1)] now) = Inr ((p, e), rows) \<and>
    px_sql e = ''INSERT INTO \"\" (\"a\") VALUES ($1)''"
proof -
  have name: "tableName (snd (GetQuery (fq_builder q))) = ([], snd (GetQuery (snd (GetQuery (fq_builder q)))))"
    using assms(4) by (simp add: tableName_def Snapshot_def split_beta GetQuery_again)
  let ?ib = "insert_builder_for [] (extend_columns no_options [[(''a'', VInt 1)]]) [[(''a'', VInt 1)]] ''insert'' False"
  have "fst (InsertBuildSnapshot postgres_utils 0 (\<lambda>v. []) ?ib \<lparr>r_ph = 0, r_cols = []\<rparr>) =
      Inr (''INSERT INTO \"\" (\"a\") VALUES ($1)'', [VInt 1], insert_snapshot_of (ib_query ?ib))"
    by code_simp
  then obtain r where built: "InsertBuildSnapshot postgres_utils 0 (\<lambda>v. []) ?ib \<lparr>r_ph = 0, r_cols = []\<rparr> =
      (Inr (''INSERT INTO \"\" (\"a\") VALUES ($1)'', [VInt 1], insert_snapshot_of (ib_query ?ib)), r)"
    by (cases "InsertBuildSnapshot postgres_utils 0 (\<lambda>v. []) ?ib \<lparr>r_ph = 0, r_cols = []\<rparr>") simp
  have rows: "tenantRows (qs_settings (fq_state q)) d table rows False unique cols = Inr rows" for d table rows unique cols
    using assms(3) by (simp add: tenantRows_def)
  have no_conflict: "conflict_lists no_options = (None, None)" "conflict_incomplete no_options = False"
    "missing_conflict_column no_options rs = None" for rs
    by (simp_all add: conflict_lists_def conflict_incomplete_def missing_conflict_column_def no_options_def)
  let ?p = "insert_plan ''INSERT INTO \"\" (\"a\") VALUES ($1)'' [VInt 1] (insert_snapshot_of (ib_query ?ib))
    (insert_metadata (insert_snapshot_of (ib_query ?ib)) False)"
  have un: "is_Unverified (insert_snapshot_of (ib_query ?ib)) = []" by code_simp
  obtain p e where final: "finalizePlan (fq_state q) ?p now = (p, e)" by fastforce
  have "fst (PlanInsert postgres_utils 0 (\<lambda>v. []) q [(''a'', VInt 1)] now) = Inr ((p, e), [[(''a'', VInt 1)]])"
    using assms(1-3) by (simp add: PlanInsert_def planInsertRows_def checkExactWrite_def split_beta name rows no_conflict built un final Let_def)
  moreover have "px_sql e = ''INSERT INTO \"\" (\"a\") VALUES ($1)''"
    using finalizePlan_inspected [OF final] by (simp add: insert_plan_def newQueryPlan_def)
  ultimately show ?thesis by blast
qed

end
