(* ===== verification/WriteRun.thy ===== *)
theory WriteRun
  imports WriteChecks ObservedRows
begin

text \<open>
  Running a write (\<^verbatim>\<open>orm/query/write_results.go\<close>, \<^verbatim>\<open>execution.go\<close>, \<^verbatim>\<open>observation.go\<close>): a write that must be atomic is run in a
  transaction of its own that is committed once its result has been checked.  What the database answers is an argument; what it is
  sent is a trace.  The clock is read at numbered points, and \<^term>\<open>seen\<close> is how \<^verbatim>\<open>errors.Is\<close> sees an error.  Every operation also acts on
  the observation of the query's context, when there is one.
\<close>

section \<open>What is sent and answered\<close>

datatype db_event =
    Begins
  | ReadsEngine gostring gostring
  | CountsTriggers gostring gostring
  | Executes gostring "goval list option"
  | Commits
  | RollsBack

record database =
  db_begin :: "db_error option"
  db_engine :: "gostring \<Rightarrow> gostring \<Rightarrow> db_error + gostring"
  db_triggers :: "gostring \<Rightarrow> gostring \<Rightarrow> db_error + int"
  db_exec :: "gostring \<Rightarrow> goval list option \<Rightarrow> db_error + (db_error + int) option"
  db_commit :: "db_error option"
  db_rollback :: "db_error option"

record world =
  wd_obs :: "obs_state option"
  wd_sent :: "db_event list"

definition observing_with :: "(obs_state \<Rightarrow> obs_state) \<Rightarrow> world \<Rightarrow> world" where
  [go_eval]: "observing_with f w = w\<lparr>wd_obs := map_option f (wd_obs w)\<rparr>"

definition sends_event :: "db_event \<Rightarrow> world \<Rightarrow> world" where
  [go_eval]: "sends_event ev w = w\<lparr>wd_sent := wd_sent w @ [ev]\<rparr>"

text \<open>The statement of a plan with what its result must meet, who may open a transaction for it and whether one is open.\<close>

record write_execution =
  we_seal :: planned_execution
  we_results :: write_results
  we_writeOwner :: bool
  we_managedTx :: bool

section \<open>Conditions that can be rebuilt\<close>

definition identity_kinds :: "gostring list" where
  [go_eval]: "identity_kinds = [''and'', ''or'', ''not'', ''group'', ''comparison'', ''in'', ''null'', ''between'', ''column'']"

fun identity_node :: "nat \<Rightarrow> pnode \<Rightarrow> bool" and identity_nodes :: "nat \<Rightarrow> pnode option list \<Rightarrow> bool" where
  "identity_node depth (Node i cs) \<longleftrightarrow>
     \<not> (depth > MaxDepth \<or> correspondence i \<noteq> generated \<or> opaque_reason i \<noteq> [] \<or> raw_sql i \<noteq> [] \<or> func_name i \<noteq> [] \<or>
        items (named_values i) \<noteq> []) \<and>
     kind i \<in> set identity_kinds \<and> identity_nodes (depth + 1) cs"
| "identity_nodes depth [] \<longleftrightarrow> True"
| "identity_nodes depth (None # cs) \<longleftrightarrow> identity_nodes depth cs"
| "identity_nodes depth (Some n # cs) \<longleftrightarrow> identity_node depth n \<and> identity_nodes depth cs"

definition identityTree :: "pnode option \<Rightarrow> bool" where
  [go_eval]: "identityTree t \<longleftrightarrow> (case t of None \<Rightarrow> True | Some n \<Rightarrow> identity_node 0 n)"

fun arguments_fixed :: "copier \<Rightarrow> goval list \<Rightarrow> bool" where
  "arguments_fixed c [] \<longleftrightarrow> True"
| "arguments_fixed c (VNumber s # vs) \<longleftrightarrow> arguments_fixed c vs"
| "arguments_fixed c (v # vs) \<longleftrightarrow> (case Copy c v of ((_, ok), c') \<Rightarrow> ok \<and> arguments_fixed c' vs)"

definition atomic_supported :: "planned_execution \<Rightarrow> bool" where
  [go_eval]: "atomic_supported e \<longleftrightarrow>
     (let p = px_inspection e
      in items (Unverified p) = [] \<and> items (PlanJoins p) = [] \<and> identityTree (WhereTree p) \<and> identityTree (HavingTree p) \<and>
         (case Metadata p of None \<Rightarrow> True | Some m \<Rightarrow> m ''insert_mode'' \<noteq> Some (MetaString ''insert_using'')) \<and>
         arguments_fixed new_copier (items (px_args e)))"

section \<open>Storage\<close>

text \<open>A query of the library's own for one row, from reading number \<^term>\<open>i\<close> of the clock.\<close>

definition internal_row :: "(nat \<Rightarrow> int) \<Rightarrow> nat \<Rightarrow> db_event \<Rightarrow> db_error + 'a \<Rightarrow> world \<Rightarrow> (db_error + 'a) \<times> world" where
  [go_eval]: "internal_row clk i ev answer w =
     (let failed = (case answer of Inl e \<Rightarrow> Some e | Inr x \<Rightarrow> None)
      in case wd_obs w of
        None \<Rightarrow> (answer, sends_event ev w)
      | Some s \<Rightarrow>
          (case BeginTicket (clk i) ''internal'' ''row'' None [] False s of
             (OverBudget, s) \<Rightarrow> (Inl BudgetExceeded, w\<lparr>wd_obs := Some s\<rparr>)
           | (Untracked, s) \<Rightarrow> (answer, sends_event ev (w\<lparr>wd_obs := Some s\<rparr>))
           | (Tracked t, s) \<Rightarrow>
               (answer, sends_event ev (w\<lparr>wd_obs := Some (RowScan (clk (i + 2)) t True None failed (Dispatch (clk (i + 1)) t s))\<rparr>))))"

fun check_engines :: "(nat \<Rightarrow> int) \<Rightarrow> nat \<Rightarrow> database \<Rightarrow> table_ref list \<Rightarrow> world \<Rightarrow> write_error option \<times> world" where
  "check_engines clk i db [] w = (None, w)"
| "check_engines clk i db (t # ts) w =
     (if tr_Alias t \<noteq> [] \<or> \<not> scopePath (tr_Name t) then (Some OptionsError, w)
      else let parts = split_on CHR ''.'' (tr_Name t); schema = (if length parts = 2 then hd parts else []); name = last parts
        in if length parts > 2 then (Some OptionsError, w)
           else case internal_row clk i (ReadsEngine schema name) (db_engine db schema name) w of
             (Inl e, w) \<Rightarrow> (Some (DatabaseError e), w)
           | (Inr engine, w) \<Rightarrow>
               if engine \<noteq> ''InnoDB'' then (Some OptionsError, w)
               else (case internal_row clk (i + 3) (CountsTriggers schema name) (db_triggers db schema name) w of
                       (Inl e, w) \<Rightarrow> (Some (DatabaseError e), w)
                     | (Inr n, w) \<Rightarrow> if n \<noteq> 0 then (Some OptionsError, w) else check_engines clk (i + 6) db ts w))"

definition checkAtomicStorage ::
  "(nat \<Rightarrow> int) \<Rightarrow> nat \<Rightarrow> database \<Rightarrow> driver_dialect \<Rightarrow> query_plan \<Rightarrow> world \<Rightarrow> write_error option \<times> world" where
  [go_eval]: "checkAtomicStorage clk i db d p w =
     (case d of
        PostgresDialect \<Rightarrow> (None, w)
      | MySQLDialect \<Rightarrow> if items (Tables p) = [] then (Some OptionsError, w) else check_engines clk i db (items (Tables p)) w
      | _ \<Rightarrow> (Some OptionsError, w))"

section \<open>Sending the statement\<close>

definition dispatch_refused :: "planned_execution \<Rightarrow> int \<Rightarrow> write_error option" where
  [go_eval]: "dispatch_refused e now =
     (if \<not> px_authorizationRequired e then None
      else case px_authorizationCheck e of
        None \<Rightarrow> Some (ExecutionError (Unauthorized AuthorizationMissing))
      | Some check \<Rightarrow> map_option (\<lambda>err. ExecutionError (Unauthorized err)) (check now))"

text \<open>A write is never given a shape, so its ticket has no owner and no key.\<close>

definition begin_statement :: "int \<Rightarrow> planned_execution \<Rightarrow> obs_state \<Rightarrow> begun \<times> obs_state" where
  [go_eval]: "begin_statement now e s =
     BeginTicket now ''query'' ''exec'' None [] (Operation (px_inspection e) \<in> {OperationSelect, OperationRaw}) s"

definition end_statement ::
  "(nat \<Rightarrow> int) \<Rightarrow> nat \<Rightarrow> gostring \<Rightarrow> db_error option \<Rightarrow> (int \<times> bool) option \<Rightarrow> obs_state \<Rightarrow> obs_state" where
  [go_eval]: "end_statement clk t phase err counted s =
     (let s = Dispatch (clk 22) t s; s = (case counted of None \<Rightarrow> s | Some (n, known) \<Rightarrow> Affected t n known s)
      in EndTicket (clk 23) t (if err \<noteq> None then ''error'' else ''success'') (Classify err phase) no_metric no_metric no_metric s)"

definition run_exec ::
  "(nat \<Rightarrow> int) \<Rightarrow> (write_error \<Rightarrow> db_error) \<Rightarrow> database \<Rightarrow> write_execution \<Rightarrow> world \<Rightarrow>
     (write_error + (db_error + int) option) \<times> world" where
  [go_eval]: "run_exec clk seen db e w =
     (let seal = we_seal e
      in case dispatch_refused seal (clk 20) of
        Some err \<Rightarrow> (Inl err, observing_with (Reject [Some (seen err)]) w)
      | None \<Rightarrow>
          let (ticket, w) = (case wd_obs w of None \<Rightarrow> (Untracked, w)
                             | Some s \<Rightarrow> (case begin_statement (clk 21) seal s of (r, s) \<Rightarrow> (r, w\<lparr>wd_obs := Some s\<rparr>)))
          in if ticket = OverBudget then (Inl (DatabaseError BudgetExceeded), w)
             else let args = fst (Slice new_copier (px_args seal)); w = sends_event (Executes (px_sql seal) args) w;
                      (result, phase, counted) =
                        (case db_exec db (px_sql seal) args of
                           Inl err \<Rightarrow> (Inl (DatabaseError err), ''dispatch'', None)
                         | Inr res \<Rightarrow>
                             (case ResultCount (we_results e) res of
                                (n, known, Some err) \<Rightarrow> (Inl err, ''result'', Some (n, known))
                              | (n, known, None) \<Rightarrow> (Inr res, ''result'', Some (n, known))));
                      failed = (case result of Inl err \<Rightarrow> Some (seen err) | Inr res \<Rightarrow> None)
               in (result, case ticket of Tracked t \<Rightarrow> observing_with (end_statement clk t phase failed counted) w | _ \<Rightarrow> w))"

section \<open>Transactions\<close>

definition rolled_back :: "(nat \<Rightarrow> int) \<Rightarrow> database \<Rightarrow> write_error \<Rightarrow> world \<Rightarrow> (write_error + 'a) \<times> world" where
  [go_eval]: "rolled_back clk db cause w =
     (let w = observing_with (Tx ''rollback'' (db_rollback db) (clk 16 - clk 15)) (sends_event RollsBack w)
      in (case db_rollback db of
            None \<Rightarrow> (Inl cause, w)
          | Some err \<Rightarrow> (Inl (OutcomeUnknown [cause, DatabaseError err]), w)))"

definition committed :: "(nat \<Rightarrow> int) \<Rightarrow> database \<Rightarrow> 'a \<Rightarrow> world \<Rightarrow> (write_error + 'a) \<times> world" where
  [go_eval]: "committed clk db res w =
     (let w = observing_with (Tx ''commit'' (db_commit db) (clk 18 - clk 17)) (sends_event Commits w)
      in (case db_commit db of
            None \<Rightarrow> (Inr res, w)
          | Some err \<Rightarrow> (Inl (OutcomeUnknown [DatabaseError err]), w)))"

text \<open>The plan is finalized again from its private statement, for a copy of the query that runs in the transaction.\<close>

definition rebound :: "query_state \<Rightarrow> nat \<Rightarrow> int \<Rightarrow> write_execution \<Rightarrow> write_execution" where
  [go_eval]: "rebound q fresh now e =
     e\<lparr>we_seal := (snd (finalizePlan (q\<lparr>qs_id := fresh\<rparr>) (px_inspection (we_seal e)) now))
          \<lparr>px_bindingExpires := px_bindingExpires (we_seal e)\<rparr>, we_managedTx := True\<rparr>"

type_synonym 'a runner = "write_execution \<Rightarrow> world \<Rightarrow> (write_error + 'a) \<times> world"

definition in_transaction ::
  "(nat \<Rightarrow> int) \<Rightarrow> database \<Rightarrow> nat \<Rightarrow> query_state \<Rightarrow> write_execution \<Rightarrow> 'a runner \<Rightarrow> world \<Rightarrow> (write_error + 'a) \<times> world" where
  [go_eval]: "in_transaction clk db fresh q e run w =
     (let w = observing_with (Tx ''begin'' (db_begin db) (clk 7 - clk 6)) w
      in case db_begin db of
        Some err \<Rightarrow> (Inl (DatabaseError err), w)
      | None \<Rightarrow>
          (case checkAtomicStorage clk 100 db (qs_dialect q) (px_inspection (we_seal e)) (sends_event Begins w) of
             (Some err, w) \<Rightarrow> rolled_back clk db err w
           | (None, w) \<Rightarrow>
               let again = rebound q fresh (clk 8) e; seal = Some (we_seal again)
               in case checkExecution fresh seal (clk 9) (clk 10) (clk 11) of
                 Some err \<Rightarrow> rolled_back clk db (ExecutionError err) w
               | None \<Rightarrow>
                   (case fst (bindExecution fresh seal (clk 12) (clk 13) (clk 14)) of
                      Inl err \<Rightarrow> rolled_back clk db (ExecutionError err) w
                    | Inr bound \<Rightarrow>
                        (case run (again\<lparr>we_seal := bound\<rparr>) w of
                           (Inl err, w) \<Rightarrow> rolled_back clk db err w
                         | (Inr res, w) \<Rightarrow> committed clk db res w))))"

definition must_be_atomic :: "write_results \<Rightarrow> bool" where
  [go_eval]: "must_be_atomic r = (wr_Atomic r \<or> wr_Version r \<noteq> None)"

text \<open>What refuses a write before its plan is claimed.\<close>

definition write_refused :: "write_execution \<Rightarrow> write_error option" where
  [go_eval]: "write_refused e =
     (let r = we_results e; op = Operation (px_inspection (we_seal e)); atomic = must_be_atomic r
      in if \<not> results_valid r then Some OptionsError
         else if Active r \<and> op \<notin> {OperationInsert, OperationUpdate, OperationDelete} then Some OptionsError
         else if wr_Version r \<noteq> None \<and> op \<noteq> OperationUpdate then Some OptionsError
         else if atomic \<and> \<not> atomic_supported (we_seal e) then Some OptionsError
         else if atomic \<and> \<not> we_managedTx e \<and> \<not> we_writeOwner e then Some OwnershipError
         else None)"

text \<open>The result, what becomes of the plan, and the world after it.\<close>

definition runWrite ::
  "(nat \<Rightarrow> int) \<Rightarrow> (write_error \<Rightarrow> db_error) \<Rightarrow> database \<Rightarrow> nat \<Rightarrow> query_state \<Rightarrow> write_execution option \<Rightarrow> 'a runner \<Rightarrow> world \<Rightarrow>
     (write_error + 'a) \<times> write_execution option \<times> world" where
  [go_eval]: "runWrite clk seen db fresh q plan run w =
     (case checkExecution (qs_id q) (map_option we_seal plan) (clk 0) (clk 1) (clk 2) of
        Some err \<Rightarrow> (Inl (ExecutionError err), plan, observing_with (Reject [Some (seen (ExecutionError err))]) w)
      | None \<Rightarrow>
          (case plan of
             None \<Rightarrow> (Inl OptionsError, plan, w)
           | Some e \<Rightarrow>
               (case write_refused e of
                  Some err \<Rightarrow> (Inl err, plan, w)
                | None \<Rightarrow>
                    (case bindExecution (qs_id q) (Some (we_seal e)) (clk 3) (clk 4) (clk 5) of
                       (Inl err, seal) \<Rightarrow> (Inl (ExecutionError err), map_option (\<lambda>s. e\<lparr>we_seal := s\<rparr>) seal, w)
                     | (Inr seal, _) \<Rightarrow>
                         let e = e\<lparr>we_seal := seal\<rparr>;
                             (r, w) = (if \<not> must_be_atomic (we_results e) \<or> we_managedTx e then run e w
                                       else in_transaction clk db fresh q e run w)
                         in (r, Some e, w)))))"

definition executeResult ::
  "(nat \<Rightarrow> int) \<Rightarrow> (write_error \<Rightarrow> db_error) \<Rightarrow> database \<Rightarrow> nat \<Rightarrow> query_state \<Rightarrow> write_execution option \<Rightarrow> world \<Rightarrow>
     (write_error + (db_error + int) option) \<times> write_execution option \<times> world" where
  [go_eval]: "executeResult clk seen db fresh q plan w = runWrite clk seen db fresh q plan (run_exec clk seen db) w"

section \<open>What is sent\<close>

lemma sent_simps [simp]:
  "wd_sent (observing_with f w) = wd_sent w" "wd_sent (sends_event ev w) = wd_sent w @ [ev]"
  by (simp_all add: observing_with_def sends_event_def)

primrec is_read :: "db_event \<Rightarrow> bool" where
  "is_read Begins = False"
| "is_read (ReadsEngine s n) = True"
| "is_read (CountsTriggers s n) = True"
| "is_read (Executes t args) = False"
| "is_read Commits = False"
| "is_read RollsBack = False"

lemma internal_row_sent:
  assumes "internal_row clk i ev answer w = (r, w')" "is_read ev"
  shows "\<exists>reads. list_all is_read reads \<and> wd_sent w' = wd_sent w @ reads"
proof -
  from assms(1) have "wd_sent w' = wd_sent w \<or> wd_sent w' = wd_sent w @ [ev]"
    by (auto simp: internal_row_def Let_def split: option.splits prod.splits begun.splits)
  then show ?thesis using assms(2) by (metis append_Nil2 list.pred_inject)
qed

lemma check_engines_sent:
  "check_engines clk i db ts w = (r, w') \<Longrightarrow> \<exists>reads. list_all is_read reads \<and> wd_sent w' = wd_sent w @ reads"
proof (induction clk i db ts w arbitrary: r w' rule: check_engines.induct)
  case (1 clk i db w)
  then show ?case by (auto intro: exI [of _ "[]"])
next
  case (2 clk i db t ts w)
  let ?parts = "split_on CHR ''.'' (tr_Name t)"
  let ?s = "if length ?parts = 2 then hd ?parts else []" and ?n = "last ?parts"
  obtain e w1 where e: "internal_row clk i (ReadsEngine ?s ?n) (db_engine db ?s ?n) w = (e, w1)" by force
  obtain k w2 where k: "internal_row clk (i + 3) (CountsTriggers ?s ?n) (db_triggers db ?s ?n) w1 = (k, w2)" by force
  obtain r1 r2 where r: "list_all is_read r1" "wd_sent w1 = wd_sent w @ r1" "list_all is_read r2" "wd_sent w2 = wd_sent w1 @ r2"
    using internal_row_sent [OF e] internal_row_sent [OF k] by auto
  consider "wd_sent w' = wd_sent w" | "w' = w1" | "w' = w2" | "check_engines clk (i + 6) db ts w2 = (r, w')" "\<not> (tr_Alias t \<noteq> [] \<or> \<not> scopePath (tr_Name t))"
      "length ?parts \<le> 2" "e = Inr ''InnoDB''" "k = Inr 0"
    using 2(2) e k by (auto simp: Let_def split: sum.splits if_splits prod.splits)
  then show ?case
  proof cases
    case 1 then show ?thesis by (auto intro: exI [of _ "[]"])
  next
    case 2 then show ?thesis using r by blast
  next
    case 3 then show ?thesis using r by (auto intro: exI [of _ "r1 @ r2"])
  next
    case 4
    then have "\<exists>reads. list_all is_read reads \<and> wd_sent w' = wd_sent w2 @ reads"
      using "2.IH" [of ?parts ?s ?n] e k by simp
    then obtain r3 where "list_all is_read r3" "wd_sent w' = wd_sent w2 @ r3" by blast
    then show ?thesis using r by (auto intro: exI [of _ "r1 @ r2 @ r3"])
  qed
qed

lemma storage_sent:
  "checkAtomicStorage clk i db d p w = (r, w') \<Longrightarrow> \<exists>reads. list_all is_read reads \<and> wd_sent w' = wd_sent w @ reads"
  using check_engines_sent by (fastforce simp: checkAtomicStorage_def split: driver_dialect.splits if_splits intro: exI [of _ "[]"])

primrec unknown_outcome :: "write_error \<Rightarrow> bool" where
  "unknown_outcome OptionsError = False"
| "unknown_outcome OwnershipError = False"
| "unknown_outcome (ExecutionError x) = False"
| "unknown_outcome (RowsError x) = False"
| "unknown_outcome (DatabaseError x) = False"
| "unknown_outcome (OutcomeUnknown es) = True"

definition unclear :: "write_error + 'a \<Rightarrow> bool" where
  "unclear r \<longleftrightarrow> (case r of Inl e \<Rightarrow> unknown_outcome e | Inr x \<Rightarrow> False)"

lemma unclear_simps [simp]: "unclear (Inl e) = unknown_outcome e" "\<not> unclear (Inr x)"
  by (simp_all add: unclear_def)

lemma check_engines_clear: "check_engines clk i db ts w = (Some err, w') \<Longrightarrow> \<not> unknown_outcome err"
  by (induction clk i db ts w rule: check_engines.induct) (auto simp: Let_def split: sum.splits if_splits prod.splits)

lemma storage_clear: "checkAtomicStorage clk i db d p w = (Some err, w') \<Longrightarrow> \<not> unknown_outcome err"
  by (auto simp: checkAtomicStorage_def dest: check_engines_clear split: driver_dialect.splits if_splits)

text \<open>A result the options accept.\<close>

definition accepted :: "write_results \<Rightarrow> (db_error + int) option \<Rightarrow> bool" where
  "accepted r res \<longleftrightarrow> (Active r \<longrightarrow> (\<exists>n. res = Some (Inr n) \<and> meets r n))"

lemma ResultCount_accepted: "snd (snd (ResultCount r res)) = None \<longleftrightarrow> accepted r res"
  by (auto simp: ResultCount_def accepted_def CheckResults_None split: option.splits sum.splits)

abbreviation statement_of :: "write_execution \<Rightarrow> db_event" where
  "statement_of e \<equiv> Executes (px_sql (we_seal e)) (px_args (we_seal e))"

lemma ResultCount_clear: "snd (snd (ResultCount r res)) = Some err \<Longrightarrow> \<not> unknown_outcome err"
  by (auto simp: ResultCount_def CheckResults_def Let_def split: option.splits sum.splits if_splits)

lemma run_exec_sent:
  assumes "run_exec clk seen db e w = (r, w')"
  shows "(wd_sent w' = wd_sent w \<and> isl r \<or> wd_sent w' = wd_sent w @ [statement_of e]) \<and>
    (\<forall>res. r = Inr res \<longrightarrow> db_exec db (px_sql (we_seal e)) (px_args (we_seal e)) = Inr res \<and> accepted (we_results e) res) \<and>
    (wd_sent w' \<noteq> wd_sent w \<longrightarrow> (\<exists>res. db_exec db (px_sql (we_seal e)) (px_args (we_seal e)) = Inr res \<and> accepted (we_results e) res) \<longrightarrow> \<not> isl r) \<and>
    \<not> unclear r"
proof -
  have dispatch: "dispatch_refused (we_seal e) t = Some x \<Longrightarrow> \<not> unknown_outcome x" for t x
    by (auto simp: dispatch_refused_def split: if_splits option.splits)
  show ?thesis
  proof (cases "dispatch_refused (we_seal e) (clk 20)")
    case (Some x)
    then show ?thesis using assms dispatch [OF Some] by (auto simp: run_exec_def Let_def)
  next
    case None
    obtain ticket w1 where t: "(case wd_obs w of None \<Rightarrow> (Untracked, w)
        | Some s \<Rightarrow> (case begin_statement (clk 21) (we_seal e) s of (r, s) \<Rightarrow> (r, w\<lparr>wd_obs := Some s\<rparr>))) = (ticket, w1)" by force
    then have w1: "wd_sent w1 = wd_sent w" by (auto split: option.splits prod.splits)
    have after: "wd_sent (case ticket of Tracked t \<Rightarrow> observing_with (f t) w2 | _ \<Rightarrow> w2) = wd_sent w2" for f w2
      by (cases ticket) auto
    show ?thesis
    proof (cases "ticket = OverBudget")
      case True
      then show ?thesis using assms None t w1 by (auto simp: run_exec_def Let_def)
    next
      case False
      show ?thesis
      proof (cases "db_exec db (px_sql (we_seal e)) (px_args (we_seal e))")
        case (Inl err)
        then show ?thesis using assms None t w1 False after by (auto simp: run_exec_def Let_def)
      next
        case (Inr res)
        obtain n known err where c: "ResultCount (we_results e) res = (n, known, err)" by (metis prod_cases3)
        have acc: "accepted (we_results e) res \<longleftrightarrow> err = None" using ResultCount_accepted [of "we_results e" res] by (simp add: c)
        show ?thesis
          using assms None t w1 False after Inr c acc ResultCount_clear [of "we_results e" res]
          by (cases err) (auto simp: run_exec_def Let_def)
      qed
    qed
  qed
qed

lemma rolled_back_sent:
  "rolled_back clk db cause w = (r, w') \<Longrightarrow> wd_sent w' = wd_sent w @ [RollsBack] \<and> isl r \<and> (\<not> unknown_outcome cause \<longrightarrow> unclear r = (db_rollback db \<noteq> None))"
  by (auto simp: rolled_back_def Let_def split: option.splits)

lemma committed_sent:
  "committed clk db res w = (r, w') \<Longrightarrow> wd_sent w' = wd_sent w @ [Commits] \<and> (if db_commit db = None then r = Inr res else unclear r)"
  by (auto simp: committed_def Let_def split: option.splits)

text \<open>What a transaction sends, and what it answers.\<close>

definition settled ::
  "write_results \<Rightarrow> database \<Rightarrow> gostring \<Rightarrow> goval list option \<Rightarrow> db_event list \<Rightarrow> write_error + (db_error + int) option \<Rightarrow> bool" where
  "settled o' db sql args sent r \<longleftrightarrow>
     sent = [] \<and> isl r \<and> \<not> unclear r \<or>
     (\<exists>reads. list_all is_read reads \<and>
        ((sent = Begins # reads @ [RollsBack] \<or>
          sent = Begins # reads @ [Executes sql args, RollsBack] \<and> \<not> (\<exists>res. db_exec db sql args = Inr res \<and> accepted o' res)) \<and>
         isl r \<and> (unclear r \<longleftrightarrow> db_rollback db \<noteq> None) \<or>
         sent = Begins # reads @ [Executes sql args, Commits] \<and>
         (\<exists>res. db_exec db sql args = Inr res \<and> accepted o' res \<and> (if db_commit db = None then r = Inr res else unclear r))))"

lemma settled_rollback:
  assumes "list_all is_read reads" "body = [] \<or> body = [Executes sql args] \<and> \<not> (\<exists>res. db_exec db sql args = Inr res \<and> accepted o' res)"
    and "isl r" "unclear r = (db_rollback db \<noteq> None)"
  shows "settled o' db sql args (Begins # reads @ body @ [RollsBack]) r"
  unfolding settled_def using assms by (intro disjI2 exI [of _ reads]) auto

lemma settled_commit:
  assumes "list_all is_read reads" "db_exec db sql args = Inr res" "accepted o' res" "if db_commit db = None then r = Inr res else unclear r"
  shows "settled o' db sql args (Begins # reads @ [Executes sql args, Commits]) r"
  unfolding settled_def using assms by (intro disjI2 exI [of _ reads]) auto

lemma checked_seal: "fst (bindExecution n (Some e) t1 t2 t3) = Inr b \<Longrightarrow> b = e\<lparr>px_used := True\<rparr>"
  by (auto simp: bindExecution_def claim_def split: option.splits if_splits)

lemma in_transaction_settled:
  assumes "in_transaction clk db fresh q e (run_exec clk seen db) w = (r, w')"
    and "px_sql (we_seal (rebound q fresh (clk 8) e)) = sql" "px_args (we_seal (rebound q fresh (clk 8) e)) = args"
  shows "\<exists>sent. wd_sent w' = wd_sent w @ sent \<and> settled (we_results e) db sql args sent r"
proof (cases "db_begin db")
  case (Some err)
  then show ?thesis using assms(1) by (auto simp: in_transaction_def settled_def Let_def)
next
  case None
  let ?w = "sends_event Begins (observing_with (Tx ''begin'' (db_begin db) (clk 7 - clk 6)) w)"
  let ?again = "rebound q fresh (clk 8) e"
  have results: "we_results ?again = we_results e" by (simp add: rebound_def)
  obtain err w1 where st: "checkAtomicStorage clk 100 db (qs_dialect q) (px_inspection (we_seal e)) ?w = (err, w1)" by force
  obtain reads where reads: "list_all is_read reads" "wd_sent w1 = wd_sent w @ Begins # reads"
    using storage_sent [OF st] by auto
  have undone: "\<exists>sent. wd_sent w' = wd_sent w @ sent \<and> settled (we_results e) db sql args sent r"
    if "rolled_back clk db cause w1 = (r, w')" "\<not> unknown_outcome cause" for cause
    using rolled_back_sent [OF that(1)] that(2) reads settled_rollback [of reads "[]"]
    by (intro exI [of _ "Begins # reads @ [RollsBack]"]) simp
  show ?thesis
  proof (cases err)
    case (Some x)
    then have "rolled_back clk db x w1 = (r, w')" using assms(1) None st by (simp add: in_transaction_def Let_def)
    then show ?thesis using undone storage_clear st Some by blast
  next
    case no_error: None
    show ?thesis
    proof (cases "checkExecution fresh (Some (we_seal ?again)) (clk 9) (clk 10) (clk 11)")
      case (Some x)
      then have "rolled_back clk db (ExecutionError x) w1 = (r, w')" using assms(1) None st no_error by (simp add: in_transaction_def Let_def)
      then show ?thesis using undone by simp
    next
      case passes: None
      show ?thesis
      proof (cases "fst (bindExecution fresh (Some (we_seal ?again)) (clk 12) (clk 13) (clk 14))")
        case (Inl x)
        then have "rolled_back clk db (ExecutionError x) w1 = (r, w')" using assms(1) None st no_error passes by (simp add: in_transaction_def Let_def)
        then show ?thesis using undone by simp
      next
        case (Inr b)
        let ?bound = "?again\<lparr>we_seal := b\<rparr>"
        have b: "px_sql b = sql" "px_args b = args" using checked_seal [OF Inr] assms(2,3) by simp_all
        obtain r1 w2 where run: "run_exec clk seen db ?bound w1 = (r1, w2)" by force
        have bound: "px_sql (we_seal ?bound) = sql" "px_args (we_seal ?bound) = args" "we_results ?bound = we_results e"
          by (simp_all add: b results)
        note ran = run_exec_sent [OF run, unfolded bound]
        show ?thesis
        proof (cases r1)
          case (Inl x)
          then have "rolled_back clk db x w2 = (r, w')" using assms(1) None st no_error passes Inr run by (simp add: in_transaction_def Let_def)
          note end_state = rolled_back_sent [OF this]
          let ?body = "if wd_sent w2 = wd_sent w1 then [] else [Executes sql args]"
          have "settled (we_results e) db sql args (Begins # reads @ ?body @ [RollsBack]) r"
            using ran Inl end_state by (intro settled_rollback reads(1)) auto
          moreover have "wd_sent w' = wd_sent w @ Begins # reads @ ?body @ [RollsBack]" using ran Inl end_state reads by auto
          ultimately show ?thesis by blast
        next
          case right: (Inr res)
          then have "committed clk db res w2 = (r, w')" using assms(1) None st no_error passes Inr run by (simp add: in_transaction_def Let_def)
          note end_state = committed_sent [OF this]
          have "settled (we_results e) db sql args (Begins # reads @ [Executes sql args, Commits]) r"
            using ran right end_state by (intro settled_commit [of _ _ _ _ res] reads(1)) auto
          moreover have "wd_sent w' = wd_sent w @ Begins # reads @ [Executes sql args, Commits]" using ran right end_state reads by auto
          ultimately show ?thesis by blast
        qed
      qed
    qed
  qed
qed

text \<open>What is finalized again is what was sealed.\<close>

lemma rebound_statement:
  assumes "finalizePlan q0 plan t0 = (p, we_seal e)" "px_inspection (we_seal e') = px_inspection (we_seal e)"
  shows "px_sql (we_seal (rebound q fresh now e')) = SQL plan" "px_args (we_seal (rebound q fresh now e')) = Params plan"
proof -
  obtain p' s where again: "finalizePlan (q\<lparr>qs_id := fresh\<rparr>) (px_inspection (we_seal e')) now = (p', s)" by force
  show "px_sql (we_seal (rebound q fresh now e')) = SQL plan" "px_args (we_seal (rebound q fresh now e')) = Params plan"
    using finalizePlan_inspected [OF again] finalizePlan_inspected [OF assms(1)] by (simp_all add: rebound_def again assms(2) [symmetric])
qed

lemma settled_result: "settled o' db sql args sent (Inr res) \<Longrightarrow> db_exec db sql args = Inr res \<and> accepted o' res"
  by (auto simp: settled_def split: if_splits)

section \<open>What is sent is counted\<close>

primrec is_statement :: "db_event \<Rightarrow> bool" where
  "is_statement Begins = False"
| "is_statement (ReadsEngine s n) = True"
| "is_statement (CountsTriggers s n) = True"
| "is_statement (Executes t args) = True"
| "is_statement Commits = False"
| "is_statement RollsBack = False"

text \<open>An observation counts the statements sent between two worlds, with one admitted statement for each.\<close>

definition counted :: "world \<Rightarrow> world \<Rightarrow> bool" where
  "counted w w' \<longleftrightarrow> (\<exists>sent. wd_sent w' = wd_sent w @ sent \<and>
     (\<forall>limit repeat n s. wd_obs w = Some s \<longrightarrow> observed limit repeat n s \<longrightarrow>
        (\<exists>s'. wd_obs w' = Some s' \<and> observed limit repeat (n + length (filter is_statement sent)) s')))"

lemma counted_refl: "counted w w"
  by (auto simp: counted_def intro: exI [of _ "[]"])

lemma counted_trans: "counted w1 w2 \<Longrightarrow> counted w2 w3 \<Longrightarrow> counted w1 w3"
proof -
  assume "counted w1 w2" "counted w2 w3"
  then obtain a b where a: "wd_sent w2 = wd_sent w1 @ a" "\<And>limit repeat n s. wd_obs w1 = Some s \<Longrightarrow> observed limit repeat n s \<Longrightarrow>
        \<exists>s'. wd_obs w2 = Some s' \<and> observed limit repeat (n + length (filter is_statement a)) s'"
    and b: "wd_sent w3 = wd_sent w2 @ b" "\<And>limit repeat n s. wd_obs w2 = Some s \<Longrightarrow> observed limit repeat n s \<Longrightarrow>
        \<exists>s'. wd_obs w3 = Some s' \<and> observed limit repeat (n + length (filter is_statement b)) s'"
    unfolding counted_def by blast
  have "\<exists>s'. wd_obs w3 = Some s' \<and> observed limit repeat (n + length (filter is_statement (a @ b))) s'"
    if "wd_obs w1 = Some s" "observed limit repeat n s" for limit repeat n s
    using a(2) [OF that] b(2) by (fastforce simp: add.assoc)
  then show ?thesis using a(1) b(1) unfolding counted_def by (intro exI [of _ "a @ b"]) auto
qed

lemma counted_aside: "\<not> is_statement ev \<Longrightarrow> counted w (sends_event ev w)"
  by (auto simp: counted_def sends_event_def)

lemma observed_aside:
  assumes "observed limit repeat n s"
  shows "observed limit repeat n (Tx m e d s)" "observed limit repeat n (Reject causes s)" "observed limit repeat n (Affected t k b s)"
  using stepped [OF assms transaction] stepped [OF assms rejected] stepped [OF assms affected] by simp_all

lemma counted_observing:
  assumes "\<And>limit repeat n s. observed limit repeat n s \<Longrightarrow> observed limit repeat n (f s)"
  shows "counted w (observing_with f w)"
  using assms by (auto simp: counted_def observing_with_def)

lemma begun_observed:
  assumes "observed limit repeat n s" "BeginTicket now cls meth owner k eligible s = (b, s')"
  shows "observed limit repeat (if b = OverBudget then n else n + 1) s'"
  using stepped [OF assms(1) admitted [OF assms(2)]] stepped [OF assms(1) refused] assms(2) by (cases "b = OverBudget") auto

lemma counted_internal:
  assumes "internal_row clk i ev answer w = (r, w')" "is_statement ev"
  shows "counted w w'"
proof (cases "wd_obs w")
  case None
  then show ?thesis using assms by (auto simp: internal_row_def counted_def sends_event_def)
next
  case (Some s)
  obtain b s' where b: "BeginTicket (clk i) ''internal'' ''row'' None [] False s = (b, s')" by force
  show ?thesis
    using assms Some b begun_observed [OF _ b]
    by (cases b) (auto simp: internal_row_def counted_def sends_event_def Let_def intro!: reader_observed observing)
qed

lemma counted_engines: "check_engines clk i db ts w = (r, w') \<Longrightarrow> counted w w'"
proof (induction clk i db ts w arbitrary: r w' rule: check_engines.induct)
  case (1 clk i db w)
  then show ?case by (simp add: counted_refl)
next
  case (2 clk i db t ts w)
  let ?parts = "split_on CHR ''.'' (tr_Name t)"
  let ?s = "if length ?parts = 2 then hd ?parts else []" and ?n = "last ?parts"
  obtain e w1 where e: "internal_row clk i (ReadsEngine ?s ?n) (db_engine db ?s ?n) w = (e, w1)" by force
  obtain k w2 where k: "internal_row clk (i + 3) (CountsTriggers ?s ?n) (db_triggers db ?s ?n) w1 = (k, w2)" by force
  have c: "counted w w1" "counted w w2"
    using counted_internal [OF e] counted_trans [OF counted_internal [OF e] counted_internal [OF k]] by simp_all
  consider "w' = w" | "w' = w1" | "w' = w2" | "check_engines clk (i + 6) db ts w2 = (r, w')" "\<not> (tr_Alias t \<noteq> [] \<or> \<not> scopePath (tr_Name t))"
      "length ?parts \<le> 2" "e = Inr ''InnoDB''" "k = Inr 0"
    using 2(2) e k by (auto simp: Let_def split: sum.splits if_splits prod.splits)
  then show ?case
  proof cases
    case 4
    then have "counted w2 w'" using "2.IH" [of ?parts ?s ?n] e k by simp
    then show ?thesis using c(2) counted_trans by blast
  qed (simp_all add: counted_refl c)
qed

lemma counted_storage: "checkAtomicStorage clk i db d p w = (r, w') \<Longrightarrow> counted w w'"
  using counted_engines counted_refl by (auto simp: checkAtomicStorage_def split: driver_dialect.splits if_splits)

lemma counted_rollback: "rolled_back clk db cause w = (r, w') \<Longrightarrow> counted w w'"
  using counted_trans [OF counted_aside [of RollsBack w] counted_observing [OF observed_aside(1)]]
  by (auto simp: rolled_back_def Let_def split: option.splits)

lemma counted_commit: "committed clk db res w = (r, w') \<Longrightarrow> counted w w'"
  using counted_trans [OF counted_aside [of Commits w] counted_observing [OF observed_aside(1)]]
  by (auto simp: committed_def Let_def split: option.splits)

lemma ended_observed: "observed limit repeat n s \<Longrightarrow> observed limit repeat n (end_statement clk t phase err counts s)"
  by (cases counts) (auto simp: end_statement_def Let_def intro!: observing observed_aside split: prod.splits)

lemma counted_exec:
  assumes "run_exec clk seen db e w = (r, w')"
  shows "counted w w'"
proof (cases "dispatch_refused (we_seal e) (clk 20)")
  case (Some x)
  then show ?thesis using assms counted_observing [OF observed_aside(2)] by (auto simp: run_exec_def Let_def)
next
  case allowed: None
  show ?thesis
  proof (cases "wd_obs w")
    case None
    then show ?thesis using assms allowed by (auto simp: run_exec_def counted_def sends_event_def Let_def split: prod.splits)
  next
    case (Some s)
    obtain b s' where b: "begin_statement (clk 21) (we_seal e) s = (b, s')" by force
    note begun = begun_observed [OF _ b [unfolded begin_statement_def]]
    show ?thesis
      using assms allowed Some b begun
      by (cases b) (auto simp: run_exec_def counted_def sends_event_def observing_with_def Let_def intro!: ended_observed split: prod.splits)
  qed
qed

lemma counted_transaction:
  assumes "in_transaction clk db fresh q e (run_exec clk seen db) w = (r, w')"
  shows "counted w w'"
proof -
  let ?w = "observing_with (Tx ''begin'' (db_begin db) (clk 7 - clk 6)) w"
  have started: "counted w ?w" "counted w (sends_event Begins ?w)"
    using counted_observing [OF observed_aside(1)] counted_trans [OF _ counted_aside] by simp_all
  obtain err w1 where st: "checkAtomicStorage clk 100 db (qs_dialect q) (px_inspection (we_seal e)) (sends_event Begins ?w) = (err, w1)" by force
  have w1: "counted w w1" using counted_trans [OF started(2) counted_storage [OF st]] .
  consider "w' = ?w" | (undone) cause where "rolled_back clk db cause w1 = (r, w')"
    | (ran) bound r1 w2 where "run_exec clk seen db bound w1 = (r1, w2)" "(\<exists>x. rolled_back clk db x w2 = (r, w')) \<or> (\<exists>x. committed clk db x w2 = (r, w'))"
    using assms st by (auto simp: in_transaction_def Let_def split: option.splits sum.splits prod.splits) blast+
  then show ?thesis
  proof cases
    case undone
    show ?thesis by (rule counted_trans [OF w1 counted_rollback [OF undone]])
  next
    case ran
    have "counted w2 w'" using ran(2) by (auto dest: counted_rollback counted_commit)
    then show ?thesis by (rule counted_trans [OF counted_trans [OF w1 counted_exec [OF ran(1)]]])
  qed (simp add: started)
qed

lemma counted_write: "executeResult clk seen db fresh q plan w = (r, after, w') \<Longrightarrow> counted w w'"
  by (auto simp: executeResult_def runWrite_def Let_def counted_refl counted_observing [OF observed_aside(2)]
      dest: counted_transaction counted_exec split: option.splits sum.splits prod.splits if_splits)

section \<open>Atomic writes\<close>

text \<open>
  C11: A write sends its sealed statement at most once.  One that must be atomic and owns its database is sent in a
  transaction of its own, which is committed exactly when the statement was answered with a result its options accept and is
  rolled back otherwise; success means that the statement was answered, its result accepted and the commit acknowledged, and
  the outcome is said to be unknown exactly when the commit or the rollback failed.  Whatever was sent used up the plan, and
  each statement, the storage reads included, was admitted by the observation.
\<close>

theorem write_commits_only_checked:
  assumes "finalizePlan q0 plan t0 = (p, we_seal e)" "executeResult clk seen db fresh q (Some e) w = (r, after, w')"
  shows "\<exists>sent. wd_sent w' = wd_sent w @ sent \<and>
     (if must_be_atomic (we_results e) \<and> \<not> we_managedTx e then settled (we_results e) db (SQL plan) (Params plan) sent r
      else (sent = [] \<and> isl r \<or> sent = [Executes (SQL plan) (Params plan)]) \<and> \<not> unclear r) \<and>
     (\<forall>res. r = Inr res \<longrightarrow> db_exec db (SQL plan) (Params plan) = Inr res \<and> accepted (we_results e) res) \<and>
     (sent \<noteq> [] \<longrightarrow> map_option (px_used \<circ> we_seal) after = Some True) \<and> counted w w'"
proof -
  note planned = finalizePlan_inspected [OF assms(1)] and count = counted_write [OF assms(2)]
  have none: ?thesis if "wd_sent w' = wd_sent w" "isl r" "\<not> unclear r"
    using that count by (intro exI [of _ "[]"]) (auto simp: settled_def)
  show ?thesis
  proof (cases "checkExecution (qs_id q) (Some (we_seal e)) (clk 0) (clk 1) (clk 2)")
    case (Some err)
    then show ?thesis using none assms(2) by (auto simp: executeResult_def runWrite_def)
  next
    case passes: None
    show ?thesis
    proof (cases "write_refused e")
      case (Some err)
      then have "\<not> unknown_outcome err" by (auto simp: write_refused_def Let_def split: if_splits)
      then show ?thesis using none Some passes assms(2) by (auto simp: executeResult_def runWrite_def)
    next
      case allowed: None
      obtain b seal' where bind: "bindExecution (qs_id q) (Some (we_seal e)) (clk 3) (clk 4) (clk 5) = (b, seal')" by force
      show ?thesis
      proof (cases b)
        case (Inl err)
        then show ?thesis using none allowed passes bind assms(2) by (auto simp: executeResult_def runWrite_def)
      next
        case (Inr seal)
        then have seal: "seal = (we_seal e)\<lparr>px_used := True\<rparr>" using checked_seal bind by (metis fst_conv)
        let ?e = "e\<lparr>we_seal := seal\<rparr>"
        have run: "(if \<not> must_be_atomic (we_results e) \<or> we_managedTx e then run_exec clk seen db ?e w
             else in_transaction clk db fresh q ?e (run_exec clk seen db) w) = (r, w')" and after: "after = Some ?e"
          using assms(2) passes allowed bind Inr by (auto simp: executeResult_def runWrite_def Let_def split: prod.splits if_splits)
        have used: "map_option (px_used \<circ> we_seal) after = Some True" by (simp add: after seal)
        show ?thesis
        proof (cases "must_be_atomic (we_results e) \<and> \<not> we_managedTx e")
          case True
          have "in_transaction clk db fresh q ?e (run_exec clk seen db) w = (r, w')" using run True by simp
          from in_transaction_settled [OF this rebound_statement [OF assms(1)]] obtain sent where
            "wd_sent w' = wd_sent w @ sent" "settled (we_results e) db (SQL plan) (Params plan) sent r"
            by (auto simp: seal)
          then show ?thesis using True used count settled_result by (intro exI [of _ sent]) auto
        next
          case False
          then have "run_exec clk seen db ?e w = (r, w')" using run by auto
          from run_exec_sent [OF this] show ?thesis
            using False used count planned by (auto simp: seal intro: exI [of _ "[]"])
        qed
      qed
    qed
  qed
qed

text \<open>An INSERT that must be atomic and add one row, which the database does.\<close>

definition own_settings :: settings where
  [go_eval]: "own_settings = NewSettings [] no_risk_config
     \<lparr>ec_input = \<lparr>ci_Source = [], ci_CurrentTenant = VNil, ci_TenantPresent = False\<rparr>, ec_application = False\<rparr>"

definition writing :: query_state where
  [go_eval]: "writing =
     \<lparr>qs_id = 1, qs_bindingPlanning = False, qs_settings = own_settings, qs_authorized = False, qs_writeKeys = None,
      qs_dialect = PostgresDialect, qs_err = None, qs_approval = None, qs_suppressions = [], qs_requiredPredicates = [],
      qs_policy = None, qs_accessReason = [], qs_withDeleted = False, qs_onlyDeleted = False, qs_ctx = None, qs_validation = None\<rparr>"

definition adding :: query_plan where
  [go_eval]: "adding = (newQueryPlan OperationInsert ''I'' (Some [VInt 1]))\<lparr>Tables := Some [\<lparr>tr_Name = ''t'', tr_Alias = []\<rparr>]\<rparr>"

definition adding_run :: write_execution where
  [go_eval]: "adding_run = \<lparr>we_seal = snd (finalizePlan writing adding 0), we_results = ExpectAffected 1 (AtomicWrite no_results),
     we_writeOwner = True, we_managedTx = False\<rparr>"

definition one_row :: database where
  [go_eval]: "one_row = \<lparr>db_begin = None, db_engine = \<lambda>s n. Inl NoRows, db_triggers = \<lambda>s n. Inl NoRows,
     db_exec = \<lambda>t args. Inr (Some (Inr 1)), db_commit = None, db_rollback = None\<rparr>"

abbreviation adding_result where
  "adding_result \<equiv> executeResult (\<lambda>i. 0) (\<lambda>e. OtherDbError 0) one_row 2 writing (Some adding_run) \<lparr>wd_obs = None, wd_sent = []\<rparr>"

lemma adding_runs:
  "case adding_result of (r, after, w) \<Rightarrow> r = Inr (Some (Inr 1)) \<and> wd_sent w = [Begins, Executes ''I'' (Some [VInt 1]), Commits]"
  by code_simp

theorem write_commits_only_checked_witness:
  "\<exists>r after w. adding_result = (r, after, w) \<and> r = Inr (Some (Inr 1)) \<and>
     settled (we_results adding_run) one_row ''I'' (Some [VInt 1]) [Begins, Executes ''I'' (Some [VInt 1]), Commits] r \<and>
     map_option (px_used \<circ> we_seal) after = Some True"
proof -
  obtain r after w where run: "adding_result = (r, after, w)" by (metis prod_cases3)
  have sent: "r = Inr (Some (Inr 1))" "wd_sent w = [Begins, Executes ''I'' (Some [VInt 1]), Commits]" using adding_runs by (simp_all add: run)
  obtain p where p: "finalizePlan writing adding 0 = (p, we_seal adding_run)"
    by (cases "finalizePlan writing adding 0") (simp add: adding_run_def)
  have fields: "SQL adding = ''I''" "Params adding = Some [VInt 1]" "must_be_atomic (we_results adding_run)" "\<not> we_managedTx adding_run"
    by (simp_all add: adding_def newQueryPlan_def must_be_atomic_def adding_run_def ExpectAffected_def AtomicWrite_def)
  from write_commits_only_checked [OF p run] sent run show ?thesis by (auto simp: fields)
qed

end
