(* ===== verification/CursorPaging.thy ===== *)
theory CursorPaging
  imports QueryFacade SqlLogic
begin

text \<open>
  Paging by a cursor (\<^verbatim>\<open>orm/query/cursor.go\<close>): a raw condition that keeps the rows after, or before, the row whose ordered
  columns have the cursor's values.  A column's SQL text is read on a row; error texts leave out the values the code quotes in them.
\<close>

section \<open>Columns and the condition\<close>

record cursor_column =
  cc_Name :: gostring
  cc_Direction :: gostring
  cc_Raw :: bool

definition CursorAsc :: "gostring \<Rightarrow> cursor_column" where
  [go_eval]: "CursorAsc name = \<lparr>cc_Name = name, cc_Direction = ''asc'', cc_Raw = False\<rparr>"

definition CursorDesc :: "gostring \<Rightarrow> cursor_column" where
  [go_eval]: "CursorDesc name = \<lparr>cc_Name = name, cc_Direction = ''desc'', cc_Raw = False\<rparr>"

definition CursorAscExpr :: "gostring \<Rightarrow> cursor_column" where
  [go_eval]: "CursorAscExpr expr = \<lparr>cc_Name = expr, cc_Direction = ''asc'', cc_Raw = True\<rparr>"

definition CursorDescExpr :: "gostring \<Rightarrow> cursor_column" where
  [go_eval]: "CursorDescExpr expr = \<lparr>cc_Name = expr, cc_Direction = ''desc'', cc_Raw = True\<rparr>"

definition cursor_column_refused :: "cursor_column \<Rightarrow> gostring option" where
  [go_eval]: "cursor_column_refused c =
     (let name = trim_space (cc_Name c)
      in if name = [] then Some ''goquent: cursor column name is required''
         else if cc_Raw c
         then (if validateRawSQLFragment name \<noteq> None then Some ''goquent: invalid cursor expression'' else None)
         else if str_contains name ''*'' then Some ''goquent: cursor column cannot be a wildcard''
         else if validateSelectColumn name \<noteq> None then Some ''goquent: invalid cursor column''
         else None)"

fun normalized_columns :: "(cursor_column \<times> goval) list \<Rightarrow> gostring + cursor_column list" where
  "normalized_columns [] = Inr []"
| "normalized_columns ((c, v) # cs) =
     (case cursor_column_refused c of
        Some e \<Rightarrow> Inl e
      | None \<Rightarrow>
          (case validateOrderDirection (cc_Direction c) of
             Inl e \<Rightarrow> Inl e
           | Inr dir \<Rightarrow>
               if v = VNil then Inl ''goquent: cursor value is nil''
               else (case normalized_columns cs of
                       Inl e \<Rightarrow> Inl e
                     | Inr ns \<Rightarrow> Inr (c\<lparr>cc_Name := trim_space (cc_Name c), cc_Direction := dir\<rparr> # ns))))"

definition validateCursorColumns :: "cursor_column list \<Rightarrow> goval list \<Rightarrow> gostring + cursor_column list" where
  [go_eval]: "validateCursorColumns columns values =
     (if columns = [] then Inl ''goquent: cursor columns are required''
      else if length columns \<noteq> length values then Inl ''goquent: cursor column/value count mismatch''
      else normalized_columns (zip columns values))"

definition cursorComparisonOperator :: "gostring \<Rightarrow> bool \<Rightarrow> gostring" where
  [go_eval]: "cursorComparisonOperator direction after =
     (let desc = equal_fold direction ''desc''
      in if after then (if desc then ''<'' else ''>'') else (if desc then ''>'' else ''<''))"

definition cursorColumnSQL :: "(nat \<Rightarrow> gostring \<Rightarrow> gostring) \<Rightarrow> driver_dialect \<Rightarrow> cursor_column \<Rightarrow> gostring" where
  [go_eval]: "cursorColumnSQL other d c = (if cc_Raw c then cc_Name c else quoteIdentifierPath other d (cc_Name c))"

definition cursor_name :: "nat \<Rightarrow> nat \<Rightarrow> gostring" where
  [go_eval]: "cursor_name i j = ''__goquent_cursor_'' @ nat_str i @ ''_'' @ nat_str j"

text \<open>Column, operator and parameter of each comparison: part \<^term>\<open>i\<close> has the first \<^term>\<open>i\<close> columns equal and the next one beyond.\<close>

type_synonym comparison = "gostring \<times> gostring \<times> gostring"

definition cursor_part :: "(nat \<Rightarrow> gostring \<Rightarrow> gostring) \<Rightarrow> driver_dialect \<Rightarrow> cursor_column list \<Rightarrow> bool \<Rightarrow> nat \<Rightarrow> comparison list" where
  [go_eval]: "cursor_part other d columns after i =
     map (\<lambda>j. (cursorColumnSQL other d (columns ! j), ''='', cursor_name i j)) [0..<i] @
     [(cursorColumnSQL other d (columns ! i), cursorComparisonOperator (cc_Direction (columns ! i)) after, cursor_name i i)]"

definition cursor_parts :: "(nat \<Rightarrow> gostring \<Rightarrow> gostring) \<Rightarrow> driver_dialect \<Rightarrow> cursor_column list \<Rightarrow> bool \<Rightarrow> comparison list list" where
  [go_eval]: "cursor_parts other d columns after = map (cursor_part other d columns after) [0..<length columns]"

definition comparison_text :: "comparison \<Rightarrow> gostring" where
  [go_eval]: "comparison_text c = (case c of (col, opr, name) \<Rightarrow> col @ '' '' @ opr @ '' :'' @ name)"

definition cursor_text :: "comparison list list \<Rightarrow> gostring" where
  [go_eval]: "cursor_text parts = ''('' @ join '' OR '' (map (\<lambda>p. ''('' @ join '' AND '' (map comparison_text p) @ '')'') parts) @ '')''"

definition cursor_values :: "nat \<Rightarrow> goval list \<Rightarrow> (gostring \<times> goval) list" where
  [go_eval]: "cursor_values n values = concat (map (\<lambda>i. map (\<lambda>j. (cursor_name i j, values ! j)) [0..<Suc i]) [0..<n])"

definition cursorPredicate ::
  "(nat \<Rightarrow> gostring \<Rightarrow> gostring) \<Rightarrow> driver_dialect \<Rightarrow> cursor_column list \<Rightarrow> goval list \<Rightarrow> bool \<Rightarrow> gostring \<times> (gostring \<times> goval) list" where
  [go_eval]: "cursorPredicate other d columns values after =
     (cursor_text (cursor_parts other d columns after), cursor_values (length columns) values)"

definition whereCursor ::
  "(nat \<Rightarrow> gostring \<Rightarrow> gostring) \<Rightarrow> cursor_column list \<Rightarrow> goval list \<Rightarrow> bool \<Rightarrow> facade \<Rightarrow> facade" where
  [go_eval]: "whereCursor other columns values after = guarded
     (\<lambda>q. case validateCursorColumns columns values of
        Inl e \<Rightarrow> fail_with e q
      | Inr normalized \<Rightarrow>
          (case cursorPredicate other (qs_dialect (fq_state q)) normalized values after of
             (raw, vals) \<Rightarrow> on_where (WhereRaw raw (Some vals)) q))"

definition WhereCursorAfter :: "(nat \<Rightarrow> gostring \<Rightarrow> gostring) \<Rightarrow> cursor_column list \<Rightarrow> goval list \<Rightarrow> facade \<Rightarrow> facade" where
  [go_eval]: "WhereCursorAfter other columns values = whereCursor other columns values True"

definition WhereCursorBefore :: "(nat \<Rightarrow> gostring \<Rightarrow> gostring) \<Rightarrow> cursor_column list \<Rightarrow> goval list \<Rightarrow> facade \<Rightarrow> facade" where
  [go_eval]: "WhereCursorBefore other columns values = whereCursor other columns values False"

section \<open>What the condition means\<close>

text \<open>A comparison of a column's value on a row, which may be NULL, with a bound value.\<close>

definition compares :: "'v::linorder option \<Rightarrow> gostring \<Rightarrow> 'v \<Rightarrow> tv" where
  "compares x opr v = (case x of None \<Rightarrow> UU | Some a \<Rightarrow> tv_of (if opr = ''='' then a = v else if opr = ''<'' then a < v else v < a))"

definition comparison_holds :: "(gostring \<Rightarrow> 'v::linorder option) \<Rightarrow> (goval \<Rightarrow> 'v) \<Rightarrow> (gostring \<times> goval) list \<Rightarrow> comparison \<Rightarrow> tv" where
  "comparison_holds reads bound vals c =
     (case c of (col, opr, name) \<Rightarrow> (case map_of vals name of None \<Rightarrow> UU | Some v \<Rightarrow> compares (reads col) opr (bound v)))"

definition cursor_holds ::
  "(gostring \<Rightarrow> 'v::linorder option) \<Rightarrow> (goval \<Rightarrow> 'v) \<Rightarrow> (gostring \<times> goval) list \<Rightarrow> comparison list list \<Rightarrow> tv" where
  "cursor_holds reads bound vals parts = tv_any (map (\<lambda>p. tv_all (map (comparison_holds reads bound vals) p)) parts)"

text \<open>The order of rows by their keys, each column ascending or descending.\<close>

fun key_less :: "bool list \<Rightarrow> 'v::linorder list \<Rightarrow> 'v list \<Rightarrow> bool" where
  "key_less (desc # ds) (x # xs) (y # ys) \<longleftrightarrow> (if desc then y < x else x < y) \<or> x = y \<and> key_less ds xs ys"
| "key_less ds xs ys \<longleftrightarrow> False"

lemma key_less_irrefl: "\<not> key_less ds xs xs"
proof (induction ds arbitrary: xs)
  case (Cons d ds)
  then show ?case by (cases xs) auto
qed simp

lemma key_less_asym: "key_less ds xs ys \<Longrightarrow> \<not> key_less ds ys xs"
  by (induction ds xs ys rule: key_less.induct) (auto split: if_splits)

lemma key_less_at:
  assumes "length xs = length ds" "length ys = length ds"
  shows "key_less ds xs ys \<longleftrightarrow>
    (\<exists>i < length ds. (\<forall>j < i. xs ! j = ys ! j) \<and> (if ds ! i then ys ! i < xs ! i else xs ! i < ys ! i))"
  using assms
proof (induction ds xs ys rule: key_less.induct)
  case (1 desc ds x xs y ys)
  have "(\<exists>i < length (desc # ds). (\<forall>j < i. (x # xs) ! j = (y # ys) ! j) \<and>
        (if (desc # ds) ! i then (y # ys) ! i < (x # xs) ! i else (x # xs) ! i < (y # ys) ! i)) \<longleftrightarrow>
      (if desc then y < x else x < y) \<or>
      (\<exists>i < length ds. x = y \<and> (\<forall>j < i. xs ! j = ys ! j) \<and> (if ds ! i then ys ! i < xs ! i else xs ! i < ys ! i))"
    by (simp only: list.size add_Suc_right add_0_right Ex_less_Suc2 All_less_Suc2 nth_Cons_0 nth_Cons_Suc) auto
  then show ?case using 1 by auto
qed auto

section \<open>Parameters\<close>

lemma cursor_name_inject: "cursor_name i j = cursor_name i' j' \<longleftrightarrow> i = i' \<and> j = j'"
proof -
  have split: "takeWhile is_digit (nat_str a @ CHR ''_'' # b) = nat_str a" for a b
    using nat_str_digits [of a] by (subst takeWhile_append2) (auto simp: is_digit_def byte_def)
  have "nat_str i @ CHR ''_'' # nat_str j = nat_str i' @ CHR ''_'' # nat_str j' \<longleftrightarrow> i = i' \<and> j = j'"
  proof
    assume eq: "nat_str i @ CHR ''_'' # nat_str j = nat_str i' @ CHR ''_'' # nat_str j'"
    then have "nat_str i = nat_str i'" by (metis split)
    with eq show "i = i' \<and> j = j'" by (simp add: nat_str_inject)
  qed simp
  then show ?thesis by (simp add: cursor_name_def)
qed

lemma cursor_values_lookup:
  assumes "i < n" "j \<le> i"
  shows "map_of (cursor_values n values) (cursor_name i j) = Some (values ! j)"
proof -
  have "distinct (map fst (cursor_values n values))"
    by (induction n) (auto simp: cursor_values_def map_concat comp_def distinct_map inj_on_def cursor_name_inject)
  moreover have "(cursor_name i j, values ! j) \<in> set (cursor_values n values)"
    using assms by (auto simp: cursor_values_def simp del: upt_Suc intro!: bexI [of _ i])
  ultimately show ?thesis by (rule map_of_is_SomeI)
qed

section \<open>Pages\<close>

definition descending :: "cursor_column \<Rightarrow> bool" where
  "descending c \<longleftrightarrow> equal_fold (cc_Direction c) ''desc''"

lemma compares_TT:
  "compares (Some a) ''='' v = TT \<longleftrightarrow> a = v"
  "compares (Some a) (cursorComparisonOperator dir after) v = TT \<longleftrightarrow> (if equal_fold dir ''desc'' = after then a < v else v < a)"
  by (auto simp: compares_def tv_of_def cursorComparisonOperator_def)

lemma cursor_holds_at:
  assumes "\<And>i. i < length columns \<Longrightarrow> reads (cursorColumnSQL other d (columns ! i)) = Some (xs ! i)"
  shows "cursor_holds reads bound (cursor_values (length columns) values) (cursor_parts other d columns after) = TT \<longleftrightarrow>
    (\<exists>i < length columns. (\<forall>j < i. xs ! j = bound (values ! j)) \<and>
       (if descending (columns ! i) = after then xs ! i < bound (values ! i) else bound (values ! i) < xs ! i))"
proof -
  have part: "tv_all (map (comparison_holds reads bound (cursor_values (length columns) values)) (cursor_part other d columns after i)) = TT \<longleftrightarrow>
      (\<forall>j < i. xs ! j = bound (values ! j)) \<and>
       (if descending (columns ! i) = after then xs ! i < bound (values ! i) else bound (values ! i) < xs ! i)" if "i < length columns" for i
    using that assms
    by (auto simp: cursor_part_def comparison_holds_def cursor_values_lookup compares_TT descending_def)
  have "cursor_holds reads bound (cursor_values (length columns) values) (cursor_parts other d columns after) = TT \<longleftrightarrow>
      (\<exists>i < length columns. tv_all (map (comparison_holds reads bound (cursor_values (length columns) values)) (cursor_part other d columns after i)) = TT)"
    unfolding cursor_holds_def cursor_parts_def tv_any_TT by (simp add: image_iff Bex_def eq_commute [of TT] del: tv_all_TT)
  then show ?thesis using part by (simp cong: conj_cong)
qed

lemma cursor_keeps:
  assumes "\<And>i. i < length columns \<Longrightarrow> reads (cursorColumnSQL other d (columns ! i)) = Some (xs ! i)"
    and "length xs = length columns" "length values = length columns"
  shows "cursor_holds reads bound (cursor_values (length columns) values) (cursor_parts other d columns after) = TT \<longleftrightarrow>
    (if after then key_less (map descending columns) (map bound values) xs else key_less (map descending columns) xs (map bound values))"
proof -
  have same: "(\<forall>j < i. map bound values ! j = xs ! j) \<longleftrightarrow> (\<forall>j < i. xs ! j = bound (values ! j))"
    "(\<forall>j < i. xs ! j = map bound values ! j) \<longleftrightarrow> (\<forall>j < i. xs ! j = bound (values ! j))" if "i < length columns" for i
    using that assms(3) by auto
  show ?thesis
    using assms(2,3) same by (cases after) (auto simp: cursor_holds_at [OF assms(1)] key_less_at cong: conj_cong)
qed

lemma normalized_length: "normalized_columns cs = Inr ns \<Longrightarrow> length ns = length cs"
  by (induction cs arbitrary: ns rule: normalized_columns.induct) (auto split: option.splits sum.splits if_splits)

lemma filter_split:
  assumes "k < length rows" "\<And>i. i < k \<Longrightarrow> \<not> P (rows ! i)" "\<not> P (rows ! k)" "\<And>i. k < i \<Longrightarrow> i < length rows \<Longrightarrow> P (rows ! i)"
  shows "filter P rows = drop (Suc k) rows"
proof -
  have "filter P (take (Suc k) rows) = []"
    using assms(1-3) by (auto simp: filter_empty_conv in_set_conv_nth less_Suc_eq)
  moreover have "filter P (drop (Suc k) rows) = drop (Suc k) rows"
    using assms(1,4) by (auto simp: filter_id_conv in_set_conv_nth)
  ultimately show ?thesis
    by (metis append_Nil append_take_drop_id filter_append)
qed

lemma filter_split_before:
  assumes "k < length rows" "\<And>i. i < k \<Longrightarrow> P (rows ! i)" "\<And>i. k \<le> i \<Longrightarrow> i < length rows \<Longrightarrow> \<not> P (rows ! i)"
  shows "filter P rows = take k rows"
proof -
  have "filter P (drop k rows) = []"
    using assms(1,3) by (auto simp: filter_empty_conv in_set_conv_nth)
  moreover have "filter P (take k rows) = take k rows"
    using assms(1,2) by (auto simp: filter_id_conv in_set_conv_nth)
  ultimately show ?thesis
    by (metis append_Nil2 append_take_drop_id filter_append)
qed

definition row_key :: "(nat \<Rightarrow> gostring \<Rightarrow> gostring) \<Rightarrow> driver_dialect \<Rightarrow> cursor_column list \<Rightarrow> (gostring \<Rightarrow> 'v option) \<Rightarrow> 'v list" where
  "row_key other d columns reads = map (\<lambda>c. the (reads (cursorColumnSQL other d c))) columns"


text \<open>Rows of \<^verbatim>\<open>a\<close> descending and \<^verbatim>\<open>b\<close> ascending, continued after the second.\<close>

definition paging_columns :: "cursor_column list" where
  [go_eval]: "paging_columns = [CursorDesc ''a'', CursorAsc ''b'']"

definition paging_query :: facade where
  "paging_query = NewWithSettings 1 False ''t'' PostgresDialect (NewSettings [] no_risk_config
     \<lparr>ec_input = \<lparr>ci_Source = [], ci_CurrentTenant = VNil, ci_TenantPresent = False\<rparr>, ec_application = False\<rparr>)"

definition paging_reads :: "int \<times> int \<Rightarrow> gostring \<Rightarrow> int option" where
  [go_eval]: "paging_reads r = map_of [(''\"a\"'', fst r), (''\"b\"'', snd r)]"

definition paging_bound :: "goval \<Rightarrow> int" where
  [go_eval]: "paging_bound v = (case int_of_goval v of Some i \<Rightarrow> i | None \<Rightarrow> 0)"

definition paging_rows :: "(int \<times> int) list" where
  [go_eval]: "paging_rows = [(7, 1), (5, 1), (5, 2), (3, 0)]"

end
