(* ===== verification/SchemaDiff.thy ===== *)
theory SchemaDiff
  imports MigrationPlan
begin

text \<open>
  Comparing two declared schemas (\<^verbatim>\<open>orm/migration/schema.go\<close>, \<^verbatim>\<open>schema_compare.go\<close>, \<^verbatim>\<open>schema_constraints.go\<close> and
  \<^verbatim>\<open>schema_context.go\<close>): the steps that lead from one to the other, and a marker for everything the declarations leave open.  A
  step is the migration planner's with the definitions it was found from.  Go's nil and empty slices are one list: where the code
  tells them apart, the lists compared are not empty.
\<close>

section \<open>Schemas\<close>

record schema_coverage =
  sc_Tables :: gostring
  sc_Columns :: gostring
  sc_Indexes :: gostring
  sc_ForeignKeys :: gostring
  sc_Checks :: gostring
  sc_Identity :: gostring
  sc_Version :: gostring

record object_identity =
  oi_Catalog :: gostring
  oi_Schema :: gostring
  oi_Name :: gostring
  oi_State :: gostring

record schema_context =
  sx_observedVersion :: gostring
  sx_Dialect :: gostring
  sx_Catalog :: gostring
  sx_Schema :: gostring
  sx_ServerVersion :: gostring
  sx_VersionSource :: gostring
  sx_Scope :: gostring
  sx_Tables :: "gostring list"
  sx_Visibility :: gostring
  sx_Coverage :: schema_coverage

record expression_definition =
  ed_State :: gostring
  ed_SQL :: gostring

record index_key =
  ik_Column :: gostring
  ik_Expression :: gostring
  ik_Order :: gostring
  ik_Nulls :: gostring
  ik_Prefix :: int

record foreign_key =
  fk_Name :: gostring
  fk_Columns :: "gostring list"
  fk_Reference :: object_identity
  fk_ReferencedColumns :: "gostring list"
  fk_OnUpdate :: gostring
  fk_OnDelete :: gostring
  fk_Match :: gostring
  fk_Validation :: gostring
  fk_Enforcement :: gostring
  fk_Deferrability :: gostring
  fk_Definition :: gostring
  fk_RawDefinition :: gostring

record check_schema =
  ck_Inheritance :: gostring
  ck_Name :: gostring
  ck_Expression :: gostring
  ck_Validation :: gostring
  ck_Enforcement :: gostring
  ck_Definition :: gostring
  ck_RawDefinition :: gostring

record column_schema =
  cs_Name :: gostring
  cs_Type :: gostring
  cs_Nullable :: bool
  cs_NullableKnown :: bool
  cs_HasDefault :: bool
  cs_DefaultExpression :: gostring
  cs_DefaultState :: gostring
  cs_DefaultSource :: gostring

record index_schema =
  ix_Keys :: "index_key list"
  ix_Predicate :: expression_definition
  ix_Method :: gostring
  ix_Include :: "gostring list"
  ix_Visibility :: gostring
  ix_Attributes :: gostring
  ix_Name :: gostring
  ix_Columns :: "gostring list"
  ix_Unique :: bool
  ix_Concurrent :: bool
  ix_DefinitionUnknown :: bool
  ix_RawDefinition :: gostring

record table_schema =
  tb_Identity :: object_identity
  tb_Coverage :: schema_coverage
  tb_ForeignKeys :: "foreign_key list"
  tb_Checks :: "check_schema list"
  tb_Name :: gostring
  tb_Columns :: "column_schema list"
  tb_Indexes :: "index_schema list"

record db_schema =
  sm_Context :: "schema_context option"
  sm_Tables :: "table_schema list"

record default_definition =
  dd_State :: gostring
  dd_DeclaredState :: gostring
  dd_HasDefault :: bool
  dd_Expression :: gostring
  dd_Source :: gostring

record diff_step = migration_step +
  ds_Constraint :: gostring
  ds_CurrentTable :: "table_schema option"
  ds_DesiredTable :: "table_schema option"
  ds_CurrentIndex :: "index_schema option"
  ds_DesiredIndex :: "index_schema option"
  ds_CurrentDefault :: "default_definition option"
  ds_DesiredDefault :: "default_definition option"

definition blank_diff :: diff_step where
  [go_eval]: "blank_diff = migration_step.extend blank_step
     \<lparr>ds_Constraint = [], ds_CurrentTable = None, ds_DesiredTable = None, ds_CurrentIndex = None, ds_DesiredIndex = None,
      ds_CurrentDefault = None, ds_DesiredDefault = None\<rparr>"

abbreviation CoverageComplete :: gostring where "CoverageComplete \<equiv> ''complete''"
abbreviation CoveragePartial :: gostring where "CoveragePartial \<equiv> ''partial''"
abbreviation CoverageUnknown :: gostring where "CoverageUnknown \<equiv> ''unknown''"
abbreviation CoverageUnsupported :: gostring where "CoverageUnsupported \<equiv> ''unsupported''"
abbreviation DefaultUnknown :: gostring where "DefaultUnknown \<equiv> ''unknown''"
abbreviation DefaultNone :: gostring where "DefaultNone \<equiv> ''none''"
abbreviation DefaultExpression :: gostring where "DefaultExpression \<equiv> ''expression''"

section \<open>Names and identities\<close>

definition simple_byte :: "char \<Rightarrow> bool" where
  [go_eval]: "simple_byte c \<longleftrightarrow> is_lower c \<or> c = CHR ''_''"

definition simpleSchemaName :: "gostring \<Rightarrow> bool" where
  [go_eval]: "simpleSchemaName s \<longleftrightarrow> (case s of [] \<Rightarrow> False | c # cs \<Rightarrow> simple_byte c \<and> list_all (\<lambda>d. simple_byte d \<or> is_digit d) cs)"

definition name_key :: "gostring \<Rightarrow> gostring" where
  [go_eval]: "name_key s = to_lower (trim_space s)"

definition identityKnown :: "object_identity \<Rightarrow> bool" where
  [go_eval]: "identityKnown i \<longleftrightarrow> oi_State i = CoverageComplete \<and> simpleSchemaName (oi_Catalog i) \<and> simpleSchemaName (oi_Schema i) \<and>
     simpleSchemaName (oi_Name i)"

definition expressionKnown :: "expression_definition \<Rightarrow> bool" where
  [go_eval]: "expressionKnown e \<longleftrightarrow> ed_State e = ''none'' \<and> ed_SQL e = [] \<or> ed_State e = ''expression'' \<and> ed_SQL e \<noteq> []"

definition coverageKnown :: "schema_coverage \<Rightarrow> bool" where
  [go_eval]: "coverageKnown c \<longleftrightarrow> sc_Columns c = CoverageComplete \<and> sc_Indexes c = CoverageComplete \<and>
     sc_ForeignKeys c = CoverageComplete \<and> sc_Checks c = CoverageComplete \<and> sc_Identity c = CoverageComplete"

definition objectTableKey :: "table_schema \<Rightarrow> gostring \<times> gostring \<times> gostring" where
  [go_eval]: "objectTableKey t =
     (if identityKnown (tb_Identity t) then (oi_Catalog (tb_Identity t), oi_Schema (tb_Identity t), tb_Name t) else ([], [], tb_Name t))"

definition tableIdentityValid :: "table_schema \<Rightarrow> schema_context option \<Rightarrow> bool" where
  [go_eval]: "tableIdentityValid t c \<longleftrightarrow>
     identityKnown (tb_Identity t) \<and> oi_Name (tb_Identity t) = tb_Name t \<and> simpleSchemaName (tb_Name t) \<and>
     (case c of None \<Rightarrow> True
      | Some x \<Rightarrow> sx_Catalog x = oi_Catalog (tb_Identity t) \<and> sx_Schema x = oi_Schema (tb_Identity t) \<and>
          sc_Identity (sx_Coverage x) = CoverageComplete)"

definition contextKnown :: "schema_context option \<Rightarrow> bool" where
  [go_eval]: "contextKnown c \<longleftrightarrow>
     (case c of None \<Rightarrow> False
      | Some x \<Rightarrow>
          sc_Identity (sx_Coverage x) = CoverageComplete \<and> simpleSchemaName (sx_Catalog x) \<and> simpleSchemaName (sx_Schema x) \<and>
          (sx_Dialect x = ''mysql'' \<or> sx_Dialect x = ''postgres'') \<and>
          (if sx_Scope x = ''namespace'' then sx_Tables x = []
           else sx_Scope x = ''tables'' \<and> sx_Tables x \<noteq> [] \<and> list_all simpleSchemaName (sx_Tables x) \<and> distinct (sx_Tables x)))"

definition sameScope :: "schema_context option \<Rightarrow> schema_context option \<Rightarrow> bool" where
  [go_eval]: "sameScope a b \<longleftrightarrow>
     contextKnown a \<and> contextKnown b \<and>
     (case (a, b) of
        (Some x, Some y) \<Rightarrow> sx_Dialect x = sx_Dialect y \<and> sx_Catalog x = sx_Catalog y \<and> sx_Schema x = sx_Schema y \<and>
          sx_Scope x = sx_Scope y \<and> sort (sx_Tables x) = sort (sx_Tables y)
      | _ \<Rightarrow> False)"

definition inventoryComplete :: "schema_context option \<Rightarrow> bool" where
  [go_eval]: "inventoryComplete c \<longleftrightarrow> contextKnown c \<and>
     (case c of None \<Rightarrow> False | Some x \<Rightarrow> sc_Tables (sx_Coverage x) = CoverageComplete \<and> sx_Visibility x = ''declared'')"

definition inScope :: "table_schema \<Rightarrow> schema_context option \<Rightarrow> bool" where
  [go_eval]: "inScope t c \<longleftrightarrow> contextKnown c \<and> tableIdentityValid t c \<and>
     (case c of None \<Rightarrow> False | Some x \<Rightarrow> sx_Scope x = ''namespace'' \<or> tb_Name t \<in> set (sx_Tables x))"

definition contextCoverageKnown :: "schema_context option \<Rightarrow> bool" where
  [go_eval]: "contextCoverageKnown c \<longleftrightarrow> (case c of None \<Rightarrow> False | Some x \<Rightarrow> coverageKnown (sx_Coverage x))"

definition effectiveCoverage :: "schema_coverage \<Rightarrow> schema_context option \<Rightarrow> schema_coverage" where
  [go_eval]: "effectiveCoverage t c =
     (case c of
        None \<Rightarrow> \<lparr>sc_Tables = [], sc_Columns = [], sc_Indexes = [], sc_ForeignKeys = [], sc_Checks = [], sc_Identity = [], sc_Version = []\<rparr>
      | Some x \<Rightarrow>
          let both = (\<lambda>a b. if a = CoverageComplete \<and> b = CoverageComplete then CoverageComplete else CoverageUnknown); y = sx_Coverage x
          in t\<lparr>sc_Columns := both (sc_Columns t) (sc_Columns y), sc_Indexes := both (sc_Indexes t) (sc_Indexes y),
               sc_ForeignKeys := both (sc_ForeignKeys t) (sc_ForeignKeys y), sc_Checks := both (sc_Checks t) (sc_Checks y)\<rparr>)"

section \<open>Columns\<close>

definition columnDefault :: "column_schema \<Rightarrow> default_definition" where
  [go_eval]: "columnDefault c =
     \<lparr>dd_State =
        (if cs_DefaultState c = [] then (if cs_HasDefault c \<and> cs_DefaultExpression c \<noteq> [] then DefaultExpression else DefaultUnknown)
         else if cs_DefaultState c = DefaultNone
         then (if \<not> cs_HasDefault c \<and> cs_DefaultExpression c = [] then DefaultNone else DefaultUnknown)
         else if cs_DefaultState c = DefaultExpression
         then (if cs_HasDefault c \<and> cs_DefaultExpression c \<noteq> [] then DefaultExpression else DefaultUnknown)
         else DefaultUnknown),
      dd_DeclaredState = cs_DefaultState c, dd_HasDefault = cs_HasDefault c, dd_Expression = cs_DefaultExpression c,
      dd_Source = cs_DefaultSource c\<rparr>"

abbreviation default_unknown :: "column_schema \<Rightarrow> bool" where
  "default_unknown c \<equiv> dd_State (columnDefault c) = DefaultUnknown"

definition comparisonUnknown :: "gostring \<Rightarrow> gostring \<Rightarrow> gostring \<Rightarrow> diff_step" where
  [go_eval]: "comparisonUnknown table col index =
     blank_diff\<lparr>ms_Type := UnsupportedStep, ms_Table := table, ms_Column := col, ms_Index := index, ms_ComparisonUnknown := True,
       ms_Precision := AnalysisUnsupported\<rparr>"

text \<open>The flag of the planner's step says that one of its defaults is unknown.\<close>

definition diffDefault :: "gostring \<Rightarrow> column_schema \<Rightarrow> column_schema \<Rightarrow> diff_step list" where
  [go_eval]: "diffDefault table old new =
     (let a = columnDefault old; b = columnDefault new
      in if dd_State a = DefaultUnknown \<or> dd_State b = DefaultUnknown
         then [(comparisonUnknown table (cs_Name new) [])\<lparr>ms_DefaultUnknown := True, ds_CurrentDefault := Some a, ds_DesiredDefault := Some b\<rparr>]
         else if dd_State a = dd_State b \<and> dd_Expression a = dd_Expression b then []
         else [blank_diff\<lparr>ms_Type := AlterColumnDefault, ms_Table := table, ms_Column := cs_Name new, ds_CurrentDefault := Some a,
                 ds_DesiredDefault := Some b\<rparr>])"

text \<open>The keys of names that are not simple or that an earlier name already has.\<close>

fun bad_keys :: "gostring list \<Rightarrow> gostring list \<Rightarrow> gostring list" where
  "bad_keys seen [] = []"
| "bad_keys seen (n # ns) =
     (let k = name_key n in (if \<not> simpleSchemaName n \<or> k \<in> set seen then [k] else []) @ bad_keys (k # seen) ns)"

definition ambiguousColumns :: "table_schema \<Rightarrow> table_schema \<Rightarrow> gostring list" where
  [go_eval]: "ambiguousColumns a b = bad_keys [] (map cs_Name (tb_Columns a)) @ bad_keys [] (map cs_Name (tb_Columns b))"

definition blank_table :: table_schema where
  [go_eval]: "blank_table =
     \<lparr>tb_Identity = \<lparr>oi_Catalog = [], oi_Schema = [], oi_Name = [], oi_State = []\<rparr>,
      tb_Coverage = \<lparr>sc_Tables = [], sc_Columns = [], sc_Indexes = [], sc_ForeignKeys = [], sc_Checks = [], sc_Identity = [], sc_Version = []\<rparr>,
      tb_ForeignKeys = [], tb_Checks = [], tb_Name = [], tb_Columns = [], tb_Indexes = []\<rparr>"

text \<open>A map by key that is written in the order of a list keeps the last entry of each key.\<close>

definition by_key :: "('a \<Rightarrow> gostring) \<Rightarrow> 'a list \<Rightarrow> gostring \<rightharpoonup> 'a" where
  [go_eval]: "by_key f xs = map_of (rev (map (\<lambda>x. (name_key (f x), x)) xs))"

definition column_map :: "column_schema list \<Rightarrow> gostring \<rightharpoonup> column_schema" where
  [go_eval]: "column_map = by_key cs_Name"

definition index_map :: "index_schema list \<Rightarrow> gostring \<rightharpoonup> index_schema" where
  [go_eval]: "index_map = by_key ix_Name"

definition diff_column :: "gostring \<Rightarrow> column_schema option \<Rightarrow> column_schema \<Rightarrow> diff_step list" where
  [go_eval]: "diff_column table old c =
     (case old of
        None \<Rightarrow>
          (if default_unknown c then [comparisonUnknown table (cs_Name c) []] else []) @
          [blank_diff\<lparr>ms_Type := AddColumn, ms_DefaultUnknown := default_unknown c, ms_Table := table, ms_Column := cs_Name c,
             ms_ColumnType := cs_Type c, ms_Nullable := Some (cs_Nullable c), ms_HasDefault := cs_HasDefault c,
             ms_DefaultExpression := cs_DefaultExpression c, ds_DesiredDefault := Some (columnDefault c)\<rparr>]
      | Some o' \<Rightarrow>
          diffDefault table o' c @
          (if normalizeType (cs_Type o') \<noteq> normalizeType (cs_Type c)
           then [blank_diff\<lparr>ms_Type := AlterColumnType, ms_Table := table, ms_Column := cs_Name c, ms_OldType := cs_Type o', ms_NewType := cs_Type c\<rparr>]
           else []) @
          (if cs_Nullable o' \<noteq> cs_Nullable c
           then [blank_diff\<lparr>ms_Type := AlterNullability, ms_Table := table, ms_Column := cs_Name c, ms_OldType := cs_Type o', ms_NewType := cs_Type c,
                   ms_Nullable := Some (cs_Nullable c)\<rparr>]
           else []))"

definition drop_column :: "gostring \<Rightarrow> column_schema \<Rightarrow> diff_step list" where
  [go_eval]: "drop_column table c =
     (if default_unknown c then [comparisonUnknown table (cs_Name c) []] else []) @
     [blank_diff\<lparr>ms_Type := DropColumn, ms_Table := table, ms_Column := cs_Name c\<rparr>]"

section \<open>Indexes\<close>

definition knownColumns :: "gostring list \<Rightarrow> table_schema \<Rightarrow> bool" where
  [go_eval]: "knownColumns cols t \<longleftrightarrow> cols \<noteq> [] \<and> distinct cols \<and>
     list_all (\<lambda>n. simpleSchemaName n \<and> length (filter (\<lambda>c. cs_Name c = n) (tb_Columns t)) = 1) cols"

definition index_key_known :: "table_schema \<Rightarrow> index_key \<Rightarrow> bool" where
  [go_eval]: "index_key_known t k \<longleftrightarrow>
     \<not> ((ik_Column k = []) = (ik_Expression k = []) \<or> ik_Prefix k < 0 \<or> ik_Order k \<noteq> ''asc'' \<and> ik_Order k \<noteq> ''desc'' \<or>
        ik_Nulls k \<noteq> ''first'' \<and> ik_Nulls k \<noteq> ''last'' \<and> ik_Nulls k \<noteq> ''engine_default'') \<and>
     (if ik_Column k \<noteq> [] then knownColumns [ik_Column k] t else ik_Prefix k = 0)"

definition validExtendedIndex :: "index_schema \<Rightarrow> table_schema \<Rightarrow> bool" where
  [go_eval]: "validExtendedIndex i t \<longleftrightarrow>
     \<not> (\<not> simpleSchemaName (ix_Name i) \<or> ix_DefinitionUnknown i \<or> ix_Attributes i \<noteq> CoverageComplete \<or> ix_Keys i = [] \<and> ix_Columns i = [] \<or>
        ix_Method i \<noteq> ''btree'' \<or> \<not> expressionKnown (ix_Predicate i) \<or> ix_Visibility i \<noteq> ''visible'' \<and> ix_Visibility i \<noteq> ''invisible'') \<and>
     length (filter (\<lambda>v. ix_Name v = ix_Name i) (tb_Indexes t)) = 1 \<and>
     (if ix_Keys i = [] then knownColumns (ix_Columns i) t \<and> ix_Include i = []
      else let cols = filter (\<lambda>c. c \<noteq> []) (map ik_Column (ix_Keys i))
        in list_all (index_key_known t) (ix_Keys i) \<and>
           \<not> (ix_Columns i \<noteq> [] \<and> (length cols \<noteq> length (ix_Keys i) \<or> cols \<noteq> ix_Columns i)) \<and>
           \<not> (ix_Include i \<noteq> [] \<and> \<not> knownColumns (ix_Include i) t))"

definition validIndex :: "index_schema \<Rightarrow> table_schema \<Rightarrow> bool" where
  [go_eval]: "validIndex i t \<longleftrightarrow>
     (if ix_Keys i \<noteq> [] \<or> ix_Attributes i \<noteq> [] \<or> ix_Method i \<noteq> [] \<or> ed_State (ix_Predicate i) \<noteq> [] \<or> ed_SQL (ix_Predicate i) \<noteq> [] \<or>
         ix_Visibility i \<noteq> [] \<or> ix_Include i \<noteq> []
      then validExtendedIndex i t
      else simpleSchemaName (ix_Name i) \<and> \<not> ix_DefinitionUnknown i \<and> ix_Columns i \<noteq> [] \<and>
        length (filter (\<lambda>v. name_key (ix_Name v) = name_key (ix_Name i)) (tb_Indexes t)) = 1 \<and>
        distinct (ix_Columns i) \<and>
        list_all (\<lambda>c. simpleSchemaName c \<and> length (filter (\<lambda>col. name_key (cs_Name col) = name_key c) (tb_Columns t)) = 1 \<and>
          column_map (tb_Columns t) c \<noteq> None) (ix_Columns i))"

definition equalIndex :: "index_schema \<Rightarrow> index_schema \<Rightarrow> bool" where
  [go_eval]: "equalIndex a b \<longleftrightarrow>
     ix_Unique a = ix_Unique b \<and> ix_Columns a = ix_Columns b \<and> ix_Keys a = ix_Keys b \<and> ix_Predicate a = ix_Predicate b \<and>
     ix_Method a = ix_Method b \<and> ix_Include a = ix_Include b \<and> ix_Visibility a = ix_Visibility b \<and> ix_Attributes a = ix_Attributes b"

definition uniqueIndexName :: "index_schema \<Rightarrow> table_schema \<Rightarrow> bool" where
  [go_eval]: "uniqueIndexName i t \<longleftrightarrow> simpleSchemaName (ix_Name i) \<and>
     length (filter (\<lambda>j. name_key (ix_Name j) = ix_Name i) (tb_Indexes t)) = 1"

definition raw_differs :: "index_schema \<Rightarrow> index_schema \<Rightarrow> bool" where
  [go_eval]: "raw_differs a b \<longleftrightarrow> ix_RawDefinition a \<noteq> [] \<and> ix_RawDefinition b \<noteq> [] \<and> ix_RawDefinition a \<noteq> ix_RawDefinition b"

definition diff_index :: "table_schema \<Rightarrow> table_schema \<Rightarrow> index_schema option \<Rightarrow> index_schema \<Rightarrow> diff_step list" where
  [go_eval]: "diff_index current desired old i =
     (let marker = (comparisonUnknown (tb_Name desired) [] (ix_Name i))\<lparr>ds_CurrentIndex := old, ds_DesiredIndex := Some i\<rparr>;
          add = blank_diff\<lparr>ms_Type := AddIndex, ms_Table := tb_Name desired, ms_Index := ix_Name i, ms_Concurrent := ix_Concurrent i,
                  ds_DesiredIndex := Some i\<rparr>
      in if \<not> validIndex i desired \<or> (case old of None \<Rightarrow> False | Some x \<Rightarrow> \<not> validIndex x current)
         then marker # (if old = None \<and> uniqueIndexName i desired then [add] else [])
         else case old of
           None \<Rightarrow> [add]
         | Some x \<Rightarrow>
             if \<not> equalIndex x i then [add\<lparr>ms_Type := AlterIndex, ds_CurrentIndex := Some x\<rparr>]
             else if raw_differs x i then [marker] else [])"

definition drop_index :: "table_schema \<Rightarrow> table_schema \<Rightarrow> index_schema \<Rightarrow> diff_step list" where
  [go_eval]: "drop_index current desired i =
     (let marker = (comparisonUnknown (tb_Name desired) [] (ix_Name i))\<lparr>ds_CurrentIndex := Some i\<rparr>;
          drop = blank_diff\<lparr>ms_Type := DropIndex, ms_Table := tb_Name desired, ms_Index := ix_Name i, ds_CurrentIndex := Some i\<rparr>
      in if \<not> validIndex i current then marker # (if uniqueIndexName i current then [drop] else []) else [drop])"

section \<open>Tables\<close>

definition diffTable :: "table_schema \<Rightarrow> table_schema \<Rightarrow> diff_step list" where
  [go_eval]: "diffTable current desired =
     (let bad = ambiguousColumns current desired; fair = filter (\<lambda>c. name_key (cs_Name c) \<notin> set bad)
      in (if bad \<noteq> [] then [comparisonUnknown (tb_Name desired) [] []] else []) @
         concat (map (\<lambda>c. diff_column (tb_Name desired) (column_map (tb_Columns current) (name_key (cs_Name c))) c) (fair (tb_Columns desired))) @
         concat (map (\<lambda>c. if column_map (tb_Columns desired) (name_key (cs_Name c)) = None then drop_column (tb_Name desired) c else [])
           (fair (tb_Columns current))) @
         concat (map (\<lambda>i. diff_index current desired (index_map (tb_Indexes current) (name_key (ix_Name i))) i) (tb_Indexes desired)) @
         concat (map (\<lambda>i. if index_map (tb_Indexes desired) (name_key (ix_Name i)) = None then drop_index current desired i else [])
           (tb_Indexes current)))"

definition tableUnknown :: "table_schema option \<Rightarrow> table_schema option \<Rightarrow> diff_step" where
  [go_eval]: "tableUnknown a b =
     (comparisonUnknown [] [] [])\<lparr>ds_CurrentTable := a, ds_DesiredTable := b,
        ms_Table := (case b of Some t \<Rightarrow> tb_Name t | None \<Rightarrow> (case a of Some t \<Rightarrow> tb_Name t | None \<Rightarrow> []))\<rparr>"

definition tableComparisonDiagnostics :: "table_schema \<Rightarrow> diff_step list" where
  [go_eval]: "tableComparisonDiagnostics t =
     (if ambiguousColumns t blank_table \<noteq> [] then [comparisonUnknown (tb_Name t) [] []] else []) @
     concat (map (\<lambda>c. if default_unknown c then [comparisonUnknown (tb_Name t) (cs_Name c) []] else []) (tb_Columns t)) @
     concat (map (\<lambda>i. if \<not> validIndex i t then [comparisonUnknown (tb_Name t) [] (ix_Name i)] else []) (tb_Indexes t))"

section \<open>Constraints\<close>

definition reference_actions :: "gostring list" where
  [go_eval]: "reference_actions = [''no_action'', ''restrict'', ''cascade'', ''set_null'', ''set_default'']"

definition validFK :: "foreign_key \<Rightarrow> table_schema \<Rightarrow> bool" where
  [go_eval]: "validFK f t \<longleftrightarrow>
     (let r = fk_Reference f; i = tb_Identity t
      in (fk_Definition f = CoverageComplete \<or> fk_Definition f = CoveragePartial) \<and> simpleSchemaName (fk_Name f) \<and>
         knownColumns (fk_Columns f) t \<and> identityKnown r \<and> length (fk_Columns f) = length (fk_ReferencedColumns f) \<and>
         \<not> (identityKnown i \<and> oi_Catalog r \<noteq> oi_Catalog i) \<and>
         \<not> (oi_Catalog r = oi_Catalog i \<and> oi_Schema r = oi_Schema i \<and> oi_Name r = tb_Name t \<and> \<not> knownColumns (fk_ReferencedColumns f) t) \<and>
         list_all simpleSchemaName (fk_ReferencedColumns f) \<and> distinct (fk_ReferencedColumns f) \<and>
         fk_OnUpdate f \<in> set reference_actions \<and> fk_OnDelete f \<in> set reference_actions \<and>
         fk_Match f \<in> {''simple'', ''full'', ''partial''} \<and> fk_Validation f \<in> {''validated'', ''not_validated'', ''unknown''} \<and>
         fk_Enforcement f \<in> {''enforced'', ''not_enforced''} \<and> fk_Deferrability f \<in> {''not_deferrable'', ''immediate'', ''deferred''})"

definition validCheck :: "check_schema \<Rightarrow> bool" where
  [go_eval]: "validCheck c \<longleftrightarrow>
     (ck_Definition c = CoverageComplete \<or> ck_Definition c = CoveragePartial) \<and> simpleSchemaName (ck_Name c) \<and>
     ck_Inheritance c \<in> {''inheritable'', ''no_inherit'', ''not_applicable''} \<and> ck_Expression c \<noteq> [] \<and>
     ck_Validation c \<in> {''validated'', ''not_validated'', ''unknown''} \<and> ck_Enforcement c \<in> {''enforced'', ''not_enforced''}"

definition constraint_names :: "table_schema \<Rightarrow> gostring list" where
  [go_eval]: "constraint_names t = map fk_Name (tb_ForeignKeys t) @ map ck_Name (tb_Checks t)"

definition ambiguousConstraints :: "table_schema \<Rightarrow> bool" where
  [go_eval]: "ambiguousConstraints t \<longleftrightarrow> \<not> distinct (constraint_names t)"

definition constraintNameCount :: "table_schema \<Rightarrow> gostring \<Rightarrow> nat" where
  [go_eval]: "constraintNameCount t name = length (filter (\<lambda>n. n = name) (constraint_names t))"

definition equalForeignKey :: "foreign_key \<Rightarrow> foreign_key \<Rightarrow> bool" where
  [go_eval]: "equalForeignKey x y \<longleftrightarrow>
     (let v = (\<lambda>f. if fk_Validation x = ''unknown'' \<or> fk_Validation y = ''unknown'' then f\<lparr>fk_Validation := []\<rparr> else f)
      in (v x)\<lparr>fk_Definition := []\<rparr> = (v y)\<lparr>fk_Definition := []\<rparr>)"

definition equalCheck :: "check_schema \<Rightarrow> check_schema \<Rightarrow> bool" where
  [go_eval]: "equalCheck x y \<longleftrightarrow>
     (let v = (\<lambda>c. if ck_Validation x = ''unknown'' \<or> ck_Validation y = ''unknown'' then c\<lparr>ck_Validation := []\<rparr> else c)
      in (v x)\<lparr>ck_Definition := []\<rparr> = (v y)\<lparr>ck_Definition := []\<rparr>)"

text \<open>A named constraint with whether it is valid and, without its raw text, what is compared.\<close>

type_synonym 'v constraint = "gostring \<times> bool \<times> 'v"

definition constraint_name :: "'v constraint \<Rightarrow> gostring" where
  [go_eval]: "constraint_name c = fst c"

text \<open>The first entry of each key.\<close>

function first_by :: "('a \<Rightarrow> 'k) \<Rightarrow> 'a list \<Rightarrow> 'a list" where
  "first_by f [] = []"
| "first_by f (x # xs) = x # first_by f (filter (\<lambda>y. f y \<noteq> f x) xs)"
  by pat_completeness auto
termination
  by (relation "measure (\<lambda>(f, xs). length xs)") (auto simp: le_imp_less_Suc)

definition diff_constraint ::
  "('v \<Rightarrow> 'v \<Rightarrow> bool) \<Rightarrow> table_schema \<Rightarrow> table_schema \<Rightarrow> bool \<Rightarrow> gostring \<Rightarrow> gostring \<Rightarrow> step_type \<Rightarrow> step_type \<Rightarrow> step_type \<Rightarrow>
     'v constraint list \<Rightarrow> 'v constraint list \<Rightarrow> gostring \<Rightarrow> diff_step list" where
  [go_eval]: "diff_constraint eq a b scope ac bc add drp alt old new n =
     (let x = filter (\<lambda>c. constraint_name c = n) old; y = filter (\<lambda>c. constraint_name c = n) new;
          s = blank_diff\<lparr>ds_Constraint := n, ms_Table := tb_Name b, ds_CurrentTable := Some a, ds_DesiredTable := Some b\<rparr>;
          unknown = s\<lparr>ms_Type := UnsupportedStep, ms_ComparisonUnknown := True\<rparr>;
          invalid = (length x = 1 \<and> \<not> fst (snd (hd x)) \<or> length y = 1 \<and> \<not> fst (snd (hd y)));
          ambiguous = (length x > 1 \<or> length y > 1 \<or> \<not> simpleSchemaName n \<or> constraintNameCount a n > 1 \<or> constraintNameCount b n > 1)
      in if invalid \<and> \<not> ambiguous \<and> (x = [] \<and> ac = CoverageComplete \<and> scope \<or> y = [] \<and> bc = CoverageComplete \<and> scope)
         then [unknown, s\<lparr>ms_Type := (if x = [] then add else drp)\<rparr>]
         else if ambiguous \<or> invalid then [unknown]
         else if x = [] then (if ac \<noteq> CoverageComplete \<or> \<not> scope then [unknown] else [s\<lparr>ms_Type := add\<rparr>])
         else if y = [] then (if bc \<noteq> CoverageComplete \<or> \<not> scope then [unknown] else [s\<lparr>ms_Type := drp\<rparr>])
         else if \<not> eq (snd (snd (hd x))) (snd (snd (hd y))) then [s\<lparr>ms_Type := alt\<rparr>]
         else [])"

definition compare_constraints ::
  "('v \<Rightarrow> 'v \<Rightarrow> bool) \<Rightarrow> table_schema \<Rightarrow> table_schema \<Rightarrow> bool \<Rightarrow> gostring \<Rightarrow> gostring \<Rightarrow> step_type \<Rightarrow> step_type \<Rightarrow> step_type \<Rightarrow>
     'v constraint list \<Rightarrow> 'v constraint list \<Rightarrow> diff_step list" where
  [go_eval]: "compare_constraints eq a b scope ac bc add drp alt old new =
     concat (map (diff_constraint eq a b scope ac bc add drp alt old new) (first_by id (map constraint_name (new @ old))))"

definition fk_items :: "table_schema \<Rightarrow> foreign_key constraint list" where
  [go_eval]: "fk_items t = map (\<lambda>f. (fk_Name f, validFK f t, f\<lparr>fk_RawDefinition := []\<rparr>)) (tb_ForeignKeys t)"

definition check_items :: "table_schema \<Rightarrow> check_schema constraint list" where
  [go_eval]: "check_items t = map (\<lambda>c. (ck_Name c, validCheck c, c\<lparr>ck_RawDefinition := []\<rparr>)) (tb_Checks t)"

definition fk_open :: "foreign_key \<Rightarrow> bool" where
  [go_eval]: "fk_open f \<longleftrightarrow> fk_Definition f \<noteq> CoverageComplete \<or> fk_Validation f = ''unknown''"

definition check_open :: "check_schema \<Rightarrow> bool" where
  [go_eval]: "check_open c \<longleftrightarrow> ck_Definition c \<noteq> CoverageComplete \<or> ck_Validation c = ''unknown''"

definition diffConstraints :: "table_schema \<Rightarrow> table_schema \<Rightarrow> bool \<Rightarrow> schema_coverage \<Rightarrow> schema_coverage \<Rightarrow> diff_step list" where
  [go_eval]: "diffConstraints a b scope aCoverage bCoverage =
     concat (map (\<lambda>t. map (\<lambda>f. tableUnknown (Some a) (Some b)) (filter fk_open (tb_ForeignKeys t)) @
       map (\<lambda>c. tableUnknown (Some a) (Some b)) (filter check_open (tb_Checks t))) [a, b]) @
     compare_constraints equalForeignKey a b scope (sc_ForeignKeys aCoverage) (sc_ForeignKeys bCoverage) AddForeignKey DropForeignKey AlterForeignKey
       (fk_items a) (fk_items b) @
     compare_constraints equalCheck a b scope (sc_Checks aCoverage) (sc_Checks bCoverage) AddCheck DropCheck AlterCheck
       (check_items a) (check_items b)"

section \<open>Schemas compared\<close>

definition extendedTableDiagnostics :: "table_schema \<Rightarrow> diff_step list" where
  [go_eval]: "extendedTableDiagnostics t =
     (let unknown = tableUnknown None (Some t)
      in tableComparisonDiagnostics t @
         (if ambiguousConstraints t then [unknown] else []) @
         map (\<lambda>i. unknown) (filter (\<lambda>i. ix_Attributes i \<noteq> CoverageComplete) (tb_Indexes t)) @
         (if \<not> identityKnown (tb_Identity t) \<or> \<not> coverageKnown (tb_Coverage t) then [unknown] else []) @
         map (\<lambda>f. unknown) (filter (\<lambda>f. \<not> validFK f t \<or> fk_open f) (tb_ForeignKeys t)) @
         map (\<lambda>c. unknown) (filter (\<lambda>c. \<not> validCheck c \<or> check_open c) (tb_Checks t)))"

text \<open>An entry that only one side has is a difference when the other side's collection is known to be complete.\<close>

definition settle_step :: "table_schema \<Rightarrow> table_schema \<Rightarrow> bool \<Rightarrow> schema_coverage \<Rightarrow> schema_coverage \<Rightarrow> diff_step \<Rightarrow> diff_step" where
  [go_eval]: "settle_step prev new scope ac bc s =
     (let absent = (case ms_Type s of
                      AddColumn \<Rightarrow> sc_Columns ac \<noteq> CoverageComplete
                    | DropColumn \<Rightarrow> sc_Columns bc \<noteq> CoverageComplete
                    | AddIndex \<Rightarrow> sc_Indexes ac \<noteq> CoverageComplete
                    | DropIndex \<Rightarrow> sc_Indexes bc \<noteq> CoverageComplete
                    | _ \<Rightarrow> False);
          s = s\<lparr>ds_CurrentTable := Some prev, ds_DesiredTable := Some new\<rparr>
      in if absent \<or> \<not> scope \<and> ms_Type s \<in> {AddColumn, DropColumn, AddIndex, DropIndex}
         then s\<lparr>ms_ComparisonUnknown := True, ms_Type := UnsupportedStep\<rparr> else s)"

definition diff_matched :: "schema_context option \<Rightarrow> schema_context option \<Rightarrow> bool \<Rightarrow> table_schema \<Rightarrow> table_schema \<Rightarrow> diff_step list" where
  [go_eval]: "diff_matched cc dc scope prev new =
     (let known = (inScope prev cc \<and> inScope new dc);
          legacy = (tb_Identity prev = tb_Identity blank_table \<and> tb_Identity new = tb_Identity blank_table);
          unknown = tableUnknown (Some prev) (Some new);
          ac = effectiveCoverage (tb_Coverage prev) cc; bc = effectiveCoverage (tb_Coverage new) dc
      in if \<not> known \<and> \<not> legacy then [unknown]
         else (if \<not> known \<or> \<not> scope \<or> \<not> coverageKnown (tb_Coverage prev) \<or> \<not> coverageKnown (tb_Coverage new) then [unknown] else []) @
           map (\<lambda>i. unknown) (filter (\<lambda>i. ix_Attributes i \<noteq> CoverageComplete) (tb_Indexes prev @ tb_Indexes new)) @
           (if ambiguousConstraints prev \<or> ambiguousConstraints new then [unknown] else []) @
           map (settle_step prev new scope ac bc) (diffTable prev new) @
           diffConstraints prev new scope ac bc)"

definition same_key :: "table_schema \<Rightarrow> table_schema list \<Rightarrow> table_schema list" where
  [go_eval]: "same_key t ts = filter (\<lambda>x. objectTableKey x = objectTableKey t) ts"

definition diff_desired :: "db_schema \<Rightarrow> db_schema \<Rightarrow> bool \<Rightarrow> table_schema \<Rightarrow> diff_step list" where
  [go_eval]: "diff_desired current desired scope new =
     (let old = same_key new (sm_Tables current)
      in if length (same_key new (sm_Tables desired)) \<noteq> 1 \<or> length old > 1 \<or> \<not> simpleSchemaName (tb_Name new) then [tableUnknown None (Some new)]
         else case old of
           prev # _ \<Rightarrow> diff_matched (sm_Context current) (sm_Context desired) scope prev new
         | [] \<Rightarrow>
             let s = blank_diff\<lparr>ms_Type := AddTable, ms_Table := tb_Name new, ds_DesiredTable := Some new\<rparr>
             in (if \<not> scope \<or> \<not> inventoryComplete (sm_Context current) \<or> \<not> inventoryComplete (sm_Context desired) \<or>
                    \<not> inScope new (sm_Context desired)
                 then s\<lparr>ms_Type := UnsupportedStep, ms_ComparisonUnknown := True\<rparr> else s) # extendedTableDiagnostics new)"

definition diff_dropped :: "db_schema \<Rightarrow> db_schema \<Rightarrow> bool \<Rightarrow> table_schema \<Rightarrow> diff_step list" where
  [go_eval]: "diff_dropped current desired scope prev =
     (let s = blank_diff\<lparr>ms_Type := DropTable, ms_Table := tb_Name prev, ds_CurrentTable := Some prev\<rparr>
      in (if length (same_key prev (sm_Tables current)) \<noteq> 1 \<or> \<not> scope \<or> \<not> inventoryComplete (sm_Context desired) \<or>
             \<not> inventoryComplete (sm_Context current) \<or> \<not> inScope prev (sm_Context current)
          then s\<lparr>ms_Type := UnsupportedStep, ms_ComparisonUnknown := True\<rparr> else s) # extendedTableDiagnostics prev)"

definition diff_context :: "schema_context option \<Rightarrow> schema_context option \<Rightarrow> diff_step list" where
  [go_eval]: "diff_context a b =
     (if \<not> sameScope a b \<or> \<not> inventoryComplete a \<or> \<not> inventoryComplete b \<or> \<not> contextCoverageKnown a \<or> \<not> contextCoverageKnown b
      then [comparisonUnknown [] [] []] else []) @
     (case (a, b) of
        (Some x, Some y) \<Rightarrow>
          if contextKnown a \<and> contextKnown b \<and> (sx_Catalog x \<noteq> sx_Catalog y \<or> sx_Schema x \<noteq> sx_Schema y \<or> sx_Dialect x \<noteq> sx_Dialect y)
          then [blank_diff\<lparr>ms_Type := SchemaIdentityDifference\<rparr>] else []
      | _ \<Rightarrow> [])"

definition compareExtendedSchemas :: "db_schema \<Rightarrow> db_schema \<Rightarrow> diff_step list" where
  [go_eval]: "compareExtendedSchemas current desired =
     (let scope = sameScope (sm_Context current) (sm_Context desired)
      in diff_context (sm_Context current) (sm_Context desired) @
         concat (map (diff_desired current desired scope) (first_by objectTableKey (sm_Tables desired))) @
         concat (map (diff_dropped current desired scope)
           (first_by objectTableKey (filter (\<lambda>t. same_key t (sm_Tables desired) = []) (sm_Tables current)))))"

text \<open>The plan of the steps; the copies of the schemas and the display of what the database supports are not part of it.\<close>

definition DiffSchemas :: "db_schema \<Rightarrow> db_schema \<Rightarrow> migration_plan" where
  [go_eval]: "DiffSchemas current desired = PlanSteps (map migration_step.truncate (compareExtendedSchemas current desired))"

definition table_complete :: "schema_context option \<Rightarrow> table_schema \<Rightarrow> bool" where
  [go_eval]: "table_complete c t \<longleftrightarrow>
     inScope t c \<and> coverageKnown (tb_Coverage t) \<and> ambiguousColumns t blank_table = [] \<and> \<not> ambiguousConstraints t \<and>
     list_all (\<lambda>col. \<not> default_unknown col) (tb_Columns t) \<and>
     list_all (\<lambda>i. ix_Attributes i = CoverageComplete \<and> validIndex i t) (tb_Indexes t) \<and>
     distinct (map fk_Name (tb_ForeignKeys t)) \<and> list_all (\<lambda>f. validFK f t \<and> \<not> fk_open f) (tb_ForeignKeys t) \<and>
     distinct (map ck_Name (tb_Checks t)) \<and> list_all (\<lambda>k. validCheck k \<and> \<not> check_open k) (tb_Checks t)"

definition schemaDefinitionComplete :: "db_schema \<Rightarrow> bool" where
  [go_eval]: "schemaDefinitionComplete s \<longleftrightarrow>
     inventoryComplete (sm_Context s) \<and> contextCoverageKnown (sm_Context s) \<and> distinct (map objectTableKey (sm_Tables s)) \<and>
     list_all (table_complete (sm_Context s)) (sm_Tables s)"

section \<open>Names that are their own keys\<close>

lemma simple_bytes: "simpleSchemaName s \<Longrightarrow> list_all (\<lambda>d. simple_byte d \<or> is_digit d) s"
  by (auto simp: simpleSchemaName_def split: list.splits)

lemma simple_solid: "simple_byte d \<or> is_digit d \<Longrightarrow> solid d \<and> lower_byte d = d"
proof -
  assume "simple_byte d \<or> is_digit d"
  then have "97 \<le> byte d \<and> byte d \<le> 122 \<or> byte d = 95 \<or> 48 \<le> byte d \<and> byte d \<le> 57"
    by (auto simp: simple_byte_def is_lower_def is_digit_def byte_def)
  then show ?thesis by (auto simp: solid_def ascii_space_def lower_byte_def is_upper_def)
qed

lemma simple_key: "simpleSchemaName s \<Longrightarrow> name_key s = s"
proof -
  assume "simpleSchemaName s"
  then have "s \<noteq> []" "\<forall>d \<in> set s. solid d \<and> lower_byte d = d"
    using simple_bytes [of s] simple_solid by (auto simp: simpleSchemaName_def list_all_iff)
  then show ?thesis
    by (simp add: name_key_def trim_space_ends to_lower_def map_idI)
qed

lemma bad_keys_nil:
  "bad_keys seen ns = [] \<longleftrightarrow> list_all simpleSchemaName ns \<and> distinct ns \<and> set ns \<inter> set seen = {}"
proof (induction ns arbitrary: seen)
  case (Cons n ns)
  show ?case
  proof (cases "simpleSchemaName n")
    case True
    then show ?thesis using Cons.IH [of "n # seen"] by (auto simp: Let_def simple_key)
  next
    case False
    then show ?thesis by (simp add: Let_def)
  qed
qed simp

lemma ambiguousColumns_nil:
  "ambiguousColumns a b = [] \<longleftrightarrow> ambiguousColumns a blank_table = [] \<and> ambiguousColumns b blank_table = []"
  by (simp add: ambiguousColumns_def blank_table_def)

lemma fair_columns:
  "ambiguousColumns t blank_table = [] \<longleftrightarrow> list_all (\<lambda>c. simpleSchemaName (cs_Name c)) (tb_Columns t) \<and> distinct (map cs_Name (tb_Columns t))"
  by (simp add: ambiguousColumns_def blank_table_def bad_keys_nil list.pred_map comp_def)

lemma by_key_Some:
  assumes "distinct (map (name_key \<circ> f) xs)"
  shows "by_key f xs k = Some x \<longleftrightarrow> x \<in> set xs \<and> name_key (f x) = k"
proof -
  have "distinct (map fst (rev (map (\<lambda>x. (name_key (f x), x)) xs)))"
    using assms by (simp add: rev_map [symmetric] comp_def)
  then show ?thesis by (auto simp: by_key_def)
qed

lemma by_key_None: "by_key f xs k = None \<longleftrightarrow> k \<notin> (name_key \<circ> f) ` set xs"
  by (auto simp: by_key_def map_of_eq_None_iff image_image)

section \<open>What is the same\<close>

definition same_entries :: "('a \<Rightarrow> 'k) \<Rightarrow> ('a \<Rightarrow> 'a \<Rightarrow> bool) \<Rightarrow> 'a list \<Rightarrow> 'a list \<Rightarrow> bool" where
  "same_entries name same xs ys \<longleftrightarrow>
     name ` set xs = name ` set ys \<and> (\<forall>x \<in> set xs. \<forall>y \<in> set ys. name x = name y \<longrightarrow> same x y)"

definition same_column :: "column_schema \<Rightarrow> column_schema \<Rightarrow> bool" where
  "same_column c d \<longleftrightarrow> normalizeType (cs_Type c) = normalizeType (cs_Type d) \<and> cs_Nullable c = cs_Nullable d \<and>
     dd_State (columnDefault c) = dd_State (columnDefault d) \<and> dd_Expression (columnDefault c) = dd_Expression (columnDefault d)"

definition same_index :: "index_schema \<Rightarrow> index_schema \<Rightarrow> bool" where
  "same_index i j \<longleftrightarrow> equalIndex i j \<and> \<not> raw_differs i j"

definition same_foreign_key :: "foreign_key \<Rightarrow> foreign_key \<Rightarrow> bool" where
  "same_foreign_key f g \<longleftrightarrow> f\<lparr>fk_RawDefinition := []\<rparr> = g\<lparr>fk_RawDefinition := []\<rparr>"

definition same_check :: "check_schema \<Rightarrow> check_schema \<Rightarrow> bool" where
  "same_check c k \<longleftrightarrow> c\<lparr>ck_RawDefinition := []\<rparr> = k\<lparr>ck_RawDefinition := []\<rparr>"

definition same_table :: "table_schema \<Rightarrow> table_schema \<Rightarrow> bool" where
  "same_table p n \<longleftrightarrow>
     same_entries cs_Name same_column (tb_Columns p) (tb_Columns n) \<and> same_entries ix_Name same_index (tb_Indexes p) (tb_Indexes n) \<and>
     same_entries fk_Name same_foreign_key (tb_ForeignKeys p) (tb_ForeignKeys n) \<and> same_entries ck_Name same_check (tb_Checks p) (tb_Checks n)"

section \<open>Columns and indexes\<close>

lemma diff_column_nil:
  "diff_column t old c = [] \<longleftrightarrow> (\<exists>x. old = Some x \<and> \<not> default_unknown x \<and> \<not> default_unknown c \<and> same_column x c)"
  by (auto simp: diff_column_def diffDefault_def same_column_def Let_def split: option.splits if_splits)

lemma drop_column_nonempty [simp]: "drop_column t c \<noteq> []"
  by (simp add: drop_column_def)

lemma diff_index_nil:
  "diff_index p n old i = [] \<longleftrightarrow> (\<exists>x. old = Some x \<and> validIndex i n \<and> validIndex x p \<and> same_index x i)"
  by (auto simp: diff_index_def same_index_def Let_def split: option.splits if_splits)

lemma drop_index_nonempty [simp]: "drop_index p n i \<noteq> []"
  by (simp add: drop_index_def Let_def)

text \<open>One entry of a list for each of the other, where names are not repeated.\<close>

lemma same_entries_iff:
  assumes "distinct (map f xs)"
  shows "(\<forall>y \<in> set ys. \<exists>x \<in> set xs. f x = f y \<and> P x y) \<and> (\<forall>x \<in> set xs. f x \<in> f ` set ys) \<longleftrightarrow> same_entries f P xs ys"
proof
  assume l: "(\<forall>y \<in> set ys. \<exists>x \<in> set xs. f x = f y \<and> P x y) \<and> (\<forall>x \<in> set xs. f x \<in> f ` set ys)"
  have "P x y" if "x \<in> set xs" "y \<in> set ys" "f x = f y" for x y
    using l that assms by (metis distinct_map inj_onD)
  moreover have "f ` set xs = f ` set ys"
  proof
    show "f ` set xs \<subseteq> f ` set ys" using l by auto
    show "f ` set ys \<subseteq> f ` set xs"
    proof
      fix v assume "v \<in> f ` set ys"
      then obtain y where "y \<in> set ys" "v = f y" by auto
      then show "v \<in> f ` set xs" using l by (metis imageI)
    qed
  qed
  ultimately show "same_entries f P xs ys" by (simp add: same_entries_def)
next
  assume e: "same_entries f P xs ys"
  have "\<exists>x \<in> set xs. f x = f y \<and> P x y" if y: "y \<in> set ys" for y
  proof -
    have "f y \<in> f ` set xs" using e y by (simp add: same_entries_def)
    then obtain x where "x \<in> set xs" "f x = f y" by auto
    then show ?thesis using e y by (auto simp: same_entries_def)
  qed
  then show "(\<forall>y \<in> set ys. \<exists>x \<in> set xs. f x = f y \<and> P x y) \<and> (\<forall>x \<in> set xs. f x \<in> f ` set ys)"
    using e by (auto simp: same_entries_def)
qed

lemma same_entries_split:
  "same_entries f (\<lambda>x y. Q x \<and> R y \<and> P x y) xs ys \<longleftrightarrow> list_all Q xs \<and> list_all R ys \<and> same_entries f P xs ys"
proof
  assume e: "same_entries f (\<lambda>x y. Q x \<and> R y \<and> P x y) xs ys"
  have "Q x" if "x \<in> set xs" for x
  proof -
    have "f x \<in> f ` set ys" using e that by (auto simp: same_entries_def)
    then show ?thesis using e that by (auto simp: same_entries_def)
  qed
  moreover have "R y" if "y \<in> set ys" for y
  proof -
    have "f y \<in> f ` set xs" using e that by (simp add: same_entries_def)
    then obtain x where "x \<in> set xs" "f x = f y" by auto
    then show ?thesis using e that by (auto simp: same_entries_def)
  qed
  ultimately show "list_all Q xs \<and> list_all R ys \<and> same_entries f P xs ys"
    using e by (auto simp: same_entries_def list_all_iff)
qed (auto simp: same_entries_def list_all_iff)

lemma distinct_keys:
  assumes "list_all (\<lambda>x. simpleSchemaName (f x)) xs"
  shows "distinct (map (name_key \<circ> f) xs) = distinct (map f xs)"
proof -
  have "map (name_key \<circ> f) xs = map f xs" using assms by (auto simp: list_all_iff simple_key)
  then show ?thesis by metis
qed

lemma counted_once:
  assumes "\<forall>x \<in> set xs. length (filter (\<lambda>v. f v = f x) xs) = 1"
  shows "distinct (map f xs)"
  using assms
proof (induction xs)
  case (Cons x xs)
  have no: "filter (\<lambda>v. f v = f x) xs = []" using Cons.prems by auto
  then have "f x \<notin> f ` set xs" by (auto simp: filter_empty_conv image_iff)
  moreover have "length (filter (\<lambda>v. f v = f y) xs) = 1" if "y \<in> set xs" for y
    using Cons.prems that no by (auto simp: filter_empty_conv split: if_splits)
  ultimately show ?case using Cons.IH by auto
qed simp

lemma valid_index_name: "validIndex i t \<Longrightarrow> simpleSchemaName (ix_Name i)"
  by (auto simp: validIndex_def validExtendedIndex_def split: if_splits)

lemma valid_index_once:
  assumes "validIndex i t" "ix_Attributes i = CoverageComplete"
  shows "length (filter (\<lambda>v. ix_Name v = ix_Name i) (tb_Indexes t)) = 1"
  using assms by (auto simp: validIndex_def validExtendedIndex_def split: if_splits)

lemma valid_indexes:
  assumes "list_all (\<lambda>i. ix_Attributes i = CoverageComplete \<and> validIndex i t) (tb_Indexes t)"
  shows "list_all (\<lambda>i. simpleSchemaName (ix_Name i)) (tb_Indexes t)" "distinct (map ix_Name (tb_Indexes t))"
proof -
  show "list_all (\<lambda>i. simpleSchemaName (ix_Name i)) (tb_Indexes t)"
    using assms valid_index_name by (auto simp: list_all_iff)
  show "distinct (map ix_Name (tb_Indexes t))"
    using assms valid_index_once by (intro counted_once) (simp add: list_all_iff)
qed

definition known_columns :: "table_schema \<Rightarrow> bool" where
  "known_columns t \<longleftrightarrow> ambiguousColumns t blank_table = [] \<and> list_all (\<lambda>c. \<not> default_unknown c) (tb_Columns t)"

definition known_indexes :: "table_schema \<Rightarrow> bool" where
  "known_indexes t \<longleftrightarrow> list_all (\<lambda>i. validIndex i t) (tb_Indexes t)"

lemma columns_nil:
  assumes "ambiguousColumns p blank_table = []" "ambiguousColumns n blank_table = []"
  shows "(\<forall>c \<in> set (tb_Columns n). diff_column t (column_map (tb_Columns p) (name_key (cs_Name c))) c = []) \<and>
     (\<forall>c \<in> set (tb_Columns p). column_map (tb_Columns n) (name_key (cs_Name c)) \<noteq> None) \<longleftrightarrow>
     known_columns p \<and> known_columns n \<and> same_entries cs_Name same_column (tb_Columns p) (tb_Columns n)"
proof -
  have fair: "list_all (\<lambda>c. simpleSchemaName (cs_Name c)) (tb_Columns p)" "distinct (map cs_Name (tb_Columns p))"
    "list_all (\<lambda>c. simpleSchemaName (cs_Name c)) (tb_Columns n)"
    using assms by (simp_all add: fair_columns)
  have find: "column_map (tb_Columns p) k = Some x \<longleftrightarrow> x \<in> set (tb_Columns p) \<and> name_key (cs_Name x) = k" for k x
    using by_key_Some [of cs_Name "tb_Columns p"] fair(1,2) by (simp add: column_map_def distinct_keys)
  have keys: "name_key (cs_Name x) = cs_Name x" if "x \<in> set (tb_Columns p) \<or> x \<in> set (tb_Columns n)" for x
    using fair that simple_key by (auto simp: list_all_iff)
  have "(\<forall>c \<in> set (tb_Columns n). diff_column t (column_map (tb_Columns p) (name_key (cs_Name c))) c = []) \<longleftrightarrow>
      (\<forall>c \<in> set (tb_Columns n). \<exists>x \<in> set (tb_Columns p). cs_Name x = cs_Name c \<and> \<not> default_unknown x \<and> \<not> default_unknown c \<and> same_column x c)"
    by (intro ball_cong refl) (auto simp: diff_column_nil find keys)
  moreover have "(\<forall>c \<in> set (tb_Columns p). column_map (tb_Columns n) (name_key (cs_Name c)) \<noteq> None) \<longleftrightarrow>
      (\<forall>c \<in> set (tb_Columns p). cs_Name c \<in> cs_Name ` set (tb_Columns n))"
    by (intro ball_cong refl) (auto simp: column_map_def by_key_None keys image_iff)
  ultimately show ?thesis
    using same_entries_iff [OF fair(2), of "tb_Columns n" "\<lambda>x c. \<not> default_unknown x \<and> \<not> default_unknown c \<and> same_column x c"] assms
    by (simp add: same_entries_split known_columns_def)
qed

lemma indexes_nil:
  assumes complete: "list_all (\<lambda>i. ix_Attributes i = CoverageComplete) (tb_Indexes p)" "list_all (\<lambda>i. ix_Attributes i = CoverageComplete) (tb_Indexes n)"
    and keys: "distinct (map (name_key \<circ> ix_Name) (tb_Indexes p))"
  shows "(\<forall>i \<in> set (tb_Indexes n). diff_index p n (index_map (tb_Indexes p) (name_key (ix_Name i))) i = []) \<and>
     (\<forall>i \<in> set (tb_Indexes p). index_map (tb_Indexes n) (name_key (ix_Name i)) \<noteq> None) \<longleftrightarrow>
     known_indexes p \<and> known_indexes n \<and> same_entries ix_Name same_index (tb_Indexes p) (tb_Indexes n)" (is "?silent \<longleftrightarrow> ?same")
proof -
  have find: "index_map (tb_Indexes p) k = Some x \<longleftrightarrow> x \<in> set (tb_Indexes p) \<and> name_key (ix_Name x) = k" for k x
    using by_key_Some [OF keys] by (simp add: index_map_def)
  have absent: "index_map (tb_Indexes n) k = None \<longleftrightarrow> k \<notin> (name_key \<circ> ix_Name) ` set (tb_Indexes n)" for k
    by (simp add: index_map_def by_key_None)
  have by_keys: "?silent \<longleftrightarrow>
      (\<forall>i \<in> set (tb_Indexes n). \<exists>x \<in> set (tb_Indexes p). name_key (ix_Name x) = name_key (ix_Name i) \<and> validIndex x p \<and> validIndex i n \<and> same_index x i) \<and>
      (\<forall>i \<in> set (tb_Indexes p). name_key (ix_Name i) \<in> (name_key \<circ> ix_Name) ` set (tb_Indexes n))"
    by (intro arg_cong2 [where f = "(\<and>)"] ball_cong refl) (auto simp: diff_index_nil find absent)
  also have "\<dots> \<longleftrightarrow> known_indexes p \<and> known_indexes n \<and>
      same_entries (name_key \<circ> ix_Name) same_index (tb_Indexes p) (tb_Indexes n)"
    using same_entries_iff [OF keys, of "tb_Indexes n" "\<lambda>x i. validIndex x p \<and> validIndex i n \<and> same_index x i"]
    by (simp add: same_entries_split known_indexes_def)
  also have "\<dots> \<longleftrightarrow> ?same"
  proof -
    have "name_key (ix_Name i) = ix_Name i" if "known_indexes t" "i \<in> set (tb_Indexes t)" for i t
      using that valid_index_name simple_key by (auto simp: known_indexes_def list_all_iff)
    then have "same_entries (name_key \<circ> ix_Name) same_index (tb_Indexes p) (tb_Indexes n) =
        same_entries ix_Name same_index (tb_Indexes p) (tb_Indexes n)" if "known_indexes p" "known_indexes n"
      using that unfolding same_entries_def by (intro arg_cong2 [where f = "(\<and>)"] arg_cong2 [where f = "(=)"] ball_cong image_cong refl) auto
    then show ?thesis by blast
  qed
  finally show ?thesis .
qed

lemma concat_nil: "concat (map f xs) = [] \<longleftrightarrow> (\<forall>x \<in> set xs. f x = [])"
  by auto

lemma diffTable_nil:
  assumes "list_all (\<lambda>i. ix_Attributes i = CoverageComplete) (tb_Indexes p)" "list_all (\<lambda>i. ix_Attributes i = CoverageComplete) (tb_Indexes n)"
    and "distinct (map (name_key \<circ> ix_Name) (tb_Indexes p))"
  shows "diffTable p n = [] \<longleftrightarrow>
     known_columns p \<and> known_columns n \<and> same_entries cs_Name same_column (tb_Columns p) (tb_Columns n) \<and>
     known_indexes p \<and> known_indexes n \<and> same_entries ix_Name same_index (tb_Indexes p) (tb_Indexes n)"
proof (cases "ambiguousColumns p n = []")
  case True
  then have fair: "ambiguousColumns p blank_table = []" "ambiguousColumns n blank_table = []"
    using ambiguousColumns_nil [of p n] by simp_all
  have "diffTable p n = [] \<longleftrightarrow>
     ((\<forall>c \<in> set (tb_Columns n). diff_column (tb_Name n) (column_map (tb_Columns p) (name_key (cs_Name c))) c = []) \<and>
      (\<forall>c \<in> set (tb_Columns p). column_map (tb_Columns n) (name_key (cs_Name c)) \<noteq> None)) \<and>
     ((\<forall>i \<in> set (tb_Indexes n). diff_index p n (index_map (tb_Indexes p) (name_key (ix_Name i))) i = []) \<and>
      (\<forall>i \<in> set (tb_Indexes p). index_map (tb_Indexes n) (name_key (ix_Name i)) \<noteq> None))"
    unfolding diffTable_def Let_def append_is_Nil_conv concat_nil by (auto simp: True split: if_splits)
  then show ?thesis unfolding columns_nil [OF fair] indexes_nil [OF assms] by simp
next
  case False
  then have "\<not> (known_columns p \<and> known_columns n)" using ambiguousColumns_nil [of p n] by (auto simp: known_columns_def)
  then show ?thesis using False by (auto simp: diffTable_def Let_def)
qed

section \<open>Constraints compared\<close>

lemma first_by_id: "set (first_by id xs) = set xs"
proof (induction "id :: 'a \<Rightarrow> 'a" xs rule: first_by.induct)
  case (2 x xs)
  then show ?case by auto
qed simp

lemma filter_once: "distinct (map f xs) \<Longrightarrow> x \<in> set xs \<Longrightarrow> filter (\<lambda>y. f y = f x) xs = [x]"
proof (induction xs)
  case (Cons z zs)
  have none: "filter (\<lambda>y. f y = f z) zs = []" using Cons.prems(1) by (auto simp: filter_empty_conv) (metis image_eqI)
  then show ?case using Cons by (cases "x = z") (auto simp: filter_empty_conv)
qed simp

lemma diff_constraint_nil:
  assumes "distinct (map constraint_name old)" "distinct (map constraint_name new)" "constraintNameCount a n \<le> 1" "constraintNameCount b n \<le> 1"
    and valid: "\<forall>c \<in> set old. fst (snd c) \<longrightarrow> simpleSchemaName (constraint_name c)"
  shows "diff_constraint eq a b scope ac bc add drp alt old new n = [] \<longleftrightarrow>
    (\<exists>c \<in> set old. \<exists>d \<in> set new. constraint_name c = n \<and> constraint_name d = n \<and> fst (snd c) \<and> fst (snd d) \<and> eq (snd (snd c)) (snd (snd d)))"
proof -
  have one: "filter (\<lambda>c. constraint_name c = n) xs = [] \<and> (\<forall>c \<in> set xs. constraint_name c \<noteq> n) \<or>
      (\<exists>c \<in> set xs. constraint_name c = n \<and> filter (\<lambda>c. constraint_name c = n) xs = [c])" if "distinct (map constraint_name xs)" for xs
    using filter_once [OF that] by (cases "\<exists>c \<in> set xs. constraint_name c = n") (auto simp: filter_empty_conv)
  consider "filter (\<lambda>c. constraint_name c = n) old = []" "\<forall>c \<in> set old. constraint_name c \<noteq> n"
    | "filter (\<lambda>c. constraint_name c = n) new = []" "\<forall>c \<in> set new. constraint_name c \<noteq> n"
    | c d where "c \<in> set old" "d \<in> set new" "constraint_name c = n" "constraint_name d = n"
      "filter (\<lambda>c. constraint_name c = n) old = [c]" "filter (\<lambda>c. constraint_name c = n) new = [d]"
    using one [OF assms(1)] one [OF assms(2)] by blast
  then show ?thesis
  proof cases
    case 3
    have c': "c' = c" if "c' \<in> set old" "constraint_name c' = n" for c'
      using filter_once [OF assms(1) that(1)] that(2) 3(5) by simp
    have d': "d' = d" if "d' \<in> set new" "constraint_name d' = n" for d'
      using filter_once [OF assms(2) that(1)] that(2) 3(6) by simp
    have "diff_constraint eq a b scope ac bc add drp alt old new n = [] \<longleftrightarrow> fst (snd c) \<and> fst (snd d) \<and> eq (snd (snd c)) (snd (snd d))"
      using assms(3,4) valid 3 by (auto simp: diff_constraint_def Let_def)
    then show ?thesis using 3 c' d' by blast
  qed (auto simp: diff_constraint_def Let_def)
qed

lemma compare_nil:
  assumes "distinct (map constraint_name old)" "distinct (map constraint_name new)" "\<And>n. constraintNameCount a n \<le> 1" "\<And>n. constraintNameCount b n \<le> 1"
    and valid: "\<forall>c \<in> set old. fst (snd c) \<longrightarrow> simpleSchemaName (constraint_name c)"
  shows "compare_constraints eq a b scope ac bc add drp alt old new = [] \<longleftrightarrow>
    list_all (\<lambda>c. fst (snd c)) old \<and> list_all (\<lambda>c. fst (snd c)) new \<and>
    same_entries constraint_name (\<lambda>c d. eq (snd (snd c)) (snd (snd d))) old new"
proof -
  let ?P = "\<lambda>c d. fst (snd c) \<and> fst (snd d) \<and> eq (snd (snd c)) (snd (snd d))"
  have "compare_constraints eq a b scope ac bc add drp alt old new = [] \<longleftrightarrow>
      (\<forall>n \<in> constraint_name ` (set new \<union> set old). \<exists>c \<in> set old. \<exists>d \<in> set new. constraint_name c = n \<and> constraint_name d = n \<and> ?P c d)"
    unfolding compare_constraints_def concat_nil first_by_id by (simp add: image_Un diff_constraint_nil [OF assms(1,2) assms(3,4) valid])
  also have "\<dots> \<longleftrightarrow> same_entries constraint_name ?P old new"
  proof
    assume l: "\<forall>n \<in> constraint_name ` (set new \<union> set old). \<exists>c \<in> set old. \<exists>d \<in> set new. constraint_name c = n \<and> constraint_name d = n \<and> ?P c d"
    have "(\<forall>y \<in> set new. \<exists>x \<in> set old. constraint_name x = constraint_name y \<and> ?P x y) \<and>
        (\<forall>x \<in> set old. constraint_name x \<in> constraint_name ` set new)"
    proof (intro conjI ballI)
      fix y assume y: "y \<in> set new"
      then obtain c d where "c \<in> set old" "d \<in> set new" "constraint_name c = constraint_name y" "constraint_name d = constraint_name y" "?P c d"
        using l by blast
      moreover from this y have "d = y" using assms(2) by (auto simp: distinct_map inj_on_def)
      ultimately show "\<exists>x \<in> set old. constraint_name x = constraint_name y \<and> ?P x y" by auto
    next
      fix x assume "x \<in> set old"
      then obtain d where "d \<in> set new" "constraint_name d = constraint_name x" using l by blast
      then show "constraint_name x \<in> constraint_name ` set new" by (metis imageI)
    qed
    then show "same_entries constraint_name ?P old new" using same_entries_iff [OF assms(1), of new ?P] by blast
  next
    assume "same_entries constraint_name ?P old new"
    with same_entries_iff [OF assms(1), of new ?P] have
      a: "\<forall>y \<in> set new. \<exists>x \<in> set old. constraint_name x = constraint_name y \<and> ?P x y" and
      b: "\<forall>x \<in> set old. constraint_name x \<in> constraint_name ` set new" by blast+
    show "\<forall>n \<in> constraint_name ` (set new \<union> set old). \<exists>c \<in> set old. \<exists>d \<in> set new. constraint_name c = n \<and> constraint_name d = n \<and> ?P c d"
    proof
      fix n assume "n \<in> constraint_name ` (set new \<union> set old)"
      then have "n \<in> constraint_name ` set new" using b by auto
      then obtain y where "y \<in> set new" "n = constraint_name y" by auto
      then show "\<exists>c \<in> set old. \<exists>d \<in> set new. constraint_name c = n \<and> constraint_name d = n \<and> ?P c d" using a by blast
    qed
  qed
  finally show ?thesis
    using same_entries_split [of constraint_name "\<lambda>c. fst (snd c)" "\<lambda>c. fst (snd c)" "\<lambda>c d. eq (snd (snd c)) (snd (snd d))" old new] by simp
qed

definition known_constraints :: "table_schema \<Rightarrow> bool" where
  "known_constraints t \<longleftrightarrow> list_all (\<lambda>f. validFK f t \<and> \<not> fk_open f) (tb_ForeignKeys t) \<and>
     list_all (\<lambda>c. validCheck c \<and> \<not> check_open c) (tb_Checks t)"

lemma count_once: "\<not> ambiguousConstraints t \<Longrightarrow> constraintNameCount t n \<le> 1"
proof -
  assume "\<not> ambiguousConstraints t"
  then have "distinct (filter (\<lambda>m. m = n) (constraint_names t))" by (simp add: ambiguousConstraints_def)
  moreover have "set (filter (\<lambda>m. m = n) (constraint_names t)) \<subseteq> {n}" by auto
  ultimately have "length (filter (\<lambda>m. m = n) (constraint_names t)) \<le> card {n}"
    by (metis card_mono distinct_card finite.emptyI finite.insertI)
  then show ?thesis by (simp add: constraintNameCount_def)
qed

lemma items_fields:
  "map constraint_name (fk_items t) = map fk_Name (tb_ForeignKeys t)" "map constraint_name (check_items t) = map ck_Name (tb_Checks t)"
  "\<forall>c \<in> set (fk_items t). fst (snd c) \<longrightarrow> simpleSchemaName (constraint_name c)"
  "\<forall>c \<in> set (check_items t). fst (snd c) \<longrightarrow> simpleSchemaName (constraint_name c)"
  "list_all (\<lambda>c. fst (snd c)) (fk_items t) \<longleftrightarrow> list_all (\<lambda>f. validFK f t) (tb_ForeignKeys t)"
  "list_all (\<lambda>c. fst (snd c)) (check_items t) \<longleftrightarrow> list_all validCheck (tb_Checks t)"
  by (auto simp: fk_items_def check_items_def constraint_name_def validFK_def validCheck_def Let_def list_all_iff)

lemma equal_closed:
  "\<not> fk_open f \<Longrightarrow> \<not> fk_open g \<Longrightarrow> equalForeignKey (f\<lparr>fk_RawDefinition := []\<rparr>) (g\<lparr>fk_RawDefinition := []\<rparr>) \<longleftrightarrow> same_foreign_key f g"
  "\<not> check_open c \<Longrightarrow> \<not> check_open k \<Longrightarrow> equalCheck (c\<lparr>ck_RawDefinition := []\<rparr>) (k\<lparr>ck_RawDefinition := []\<rparr>) \<longleftrightarrow> same_check c k"
  by (cases f; cases g; auto simp: equalForeignKey_def same_foreign_key_def fk_open_def)
    (cases c; cases k; auto simp: equalCheck_def same_check_def check_open_def)

lemma same_items:
  assumes "list_all (\<lambda>f. \<not> fk_open f) (tb_ForeignKeys p)" "list_all (\<lambda>f. \<not> fk_open f) (tb_ForeignKeys n)"
    and "list_all (\<lambda>c. \<not> check_open c) (tb_Checks p)" "list_all (\<lambda>c. \<not> check_open c) (tb_Checks n)"
  shows "same_entries constraint_name (\<lambda>c d. equalForeignKey (snd (snd c)) (snd (snd d))) (fk_items p) (fk_items n) \<longleftrightarrow>
      same_entries fk_Name same_foreign_key (tb_ForeignKeys p) (tb_ForeignKeys n)"
    and "same_entries constraint_name (\<lambda>c d. equalCheck (snd (snd c)) (snd (snd d))) (check_items p) (check_items n) \<longleftrightarrow>
      same_entries ck_Name same_check (tb_Checks p) (tb_Checks n)"
  using assms equal_closed
  by (auto simp: same_entries_def fk_items_def check_items_def constraint_name_def image_image list_all_iff)

lemma diffConstraints_nil:
  assumes "\<not> ambiguousConstraints p" "\<not> ambiguousConstraints n"
  shows "diffConstraints p n scope ac bc = [] \<longleftrightarrow>
    known_constraints p \<and> known_constraints n \<and> same_entries fk_Name same_foreign_key (tb_ForeignKeys p) (tb_ForeignKeys n) \<and>
    same_entries ck_Name same_check (tb_Checks p) (tb_Checks n)"
proof (cases "list_all (\<lambda>t. list_all (\<lambda>f. \<not> fk_open f) (tb_ForeignKeys t) \<and> list_all (\<lambda>c. \<not> check_open c) (tb_Checks t)) [p, n]")
  case True
  then have closed: "list_all (\<lambda>f. \<not> fk_open f) (tb_ForeignKeys p)" "list_all (\<lambda>f. \<not> fk_open f) (tb_ForeignKeys n)"
    "list_all (\<lambda>c. \<not> check_open c) (tb_Checks p)" "list_all (\<lambda>c. \<not> check_open c) (tb_Checks n)" by simp_all
  have names: "distinct (map fk_Name (tb_ForeignKeys t))" "distinct (map ck_Name (tb_Checks t))" if "\<not> ambiguousConstraints t" for t
    using that by (simp_all add: ambiguousConstraints_def constraint_names_def)
  have fks: "compare_constraints equalForeignKey p n scope x y AddForeignKey DropForeignKey AlterForeignKey (fk_items p) (fk_items n) = [] \<longleftrightarrow>
      list_all (\<lambda>f. validFK f p) (tb_ForeignKeys p) \<and> list_all (\<lambda>f. validFK f n) (tb_ForeignKeys n) \<and>
      same_entries fk_Name same_foreign_key (tb_ForeignKeys p) (tb_ForeignKeys n)" for x y
    using compare_nil [of "fk_items p" "fk_items n" p n equalForeignKey scope x y AddForeignKey DropForeignKey AlterForeignKey,
        OF _ _ count_once [OF assms(1)] count_once [OF assms(2)]] assms names
    by (simp add: items_fields same_items [OF closed])
  have checks: "compare_constraints equalCheck p n scope x y AddCheck DropCheck AlterCheck (check_items p) (check_items n) = [] \<longleftrightarrow>
      list_all validCheck (tb_Checks p) \<and> list_all validCheck (tb_Checks n) \<and> same_entries ck_Name same_check (tb_Checks p) (tb_Checks n)" for x y
    using compare_nil [of "check_items p" "check_items n" p n equalCheck scope x y AddCheck DropCheck AlterCheck,
        OF _ _ count_once [OF assms(1)] count_once [OF assms(2)]] assms names
    by (simp add: items_fields same_items [OF closed])
  have quiet: "filter fk_open (tb_ForeignKeys t) = []" "filter check_open (tb_Checks t) = []" if "t \<in> {p, n}" for t
    using that closed by (auto simp: filter_empty_conv list_all_iff)
  show ?thesis
    using closed by (auto simp: diffConstraints_def quiet fks checks known_constraints_def list_all_iff)
next
  case False
  then have "diffConstraints p n scope ac bc \<noteq> []" "\<not> (known_constraints p \<and> known_constraints n)"
    by (auto simp: diffConstraints_def known_constraints_def list_all_iff filter_empty_conv)
  then show ?thesis by blast
qed

section \<open>Tables compared\<close>

definition complete_table :: "schema_context option \<Rightarrow> table_schema \<Rightarrow> bool" where
  "complete_table c t \<longleftrightarrow> inScope t c \<and> coverageKnown (tb_Coverage t) \<and> known_columns t \<and>
     list_all (\<lambda>i. ix_Attributes i = CoverageComplete) (tb_Indexes t) \<and> known_indexes t \<and> \<not> ambiguousConstraints t \<and> known_constraints t"

lemma table_complete_iff: "table_complete c t \<longleftrightarrow> complete_table c t"
  by (auto simp: table_complete_def complete_table_def known_columns_def known_indexes_def known_constraints_def list_all_iff
      ambiguousConstraints_def constraint_names_def)

lemma diff_matched_nil:
  assumes "distinct (map (name_key \<circ> ix_Name) (tb_Indexes p))"
  shows "diff_matched cc dc scope p n = [] \<longleftrightarrow> scope \<and> complete_table cc p \<and> complete_table dc n \<and> same_table p n"
proof (cases "list_all (\<lambda>i. ix_Attributes i = CoverageComplete) (tb_Indexes p @ tb_Indexes n) \<and> \<not> ambiguousConstraints p \<and> \<not> ambiguousConstraints n")
  case True
  then have attrs: "list_all (\<lambda>i. ix_Attributes i = CoverageComplete) (tb_Indexes p)"
    "list_all (\<lambda>i. ix_Attributes i = CoverageComplete) (tb_Indexes n)" and amb: "\<not> ambiguousConstraints p" "\<not> ambiguousConstraints n" by auto
  have quiet: "filter (\<lambda>i. ix_Attributes i \<noteq> CoverageComplete) (tb_Indexes p @ tb_Indexes n) = []"
    using True by (auto simp: filter_empty_conv list_all_iff)
  have "diff_matched cc dc scope p n = [] \<longleftrightarrow>
      scope \<and> inScope p cc \<and> inScope n dc \<and> coverageKnown (tb_Coverage p) \<and> coverageKnown (tb_Coverage n) \<and> diffTable p n = [] \<and>
      diffConstraints p n scope (effectiveCoverage (tb_Coverage p) cc) (effectiveCoverage (tb_Coverage n) dc) = []"
    using amb unfolding diff_matched_def Let_def quiet by auto
  then show ?thesis
    unfolding diffTable_nil [OF attrs assms] diffConstraints_nil [OF amb] using True by (auto simp: complete_table_def same_table_def list_all_append)
next
  case False
  have "diff_matched cc dc scope p n \<noteq> []"
    using False unfolding diff_matched_def Let_def by (auto simp: filter_empty_conv list_all_iff)
  moreover have "\<not> (complete_table cc p \<and> complete_table dc n)" using False by (auto simp: complete_table_def)
  ultimately show ?thesis by blast
qed

section \<open>Schemas compared\<close>

lemma diff_context_nil:
  "diff_context a b = [] \<longleftrightarrow> sameScope a b \<and> inventoryComplete a \<and> inventoryComplete b \<and> contextCoverageKnown a \<and> contextCoverageKnown b"
  by (auto simp: diff_context_def sameScope_def split: option.splits)

lemma first_by_sub: "set (first_by f xs) \<subseteq> set xs"
  by (induction f xs rule: first_by.induct) auto

lemma first_by_has: "x \<in> set xs \<Longrightarrow> \<exists>r \<in> set (first_by f xs). f r = f x"
proof (induction f xs rule: first_by.induct)
  case (2 f y xs)
  then show ?case by (cases "f x = f y") auto
qed simp

lemma same_key_once: "distinct (map objectTableKey ts) \<Longrightarrow> t \<in> set ts \<Longrightarrow> same_key t ts = [t]"
  by (simp add: same_key_def filter_once)

lemma once_same_key: "\<forall>t \<in> set ts. length (same_key t ts) = 1 \<Longrightarrow> distinct (map objectTableKey ts)"
  using counted_once [of ts objectTableKey] by (simp add: same_key_def)

lemma diff_desired_nil:
  "diff_desired a b scope n = [] \<longleftrightarrow> length (same_key n (sm_Tables b)) = 1 \<and> simpleSchemaName (tb_Name n) \<and>
     (\<exists>p. same_key n (sm_Tables a) = [p] \<and> diff_matched (sm_Context a) (sm_Context b) scope p n = [])"
proof (cases "same_key n (sm_Tables a)")
  case (Cons p ps)
  then show ?thesis by (auto simp: diff_desired_def Let_def)
qed (auto simp: diff_desired_def Let_def)

lemma diff_dropped_nonempty [simp]: "diff_dropped a b scope t \<noteq> []"
  by (simp add: diff_dropped_def Let_def)

lemma dropped_nil:
  "concat (map (diff_dropped a b scope) (first_by objectTableKey (filter P ts))) = [] \<longleftrightarrow> (\<forall>t \<in> set ts. \<not> P t)"
proof -
  have "first_by objectTableKey xs = [] \<longleftrightarrow> xs = []" for xs :: "table_schema list" by (cases xs) auto
  then show ?thesis by (simp add: concat_nil filter_empty_conv)
qed

lemma desired_nil:
  "(\<forall>n \<in> set (first_by objectTableKey (sm_Tables b)). diff_desired a b scope n = []) \<longleftrightarrow>
   distinct (map objectTableKey (sm_Tables b)) \<and>
   (\<forall>n \<in> set (sm_Tables b). simpleSchemaName (tb_Name n) \<and>
      (\<exists>p. same_key n (sm_Tables a) = [p] \<and> diff_matched (sm_Context a) (sm_Context b) scope p n = []))"
proof -
  have "n \<in> set (first_by objectTableKey (sm_Tables b))"
    if l: "\<forall>n \<in> set (first_by objectTableKey (sm_Tables b)). diff_desired a b scope n = []" and n: "n \<in> set (sm_Tables b)" for n
  proof -
    obtain r where r: "r \<in> set (first_by objectTableKey (sm_Tables b))" "objectTableKey r = objectTableKey n" using first_by_has [OF n, of objectTableKey] by auto
    then have "length (same_key r (sm_Tables b)) = 1" using bspec [OF l r(1)] unfolding diff_desired_nil by blast
    moreover have "{r, n} \<subseteq> set (same_key r (sm_Tables b))" using r n first_by_sub [of objectTableKey "sm_Tables b"] by (auto simp: same_key_def)
    ultimately have "r = n" by (cases "same_key r (sm_Tables b)") auto
    then show ?thesis using r by simp
  qed
  then have "(\<forall>n \<in> set (first_by objectTableKey (sm_Tables b)). diff_desired a b scope n = []) \<longleftrightarrow>
      (\<forall>n \<in> set (sm_Tables b). diff_desired a b scope n = [])"
    using first_by_sub [of objectTableKey "sm_Tables b"] by (meson subsetD)
  moreover have "(\<forall>n \<in> set (sm_Tables b). length (same_key n (sm_Tables b)) = 1) \<longleftrightarrow> distinct (map objectTableKey (sm_Tables b))"
    using once_same_key [of "sm_Tables b"] same_key_once [of "sm_Tables b"] by (metis One_nat_def length_Cons list.size(3))
  ultimately show ?thesis unfolding diff_desired_nil ball_conj_distrib by (simp only: conj_assoc)
qed

lemma scoped_name: "complete_table c t \<Longrightarrow> simpleSchemaName (tb_Name t)"
  by (auto simp: complete_table_def inScope_def tableIdentityValid_def)

lemma DiffSchemas_steps: "mp_Steps (DiffSchemas a b) = [] \<longleftrightarrow> compareExtendedSchemas a b = []"
  by (simp add: DiffSchemas_def PlanSteps_def finalizeMigration_def blank_migration_def Let_def split: prod.splits)

section \<open>Properties\<close>


text \<open>A schema with one table.\<close>

definition all_known :: schema_coverage where
  [go_eval]: "all_known =
     \<lparr>sc_Tables = CoverageComplete, sc_Columns = CoverageComplete, sc_Indexes = CoverageComplete, sc_ForeignKeys = CoverageComplete,
      sc_Checks = CoverageComplete, sc_Identity = CoverageComplete, sc_Version = CoverageComplete\<rparr>"

definition plain_index :: "gostring \<Rightarrow> index_schema" where
  [go_eval]: "plain_index n =
     \<lparr>ix_Keys = [], ix_Predicate = \<lparr>ed_State = ''none'', ed_SQL = []\<rparr>, ix_Method = ''btree'', ix_Include = [],
      ix_Visibility = ''visible'', ix_Attributes = CoverageComplete, ix_Name = n, ix_Columns = [''id''], ix_Unique = False,
      ix_Concurrent = False, ix_DefinitionUnknown = False, ix_RawDefinition = []\<rparr>"

definition id_column :: "bool \<Rightarrow> column_schema" where
  [go_eval]: "id_column nullable =
     \<lparr>cs_Name = ''id'', cs_Type = ''bigint'', cs_Nullable = nullable, cs_NullableKnown = True, cs_HasDefault = False,
      cs_DefaultExpression = [], cs_DefaultState = DefaultNone, cs_DefaultSource = []\<rparr>"

definition users_schema :: "bool \<Rightarrow> gostring list \<Rightarrow> db_schema" where
  [go_eval]: "users_schema nullable indexes =
     \<lparr>sm_Context = Some \<lparr>sx_observedVersion = [], sx_Dialect = ''postgres'', sx_Catalog = ''app'', sx_Schema = ''public'', sx_ServerVersion = [], sx_VersionSource = [],
        sx_Scope = ''namespace'', sx_Tables = [], sx_Visibility = ''declared'', sx_Coverage = all_known\<rparr>,
      sm_Tables = [\<lparr>tb_Identity = \<lparr>oi_Catalog = ''app'', oi_Schema = ''public'', oi_Name = ''users'', oi_State = CoverageComplete\<rparr>,
        tb_Coverage = all_known, tb_ForeignKeys = [], tb_Checks = [], tb_Name = ''users'', tb_Columns = [id_column nullable],
        tb_Indexes = map plain_index indexes\<rparr>]\<rparr>"


text \<open>
  Indexes are looked up by their folded name but counted by the exact one, so of two names that fold to the same
  the earlier one can disappear without a step.
\<close>

lemma folded_index_disappears:
  "compareExtendedSchemas (users_schema False [''IDX_A'', ''idx_a'']) (users_schema False [''idx_a'']) = []"
  by code_simp

end
