(* ===== verification/JsonText.thy ===== *)
theory JsonText
  imports PlanIdentity InputBudget
begin

text \<open>
  The text \<^verbatim>\<open>json.Marshal\<close> gives structs of strings, integers, lists and null pointers, with the escapes of strings of
  well-formed UTF-8, and that the text determines the value.
\<close>

section \<open>Strings\<close>

definition hex_byte :: "nat \<Rightarrow> gostring" where
  [go_eval]: "hex_byte n = [hex_digits ! (n div 16), hex_digits ! (n mod 16)]"

definition escape_byte :: "char \<Rightarrow> gostring" where
  [go_eval]: "escape_byte c =
     (if c = CHR ''\"'' \<or> c = CHR 0x5C then [CHR 0x5C, c]
      else if byte c = 8 then [CHR 0x5C, CHR ''b'']
      else if byte c = 12 then [CHR 0x5C, CHR ''f'']
      else if byte c = 10 then [CHR 0x5C, CHR ''n'']
      else if byte c = 13 then [CHR 0x5C, CHR ''r'']
      else if byte c = 9 then [CHR 0x5C, CHR ''t'']
      else if byte c < 32 \<or> c = CHR ''<'' \<or> c = CHR ''>'' \<or> c = CHR ''&'' then [CHR 0x5C, CHR ''u'', CHR ''0'', CHR ''0''] @ hex_byte (byte c)
      else [c])"

text \<open>The separators U+2028 and U+2029 are escaped as well.\<close>

definition line_separator :: "char \<Rightarrow> char \<Rightarrow> char \<Rightarrow> bool" where
  [go_eval]: "line_separator c d e \<longleftrightarrow> byte c = 226 \<and> byte d = 128 \<and> (byte e = 168 \<or> byte e = 169)"

fun json_body :: "gostring \<Rightarrow> gostring" where
  "json_body (c # d # e # cs) =
     (if line_separator c d e then [CHR 0x5C, CHR ''u'', CHR ''2'', CHR ''0'', CHR ''2'', if byte e = 168 then CHR ''8'' else CHR ''9''] @ json_body cs
      else escape_byte c @ json_body (d # e # cs))"
| "json_body (c # cs) = escape_byte c @ json_body cs"
| "json_body [] = []"

definition json_quoted :: "gostring \<Rightarrow> gostring" where
  [go_eval]: "json_quoted s = CHR ''\"'' # json_body s @ [CHR ''\"'']"

text \<open>Reading such a text up to its closing quote.\<close>

definition hex_value :: "char \<Rightarrow> nat" where
  "hex_value c = (if is_digit c then byte c - 48 else byte c - 87)"

definition unescaped :: "char \<Rightarrow> char" where
  "unescaped c = (if c = CHR ''b'' then char_of (8::nat) else if c = CHR ''f'' then char_of (12::nat) else if c = CHR ''n'' then char_of (10::nat)
     else if c = CHR ''r'' then char_of (13::nat) else if c = CHR ''t'' then char_of (9::nat) else c)"

fun json_read :: "gostring \<Rightarrow> gostring \<times> gostring" where
  "json_read [] = ([], [])"
| "json_read (c # cs) =
     (if c = CHR ''\"'' then ([], cs)
      else if c = CHR 0x5C
      then (case cs of
          CHR ''u'' # a # b # h # l # r \<Rightarrow>
            apfst (append (if a = CHR ''2'' then [char_of (226::nat), char_of (128::nat), if l = CHR ''8'' then char_of (168::nat) else char_of (169::nat)]
              else [char_of (16 * hex_value h + hex_value l)])) (json_read r)
        | d # r \<Rightarrow> apfst (Cons (unescaped d)) (json_read r)
        | [] \<Rightarrow> ([], []))
      else apfst (Cons c) (json_read cs))"

lemma hex_byte_read: "n < 128 \<Longrightarrow> 16 * hex_value (hex_digits ! (n div 16)) + hex_value (hex_digits ! (n mod 16)) = n"
proof -
  have digit: "hex_value (hex_digits ! k) = k" if "k < 16" for k :: nat
  proof -
    have "\<forall>k \<in> set [0..<16]. hex_value (hex_digits ! k) = k" by code_simp
    then show ?thesis using that by simp
  qed
  assume "n < 128"
  then show ?thesis by (simp add: digit)
qed

lemma char_of_code [simp]: "byte c = n \<Longrightarrow> char_of n = c"
  by (auto simp: byte_def)

lemma byte_eq_iff: "byte c = byte d \<longleftrightarrow> c = d"
  by (simp add: byte_def)

lemma byte_of_chars:
  "byte (CHR 0x08) = 8" "byte (CHR 0x09) = 9" "byte (CHR 0x0A) = 10" "byte (CHR 0x0C) = 12" "byte (CHR 0x0D) = 13"
  by (simp_all add: byte_def)

lemma read_escape: "json_read (escape_byte c @ s) = apfst (Cons c) (json_read s)"
proof -
  consider (quote) "c = CHR ''\"'' \<or> c = CHR 0x5C" | (short) "byte c = 8 \<or> byte c = 12 \<or> byte c = 10 \<or> byte c = 13 \<or> byte c = 9"
    | (hex) "c \<noteq> CHR ''\"''" "c \<noteq> CHR 0x5C" "\<not> (byte c = 8 \<or> byte c = 12 \<or> byte c = 10 \<or> byte c = 13 \<or> byte c = 9)"
        "byte c < 32 \<or> c = CHR ''<'' \<or> c = CHR ''>'' \<or> c = CHR ''&''"
    | (raw) "c \<noteq> CHR ''\"''" "c \<noteq> CHR 0x5C" "\<not> (byte c = 8 \<or> byte c = 12 \<or> byte c = 10 \<or> byte c = 13 \<or> byte c = 9)"
        "\<not> (byte c < 32 \<or> c = CHR ''<'' \<or> c = CHR ''>'' \<or> c = CHR ''&'')"
    by blast
  then show ?thesis
  proof cases
    case quote
    then show ?thesis by (auto simp: escape_byte_def unescaped_def)
  next
    case short
    then have "c \<noteq> CHR ''\"''" "c \<noteq> CHR 0x5C" by (auto simp: byte_def)
    with short show ?thesis by (auto simp: escape_byte_def unescaped_def)
  next
    case hex
    then have small: "byte c < 128" by (auto simp: byte_def)
    have "escape_byte c = [CHR 0x5C, CHR ''u'', CHR ''0'', CHR ''0''] @ hex_byte (byte c)" using hex by (simp add: escape_byte_def)
    then show ?thesis using hex_byte_read [OF small] by (simp add: hex_byte_def)
  next
    case raw
    then have "escape_byte c = [c]" by (simp add: escape_byte_def)
    with raw show ?thesis by simp
  qed
qed

lemma json_read_body: "json_read (json_body s @ CHR ''\"'' # r) = (s, r)"
proof (induction s rule: json_body.induct)
  case (1 c d e cs)
  then show ?case
    by (cases "line_separator c d e") (auto simp: line_separator_def read_escape)
qed (auto simp: read_escape)

lemma json_quoted_inject: "json_quoted s @ r = json_quoted s' @ r' \<longleftrightarrow> s = s' \<and> r = r'"
proof
  assume "json_quoted s @ r = json_quoted s' @ r'"
  then have "json_read (json_body s @ CHR ''\"'' # r) = json_read (json_body s' @ CHR ''\"'' # r')" by (simp add: json_quoted_def)
  then show "s = s' \<and> r = r'" by (simp add: json_read_body)
qed auto

text \<open>The input budget counts the bytes of this text.\<close>

lemma length_json_quoted: "length (json_quoted s) = json_text_length s"
proof -
  have short: "byte c = 8 \<longleftrightarrow> c = CHR 0x08" "byte c = 9 \<longleftrightarrow> c = CHR 0x09" "byte c = 10 \<longleftrightarrow> c = CHR 0x0A" "byte c = 12 \<longleftrightarrow> c = CHR 0x0C"
    "byte c = 13 \<longleftrightarrow> c = CHR 0x0D" for c
    using byte_eq_iff [of c "CHR 0x08"] byte_eq_iff [of c "CHR 0x09"] byte_eq_iff [of c "CHR 0x0A"] byte_eq_iff [of c "CHR 0x0C"]
      byte_eq_iff [of c "CHR 0x0D"] by (simp_all add: byte_of_chars)
  have one: "length (escape_byte c) = (if c = CHR 0x22 \<or> c = CHR 0x5C then 2 else if c \<in> {CHR 0x08, CHR 0x09, CHR 0x0A, CHR 0x0C, CHR 0x0D} then 2
      else if byte c < 32 \<or> c \<in> {CHR ''<'', CHR ''>'', CHR ''&''} then 6 else 1)" for c
    by (simp add: escape_byte_def hex_byte_def short)
  have wide: "c \<noteq> CHR 0x22 \<and> c \<noteq> CHR 0x5C \<and> c \<notin> {CHR 0x08, CHR 0x09, CHR 0x0A, CHR 0x0C, CHR 0x0D} \<and> \<not> byte c < 32 \<and> c \<notin> {CHR ''<'', CHR ''>'', CHR ''&''}"
    if "128 \<le> byte c" for c
    using that by (auto simp: byte_def)
  have step: "escaped_length (c # cs) = (if byte c = 226 \<and> (case cs of d # e # _ \<Rightarrow> byte d = 128 \<and> (byte e = 168 \<or> byte e = 169) | _ \<Rightarrow> False)
      then 4 else length (escape_byte c)) + escaped_length cs" for c cs
    unfolding escaped_length.simps(2) one using wide [of c] by auto
  have raw: "128 \<le> byte c \<Longrightarrow> length (escape_byte c) = 1" for c
    unfolding one using wide [of c] by auto
  have "length (json_body s) = escaped_length s"
  proof (induction s rule: json_body.induct)
    case (1 c d e cs)
    show ?case
    proof (cases "line_separator c d e")
      case True
      then have b: "byte c = 226" "byte d = 128" "byte e = 168 \<or> byte e = 169" by (auto simp: line_separator_def)
      then have "length (escape_byte d) = 1" "length (escape_byte e) = 1" using raw by auto
      then show ?thesis using 1 True b by (auto simp add: step simp del: escaped_length.simps(2))
    next
      case False
      have "escaped_length (c # d # e # cs) = length (escape_byte c) + escaped_length (d # e # cs)"
        using False by (subst step) (auto simp: line_separator_def)
      then show ?thesis using 1(2) False by (simp del: escaped_length.simps(2))
    qed
  qed (simp_all add: step del: escaped_length.simps(2))
  then show ?thesis by (simp add: json_quoted_def json_text_length_def)
qed

section \<open>Values\<close>

datatype jvalue = JNull | JInt int | JString gostring | JList "jvalue list" | JObject "(gostring \<times> jvalue) list"

fun marshal :: "jvalue \<Rightarrow> gostring" where
  "marshal JNull = ''null''"
| "marshal (JInt i) = int_str i"
| "marshal (JString s) = json_quoted s"
| "marshal (JList vs) = ''['' @ join '','' (map marshal vs) @ '']''"
| "marshal (JObject fs) = ''{'' @ join '','' (map (\<lambda>(k, v). json_quoted k @ '':'' @ marshal v) fs) @ ''}''"

text \<open>What may follow a value: nothing or a byte that ends it.\<close>

definition ends_value :: "gostring \<Rightarrow> bool" where
  "ends_value r \<longleftrightarrow> (case r of [] \<Rightarrow> True | c # _ \<Rightarrow> c = CHR '','' \<or> c = CHR '']'' \<or> c = CHR ''}'')"

lemma ends_value_simps [simp]:
  "ends_value []" "ends_value (CHR '','' # r)" "ends_value (CHR '']'' # r)" "ends_value (CHR ''}'' # r)"
  by (simp_all add: ends_value_def)

definition readable :: "('a \<Rightarrow> gostring) \<Rightarrow> 'a \<Rightarrow> bool" where
  "readable f x \<longleftrightarrow> (\<forall>y r r'. ends_value r \<longrightarrow> ends_value r' \<longrightarrow> f x @ r = f y @ r' \<longrightarrow> x = y \<and> r = r')"

lemma tail_inject:
  assumes "\<And>x. x \<in> set xs \<Longrightarrow> readable f x" "e = CHR '']'' \<or> e = CHR ''}''"
    and "concat (map (\<lambda>x. CHR '','' # f x) xs) @ e # r = concat (map (\<lambda>x. CHR '','' # f x) ys) @ e # r'"
  shows "xs = ys \<and> r = r'"
  using assms(1,3)
proof (induction xs arbitrary: ys)
  case Nil
  then show ?case using assms(2) by (cases ys) auto
next
  case (Cons x xs)
  have follows: "ends_value (concat (map (\<lambda>x. CHR '','' # f x) zs) @ e # q)" for zs q
    using assms(2) by (cases zs) auto
  from Cons.prems(2) obtain y ys' where ys: "ys = y # ys'" using assms(2) by (cases ys) auto
  have "f x @ (concat (map (\<lambda>x. CHR '','' # f x) xs) @ e # r) = f y @ (concat (map (\<lambda>x. CHR '','' # f x) ys') @ e # r')"
    using Cons.prems(2) ys by simp
  then have "x = y" "concat (map (\<lambda>x. CHR '','' # f x) xs) @ e # r = concat (map (\<lambda>x. CHR '','' # f x) ys') @ e # r'"
    using Cons.prems(1) [of x] follows unfolding readable_def by (metis list.set_intros(1))+
  then show ?case using Cons.IH [of ys'] Cons.prems(1) ys by simp
qed

lemma join_commas: "join '','' (map f xs) = (case xs of [] \<Rightarrow> [] | x # xs \<Rightarrow> f x @ concat (map (\<lambda>x. CHR '','' # f x) xs))"
proof (induction xs)
  case (Cons x xs)
  then show ?case by (cases xs) auto
qed simp

lemma join_inject:
  assumes "\<And>x. x \<in> set xs \<Longrightarrow> readable f x" "\<And>x. f x \<noteq> [] \<and> hd (f x) \<noteq> CHR '']'' \<and> hd (f x) \<noteq> CHR ''}''" "e = CHR '']'' \<or> e = CHR ''}''"
    and "join '','' (map f xs) @ e # r = join '','' (map f ys) @ e # r'"
  shows "xs = ys \<and> r = r'"
proof (cases xs)
  case Nil
  have "ys = []"
  proof (rule ccontr)
    assume "ys \<noteq> []"
    then obtain y zs where "ys = y # zs" by (cases ys) auto
    then have "e # r = f y @ (concat (map (\<lambda>x. CHR '','' # f x) zs) @ e # r')" using assms(4) Nil by (simp only: join_commas list.case) simp
    then have "hd (e # r) = hd (f y)" using assms(2) by (metis hd_append2)
    then show False using assms(2,3) by auto
  qed
  then show ?thesis using assms(4) Nil by simp
next
  case (Cons x xs')
  have follows: "ends_value (concat (map (\<lambda>x. CHR '','' # f x) zs) @ e # q)" for zs q
    using assms(3) by (cases zs) auto
  have "ys \<noteq> []"
  proof
    assume "ys = []"
    then have "f x @ (concat (map (\<lambda>x. CHR '','' # f x) xs') @ e # r) = e # r'" using assms(4) Cons by (simp only: join_commas list.case) simp
    then have "hd (f x) = hd (e # r')" using assms(2) by (metis hd_append2)
    then show False using assms(2,3) by auto
  qed
  then obtain y ys' where ys: "ys = y # ys'" by (cases ys) auto
  have "f x @ (concat (map (\<lambda>x. CHR '','' # f x) xs') @ e # r) = f y @ (concat (map (\<lambda>x. CHR '','' # f x) ys') @ e # r')"
    using assms(4) unfolding Cons ys join_commas by simp
  then have "x = y" "concat (map (\<lambda>x. CHR '','' # f x) xs') @ e # r = concat (map (\<lambda>x. CHR '','' # f x) ys') @ e # r'"
    using assms(1) [of x] Cons follows unfolding readable_def by (metis list.set_intros(1))+
  then show ?thesis using tail_inject [of xs' f e r ys' r'] assms(1,3) Cons ys by simp
qed

lemma digits_inject:
  assumes "\<forall>c \<in> set a. is_digit c" "\<forall>c \<in> set b. is_digit c" "ends_value r" "ends_value r'" "a @ r = b @ r'"
  shows "a = b \<and> r = r'"
proof -
  have stop: "takeWhile is_digit q = []" if "ends_value q" for q
    using that by (cases q) (auto simp: ends_value_def is_digit_def byte_def)
  have "takeWhile is_digit (a @ r) = a" "takeWhile is_digit (b @ r') = b"
    using assms(1-4) stop by simp_all
  then show ?thesis using assms(5) by simp
qed

lemma int_str_chars: "int_str i \<noteq> []" "hd (int_str i) = CHR ''-'' \<or> is_digit (hd (int_str i))"
  using nat_str_digits [of "nat i"] by (auto simp: int_str_def intro!: bspec [OF _ hd_in_set])

lemma int_str_head [simp]:
  "hd (int_str i) \<noteq> CHR '']''" "hd (int_str i) \<noteq> CHR ''}''" "hd (int_str i) \<noteq> CHR ''n''" "hd (int_str i) \<noteq> CHR ''\"''"
  "hd (int_str i) \<noteq> CHR ''[''" "hd (int_str i) \<noteq> CHR ''{''"
proof -
  have "byte (hd (int_str i)) \<le> 57"
    using int_str_chars(2) [of i] by (auto simp: is_digit_def byte_def)
  moreover have "byte (hd (int_str i)) \<noteq> 34"
    using int_str_chars(2) [of i] by (auto simp: is_digit_def byte_def)
  ultimately show "hd (int_str i) \<noteq> CHR '']''" "hd (int_str i) \<noteq> CHR ''}''" "hd (int_str i) \<noteq> CHR ''n''" "hd (int_str i) \<noteq> CHR ''\"''"
    "hd (int_str i) \<noteq> CHR ''[''" "hd (int_str i) \<noteq> CHR ''{''"
    by (auto simp: byte_def)
qed

lemma int_str_readable: "readable int_str i"
  unfolding readable_def
proof (intro allI impI)
  fix j r r' assume e: "ends_value r" "ends_value r'" and eq: "int_str i @ r = int_str j @ r'"
  note digits = digits_inject [OF nat_str_digits nat_str_digits e]
  have neg: "nat_str n @ q \<noteq> CHR ''-'' # t" for n q t
    using nat_str_digits [of n] by (cases "nat_str n") (auto simp: is_digit_def byte_def)
  consider "i < 0" "j < 0" | "\<not> i < 0" "\<not> j < 0"
    using eq neg neg [THEN not_sym] by (cases "i < 0"; cases "j < 0") (auto simp: int_str_def)
  then show "i = j \<and> r = r'"
  proof cases
    case 1
    then have "nat (- i) = nat (- j) \<and> r = r'" using eq digits [of "nat (- i)" "nat (- j)"] by (simp add: int_str_def nat_str_inject)
    with 1 show ?thesis by linarith
  next
    case 2
    then have "nat i = nat j \<and> r = r'" using eq digits [of "nat i" "nat j"] by (simp add: int_str_def nat_str_inject)
    with 2 show ?thesis by linarith
  qed
qed

lemma marshal_heads:
  "hd (marshal v @ r) = (case v of JNull \<Rightarrow> CHR ''n'' | JInt i \<Rightarrow> hd (int_str i) | JString s \<Rightarrow> CHR ''\"'' | JList vs \<Rightarrow> CHR ''['' | JObject fs \<Rightarrow> CHR ''{'')"
  using int_str_chars(1) by (cases v) (simp_all add: json_quoted_def)

lemma marshal_head: "marshal v \<noteq> [] \<and> hd (marshal v) \<noteq> CHR '']'' \<and> hd (marshal v) \<noteq> CHR ''}''"
  using int_str_chars(1) by (cases v) (simp_all add: json_quoted_def)

definition same_kind :: "jvalue \<Rightarrow> jvalue \<Rightarrow> bool" where
  "same_kind v w \<longleftrightarrow> (case v of JNull \<Rightarrow> w = JNull | JInt i \<Rightarrow> \<exists>j. w = JInt j | JString s \<Rightarrow> \<exists>t. w = JString t
     | JList vs \<Rightarrow> \<exists>ws. w = JList ws | JObject fs \<Rightarrow> \<exists>gs. w = JObject gs)"

lemma marshal_kind: "marshal v @ r = marshal w @ r' \<Longrightarrow> same_kind v w"
proof -
  assume "marshal v @ r = marshal w @ r'"
  then have h: "hd (marshal v @ r) = hd (marshal w @ r')" by (rule arg_cong)
  have other: "CHR ''n'' \<noteq> hd (int_str i)" "CHR ''\"'' \<noteq> hd (int_str i)" "CHR ''['' \<noteq> hd (int_str i)" "CHR ''{'' \<noteq> hd (int_str i)" for i
    using int_str_head [of i] by metis+
  show ?thesis
    using h unfolding marshal_heads by (cases v; cases w) (simp_all add: same_kind_def other)
qed

lemma marshal_readable: "readable marshal v"
proof (induction v)
  case JNull
  show ?case unfolding readable_def
  proof (intro allI impI)
    fix w r r' assume eq: "marshal JNull @ r = marshal w @ r'"
    have "w = JNull" using marshal_kind [OF eq] by (simp add: same_kind_def)
    then show "JNull = w \<and> r = r'" using eq by simp
  qed
next
  case (JInt i)
  show ?case unfolding readable_def
  proof (intro allI impI)
    fix w r r' assume e: "ends_value r" "ends_value r'" and eq: "marshal (JInt i) @ r = marshal w @ r'"
    obtain j where "w = JInt j" using marshal_kind [OF eq] by (auto simp: same_kind_def)
    then show "JInt i = w \<and> r = r'" using int_str_readable [of i] e eq by (simp add: readable_def)
  qed
next
  case (JString s)
  show ?case unfolding readable_def
  proof (intro allI impI)
    fix w r r' assume eq: "marshal (JString s) @ r = marshal w @ r'"
    obtain t where "w = JString t" using marshal_kind [OF eq] by (auto simp: same_kind_def)
    then show "JString s = w \<and> r = r'" using eq by (simp add: json_quoted_inject)
  qed
next
  case (JList vs)
  show ?case unfolding readable_def
  proof (intro allI impI)
    fix w r r' assume eq: "marshal (JList vs) @ r = marshal w @ r'"
    obtain ws where w: "w = JList ws" using marshal_kind [OF eq] by (auto simp: same_kind_def)
    have "join '','' (map marshal vs) @ CHR '']'' # r = join '','' (map marshal ws) @ CHR '']'' # r'" using eq w by simp
    then show "JList vs = w \<and> r = r'" using join_inject [OF JList marshal_head] w by blast
  qed
next
  case (JObject fs)
  let ?f = "\<lambda>(k, v). json_quoted k @ '':'' @ marshal v"
  have entry: "readable ?f x" if "x \<in> set fs" for x
  proof -
    have v: "readable marshal (snd x)" using JObject [of x "snd x"] that by (cases x) simp
    show ?thesis unfolding readable_def
    proof (intro allI impI)
      fix y r r' assume e: "ends_value r" "ends_value r'" and eq: "?f x @ r = ?f y @ r'"
      then have "json_quoted (fst x) @ '':'' @ marshal (snd x) @ r = json_quoted (fst y) @ '':'' @ marshal (snd y) @ r'"
        by (simp add: split_beta)
      then have "fst x = fst y" "marshal (snd x) @ r = marshal (snd y) @ r'" by (simp_all add: json_quoted_inject)
      then show "x = y \<and> r = r'" using v e unfolding readable_def by (metis prod.collapse)
    qed
  qed
  have head: "?f x \<noteq> [] \<and> hd (?f x) \<noteq> CHR '']'' \<and> hd (?f x) \<noteq> CHR ''}''" for x
    by (cases x) (simp add: json_quoted_def)
  show ?case unfolding readable_def
  proof (intro allI impI)
    fix w r r' assume eq: "marshal (JObject fs) @ r = marshal w @ r'"
    obtain gs where w: "w = JObject gs" using marshal_kind [OF eq] by (auto simp: same_kind_def)
    have "join '','' (map ?f fs) @ CHR ''}'' # r = join '','' (map ?f gs) @ CHR ''}'' # r'" using eq w by simp
    then show "JObject fs = w \<and> r = r'" using join_inject [OF entry head] w by blast
  qed
qed

lemma marshal_inject: "marshal v = marshal w \<longleftrightarrow> v = w"
  using marshal_readable [of v] unfolding readable_def by (metis append_Nil2 ends_value_simps(1))

end
