(* ===== verification/CommandInput.thy ===== *)
theory CommandInput
  imports JsonText WriteChecks
begin

text \<open>
  The input of an idempotent command (\<^verbatim>\<open>orm/command_input.go\<close>): its scalars with their types, the checks and bounds, the requests it
  makes and the canonical text it is stored and compared by.  Every refusal is the same error, so a refusal is \<^term>\<open>None\<close>.
  What \<^verbatim>\<open>json.Unmarshal\<close> reads from a stored text and the digest are arguments.
\<close>

section \<open>Commands\<close>

record command_version =
  cv_Column :: gostring
  cv_Expected :: int

record command_step =
  ct_ExpectAffected :: "int option"
  ct_Version :: "command_version option"
  ct_Operation :: gostring
  ct_Table :: gostring
  ct_Values :: "(gostring \<times> goval) list"
  ct_Keys :: "(gostring \<times> goval) list"

record command_hook =
  ch_Name :: gostring
  ch_Table :: gostring
  ch_Values :: "(gostring \<times> goval) list"

record command =
  cm_ID :: gostring
  cm_Kind :: gostring
  cm_Steps :: "command_step list"
  cm_Hooks :: "command_hook list"

record command_atom =
  at_Type :: gostring
  at_Value :: gostring

record command_field =
  cf_Name :: gostring
  cf_Atom :: command_atom

record canonical_step =
  ks_Operation :: gostring
  ks_Table :: gostring
  ks_Values :: "command_field list"
  ks_Keys :: "command_field list"
  ks_ExpectAffected :: "int option"
  ks_Version :: "command_version option"

record canonical_hook =
  kh_Name :: gostring
  kh_Table :: gostring
  kh_Values :: "command_field list"

text \<open>The request of a literal INSERT or UPDATE of one row, to a table named by its parts.\<close>

record command_request =
  cr_Results :: write_results
  cr_Operation :: gostring
  cr_Table :: gostring
  cr_Row :: "(gostring \<times> goval) list"
  cr_Columns :: "gostring list"
  cr_TableParts :: "gostring list"
  cr_WhereColumns :: "gostring list"
  cr_WhereValues :: "goval list"

section \<open>Lexical forms\<close>

definition CommandMaxBytes :: nat where [go_eval]: "CommandMaxBytes = 1048576"
definition CommandMaxSteps :: nat where [go_eval]: "CommandMaxSteps = 64"
definition CommandMaxColumns :: nat where [go_eval]: "CommandMaxColumns = 256"
definition commandMaxNodes :: nat where [go_eval]: "commandMaxNodes = 16384"

definition many_bytes :: "nat \<Rightarrow> bool" where
  [go_eval]: "many_bytes n \<longleftrightarrow> n > CommandMaxBytes"

definition many_nodes :: "nat \<Rightarrow> bool" where
  [go_eval]: "many_nodes n \<longleftrightarrow> n > commandMaxNodes"

lemma many_code [code]: "many_bytes n \<longleftrightarrow> int n > 1048576" "many_nodes n \<longleftrightarrow> int n > 16384"
  by (auto simp: many_bytes_def many_nodes_def CommandMaxBytes_def commandMaxNodes_def)

definition ident_byte :: "char \<Rightarrow> bool" where
  [go_eval]: "ident_byte c \<longleftrightarrow> is_lower c \<or> is_digit c \<or> c = CHR ''_''"

definition commandIdent :: "gostring \<Rightarrow> bool" where
  [go_eval]: "commandIdent s \<longleftrightarrow> (case s of [] \<Rightarrow> False | c # cs \<Rightarrow> is_lower c \<and> list_all ident_byte cs \<and> length cs \<le> 62)"

definition label_byte :: "char \<Rightarrow> bool" where
  [go_eval]: "label_byte c \<longleftrightarrow> is_lower c \<or> is_upper c \<or> is_digit c \<or> c \<in> {CHR ''_'', CHR ''.'', CHR '':'', CHR ''-''}"

definition commandLabel :: "gostring \<Rightarrow> bool" where
  [go_eval]: "commandLabel s \<longleftrightarrow>
     (case s of [] \<Rightarrow> False | c # cs \<Rightarrow> (is_lower c \<or> is_upper c \<or> is_digit c) \<and> list_all label_byte cs \<and> length cs \<le> 127)"

definition uuid_byte :: "nat \<Rightarrow> char \<Rightarrow> bool" where
  [go_eval]: "uuid_byte i c \<longleftrightarrow>
     (if i \<in> {8, 13, 18, 23} then c = CHR ''-''
      else if i = 14 then 49 \<le> byte c \<and> byte c \<le> 56
      else if i = 19 then c \<in> set ''89ab''
      else is_digit c \<or> 97 \<le> byte c \<and> byte c \<le> 102)"

definition commandUUID :: "gostring \<Rightarrow> bool" where
  [go_eval]: "commandUUID s \<longleftrightarrow> length s = 36 \<and> list_all (\<lambda>(i, c). uuid_byte i c) (enumerate 0 s)"

definition commandInteger :: "gostring \<Rightarrow> bool" where
  [go_eval]: "commandInteger s \<longleftrightarrow> json_digits (case s of c # cs \<Rightarrow> if c = CHR ''-'' then cs else s | [] \<Rightarrow> [])"

section \<open>Scalars\<close>

text \<open>\<^verbatim>\<open>strconv.ParseInt\<close> and \<^verbatim>\<open>ParseUint\<close> in base 10 and \<^verbatim>\<open>ParseBool\<close>.\<close>

definition digits_value :: "gostring \<Rightarrow> nat option" where
  [go_eval]: "digits_value s = (if s \<noteq> [] \<and> list_all is_digit s then Some (nat_of_digits 0 s) else None)"

definition parse_uint :: "gostring \<Rightarrow> nat \<Rightarrow> nat option" where
  [go_eval]: "parse_uint s bits = (case digits_value s of None \<Rightarrow> None | Some n \<Rightarrow> if n < 2 ^ bits then Some n else None)"

definition parse_int :: "gostring \<Rightarrow> nat \<Rightarrow> int option" where
  [go_eval]: "parse_int s bits =
     (let signed = (case s of c # cs \<Rightarrow> c = CHR ''-'' \<or> c = CHR ''+'' | [] \<Rightarrow> False);
          negative = (case s of c # cs \<Rightarrow> c = CHR ''-'' | [] \<Rightarrow> False)
      in case digits_value (if signed then tl s else s) of
           None \<Rightarrow> None
         | Some n \<Rightarrow>
             let v = (if negative then - int n else int n)
             in if - (2 ^ (bits - 1)) \<le> v \<and> v < 2 ^ (bits - 1) then Some v else None)"

definition parse_bool :: "gostring \<Rightarrow> bool option" where
  [go_eval]: "parse_bool s =
     (if s \<in> {''1'', ''t'', ''T'', ''true'', ''TRUE'', ''True''} then Some True
      else if s \<in> {''0'', ''f'', ''F'', ''false'', ''FALSE'', ''False''} then Some False else None)"

definition atom :: "gostring \<Rightarrow> gostring \<Rightarrow> command_atom" where
  [go_eval]: "atom t v = \<lparr>at_Type = t, at_Value = v\<rparr>"

definition unsigned_atom :: "gostring \<Rightarrow> nat \<Rightarrow> command_atom option" where
  [go_eval]: "unsigned_atom t n = (if int n > 9223372036854775807 then None else Some (atom t (nat_str n)))"

fun commandScalar :: "goval \<Rightarrow> command_atom option" where
  "commandScalar VNil = Some (atom ''null'' [])"
| "commandScalar (VString s) = (if many_bytes (length s) \<or> \<not> valid_utf8 s then None else Some (atom ''string'' s))"
| "commandScalar (VBool b) = Some (atom ''bool'' (if b then ''true'' else ''false''))"
| "commandScalar (VInt w) = Some (atom ''int'' (int_str (sint w)))"
| "commandScalar (VInt8 w) = Some (atom ''int8'' (int_str (sint w)))"
| "commandScalar (VInt16 w) = Some (atom ''int16'' (int_str (sint w)))"
| "commandScalar (VInt32 w) = Some (atom ''int32'' (int_str (sint w)))"
| "commandScalar (VInt64 w) = Some (atom ''int64'' (int_str (sint w)))"
| "commandScalar (VUint w) = unsigned_atom ''uint'' (unat w)"
| "commandScalar (VUint8 w) = unsigned_atom ''uint8'' (unat w)"
| "commandScalar (VUint16 w) = unsigned_atom ''uint16'' (unat w)"
| "commandScalar (VUint32 w) = unsigned_atom ''uint32'' (unat w)"
| "commandScalar (VUint64 w) = unsigned_atom ''uint64'' (unat w)"
| "commandScalar (VNumber s) =
     (if length s > 20 \<or> \<not> commandInteger s \<or> parse_int s 64 = None then None else Some (atom ''jsonint'' s))"
| "commandScalar _ = None"

text \<open>Fields in the order of their names, with the bytes and fields counted so far.\<close>

fun scalar_fields :: "(gostring \<times> goval) list \<Rightarrow> nat \<Rightarrow> nat \<Rightarrow> (command_field list \<times> nat \<times> nat) option" where
  "scalar_fields [] budget nodes = Some ([], budget, nodes)"
| "scalar_fields ((k, v) # es) budget nodes =
     (case commandScalar v of
        None \<Rightarrow> None
      | Some a \<Rightarrow>
          let budget = budget + length k + length (at_Value a) + length (at_Type a); nodes = nodes + 1
          in if many_bytes budget \<or> many_nodes nodes then None
             else (case scalar_fields es budget nodes of
                     None \<Rightarrow> None
                   | Some (fs, rest) \<Rightarrow> Some (\<lparr>cf_Name = k, cf_Atom = a\<rparr> # fs, rest)))"

definition commandFields :: "(gostring \<times> goval) list \<Rightarrow> nat \<Rightarrow> nat \<Rightarrow> (command_field list \<times> nat \<times> nat) option" where
  [go_eval]: "commandFields es budget nodes =
     (if length es > CommandMaxColumns \<or> \<not> list_all (\<lambda>e. commandIdent (fst e)) es then None
      else scalar_fields (sort_key fst es) budget nodes)"

section \<open>The canonical input\<close>

definition commandTable :: gostring where
  [go_eval]: "commandTable = ''goquent_commands_v1''"

definition step_refused :: "command_step \<Rightarrow> bool" where
  [go_eval]: "step_refused s \<longleftrightarrow>
     \<not> commandIdent (ct_Table s) \<or> ct_Table s = commandTable \<or> ct_Values s = [] \<or>
     ct_Operation s \<noteq> ''insert'' \<and> ct_Operation s \<noteq> ''update'' \<or>
     ct_Operation s = ''insert'' \<and> ct_Keys s \<noteq> [] \<or> ct_Operation s = ''update'' \<and> ct_Keys s = []"

definition step_results :: "command_step \<Rightarrow> write_results" where
  [go_eval]: "step_results s = no_results\<lparr>wr_Expected := ct_ExpectAffected s,
     wr_Version := map_option (\<lambda>v. (cv_Column v, cv_Expected v)) (ct_Version s)\<rparr>"

definition results_refused :: "command_step \<Rightarrow> bool" where
  [go_eval]: "results_refused s \<longleftrightarrow>
     (case ct_Version s of
        None \<Rightarrow> False
      | Some v \<Rightarrow> \<not> commandIdent (cv_Column v) \<or> cv_Expected v = 9223372036854775807 \<or>
          cv_Column v \<in> set (map fst (ct_Values s)) \<or> cv_Column v \<in> set (map fst (ct_Keys s))) \<or>
     \<not> results_valid (step_results s) \<or> ct_Version s \<noteq> None \<and> ct_Operation s \<noteq> ''update''"

definition step_request :: "gostring \<Rightarrow> command_step \<Rightarrow> command_request" where
  [go_eval]: "step_request schema s =
     (let vs = sort_key fst (ct_Values s); ks = sort_key fst (ct_Keys s)
      in \<lparr>cr_Results = step_results s, cr_Operation = ct_Operation s, cr_Table = schema @ ''.'' @ ct_Table s, cr_Row = vs,
          cr_Columns = map fst vs, cr_TableParts = [schema, ct_Table s], cr_WhereColumns = map fst ks, cr_WhereValues = map snd ks\<rparr>)"

text \<open>A step of a hook is preceded by the hook's name, a business step by no name.\<close>

fun snapshot_steps ::
  "gostring \<Rightarrow> (gostring \<times> command_step) list \<Rightarrow> nat \<Rightarrow> nat \<Rightarrow> (canonical_step \<times> command_request) list option" where
  "snapshot_steps schema [] budget nodes = Some []"
| "snapshot_steps schema ((name, s) # ss) budget nodes =
     (let budget = budget + length (ct_Table s) + length (ct_Operation s) + length name
      in if step_refused s \<or> many_bytes budget then None
         else (case commandFields (ct_Values s) budget nodes of
            None \<Rightarrow> None
          | Some (vf, budget, nodes) \<Rightarrow>
              (case commandFields (ct_Keys s) budget nodes of
                 None \<Rightarrow> None
               | Some (kf, budget, nodes) \<Rightarrow>
                   if results_refused s \<or> list_ex (\<lambda>e. snd e = VNil) (ct_Keys s) then None
                   else (case snapshot_steps schema ss budget nodes of
                      None \<Rightarrow> None
                    | Some rest \<Rightarrow>
                        Some ((\<lparr>ks_Operation = ct_Operation s, ks_Table = ct_Table s, ks_Values = vf, ks_Keys = kf,
                               ks_ExpectAffected = ct_ExpectAffected s, ks_Version = ct_Version s\<rparr>, step_request schema s) # rest)))))"

definition hook_step :: "command_hook \<Rightarrow> command_step" where
  [go_eval]: "hook_step h = \<lparr>ct_ExpectAffected = Some 1, ct_Version = None, ct_Operation = ''insert'', ct_Table = ch_Table h,
     ct_Values = ch_Values h, ct_Keys = []\<rparr>"

definition named_steps :: "command \<Rightarrow> (gostring \<times> command_step) list" where
  [go_eval]: "named_steps c = map (\<lambda>s. ([], s)) (cm_Steps c) @ map (\<lambda>h. (ch_Name h, hook_step h)) (cm_Hooks c)"

text \<open>The document of each version; an expectation or a hook raises the version.\<close>

record command_document =
  cd_Version :: int
  cd_Kind :: gostring
  cd_Steps :: "canonical_step list"
  cd_Hooks :: "canonical_hook list"

definition command_document_of :: "command \<Rightarrow> canonical_step list \<Rightarrow> command_document" where
  [go_eval]: "command_document_of c ks =
     (let extended = list_ex (\<lambda>k. ks_ExpectAffected k \<noteq> None \<or> ks_Version k \<noteq> None) ks
      in \<lparr>cd_Version = (if cm_Hooks c \<noteq> [] then 3 else if extended then 2 else 1), cd_Kind = cm_Kind c, cd_Steps = take (length (cm_Steps c)) ks,
          cd_Hooks = map2 (\<lambda>h k. \<lparr>kh_Name = ch_Name h, kh_Table = ks_Table k, kh_Values = ks_Values k\<rparr>) (cm_Hooks c)
            (drop (length (cm_Steps c)) ks)\<rparr>)"

definition field_json :: "command_field \<Rightarrow> jvalue" where
  [go_eval]: "field_json f = JObject [(''name'', JString (cf_Name f)),
     (''atom'', JObject [(''type'', JString (at_Type (cf_Atom f))), (''value'', JString (at_Value (cf_Atom f)))])]"

definition step_json :: "bool \<Rightarrow> canonical_step \<Rightarrow> jvalue" where
  [go_eval]: "step_json extended k = JObject
     ([(''Operation'', JString (ks_Operation k)), (''Table'', JString (ks_Table k)), (''Values'', JList (map field_json (ks_Values k))),
       (''Keys'', JList (map field_json (ks_Keys k)))] @
      (if extended
       then [(''ExpectAffected'', case ks_ExpectAffected k of None \<Rightarrow> JNull | Some n \<Rightarrow> JInt n),
             (''Version'', case ks_Version k of None \<Rightarrow> JNull
                | Some v \<Rightarrow> JObject [(''Column'', JString (cv_Column v)), (''Expected'', JInt (cv_Expected v))])]
       else []))"

definition hook_json :: "canonical_hook \<Rightarrow> jvalue" where
  [go_eval]: "hook_json h = JObject [(''Name'', JString (kh_Name h)), (''Table'', JString (kh_Table h)), (''Values'', JList (map field_json (kh_Values h)))]"

definition document_json :: "command_document \<Rightarrow> jvalue" where
  [go_eval]: "document_json d = JObject
     ([(''Version'', JInt (cd_Version d)), (''Kind'', JString (cd_Kind d)), (''Steps'', JList (map (step_json (cd_Version d \<noteq> 1)) (cd_Steps d)))] @
      (if cd_Version d = 3 then [(''Hooks'', JList (map hook_json (cd_Hooks d)))] else []))"

definition snapshotCommand :: "command \<Rightarrow> gostring \<Rightarrow> (gostring \<times> command_request list) option" where
  [go_eval]: "snapshotCommand c schema =
     (if \<not> commandUUID (cm_ID c) \<or> \<not> commandLabel (cm_Kind c) \<or> cm_Steps c = [] \<or> length (cm_Steps c) > CommandMaxSteps \<or>
         length (cm_Hooks c) > CommandMaxSteps - length (cm_Steps c) \<or> \<not> list_all (\<lambda>h. commandLabel (ch_Name h)) (cm_Hooks c)
      then None
      else case snapshot_steps schema (named_steps c) (length (cm_Kind c)) 0 of
        None \<Rightarrow> None
      | Some out \<Rightarrow>
          let b = marshal (document_json (command_document_of c (map fst out)))
          in if many_bytes (length b) then None else Some (b, map snd out))"

section \<open>Reading a stored input\<close>

definition decode_atom :: "command_atom \<Rightarrow> goval option" where
  [go_eval]: "decode_atom a =
     (let t = at_Type a; s = at_Value a
      in if t = ''null'' then Some VNil
         else if t = ''string'' then Some (VString s)
         else if t = ''bool'' then map_option VBool (parse_bool s)
         else if t = ''jsonint'' then Some (VNumber s)
         else if t = ''int'' then map_option (\<lambda>n. VInt (word_of_int n)) (parse_int s 64)
         else if t = ''int8'' then map_option (\<lambda>n. VInt8 (word_of_int n)) (parse_int s 8)
         else if t = ''int16'' then map_option (\<lambda>n. VInt16 (word_of_int n)) (parse_int s 16)
         else if t = ''int32'' then map_option (\<lambda>n. VInt32 (word_of_int n)) (parse_int s 32)
         else if t = ''int64'' then map_option (\<lambda>n. VInt64 (word_of_int n)) (parse_int s 64)
         else if t = ''uint'' then map_option (\<lambda>n. VUint (word_of_nat n)) (parse_uint s 64)
         else if t = ''uint8'' then map_option (\<lambda>n. VUint8 (word_of_nat n)) (parse_uint s 8)
         else if t = ''uint16'' then map_option (\<lambda>n. VUint16 (word_of_nat n)) (parse_uint s 16)
         else if t = ''uint32'' then map_option (\<lambda>n. VUint32 (word_of_nat n)) (parse_uint s 32)
         else if t = ''uint64'' then map_option (\<lambda>n. VUint64 (word_of_nat n)) (parse_uint s 64)
         else None)"

fun commandDecodeFields :: "command_field list \<Rightarrow> (gostring \<times> goval) list \<Rightarrow> (gostring \<times> goval) list option" where
  "commandDecodeFields [] out = Some out"
| "commandDecodeFields (f # fs) out =
     (case decode_atom (cf_Atom f) of
        None \<Rightarrow> None
      | Some v \<Rightarrow>
          if commandScalar v \<noteq> Some (cf_Atom f) \<or> cf_Name f \<in> set (map fst out) then None
          else commandDecodeFields fs (out @ [(cf_Name f, v)]))"

text \<open>What unmarshalling gives: the version in the header, and the document in the shape of version 1 or of version 3.\<close>

record json_reader =
  jr_version :: "gostring \<Rightarrow> int option"
  jr_document :: "int \<Rightarrow> gostring \<Rightarrow> command_document option"

definition decode_step :: "bool \<Rightarrow> canonical_step \<Rightarrow> command_step option" where
  [go_eval]: "decode_step extended k =
     (case (commandDecodeFields (ks_Values k) [], commandDecodeFields (ks_Keys k) []) of
        (Some vs, Some ks) \<Rightarrow>
          Some \<lparr>ct_ExpectAffected = (if extended then ks_ExpectAffected k else None), ct_Version = (if extended then ks_Version k else None),
            ct_Operation = ks_Operation k, ct_Table = ks_Table k, ct_Values = vs, ct_Keys = ks\<rparr>
      | _ \<Rightarrow> None)"

definition decode_hook :: "canonical_hook \<Rightarrow> command_hook option" where
  [go_eval]: "decode_hook h = map_option (\<lambda>vs. \<lparr>ch_Name = kh_Name h, ch_Table = kh_Table h, ch_Values = vs\<rparr>) (commandDecodeFields (kh_Values h) [])"

definition reread_id :: gostring where
  [go_eval]: "reread_id = ''00000000-0000-4000-8000-000000000001''"

definition decode_command :: "int \<Rightarrow> command_document \<Rightarrow> command option" where
  [go_eval]: "decode_command version d =
     (let steps = map (decode_step (version \<noteq> 1)) (cd_Steps d); hooks = map decode_hook (if version = 3 then cd_Hooks d else [])
      in if None \<in> set steps \<or> None \<in> set hooks then None
         else Some \<lparr>cm_ID = reread_id, cm_Kind = cd_Kind d, cm_Steps = map the steps, cm_Hooks = map the hooks\<rparr>)"

definition input_domain :: "int \<Rightarrow> gostring" where
  [go_eval]: "input_domain version =
     ''goquent.command.input.v'' @ (if version = 2 then ''2'' else if version = 3 then ''3'' else ''1'') @ [CHR 0x00]"

definition commandFingerprint :: "json_reader \<Rightarrow> (gostring \<Rightarrow> gostring) \<Rightarrow> gostring \<Rightarrow> gostring option" where
  [go_eval]: "commandFingerprint reader digest stored =
     (if many_bytes (length stored) then None
      else case jr_version reader stored of
        None \<Rightarrow> None
      | Some version \<Rightarrow>
          if version \<noteq> 1 \<and> version \<noteq> 2 \<and> version \<noteq> 3 then None
          else (case Option.bind (jr_document reader version stored) (decode_command version) of
             None \<Rightarrow> None
           | Some c \<Rightarrow>
               (case snapshotCommand c ''public'' of
                  None \<Rightarrow> None
                | Some (b, rs) \<Rightarrow> if stored \<noteq> b then None else Some (digest (input_domain version @ stored)))))"

section \<open>Scalars read back\<close>

lemma digits_value_str: "digits_value (nat_str n) = Some n"
  using nat_str_digits [of n] by (simp add: digits_value_def list_all_iff nat_of_digits_nat_str)

lemma nat_str_sign: "nat_str n = c # cs \<Longrightarrow> c \<noteq> CHR ''-'' \<and> c \<noteq> CHR ''+''"
  using nat_str_digits [of n] by (auto simp: is_digit_def byte_def)

lemma parse_int_str: "- (2 ^ (bits - 1)) \<le> i \<Longrightarrow> i < 2 ^ (bits - 1) \<Longrightarrow> parse_int (int_str i) bits = Some i"
proof (cases "i < 0")
  case True
  then show "- (2 ^ (bits - 1)) \<le> i \<Longrightarrow> i < 2 ^ (bits - 1) \<Longrightarrow> ?thesis"
    by (simp add: parse_int_def int_str_def digits_value_str Let_def)
next
  case False
  obtain c cs where c: "nat_str (nat i) = c # cs" by (cases "nat_str (nat i)") auto
  then show "- (2 ^ (bits - 1)) \<le> i \<Longrightarrow> i < 2 ^ (bits - 1) \<Longrightarrow> ?thesis"
    using False nat_str_sign [OF c] digits_value_str [of "nat i"] by (simp add: parse_int_def int_str_def Let_def)
qed

lemma parse_sint: "bits = LENGTH('a) \<Longrightarrow> parse_int (int_str (sint (w :: 'a::len word))) bits = Some (sint w)"
  using sint_ge [of w] sint_lt [of w] by (intro parse_int_str) auto

lemma parse_unat: "bits = LENGTH('a) \<Longrightarrow> parse_uint (nat_str (unat (w :: 'a::len word))) bits = Some (unat w)"
  using unsigned_less [of w] by (simp add: parse_uint_def digits_value_str)

lemma decode_scalar: "commandScalar v = Some a \<Longrightarrow> decode_atom a = Some v"
  by (cases v) (auto simp: decode_atom_def atom_def unsigned_atom_def parse_sint parse_unat parse_bool_def Let_def split: if_splits)

lemma commandScalar_inject: "commandScalar v = Some a \<Longrightarrow> commandScalar w = Some a \<Longrightarrow> v = w"
  using decode_scalar [of v a] decode_scalar [of w a] by simp

section \<open>Fields read back\<close>

definition fields_of :: "(gostring \<times> goval) list \<Rightarrow> command_field list" where
  "fields_of es = map (\<lambda>(k, v). \<lparr>cf_Name = k, cf_Atom = the (commandScalar v)\<rparr>) es"

lemma scalar_fields_of:
  "scalar_fields es budget nodes = Some (fs, rest) \<Longrightarrow> fs = fields_of es \<and> list_all (\<lambda>e. commandScalar (snd e) \<noteq> None) es"
  by (induction es budget nodes arbitrary: fs rest rule: scalar_fields.induct)
    (auto simp: fields_of_def Let_def split: option.splits if_splits)

lemma commandFields_of:
  "commandFields es budget nodes = Some (fs, rest) \<Longrightarrow>
     fs = fields_of (sort_key fst es) \<and> list_all (\<lambda>e. commandScalar (snd e) \<noteq> None) (sort_key fst es)"
  using scalar_fields_of by (auto simp: commandFields_def split: if_splits)

lemma decode_fields_of:
  assumes "distinct (map fst (out @ es))" "list_all (\<lambda>e. commandScalar (snd e) \<noteq> None) es"
  shows "commandDecodeFields (fields_of es) out = Some (out @ es)"
  using assms
proof (induction es arbitrary: out)
  case (Cons e es)
  obtain k v where e: "e = (k, v)" by (cases e)
  obtain a where a: "commandScalar v = Some a" using Cons.prems(2) e by auto
  have "commandDecodeFields (fields_of es) (out @ [(k, v)]) = Some ((out @ [(k, v)]) @ es)"
    using Cons.prems e by (intro Cons.IH) auto
  then show ?case using Cons.prems e a decode_scalar [OF a] by (simp add: fields_of_def)
qed (simp add: fields_of_def)

section \<open>Commands up to the order of their maps\<close>

definition sorted_step :: "command_step \<Rightarrow> command_step" where
  "sorted_step s = s\<lparr>ct_Values := sort_key fst (ct_Values s), ct_Keys := sort_key fst (ct_Keys s)\<rparr>"

definition sorted_hook :: "command_hook \<Rightarrow> command_hook" where
  "sorted_hook h = h\<lparr>ch_Values := sort_key fst (ch_Values h)\<rparr>"

definition sorted_command :: "command \<Rightarrow> command" where
  "sorted_command c = \<lparr>cm_ID = reread_id, cm_Kind = cm_Kind c, cm_Steps = map sorted_step (cm_Steps c), cm_Hooks = map sorted_hook (cm_Hooks c)\<rparr>"

lemma sort_key_idem: "sort_key f (sort_key f xs) = sort_key f xs"
  by (rule sort_key_id_if_sorted) simp

lemma sorted_fields: "commandFields (sort_key fst es) = commandFields es"
  by (intro ext) (simp add: commandFields_def sort_key_idem list_all_iff)

lemma sorted_step_checks:
  "step_refused (sorted_step s) = step_refused s" "results_refused (sorted_step s) = results_refused s"
  "step_results (sorted_step s) = step_results s" "step_request schema (sorted_step s) = step_request schema s"
proof -
  have nil: "sort_key fst es = [] \<longleftrightarrow> es = []" for es :: "(gostring \<times> goval) list"
    by (metis length_0_conv length_sort)
  show "step_refused (sorted_step s) = step_refused s" by (simp add: step_refused_def sorted_step_def nil)
  show r: "step_results (sorted_step s) = step_results s" by (simp add: step_results_def sorted_step_def)
  then show "results_refused (sorted_step s) = results_refused s" by (simp add: results_refused_def sorted_step_def cong: option.case_cong)
  show "step_request schema (sorted_step s) = step_request schema s"
    using r by (simp add: step_request_def sort_key_idem) (simp add: sorted_step_def sort_key_idem Let_def)
qed

lemma snapshot_sorted: "snapshot_steps schema (map (\<lambda>(n, s). (n, sorted_step s)) ss) budget nodes = snapshot_steps schema ss budget nodes"
proof (induction schema ss budget nodes rule: snapshot_steps.induct)
  case (2 schema name s ss budget nodes)
  have f: "commandFields (ct_Values (sorted_step s)) = commandFields (ct_Values s)" "commandFields (ct_Keys (sorted_step s)) = commandFields (ct_Keys s)"
    "list_ex P (ct_Keys (sorted_step s)) = list_ex P (ct_Keys s)" for P
    by (simp_all add: sorted_step_def sorted_fields list_ex_iff)
  have g: "ct_Table (sorted_step s) = ct_Table s" "ct_Operation (sorted_step s) = ct_Operation s"
    "ct_ExpectAffected (sorted_step s) = ct_ExpectAffected s" "ct_Version (sorted_step s) = ct_Version s"
    by (simp_all add: sorted_step_def)
  show ?case
    using 2 by (simp add: Let_def f g sorted_step_checks split: option.split)
qed simp

lemma snapshot_schema: "map_option (map fst) (snapshot_steps schema ss budget nodes) = map_option (map fst) (snapshot_steps schema' ss budget nodes)"
proof (induction ss arbitrary: budget nodes)
  case (Cons e ss)
  obtain name s where e: "e = (name, s)" by (cases e)
  have "(\<exists>xs ys. snapshot_steps schema ss b n = Some xs \<and> snapshot_steps schema' ss b n = Some ys \<and> map fst xs = map fst ys) \<or>
      snapshot_steps schema ss b n = None \<and> snapshot_steps schema' ss b n = None" for b n
    using Cons.IH [of b n] by (cases "snapshot_steps schema ss b n"; cases "snapshot_steps schema' ss b n"; simp)
  then show ?case
    by (auto simp: e Let_def split: option.splits) (metis option.distinct(1) option.inject)+
qed simp

lemma named_sorted: "named_steps (sorted_command c) = map (\<lambda>(n, s). (n, sorted_step s)) (named_steps c)"
  by (simp add: named_steps_def sorted_command_def hook_step_def sorted_hook_def sorted_step_def)

text \<open>A Go map has each key once.\<close>

definition go_command :: "command \<Rightarrow> bool" where
  "go_command c \<longleftrightarrow>
     list_all (\<lambda>s. distinct (map fst (ct_Values s)) \<and> distinct (map fst (ct_Keys s))) (cm_Steps c) \<and>
     list_all (\<lambda>h. distinct (map fst (ch_Values h))) (cm_Hooks c)"

definition same_step :: "command_step \<Rightarrow> command_step \<Rightarrow> bool" where
  "same_step s t \<longleftrightarrow> ct_ExpectAffected s = ct_ExpectAffected t \<and> ct_Version s = ct_Version t \<and> ct_Operation s = ct_Operation t \<and>
     ct_Table s = ct_Table t \<and> map_of (ct_Values s) = map_of (ct_Values t) \<and> map_of (ct_Keys s) = map_of (ct_Keys t)"

definition same_hook :: "command_hook \<Rightarrow> command_hook \<Rightarrow> bool" where
  "same_hook g h \<longleftrightarrow> ch_Name g = ch_Name h \<and> ch_Table g = ch_Table h \<and> map_of (ch_Values g) = map_of (ch_Values h)"

definition same_command :: "command \<Rightarrow> command \<Rightarrow> bool" where
  "same_command c d \<longleftrightarrow> cm_Kind c = cm_Kind d \<and> list_all2 same_step (cm_Steps c) (cm_Steps d) \<and> list_all2 same_hook (cm_Hooks c) (cm_Hooks d)"

lemma sorted_entries:
  assumes "distinct (map fst xs)" "distinct (map fst ys)"
  shows "sort_key fst xs = sort_key fst (ys :: (gostring \<times> goval) list) \<longleftrightarrow> map_of xs = map_of ys"
proof
  assume eq: "sort_key fst xs = sort_key fst ys"
  then have "set xs = set ys" by (metis set_sort)
  then show "map_of xs = map_of ys" using map_of_inject_set [OF assms] by blast
next
  assume "map_of xs = map_of ys"
  then have same: "set xs = set ys" using map_of_inject_set [OF assms] by blast
  have "distinct (map fst (sort_key fst es)) = distinct (map fst es)" for es :: "(gostring \<times> goval) list"
    by (metis distinct_map distinct_sort set_sort)
  then show "sort_key fst xs = sort_key fst ys"
    using assms same by (intro map_sorted_distinct_set_unique [where f = fst]) (auto simp: distinct_map)
qed

lemma sorted_eq:
  "sorted_step s = sorted_step t \<longleftrightarrow> ct_ExpectAffected s = ct_ExpectAffected t \<and> ct_Version s = ct_Version t \<and> ct_Operation s = ct_Operation t \<and>
     ct_Table s = ct_Table t \<and> sort_key fst (ct_Values s) = sort_key fst (ct_Values t) \<and> sort_key fst (ct_Keys s) = sort_key fst (ct_Keys t)"
  "sorted_hook g = sorted_hook h \<longleftrightarrow> ch_Name g = ch_Name h \<and> ch_Table g = ch_Table h \<and> sort_key fst (ch_Values g) = sort_key fst (ch_Values h)"
  by (cases s; cases t; auto simp: sorted_step_def) (cases g; cases h; auto simp: sorted_hook_def)

lemma same_command_iff:
  assumes "go_command c" "go_command d"
  shows "same_command c d \<longleftrightarrow> sorted_command c = sorted_command d"
proof -
  have steps: "same_step s t \<longleftrightarrow> sorted_step s = sorted_step t" if "s \<in> set (cm_Steps c)" "t \<in> set (cm_Steps d)" for s t
    using that assms sorted_entries [of "ct_Values s" "ct_Values t"] sorted_entries [of "ct_Keys s" "ct_Keys t"]
    by (auto simp: go_command_def list_all_iff same_step_def sorted_eq)
  have hooks: "same_hook g h \<longleftrightarrow> sorted_hook g = sorted_hook h" if "g \<in> set (cm_Hooks c)" "h \<in> set (cm_Hooks d)" for g h
    using that assms sorted_entries [of "ch_Values g" "ch_Values h"]
    by (auto simp: go_command_def list_all_iff same_hook_def sorted_eq)
  have "list_all2 same_step (cm_Steps c) (cm_Steps d) \<longleftrightarrow> map sorted_step (cm_Steps c) = map sorted_step (cm_Steps d)"
    unfolding list_eq_iff_nth_eq list_all2_conv_all_nth by (auto simp: steps)
  moreover have "list_all2 same_hook (cm_Hooks c) (cm_Hooks d) \<longleftrightarrow> map sorted_hook (cm_Hooks c) = map sorted_hook (cm_Hooks d)"
    unfolding list_eq_iff_nth_eq list_all2_conv_all_nth by (auto simp: hooks)
  ultimately show ?thesis by (simp add: same_command_def sorted_command_def)
qed

section \<open>The stored document\<close>

definition canonical_of :: "command_step \<Rightarrow> canonical_step" where
  "canonical_of s = \<lparr>ks_Operation = ct_Operation s, ks_Table = ct_Table s, ks_Values = fields_of (sort_key fst (ct_Values s)),
     ks_Keys = fields_of (sort_key fst (ct_Keys s)), ks_ExpectAffected = ct_ExpectAffected s, ks_Version = ct_Version s\<rparr>"

definition scalar_step :: "command_step \<Rightarrow> bool" where
  "scalar_step s \<longleftrightarrow> list_all (\<lambda>e. commandScalar (snd e) \<noteq> None) (sort_key fst (ct_Values s)) \<and>
     list_all (\<lambda>e. commandScalar (snd e) \<noteq> None) (sort_key fst (ct_Keys s))"

definition stored_document :: "command \<Rightarrow> command_document" where
  "stored_document c = command_document_of c (map (canonical_of \<circ> snd) (named_steps c))"

lemma snapshot_canonical:
  "snapshot_steps schema ss budget nodes = Some out \<Longrightarrow>
     map fst out = map (canonical_of \<circ> snd) ss \<and> list_all (scalar_step \<circ> snd) ss \<and> map snd out = map (step_request schema \<circ> snd) ss"
proof (induction ss arbitrary: budget nodes out)
  case (Cons e ss)
  obtain name s where e: "e = (name, s)" by (cases e)
  from Cons.prems show ?case
    by (auto simp: e Let_def canonical_of_def scalar_step_def split: option.splits if_splits dest!: commandFields_of Cons.IH)
qed simp

lemma snapshot_document:
  assumes "snapshotCommand c schema = Some (b, rs)"
  shows "b = marshal (document_json (stored_document c))" "list_all (scalar_step \<circ> snd) (named_steps c)"
    "rs = map (step_request schema \<circ> snd) (named_steps c)" "\<not> many_bytes (length b)"
  using assms snapshot_canonical [of schema "named_steps c" "length (cm_Kind c)" 0]
  by (auto simp: snapshotCommand_def stored_document_def Let_def split: if_splits option.splits)

lemma stored_document_parts:
  "cd_Kind (stored_document c) = cm_Kind c" "cd_Steps (stored_document c) = map canonical_of (cm_Steps c)"
  "cd_Hooks (stored_document c) = map (\<lambda>h. \<lparr>kh_Name = ch_Name h, kh_Table = ch_Table h, kh_Values = fields_of (sort_key fst (ch_Values h))\<rparr>) (cm_Hooks c)"
proof -
  have "map2 (\<lambda>h k. \<lparr>kh_Name = ch_Name h, kh_Table = ks_Table k, kh_Values = ks_Values k\<rparr>) hs (map (canonical_of \<circ> snd) (map (\<lambda>h. (ch_Name h, hook_step h)) hs)) =
      map (\<lambda>h. \<lparr>kh_Name = ch_Name h, kh_Table = ch_Table h, kh_Values = fields_of (sort_key fst (ch_Values h))\<rparr>) hs" for hs
    by (induction hs) (simp_all add: canonical_of_def hook_step_def)
  then show "cd_Kind (stored_document c) = cm_Kind c" "cd_Steps (stored_document c) = map canonical_of (cm_Steps c)"
    "cd_Hooks (stored_document c) = map (\<lambda>h. \<lparr>kh_Name = ch_Name h, kh_Table = ch_Table h, kh_Values = fields_of (sort_key fst (ch_Values h))\<rparr>) (cm_Hooks c)"
    by (simp_all add: stored_document_def command_document_of_def named_steps_def Let_def comp_def)
qed

lemma stored_document_version:
  "cd_Version (stored_document c) \<in> {1, 2, 3}" "cd_Version (stored_document c) = 3 \<longleftrightarrow> cm_Hooks c \<noteq> []"
  "cd_Version (stored_document c) = 1 \<Longrightarrow> list_all (\<lambda>s. ct_ExpectAffected s = None \<and> ct_Version s = None) (cm_Steps c)"
  by (auto simp: stored_document_def command_document_of_def named_steps_def Let_def list_all_iff list_ex_iff canonical_of_def split: if_splits)

lemma distinct_sorted: "distinct (map fst (sort_key fst es)) = distinct (map fst (es :: (gostring \<times> goval) list))"
  by (metis distinct_map distinct_sort set_sort)

lemma decode_canonical:
  assumes "scalar_step s" "distinct (map fst (ct_Values s))" "distinct (map fst (ct_Keys s))"
    and "\<not> extended \<Longrightarrow> ct_ExpectAffected s = None \<and> ct_Version s = None"
  shows "decode_step extended (canonical_of s) = Some (sorted_step s)"
proof -
  have "commandDecodeFields (fields_of (sort_key fst (ct_Values s))) [] = Some (sort_key fst (ct_Values s))"
    "commandDecodeFields (fields_of (sort_key fst (ct_Keys s))) [] = Some (sort_key fst (ct_Keys s))"
    using assms(1-3) by (simp_all add: decode_fields_of distinct_sorted scalar_step_def)
  then show ?thesis using assms(4) by (cases s) (auto simp: decode_step_def canonical_of_def sorted_step_def)
qed

lemma decode_stored:
  assumes "go_command c" "list_all (scalar_step \<circ> snd) (named_steps c)"
  shows "decode_command (cd_Version (stored_document c)) (stored_document c) = Some (sorted_command c)"
proof -
  let ?v = "cd_Version (stored_document c)"
  have "decode_step (?v \<noteq> 1) (canonical_of s) = Some (sorted_step s)" if "s \<in> set (cm_Steps c)" for s
  proof (rule decode_canonical)
    have "list_all scalar_step (cm_Steps c)" using assms(2) by (simp add: named_steps_def list.pred_map comp_def)
    then show "scalar_step s" using that by (simp add: list_all_iff)
    show "distinct (map fst (ct_Values s))" "distinct (map fst (ct_Keys s))" using assms(1) that by (simp_all add: go_command_def list_all_iff)
    show "\<not> ?v \<noteq> 1 \<Longrightarrow> ct_ExpectAffected s = None \<and> ct_Version s = None"
      using stored_document_version(3) [of c] that by (simp add: list_all_iff)
  qed
  then have steps: "map (decode_step (?v \<noteq> 1)) (cd_Steps (stored_document c)) = map Some (map sorted_step (cm_Steps c))"
    by (simp add: stored_document_parts)
  have "decode_hook \<lparr>kh_Name = ch_Name h, kh_Table = ch_Table h, kh_Values = fields_of (sort_key fst (ch_Values h))\<rparr> = Some (sorted_hook h)"
    if "h \<in> set (cm_Hooks c)" for h
  proof -
    have "commandDecodeFields (fields_of (sort_key fst (ch_Values h))) [] = Some (sort_key fst (ch_Values h))"
    proof -
      have "list_all (scalar_step \<circ> hook_step) (cm_Hooks c)" using assms(2) by (simp add: named_steps_def list.pred_map comp_def)
      then have "scalar_step (hook_step h)" using that by (simp add: list_all_iff)
      then have "list_all (\<lambda>e. commandScalar (snd e) \<noteq> None) (sort_key fst (ch_Values h))" by (simp add: scalar_step_def hook_step_def)
      moreover have "distinct (map fst (sort_key fst (ch_Values h)))"
        using assms(1) that by (simp add: go_command_def list_all_iff distinct_sorted)
      ultimately show ?thesis using decode_fields_of [of "[]" "sort_key fst (ch_Values h)"] by simp
    qed
    then show ?thesis by (cases h) (simp add: decode_hook_def sorted_hook_def)
  qed
  then have hooks: "map decode_hook (if ?v = 3 then cd_Hooks (stored_document c) else []) = map Some (map sorted_hook (cm_Hooks c))"
    by (simp add: stored_document_parts stored_document_version(2))
  have some: "None \<notin> set (map Some xs)" "map the (map Some xs) = xs" for xs :: "'x list" by (auto simp: comp_def)
  show ?thesis
    unfolding decode_command_def Let_def steps hooks by (simp add: some sorted_command_def stored_document_parts comp_def image_iff)
qed

section \<open>The text determines the document\<close>

lemma field_json_inject: "field_json f = field_json g \<Longrightarrow> f = g"
  by (cases f; cases g; cases "cf_Atom f"; cases "cf_Atom g") (auto simp: field_json_def)

lemma fields_json_inject: "map field_json fs = map field_json gs \<Longrightarrow> fs = gs"
  by (rule map_injective) (auto simp: inj_def dest: field_json_inject)

lemma step_json_inject:
  "step_json True k = step_json True l \<Longrightarrow> k = l"
  "step_json False k = step_json False l \<Longrightarrow> decode_step False k = decode_step False l"
proof -
  show "step_json True k = step_json True l \<Longrightarrow> k = l"
    by (cases k; cases l) (auto simp: step_json_def dest!: fields_json_inject split: option.splits)
  show "step_json False k = step_json False l \<Longrightarrow> decode_step False k = decode_step False l"
    by (auto simp: step_json_def decode_step_def dest!: fields_json_inject split: option.split)
qed

lemma hook_json_inject: "hook_json h = hook_json g \<Longrightarrow> h = g"
  by (cases h; cases g) (auto simp: hook_json_def dest: fields_json_inject)

lemma document_json_inject:
  assumes "document_json d = document_json e"
  shows "cd_Version d = cd_Version e" "decode_command (cd_Version d) d = decode_command (cd_Version e) e"
proof -
  show v: "cd_Version d = cd_Version e" using assms by (simp add: document_json_def)
  have kind: "cd_Kind d = cd_Kind e" using assms by (simp add: document_json_def)
  have "map (step_json (cd_Version d \<noteq> 1)) (cd_Steps d) = map (step_json (cd_Version e \<noteq> 1)) (cd_Steps e)"
    using assms by (auto simp: document_json_def)
  then have len: "length (cd_Steps d) = length (cd_Steps e)"
    and each: "\<forall>i < length (cd_Steps d). step_json (cd_Version d \<noteq> 1) (cd_Steps d ! i) = step_json (cd_Version d \<noteq> 1) (cd_Steps e ! i)"
    by (auto simp: v list_eq_iff_nth_eq)
  have "decode_step (cd_Version d \<noteq> 1) (cd_Steps d ! i) = decode_step (cd_Version d \<noteq> 1) (cd_Steps e ! i)" if "i < length (cd_Steps d)" for i
  proof (cases "cd_Version d = 1")
    case True
    with each that step_json_inject(2) [of "cd_Steps d ! i" "cd_Steps e ! i"] show ?thesis by simp
  next
    case False
    with each that step_json_inject(1) [of "cd_Steps d ! i" "cd_Steps e ! i"] show ?thesis by simp
  qed
  then have steps: "map (decode_step (cd_Version d \<noteq> 1)) (cd_Steps d) = map (decode_step (cd_Version e \<noteq> 1)) (cd_Steps e)"
    using len v by (simp add: list_eq_iff_nth_eq)
  have "cd_Version d = 3 \<Longrightarrow> map hook_json (cd_Hooks d) = map hook_json (cd_Hooks e)"
    using assms v by (simp add: document_json_def)
  then have hooks: "cd_Version d = 3 \<Longrightarrow> cd_Hooks d = cd_Hooks e"
    by (rule map_injective [where f = hook_json]) (auto simp: inj_def dest: hook_json_inject)
  show "decode_command (cd_Version d) d = decode_command (cd_Version e) e"
    using v kind steps hooks unfolding decode_command_def Let_def by simp
qed

lemma sorted_document: "stored_document (sorted_command c) = stored_document c"
proof -
  have "canonical_of (sorted_step s) = canonical_of s" for s
    by (simp add: canonical_of_def sorted_step_def sort_key_idem)
  then have "map (canonical_of \<circ> snd) (named_steps (sorted_command c)) = map (canonical_of \<circ> snd) (named_steps c)"
    by (simp add: named_sorted comp_def split_beta)
  moreover have "map ch_Name (map sorted_hook hs) = map ch_Name hs" for hs by (simp add: sorted_hook_def)
  moreover have "map2 (\<lambda>h k. \<lparr>kh_Name = ch_Name h, kh_Table = ks_Table k, kh_Values = ks_Values k\<rparr>) (map sorted_hook hs) ks =
      map2 (\<lambda>h k. \<lparr>kh_Name = ch_Name h, kh_Table = ks_Table k, kh_Values = ks_Values k\<rparr>) hs ks" for hs ks
    by (simp add: zip_map1 sorted_hook_def comp_def split_beta)
  ultimately show ?thesis
    by (simp only: stored_document_def command_document_of_def Let_def) (simp add: sorted_command_def)
qed

lemma sorted_snapshot:
  assumes "snapshotCommand c schema = Some (b, rs)"
  shows "\<exists>rs'. snapshotCommand (sorted_command c) schema' = Some (b, rs')"
proof -
  from assms obtain out where out: "snapshot_steps schema (named_steps c) (length (cm_Kind c)) 0 = Some out"
    by (auto simp: snapshotCommand_def split: if_splits option.splits)
  then obtain out' where out': "snapshot_steps schema' (named_steps c) (length (cm_Kind c)) 0 = Some out'" "map fst out' = map fst out"
    using snapshot_schema [of schema "named_steps c" "length (cm_Kind c)" 0 schema']
    by (cases "snapshot_steps schema' (named_steps c) (length (cm_Kind c)) 0") auto
  have kept: "cm_Kind (sorted_command c) = cm_Kind c" "length (cm_Steps (sorted_command c)) = length (cm_Steps c)"
    "length (cm_Hooks (sorted_command c)) = length (cm_Hooks c)" "cm_Steps (sorted_command c) = [] \<longleftrightarrow> cm_Steps c = []"
    "list_all (\<lambda>h. commandLabel (ch_Name h)) (cm_Hooks (sorted_command c)) = list_all (\<lambda>h. commandLabel (ch_Name h)) (cm_Hooks c)"
    by (simp_all add: sorted_command_def sorted_hook_def list.pred_map comp_def)
  have id: "commandUUID (cm_ID (sorted_command c))" by (simp add: sorted_command_def) code_simp
  have doc: "command_document_of (sorted_command c) (map fst out') = command_document_of c (map fst out)"
    using sorted_document [of c] snapshot_canonical [OF out] out' by (simp add: stored_document_def named_sorted comp_def split_beta canonical_of_def sorted_step_def sort_key_idem)
  have "snapshot_steps schema' (named_steps (sorted_command c)) (length (cm_Kind (sorted_command c))) 0 = Some out'"
    using out' snapshot_sorted [of schema' "named_steps c"] by (simp add: named_sorted kept)
  then show ?thesis
    using assms out doc id kept unfolding snapshotCommand_def by (auto simp: Let_def split: if_splits)
qed

text \<open>The text of a stored input is read back as the document it was made from.\<close>

definition reads_back :: "json_reader \<Rightarrow> command \<Rightarrow> bool" where
  "reads_back reader c \<longleftrightarrow>
     (let d = stored_document c; b = marshal (document_json d)
      in jr_version reader b = Some (cd_Version d) \<and> jr_document reader (cd_Version d) b = Some d)"

section \<open>Commands with the same stored input\<close>

lemma stored_input_same:
  assumes "go_command c" "go_command d" "snapshotCommand c schema = Some (b, rs)" "snapshotCommand d schema' = Some (b', rs')"
  shows "b = b' \<longleftrightarrow> sorted_command c = sorted_command d"
proof
  have decoded: "decode_command (cd_Version (stored_document c)) (stored_document c) = Some (sorted_command c)"
    "decode_command (cd_Version (stored_document d)) (stored_document d) = Some (sorted_command d)"
    using decode_stored assms(1,2) snapshot_document(2) [OF assms(3)] snapshot_document(2) [OF assms(4)] by simp_all
  assume "b = b'"
  then have "document_json (stored_document c) = document_json (stored_document d)"
    using snapshot_document(1) [OF assms(3)] snapshot_document(1) [OF assms(4)] by (simp add: marshal_inject)
  from document_json_inject(2) [OF this] show "sorted_command c = sorted_command d" using decoded by simp
next
  assume "sorted_command c = sorted_command d"
  then have "stored_document c = stored_document d" using sorted_document by metis
  then show "b = b'" using snapshot_document(1) [OF assms(3)] snapshot_document(1) [OF assms(4)] by simp
qed

lemma same_input_requests:
  assumes "go_command c" "go_command d" "snapshotCommand c schema = Some (b, rs)" "snapshotCommand d schema = Some (b, rs')"
  shows "rs = rs'"
proof -
  have requests: "map (step_request schema \<circ> snd) (named_steps (sorted_command x)) = map (step_request schema \<circ> snd) (named_steps x)" for x
    by (simp add: named_sorted comp_def split_beta sorted_step_checks)
  have "sorted_command c = sorted_command d" using stored_input_same [OF assms] by simp
  then show ?thesis
    using requests [of c] requests [of d] snapshot_document(3) [OF assms(3)] snapshot_document(3) [OF assms(4)] by simp
qed

lemma reread_fingerprint:
  assumes "go_command c" "snapshotCommand c schema = Some (b, rs)" "reads_back reader c"
  shows "commandFingerprint reader digest b = Some (digest (input_domain (cd_Version (stored_document c)) @ b))"
proof -
  note sc = snapshot_document [OF assms(2)]
  have "decode_command (cd_Version (stored_document c)) (stored_document c) = Some (sorted_command c)"
    using decode_stored assms(1) sc(2) by simp
  moreover obtain rs2 where "snapshotCommand (sorted_command c) ''public'' = Some (b, rs2)"
    using sorted_snapshot [OF assms(2)] by blast
  moreover have "jr_version reader b = Some (cd_Version (stored_document c))"
    "jr_document reader (cd_Version (stored_document c)) b = Some (stored_document c)"
    using assms(3) sc(1) by (simp_all add: reads_back_def Let_def)
  ultimately show ?thesis
    using sc(4) stored_document_version(1) [of c] by (auto simp: commandFingerprint_def)
qed

section \<open>Properties\<close>

text \<open>
  C2: Two commands that are accepted have the same stored input exactly when they are the same command: the same kind and, in
  order, the same steps and hooks with the same typed scalars in every column, and then they send the same requests.  The
  stored input of an accepted command is never taken for a corrupt one: read back, it has its fingerprint.
\<close>

theorem stored_input_identifies_command:
  assumes "go_command c" "go_command d" "snapshotCommand c schema = Some (b, rs)" "snapshotCommand d schema = Some (b', rs')" "reads_back reader c"
  shows "(b = b' \<longleftrightarrow> same_command c d) \<and> (b = b' \<longrightarrow> rs = rs') \<and>
     commandFingerprint reader digest b = Some (digest (input_domain (cd_Version (stored_document c)) @ b))"
  using stored_input_same [OF assms(1-4)] same_command_iff [OF assms(1,2)] same_input_requests [OF assms(1-3)] assms(4)
    reread_fingerprint [OF assms(1,3,5)] by auto

text \<open>The order of a map's keys does not matter; the type of an integer does.\<close>

definition transfer :: "(gostring \<times> goval) list \<Rightarrow> command" where
  [go_eval]: "transfer vs = \<lparr>cm_ID = ''00000000-0000-4000-8000-000000000002'', cm_Kind = ''transfer'',
     cm_Steps = [\<lparr>ct_ExpectAffected = Some 1, ct_Version = None, ct_Operation = ''update'', ct_Table = ''accounts'', ct_Values = vs,
       ct_Keys = [(''id'', VInt64 7)]\<rparr>],
     cm_Hooks = [\<lparr>ch_Name = ''audit'', ch_Table = ''log'', ch_Values = [(''note'', VString ''<x>'')]\<rparr>]\<rparr>"

definition two_ways :: "command list" where
  [go_eval]: "two_ways = map transfer [[(''a'', VInt 5), (''b'', VNil)], [(''b'', VNil), (''a'', VInt 5)], [(''a'', VInt64 5), (''b'', VNil)]]"

definition reading :: json_reader where
  "reading = \<lparr>jr_version = \<lambda>b. Some 3, jr_document = \<lambda>v b. Some (stored_document (hd two_ways))\<rparr>"

theorem stored_input_identifies_command_witness:
  "map_option fst (snapshotCommand (two_ways ! 0) ''app'') = map_option fst (snapshotCommand (two_ways ! 1) ''app'') \<and>
   map_option fst (snapshotCommand (two_ways ! 0) ''app'') \<noteq> map_option fst (snapshotCommand (two_ways ! 2) ''app'') \<and>
   commandFingerprint reading id (fst (the (snapshotCommand (two_ways ! 0) ''app''))) \<noteq> None"
proof -
  have maps: "go_command (two_ways ! 0)" "go_command (two_ways ! 1)" "go_command (two_ways ! 2)"
    by (simp_all add: two_ways_def transfer_def go_command_def)
  obtain b0 r0 where s0: "snapshotCommand (two_ways ! 0) ''app'' = Some (b0, r0)"
  proof -
    have "snapshotCommand (two_ways ! 0) ''app'' \<noteq> None" by code_simp
    then show thesis using that by (cases "snapshotCommand (two_ways ! 0) ''app''") auto
  qed
  obtain b1 r1 where s1: "snapshotCommand (two_ways ! 1) ''app'' = Some (b1, r1)"
  proof -
    have "snapshotCommand (two_ways ! 1) ''app'' \<noteq> None" by code_simp
    then show thesis using that by (cases "snapshotCommand (two_ways ! 1) ''app''") auto
  qed
  obtain b2 r2 where s2: "snapshotCommand (two_ways ! 2) ''app'' = Some (b2, r2)"
  proof -
    have "snapshotCommand (two_ways ! 2) ''app'' \<noteq> None" by code_simp
    then show thesis using that by (cases "snapshotCommand (two_ways ! 2) ''app''") auto
  qed
  have reads: "reads_back reading (two_ways ! 0)"
    by (simp add: reads_back_def reading_def Let_def two_ways_def stored_document_def command_document_of_def transfer_def)
  have same: "same_command (two_ways ! 0) (two_ways ! 1)" "\<not> same_command (two_ways ! 0) (two_ways ! 2)"
    by (auto simp: two_ways_def transfer_def same_command_def same_step_def same_hook_def fun_eq_iff)
  show ?thesis
    using stored_input_identifies_command [OF maps(1,2) s0 s1 reads, of id] stored_input_identifies_command [OF maps(1,3) s0 s2 reads, of id]
      same s0 s1 s2 by simp
qed

end
