(* ===== verification/CommandStore.thy ===== *)
theory CommandStore
  imports CommandInput
begin

text \<open>
  The store of idempotent commands (\<^verbatim>\<open>orm/command_store.go\<close>): a ledger row for each scope and operation id, written in one
  transaction with the statements of the command, so that a repeated \<^verbatim>\<open>Run\<close> finds the saved result.  \<^verbatim>\<open>Run\<close> is given as its
  requests to the database and what it does with each answer; several runs interleave at their requests.  The database is an
  argument, with its documented behaviour as a hypothesis; so are \<^verbatim>\<open>json.Unmarshal\<close> and the digest.
\<close>

section \<open>The store\<close>

record command_store =
  cst_Dialect :: driver_dialect
  cst_Schema :: gostring
  cst_Table :: gostring
  cst_Scope :: gostring
  cst_ScopeHash :: gostring

datatype driver_error = MySQLError nat | PqError gostring gostring gostring gostring | OtherDriverError gostring

datatype command_error =
    InputRefused
  | CommandIdentityConflict
  | StoreInvalid
  | RecordCorrupt
  | NotOwned
  | SettingsFailed gostring
  | PlanFailed gostring
  | DriverFailed driver_error
  | CommandOutcomeUnknown "command_error list"

definition qualified_table :: "driver_dialect \<Rightarrow> gostring \<Rightarrow> gostring \<Rightarrow> gostring" where
  [go_eval]: "qualified_table d schema table =
     (let q = (if d = PostgresDialect then [CHR 0x22] else [CHR 0x60]) in q @ schema @ q @ ''.'' @ q @ table @ q)"

text \<open>PostgreSQL numbers the placeholders.\<close>

fun numbered_sql :: "nat \<Rightarrow> gostring \<Rightarrow> gostring" where
  "numbered_sql n [] = []"
| "numbered_sql n (c # cs) = (if c = CHR 0x3F then CHR ''$'' # nat_str (n + 1) @ numbered_sql (n + 1) cs else c # numbered_sql n cs)"

definition store_sql :: "driver_dialect \<Rightarrow> gostring \<Rightarrow> gostring" where
  [go_eval]: "store_sql d q = (if d = PostgresDialect then numbered_sql 0 q else q)"

definition scope_json :: "driver_dialect \<Rightarrow> gostring \<Rightarrow> gostring \<Rightarrow> command_atom \<Rightarrow> jvalue" where
  [go_eval]: "scope_json d schema namespace tenant = JObject
     [(''Version'', JInt 1), (''Dialect'', JString (if d = PostgresDialect then ''postgres'' else ''mysql'')), (''Schema'', JString schema),
      (''Namespace'', JString namespace), (''Tenant'', JObject [(''type'', JString (at_Type tenant)), (''value'', JString (at_Value tenant))])]"

text \<open>
  The store of an owned database, from the application's tenant, the schema the database answers and the check of the
  ledger's table, each of which may fail.
\<close>

definition NewCommandStore ::
  "(gostring \<Rightarrow> gostring) \<Rightarrow> bool \<Rightarrow> driver_dialect \<Rightarrow> gostring \<Rightarrow> command_error + goval \<Rightarrow> command_error + gostring \<Rightarrow> command_error option \<Rightarrow>
     command_error + command_store" where
  [go_eval]: "NewCommandStore digest owned d namespace tenant schema bad_ledger =
     (if \<not> owned then Inl NotOwned
      else if \<not> commandLabel namespace then Inl InputRefused
      else if d \<noteq> MySQLDialect \<and> d \<noteq> PostgresDialect then Inl StoreInvalid
      else case tenant of
        Inl e \<Rightarrow> Inl e
      | Inr t \<Rightarrow>
          (case commandScalar t of
             None \<Rightarrow> Inl InputRefused
           | Some a \<Rightarrow>
               if at_Type a = ''null'' \<or> at_Type a = ''bool'' then Inl InputRefused
               else case schema of
                 Inl e \<Rightarrow> Inl e
               | Inr s \<Rightarrow>
                   if \<not> commandIdent s then Inl StoreInvalid
                   else let scope = marshal (scope_json d s namespace a)
                     in if many_bytes (length scope) then Inl InputRefused
                        else case bad_ledger of
                          Some e \<Rightarrow> Inl e
                        | None \<Rightarrow> Inr \<lparr>cst_Dialect = d, cst_Schema = s, cst_Table = qualified_table d s commandTable, cst_Scope = scope,
                            cst_ScopeHash = digest (''goquent.command.scope.v1'' @ [CHR 0x00] @ scope)\<rparr>))"

section \<open>Rows of the ledger\<close>

record ledger_row =
  lr_Version :: int
  lr_Status :: int
  lr_Scope :: gostring
  lr_Input :: gostring
  lr_Fingerprint :: gostring
  lr_Result :: gostring

type_synonym ledger_key = "gostring \<times> gostring"

text \<open>A run that has passed its checks: the store, the operation id, the canonical input with its fingerprint, and the requests.\<close>

record command_run =
  rn_Store :: command_store
  rn_ID :: gostring
  rn_Input :: gostring
  rn_Fingerprint :: gostring
  rn_Requests :: "command_request list"

definition run_key :: "command_run \<Rightarrow> ledger_key" where
  [go_eval]: "run_key r = (cst_ScopeHash (rn_Store r), rn_ID r)"

definition reserved_row :: "command_run \<Rightarrow> ledger_row" where
  [go_eval]: "reserved_row r = \<lparr>lr_Version = 1, lr_Status = 0, lr_Scope = cst_Scope (rn_Store r), lr_Input = rn_Input r,
     lr_Fingerprint = rn_Fingerprint r, lr_Result = []\<rparr>"

definition summary_json :: "int \<Rightarrow> int list \<Rightarrow> jvalue" where
  [go_eval]: "summary_json version counts = JObject [(''version'', JInt version), (''rows_affected'', JList (map JInt counts))]"

definition result_text :: "int list \<Rightarrow> gostring" where
  [go_eval]: "result_text counts = marshal (summary_json 1 counts)"

text \<open>A lookup reads at most one byte more of a blob than is allowed.\<close>

definition clipped :: "gostring \<Rightarrow> gostring" where
  [go_eval]: "clipped s = (if many_bytes (length s) then take (CommandMaxBytes + 1) s else s)"

definition clip_row :: "ledger_row \<Rightarrow> ledger_row" where
  [go_eval]: "clip_row r = r\<lparr>lr_Scope := clipped (lr_Scope r), lr_Input := clipped (lr_Input r), lr_Fingerprint := take 33 (lr_Fingerprint r),
     lr_Result := clipped (lr_Result r)\<rparr>"

record command_env =
  ce_Reader :: json_reader
  ce_Summary :: "gostring \<Rightarrow> (int \<times> int list) option"
  ce_Digest :: "gostring \<Rightarrow> gostring"

definition lookup_result :: "command_env \<Rightarrow> command_run \<Rightarrow> ledger_row \<Rightarrow> command_error + int list" where
  [go_eval]: "lookup_result env r row =
     (if lr_Version row \<noteq> 1 \<or> lr_Status row \<noteq> 1 \<or> many_bytes (length (lr_Scope row)) \<or> many_bytes (length (lr_Input row)) \<or>
         many_bytes (length (lr_Result row)) \<or> length (lr_Fingerprint row) \<noteq> 32
      then Inl RecordCorrupt
      else case commandFingerprint (ce_Reader env) (ce_Digest env) (lr_Input row) of
        None \<Rightarrow> Inl RecordCorrupt
      | Some actual \<Rightarrow>
          if lr_Fingerprint row \<noteq> actual then Inl RecordCorrupt
          else if lr_Scope row \<noteq> cst_Scope (rn_Store r) \<or> lr_Input row \<noteq> rn_Input r \<or> lr_Fingerprint row \<noteq> rn_Fingerprint r
          then Inl CommandIdentityConflict
          else case ce_Summary env (lr_Result row) of
            None \<Rightarrow> Inl RecordCorrupt
          | Some (version, counts) \<Rightarrow>
              if version \<noteq> 1 \<or> length counts \<noteq> length (rn_Requests r) \<or> list_ex (\<lambda>n. n < 0) counts \<or>
                 marshal (summary_json version counts) \<noteq> lr_Result row
              then Inl RecordCorrupt else Inr counts)"

section \<open>A run\<close>

text \<open>What a run asks of the database and of its context, and the answers.\<close>

datatype db_request =
    AskLedger ledger_key
  | OpenTx
  | RebindPlans
  | InsertLedger ledger_key ledger_row
  | RunStatement command_request
  | UpdateLedger ledger_key gostring
  | CheckContext
  | CommitTx
  | RollbackTx

datatype answer = Ok | Failed command_error | NoRow | FoundRow ledger_row | RowCount "command_error + int"

datatype phase =
    Lookup
  | Opening
  | Rebinding
  | Reserving
  | Executing "int list"
  | Saving "int list"
  | CheckingContext "int list"
  | Committing "int list"
  | RollingBack command_error bool
  | Relooking
  | Ended "command_error + int list \<times> bool"

definition asks :: "command_run \<Rightarrow> phase \<Rightarrow> db_request option" where
  [go_eval]: "asks r p =
     (case p of
        Lookup \<Rightarrow> Some (AskLedger (run_key r))
      | Opening \<Rightarrow> Some OpenTx
      | Rebinding \<Rightarrow> Some RebindPlans
      | Reserving \<Rightarrow> Some (InsertLedger (run_key r) (reserved_row r))
      | Executing counts \<Rightarrow> Some (RunStatement (rn_Requests r ! length counts))
      | Saving counts \<Rightarrow> Some (UpdateLedger (run_key r) (result_text counts))
      | CheckingContext counts \<Rightarrow> Some CheckContext
      | Committing counts \<Rightarrow> Some CommitTx
      | RollingBack e duplicate \<Rightarrow> Some RollbackTx
      | Relooking \<Rightarrow> Some (AskLedger (run_key r))
      | Ended out \<Rightarrow> None)"

text \<open>Text and arguments of the statements on the ledger.\<close>

definition ledger_statement :: "command_store \<Rightarrow> db_request \<Rightarrow> (gostring \<times> goval list) option" where
  [go_eval]: "ledger_statement st q =
     (let bytes = (\<lambda>s. VBytes (Some s)); limit = nat_str (CommandMaxBytes + 1) in
      case q of
        AskLedger (hash, oid) \<Rightarrow> Some
          (store_sql (cst_Dialect st) (''SELECT format_version, status, substring(canonical_scope,1,'' @ limit @ ''), substring(command_input,1,'' @ limit @
             ''), substring(fingerprint,1,33), substring(result,1,'' @ limit @ '') FROM '' @ cst_Table st @ '' WHERE scope_hash = ? AND operation_id = ?''),
           [bytes hash, bytes oid])
      | InsertLedger (hash, oid) row \<Rightarrow> Some
          (store_sql (cst_Dialect st) (''INSERT INTO '' @ cst_Table st @ '' (scope_hash, operation_id, format_version, canonical_scope, command_input,'' @
             '' fingerprint, status, result) VALUES (?, ?, 1, ?, ?, ?, 0, ?)''),
           [bytes hash, bytes oid, bytes (lr_Scope row), bytes (lr_Input row), bytes (lr_Fingerprint row), bytes []])
      | UpdateLedger (hash, oid) result \<Rightarrow> Some
          (store_sql (cst_Dialect st) (''UPDATE '' @ cst_Table st @ '' SET result = ?, status = 1 WHERE scope_hash = ? AND operation_id = ? AND status = 0''),
           [bytes result, bytes hash, bytes oid])
      | _ \<Rightarrow> None)"

definition reservationDuplicate :: "command_store \<Rightarrow> command_error \<Rightarrow> bool" where
  [go_eval]: "reservationDuplicate st e \<longleftrightarrow>
     (if cst_Dialect st = MySQLDialect then e = DriverFailed (MySQLError 1062)
      else e = DriverFailed (PqError ''23505'' (commandTable @ ''_pkey'') commandTable (cst_Schema st)))"

definition commandOne :: "command_error + int \<Rightarrow> command_error option" where
  [go_eval]: "commandOne c = (case c of Inl e \<Rightarrow> Some e | Inr n \<Rightarrow> if n \<noteq> 1 then Some RecordCorrupt else None)"

text \<open>The next statement, or the result when all have run.\<close>

definition after_counts :: "command_run \<Rightarrow> int list \<Rightarrow> phase" where
  [go_eval]: "after_counts r counts =
     (if length counts < length (rn_Requests r) then Executing counts
      else if many_bytes (length (result_text counts)) then RollingBack RecordCorrupt False
      else Saving counts)"

definition looked :: "command_env \<Rightarrow> command_run \<Rightarrow> ledger_row \<Rightarrow> phase" where
  [go_eval]: "looked env r row = Ended (case lookup_result env r row of Inl e \<Rightarrow> Inl e | Inr counts \<Rightarrow> Inr (counts, False))"

definition advance :: "command_env \<Rightarrow> command_run \<Rightarrow> phase \<Rightarrow> answer \<Rightarrow> phase" where
  [go_eval]: "advance env r p a =
     (case p of
        Lookup \<Rightarrow> (case a of FoundRow row \<Rightarrow> looked env r row | NoRow \<Rightarrow> Opening | Failed e \<Rightarrow> Ended (Inl e) | _ \<Rightarrow> p)
      | Opening \<Rightarrow> (case a of Ok \<Rightarrow> Rebinding | Failed e \<Rightarrow> Ended (Inl e) | _ \<Rightarrow> p)
      | Rebinding \<Rightarrow> (case a of Ok \<Rightarrow> Reserving | Failed e \<Rightarrow> RollingBack e False | _ \<Rightarrow> p)
      | Reserving \<Rightarrow>
          (case a of
             Failed e \<Rightarrow> RollingBack e True
           | RowCount c \<Rightarrow> (case commandOne c of Some e \<Rightarrow> RollingBack e False | None \<Rightarrow> after_counts r [])
           | _ \<Rightarrow> p)
      | Executing counts \<Rightarrow>
          (case a of
             Failed e \<Rightarrow> RollingBack e False
           | RowCount (Inl e) \<Rightarrow> RollingBack e False
           | RowCount (Inr n) \<Rightarrow> if n < 0 then RollingBack RecordCorrupt False else after_counts r (counts @ [n])
           | _ \<Rightarrow> p)
      | Saving counts \<Rightarrow>
          (case a of
             Failed e \<Rightarrow> RollingBack e False
           | RowCount c \<Rightarrow> (case commandOne c of Some e \<Rightarrow> RollingBack e False | None \<Rightarrow> CheckingContext counts)
           | _ \<Rightarrow> p)
      | CheckingContext counts \<Rightarrow> (case a of Ok \<Rightarrow> Committing counts | Failed e \<Rightarrow> RollingBack e False | _ \<Rightarrow> p)
      | Committing counts \<Rightarrow> (case a of Ok \<Rightarrow> Ended (Inr (counts, True)) | Failed e \<Rightarrow> Ended (Inl (CommandOutcomeUnknown [e])) | _ \<Rightarrow> p)
      | RollingBack e duplicate \<Rightarrow>
          (case a of
             Ok \<Rightarrow> if duplicate \<and> reservationDuplicate (rn_Store r) e then Relooking else Ended (Inl e)
           | Failed f \<Rightarrow> Ended (Inl (CommandOutcomeUnknown [e, f]))
           | _ \<Rightarrow> p)
      | Relooking \<Rightarrow>
          (case a of FoundRow row \<Rightarrow> looked env r row | NoRow \<Rightarrow> Ended (Inl (CommandOutcomeUnknown [])) | Failed e \<Rightarrow> Ended (Inl e) | _ \<Rightarrow> p)
      | Ended out \<Rightarrow> p)"

text \<open>
  The checks before the first lookup: the context, the input, a plan of every request, the ledger and, in the order of the
  requests, each of their tables once.
\<close>

fun table_checks :: "(gostring \<Rightarrow> command_error option) \<Rightarrow> gostring list \<Rightarrow> gostring list \<Rightarrow> command_error option" where
  "table_checks plain seen [] = None"
| "table_checks plain seen (t # ts) =
     (if t \<in> set seen then table_checks plain seen ts
      else case plain t of Some e \<Rightarrow> Some e | None \<Rightarrow> table_checks plain (t # seen) ts)"

definition request_table :: "command_request \<Rightarrow> gostring" where
  [go_eval]: "request_table q = cr_TableParts q ! 1"

fun first_refusal :: "('a \<Rightarrow> command_error option) \<Rightarrow> 'a list \<Rightarrow> command_error option" where
  "first_refusal f [] = None"
| "first_refusal f (x # xs) = (case f x of Some e \<Rightarrow> Some e | None \<Rightarrow> first_refusal f xs)"

definition prepare_run ::
  "command_env \<Rightarrow> (command_request \<Rightarrow> command_error option) \<Rightarrow> command_error option \<Rightarrow> (gostring \<Rightarrow> command_error option) \<Rightarrow> command_error option \<Rightarrow>
     command_store \<Rightarrow> command \<Rightarrow> command_error + command_run" where
  [go_eval]: "prepare_run env planned bad_ledger plain cancelled st c =
     (if cst_Scope st = [] then Inl NotOwned
      else case cancelled of
        Some e \<Rightarrow> Inl e
      | None \<Rightarrow>
          (case snapshotCommand c (cst_Schema st) of
             None \<Rightarrow> Inl InputRefused
           | Some (input, requests) \<Rightarrow>
               (case first_refusal planned requests of
                  Some e \<Rightarrow> Inl e
                | None \<Rightarrow>
                    (case bad_ledger of
                       Some e \<Rightarrow> Inl e
                     | None \<Rightarrow>
                         (case table_checks plain [] (map request_table requests) of
                            Some e \<Rightarrow> Inl e
                          | None \<Rightarrow>
                              (case commandFingerprint (ce_Reader env) (ce_Digest env) input of
                                 None \<Rightarrow> Inl RecordCorrupt
                               | Some fp \<Rightarrow> Inr \<lparr>rn_Store = st, rn_ID = cm_ID c, rn_Input = input, rn_Fingerprint = fp,
                                   rn_Requests = requests\<rparr>))))))"

section \<open>The database\<close>

text \<open>
  What a database with the ledger's table does, as documented: a row is inserted only when no committed or open transaction
  has its key, a transaction's rows and statements appear together when it commits, a commit that fails may or may not have
  happened, and an open transaction may be lost.  \<^term>\<open>ld_Log\<close> has the committed transactions with the statements each one ran.
\<close>

record open_tx =
  tx_Rows :: "ledger_key \<rightharpoonup> ledger_row"
  tx_Work :: "command_request list"

record ledger_db =
  ld_Rows :: "ledger_key \<rightharpoonup> ledger_row"
  ld_Open :: "nat \<rightharpoonup> open_tx"
  ld_Log :: "(nat \<times> command_request list) list"

definition empty_ledger :: ledger_db where
  [go_eval]: "empty_ledger = \<lparr>ld_Rows = Map.empty, ld_Open = Map.empty, ld_Log = []\<rparr>"

definition close_tx :: "nat \<Rightarrow> ledger_db \<Rightarrow> ledger_db" where
  [go_eval]: "close_tx a d = d\<lparr>ld_Open := (ld_Open d)(a := None)\<rparr>"

definition commit_tx :: "nat \<Rightarrow> open_tx \<Rightarrow> ledger_db \<Rightarrow> ledger_db" where
  [go_eval]: "commit_tx a t d = close_tx a (d\<lparr>ld_Rows := ld_Rows d ++ tx_Rows t, ld_Log := ld_Log d @ [(a, tx_Work t)]\<rparr>)"

definition put_tx :: "nat \<Rightarrow> open_tx \<Rightarrow> ledger_db \<Rightarrow> ledger_db" where
  [go_eval]: "put_tx a t d = d\<lparr>ld_Open := (ld_Open d)(a := Some t)\<rparr>"

definition key_free :: "ledger_key \<Rightarrow> ledger_db \<Rightarrow> bool" where
  "key_free k d \<longleftrightarrow> ld_Rows d k = None \<and> (\<forall>a t. ld_Open d a = Some t \<longrightarrow> tx_Rows t k = None)"

text \<open>Transactions are named by the run that opens them; no request is an event of the database's own.\<close>

inductive ledger_step :: "ledger_db \<Rightarrow> nat \<Rightarrow> (db_request \<times> answer) option \<Rightarrow> ledger_db \<Rightarrow> bool" where
  found: "ld_Rows d k = Some row \<Longrightarrow> ledger_step d a (Some (AskLedger k, FoundRow (clip_row row))) d"
| missing: "ld_Rows d k = None \<Longrightarrow> ledger_step d a (Some (AskLedger k, NoRow)) d"
| opens: "ld_Open d a = None \<Longrightarrow> ledger_step d a (Some (OpenTx, Ok)) (put_tx a \<lparr>tx_Rows = Map.empty, tx_Work = []\<rparr> d)"
| rebinds: "ledger_step d a (Some (RebindPlans, Ok)) d"
| inserts: "ld_Open d a = Some t \<Longrightarrow> key_free k d \<Longrightarrow>
    ledger_step d a (Some (InsertLedger k row, RowCount c)) (put_tx a (t\<lparr>tx_Rows := (tx_Rows t)(k \<mapsto> row)\<rparr>) d)"
| works: "ld_Open d a = Some t \<Longrightarrow> ledger_step d a (Some (RunStatement q, RowCount c)) (put_tx a (t\<lparr>tx_Work := tx_Work t @ [q]\<rparr>) d)"
| updates: "ld_Open d a = Some t \<Longrightarrow> tx_Rows t k = Some row \<Longrightarrow> lr_Status row = 0 \<Longrightarrow>
    ledger_step d a (Some (UpdateLedger k text, RowCount c)) (put_tx a (t\<lparr>tx_Rows := (tx_Rows t)(k \<mapsto> row\<lparr>lr_Status := 1, lr_Result := text\<rparr>)\<rparr>) d)"
| in_time: "ledger_step d a (Some (CheckContext, Ok)) d"
| commits: "ld_Open d a = Some t \<Longrightarrow> ledger_step d a (Some (CommitTx, Ok)) (commit_tx a t d)"
| commit_in_doubt: "ld_Open d a = Some t \<Longrightarrow> ledger_step d a (Some (CommitTx, Failed e)) (commit_tx a t d)"
| rolls_back: "ledger_step d a (Some (RollbackTx, Ok)) (close_tx a d)"
| fails: "ledger_step d a (Some (q, Failed e)) d" if "q \<noteq> CommitTx" "q \<noteq> RollbackTx"
| fails_closed: "ledger_step d a (Some (q, Failed e)) (close_tx a d)"
| loses: "ledger_step d a None (close_tx a d)"

inductive_cases ledger_stepE: "ledger_step d a ev d'"
inductive_simps ledger_lost: "ledger_step d a None d'"

text \<open>A database serves the ledger when what it does is, read as rows, transactions and log, one of these steps.\<close>

definition serves_ledger :: "('d \<Rightarrow> nat \<Rightarrow> (db_request \<times> answer) option \<Rightarrow> 'd \<Rightarrow> bool) \<Rightarrow> ('d \<Rightarrow> ledger_db) \<Rightarrow> bool" where
  "serves_ledger db shown \<longleftrightarrow> (\<forall>d a ev d'. db d a ev d' \<longrightarrow> ledger_step (shown d) a ev (shown d'))"

section \<open>Runs that interleave\<close>

record 'd command_system =
  sy_Db :: 'd
  sy_Runs :: "(command_run \<times> phase) list"

inductive system_step ::
  "command_env \<Rightarrow> ('d \<Rightarrow> nat \<Rightarrow> (db_request \<times> answer) option \<Rightarrow> 'd \<Rightarrow> bool) \<Rightarrow> 'd command_system \<Rightarrow> 'd command_system \<Rightarrow> bool" for env db where
  run_moves: "a < length (sy_Runs s) \<Longrightarrow> sy_Runs s ! a = (r, p) \<Longrightarrow> asks r p = Some q \<Longrightarrow> db (sy_Db s) a (Some (q, ans)) d' \<Longrightarrow>
     system_step env db s \<lparr>sy_Db = d', sy_Runs = (sy_Runs s)[a := (r, advance env r p ans)]\<rparr>"
| database_moves: "db (sy_Db s) a None d' \<Longrightarrow> system_step env db s (s\<lparr>sy_Db := d'\<rparr>)"

definition system_start :: "'d \<Rightarrow> command_run list \<Rightarrow> 'd command_system" where
  [go_eval]: "system_start d rs = \<lparr>sy_Db = d, sy_Runs = map (\<lambda>r. (r, Lookup)) rs\<rparr>"

abbreviation system_reaches ::
  "command_env \<Rightarrow> ('d \<Rightarrow> nat \<Rightarrow> (db_request \<times> answer) option \<Rightarrow> 'd \<Rightarrow> bool) \<Rightarrow> 'd command_system \<Rightarrow> 'd command_system \<Rightarrow> bool" where
  "system_reaches env db \<equiv> (system_step env db)\<^sup>*\<^sup>*"

section \<open>The invariant\<close>

definition saved_row :: "command_run \<Rightarrow> int list \<Rightarrow> ledger_row" where
  "saved_row r counts = (reserved_row r)\<lparr>lr_Status := 1, lr_Result := result_text counts\<rparr>"

text \<open>What an open transaction holds in each phase of its run.\<close>

fun tx_fits :: "command_run \<Rightarrow> phase \<Rightarrow> open_tx \<Rightarrow> bool" where
  "tx_fits r Rebinding t \<longleftrightarrow> tx_Rows t = Map.empty \<and> tx_Work t = []"
| "tx_fits r Reserving t \<longleftrightarrow> tx_Rows t = Map.empty \<and> tx_Work t = []"
| "tx_fits r (Executing counts) t \<longleftrightarrow> tx_Rows t = [run_key r \<mapsto> reserved_row r] \<and> length counts < length (rn_Requests r) \<and>
     tx_Work t = take (length counts) (rn_Requests r)"
| "tx_fits r (Saving counts) t \<longleftrightarrow> tx_Rows t = [run_key r \<mapsto> reserved_row r] \<and> tx_Work t = rn_Requests r"
| "tx_fits r (CheckingContext counts) t \<longleftrightarrow> tx_Rows t = [run_key r \<mapsto> saved_row r counts] \<and> tx_Work t = rn_Requests r"
| "tx_fits r (Committing counts) t \<longleftrightarrow> tx_Rows t = [run_key r \<mapsto> saved_row r counts] \<and> tx_Work t = rn_Requests r"
| "tx_fits r (RollingBack e duplicate) t \<longleftrightarrow> True"
| "tx_fits r p t \<longleftrightarrow> False"

text \<open>The phases in which a run may have committed.\<close>

fun may_have_committed :: "phase \<Rightarrow> bool" where
  "may_have_committed (Ended (Inr (counts, applied))) \<longleftrightarrow> applied"
| "may_have_committed (Ended (Inl (CommandOutcomeUnknown es))) \<longleftrightarrow> True"
| "may_have_committed p \<longleftrightarrow> False"

definition replayed_row :: "command_env \<Rightarrow> command_run \<Rightarrow> int list \<Rightarrow> ledger_row \<Rightarrow> bool" where
  "replayed_row env r counts row \<longleftrightarrow> lookup_result env r (clip_row row) = Inr counts"

definition run_sound :: "command_env \<Rightarrow> ledger_db \<Rightarrow> nat \<Rightarrow> command_run \<Rightarrow> phase \<Rightarrow> bool" where
  "run_sound env d a r p \<longleftrightarrow>
     (\<forall>t. ld_Open d a = Some t \<longrightarrow> tx_fits r p t) \<and> (a \<in> fst ` set (ld_Log d) \<longrightarrow> may_have_committed p) \<and>
     (\<forall>counts. p = Ended (Inr (counts, True)) \<longrightarrow> a \<in> fst ` set (ld_Log d) \<and> ld_Rows d (run_key r) = Some (saved_row r counts)) \<and>
     (\<forall>counts. p = Ended (Inr (counts, False)) \<longrightarrow> (\<exists>row. ld_Rows d (run_key r) = Some row \<and> replayed_row env r counts row))"

definition log_sound :: "command_run list \<Rightarrow> ledger_db \<Rightarrow> bool" where
  "log_sound rs d \<longleftrightarrow>
     (\<forall>(a, work) \<in> set (ld_Log d). a < length rs \<and> work = rn_Requests (rs ! a) \<and>
        (\<exists>counts. ld_Rows d (run_key (rs ! a)) = Some (saved_row (rs ! a) counts))) \<and>
     distinct (map (\<lambda>e. run_key (rs ! fst e)) (ld_Log d)) \<and>
     dom (ld_Rows d) = (\<lambda>e. run_key (rs ! fst e)) ` set (ld_Log d)"

text \<open>No two transactions, open or committed, have a row of the same key.\<close>

definition holds_key :: "ledger_db \<Rightarrow> nat \<Rightarrow> ledger_key \<Rightarrow> bool" where
  "holds_key d a k \<longleftrightarrow> (case ld_Open d a of None \<Rightarrow> False | Some t \<Rightarrow> tx_Rows t k \<noteq> None)"

definition tx_keys :: "ledger_db \<Rightarrow> bool" where
  "tx_keys d \<longleftrightarrow> (\<forall>a k. holds_key d a k \<longrightarrow> ld_Rows d k = None \<and> (\<forall>b. holds_key d b k \<longrightarrow> b = a))"

definition system_sound :: "command_env \<Rightarrow> command_run list \<Rightarrow> ledger_db \<Rightarrow> (command_run \<times> phase) list \<Rightarrow> bool" where
  "system_sound env rs d runs \<longleftrightarrow>
     map fst runs = rs \<and> tx_keys d \<and> (\<forall>a < length runs. run_sound env d a (rs ! a) (snd (runs ! a))) \<and> log_sound rs d"

lemmas db_parts = close_tx_def commit_tx_def put_tx_def

lemma holds_key_simps [simp]:
  "holds_key (close_tx a d) b k \<longleftrightarrow> b \<noteq> a \<and> holds_key d b k"
  "holds_key (commit_tx a t d) b k \<longleftrightarrow> b \<noteq> a \<and> holds_key d b k"
  "holds_key (put_tx a t d) b k \<longleftrightarrow> (if b = a then tx_Rows t k \<noteq> None else holds_key d b k)"
  by (simp_all add: holds_key_def db_parts)

lemma key_free_holds: "key_free k d \<longleftrightarrow> ld_Rows d k = None \<and> (\<forall>a. \<not> holds_key d a k)"
  by (auto simp: key_free_def holds_key_def split: option.splits)

lemma open_holds: "ld_Open d a = Some t \<Longrightarrow> holds_key d a k \<longleftrightarrow> tx_Rows t k \<noteq> None"
  by (simp add: holds_key_def)

lemma tx_keys_kept:
  assumes "tx_keys d" "\<And>b k. holds_key d' b k \<Longrightarrow> holds_key d b k" "ld_Rows d' = ld_Rows d"
  shows "tx_keys d'"
  using assms unfolding tx_keys_def by metis

lemma tx_keys_inserted:
  assumes "tx_keys d" "key_free k d" "\<And>b l. holds_key d' b l \<longleftrightarrow> holds_key d b l \<or> b = a \<and> l = k" "ld_Rows d' = ld_Rows d"
  shows "tx_keys d'"
  using assms unfolding tx_keys_def key_free_holds by metis

lemma commit_rows: "ld_Rows (commit_tx a t d) k = (case tx_Rows t k of None \<Rightarrow> ld_Rows d k | Some row \<Rightarrow> Some row)"
  by (simp add: db_parts map_add_def)

lemma tx_keys_committed:
  assumes "tx_keys d" "ld_Open d a = Some t"
  shows "tx_keys (commit_tx a t d)"
proof -
  have "tx_Rows t k = None" if "holds_key d b k" "b \<noteq> a" for b k
    using assms that open_holds [OF assms(2), of k] unfolding tx_keys_def by metis
  then show ?thesis
    using assms(1) unfolding tx_keys_def holds_key_simps(2) commit_rows by (metis option.case(1))
qed

lemma step_keys: "ledger_step d a ev d' \<Longrightarrow> tx_keys d \<Longrightarrow> tx_keys d'"
proof (induction rule: ledger_step.induct)
  case (opens d a)
  then show ?case by (intro tx_keys_kept [OF opens(2)]) (auto split: if_splits, simp add: put_tx_def)
next
  case (inserts d a t k row c)
  show ?case
  proof (rule tx_keys_inserted [OF inserts(3) inserts(2)])
    show "holds_key (put_tx a (t\<lparr>tx_Rows := (tx_Rows t)(k \<mapsto> row)\<rparr>) d) b l \<longleftrightarrow> holds_key d b l \<or> b = a \<and> l = k" for b l
      using open_holds [OF inserts(1), of l] by (cases "b = a"; cases "l = k") simp_all
  qed (simp add: put_tx_def)
next
  case (works d a t q c)
  then show ?case by (intro tx_keys_kept [OF works(2)]) (auto simp: open_holds split: if_splits, simp add: put_tx_def)
next
  case (updates d a t k row "text" c)
  then show ?case by (intro tx_keys_kept [OF updates(4)]) (auto simp: open_holds split: if_splits, simp add: put_tx_def)
next
  case (commits d a t)
  then show ?case by (simp add: tx_keys_committed)
next
  case (commit_in_doubt d a t e)
  then show ?case by (simp add: tx_keys_committed)
next
  case (rolls_back d a)
  then show ?case by (intro tx_keys_kept [OF rolls_back(1)]) (auto simp: close_tx_def holds_key_def split: if_splits)
next
  case (fails_closed d a q e)
  then show ?case by (intro tx_keys_kept [OF fails_closed(1)]) (auto simp: close_tx_def holds_key_def split: if_splits)
next
  case (loses d a)
  then show ?case by (intro tx_keys_kept [OF loses(1)]) (auto simp: close_tx_def holds_key_def split: if_splits)
qed

lemma committed_new: "tx_keys d \<Longrightarrow> ld_Open d a = Some t \<Longrightarrow> ld_Rows d k = Some row \<Longrightarrow> tx_Rows t k = None"
  using open_holds [of d a t k] unfolding tx_keys_def by (metis option.distinct(1))

lemma step_rows: "ledger_step d a ev d' \<Longrightarrow> tx_keys d \<Longrightarrow> ld_Rows d k = Some row \<Longrightarrow> ld_Rows d' k = Some row"
  by (induction rule: ledger_step.induct) (simp_all add: commit_rows committed_new, simp_all add: db_parts)

lemma step_others:
  "ledger_step d a ev d' \<Longrightarrow> b \<noteq> a \<Longrightarrow> ld_Open d' b = ld_Open d b \<and> (b \<in> fst ` set (ld_Log d') \<longleftrightarrow> b \<in> fst ` set (ld_Log d))"
  by (induction rule: ledger_step.induct) (auto simp: db_parts)

lemma other_run_sound: "ledger_step d a ev d' \<Longrightarrow> tx_keys d \<Longrightarrow> b \<noteq> a \<Longrightarrow> run_sound env d b r p \<Longrightarrow> run_sound env d' b r p"
  using step_others [of d a ev d' b] step_rows [of d a ev d'] unfolding run_sound_def by (auto; blast)

section \<open>The invariant is kept\<close>

lemma fits_phase: "tx_fits r p t \<Longrightarrow> p \<noteq> Lookup \<and> p \<noteq> Opening \<and> p \<noteq> Relooking \<and> (\<forall>out. p \<noteq> Ended out)"
  by auto

lemma after_counts_fits:
  assumes "tx_Rows t = [run_key r \<mapsto> reserved_row r]" "tx_Work t = take (length counts) (rn_Requests r)" "length counts \<le> length (rn_Requests r)"
  shows "tx_fits r (after_counts r counts) t"
  using assms by (auto simp: after_counts_def)

lemma after_counts_open: "\<not> may_have_committed (after_counts r counts)" "after_counts r counts \<noteq> Ended out"
  by (simp_all add: after_counts_def)

lemma looked_sound:
  assumes "ld_Rows d k = Some row" "k = run_key r" "a \<notin> fst ` set (ld_Log d)" "ld_Open d a = None"
  shows "run_sound env d a r (looked env r (clip_row row))"
  using assms by (auto simp: run_sound_def looked_def replayed_row_def split: sum.splits)

lemma run_sound_plain:
  assumes "a \<notin> fst ` set (ld_Log d)" "\<And>t. ld_Open d a = Some t \<Longrightarrow> tx_fits r p t" "\<And>out. p \<noteq> Ended (Inr out)"
  shows "run_sound env d a r p"
  using assms by (auto simp: run_sound_def)

lemma closed_parts [simp]: "ld_Open (close_tx a d) a = None" "ld_Log (close_tx a d) = ld_Log d" "ld_Rows (close_tx a d) = ld_Rows d"
  "ld_Log (put_tx a t d) = ld_Log d" "ld_Rows (put_tx a t d) = ld_Rows d" "ld_Open (put_tx a t d) a = Some t"
  "ld_Open (commit_tx a t d) a = None" "ld_Log (commit_tx a t d) = ld_Log d @ [(a, tx_Work t)]"
  by (simp_all add: db_parts)

lemma not_committed: "run_sound env d a r p \<Longrightarrow> \<not> may_have_committed p \<Longrightarrow> a \<notin> fst ` set (ld_Log d)"
  by (auto simp: run_sound_def)

lemma lookup_sound:
  assumes "ledger_step d a (Some (AskLedger (run_key r), ans)) d'" "a \<notin> fst ` set (ld_Log d)" "ld_Open d a = None" "p = Lookup \<or> p = Relooking"
  shows "run_sound env d' a r (advance env r p ans)"
proof -
  from assms(1) consider (found) row where "d' = d" "ans = FoundRow (clip_row row)" "ld_Rows d (run_key r) = Some row"
    | (missing) "d' = d" "ans = NoRow" | (failed) e where "ans = Failed e" "d' = d \<or> d' = close_tx a d"
    by (cases rule: ledger_stepE) blast+
  then show ?thesis
  proof cases
    case found
    then show ?thesis using assms(2-4) by (auto simp: advance_def looked_sound [OF _ refl])
  next
    case missing
    then show ?thesis using assms(2-4) by (intro run_sound_plain) (auto simp: advance_def)
  next
    case failed
    then show ?thesis using assms(2-4) by (intro run_sound_plain) (auto simp: advance_def)
  qed
qed

lemma own_run_sound:
  assumes "run_sound env d a r p" "asks r p = Some q" "ledger_step d a (Some (q, ans)) d'"
  shows "run_sound env d' a r (advance env r p ans)"
proof -
  have fits: "\<And>t. ld_Open d a = Some t \<Longrightarrow> tx_fits r p t" using assms(1) by (simp add: run_sound_def)
  have out: "a \<notin> fst ` set (ld_Log d)" if "\<not> may_have_committed p" using not_committed [OF assms(1) that] .
  show ?thesis
  proof (cases p)
    case Lookup
    then have q: "q = AskLedger (run_key r)" using assms(2) by (simp add: asks_def)
    have o: "a \<notin> fst ` set (ld_Log d)" "ld_Open d a = None" using out fits Lookup by (auto dest: fits_phase intro: ccontr)
    show ?thesis using lookup_sound [OF assms(3)[unfolded q] o] Lookup by simp
  next
    case Relooking
    then have q: "q = AskLedger (run_key r)" using assms(2) by (simp add: asks_def)
    have o: "a \<notin> fst ` set (ld_Log d)" "ld_Open d a = None" using out fits Relooking by (auto dest: fits_phase intro: ccontr)
    show ?thesis using lookup_sound [OF assms(3)[unfolded q] o] Relooking by simp
  next
    case Opening
    then have q: "q = OpenTx" using assms(2) by (simp add: asks_def)
    have o: "a \<notin> fst ` set (ld_Log d)" "ld_Open d a = None" using out fits Opening by (auto dest: fits_phase intro: ccontr)
    from assms(3)[unfolded q] show ?thesis
      using o Opening by (cases rule: ledger_stepE) (auto simp: advance_def intro!: run_sound_plain)
  next
    case Rebinding
    then have q: "q = RebindPlans" using assms(2) by (simp add: asks_def)
    have o: "a \<notin> fst ` set (ld_Log d)" using out Rebinding by simp
    from assms(3)[unfolded q] show ?thesis
      using o fits Rebinding by (cases rule: ledger_stepE) (auto simp: advance_def intro!: run_sound_plain)
  next
    case Reserving
    then have q: "q = InsertLedger (run_key r) (reserved_row r)" using assms(2) by (simp add: asks_def)
    have o: "a \<notin> fst ` set (ld_Log d)" using out Reserving by simp
    from assms(3)[unfolded q] show ?thesis
      using o fits Reserving
      by (cases rule: ledger_stepE) (auto simp: advance_def after_counts_open intro!: run_sound_plain after_counts_fits split: option.splits)
  next
    case (Executing counts)
    then have q: "q = RunStatement (rn_Requests r ! length counts)" using assms(2) by (simp add: asks_def)
    have o: "a \<notin> fst ` set (ld_Log d)" using out Executing by simp
    from assms(3)[unfolded q] show ?thesis
      using o fits Executing
      by (cases rule: ledger_stepE)
        (auto simp: advance_def after_counts_open take_Suc_conv_app_nth intro!: run_sound_plain after_counts_fits split: sum.splits if_splits)
  next
    case (Saving counts)
    then have q: "q = UpdateLedger (run_key r) (result_text counts)" using assms(2) by (simp add: asks_def)
    have o: "a \<notin> fst ` set (ld_Log d)" using out Saving by simp
    from assms(3)[unfolded q] show ?thesis
      using o fits Saving
      by (cases rule: ledger_stepE) (auto simp: advance_def saved_row_def intro!: run_sound_plain split: option.splits)
  next
    case (CheckingContext counts)
    then have q: "q = CheckContext" using assms(2) by (simp add: asks_def)
    have o: "a \<notin> fst ` set (ld_Log d)" using out CheckingContext by simp
    from assms(3)[unfolded q] show ?thesis
      using o fits CheckingContext by (cases rule: ledger_stepE) (auto simp: advance_def intro!: run_sound_plain)
  next
    case (Committing counts)
    then have q: "q = CommitTx" using assms(2) by (simp add: asks_def)
    have o: "a \<notin> fst ` set (ld_Log d)" using out Committing by simp
    from assms(3)[unfolded q] show ?thesis
      using o fits Committing
      by (cases rule: ledger_stepE) (auto simp: advance_def run_sound_def commit_rows)
  next
    case (RollingBack e duplicate)
    then have q: "q = RollbackTx" using assms(2) by (simp add: asks_def)
    have o: "a \<notin> fst ` set (ld_Log d)" using out RollingBack by simp
    from assms(3)[unfolded q] show ?thesis
      using o fits RollingBack by (cases rule: ledger_stepE) (auto simp: advance_def intro!: run_sound_plain)
  next
    case (Ended out)
    then show ?thesis using assms(2) by (simp add: asks_def)
  qed
qed

lemma closed_run_sound: "run_sound env d a r p \<Longrightarrow> run_sound env (close_tx a d) b r p"
  if "b = a" for b
  using that by (auto simp: run_sound_def)

lemma step_log:
  "ledger_step d a ev d' \<Longrightarrow> ld_Rows d' = ld_Rows d \<and> ld_Log d' = ld_Log d \<or>
     (\<exists>ans t. ev = Some (CommitTx, ans) \<and> ld_Open d a = Some t \<and> d' = commit_tx a t d)"
  by (induction rule: ledger_step.induct) auto

lemma commit_log_sound:
  assumes "log_sound rs d" "tx_keys d" "a < length rs" "ld_Open d a = Some t"
    and "tx_Rows t = [run_key (rs ! a) \<mapsto> saved_row (rs ! a) counts]" "tx_Work t = rn_Requests (rs ! a)"
  shows "log_sound rs (commit_tx a t d)"
proof -
  let ?k = "run_key (rs ! a)"
  have "holds_key d a ?k" using assms(4,5) by (simp add: holds_key_def)
  then have new: "ld_Rows d ?k = None" using assms(2) unfolding tx_keys_def by metis
  have rows: "ld_Rows (commit_tx a t d) = (ld_Rows d)(?k \<mapsto> saved_row (rs ! a) counts)"
    by (rule ext) (simp add: commit_rows assms(5))
  have "?k \<notin> (\<lambda>e. run_key (rs ! fst e)) ` set (ld_Log d)"
    using assms(1) new by (auto simp: log_sound_def dom_def)
  moreover from this have "run_key (rs ! fst e) \<noteq> ?k" if "e \<in> set (ld_Log d)" for e
    using that by (metis imageI)
  ultimately show ?thesis
    using assms(1,3,6) unfolding log_sound_def rows closed_parts by (simp add: split_beta) blast
qed

lemma own_log_sound:
  assumes "log_sound rs d" "tx_keys d" "a < length rs" "run_sound env d a (rs ! a) p" "asks (rs ! a) p = Some q"
    and "ledger_step d a (Some (q, ans)) d'"
  shows "log_sound rs d'"
  using step_log [OF assms(6)]
proof (elim disjE exE conjE)
  assume "ld_Rows d' = ld_Rows d" "ld_Log d' = ld_Log d"
  then show ?thesis using assms(1) by (simp add: log_sound_def)
next
  fix ans' t assume c: "Some (q, ans) = Some (CommitTx, ans')" "ld_Open d a = Some t" "d' = commit_tx a t d"
  then obtain counts where "p = Committing counts" using assms(5) by (auto simp: asks_def split: phase.splits)
  then show ?thesis
    using commit_log_sound [OF assms(1-3) c(2)] assms(4) c by (auto simp: run_sound_def)
qed

lemma system_step_sound:
  assumes "system_step env db s s'" "serves_ledger db shown" "system_sound env rs (shown (sy_Db s)) (sy_Runs s)"
  shows "system_sound env rs (shown (sy_Db s')) (sy_Runs s')"
  using assms(1)
proof cases
  case (run_moves a r p q ans d')
  let ?d = "shown (sy_Db s)"
  have step: "ledger_step ?d a (Some (q, ans)) (shown d')" using assms(2) run_moves by (simp add: serves_ledger_def)
  have rs: "map fst (sy_Runs s) = rs" "tx_keys ?d" "log_sound rs ?d"
    and each: "\<And>b. b < length (sy_Runs s) \<Longrightarrow> run_sound env ?d b (rs ! b) (snd (sy_Runs s ! b))"
    using assms(3) by (simp_all add: system_sound_def)
  have "rs ! a = fst (sy_Runs s ! a)" "a < length rs" using rs(1) run_moves(2) by (metis nth_map, metis length_map)
  then have r: "rs ! a = r" "a < length rs" by (simp_all add: run_moves(3))
  have own: "run_sound env ?d a r p" using each [OF run_moves(2)] unfolding run_moves(3) r(1) by simp
  have "run_sound env (shown d') b (rs ! b) (snd ((sy_Runs s)[a := (r, advance env r p ans)] ! b))" if "b < length (sy_Runs s)" for b
  proof (cases "b = a")
    case True
    then show ?thesis using own_run_sound [OF own run_moves(4) step] run_moves(2) r by simp
  next
    case False
    then show ?thesis using other_run_sound [OF step rs(2) False each [OF that]] that by simp
  qed
  moreover have "map fst ((sy_Runs s)[a := (r, advance env r p ans)]) = rs"
  proof -
    have "map fst ((sy_Runs s)[a := (r, advance env r p ans)]) = rs[a := rs ! a]" using rs(1) r by (simp add: map_update)
    then show ?thesis by simp
  qed
  ultimately show ?thesis
    using step_keys [OF step rs(2)] own_log_sound [OF rs(3,2) r(2), of env p, unfolded r(1), OF own run_moves(4) step]
    by (simp add: system_sound_def run_moves(1))
next
  case (database_moves a d')
  let ?d = "shown (sy_Db s)"
  have "ledger_step ?d a None (shown d')" using assms(2) database_moves by (simp add: serves_ledger_def)
  then have d': "shown d' = close_tx a ?d" by (simp only: ledger_lost)
  have step: "ledger_step ?d a None (close_tx a ?d)" by (rule loses)
  show ?thesis
    using assms(3) step_keys [OF step] other_run_sound [OF step] closed_run_sound [of _ a env ?d] database_moves
    unfolding system_sound_def by (auto simp: d' log_sound_def) metis
qed

lemma system_start_sound: "shown d = empty_ledger \<Longrightarrow> system_sound env rs (shown (sy_Db (system_start d rs))) (sy_Runs (system_start d rs))"
  by (simp add: system_sound_def system_start_def empty_ledger_def tx_keys_def holds_key_def run_sound_def log_sound_def comp_def)

lemma system_reaches_sound:
  assumes "system_reaches env db (system_start d0 rs) s" "serves_ledger db shown" "shown d0 = empty_ledger"
  shows "system_sound env rs (shown (sy_Db s)) (sy_Runs s)"
  using assms(1)
proof (induction rule: rtranclp_induct)
  case base
  then show ?case using system_start_sound [of shown, OF assms(3)] .
next
  case (step y z)
  then show ?case using system_step_sound [OF _ assms(2)] by blast
qed

section \<open>Runs end\<close>

text \<open>At most this many requests are left.\<close>

fun requests_left :: "command_run \<Rightarrow> phase \<Rightarrow> nat" where
  "requests_left r Lookup = length (rn_Requests r) + 9"
| "requests_left r Opening = length (rn_Requests r) + 8"
| "requests_left r Rebinding = length (rn_Requests r) + 7"
| "requests_left r Reserving = length (rn_Requests r) + 6"
| "requests_left r (Executing counts) = length (rn_Requests r) - length counts + 5"
| "requests_left r (Saving counts) = 5"
| "requests_left r (CheckingContext counts) = 4"
| "requests_left r (Committing counts) = 3"
| "requests_left r (RollingBack e duplicate) = 2"
| "requests_left r Relooking = 1"
| "requests_left r (Ended out) = 0"

lemma answered_run_progresses:
  assumes "asks r p = Some q" "ledger_step d a (Some (q, ans)) d'" "\<And>counts. p = Executing counts \<Longrightarrow> length counts < length (rn_Requests r)"
  shows "requests_left r (advance env r p ans) < requests_left r p"
proof -
  have after_left: "requests_left r (after_counts r counts) \<le> length (rn_Requests r) - length counts + 5" for counts
    by (simp add: after_counts_def)
  have looked_left: "requests_left r (looked env r row) = 0" for row by (simp add: looked_def)
  show ?thesis
  proof (cases p)
    case (Executing counts)
    then have less: "length counts < length (rn_Requests r)" using assms(3) by simp
    have next_left: "requests_left r (after_counts r (counts @ [n])) < length (rn_Requests r) - length counts + 5" for n
      using after_left [of "counts @ [n]"] less by simp
    from assms(1,2) Executing show ?thesis
      using next_left less by (auto simp: asks_def advance_def elim!: ledger_stepE split: sum.split)
  next
    case Reserving
    from assms(1,2) Reserving show ?thesis
      using after_left [of "[]"] by (auto simp: asks_def advance_def elim!: ledger_stepE split: option.split)
  qed (use assms(1,2) looked_left in \<open>auto simp: asks_def advance_def elim!: ledger_stepE split: option.split\<close>)
qed

section \<open>Properties\<close>

text \<open>A run that a store of the application prepared.\<close>

definition prepared :: "command_env \<Rightarrow> command_run \<Rightarrow> bool" where
  "prepared env r \<longleftrightarrow> (\<exists>owned d ns tenant schema l planned bad plain cancelled st c.
     NewCommandStore (ce_Digest env) owned d ns tenant schema l = Inr st \<and> go_command c \<and>
     prepare_run env planned bad plain cancelled st c = Inr r)"

lemma prepare_run_parts:
  assumes "prepare_run env planned bad plain cancelled st c = Inr r"
  shows "rn_Store r = st" "snapshotCommand c (cst_Schema st) = Some (rn_Input r, rn_Requests r)"
  using assms by (auto simp: prepare_run_def split: if_splits option.splits)

lemma new_store_scope:
  assumes "NewCommandStore digest owned d ns tenant schema l = Inr st"
  shows "\<exists>ns a. cst_Scope st = marshal (scope_json d (cst_Schema st) ns a)"
proof -
  from assms obtain a s where "st = \<lparr>cst_Dialect = d, cst_Schema = s, cst_Table = qualified_table d s commandTable, cst_Scope = marshal (scope_json d s ns a),
      cst_ScopeHash = digest (''goquent.command.scope.v1'' @ [CHR 0x00] @ marshal (scope_json d s ns a))\<rparr>"
    unfolding NewCommandStore_def Let_def by (simp only: split: if_splits option.splits sum.splits) blast+
  then show ?thesis by auto
qed

lemma prepared_input:
  assumes "prepared env r"
  shows "\<exists>c. go_command c \<and> snapshotCommand c (cst_Schema (rn_Store r)) = Some (rn_Input r, rn_Requests r)"
  using assms prepare_run_parts unfolding prepared_def by metis

lemma prepared_scope:
  assumes "prepared env r"
  shows "\<exists>d ns a. cst_Scope (rn_Store r) = marshal (scope_json d (cst_Schema (rn_Store r)) ns a)"
  using assms prepare_run_parts(1) new_store_scope unfolding prepared_def by metis

lemma same_scope_requests:
  assumes "prepared env r" "prepared env r'" "cst_Scope (rn_Store r) = cst_Scope (rn_Store r')" "rn_Input r = rn_Input r'"
  shows "rn_Requests r = rn_Requests r'"
proof -
  obtain d ns a d' ns' a' where "marshal (scope_json d (cst_Schema (rn_Store r)) ns a) = marshal (scope_json d' (cst_Schema (rn_Store r')) ns' a')"
    using prepared_scope assms(1-3) by metis
  then have "scope_json d (cst_Schema (rn_Store r)) ns a = scope_json d' (cst_Schema (rn_Store r')) ns' a'" by (simp only: marshal_inject)
  then have "cst_Schema (rn_Store r) = cst_Schema (rn_Store r')" by (simp add: scope_json_def)
  then show ?thesis using prepared_input assms(1,2,4) same_input_requests by metis
qed

lemma clipped_small: "\<not> many_bytes (length (clipped s)) \<Longrightarrow> clipped s = s"
proof (cases "many_bytes (length s)")
  case True
  then have "length (clipped s) = CommandMaxBytes + 1" by (simp add: clipped_def many_bytes_def)
  then show "\<not> many_bytes (length (clipped s)) \<Longrightarrow> clipped s = s" by (simp add: many_bytes_def)
qed (simp add: clipped_def)

lemma replay_matches:
  assumes "replayed_row env r counts (saved_row r' counts')"
  shows "cst_Scope (rn_Store r') = cst_Scope (rn_Store r) \<and> rn_Input r' = rn_Input r \<and> counts' = counts"
proof -
  have parts: "lr_Scope (saved_row r' counts') = cst_Scope (rn_Store r')" "lr_Input (saved_row r' counts') = rn_Input r'"
    "lr_Result (saved_row r' counts') = result_text counts'"
    by (simp_all add: saved_row_def reserved_row_def)
  from assms have "clipped (cst_Scope (rn_Store r')) = cst_Scope (rn_Store r)" "clipped (rn_Input r') = rn_Input r"
    "clipped (result_text counts') = marshal (summary_json 1 counts)"
    "\<not> many_bytes (length (clipped (cst_Scope (rn_Store r'))))" "\<not> many_bytes (length (clipped (rn_Input r')))"
    "\<not> many_bytes (length (clipped (result_text counts')))"
    by (auto simp: replayed_row_def lookup_result_def clip_row_def parts split: if_splits option.splits)
  then have "cst_Scope (rn_Store r') = cst_Scope (rn_Store r)" "rn_Input r' = rn_Input r" "marshal (summary_json 1 counts') = marshal (summary_json 1 counts)"
    using clipped_small [of "cst_Scope (rn_Store r')"] clipped_small [of "rn_Input r'"] clipped_small [of "result_text counts'"]
    by (simp_all add: result_text_def)
  moreover from this(3) have "summary_json 1 counts' = summary_json 1 counts" by (simp only: marshal_inject)
  ultimately show ?thesis by (simp add: summary_json_def inj_map_eq_map inj_def)
qed

text \<open>
  C6: However the runs of commands interleave, with each other and with failures, at most one transaction is committed for an
  operation id of a scope.  Every run that returns a result returns the counts of that one transaction, which ran exactly the
  requests of the run's own command; the run is told it applied them exactly when the transaction was its own.  A run
  that returns an error has committed nothing, unless the error says that the outcome is unknown.
\<close>

theorem commands_applied_once:
  assumes "serves_ledger db shown" "shown d0 = empty_ledger" "list_all (prepared env) rs" "system_reaches env db (system_start d0 rs) s"
    and "d = shown (sy_Db s)"
  shows "distinct (map (\<lambda>e. run_key (rs ! fst e)) (ld_Log d)) \<and>
    (\<forall>a < length rs.
       case snd (sy_Runs s ! a) of
         Ended (Inr (counts, applied)) \<Rightarrow>
           \<exists>b. (b, rn_Requests (rs ! a)) \<in> set (ld_Log d) \<and> run_key (rs ! b) = run_key (rs ! a) \<and> rn_Input (rs ! b) = rn_Input (rs ! a) \<and>
             ld_Rows d (run_key (rs ! a)) = Some (saved_row (rs ! b) counts) \<and> (applied \<longleftrightarrow> b = a)
       | Ended (Inl (CommandOutcomeUnknown es)) \<Rightarrow> True
       | _ \<Rightarrow> a \<notin> fst ` set (ld_Log d))"
proof -
  have sound: "system_sound env rs d (sy_Runs s)" using system_reaches_sound [OF assms(4,1,2)] assms(5) by simp
  then have len: "length (sy_Runs s) = length rs" by (auto simp: system_sound_def)
  have "(case snd (sy_Runs s ! a) of
         Ended (Inr (counts, applied)) \<Rightarrow>
           \<exists>b. (b, rn_Requests (rs ! a)) \<in> set (ld_Log d) \<and> run_key (rs ! b) = run_key (rs ! a) \<and> rn_Input (rs ! b) = rn_Input (rs ! a) \<and>
             ld_Rows d (run_key (rs ! a)) = Some (saved_row (rs ! b) counts) \<and> (applied \<longleftrightarrow> b = a)
       | Ended (Inl (CommandOutcomeUnknown es)) \<Rightarrow> True
       | _ \<Rightarrow> a \<notin> fst ` set (ld_Log d))" if a: "a < length rs" for a
  proof -
    have own: "run_sound env d a (rs ! a) (snd (sy_Runs s ! a))" and log: "log_sound rs d"
      using sound a len by (simp_all add: system_sound_def)
    have mine: "(a, rn_Requests (rs ! a)) \<in> set (ld_Log d)" if "a \<in> fst ` set (ld_Log d)"
      using that log by (auto simp: log_sound_def)
    show ?thesis
    proof (cases "\<exists>counts applied. snd (sy_Runs s ! a) = Ended (Inr (counts, applied))")
      case True
      then obtain counts applied where p: "snd (sy_Runs s ! a) = Ended (Inr (counts, applied))" by blast
      show ?thesis
      proof (cases applied)
        case True
        then show ?thesis using own p mine by (auto simp: run_sound_def intro!: exI [of _ a])
      next
        case False
        then obtain row where row: "ld_Rows d (run_key (rs ! a)) = Some row" "replayed_row env (rs ! a) counts row" and out: "a \<notin> fst ` set (ld_Log d)"
          using own p by (auto simp: run_sound_def)
        have "run_key (rs ! a) \<in> (\<lambda>e. run_key (rs ! fst e)) ` set (ld_Log d)"
          using log row(1) unfolding log_sound_def by blast
        then obtain b work where b: "(b, work) \<in> set (ld_Log d)" "run_key (rs ! b) = run_key (rs ! a)" by auto
        then obtain counts' where saved: "b < length rs" "work = rn_Requests (rs ! b)" "ld_Rows d (run_key (rs ! b)) = Some (saved_row (rs ! b) counts')"
          using log by (auto simp: log_sound_def)
        have match: "cst_Scope (rn_Store (rs ! b)) = cst_Scope (rn_Store (rs ! a))" "rn_Input (rs ! b) = rn_Input (rs ! a)" "counts' = counts"
          using replay_matches [of env "rs ! a" counts "rs ! b" counts'] row saved(3) b(2) by simp_all
        have "rn_Requests (rs ! b) = rn_Requests (rs ! a)"
          using same_scope_requests [of env "rs ! b" "rs ! a"] assms(3) a saved(1) match by (simp add: list_all_length)
        moreover have "b \<noteq> a" using b(1) out by force
        ultimately show ?thesis using p b saved match False by auto
      qed
    next
      case False
      have "a \<in> fst ` set (ld_Log d) \<longrightarrow> may_have_committed (snd (sy_Runs s ! a))" using own by (simp add: run_sound_def)
      then show ?thesis using False by (auto split: phase.split sum.split command_error.split)
    qed
  qed
  moreover have "distinct (map (\<lambda>e. run_key (rs ! fst e)) (ld_Log d))" using sound by (simp add: system_sound_def log_sound_def)
  ultimately show ?thesis by blast
qed

text \<open>A database in memory that runs one transaction at a time.\<close>

record memory_db =
  md_Rows :: "(ledger_key \<times> ledger_row) list"
  md_Tx :: "(nat \<times> (ledger_key \<times> ledger_row) list \<times> command_request list) option"
  md_Log :: "(nat \<times> command_request list) list"

definition empty_memory :: memory_db where
  [go_eval]: "empty_memory = \<lparr>md_Rows = [], md_Tx = None, md_Log = []\<rparr>"

definition memory_busy :: answer where
  [go_eval]: "memory_busy = Failed (DriverFailed (OtherDriverError ''busy''))"

definition memory_tx_answer ::
  "memory_db \<Rightarrow> nat \<Rightarrow> (ledger_key \<times> ledger_row) list \<Rightarrow> command_request list \<Rightarrow> db_request \<Rightarrow> answer \<times> memory_db" where
  [go_eval]: "memory_tx_answer d a rows work q =
     (case q of
        InsertLedger k row \<Rightarrow>
          if map_of (md_Rows d) k = None \<and> map_of rows k = None then (RowCount (Inr 1), d\<lparr>md_Tx := Some (a, (k, row) # rows, work)\<rparr>)
          else (Failed (DriverFailed (MySQLError 1062)), d)
      | RunStatement r \<Rightarrow> (RowCount (Inr 1), d\<lparr>md_Tx := Some (a, rows, work @ [r])\<rparr>)
      | UpdateLedger k result \<Rightarrow>
          (case map_of rows k of
             None \<Rightarrow> (memory_busy, d)
           | Some row \<Rightarrow>
               if lr_Status row = 0 then (RowCount (Inr 1), d\<lparr>md_Tx := Some (a, (k, row\<lparr>lr_Status := 1, lr_Result := result\<rparr>) # rows, work)\<rparr>)
               else (memory_busy, d))
      | CommitTx \<Rightarrow> (Ok, \<lparr>md_Rows = rows @ md_Rows d, md_Tx = None, md_Log = md_Log d @ [(a, work)]\<rparr>)
      | RollbackTx \<Rightarrow> (Ok, d\<lparr>md_Tx := None\<rparr>)
      | _ \<Rightarrow> (memory_busy, d))"

definition memory_answer :: "memory_db \<Rightarrow> nat \<Rightarrow> db_request \<Rightarrow> answer \<times> memory_db" where
  [go_eval]: "memory_answer d a q =
     (case q of
        AskLedger k \<Rightarrow> (case map_of (md_Rows d) k of Some row \<Rightarrow> (FoundRow (clip_row row), d) | None \<Rightarrow> (NoRow, d))
      | OpenTx \<Rightarrow> if md_Tx d = None then (Ok, d\<lparr>md_Tx := Some (a, [], [])\<rparr>) else (memory_busy, d)
      | RebindPlans \<Rightarrow> (Ok, d)
      | CheckContext \<Rightarrow> (Ok, d)
      | _ \<Rightarrow> (case md_Tx d of
                Some (b, rows, work) \<Rightarrow> if b = a then memory_tx_answer d a rows work q else (memory_busy, d)
              | None \<Rightarrow> (memory_busy, d)))"

definition memory_step :: "memory_db \<Rightarrow> nat \<Rightarrow> (db_request \<times> answer) option \<Rightarrow> memory_db \<Rightarrow> bool" where
  "memory_step d a ev d' \<longleftrightarrow> (case ev of None \<Rightarrow> False | Some (q, ans) \<Rightarrow> memory_answer d a q = (ans, d'))"

definition memory_shown :: "memory_db \<Rightarrow> ledger_db" where
  "memory_shown d = \<lparr>ld_Rows = map_of (md_Rows d),
     ld_Open = (case md_Tx d of None \<Rightarrow> Map.empty | Some (a, rows, work) \<Rightarrow> [a \<mapsto> \<lparr>tx_Rows = map_of rows, tx_Work = work\<rparr>]), ld_Log = md_Log d\<rparr>"

lemma memory_tx_step:
  assumes "md_Tx d = Some (a, rows, work)" "memory_tx_answer d a rows work q = (ans, d')" "q \<noteq> OpenTx" "q \<noteq> RebindPlans" "q \<noteq> CheckContext"
    "\<And>k. q \<noteq> AskLedger k"
  shows "ledger_step (memory_shown d) a (Some (q, ans)) (memory_shown d')"
proof -
  let ?t = "\<lparr>tx_Rows = map_of rows, tx_Work = work\<rparr>"
  have o: "ld_Open (memory_shown d) a = Some ?t" using assms(1) by (simp add: memory_shown_def)
  have failed: "ledger_step (memory_shown d) a (Some (q, Failed e)) (memory_shown d)" if "q \<noteq> CommitTx" "q \<noteq> RollbackTx" for e
    using that by (rule fails)
  show ?thesis
  proof (cases q)
    case (InsertLedger k row)
    show ?thesis
    proof (cases "map_of (md_Rows d) k = None \<and> map_of rows k = None")
      case True
      then have "key_free k (memory_shown d)" using assms(1) by (auto simp: key_free_def memory_shown_def split: if_splits)
      from inserts [OF o this] show ?thesis
        using True assms(1,2) InsertLedger by (auto simp: memory_tx_answer_def memory_shown_def put_tx_def)
    next
      case False
      then show ?thesis using failed assms(2) InsertLedger by (auto simp: memory_tx_answer_def)
    qed
  next
    case (RunStatement r)
    then show ?thesis using works [OF o, of r "Inr 1"] assms(1,2) by (auto simp: memory_tx_answer_def memory_shown_def put_tx_def)
  next
    case (UpdateLedger k result)
    show ?thesis
    proof (cases "\<exists>row. map_of rows k = Some row \<and> lr_Status row = 0")
      case True
      then obtain row where row: "map_of rows k = Some row" "lr_Status row = 0" by blast
      from updates [OF o, of k row result "Inr 1"] row show ?thesis
        using assms(1,2) UpdateLedger by (auto simp: memory_tx_answer_def memory_shown_def put_tx_def)
    next
      case False
      then show ?thesis using failed assms(2) UpdateLedger by (auto simp: memory_tx_answer_def memory_busy_def split: option.splits)
    qed
  next
    case CommitTx
    then show ?thesis using commits [OF o] assms(1,2) by (auto simp: memory_tx_answer_def memory_shown_def db_parts)
  next
    case RollbackTx
    then show ?thesis using rolls_back [of "memory_shown d" a] assms(1,2) by (auto simp: memory_tx_answer_def memory_shown_def db_parts)
  qed (use assms in auto)
qed

lemma memory_other_step:
  assumes "ld_Open (memory_shown d) a = None"
  shows "ledger_step (memory_shown d) a (Some (q, memory_busy)) (memory_shown d)"
proof -
  have "close_tx a (memory_shown d) = memory_shown d" using assms by (simp add: close_tx_def fun_upd_idem)
  then show ?thesis using fails_closed [of "memory_shown d" a q "DriverFailed (OtherDriverError ''busy'')"] by (simp add: memory_busy_def)
qed

lemma memory_serves: "serves_ledger memory_step memory_shown"
proof -
  have "ledger_step (memory_shown d) a (Some (q, ans)) (memory_shown d')" if m: "memory_answer d a q = (ans, d')" for d a q ans d'
  proof (cases "(\<exists>k. q = AskLedger k) \<or> q = OpenTx \<or> q = RebindPlans \<or> q = CheckContext")
    case True
    have ask: "ledger_step (memory_shown d) a (Some (AskLedger k, FoundRow (clip_row row))) (memory_shown d)" if "map_of (md_Rows d) k = Some row" for k row
      using that by (intro found) (simp add: memory_shown_def)
    have none: "ledger_step (memory_shown d) a (Some (AskLedger k, NoRow)) (memory_shown d)" if "map_of (md_Rows d) k = None" for k
      using that by (intro missing) (simp add: memory_shown_def)
    have open_tx: "ledger_step (memory_shown d) a (Some (OpenTx, Ok)) (memory_shown (d\<lparr>md_Tx := Some (a, [], [])\<rparr>))" if "md_Tx d = None"
      using opens [of "memory_shown d" a] that by (simp add: memory_shown_def put_tx_def)
    have busy: "ledger_step (memory_shown d) a (Some (OpenTx, memory_busy)) (memory_shown d)"
      unfolding memory_busy_def by (rule fails) simp_all
    from True m ask none open_tx busy rebinds [of "memory_shown d" a] in_time [of "memory_shown d" a] show ?thesis
      by (auto simp: memory_answer_def split: option.splits if_splits)
  next
    case False
    show ?thesis
    proof (cases "\<exists>rows work. md_Tx d = Some (a, rows, work)")
      case True
      then obtain rows work where tx: "md_Tx d = Some (a, rows, work)" by blast
      have "memory_tx_answer d a rows work q = (ans, d')" using m False tx by (auto simp: memory_answer_def split: db_request.splits)
      then show ?thesis using memory_tx_step [OF tx] False by blast
    next
      case none: False
      then have "ans = memory_busy" "d' = d" "ld_Open (memory_shown d) a = None"
        using m False by (auto simp: memory_answer_def memory_shown_def split: db_request.splits option.splits if_splits)
      then show ?thesis using memory_other_step by simp
    qed
  qed
  then show ?thesis by (auto simp: serves_ledger_def memory_step_def split: option.splits)
qed

fun drive :: "command_env \<Rightarrow> memory_db command_system \<Rightarrow> nat list \<Rightarrow> memory_db command_system" where
  "drive env s [] = s"
| "drive env s (a # as) =
     (if a < length (sy_Runs s)
      then case sy_Runs s ! a of
        (r, p) \<Rightarrow>
          (case asks r p of
             None \<Rightarrow> drive env s as
           | Some q \<Rightarrow>
               (case memory_answer (sy_Db s) a q of
                  (ans, d') \<Rightarrow> drive env \<lparr>sy_Db = d', sy_Runs = (sy_Runs s)[a := (r, advance env r p ans)]\<rparr> as))
      else drive env s as)"

lemma drive_reaches: "system_reaches env memory_step s (drive env s as)"
proof (induction env s as rule: drive.induct)
  case (2 env s a as)
  show ?case
  proof (cases "a < length (sy_Runs s) \<and> asks (fst (sy_Runs s ! a)) (snd (sy_Runs s ! a)) \<noteq> None")
    case True
    then obtain r p q ans d' where s: "a < length (sy_Runs s)" "sy_Runs s ! a = (r, p)" "asks r p = Some q" "memory_answer (sy_Db s) a q = (ans, d')"
      by (cases "sy_Runs s ! a"; cases "memory_answer (sy_Db s) a (the (asks (fst (sy_Runs s ! a)) (snd (sy_Runs s ! a))))") auto
    let ?s = "\<lparr>sy_Db = d', sy_Runs = (sy_Runs s)[a := (r, advance env r p ans)]\<rparr>"
    have "system_step env memory_step s ?s" using s by (intro run_moves) (auto simp: memory_step_def)
    moreover have "system_reaches env memory_step ?s (drive env ?s as)"
      using 2(2) [OF s(1) s(2)[symmetric] s(3) s(4)[symmetric]] by simp
    ultimately show ?thesis using s by (simp add: converse_rtranclp_into_rtranclp)
  next
    case False
    then show ?thesis using 2 by (auto split: prod.splits option.splits)
  qed
qed simp

text \<open>Two runs of one command: the first applies it, the second finds its result.\<close>

definition score_command :: command where
  [go_eval]: "score_command = \<lparr>cm_ID = ''00000000-0000-4000-8000-000000000002'', cm_Kind = ''set'',
     cm_Steps = [\<lparr>ct_ExpectAffected = None, ct_Version = None, ct_Operation = ''update'', ct_Table = ''t'', ct_Values = [(''a'', VInt 5)],
       ct_Keys = [(''k'', VInt 7)]\<rparr>], cm_Hooks = []\<rparr>"

definition score_env :: command_env where
  [go_eval]: "score_env = \<lparr>ce_Reader = \<lparr>jr_version = \<lambda>b. Some 1, jr_document = \<lambda>v b. Some (stored_document score_command)\<rparr>,
     ce_Summary = \<lambda>b. Some (1, [1]), ce_Digest = \<lambda>s. replicate 32 (CHR ''d'')\<rparr>"

definition score_store :: "command_error + command_store" where
  [go_eval]: "score_store = NewCommandStore (ce_Digest score_env) True PostgresDialect ''n'' (Inr (VInt 3)) (Inr ''s'') None"

definition score_run :: "command_error + command_run" where
  [go_eval]: "score_run = (case score_store of Inl e \<Rightarrow> Inl e
     | Inr st \<Rightarrow> prepare_run score_env (\<lambda>q. None) None (\<lambda>t. None) None st score_command)"

definition score_system :: "command_run \<Rightarrow> memory_db command_system" where
  [go_eval]: "score_system r = drive score_env (system_start empty_memory [r, r]) [0, 0, 0, 0, 0, 0, 0, 0, 1]"

lemma preparedI:
  assumes "NewCommandStore (ce_Digest env) owned d ns tenant schema l = Inr st" "go_command c" "prepare_run env planned bad plain cancelled st c = Inr r"
  shows "prepared env r"
  unfolding prepared_def by (intro exI conjI) (rule assms)+

lemma inr_case: "(case s of Inl e \<Rightarrow> False | Inr r \<Rightarrow> P r) \<Longrightarrow> \<exists>r. s = Inr r \<and> P r"
  by (cases s) auto

lemma inr_bind: "(case s of Inl e \<Rightarrow> Inl e | Inr x \<Rightarrow> f x) = Inr r \<Longrightarrow> \<exists>x. s = Inr x \<and> f x = Inr r"
  by (cases s) auto

theorem commands_applied_once_witness:
  "\<exists>r. score_run = Inr r \<and>
    map snd (sy_Runs (score_system r)) = [Ended (Inr ([1], True)), Ended (Inr ([1], False))] \<and>
    (\<exists>b. (b, rn_Requests r) \<in> set (ld_Log (memory_shown (sy_Db (score_system r)))) \<and> b \<noteq> 1)"
proof -
  have ran: "(case score_run of Inl e \<Rightarrow> False
      | Inr r \<Rightarrow> map snd (sy_Runs (score_system r)) = [Ended (Inr ([1], True)), Ended (Inr ([1], False))])"
    by code_simp
  from inr_case [OF ran] obtain r where
    r: "score_run = Inr r" "map snd (sy_Runs (score_system r)) = [Ended (Inr ([1], True)), Ended (Inr ([1], False))]" by (elim exE conjE) (rule that)
  from inr_bind [OF r(1)[unfolded score_run_def]] obtain st where
    st: "score_store = Inr st" "prepare_run score_env (\<lambda>q. None) None (\<lambda>t. None) None st score_command = Inr r" by (elim exE conjE) (rule that)
  have go: "go_command score_command" by (simp add: score_command_def go_command_def)
  have prep: "list_all (prepared score_env) [r, r]"
    using preparedI [OF st(1)[unfolded score_store_def] go st(2)] by simp
  have start: "memory_shown empty_memory = empty_ledger" by (simp add: memory_shown_def empty_memory_def empty_ledger_def)
  have len: "length (sy_Runs (score_system r)) = 2" using arg_cong [OF r(2), of length] by simp
  have "snd (sy_Runs (score_system r) ! 1) = map snd (sy_Runs (score_system r)) ! 1" using len by (simp only: nth_map)
  then have second: "snd (sy_Runs (score_system r) ! 1) = Ended (Inr ([1], False))" unfolding r(2) by simp
  have at: "(1::nat) < length [r, r]" "[r, r] ! 1 = r" by simp_all
  note all = commands_applied_once [OF memory_serves start prep drive_reaches refl, of "[0, 0, 0, 0, 0, 0, 0, 0, 1]", folded score_system_def]
  from mp [OF spec [OF conjunct2 [OF all], of 1] at(1)]
  have "\<exists>b. (b, rn_Requests r) \<in> set (ld_Log (memory_shown (sy_Db (score_system r)))) \<and> b \<noteq> 1"
    unfolding second at(2) phase.case sum.case prod.case by blast
  with r show ?thesis by (intro exI [of _ r] conjI)
qed

end
