(* ===== verification/Spec2Isabelle.thy ===== *)
theory Spec2Isabelle
  imports GoPrelude GoValues SqlReference SqlPlaceholders SqlLogic PredicateView QueryStructs PredicateTree
    WhereBuilder Renderer RenderWhere RenderQuery ValueGuard TableNames PlanData WriteScope RiskLevels TablePolicies QuerySettings RiskEngine TenantPolicy
    TenantWrites PlanIdentity Authorization ExecutionPlan MigrationText MigrationPlan
    SelectBuilder QueryFacade BuilderSnapshot PolicyBuilder SqlTypes InputBudget SelectPlan OperationSpec
    Observation ObservedRows WriteAssignments WriteStatements WriteBuilders WriteChecks WritePlan WriteRun
    CursorPaging SchemaDiff JsonText CommandInput CommandStore
begin

text \<open>
  goquent builds SQL from Go values, inspects what it built, and lets a statement run only when its plan passes the
  checks an application has asked for.  This development models its core: how a statement is put together, what
  a plan knows about it, which policies it must satisfy and how it is sent once.  File names are relative to the
  repository; \<^verbatim>\<open>QB\<close> stands for \<^verbatim>\<open>orm/internal/querybuilder\<close>, whose \<^verbatim>\<open>internal/common/structs\<close>, \<^verbatim>\<open>internal/common/sqlutils\<close>,
  \<^verbatim>\<open>internal/db/base\<close> and \<^verbatim>\<open>internal/query\<close> directories are shortened to their last parts.

  \<^bold>\<open>How the parts interact.\<close>
  An application calls the fluent methods of a query (\<^verbatim>\<open>orm/query/query.go\<close>: QueryFacade).  Each method checks its operator or raw
  text and passes on to a builder (\<^verbatim>\<open>QB/api\<close>, \<^verbatim>\<open>query/selectbuilder.go\<close>, \<^verbatim>\<open>wherebuilder.go\<close>: SelectBuilder, WhereBuilder), which
  appends to a flat list of condition groups (QueryStructs).  When the query is planned the mandatory conditions of the
  policies are added to a copy of the builder (\<^verbatim>\<open>policyBuilder\<close> of \<^verbatim>\<open>orm/query/tenant_policy.go\<close>: PolicyBuilder), the lists become
  a condition tree (\<^verbatim>\<open>structs/predicate.go\<close>: PredicateTree), and one walk emits SQL, bound values and an inspection view of
  the tree (\<^verbatim>\<open>db/base/predicate.go\<close>: RenderWhere, PredicateView).  The plan (\<^verbatim>\<open>orm/query/plan.go\<close>: PlanData, SelectPlan,
  BuilderSnapshot) holds that view; the risk engine, table policies, write scope and tenant analyses read it and decide
  warnings and a gate (RiskEngine, TablePolicies, WriteScope, TenantPolicy).  A plan that is finalized is sealed with the
  statement it will send (\<^verbatim>\<open>orm/query/execution.go\<close>: ExecutionPlan), compared by a canonical identity (PlanIdentity),
  possibly authorised by an external provider (Authorization), and claimed by one compare-and-swap.  Statements
  that run are counted by an observation scope (\<^verbatim>\<open>orm/internal/observe\<close>: Observation, ObservedRows).
  Writes take the same way with their own builders, assignments and expected results (WriteBuilders, WritePlan).
  Operation documents (\<^verbatim>\<open>orm/operation\<close>: OperationSpec) are checked against declared types (SqlTypes) and compiled to a query of the
  facade.  Migrations (\<^verbatim>\<open>orm/migration\<close>: MigrationText, MigrationPlan, SchemaDiff) have a reader, plan and gate of their own.

  \<^bold>\<open>Text and references.\<close>
  GoPrelude holds Go strings as byte lists with the functions of \<^verbatim>\<open>strings\<close> and \<^verbatim>\<open>strconv\<close> the sources call, and the lemmas on
  lists all theories share; GoValues holds the dynamic values bound to placeholders.
  SqlReference models \<^verbatim>\<open>sqlutils/reference.go\<close>: parsing and quoting of references.  Its lemmas show that a quoted name is
  one token and that what is escaped parses back (C1, C3).
  SqlPlaceholders models \<^verbatim>\<open>sqlutils/placeholders.go\<close>: one scanner that skips literals and comments, with a callback for each way of
  expanding placeholders.  The locale \<^verbatim>\<open>sql_rewriter\<close> carries the scanner's laws and is interpreted on the three callbacks (C4, C5).

  \<^bold>\<open>Conditions.\<close>
  QueryStructs, PredicateTree and WhereBuilder model \<^verbatim>\<open>structs/query.go\<close>, \<^verbatim>\<open>structs/predicate.go\<close> and
  \<^verbatim>\<open>query/wherebuilder.go\<close>.  The builder invariant is kept by every method, callbacks included, and the token stream
  of a condition list, read with SQL's precedence and SqlLogic's three values, means the tree (C9, C11).
  PredicateView models \<^verbatim>\<open>orm/predicate/predicate.go\<close> with \<^verbatim>\<open>orm/internal/valuecopy\<close>: it copies within its bounds or says
  that it did not (C7).  Renderer is the monad of rendering, RenderWhere the leaves of
  \<^verbatim>\<open>db/base/where_base.go\<close> and the dialects, and the walk; the locale \<^verbatim>\<open>leaf_renderer\<close> states what the walk needs
  of a leaf renderer and is interpreted on the dialects' and the base renderer.  The clause spells out the tree the view
  shows (C13).

  \<^bold>\<open>Statements.\<close>
  RenderQuery models \<^verbatim>\<open>db/base/*_base.go\<close> and the dialects' \<^verbatim>\<open>Build\<close>: every placeholder issued has one bound value (C14)
  and the fuel is enough (C15).  SelectBuilder, SelectPlan and BuilderSnapshot model the builder around the
  conditions and the way its parts enter a plan.
  WriteAssignments models \<^verbatim>\<open>orm/internal/writeinput/expression.go\<close> and \<^verbatim>\<open>conflict.go\<close>: assignments by expression with numbered
  arguments, and conflict clauses.  WriteStatements models \<^verbatim>\<open>db/base/insert_base.go\<close>, \<^verbatim>\<open>update_base.go\<close> and \<^verbatim>\<open>write_options.go\<close>;
  WriteBuilders models \<^verbatim>\<open>query/insertbuilder.go\<close>, \<^verbatim>\<open>updatebuilder.go\<close>, \<^verbatim>\<open>deletebuilder.go\<close> and the snapshots of \<^verbatim>\<open>QB/api\<close>.  An UPDATE numbers
  its SET clause after its joins and binds one value for each placeholder (C10); a batch INSERT places each row's
  value under its column (C12).

  \<^bold>\<open>Plans and policies.\<close>
  RiskLevels, RiskEngine: \<^verbatim>\<open>orm/query/risk.go\<close> and \<^verbatim>\<open>suppression.go\<close>: which warnings a plan gets, what suppresses one, when the gate
  opens (C19, C21 to C23).  QuerySettings, TablePolicies, TableNames: \<^verbatim>\<open>settings.go\<close>, \<^verbatim>\<open>policy.go\<close>: registry and policy
  sets share the locale \<^verbatim>\<open>policy_store\<close>.  WriteScope: \<^verbatim>\<open>write_scope.go\<close>: a write said to touch at most one row does, judged
  against every reading of the tree on a row (TreeMeaning, C17), and only for the sealed statement (C18).
  TenantPolicy, PolicyBuilder, TenantWrites: \<^verbatim>\<open>tenant_policy.go\<close>, \<^verbatim>\<open>tenant_write.go\<close>: strict statements keep to the tenant's rows, no
  condition of the application escapes the mandatory ones, and written rows belong to the tenant (C25, C26, C38).  The
  locale \<^verbatim>\<open>branch_check\<close> is the analysis both the tenant check and the required filters run on a tree.
  WritePlan: \<^verbatim>\<open>write_plan.go\<close>, \<^verbatim>\<open>generic.go\<close>, \<^verbatim>\<open>optimistic.go\<close>: an UPDATE, DELETE, INSERT, UPSERT or INSERT SELECT from the facade to
  its plan, with the version an optimistic write compares (C27).  WriteChecks: \<^verbatim>\<open>orm/internal/writecheck\<close>: the number of
  rows a write must affect.  ValueGuard: \<^verbatim>\<open>orm/internal/valueguard\<close>: what may be printed (C16).

  \<^bold>\<open>Execution.\<close>
  PlanIdentity: \<^verbatim>\<open>orm/internal/planidentity\<close>: the encoding of values is injective and equal identities have equal statements
  (C28, C29).  Authorization: consent is for this request and this statement (C30).  ExecutionPlan: what runs is what was
  planned; concurrent attempts are a step relation whose reachable states send a plan at most once, and whose runs can all
  be ended (C31 to C33).  Observation: every operation of the scope as a step, its invariant over all interleavings
  (C24).  ObservedRows: a reader ends its ticket once.

  \<^bold>\<open>Commands.\<close>
  JsonText: the text \<^verbatim>\<open>json.Marshal\<close> gives structs, which determines them.  CommandInput: \<^verbatim>\<open>orm/command_input.go\<close>: what a command may
  hold, the requests it makes and the canonical text it is stored by; two commands have the same text exactly when
  they are the same command, and a stored text is read back (C2).  CommandStore: \<^verbatim>\<open>orm/command_store.go\<close>: \<^verbatim>\<open>Run\<close> as a sequence of
  requests with what it does on each answer (\<^verbatim>\<open>asks\<close>, \<^verbatim>\<open>advance\<close>); several runs interleave at their requests as a step relation.
  The database is a parameter, and \<^verbatim>\<open>serves_ledger\<close> is the hypothesis that it keeps to what is documented of unique keys,
  transactions and commits that fail; a database in memory is shown to do so.  However the runs interleave, a command is
  applied at most once and all results are those of the one application (C6); each answer brings a run nearer to its end.

  \<^bold>\<open>Documents and migrations.\<close>
  SqlTypes, InputBudget, OperationSpec: \<^verbatim>\<open>orm/internal/sqltype\<close>, \<^verbatim>\<open>internal/inputjson/budget.go\<close>, \<^verbatim>\<open>orm/operation\<close>: accepted values
  inhabit the declared type as a set (C39), and an accepted document compiles to a query with exactly its filters and
  those the policies require (C40).  MigrationText: splitting and the recognising expressions, run by a leftmost-first
  matcher (C34).  MigrationPlan: classification, planning, review and running (C35).
  SchemaDiff: \<^verbatim>\<open>schema.go\<close>, \<^verbatim>\<open>schema_compare.go\<close>, \<^verbatim>\<open>schema_constraints.go\<close>, \<^verbatim>\<open>schema_context.go\<close>: comparing two declared schemas is
  silent exactly when both are complete and agree (C20).  CursorPaging: \<^verbatim>\<open>orm/query/cursor.go\<close>: the condition of a cursor continues
  the rows where a page ended (C8).  QueryFacade: every operator and raw text in
  a built query was checked, and a recorded error stops the build (C36, C37).

  \<^bold>\<open>Bounds and fuel.\<close>
  \<^verbatim>\<open>Build\<close> calls itself on subqueries and \<^verbatim>\<open>ValidateQuery\<close> refuses more than 64 levels before anything is rendered; \<^verbatim>\<open>build_fuel\<close> is 66,
  and C15 shows that a validated query never reaches its end.  The copier of inspection views stops at depth 64,
  65536 slots and 8388608 bytes; the output guard, the input budget (1 MiB, 32 levels, 16384 nodes) and the observation
  tables (256, 1024 and 128 entries, counters of at most 2 to the 53, less 1) have the source's constants.  The matcher of
  MigrationText takes as fuel the length of its text, which every repetition that consumes shortens.  Machine integers whose
  width can matter are words; counts of list elements and clock readings are \<^verbatim>\<open>nat\<close> and \<^verbatim>\<open>int\<close>.

  \<^bold>\<open>What is a parameter.\<close>
  The texts \<^verbatim>\<open>encoding/json\<close> gives a value, the text of a float, keyed digests, the current time, the provider of authorisations and
  the driver's answers are arguments of the definitions that use them.  A Go map is an association list with
  distinct keys in the order one iteration visits it.

  \<^bold>\<open>Not modelled.\<close>
  Case mapping and the folding of the recognising expressions act on ASCII letters only.  Values, condition lists and builders are
  trees: two builders that share a subquery, and a cycle made through reflection, are out of the model (the source's
  depth bound rejects the latter).  Error texts leave out the values quoted in them.  Registry and scope locks are taken as making
  their operations atomic.  The record of diagnostics of an operation is for display and left out, as are the JSON forms of
  plans, events and policies.
  Not modelled at all: the calls into \<^verbatim>\<open>database/sql\<close> and the scanning of rows; RETURNING; the adapter and facade
  of \<^verbatim>\<open>orm/\<close> that read model structs by reflection; EXPLAIN and catalog reads (\<^verbatim>\<open>performance*.go\<close>, \<^verbatim>\<open>schema_catalog.go\<close> and
  \<^verbatim>\<open>schema_read.go\<close> of the migrations) with the drift, status and preflight reports on them; review receipts; the source review (\<^verbatim>\<open>orm/review\<close>, an
  analysis of Go syntax trees on \<^verbatim>\<open>go/types\<close>) and its results; manifests, the MCP server and the command line, which
  read and write files and JSON.  Of the commands the catalog checks of the ledger and state tables (\<^verbatim>\<open>command_schema.go\<close>) are an
  answer the run is given.
\<close>

end
